(* ===== verification/Prelude.thy ===== *)
theory Prelude
  imports
    Complex_Main
    "HOL-Library.AList"
    "HOL-Library.Sublist"
    "HOL-Library.Char_ord"
    "HOL-Library.List_Lexorder"
    "HOL-Library.Product_Lexorder"
begin

text \<open>
  What every component shares.

  \<^item> Python text is a \<open>string\<close> of UTF-8 bytes: equality and the lexicographic order of
    UTF-8 byte strings agree with those of code points, which is all the modelled code uses.
  \<^item> A Python \<open>dict\<close> is an association list in insertion order: \<open>dget\<close>, \<open>dset\<close> and
    \<open>dpop\<close> are \<open>d.get(k)\<close>, \<open>d[k] = v\<close> (which keeps the place of a present key and
    appends a new one) and \<open>d.pop(k, None)\<close>.
  \<^item> An operation that may raise returns \<open>('e + 'a) \<times> 's\<close>: the exception or the
    value, together with the state, which an exception leaves as far changed as the code had
    changed it.
  \<^item> An instant (\<open>datetime\<close> with a time zone) is an \<open>int\<close>, the microseconds since the
    epoch in UTC; a reading of the monotonic clock is a \<open>rat\<close> of seconds.
\<close>

type_synonym time = int
type_synonym seconds = rat
type_synonym ('k, 'v) dict = "('k \<times> 'v) list"
type_synonym ('e, 'a, 's) outcome = "('e + 'a) \<times> 's"

named_theorems dict_simps \<open>lookup after an update or a removal\<close>
named_theorems wf_intros \<open>preservation of the well-formedness of a component's state\<close>

section \<open>Dictionaries\<close>

abbreviation dget :: "('k, 'v) dict \<Rightarrow> 'k \<Rightarrow> 'v option" where
  "dget d k \<equiv> map_of d k"

abbreviation dset :: "'k \<Rightarrow> 'v \<Rightarrow> ('k, 'v) dict \<Rightarrow> ('k, 'v) dict" where
  "dset k v d \<equiv> AList.update k v d"

abbreviation dpop :: "'k \<Rightarrow> ('k, 'v) dict \<Rightarrow> ('k, 'v) dict" where
  "dpop k d \<equiv> AList.delete k d"

abbreviation keys :: "('k, 'v) dict \<Rightarrow> 'k set" where
  "keys d \<equiv> fst ` set d"

abbreviation wf_dict :: "('k, 'v) dict \<Rightarrow> bool" where
  "wf_dict d \<equiv> distinct (map fst d)"

lemma dget_dset [simp, dict_simps]: "dget (dset k v d) k' = (if k' = k then Some v else dget d k')"
  by (simp add: update_conv')

lemma dget_dpop [simp, dict_simps]: "dget (dpop k d) k' = (if k' = k then None else dget d k')"
  by (simp add: delete_conv')

lemma keys_dset [simp, dict_simps]: "keys (dset k v d) = insert k (keys d)"
proof -
  have "set (map fst (dset k v d)) = insert k (set (map fst d))"
    by (auto simp only: update_keys set_append set_simps split: if_splits)
  then show ?thesis by simp
qed

lemma keys_dpop [simp, dict_simps]: "keys (dpop k d) = keys d - {k}"
proof -
  have "set (map fst (dpop k d)) = set (map fst d) - {k}"
    by (simp only: delete_keys set_removeAll)
  then show ?thesis by simp
qed

lemma wf_dset [simp, intro]: "wf_dict d \<Longrightarrow> wf_dict (dset k v d)"
  by (rule distinct_update)

lemma wf_dpop [simp, intro]: "wf_dict d \<Longrightarrow> wf_dict (dpop k d)"
  by (rule distinct_delete)

lemma dget_in_set: "wf_dict d \<Longrightarrow> (dget d k = Some v) = ((k, v) \<in> set d)"
  by (rule map_of_eq_Some_iff)

lemma dget_SomeD: "dget d k = Some v \<Longrightarrow> (k, v) \<in> set d"
  by (rule map_of_SomeD)

lemma dget_None_iff: "(dget d k = None) = (k \<notin> keys d)"
  by (rule map_of_eq_None_iff)

lemma dset_last:
  assumes "dget c k = None"
  shows "dset k v c = c @ [(k, v)]"
  using assms by (induction c) (auto split: if_splits)

section \<open>Lists\<close>

lemma takeWhile_neq_less: "x \<in> set xs \<Longrightarrow> length (takeWhile (\<lambda>i. i \<noteq> x) xs) < length xs"
  by (induction xs) auto

text \<open>The elements whose key is not in a set and appears for the first time.\<close>

fun keep_first :: "('a \<Rightarrow> 'k) \<Rightarrow> 'k set \<Rightarrow> 'a list \<Rightarrow> 'a list" where
  "keep_first key seen [] = []"
| "keep_first key seen (x # xs) =
     (if key x \<in> seen then keep_first key seen xs else x # keep_first key (insert (key x) seen) xs)"

lemma keep_first_keys: "key ` set (keep_first key seen xs) = key ` set xs - seen"
  by (induction xs arbitrary: seen) auto

lemma keep_first_sub: "x \<in> set (keep_first key seen xs) \<Longrightarrow> x \<in> set xs"
  by (induction xs arbitrary: seen) (auto split: if_splits)

lemma keep_first_distinct: "distinct (map key (keep_first key seen xs))"
  by (induction xs arbitrary: seen) (auto simp: keep_first_keys)

end
