(* ===== verification/Clock.thy ===== *)
theory Clock
  imports Prelude
begin

text \<open>
  The part of Python's \<open>datetime\<close> the program uses, over instants in microseconds:
  calendar dates (as day numbers, 1970-01-01 being day 0), weekdays, the wall clock of
  \<open>Asia/Shanghai\<close> (UTC+8 for every instant since 1991), and the texts of \<open>isoformat\<close>
  and \<open>strftime\<close>.
\<close>

type_synonym date = int

section \<open>Decimal text\<close>

definition digit_char :: "nat \<Rightarrow> char" where
  "digit_char n = char_of (48 + n)"

fun dec_digits :: "nat \<Rightarrow> string" where
  "dec_digits n = (if n < 10 then [digit_char n] else dec_digits (n div 10) @ [digit_char (n mod 10)])"

declare dec_digits.simps [simp del]

definition zero_pad :: "nat \<Rightarrow> string \<Rightarrow> string" where
  "zero_pad w s = replicate (w - length s) CHR ''0'' @ s"

definition str_of_int :: "int \<Rightarrow> string" where
  "str_of_int i = (if i < 0 then CHR ''-'' # dec_digits (nat (- i)) else dec_digits (nat i))"

definition is_digit :: "char \<Rightarrow> bool" where
  "is_digit c \<longleftrightarrow> 48 \<le> (of_char c :: nat) \<and> (of_char c :: nat) \<le> 57"

definition digit_val :: "char \<Rightarrow> nat" where
  "digit_val c = of_char c - 48"

definition dec_val :: "string \<Rightarrow> nat" where
  "dec_val s = foldl (\<lambda>n c. 10 * n + digit_val c) 0 s"

lemma of_char_digit_char: "n < 10 \<Longrightarrow> of_char (digit_char n) = 48 + n"
  by (simp add: digit_char_def)

lemma is_digit_digit_char [simp]: "n < 10 \<Longrightarrow> is_digit (digit_char n)"
  by (simp add: is_digit_def of_char_digit_char)

lemma digit_val_digit_char [simp]: "n < 10 \<Longrightarrow> digit_val (digit_char n) = n"
  by (simp add: digit_val_def of_char_digit_char)

lemma dec_val_snoc [simp]: "dec_val (s @ [c]) = 10 * dec_val s + digit_val c"
  by (simp add: dec_val_def)

lemma dec_val_Nil [simp]: "dec_val [] = 0"
  by (simp add: dec_val_def)

lemma dec_val_dec_digits [simp]: "dec_val (dec_digits n) = n"
proof (induction n rule: dec_digits.induct)
  case (1 n)
  show ?case
  proof (cases "n < 10")
    case True
    then show ?thesis
      using dec_val_snoc [of "[]" "digit_char n"] by (simp add: dec_digits.simps [of n])
  next
    case False
    with 1 show ?thesis by (simp add: dec_digits.simps [of n])
  qed
qed

lemma dec_digits_digits: "c \<in> set (dec_digits n) \<Longrightarrow> is_digit c"
proof (induction n rule: dec_digits.induct)
  case (1 n)
  then show ?case
    by (cases "n < 10") (auto simp: dec_digits.simps [of n])
qed

lemma dec_digits_inj: "dec_digits m = dec_digits n \<Longrightarrow> m = n"
  by (metis dec_val_dec_digits)

section \<open>Dates\<close>

text \<open>\<open>date.weekday()\<close>: Monday is 0; day 0 was a Thursday.\<close>

definition weekday :: "date \<Rightarrow> int" where
  "weekday d = (d + 3) mod 7"

definition civil_from_days :: "date \<Rightarrow> int \<times> int \<times> int" where
  "civil_from_days d =
     (let z = d + 719468;
          era = z div 146097;
          doe = z mod 146097;
          yoe = (doe - doe div 1460 + doe div 36524 - doe div 146096) div 365;
          doy = doe - (365 * yoe + yoe div 4 - yoe div 100);
          mp = (5 * doy + 2) div 153;
          day = doy - (153 * mp + 2) div 5 + 1;
          month = (if mp < 10 then mp + 3 else mp - 9);
          year = yoe + era * 400 + (if month \<le> 2 then 1 else 0)
      in (year, month, day))"

definition days_from_civil :: "int \<Rightarrow> int \<Rightarrow> int \<Rightarrow> date" where
  "days_from_civil y m d =
     (let y' = (if m \<le> 2 then y - 1 else y);
          era = y' div 400;
          yoe = y' mod 400;
          doy = (153 * (if m > 2 then m - 3 else m + 9) + 2) div 5 + d - 1;
          doe = yoe * 365 + yoe div 4 - yoe div 100 + doy
      in era * 146097 + doe - 719468)"

section \<open>Instants and the wall clock\<close>

definition usec_per_sec :: int where
  "usec_per_sec = 1000000"

definition hours :: "int \<Rightarrow> time" where
  "hours n = n * 3600 * usec_per_sec"

definition shanghai_seconds :: "time \<Rightarrow> int" where
  "shanghai_seconds t = t div usec_per_sec + 8 * 3600"

definition shanghai_date :: "time \<Rightarrow> date" where
  "shanghai_date t = shanghai_seconds t div 86400"

definition shanghai_second_of_day :: "time \<Rightarrow> int" where
  "shanghai_second_of_day t = shanghai_seconds t mod 86400"

definition shanghai_minute_of_day :: "time \<Rightarrow> int" where
  "shanghai_minute_of_day t = shanghai_second_of_day t div 60"

lemma shanghai_second_of_day_range:
  "0 \<le> shanghai_second_of_day t \<and> shanghai_second_of_day t < 86400"
  by (simp add: shanghai_second_of_day_def)

definition pad_int :: "nat \<Rightarrow> int \<Rightarrow> string" where
  "pad_int w i = zero_pad w (str_of_int i)"

text \<open>\<open>strftime("%Y%m%d")\<close>, \<open>strftime("%H:%M:%S")\<close> and \<open>strftime("%H:%M")\<close>.\<close>

definition date_text :: "date \<Rightarrow> string" where
  "date_text d = (case civil_from_days d of (y, m, dd) \<Rightarrow> pad_int 4 y @ pad_int 2 m @ pad_int 2 dd)"

definition hms_text :: "int \<Rightarrow> string" where
  "hms_text s = pad_int 2 (s div 3600) @ '':'' @ pad_int 2 (s div 60 mod 60) @ '':'' @ pad_int 2 (s mod 60)"

definition hm_text :: "int \<Rightarrow> string" where
  "hm_text s = pad_int 2 (s div 3600) @ '':'' @ pad_int 2 (s div 60 mod 60)"

text \<open>\<open>isoformat()\<close> of a UTC instant: the microseconds are left out when they are zero.\<close>

definition isoformat :: "time \<Rightarrow> string" where
  "isoformat t =
     (let s = t div usec_per_sec; us = t mod usec_per_sec in
      case civil_from_days (s div 86400) of (y, m, d) \<Rightarrow>
        pad_int 4 y @ ''-'' @ pad_int 2 m @ ''-'' @ pad_int 2 d @ ''T'' @ hms_text (s mod 86400)
        @ (if us = 0 then [] else ''.'' @ pad_int 6 us) @ ''+00:00'')"

end
