(* ===== verification/Models.thy ===== *)
theory Models
  imports Clock
begin

text \<open>
  \<open>level2_service/models.py\<close>: the task record shared by the queue, the runner and the web
  API, its enumerations, the normalisation of intraday series, and the public document the
  API returns for a task.
\<close>

section \<open>JSON-like values\<close>

text \<open>
  What \<open>json.loads\<close> makes of a document: \<open>JNum\<close> is a Python \<open>int\<close> (its value is integral), \<open>JFloat\<close> a
  number written with a fraction or an exponent, by its exact value, and \<open>JNonFinite\<close> one of the
  constants \<open>NaN\<close>, \<open>Infinity\<close> and \<open>-Infinity\<close> that Python reads as well.
\<close>

datatype json = JNull | JBool bool | JNum rat | JFloat rat | JNonFinite string | JStr string
  | JArr "json list" | JObj "(string \<times> json) list"

fun jget :: "json \<Rightarrow> string \<Rightarrow> json option" where
  "jget (JObj d) k = dget d k"
| "jget _ k = None"

definition jget_or :: "json \<Rightarrow> string \<Rightarrow> json \<Rightarrow> json" where
  "jget_or j k dflt = (case jget j k of None \<Rightarrow> dflt | Some v \<Rightarrow> v)"

fun is_jobj :: "json \<Rightarrow> bool" where
  "is_jobj (JObj _) = True"
| "is_jobj _ = False"

text \<open>What a Python \<open>for\<close> loop iterates over; None is the \<open>TypeError\<close> of the rest.\<close>

fun jiter :: "json \<Rightarrow> json list option" where
  "jiter (JArr xs) = Some xs"
| "jiter (JObj d) = Some (map (JStr \<circ> fst) d)"
| "jiter (JStr s) = Some (map (\<lambda>c. JStr [c]) s)"
| "jiter _ = None"

text \<open>A value that is false in a condition.\<close>

fun falsy :: "json \<Rightarrow> bool" where
  "falsy JNull = True"
| "falsy (JBool b) = (\<not> b)"
| "falsy (JNum r) = (r = 0)"
| "falsy (JFloat r) = (r = 0)"
| "falsy (JNonFinite c) = False"
| "falsy (JStr s) = (s = [])"
| "falsy (JArr xs) = (xs = [])"
| "falsy (JObj d) = (d = [])"

definition jstr_opt :: "string option \<Rightarrow> json" where
  "jstr_opt x = (case x of None \<Rightarrow> JNull | Some s \<Rightarrow> JStr s)"

section \<open>Enumerations\<close>

datatype capture_kind = CK_LARGE_ORDER_NET | CK_LARGE_ORDER_AMOUNT | CK_RETAIL_COUNT

datatype metric_kind = STOCK_NAME | CURRENT_PRICE | CHANGE_PERCENT | TURNOVER_RATE
  | RETAIL_COUNT | LARGE_ORDER_NET | LARGE_ORDER_AMOUNT | MACDFS
  | MAIN_FLOW_TODAY_NET | MAIN_FLOW_TODAY_VISIBLE | MAIN_FLOW_TODAY_HIDDEN | MAIN_FLOW_TODAY_RETAIL
  | MAIN_FLOW_THREE_DAY_NET | MAIN_FLOW_THREE_DAY_VISIBLE | MAIN_FLOW_THREE_DAY_HIDDEN
  | MAIN_FLOW_THREE_DAY_RETAIL
  | MAIN_FLOW_FIVE_DAY_NET | MAIN_FLOW_FIVE_DAY_VISIBLE | MAIN_FLOW_FIVE_DAY_HIDDEN
  | MAIN_FLOW_FIVE_DAY_RETAIL
  | MAIN_FLOW_TODAY_UNIT | MAIN_FLOW_THREE_DAY_UNIT | MAIN_FLOW_FIVE_DAY_UNIT

datatype value_source = INTERFACE | OCR

datatype capture_status = PENDING | READY | SKIPPED | CS_EXPIRED

datatype task_status = QUEUED | RUNNING | WAITING_ADMIN | COMPLETED | MARKET_SNAPSHOT | PARTIAL
  | FAILED | EXPIRED

definition capture_kinds :: "capture_kind list" where
  "capture_kinds = [CK_LARGE_ORDER_NET, CK_LARGE_ORDER_AMOUNT, CK_RETAIL_COUNT]"

lemma capture_kinds_all [simp]: "k \<in> set capture_kinds"
  by (cases k) (simp_all add: capture_kinds_def)

definition metric_kinds :: "metric_kind list" where
  "metric_kinds = [STOCK_NAME, CURRENT_PRICE, CHANGE_PERCENT, TURNOVER_RATE, RETAIL_COUNT, LARGE_ORDER_NET,
     LARGE_ORDER_AMOUNT, MACDFS, MAIN_FLOW_TODAY_NET, MAIN_FLOW_TODAY_VISIBLE, MAIN_FLOW_TODAY_HIDDEN,
     MAIN_FLOW_TODAY_RETAIL, MAIN_FLOW_THREE_DAY_NET, MAIN_FLOW_THREE_DAY_VISIBLE, MAIN_FLOW_THREE_DAY_HIDDEN,
     MAIN_FLOW_THREE_DAY_RETAIL, MAIN_FLOW_FIVE_DAY_NET, MAIN_FLOW_FIVE_DAY_VISIBLE, MAIN_FLOW_FIVE_DAY_HIDDEN,
     MAIN_FLOW_FIVE_DAY_RETAIL, MAIN_FLOW_TODAY_UNIT, MAIN_FLOW_THREE_DAY_UNIT, MAIN_FLOW_FIVE_DAY_UNIT]"

lemma metric_kinds_all [simp]: "k \<in> set metric_kinds"
  by (cases k) (simp_all add: metric_kinds_def)

fun capture_kind_value :: "capture_kind \<Rightarrow> string" where
  "capture_kind_value CK_LARGE_ORDER_NET = ''LARGE_ORDER_NET''"
| "capture_kind_value CK_LARGE_ORDER_AMOUNT = ''LARGE_ORDER_AMOUNT''"
| "capture_kind_value CK_RETAIL_COUNT = ''RETAIL_COUNT''"

fun capture_status_value :: "capture_status \<Rightarrow> string" where
  "capture_status_value PENDING = ''PENDING''"
| "capture_status_value READY = ''READY''"
| "capture_status_value SKIPPED = ''SKIPPED''"
| "capture_status_value CS_EXPIRED = ''EXPIRED''"

fun value_source_value :: "value_source \<Rightarrow> string" where
  "value_source_value INTERFACE = ''INTERFACE''"
| "value_source_value OCR = ''OCR''"

fun task_status_value :: "task_status \<Rightarrow> string" where
  "task_status_value QUEUED = ''QUEUED''"
| "task_status_value RUNNING = ''RUNNING''"
| "task_status_value WAITING_ADMIN = ''WAITING_ADMIN''"
| "task_status_value COMPLETED = ''COMPLETED''"
| "task_status_value MARKET_SNAPSHOT = ''MARKET_SNAPSHOT''"
| "task_status_value PARTIAL = ''PARTIAL''"
| "task_status_value FAILED = ''FAILED''"
| "task_status_value EXPIRED = ''EXPIRED''"

lemma task_status_value_inj: "task_status_value a = task_status_value b \<Longrightarrow> a = b"
  by (cases a; cases b; simp)

definition required_metrics :: "metric_kind list" where
  "required_metrics = [STOCK_NAME, CURRENT_PRICE, CHANGE_PERCENT, TURNOVER_RATE, RETAIL_COUNT,
     LARGE_ORDER_NET, LARGE_ORDER_AMOUNT, MACDFS]"

text \<open>\<open>FUND_FLOW_PERIODS\<close> with \<open>FUND_FLOW_METRICS\<close>: a period, the metric of its unit, and
  the metrics of its fields.\<close>

definition fund_flow_periods :: "(string \<times> metric_kind) list" where
  "fund_flow_periods = [(''today'', MAIN_FLOW_TODAY_UNIT), (''three_day'', MAIN_FLOW_THREE_DAY_UNIT),
     (''five_day'', MAIN_FLOW_FIVE_DAY_UNIT)]"

definition fund_flow_metrics :: "string \<Rightarrow> (string \<times> metric_kind) list" where
  "fund_flow_metrics period =
     (if period = ''today'' then
        [(''main_net_inflow'', MAIN_FLOW_TODAY_NET), (''main_visible_inflow'', MAIN_FLOW_TODAY_VISIBLE),
         (''main_hidden_inflow'', MAIN_FLOW_TODAY_HIDDEN), (''retail_inflow'', MAIN_FLOW_TODAY_RETAIL)]
      else if period = ''three_day'' then
        [(''main_net_inflow'', MAIN_FLOW_THREE_DAY_NET), (''main_visible_inflow'', MAIN_FLOW_THREE_DAY_VISIBLE),
         (''main_hidden_inflow'', MAIN_FLOW_THREE_DAY_HIDDEN), (''retail_inflow'', MAIN_FLOW_THREE_DAY_RETAIL)]
      else if period = ''five_day'' then
        [(''main_net_inflow'', MAIN_FLOW_FIVE_DAY_NET), (''main_visible_inflow'', MAIN_FLOW_FIVE_DAY_VISIBLE),
         (''main_hidden_inflow'', MAIN_FLOW_FIVE_DAY_HIDDEN), (''retail_inflow'', MAIN_FLOW_FIVE_DAY_RETAIL)]
      else [])"

text \<open>The ten thousand unit sign, in UTF-8.\<close>

definition wan_unit :: string where
  "wan_unit = map char_of [228::nat, 184, 135]"

definition intraday_metrics :: "(string \<times> metric_kind \<times> string option) list" where
  "intraday_metrics = [(''large_order_net'', LARGE_ORDER_NET, None),
     (''large_order_amount'', LARGE_ORDER_AMOUNT, Some wan_unit),
     (''retail_count'', RETAIL_COUNT, None)]"

section \<open>Records\<close>

text \<open>\<open>LongCaptureRecord\<close>; a \<open>CaptureRecord\<close> is the same with its kind, which is the key it is
  stored under.\<close>

type_synonym path = string

record capture =
  cap_status :: capture_status
  cap_path :: "path option"
  captured_at :: "time option"

definition expires_at :: "capture \<Rightarrow> time option" where
  "expires_at c = map_option (\<lambda>t. t + hours 24) (captured_at c)"

definition new_capture :: "capture_status \<Rightarrow> capture" where
  "new_capture st = \<lparr>cap_status = st, cap_path = None, captured_at = None\<rparr>"

record source_errors =
  core_metrics :: "string option"
  main_fund_flow :: "string option"

definition no_source_errors :: source_errors where
  "no_source_errors = \<lparr>core_metrics = None, main_fund_flow = None\<rparr>"

record task =
  task_id :: string
  symbol :: string
  include_long_capture :: bool
  status :: task_status
  created_at :: time
  updated_at :: time
  completed_at :: "time option"
  collected_at :: "time option"
  error_code :: "string option"
  source_errors :: source_errors
  captures :: "capture_kind \<Rightarrow> capture"
  vals :: "metric_kind \<Rightarrow> string option"
  value_sources :: "metric_kind \<Rightarrow> value_source option"
  intraday_series :: "metric_kind \<Rightarrow> json option"
  market_snapshot :: "json option"
  long_capture :: capture
  maintenance_namespace :: "string option"
  maintenance_owner_digest :: "string option"

section \<open>Intraday series\<close>

text \<open>
  The body of the loop of \<open>normalized_intraday_series\<close> for one metric: a series that is not a
  dictionary becomes an empty one, points without a time are dropped, and of the others only
  the time and the value are kept. None is the \<open>TypeError\<close> of points that are not iterable.
\<close>

definition timed_point :: "json \<Rightarrow> bool" where
  "timed_point p \<longleftrightarrow> is_jobj p \<and> jget_or p ''time'' JNull \<noteq> JNull"

definition normalized_point :: "json \<Rightarrow> json" where
  "normalized_point p =
     JObj [(''time'', jget_or p ''time'' JNull), (''value'', jget_or p ''value'' JNull)]"

definition normalized_series :: "json option \<Rightarrow> string option \<Rightarrow> json option" where
  "normalized_series provided default_unit =
     (let series = (case provided of None \<Rightarrow> JObj [] | Some j \<Rightarrow> j);
          raw_points = (if is_jobj series then jiter (jget_or series ''points'' (JArr [])) else Some []);
          unit = (if is_jobj series then jget_or series ''unit'' (jstr_opt default_unit)
                  else jstr_opt default_unit)
      in case raw_points of None \<Rightarrow> None
         | Some ps \<Rightarrow> Some (JObj [(''unit'', unit),
               (''points'', JArr (map normalized_point (filter timed_point ps)))]))"

fun normalized_intraday_loop ::
  "(string \<times> metric_kind \<times> string option) list \<Rightarrow> (metric_kind \<Rightarrow> json option) \<Rightarrow>
   (metric_kind \<Rightarrow> json option) \<Rightarrow> (metric_kind \<Rightarrow> json option) option" where
  "normalized_intraday_loop [] source acc = Some acc"
| "normalized_intraday_loop ((_, kind, default_unit) # rest) source acc =
     (case normalized_series (source kind) default_unit of None \<Rightarrow> None
      | Some s \<Rightarrow> normalized_intraday_loop rest source (acc(kind \<mapsto> s)))"

definition normalized_intraday_series ::
  "(metric_kind \<Rightarrow> json option) option \<Rightarrow> (metric_kind \<Rightarrow> json option) option" where
  "normalized_intraday_series provided =
     normalized_intraday_loop intraday_metrics
       (case provided of None \<Rightarrow> Map.empty | Some m \<Rightarrow> m) Map.empty"

definition empty_intraday_series :: "metric_kind \<Rightarrow> json option" where
  "empty_intraday_series = the (normalized_intraday_series None)"

lemma normalized_point_timed [simp]: "timed_point (normalized_point p) = (jget_or p ''time'' JNull \<noteq> JNull)"
  by (simp add: timed_point_def normalized_point_def jget_or_def)

lemma normalized_point_idem [simp]: "normalized_point (normalized_point p) = normalized_point p"
  by (simp add: normalized_point_def jget_or_def)

lemma timed_point_normalized: "timed_point p \<Longrightarrow> timed_point (normalized_point p)"
  unfolding normalized_point_timed by (simp add: timed_point_def)

text \<open>A normalised series is a fixed point of the normalisation, whatever the default unit.\<close>

lemma normalized_series_idem:
  assumes "normalized_series p u = Some s"
  shows "normalized_series (Some s) u' = Some s"
proof -
  from assms obtain unit ps where
    s: "s = JObj [(''unit'', unit), (''points'', JArr (map normalized_point (filter timed_point ps)))]"
    by (auto simp: normalized_series_def Let_def split: option.splits)
  have "filter timed_point (map normalized_point (filter timed_point ps)) =
      map normalized_point (filter timed_point ps)"
    by (induction ps) (auto simp: timed_point_normalized simp del: normalized_point_timed)
  then show ?thesis
    by (simp add: s normalized_series_def jget_or_def comp_def del: filter_filter)
qed

section \<open>Tasks\<close>

definition normalized_source_errors :: "(string, string option) dict option \<Rightarrow> source_errors" where
  "normalized_source_errors provided =
     (let d = (case provided of None \<Rightarrow> [] | Some d \<Rightarrow> d) in
      \<lparr>core_metrics = Option.bind (dget d ''core_metrics'') id,
       main_fund_flow = Option.bind (dget d ''main_fund_flow'') id\<rparr>)"

text \<open>The constructor with its defaults and \<open>__post_init__\<close>.\<close>

definition new_task :: "string \<Rightarrow> string \<Rightarrow> bool \<Rightarrow> time \<Rightarrow> task" where
  "new_task tid sy incl now =
     \<lparr>task_id = tid, symbol = sy, include_long_capture = incl, status = QUEUED,
      created_at = now, updated_at = now, completed_at = None, collected_at = None,
      error_code = None, source_errors = no_source_errors,
      captures = (\<lambda>_. new_capture PENDING), vals = (\<lambda>_. None), value_sources = (\<lambda>_. None),
      intraday_series = empty_intraday_series, market_snapshot = None,
      long_capture = new_capture (if incl then PENDING else SKIPPED),
      maintenance_namespace = None, maintenance_owner_digest = None\<rparr>"

section \<open>The public document\<close>

definition public_value_source :: "task \<Rightarrow> metric_kind \<Rightarrow> json" where
  "public_value_source t k = jstr_opt (map_option value_source_value (value_sources t k))"

definition public_series :: "task \<Rightarrow> metric_kind \<Rightarrow> string option \<Rightarrow> json \<times> json list" where
  "public_series t kind default_unit =
     (let series = (case intraday_series t kind of
            None \<Rightarrow> JObj [(''unit'', jstr_opt default_unit), (''points'', JArr [])] | Some s \<Rightarrow> s);
          points = (case jiter (jget_or series ''points'' (JArr [])) of Some ps \<Rightarrow> ps | None \<Rightarrow> [])
      in (JObj [(''unit'', jget_or series ''unit'' (jstr_opt default_unit)), (''points'', JArr points)],
          points))"

definition public_fund_flow :: "task \<Rightarrow> json" where
  "public_fund_flow t =
     JObj (map (\<lambda>(period, unit_kind).
       (period, JObj ((''unit'', jstr_opt (vals t unit_kind))
          # map (\<lambda>(f, k). (f, jstr_opt (vals t k))) (fund_flow_metrics period)))) fund_flow_periods)"

definition public_fund_flow_sources :: "task \<Rightarrow> json" where
  "public_fund_flow_sources t =
     JObj (map (\<lambda>(period, _).
       (period, JObj (map (\<lambda>(f, k). (f, public_value_source t k)) (fund_flow_metrics period))))
       fund_flow_periods)"

definition public_capture_url :: "string \<Rightarrow> string \<Rightarrow> capture \<Rightarrow> json" where
  "public_capture_url tid tail c =
     (if cap_status c = READY then JStr (''/api/v1/jobs/'' @ tid @ tail) else JNull)"

definition public_expiry :: "capture \<Rightarrow> json" where
  "public_expiry c = jstr_opt (map_option isoformat (expires_at c))"

definition public_capture :: "task \<Rightarrow> capture_kind \<Rightarrow> json" where
  "public_capture t kind =
     (let c = captures t kind in
      JObj [(''kind'', JStr (capture_kind_value kind)),
            (''status'', JStr (capture_status_value (cap_status c))),
            (''url'', public_capture_url (task_id t) (''/captures/'' @ capture_kind_value kind) c),
            (''expires_at'', public_expiry c)])"

definition public_scalars :: "(string \<times> metric_kind) list" where
  "public_scalars = [(''stock_name'', STOCK_NAME), (''current_price'', CURRENT_PRICE),
     (''change_percent'', CHANGE_PERCENT), (''turnover_rate'', TURNOVER_RATE),
     (''large_order_net'', LARGE_ORDER_NET), (''large_order_amount'', LARGE_ORDER_AMOUNT),
     (''retail_count'', RETAIL_COUNT), (''macdfs'', MACDFS)]"

definition as_public :: "task \<Rightarrow> json" where
  "as_public t =
     (let series = map (\<lambda>(f, k, u). (f, public_series t k u)) intraday_metrics;
          series_source = (\<lambda>ps. if \<exists>p \<in> set ps. jget_or p ''value'' JNull \<noteq> JNull
                                then JStr (value_source_value INTERFACE) else JNull)
      in JObj [
        (''public_id'', JStr (task_id t)),
        (''symbol'', JStr (symbol t)),
        (''include_long_capture'', JBool (include_long_capture t)),
        (''status'', JStr (task_status_value (status t))),
        (''error_code'', jstr_opt (error_code t)),
        (''source_errors'', JObj [(''core_metrics'', jstr_opt (core_metrics (source_errors t))),
                                (''main_fund_flow'', jstr_opt (main_fund_flow (source_errors t)))]),
        (''queue_position'', JNull),
        (''created_at'', JStr (isoformat (created_at t))),
        (''collected_at'', jstr_opt (map_option isoformat (collected_at t))),
        (''captures'', JArr (map (public_capture t) capture_kinds)),
        (''values'', JObj (map (\<lambda>(f, k). (f, jstr_opt (vals t k))) public_scalars
           @ [(''intraday_series'', JObj (map (\<lambda>(f, s, _). (f, s)) series)),
              (''main_fund_flow'', public_fund_flow t)])),
        (''value_sources'', JObj (map (\<lambda>(f, k). (f, public_value_source t k)) public_scalars
           @ [(''intraday_series'', JObj (map (\<lambda>(f, _, ps). (f, series_source ps)) series)),
              (''main_fund_flow'', public_fund_flow_sources t)])),
        (''market_snapshot'', (case market_snapshot t of None \<Rightarrow> JNull | Some j \<Rightarrow> j)),
        (''long_capture'', JObj [
           (''status'', JStr (capture_status_value (cap_status (long_capture t)))),
           (''url'', public_capture_url (task_id t) ''/capture'' (long_capture t)),
           (''expires_at'', public_expiry (long_capture t))])])"

end
