(* ===== verification/Task_Queue.thy ===== *)
theory Task_Queue
  imports Models
begin

text \<open>
  \<open>level2_service/queue.py\<close>, the module's functions and the class \<open>InMemoryStreams\<close>: the store
  of tasks, the FIFO of their ids, the status events, the aliases of merged duplicates, and the
  lookups, submissions, claims and completions. The deployment lease's own operations, the
  clean-up and the removal of maintenance tasks are in theory \<open>Lease\<close>.

  A task object is stored under its id and changed in place; the model writes the changed
  record back under that id. The lock makes every operation one step. \<open>now\<close> is the operation's
  reading of \<open>utc_now()\<close> and \<open>clk\<close> its reading of the lease clock.
\<close>

section \<open>State\<close>

text \<open>The file system (\<open>Path.resolve\<close>, as the parts of the absolute path) and SHA-256
  (\<open>hexdigest\<close>) are parameters.\<close>

record store_env =
  resolve_path :: "path \<Rightarrow> string list"
  sha256_hex :: "string \<Rightarrow> string"

datatype store_error = QueueFullError | InvalidTransitionError | KeyError | ValueError | TypeError

record lease =
  lease_owner :: string
  lease_digest :: "string option"
  lease_bound :: "string option"
  lease_expires :: seconds

record store =
  pending_cap :: int
  capture_root :: "string list option"
  tasks :: "(string, task) dict"
  fifo :: "string list"
  events :: "(string, task_status list) dict"
  aliases :: "(string, string) dict"
  deployment_lease :: "lease option"
  removed_files :: "string list list"

type_synonym 'a store_res = "(store_error, 'a, store) outcome"

definition init_store :: "int \<Rightarrow> string list option \<Rightarrow> store" where
  "init_store cap croot = \<lparr>pending_cap = cap, capture_root = croot, tasks = [], fifo = [], events = [],
     aliases = [], deployment_lease = None, removed_files = []\<rparr>"

section \<open>Maintenance metadata and leases\<close>

definition deployment_acceptance :: string where
  "deployment_acceptance = ''deployment_acceptance''"

definition acceptance_symbol :: string where
  "acceptance_symbol = ''601872''"

definition max_deployment_lease_seconds :: seconds where
  "max_deployment_lease_seconds = 7200"

definition ascii :: "string \<Rightarrow> bool" where
  "ascii s \<longleftrightarrow> list_all (\<lambda>c. (of_char c :: nat) < 128) s"

definition is_alpha :: "char \<Rightarrow> bool" where
  "is_alpha c \<longleftrightarrow> (let n = (of_char c :: nat) in 65 \<le> n \<and> n \<le> 90 \<or> 97 \<le> n \<and> n \<le> 122)"

definition owner_char :: "char \<Rightarrow> bool" where
  "owner_char c \<longleftrightarrow> is_alpha c \<or> is_digit c \<or> c = CHR ''_'' \<or> c = CHR ''-''"

definition lower_hex_char :: "char \<Rightarrow> bool" where
  "lower_hex_char c \<longleftrightarrow> is_digit c \<or> 97 \<le> (of_char c :: nat) \<and> (of_char c :: nat) \<le> 102"

definition maintenance_owner_digest_format :: "string \<Rightarrow> bool" where
  "maintenance_owner_digest_format s \<longleftrightarrow> length s = 64 \<and> list_all lower_hex_char s"

definition valid_lease_request :: "string \<Rightarrow> seconds \<Rightarrow> bool" where
  "valid_lease_request owner_token ttl_seconds \<longleftrightarrow>
     32 \<le> length owner_token \<and> length owner_token \<le> 256 \<and> list_all owner_char owner_token
     \<and> 0 < ttl_seconds \<and> ttl_seconds \<le> max_deployment_lease_seconds"

definition has_maintenance_metadata :: "task \<Rightarrow> bool" where
  "has_maintenance_metadata t \<longleftrightarrow>
     maintenance_namespace t \<noteq> None \<or> maintenance_owner_digest t \<noteq> None"

definition valid_acceptance_task :: "task \<Rightarrow> bool" where
  "valid_acceptance_task t \<longleftrightarrow>
     symbol t = acceptance_symbol \<and> \<not> include_long_capture t \<and> status t = QUEUED
     \<and> completed_at t = None \<and> \<not> has_maintenance_metadata t"

definition mark_deployment_acceptance :: "store_env \<Rightarrow> string \<Rightarrow> task \<Rightarrow> task" where
  "mark_deployment_acceptance E owner_token t =
     t\<lparr>maintenance_namespace := Some deployment_acceptance,
       maintenance_owner_digest := Some (sha256_hex E owner_token)\<rparr>"

definition valid_bound_acceptance :: "task \<Rightarrow> string \<Rightarrow> string \<Rightarrow> bool \<Rightarrow> bool" where
  "valid_bound_acceptance t bound_id digest require_queued \<longleftrightarrow>
     task_id t = bound_id \<and> symbol t = acceptance_symbol \<and> \<not> include_long_capture t
     \<and> maintenance_namespace t = Some deployment_acceptance
     \<and> (case maintenance_owner_digest t of None \<Rightarrow> False
        | Some d \<Rightarrow> maintenance_owner_digest_format d \<and> d = digest)
     \<and> (\<not> require_queued \<or> status t = QUEUED)"

definition valid_legacy_bound_acceptance :: "task \<Rightarrow> string \<Rightarrow> bool" where
  "valid_legacy_bound_acceptance t bound_id \<longleftrightarrow>
     task_id t = bound_id \<and> symbol t = acceptance_symbol \<and> \<not> include_long_capture t
     \<and> \<not> has_maintenance_metadata t"

definition terminal_acceptance_retryable :: "task \<Rightarrow> bool" where
  "terminal_acceptance_retryable t \<longleftrightarrow>
     status t \<in> {COMPLETED, MARKET_SNAPSHOT, FAILED, EXPIRED}
     \<or> status t = PARTIAL \<and> completed_at t \<noteq> None"

section \<open>Statuses\<close>

fun allowed_transitions :: "task_status \<Rightarrow> task_status list" where
  "allowed_transitions QUEUED = [RUNNING, FAILED]"
| "allowed_transitions RUNNING = [WAITING_ADMIN, PARTIAL, COMPLETED, MARKET_SNAPSHOT, FAILED]"
| "allowed_transitions WAITING_ADMIN = [RUNNING, PARTIAL, FAILED]"
| "allowed_transitions PARTIAL = [RUNNING, WAITING_ADMIN, COMPLETED, FAILED]"
| "allowed_transitions COMPLETED = []"
| "allowed_transitions MARKET_SNAPSHOT = []"
| "allowed_transitions FAILED = []"
| "allowed_transitions EXPIRED = []"

definition is_active :: "task_status \<Rightarrow> bool" where
  "is_active st \<longleftrightarrow> st \<in> {QUEUED, RUNNING, WAITING_ADMIN}"

definition is_refreshable :: "task_status \<Rightarrow> bool" where
  "is_refreshable st \<longleftrightarrow> st \<in> {COMPLETED, MARKET_SNAPSHOT, PARTIAL, FAILED, EXPIRED}"

lemma active_or_refreshable: "is_active st \<or> is_refreshable st"
  by (cases st) (simp_all add: is_active_def is_refreshable_def)

lemma active_not_refreshable: "is_active st \<Longrightarrow> \<not> is_refreshable st"
  by (cases st) (simp_all add: is_active_def is_refreshable_def)

section \<open>Changes of one task\<close>

definition reset_task_for_refresh :: "time \<Rightarrow> bool option \<Rightarrow> task \<Rightarrow> task" where
  "reset_task_for_refresh now incl t =
     (let t1 = (case incl of None \<Rightarrow> t | Some b \<Rightarrow> t\<lparr>include_long_capture := b\<rparr>) in
      t1\<lparr>status := QUEUED, created_at := now, updated_at := now, completed_at := None,
         collected_at := None, error_code := None, source_errors := normalized_source_errors None,
         captures := (\<lambda>_. new_capture PENDING), vals := (\<lambda>_. None), value_sources := (\<lambda>_. None),
         intraday_series := empty_intraday_series, market_snapshot := None,
         long_capture := new_capture (if include_long_capture t1 then PENDING else SKIPPED)\<rparr>)"

definition required_complete :: "(metric_kind \<Rightarrow> string option) \<Rightarrow> bool" where
  "required_complete v \<longleftrightarrow> list_all (\<lambda>k. v k \<noteq> None) required_metrics"

definition has_result :: "(metric_kind \<Rightarrow> string option) \<Rightarrow> bool" where
  "has_result v \<longleftrightarrow> list_ex (\<lambda>k. v k \<noteq> None) required_metrics"

text \<open>The Python \<open>x or "TEXT"\<close> over optional text: None and the empty text are false.\<close>

definition text_or :: "string option \<Rightarrow> string \<Rightarrow> string" where
  "text_or x dflt = (case x of None \<Rightarrow> dflt | Some s \<Rightarrow> if s = [] then dflt else s)"

definition restore_expired_task :: "time \<Rightarrow> task \<Rightarrow> task" where
  "restore_expired_task now t =
     (if status t \<noteq> EXPIRED then t
      else if market_snapshot t \<noteq> None then
        t\<lparr>status := MARKET_SNAPSHOT, error_code := None, updated_at := now\<rparr>
      else
        (let fund_error = main_fund_flow (source_errors t) in
         (if required_complete (vals t) \<and> fund_error = None then
            t\<lparr>status := COMPLETED, error_code := None\<rparr>
          else if has_result (vals t) then
            t\<lparr>status := PARTIAL,
              error_code := (if required_complete (vals t) then fund_error
                             else Some ''VALUE_RECOGNITION_FAILED'')\<rparr>
          else
            t\<lparr>status := FAILED, error_code := Some (text_or (error_code t) ''RESULT_NOT_AVAILABLE'')\<rparr>)
         \<lparr>updated_at := now\<rparr>))"

section \<open>The canonical task of several\<close>

definition canonical_key :: "task \<Rightarrow> bool \<times> time \<times> time \<times> string" where
  "canonical_key t = (is_active (status t), created_at t, updated_at t, task_id t)"

text \<open>\<open>max\<close> with a key: the first of the tasks whose key no other exceeds.\<close>

fun canonical_from :: "task \<Rightarrow> task list \<Rightarrow> task" where
  "canonical_from best [] = best"
| "canonical_from best (t # ts) =
     canonical_from (if canonical_key best < canonical_key t then t else best) ts"

fun canonical_task :: "task list \<Rightarrow> task option" where
  "canonical_task [] = None"
| "canonical_task (t # ts) = Some (canonical_from t ts)"

section \<open>Parts of the operations\<close>

text \<open>\<open>_unlink_capture\<close>: only a path inside the capture root is unlinked.\<close>

definition unlink_capture :: "store_env \<Rightarrow> capture \<Rightarrow> store \<Rightarrow> store" where
  "unlink_capture E c s =
     (case (cap_path c, capture_root s) of
        (Some p, Some croot) \<Rightarrow>
          (let resolved = resolve_path E p in
           if prefix croot resolved then s\<lparr>removed_files := removed_files s @ [resolved]\<rparr> else s)
      | _ \<Rightarrow> s)"

definition unlink_task :: "store_env \<Rightarrow> task \<Rightarrow> store \<Rightarrow> store" where
  "unlink_task E t s =
     unlink_capture E (long_capture t) (fold (\<lambda>k. unlink_capture E (captures t k)) capture_kinds s)"

definition emit :: "task \<Rightarrow> store \<Rightarrow> store" where
  "emit t s =
     s\<lparr>events := dset (task_id t)
        ((case dget (events s) (task_id t) of None \<Rightarrow> [] | Some es \<Rightarrow> es) @ [status t]) (events s)\<rparr>"

definition put_task :: "task \<Rightarrow> store \<Rightarrow> store" where
  "put_task t s = s\<lparr>tasks := dset (task_id t) t (tasks s)\<rparr>"

definition move_to_fifo_tail :: "string \<Rightarrow> store \<Rightarrow> store" where
  "move_to_fifo_tail tid s = s\<lparr>fifo := filter (\<lambda>i. i \<noteq> tid) (fifo s) @ [tid]\<rparr>"

text \<open>\<open>_active_deployment_lease_locked\<close>: an expired lease is dropped when it is looked at.\<close>

definition active_deployment_lease :: "seconds \<Rightarrow> store \<Rightarrow> lease option \<times> store" where
  "active_deployment_lease clk s =
     (case deployment_lease s of None \<Rightarrow> (None, s)
      | Some l \<Rightarrow> if lease_expires l \<le> clk then (None, s\<lparr>deployment_lease := None\<rparr>) else (Some l, s))"

definition bound_of :: "lease option \<Rightarrow> string option" where
  "bound_of l = Option.bind l lease_bound"

definition pending_count :: "store \<Rightarrow> int" where
  "pending_count s = int (length (filter (\<lambda>(_, t). is_active (status t)) (tasks s)))"

section \<open>Submission\<close>

definition enqueue_locked :: "bool \<Rightarrow> task \<Rightarrow> store \<Rightarrow> unit store_res" where
  "enqueue_locked maintenance t s =
     (if maintenance \<and> maintenance_namespace t \<noteq> Some deployment_acceptance then
        (Inl InvalidTransitionError, s)
      else if \<not> maintenance \<and> has_maintenance_metadata t then (Inl InvalidTransitionError, s)
      else if pending_count s \<ge> pending_cap s then (Inl QueueFullError, s)
      else (Inr (), emit t ((put_task t s)\<lparr>fifo := fifo s @ [task_id t]\<rparr>)))"

definition enqueue :: "task \<Rightarrow> store \<Rightarrow> unit store_res" where
  "enqueue t s = enqueue_locked False t s"

definition find_by_symbol :: "seconds \<Rightarrow> string \<Rightarrow> store \<Rightarrow> task option \<times> store" where
  "find_by_symbol clk sy s =
     (case active_deployment_lease clk s of (l, s1) \<Rightarrow>
        (canonical_task
           (filter (\<lambda>t. symbol t = sy \<and> \<not> has_maintenance_metadata t \<and> Some (task_id t) \<noteq> bound_of l)
              (map snd (tasks s1))), s1))"

definition refresh_locked ::
  "store_env \<Rightarrow> time \<Rightarrow> task \<Rightarrow> bool option \<Rightarrow> store \<Rightarrow> task store_res" where
  "refresh_locked E now t incl s =
     (if is_active (status t) then (Inr t, s)
      else if \<not> is_refreshable (status t) then (Inl InvalidTransitionError, s)
      else if pending_count s \<ge> pending_cap s then (Inl QueueFullError, s)
      else
        (let t' = reset_task_for_refresh now incl t in
         (Inr t', emit t' (move_to_fifo_tail (task_id t) (put_task t' (unlink_task E t s))))))"

definition submit_or_refresh ::
  "store_env \<Rightarrow> time \<Rightarrow> seconds \<Rightarrow> task \<Rightarrow> store \<Rightarrow> task store_res" where
  "submit_or_refresh E now clk t s =
     (if has_maintenance_metadata t then (Inl InvalidTransitionError, s)
      else case find_by_symbol clk (symbol t) s of
        (None, s1) \<Rightarrow>
          (case enqueue_locked False t s1 of (Inl e, s2) \<Rightarrow> (Inl e, s2) | (Inr _, s2) \<Rightarrow> (Inr t, s2))
      | (Some existing, s1) \<Rightarrow>
          if is_active (status existing) then (Inr existing, s1)
          else refresh_locked E now existing (Some (include_long_capture t)) s1)"

section \<open>Claims\<close>

definition start_running :: "time \<Rightarrow> task \<Rightarrow> task" where
  "start_running now t = t\<lparr>status := RUNNING, updated_at := now\<rparr>"

definition claimable :: "store \<Rightarrow> string \<Rightarrow> bool" where
  "claimable s tid =
     (case dget (tasks s) tid of None \<Rightarrow> False
      | Some t \<Rightarrow> status t = QUEUED \<and> \<not> has_maintenance_metadata t)"

definition next_runnable :: "time \<Rightarrow> seconds \<Rightarrow> store \<Rightarrow> task option \<times> store" where
  "next_runnable now clk s =
     (case active_deployment_lease clk s of
        (Some l, s1) \<Rightarrow>
          (case (lease_bound l, lease_digest l) of
             (Some bound_id, Some digest) \<Rightarrow>
               (case dget (tasks s1) bound_id of None \<Rightarrow> (None, s1)
                | Some t \<Rightarrow>
                    if \<not> valid_bound_acceptance t bound_id digest True then (None, s1)
                    else
                      (let t' = start_running now t;
                           s2 = s1\<lparr>fifo := filter (\<lambda>i. i \<noteq> bound_id) (fifo s1)\<rparr>
                       in (Some t', emit t' (put_task t' s2))))
           | _ \<Rightarrow> (None, s1))
      | (None, s1) \<Rightarrow>
          (case find (claimable s1) (fifo s1) of None \<Rightarrow> (None, s1)
           | Some tid \<Rightarrow>
               (let t' = start_running now (the (dget (tasks s1) tid))
                in (Some t', emit t' (put_task t' s1)))))"

section \<open>Lookups\<close>

text \<open>\<open>resolve_task_id\<close> follows the aliases and stops when it comes back to an id.\<close>

function resolve_from :: "(string, string) dict \<Rightarrow> string list \<Rightarrow> string \<Rightarrow> string" where
  "resolve_from al visited resolved =
     (if resolved \<in> set visited then resolved
      else case dget al resolved of None \<Rightarrow> resolved
           | Some target \<Rightarrow> resolve_from al (resolved # visited) target)"
  by pat_completeness auto
termination
proof (relation "measure (\<lambda>(al, visited, _). card (keys al - set visited))", goal_cases)
  case (2 al visited resolved target)
  then have "resolved \<in> keys al - set visited"
    by (auto dest: dget_SomeD simp: image_iff intro!: bexI)
  then have "card (keys al - set visited - {resolved}) < card (keys al - set visited)"
    by (intro psubset_card_mono) auto
  then show ?case
    by (simp add: Diff_insert [symmetric] Diff_insert2 [symmetric])
qed simp

declare resolve_from.simps [simp del]

definition resolve_task_id :: "string \<Rightarrow> store \<Rightarrow> string" where
  "resolve_task_id tid s = resolve_from (aliases s) [] tid"

definition get_task :: "string \<Rightarrow> store \<Rightarrow> task option" where
  "get_task tid s = dget (tasks s) (resolve_task_id tid s)"

definition positionable :: "string option \<Rightarrow> task \<Rightarrow> bool" where
  "positionable bound t \<longleftrightarrow>
     status t = QUEUED \<and> \<not> has_maintenance_metadata t \<and> Some (task_id t) \<noteq> bound"

fun position_loop :: "store \<Rightarrow> string option \<Rightarrow> string \<Rightarrow> nat \<Rightarrow> string list \<Rightarrow> nat option" where
  "position_loop s bound tid position [] = None"
| "position_loop s bound tid position (queued_id # rest) =
     (case dget (tasks s) queued_id of
        None \<Rightarrow> position_loop s bound tid position rest
      | Some candidate \<Rightarrow>
          if \<not> positionable bound candidate then position_loop s bound tid position rest
          else if queued_id = tid then Some (Suc position)
          else position_loop s bound tid (Suc position) rest)"

definition queue_position :: "seconds \<Rightarrow> string \<Rightarrow> store \<Rightarrow> nat option \<times> store" where
  "queue_position clk tid0 s =
     (let tid = resolve_task_id tid0 s in
      case active_deployment_lease clk s of (l, s1) \<Rightarrow>
        (case dget (tasks s1) tid of None \<Rightarrow> (None, s1)
         | Some t \<Rightarrow>
             if \<not> positionable (bound_of l) t then (None, s1)
             else (position_loop s1 (bound_of l) tid 0 (fifo s1), s1)))"

text \<open>\<open>events_after\<close>, with Python's slice \<open>[event_index:]\<close>.\<close>

definition slice_from :: "int \<Rightarrow> 'a list \<Rightarrow> 'a list" where
  "slice_from i xs = drop (nat (if i < 0 then int (length xs) + i else i)) xs"

definition status_event :: "task_status \<Rightarrow> json" where
  "status_event st = JObj [(''event'', JStr ''status''), (''data'', JStr (task_status_value st))]"

definition events_after :: "string \<Rightarrow> int \<Rightarrow> store \<Rightarrow> json list" where
  "events_after tid event_index s =
     slice_from event_index (map status_event
       (case dget (events s) (resolve_task_id tid s) of None \<Rightarrow> [] | Some es \<Rightarrow> es))"

definition task_is_running :: "task \<Rightarrow> bool" where
  "task_is_running t \<longleftrightarrow> status t = RUNNING \<or> status t = PARTIAL \<and> completed_at t = None"

definition has_running_task :: "store \<Rightarrow> bool" where
  "has_running_task s \<longleftrightarrow> list_ex (\<lambda>(_, t). task_is_running t) (tasks s)"

section \<open>Merging duplicates\<close>

definition groups_by_symbol :: "task list \<Rightarrow> (string, task list) dict" where
  "groups_by_symbol ts =
     fold (\<lambda>t g. dset (symbol t) ((case dget g (symbol t) of None \<Rightarrow> [] | Some xs \<Rightarrow> xs) @ [t]) g) ts []"

definition drop_duplicate :: "store_env \<Rightarrow> string \<Rightarrow> task \<Rightarrow> store \<Rightarrow> store" where
  "drop_duplicate E canonical_id dup s =
     (let s1 = unlink_task E dup (s\<lparr>tasks := dpop (task_id dup) (tasks s)\<rparr>) in
      s1\<lparr>events := dpop (task_id dup) (events s1),
         aliases := dset (task_id dup) canonical_id (aliases s1)\<rparr>)"

definition merge_group :: "store_env \<Rightarrow> task list \<Rightarrow> store \<Rightarrow> store" where
  "merge_group E ts s =
     (case canonical_task ts of None \<Rightarrow> s
      | Some canonical \<Rightarrow>
          (let cid = task_id canonical;
               dups = filter (\<lambda>t. task_id t \<noteq> cid) ts;
               dup_ids = map task_id dups
           in if dups = [] then s
              else
                (let s1 = s\<lparr>aliases := map (\<lambda>(a, target). (a, if target \<in> set dup_ids then cid else target))
                              (aliases s)\<rparr>;
                     s2 = fold (drop_duplicate E cid) dups s1
                 in s2\<lparr>fifo := filter (\<lambda>i. i \<notin> set dup_ids) (fifo s2)\<rparr>)))"

record dedup_counts =
  dd_total :: nat
  dd_kept :: nat
  dd_deleted :: nat

definition group_duplicates :: "task list \<Rightarrow> nat" where
  "group_duplicates ts =
     (case canonical_task ts of None \<Rightarrow> 0
      | Some c \<Rightarrow> length (filter (\<lambda>t. task_id t \<noteq> task_id c) ts))"

text \<open>\<open>deduplicate_by_symbol\<close>; its two counters \<open>deleted\<close> and \<open>aliases\<close> always agree.
  \<open>now_of\<close> gives the clock reading at each restored task.\<close>

definition dedup_candidate :: "string option \<Rightarrow> task \<Rightarrow> bool" where
  "dedup_candidate bound t \<longleftrightarrow> \<not> has_maintenance_metadata t \<and> Some (task_id t) \<noteq> bound"

definition deduplicate_by_symbol ::
  "store_env \<Rightarrow> (string \<Rightarrow> time) \<Rightarrow> seconds \<Rightarrow> store \<Rightarrow> dedup_counts \<times> store" where
  "deduplicate_by_symbol E now_of clk s =
     (case active_deployment_lease clk s of (l, s1) \<Rightarrow>
        (let restored = map (\<lambda>(k, t). (k, if dedup_candidate (bound_of l) t
                 then restore_expired_task (now_of k) t else t)) (tasks s1);
             groups = groups_by_symbol (filter (dedup_candidate (bound_of l)) (map snd restored));
             s2 = fold (merge_group E) (map snd groups) (s1\<lparr>tasks := restored\<rparr>)
         in (\<lparr>dd_total = sum_list (map (length \<circ> snd) groups), dd_kept = length groups,
              dd_deleted = sum_list (map (group_duplicates \<circ> snd) groups)\<rparr>, s2)))"

section \<open>Recovery, requeueing and retrying\<close>

definition requeued :: "time \<Rightarrow> task \<Rightarrow> task" where
  "requeued now t = t\<lparr>status := QUEUED, error_code := None,
     source_errors := normalized_source_errors None, updated_at := now\<rparr>"

definition recover_running :: "(string \<Rightarrow> time) \<Rightarrow> store \<Rightarrow> task list \<times> store" where
  "recover_running now_of s =
     (let running = sort_key created_at (filter (\<lambda>t. status t = RUNNING) (map snd (tasks s)));
          recovered = map (\<lambda>t. (requeued (now_of (task_id t)) t)\<lparr>completed_at := None\<rparr>) running
      in (recovered, fold (\<lambda>t. emit t \<circ> put_task t) recovered s))"

definition is_maintenance_task :: "seconds \<Rightarrow> task \<Rightarrow> store \<Rightarrow> bool \<times> store" where
  "is_maintenance_task clk t s =
     (if has_maintenance_metadata t then (True, s)
      else case active_deployment_lease clk s of (l, s1) \<Rightarrow> (bound_of l = Some (task_id t), s1))"

definition requeue_waiting :: "time \<Rightarrow> seconds \<Rightarrow> string \<Rightarrow> store \<Rightarrow> task store_res" where
  "requeue_waiting now clk tid s =
     (case dget (tasks s) tid of None \<Rightarrow> (Inl KeyError, s)
      | Some t \<Rightarrow> (case is_maintenance_task clk t s of
            (True, s1) \<Rightarrow> (Inl InvalidTransitionError, s1)
          | (False, s1) \<Rightarrow>
              if status t \<noteq> WAITING_ADMIN then (Inl InvalidTransitionError, s1)
              else (let t' = requeued now t in
                    (Inr t', emit t' (put_task t' (move_to_fifo_tail tid s1))))))"

definition retry_failed :: "time \<Rightarrow> seconds \<Rightarrow> string \<Rightarrow> store \<Rightarrow> task store_res" where
  "retry_failed now clk tid s =
     (case dget (tasks s) tid of None \<Rightarrow> (Inl KeyError, s)
      | Some t \<Rightarrow> (case is_maintenance_task clk t s of
            (True, s1) \<Rightarrow> (Inl InvalidTransitionError, s1)
          | (False, s1) \<Rightarrow>
              if status t = QUEUED then (Inr t, s1)
              else if status t \<noteq> FAILED then (Inl InvalidTransitionError, s1)
              else (let t' = (requeued now t)\<lparr>completed_at := None\<rparr> in
                    (Inr t', emit t' (put_task t' (move_to_fifo_tail tid s1))))))"

definition refresh_task ::
  "store_env \<Rightarrow> time \<Rightarrow> seconds \<Rightarrow> string \<Rightarrow> bool option \<Rightarrow> store \<Rightarrow> task store_res" where
  "refresh_task E now clk tid0 incl s =
     (case dget (tasks s) (resolve_task_id tid0 s) of None \<Rightarrow> (Inl KeyError, s)
      | Some t \<Rightarrow> (case is_maintenance_task clk t s of
            (True, s1) \<Rightarrow> (Inl InvalidTransitionError, s1)
          | (False, s1) \<Rightarrow>
              if is_active (status t) then (Inr t, s1)
              else if \<not> is_refreshable (status t) then (Inl InvalidTransitionError, s1)
              else refresh_locked E now t incl s1))"

section \<open>Transitions and results\<close>

definition transition ::
  "time \<Rightarrow> string \<Rightarrow> task_status \<Rightarrow> string option \<Rightarrow> (string, string option) dict option \<Rightarrow>
   store \<Rightarrow> task store_res" where
  "transition now tid st err serrs s =
     (case dget (tasks s) tid of None \<Rightarrow> (Inl KeyError, s)
      | Some t \<Rightarrow>
          if st \<notin> set (allowed_transitions (status t)) then (Inl InvalidTransitionError, s)
          else
            (let t1 = t\<lparr>status := st, error_code := err\<rparr>;
                 t2 = (if serrs = None then t1 else t1\<lparr>source_errors := normalized_source_errors serrs\<rparr>);
                 t3 = t2\<lparr>updated_at := now\<rparr>;
                 t4 = (if st \<in> {COMPLETED, MARKET_SNAPSHOT, FAILED} then t3\<lparr>completed_at := Some now\<rparr>
                       else t3)
             in (Inr t4, emit t4 (put_task t4 s))))"

definition complete_capture :: "time \<Rightarrow> string \<Rightarrow> capture_kind \<Rightarrow> path \<Rightarrow> store \<Rightarrow> task store_res" where
  "complete_capture now tid kind p s =
     (case dget (tasks s) tid of None \<Rightarrow> (Inl KeyError, s)
      | Some t \<Rightarrow>
          if status t \<notin> {RUNNING, PARTIAL} then (Inl InvalidTransitionError, s)
          else
            (let caps = (captures t)(kind := \<lparr>cap_status = READY, cap_path = Some p, captured_at = Some now\<rparr>);
                 ready = length (filter (\<lambda>k. cap_status (caps k) = READY) capture_kinds);
                 st = (if ready = length capture_kinds then COMPLETED else PARTIAL);
                 t1 = t\<lparr>captures := caps, updated_at := now, status := st\<rparr>;
                 t2 = (if st = COMPLETED then t1\<lparr>completed_at := Some now\<rparr> else t1)
             in (Inr t2, emit t2 (put_task t2 s))))"

text \<open>
  \<open>complete_result\<close> in its three stretches: the values and their sources, which are stored
  before anything else can raise; the series and errors; the capture, and the final status.
\<close>

definition result_values ::
  "(metric_kind \<Rightarrow> string option) \<Rightarrow> (metric_kind \<Rightarrow> bool) \<Rightarrow> task \<Rightarrow> task" where
  "result_values vs ocr t =
     t\<lparr>vals := vs,
       value_sources := (\<lambda>k. if vs k = None then None else if ocr k then Some OCR else Some INTERFACE)\<rparr>"

definition result_capture :: "time \<Rightarrow> path option \<Rightarrow> task \<Rightarrow> task option" where
  "result_capture now p t =
     (if include_long_capture t then
        (case p of None \<Rightarrow> None
         | Some q \<Rightarrow> Some (t\<lparr>long_capture := \<lparr>cap_status = READY, cap_path = Some q, captured_at = Some now\<rparr>\<rparr>))
      else
        (case p of Some _ \<Rightarrow> None
         | None \<Rightarrow> Some (t\<lparr>long_capture := new_capture SKIPPED, captures := (\<lambda>_. new_capture SKIPPED)\<rparr>)))"

definition result_status :: "time \<Rightarrow> bool \<Rightarrow> task \<Rightarrow> task" where
  "result_status now ignore_fund_source_error t =
     (let fund_error = (if ignore_fund_source_error then None else main_fund_flow (source_errors t));
          complete = required_complete (vals t);
          st = (if complete \<and> fund_error = None then COMPLETED else PARTIAL)
      in t\<lparr>collected_at := Some now, updated_at := now, status := st,
           error_code := (if st = COMPLETED then None
                          else if complete then fund_error else Some ''VALUE_RECOGNITION_FAILED''),
           completed_at := Some now\<rparr>)"

definition complete_result ::
  "time \<Rightarrow> string \<Rightarrow> (metric_kind \<Rightarrow> string option) \<Rightarrow> path option \<Rightarrow> (metric_kind \<Rightarrow> bool) \<Rightarrow>
   (string, string option) dict option \<Rightarrow> (metric_kind \<Rightarrow> json option) option \<Rightarrow> bool \<Rightarrow>
   store \<Rightarrow> task store_res" where
  "complete_result now tid vs p ocr serrs series ignore_fund s =
     (case dget (tasks s) tid of None \<Rightarrow> (Inl KeyError, s)
      | Some t \<Rightarrow>
          if status t \<notin> {RUNNING, PARTIAL} then (Inl InvalidTransitionError, s)
          else
            (let t1 = result_values vs ocr t in
             case normalized_intraday_series series of None \<Rightarrow> (Inl TypeError, put_task t1 s)
             | Some ser \<Rightarrow>
                 (let t2 = t1\<lparr>intraday_series := ser, source_errors := normalized_source_errors serrs\<rparr> in
                  case result_capture now p t2 of None \<Rightarrow> (Inl ValueError, put_task t2 s)
                  | Some t3 \<Rightarrow>
                      (let t4 = result_status now ignore_fund t3 in
                       (Inr t4, emit t4 (put_task t4 s))))))"

definition complete_market_snapshot :: "time \<Rightarrow> string \<Rightarrow> json \<Rightarrow> store \<Rightarrow> task store_res" where
  "complete_market_snapshot now tid snapshot s =
     (case dget (tasks s) tid of None \<Rightarrow> (Inl KeyError, s)
      | Some t \<Rightarrow>
          if status t \<noteq> RUNNING then (Inl InvalidTransitionError, s)
          else
            (let t' = t\<lparr>market_snapshot := Some snapshot, status := MARKET_SNAPSHOT, error_code := None,
                   collected_at := Some now, updated_at := now, completed_at := Some now,
                   captures := (\<lambda>_. new_capture SKIPPED), long_capture := new_capture SKIPPED\<rparr>
             in (Inr t', emit t' (put_task t' s))))"

end
