(* ===== verification/Lease.thy ===== *)
theory Lease
  imports Task_Queue
begin

text \<open>
  \<open>level2_service/queue.py\<close>: the deployment maintenance lease of \<open>InMemoryStreams\<close> (acquire,
  renew, status, bind, release), the removal of maintenance tasks, and the periodic clean-up of
  expired captures and orphaned maintenance tasks.

  \<open>hmac.compare_digest\<close> raises \<open>TypeError\<close> on text outside ASCII; where the compared text comes
  unchecked from the caller the model keeps that branch.
\<close>

definition compare_digest :: "string \<Rightarrow> string \<Rightarrow> store_error + bool" where
  "compare_digest a b = (if ascii a \<and> ascii b then Inr (a = b) else Inl TypeError)"

text \<open>\<open>DeploymentMaintenanceLease\<close>, what \<open>deployment_lease_status\<close> reports.\<close>

record maintenance_lease =
  ml_owner_token :: string
  ml_bound_task_id :: "string option"
  ml_ttl_seconds :: seconds

definition owned_by :: "maintenance_lease \<Rightarrow> string \<Rightarrow> store_error + bool" where
  "owned_by m candidate = compare_digest (ml_owner_token m) candidate"

text \<open>The stored digest of the owner, when there is one, must be that of the token.\<close>

definition digest_agrees :: "string option \<Rightarrow> string \<Rightarrow> bool" where
  "digest_agrees stored digest \<longleftrightarrow> (case stored of None \<Rightarrow> True | Some d \<Rightarrow> d = digest)"

section \<open>Acquire, renew, status\<close>

text \<open>\<open>clk\<close> is the reading that decides whether a lease is active, \<open>clk'\<close> the later one the
  new expiry is computed from.\<close>

definition acquire_deployment_lease ::
  "store_env \<Rightarrow> seconds \<Rightarrow> seconds \<Rightarrow> string \<Rightarrow> seconds \<Rightarrow> store \<Rightarrow> bool \<times> store" where
  "acquire_deployment_lease E clk clk' owner_token ttl_seconds s =
     (if \<not> valid_lease_request owner_token ttl_seconds then (False, s)
      else case active_deployment_lease clk s of
        (Some _, s1) \<Rightarrow> (False, s1)
      | (None, s1) \<Rightarrow>
          if has_running_task s1 then (False, s1)
          else (True, s1\<lparr>deployment_lease := Some
                 \<lparr>lease_owner = owner_token, lease_digest = Some (sha256_hex E owner_token),
                  lease_bound = None, lease_expires = clk' + ttl_seconds\<rparr>\<rparr>))"

definition renew_deployment_lease ::
  "store_env \<Rightarrow> seconds \<Rightarrow> seconds \<Rightarrow> string \<Rightarrow> seconds \<Rightarrow> store \<Rightarrow> bool \<times> store" where
  "renew_deployment_lease E clk clk' owner_token ttl_seconds s =
     (if \<not> valid_lease_request owner_token ttl_seconds then (False, s)
      else case active_deployment_lease clk s of
        (None, s1) \<Rightarrow> (False, s1)
      | (Some l, s1) \<Rightarrow>
          if lease_owner l \<noteq> owner_token then (False, s1)
          else
            (let digest = sha256_hex E owner_token in
             if \<not> digest_agrees (lease_digest l) digest then (False, s1)
             else (True, s1\<lparr>deployment_lease := Some
                    (l\<lparr>lease_digest := Some digest, lease_expires := clk' + ttl_seconds\<rparr>)\<rparr>)))"

definition deployment_lease_status ::
  "seconds \<Rightarrow> seconds \<Rightarrow> store \<Rightarrow> maintenance_lease option \<times> store" where
  "deployment_lease_status clk clk' s =
     (case active_deployment_lease clk s of
        (None, s1) \<Rightarrow> (None, s1)
      | (Some l, s1) \<Rightarrow>
          (Some \<lparr>ml_owner_token = lease_owner l, ml_bound_task_id = lease_bound l,
                 ml_ttl_seconds = max 0 (lease_expires l - clk')\<rparr>, s1))"

section \<open>Binding the acceptance task\<close>

definition quiet_refresh :: "store_env \<Rightarrow> time \<Rightarrow> task \<Rightarrow> store \<Rightarrow> (task option) store_res" where
  "quiet_refresh E now t s =
     (case refresh_locked E now t (Some False) s of
        (Inl QueueFullError, s1) \<Rightarrow> (Inr None, s1)
      | (Inl e, s1) \<Rightarrow> (Inl e, s1)
      | (Inr t', s1) \<Rightarrow> (Inr (Some t'), s1))"

definition bind_existing ::
  "store_env \<Rightarrow> time \<Rightarrow> string \<Rightarrow> string \<Rightarrow> store \<Rightarrow> (task option) store_res" where
  "bind_existing E now owner_token bound_id s =
     (case dget (tasks s) bound_id of None \<Rightarrow> (Inr None, s)
      | Some existing \<Rightarrow>
          (let digest = sha256_hex E owner_token;
               marked = (if has_maintenance_metadata existing then
                           (if valid_bound_acceptance existing bound_id digest False
                            then Some existing else None)
                         else if valid_legacy_bound_acceptance existing bound_id
                         then Some (mark_deployment_acceptance E owner_token existing)
                         else None)
           in case marked of None \<Rightarrow> (Inr None, s)
              | Some t \<Rightarrow>
                  (let s1 = put_task t s in
                   if terminal_acceptance_retryable t then quiet_refresh E now t s1
                   else (Inr (Some t), s1))))"

definition bind_new ::
  "store_env \<Rightarrow> string \<Rightarrow> task \<Rightarrow> lease \<Rightarrow> store \<Rightarrow> (task option) store_res" where
  "bind_new E owner_token candidate l s =
     (if task_id candidate \<in> keys (tasks s) then (Inr None, s)
      else
        (let marked = mark_deployment_acceptance E owner_token candidate in
         case enqueue_locked True marked s of
           (Inl QueueFullError, s1) \<Rightarrow> (Inr None, s1)
         | (Inl e, s1) \<Rightarrow> (Inl e, s1)
         | (Inr _, s1) \<Rightarrow>
             (Inr (Some marked), s1\<lparr>deployment_lease := Some (l\<lparr>lease_bound := Some (task_id marked)\<rparr>)\<rparr>)))"

definition bind_deployment_acceptance ::
  "store_env \<Rightarrow> time \<Rightarrow> seconds \<Rightarrow> string \<Rightarrow> task \<Rightarrow> store \<Rightarrow> (task option) store_res" where
  "bind_deployment_acceptance E now clk owner_token candidate s =
     (if \<not> valid_acceptance_task candidate then (Inr None, s)
      else case active_deployment_lease clk s of
        (None, s1) \<Rightarrow> (Inr None, s1)
      | (Some l, s1) \<Rightarrow>
          (case compare_digest (lease_owner l) owner_token of
             Inl e \<Rightarrow> (Inl e, s1)
           | Inr False \<Rightarrow> (Inr None, s1)
           | Inr True \<Rightarrow>
               (let digest = sha256_hex E owner_token in
                if \<not> digest_agrees (lease_digest l) digest then (Inr None, s1)
                else
                  (let l' = l\<lparr>lease_digest := Some digest\<rparr>;
                       s2 = s1\<lparr>deployment_lease := Some l'\<rparr>
                   in case lease_bound l of
                        Some bound_id \<Rightarrow> bind_existing E now owner_token bound_id s2
                      | None \<Rightarrow> bind_new E owner_token candidate l' s2))))"

section \<open>Removing a maintenance task\<close>

definition removable_maintenance_task :: "task \<Rightarrow> string \<Rightarrow> string option \<Rightarrow> bool \<Rightarrow> bool" where
  "removable_maintenance_task t raw_id owner_digest allow_legacy \<longleftrightarrow>
     task_id t = raw_id
     \<and> (if has_maintenance_metadata t then
          (case (if owner_digest = None \<or> owner_digest = Some [] then maintenance_owner_digest t
                 else owner_digest) of
             None \<Rightarrow> False
           | Some expected \<Rightarrow> valid_bound_acceptance t raw_id expected False)
        else allow_legacy \<and> valid_legacy_bound_acceptance t raw_id)"

definition redirect_aliases ::
  "string \<Rightarrow> string option \<Rightarrow> (string, string) dict \<Rightarrow> (string, string) dict" where
  "redirect_aliases raw_id canonical_id al =
     concat (map (\<lambda>(a, target).
        if a = raw_id then []
        else if target = raw_id then (case canonical_id of None \<Rightarrow> [] | Some c \<Rightarrow> [(a, c)])
        else [(a, target)]) al)"

definition remove_maintenance_task ::
  "store_env \<Rightarrow> string \<Rightarrow> string option \<Rightarrow> bool \<Rightarrow> store \<Rightarrow> task option \<times> store" where
  "remove_maintenance_task E raw_id owner_digest allow_legacy s =
     (case dget (tasks s) raw_id of None \<Rightarrow> (None, s)
      | Some t \<Rightarrow>
          if \<not> removable_maintenance_task t raw_id owner_digest allow_legacy then (None, s)
          else
            (let candidates = map snd (filter (\<lambda>(k, c). k \<noteq> raw_id \<and> task_id c = k
                    \<and> symbol c = symbol t \<and> \<not> has_maintenance_metadata c) (tasks s));
                 canonical_id = map_option task_id (canonical_task candidates);
                 s1 = unlink_task E t (s\<lparr>aliases := redirect_aliases raw_id canonical_id (aliases s),
                                         tasks := dpop raw_id (tasks s)\<rparr>)
             in (Some t, s1\<lparr>fifo := filter (\<lambda>i. i \<noteq> raw_id) (fifo s1),
                           events := dpop raw_id (events s1)\<rparr>)))"

definition release_deployment_lease ::
  "store_env \<Rightarrow> seconds \<Rightarrow> string \<Rightarrow> store \<Rightarrow> bool store_res" where
  "release_deployment_lease E clk owner_token s =
     (case active_deployment_lease clk s of
        (None, s1) \<Rightarrow> (Inr False, s1)
      | (Some l, s1) \<Rightarrow>
          (case compare_digest (lease_owner l) owner_token of
             Inl e \<Rightarrow> (Inl e, s1)
           | Inr False \<Rightarrow> (Inr False, s1)
           | Inr True \<Rightarrow>
               (let digest = sha256_hex E owner_token in
                if \<not> digest_agrees (lease_digest l) digest then (Inr False, s1)
                else case lease_bound l of
                  None \<Rightarrow> (Inr True, s1\<lparr>deployment_lease := None\<rparr>)
                | Some bound_id \<Rightarrow>
                    (case dget (tasks s1) bound_id of None \<Rightarrow> (Inr False, s1)
                     | Some t \<Rightarrow>
                         if \<not> (if has_maintenance_metadata t
                                then valid_bound_acceptance t bound_id digest False
                                else valid_legacy_bound_acceptance t bound_id)
                         then (Inr False, s1)
                         else case remove_maintenance_task E bound_id (Some digest) True s1 of
                           (None, s2) \<Rightarrow> (Inr False, s2)
                         | (Some _, s2) \<Rightarrow> (Inr True, s2\<lparr>deployment_lease := None\<rparr>)))))"

section \<open>Clean-up\<close>

definition capture_expired :: "time \<Rightarrow> capture \<Rightarrow> bool" where
  "capture_expired now c \<longleftrightarrow>
     cap_status c = READY \<and> (case expires_at c of None \<Rightarrow> False | Some e \<Rightarrow> e \<le> now)"

definition expire_capture :: "time \<Rightarrow> capture \<Rightarrow> capture" where
  "expire_capture now c = (if capture_expired now c then c\<lparr>cap_status := CS_EXPIRED\<rparr> else c)"

definition unlink_expired :: "store_env \<Rightarrow> time \<Rightarrow> capture \<Rightarrow> store \<Rightarrow> store" where
  "unlink_expired E now c s = (if capture_expired now c then unlink_capture E c s else s)"

definition expire_task :: "time \<Rightarrow> task \<Rightarrow> task" where
  "expire_task now t = t\<lparr>long_capture := expire_capture now (long_capture t),
     captures := (\<lambda>k. expire_capture now (captures t k))\<rparr>"

definition cleanup_task ::
  "store_env \<Rightarrow> time \<Rightarrow> string option \<Rightarrow> string \<times> task \<Rightarrow> task list \<times> store \<Rightarrow> task list \<times> store" where
  "cleanup_task E now bound kt acc =
     (case (kt, acc) of ((raw_id, t), (removed, s)) \<Rightarrow>
        if has_maintenance_metadata t then
          (if bound = Some raw_id then (removed, s)
           else case remove_maintenance_task E raw_id None False s of
             (None, s1) \<Rightarrow> (removed, s1)
           | (Some r, s1) \<Rightarrow> (removed @ [r], s1))
        else
          (removed,
           put_task (expire_task now t)
             (fold (\<lambda>k. unlink_expired E now (captures t k)) capture_kinds
               (unlink_expired E now (long_capture t) s))))"

definition cleanup :: "store_env \<Rightarrow> time \<Rightarrow> seconds \<Rightarrow> store \<Rightarrow> task list \<times> store" where
  "cleanup E now clk s =
     (case active_deployment_lease clk s of (l, s1) \<Rightarrow>
        fold (cleanup_task E now (bound_of l)) (tasks s1) ([], s1))"

end
