(* ===== verification/Queue_Facts.thy ===== *)
theory Queue_Facts
  imports Lease
begin

text \<open>
  Facts the proofs about the task store share: what each part of an operation leaves unchanged,
  the well-formedness of the store, and how a task change, an addition and a removal keep it.
\<close>

named_theorems queue_frame \<open>fields a part of an operation does not write\<close>
named_theorems queue_defs \<open>the operations, to be unfolded\<close>

section \<open>Frames\<close>

lemma unlink_capture_frame [simp, queue_frame]:
  "tasks (unlink_capture E c s) = tasks s" "fifo (unlink_capture E c s) = fifo s"
  "aliases (unlink_capture E c s) = aliases s" "events (unlink_capture E c s) = events s"
  "deployment_lease (unlink_capture E c s) = deployment_lease s"
  "capture_root (unlink_capture E c s) = capture_root s"
  "pending_cap (unlink_capture E c s) = pending_cap s"
  by (simp_all add: unlink_capture_def Let_def split: option.splits)

lemma unlink_task_frame [simp, queue_frame]:
  "tasks (unlink_task E t s) = tasks s" "fifo (unlink_task E t s) = fifo s"
  "aliases (unlink_task E t s) = aliases s" "events (unlink_task E t s) = events s"
  "deployment_lease (unlink_task E t s) = deployment_lease s"
  "capture_root (unlink_task E t s) = capture_root s"
  "pending_cap (unlink_task E t s) = pending_cap s"
  by (simp_all add: unlink_task_def capture_kinds_def)

lemma emit_frame [simp, queue_frame]:
  "tasks (emit t s) = tasks s" "fifo (emit t s) = fifo s" "aliases (emit t s) = aliases s"
  "deployment_lease (emit t s) = deployment_lease s" "capture_root (emit t s) = capture_root s"
  "pending_cap (emit t s) = pending_cap s" "removed_files (emit t s) = removed_files s"
  by (simp_all add: emit_def)

lemma put_task_frame [simp, queue_frame]:
  "tasks (put_task t s) = dset (task_id t) t (tasks s)" "fifo (put_task t s) = fifo s"
  "aliases (put_task t s) = aliases s" "deployment_lease (put_task t s) = deployment_lease s"
  "events (put_task t s) = events s" "capture_root (put_task t s) = capture_root s"
  "pending_cap (put_task t s) = pending_cap s" "removed_files (put_task t s) = removed_files s"
  by (simp_all add: put_task_def)

lemma move_to_fifo_tail_frame [simp, queue_frame]:
  "tasks (move_to_fifo_tail i s) = tasks s"
  "fifo (move_to_fifo_tail i s) = filter (\<lambda>j. j \<noteq> i) (fifo s) @ [i]"
  "aliases (move_to_fifo_tail i s) = aliases s" "events (move_to_fifo_tail i s) = events s"
  "deployment_lease (move_to_fifo_tail i s) = deployment_lease s"
  "capture_root (move_to_fifo_tail i s) = capture_root s"
  "pending_cap (move_to_fifo_tail i s) = pending_cap s"
  "removed_files (move_to_fifo_tail i s) = removed_files s"
  by (simp_all add: move_to_fifo_tail_def)

lemma active_lease_cases:
  obtains (none) "active_deployment_lease clk s = (None, s\<lparr>deployment_lease := None\<rparr>)"
    | (some) l where "active_deployment_lease clk s = (Some l, s)" "deployment_lease s = Some l"
        "clk < lease_expires l"
proof (cases "deployment_lease s")
  case None
  then have "s\<lparr>deployment_lease := None\<rparr> = s" by simp
  with None show ?thesis by (intro none) (simp add: active_deployment_lease_def)
next
  case (Some l)
  then show ?thesis
    by (cases "lease_expires l \<le> clk") (auto simp: active_deployment_lease_def intro: none some)
qed

lemma active_lease_frame [queue_frame]:
  assumes "active_deployment_lease clk s = (l, s1)"
  shows "tasks s1 = tasks s" "fifo s1 = fifo s" "aliases s1 = aliases s" "events s1 = events s"
    "capture_root s1 = capture_root s" "pending_cap s1 = pending_cap s"
    "removed_files s1 = removed_files s" "deployment_lease s1 = l"
  using assms by (cases rule: active_lease_cases [of clk s]; auto)+

section \<open>Well-formed stores\<close>

definition tasks_wf :: "(string, task) dict \<Rightarrow> bool" where
  "tasks_wf ts \<longleftrightarrow> wf_dict ts \<and> (\<forall>k t. dget ts k = Some t \<longrightarrow> task_id t = k)"

definition fifo_wf :: "(string, task) dict \<Rightarrow> string list \<Rightarrow> bool" where
  "fifo_wf ts q \<longleftrightarrow> distinct q \<and> set q \<subseteq> keys ts
     \<and> (\<forall>k t. dget ts k = Some t \<and> \<not> has_maintenance_metadata t \<longrightarrow> k \<in> set q)"

definition alias_wf :: "(string, task) dict \<Rightarrow> (string, string) dict \<Rightarrow> bool" where
  "alias_wf ts al \<longleftrightarrow> wf_dict al \<and> keys al \<inter> keys ts = {} \<and> snd ` set al \<subseteq> keys ts"

definition store_wf :: "store \<Rightarrow> bool" where
  "store_wf s \<longleftrightarrow> tasks_wf (tasks s) \<and> fifo_wf (tasks s) (fifo s) \<and> alias_wf (tasks s) (aliases s)"

lemma store_wfD:
  assumes "store_wf s"
  shows "wf_dict (tasks s)" "distinct (fifo s)" "set (fifo s) \<subseteq> keys (tasks s)"
    "dget (tasks s) k = Some t \<Longrightarrow> task_id t = k"
    "dget (tasks s) k = Some t \<Longrightarrow> \<not> has_maintenance_metadata t \<Longrightarrow> k \<in> set (fifo s)"
    "wf_dict (aliases s)" "keys (aliases s) \<inter> keys (tasks s) = {}"
    "snd ` set (aliases s) \<subseteq> keys (tasks s)"
  using assms by (auto simp: store_wf_def tasks_wf_def fifo_wf_def alias_wf_def)

lemma store_wf_task_id: "store_wf s \<Longrightarrow> (k, t) \<in> set (tasks s) \<Longrightarrow> task_id t = k"
  using store_wfD(1,4) dget_in_set by fastforce

lemma dget_keys: "dget d k = Some v \<Longrightarrow> k \<in> keys d"
  by (force dest: dget_SomeD)

lemma store_wf_cong:
  "tasks s' = tasks s \<Longrightarrow> fifo s' = fifo s \<Longrightarrow> aliases s' = aliases s \<Longrightarrow> store_wf s' = store_wf s"
  by (simp add: store_wf_def)

lemma wf_emit [simp, wf_intros]: "store_wf (emit t s) = store_wf s"
  by (rule store_wf_cong) simp_all

lemma wf_unlink_task [simp, wf_intros]: "store_wf (unlink_task E t s) = store_wf s"
  by (rule store_wf_cong) simp_all

lemma wf_set_lease [simp, wf_intros]: "store_wf (s\<lparr>deployment_lease := l\<rparr>) = store_wf s"
  by (rule store_wf_cong) simp_all

lemma wf_active_lease: "active_deployment_lease clk s = (l, s1) \<Longrightarrow> store_wf s1 = store_wf s"
  by (intro store_wf_cong) (auto dest: active_lease_frame)

text \<open>Changing a task in place, as long as it keeps its id and stays (or becomes) of its kind.\<close>

lemma wf_put_task [wf_intros]:
  assumes "store_wf s" and "dget (tasks s) (task_id t) = Some t0"
    and "has_maintenance_metadata t0 \<Longrightarrow> has_maintenance_metadata t"
  shows "store_wf (put_task t s)"
proof -
  have "task_id t \<in> keys (tasks s)" using assms(2) by (rule dget_keys)
  moreover have "\<not> has_maintenance_metadata t \<Longrightarrow> task_id t \<in> set (fifo s)"
    using assms store_wfD(5) by blast
  ultimately show ?thesis using assms(1)
    by (auto simp: store_wf_def tasks_wf_def fifo_wf_def alias_wf_def insert_absorb)
qed

lemma wf_move_to_fifo_tail [wf_intros]:
  assumes "store_wf s" and "i \<in> keys (tasks s)"
  shows "store_wf (move_to_fifo_tail i s)"
  using assms by (auto simp: store_wf_def fifo_wf_def)

lemma wf_append_task [wf_intros]:
  assumes "store_wf s" and "task_id t \<notin> keys (tasks s)" and "task_id t \<notin> keys (aliases s)"
  shows "store_wf ((put_task t s)\<lparr>fifo := fifo s @ [task_id t]\<rparr>)"
  using assms by (auto simp: store_wf_def tasks_wf_def fifo_wf_def alias_wf_def)

lemma wf_unqueue_maintenance [wf_intros]:
  assumes "store_wf s" and "\<And>t. dget (tasks s) i = Some t \<Longrightarrow> has_maintenance_metadata t"
  shows "store_wf (s\<lparr>fifo := filter (\<lambda>j. j \<noteq> i) (fifo s)\<rparr>)"
  using assms by (auto simp: store_wf_def fifo_wf_def)

end
