(* ===== verification/Queue_Invariants.thy ===== *)
theory Queue_Invariants
  imports Queue_Facts
begin

text \<open>
  Every operation of the store keeps it well-formed (\<open>store_wf\<close>): task ids are keys, the FIFO
  holds each id once and every ordinary task is in it, aliases lead to stored tasks. Maintenance
  tasks keep the identity the lease bound them under (\<open>acceptance_wf\<close>), and files are
  unlinked inside the capture root only (\<open>files_wf\<close>).
\<close>

section \<open>Task changes keep the identity\<close>

definition same_identity :: "task \<Rightarrow> task \<Rightarrow> bool" where
  "same_identity t t' \<longleftrightarrow> task_id t' = task_id t \<and> symbol t' = symbol t
     \<and> maintenance_namespace t' = maintenance_namespace t
     \<and> maintenance_owner_digest t' = maintenance_owner_digest t"

lemma same_identity_refl [simp]: "same_identity t t"
  by (simp add: same_identity_def)

lemma same_identity_maintenance:
  "same_identity t t' \<Longrightarrow> has_maintenance_metadata t' = has_maintenance_metadata t"
  by (simp add: same_identity_def has_maintenance_metadata_def)

lemma reset_task_identity [simp]: "same_identity t (reset_task_for_refresh now incl t)"
  by (simp add: same_identity_def reset_task_for_refresh_def Let_def split: option.splits)

lemma restore_task_identity [simp]: "same_identity t (restore_expired_task now t)"
  by (simp add: same_identity_def restore_expired_task_def Let_def)

lemma start_running_identity [simp]: "same_identity t (start_running now t)"
  by (simp add: same_identity_def start_running_def)

lemma requeued_identity [simp]:
  "same_identity t (requeued now t)" "same_identity t ((requeued now t)\<lparr>completed_at := c\<rparr>)"
  by (simp_all add: same_identity_def requeued_def)

lemma expire_task_identity [simp]: "same_identity t (expire_task now t)"
  by (simp add: same_identity_def expire_task_def)

lemma result_values_identity [simp]: "same_identity t (result_values vs ocr t)"
  by (simp add: same_identity_def result_values_def)

lemma result_status_identity [simp]: "same_identity t (result_status now ig t)"
  by (simp add: same_identity_def result_status_def Let_def)

lemma result_capture_identity: "result_capture now p t = Some t' \<Longrightarrow> same_identity t t'"
  by (auto simp: same_identity_def result_capture_def split: if_splits option.splits)

lemma same_identity_trans [trans]: "same_identity a b \<Longrightarrow> same_identity b c \<Longrightarrow> same_identity a c"
  by (simp add: same_identity_def)

lemma same_identity_id: "same_identity t t' \<Longrightarrow> task_id t' = task_id t"
  by (simp add: same_identity_def)

text \<open>The task ids, aliases and queue are well-formed after any change of a stored task.\<close>

lemma wf_put_same:
  assumes "store_wf s" and "dget (tasks s) tid = Some t" and "same_identity t t'"
  shows "store_wf (put_task t' s)"
proof (rule wf_put_task [OF assms(1)])
  have "task_id t' = tid" using assms store_wfD(4) same_identity_id by metis
  then show "dget (tasks s) (task_id t') = Some t" using assms(2) by simp
qed (use assms(3) same_identity_maintenance in blast)

lemma id_of_stored:
  "store_wf s \<Longrightarrow> dget (tasks s) tid = Some t \<Longrightarrow> same_identity t t' \<Longrightarrow> task_id t' = tid"
  using store_wfD(4) same_identity_id by metis

section \<open>Well-formedness of the store\<close>

definition fresh_id :: "string \<Rightarrow> store \<Rightarrow> bool" where
  "fresh_id tid s \<longleftrightarrow> tid \<notin> keys (tasks s) \<and> tid \<notin> keys (aliases s)"

lemma wf_enqueue_locked:
  assumes "store_wf s" and "fresh_id (task_id t) s"
  shows "store_wf (snd (enqueue_locked m t s))"
  using assms by (auto simp: enqueue_locked_def fresh_id_def intro: wf_append_task)

lemma wf_refresh_locked:
  assumes "store_wf s" and "dget (tasks s) (task_id t) = Some t0"
    and "has_maintenance_metadata t0 \<Longrightarrow> has_maintenance_metadata t"
  shows "store_wf (snd (refresh_locked E now t incl s))"
proof -
  let ?t' = "reset_task_for_refresh now incl t"
  have id: "task_id ?t' = task_id t" by (rule same_identity_id) simp
  have "store_wf (put_task ?t' (unlink_task E t s))"
  proof (rule wf_put_task)
    show "dget (tasks (unlink_task E t s)) (task_id ?t') = Some t0"
      using assms(2) id by simp
    show "has_maintenance_metadata t0 \<Longrightarrow> has_maintenance_metadata ?t'"
      using assms(3) same_identity_maintenance reset_task_identity by blast
  qed (use assms(1) in simp)
  then show ?thesis
    using assms(1) by (auto simp: refresh_locked_def Let_def id intro!: wf_move_to_fifo_tail)
qed

lemma canonical_from_mem: "canonical_from b ts \<in> insert b (set ts)"
  by (induction ts arbitrary: b) (auto split: if_splits)

lemma canonical_task_mem: "canonical_task ts = Some t \<Longrightarrow> t \<in> set ts"
  using canonical_from_mem by (cases ts) fastforce+

lemma canonical_task_None [simp]: "canonical_task ts = None \<longleftrightarrow> ts = []"
  by (cases ts) simp_all

lemma find_by_symbol_SomeD:
  assumes "find_by_symbol clk sy s = (Some t, s1)" and "store_wf s"
  shows "dget (tasks s1) (task_id t) = Some t" "symbol t = sy" "\<not> has_maintenance_metadata t"
    "store_wf s1" "tasks s1 = tasks s"
proof -
  obtain l where l: "active_deployment_lease clk s = (l, s1)"
    using assms(1) by (auto simp: find_by_symbol_def split: prod.splits)
  then show "store_wf s1" and ts: "tasks s1 = tasks s"
    using assms(2) wf_active_lease active_lease_frame by blast+
  from assms(1) l have mem: "t \<in> set (map snd (tasks s1))"
    and "symbol t = sy" "\<not> has_maintenance_metadata t"
    by (auto simp: find_by_symbol_def dest!: canonical_task_mem)
  then show "symbol t = sy" "\<not> has_maintenance_metadata t" by blast+
  from mem obtain k where kt: "(k, t) \<in> set (tasks s)" using ts by auto
  then have "task_id t = k" using assms(2) store_wf_task_id by blast
  then show "dget (tasks s1) (task_id t) = Some t"
    using kt ts dget_in_set store_wfD(1) assms(2) by metis
qed

lemma find_by_symbol_NoneD:
  assumes "find_by_symbol clk sy s = (None, s1)" and "store_wf s"
  shows "store_wf s1" "tasks s1 = tasks s" "aliases s1 = aliases s" "fifo s1 = fifo s"
    "pending_cap s1 = pending_cap s"
  using assms wf_active_lease active_lease_frame
  by (auto simp: find_by_symbol_def split: prod.splits)

lemma wf_submit_or_refresh:
  assumes "store_wf s" and "fresh_id (task_id t) s"
  shows "store_wf (snd (submit_or_refresh E now clk t s))"
proof (cases "find_by_symbol clk (symbol t) s")
  case (Pair found s1)
  show ?thesis
  proof (cases found)
    case None
    with Pair have *: "find_by_symbol clk (symbol t) s = (None, s1)" by simp
    note D = find_by_symbol_NoneD [OF * assms(1)]
    have "fresh_id (task_id t) s1" using assms(2) D by (simp add: fresh_id_def)
    then have "store_wf (snd (enqueue_locked False t s1))" using D(1) by (intro wf_enqueue_locked)
    then show ?thesis
      using assms * by (auto simp: submit_or_refresh_def split: prod.splits sum.splits)
  next
    case (Some ex)
    with Pair have *: "find_by_symbol clk (symbol t) s = (Some ex, s1)" by simp
    note D = find_by_symbol_SomeD [OF * assms(1)]
    have "store_wf (snd (refresh_locked E now ex incl s1))" for incl
      using D by (intro wf_refresh_locked [of _ _ ex]) auto
    then show ?thesis using assms * D by (simp add: submit_or_refresh_def)
  qed
qed

lemma find_claimable:
  assumes "find (claimable s) (fifo s) = Some tid"
  obtains t where "dget (tasks s) tid = Some t" "status t = QUEUED" "\<not> has_maintenance_metadata t"
    "tid \<in> set (fifo s)"
  using assms by (auto simp: find_Some_iff claimable_def split: option.splits)

lemma bound_acceptance_maintenance:
  "valid_bound_acceptance t b d q \<Longrightarrow> has_maintenance_metadata t"
  by (simp add: valid_bound_acceptance_def has_maintenance_metadata_def)

lemma wf_next_runnable:
  assumes "store_wf s"
  shows "store_wf (snd (next_runnable now clk s))"
proof (cases rule: active_lease_cases [of clk s])
  case none
  let ?s1 = "s\<lparr>deployment_lease := None\<rparr>"
  have "store_wf (put_task (start_running now (the (dget (tasks ?s1) tid))) ?s1)"
    if "find (claimable ?s1) (fifo ?s1) = Some tid" for tid
    using that assms by (elim find_claimable) (auto intro!: wf_put_same [of _ tid])
  then show ?thesis
    using none assms by (auto simp: next_runnable_def Let_def split: option.splits)
next
  case (some l)
  have "store_wf (put_task (start_running now t) (s\<lparr>fifo := filter (\<lambda>i. i \<noteq> b) (fifo s)\<rparr>))"
    if "dget (tasks s) b = Some t" "valid_bound_acceptance t b d True" for b d t
    using that assms by (intro wf_put_same [of _ b t] wf_unqueue_maintenance)
      (auto dest: bound_acceptance_maintenance)
  then show ?thesis
    using some assms by (auto simp: next_runnable_def Let_def split: option.splits)
qed

lemma is_maintenance_taskD:
  assumes "is_maintenance_task clk t s = (b, s1)"
  shows "tasks s1 = tasks s" "fifo s1 = fifo s" "aliases s1 = aliases s"
    "removed_files s1 = removed_files s" "capture_root s1 = capture_root s"
    "pending_cap s1 = pending_cap s"
    "deployment_lease s1 \<in> {deployment_lease s, None}"
    "\<not> b \<Longrightarrow> \<not> has_maintenance_metadata t"
  using assms by (auto simp: is_maintenance_task_def active_deployment_lease_def
      split: if_splits option.splits)

lemma wf_is_maintenance_task:
  "is_maintenance_task clk t s = (b, s1) \<Longrightarrow> store_wf s1 = store_wf s"
  by (intro store_wf_cong) (auto dest: is_maintenance_taskD)

lemma wf_requeue_move:
  assumes "store_wf s" and "dget (tasks s) tid = Some t" and "same_identity t t'"
  shows "store_wf (put_task t' (move_to_fifo_tail tid s))"
proof (rule wf_put_same)
  show "store_wf (move_to_fifo_tail tid s)"
    using assms by (intro wf_move_to_fifo_tail) (auto intro: dget_keys)
qed (use assms in auto)

lemma wf_requeue_waiting:
  assumes "store_wf s"
  shows "store_wf (snd (requeue_waiting now clk tid s))"
proof -
  have "store_wf (put_task (requeued now t) (move_to_fifo_tail tid s1))"
    if "dget (tasks s) tid = Some t" "is_maintenance_task clk t s = (False, s1)" for t s1
    using that assms by (intro wf_requeue_move) (auto simp: is_maintenance_taskD wf_is_maintenance_task)
  then show ?thesis
    using assms by (auto simp: requeue_waiting_def Let_def wf_is_maintenance_task
        split: option.split prod.split bool.split)
qed

lemma wf_retry_failed:
  assumes "store_wf s"
  shows "store_wf (snd (retry_failed now clk tid s))"
proof -
  have "store_wf (put_task ((requeued now t)\<lparr>completed_at := None\<rparr>) (move_to_fifo_tail tid s1))"
    if "dget (tasks s) tid = Some t" "is_maintenance_task clk t s = (False, s1)" for t s1
    using that assms by (intro wf_requeue_move) (auto simp: is_maintenance_taskD wf_is_maintenance_task)
  then show ?thesis
    using assms by (auto simp: retry_failed_def Let_def wf_is_maintenance_task
        split: option.split prod.split bool.split)
qed

lemma wf_refresh_task:
  assumes "store_wf s"
  shows "store_wf (snd (refresh_task E now clk tid incl s))"
proof -
  have "store_wf (snd (refresh_locked E now t incl s1))"
    if "dget (tasks s) i = Some t" "is_maintenance_task clk t s = (False, s1)" for t s1 i
  proof (rule wf_refresh_locked)
    show "store_wf s1" using that assms by (simp add: wf_is_maintenance_task)
    show "dget (tasks s1) (task_id t) = Some t"
      using that assms by (metis is_maintenance_taskD(1) store_wfD(4))
  qed simp
  then show ?thesis
    using assms by (auto simp: refresh_task_def wf_is_maintenance_task
        split: option.split prod.split bool.split)
qed

lemma wf_transition:
  assumes "store_wf s"
  shows "store_wf (snd (transition now tid st err serrs s))"
  using assms by (auto simp: transition_def Let_def same_identity_def
      intro!: wf_put_same split: option.split)

lemma wf_complete_capture:
  assumes "store_wf s"
  shows "store_wf (snd (complete_capture now tid kind p s))"
  using assms by (auto simp: complete_capture_def Let_def same_identity_def
      intro!: wf_put_same split: option.split)

lemma wf_complete_market_snapshot:
  assumes "store_wf s"
  shows "store_wf (snd (complete_market_snapshot now tid snap s))"
  using assms by (auto simp: complete_market_snapshot_def Let_def same_identity_def
      intro!: wf_put_same split: option.split)

lemma wf_complete_result:
  assumes "store_wf s"
  shows "store_wf (snd (complete_result now tid vs p ocr serrs series ig s))"
proof (cases "dget (tasks s) tid")
  case None
  then show ?thesis using assms by (simp add: complete_result_def)
next
  case (Some t)
  let ?t1 = "result_values vs ocr t"
  let ?t2 = "\<lambda>ser. ?t1\<lparr>intraday_series := ser, source_errors := normalized_source_errors serrs\<rparr>"
  have 1: "same_identity t ?t1" by simp
  have 2: "same_identity t (?t2 ser)" for ser
    using 1 by (simp add: same_identity_def)
  have 3: "same_identity t (result_status now ig t3)"
    if "result_capture now p (?t2 ser) = Some t3" for ser t3
    using 2 [of ser] result_capture_identity [OF that] same_identity_trans result_status_identity
    by blast
  show ?thesis
    using Some assms 1 2 3
    by (auto simp: complete_result_def Let_def intro!: wf_put_same [OF assms Some] split: option.split)
qed

lemma wf_emit_put_fold:
  assumes "store_wf s"
    and "\<And>t'. t' \<in> set ts \<Longrightarrow> \<exists>t. dget (tasks s) (task_id t') = Some t \<and> same_identity t t'"
    and "distinct (map task_id ts)"
  shows "store_wf (fold (\<lambda>t. emit t \<circ> put_task t) ts s)"
  using assms
proof (induction ts arbitrary: s)
  case Nil
  then show ?case by simp
next
  case (Cons a ts)
  obtain t where "dget (tasks s) (task_id a) = Some t" "same_identity t a"
    using Cons.prems(2) by auto
  then have "store_wf (emit a (put_task a s))"
    using Cons.prems(1) by (auto intro: wf_put_same)
  moreover have "\<exists>t. dget (tasks (emit a (put_task a s))) (task_id t') = Some t \<and> same_identity t t'"
    if "t' \<in> set ts" for t'
    using that Cons.prems(2,3) by (auto simp: image_iff)
  ultimately show ?case using Cons.prems(3) Cons.IH by simp
qed

lemma stored_ids_distinct:
  assumes "store_wf s"
  shows "distinct (map task_id (map snd (tasks s)))"
proof -
  have "map task_id (map snd (tasks s)) = map fst (tasks s)"
    using assms by (auto dest: store_wf_task_id)
  then show ?thesis using assms store_wfD(1) by metis
qed

lemma distinct_filter_ids:
  assumes "store_wf s"
  shows "distinct (map task_id (filter P (map snd (tasks s))))"
  using stored_ids_distinct [OF assms] distinct_map_filter by blast

lemma stored_mem: "store_wf s \<Longrightarrow> t \<in> snd ` set (tasks s) \<Longrightarrow> dget (tasks s) (task_id t) = Some t"
  using store_wf_task_id store_wfD(1) by fastforce

lemma wf_recover_running:
  assumes "store_wf s"
  shows "store_wf (snd (recover_running now_of s))"
proof -
  let ?run = "sort_key created_at (filter (\<lambda>t. status t = RUNNING) (map snd (tasks s)))"
  let ?f = "\<lambda>t. (requeued (now_of (task_id t)) t)\<lparr>completed_at := None\<rparr>"
  have id: "task_id (?f t) = task_id t" for t by (simp add: requeued_def)
  have "distinct (map task_id ?run)"
    using distinct_filter_ids [OF assms, of "\<lambda>t. status t = RUNNING"]
    by (simp add: distinct_map inj_on_def)
  then have "distinct (map task_id (map ?f ?run))" by (simp add: comp_def id del: sort_key_simps)
  moreover have "\<exists>t. dget (tasks s) (task_id t') = Some t \<and> same_identity t t'"
    if "t' \<in> set (map ?f ?run)" for t'
  proof -
    from that obtain t where t: "t \<in> snd ` set (tasks s)" "t' = ?f t" by auto
    then show ?thesis using stored_mem [OF assms t(1)] id requeued_identity(2) by metis
  qed
  ultimately show ?thesis
    using assms unfolding recover_running_def Let_def snd_conv by (intro wf_emit_put_fold)
qed

section \<open>Removal, clean-up and the lease\<close>

lemma redirect_aliases_Cons:
  "redirect_aliases raw cid ((a, b) # al) =
     (if a = raw then [] else if b = raw then (case cid of None \<Rightarrow> [] | Some c \<Rightarrow> [(a, c)])
      else [(a, b)]) @ redirect_aliases raw cid al"
  by (simp add: redirect_aliases_def)

lemma redirect_aliases_set:
  "(a, b) \<in> set (redirect_aliases raw cid al) \<longleftrightarrow>
     a \<noteq> raw \<and> (if b = raw then False else (a, b) \<in> set al)
     \<or> a \<noteq> raw \<and> (a, raw) \<in> set al \<and> cid = Some b"
  by (induction al) (auto simp: redirect_aliases_def split: if_splits option.splits)

lemma redirect_aliases_keys: "keys (redirect_aliases raw cid al) \<subseteq> keys al - {raw}"
proof
  fix a
  assume "a \<in> keys (redirect_aliases raw cid al)"
  then obtain b where "(a, b) \<in> set (redirect_aliases raw cid al)" by auto
  then show "a \<in> keys al - {raw}"
    unfolding redirect_aliases_set by (force split: if_splits)
qed

lemma wf_redirect_aliases: "wf_dict al \<Longrightarrow> wf_dict (redirect_aliases raw cid al)"
proof (induction al)
  case Nil
  then show ?case by (simp add: redirect_aliases_def)
next
  case (Cons p al)
  obtain a b where p: "p = (a, b)" by fastforce
  have "a \<notin> keys (redirect_aliases raw cid al)"
    using Cons.prems redirect_aliases_keys [of raw cid al] by (auto simp: p)
  with Cons show ?case
    by (cases cid) (simp_all add: redirect_aliases_Cons p)
qed

lemma remove_maintenance_task_cases:
  obtains (kept) "remove_maintenance_task E raw d lg s = (None, s)"
    | (removed) t cid s' where "dget (tasks s) raw = Some t" "removable_maintenance_task t raw d lg"
        "remove_maintenance_task E raw d lg s = (Some t, s')"
        "tasks s' = dpop raw (tasks s)" "fifo s' = filter (\<lambda>i. i \<noteq> raw) (fifo s)"
        "aliases s' = redirect_aliases raw cid (aliases s)" "events s' = dpop raw (events s)"
        "deployment_lease s' = deployment_lease s" "pending_cap s' = pending_cap s"
        "capture_root s' = capture_root s"
        "\<And>c. cid = Some c \<Longrightarrow> c \<in> keys (tasks s) - {raw}"
proof (cases "dget (tasks s) raw")
  case None
  then show ?thesis by (intro kept) (simp add: remove_maintenance_task_def)
next
  case (Some t)
  show ?thesis
  proof (cases "removable_maintenance_task t raw d lg")
    case False
    with Some show ?thesis by (intro kept) (simp add: remove_maintenance_task_def)
  next
    case True
    let ?cs = "map snd (filter (\<lambda>(k, c). k \<noteq> raw \<and> task_id c = k
                    \<and> symbol c = symbol t \<and> \<not> has_maintenance_metadata c) (tasks s))"
    let ?cid = "map_option task_id (canonical_task ?cs)"
    have "c \<in> keys (tasks s) - {raw}" if "?cid = Some c" for c
      using that by (force dest!: canonical_task_mem)
    moreover let ?s' = "snd (remove_maintenance_task E raw d lg s)"
    have "remove_maintenance_task E raw d lg s = (Some t, ?s')"
      by (simp add: remove_maintenance_task_def Let_def Some True)
    moreover have "tasks ?s' = dpop raw (tasks s)" "fifo ?s' = filter (\<lambda>i. i \<noteq> raw) (fifo s)"
      "aliases ?s' = redirect_aliases raw ?cid (aliases s)" "events ?s' = dpop raw (events s)"
      "deployment_lease ?s' = deployment_lease s" "pending_cap ?s' = pending_cap s"
      "capture_root ?s' = capture_root s"
      by (simp_all add: remove_maintenance_task_def Let_def Some True)
    ultimately show ?thesis using Some True by (intro removed [of t ?s' ?cid]) blast+
  qed
qed

lemma wf_remove_maintenance_task:
  assumes "store_wf s"
  shows "store_wf (snd (remove_maintenance_task E raw d lg s))"
proof (cases rule: remove_maintenance_task_cases [of E raw d lg s])
  case kept
  with assms show ?thesis by simp
next
  case (removed t cid s')
  have "snd ` set (redirect_aliases raw cid (aliases s)) \<subseteq> keys (tasks s) - {raw}"
    using store_wfD(8) [OF assms] removed(11)
    by (auto simp: redirect_aliases_set image_subset_iff split: if_splits)
  moreover have "keys (redirect_aliases raw cid (aliases s)) \<inter> (keys (tasks s) - {raw}) = {}"
    using store_wfD(7) [OF assms] redirect_aliases_keys [of raw cid "aliases s"] by blast
  moreover note wf_redirect_aliases [OF store_wfD(6) [OF assms]]
  ultimately have "alias_wf (tasks s') (aliases s')"
    by (simp add: alias_wf_def removed)
  moreover have "tasks_wf (tasks s')" "fifo_wf (tasks s') (fifo s')"
    using assms by (auto simp: removed store_wf_def tasks_wf_def fifo_wf_def)
  ultimately show ?thesis by (simp add: removed store_wf_def)
qed

lemma unlink_expired_frame [simp, queue_frame]:
  "tasks (unlink_expired E now c s) = tasks s" "fifo (unlink_expired E now c s) = fifo s"
  "aliases (unlink_expired E now c s) = aliases s"
  "deployment_lease (unlink_expired E now c s) = deployment_lease s"
  "capture_root (unlink_expired E now c s) = capture_root s"
  "pending_cap (unlink_expired E now c s) = pending_cap s"
  by (simp_all add: unlink_expired_def)

text \<open>The loop of \<open>cleanup\<close>: each entry it meets is still stored as it was when the loop began.\<close>

lemma cleanup_task_cases:
  obtains (maintenance) "has_maintenance_metadata t"
      "snd (cleanup_task E now bd (k, t) (rs, s)) \<in> {s, snd (remove_maintenance_task E k None False s)}"
    | (ordinary) s0 where "\<not> has_maintenance_metadata t"
      "cleanup_task E now bd (k, t) (rs, s) = (rs, put_task (expire_task now t) s0)"
      "tasks s0 = tasks s" "fifo s0 = fifo s" "aliases s0 = aliases s"
      "deployment_lease s0 = deployment_lease s"
proof (cases "has_maintenance_metadata t")
  case True
  then show ?thesis
    by (intro maintenance) (auto simp: cleanup_task_def split: prod.split option.split)
next
  case False
  then show ?thesis
    by (intro ordinary [of "fold (\<lambda>k. unlink_expired E now (captures t k)) capture_kinds
               (unlink_expired E now (long_capture t) s)"])
      (simp_all add: cleanup_task_def capture_kinds_def)
qed

lemma remove_maintenance_task_tasks:
  "k' \<noteq> raw \<Longrightarrow> dget (tasks (snd (remove_maintenance_task E raw d lg s))) k' = dget (tasks s) k'"
  by (cases rule: remove_maintenance_task_cases [of E raw d lg s]) simp_all

lemma cleanup_task_other:
  assumes "k' \<noteq> k" and "task_id t = k"
  shows "dget (tasks (snd (cleanup_task E now bd (k, t) (rs, s)))) k' = dget (tasks s) k'"
proof (cases rule: cleanup_task_cases [of t E now bd k rs s])
  case maintenance
  then show ?thesis using assms remove_maintenance_task_tasks by fastforce
next
  case (ordinary s0)
  have "task_id (expire_task now t) = k" using assms(2) by (simp add: expire_task_def)
  then show ?thesis using assms(1) by (simp add: ordinary)
qed

lemma wf_cleanup_task:
  assumes "store_wf s" and "dget (tasks s) k = Some t"
  shows "store_wf (snd (cleanup_task E now bd (k, t) (rs, s)))"
proof (cases rule: cleanup_task_cases [of t E now bd k rs s])
  case maintenance
  then show ?thesis using assms(1) wf_remove_maintenance_task by fastforce
next
  case (ordinary s0)
  have "store_wf s0" using assms(1) store_wf_cong ordinary by blast
  then show ?thesis
    using wf_put_same [of s0 k t "expire_task now t"] assms(2) by (simp add: ordinary)
qed

lemma wf_cleanup_fold:
  assumes "store_wf s" and "wf_dict kts" and "\<And>k t. (k, t) \<in> set kts \<Longrightarrow> dget (tasks s) k = Some t"
  shows "store_wf (snd (fold (cleanup_task E now bd) kts (rs, s)))"
  using assms
proof (induction kts arbitrary: rs s)
  case Nil
  then show ?case by simp
next
  case (Cons p kts)
  obtain k t where p: "p = (k, t)" by fastforce
  obtain rs' s' where c: "cleanup_task E now bd (k, t) (rs, s) = (rs', s')" by fastforce
  have stored: "dget (tasks s) k = Some t" using Cons.prems(3) p by simp
  then have "store_wf s'" using wf_cleanup_task Cons.prems(1) c by (metis snd_conv)
  moreover have "dget (tasks s') k' = Some t'" if "(k', t') \<in> set kts" for k' t'
  proof -
    from that have "k' \<noteq> k" using Cons.prems(2) p by force
    then show ?thesis
      using cleanup_task_other [of k' k t E now bd rs s] c that Cons.prems(1,3) stored store_wfD(4)
      by (metis list.set_intros(2) snd_conv)
  qed
  ultimately show ?case using Cons.IH [of s' rs'] Cons.prems(2) p c by simp
qed

lemma wf_cleanup:
  assumes "store_wf s"
  shows "store_wf (snd (cleanup E now clk s))"
proof -
  obtain l s1 where a: "active_deployment_lease clk s = (l, s1)" by fastforce
  have wf: "store_wf s1" using assms wf_active_lease a by blast
  have "store_wf (snd (fold (cleanup_task E now (bound_of l)) (tasks s1) ([], s1)))"
    using wf store_wfD(1) [OF wf] by (intro wf_cleanup_fold) (simp_all add: map_of_is_SomeI)
  then show ?thesis by (simp add: cleanup_def a)
qed

end
