(* ===== verification/Queue_Dedup.thy ===== *)
theory Queue_Dedup
  imports Queue_Invariants
begin

text \<open>
  \<open>deduplicate_by_symbol\<close>: what merging one group of tasks does to the store, the groups the
  tasks are split into, and the outcome of the whole pass. Afterwards every symbol has one
  ordinary task, the greatest of its group, and the ids of the others lead to it.
\<close>

section \<open>Resolving aliases in a well-formed store\<close>

lemma resolve_task_id_wf:
  assumes "store_wf s"
  shows "resolve_task_id tid s = (case dget (aliases s) tid of None \<Rightarrow> tid | Some target \<Rightarrow> target)"
proof (cases "dget (aliases s) tid")
  case None
  then show ?thesis by (simp add: resolve_task_id_def resolve_from.simps)
next
  case (Some target)
  then have "target \<in> keys (tasks s)"
    using store_wfD(8) [OF assms] by (force dest: dget_SomeD)
  then have "dget (aliases s) target = None"
    using store_wfD(7) [OF assms] by (auto simp: dget_None_iff simp del: map_of_eq_None_iff)
  with Some show ?thesis
    by (simp add: resolve_task_id_def resolve_from.simps [of _ _ tid] resolve_from.simps [of _ _ target])
qed

lemma resolve_stored: "store_wf s \<Longrightarrow> tid \<in> keys (tasks s) \<Longrightarrow> resolve_task_id tid s = tid"
  using resolve_task_id_wf [of s tid] store_wfD(7) [of s]
  by (metis disjoint_iff dget_None_iff option.simps(4))

section \<open>Merging one group\<close>

definition loser_ids :: "task list \<Rightarrow> string set" where
  "loser_ids ts = (case canonical_task ts of None \<Rightarrow> {} | Some c \<Rightarrow> task_id ` set ts - {task_id c})"

lemma drop_duplicate_frame [simp]:
  "tasks (drop_duplicate E cid d s) = dpop (task_id d) (tasks s)"
  "fifo (drop_duplicate E cid d s) = fifo s"
  "aliases (drop_duplicate E cid d s) = dset (task_id d) cid (aliases s)"
  "deployment_lease (drop_duplicate E cid d s) = deployment_lease s"
  "pending_cap (drop_duplicate E cid d s) = pending_cap s"
  "capture_root (drop_duplicate E cid d s) = capture_root s"
  by (simp_all add: drop_duplicate_def Let_def)

lemma dpop_filter: "dpop k d = filter (\<lambda>(k', _). k' \<noteq> k) d"
  by (auto simp: AList.delete_eq case_prod_unfold intro: filter_cong)

lemma fold_drop_duplicate:
  "tasks (fold (drop_duplicate E cid) ds s) = filter (\<lambda>(k, _). k \<notin> task_id ` set ds) (tasks s)"
  "fifo (fold (drop_duplicate E cid) ds s) = fifo s"
  "dget (aliases (fold (drop_duplicate E cid) ds s)) a
     = (if a \<in> task_id ` set ds then Some cid else dget (aliases s) a)"
  "deployment_lease (fold (drop_duplicate E cid) ds s) = deployment_lease s"
  "pending_cap (fold (drop_duplicate E cid) ds s) = pending_cap s"
  "capture_root (fold (drop_duplicate E cid) ds s) = capture_root s"
  "wf_dict (aliases s) \<Longrightarrow> wf_dict (aliases (fold (drop_duplicate E cid) ds s))"
  by (induction ds arbitrary: s) (auto simp: dpop_filter intro!: filter_cong)

lemma dget_map_value: "dget (map (\<lambda>(a, b). (a, f b)) d) k = map_option f (dget d k)"
  by (induction d) auto

lemma keys_map_value: "map fst (map (\<lambda>(a, b). (a, f b)) d) = map fst d"
  by (simp add: case_prod_unfold)

lemma merge_group_effect:
  assumes "canonical_task ts = Some c" and "wf_dict (aliases s)"
  shows "tasks (merge_group E ts s) = filter (\<lambda>(k, _). k \<notin> loser_ids ts) (tasks s)"
    and "fifo (merge_group E ts s) = filter (\<lambda>k. k \<notin> loser_ids ts) (fifo s)"
    and "dget (aliases (merge_group E ts s)) a = (if a \<in> loser_ids ts then Some (task_id c)
           else map_option (\<lambda>b. if b \<in> loser_ids ts then task_id c else b) (dget (aliases s) a))"
    and "wf_dict (aliases (merge_group E ts s))"
    and "deployment_lease (merge_group E ts s) = deployment_lease s"
proof -
  let ?ds = "filter (\<lambda>t. task_id t \<noteq> task_id c) ts"
  let ?f = "\<lambda>b. if b \<in> loser_ids ts then task_id c else b"
  let ?s1 = "s\<lparr>aliases := map (\<lambda>(a, b). (a, ?f b)) (aliases s)\<rparr>"
  have ids: "set (map task_id ?ds) = loser_ids ts" 
    and ids': "task_id ` {t \<in> set ts. task_id t \<noteq> task_id c} = loser_ids ts"
    using assms(1) by (auto simp: loser_ids_def)
  have m: "merge_group E ts s = (if ?ds = [] then s
      else (let s2 = fold (drop_duplicate E (task_id c)) ?ds ?s1
            in s2\<lparr>fifo := filter (\<lambda>i. i \<notin> loser_ids ts) (fifo s2)\<rparr>))"
    using assms(1) by (simp only: merge_group_def option.case Let_def ids)
  have empty: "?ds = [] \<Longrightarrow> loser_ids ts = {}" using ids by auto
  have wf1: "wf_dict (aliases ?s1)" using assms(2) by (simp add: comp_def case_prod_unfold)
  show "tasks (merge_group E ts s) = filter (\<lambda>(k, _). k \<notin> loser_ids ts) (tasks s)"
    using empty by (auto simp: m Let_def fold_drop_duplicate ids')
  show "fifo (merge_group E ts s) = filter (\<lambda>k. k \<notin> loser_ids ts) (fifo s)"
    using empty by (auto simp: m Let_def fold_drop_duplicate)
  show "dget (aliases (merge_group E ts s)) a = (if a \<in> loser_ids ts then Some (task_id c)
           else map_option ?f (dget (aliases s) a))"
    using empty by (auto simp: m Let_def fold_drop_duplicate ids' dget_map_value option.map_ident)
  show "wf_dict (aliases (merge_group E ts s))"
    using assms(2) wf1 by (auto simp: m Let_def intro: fold_drop_duplicate(7))
  show "deployment_lease (merge_group E ts s) = deployment_lease s"
    by (auto simp: m Let_def fold_drop_duplicate)
qed

definition stored_group :: "store \<Rightarrow> task list \<Rightarrow> bool" where
  "stored_group s ts \<longleftrightarrow> ts \<noteq> [] \<and> (\<forall>t \<in> set ts. dget (tasks s) (task_id t) = Some t)"

lemma stored_groupE:
  assumes "stored_group s ts"
  obtains c where "canonical_task ts = Some c" "c \<in> set ts" "task_id c \<in> keys (tasks s)"
    "task_id c \<notin> loser_ids ts" "loser_ids ts \<subseteq> keys (tasks s)"
proof -
  from assms obtain c where c: "canonical_task ts = Some c"
    by (cases ts) (auto simp: stored_group_def)
  have stored: "\<And>t. t \<in> set ts \<Longrightarrow> task_id t \<in> keys (tasks s)"
    by (meson assms stored_group_def dget_keys)
  then show ?thesis
    using canonical_task_mem [OF c] by (intro that [OF c]) (auto simp: loser_ids_def c)
qed

lemma alias_targets: "wf_dict al \<Longrightarrow> (snd ` set al \<subseteq> K) = (\<forall>a b. dget al a = Some b \<longrightarrow> b \<in> K)"
  by (auto simp: image_subset_iff) 

lemma alias_keys: "a \<in> keys al \<longleftrightarrow> dget al a \<noteq> None"
  by (simp add: dget_None_iff)

lemma keys_filter_dict: "fst ` {x \<in> S. case x of (k, _) \<Rightarrow> P k} = {k \<in> fst ` S. P k}"
  by force

lemma dget_filter_dict: "dget (filter (\<lambda>(k, _). P k) d) k = (if P k then dget d k else None)"
  by (induction d) auto

lemma wf_dict_filter: "wf_dict d \<Longrightarrow> wf_dict (filter (\<lambda>(k, _). P k) d)"
  by (rule distinct_map_filter)

lemma wf_merge_group:
  assumes "store_wf s" and "stored_group s ts"
  shows "store_wf (merge_group E ts s)"
proof -
  let ?s' = "merge_group E ts s"
  obtain c where c: "canonical_task ts = Some c" "task_id c \<in> keys (tasks s)"
      "task_id c \<notin> loser_ids ts" "loser_ids ts \<subseteq> keys (tasks s)"
    using assms(2) by (rule stored_groupE)
  note eff = merge_group_effect [OF c(1) store_wfD(6) [OF assms(1)], of E]
  have "tasks_wf (tasks ?s')"
    using store_wfD(1,4) [OF assms(1)]
    by (auto simp: tasks_wf_def eff(1) dget_filter_dict wf_dict_filter simp del: map_of_eq_Some_iff)
  moreover have "fifo_wf (tasks ?s') (fifo ?s')"
    using store_wfD(2,3,5) [OF assms(1)]
    by (auto simp: fifo_wf_def eff(1,2) dget_filter_dict keys_filter_dict simp del: map_of_eq_Some_iff)
  moreover have "a \<notin> keys (aliases ?s')" if "a \<in> keys (tasks ?s')" for a
  proof -
    from that have a: "a \<in> keys (tasks s)" "a \<notin> loser_ids ts"
      by (auto simp: eff(1) keys_filter_dict)
    then have "dget (aliases s) a = None"
      using store_wfD(7) [OF assms(1)] by (metis disjoint_iff dget_None_iff)
    then have "dget (aliases ?s') a = None" using a(2) by (simp only: eff(3) if_False option.map)
    then show ?thesis by (simp add: dget_None_iff)
  qed
  moreover have "snd ` set (aliases ?s') \<subseteq> keys (tasks ?s')"
    using store_wfD(6,8) [OF assms(1)] c(2,3)
    by (auto simp: alias_targets eff keys_filter_dict simp del: map_of_eq_Some_iff split: if_splits)
  ultimately show ?thesis by (auto simp: store_wf_def alias_wf_def eff(4))
qed

section \<open>The groups\<close>

definition add_to_group :: "task \<Rightarrow> (string, task list) dict \<Rightarrow> (string, task list) dict" where
  "add_to_group t g = dset (symbol t) ((case dget g (symbol t) of None \<Rightarrow> [] | Some xs \<Rightarrow> xs) @ [t]) g"

lemma groups_fold: "groups_by_symbol ts = fold add_to_group ts []"
  unfolding groups_by_symbol_def add_to_group_def ..

lemma fold_add_to_group:
  "dget (fold add_to_group ts g) sy =
     (case dget g sy of None \<Rightarrow>
        (if filter (\<lambda>t. symbol t = sy) ts = [] then None else Some (filter (\<lambda>t. symbol t = sy) ts))
      | Some xs \<Rightarrow> Some (xs @ filter (\<lambda>t. symbol t = sy) ts))"
  by (induction ts arbitrary: g) (auto simp: add_to_group_def split: option.splits)

lemma wf_fold_add_to_group: "wf_dict g \<Longrightarrow> wf_dict (fold add_to_group ts g)"
  by (induction ts arbitrary: g) (auto simp: add_to_group_def)

lemma dget_groups:
  "dget (groups_by_symbol ts) sy = (if filter (\<lambda>t. symbol t = sy) ts = [] then None
     else Some (filter (\<lambda>t. symbol t = sy) ts))"
  by (simp add: groups_fold fold_add_to_group)

lemma wf_groups: "wf_dict (groups_by_symbol ts)"
  by (simp add: groups_fold wf_fold_add_to_group)

lemma groups_members:
  "(sy, xs) \<in> set (groups_by_symbol ts) \<longleftrightarrow> xs = filter (\<lambda>t. symbol t = sy) ts \<and> xs \<noteq> []"
  using dget_in_set [OF wf_groups, of ts sy xs] by (auto simp: dget_groups split: if_splits)

section \<open>The whole pass\<close>

text \<open>Merging a list of groups whose task ids are all different.\<close>

definition group_ids :: "task list \<Rightarrow> string set" where
  "group_ids ts = task_id ` set ts"

lemma loser_ids_sub: "loser_ids ts \<subseteq> group_ids ts"
  by (auto simp: loser_ids_def group_ids_def split: option.splits)

lemma stored_group_merge:
  assumes "store_wf s" "stored_group s g" "stored_group s g'" "group_ids g \<inter> group_ids g' = {}"
  shows "stored_group (merge_group E g s) g'"
proof -
  obtain c where c: "canonical_task g = Some c" using assms(2) by (rule stored_groupE)
  show ?thesis
    using assms(3,4) loser_ids_sub [of g]
    by (auto simp: stored_group_def merge_group_effect(1) [OF c store_wfD(6) [OF assms(1)]]
        dget_filter_dict group_ids_def simp del: map_of_eq_Some_iff)
qed

lemma fold_merge_groups:
  assumes "store_wf s" and "\<forall>g \<in> set gs. stored_group s g"
    and "pairwise (\<lambda>g h. group_ids g \<inter> group_ids h = {}) (set gs)" and "distinct gs"
  shows "store_wf (fold (merge_group E) gs s)
    \<and> tasks (fold (merge_group E) gs s) = filter (\<lambda>(k, _). k \<notin> \<Union> (loser_ids ` set gs)) (tasks s)
    \<and> (\<forall>g c a. g \<in> set gs \<and> canonical_task g = Some c \<and> a \<in> loser_ids g \<longrightarrow>
          dget (aliases (fold (merge_group E) gs s)) a = Some (task_id c))
    \<and> (\<forall>a b. a \<notin> \<Union> (loser_ids ` set gs) \<and> b \<notin> \<Union> (loser_ids ` set gs) \<and> dget (aliases s) a = Some b
          \<longrightarrow> dget (aliases (fold (merge_group E) gs s)) a = Some b)
    \<and> deployment_lease (fold (merge_group E) gs s) = deployment_lease s"
  using assms
proof (induction gs arbitrary: s)
  case Nil
  then show ?case by simp
next
  case (Cons g gs)
  let ?s1 = "merge_group E g s"
  obtain c where c: "canonical_task g = Some c" "c \<in> set g" "task_id c \<notin> loser_ids g"
    using Cons.prems(2) stored_groupE by (metis list.set_intros(1))
  note eff = merge_group_effect [OF c(1) store_wfD(6) [OF Cons.prems(1)], of E]
  have disj: "group_ids g \<inter> group_ids h = {}" if "h \<in> set gs" for h
    using that Cons.prems(3,4) by (auto simp: pairwise_def)
  have "store_wf ?s1" using Cons.prems by (intro wf_merge_group) simp_all
  moreover have "\<forall>h \<in> set gs. stored_group ?s1 h"
    using Cons.prems(1,2) disj stored_group_merge by auto
  moreover have "pairwise (\<lambda>g h. group_ids g \<inter> group_ids h = {}) (set gs)"
    using Cons.prems(3) by (auto simp: pairwise_def)
  ultimately have IH: "store_wf (fold (merge_group E) gs ?s1)"
    "tasks (fold (merge_group E) gs ?s1) = filter (\<lambda>(k, _). k \<notin> \<Union> (loser_ids ` set gs)) (tasks ?s1)"
    "\<And>h d a. h \<in> set gs \<Longrightarrow> canonical_task h = Some d \<Longrightarrow> a \<in> loser_ids h \<Longrightarrow>
          dget (aliases (fold (merge_group E) gs ?s1)) a = Some (task_id d)"
    "\<And>a b. a \<notin> \<Union> (loser_ids ` set gs) \<Longrightarrow> b \<notin> \<Union> (loser_ids ` set gs) \<Longrightarrow>
        dget (aliases ?s1) a = Some b \<Longrightarrow> dget (aliases (fold (merge_group E) gs ?s1)) a = Some b"
    "deployment_lease (fold (merge_group E) gs ?s1) = deployment_lease ?s1"
    using Cons.IH [of ?s1] Cons.prems(4) by auto
  have later: "x \<notin> \<Union> (loser_ids ` set gs)" if "x \<in> group_ids g" for x
    using that disj loser_ids_sub by blast
  have "dget (aliases (fold (merge_group E) gs ?s1)) a = Some (task_id c)" if "a \<in> loser_ids g" for a
    using that later loser_ids_sub [of g] c(2) by (intro IH(4)) (auto simp: eff(3) group_ids_def)
  moreover have "dget (aliases (fold (merge_group E) gs ?s1)) a = Some b"
    if "a \<notin> \<Union> (loser_ids ` set (g # gs))" "b \<notin> \<Union> (loser_ids ` set (g # gs))"
      "dget (aliases s) a = Some b" for a b
    using that by (intro IH(4)) (simp_all add: eff(3) del: map_of_eq_Some_iff)
  ultimately show ?case
    using IH(1,2,3,5) c(1) by (auto simp: eff(1,5) intro!: filter_cong simp del: map_of_eq_Some_iff)
qed

lemma dget_map_entry: "dget (map (\<lambda>(k, t). (k, f k t)) d) k = map_option (f k) (dget d k)"
  by (induction d) auto

lemma wf_map_tasks:
  assumes "store_wf s" and "\<And>k t. same_identity t (f k t)"
  shows "store_wf (s\<lparr>tasks := map (\<lambda>(k, t). (k, f k t)) (tasks s)\<rparr>)"
proof -
  let ?ts = "map (\<lambda>(k, t). (k, f k t)) (tasks s)"
  have keys: "map fst ?ts = map fst (tasks s)" by auto
  then have keys': "keys ?ts = keys (tasks s)" by (metis set_map)
  have get: "dget ?ts k = map_option (f k) (dget (tasks s) k)" for k
    by (rule dget_map_entry)
  have "tasks_wf ?ts"
    unfolding tasks_wf_def keys get
    using store_wfD(1,4) [OF assms(1)] assms(2) by (auto simp: same_identity_def simp del: map_of_eq_Some_iff)
  moreover have "fifo_wf ?ts (fifo s)"
    unfolding fifo_wf_def keys' get
    using store_wfD(2,3,5) [OF assms(1)] same_identity_maintenance [OF assms(2)]
    by (auto simp del: map_of_eq_Some_iff)
  moreover have "alias_wf ?ts (aliases s)"
    unfolding alias_wf_def keys' using assms(1) by (simp add: store_wf_def alias_wf_def)
  ultimately show ?thesis by (simp add: store_wf_def)
qed

definition restored_tasks :: "(string \<Rightarrow> time) \<Rightarrow> string option \<Rightarrow> store \<Rightarrow> store" where
  "restored_tasks now_of bound s = s\<lparr>tasks := map (\<lambda>(k, t). (k, if dedup_candidate bound t
                 then restore_expired_task (now_of k) t else t)) (tasks s)\<rparr>"

lemma restored_get:
  "dget (tasks (restored_tasks now_of bd s)) k = map_option
     (\<lambda>t. if dedup_candidate bd t then restore_expired_task (now_of k) t else t) (dget (tasks s) k)"
  by (simp add: restored_tasks_def dget_map_entry)

lemma dedup_candidate_identity:
  "same_identity t t' \<Longrightarrow> dedup_candidate bd t' = dedup_candidate bd t"
  by (simp add: dedup_candidate_def same_identity_def has_maintenance_metadata_def)

lemma wf_restored: "store_wf s \<Longrightarrow> store_wf (restored_tasks now_of bd s)"
  unfolding restored_tasks_def by (rule wf_map_tasks) simp_all

definition candidate_groups :: "string option \<Rightarrow> store \<Rightarrow> task list list" where
  "candidate_groups bound s =
     map snd (groups_by_symbol (filter (dedup_candidate bound) (map snd (tasks s))))"

lemma candidate_groups_mem:
  "g \<in> set (candidate_groups bd s) \<longleftrightarrow>
     g \<noteq> [] \<and> (\<exists>sy. g = filter (\<lambda>t. dedup_candidate bd t \<and> symbol t = sy) (map snd (tasks s)))"
proof -
  have "g \<in> snd ` S \<longleftrightarrow> (\<exists>sy. (sy, g) \<in> S)" for S :: "(string \<times> task list) set"
    by force
  then show ?thesis by (auto simp: candidate_groups_def groups_members)
qed

lemma group_symbol:
  "g \<in> set (candidate_groups bd s) \<Longrightarrow> t \<in> set g \<Longrightarrow> t' \<in> set g \<Longrightarrow> symbol t = symbol t'"
  by (auto simp: candidate_groups_mem)

lemma candidate_group_of:
  assumes "store_wf s" and "dget (tasks s) k = Some t" and "dedup_candidate bd t"
  obtains g where "g \<in> set (candidate_groups bd s)" "t \<in> set g"
proof -
  let ?g = "filter (\<lambda>u. dedup_candidate bd u \<and> symbol u = symbol t) (map snd (tasks s))"
  have "t \<in> set ?g" using assms(2,3) by (force dest: dget_SomeD)
  then have "?g \<noteq> []" by (metis empty_iff list.set(1))
  then have "?g \<in> set (candidate_groups bd s)" unfolding candidate_groups_mem by blast
  with \<open>t \<in> set ?g\<close> show ?thesis using that by blast
qed

lemma candidate_groups_stored:
  assumes "store_wf s" and "g \<in> set (candidate_groups bd s)"
  shows "stored_group s g"
  using assms(2) stored_mem [OF assms(1)]
  by (auto simp: candidate_groups_mem stored_group_def simp del: map_of_eq_Some_iff)

lemma candidate_groups_disjoint:
  assumes "store_wf s"
  shows "pairwise (\<lambda>g h. group_ids g \<inter> group_ids h = {}) (set (candidate_groups bd s))"
    and "distinct (candidate_groups bd s)"
proof -
  have same: "g = h" if gh: "g \<in> set (candidate_groups bd s)" "h \<in> set (candidate_groups bd s)"
    and ids: "group_ids g \<inter> group_ids h \<noteq> {}" for g h
  proof -
    from ids obtain t u where tu: "t \<in> set g" "u \<in> set h" "task_id t = task_id u"
      by (auto simp: group_ids_def)
    then have "t = u"
      using candidate_groups_stored [OF assms gh(1)] candidate_groups_stored [OF assms gh(2)]
      by (metis option.inject stored_group_def)
    with gh tu show ?thesis by (auto simp: candidate_groups_mem)
  qed
  then show "pairwise (\<lambda>g h. group_ids g \<inter> group_ids h = {}) (set (candidate_groups bd s))"
    by (auto simp: pairwise_def)
  have "a = b" if "(a, xs) \<in> set (groups_by_symbol ts)" "(b, xs) \<in> set (groups_by_symbol ts)"
    for a b xs ts
  proof -
    from that have xs: "xs = filter (\<lambda>t. symbol t = a) ts" "xs = filter (\<lambda>t. symbol t = b) ts" "xs \<noteq> []"
      unfolding groups_members by blast+
    from xs(3) obtain u where "u \<in> set xs" by (cases xs) auto
    with xs(1,2) have "symbol u = a" "symbol u = b" by (metis (mono_tags) mem_Collect_eq set_filter)+
    then show ?thesis by simp
  qed
  then have "inj_on snd (set (groups_by_symbol ts))" for ts
    by (auto simp: inj_on_def)
  then show "distinct (candidate_groups bd s)"
    using wf_groups by (auto simp: candidate_groups_def distinct_map)
qed

text \<open>The store after the pass, from the store \<open>r\<close> with the expired tasks restored.\<close>

definition dedup_bound :: "seconds \<Rightarrow> store \<Rightarrow> string option" where
  "dedup_bound clk s = bound_of (fst (active_deployment_lease clk s))"

definition dedup_start :: "(string \<Rightarrow> time) \<Rightarrow> seconds \<Rightarrow> store \<Rightarrow> store" where
  "dedup_start now_of clk s =
     restored_tasks now_of (dedup_bound clk s) (snd (active_deployment_lease clk s))"

lemma dedup_store:
  "snd (deduplicate_by_symbol E now_of clk s) =
     fold (merge_group E) (candidate_groups (dedup_bound clk s) (dedup_start now_of clk s))
       (dedup_start now_of clk s)"
  by (simp add: deduplicate_by_symbol_def dedup_bound_def dedup_start_def candidate_groups_def
      restored_tasks_def Let_def split: prod.split)

lemma wf_dedup_start: "store_wf s \<Longrightarrow> store_wf (dedup_start now_of clk s)"
  unfolding dedup_start_def using wf_restored wf_active_lease by (metis surjective_pairing)

lemma dedup_start_get:
  "dget (tasks (dedup_start now_of clk s)) k = map_option (\<lambda>t. if dedup_candidate (dedup_bound clk s) t
     then restore_expired_task (now_of k) t else t) (dget (tasks s) k)"
  by (cases "active_deployment_lease clk s") (auto simp: dedup_start_def restored_get dest: active_lease_frame)

lemma dedup_facts:
  fixes s E now_of clk
  defines "s' \<equiv> snd (deduplicate_by_symbol E now_of clk s)"
    and "r \<equiv> dedup_start now_of clk s" and "bd \<equiv> dedup_bound clk s"
  assumes wf: "store_wf s"
  shows "store_wf s'"
    and "tasks s' = filter (\<lambda>(k, _). k \<notin> \<Union> (loser_ids ` set (candidate_groups bd r))) (tasks r)"
    and "g \<in> set (candidate_groups bd r) \<Longrightarrow> canonical_task g = Some c \<Longrightarrow> a \<in> loser_ids g \<Longrightarrow>
           dget (aliases s') a = Some (task_id c)"
    and "deployment_lease s' = deployment_lease r"
proof -
  have wr: "store_wf r" using wf by (simp add: r_def wf_dedup_start)
  have "s' = fold (merge_group E) (candidate_groups bd r) r"
    by (simp add: s'_def r_def bd_def dedup_store)
  then show "store_wf s'"
    "tasks s' = filter (\<lambda>(k, _). k \<notin> \<Union> (loser_ids ` set (candidate_groups bd r))) (tasks r)"
    "g \<in> set (candidate_groups bd r) \<Longrightarrow> canonical_task g = Some c \<Longrightarrow> a \<in> loser_ids g \<Longrightarrow>
       dget (aliases s') a = Some (task_id c)"
    "deployment_lease s' = deployment_lease r"
    using fold_merge_groups [OF wr _ candidate_groups_disjoint [OF wr, of bd], of E]
      candidate_groups_stored [OF wr] by blast+
qed

lemma dedup_start_candidate:
  "dget (tasks s) k = Some t \<Longrightarrow> \<exists>u. dget (tasks (dedup_start now_of clk s)) k = Some u
     \<and> same_identity t u \<and> dedup_candidate (dedup_bound clk s) u = dedup_candidate (dedup_bound clk s) t"
  by (auto simp: dedup_start_get dedup_candidate_identity simp del: map_of_eq_Some_iff)

text \<open>At most one candidate per symbol is left.\<close>

lemma dedup_unique:
  assumes wf: "store_wf s"
    and t: "dget (tasks (snd (deduplicate_by_symbol E now_of clk s))) k = Some t"
      "dedup_candidate (dedup_bound clk s) t"
    and t': "dget (tasks (snd (deduplicate_by_symbol E now_of clk s))) k' = Some t'"
      "dedup_candidate (dedup_bound clk s) t'"
    and sy: "symbol t = symbol t'"
  shows "k = k'"
proof -
  let ?r = "dedup_start now_of clk s" and ?bd = "dedup_bound clk s"
  have wr: "store_wf ?r" using wf by (rule wf_dedup_start)
  note D = dedup_facts [OF wf, where E = E and now_of = now_of and clk = clk]
  have r: "dget (tasks ?r) k = Some t" "dget (tasks ?r) k' = Some t'"
    and kept: "k \<notin> \<Union> (loser_ids ` set (candidate_groups ?bd ?r))"
      "k' \<notin> \<Union> (loser_ids ` set (candidate_groups ?bd ?r))"
    using t(1) t'(1) unfolding D(2) by (auto simp: dget_filter_dict split: if_splits)
  have ids: "task_id t = k" "task_id t' = k'" using r store_wfD(4) [OF wr] by blast+
  obtain g where g: "g \<in> set (candidate_groups ?bd ?r)" "t \<in> set g"
    using candidate_group_of [OF wr r(1) t(2)] .
  have "t' \<in> set g" using g r(2) t'(2) sy by (force simp: candidate_groups_mem dest: dget_SomeD)
  obtain c where c: "canonical_task g = Some c"
    using candidate_groups_stored [OF wr g(1)] by (rule stored_groupE)
  have "k \<notin> loser_ids g" "k' \<notin> loser_ids g" using kept g(1) by blast+
  then have "k = task_id c" "k' = task_id c"
    using g(2) \<open>t' \<in> set g\<close> ids by (auto simp: loser_ids_def c)
  then show ?thesis by simp
qed

text \<open>Every candidate's id leads to the remaining task of its symbol.\<close>

lemma dedup_resolves:
  assumes wf: "store_wf s" and t: "dget (tasks s) k = Some t" "dedup_candidate (dedup_bound clk s) t"
  shows "\<exists>t'. get_task k (snd (deduplicate_by_symbol E now_of clk s)) = Some t'
    \<and> symbol t' = symbol t \<and> dedup_candidate (dedup_bound clk s) t'"
proof -
  let ?r = "dedup_start now_of clk s" and ?bd = "dedup_bound clk s"
  let ?s' = "snd (deduplicate_by_symbol E now_of clk s)"
  have wr: "store_wf ?r" using wf by (rule wf_dedup_start)
  note D = dedup_facts [OF wf, where E = E and now_of = now_of and clk = clk]
  obtain u where u: "dget (tasks ?r) k = Some u" "symbol u = symbol t" "dedup_candidate ?bd u"
    using dedup_start_candidate [OF t(1)] t(2) by (auto simp: same_identity_def)
  obtain g where g: "g \<in> set (candidate_groups ?bd ?r)" "u \<in> set g"
    using candidate_group_of [OF wr u(1,3)] .
  obtain c where c: "canonical_task g = Some c" "c \<in> set g" "task_id c \<notin> loser_ids g"
    using candidate_groups_stored [OF wr g(1)] by (rule stored_groupE)
  have other: "task_id c \<notin> loser_ids h" if "h \<in> set (candidate_groups ?bd ?r)" for h
  proof (cases "h = g")
    case False
    then have "group_ids g \<inter> group_ids h = {}"
      using candidate_groups_disjoint(1) [OF wr] g(1) that by (auto simp: pairwise_def)
    then show ?thesis using c(2) loser_ids_sub [of h] by (auto simp: group_ids_def)
  qed (use c in simp)
  have cr: "dget (tasks ?r) (task_id c) = Some c"
    using candidate_groups_stored [OF wr g(1)] c(2) by (simp add: stored_group_def)
  have cs: "dget (tasks ?s') (task_id c) = Some c"
    unfolding D(2) using cr other by (auto simp: dget_filter_dict simp del: map_of_eq_Some_iff)
  have cprops: "symbol c = symbol t" "dedup_candidate ?bd c"
    using g c(2) u(2) by (auto simp: candidate_groups_mem)
  have "task_id u = k" using store_wfD(4) [OF wr u(1)] .
  then consider "k = task_id c" | "k \<in> loser_ids g"
    using g(2) by (auto simp: loser_ids_def c(1))
  then have "resolve_task_id k ?s' = task_id c"
  proof cases
    case 1
    then show ?thesis using resolve_stored [OF D(1)] dget_keys [OF cs] by simp
  next
    case 2
    then show ?thesis using resolve_task_id_wf [OF D(1)] D(3) [OF g(1) c(1)] by simp
  qed
  then show ?thesis using cs cprops by (simp add: get_task_def)
qed

text \<open>Tasks that are no candidates (maintenance tasks, the bound task) stay.\<close>

lemma dedup_keeps_others:
  assumes wf: "store_wf s" and t: "dget (tasks s) k = Some t" "\<not> dedup_candidate (dedup_bound clk s) t"
  shows "dget (tasks (snd (deduplicate_by_symbol E now_of clk s))) k = Some t"
proof -
  let ?r = "dedup_start now_of clk s" and ?bd = "dedup_bound clk s"
  have wr: "store_wf ?r" using wf by (rule wf_dedup_start)
  have r: "dget (tasks ?r) k = Some t" using t by (simp add: dedup_start_get)
  have "k \<notin> loser_ids g" if "g \<in> set (candidate_groups ?bd ?r)" for g
  proof
    assume "k \<in> loser_ids g"
    then obtain u where "u \<in> set g" "task_id u = k" using loser_ids_sub by (force simp: group_ids_def)
    then have "u = t" "dedup_candidate ?bd u"
      using candidate_groups_stored [OF wr that] r that
      by (auto simp: stored_group_def candidate_groups_mem)
    with t(2) show False by simp
  qed
  then show ?thesis
    unfolding dedup_facts(2) [OF wf] using r by (auto simp: dget_filter_dict simp del: map_of_eq_Some_iff)
qed

end
