(* ===== verification/Queue_System.thy ===== *)
theory Queue_System
  imports Queue_Dedup
begin

text \<open>
  The in-memory store as a state machine: a step is one operation of the class, in any order
  and with any arguments (new tasks come with new ids, as the API's UUIDs do). Every reachable
  store is well-formed, its lease holds the digest of its owner and a stored acceptance task
  when it is bound, and a step unlinks files inside the capture root only.
\<close>

section \<open>Lease operations keep the store well-formed\<close>

lemma wf_acquire:
  "store_wf s \<Longrightarrow> store_wf (snd (acquire_deployment_lease E clk clk' tok ttl s))"
  by (auto simp: acquire_deployment_lease_def wf_active_lease split: prod.split option.split)

lemma wf_renew:
  "store_wf s \<Longrightarrow> store_wf (snd (renew_deployment_lease E clk clk' tok ttl s))"
  by (auto simp: renew_deployment_lease_def Let_def wf_active_lease split: prod.split option.split)

lemma wf_release:
  assumes "store_wf s"
  shows "store_wf (snd (release_deployment_lease E clk tok s))"
proof -
  obtain l s1 where a: "active_deployment_lease clk s = (l, s1)" by fastforce
  have wf: "store_wf s1" using assms a wf_active_lease by blast
  then have "store_wf s2" if "remove_maintenance_task E b d lg s1 = (r, s2)" for b d lg r s2
    using wf_remove_maintenance_task [of s1 E b d lg] that by simp
  with wf show ?thesis
    by (auto simp: release_deployment_lease_def a Let_def split: option.split sum.split bool.split prod.split)
qed

lemma mark_acceptance_maintenance [simp]:
  "has_maintenance_metadata (mark_deployment_acceptance E tok t)"
  "task_id (mark_deployment_acceptance E tok t) = task_id t"
  by (simp_all add: mark_deployment_acceptance_def has_maintenance_metadata_def)

lemma quiet_refresh_snd [simp]: "snd (quiet_refresh E now t s) = snd (refresh_locked E now t (Some False) s)"
  by (cases "refresh_locked E now t (Some False) s")
    (auto simp: quiet_refresh_def split: sum.split store_error.split)

definition bind_marked :: "store_env \<Rightarrow> string \<Rightarrow> string \<Rightarrow> task \<Rightarrow> task option" where
  "bind_marked E tok b t =
     (if has_maintenance_metadata t then
        (if valid_bound_acceptance t b (sha256_hex E tok) False then Some t else None)
      else if valid_legacy_bound_acceptance t b then Some (mark_deployment_acceptance E tok t)
      else None)"

lemma bind_existing_alt:
  "bind_existing E now tok b s = (case dget (tasks s) b of None \<Rightarrow> (Inr None, s)
     | Some t0 \<Rightarrow> (case bind_marked E tok b t0 of None \<Rightarrow> (Inr None, s)
        | Some t \<Rightarrow> if terminal_acceptance_retryable t then quiet_refresh E now t (put_task t s)
                   else (Inr (Some t), put_task t s)))"
  by (simp add: bind_existing_def bind_marked_def Let_def split: option.split)

lemma bind_markedD:
  assumes "bind_marked E tok b t0 = Some t"
  shows "task_id t = task_id t0" "has_maintenance_metadata t" "include_long_capture t = False"
    "symbol t = acceptance_symbol" "symbol t0 = acceptance_symbol"
    "maintenance_namespace t = Some deployment_acceptance"
    "maintenance_owner_digest t = Some (sha256_hex E tok)" "task_id t0 = b"
  using assms
  by (auto simp: bind_marked_def mark_deployment_acceptance_def valid_bound_acceptance_def
      valid_legacy_bound_acceptance_def has_maintenance_metadata_def split: if_splits option.splits)

lemma wf_bind_existing:
  assumes "store_wf s"
  shows "store_wf (snd (bind_existing E now tok b s))"
proof -
  have "store_wf (put_task t s) \<and> store_wf (snd (refresh_locked E now t (Some False) (put_task t s)))"
    if t0: "dget (tasks s) b = Some t0" and t: "bind_marked E tok b t0 = Some t" for t0 t
  proof
    show wf: "store_wf (put_task t s)"
      using assms t0 bind_markedD [OF t] by (intro wf_put_task [of _ _ t0]) auto
    show "store_wf (snd (refresh_locked E now t (Some False) (put_task t s)))"
      using wf by (rule wf_refresh_locked [of _ _ t]) simp_all
  qed
  then show ?thesis using assms by (auto simp: bind_existing_alt split: option.split)
qed

lemma wf_bind_new:
  assumes "store_wf s" and "task_id c \<notin> keys (aliases s)"
  shows "store_wf (snd (bind_new E tok c l s))"
proof -
  let ?m = "mark_deployment_acceptance E tok c"
  have "store_wf (snd (enqueue_locked True ?m s))" if "task_id c \<notin> keys (tasks s)"
    using assms that by (intro wf_enqueue_locked) (simp_all add: fresh_id_def)
  then show ?thesis
    using assms(1) unfolding bind_new_def Let_def
    by (cases "enqueue_locked True ?m s") (auto split: sum.split store_error.split)
qed

lemma wf_bind:
  assumes "store_wf s" and "fresh_id (task_id c) s"
  shows "store_wf (snd (bind_deployment_acceptance E now clk tok c s))"
proof -
  obtain l s1 where a: "active_deployment_lease clk s = (l, s1)" by fastforce
  have wf: "store_wf (s1\<lparr>deployment_lease := x\<rparr>)" and al: "aliases s1 = aliases s" for x
    using assms a by (simp_all add: wf_active_lease active_lease_frame)
  have wf1: "store_wf s1" using assms a wf_active_lease by blast
  show ?thesis
    using assms wf1 wf_bind_existing [OF wf] wf_bind_new [OF wf, of c] al
    by (auto simp: bind_deployment_acceptance_def a Let_def fresh_id_def
        split: option.split sum.split bool.split)
qed

section \<open>The lease and its acceptance task\<close>

definition bound_task_wf :: "(string, task) dict \<Rightarrow> string \<Rightarrow> string \<Rightarrow> bool" where
  "bound_task_wf ts b digest \<longleftrightarrow>
     (\<exists>t. dget ts b = Some t \<and> valid_bound_acceptance t b digest False)"

definition lease_wf :: "store_env \<Rightarrow> store \<Rightarrow> bool" where
  "lease_wf E s \<longleftrightarrow> (\<forall>l. deployment_lease s = Some l \<longrightarrow>
     lease_digest l = Some (sha256_hex E (lease_owner l)) \<and> ascii (lease_owner l)
     \<and> (\<forall>b. lease_bound l = Some b \<longrightarrow> bound_task_wf (tasks s) b (sha256_hex E (lease_owner l))))"

lemma lease_wf_None [simp]: "deployment_lease s = None \<Longrightarrow> lease_wf E s"
  by (simp add: lease_wf_def)

lemma lease_wf_cong:
  "tasks s' = tasks s \<Longrightarrow> deployment_lease s' = deployment_lease s \<Longrightarrow> lease_wf E s' = lease_wf E s"
  by (simp add: lease_wf_def)

lemma lease_wf_sub:
  "lease_wf E s \<Longrightarrow> tasks s' = tasks s \<Longrightarrow> deployment_lease s' \<in> {deployment_lease s, None} \<Longrightarrow> lease_wf E s'"
  by (auto simp: lease_wf_def)

lemma lease_wf_active: "active_deployment_lease clk s = (l, s1) \<Longrightarrow> lease_wf E s \<Longrightarrow> lease_wf E s1"
  by (rule lease_wf_sub, assumption)
    (auto simp: active_deployment_lease_def split: option.splits if_splits)

text \<open>What a task change must keep for the lease: the identity, and the capture choice of a
  maintenance task.\<close>

definition lease_safe :: "task \<Rightarrow> task \<Rightarrow> bool" where
  "lease_safe t t' \<longleftrightarrow> same_identity t t'
     \<and> (has_maintenance_metadata t \<longrightarrow> include_long_capture t' = include_long_capture t)"

lemma valid_bound_lease_safe:
  "valid_bound_acceptance t b d False \<Longrightarrow> lease_safe t t' \<Longrightarrow> valid_bound_acceptance t' b d False"
  using bound_acceptance_maintenance
  by (fastforce simp: lease_safe_def same_identity_def valid_bound_acceptance_def)

lemma lease_wf_put:
  assumes "lease_wf E s" and "store_wf s" and "dget (tasks s) tid = Some t" and "lease_safe t t'"
  shows "lease_wf E (put_task t' s)"
proof -
  have "task_id t' = tid" using assms(2-4) id_of_stored by (auto simp: lease_safe_def)
  then have "bound_task_wf (dset (task_id t') t' (tasks s)) b d" if "bound_task_wf (tasks s) b d" for b d
    using that assms(3,4) valid_bound_lease_safe by (auto simp: bound_task_wf_def simp del: map_of_eq_Some_iff)
  then show ?thesis using assms(1) by (simp add: lease_wf_def)
qed

lemma lease_wf_frames [simp]:
  "lease_wf E (emit t s) = lease_wf E s" "lease_wf E (unlink_task E' t s) = lease_wf E s"
  "lease_wf E (move_to_fifo_tail i s) = lease_wf E s"
  "lease_wf E (s\<lparr>fifo := q\<rparr>) = lease_wf E s"
  by (rule lease_wf_cong; simp)+

lemma lease_safeI [simp]:
  "lease_safe t (start_running now t)" "lease_safe t (requeued now t)"
  "lease_safe t ((requeued now t)\<lparr>completed_at := c\<rparr>)" "lease_safe t (expire_task now t)"
  by (simp_all add: lease_safe_def same_identity_def start_running_def requeued_def expire_task_def)

lemma lease_wf_enqueue_locked:
  assumes "lease_wf E s" and "task_id t \<notin> keys (tasks s)"
  shows "lease_wf E (snd (enqueue_locked m t s))"
proof -
  have "dget (dset (task_id t) t (tasks s)) b = Some u" if "dget (tasks s) b = Some u" for b u
  proof -
    have "b \<noteq> task_id t" using dget_keys [OF that] assms(2) by blast
    with that show ?thesis by simp
  qed
  then have "bound_task_wf (dset (task_id t) t (tasks s)) b d" if "bound_task_wf (tasks s) b d" for b d
    using that unfolding bound_task_wf_def by blast
  then have "lease_wf E (put_task t s)" using assms(1) by (simp add: lease_wf_def)
  then show ?thesis using assms(1) by (simp add: enqueue_locked_def)
qed

lemma reset_task_includes [simp]:
  "include_long_capture (reset_task_for_refresh now incl t) =
     (case incl of None \<Rightarrow> include_long_capture t | Some b \<Rightarrow> b)"
  by (simp add: reset_task_for_refresh_def Let_def split: option.split)

lemma lease_wf_refresh_locked:
  assumes "lease_wf E s" "store_wf s" "dget (tasks s) (task_id t) = Some t"
    and "has_maintenance_metadata t \<Longrightarrow> incl = Some (include_long_capture t)"
  shows "lease_wf E (snd (refresh_locked E' now t incl s))"
proof -
  let ?t' = "reset_task_for_refresh now incl t"
  have "lease_safe t ?t'"
    using assms(4) by (auto simp: lease_safe_def)
  then have "lease_wf E (put_task ?t' (unlink_task E' t s))"
    using assms(1-3) by (intro lease_wf_put) simp_all
  then show ?thesis
    using assms(1) by (simp add: refresh_locked_def Let_def)
qed

lemma lease_wf_find_by_symbol:
  "find_by_symbol clk sy s = (r, s1) \<Longrightarrow> lease_wf E s \<Longrightarrow> lease_wf E s1"
  by (auto simp: find_by_symbol_def intro: lease_wf_active split: prod.splits)

lemma lease_wf_submit_or_refresh:
  assumes "lease_wf E s" "store_wf s" "fresh_id (task_id t) s"
  shows "lease_wf E (snd (submit_or_refresh E' now clk t s))"
proof (cases "find_by_symbol clk (symbol t) s")
  case (Pair found s1)
  note l1 = lease_wf_find_by_symbol [OF Pair assms(1)]
  show ?thesis
  proof (cases found)
    case None
    with Pair have *: "find_by_symbol clk (symbol t) s = (None, s1)" by simp
    have "lease_wf E (snd (enqueue_locked False t s1))"
      using l1 assms(3) find_by_symbol_NoneD(2) [OF * assms(2)]
      by (intro lease_wf_enqueue_locked) (simp_all add: fresh_id_def)
    then show ?thesis
      using assms(1) * by (auto simp: submit_or_refresh_def split: prod.splits sum.splits)
  next
    case (Some ex)
    with Pair have *: "find_by_symbol clk (symbol t) s = (Some ex, s1)" by simp
    note D = find_by_symbol_SomeD [OF * assms(2)]
    have "lease_wf E (snd (refresh_locked E' now ex incl s1))" for incl
      using D l1 by (intro lease_wf_refresh_locked) auto
    then show ?thesis using assms(1) * l1 by (simp add: submit_or_refresh_def)
  qed
qed

lemma lease_wf_next_runnable:
  assumes "lease_wf E s" "store_wf s"
  shows "lease_wf E (snd (next_runnable now clk s))"
proof (cases rule: active_lease_cases [of clk s])
  case none
  then show ?thesis by (auto simp: next_runnable_def Let_def intro!: lease_wf_None split: option.splits)
next
  case (some l)
  have "lease_wf E (put_task (start_running now t) (s\<lparr>fifo := filter (\<lambda>i. i \<noteq> b) (fifo s)\<rparr>))"
    if "dget (tasks s) b = Some t" "has_maintenance_metadata t" for b t
  proof (rule lease_wf_put [of _ _ b t])
    show "store_wf (s\<lparr>fifo := filter (\<lambda>i. i \<noteq> b) (fifo s)\<rparr>)"
      using assms(2) that by (intro wf_unqueue_maintenance) auto
  qed (use assms(1) that in simp_all)
  then show ?thesis
    using some assms(1)
    by (auto simp: next_runnable_def Let_def dest: bound_acceptance_maintenance split: option.splits)
qed

lemma lease_wf_is_maintenance:
  "is_maintenance_task clk t s = (b, s1) \<Longrightarrow> lease_wf E s \<Longrightarrow> lease_wf E s1"
  by (rule lease_wf_sub, assumption) (auto dest: is_maintenance_taskD)

lemma lease_wf_requeue_move:
  assumes "lease_wf E s" "store_wf s" "dget (tasks s) tid = Some t" "lease_safe t t'"
  shows "lease_wf E (put_task t' (move_to_fifo_tail tid s))"
  using assms by (intro lease_wf_put [of _ _ tid t] wf_move_to_fifo_tail) (auto intro: dget_keys)

lemma lease_wf_requeue_waiting:
  assumes "lease_wf E s" "store_wf s"
  shows "lease_wf E (snd (requeue_waiting now clk tid s))"
proof -
  have "lease_wf E (put_task (requeued now t) (move_to_fifo_tail tid s1))"
    if "dget (tasks s) tid = Some t" "is_maintenance_task clk t s = (False, s1)" for t s1
    using that assms
    by (intro lease_wf_requeue_move)
      (auto simp: is_maintenance_taskD wf_is_maintenance_task intro: lease_wf_is_maintenance)
  then show ?thesis
    using assms by (auto simp: requeue_waiting_def Let_def intro: lease_wf_is_maintenance
        split: option.split prod.split bool.split)
qed

lemma lease_wf_retry_failed:
  assumes "lease_wf E s" "store_wf s"
  shows "lease_wf E (snd (retry_failed now clk tid s))"
proof -
  have "lease_wf E (put_task ((requeued now t)\<lparr>completed_at := None\<rparr>) (move_to_fifo_tail tid s1))"
    if "dget (tasks s) tid = Some t" "is_maintenance_task clk t s = (False, s1)" for t s1
    using that assms
    by (intro lease_wf_requeue_move)
      (auto simp: is_maintenance_taskD wf_is_maintenance_task intro: lease_wf_is_maintenance)
  then show ?thesis
    using assms by (auto simp: retry_failed_def Let_def intro: lease_wf_is_maintenance
        split: option.split prod.split bool.split)
qed

lemma lease_wf_refresh_task:
  assumes "lease_wf E s" "store_wf s"
  shows "lease_wf E (snd (refresh_task E' now clk tid incl s))"
proof -
  have "lease_wf E (snd (refresh_locked E' now t incl s1))"
    if t: "dget (tasks s) i = Some t" and m: "is_maintenance_task clk t s = (False, s1)" for t s1 i
  proof (rule lease_wf_refresh_locked)
    show "lease_wf E s1" "store_wf s1"
      using assms m by (auto simp: wf_is_maintenance_task intro: lease_wf_is_maintenance)
    show "dget (tasks s1) (task_id t) = Some t"
      using that assms by (metis is_maintenance_taskD(1) store_wfD(4))
  qed (use is_maintenance_taskD(8) [OF m] in simp)
  then show ?thesis
    using assms by (auto simp: refresh_task_def intro: lease_wf_is_maintenance
        split: option.split prod.split bool.split)
qed

lemma lease_wf_transition:
  assumes "lease_wf E s" "store_wf s"
  shows "lease_wf E (snd (transition now tid st err serrs s))"
  using assms by (auto simp: transition_def Let_def lease_safe_def same_identity_def
      intro!: lease_wf_put split: option.split)

lemma lease_wf_complete_capture:
  assumes "lease_wf E s" "store_wf s"
  shows "lease_wf E (snd (complete_capture now tid kind p s))"
  using assms by (auto simp: complete_capture_def Let_def lease_safe_def same_identity_def
      intro!: lease_wf_put split: option.split)

lemma lease_wf_complete_market_snapshot:
  assumes "lease_wf E s" "store_wf s"
  shows "lease_wf E (snd (complete_market_snapshot now tid snap s))"
  using assms by (auto simp: complete_market_snapshot_def Let_def lease_safe_def same_identity_def
      intro!: lease_wf_put split: option.split)

lemma lease_safe_result [simp]:
  "lease_safe t (result_values vs ocr t)" "lease_safe t (result_status now ig t)"
  "lease_safe t (t\<lparr>intraday_series := ser, source_errors := se\<rparr>)"
  by (simp_all add: lease_safe_def same_identity_def result_values_def result_status_def Let_def)

lemma lease_safe_trans: "lease_safe a b \<Longrightarrow> lease_safe b c \<Longrightarrow> lease_safe a c"
  unfolding lease_safe_def using same_identity_trans same_identity_maintenance by metis

lemma lease_safe_capture: "result_capture now p t = Some t' \<Longrightarrow> lease_safe t t'"
  by (auto simp: lease_safe_def same_identity_def result_capture_def split: if_splits option.splits)

lemma lease_wf_complete_result:
  assumes "lease_wf E s" "store_wf s"
  shows "lease_wf E (snd (complete_result now tid vs p ocr serrs series ig s))"
proof (cases "dget (tasks s) tid")
  case None
  then show ?thesis using assms by (simp add: complete_result_def)
next
  case (Some t)
  let ?t1 = "result_values vs ocr t"
  let ?t2 = "\<lambda>ser. ?t1\<lparr>intraday_series := ser, source_errors := normalized_source_errors serrs\<rparr>"
  have 2: "lease_safe t (?t2 ser)" for ser
    by (rule lease_safe_trans [of _ ?t1]) simp_all
  have 3: "lease_safe t (result_status now ig t3)"
    if "result_capture now p (?t2 ser) = Some t3" for ser t3
    using 2 [of ser] lease_safe_capture [OF that] lease_safe_trans lease_safe_result(2) by blast
  show ?thesis
    using Some assms 2 3
    by (auto simp: complete_result_def Let_def intro!: lease_wf_put [OF assms Some] split: option.split)
qed

lemma lease_wf_recover_fold:
  assumes "lease_wf E s" "store_wf s"
    and "\<And>t'. t' \<in> set ts \<Longrightarrow> \<exists>t. dget (tasks s) (task_id t') = Some t \<and> lease_safe t t'"
    and "distinct (map task_id ts)"
  shows "lease_wf E (fold (\<lambda>t. emit t \<circ> put_task t) ts s)"
  using assms
proof (induction ts arbitrary: s)
  case Nil
  then show ?case by simp
next
  case (Cons a ts)
  obtain t where t: "dget (tasks s) (task_id a) = Some t" "lease_safe t a"
    using Cons.prems(3) by auto
  have "lease_wf E (emit a (put_task a s))"
    using Cons.prems(1,2) t by (simp add: lease_wf_put)
  moreover have "store_wf (emit a (put_task a s))"
    using Cons.prems(2) t by (auto simp: lease_safe_def intro: wf_put_same)
  moreover have "\<exists>t. dget (tasks (emit a (put_task a s))) (task_id t') = Some t \<and> lease_safe t t'"
    if "t' \<in> set ts" for t'
    using that Cons.prems(3,4) by (auto simp: image_iff)
  ultimately show ?case using Cons.prems(4) Cons.IH by simp
qed

lemma recovered_tasks:
  assumes "store_wf s"
  shows "distinct (map task_id (fst (recover_running now_of s)))"
    and "t' \<in> set (fst (recover_running now_of s)) \<Longrightarrow>
      \<exists>t. dget (tasks s) (task_id t') = Some t \<and> status t = RUNNING \<and> lease_safe t t'
        \<and> t' = (requeued (now_of (task_id t)) t)\<lparr>completed_at := None\<rparr>"
proof -
  let ?run = "sort_key created_at (filter (\<lambda>t. status t = RUNNING) (map snd (tasks s)))"
  let ?f = "\<lambda>t. (requeued (now_of (task_id t)) t)\<lparr>completed_at := None\<rparr>"
  have id: "task_id (?f t) = task_id t" for t by (simp add: requeued_def)
  have "distinct (map task_id ?run)"
    using distinct_filter_ids [OF assms, of "\<lambda>t. status t = RUNNING"]
    by (simp add: distinct_map inj_on_def)
  then show "distinct (map task_id (fst (recover_running now_of s)))"
    by (simp add: recover_running_def Let_def comp_def id del: sort_key_simps)
  assume "t' \<in> set (fst (recover_running now_of s))"
  then obtain t where t: "t \<in> snd ` set (tasks s)" "status t = RUNNING" "t' = ?f t"
    by (auto simp: recover_running_def Let_def)
  have "dget (tasks s) (task_id t') = Some t" using stored_mem [OF assms t(1)] t(3) id by metis
  then show "\<exists>t. dget (tasks s) (task_id t') = Some t \<and> status t = RUNNING \<and> lease_safe t t'
        \<and> t' = (requeued (now_of (task_id t)) t)\<lparr>completed_at := None\<rparr>"
    using t(2,3) lease_safeI(3) by metis
qed

lemma lease_wf_recover_running:
  assumes "lease_wf E s" "store_wf s"
  shows "lease_wf E (snd (recover_running now_of s))"
proof -
  have "snd (recover_running now_of s) =
      fold (\<lambda>t. emit t \<circ> put_task t) (fst (recover_running now_of s)) s"
    by (simp add: recover_running_def Let_def)
  then show ?thesis
    using lease_wf_recover_fold [OF assms _ recovered_tasks(1) [OF assms(2)], of now_of]
      recovered_tasks(2) [OF assms(2)] by metis
qed

lemma lease_wf_remove_other:
  assumes "lease_wf E s" "bound_of (deployment_lease s) \<noteq> Some raw"
  shows "lease_wf E (snd (remove_maintenance_task E' raw d lg s))"
proof (cases rule: remove_maintenance_task_cases [of E' raw d lg s])
  case kept
  with assms show ?thesis by simp
next
  case (removed t cid s')
  then show ?thesis
    using assms by (auto simp: lease_wf_def bound_task_wf_def bound_of_def)
qed

lemma lease_wf_cleanup_fold:
  assumes "lease_wf E s" "store_wf s" "wf_dict kts" "bd = bound_of (deployment_lease s)"
    and "\<And>k t. (k, t) \<in> set kts \<Longrightarrow> dget (tasks s) k = Some t"
  shows "lease_wf E (snd (fold (cleanup_task E' now bd) kts (rs, s)))"
  using assms
proof (induction kts arbitrary: rs s)
  case Nil
  then show ?case by simp
next
  case (Cons p kts)
  obtain k t where p: "p = (k, t)" by fastforce
  obtain rs' s' where c: "cleanup_task E' now bd (k, t) (rs, s) = (rs', s')" by fastforce
  have stored: "dget (tasks s) k = Some t" using Cons.prems(5) p by simp
  have id: "task_id t = k" using Cons.prems(2) stored store_wfD(4) by blast
  have wf': "store_wf s'" using wf_cleanup_task Cons.prems(2) stored c by (metis snd_conv)
  have "lease_wf E s' \<and> deployment_lease s' = deployment_lease s"
  proof (cases "has_maintenance_metadata t")
    case True
    then consider "s' = s" | "bd \<noteq> Some k" "s' = snd (remove_maintenance_task E' k None False s)"
      using c by (auto simp: cleanup_task_def split: if_splits prod.splits option.splits)
    then show ?thesis
    proof cases
      case 2
      then show ?thesis
        using lease_wf_remove_other [of E s k] Cons.prems(1,4)
          remove_maintenance_task_cases [of E' k None False s] by (metis snd_conv)
    qed (use Cons.prems(1) in simp)
  next
    case False
    obtain s0 where s0: "s' = put_task (expire_task now t) s0" "tasks s0 = tasks s" "fifo s0 = fifo s"
        "aliases s0 = aliases s" "deployment_lease s0 = deployment_lease s"
      using cleanup_task_cases [of t E' now bd k rs s] False c by (metis snd_conv)
    have "store_wf s0" "lease_wf E s0"
      using Cons.prems(1,2) s0 store_wf_cong lease_wf_cong by blast+
    then show ?thesis
      using lease_wf_put [of E s0 k t "expire_task now t"] stored s0 by simp
  qed
  moreover have "dget (tasks s') k' = Some t'" if "(k', t') \<in> set kts" for k' t'
  proof -
    from that have "k' \<noteq> k" using Cons.prems(3) p by force
    then show ?thesis
      using cleanup_task_other [of k' k t E' now bd rs s] c that Cons.prems(5) id
      by (metis list.set_intros(2) snd_conv)
  qed
  ultimately show ?case using Cons.IH [of s' rs'] Cons.prems(3,4) p c wf' by simp
qed

lemma lease_wf_cleanup:
  assumes "lease_wf E s" "store_wf s"
  shows "lease_wf E (snd (cleanup E' now clk s))"
proof -
  obtain l s1 where a: "active_deployment_lease clk s = (l, s1)" by fastforce
  have wf: "store_wf s1" "lease_wf E s1" "deployment_lease s1 = l"
    using assms wf_active_lease [OF a] lease_wf_active [OF a] active_lease_frame(8) [OF a] by blast+
  have "lease_wf E (snd (fold (cleanup_task E' now (bound_of l)) (tasks s1) ([], s1)))"
    using wf store_wfD(1) [OF wf(1)] by (intro lease_wf_cleanup_fold) (simp_all add: map_of_is_SomeI)
  then show ?thesis by (simp add: cleanup_def a)
qed

lemma dedup_start_lease: "deployment_lease (dedup_start now_of clk s) = fst (active_deployment_lease clk s)"
  by (cases "active_deployment_lease clk s")
    (simp add: dedup_start_def restored_tasks_def active_lease_frame(8))

lemma lease_wf_dedup:
  assumes "lease_wf E s" "store_wf s"
  shows "lease_wf E (snd (deduplicate_by_symbol E' now_of clk s))"
proof -
  let ?s' = "snd (deduplicate_by_symbol E' now_of clk s)"
  have lease: "deployment_lease ?s' = fst (active_deployment_lease clk s)"
    by (simp add: dedup_facts(4) [OF assms(2)] dedup_start_lease)
  have "bound_task_wf (tasks ?s') b d" if b: "bound_task_wf (tasks s) b d" for b d
  proof -
    obtain t where t: "dget (tasks s) b = Some t" "valid_bound_acceptance t b d False"
      using b by (auto simp: bound_task_wf_def)
    then have "\<not> dedup_candidate (dedup_bound clk s) t"
      using bound_acceptance_maintenance by (auto simp: dedup_candidate_def)
    then show ?thesis using dedup_keeps_others [OF assms(2) t(1)] t(2) by (auto simp: bound_task_wf_def)
  qed
  then show ?thesis
    using assms(1) by (cases rule: active_lease_cases [of clk s]) (auto simp: lease_wf_def lease)
qed

lemma ascii_owner_char: "list_all owner_char tok \<Longrightarrow> ascii tok"
  by (auto simp: ascii_def owner_char_def is_alpha_def is_digit_def Let_def elim!: list.pred_mono_strong)

lemma lease_wf_acquire:
  assumes "lease_wf E s"
  shows "lease_wf E (snd (acquire_deployment_lease E clk clk' tok ttl s))"
  using assms lease_wf_active [of clk s _ _ E]
  by (auto simp: acquire_deployment_lease_def lease_wf_def valid_lease_request_def ascii_owner_char
      split: prod.split option.split)

lemma lease_wf_renew:
  assumes "lease_wf E s"
  shows "lease_wf E (snd (renew_deployment_lease E clk clk' tok ttl s))"
proof (cases rule: active_lease_cases [of clk s])
  case none
  then show ?thesis using assms by (simp add: renew_deployment_lease_def)
next
  case (some l)
  then show ?thesis
    using assms by (auto simp: renew_deployment_lease_def Let_def lease_wf_def)
qed

lemma lease_wf_release:
  assumes "lease_wf E s" "store_wf s"
  shows "lease_wf E (snd (release_deployment_lease E' clk tok s))"
proof -
  obtain l s1 where a: "active_deployment_lease clk s = (l, s1)" by fastforce
  have wf: "lease_wf E s1" using assms(1) lease_wf_active [OF a] by blast
  have "lease_wf E s2" if "remove_maintenance_task E' b d lg s1 = (None, s2)" for b d lg s2
    using that wf by (cases rule: remove_maintenance_task_cases [of E' b d lg s1]) simp_all
  then show ?thesis
    using wf by (auto simp: release_deployment_lease_def a Let_def
        split: option.split sum.split bool.split prod.split)
qed

lemma lease_wf_bind:
  assumes "lease_wf E s" "store_wf s" and digest: "\<And>x. maintenance_owner_digest_format (sha256_hex E x)"
  shows "lease_wf E (snd (bind_deployment_acceptance E now clk tok c s))"
proof (cases rule: active_lease_cases [of clk s])
  case none
  then show ?thesis using assms by (simp add: bind_deployment_acceptance_def)
next
  case (some l)
  let ?l' = "l\<lparr>lease_digest := Some (sha256_hex E tok)\<rparr>"
  let ?s2 = "s\<lparr>deployment_lease := Some ?l'\<rparr>"
  have l: "lease_digest l = Some (sha256_hex E (lease_owner l))" "ascii (lease_owner l)"
    "\<And>b. lease_bound l = Some b \<Longrightarrow> bound_task_wf (tasks s) b (sha256_hex E (lease_owner l))"
    using assms(1) some(2) by (auto simp: lease_wf_def)
  have wf2: "store_wf ?s2" using assms(2) by simp
  have "lease_wf E (snd (bind_existing E now tok b ?s2)) \<and> lease_wf E (snd (bind_new E tok c ?l' ?s2))"
    if owner: "lease_owner l = tok" and ok: "valid_acceptance_task c" for b
  proof
    have lw2: "lease_wf E ?s2" using l owner by (auto simp: lease_wf_def)
    show "lease_wf E (snd (bind_existing E now tok b ?s2))"
    proof -
      have "lease_wf E (put_task t ?s2) \<and>
          lease_wf E (snd (refresh_locked E now t (Some False) (put_task t ?s2)))"
        if t0: "dget (tasks s) b = Some t0" and t: "bind_marked E tok b t0 = Some t" for t0 t
      proof -
        note tD = bind_markedD [OF t]
        have valid: "valid_bound_acceptance t b (sha256_hex E tok) False"
          using tD digest store_wfD(4) [OF assms(2) t0] by (simp add: valid_bound_acceptance_def)
        have idt: "task_id t = b" using tD by simp
        have "bound_task_wf (dset b t (tasks s)) b' (sha256_hex E tok)"
          if "bound_task_wf (tasks s) b' (sha256_hex E tok)" for b'
          using that valid by (cases "b' = b") (auto simp: bound_task_wf_def)
        then have lw3: "lease_wf E (put_task t ?s2)" using l owner idt by (auto simp: lease_wf_def)
        have "store_wf (put_task t ?s2)"
          using wf2 t0 tD by (intro wf_put_task [of _ _ t0]) auto
        with lw3 tD show ?thesis by (auto intro!: lease_wf_refresh_locked)
      qed
      then show ?thesis using lw2 by (auto simp: bind_existing_alt split: option.split)
    qed
    show "lease_wf E (snd (bind_new E tok c ?l' ?s2))"
    proof -
      let ?m = "mark_deployment_acceptance E tok c"
      have "lease_wf E (snd (enqueue_locked True ?m ?s2))" if "task_id c \<notin> keys (tasks s)"
        using lw2 that by (intro lease_wf_enqueue_locked) simp_all
      moreover have "lease_wf E (s3\<lparr>deployment_lease := Some (?l'\<lparr>lease_bound := Some (task_id c)\<rparr>)\<rparr>)"
        if "enqueue_locked True ?m ?s2 = (Inr u, s3)" for u s3
      proof -
        have "dget (tasks s3) (task_id c) = Some ?m"
          using that by (auto simp: enqueue_locked_def split: if_splits)
        moreover have "valid_bound_acceptance ?m (task_id c) (sha256_hex E tok) False"
          using ok digest
          by (simp add: valid_bound_acceptance_def mark_deployment_acceptance_def valid_acceptance_task_def)
        ultimately show ?thesis using l owner by (auto simp: lease_wf_def bound_task_wf_def)
      qed
      ultimately show ?thesis
        using lw2 unfolding bind_new_def Let_def
        by (cases "enqueue_locked True ?m ?s2") (auto split: sum.split store_error.split)
    qed
  qed
  then show ?thesis
    using assms(1) some l
    by (auto simp: bind_deployment_acceptance_def Let_def compare_digest_def digest_agrees_def
        split: option.split sum.split bool.split if_splits)
qed

section \<open>Steps and reachable stores\<close>

text \<open>
  A submitted task is one the caller has just constructed (\<open>api.py\<close>): its id is a fresh UUID
  and its status the default QUEUED. Every other argument of a step is arbitrary.
\<close>

inductive store_step :: "store_env \<Rightarrow> store \<Rightarrow> store \<Rightarrow> bool" for E where
  enqueue: "fresh_id (task_id t) s \<Longrightarrow> status t = QUEUED \<Longrightarrow> store_step E s (snd (enqueue t s))"
| submit: "fresh_id (task_id t) s \<Longrightarrow> status t = QUEUED \<Longrightarrow>
    store_step E s (snd (submit_or_refresh E now clk t s))"
| claim: "store_step E s (snd (next_runnable now clk s))"
| find_symbol: "store_step E s (snd (find_by_symbol clk sy s))"
| position: "store_step E s (snd (queue_position clk tid s))"
| dedup: "store_step E s (snd (deduplicate_by_symbol E now_of clk s))"
| recover: "store_step E s (snd (recover_running now_of s))"
| requeue: "store_step E s (snd (requeue_waiting now clk tid s))"
| retry: "store_step E s (snd (retry_failed now clk tid s))"
| refresh: "store_step E s (snd (refresh_task E now clk tid incl s))"
| transition: "store_step E s (snd (transition now tid st err serrs s))"
| capture: "store_step E s (snd (complete_capture now tid kind p s))"
| result: "store_step E s (snd (complete_result now tid vs rp ocr serrs series ig s))"
| snapshot: "store_step E s (snd (complete_market_snapshot now tid snap s))"
| acquire: "store_step E s (snd (acquire_deployment_lease E clk clk' tok ttl s))"
| renew: "store_step E s (snd (renew_deployment_lease E clk clk' tok ttl s))"
| status: "store_step E s (snd (deployment_lease_status clk clk' s))"
| bind: "fresh_id (task_id c) s \<Longrightarrow> store_step E s (snd (bind_deployment_acceptance E now clk tok c s))"
| release: "store_step E s (snd (release_deployment_lease E clk tok s))"
| cleanup: "store_step E s (snd (cleanup E now clk s))"

inductive reachable_store :: "store_env \<Rightarrow> store \<Rightarrow> bool" for E where
  init: "reachable_store E (init_store cap croot)"
| step: "reachable_store E s \<Longrightarrow> store_step E s s' \<Longrightarrow> reachable_store E s'"

definition digest_ok :: "store_env \<Rightarrow> bool" where
  "digest_ok E \<longleftrightarrow> (\<forall>x. maintenance_owner_digest_format (sha256_hex E x))"

lemma snd_find_by_symbol: "snd (find_by_symbol clk sy s) = snd (active_deployment_lease clk s)"
  by (simp add: find_by_symbol_def split: prod.split)

lemma snd_queue_position: "snd (queue_position clk tid s) = snd (active_deployment_lease clk s)"
  by (simp add: queue_position_def Let_def split: prod.split option.split)

lemma snd_lease_status: "snd (deployment_lease_status clk clk' s) = snd (active_deployment_lease clk s)"
  by (simp add: deployment_lease_status_def split: prod.split option.split)

lemma snd_active_wf: "store_wf s \<Longrightarrow> store_wf (snd (active_deployment_lease clk s))"
  using wf_active_lease by (metis surjective_pairing)

lemma snd_active_lease_wf: "lease_wf E s \<Longrightarrow> lease_wf E (snd (active_deployment_lease clk s))"
  using lease_wf_active by (metis surjective_pairing)

lemma wf_enqueue: "store_wf s \<Longrightarrow> fresh_id (task_id t) s \<Longrightarrow> store_wf (snd (enqueue t s))"
  unfolding enqueue_def by (rule wf_enqueue_locked)

lemma lease_wf_enqueue: "lease_wf E s \<Longrightarrow> fresh_id (task_id t) s \<Longrightarrow> lease_wf E (snd (enqueue t s))"
  unfolding enqueue_def fresh_id_def by (rule lease_wf_enqueue_locked) simp_all

lemmas store_wf_ops = wf_enqueue wf_submit_or_refresh wf_next_runnable wf_requeue_waiting wf_retry_failed
  wf_refresh_task wf_transition wf_complete_capture wf_complete_result wf_complete_market_snapshot
  wf_recover_running wf_cleanup wf_acquire wf_renew wf_release wf_bind snd_active_wf

lemmas lease_wf_ops = lease_wf_enqueue lease_wf_submit_or_refresh lease_wf_next_runnable
  lease_wf_requeue_waiting lease_wf_retry_failed lease_wf_refresh_task lease_wf_transition
  lease_wf_complete_capture lease_wf_complete_result lease_wf_complete_market_snapshot
  lease_wf_recover_running lease_wf_cleanup lease_wf_acquire lease_wf_renew lease_wf_release
  lease_wf_dedup snd_active_lease_wf

lemma store_step_wf: "store_step E s s' \<Longrightarrow> store_wf s \<Longrightarrow> store_wf s'"
  by (induction rule: store_step.induct)
    (simp_all add: store_wf_ops dedup_facts(1) snd_find_by_symbol snd_queue_position snd_lease_status)

lemma store_step_lease_wf:
  "store_step E s s' \<Longrightarrow> digest_ok E \<Longrightarrow> store_wf s \<Longrightarrow> lease_wf E s \<Longrightarrow> lease_wf E s'"
proof (induction rule: store_step.induct)
  case (bind c s now clk tok)
  then show ?case by (intro lease_wf_bind) (simp_all add: digest_ok_def)
qed (simp_all add: lease_wf_ops snd_find_by_symbol snd_queue_position snd_lease_status)

lemma wf_init_store [simp]: "store_wf (init_store cap croot)"
  by (simp add: init_store_def store_wf_def tasks_wf_def fifo_wf_def alias_wf_def)

lemma reachable_store_wf: "reachable_store E s \<Longrightarrow> store_wf s"
  by (induction rule: reachable_store.induct) (auto intro: store_step_wf)

lemma reachable_lease_wf: "reachable_store E s \<Longrightarrow> digest_ok E \<Longrightarrow> lease_wf E s"
proof (induction rule: reachable_store.induct)
  case (init cap croot)
  then show ?case by (simp add: init_store_def)
next
  case (step s s')
  then show ?case using store_step_lease_wf reachable_store_wf by blast
qed

end
