(* ===== verification/Interfaces.thy ===== *)
theory Interfaces
  imports Prelude
begin

text \<open>
  The interfaces between components, as locales: the operations a client calls and the laws it
  relies on. Each is interpreted, on the model's own definitions, in the theory of the component
  that provides it.
\<close>

section \<open>A queue of claimable work\<close>

text \<open>\<open>claims claim n s\<close> makes \<open>n\<close> claims in a row and lists what they returned.\<close>

fun claims :: "('s \<Rightarrow> 'i option \<times> 's) \<Rightarrow> nat \<Rightarrow> 's \<Rightarrow> 'i list \<times> 's" where
  "claims claim 0 s = ([], s)"
| "claims claim (Suc n) s =
     (case claim s of (None, s') \<Rightarrow> claims claim n s'
      | (Some i, s') \<Rightarrow> (case claims claim n s' of (is, s'') \<Rightarrow> (i # is, s'')))"

locale claim_queue =
  fixes inv :: "'s \<Rightarrow> bool"
    and waiting :: "'s \<Rightarrow> 'i list"
    and claim :: "'s \<Rightarrow> 'i option \<times> 's"
  assumes claim_inv: "inv s \<Longrightarrow> inv (snd (claim s))"
    and claim_empty: "inv s \<Longrightarrow> waiting s = [] \<Longrightarrow> fst (claim s) = None \<and> waiting (snd (claim s)) = []"
    and claim_head: "inv s \<Longrightarrow> waiting s = i # is \<Longrightarrow> fst (claim s) = Some i \<and> waiting (snd (claim s)) = is"
begin

lemma claims_inv: "inv s \<Longrightarrow> inv (snd (claims claim n s))"
proof (induction n arbitrary: s)
  case 0
  then show ?case by simp
next
  case (Suc n)
  obtain r s' where c: "claim s = (r, s')" by fastforce
  then have "inv (snd (claims claim n s'))" using Suc.IH claim_inv [OF Suc.prems] by simp
  then show ?case using c by (cases "claims claim n s'") (simp split: option.split)
qed

lemma claims_in_order:
  "inv s \<Longrightarrow> fst (claims claim n s) = take n (waiting s) \<and> waiting (snd (claims claim n s)) = drop n (waiting s)"
proof (induction n arbitrary: s)
  case 0
  then show ?case by simp
next
  case (Suc n)
  obtain r s' where c: "claim s = (r, s')" by fastforce
  have inv': "inv s'" using claim_inv [OF Suc.prems] c by simp
  show ?case
  proof (cases "waiting s")
    case Nil
    then show ?thesis using claim_empty [OF Suc.prems] Suc.IH [OF inv'] c by simp
  next
    case (Cons i rest)
    then show ?thesis
      using claim_head [OF Suc.prems Cons] Suc.IH [OF inv'] c
      by (cases "claims claim n s'") simp
  qed
qed

text \<open>The claim after \<open>n\<close> others returns the id that was waiting in place \<open>n\<close>.\<close>

lemma claim_turn:
  assumes "inv s" and "n < length (waiting s)"
  shows "fst (claim (snd (claims claim n s))) = Some (waiting s ! n)"
proof -
  have "waiting (snd (claims claim n s)) = waiting s ! n # drop (Suc n) (waiting s)"
    using claims_in_order [OF assms(1)] assms(2) by (simp add: Cons_nth_drop_Suc)
  then show ?thesis using claim_head claims_inv [OF assms(1)] by blast
qed

end

end
