(* ===== verification/Queue_Order.thy ===== *)
theory Queue_Order
  imports Queue_System Interfaces
begin

text \<open>
  The order of claims: without a lease the ids that can be claimed, in the order of the FIFO,
  form a queue in the sense of \<open>claim_queue\<close>, and \<open>queue_position\<close> counts places in it.
\<close>

definition waiting :: "store \<Rightarrow> string list" where
  "waiting s = filter (claimable s) (fifo s)"

definition lease_free :: "store \<Rightarrow> bool" where
  "lease_free s \<longleftrightarrow> store_wf s \<and> deployment_lease s = None"

definition claim_id :: "time \<Rightarrow> seconds \<Rightarrow> store \<Rightarrow> string option \<times> store" where
  "claim_id now clk s = (case next_runnable now clk s of (t, s') \<Rightarrow> (map_option task_id t, s'))"

lemma find_filter: "find P xs = (case filter P xs of [] \<Rightarrow> None | x # _ \<Rightarrow> Some x)"
  by (induction xs) auto

lemma next_runnable_lease_free:
  assumes "lease_free s"
  shows "next_runnable now clk s = (case waiting s of [] \<Rightarrow> (None, s)
    | tid # _ \<Rightarrow> (let t' = start_running now (the (dget (tasks s) tid)) in (Some t', emit t' (put_task t' s))))"
proof -
  have "active_deployment_lease clk s = (None, s)"
    using assms by (simp add: lease_free_def active_deployment_lease_def)
  then show ?thesis
    by (simp add: next_runnable_def waiting_def find_filter split: list.split)
qed

lemma waiting_mem:
  "tid \<in> set (waiting s) \<Longrightarrow> \<exists>t. dget (tasks s) tid = Some t \<and> status t = QUEUED
     \<and> \<not> has_maintenance_metadata t"
  by (auto simp: waiting_def claimable_def split: option.splits)

lemma waiting_distinct: "store_wf s \<Longrightarrow> distinct (waiting s)"
  by (simp add: waiting_def store_wfD(2))

lemma waiting_after_claim:
  assumes wf: "store_wf s" and w: "waiting s = tid # rest"
    and t': "t' = start_running now (the (dget (tasks s) tid))"
  shows "waiting (emit t' (put_task t' s)) = rest"
proof -
  obtain t where t: "dget (tasks s) tid = Some t" using waiting_mem [of tid s] w by auto
  have id: "task_id t' = tid" and st: "status t' = RUNNING"
    using t t' store_wfD(4) [OF wf t] by (simp_all add: start_running_def)
  have "claimable (emit t' (put_task t' s)) = (\<lambda>i. claimable s i \<and> i \<noteq> tid)"
    using id st by (auto simp: claimable_def fun_eq_iff)
  then have "waiting (emit t' (put_task t' s)) = filter (\<lambda>i. i \<noteq> tid) (waiting s)"
    by (simp add: waiting_def)
  then show ?thesis
    using waiting_distinct [OF wf] w by (auto simp: filter_id_conv)
qed

interpretation task_claims: claim_queue lease_free waiting "claim_id now clk" for now clk
proof
  fix s
  assume inv: "lease_free s"
  then have wf: "store_wf s" by (simp add: lease_free_def)
  have "deployment_lease (snd (next_runnable now clk s)) = None"
    using inv by (auto simp: next_runnable_lease_free Let_def lease_free_def split: list.split)
  then show "lease_free (snd (claim_id now clk s))"
    using wf_next_runnable [OF wf, of now clk]
    by (auto simp: lease_free_def claim_id_def split: prod.split)
  show "fst (claim_id now clk s) = None \<and> waiting (snd (claim_id now clk s)) = []" if "waiting s = []"
    using that by (simp add: claim_id_def next_runnable_lease_free [OF inv])
  show "fst (claim_id now clk s) = Some i \<and> waiting (snd (claim_id now clk s)) = rest"
    if w: "waiting s = i # rest" for i rest
  proof -
    obtain t where t: "dget (tasks s) i = Some t" using waiting_mem [of i s] w by auto
    then have "task_id t = i" using store_wfD(4) [OF wf] by blast
    then show ?thesis
      using waiting_after_claim [OF wf w] t
      by (simp add: claim_id_def next_runnable_lease_free [OF inv] w Let_def start_running_def)
  qed
qed

lemma position_loop_index:
  "distinct q \<Longrightarrow> position_loop s None tid n q = (if tid \<in> set (filter (claimable s) q)
     then Some (Suc n + length (takeWhile (\<lambda>i. i \<noteq> tid) (filter (claimable s) q))) else None)"
proof (induction q arbitrary: n)
  case Nil
  then show ?case by simp
next
  case (Cons i q)
  have "claimable s i = (case dget (tasks s) i of None \<Rightarrow> False | Some t \<Rightarrow> positionable None t)"
    by (simp add: claimable_def positionable_def split: option.split)
  then show ?case using Cons by (auto split: option.splits)
qed

lemma queue_position_index:
  assumes "lease_free s" and "queue_position clk tid s = (Some (Suc p), s')"
  shows "p < length (waiting s) \<and> waiting s ! p = resolve_task_id tid s"
proof -
  let ?i = "resolve_task_id tid s"
  have a: "active_deployment_lease clk s = (None, s)"
    using assms by (simp add: lease_free_def active_deployment_lease_def)
  then have "position_loop s None ?i 0 (fifo s) = Some (Suc p)"
    using assms(2) by (auto simp: queue_position_def bound_of_def Let_def split: option.splits if_splits)
  then have mem: "?i \<in> set (waiting s)" and p: "p = length (takeWhile (\<lambda>i. i \<noteq> ?i) (waiting s))"
    using assms(1) by (auto simp: position_loop_index lease_free_def store_wfD(2) waiting_def split: if_splits)
  have "p < length (waiting s)"
    using mem by (simp add: p takeWhile_neq_less)
  moreover have "waiting s ! p = ?i"
    using nth_length_takeWhile [of "\<lambda>i. i \<noteq> ?i" "waiting s"] calculation p by simp
  ultimately show ?thesis by simp
qed

end
