(* ===== verification/Queue_Audit.thy ===== *)
theory Queue_Audit
  imports Queue_System
begin

text \<open>
  Two more invariants of the task store: every stored task's last event is its status, so a
  reader of the event stream ends up at the status the store holds; and only files inside the
  capture root are ever unlinked.
\<close>

definition events_sync :: "store \<Rightarrow> bool" where
  "events_sync s \<longleftrightarrow> (\<forall>k t. dget (tasks s) k = Some t \<longrightarrow> status t \<noteq> EXPIRED
     \<and> (\<exists>es. dget (events s) k = Some es \<and> es \<noteq> [] \<and> last es = status t))"

definition files_ok :: "store \<Rightarrow> bool" where
  "files_ok s \<longleftrightarrow> (\<forall>p \<in> set (removed_files s). \<exists>r. capture_root s = Some r \<and> prefix r p)"

definition audit_wf :: "store \<Rightarrow> bool" where
  "audit_wf s \<longleftrightarrow> events_sync s \<and> files_ok s"

section \<open>Parts of the operations\<close>

lemma files_unlink_capture [simp, intro]: "files_ok s \<Longrightarrow> files_ok (unlink_capture E c s)"
  by (auto simp: files_ok_def unlink_capture_def Let_def split: option.splits)

lemma files_unlink_task [simp, intro]: "files_ok s \<Longrightarrow> files_ok (unlink_task E t s)"
  by (simp add: unlink_task_def capture_kinds_def files_unlink_capture)

lemma files_ok_cong:
  "removed_files s' = removed_files s \<Longrightarrow> capture_root s' = capture_root s \<Longrightarrow> files_ok s' = files_ok s"
  by (simp add: files_ok_def)

lemma events_sync_cong:
  "tasks s' = tasks s \<Longrightarrow> events s' = events s \<Longrightarrow> events_sync s' = events_sync s"
  by (simp add: events_sync_def)

lemma audit_frames [simp]:
  "audit_wf (s\<lparr>fifo := q\<rparr>) = audit_wf s" "audit_wf (s\<lparr>deployment_lease := l\<rparr>) = audit_wf s"
  "audit_wf (move_to_fifo_tail i s) = audit_wf s" "audit_wf (s\<lparr>aliases := al\<rparr>) = audit_wf s"
  unfolding audit_wf_def by (simp_all cong: files_ok_cong events_sync_cong add: files_ok_def events_sync_def)

lemma audit_unlink_task [simp, intro]: "audit_wf s \<Longrightarrow> audit_wf (unlink_task E t s)"
  by (auto simp: audit_wf_def events_sync_def)

lemma audit_unlink_capture [simp, intro]: "audit_wf s \<Longrightarrow> audit_wf (unlink_capture E c s)"
  by (auto simp: audit_wf_def events_sync_def)

lemma emit_events:
  "\<exists>es. dget (events (emit t s)) (task_id t) = Some es \<and> es \<noteq> [] \<and> last es = status t"
  by (simp add: emit_def)

lemma emit_events_other: "k \<noteq> task_id t \<Longrightarrow> dget (events (emit t s)) k = dget (events s) k"
  by (simp add: emit_def)

lemma audit_put_emit:
  assumes "audit_wf s" and "status t \<noteq> EXPIRED"
  shows "audit_wf (emit t (put_task t s))"
proof -
  have "files_ok (emit t (put_task t s)) = files_ok s" by (rule files_ok_cong) simp_all
  moreover have "events_sync (emit t (put_task t s))"
    unfolding events_sync_def
  proof (intro allI impI)
    fix k u
    assume u: "dget (tasks (emit t (put_task t s))) k = Some u"
    show "status u \<noteq> EXPIRED \<and> (\<exists>es. dget (events (emit t (put_task t s))) k = Some es
      \<and> es \<noteq> [] \<and> last es = status u)"
    proof (cases "k = task_id t")
      case True
      then show ?thesis using u assms(2) emit_events [of t "put_task t s"] by simp
    next
      case False
      then show ?thesis
        using u assms(1) emit_events_other [OF False, of "put_task t s"]
        by (simp add: audit_wf_def events_sync_def)
    qed
  qed
  ultimately show ?thesis using assms(1) by (simp add: audit_wf_def)
qed

lemma audit_put_same:
  assumes "audit_wf s" and "dget (tasks s) (task_id t') = Some t" and "status t' = status t"
  shows "audit_wf (put_task t' s)"
  using assms by (auto simp: audit_wf_def events_sync_def files_ok_def)

lemma audit_status: "audit_wf s \<Longrightarrow> dget (tasks s) k = Some t \<Longrightarrow> status t \<noteq> EXPIRED"
  by (auto simp: audit_wf_def events_sync_def)

lemma audit_drop:
  assumes "audit_wf s"
  shows "audit_wf (s\<lparr>tasks := dpop k (tasks s), events := dpop k (events s)\<rparr>)"
  using assms by (auto simp: audit_wf_def events_sync_def files_ok_def)

lemma audit_active: "active_deployment_lease clk s = (l, s1) \<Longrightarrow> audit_wf s \<Longrightarrow> audit_wf s1"
  by (cases rule: active_lease_cases [of clk s]) auto

lemma audit_snd_active: "audit_wf s \<Longrightarrow> audit_wf (snd (active_deployment_lease clk s))"
  using audit_active by (metis surjective_pairing)

section \<open>Operations\<close>

lemma audit_is_maintenance: "is_maintenance_task clk t s = (b, s1) \<Longrightarrow> audit_wf s \<Longrightarrow> audit_wf s1"
  by (auto simp: is_maintenance_task_def intro: audit_active split: if_splits prod.splits)

lemma emit_fifo: "emit t (s\<lparr>fifo := q\<rparr>) = (emit t s)\<lparr>fifo := q\<rparr>"
  by (simp add: emit_def)

lemma put_fifo: "put_task t (s\<lparr>fifo := q\<rparr>) = (put_task t s)\<lparr>fifo := q\<rparr>"
  by (simp add: put_task_def)

lemma put_move: "put_task t (move_to_fifo_tail i s) = move_to_fifo_tail i (put_task t s)"
  by (simp add: put_task_def move_to_fifo_tail_def)

lemma emit_move: "emit t (move_to_fifo_tail i s) = move_to_fifo_tail i (emit t s)"
  by (simp add: emit_def move_to_fifo_tail_def)

lemmas push_frames = emit_fifo put_fifo put_move emit_move

lemma audit_enqueue_locked:
  "audit_wf s \<Longrightarrow> status t = QUEUED \<Longrightarrow> audit_wf (snd (enqueue_locked m t s))"
  by (simp add: enqueue_locked_def push_frames audit_put_emit)

lemma reset_queued [simp]: "status (reset_task_for_refresh now incl t) = QUEUED"
  by (simp add: reset_task_for_refresh_def Let_def)

lemma audit_refresh_locked: "audit_wf s \<Longrightarrow> audit_wf (snd (refresh_locked E now t incl s))"
  by (simp add: refresh_locked_def Let_def push_frames audit_put_emit)

lemma audit_find_by_symbol: "find_by_symbol clk sy s = (r, s1) \<Longrightarrow> audit_wf s \<Longrightarrow> audit_wf s1"
  by (auto simp: find_by_symbol_def intro: audit_active split: prod.splits)

lemma audit_submit_or_refresh:
  "audit_wf s \<Longrightarrow> status t = QUEUED \<Longrightarrow> audit_wf (snd (submit_or_refresh E now clk t s))"
  using audit_find_by_symbol [of clk "symbol t" s] audit_enqueue_locked [of _ t False]
  by (fastforce simp: submit_or_refresh_def intro: audit_refresh_locked split: prod.splits option.splits sum.splits)

lemma audit_next_runnable: "audit_wf s \<Longrightarrow> audit_wf (snd (next_runnable now clk s))"
  by (cases rule: active_lease_cases [of clk s])
    (auto simp: next_runnable_def Let_def push_frames start_running_def intro!: audit_put_emit
      split: option.splits)

lemma audit_requeue_waiting: "audit_wf s \<Longrightarrow> audit_wf (snd (requeue_waiting now clk tid s))"
  by (auto simp: requeue_waiting_def Let_def push_frames requeued_def intro!: audit_put_emit
      intro: audit_is_maintenance split: option.split prod.split bool.split)

lemma audit_retry_failed: "audit_wf s \<Longrightarrow> audit_wf (snd (retry_failed now clk tid s))"
  by (auto simp: retry_failed_def Let_def push_frames requeued_def intro!: audit_put_emit
      intro: audit_is_maintenance split: option.split prod.split bool.split)

lemma audit_refresh_task: "audit_wf s \<Longrightarrow> audit_wf (snd (refresh_task E now clk tid incl s))"
  by (auto simp: refresh_task_def intro: audit_refresh_locked audit_is_maintenance
      split: option.split prod.split bool.split)

lemma transition_not_expired: "st \<in> set (allowed_transitions st0) \<Longrightarrow> st \<noteq> EXPIRED"
  by (cases st0) auto

lemma audit_transition: "audit_wf s \<Longrightarrow> audit_wf (snd (transition now tid st err serrs s))"
  by (auto simp: transition_def Let_def transition_not_expired intro!: audit_put_emit split: option.split)

lemma audit_complete_capture: "audit_wf s \<Longrightarrow> audit_wf (snd (complete_capture now tid kind p s))"
  by (auto simp: complete_capture_def Let_def intro!: audit_put_emit split: option.split)

lemma audit_complete_market_snapshot:
  "audit_wf s \<Longrightarrow> audit_wf (snd (complete_market_snapshot now tid snap s))"
  by (auto simp: complete_market_snapshot_def Let_def intro!: audit_put_emit split: option.split)

lemma result_status_not_expired: "status (result_status now ig t) \<noteq> EXPIRED"
  by (simp add: result_status_def Let_def)

lemma audit_complete_result:
  assumes "audit_wf s" and "store_wf s"
  shows "audit_wf (snd (complete_result now tid vs p ocr serrs series ig s))"
proof (cases "dget (tasks s) tid")
  case None
  then show ?thesis using assms by (simp add: complete_result_def)
next
  case (Some t)
  then have id: "task_id t = tid" using assms(2) store_wfD(4) by blast
  have "audit_wf (put_task (result_values vs ocr t) s)"
    "\<And>ser. audit_wf (put_task ((result_values vs ocr t)\<lparr>intraday_series := ser,
       source_errors := normalized_source_errors serrs\<rparr>) s)"
    using assms(1) Some id by (intro audit_put_same [of _ _ t]; simp add: result_values_def)+
  then show ?thesis
    using assms Some result_status_not_expired
    by (auto simp: complete_result_def Let_def intro!: audit_put_emit split: option.split)
qed

lemma audit_put_emit_fold:
  "audit_wf s \<Longrightarrow> (\<And>t. t \<in> set ts \<Longrightarrow> status t \<noteq> EXPIRED) \<Longrightarrow>
     audit_wf (fold (\<lambda>t. emit t \<circ> put_task t) ts s)"
  by (induction ts arbitrary: s) (auto intro: audit_put_emit)

lemma audit_recover_running: "audit_wf s \<Longrightarrow> audit_wf (snd (recover_running now_of s))"
  by (auto simp: recover_running_def Let_def requeued_def intro!: audit_put_emit_fold)

lemma audit_drop_duplicate:
  assumes "audit_wf s"
  shows "audit_wf (drop_duplicate E cid d s)"
proof -
  let ?s1 = "unlink_task E d (s\<lparr>tasks := dpop (task_id d) (tasks s)\<rparr>)"
  have "files_ok ?s1"
    using assms by (intro files_unlink_task) (simp add: audit_wf_def files_ok_def)
  moreover have "events_sync (?s1\<lparr>events := dpop (task_id d) (events ?s1)\<rparr>)"
    using assms by (auto simp: audit_wf_def events_sync_def)
  ultimately show ?thesis
    by (simp add: drop_duplicate_def Let_def audit_wf_def files_ok_def events_sync_def)
qed

lemma audit_merge_group: "audit_wf s \<Longrightarrow> audit_wf (merge_group E ts s)"
proof -
  have "audit_wf (fold (drop_duplicate E cid) ds s')" if "audit_wf s'" for cid ds s'
    using that by (induction ds arbitrary: s') (auto intro: audit_drop_duplicate)
  then show "audit_wf s \<Longrightarrow> ?thesis"
    by (auto simp: merge_group_def Let_def split: option.split)
qed

lemma audit_dedup_start: "audit_wf s \<Longrightarrow> audit_wf (dedup_start now_of clk s)"
proof -
  assume "audit_wf s"
  then have a: "audit_wf (snd (active_deployment_lease clk s))" (is "audit_wf ?s1") by (rule audit_snd_active)
  let ?r = "restored_tasks now_of (dedup_bound clk s) ?s1"
  have "restore_expired_task now t = t" if "dget (tasks ?s1) k = Some t" for now k t
    using audit_status [OF a that] by (simp add: restore_expired_task_def)
  then have "dget (tasks ?r) k = dget (tasks ?s1) k" for k
    by (cases "dget (tasks ?s1) k") (simp_all add: restored_get)
  moreover have "events ?r = events ?s1" "removed_files ?r = removed_files ?s1" "capture_root ?r = capture_root ?s1"
    by (simp_all add: restored_tasks_def)
  ultimately show ?thesis
    using a by (simp add: dedup_start_def audit_wf_def events_sync_def files_ok_def)
qed

lemma audit_dedup: "audit_wf s \<Longrightarrow> audit_wf (snd (deduplicate_by_symbol E now_of clk s))"
proof -
  have "audit_wf (fold (merge_group E) gs s')" if "audit_wf s'" for gs s'
    using that by (induction gs arbitrary: s') (auto intro: audit_merge_group)
  then show "audit_wf s \<Longrightarrow> ?thesis" by (simp add: dedup_store audit_dedup_start)
qed

section \<open>The lease, removal and clean-up\<close>

lemma audit_acquire: "audit_wf s \<Longrightarrow> audit_wf (snd (acquire_deployment_lease E clk clk' tok ttl s))"
  by (auto simp: acquire_deployment_lease_def intro: audit_active split: prod.split option.split)

lemma audit_renew: "audit_wf s \<Longrightarrow> audit_wf (snd (renew_deployment_lease E clk clk' tok ttl s))"
  by (auto simp: renew_deployment_lease_def Let_def intro: audit_active split: prod.split option.split)

lemma audit_remove_maintenance_task:
  assumes "audit_wf s"
  shows "audit_wf (snd (remove_maintenance_task E raw d lg s))"
proof (cases rule: remove_maintenance_task_cases [of E raw d lg s])
  case kept
  then show ?thesis using assms by simp
next
  case (removed t cid s')
  let ?s1 = "unlink_task E t (s\<lparr>aliases := redirect_aliases raw (map_option task_id (canonical_task
     (map snd (filter (\<lambda>(k, c). k \<noteq> raw \<and> task_id c = k \<and> symbol c = symbol t
       \<and> \<not> has_maintenance_metadata c) (tasks s))))) (aliases s), tasks := dpop raw (tasks s)\<rparr>)"
  have "files_ok ?s1" using assms by (intro files_unlink_task) (simp add: audit_wf_def files_ok_def)
  moreover have "removed_files s' = removed_files ?s1" "capture_root s' = capture_root ?s1"
    using removed(1-3) by (auto simp: remove_maintenance_task_def Let_def)
  ultimately have "files_ok s'" by (simp add: files_ok_def)
  moreover have "events_sync s'" using assms by (auto simp: audit_wf_def events_sync_def removed)
  ultimately show ?thesis by (simp add: removed audit_wf_def)
qed

lemma audit_release: "audit_wf s \<Longrightarrow> audit_wf (snd (release_deployment_lease E clk tok s))"
proof -
  assume a: "audit_wf s"
  obtain l s1 where l: "active_deployment_lease clk s = (l, s1)" by fastforce
  have "audit_wf s2" if "remove_maintenance_task E b d lg s1 = (r, s2)" for b d lg r s2
    using audit_remove_maintenance_task [OF audit_active [OF l a], of E b d lg] that by simp
  then show ?thesis
    using audit_active [OF l a]
    by (auto simp: release_deployment_lease_def l Let_def split: option.split sum.split bool.split prod.split)
qed

lemma bind_marked_status: "bind_marked E tok b t0 = Some t \<Longrightarrow> status t = status t0"
  by (auto simp: bind_marked_def mark_deployment_acceptance_def split: if_splits)

lemma audit_bind_existing:
  assumes "audit_wf s"
  shows "audit_wf (snd (bind_existing E now tok b s))"
proof -
  have "audit_wf (put_task t s)" if "dget (tasks s) b = Some t0" "bind_marked E tok b t0 = Some t" for t0 t
    using assms that bind_markedD [OF that(2)] bind_marked_status [OF that(2)]
    by (intro audit_put_same [of _ _ t0]) simp_all
  then show ?thesis
    using assms by (auto simp: bind_existing_alt intro: audit_refresh_locked split: option.split)
qed

lemma audit_bind_new:
  assumes "audit_wf s" and "status c = QUEUED"
  shows "audit_wf (snd (bind_new E tok c l s))"
proof -
  have "audit_wf (snd (enqueue_locked True (mark_deployment_acceptance E tok c) s))"
    using assms by (intro audit_enqueue_locked) (simp_all add: mark_deployment_acceptance_def)
  then show ?thesis
    using assms(1) unfolding bind_new_def Let_def
    by (cases "enqueue_locked True (mark_deployment_acceptance E tok c) s")
      (auto split: sum.split store_error.split)
qed

lemma audit_bind: "audit_wf s \<Longrightarrow> audit_wf (snd (bind_deployment_acceptance E now clk tok c s))"
  by (cases rule: active_lease_cases [of clk s])
    (auto simp: bind_deployment_acceptance_def Let_def valid_acceptance_task_def
      intro!: audit_bind_existing audit_bind_new split: option.split sum.split bool.split)

lemma audit_unlink_expired: "audit_wf s \<Longrightarrow> audit_wf (unlink_expired E now c s)"
  by (auto simp: unlink_expired_def)

lemma expire_task_frame [simp]: "status (expire_task now t) = status t" "task_id (expire_task now t) = task_id t"
  by (simp_all add: expire_task_def)

lemma audit_cleanup_task:
  assumes "audit_wf s" and "dget (tasks s) (task_id t) = Some t"
  shows "audit_wf (snd (cleanup_task E now bd (k, t) (rs, s)))"
proof (cases "has_maintenance_metadata t")
  case True
  then show ?thesis
    using assms audit_remove_maintenance_task [of s E k None False]
    by (auto simp: cleanup_task_def split: prod.split option.split)
next
  case False
  let ?s0 = "fold (\<lambda>k. unlink_expired E now (captures t k)) capture_kinds
               (unlink_expired E now (long_capture t) s)"
  have "audit_wf ?s0"
    using assms(1) by (simp add: capture_kinds_def audit_unlink_expired)
  moreover have "tasks ?s0 = tasks s" by (simp add: capture_kinds_def)
  ultimately have "audit_wf (put_task (expire_task now t) ?s0)"
    using assms(2) by (intro audit_put_same [of _ _ t]) simp_all
  then show ?thesis using False by (simp add: cleanup_task_def)
qed

lemma audit_cleanup_fold:
  assumes "audit_wf s" "store_wf s" "wf_dict kts" "\<And>k t. (k, t) \<in> set kts \<Longrightarrow> dget (tasks s) k = Some t"
  shows "audit_wf (snd (fold (cleanup_task E now bd) kts (rs, s)))"
  using assms
proof (induction kts arbitrary: rs s)
  case Nil
  then show ?case by simp
next
  case (Cons p kts)
  obtain k t where p: "p = (k, t)" by fastforce
  have t: "dget (tasks s) k = Some t" using Cons.prems(4) p by simp
  then have id: "task_id t = k" using Cons.prems(2) store_wfD(4) by blast
  obtain rs' s' where c: "cleanup_task E now bd (k, t) (rs, s) = (rs', s')" by fastforce
  have "audit_wf s'" using audit_cleanup_task [OF Cons.prems(1), of t E now bd k rs] t id c by simp
  moreover have "store_wf s'" using wf_cleanup_task [OF Cons.prems(2) t, of E now bd rs] c by simp
  moreover have "dget (tasks s') k' = Some t'" if "(k', t') \<in> set kts" for k' t'
  proof -
    have "k' \<noteq> k" using that Cons.prems(3) p by force
    then show ?thesis
      using cleanup_task_other [of k' k t E now bd rs s] id c Cons.prems(4) [of k' t'] that by simp
  qed
  ultimately show ?case using Cons.IH [of s' rs'] Cons.prems(3) p c by simp
qed

lemma audit_cleanup:
  assumes "audit_wf s" "store_wf s"
  shows "audit_wf (snd (cleanup E now clk s))"
proof -
  obtain l s1 where a: "active_deployment_lease clk s = (l, s1)" by fastforce
  have "store_wf s1" using assms(2) wf_active_lease [OF a] by simp
  then have "audit_wf (snd (fold (cleanup_task E now (bound_of l)) (tasks s1) ([], s1)))"
    using audit_active [OF a assms(1)] store_wfD(1) by (intro audit_cleanup_fold) (simp_all add: map_of_is_SomeI)
  then show ?thesis by (simp add: cleanup_def a)
qed

section \<open>Reachable stores\<close>

lemmas audit_ops = audit_submit_or_refresh audit_next_runnable audit_dedup audit_recover_running
  audit_requeue_waiting audit_retry_failed audit_refresh_task audit_transition audit_complete_capture
  audit_complete_result audit_complete_market_snapshot audit_acquire audit_renew audit_bind audit_release
  audit_cleanup audit_snd_active

lemma store_step_audit: "store_step E s s' \<Longrightarrow> store_wf s \<Longrightarrow> audit_wf s \<Longrightarrow> audit_wf s'"
  by (induction rule: store_step.induct)
    (simp_all add: audit_ops enqueue_def audit_enqueue_locked snd_find_by_symbol snd_queue_position snd_lease_status)

lemma reachable_audit: "reachable_store E s \<Longrightarrow> audit_wf s"
proof (induction rule: reachable_store.induct)
  case (init cap croot)
  then show ?case by (simp add: init_store_def audit_wf_def events_sync_def files_ok_def)
next
  case (step s s')
  then show ?case using store_step_audit reachable_store_wf by blast
qed

end
