(* ===== verification/Queue_Lifecycle.thy ===== *)
theory Queue_Lifecycle
  imports Queue_Audit
begin

text \<open>
  The life cycle of a task over the operations of the store: which status may follow which in
  one step, and that the clean-up leaves no capture past its expiry.
\<close>

definition lifecycle :: "task_status \<Rightarrow> task_status \<Rightarrow> bool" where
  "lifecycle a b \<longleftrightarrow> a = b \<or> b \<in> set (allowed_transitions a)
     \<or> b = QUEUED \<and> (is_refreshable a \<or> a \<in> {RUNNING, WAITING_ADMIN})"

definition moves :: "(string, task) dict \<Rightarrow> (string, task) dict \<Rightarrow> bool" where
  "moves d d' \<longleftrightarrow> (\<forall>k t t'. dget d k = Some t \<longrightarrow> dget d' k = Some t' \<longrightarrow> lifecycle (status t) (status t'))"

lemma lifecycle_refl [simp]: "lifecycle a a"
  by (simp add: lifecycle_def)

lemma moves_refl [simp]: "moves d d"
  by (simp add: moves_def)

lemma moves_active: "active_deployment_lease clk s = (l, s1) \<Longrightarrow> tasks s1 = tasks s"
  by (rule active_lease_frame)

lemma moves_dset:
  "dget d k = Some t0 \<Longrightarrow> lifecycle (status t0) (status t) \<Longrightarrow> moves d (dset k t d)"
  by (simp add: moves_def)

lemma moves_fresh: "k \<notin> keys d \<Longrightarrow> moves d (dset k t d)"
  by (auto simp: moves_def dest: dget_keys)

lemma moves_put:
  "store_wf s \<Longrightarrow> dget (tasks s) k = Some t0 \<Longrightarrow> lifecycle (status t0) (status t)
     \<Longrightarrow> moves (tasks s) (dset (task_id t0) t (tasks s))"
  using moves_dset store_wfD(4) by metis

lemma lifecycle_requeue: "is_refreshable a \<Longrightarrow> lifecycle a QUEUED" "lifecycle RUNNING QUEUED"
  "lifecycle WAITING_ADMIN QUEUED" "lifecycle FAILED QUEUED" "lifecycle QUEUED RUNNING"
  by (simp_all add: lifecycle_def is_refreshable_def)

lemma moves_enqueue_locked:
  "task_id t \<notin> keys (tasks s) \<Longrightarrow> moves (tasks s) (tasks (snd (enqueue_locked m t s)))"
  by (simp add: enqueue_locked_def moves_fresh)

lemma reset_task_id [simp]: "task_id (reset_task_for_refresh now incl t) = task_id t"
  by (rule same_identity_id) simp

lemma moves_refresh_locked:
  "dget (tasks s) (task_id t) = Some t0 \<Longrightarrow> status t0 = status t \<Longrightarrow>
     moves (tasks s) (tasks (snd (refresh_locked E now t incl s)))"
  by (auto simp: refresh_locked_def Let_def intro!: moves_dset lifecycle_requeue)

lemma moves_submit:
  assumes "store_wf s" "fresh_id (task_id t) s"
  shows "moves (tasks s) (tasks (snd (submit_or_refresh E now clk t s)))"
proof (cases "find_by_symbol clk (symbol t) s")
  case (Pair r s1)
  show ?thesis
  proof (cases r)
    case None
    have "tasks s1 = tasks s"
      using Pair None find_by_symbol_NoneD(2) [OF _ assms(1)] by blast
    then show ?thesis
      using assms(2) moves_enqueue_locked [of t s1 False] Pair None
      by (auto simp: submit_or_refresh_def fresh_id_def split: sum.split prod.split)
  next
    case (Some u)
    note f = find_by_symbol_SomeD [OF _ assms(1), of clk "symbol t" u s1]
    then show ?thesis
      using Pair Some moves_refresh_locked [of s1 u u E now "Some (include_long_capture t)"]
      by (auto simp: submit_or_refresh_def)
  qed
qed

lemma moves_next_runnable:
  assumes "store_wf s"
  shows "moves (tasks s) (tasks (snd (next_runnable now clk s)))"
proof (cases rule: active_lease_cases [of clk s])
  case none
  have "moves (tasks s) (dset (task_id (the (dget (tasks s) i))) t' (tasks s))"
    if "find (claimable s') (fifo s) = Some i" "tasks s' = tasks s" "status t' = RUNNING" for i s' t'
    using that assms by (auto simp: find_Some_iff claimable_def lifecycle_requeue intro: moves_put split: option.splits)
  then show ?thesis
    using none by (auto simp: next_runnable_def Let_def start_running_def split: option.splits)
next
  case (some l)
  then show ?thesis
    using assms
    by (auto simp: next_runnable_def Let_def start_running_def lifecycle_requeue
        valid_bound_acceptance_def intro!: moves_put split: option.splits)
qed

lemma moves_requeue_waiting: "store_wf s \<Longrightarrow> moves (tasks s) (tasks (snd (requeue_waiting now clk tid s)))"
  by (auto simp: requeue_waiting_def Let_def requeued_def lifecycle_requeue is_maintenance_taskD
      intro!: moves_put split: option.split prod.split bool.split)

lemma moves_retry_failed: "store_wf s \<Longrightarrow> moves (tasks s) (tasks (snd (retry_failed now clk tid s)))"
  by (auto simp: retry_failed_def Let_def requeued_def lifecycle_requeue is_maintenance_taskD
      intro!: moves_put split: option.split prod.split bool.split)

lemma moves_refresh_task:
  assumes "store_wf s"
  shows "moves (tasks s) (tasks (snd (refresh_task E now clk tid incl s)))"
proof -
  have "moves (tasks s) (tasks (snd (refresh_locked E now t incl s1)))"
    if "dget (tasks s) k = Some t" "tasks s1 = tasks s" for t k s1
    using moves_refresh_locked [of s1 t t E now incl] that store_wfD(4) [OF assms that(1)] by simp
  then show ?thesis
    by (auto simp: refresh_task_def is_maintenance_taskD split: option.split prod.split bool.split)
qed

lemma lifecycle_allowed: "b \<in> set (allowed_transitions a) \<Longrightarrow> lifecycle a b"
  by (simp add: lifecycle_def)

lemma moves_transition: "store_wf s \<Longrightarrow> moves (tasks s) (tasks (snd (transition now tid st err serrs s)))"
  by (auto simp: transition_def Let_def lifecycle_allowed intro!: moves_put split: option.split)

lemma moves_complete_capture: "store_wf s \<Longrightarrow> moves (tasks s) (tasks (snd (complete_capture now tid kind p s)))"
  by (auto simp: complete_capture_def Let_def lifecycle_def intro!: moves_put split: option.split)

lemma moves_complete_market_snapshot:
  "store_wf s \<Longrightarrow> moves (tasks s) (tasks (snd (complete_market_snapshot now tid snap s)))"
  by (auto simp: complete_market_snapshot_def Let_def lifecycle_def
      intro!: moves_put split: option.split)

lemma result_capture_status: "result_capture now p t = Some t' \<Longrightarrow> status t' = status t"
  by (auto simp: result_capture_def split: if_splits option.splits)

lemma result_status_moves:
  "a \<in> {RUNNING, PARTIAL} \<Longrightarrow> lifecycle a (status (result_status now ig t))"
  by (auto simp: result_status_def Let_def lifecycle_def)

lemma moves_complete_result:
  assumes "store_wf s"
  shows "moves (tasks s) (tasks (snd (complete_result now tid vs p ocr serrs series ig s)))"
proof (cases "dget (tasks s) tid")
  case None
  then show ?thesis by (simp add: complete_result_def)
next
  case (Some t)
  let ?t1 = "result_values vs ocr t"
  let ?t2 = "\<lambda>ser. ?t1\<lparr>intraday_series := ser, source_errors := normalized_source_errors serrs\<rparr>"
  have put: "moves (tasks s) (tasks (put_task t' s))" if "task_id t' = task_id t" "lifecycle (status t) (status t')" for t'
    using that moves_put [OF assms Some] by simp
  have "status ?t1 = status t" "task_id ?t1 = task_id t" "status (?t2 ser) = status t" "task_id (?t2 ser) = task_id t" for ser
    by (simp_all add: result_values_def)
  moreover have "task_id (result_status now ig t3) = task_id t" if "result_capture now p (?t2 ser) = Some t3" for ser t3
    using result_capture_identity [OF that] result_status_identity [of t3 now ig] calculation(4)
      same_identity_id by metis
  ultimately show ?thesis
    using Some
    by (auto simp: complete_result_def Let_def simp del: put_task_frame(1)
        intro!: put result_status_moves split: option.split)
qed

lemma fold_put_get:
  assumes "distinct (map task_id ts)"
  shows "dget (tasks (fold (\<lambda>t. emit t \<circ> put_task t) ts s)) k =
     (case find (\<lambda>t. task_id t = k) ts of None \<Rightarrow> dget (tasks s) k | Some t \<Rightarrow> Some t)"
  using assms
proof (induction ts arbitrary: s)
  case Nil
  then show ?case by simp
next
  case (Cons t ts)
  have "find (\<lambda>u. task_id u = k) ts = None" if "task_id t = k"
    using that Cons.prems unfolding find_None_iff by (auto simp: image_iff)
  then show ?case using Cons by (auto split: option.split)
qed

text \<open>Recovery: a running task becomes queued again, every other is left as it is.\<close>

lemma recover_get:
  assumes "store_wf s"
  shows "dget (tasks (snd (recover_running now_of s))) k = (case dget (tasks s) k of None \<Rightarrow> None
     | Some t \<Rightarrow> Some (if status t = RUNNING then (requeued (now_of k) t)\<lparr>completed_at := None\<rparr> else t))"
proof -
  let ?rs = "fst (recover_running now_of s)"
  have s': "snd (recover_running now_of s) = fold (\<lambda>t. emit t \<circ> put_task t) ?rs s"
    by (simp add: recover_running_def Let_def)
  note rec = recovered_tasks(2) [OF assms]
  note get = fold_put_get [OF recovered_tasks(1) [OF assms], of now_of s k, folded s']
  show ?thesis
  proof (cases "find (\<lambda>t. task_id t = k) ?rs")
    case (Some t')
    then have t': "t' \<in> set ?rs" "task_id t' = k" by (auto simp: find_Some_iff)
    then obtain t where "dget (tasks s) k = Some t" "status t = RUNNING"
      "t' = (requeued (now_of (task_id t)) t)\<lparr>completed_at := None\<rparr>" using rec [OF t'(1)] by auto
    moreover have "task_id t = k" using calculation(1) store_wfD(4) [OF assms] by blast
    ultimately show ?thesis using get Some by simp
  next
    case None
    have "status t \<noteq> RUNNING" if "dget (tasks s) k = Some t" for t
    proof
      assume "status t = RUNNING"
      then have "(requeued (now_of (task_id t)) t)\<lparr>completed_at := None\<rparr> \<in> set ?rs"
        using that by (force simp: recover_running_def Let_def dest: dget_SomeD)
      then show False
        using None store_wfD(4) [OF assms that] by (force simp: find_None_iff requeued_def)
    qed
    then show ?thesis using get None by (auto split: option.split)
  qed
qed

lemma moves_recover: "store_wf s \<Longrightarrow> moves (tasks s) (tasks (snd (recover_running now_of s)))"
  by (auto simp: moves_def recover_get requeued_def lifecycle_requeue simp del: map_of_eq_Some_iff)

lemma moves_dedup:
  assumes "store_wf s" and "audit_wf s"
  shows "moves (tasks s) (tasks (snd (deduplicate_by_symbol E now_of clk s)))"
proof -
  have "dget (filter (\<lambda>(k, _). k \<notin> A) d) k = (if k \<in> A then None else dget d k)" for A and d :: "(string, task) dict" and k
    by (induction d) auto
  then have "dget (tasks (snd (deduplicate_by_symbol E now_of clk s))) k \<in> {None, dget (tasks (dedup_start now_of clk s)) k}" for k
    by (simp only: dedup_facts(2) [OF assms(1)]) simp
  moreover have "restore_expired_task now t = t" if "dget (tasks s) k = Some t" for now k t
    using audit_status [OF assms(2) that] by (simp add: restore_expired_task_def)
  ultimately show ?thesis
    unfolding moves_def dedup_start_get by (metis (mono_tags, lifting) insertE lifecycle_refl
      option.discI option.inject option.map(2) singletonD)
qed

lemma moves_mono:
  "moves d d' \<Longrightarrow> (\<And>k. dget d'' k \<in> {None, dget d' k}) \<Longrightarrow> moves d d''"
  unfolding moves_def by (metis insertE option.distinct(1) singletonD)

lemma tasks_acquire: "tasks (snd (acquire_deployment_lease E clk clk' tok ttl s)) = tasks s"
  by (auto simp: acquire_deployment_lease_def dest: active_lease_frame split: prod.split option.split)

lemma tasks_renew: "tasks (snd (renew_deployment_lease E clk clk' tok ttl s)) = tasks s"
  by (auto simp: renew_deployment_lease_def Let_def dest: active_lease_frame split: prod.split option.split)

lemma tasks_snd_active: "tasks (snd (active_deployment_lease clk s)) = tasks s"
  using active_lease_frame(1) by (metis surjective_pairing)

lemma moves_remove: "moves (tasks s) (tasks (snd (remove_maintenance_task E raw d lg s)))"
proof (cases rule: remove_maintenance_task_cases [of E raw d lg s])
  case kept
  then show ?thesis by simp
next
  case (removed t cid s')
  then show ?thesis by (simp add: moves_def)
qed

lemma moves_release: "moves (tasks s) (tasks (snd (release_deployment_lease E clk tok s)))"
proof -
  obtain l s1 where l: "active_deployment_lease clk s = (l, s1)" by fastforce
  note t1 = active_lease_frame(1) [OF l]
  have "moves (tasks s) (tasks s2)" if "remove_maintenance_task E b d lg s1 = (r, s2)" for b d lg r s2
    using moves_remove [of s1 E b d lg] that t1 by simp
  then show ?thesis
    using t1 by (auto simp: release_deployment_lease_def l Let_def split: option.split sum.split bool.split prod.split)
qed

lemma moves_bind_existing:
  assumes "store_wf s"
  shows "moves (tasks s) (tasks (snd (bind_existing E now tok b s)))"
proof -
  have "moves (tasks s) (tasks (put_task t s)) \<and>
      moves (tasks s) (tasks (snd (refresh_locked E now t (Some False) (put_task t s))))"
    if t0: "dget (tasks s) b = Some t0" and t: "bind_marked E tok b t0 = Some t" for t0 t
  proof
    have id: "task_id t = b" and st: "status t = status t0"
      using bind_markedD(1,8) [OF t] bind_marked_status [OF t] by simp_all
    then show "moves (tasks s) (tasks (put_task t s))" using t0 by (auto intro: moves_dset)
    show "moves (tasks s) (tasks (snd (refresh_locked E now t (Some False) (put_task t s))))"
      using t0 id st
      by (auto simp: refresh_locked_def Let_def moves_def lifecycle_requeue)
  qed
  then show ?thesis by (auto simp: bind_existing_alt split: option.split)
qed

lemma moves_bind_new:
  "moves (tasks s) (tasks (snd (bind_new E tok c l s)))"
  unfolding bind_new_def Let_def
  using moves_enqueue_locked [of "mark_deployment_acceptance E tok c" s True]
  by (cases "enqueue_locked True (mark_deployment_acceptance E tok c) s")
    (auto split: sum.split store_error.split)

lemma moves_bind:
  assumes "store_wf s"
  shows "moves (tasks s) (tasks (snd (bind_deployment_acceptance E now clk tok c s)))"
proof (cases rule: active_lease_cases [of clk s])
  case none
  then show ?thesis by (simp add: bind_deployment_acceptance_def)
next
  case (some l)
  have "moves (tasks s) (tasks (snd (bind_existing E now tok b (s\<lparr>deployment_lease := x\<rparr>))))"
    "moves (tasks s) (tasks (snd (bind_new E tok c l' (s\<lparr>deployment_lease := x\<rparr>))))" for b x l'
    using moves_bind_existing [of "s\<lparr>deployment_lease := x\<rparr>" E now tok b]
      moves_bind_new [of "s\<lparr>deployment_lease := x\<rparr>" E tok c l'] assms by simp_all
  then show ?thesis
    using some by (auto simp: bind_deployment_acceptance_def Let_def split: option.split sum.split bool.split)
qed

section \<open>Clean-up\<close>

text \<open>What the loop leaves of an entry: a maintenance task as it was, or nothing; an ordinary
  task with its expired captures marked.\<close>

definition cleans :: "time \<Rightarrow> task option \<Rightarrow> task option \<Rightarrow> bool" where
  "cleans now x y \<longleftrightarrow> (case x of None \<Rightarrow> y = None
     | Some t \<Rightarrow> if has_maintenance_metadata t then y = None \<or> y = Some t else y = Some (expire_task now t))"

lemma cleanup_task_get:
  assumes "task_id t = k" "dget (tasks s) k = Some t"
  shows "cleans now (Some t) (dget (tasks (snd (cleanup_task E now bd (k, t) (rs, s)))) k)"
  using assms
  by (cases rule: cleanup_task_cases [of t E now bd k rs s];
      cases rule: remove_maintenance_task_cases [of E k None False s])
    (auto simp: cleans_def simp del: map_of_eq_Some_iff)

lemma cleanup_fold_get:
  assumes "store_wf s" "wf_dict kts" "\<And>k t. (k, t) \<in> set kts \<Longrightarrow> dget (tasks s) k = Some t"
  shows "if k \<in> keys kts
    then cleans now (dget (tasks s) k) (dget (tasks (snd (fold (cleanup_task E now bd) kts (rs, s)))) k)
    else dget (tasks (snd (fold (cleanup_task E now bd) kts (rs, s)))) k = dget (tasks s) k"
  using assms
proof (induction kts arbitrary: rs s)
  case Nil
  then show ?case by simp
next
  case (Cons p kts)
  obtain j t where p: "p = (j, t)" by fastforce
  have t: "dget (tasks s) j = Some t" using Cons.prems(3) p by simp
  then have id: "task_id t = j" using Cons.prems(1) store_wfD(4) by blast
  obtain rs' s' where c: "cleanup_task E now bd (j, t) (rs, s) = (rs', s')" by fastforce
  have wf': "store_wf s'" using wf_cleanup_task [OF Cons.prems(1) t, of E now bd rs] c by simp
  have other: "dget (tasks s') k' = dget (tasks s) k'" if "k' \<noteq> j" for k'
    using cleanup_task_other [OF that id, of E now bd rs s] c by simp
  have "dget (tasks s') k' = Some t'" if kt: "(k', t') \<in> set kts" for k' t'
  proof -
    have "k' \<noteq> j" using kt Cons.prems(2) p by force
    then show ?thesis using other Cons.prems(3) kt by simp
  qed
  note IH = Cons.IH [OF wf' _ this, of rs']
  have j: "j \<notin> keys kts" "wf_dict kts" using Cons.prems(2) p by auto
  show ?case
  proof (cases "k = j")
    case True
    then show ?thesis
      using IH j cleanup_task_get [OF id t, of now E bd rs] c p t by (simp del: map_of_eq_Some_iff)
  next
    case False
    then have "dget (tasks s') k = dget (tasks s) k" by (rule other)
    then show ?thesis using IH [OF j(2)] False p c by (simp split: if_splits)
  qed
qed

lemma cleanup_get:
  assumes "store_wf s"
  shows "cleans now (dget (tasks s) k) (dget (tasks (snd (cleanup E now clk s))) k)"
proof -
  obtain l s1 where a: "active_deployment_lease clk s = (l, s1)" by fastforce
  have wf: "store_wf s1" and ts: "tasks s1 = tasks s"
    using assms wf_active_lease [OF a] active_lease_frame(1) [OF a] by simp_all
  have cl: "cleanup E now clk s = fold (cleanup_task E now (bound_of l)) (tasks s1) ([], s1)"
    by (simp add: cleanup_def a)
  note get = cleanup_fold_get [OF wf store_wfD(1) [OF wf] map_of_is_SomeI [OF store_wfD(1) [OF wf]],
      of k now E "bound_of l" "[]"]
  show ?thesis
  proof (cases "k \<in> keys (tasks s)")
    case True
    then show ?thesis using get by (simp add: ts cl)
  next
    case False
    then have "dget (tasks s) k = None" by (simp add: dget_None_iff)
    then show ?thesis using get False by (simp add: ts cl cleans_def)
  qed
qed

lemma moves_cleanup:
  assumes "store_wf s"
  shows "moves (tasks s) (tasks (snd (cleanup E now clk s)))"
  unfolding moves_def
proof (intro allI impI)
  fix k t t'
  assume "dget (tasks s) k = Some t" "dget (tasks (snd (cleanup E now clk s))) k = Some t'"
  then have "t' \<in> {t, expire_task now t}"
    using cleanup_get [OF assms, of now k E clk] by (auto simp: cleans_def split: if_splits)
  then show "lifecycle (status t) (status t')" by auto
qed

lemmas moves_ops = moves_next_runnable moves_requeue_waiting moves_retry_failed
  moves_refresh_task moves_transition moves_complete_capture moves_complete_result
  moves_complete_market_snapshot moves_recover moves_dedup moves_release moves_bind moves_cleanup

lemma store_step_moves:
  "store_step E s s' \<Longrightarrow> store_wf s \<Longrightarrow> audit_wf s \<Longrightarrow> moves (tasks s) (tasks s')"
proof (induction rule: store_step.induct)
  case (enqueue t s)
  then show ?case by (simp add: enqueue_def fresh_id_def moves_enqueue_locked)
next
  case (submit t s now clk)
  then show ?case by (simp add: moves_submit)
qed (simp_all add: moves_ops tasks_acquire tasks_renew tasks_snd_active
    snd_find_by_symbol snd_queue_position snd_lease_status)

end
