(* ===== verification/Queue_Submission.thy ===== *)
theory Queue_Submission
  imports Queue_Lifecycle
begin

text \<open>
  Submissions: the choice of the canonical task is the maximum of its key, the number of active
  tasks changes by at most one, and a repeated submission finds the task of the first.
\<close>

section \<open>The canonical task is a maximum\<close>

lemma canonical_from_key:
  "canonical_key b \<le> canonical_key (canonical_from b ts)
   \<and> (\<forall>t \<in> set ts. canonical_key t \<le> canonical_key (canonical_from b ts))"
proof (induction ts arbitrary: b)
  case Nil
  then show ?case by simp
next
  case (Cons t ts)
  let ?b = "if canonical_key b < canonical_key t then t else b"
  have "canonical_key b \<le> canonical_key ?b" "canonical_key t \<le> canonical_key ?b" by auto
  then show ?case using Cons.IH [of ?b] by (auto intro: order_trans)
qed

lemma canonical_task_key:
  "canonical_task ts = Some c \<Longrightarrow> t \<in> set ts \<Longrightarrow> canonical_key t \<le> canonical_key c"
  using canonical_from_key by (cases ts) fastforce+

lemma canonical_task_unique:
  assumes "c \<in> set ts" and "\<And>t. t \<in> set ts \<Longrightarrow> t \<noteq> c \<Longrightarrow> canonical_key t < canonical_key c"
  shows "canonical_task ts = Some c"
proof (cases "canonical_task ts")
  case None
  then show ?thesis using assms(1) by simp
next
  case (Some d)
  then have "d \<in> set ts" "canonical_key c \<le> canonical_key d"
    using canonical_task_mem canonical_task_key [OF Some assms(1)] by blast+
  then show ?thesis using Some assms(2) by (metis leD)
qed

lemma canonical_inactive:
  assumes "canonical_task ts = Some c" and "\<not> is_active (status c)" and "t \<in> set ts"
  shows "\<not> is_active (status t)"
  using canonical_task_key [OF assms(1,3)] assms(2) by (auto simp: canonical_key_def less_eq_prod_def)

section \<open>The number of active tasks\<close>

lemma count_dset:
  assumes "wf_dict d"
  shows "length (filter P (dset k v d)) + (case dget d k of None \<Rightarrow> 0 | Some w \<Rightarrow> if P (k, w) then 1 else 0)
     = length (filter P d) + (if P (k, v) then 1 else 0)"
  using assms
proof (induction d)
  case Nil
  then show ?case by simp
next
  case (Cons p d)
  then show ?case
    by (cases p) (auto split: option.splits)
qed

definition active_count :: "(string, task) dict \<Rightarrow> int" where
  "active_count d = int (length (filter (\<lambda>(_, t). is_active (status t)) d))"

lemma pending_active_count: "pending_count s = active_count (tasks s)"
  by (simp add: pending_count_def active_count_def)

lemma active_count_new:
  assumes "wf_dict d" and "k \<notin> keys d" and "is_active (status t)"
  shows "active_count (dset k t d) = active_count d + 1"
  using count_dset [OF assms(1), of "\<lambda>(_, t). is_active (status t)" k t] assms(2,3)
  by (simp add: active_count_def dget_None_iff [THEN iffD2])

lemma active_count_change:
  assumes "wf_dict d" and "dget d k = Some t0" and "\<not> is_active (status t0)" and "is_active (status t)"
  shows "active_count (dset k t d) = active_count d + 1"
  using count_dset [OF assms(1), of "\<lambda>(_, t). is_active (status t)" k t] assms(2-4)
  by (simp add: active_count_def del: map_of_eq_Some_iff)

section \<open>Submissions\<close>

lemma active_lease_again:
  "active_deployment_lease clk s = (l, s1) \<Longrightarrow> deployment_lease s' = l \<Longrightarrow>
     active_deployment_lease clk s' = (l, s')"
proof (cases l)
  case (Some x)
  assume a: "active_deployment_lease clk s = (l, s1)" "deployment_lease s' = l"
  then have "clk < lease_expires x"
    using Some by (auto simp: active_deployment_lease_def split: option.splits if_splits)
  then show ?thesis using a(2) Some by (simp add: active_deployment_lease_def)
qed (simp add: active_deployment_lease_def)

definition symbol_candidates :: "string \<Rightarrow> string option \<Rightarrow> (string, task) dict \<Rightarrow> task list" where
  "symbol_candidates sy bound d =
     filter (\<lambda>t. symbol t = sy \<and> \<not> has_maintenance_metadata t \<and> Some (task_id t) \<noteq> bound) (map snd d)"

lemma find_by_symbol_alt:
  assumes "active_deployment_lease clk s = (l, s1)"
  shows "find_by_symbol clk sy s = (canonical_task (symbol_candidates sy (bound_of l) (tasks s)), s1)"
  using active_lease_frame(1) [OF assms] by (simp add: find_by_symbol_def assms symbol_candidates_def)

lemma candidates_mem:
  assumes "wf_dict d"
  shows "t \<in> set (symbol_candidates sy bound d) \<longleftrightarrow> (\<exists>k. dget d k = Some t) \<and> symbol t = sy
     \<and> \<not> has_maintenance_metadata t \<and> Some (task_id t) \<noteq> bound"
  using assms by (force simp: symbol_candidates_def)

lemma active_first: "is_active (status c) \<Longrightarrow> \<not> is_active (status t) \<Longrightarrow> canonical_key t < canonical_key c"
  by (simp add: canonical_key_def less_prod_def)

text \<open>Three ways a submission can succeed; each leaves a store in which the symbol's canonical
  task is the one it returned.\<close>

lemma submit_cases:
  assumes "store_wf s" and "fresh_id (task_id t) s" and "status t = QUEUED"
    and "submit_or_refresh E now clk t s = (Inr u, s')" and "active_deployment_lease clk s = (l, s1)"
  shows "(tasks s' = tasks s \<and> s' = s1 \<and> is_active (status u)
        \<and> canonical_task (symbol_candidates (symbol t) (bound_of l) (tasks s)) = Some u)
    \<or> (\<exists>e. canonical_task (symbol_candidates (symbol t) (bound_of l) (tasks s)) = Some e
        \<and> \<not> is_active (status e) \<and> u = reset_task_for_refresh now (Some (include_long_capture t)) e
        \<and> tasks s' = dset (task_id e) u (tasks s) \<and> deployment_lease s' = l \<and> pending_count s < pending_cap s
        \<and> fifo s' = filter (\<lambda>i. i \<noteq> task_id e) (fifo s) @ [task_id e])
    \<or> (symbol_candidates (symbol t) (bound_of l) (tasks s) = [] \<and> u = t \<and> \<not> has_maintenance_metadata t
        \<and> tasks s' = dset (task_id t) t (tasks s) \<and> deployment_lease s' = l \<and> pending_count s < pending_cap s
        \<and> fifo s' = fifo s @ [task_id t])"
proof -
  note fr = active_lease_frame [OF assms(5)]
  have pc: "pending_count s1 = pending_count s" by (simp add: pending_count_def fr)
  show ?thesis
  proof (cases "canonical_task (symbol_candidates (symbol t) (bound_of l) (tasks s))")
    case None
    then have "find_by_symbol clk (symbol t) s = (None, s1)" by (simp add: find_by_symbol_alt [OF assms(5)])
    then show ?thesis
      using assms(4) None
      by (auto simp: submit_or_refresh_def enqueue_locked_def fr pc split: if_splits)
  next
    case (Some e)
    then have "find_by_symbol clk (symbol t) s = (Some e, s1)" by (simp add: find_by_symbol_alt [OF assms(5)])
    then show ?thesis
      using assms(4) Some fr pc
      by (auto simp: submit_or_refresh_def refresh_locked_def Let_def split: if_splits)
  qed
qed

lemma submit_finds_again:
  assumes "store_wf s" and "fresh_id (task_id t) s" and "status t = QUEUED"
    and "submit_or_refresh E now clk t s = (Inr u, s')" and "active_deployment_lease clk s = (l, s1)"
    and "Some (task_id t) \<noteq> bound_of l"
  shows "find_by_symbol clk (symbol t) s' = (Some u, s') \<and> is_active (status u)"
proof -
  let ?C = "symbol_candidates (symbol t) (bound_of l)"
  note fr = active_lease_frame [OF assms(5)]
  note wfd = store_wfD(1) [OF assms(1)]
  have again: "find_by_symbol clk (symbol t) s' = (canonical_task (?C (tasks s')), s')" if "deployment_lease s' = l"
    using find_by_symbol_alt [OF active_lease_again [OF assms(5) that]] .
  from submit_cases [OF assms(1-5)] consider
      (found) "s' = s1" "is_active (status u)" "canonical_task (?C (tasks s)) = Some u"
    | (refreshed) e where "canonical_task (?C (tasks s)) = Some e" "\<not> is_active (status e)"
        "u = reset_task_for_refresh now (Some (include_long_capture t)) e"
        "tasks s' = dset (task_id e) u (tasks s)" "deployment_lease s' = l"
    | (created) "?C (tasks s) = []" "u = t" "\<not> has_maintenance_metadata t"
        "tasks s' = dset (task_id t) t (tasks s)" "deployment_lease s' = l"
    by blast
  then show ?thesis
  proof cases
    case found
    then show ?thesis using again fr by simp
  next
    case refreshed
    have e: "e \<in> set (?C (tasks s))" using canonical_task_mem [OF refreshed(1)] .
    have act: "is_active (status u)" by (simp add: refreshed(3) is_active_def)
    have wf': "wf_dict (tasks s')" using wfd by (simp add: refreshed(4))
    have same: "same_identity e u" by (simp add: refreshed(3))
    have "u \<in> set (?C (tasks s'))"
      unfolding candidates_mem [OF wf'] using e same
      by (auto simp: candidates_mem [OF wfd] refreshed(4) same_identity_def
          has_maintenance_metadata_def simp del: map_of_eq_Some_iff)
    moreover have "canonical_key x < canonical_key u" if "x \<in> set (?C (tasks s'))" "x \<noteq> u" for x
    proof -
      have "x \<in> set (?C (tasks s))"
        using that(1) [unfolded candidates_mem [OF wf']] that(2)
        by (auto simp: candidates_mem [OF wfd] refreshed(4) simp del: map_of_eq_Some_iff split: if_splits)
      then show ?thesis using canonical_inactive [OF refreshed(1,2)] act active_first by blast
    qed
    ultimately show ?thesis using again [OF refreshed(5)] canonical_task_unique act by metis
  next
    case created
    have wf': "wf_dict (tasks s')" using wfd by (simp add: created(4))
    have "u \<in> set (?C (tasks s'))"
      unfolding candidates_mem [OF wf'] using created(2,3) assms(6)
      by (auto simp: created(4) simp del: map_of_eq_Some_iff)
    moreover have "x = u" if "x \<in> set (?C (tasks s'))" for x
    proof (rule ccontr)
      assume "x \<noteq> u"
      then have "x \<in> set (?C (tasks s))"
        using that [unfolded candidates_mem [OF wf']] created(2)
        by (auto simp: candidates_mem [OF wfd] created(4) simp del: map_of_eq_Some_iff split: if_splits)
      then show False using created(1) by simp
    qed
    ultimately have "canonical_task (?C (tasks s')) = Some u" by (intro canonical_task_unique) blast+
    then show ?thesis using again [OF created(5)] created(2) assms(3) by (simp add: is_active_def)
  qed
qed

lemma submit_count:
  assumes "store_wf s" and "fresh_id (task_id t) s" and "status t = QUEUED"
    and "submit_or_refresh E now clk t s = (Inr u, s')"
  shows "pending_count s' = pending_count s
    \<or> pending_count s < pending_cap s \<and> pending_count s' = pending_count s + 1"
proof -
  obtain l s1 where a: "active_deployment_lease clk s = (l, s1)" by fastforce
  note wfd = store_wfD(1) [OF assms(1)]
  from submit_cases [OF assms a] show ?thesis
  proof (elim disjE exE conjE)
    fix e
    assume e: "canonical_task (symbol_candidates (symbol t) (bound_of l) (tasks s)) = Some e"
      "\<not> is_active (status e)" "u = reset_task_for_refresh now (Some (include_long_capture t)) e"
      "tasks s' = dset (task_id e) u (tasks s)" "pending_count s < pending_cap s"
    obtain k where "dget (tasks s) k = Some e"
      using canonical_task_mem [OF e(1)] by (auto simp: candidates_mem [OF wfd] simp del: map_of_eq_Some_iff)
    then have "dget (tasks s) (task_id e) = Some e" using store_wfD(4) [OF assms(1)] by metis
    then show ?thesis
      using e by (simp add: pending_active_count active_count_change [OF wfd] is_active_def)
  next
    assume "tasks s' = dset (task_id t) t (tasks s)" "pending_count s < pending_cap s"
    then show ?thesis
      using assms(2,3) by (simp add: pending_active_count active_count_new [OF wfd] fresh_id_def is_active_def)
  qed (simp_all add: pending_active_count)
qed

end
