(* ===== verification/Queue_Properties.thy ===== *)
theory Queue_Properties
  imports Queue_Order Queue_Submission
begin

text \<open>
  What the task store promises the web API and the runner, over the stores its operations can
  reach from an empty one. The last section holds the concrete stores the witnesses use.
\<close>

section \<open>Concrete stores\<close>

definition demo_env :: store_env where
  "demo_env = \<lparr>resolve_path = (\<lambda>p. [''srv'', p]), sha256_hex = (\<lambda>_. replicate 64 CHR ''0'')\<rparr>"

definition demo_task :: "string \<Rightarrow> string \<Rightarrow> task" where
  "demo_task i sy = new_task i sy False 5"

definition demo_store :: store where
  "demo_store = snd (enqueue (demo_task ''b'' ''600002'')
     (snd (enqueue (demo_task ''a'' ''600001'') (init_store 10 (Some [''srv'']))))) "

definition demo_token :: string where
  "demo_token = replicate 32 CHR ''x''"

definition demo_leased :: store where
  "demo_leased = snd (acquire_deployment_lease demo_env 0 0 demo_token 60 demo_store)"

definition demo_bound :: store where
  "demo_bound = snd (bind_deployment_acceptance demo_env 7 1 demo_token (demo_task ''m'' acceptance_symbol) demo_leased)"

definition demo_lease :: lease where
  "demo_lease = \<lparr>lease_owner = demo_token, lease_digest = Some (replicate 64 CHR ''0''),
     lease_bound = None, lease_expires = 60\<rparr>"

lemma demo_digest: "digest_ok demo_env"
  by (simp add: digest_ok_def demo_env_def maintenance_owner_digest_format_def lower_hex_char_def is_digit_def list_all_iff)

lemmas demo_simps = demo_task_def new_task_def init_store_def enqueue_def enqueue_locked_def
  has_maintenance_metadata_def pending_count_def is_active_def emit_def put_task_def

lemma demo_tasks:
  "tasks demo_store = [(''a'', demo_task ''a'' ''600001''), (''b'', demo_task ''b'' ''600002'')]"
  "fifo demo_store = [''a'', ''b'']" "aliases demo_store = []"
  "events demo_store = [(''a'', [QUEUED]), (''b'', [QUEUED])]"
  "deployment_lease demo_store = None" "pending_cap demo_store = 10"
  "capture_root demo_store = Some [''srv'']" "removed_files demo_store = []"
  by (simp_all add: demo_store_def demo_simps)

lemma demo_reachable: "reachable_store demo_env demo_store"
proof -
  let ?s0 = "init_store 10 (Some [''srv''])"
  let ?s1 = "snd (enqueue (demo_task ''a'' ''600001'') ?s0)"
  have "reachable_store demo_env ?s1"
    by (rule reachable_store.step [OF reachable_store.init store_step.enqueue])
      (simp_all add: fresh_id_def init_store_def demo_task_def new_task_def)
  moreover have "fresh_id ''b'' ?s1"
    by (simp add: fresh_id_def demo_simps)
  ultimately show ?thesis
    unfolding demo_store_def
    by - (rule reachable_store.step [OF _ store_step.enqueue], simp_all add: demo_task_def new_task_def)
qed

lemma demo_claimed:
  "dget (tasks (snd (next_runnable 6 0 demo_store))) ''a'' = Some (start_running 6 (demo_task ''a'' ''600001''))"
  by (simp add: next_runnable_def active_deployment_lease_def demo_tasks claimable_def Let_def
      demo_task_def new_task_def has_maintenance_metadata_def start_running_def)

lemma demo_leased_eq: "demo_leased = demo_store\<lparr>deployment_lease := Some demo_lease\<rparr>"
  by (simp add: demo_leased_def acquire_deployment_lease_def valid_lease_request_def demo_token_def
      max_deployment_lease_seconds_def owner_char_def is_alpha_def is_digit_def list_all_iff
      active_deployment_lease_def demo_tasks has_running_task_def task_is_running_def demo_task_def new_task_def
      demo_lease_def demo_env_def Let_def)

lemma demo_leased_reachable: "reachable_store demo_env demo_leased"
  unfolding demo_leased_def by (rule reachable_store.step [OF demo_reachable store_step.acquire])

lemma demo_leased_active: "active_deployment_lease 5 demo_leased = (Some demo_lease, demo_leased)"
  by (simp add: demo_leased_eq active_deployment_lease_def demo_lease_def)

lemma demo_bound_reachable: "reachable_store demo_env demo_bound"
  unfolding demo_bound_def
  by (rule reachable_store.step [OF demo_leased_reachable store_step.bind])
    (simp add: fresh_id_def demo_leased_eq demo_tasks demo_task_def new_task_def)

lemma demo_bound_lease: "deployment_lease demo_bound = Some (demo_lease\<lparr>lease_bound := Some ''m''\<rparr>)"
  by (simp add: demo_bound_def bind_deployment_acceptance_def demo_leased_eq active_deployment_lease_def
      demo_lease_def valid_acceptance_task_def compare_digest_def demo_token_def ascii_def list_all_iff
      digest_agrees_def bind_new_def demo_tasks mark_deployment_acceptance_def demo_env_def demo_simps Let_def)

lemma demo_bound_active:
  "active_deployment_lease 5 demo_bound = (Some (demo_lease\<lparr>lease_bound := Some ''m''\<rparr>), demo_bound)"
  by (simp add: active_deployment_lease_def demo_bound_lease demo_lease_def)

section \<open>Properties\<close>

text \<open>
  C1: In every store the operations can reach, the FIFO has no duplicates and lists only stored
  tasks, every stored task is filed under its own id, every ordinary task is in the FIFO, and
  every alias of a merged duplicate resolves, in one lookup chain, to a stored task.
\<close>

theorem reachable_store_consistent:
  assumes "reachable_store E s"
  shows "distinct (fifo s) \<and> set (fifo s) \<subseteq> keys (tasks s)
    \<and> (\<forall>tid t. dget (tasks s) tid = Some t \<longrightarrow> task_id t = tid
         \<and> (\<not> has_maintenance_metadata t \<longrightarrow> tid \<in> set (fifo s)))
    \<and> (\<forall>a \<in> keys (aliases s). a \<notin> keys (tasks s) \<and> resolve_task_id a s \<in> keys (tasks s))"
proof -
  have wf: "store_wf s" using assms by (rule reachable_store_wf)
  have "resolve_task_id a s \<in> keys (tasks s)" if a: "a \<in> keys (aliases s)" for a
  proof -
    obtain b where b: "dget (aliases s) a = Some b" using a by (metis dget_None_iff not_Some_eq)
    then have "b \<in> snd ` set (aliases s)" by (force dest: dget_SomeD)
    then show ?thesis using store_wfD(8) [OF wf] b resolve_task_id_wf [OF wf, of a] by auto
  qed
  then show ?thesis using store_wfD(2-5,7) [OF wf] by blast
qed

lemma reachable_store_consistent_witness:
  "reachable_store demo_env demo_store \<and> distinct (fifo demo_store)"
  using demo_reachable reachable_store_consistent [OF demo_reachable] by blast

text \<open>
  C2: While no deployment lease exists, any number of successive claims of the runner return the
  claimable tasks exactly in the order of the FIFO, each once.
\<close>

theorem claims_follow_fifo:
  assumes "reachable_store E s" and "deployment_lease s = None"
  shows "fst (claims (claim_id now clk) n s) = take n (filter (claimable s) (fifo s))
    \<and> filter (claimable (snd (claims (claim_id now clk) n s))) (fifo (snd (claims (claim_id now clk) n s)))
      = drop n (filter (claimable s) (fifo s))"
  using task_claims.claims_in_order [of s now clk n] reachable_store_wf [OF assms(1)] assms(2)
  by (simp add: lease_free_def waiting_def)

lemma claims_follow_fifo_witness: "fst (claims (claim_id 9 0) 2 demo_store) = [''a'', ''b'']"
  using claims_follow_fifo [OF demo_reachable, of 9 0 2]
  by (simp add: demo_tasks claimable_def demo_task_def new_task_def has_maintenance_metadata_def)

text \<open>
  The place in the queue the API reports is honest: a task reported at place p + 1 (without a
  lease) is what the runner claims after exactly p other claims.
\<close>

theorem queue_position_is_turn:
  assumes "reachable_store E s" and "deployment_lease s = None"
    and "queue_position clk tid s = (Some (Suc p), s')"
  shows "fst (claim_id now clk' (snd (claims (claim_id now clk') p s))) = Some (resolve_task_id tid s)"
proof -
  have inv: "lease_free s" using assms(1,2) reachable_store_wf by (simp add: lease_free_def)
  note p = queue_position_index [OF inv assms(3)]
  show ?thesis using task_claims.claim_turn [OF inv, of p now clk'] p by simp
qed

lemma queue_position_is_turn_witness:
  "fst (claim_id 9 0 (snd (claims (claim_id 9 0) 1 demo_store))) = Some (resolve_task_id ''b'' demo_store)"
proof (rule queue_position_is_turn [OF demo_reachable])
  have "resolve_task_id ''b'' demo_store = ''b''" by (simp add: resolve_task_id_def demo_tasks resolve_from.simps)
  then show "queue_position 0 ''b'' demo_store = (Some (Suc 1), demo_store)"
    by (simp add: queue_position_def demo_tasks active_deployment_lease_def bound_of_def positionable_def
        demo_task_def new_task_def has_maintenance_metadata_def)
qed (simp add: demo_tasks)

text \<open>
  C14: While a deployment lease is active no ordinary task starts: a claim returns at most the one
  task bound to the lease, which is an acceptance task, and leaves every ordinary task as it was.
\<close>

theorem lease_freezes_ordinary_tasks:
  assumes "reachable_store E s" and "active_deployment_lease clk s = (Some l, s1)"
  shows "(\<forall>t. fst (next_runnable now clk s) = Some t \<longrightarrow> lease_bound l = Some (task_id t)
        \<and> maintenance_namespace t = Some deployment_acceptance \<and> status t = RUNNING)
    \<and> (\<forall>k u. dget (tasks s) k = Some u \<and> \<not> has_maintenance_metadata u \<longrightarrow>
        dget (tasks (snd (next_runnable now clk s))) k = Some u)"
proof -
  have s1: "tasks s1 = tasks s" using active_lease_frame(1) [OF assms(2)] .
  note id = store_wfD(4) [OF reachable_store_wf [OF assms(1)]]
  show ?thesis
    using id bound_acceptance_maintenance
    by (auto simp: next_runnable_def assms(2) s1 Let_def start_running_def valid_bound_acceptance_def
        has_maintenance_metadata_def simp del: map_of_eq_Some_iff split: option.splits if_splits)
qed

lemma lease_freezes_ordinary_tasks_witness:
  "dget (tasks (snd (next_runnable 9 5 demo_leased))) ''a'' = Some (demo_task ''a'' ''600001'')"
  using lease_freezes_ordinary_tasks [OF demo_leased_reachable demo_leased_active, of 9]
  by (simp add: demo_leased_eq demo_tasks demo_task_def new_task_def has_maintenance_metadata_def)

text \<open>
  The lease is exclusive: it is granted only for a valid request, when no unexpired lease
  exists and no task is running; and until it expires every other request is refused without any
  effect and the runner claims nothing.
\<close>

theorem acquire_is_exclusive:
  assumes "acquire_deployment_lease E clk clk' tok ttl s = (True, s')" and "clk2 < clk' + ttl"
  shows "valid_lease_request tok ttl \<and> fst (active_deployment_lease clk s) = None
    \<and> list_all (\<lambda>(_, t). \<not> task_is_running t) (tasks s)
    \<and> acquire_deployment_lease E clk2 clk2' tok2 ttl2 s' = (False, s')
    \<and> next_runnable now clk2 s' = (None, s')"
proof (cases rule: active_lease_cases [of clk s])
  case none
  then show ?thesis
    using assms by (auto simp: acquire_deployment_lease_def active_deployment_lease_def next_runnable_def
        has_running_task_def list_all_iff list_ex_iff not_le split: if_splits)
next
  case (some l)
  then show ?thesis using assms by (auto simp: acquire_deployment_lease_def split: if_splits)
qed

lemma acquire_is_exclusive_witness:
  "acquire_deployment_lease demo_env 5 5 demo_token 60 demo_leased = (False, demo_leased)"
proof -
  have "acquire_deployment_lease demo_env 0 0 demo_token 60 demo_store = (True, demo_leased)"
    using demo_leased_eq
    by (simp add: demo_leased_def acquire_deployment_lease_def valid_lease_request_def demo_token_def
      max_deployment_lease_seconds_def owner_char_def is_alpha_def is_digit_def list_all_iff
      active_deployment_lease_def demo_tasks has_running_task_def task_is_running_def demo_task_def new_task_def)
  from acquire_is_exclusive [OF this, of 5] show ?thesis by simp
qed

text \<open>
  Only the owner of the lease has power over it: with any other token a renewal, a binding and
  a release change nothing at all while the lease is active, and none of them reports success.
\<close>

theorem only_owner_uses_lease:
  assumes "active_deployment_lease clk s = (Some l, s1)" and "lease_owner l \<noteq> tok"
  shows "renew_deployment_lease E clk clk' tok ttl s = (False, s)
    \<and> release_deployment_lease E clk tok s \<in> {(Inr False, s), (Inl TypeError, s)}
    \<and> bind_deployment_acceptance E now clk tok c s \<in> {(Inr None, s), (Inl TypeError, s)}"
proof -
  have "s1 = s" using assms(1) by (auto simp: active_deployment_lease_def split: option.splits if_splits)
  then show ?thesis
    using assms by (auto simp: renew_deployment_lease_def release_deployment_lease_def
        bind_deployment_acceptance_def compare_digest_def split: bool.splits)
qed

lemma only_owner_uses_lease_witness:
  "renew_deployment_lease demo_env 5 5 (replicate 32 CHR ''y'') 60 demo_leased = (False, demo_leased)"
  using only_owner_uses_lease [OF demo_leased_active, of "replicate 32 CHR ''y''" demo_env 5 60]
  by (simp add: demo_lease_def demo_token_def)

text \<open>
  C28: The owner can always release an unexpired lease, and the release leaves no trace of the
  acceptance task: neither in the store, the FIFO and the events nor, in either direction, in
  the aliases; every other task stays as it was.
\<close>

theorem owner_release_succeeds:
  assumes "reachable_store E s" and "digest_ok E" and "active_deployment_lease clk s = (Some l, s1)"
  shows "\<exists>s'. release_deployment_lease E clk (lease_owner l) s = (Inr True, s') \<and> deployment_lease s' = None
    \<and> (\<forall>b. lease_bound l = Some b \<longrightarrow> b \<notin> keys (tasks s') \<and> b \<notin> set (fifo s') \<and> b \<notin> keys (events s')
         \<and> b \<notin> keys (aliases s') \<and> b \<notin> snd ` set (aliases s'))
    \<and> (\<forall>k. lease_bound l \<noteq> Some k \<longrightarrow> dget (tasks s') k = dget (tasks s) k)"
proof -
  have eq: "s1 = s" and l: "deployment_lease s = Some l"
    using assms(3) by (auto simp: active_deployment_lease_def split: option.splits if_splits)
  have lw: "lease_digest l = Some (sha256_hex E (lease_owner l))" "ascii (lease_owner l)"
    and bw: "\<And>b. lease_bound l = Some b \<Longrightarrow> bound_task_wf (tasks s) b (sha256_hex E (lease_owner l))"
    using reachable_lease_wf [OF assms(1,2)] l by (auto simp: lease_wf_def)
  show ?thesis
  proof (cases "lease_bound l")
    case None
    then show ?thesis
      using assms(3) eq lw by (simp add: release_deployment_lease_def compare_digest_def digest_agrees_def)
  next
    case (Some b)
    let ?d = "sha256_hex E (lease_owner l)"
    obtain t where t: "dget (tasks s) b = Some t" "valid_bound_acceptance t b ?d False"
      using bw [OF Some] by (auto simp: bound_task_wf_def)
    have m: "has_maintenance_metadata t" using bound_acceptance_maintenance [OF t(2)] .
    have "length ?d = 64"
      using assms(2) by (simp add: digest_ok_def maintenance_owner_digest_format_def)
    then have rm: "removable_maintenance_task t b (Some ?d) True"
      using t m by (auto simp: removable_maintenance_task_def valid_bound_acceptance_def split: option.splits)
    obtain s' cid where r: "remove_maintenance_task E b (Some ?d) True s = (Some t, s')"
      "tasks s' = dpop b (tasks s)" "fifo s' = filter (\<lambda>i. i \<noteq> b) (fifo s)"
      "aliases s' = redirect_aliases b cid (aliases s)" "events s' = dpop b (events s)"
      "\<And>c. cid = Some c \<Longrightarrow> c \<in> keys (tasks s) - {b}"
      using t(1) rm by (cases rule: remove_maintenance_task_cases [of E b "Some ?d" True s])
        (auto simp: remove_maintenance_task_def Let_def)
    have "release_deployment_lease E clk (lease_owner l) s = (Inr True, s'\<lparr>deployment_lease := None\<rparr>)"
      using assms(3) eq lw Some t m r(1)
      by (simp add: release_deployment_lease_def compare_digest_def digest_agrees_def)
    moreover have "b \<notin> keys (aliases s')" "b \<notin> snd ` set (aliases s')"
      using redirect_aliases_keys [of b cid "aliases s"] r(4,6)
      by (auto simp: redirect_aliases_set image_iff split: if_splits)
    ultimately show ?thesis using Some r(2,3,5) by auto
  qed
qed

lemma owner_release_succeeds_witness:
  "\<exists>s'. release_deployment_lease demo_env 5 demo_token demo_bound = (Inr True, s') \<and> ''m'' \<notin> keys (tasks s')"
  using owner_release_succeeds [OF demo_bound_reachable demo_digest demo_bound_active]
  by (auto simp: demo_lease_def)

text \<open>
  C30: After the merging of duplicates no two ordinary tasks share a symbol; the public id of every
  task that was merged away still leads, through its alias, to an ordinary task of its symbol; and
  maintenance tasks, and the one bound to a lease, are untouched.
\<close>

theorem deduplication_correct:
  assumes "reachable_store E s"
  shows "let s' = snd (deduplicate_by_symbol E now_of clk s); b = bound_of (fst (active_deployment_lease clk s)) in
    (\<forall>k k' t t'. dget (tasks s') k = Some t \<and> dedup_candidate b t \<and> dget (tasks s') k' = Some t'
        \<and> dedup_candidate b t' \<and> symbol t = symbol t' \<longrightarrow> k = k')
    \<and> (\<forall>k t. dget (tasks s) k = Some t \<and> dedup_candidate b t \<longrightarrow>
        (\<exists>t'. get_task k s' = Some t' \<and> symbol t' = symbol t \<and> dedup_candidate b t'))
    \<and> (\<forall>k t. dget (tasks s) k = Some t \<and> \<not> dedup_candidate b t \<longrightarrow> dget (tasks s') k = Some t)"
proof -
  have wf: "store_wf s" using assms by (rule reachable_store_wf)
  show ?thesis
    unfolding Let_def
    using dedup_unique [OF wf] dedup_resolves [OF wf]
      dedup_keeps_others [OF wf]
    unfolding dedup_bound_def by blast
qed

definition demo_double :: store where
  "demo_double = snd (enqueue (demo_task ''c'' ''600001'') demo_store)"

lemma demo_double_reachable: "reachable_store demo_env demo_double"
  unfolding demo_double_def
  by (rule reachable_store.step [OF demo_reachable store_step.enqueue])
    (simp_all add: fresh_id_def demo_tasks demo_task_def new_task_def)

lemma deduplication_correct_witness:
  "\<exists>t. get_task ''a'' (snd (deduplicate_by_symbol demo_env (\<lambda>_. 9) 0 demo_double)) = Some t \<and> symbol t = ''600001''"
proof -
  have "dget (tasks demo_double) ''a'' = Some (demo_task ''a'' ''600001'')"
    by (simp add: demo_double_def enqueue_def enqueue_locked_def demo_tasks pending_count_def demo_task_def
        new_task_def has_maintenance_metadata_def)
  moreover have "dedup_candidate None (demo_task ''a'' ''600001'')"
    by (simp add: dedup_candidate_def demo_task_def new_task_def has_maintenance_metadata_def)
  moreover have "deployment_lease demo_double = None"
    by (simp add: demo_double_def enqueue_def enqueue_locked_def demo_tasks)
  then have b: "bound_of (fst (active_deployment_lease 0 demo_double)) = None"
    by (simp add: active_deployment_lease_def bound_of_def)
  note d = deduplication_correct [OF demo_double_reachable, of "\<lambda>_. 9" 0, unfolded Let_def b,
      THEN conjunct2, THEN conjunct1, rule_format, of "''a''" "demo_task ''a'' ''600001''"]
  moreover have "symbol (demo_task ''a'' ''600001'') = ''600001''" by (simp add: demo_task_def new_task_def)
  ultimately show ?thesis by auto
qed

text \<open>
  Submitting is idempotent per symbol: once a submission has returned a task, another
  submission for the same symbol, under a new id, returns that same task and changes nothing.
\<close>

theorem submission_idempotent:
  assumes "reachable_store E s" and "digest_ok E" and "fresh_id (task_id t) s" and "status t = QUEUED"
    and "submit_or_refresh E now clk t s = (Inr u, s')"
    and "symbol t' = symbol t" and "\<not> has_maintenance_metadata t'"
  shows "submit_or_refresh E now' clk t' s' = (Inr u, s')"
proof -
  note wf = reachable_store_wf [OF assms(1)] and lw = reachable_lease_wf [OF assms(1,2)]
  obtain l s1 where a: "active_deployment_lease clk s = (l, s1)" by fastforce
  have "Some (task_id t) \<noteq> bound_of l"
  proof
    assume "Some (task_id t) = bound_of l"
    then obtain x where "deployment_lease s1 = Some x" "lease_bound x = Some (task_id t)"
      using active_lease_frame(8) [OF a] by (cases l) (auto simp: bound_of_def)
    then obtain b where "dget (tasks s1) (task_id t) = Some b"
      using lease_wf_active [OF a lw] by (auto simp: lease_wf_def bound_task_wf_def)
    then show False
      using assms(3) active_lease_frame(1) [OF a] dget_keys by (metis fresh_id_def)
  qed
  then show ?thesis
    using submit_finds_again [OF wf assms(3-5) a] assms(6,7) by (simp add: submit_or_refresh_def)
qed

lemma submission_idempotent_witness:
  "submit_or_refresh demo_env 9 0 (demo_task ''z'' ''600001'') demo_store = (Inr (demo_task ''a'' ''600001''), demo_store)"
proof -
  have "submit_or_refresh demo_env 8 0 (demo_task ''y'' ''600001'') demo_store = (Inr (demo_task ''a'' ''600001''), demo_store)"
    by (simp add: submit_or_refresh_def find_by_symbol_def active_deployment_lease_def demo_tasks demo_task_def
        new_task_def has_maintenance_metadata_def is_active_def bound_of_def)
  from submission_idempotent [OF demo_reachable demo_digest _ _ this] show ?thesis
    by (simp add: demo_tasks fresh_id_def demo_task_def new_task_def has_maintenance_metadata_def)
qed

text \<open>
  A successful submission adds at most one active task, and only below the pending cap; a
  refused one, for whatever reason, leaves tasks, FIFO and aliases exactly as they were.
\<close>

theorem submission_respects_cap:
  assumes "reachable_store E s" and "fresh_id (task_id t) s" and "status t = QUEUED"
  shows "case submit_or_refresh E now clk t s of
      (Inr u, s') \<Rightarrow> pending_count s' = pending_count s
         \<or> pending_count s < pending_cap s \<and> pending_count s' = pending_count s + 1
    | (Inl e, s') \<Rightarrow> tasks s' = tasks s \<and> fifo s' = fifo s \<and> aliases s' = aliases s \<and> events s' = events s
         \<and> (e = QueueFullError \<and> pending_cap s \<le> pending_count s
            \<or> e = InvalidTransitionError \<and> has_maintenance_metadata t)"
proof (cases "submit_or_refresh E now clk t s")
  case (Pair r s')
  note wf = reachable_store_wf [OF assms(1)]
  obtain l s1 where a: "active_deployment_lease clk s = (l, s1)" by fastforce
  have pc: "pending_count s1 = pending_count s" by (simp add: pending_count_def active_lease_frame [OF a])
  show ?thesis
  proof (cases r)
    case (Inr u)
    then show ?thesis using submit_count [OF wf assms(2,3)] Pair by simp
  next
    case (Inl e)
    show ?thesis
      using Pair Inl active_lease_frame [OF a] pc active_or_refreshable
      by (auto simp: submit_or_refresh_def find_by_symbol_alt [OF a] enqueue_locked_def refresh_locked_def Let_def
          split: if_splits option.splits)
  qed
qed

lemma submission_respects_cap_witness:
  "case submit_or_refresh demo_env 9 0 (demo_task ''z'' ''600009'') demo_store of
      (Inr u, s') \<Rightarrow> pending_count s' = pending_count demo_store \<or> pending_count s' = pending_count demo_store + 1
    | (Inl e, s') \<Rightarrow> tasks s' = tasks demo_store"
  using submission_respects_cap [OF demo_reachable, of "demo_task ''z'' ''600009''" 9 0]
  by (auto simp: demo_tasks fresh_id_def demo_task_def new_task_def split: prod.splits sum.splits)

text \<open>
  The event stream tells the truth: in every reachable store each stored task has events, and
  the last of them is the task's present status.
\<close>

theorem events_mirror_status:
  assumes "reachable_store E s" and "dget (tasks s) tid = Some t"
  shows "\<exists>es. dget (events s) tid = Some es \<and> es \<noteq> [] \<and> last es = status t"
  using reachable_audit [OF assms(1)] assms(2) by (auto simp: audit_wf_def events_sync_def)

lemma events_mirror_status_witness:
  "\<exists>es. dget (events demo_store) ''a'' = Some es \<and> es \<noteq> [] \<and> last es = QUEUED"
  using events_mirror_status [OF demo_reachable, of "''a''" "demo_task ''a'' ''600001''"]
  by (simp add: demo_tasks demo_task_def new_task_def)

text \<open>
  Whatever paths the captures of tasks carry, the store only ever unlinks files below its
  capture root.
\<close>

theorem unlinks_stay_in_capture_root:
  assumes "reachable_store E s" and "p \<in> set (removed_files s)"
  shows "\<exists>r. capture_root s = Some r \<and> prefix r p"
  using reachable_audit [OF assms(1)] assms(2) by (simp add: audit_wf_def files_ok_def)

definition demo_captured :: store where
  "demo_captured = (let s1 = snd (next_runnable 6 0 demo_store);
       s2 = snd (complete_capture 6 ''a'' CK_RETAIL_COUNT ''x.png'' s1);
       s3 = snd (transition 6 ''a'' FAILED None None s2)
     in snd (refresh_task demo_env 8 0 ''a'' None s3))"

lemma demo_captured_reachable: "reachable_store demo_env demo_captured"
  unfolding demo_captured_def Let_def
  by (intro reachable_store.step [OF reachable_store.step [OF reachable_store.step [OF reachable_store.step
        [OF demo_reachable store_step.claim] store_step.capture] store_step.transition] store_step.refresh])

lemma unlinks_stay_in_capture_root_witness:
  "[''srv'', ''x.png''] \<in> set (removed_files demo_captured) \<and> (\<exists>r. capture_root demo_captured = Some r \<and> prefix r [''srv'', ''x.png''])"
proof -
  have "[''srv'', ''x.png''] \<in> set (removed_files demo_captured)"
    by (simp add: demo_captured_def Let_def next_runnable_def active_deployment_lease_def demo_tasks claimable_def
        demo_task_def new_task_def has_maintenance_metadata_def start_running_def complete_capture_def
        capture_kinds_def transition_def refresh_task_def resolve_task_id_def resolve_from.simps is_maintenance_task_def
        is_active_def is_refreshable_def refresh_locked_def pending_count_def bound_of_def new_capture_def
        unlink_task_def unlink_capture_def demo_env_def)
  then show ?thesis using unlinks_stay_in_capture_root [OF demo_captured_reachable] by blast
qed

text \<open>
  A task's life cycle: over one operation on a reachable store the status of a stored task
  either stays, follows \<open>_ALLOWED_TRANSITIONS\<close>, or is put back to QUEUED, the last only from a
  finished status, from RUNNING (recovery) or from WAITING_ADMIN.
\<close>

theorem status_follows_lifecycle:
  assumes "reachable_store E s" and "store_step E s s'"
    and "dget (tasks s) tid = Some t" and "dget (tasks s') tid = Some t'"
  shows "status t' = status t \<or> status t' \<in> set (allowed_transitions (status t))
    \<or> status t' = QUEUED \<and> (is_refreshable (status t) \<or> status t = RUNNING \<or> status t = WAITING_ADMIN)"
proof -
  have "moves (tasks s) (tasks s')"
    using store_step_moves [OF assms(2)] reachable_store_wf [OF assms(1)] reachable_audit [OF assms(1)] .
  then have "lifecycle (status t) (status t')" using assms(3,4) by (simp add: moves_def)
  then show ?thesis by (auto simp: lifecycle_def)
qed

lemma status_follows_lifecycle_witness:
  "store_step demo_env demo_store (snd (next_runnable 6 0 demo_store))
   \<and> (\<exists>t'. dget (tasks (snd (next_runnable 6 0 demo_store))) ''a'' = Some t' \<and> status t' \<in> {QUEUED, RUNNING, FAILED})"
proof -
  have "dget (tasks demo_store) ''a'' = Some (demo_task ''a'' ''600001'')" by (simp add: demo_tasks)
  then show ?thesis
    using status_follows_lifecycle [OF demo_reachable store_step.claim _ demo_claimed] store_step.claim
      demo_claimed by (simp add: demo_task_def new_task_def start_running_def)
qed

text \<open>
  Recovery after a restart leaves no running task: each of them is queued again, without an
  error, and an ordinary one is in the FIFO and can be claimed; every other task is untouched.
\<close>

theorem recovery_requeues_running:
  assumes "reachable_store E s" and "dget (tasks s) tid = Some t"
  shows "\<exists>t'. dget (tasks (snd (recover_running now_of s))) tid = Some t' \<and> status t' \<noteq> RUNNING
    \<and> (if status t = RUNNING then status t' = QUEUED \<and> error_code t' = None
         \<and> (\<not> has_maintenance_metadata t \<longrightarrow> tid \<in> set (fifo (snd (recover_running now_of s)))
              \<and> claimable (snd (recover_running now_of s)) tid)
       else t' = t)"
proof -
  note wf = reachable_store_wf [OF assms(1)]
  have "fifo (fold (\<lambda>t. emit t \<circ> put_task t) ts s0) = fifo s0" for ts s0
    by (induction ts arbitrary: s0) simp_all
  then have "fifo (snd (recover_running now_of s)) = fifo s" by (simp add: recover_running_def Let_def)
  then show ?thesis
    using assms(2) store_wfD(5) [OF wf assms(2)] recover_get [OF wf, of now_of tid]
    by (auto simp: requeued_def claimable_def has_maintenance_metadata_def simp del: map_of_eq_Some_iff)
qed

lemma recovery_requeues_running_witness:
  "claimable (snd (recover_running (\<lambda>_. 9) (snd (next_runnable 6 0 demo_store)))) ''a''"
  using recovery_requeues_running [OF reachable_store.step [OF demo_reachable store_step.claim] demo_claimed, of "\<lambda>_. 9"]
  by (auto simp: start_running_def demo_task_def new_task_def has_maintenance_metadata_def)

text \<open>
  A refresh that is accepted for a finished task keeps its public id and symbol, clears every
  result of the earlier run, and sends the task to the end of the FIFO behind all others, whose
  order stays as it was.
\<close>

theorem refresh_restarts_task:
  assumes "reachable_store E s" and "refresh_task E now clk tid incl s = (Inr u, s')"
    and "get_task tid s = Some t" and "\<not> is_active (status t)"
  shows "status u = QUEUED \<and> task_id u = task_id t \<and> symbol u = symbol t \<and> created_at u = now
    \<and> completed_at u = None \<and> collected_at u = None \<and> error_code u = None \<and> market_snapshot u = None
    \<and> vals u = (\<lambda>_. None) \<and> value_sources u = (\<lambda>_. None) \<and> intraday_series u = empty_intraday_series
    \<and> (\<forall>k. cap_path (captures u k) = None) \<and> cap_path (long_capture u) = None
    \<and> get_task tid s' = Some u \<and> fifo s' = filter (\<lambda>i. i \<noteq> task_id t) (fifo s) @ [task_id t]"
proof -
  note wf = reachable_store_wf [OF assms(1)]
  have id: "task_id t = resolve_task_id tid s" using assms(3) store_wfD(4) [OF wf] by (simp add: get_task_def)
  obtain b s1 where m: "is_maintenance_task clk t s = (b, s1)" by fastforce
  have fr: "tasks s1 = tasks s" "fifo s1 = fifo s" "aliases s1 = aliases s"
    using is_maintenance_taskD [OF m] by simp_all
  have eq: "u = reset_task_for_refresh now incl t"
    "tasks s' = dset (task_id t) u (tasks s)" "fifo s' = filter (\<lambda>i. i \<noteq> task_id t) (fifo s) @ [task_id t]"
    "aliases s' = aliases s"
    using assms(2-4) fr
    by (auto simp: refresh_task_def get_task_def m refresh_locked_def Let_def split: bool.splits if_splits)
  then have "get_task tid s' = Some u" using id by (simp add: get_task_def resolve_task_id_def)
  then show ?thesis
    using eq(3) by (simp add: eq(1) reset_task_for_refresh_def Let_def new_capture_def split: option.split)
qed

definition demo_failed :: store where
  "demo_failed = snd (transition 6 ''a'' FAILED (Some ''STOPPED'') None demo_store)"

lemma demo_failed_reachable: "reachable_store demo_env demo_failed"
  unfolding demo_failed_def by (rule reachable_store.step [OF demo_reachable store_step.transition])

lemma demo_failed_task: "\<exists>t. get_task ''a'' demo_failed = Some t \<and> status t = FAILED \<and> task_id t = ''a''"
  by (simp add: demo_failed_def transition_def demo_tasks get_task_def resolve_task_id_def resolve_from.simps
      demo_task_def new_task_def Let_def)

lemma refresh_restarts_task_witness:
  "\<exists>u s'. refresh_task demo_env 9 0 ''a'' None demo_failed = (Inr u, s') \<and> fifo s' = [''b'', ''a'']"
proof -
  have "\<exists>u s'. refresh_task demo_env 9 0 ''a'' None demo_failed = (Inr u, s')"
    by (simp add: demo_failed_def transition_def demo_tasks refresh_task_def resolve_task_id_def resolve_from.simps
      is_maintenance_task_def has_maintenance_metadata_def active_deployment_lease_def is_active_def is_refreshable_def
      refresh_locked_def pending_count_def bound_of_def demo_task_def new_task_def Let_def)
  moreover have "fifo demo_failed = [''a'', ''b'']"
    by (simp add: demo_failed_def transition_def demo_tasks demo_task_def new_task_def Let_def)
  moreover obtain t where "get_task ''a'' demo_failed = Some t" "\<not> is_active (status t)" "task_id t = ''a''"
    using demo_failed_task by (auto simp: is_active_def)
  ultimately show ?thesis
    using refresh_restarts_task [OF demo_failed_reachable] by fastforce
qed

text \<open>
  A recorded result classifies the task: COMPLETED exactly when every required metric has a
  value and the fund flow source did not fail (or its failure is to be ignored), otherwise PARTIAL
  with an error code; the task is then finished, and a metric has a source iff it has a value.
\<close>

theorem complete_result_classifies:
  assumes "complete_result now tid vs p ocr serrs series ignore s = (Inr u, s')"
  shows "let fund = main_fund_flow (normalized_source_errors serrs);
             complete = (\<forall>k \<in> set required_metrics. vs k \<noteq> None) in
    status u = (if complete \<and> (ignore \<or> fund = None) then COMPLETED else PARTIAL)
    \<and> error_code u = (if status u = COMPLETED then None
        else if complete then fund else Some ''VALUE_RECOGNITION_FAILED'')
    \<and> completed_at u = Some now \<and> vals u = vs \<and> (\<forall>k. value_sources u k = None \<longleftrightarrow> vs k = None)
    \<and> (if include_long_capture u then cap_status (long_capture u) = READY else p = None)"
proof -
  obtain t ser t2 t3 where t2: "t2 = (result_values vs ocr t)\<lparr>intraday_series := ser,
      source_errors := normalized_source_errors serrs\<rparr>"
    and t3: "result_capture now p t2 = Some t3" and u: "u = result_status now ignore t3"
    using assms by (auto simp: complete_result_def Let_def split: option.splits if_splits)
  have vals: "vals t3 = vs" and errs: "source_errors t3 = normalized_source_errors serrs"
    and srcs: "value_sources t3 = value_sources t2"
    and cap: "if include_long_capture t3 then cap_status (long_capture t3) = READY else p = None"
    using t3 by (auto simp: t2 result_capture_def result_values_def split: if_splits option.splits)
  define complete fund where "complete = required_complete vs"
    and "fund = main_fund_flow (normalized_source_errors serrs)"
  have st: "status u = (if complete \<and> (ignore \<or> fund = None) then COMPLETED else PARTIAL)"
    and err: "error_code u = (if status u = COMPLETED then None
        else if complete then fund else Some ''VALUE_RECOGNITION_FAILED'')"
    unfolding u result_status_def Let_def complete_def fund_def by (auto simp: vals errs)
  have rest: "completed_at u = Some now" "vals u = vs" "value_sources u = value_sources t2"
    "include_long_capture u = include_long_capture t3" "long_capture u = long_capture t3"
    by (simp_all add: u result_status_def Let_def vals srcs)
  have src: "\<forall>k. value_sources u k = None \<longleftrightarrow> vs k = None"
    by (simp add: rest(3) t2 result_values_def)
  have c: "complete = (\<forall>k \<in> set required_metrics. vs k \<noteq> None)"
    by (simp add: complete_def required_complete_def list_all_iff)
  show ?thesis
    unfolding Let_def c [symmetric] fund_def [symmetric] rest(4,5)
    using st err rest(1,2) src cap by blast
qed

lemma complete_result_classifies_witness:
  "\<exists>u s'. complete_result 7 ''a'' (\<lambda>_. Some ''1'') None (\<lambda>_. False) None None False
     (snd (next_runnable 6 0 demo_store)) = (Inr u, s') \<and> status u = COMPLETED"
proof -
  let ?s = "snd (next_runnable 6 0 demo_store)"
  have "normalized_intraday_series None \<noteq> None"
    by (simp add: normalized_intraday_series_def intraday_metrics_def normalized_series_def jget_or_def)
  then have "\<exists>u s'. complete_result 7 ''a'' (\<lambda>_. Some ''1'') None (\<lambda>_. False) None None False ?s = (Inr u, s')"
    by (auto simp: complete_result_def demo_claimed start_running_def demo_task_def new_task_def Let_def
        result_values_def result_capture_def)
  then obtain u s' where r: "complete_result 7 ''a'' (\<lambda>_. Some ''1'') None (\<lambda>_. False) None None False ?s = (Inr u, s')"
    by blast
  from complete_result_classifies [OF this] show ?thesis
    using r by (simp add: normalized_source_errors_def)
qed

text \<open>
  \<open>complete_result\<close> of the in-memory store is not atomic: when it raises \<open>ValueError\<close> because
  a requested long capture is missing, or one was given unasked, the stored task already holds
  the new values, while its status and events are unchanged.
\<close>

theorem complete_result_error_keeps_values:
  assumes "reachable_store E s"
    and "complete_result now tid vs p ocr serrs series ignore s = (Inl ValueError, s')"
  shows "\<exists>t t'. dget (tasks s) tid = Some t \<and> dget (tasks s') tid = Some t' \<and> vals t' = vs
    \<and> status t' = status t \<and> status t \<in> {RUNNING, PARTIAL} \<and> events s' = events s
    \<and> (include_long_capture t \<longleftrightarrow> p = None)"
proof -
  have "task_id t = tid" if "dget (tasks s) tid = Some t" for t
    using store_wfD(4) [OF reachable_store_wf [OF assms(1)] that] .
  then show ?thesis
    using assms(2)
    by (auto simp: complete_result_def Let_def result_values_def result_capture_def
        split: option.splits if_splits simp del: map_of_eq_Some_iff)
qed

lemma complete_result_error_keeps_values_witness:
  "\<exists>t'. dget (tasks (snd (complete_result 7 ''a'' (\<lambda>_. Some ''1'') (Some ''p'') (\<lambda>_. False) None None False
     (snd (next_runnable 6 0 demo_store))))) ''a'' = Some t' \<and> vals t' = (\<lambda>_. Some ''1'') \<and> status t' = RUNNING"
proof -
  let ?s = "snd (next_runnable 6 0 demo_store)"
  have "normalized_intraday_series None \<noteq> None"
    by (simp add: normalized_intraday_series_def intraday_metrics_def normalized_series_def jget_or_def)
  then have "\<exists>s'. complete_result 7 ''a'' (\<lambda>_. Some ''1'') (Some ''p'') (\<lambda>_. False) None None False ?s = (Inl ValueError, s')"
    by (auto simp: complete_result_def demo_claimed start_running_def demo_task_def new_task_def Let_def
        result_values_def result_capture_def)
  then obtain s' where r: "complete_result 7 ''a'' (\<lambda>_. Some ''1'') (Some ''p'') (\<lambda>_. False) None None False ?s = (Inl ValueError, s')"
    by blast
  from complete_result_error_keeps_values [OF reachable_store.step [OF demo_reachable store_step.claim] r]
  show ?thesis using r demo_claimed by (auto simp: start_running_def)
qed

text \<open>
  After the clean-up no ordinary task offers a capture past its 24 hours: every READY capture
  still expires later than now. Ordinary tasks keep everything but the capture statuses.
\<close>

theorem cleanup_expires_captures:
  assumes "reachable_store E s" and "dget (tasks s) tid = Some t" and "\<not> has_maintenance_metadata t"
  shows "\<exists>t'. dget (tasks (snd (cleanup E now clk s))) tid = Some t' \<and> status t' = status t \<and> vals t' = vals t
    \<and> (\<forall>c \<in> insert (long_capture t') (captures t' ` set capture_kinds). cap_status c = READY \<longrightarrow>
         (\<forall>e. expires_at c = Some e \<longrightarrow> now < e))"
  using cleanup_get [OF reachable_store_wf [OF assms(1)], of now tid E clk] assms(2,3)
  by (auto simp: cleans_def expire_task_def expire_capture_def capture_expired_def split: option.splits)

lemma cleanup_expires_captures_witness:
  "\<exists>t'. dget (tasks (snd (cleanup demo_env 9 0 demo_store))) ''a'' = Some t' \<and> status t' = QUEUED"
  using cleanup_expires_captures [OF demo_reachable, of "''a''" "demo_task ''a'' ''600001''" 9 0]
  by (auto simp: demo_tasks demo_task_def new_task_def has_maintenance_metadata_def)

end
