(* ===== verification/Wire_Codec.thy ===== *)
theory Wire_Codec
  imports Prelude "HOL-Library.Word" "HOL-Library.Monad_Syntax"
begin

text \<open>
  \<open>level2_service/direct_market.py\<close>, the wire format of the core protocol: the Base64 variant
  with a permuted alphabet, the outer packet (four marker bytes, the length in eight hexadecimal
  digits, a zero byte, the payload), and the replacement of the symbol in a captured packet.

  Python \<open>bytes\<close> are lists of \<open>8 word\<close>. A byte_slice \<open>xs[a:b]\<close> is \<open>byte_slice a b xs\<close>. Python's
  \<open>base64.b64encode\<close> and the strict \<open>base64.b64decode\<close> are written out; so are
  \<open>bytes.replace\<close> and \<open>in\<close>.
\<close>

type_synonym bytes = "8 word list"

datatype wire_error = WireValueError | DirectRequestError string

section \<open>Bytes\<close>

definition ascii_bytes :: "string \<Rightarrow> bytes" where
  "ascii_bytes s = map of_char s"

definition byte_slice :: "nat \<Rightarrow> nat \<Rightarrow> 'a list \<Rightarrow> 'a list" where
  "byte_slice a b xs = take (b - a) (drop a xs)"

fun le_nat :: "bytes \<Rightarrow> nat" where
  "le_nat [] = 0"
| "le_nat (b # bs) = unat b + 256 * le_nat bs"

definition be_nat :: "bytes \<Rightarrow> nat" where
  "be_nat bs = le_nat (rev bs)"

definition le_int :: "bytes \<Rightarrow> int" where
  "le_int bs = (let n = le_nat bs; m = 256 ^ length bs in
     if m \<le> 2 * n then int n - int m else int n)"

fun le_bytes :: "nat \<Rightarrow> nat \<Rightarrow> bytes" where
  "le_bytes 0 n = []"
| "le_bytes (Suc k) n = word_of_nat (n mod 256) # le_bytes k (n div 256)"

lemma unat_byte_less: "unat (b :: 8 word) < 256"
  using unsigned_less [of b] by simp

lemma unat_of_small [simp]: "n < 256 \<Longrightarrow> unat (word_of_nat n :: 8 word) = n"
  by (simp add: unat_word_ariths unsigned_of_nat take_bit_eq_mod)

lemma le_nat_bound: "le_nat bs < 256 ^ length bs"
proof (induction bs)
  case (Cons b bs)
  have "256 * (le_nat bs + 1) \<le> 256 * 256 ^ length bs"
    using Cons.IH by (intro mult_le_mono2) simp
  then show ?case using unat_byte_less [of b] by simp
qed simp

lemma le_bytes_length [simp]: "length (le_bytes k n) = k"
  by (induction k arbitrary: n) simp_all

lemma le_nat_le_bytes: "n < 256 ^ k \<Longrightarrow> le_nat (le_bytes k n) = n"
proof (induction k arbitrary: n)
  case (Suc k)
  then have "n div 256 < 256 ^ k" by (simp add: less_mult_imp_div_less mult.commute)
  then show ?case using Suc.IH [of "n div 256"] by simp
qed simp

lemma byte_slice_length [simp]: "length (byte_slice a b xs) = min (b - a) (length xs - a)"
  by (simp add: byte_slice_def)

lemma byte_slice_append1: "b \<le> length xs \<Longrightarrow> byte_slice a b (xs @ ys) = byte_slice a b xs"
  by (simp add: byte_slice_def)

section \<open>Base64 with an alphabet\<close>

definition core_base64_alphabet :: bytes where
  "core_base64_alphabet = ascii_bytes ''aCcMeTKhxnwzmoPbsG4EvU8gyd02B3q6fIVWXYZjApRrDtuHkiLlN1O9F5S7JQ+/''"

definition core_standard_base64_alphabet :: bytes where
  "core_standard_base64_alphabet =
     ascii_bytes ''ABCDEFGHIJKLMNOPQRSTUVWXYZabcdefghijklmnopqrstuvwxyz0123456789+/''"

definition pad_byte :: "8 word" where
  "pad_byte = 61"

definition valid_alphabet :: "bytes \<Rightarrow> bool" where
  "valid_alphabet alphabet \<longleftrightarrow> length alphabet = 64 \<and> distinct alphabet
     \<and> pad_byte \<notin> set alphabet \<and> list_all (\<lambda>c. c \<le> 127) alphabet"

fun index_of :: "'a \<Rightarrow> 'a list \<Rightarrow> nat option" where
  "index_of x [] = None"
| "index_of x (y # ys) = (if x = y then Some 0 else map_option Suc (index_of x ys))"

definition translate :: "bytes \<Rightarrow> bytes \<Rightarrow> bytes \<Rightarrow> bytes" where
  "translate from to = map (\<lambda>b. case index_of b from of None \<Rightarrow> b | Some i \<Rightarrow> to ! i)"

definition b64_digit :: "nat \<Rightarrow> 8 word" where
  "b64_digit i = core_standard_base64_alphabet ! i"

definition b64_value :: "8 word \<Rightarrow> nat option" where
  "b64_value c = index_of c core_standard_base64_alphabet"

fun b64encode :: "bytes \<Rightarrow> bytes" where
  "b64encode [] = []"
| "b64encode [a] = [b64_digit (unat a div 4), b64_digit (unat a mod 4 * 16), pad_byte, pad_byte]"
| "b64encode [a, b] = [b64_digit (unat a div 4), b64_digit (unat a mod 4 * 16 + unat b div 16),
     b64_digit (unat b mod 16 * 4), pad_byte]"
| "b64encode (a # b # c # rest) =
     [b64_digit (unat a div 4), b64_digit (unat a mod 4 * 16 + unat b div 16),
      b64_digit (unat b mod 16 * 4 + unat c div 64), b64_digit (unat c mod 64)] @ b64encode rest"

fun b64decode :: "bytes \<Rightarrow> bytes option" where
  "b64decode [] = Some []"
| "b64decode (c1 # c2 # c3 # c4 # rest) =
     (if c4 = pad_byte then
        (if rest \<noteq> [] then None
         else do {
           v1 \<leftarrow> b64_value c1;
           v2 \<leftarrow> b64_value c2;
           if c3 = pad_byte then Some [word_of_nat (v1 * 4 + v2 div 16)]
           else do {
             v3 \<leftarrow> b64_value c3;
             Some [word_of_nat (v1 * 4 + v2 div 16), word_of_nat (v2 mod 16 * 16 + v3 div 4)]
           }
         })
      else do {
        v1 \<leftarrow> b64_value c1;
        v2 \<leftarrow> b64_value c2;
        v3 \<leftarrow> b64_value c3;
        v4 \<leftarrow> b64_value c4;
        bs \<leftarrow> b64decode rest;
        Some ([word_of_nat (v1 * 4 + v2 div 16), word_of_nat (v2 mod 16 * 16 + v3 div 4),
               word_of_nat (v3 mod 4 * 64 + v4)] @ bs)
      })"
| "b64decode _ = None"

definition encode_core_base64 :: "bytes \<Rightarrow> bytes \<Rightarrow> wire_error + bytes" where
  "encode_core_base64 alphabet payload =
     (if \<not> valid_alphabet alphabet then Inl WireValueError
      else Inr (translate core_standard_base64_alphabet alphabet (b64encode payload)))"

text \<open>\<open>payload.decode("ascii")\<close> raises outside the \<open>try\<close> block.\<close>

definition decode_core_base64 :: "bytes \<Rightarrow> bytes \<Rightarrow> wire_error + bytes" where
  "decode_core_base64 alphabet payload =
     (if \<not> valid_alphabet alphabet \<or> \<not> list_all (\<lambda>c. c \<le> 127) payload then Inl WireValueError
      else case b64decode (translate alphabet core_standard_base64_alphabet payload) of
        None \<Rightarrow> Inl (DirectRequestError ''DIRECT_PROTOCOL_RESPONSE_INVALID'')
      | Some bs \<Rightarrow> Inr bs)"

lemma standard_alphabet: "valid_alphabet core_standard_base64_alphabet"
  by code_simp

lemma core_alphabet: "valid_alphabet core_base64_alphabet"
  by code_simp

section \<open>The Base64 round trip\<close>

lemma index_of_nth: "distinct xs \<Longrightarrow> i < length xs \<Longrightarrow> index_of (xs ! i) xs = Some i"
proof (induction xs arbitrary: i)
  case (Cons x xs)
  then show ?case by (cases i) auto
qed simp

lemma index_of_Some: "index_of x xs = Some i \<Longrightarrow> i < length xs \<and> xs ! i = x"
  by (induction xs arbitrary: i) (auto split: if_splits)

lemma index_of_None: "index_of x xs = None \<longleftrightarrow> x \<notin> set xs"
  by (induction xs) auto

lemma b64_value_digit [simp]: "i < 64 \<Longrightarrow> b64_value (b64_digit i) = Some i"
  using standard_alphabet by (simp add: b64_value_def b64_digit_def index_of_nth valid_alphabet_def)

lemma b64_digit_not_pad [simp]: "i < 64 \<Longrightarrow> b64_digit i \<noteq> pad_byte"
  using standard_alphabet by (metis b64_digit_def nth_mem valid_alphabet_def)

lemma digit_parts:
  fixes x y z :: nat
  assumes "y < 256" and "z < 256"
  shows "(x mod 4 * 16 + y div 16) div 16 = x mod 4" "(x mod 4 * 16 + y div 16) mod 16 = y div 16"
    "(y mod 16 * 4 + z div 64) div 4 = y mod 16" "(y mod 16 * 4 + z div 64) mod 4 = z div 64"
    "x mod 4 * 16 + y div 16 < 64" "y mod 16 * 4 + z div 64 < 64" "y div 4 < 64"
    "z div 64 * 64 + z mod 64 = z" "y div 16 * 16 + y mod 16 = y" "x div 4 * 4 + x mod 4 = x"
proof -
  have b: "y div 16 < 16" "z div 64 < 4" "y div 4 < 64" "x mod 4 < 4" "y mod 16 < 16"
    using assms by (simp_all add: less_mult_imp_div_less)
  then show "(x mod 4 * 16 + y div 16) div 16 = x mod 4" "(x mod 4 * 16 + y div 16) mod 16 = y div 16"
    "(y mod 16 * 4 + z div 64) div 4 = y mod 16" "(y mod 16 * 4 + z div 64) mod 4 = z div 64"
    by (simp_all add: div_less mod_less)
  show "x mod 4 * 16 + y div 16 < 64" "y mod 16 * 4 + z div 64 < 64" "y div 4 < 64"
    using b by linarith+
qed simp_all

lemma byte_parts:
  fixes a b c :: "8 word"
  shows "(word_of_nat (unat a div 4 * 4 + (unat a mod 4 * 16 + unat b div 16) div 16) :: 8 word) = a"
  "(word_of_nat ((unat a mod 4 * 16 + unat b div 16) mod 16 * 16 + (unat b mod 16 * 4 + unat c div 64) div 4) :: 8 word) = b"
  "(word_of_nat ((unat b mod 16 * 4 + unat c div 64) mod 4 * 64 + unat c mod 64) :: 8 word) = c"
  unfolding digit_parts [OF unat_byte_less unat_byte_less] by simp_all

lemmas digit_bounds = digit_parts(5-7) [OF unat_byte_less unat_byte_less]

lemma b64decode_encode: "b64decode (b64encode bs) = Some bs"
proof (induction bs rule: b64encode.induct)
  case (2 a)
  have "unat a mod 4 * 16 < 64" using digit_parts(5) [of 0 0 "unat a"] by simp
  then show ?case using byte_parts(1) [of a 0] by (simp add: digit_bounds del: of_nat_add of_nat_mult)
next
  case (3 a b)
  have "unat b mod 16 * 4 < 64" using digit_parts(6) [of "unat b" 0] unat_byte_less by simp
  then show ?case
    using byte_parts(1) [of a b] byte_parts(2) [of a b 0] by (simp add: digit_bounds del: of_nat_add of_nat_mult)
next
  case (4 a b c rest)
  then show ?case
    using byte_parts(1) [of a b] byte_parts(2) [of a b c] byte_parts(3) [of b c]
    by (simp add: digit_bounds del: of_nat_add of_nat_mult)
qed simp

lemma b64_digit_mem: "i < 64 \<Longrightarrow> b64_digit i \<in> set core_standard_base64_alphabet"
  using standard_alphabet by (simp add: b64_digit_def valid_alphabet_def)

lemma b64encode_chars: "set (b64encode bs) \<subseteq> insert pad_byte (set core_standard_base64_alphabet)"
proof (induction bs rule: b64encode.induct)
  case (2 a)
  have "unat a mod 4 * 16 < 64" using digit_parts(5) [of 0 0 "unat a"] by simp
  then show ?case by (simp add: b64_digit_mem digit_bounds)
next
  case (3 a b)
  have "unat b mod 16 * 4 < 64" using digit_parts(6) [of "unat b" 0] unat_byte_less by simp
  then show ?case by (simp add: b64_digit_mem digit_bounds)
next
  case (4 a b c rest)
  then show ?case by (simp add: b64_digit_mem digit_bounds)
qed simp

lemma translate_back:
  assumes "valid_alphabet A" and "set t \<subseteq> insert pad_byte (set core_standard_base64_alphabet)"
  shows "translate A core_standard_base64_alphabet (translate core_standard_base64_alphabet A t) = t"
    and "list_all (\<lambda>c. c \<le> 127) (translate core_standard_base64_alphabet A t)"
proof -
  let ?S = core_standard_base64_alphabet
  have va: "length A = 64" "distinct A" "pad_byte \<notin> set A" "\<And>c. c \<in> set A \<Longrightarrow> c \<le> 127"
    and vs: "length ?S = 64" "pad_byte \<notin> set ?S"
    using assms(1) standard_alphabet by (auto simp: valid_alphabet_def list_all_iff)
  let ?f = "\<lambda>b. case index_of b ?S of None \<Rightarrow> b | Some i \<Rightarrow> A ! i"
  let ?g = "\<lambda>b. case index_of b A of None \<Rightarrow> b | Some i \<Rightarrow> ?S ! i"
  have "?g (?f c) = c \<and> ?f c \<le> 127" if "c \<in> set t" for c
  proof (cases "index_of c ?S")
    case None
    then have c: "c = pad_byte" using that assms(2) by (auto simp: index_of_None)
    moreover have "index_of c A = None" using c va(3) by (simp add: index_of_None)
    moreover have "pad_byte \<le> 127" by (simp add: pad_byte_def)
    ultimately show ?thesis using None by simp
  next
    case (Some i)
    then have "i < 64" "?S ! i = c" using index_of_Some vs(1) by fastforce+
    then show ?thesis using Some va index_of_nth [OF va(2), of i] by simp
  qed
  then show "translate A ?S (translate ?S A t) = t" "list_all (\<lambda>c. c \<le> 127) (translate ?S A t)"
    by (auto simp: translate_def list_all_iff map_idI)
qed

lemma core_base64_round:
  assumes "encode_core_base64 A bs = Inr t"
  shows "decode_core_base64 A t = Inr bs"
proof -
  have A: "valid_alphabet A" and t: "t = translate core_standard_base64_alphabet A (b64encode bs)"
    using assms by (auto simp: encode_core_base64_def split: if_splits)
  show ?thesis
    using A translate_back [OF A b64encode_chars [of bs]] by (simp add: decode_core_base64_def t b64decode_encode)
qed

lemma quads_step: "(5 + n) div 3 = Suc (Suc (Suc n) div 3)"
  by presburger

lemma b64encode_length: "length (b64encode bs) = 4 * ((length bs + 2) div 3)"
  by (induction bs rule: b64encode.induct) (simp_all add: quads_step)

lemma b64decode_length: "b64decode t = Some bs \<Longrightarrow> length t = 4 * ((length bs + 2) div 3)"
proof (induction t arbitrary: bs rule: b64decode.induct)
  case (2 c1 c2 c3 c4 rest)
  then show ?case by (auto simp: bind_eq_Some_conv quads_step split: if_splits)
qed simp_all

lemma translate_length [simp]: "length (translate A B t) = length t"
  by (simp add: translate_def)

lemma decode_core_length: "decode_core_base64 A t = Inr bs \<Longrightarrow> length t = 4 * ((length bs + 2) div 3)"
  using b64decode_length by (fastforce simp: decode_core_base64_def split: if_splits option.splits)

section \<open>The outer packet\<close>

definition hex_digit :: "8 word \<Rightarrow> nat option" where
  "hex_digit c = (let n = unat c in
     if 48 \<le> n \<and> n \<le> 57 then Some (n - 48)
     else if 65 \<le> n \<and> n \<le> 70 then Some (n - 55)
     else if 97 \<le> n \<and> n \<le> 102 then Some (n - 87)
     else None)"

fun hex_value :: "nat \<Rightarrow> bytes \<Rightarrow> nat option" where
  "hex_value acc [] = Some acc"
| "hex_value acc (c # cs) = (case hex_digit c of None \<Rightarrow> None | Some d \<Rightarrow> hex_value (16 * acc + d) cs)"

text \<open>\<open>_validate_9528_outer_packet\<close>: every failure is a \<open>ValueError\<close>.\<close>

definition valid_outer_packet :: "bytes \<Rightarrow> bool" where
  "valid_outer_packet packet \<longleftrightarrow>
     14 \<le> length packet \<and> take 4 packet = replicate 4 0xFD
     \<and> (case hex_value 0 (byte_slice 4 12 packet) of None \<Rightarrow> False
        | Some declared \<Rightarrow> packet ! 12 = 0 \<and> declared = length packet - 13 \<and> declared \<le> 16 * 1024 * 1024)"

section \<open>Replacing the symbol\<close>

fun is_prefix :: "bytes \<Rightarrow> bytes \<Rightarrow> bool" where
  "is_prefix [] ys = True"
| "is_prefix (x # xs) [] = False"
| "is_prefix (x # xs) (y # ys) = (x = y \<and> is_prefix xs ys)"

fun contains :: "bytes \<Rightarrow> bytes \<Rightarrow> bool" where
  "contains old [] = (old = [])"
| "contains old (x # xs) = (is_prefix old (x # xs) \<or> contains old xs)"

function replace_nonempty :: "bytes \<Rightarrow> bytes \<Rightarrow> bytes \<Rightarrow> bytes" where
  "replace_nonempty old new [] = []"
| "replace_nonempty old new (x # xs) =
     (if old \<noteq> [] \<and> is_prefix old (x # xs) then new @ replace_nonempty old new (drop (length old) (x # xs))
      else x # replace_nonempty old new xs)"
  by pat_completeness auto
termination by (relation "measure (\<lambda>(old, new, xs). length xs)") auto

definition bytes_replace :: "bytes \<Rightarrow> bytes \<Rightarrow> bytes \<Rightarrow> bytes" where
  "bytes_replace old new xs =
     (if old = [] then new @ concat (map (\<lambda>x. x # new) xs) else replace_nonempty old new xs)"

definition utf16_be :: "bytes \<Rightarrow> bytes" where
  "utf16_be s = concat (map (\<lambda>c. [0, c]) s)"

definition utf16_le :: "bytes \<Rightarrow> bytes" where
  "utf16_le s = concat (map (\<lambda>c. [c, 0]) s)"

fun replace_each :: "(bytes \<times> bytes) list \<Rightarrow> bool \<Rightarrow> bytes \<Rightarrow> bool \<times> bytes" where
  "replace_each [] changed decoded = (changed, decoded)"
| "replace_each ((old, new) # rest) changed decoded =
     (if contains old decoded then replace_each rest True (bytes_replace old new decoded)
      else replace_each rest changed decoded)"

definition body_start :: "bytes \<Rightarrow> nat" where
  "body_start packet = 13 + le_nat (byte_slice 13 15 packet)"

definition symbol_replacements :: "string \<Rightarrow> string \<Rightarrow> (bytes \<times> bytes) list" where
  "symbol_replacements old new = (let o' = ascii_bytes old; n' = ascii_bytes new in
     [(o', n'), (utf16_be o', utf16_be n'), (utf16_le o', utf16_le n')])"

definition ascii_text :: "string \<Rightarrow> bool" where
  "ascii_text s \<longleftrightarrow> list_all (\<lambda>c. (of_char c :: nat) < 128) s"

definition patch_core_packet_symbol :: "bytes \<Rightarrow> bytes \<Rightarrow> string \<Rightarrow> string \<Rightarrow> wire_error + bytes" where
  "patch_core_packet_symbol alphabet packet original replacement =
     (if \<not> valid_outer_packet packet \<or> length packet < 15 then Inl WireValueError
      else
        let start = body_start packet in
        if start < 15 \<or> length packet \<le> start then Inl WireValueError
        else case decode_core_base64 alphabet (drop start packet) of
          Inl e \<Rightarrow> Inl e
        | Inr decoded \<Rightarrow>
            if \<not> ascii_text original \<or> \<not> ascii_text replacement then Inl WireValueError
            else case replace_each (symbol_replacements original replacement) False decoded of
              (False, _) \<Rightarrow> Inl (DirectRequestError ''DIRECT_PROTOCOL_REQUEST_INVALID'')
            | (True, patched) \<Rightarrow>
                (case encode_core_base64 alphabet patched of
                   Inl e \<Rightarrow> Inl e
                 | Inr encoded \<Rightarrow>
                     if length encoded \<noteq> length packet - start
                     then Inl (DirectRequestError ''DIRECT_PROTOCOL_REQUEST_INVALID'')
                     else Inr (take start packet @ encoded)))"

lemma is_prefix_length: "is_prefix xs ys \<Longrightarrow> length xs \<le> length ys"
  by (induction xs ys rule: is_prefix.induct) simp_all

lemma replace_nonempty_length:
  "length old = length new \<Longrightarrow> length (replace_nonempty old new xs) = length xs"
proof (induction old new xs rule: replace_nonempty.induct)
  case (2 old new x xs)
  then show ?case using is_prefix_length [of old "x # xs"] by auto
qed simp

lemma bytes_replace_length:
  "length old = length new \<Longrightarrow> length (bytes_replace old new xs) = length xs"
  by (auto simp: bytes_replace_def replace_nonempty_length intro: concat_map_singleton)

lemma replace_each_length:
  "(\<And>o' n'. (o', n') \<in> set rs \<Longrightarrow> length o' = length n') \<Longrightarrow>
     length (snd (replace_each rs c xs)) = length xs"
  by (induction rs c xs rule: replace_each.induct) (auto simp: bytes_replace_length)

lemma utf16_length [simp]: "length (utf16_be s) = 2 * length s" "length (utf16_le s) = 2 * length s"
  by (induction s) (simp_all add: utf16_be_def utf16_le_def)

lemma symbol_replacements_length:
  "length old = length new \<Longrightarrow> (o', n') \<in> set (symbol_replacements old new) \<Longrightarrow> length o' = length n'"
  by (auto simp: symbol_replacements_def Let_def ascii_bytes_def)

section \<open>What a patch changes\<close>

lemma patch_result:
  assumes "patch_core_packet_symbol A packet old new = Inr p'"
  shows "\<exists>decoded patched. decode_core_base64 A (drop (body_start packet) packet) = Inr decoded
    \<and> replace_each (symbol_replacements old new) False decoded = (True, patched)
    \<and> decode_core_base64 A (drop (body_start packet) p') = Inr patched
    \<and> take (body_start packet) p' = take (body_start packet) packet \<and> length p' = length packet
    \<and> valid_outer_packet packet \<and> 15 \<le> body_start packet \<and> body_start packet < length packet"
proof -
  obtain decoded patched enc where
    d: "decode_core_base64 A (drop (body_start packet) packet) = Inr decoded"
    and r: "replace_each (symbol_replacements old new) False decoded = (True, patched)"
    and e: "encode_core_base64 A patched = Inr enc" "length enc = length packet - body_start packet"
    and p': "p' = take (body_start packet) packet @ enc"
    and b: "15 \<le> body_start packet" "body_start packet < length packet" "valid_outer_packet packet"
    using assms by (auto simp: patch_core_packet_symbol_def Let_def split: if_splits sum.splits prod.splits bool.splits)
  have "length p' = length packet" "take (body_start packet) p' = take (body_start packet) packet"
    "drop (body_start packet) p' = enc"
    using e(2) b by (simp_all add: p')
  then show ?thesis using d r core_base64_round [OF e(1)] b by auto
qed

lemma valid_outer_packet_cong:
  assumes "valid_outer_packet p" and "length p' = length p" and "take 13 p' = take 13 p"
  shows "valid_outer_packet p'"
proof -
  have "take 4 q = take 4 (take 13 q)" "byte_slice 4 12 q = byte_slice 4 12 (take 13 q)"
    "q ! 12 = take 13 q ! 12" for q :: bytes
    by (simp_all add: byte_slice_def drop_take)
  from this [of p] this [of p'] have "take 4 p' = take 4 p" "byte_slice 4 12 p' = byte_slice 4 12 p"
    "p' ! 12 = p ! 12"
    using assms(3) by simp_all
  then show ?thesis using assms(1,2) by (simp only: valid_outer_packet_def)
qed

lemma patch_succeeds:
  assumes "valid_outer_packet packet" "15 \<le> body_start packet" "body_start packet < length packet"
    and "valid_alphabet A"
    and d: "decode_core_base64 A (drop (body_start packet) packet) = Inr decoded"
    and "ascii_text old" "ascii_text new" "length old = length new"
    and r: "fst (replace_each (symbol_replacements old new) False decoded)"
  shows "\<exists>p'. patch_core_packet_symbol A packet old new = Inr p'"
proof -
  obtain patched where p: "replace_each (symbol_replacements old new) False decoded = (True, patched)"
    using r by (metis eq_fst_iff)
  have "length patched = length decoded"
    using replace_each_length [of "symbol_replacements old new" False decoded]
      symbol_replacements_length [OF assms(8)] p by auto
  then have "length (b64encode patched) = length packet - body_start packet"
    using decode_core_length [OF d] by (simp add: b64encode_length)
  then show ?thesis
    using assms p by (simp add: patch_core_packet_symbol_def Let_def encode_core_base64_def)
qed

end
