(* ===== verification/Snappy.thy ===== *)
theory Snappy
  imports Wire_Codec
begin

text \<open>
  \<open>level2_service/direct_market.py\<close>, \<open>decode_core_snappy\<close>: the decoder of raw Snappy blocks, and
  its specification: the elements a block is made of (literals and copies of earlier output), their
  meaning, and their three encodings. The position in the data is kept as the bytes that remain.
  Every failure inside the \<open>try\<close> becomes one \<open>DirectRequestError\<close>, so None is that error.
\<close>

unbundle bit_operations_syntax

definition max_core_output :: nat where
  "max_core_output = 16 * 1024 * 1024"

section \<open>The decoder\<close>

fun snappy_length :: "nat \<Rightarrow> nat \<Rightarrow> bytes \<Rightarrow> (nat \<times> bytes) option" where
  "snappy_length shift acc [] = None"
| "snappy_length shift acc (value # rest) =
     (if shift > 28 then None
      else
        let acc' = acc OR push_bit shift (unat (value AND 0x7F)) in
        if value AND 0x80 = 0 then Some (acc', rest) else snappy_length (shift + 7) acc' rest)"

fun snappy_copy :: "nat \<Rightarrow> nat \<Rightarrow> bytes \<Rightarrow> bytes" where
  "snappy_copy 0 offset output = output"
| "snappy_copy (Suc n) offset output = snappy_copy n offset (output @ [output ! (length output - offset)])"

text \<open>What follows a tag: a literal's length and bytes, or a copy's length and offset.\<close>

definition snappy_literal :: "8 word \<Rightarrow> bytes \<Rightarrow> (nat \<times> bytes) option" where
  "snappy_literal tag rest =
     (let length_code = unat (drop_bit 2 tag) in
      if length_code < 60 then Some (length_code + 1, rest)
      else
        let length_bytes = length_code - 59 in
        if length_bytes > 4 \<or> length_bytes > length rest then None
        else Some (le_nat (take length_bytes rest) + 1, drop length_bytes rest))"

definition snappy_copy_header :: "8 word \<Rightarrow> bytes \<Rightarrow> (nat \<times> nat \<times> bytes) option" where
  "snappy_copy_header tag rest =
     (if tag AND 3 = 1 then
        (case rest of [] \<Rightarrow> None
         | b # rest' \<Rightarrow> Some (4 + unat (drop_bit 2 tag AND 7),
              push_bit 3 (unat (tag AND 0xE0)) OR unat b, rest'))
      else if tag AND 3 = 2 then
        (if length rest < 2 then None
         else Some (1 + unat (drop_bit 2 tag), le_nat (take 2 rest), drop 2 rest))
      else
        (if length rest < 4 then None
         else Some (1 + unat (drop_bit 2 tag), le_nat (take 4 rest), drop 4 rest)))"

lemma snappy_literal_shorter: "snappy_literal tag rest = Some (n, rest') \<Longrightarrow> length rest' \<le> length rest"
  by (auto simp: snappy_literal_def Let_def split: if_splits)

lemma snappy_copy_shorter: "snappy_copy_header tag rest = Some (n, off, rest') \<Longrightarrow> length rest' \<le> length rest"
  by (auto simp: snappy_copy_header_def split: if_splits list.splits)

function snappy_loop :: "nat \<Rightarrow> bytes \<Rightarrow> bytes \<Rightarrow> bytes option" where
  "snappy_loop output_length [] output = Some output"
| "snappy_loop output_length (tag # rest) output =
     (if tag AND 3 = 0 then
        (case snappy_literal tag rest of None \<Rightarrow> None
         | Some (n, rest') \<Rightarrow>
             if n > length rest' \<or> length output + n > output_length then None
             else snappy_loop output_length (drop n rest') (output @ take n rest'))
      else
        (case snappy_copy_header tag rest of None \<Rightarrow> None
         | Some (n, offset, rest') \<Rightarrow>
             if offset = 0 \<or> offset > length output \<or> length output + n > output_length then None
             else snappy_loop output_length rest' (snappy_copy n offset output)))"
  by pat_completeness auto
termination
  by (relation "measure (\<lambda>(_, data, _). length data)")
    (auto dest!: snappy_literal_shorter snappy_copy_shorter)

definition decode_core_snappy :: "bytes \<Rightarrow> wire_error + bytes" where
  "decode_core_snappy payload =
     (case do {
        (output_length, rest) \<leftarrow> snappy_length 0 0 payload;
        if output_length > max_core_output then None
        else do {
          output \<leftarrow> snappy_loop output_length rest [];
          if length output \<noteq> output_length then None else Some output
        }
      } of
        None \<Rightarrow> Inl (DirectRequestError ''DIRECT_PROTOCOL_RESPONSE_INVALID'')
      | Some output \<Rightarrow> Inr output)"

section \<open>The specification\<close>

datatype snappy_element = Literal bytes | Copy nat nat

text \<open>\<open>Copy n off\<close> repeats, \<open>n\<close> bytes long, what begins \<open>off\<close> bytes before the end of the output;
  when \<open>n\<close> is greater than \<open>off\<close> the copied bytes continue periodically.\<close>

fun element_output :: "bytes \<Rightarrow> snappy_element \<Rightarrow> bytes" where
  "element_output out (Literal bs) = out @ bs"
| "element_output out (Copy n off) = out @ map (\<lambda>i. out ! (length out - off + i mod off)) [0..<n]"

fun element_ok :: "bytes \<Rightarrow> snappy_element \<Rightarrow> bool" where
  "element_ok out (Literal bs) \<longleftrightarrow> bs \<noteq> [] \<and> length bs \<le> 256 ^ 4"
| "element_ok out (Copy n off) \<longleftrightarrow> 1 \<le> off \<and> off \<le> length out \<and> off < 256 ^ 4 \<and> 1 \<le> n \<and> n \<le> 64"

fun elements_ok :: "bytes \<Rightarrow> snappy_element list \<Rightarrow> bool" where
  "elements_ok out [] = True"
| "elements_ok out (e # es) = (element_ok out e \<and> elements_ok (element_output out e) es)"

definition elements_output :: "bytes \<Rightarrow> snappy_element list \<Rightarrow> bytes" where
  "elements_output out es = fold (\<lambda>e out. element_output out e) es out"

text \<open>The encodings: a literal with its length in the tag or in one to four bytes after it; a copy with an
  11 bit, a 16 bit or a 32 bit offset. Encoders choose freely among those that fit.\<close>

inductive element_encoding :: "snappy_element \<Rightarrow> bytes \<Rightarrow> bool" where
  short_literal: "1 \<le> length bs \<Longrightarrow> length bs \<le> 60 \<Longrightarrow>
     element_encoding (Literal bs) (word_of_nat ((length bs - 1) * 4) # bs)"
| long_literal: "1 \<le> k \<Longrightarrow> k \<le> 4 \<Longrightarrow> 1 \<le> length bs \<Longrightarrow> length bs \<le> 256 ^ k \<Longrightarrow>
     element_encoding (Literal bs) (word_of_nat ((59 + k) * 4) # le_bytes k (length bs - 1) @ bs)"
| copy11: "4 \<le> n \<Longrightarrow> n \<le> 11 \<Longrightarrow> off < 2048 \<Longrightarrow>
     element_encoding (Copy n off) [word_of_nat (off div 256 * 32 + (n - 4) * 4 + 1), word_of_nat (off mod 256)]"
| copy16: "1 \<le> n \<Longrightarrow> n \<le> 64 \<Longrightarrow> off < 256 ^ 2 \<Longrightarrow>
     element_encoding (Copy n off) (word_of_nat ((n - 1) * 4 + 2) # le_bytes 2 off)"
| copy32: "1 \<le> n \<Longrightarrow> n \<le> 64 \<Longrightarrow> off < 256 ^ 4 \<Longrightarrow>
     element_encoding (Copy n off) (word_of_nat ((n - 1) * 4 + 3) # le_bytes 4 off)"

inductive elements_encoding :: "snappy_element list \<Rightarrow> bytes \<Rightarrow> bool" where
  nil: "elements_encoding [] []"
| cons: "element_encoding e bs \<Longrightarrow> elements_encoding es bs' \<Longrightarrow> elements_encoding (e # es) (bs @ bs')"

fun varint :: "nat \<Rightarrow> nat \<Rightarrow> bytes" where
  "varint 0 n = [word_of_nat (n mod 128)]"
| "varint (Suc k) n = word_of_nat (n mod 128 + 128) # varint k (n div 128)"

section \<open>Copies\<close>

lemma snappy_copy_periodic:
  assumes "1 \<le> off" and "off \<le> length out"
  shows "snappy_copy n off (out @ map (\<lambda>i. out ! (length out - off + i mod off)) [0..<m])
     = out @ map (\<lambda>i. out ! (length out - off + i mod off)) [0..<m + n]"
proof (induction n arbitrary: m)
  case 0
  then show ?case by simp
next
  case (Suc n)
  let ?f = "\<lambda>i. out ! (length out - off + i mod off)"
  let ?o = "out @ map ?f [0..<m]"
  have "?o ! (length ?o - off) = ?f m"
  proof (cases "m < off")
    case True
    then have "length out + m - off < length out" using assms by simp
    then show ?thesis using True assms by (simp add: nth_append)
  next
    case False
    then have "length out + m - off - length out = m - off" "m - off < m" using assms by simp_all
    moreover have "(m - off) mod off = m mod off" using False by (simp add: le_mod_geq)
    ultimately show ?thesis using False assms by (simp add: nth_append)
  qed
  then have "snappy_copy (Suc n) off ?o = snappy_copy n off (out @ map ?f [0..<Suc m])"
    by simp
  then show ?case using Suc.IH [of "Suc m"] by simp
qed

lemma snappy_copy_output:
  "1 \<le> off \<Longrightarrow> off \<le> length out \<Longrightarrow> snappy_copy n off out = element_output out (Copy n off)"
  using snappy_copy_periodic [of off out n 0] by simp

lemma snappy_copy_length [simp]: "length (snappy_copy n off out) = length out + n"
  by (induction n arbitrary: out) simp_all

section \<open>The decoder meets the specification\<close>


lemma push_or_add:
  fixes b h :: nat
  assumes "b < 2 ^ k"
  shows "push_bit k h OR b = h * 2 ^ k + b"
proof -
  have "push_bit k h AND b = 0"
  proof (rule bit_eqI)
    fix n
    have "\<not> bit b n" if "k \<le> n"
      using assms that by (metis bit_take_bit_iff not_less take_bit_nat_eq_self)
    then show "bit (push_bit k h AND b) n = bit 0 n" by (auto simp: bit_simps)
  qed
  then have "push_bit k h + b = push_bit k h OR b" by (rule disjunctive_add_eq_or)
  then show ?thesis by (simp add: push_bit_eq_mult)
qed

lemma tags:
  "list_all (\<lambda>c. list_all (\<lambda>x. let tag = word_of_nat (x * 4 + c) :: 8 word in
      tag AND 3 = word_of_nat c \<and> unat (drop_bit 2 tag) = x) [0..<64]) [0..<4]"
  by code_simp

lemma copy11_tags:
  "list_all (\<lambda>h. list_all (\<lambda>l. let tag = word_of_nat (h * 32 + l * 4 + 1) :: 8 word in
      tag AND 3 = 1 \<and> unat (drop_bit 2 tag AND 7) = l \<and> unat (tag AND 0xE0) = h * 32) [0..<8]) [0..<8]"
  by code_simp

lemma varint_bytes:
  "list_all (\<lambda>v. unat ((word_of_nat v :: 8 word) AND 0x7F) = v \<and> (word_of_nat v :: 8 word) AND 0x80 = 0
     \<and> unat ((word_of_nat (v + 128) :: 8 word) AND 0x7F) = v \<and> (word_of_nat (v + 128) :: 8 word) AND 0x80 \<noteq> 0) [0..<128]"
  by code_simp
lemma tag_parts:
  assumes "x < 64" "c < 4"
  shows "(word_of_nat (x * 4 + c) :: 8 word) AND 3 = word_of_nat c"
    and "unat (drop_bit 2 (word_of_nat (x * 4 + c) :: 8 word)) = x"
  using tags assms by (auto simp: list_all_iff Let_def)

lemma copy11_parts:
  assumes "h < 8" "l < 8"
  shows "(word_of_nat (h * 32 + l * 4 + 1) :: 8 word) AND 3 = 1"
    and "unat (drop_bit 2 (word_of_nat (h * 32 + l * 4 + 1) :: 8 word) AND 7) = l"
    and "unat ((word_of_nat (h * 32 + l * 4 + 1) :: 8 word) AND 0xE0) = h * 32"
  using copy11_tags assms by (auto simp: list_all_iff Let_def)

lemma varint_parts:
  assumes "v < 128"
  shows "unat ((word_of_nat v :: 8 word) AND 0x7F) = v" "(word_of_nat v :: 8 word) AND 0x80 = 0"
    "unat ((word_of_nat (v + 128) :: 8 word) AND 0x7F) = v" "(word_of_nat (v + 128) :: 8 word) AND 0x80 \<noteq> 0"
  using varint_bytes assms by (auto simp: list_all_iff)

text \<open>One encoded element, whatever follows it.\<close>

lemma snappy_loop_literal:
  assumes "snappy_literal tag r = Some (length bs, bs @ rest)" and "tag AND 3 = 0"
    and "length out + length bs \<le> N"
  shows "snappy_loop N (tag # r) out = snappy_loop N rest (out @ bs)"
  using assms by simp

lemma snappy_loop_copy:
  assumes "snappy_copy_header tag r = Some (n, off, rest)" and "tag AND 3 \<noteq> 0"
    and "1 \<le> off" "off \<le> length out" "length out + n \<le> N"
  shows "snappy_loop N (tag # r) out = snappy_loop N rest (element_output out (Copy n off))"
  using assms snappy_copy_output [of off out n] by simp

lemma snappy_loop_element:
  assumes "element_encoding e bs" and "element_ok out e" and "length (element_output out e) \<le> N"
  shows "snappy_loop N (bs @ rest) out = snappy_loop N rest (element_output out e)"
  using assms
proof (induction rule: element_encoding.induct)
  case (short_literal bs)
  let ?tag = "word_of_nat ((length bs - 1) * 4) :: 8 word"
  have "?tag AND 3 = 0" "unat (drop_bit 2 ?tag) = length bs - 1"
    using tag_parts [of "length bs - 1" 0] short_literal(2) by simp_all
  moreover have "length bs - 1 < 60" "length bs - 1 + 1 = length bs" using short_literal(1,2) by simp_all
  then have "snappy_literal ?tag (bs @ rest) = Some (length bs, bs @ rest)"
    using calculation(2) by (simp add: snappy_literal_def Let_def)
  ultimately show ?case
    using snappy_loop_literal [of ?tag "bs @ rest" bs rest out N] short_literal(4) by simp
next
  case (long_literal k bs)
  let ?tag = "word_of_nat ((59 + k) * 4) :: 8 word"
  let ?r = "le_bytes k (length bs - 1) @ bs @ rest"
  have t: "?tag AND 3 = 0" "unat (drop_bit 2 ?tag) = 59 + k"
    using tag_parts [of "59 + k" 0] long_literal(2) by simp_all
  have "length bs - 1 < 256 ^ k" using long_literal(3,4) by simp
  then have "snappy_literal ?tag ?r = Some (length bs, bs @ rest)"
    using t(2) long_literal(1-3) by (simp add: snappy_literal_def le_nat_le_bytes)
  then show ?case
    using snappy_loop_literal [of ?tag ?r bs rest out N] t(1) long_literal(6) by simp
next
  case (copy11 n off)
  let ?tag = "word_of_nat (off div 256 * 32 + (n - 4) * 4 + 1) :: 8 word"
  let ?r = "word_of_nat (off mod 256) # rest :: bytes"
  have h: "off div 256 < 8" "n - 4 < 8" using copy11 by (simp_all add: less_mult_imp_div_less)
  have m: "unat (word_of_nat (off mod 256) :: 8 word) = off mod 256" by simp
  have "push_bit 3 (off div 256 * 32) OR off mod 256 = off"
    using push_or_add [of "off mod 256" 8 "off div 256"] by (simp add: push_bit_eq_mult mult.commute)
  then have hd: "snappy_copy_header ?tag ?r = Some (n, off, rest)"
    using copy11_parts [OF h] m copy11(1) by (simp add: snappy_copy_header_def del: of_nat_add of_nat_mult)
  have "length out + n \<le> N" using copy11(5) by simp
  then show ?case
    using hd snappy_loop_copy [of ?tag ?r n off rest out N] copy11_parts(1) [OF h] copy11(4,5)
    by (simp del: of_nat_add of_nat_mult element_output.simps snappy_loop.simps)
next
  case (copy16 n off)
  let ?tag = "word_of_nat ((n - 1) * 4 + 2) :: 8 word"
  let ?r = "le_bytes 2 off @ rest"
  have t: "?tag AND 3 = 2" "unat (drop_bit 2 ?tag) = n - 1"
    using tag_parts [of "n - 1" 2] copy16(1,2) by simp_all
  then have hd: "snappy_copy_header ?tag ?r = Some (n, off, rest)"
    using copy16(1-3) by (simp add: snappy_copy_header_def le_nat_le_bytes del: of_nat_add of_nat_mult)
  have "length out + n \<le> N" using copy16(5) by simp
  then show ?case
    using hd snappy_loop_copy [of ?tag ?r n off rest out N] t(1) copy16(4,5)
    by (simp del: of_nat_add of_nat_mult element_output.simps snappy_loop.simps)
next
  case (copy32 n off)
  let ?tag = "word_of_nat ((n - 1) * 4 + 3) :: 8 word"
  let ?r = "le_bytes 4 off @ rest"
  have t: "?tag AND 3 = 3" "unat (drop_bit 2 ?tag) = n - 1"
    using tag_parts [of "n - 1" 3] copy32(1,2) by simp_all
  then have hd: "snappy_copy_header ?tag ?r = Some (n, off, rest)"
    using copy32(1-3) by (simp add: snappy_copy_header_def le_nat_le_bytes del: of_nat_add of_nat_mult)
  have "length out + n \<le> N" using copy32(5) by simp
  then show ?case
    using hd snappy_loop_copy [of ?tag ?r n off rest out N] t(1) copy32(4,5)
    by (simp del: of_nat_add of_nat_mult element_output.simps snappy_loop.simps)
qed

lemma elements_output_simps [simp]:
  "elements_output out [] = out" "elements_output out (e # es) = elements_output (element_output out e) es"
  by (simp_all add: elements_output_def)

lemma element_output_grows: "length out \<le> length (element_output out e)"
  by (cases e) simp_all

lemma elements_output_grows: "length out \<le> length (elements_output out es)"
  by (induction es arbitrary: out) (simp, metis element_output_grows elements_output_simps(2) le_trans)

lemma snappy_loop_elements:
  assumes "elements_encoding es bs" and "elements_ok out es" and "length (elements_output out es) \<le> N"
  shows "snappy_loop N bs out = Some (elements_output out es)"
  using assms
proof (induction arbitrary: out rule: elements_encoding.induct)
  case nil
  then show ?case by simp
next
  case (cons e bs es bs')
  have "length (element_output out e) \<le> N"
    using cons.prems(2) elements_output_grows [of "element_output out e" es] by simp
  then show ?case
    using snappy_loop_element [OF cons.hyps(1), of out N bs'] cons.IH [of "element_output out e"] cons.prems by simp
qed

lemma snappy_length_varint:
  assumes "n < 128 ^ Suc k" and "shift + 7 * k \<le> 28" and "acc < 2 ^ shift"
  shows "snappy_length shift acc (varint k n @ rest) = Some (acc + n * 2 ^ shift, rest)"
  using assms
proof (induction k arbitrary: shift acc n)
  case 0
  then have n: "n < 128" by simp
  show ?case
    using varint_parts(1,2) [OF n] push_or_add [OF 0(3), of n] n 0(2) by (simp add: or.commute add.commute)
next
  case (Suc k)
  have v: "n mod 128 < 128" by simp
  have acc: "acc OR push_bit shift (n mod 128) = acc + n mod 128 * 2 ^ shift"
    using push_or_add [OF Suc.prems(3), of "n mod 128"] by (simp add: or.commute add.commute)
  have "n mod 128 * 2 ^ shift \<le> 127 * 2 ^ shift" using v by (intro mult_le_mono1) simp
  then have "acc + n mod 128 * 2 ^ shift < 2 ^ shift + 127 * 2 ^ shift"
    using Suc.prems(3) by linarith
  then have "acc + n mod 128 * 2 ^ shift < 2 ^ (shift + 7)" by (simp add: power_add)
  moreover have "n div 128 < 128 ^ Suc k" using Suc.prems(1) by (simp add: less_mult_imp_div_less mult.commute)
  ultimately have "snappy_length (shift + 7) (acc + n mod 128 * 2 ^ shift) (varint k (n div 128) @ rest)
     = Some (acc + n mod 128 * 2 ^ shift + n div 128 * 2 ^ (shift + 7), rest)"
    using Suc.IH [of "n div 128" "shift + 7" "acc + n mod 128 * 2 ^ shift"] Suc.prems(2) by simp
  moreover have "n mod 128 * 2 ^ shift + n div 128 * 2 ^ (shift + 7) = n * 2 ^ shift"
  proof -
    have "n mod 128 * 2 ^ shift + n div 128 * 2 ^ (shift + 7) = (n div 128 * 128 + n mod 128) * 2 ^ shift"
      unfolding power_add distrib_right by simp
    then show ?thesis by simp
  qed
  ultimately show ?case
    using varint_parts(3,4) [OF v] acc Suc.prems(2) by (simp del: of_nat_add)
qed

lemma decode_snappy_elements:
  assumes "elements_encoding es bs" and "elements_ok [] es" and "length (elements_output [] es) \<le> max_core_output"
    and "length (elements_output [] es) < 128 ^ Suc k" and "k \<le> 4"
  shows "decode_core_snappy (varint k (length (elements_output [] es)) @ bs) = Inr (elements_output [] es)"
  using snappy_length_varint [OF assms(4), of 0 0 bs] assms(3,5) snappy_loop_elements [OF assms(1,2) le_refl]
  by (simp add: decode_core_snappy_def)

lemma decode_snappy_length:
  assumes "decode_core_snappy payload = Inr output"
  shows "\<exists>rest. snappy_length 0 0 payload = Some (length output, rest) \<and> length output \<le> max_core_output"
  using assms by (auto simp: decode_core_snappy_def bind_eq_Some_conv split: option.splits if_splits prod.splits)

end
