(* ===== verification/Gov.thy ===== *)
theory Gov
  imports Snappy
begin

text \<open>
  \<open>level2_service/direct_market.py\<close>, \<open>_CoreGovBitReader\<close> and \<open>decode_core_gov\<close>: the column
  decompressor. Control bits, most significant first, are interleaved with literal bytes; a step of
  the loop emits two literal bytes, or a run of the last byte whose length is chosen by a prefix
  code of control bits. None is the \<open>ValueError\<close> that becomes one \<open>DirectRequestError\<close>.
\<close>

section \<open>The bit reader\<close>

record gov_reader =
  gov_payload :: bytes
  gov_position :: nat
  gov_control :: "8 word"
  gov_bits :: nat

definition gov_reader_init :: "bytes \<Rightarrow> gov_reader option" where
  "gov_reader_init payload =
     (if length payload < 2 then None
      else Some \<lparr>gov_payload = payload, gov_position = 1, gov_control = payload ! 0, gov_bits = 8\<rparr>)"

definition gov_bit :: "gov_reader \<Rightarrow> (bool \<times> gov_reader) option" where
  "gov_bit r =
     (let value = (gov_control r AND 0x80 \<noteq> 0);
          r1 = r\<lparr>gov_control := push_bit 1 (gov_control r), gov_bits := gov_bits r - 1\<rparr>
      in if gov_bits r1 = 0 then
           (if gov_position r1 \<ge> length (gov_payload r1) then None
            else Some (value, r1\<lparr>gov_control := gov_payload r1 ! gov_position r1,
                                 gov_position := gov_position r1 + 1, gov_bits := 8\<rparr>))
         else Some (value, r1))"

definition gov_byte :: "gov_reader \<Rightarrow> (8 word \<times> gov_reader) option" where
  "gov_byte r =
     (if gov_position r \<ge> length (gov_payload r) then None
      else Some (gov_payload r ! gov_position r, r\<lparr>gov_position := gov_position r + 1\<rparr>))"

definition gov_left :: "gov_reader \<Rightarrow> nat" where
  "gov_left r = length (gov_payload r) - gov_position r"

lemma gov_byte_left: "gov_byte r = Some (b, r') \<Longrightarrow> gov_left r' < gov_left r"
  by (auto simp: gov_byte_def gov_left_def split: if_splits)

section \<open>One step\<close>

type_synonym gov_state = "gov_reader \<times> bytes \<times> 8 word"

text \<open>\<open>append_last\<close>.\<close>

definition append_last :: "nat \<Rightarrow> nat \<Rightarrow> 8 word \<Rightarrow> bytes \<Rightarrow> bytes option" where
  "append_last limit count prev out =
     (if length out + count > limit then None else Some (out @ replicate count prev))"

text \<open>The run lengths above the prefix code: one byte below 128, or two bytes; 32767 means that
  another run length follows.\<close>

definition gov_run_length :: "gov_reader \<Rightarrow> (nat \<times> gov_reader) option" where
  "gov_run_length r = do {
     (b, r1) \<leftarrow> gov_byte r;
     if unat b > 127 then do {
       (b', r2) \<leftarrow> gov_byte r1;
       Some (push_bit 8 (unat b - 128) OR unat b', r2) }
     else Some (unat b, r1) }"

lemma gov_run_length_left: "gov_run_length r = Some (n, r') \<Longrightarrow> gov_left r' < gov_left r"
  by (auto simp: gov_run_length_def bind_eq_Some_conv split: if_splits dest!: gov_byte_left)

function gov_run :: "nat \<Rightarrow> 8 word \<Rightarrow> gov_reader \<Rightarrow> bytes \<Rightarrow> (gov_reader \<times> bytes) option" where
  "gov_run limit prev r out =
     (case gov_run_length r of None \<Rightarrow> None
      | Some (run_length, r') \<Rightarrow>
          (case append_last limit run_length prev out of None \<Rightarrow> None
           | Some out' \<Rightarrow> if run_length = 32767 then gov_run limit prev r' out' else Some (r', out')))"
  by pat_completeness auto
termination
  by (relation "measure (\<lambda>(_, _, r, _). gov_left r)") (auto dest!: gov_run_length_left)

declare gov_run.simps [simp del]

definition gov_runs :: "nat \<Rightarrow> gov_state \<Rightarrow> gov_state option" where
  "gov_runs limit st = (case st of (r, out, prev) \<Rightarrow> do {
     out \<leftarrow> append_last limit 1 prev out;
     (b, r) \<leftarrow> gov_bit r;
     if \<not> b then Some (r, out, prev) else do {
     out \<leftarrow> append_last limit 1 prev out;
     (b, r) \<leftarrow> gov_bit r;
     if \<not> b then do {
       (b, r) \<leftarrow> gov_bit r;
       if b then do { out \<leftarrow> append_last limit 1 prev out; Some (r, out, prev) }
       else Some (r, out, prev) }
     else do {
     out \<leftarrow> append_last limit 2 prev out;
     (b, r) \<leftarrow> gov_bit r;
     if \<not> b then Some (r, out, prev) else do {
     out \<leftarrow> append_last limit 1 prev out;
     (b, r) \<leftarrow> gov_bit r;
     if \<not> b then do {
       (b, r) \<leftarrow> gov_bit r;
       if \<not> b then do {
         (b, r) \<leftarrow> gov_bit r;
         if b then do { out \<leftarrow> append_last limit 1 prev out; Some (r, out, prev) }
         else Some (r, out, prev) }
       else do {
         (b, r) \<leftarrow> gov_bit r;
         out \<leftarrow> append_last limit (if \<not> b then 2 else 3) prev out;
         Some (r, out, prev) } }
     else do {
     out \<leftarrow> append_last limit 4 prev out;
     (b, r) \<leftarrow> gov_bit r;
     if \<not> b then do {
       (b, r) \<leftarrow> gov_bit r;
       if b then do { out \<leftarrow> append_last limit 1 prev out; Some (r, out, prev) }
       else Some (r, out, prev) }
     else do {
     (b, r) \<leftarrow> gov_bit r;
     if \<not> b then do { out \<leftarrow> append_last limit 2 prev out; Some (r, out, prev) }
     else do {
     out \<leftarrow> append_last limit 3 prev out;
     (r, out) \<leftarrow> gov_run limit prev r out;
     Some (r, out, prev) } } } } } } })"

definition gov_step :: "nat \<Rightarrow> gov_state \<Rightarrow> gov_state option" where
  "gov_step limit st = (case st of (r, out, prev) \<Rightarrow> do {
     (b, r) \<leftarrow> gov_bit r;
     if \<not> b then
       (if length out + 2 > limit then None
        else do {
          (x, r) \<leftarrow> gov_byte r;
          (y, r) \<leftarrow> gov_byte r;
          Some (r, out @ [x, y], y) })
     else do {
       (b, r) \<leftarrow> gov_bit r;
       if \<not> b then do {
         (prev, r) \<leftarrow> gov_byte r;
         gov_runs limit (r, out @ [prev], prev) }
       else gov_runs limit (r, out, prev) } })"

section \<open>What a step does\<close>

text \<open>The output grows by a run of the last byte and never beyond the limit.\<close>

definition run_of :: "nat \<Rightarrow> 8 word \<Rightarrow> bytes \<Rightarrow> bytes \<Rightarrow> bool" where
  "run_of limit prev out out' \<longleftrightarrow>
     (\<exists>n. out' = out @ replicate n prev) \<and> (out' = out \<or> length out' \<le> limit)"

lemma run_of_refl [simp]: "run_of limit prev out out"
  by (auto simp: run_of_def intro: exI [of _ 0])

lemma run_of_append [intro]:
  "append_last limit n prev out = Some out' \<Longrightarrow> run_of limit prev out out'"
  by (auto simp: append_last_def run_of_def split: if_splits)

lemma run_of_trans [trans]:
  "run_of limit prev a b \<Longrightarrow> run_of limit prev b c \<Longrightarrow> run_of limit prev a c"
  by (auto simp: run_of_def replicate_add [symmetric])

lemma append_lastD: "append_last limit n prev out = Some out' \<Longrightarrow>
    out' = out @ replicate n prev \<and> length out' \<le> limit"
  by (auto simp: append_last_def split: if_splits)

lemma gov_run_run_of:
  "gov_run limit prev r out = Some (r', out') \<Longrightarrow> run_of limit prev out out'"
proof (induction limit prev r out rule: gov_run.induct)
  case (1 limit prev r out)
  obtain n r1 out1 where n: "gov_run_length r = Some (n, r1)" and a: "append_last limit n prev out = Some out1"
    and rest: "if n = 32767 then gov_run limit prev r1 out1 = Some (r', out') else out' = out1"
    using "1.prems" by (subst (asm) gov_run.simps) (auto split: option.splits if_splits)
  then have "run_of limit prev out1 out'"
    using "1.IH" [OF n refl a] by (auto split: if_splits)
  with a show ?case by (meson run_of_append run_of_trans)
qed

text \<open>A computation that only emits \<open>prev\<close>: one rule per way it is put together.\<close>

named_theorems runs_intros \<open>computations that only emit the last byte\<close>

definition runs :: "nat \<Rightarrow> 8 word \<Rightarrow> bytes \<Rightarrow> gov_state option \<Rightarrow> bool" where
  "runs limit prev out f \<longleftrightarrow>
     (\<forall>r' out' prev'. f = Some (r', out', prev') \<longrightarrow> prev' = prev \<and> run_of limit prev out out')"

lemma runs_return [runs_intros]: "runs limit prev out (Some (r, out, prev))"
  by (simp add: runs_def)

lemma runs_append [runs_intros]:
  assumes "\<And>out1. append_last limit n prev out = Some out1 \<Longrightarrow> runs limit prev out1 (f out1)"
  shows "runs limit prev out (append_last limit n prev out \<bind> f)"
proof (cases "append_last limit n prev out")
  case (Some out1)
  then show ?thesis
    using assms [OF Some] run_of_trans [OF run_of_append [OF Some]] by (auto simp: runs_def)
qed (simp add: runs_def)

lemma runs_bit [runs_intros]:
  assumes "\<And>b r'. runs limit prev out (f b r')"
  shows "runs limit prev out (gov_bit r \<bind> (\<lambda>(b, r'). f b r'))"
proof (cases "gov_bit r")
  case (Some br)
  then show ?thesis using assms [of "fst br" "snd br"] by (simp add: case_prod_beta)
qed (simp add: runs_def)

lemma runs_run [runs_intros]:
  "runs limit prev out (gov_run limit prev r out \<bind> (\<lambda>(r', out'). Some (r', out', prev)))"
  by (cases "gov_run limit prev r out") (auto simp: runs_def intro: gov_run_run_of)

lemma runs_if [runs_intros]:
  "(b \<Longrightarrow> runs limit prev out f) \<Longrightarrow> (\<not> b \<Longrightarrow> runs limit prev out g) \<Longrightarrow> runs limit prev out (if b then f else g)"
  by simp

lemma gov_runs_effect:
  assumes "gov_runs limit (r, out, prev) = Some (r', out', prev')"
  shows "prev' = prev \<and> run_of limit prev out out' \<and> length out < length out' \<and> length out' \<le> limit"
proof -
  obtain out1 where a: "append_last limit 1 prev out = Some out1"
    using assms by (auto simp: gov_runs_def bind_eq_Some_conv)
  have "runs limit prev out1 (gov_runs limit (r, out, prev))"
    unfolding gov_runs_def by (simp only: prod.case a Option.bind.simps) (intro runs_intros)
  then have p: "prev' = prev" and run: "run_of limit prev out1 out'"
    using assms by (simp_all add: runs_def)
  have "length out < length out'" "length out' \<le> limit"
    using run append_lastD [OF a] by (auto simp: run_of_def)
  then show ?thesis
    using p run_of_trans [OF run_of_append [OF a] run] by simp
qed

lemma gov_step_effect:
  assumes "gov_step limit (r, out, prev) = Some (r', out', prev')"
  shows "(\<exists>x y. out' = out @ [x, y] \<and> prev' = y)
      \<or> (\<exists>n > 0. out' = out @ replicate n prev \<and> prev' = prev)
      \<or> (\<exists>n > 1. out' = out @ replicate n prev')"
    and "length out < length out' \<and> length out' \<le> limit"
proof -
  obtain b r1 where b: "gov_bit r = Some (b, r1)"
    using assms by (auto simp: gov_step_def bind_eq_Some_conv)
  have "((\<exists>x y. out' = out @ [x, y] \<and> prev' = y)
      \<or> (\<exists>n > 0. out' = out @ replicate n prev \<and> prev' = prev)
      \<or> (\<exists>n > 1. out' = out @ replicate n prev')) \<and> length out < length out' \<and> length out' \<le> limit"
  proof (cases b)
    case False
    then show ?thesis
      using assms b by (auto simp: gov_step_def bind_eq_Some_conv split: if_splits)
  next
    case True
    obtain c r2 where c: "gov_bit r1 = Some (c, r2)"
      using assms b True by (auto simp: gov_step_def bind_eq_Some_conv)
    show ?thesis
    proof (cases c)
      case True
      then have "gov_runs limit (r2, out, prev) = Some (r', out', prev')"
        using assms b \<open>b\<close> c by (simp add: gov_step_def)
      then show ?thesis
        using gov_runs_effect by (fastforce simp: run_of_def)
    next
      case False
      then obtain x r3 where x: "gov_runs limit (r3, out @ [x], x) = Some (r', out', prev')"
        using assms b \<open>b\<close> c by (auto simp: gov_step_def bind_eq_Some_conv)
      from gov_runs_effect [OF this] obtain n where n: "out' = out @ replicate (Suc n) x" "prev' = x" "n > 0"
        "length out' \<le> limit"
        by (auto simp: run_of_def)
      then have "\<exists>n > 1. out' = out @ replicate n prev'" by (intro exI [of _ "Suc n"]) simp
      then show ?thesis using n by simp
    qed
  qed
  then show "(\<exists>x y. out' = out @ [x, y] \<and> prev' = y)
      \<or> (\<exists>n > 0. out' = out @ replicate n prev \<and> prev' = prev)
      \<or> (\<exists>n > 1. out' = out @ replicate n prev')"
    "length out < length out' \<and> length out' \<le> limit" by blast+
qed

section \<open>The loop\<close>

function gov_loop :: "nat \<Rightarrow> gov_state \<Rightarrow> gov_state option" where
  "gov_loop output_length st =
     (if length (fst (snd st)) < output_length
      then (case gov_step (output_length + 1) st of None \<Rightarrow> None
            | Some st' \<Rightarrow> gov_loop output_length st')
      else Some st)"
  by pat_completeness auto
termination
proof (relation "measure (\<lambda>(n, st). n - length (fst (snd st)))", goal_cases)
  case (2 output_length st st')
  then show ?case
    using gov_step_effect(2) [of "output_length + 1" "fst st" "fst (snd st)" "snd (snd st)" "fst st'" "fst (snd st')" "snd (snd st')"]
      diff_less_mono2 [of "length (fst (snd st))" "length (fst (snd st'))" output_length] by simp
qed simp

declare gov_loop.simps [simp del]

definition decode_core_gov :: "bytes \<Rightarrow> int \<Rightarrow> wire_error + bytes" where
  "decode_core_gov payload output_length =
     (if output_length \<le> 0 \<or> output_length > 16 * 1024 * 1024
      then Inl (DirectRequestError ''DIRECT_PROTOCOL_RESPONSE_INVALID'')
      else
        let n = nat output_length in
        case do {
          r \<leftarrow> gov_reader_init payload;
          (b, r) \<leftarrow> gov_byte r;
          (r, out, prev) \<leftarrow> gov_loop n (r, [b], b);
          if length out \<noteq> n \<and> length out \<noteq> n + 1 then None else Some (take n out)
        } of
          None \<Rightarrow> Inl (DirectRequestError ''DIRECT_PROTOCOL_RESPONSE_INVALID'')
        | Some out \<Rightarrow> Inr out)"

lemma gov_loop_length:
  assumes "gov_loop n (r, out, prev) = Some (r', out', prev')" and "length out \<le> n + 1"
  shows "n \<le> length out' \<and> length out' \<le> n + 1"
  using assms
proof (induction n "(r, out, prev)" arbitrary: r out prev rule: gov_loop.induct)
  case (1 n r out prev)
  show ?case
  proof (cases "length out < n")
    case True
    then obtain r1 out1 p1 where st: "gov_step (n + 1) (r, out, prev) = Some (r1, out1, p1)"
      and rest: "gov_loop n (r1, out1, p1) = Some (r', out', prev')"
      using "1.prems"(1) by (subst (asm) gov_loop.simps) (auto split: option.splits)
    then show ?thesis using "1.hyps" [OF _ st] True gov_step_effect(2) [OF st] by simp
  next
    case False
    then show ?thesis using "1.prems" by (subst (asm) gov_loop.simps) auto
  qed
qed

lemma decode_core_gov_length:
  assumes "decode_core_gov payload output_length = Inr out"
  shows "int (length out) = output_length \<and> 0 < output_length \<and> output_length \<le> 16 * 1024 * 1024"
proof -
  obtain r b r1 r2 out2 p2 where "gov_loop (nat output_length) (r1, [b], b) = Some (r2, out2, p2)"
    and "out = take (nat output_length) out2" and pos: "0 < output_length" "output_length \<le> 16 * 1024 * 1024"
    using assms by (auto simp: decode_core_gov_def Let_def bind_eq_Some_conv split: if_splits option.splits)
  then show ?thesis using gov_loop_length [of "nat output_length" r1 "[b]" b r2 out2 p2] by simp
qed

end
