(* ===== verification/Symbols.thy ===== *)
theory Symbols
  imports Clock
begin

text \<open>
  \<open>level2_service/parsed_values.py\<close>: the market code of a six-digit symbol, and the fixed error
  codes that may leave the service. Symbols are ASCII text (the other decimal digits
  of Unicode, which \<open>str.isdigit\<close> accepts too, are not modelled).
\<close>

text \<open>A code point in UTF-8.\<close>

definition utf8_char :: "nat \<Rightarrow> string" where
  "utf8_char c =
     (if c < 0x80 then [char_of c]
      else if c < 0x800 then [char_of (0xC0 + c div 64), char_of (0x80 + c mod 64)]
      else if c < 0x10000 then
        [char_of (0xE0 + c div 4096), char_of (0x80 + c div 64 mod 64), char_of (0x80 + c mod 64)]
      else [char_of (0xF0 + c div 262144), char_of (0x80 + c div 4096 mod 64),
            char_of (0x80 + c div 64 mod 64), char_of (0x80 + c mod 64)])"

definition is_space :: "char \<Rightarrow> bool" where
  "is_space c \<longleftrightarrow> (let n = (of_char c :: nat) in n = 32 \<or> 9 \<le> n \<and> n \<le> 13 \<or> 28 \<le> n \<and> n \<le> 31)"

definition strip :: "string \<Rightarrow> string" where
  "strip s = rev (dropWhile is_space (rev (dropWhile is_space s)))"

definition all_digits :: "string \<Rightarrow> bool" where
  "all_digits s \<longleftrightarrow> s \<noteq> [] \<and> list_all is_digit s"

definition shanghai_prefixes :: "string list" where
  "shanghai_prefixes = [''600'', ''601'', ''603'', ''605'', ''688'', ''689'']"

definition shenzhen_prefixes :: "string list" where
  "shenzhen_prefixes = [''000'', ''001'', ''002'', ''003'', ''300'', ''301'']"

definition beijing_prefixes :: "string list" where
  "beijing_prefixes = [''920'']"

definition shanghai_fund_prefixes :: "string list" where
  "shanghai_fund_prefixes = [''501'', ''502'', ''506'', ''508'', ''510'', ''511'', ''512'', ''513'', ''515'',
     ''516'', ''517'', ''518'', ''519'', ''520'', ''526'', ''530'', ''551'', ''560'', ''561'', ''562'', ''563'',
     ''588'', ''589'']"

definition shenzhen_fund_prefixes :: "string list" where
  "shenzhen_fund_prefixes = [''158'', ''159'', ''160'', ''161'', ''162'', ''163'', ''164'', ''165'', ''166'',
     ''167'', ''168'', ''169'', ''180'']"

definition starts_with :: "string list \<Rightarrow> string \<Rightarrow> bool" where
  "starts_with ps s \<longleftrightarrow> list_ex (\<lambda>p. take (length p) s = p) ps"

text \<open>None is \<open>UnsupportedMarketError\<close>.\<close>

definition market_code_for_symbol :: "string \<Rightarrow> string option" where
  "market_code_for_symbol symbol =
     (let normalized = strip symbol in
      if length normalized \<noteq> 6 \<or> \<not> all_digits normalized then None
      else if starts_with shanghai_prefixes normalized then Some ''17''
      else if starts_with shenzhen_prefixes normalized then Some ''33''
      else if starts_with beijing_prefixes normalized then Some ''151''
      else if starts_with shanghai_fund_prefixes normalized then Some ''20''
      else if starts_with shenzhen_fund_prefixes normalized then Some ''36''
      else None)"

definition code_upper :: "char \<Rightarrow> bool" where
  "code_upper c \<longleftrightarrow> (let n = (of_char c :: nat) in 65 \<le> n \<and> n \<le> 90)"

definition fixed_error_code :: "string \<Rightarrow> bool" where
  "fixed_error_code s \<longleftrightarrow> 3 \<le> length s \<and> length s \<le> 64 \<and> code_upper (hd s)
     \<and> list_all (\<lambda>c. code_upper c \<or> is_digit c \<or> c = CHR ''_'') (tl s)"

definition sanitized_direct_error_code :: "string \<Rightarrow> string \<Rightarrow> string" where
  "sanitized_direct_error_code error_code fallback =
     (let candidate = strip error_code in if fixed_error_code candidate then candidate else fallback)"

lemma sanitized_fixed: "fixed_error_code fallback \<Longrightarrow> fixed_error_code (sanitized_direct_error_code e fallback)"
  by (simp add: sanitized_direct_error_code_def Let_def)

text \<open>The five prefix lists share no prefix, so the order of the tests does not matter.\<close>

lemma market_prefixes_disjoint:
  "distinct (shanghai_prefixes @ shenzhen_prefixes @ beijing_prefixes @ shanghai_fund_prefixes @ shenzhen_fund_prefixes)"
  by code_simp

end
