(* ===== verification/Curve.thy ===== *)
theory Curve
  imports Gov Symbols
begin

text \<open>
  \<open>level2_service/direct_market.py\<close>: the \<open>cv2\<close>/\<open>cv3\<close> response frames (\<open>Core9528CurveDecoder._decode_frame\<close>,
  \<open>_parse_extensions\<close>, \<open>_series\<close>), the packed decimal \<open>_core_hxl_value\<close>, and the texts of numbers and times.

  Decimals are exact rationals: every value built here has at most 17 digits, so Python's 28 digit
  context never rounds them. Text decoded from UTF-16 is a list of code points. All failures
  inside the \<open>try\<close> block of \<open>_decode_frame\<close> become one \<open>DirectRequestError\<close>, which is None here.
\<close>

section \<open>Numbers\<close>

definition core_hxl_value :: "nat \<Rightarrow> rat option" where
  "core_hxl_value raw =
     (let unsigned = raw AND 0xFFFFFFFF in
      if unsigned = 0x80000000 \<or> unsigned = 0xFFFFFFFF then None
      else if unsigned = 0 then Some 0
      else
        let magnitude = of_nat (unsigned AND 0x07FFFFFF) :: rat;
            exponent = drop_bit 28 unsigned AND 0x07;
            scale = 10 ^ exponent;
            value = (if unsigned AND 0x80000000 \<noteq> 0 then magnitude / scale else magnitude * scale)
        in Some (if unsigned AND 0x08000000 \<noteq> 0 then - value else value))"

text \<open>\<open>quantize\<close> rounds half up, away from zero, and raises beyond 28 digits.\<close>

definition rounded_digits :: "nat \<Rightarrow> rat \<Rightarrow> nat" where
  "rounded_digits places value = nat \<lfloor>\<bar>value\<bar> * 10 ^ places + 1 / 2\<rfloor>"

definition fixed_text :: "nat \<Rightarrow> nat \<Rightarrow> string" where
  "fixed_text places n =
     dec_digits (n div 10 ^ places)
     @ (if places = 0 then [] else CHR ''.'' # zero_pad places (dec_digits (n mod 10 ^ places)))"

definition core_format_number :: "rat option \<Rightarrow> nat \<Rightarrow> string \<Rightarrow> bool \<Rightarrow> string option" where
  "core_format_number value places suf show_plus =
     (case value of None \<Rightarrow> None
      | Some v \<Rightarrow>
          (let n = rounded_digits places v in
           if n \<ge> 10 ^ 28 then None
           else Some ((if n = 0 then [] else if v < 0 then ''-'' else if show_plus then ''+'' else [])
                      @ fixed_text places n @ suf)))"

section \<open>Times\<close>

definition leap_year :: "int \<Rightarrow> bool" where
  "leap_year y \<longleftrightarrow> y mod 4 = 0 \<and> (y mod 100 \<noteq> 0 \<or> y mod 400 = 0)"

definition days_in_month :: "int \<Rightarrow> int \<Rightarrow> int" where
  "days_in_month y m =
     (if m = 2 then (if leap_year y then 29 else 28) else if m \<in> {4, 6, 9, 11} then 30 else 31)"

definition valid_date :: "int \<Rightarrow> int \<Rightarrow> int \<Rightarrow> bool" where
  "valid_date y m d \<longleftrightarrow> 1 \<le> m \<and> m \<le> 12 \<and> 1 \<le> d \<and> d \<le> days_in_month y m"

definition two_digits :: "nat \<Rightarrow> string" where
  "two_digits n = zero_pad 2 (dec_digits n)"

definition clock_text :: "nat \<Rightarrow> nat \<Rightarrow> string" where
  "clock_text h m = two_digits h @ '':'' @ two_digits m"

text \<open>\<open>int(text)\<close> of a text \<open>str\<close> made: an optional sign and digits; 0 where it raises.\<close>

definition int_text :: "string \<Rightarrow> int" where
  "int_text s =
     (if s \<noteq> [] \<and> hd s = CHR ''-'' then (if all_digits (tl s) then - int (dec_val (tl s)) else 0)
      else if all_digits s then int (dec_val s) else 0)"

definition in_session :: "nat \<Rightarrow> nat \<Rightarrow> bool" where
  "in_session h m \<longleftrightarrow> (let t = h * 60 + m in 570 \<le> t \<and> t \<le> 690 \<or> 780 \<le> t \<and> t \<le> 900)"

definition packed_time :: "nat \<Rightarrow> string option" where
  "packed_time packed =
     (let year = (drop_bit 20 packed AND 0xFFF) + 1900;
          month = drop_bit 16 packed AND 0x0F;
          day = drop_bit 11 packed AND 0x1F;
          hour = drop_bit 6 packed AND 0x1F;
          minute = packed AND 0x3F
      in if 2000 \<le> year \<and> year \<le> 2199 \<and> in_session hour minute
            \<and> valid_date (int year) (int month) (int day)
         then Some (clock_text hour minute) else None)"

definition core_time :: "string \<Rightarrow> string option" where
  "core_time text =
     (let compact = filter (\<lambda>c. c \<noteq> CHR '':'') text;
          padded = zero_pad 4 compact;
          hour = dec_val (take 2 padded);
          minute = dec_val (drop 2 padded);
          packed = int_text text
      in if all_digits compact \<and> 3 \<le> length compact \<and> length compact \<le> 4 \<and> hour \<le> 23 \<and> minute \<le> 59
         then Some (clock_text hour minute)
         else case (if packed > 0xFFFF then packed_time (nat packed) else None) of
           Some t \<Rightarrow> Some t
         | None \<Rightarrow> if text = [] then None else Some text)"

section \<open>Text in UTF-16\<close>

text \<open>Pairs of bytes, little endian, and the surrogate pairs among them.\<close>

fun utf16_units :: "bytes \<Rightarrow> nat list" where
  "utf16_units (a # b # rest) = (unat a + 256 * unat b) # utf16_units rest"
| "utf16_units _ = []"

fun utf16_decode :: "nat list \<Rightarrow> nat list option" where
  "utf16_decode [] = Some []"
| "utf16_decode (u # us) =
     (if 0xD800 \<le> u \<and> u \<le> 0xDBFF then
        (case us of [] \<Rightarrow> None
         | v # vs \<Rightarrow>
             if 0xDC00 \<le> v \<and> v \<le> 0xDFFF then
               map_option ((#) (0x10000 + (u - 0xD800) * 1024 + (v - 0xDC00))) (utf16_decode vs)
             else None)
      else if 0xDC00 \<le> u \<and> u \<le> 0xDFFF then None
      else map_option ((#) u) (utf16_decode us))"

definition space_point :: "nat \<Rightarrow> bool" where
  "space_point n \<longleftrightarrow> 9 \<le> n \<and> n \<le> 13 \<or> 28 \<le> n \<and> n \<le> 32
     \<or> n \<in> {0x85, 0xA0, 0x1680, 0x2028, 0x2029, 0x202F, 0x205F, 0x3000} \<or> 0x2000 \<le> n \<and> n \<le> 0x200A"

section \<open>The extension dictionary\<close>

datatype ext_value = ExtText "nat list" | ExtDecimal "rat option" | ExtInt int | ExtArray "int list" | ExtNone

text \<open>One entry: its id, its value (none is stored for a double), and the bytes after it.\<close>

definition parse_extension :: "bytes \<Rightarrow> (nat \<times> ext_value option \<times> bytes) option" where
  "parse_extension payload =
     (if length payload < 2 then None
      else
        let type_word = le_nat (take 2 payload);
            rest = drop 2 payload;
            data_id = type_word AND 0x8FFF;
            type_bits = type_word AND 0x7000
        in if type_bits = 0 then
             (if length rest < 2 then None
              else let size = le_nat (take 2 rest) * 2; rest = drop 2 rest in
                if size > length rest then None
                else case utf16_decode (utf16_units (take size rest)) of None \<Rightarrow> None
                  | Some text \<Rightarrow> Some (data_id, Some (ExtText text), drop size rest))
           else if type_bits = 0x1000 then
             (if length rest < 4 then None
              else Some (data_id, Some (ExtDecimal (core_hxl_value (le_nat (take 4 rest)))), drop 4 rest))
           else if type_bits = 0x2000 then
             (if length rest < 4 then None
              else Some (data_id, Some (ExtInt (le_int (take 4 rest))), drop 4 rest))
           else if type_bits = 0x3000 then
             (if length rest < 2 then None
              else Some (data_id, Some (ExtInt (le_int (take 2 rest))), drop 2 rest))
           else if type_bits = 0x5000 then
             (if length rest < 8 then None else Some (data_id, None, drop 8 rest))
           else if type_bits = 0x6000 then
             (if length rest < 2 then None
              else let n = le_int (take 2 rest); rest = drop 2 rest in
                if n < 0 \<or> n > 100 \<or> 4 * nat n > length rest then None
                else Some (data_id, Some (ExtArray (map (\<lambda>i. le_int (byte_slice (4 * i) (4 * i + 4) rest)) [0..<nat n])),
                           drop (4 * nat n) rest))
           else if type_bits = 0x7000 then
             (if length rest < 2 then None
              else let n = le_int (take 2 rest) in
                if n < 6 \<or> nat n > length rest then None
                else Some (data_id, Some ExtNone, drop (nat n) rest))
           else None)"

fun parse_extensions_loop :: "nat \<Rightarrow> bytes \<Rightarrow> (nat, ext_value) dict \<Rightarrow> (nat, ext_value) dict option" where
  "parse_extensions_loop 0 payload result = Some result"
| "parse_extensions_loop (Suc n) payload result =
     (case parse_extension payload of None \<Rightarrow> None
      | Some (data_id, v, rest) \<Rightarrow>
          parse_extensions_loop n rest (case v of None \<Rightarrow> result | Some x \<Rightarrow> dset data_id x result))"

definition parse_extensions :: "bytes \<Rightarrow> (nat, ext_value) dict option" where
  "parse_extensions payload =
     (if length payload < 2 then None
      else let count = le_int (take 2 payload) in
        if count < 0 \<or> count > 1024 then None else parse_extensions_loop (nat count) (drop 2 payload) [])"

section \<open>Frames\<close>

type_synonym cell = "rat option"

record core_curve =
  curve_symbol :: string
  curve_name :: "nat list"
  curve_ext :: "(nat, ext_value) dict"
  curve_data :: "(nat, cell list) dict"

record descriptor =
  field_id :: nat
  field_type :: nat
  field_width :: nat

record curve_header =
  point_count :: nat
  extension_end :: nat
  row_width :: nat
  field_count :: nat

definition lower_byte :: "8 word \<Rightarrow> 8 word" where
  "lower_byte b = (if 65 \<le> b \<and> b \<le> 90 then b + 32 else b)"

definition curve_magic :: "bytes \<Rightarrow> bool" where
  "curve_magic bs \<longleftrightarrow> map lower_byte (take 3 bs) \<in> {ascii_bytes ''cv2'', ascii_bytes ''cv3''}"

text \<open>The mini header after the outer packet: the body it announces, decompressed, and whether the
  header is long enough for a curve. The outer None is an error.\<close>

definition frame_body :: "bytes \<Rightarrow> (bytes \<times> nat) option" where
  "frame_body frame =
     (if \<not> valid_outer_packet frame \<or> length frame < 13 + 28 then None
      else
        let head_length = le_nat (byte_slice 13 15 frame);
            head_type = le_nat (byte_slice 19 23 frame);
            data_length = le_int (byte_slice 25 29 frame);
            text_length = le_int (byte_slice 33 37 frame)
        in if head_length < 24 \<or> 13 + head_length > length frame then None
           else
             let body = drop (13 + head_length) frame in
             if data_length \<noteq> int (length body) \<or> text_length < 0 then None
             else if head_type AND 0xF0000000 \<noteq> 0 then None
             else if head_type AND 0xF000 = 0x1000 then
               (case decode_core_snappy body of Inl _ \<Rightarrow> None | Inr b \<Rightarrow> Some (b, head_length))
             else if head_type AND 0xF000 = 0x3000 then None
             else Some (body, head_length))"

text \<open>The body of a curve, without the four bytes some servers put before it.\<close>

definition curve_body :: "bytes \<Rightarrow> bytes option" where
  "curve_body body =
     (if curve_magic body then Some body
      else if curve_magic (drop 4 body) then Some (drop 4 body)
      else None)"

definition parse_curve_header :: "bytes \<Rightarrow> curve_header option" where
  "parse_curve_header body =
     (if length body < 24 then None
      else
        let points = le_int (byte_slice 6 10 body);
            first_index = le_int (byte_slice 14 18 body);
            ext_end = le_nat (byte_slice 18 20 body);
            width = le_nat (byte_slice 20 22 body);
            fields = le_nat (byte_slice 22 24 body)
        in if \<not> curve_magic body \<or> points \<le> 0 \<or> points > 1441 then None
           else if first_index < 0 \<or> width = 0 \<or> width > 4096 \<or> fields = 0 \<or> fields > 256 then None
           else if 24 + fields * 4 > ext_end \<or> ext_end > length body then None
           else Some \<lparr>point_count = nat points, extension_end = ext_end, row_width = width, field_count = fields\<rparr>)"

fun parse_descriptors :: "nat \<Rightarrow> bytes \<Rightarrow> nat list \<Rightarrow> descriptor list option" where
  "parse_descriptors 0 rest seen_ids = Some []"
| "parse_descriptors (Suc n) rest seen_ids =
     (let type_word = le_nat (take 2 rest);
          width = le_nat (take 1 (drop 2 rest));
          data_id = type_word AND 0x8FFF;
          type_bits = type_word AND 0x7000
      in if data_id \<in> set seen_ids then None
         else if type_bits \<notin> {0x1000, 0x2000, 0x3000} \<or> width \<noteq> (if type_bits = 0x3000 then 2 else 4) then None
         else map_option ((#) \<lparr>field_id = data_id, field_type = type_bits, field_width = width\<rparr>)
                (parse_descriptors n (drop 4 rest) (data_id # seen_ids)))"

definition transpose_rows :: "nat \<Rightarrow> nat \<Rightarrow> bytes \<Rightarrow> bytes" where
  "transpose_rows width points columns =
     map (\<lambda>i. columns ! (i mod width * points + i div width)) [0..<points * width]"

text \<open>\<open>decode_data\<close>: rows sent as they are, or compressed by columns behind two length fields.\<close>

definition decode_rows :: "nat \<Rightarrow> nat \<Rightarrow> bytes \<Rightarrow> bytes option" where
  "decode_rows width points segment =
     (let expected = points * width in
      if length segment = expected then Some segment
      else if length segment < 8 then None
      else
        let compressed_length = le_nat (take 4 segment);
            declared_output = be_nat (byte_slice 4 8 segment);
            compressed = drop 8 segment
        in if declared_output \<noteq> expected
              \<or> compressed_length \<notin> {length compressed, length compressed + 4} then None
           else case decode_core_gov compressed (int expected) of
             Inl _ \<Rightarrow> None
           | Inr columns \<Rightarrow> Some (transpose_rows width points columns))"

definition decode_cell :: "nat \<Rightarrow> bytes \<Rightarrow> cell" where
  "decode_cell type_bits raw =
     (if type_bits = 0x1000 then core_hxl_value (le_nat raw) else Some (of_int (le_int raw)))"

text \<open>The columns in order, each at its offset in the row; None where a row is too short.\<close>

definition decode_column :: "nat \<Rightarrow> nat \<Rightarrow> bytes \<Rightarrow> nat \<Rightarrow> descriptor \<Rightarrow> cell list option" where
  "decode_column width points rows offset d =
     (let raws = map (\<lambda>row. byte_slice (row * width + offset) (row * width + offset + field_width d) rows) [0..<points]
      in if list_all (\<lambda>raw. length raw = field_width d) raws
         then Some (map (decode_cell (field_type d)) raws) else None)"

fun decode_columns :: "nat \<Rightarrow> nat \<Rightarrow> bytes \<Rightarrow> nat \<Rightarrow> descriptor list \<Rightarrow> (nat, cell list) dict option" where
  "decode_columns width points rows offset [] = Some []"
| "decode_columns width points rows offset (d # ds) = do {
     column \<leftarrow> decode_column width points rows offset d;
     rest \<leftarrow> decode_columns width points rows (offset + field_width d) ds;
     Some ((field_id d, column) # rest) }"

text \<open>The identity of the curve: its symbol, name and market must be the requested ones.\<close>

definition curve_identity :: "(nat, ext_value) dict \<Rightarrow> string \<Rightarrow> string \<Rightarrow> nat list option" where
  "curve_identity ext symbol market =
     (case (dget ext 4, dget ext 55) of
        (Some (ExtText raw_symbol), Some (ExtText raw_name)) \<Rightarrow>
          if raw_symbol \<noteq> map of_char symbol \<or> list_all space_point raw_name
             \<or> market_code_for_symbol symbol \<noteq> Some market then None
          else Some raw_name
      | _ \<Rightarrow> None)"

definition decode_curve :: "bytes \<Rightarrow> string \<Rightarrow> string \<Rightarrow> core_curve option" where
  "decode_curve body symbol market = do {
     h \<leftarrow> parse_curve_header body;
     descriptors \<leftarrow> parse_descriptors (field_count h) (drop 24 body) [];
     if sum_list (map field_width descriptors) \<noteq> row_width h then None
     else do {
       ext \<leftarrow> parse_extensions (byte_slice (24 + field_count h * 4) (extension_end h) body);
       name \<leftarrow> curve_identity ext symbol market;
       rows \<leftarrow> decode_rows (row_width h) (point_count h) (drop (extension_end h) body);
       columns \<leftarrow> decode_columns (row_width h) (point_count h) rows 0 descriptors;
       Some \<lparr>curve_symbol = symbol, curve_name = name, curve_ext = ext, curve_data = columns\<rparr>
     }
   }"

text \<open>\<open>_decode_frame\<close>: an error, a frame of another kind, or a curve.\<close>

definition decode_frame :: "bytes \<Rightarrow> string \<Rightarrow> string \<Rightarrow> wire_error + core_curve option" where
  "decode_frame frame symbol market =
     (case frame_body frame of
        None \<Rightarrow> Inl (DirectRequestError ''DIRECT_PROTOCOL_RESPONSE_INVALID'')
      | Some (body, head_length) \<Rightarrow>
          (case curve_body body of
             None \<Rightarrow> Inr None
           | Some body' \<Rightarrow>
               if head_length < 32 then Inl (DirectRequestError ''DIRECT_PROTOCOL_RESPONSE_INVALID'')
               else case decode_curve body' symbol market of
                 None \<Rightarrow> Inl (DirectRequestError ''DIRECT_PROTOCOL_RESPONSE_INVALID'')
               | Some c \<Rightarrow> Inr (Some c)))"

section \<open>Shape of a decoded curve\<close>

lemma parse_descriptors_ids:
  assumes "parse_descriptors n rest seen = Some ds"
  shows "distinct (map field_id ds) \<and> set (map field_id ds) \<inter> set seen = {} \<and> length ds = n
    \<and> (\<forall>d \<in> set ds. 0 < field_width d \<and> field_width d \<le> 4)"
  using assms
proof (induction n rest seen arbitrary: ds rule: parse_descriptors.induct)
  case (2 n rest seen)
  then show ?case by (auto simp: Let_def split: if_splits) fastforce+
qed simp

lemma decode_columns_shape:
  assumes "decode_columns width points rows offset ds = Some cols"
  shows "map fst cols = map field_id ds \<and> (\<forall>c \<in> snd ` set cols. length c = points)"
  using assms
proof (induction ds arbitrary: offset cols)
  case (Cons d ds)
  obtain col rest where "decode_column width points rows offset d = Some col"
    and r: "decode_columns width points rows (offset + field_width d) ds = Some rest"
    and c: "cols = (field_id d, col) # rest"
    using Cons.prems by (auto simp: bind_eq_Some_conv)
  then have "length col = points" by (auto simp: decode_column_def Let_def split: if_splits)
  then show ?case using Cons.IH [OF r] c by simp
qed simp

lemma decode_curve_shape:
  assumes "decode_curve body symbol market = Some c"
  shows "wf_dict (curve_data c)" "curve_data c \<noteq> []"
    "\<exists>n. 1 \<le> n \<and> n \<le> 1441 \<and> (\<forall>k col. dget (curve_data c) k = Some col \<longrightarrow> length col = n)"
    "curve_symbol c = symbol" "market_code_for_symbol symbol = Some market"
    "dget (curve_ext c) 4 = Some (ExtText (map of_char symbol))"
    "\<not> list_all space_point (curve_name c)"
proof -
  obtain h ds ext name rows cols where h: "parse_curve_header body = Some h"
    and ds: "parse_descriptors (field_count h) (drop 24 body) [] = Some ds"
    and id: "curve_identity ext symbol market = Some name"
    and cols: "decode_columns (row_width h) (point_count h) rows 0 ds = Some cols"
    and c: "c = \<lparr>curve_symbol = symbol, curve_name = name, curve_ext = ext, curve_data = cols\<rparr>"
    using assms by (auto simp: decode_curve_def bind_eq_Some_conv split: if_splits)
  have pc: "1 \<le> point_count h" "point_count h \<le> 1441" and fc: "0 < field_count h"
    using h by (auto simp: parse_curve_header_def Let_def split: if_splits)
  note shape = decode_columns_shape [OF cols] and ids = parse_descriptors_ids [OF ds]
  show "wf_dict (curve_data c)" "curve_data c \<noteq> []"
    using shape ids fc by (auto simp: c)
  have "length col = point_count h" if "dget cols k = Some col" for k col
    using shape dget_SomeD [OF that] by force
  then show "\<exists>n. 1 \<le> n \<and> n \<le> 1441 \<and> (\<forall>k col. dget (curve_data c) k = Some col \<longrightarrow> length col = n)"
    using pc by (auto simp: c)
  show "curve_symbol c = symbol" "market_code_for_symbol symbol = Some market"
    "dget (curve_ext c) 4 = Some (ExtText (map of_char symbol))" "\<not> list_all space_point (curve_name c)"
    using id by (auto simp: c curve_identity_def split: option.splits ext_value.splits if_splits)
qed

text \<open>The transposition: the byte of a row and column is where the compressor put that column.\<close>

lemma transpose_rows_length [simp]: "length (transpose_rows width points columns) = points * width"
  by (simp add: transpose_rows_def)

lemma transpose_rows_nth:
  assumes "row < points" and "col < width"
  shows "transpose_rows width points columns ! (row * width + col) = columns ! (col * points + row)"
proof -
  have "row * width + col < Suc row * width" using assms(2) by simp
  also have "\<dots> \<le> points * width" using assms(1) by (intro mult_le_mono1) simp
  finally show ?thesis using assms(2) by (simp add: transpose_rows_def)
qed

lemma decode_rows_length: "decode_rows width points segment = Some rows \<Longrightarrow> length rows = points * width"
  by (auto simp: decode_rows_def Let_def split: if_splits sum.splits)

text \<open>No row is ever too short: the widths of the fields add up to the width of a row.\<close>

lemma decode_column_total:
  assumes "length rows = points * width" and "offset + field_width d \<le> width"
  shows "\<exists>col. decode_column width points rows offset d = Some col"
proof -
  have "row * width + offset + field_width d \<le> points * width" if "row < points" for row
  proof -
    have "row * width + offset + field_width d \<le> Suc row * width" using assms(2) by simp
    also have "\<dots> \<le> points * width" using that by (intro mult_le_mono1) simp
    finally show ?thesis .
  qed
  then have "length (byte_slice (row * width + offset) (row * width + offset + field_width d) rows) = field_width d"
    if "row < points" for row
    using that assms(1) by fastforce
  then show ?thesis by (simp add: decode_column_def Let_def list_all_iff)
qed

lemma decode_columns_total:
  assumes "length rows = points * width" and "offset + sum_list (map field_width ds) \<le> width"
  shows "\<exists>cols. decode_columns width points rows offset ds = Some cols"
  using assms
proof (induction ds arbitrary: offset)
  case (Cons d ds)
  obtain col where "decode_column width points rows offset d = Some col"
    using decode_column_total [of rows points width offset d] Cons.prems by auto
  moreover obtain cols where "decode_columns width points rows (offset + field_width d) ds = Some cols"
    using Cons.IH [of "offset + field_width d"] Cons.prems by auto
  ultimately show ?case by simp
qed simp

section \<open>Series\<close>

text \<open>\<open>str\<close> of a cell: a whole number, or a decimal with the fewest places that write it exactly
  (a packed decimal has at most seven); below 1E-6 with one digit Python writes an exponent.\<close>

definition cell_text :: "cell \<Rightarrow> string" where
  "cell_text c =
     (case c of None \<Rightarrow> []
      | Some v \<Rightarrow>
          (case find (\<lambda>k. of_int \<lfloor>v * 10 ^ k\<rfloor> = v * 10 ^ k) [0..<8] of
             None \<Rightarrow> []
           | Some k \<Rightarrow>
               (let n = nat \<lfloor>\<bar>v\<bar> * 10 ^ k\<rfloor>; sgn = (if v < 0 then ''-'' else []) in
                if k = 7 \<and> n < 10 then sgn @ dec_digits n @ ''E-7'' else sgn @ fixed_text k n)))"

definition last_decimal :: "cell list \<Rightarrow> cell" where
  "last_decimal cells = (case find (\<lambda>c. c \<noteq> None) (rev cells) of None \<Rightarrow> None | Some c \<Rightarrow> c)"

text \<open>\<open>_series\<close>; None is the \<open>ValueError\<close> of \<open>zip(strict=True)\<close> on columns of different length.\<close>

definition core_series ::
  "core_curve \<Rightarrow> nat \<Rightarrow> nat \<Rightarrow> rat \<Rightarrow> string \<Rightarrow> (string option \<times> (string \<times> string option) list) option" where
  "core_series c data_id places divisor unit =
     (let times = (case dget (curve_data c) 1 of None \<Rightarrow> [] | Some ts \<Rightarrow> ts);
          cells = (case dget (curve_data c) data_id of None \<Rightarrow> [] | Some vs \<Rightarrow> vs);
          points = concat (map (\<lambda>(raw_time, raw_value).
             case core_time (cell_text raw_time) of None \<Rightarrow> []
             | Some t \<Rightarrow> [(t, core_format_number (map_option (\<lambda>v. v / divisor) raw_value) places [] False)])
             (zip times cells))
      in if length times \<noteq> length cells then None
         else Some (core_format_number (map_option (\<lambda>v. v / divisor) (last_decimal cells)) places unit False,
                    points))"

end
