(* ===== verification/Wire_Properties.thy ===== *)
theory Wire_Properties
  imports Curve
begin

text \<open>
  What the codecs of the core protocol guarantee: round trips, exact output lengths, and that an
  accepted response frame belongs to the request.
\<close>

text \<open>
  Base64 with a permuted alphabet is lossless: for every valid alphabet, encoding succeeds for all
  payloads and decoding the result gives the payload back.
\<close>

theorem core_base64_roundtrip:
  assumes "valid_alphabet A"
  shows "\<exists>t. encode_core_base64 A payload = Inr t \<and> decode_core_base64 A t = Inr payload"
proof -
  obtain t where t: "encode_core_base64 A payload = Inr t"
    using assms by (simp add: encode_core_base64_def)
  with core_base64_round [OF t] show ?thesis by blast
qed

lemma core_base64_roundtrip_witness:
  "\<exists>t. encode_core_base64 core_base64_alphabet [1, 2, 255] = Inr t
     \<and> decode_core_base64 core_base64_alphabet t = Inr [1, 2, 255]"
  using core_base64_roundtrip [OF core_alphabet] .

text \<open>
  Patching the symbol of a captured packet succeeds whenever the packet is well formed, its body
  decodes, and the old symbol, of the same length as the new, occurs in the body. The result is a valid
  packet of the same length with the same header, and its body decodes to the patched body.
\<close>

theorem patch_replaces_symbol:
  assumes "valid_outer_packet packet" and "15 \<le> body_start packet" and "body_start packet < length packet"
    and "valid_alphabet A" and "decode_core_base64 A (drop (body_start packet) packet) = Inr decoded"
    and "ascii_text old" and "ascii_text new" and "length old = length new"
    and "fst (replace_each (symbol_replacements old new) False decoded)"
  shows "\<exists>packet'. patch_core_packet_symbol A packet old new = Inr packet'
    \<and> valid_outer_packet packet' \<and> length packet' = length packet
    \<and> take (body_start packet) packet' = take (body_start packet) packet
    \<and> decode_core_base64 A (drop (body_start packet) packet')
        = Inr (snd (replace_each (symbol_replacements old new) False decoded))"
proof -
  obtain p' where p': "patch_core_packet_symbol A packet old new = Inr p'"
    using patch_succeeds [OF assms] by blast
  have "take 13 xs = take 13 (take (body_start packet) xs)" for xs :: bytes
    using assms(2) by (simp add: min_def)
  then have "take 13 p' = take 13 packet"
    if "take (body_start packet) p' = take (body_start packet) packet"
    using that by metis
  then show ?thesis
    using patch_result [OF p'] p' assms(5) valid_outer_packet_cong [OF assms(1), of p'] by auto
qed

definition demo_packet :: bytes where
  "demo_packet = [0xFD, 0xFD, 0xFD, 0xFD, 48, 48, 48, 48, 48, 48, 48, 65, 0, 2, 0] @ ascii_bytes ''oWakmMak''"

lemma demo_packet_eq:
  "demo_packet = [253, 253, 253, 253, 48, 48, 48, 48, 48, 48, 48, 65, 0, 2, 0, 111, 87, 97, 107, 109, 77, 97, 107]"
  by (simp add: demo_packet_def ascii_bytes_def)

lemma demo_packet_facts:
  "valid_outer_packet demo_packet" "body_start demo_packet = 15" "length demo_packet = 23"
  "drop 15 demo_packet = ascii_bytes ''oWakmMak''"
proof -
  have "replicate 4 (253 :: 8 word) = [253, 253, 253, 253]" by (simp add: numeral_eq_Suc)
  then show "valid_outer_packet demo_packet" "body_start demo_packet = 15" "length demo_packet = 23"
    "drop 15 demo_packet = ascii_bytes ''oWakmMak''"
    by (simp_all add: demo_packet_eq valid_outer_packet_def byte_slice_def hex_digit_def body_start_def ascii_bytes_def)
qed

lemma demo_body: "decode_core_base64 core_base64_alphabet (ascii_bytes ''oWakmMak'') = Inr (ascii_bytes ''600000'')"
  unfolding decode_core_base64_def using core_alphabet
  by (simp add: ascii_bytes_def translate_def core_base64_alphabet_def core_standard_base64_alphabet_def
      b64_value_def pad_byte_def)

lemma demo_replacement:
  "replace_each (symbol_replacements ''600000'' ''601872'') False (ascii_bytes ''600000'') = (True, ascii_bytes ''601872'')"
  by (simp add: symbol_replacements_def ascii_bytes_def utf16_be_def utf16_le_def bytes_replace_def)

lemma patch_replaces_symbol_witness:
  "\<exists>packet'. patch_core_packet_symbol core_base64_alphabet demo_packet ''600000'' ''601872'' = Inr packet'
     \<and> decode_core_base64 core_base64_alphabet (drop 15 packet') = Inr (ascii_bytes ''601872'')"
  using patch_replaces_symbol [OF demo_packet_facts(1) _ _ core_alphabet, of "ascii_bytes ''600000''" "''600000''" "''601872''"]
  by (auto simp: demo_packet_facts demo_body demo_replacement ascii_text_def)

text \<open>
  C23: The Snappy decoder meets the format: for every sequence of literals and copies, in any of their
  encodings, behind the length as a varint, it returns exactly the output the sequence means, with
  overlapping copies repeating periodically.
\<close>

theorem snappy_decodes_elements:
  assumes "elements_encoding es bs" and "elements_ok [] es" and "length (elements_output [] es) \<le> max_core_output"
    and "length (elements_output [] es) < 128 ^ Suc k" and "k \<le> 4"
  shows "decode_core_snappy (varint k (length (elements_output [] es)) @ bs) = Inr (elements_output [] es)"
  using assms by (rule decode_snappy_elements)

lemma snappy_decodes_elements_witness:
  "decode_core_snappy ([7] @ [4, 65, 66] @ [18, 2, 0]) = Inr [65, 66, 65, 66, 65, 66, 65]"
proof -
  let ?es = "[Literal [65, 66], Copy 5 2]"
  have "elements_encoding ?es ([4, 65, 66] @ [18, 2, 0] @ [])"
    using short_literal [of "[65, 66]"] copy16 [of 5 2]
    by (intro elements_encoding.intros) (simp_all add: numeral_2_eq_2)
  moreover have "elements_output [] ?es = [65, 66, 65, 66, 65, 66, 65]" "elements_ok [] ?es"
    by (simp_all add: upt_rec)
  ultimately show ?thesis
    using snappy_decodes_elements [of ?es "[4, 65, 66] @ [18, 2, 0]" 0] by (simp add: max_core_output_def)
qed

text \<open>
  Whatever the payload, the column decompressor terminates, and what it returns has exactly the
  requested length, which lies between one byte and 16 MiB.
\<close>

theorem gov_output_exact:
  assumes "decode_core_gov payload n = Inr out"
  shows "int (length out) = n \<and> 0 < n \<and> n \<le> 16 * 1024 * 1024"
  using decode_core_gov_length [OF assms] .

lemma gov_output_exact_witness:
  "decode_core_gov [0, 9, 8, 7] 3 = Inr [9, 8, 7] \<and> length [9 :: 8 word, 8, 7] = 3"
proof -
  have "decode_core_gov [0, 9, 8, 7] 3 = Inr [9, 8, 7]"
    by (simp add: decode_core_gov_def gov_reader_init_def gov_byte_def gov_bit_def gov_loop.simps gov_step_def Let_def)
  from gov_output_exact [OF this] this show ?thesis by simp
qed

text \<open>
  A response frame the decoder accepts belongs to the request and is rectangular: it names the
  requested symbol, whose market is the requested one, and a company; its columns have distinct ids
  and all the same number of points, between 1 and 1441.
\<close>

theorem decoded_frame_matches_request:
  assumes "decode_frame frame symbol market = Inr (Some c)"
  shows "curve_symbol c = symbol \<and> market_code_for_symbol symbol = Some market
    \<and> dget (curve_ext c) 4 = Some (ExtText (map of_char symbol)) \<and> \<not> list_all space_point (curve_name c)
    \<and> wf_dict (curve_data c) \<and> curve_data c \<noteq> []
    \<and> (\<exists>n. 1 \<le> n \<and> n \<le> 1441 \<and> (\<forall>k col. dget (curve_data c) k = Some col \<longrightarrow> length col = n))"
proof -
  obtain body where "decode_curve body symbol market = Some c"
    using assms by (auto simp: decode_frame_def split: option.splits if_splits)
  from decode_curve_shape [OF this] show ?thesis by blast
qed

definition demo_curve_body :: bytes where
  "demo_curve_body = [99, 118, 51, 0, 0, 0, 1, 0, 0, 0, 0, 0, 0, 0, 0, 0, 0, 0, 52, 0, 4, 0, 1, 0, 1, 32, 4, 0, 2, 0, 4, 0, 6, 0, 54, 0, 48, 0, 48, 0, 48, 0, 48, 0, 48, 0, 55, 0, 1, 0, 65, 0, 249, 255, 255, 255]"

definition demo_frame :: bytes where
  "demo_frame = [253, 253, 253, 253, 48, 48, 48, 48, 48, 48, 53, 56, 0, 32, 0, 0, 0, 0, 0, 0, 0, 0, 0, 0, 0, 56, 0, 0, 0, 0, 0, 0, 0, 0, 0, 0, 0, 0, 0, 0, 0, 0, 0, 0, 0] @ demo_curve_body"

lemma demo_frame_body: "frame_body demo_frame = Some (demo_curve_body, 32)"
proof -
  have "replicate 4 (253 :: 8 word) = [253, 253, 253, 253]" by (simp add: numeral_eq_Suc)
  then show ?thesis
    by (simp add: frame_body_def demo_frame_def demo_curve_body_def valid_outer_packet_def byte_slice_def
        hex_digit_def le_int_def Let_def)
qed

lemma demo_curve_header: "parse_curve_header demo_curve_body =
    Some \<lparr>point_count = 1, extension_end = 52, row_width = 4, field_count = 1\<rparr>"
  by (simp add: demo_curve_body_def parse_curve_header_def byte_slice_def le_int_def Let_def
      curve_magic_def lower_byte_def ascii_bytes_def)

lemma demo_descriptors: "parse_descriptors 1 (drop 24 demo_curve_body) [] = Some [\<lparr>field_id = 1, field_type = 8192, field_width = 4\<rparr>]"
  by (simp add: demo_curve_body_def)

lemma parse_extensions_loop_2:
  "parse_extensions_loop 2 p r = (case parse_extension p of None \<Rightarrow> None
     | Some (i, v, rest) \<Rightarrow> parse_extensions_loop (Suc 0) rest (case v of None \<Rightarrow> r | Some x \<Rightarrow> dset i x r))"
  by (simp add: numeral_2_eq_2)

lemma demo_extensions: "parse_extensions (byte_slice 28 52 demo_curve_body)
    = Some [(4, ExtText [54, 48, 48, 48, 48, 48]), (55, ExtText [65])]"
  by (simp add: demo_curve_body_def byte_slice_def parse_extensions_def le_int_def Let_def
      parse_extensions_loop_2 parse_extension_def)

lemma demo_curve_decoded:
  "decode_curve demo_curve_body ''600000'' ''17'' = Some \<lparr>curve_symbol = ''600000'', curve_name = [65],
     curve_ext = [(4, ExtText [54, 48, 48, 48, 48, 48]), (55, ExtText [65])], curve_data = [(1, [Some (-7)])]\<rparr>"
proof -
  have "market_code_for_symbol ''600000'' = Some ''17''" by code_simp
  then have id: "curve_identity [(4, ExtText [54, 48, 48, 48, 48, 48]), (55, ExtText [65])] ''600000'' ''17'' = Some [65]"
    by (simp add: curve_identity_def space_point_def)
  have rows: "decode_rows 4 1 (drop 52 demo_curve_body) = Some [249, 255, 255, 255]"
    by (simp add: demo_curve_body_def decode_rows_def)
  have "decode_column 4 1 [249, 255, 255, 255] 0 \<lparr>field_id = 1, field_type = 8192, field_width = 4\<rparr> = Some [Some (-7)]"
    by (simp add: decode_column_def byte_slice_def decode_cell_def le_int_def)
  then show ?thesis
    by (simp add: decode_curve_def demo_curve_header demo_descriptors [simplified] demo_extensions id
        rows [simplified])
qed

lemma decoded_frame_matches_request_witness:
  "\<exists>c. decode_frame demo_frame ''600000'' ''17'' = Inr (Some c) \<and> curve_symbol c = ''600000''"
proof -
  have "curve_body demo_curve_body = Some demo_curve_body"
    by (simp add: curve_body_def curve_magic_def demo_curve_body_def lower_byte_def ascii_bytes_def)
  then have "\<exists>c. decode_frame demo_frame ''600000'' ''17'' = Inr (Some c)"
    by (simp add: decode_frame_def demo_frame_body demo_curve_decoded)
  with decoded_frame_matches_request show ?thesis by blast
qed

lemma dec_digits_bound: "n < 10 ^ length (dec_digits n)"
proof (induction n rule: dec_digits.induct)
  case (1 n)
  then show ?case
    by (cases "n < 10") (auto simp: dec_digits.simps [of n])
qed

lemma dec_digits_all: "all_digits (dec_digits n)"
  using dec_digits_digits [of _ n] by (auto simp: all_digits_def list_all_iff dec_digits.simps [of n])

lemma packed_fields:
  fixes y m d h mi :: nat
  assumes "y < 4096" "m < 16" "d < 32" "h < 32" "mi < 64"
  defines "p \<equiv> y * 2 ^ 20 + m * 2 ^ 16 + d * 2 ^ 11 + h * 2 ^ 6 + mi"
  shows "drop_bit 20 p AND 0xFFF = y" "drop_bit 16 p AND 0x0F = m" "drop_bit 11 p AND 0x1F = d"
    "drop_bit 6 p AND 0x1F = h" "p AND 0x3F = mi"
proof -
  have low: "drop_bit k (a * 2 ^ k + b) = a" if "b < 2 ^ k" for a b k :: nat
    using that by (simp add: drop_bit_eq_div)
  have mask: "x AND 0xFFF = x mod 4096" "x AND 0x0F = x mod 16" "x AND 0x1F = x mod 32" "x AND 0x3F = x mod 64" for x :: nat
    using take_bit_eq_mask [of 12 x] take_bit_eq_mask [of 4 x] take_bit_eq_mask [of 5 x] take_bit_eq_mask [of 6 x]
    by (simp_all add: take_bit_eq_mod mask_eq_exp_minus_1)
  have b6: "mi < 2 ^ 6" and b11: "h * 2 ^ 6 + mi < 2 ^ 11" and b16: "d * 2 ^ 11 + h * 2 ^ 6 + mi < 2 ^ 16"
    and b20: "m * 2 ^ 16 + d * 2 ^ 11 + h * 2 ^ 6 + mi < 2 ^ 20"
    using assms by simp_all
  let ?q16 = "y * 16 + m"
  let ?q11 = "?q16 * 32 + d"
  let ?q6 = "?q11 * 32 + h"
  have p6: "p = ?q6 * 64 + mi" by (simp add: p_def)
  have "p = y * 2 ^ 20 + (m * 2 ^ 16 + d * 2 ^ 11 + h * 2 ^ 6 + mi)"
    "p = ?q16 * 2 ^ 16 + (d * 2 ^ 11 + h * 2 ^ 6 + mi)"
    "p = ?q11 * 2 ^ 11 + (h * 2 ^ 6 + mi)" "p = ?q6 * 2 ^ 6 + mi"
    by (simp_all add: p_def)
  then have q: "drop_bit 20 p = y" "drop_bit 16 p = ?q16" "drop_bit 11 p = ?q11" "drop_bit 6 p = ?q6"
    using low b6 b11 b16 b20 by (metis add.assoc)+
  have high: "(a * n + b) mod n = b" if "b < n" for a b n :: nat
    using that by simp
  show "drop_bit 20 p AND 0xFFF = y" "drop_bit 16 p AND 0x0F = m" unfolding mask q using assms(1,2) by simp_all
  show "drop_bit 11 p AND 0x1F = d" unfolding mask q using assms(3) by (rule high)
  show "drop_bit 6 p AND 0x1F = h" unfolding mask q using assms(4) by (rule high)
  show "p AND 0x3F = mi" unfolding mask by (subst p6) (rule high [OF assms(5)])
qed

definition pack_time :: "nat \<Rightarrow> nat \<Rightarrow> nat \<Rightarrow> nat \<Rightarrow> nat \<Rightarrow> nat" where
  "pack_time y m d h mi = (y - 1900) * 2 ^ 20 + m * 2 ^ 16 + d * 2 ^ 11 + h * 2 ^ 6 + mi"

text \<open>
  A packed time stamp, as the servers send it in a number, is read back as its hour and minute,
  for every calendar date from 2000 to 2199 and every minute of the trading sessions.
\<close>

theorem core_time_reads_packed:
  assumes "2000 \<le> y" and "y \<le> 2199" and "valid_date (int y) (int m) (int d)"
    and "h < 24" and "mi < 60" and "in_session h mi"
  shows "core_time (str_of_int (int (pack_time y m d h mi))) = Some (clock_text h mi)"
proof -
  let ?p = "pack_time y m d h mi"
  have b: "y - 1900 < 4096" "m < 16" "d < 32" "h < 32" "mi < 64"
    using assms by (auto simp: valid_date_def days_in_month_def split: if_splits)
  have "drop_bit 20 ?p AND 0xFFF = y - 1900" "drop_bit 16 ?p AND 0x0F = m" "drop_bit 11 ?p AND 0x1F = d"
    "drop_bit 6 ?p AND 0x1F = h" "?p AND 0x3F = mi"
    unfolding pack_time_def by (rule packed_fields [OF b])+
  then have packed: "packed_time ?p = Some (clock_text h mi)"
    using assms by (simp add: packed_time_def Let_def)
  have "100 * 2 ^ 20 \<le> (y - 1900) * 2 ^ 20" using assms(1) by (intro mult_le_mono1) simp
  then have big: "104857600 \<le> ?p" by (simp add: pack_time_def)
  let ?t = "dec_digits ?p"
  have t: "str_of_int (int ?p) = ?t" by (simp add: str_of_int_def)
  have compact: "filter (\<lambda>c. c \<noteq> CHR '':'') ?t = ?t"
    using dec_digits_digits [of "CHR '':''" ?p] by (auto simp: filter_id_conv is_digit_def)
  have "\<not> length ?t \<le> 4"
  proof
    assume "length ?t \<le> 4"
    then have "(10 :: nat) ^ length ?t \<le> 10 ^ 4" by (intro power_increasing) simp_all
    then show False using dec_digits_bound [of ?p] big by simp
  qed
  moreover have "int_text ?t = int ?p"
  proof -
    have "hd ?t \<noteq> CHR ''-''"
      using dec_digits_digits [of "CHR ''-''" ?p] dec_digits_all [of ?p]
      by (auto simp: is_digit_def all_digits_def dest!: hd_in_set)
    then show ?thesis using dec_digits_all [of ?p] by (simp add: int_text_def)
  qed
  ultimately show ?thesis
    using big packed by (simp add: t core_time_def Let_def compact)
qed

lemma core_time_reads_packed_witness:
  "core_time (str_of_int (int (pack_time 2025 6 30 14 5))) = Some (clock_text 14 5)"
  by (rule core_time_reads_packed)
    (simp_all add: valid_date_def days_in_month_def in_session_def)

text \<open>
  A formatted number shows the value rounded to the given places: the digits it prints, read as a
  number, differ from the absolute value by at most half a unit of the last place, and the sign is
  printed exactly when the rounded value is not zero.
\<close>

theorem formatted_number_rounds:
  assumes "core_format_number (Some v) places suf show_plus = Some t"
  shows "\<exists>n. t = (if n = 0 then [] else if v < 0 then ''-'' else if show_plus then ''+'' else [])
      @ fixed_text places n @ suf \<and> \<bar>\<bar>v\<bar> - of_nat n / 10 ^ places\<bar> \<le> 1 / (2 * 10 ^ places)"
proof -
  let ?n = "rounded_digits places v"
  let ?x = "\<bar>v\<bar> * 10 ^ places"
  have n: "of_nat ?n = (of_int \<lfloor>?x + 1 / 2\<rfloor> :: rat)"
  proof -
    have "0 \<le> \<lfloor>?x + 1 / 2\<rfloor>" by simp
    then show ?thesis by (simp add: rounded_digits_def)
  qed
  have "\<bar>?x - of_nat ?n\<bar> \<le> 1 / 2"
    unfolding n using of_int_floor_le [of "?x + 1 / 2"] floor_correct [of "?x + 1 / 2"] by linarith
  then have "\<bar>?x - of_nat ?n\<bar> / 10 ^ places \<le> 1 / 2 / 10 ^ places"
    by (intro divide_right_mono) simp_all
  moreover have "(?x - of_nat ?n) / 10 ^ places = \<bar>v\<bar> - of_nat ?n / 10 ^ places"
    by (simp add: diff_divide_distrib)
  then have "\<bar>?x - of_nat ?n\<bar> / 10 ^ places = \<bar>\<bar>v\<bar> - of_nat ?n / 10 ^ places\<bar>"
    using abs_divide [of "?x - of_nat ?n" "10 ^ places"] by simp
  ultimately have "\<bar>\<bar>v\<bar> - of_nat ?n / 10 ^ places\<bar> \<le> 1 / (2 * 10 ^ places)" by simp
  moreover have "t = (if ?n = 0 then [] else if v < 0 then ''-'' else if show_plus then ''+'' else [])
      @ fixed_text places ?n @ suf"
    using assms by (auto simp: core_format_number_def Let_def split: if_splits)
  ultimately show ?thesis by blast
qed

lemma formatted_number_rounds_witness:
  "core_format_number (Some (5 / 2)) 0 [] True = Some ''+3'' \<and>
   (\<exists>n. ''3'' = fixed_text 0 n \<and> \<bar>5 / 2 - of_nat n\<bar> \<le> (1 :: rat) / 2)"
proof -
  have "\<lfloor>(5 / 2 :: rat) + 1 / 2\<rfloor> = 3" by simp
  moreover have "digit_char 3 = CHR ''3''" by code_simp
  ultimately have "core_format_number (Some (5 / 2)) 0 [] True = Some ''+3''"
    by (simp add: core_format_number_def rounded_digits_def fixed_text_def dec_digits.simps)
  from formatted_number_rounds [OF this] this show ?thesis
    by (auto simp: fixed_text_def dec_digits.simps [of 0] split: if_splits)
qed

end
