(* ===== verification/Calendar.thy ===== *)
theory Calendar
  imports Models Symbols "HOL-Library.Monad_Syntax"
begin

text \<open>
  Trading days and market phases: \<open>level2_service/workday_calendar.py\<close>
  (\<open>ChinaLegalWorkdayCalendar\<close>) and, of \<open>level2_service/market_data.py\<close>, \<open>LocalTradingCalendar\<close>
  with its reload on a changed file signature, \<open>MarketPhaseResolver\<close>, and the two window tests.
\<close>

section \<open>ISO dates\<close>

definition leap_year_of :: "int \<Rightarrow> bool" where
  "leap_year_of y \<longleftrightarrow> y mod 4 = 0 \<and> (y mod 100 \<noteq> 0 \<or> y mod 400 = 0)"

definition month_days :: "int \<Rightarrow> int \<Rightarrow> int" where
  "month_days y m =
     (if m = 2 then (if leap_year_of y then 29 else 28) else if m \<in> {4, 6, 9, 11} then 30 else 31)"

text \<open>\<open>date.fromisoformat\<close> on \<open>YYYY-MM-DD\<close> and \<open>YYYYMMDD\<close> (week dates are not modelled); None is
  its \<open>ValueError\<close>.\<close>

definition date_of_digits :: "string \<Rightarrow> date option" where
  "date_of_digits s =
     (if length s \<noteq> 8 \<or> \<not> all_digits s then None
      else
        let y = int (dec_val (take 4 s)); m = int (dec_val (take 2 (drop 4 s))); d = int (dec_val (drop 6 s)) in
        if 1 \<le> y \<and> 1 \<le> m \<and> m \<le> 12 \<and> 1 \<le> d \<and> d \<le> month_days y m then Some (days_from_civil y m d) else None)"

definition iso_date :: "string \<Rightarrow> date option" where
  "iso_date s =
     (if length s = 10 \<and> s ! 4 = CHR ''-'' \<and> s ! 7 = CHR ''-''
      then date_of_digits (take 4 s @ take 2 (drop 5 s) @ drop 8 s)
      else date_of_digits s)"

text \<open>\<open>date.fromisoformat(str(value))\<close> of a JSON value.\<close>

definition date_of_json :: "json \<Rightarrow> date option" where
  "date_of_json j =
     (case j of JStr s \<Rightarrow> iso_date s
      | JNum r \<Rightarrow> if of_int \<lfloor>r\<rfloor> = r then iso_date (str_of_int \<lfloor>r\<rfloor>) else None
      | _ \<Rightarrow> None)"

fun all_some :: "'a option list \<Rightarrow> 'a list option" where
  "all_some [] = Some []"
| "all_some (x # xs) = (case x of None \<Rightarrow> None | Some v \<Rightarrow> map_option ((#) v) (all_some xs))"

lemma all_some_set: "all_some xs = Some vs \<Longrightarrow> set vs = {v. Some v \<in> set xs}"
  by (induction xs arbitrary: vs) (auto split: option.splits)

section \<open>Statutory workdays\<close>

record workday_calendar =
  coverage_start :: date
  coverage_end :: date
  holidays :: "date set"
  adjusted_workdays :: "date set"

definition dates_of_json :: "json option \<Rightarrow> date set option" where
  "dates_of_json j = Option.bind (Option.bind j jiter) (\<lambda>xs. map_option set (all_some (map date_of_json xs)))"

text \<open>\<open>from_file\<close> of the parsed file; None is any of its exceptions.\<close>

definition calendar_of_json :: "json \<Rightarrow> workday_calendar option" where
  "calendar_of_json payload =
     (if jget payload ''version'' \<notin> {Some (JNum 1), Some (JFloat 1), Some (JBool True)} then None
      else do {
        start \<leftarrow> Option.bind (jget payload ''coverage_start'') date_of_json;
        finish \<leftarrow> Option.bind (jget payload ''coverage_end'') date_of_json;
        if finish < start then None
        else do {
          hs \<leftarrow> dates_of_json (jget payload ''holidays'');
          ws \<leftarrow> dates_of_json (jget payload ''adjusted_workdays'');
          if hs \<inter> ws \<noteq> {} then None
          else Some \<lparr>coverage_start = start, coverage_end = finish, holidays = hs, adjusted_workdays = ws\<rparr>
        }
      })"

definition is_workday :: "workday_calendar \<Rightarrow> date \<Rightarrow> bool option" where
  "is_workday cal d =
     (if d < coverage_start cal \<or> d > coverage_end cal then None
      else if d \<in> holidays cal then Some False
      else if d \<in> adjusted_workdays cal then Some True
      else Some (weekday d < 5))"

text \<open>The loop of \<open>add_workdays\<close> ends because it never passes the end of the coverage.\<close>

function add_workdays_loop :: "workday_calendar \<Rightarrow> date \<Rightarrow> nat \<Rightarrow> date option" where
  "add_workdays_loop cal current remaining =
     (if remaining = 0 then Some current
      else case is_workday cal (current + 1) of
        None \<Rightarrow> None
      | Some working \<Rightarrow> add_workdays_loop cal (current + 1) (if working then remaining - 1 else remaining))"
  by auto
termination
  by (relation "measure (\<lambda>(cal, current, _). nat (coverage_end cal - current))")
    (auto simp: is_workday_def split: if_splits)

declare add_workdays_loop.simps [simp del]

text \<open>A negative count is a \<open>ValueError\<close>, the outer None.\<close>

definition add_workdays :: "workday_calendar \<Rightarrow> date \<Rightarrow> int \<Rightarrow> date option option" where
  "add_workdays cal start count =
     (if count < 0 then None
      else if is_workday cal start = None then Some None
      else Some (add_workdays_loop cal start (nat count)))"

definition expiry_date :: "workday_calendar \<Rightarrow> time option \<Rightarrow> date option" where
  "expiry_date cal updated =
     (case updated of None \<Rightarrow> None
      | Some t \<Rightarrow> (case add_workdays cal (shanghai_date t) 7 of None \<Rightarrow> None | Some d \<Rightarrow> d))"

text \<open>The workdays after one day up to another.\<close>

definition workdays_between :: "workday_calendar \<Rightarrow> date \<Rightarrow> date \<Rightarrow> date set" where
  "workdays_between cal s d = {x. s < x \<and> x \<le> d \<and> is_workday cal x = Some True}"

lemma workdays_between_finite [simp]: "finite (workdays_between cal s d)"
  by (rule finite_subset [of _ "{s..d}"]) (auto simp: workdays_between_def)

lemma workdays_between_self [simp]: "workdays_between cal s s = {}"
  by (auto simp: workdays_between_def)

lemma workdays_between_step:
  assumes "s < d"
  shows "workdays_between cal s d =
    (if is_workday cal (s + 1) = Some True then insert (s + 1) (workdays_between cal (s + 1) d)
     else workdays_between cal (s + 1) d)"
proof -
  have "x \<in> workdays_between cal s d \<longleftrightarrow>
      x = s + 1 \<and> is_workday cal (s + 1) = Some True \<or> x \<in> workdays_between cal (s + 1) d" for x
    using assms by (cases "x = s + 1") (auto simp: workdays_between_def)
  then show ?thesis by (simp add: set_eq_iff)
qed

lemma card_workdays_step:
  assumes "s < d"
  shows "card (workdays_between cal s d) =
    (if is_workday cal (s + 1) = Some True then Suc (card (workdays_between cal (s + 1) d))
     else card (workdays_between cal (s + 1) d))"
proof -
  have "s + 1 \<notin> workdays_between cal (s + 1) d" by (simp add: workdays_between_def)
  then show ?thesis using workdays_between_step [OF assms, of cal] by simp
qed

lemma add_workdays_loop_counts:
  assumes "add_workdays_loop cal s n = Some d" and "is_workday cal s \<noteq> None"
  shows "s \<le> d \<and> card (workdays_between cal s d) = n \<and> (0 < n \<longrightarrow> is_workday cal d = Some True)
    \<and> is_workday cal d \<noteq> None"
  using assms
proof (induction cal s n rule: add_workdays_loop.induct)
  case (1 cal s n)
  show ?case
  proof (cases "n = 0")
    case True
    then show ?thesis using "1.prems" by (simp add: add_workdays_loop.simps)
  next
    case False
    then obtain w where w: "is_workday cal (s + 1) = Some w"
      and rec: "add_workdays_loop cal (s + 1) (if w then n - 1 else n) = Some d"
      using "1.prems"(1) by (auto simp: add_workdays_loop.simps [of cal s n] split: option.splits)
    have ih: "s + 1 \<le> d" "card (workdays_between cal (s + 1) d) = (if w then n - 1 else n)"
      "0 < (if w then n - 1 else n) \<longrightarrow> is_workday cal d = Some True" "is_workday cal d \<noteq> None"
      using "1.IH" [OF False w rec] w by auto
    have "s < d" using ih(1) by simp
    moreover have "is_workday cal d = Some True"
    proof (cases "0 < (if w then n - 1 else n)")
      case False
      then have n: "w" "n = 1" using \<open>n \<noteq> 0\<close> by (auto split: if_splits)
      then have "d = s + 1" using rec by (simp add: add_workdays_loop.simps)
      then show ?thesis using w n by simp
    qed (use ih(3) in blast)
    ultimately show ?thesis using card_workdays_step [of s d cal] ih(2,4) w False by (auto split: if_splits)
  qed
qed

lemma add_workdays_loop_none:
  assumes "add_workdays_loop cal s n = None" and "is_workday cal s \<noteq> None"
  shows "card (workdays_between cal s (coverage_end cal)) < n"
  using assms
proof (induction cal s n rule: add_workdays_loop.induct)
  case (1 cal s n)
  have n: "n \<noteq> 0"
  proof
    assume "n = 0"
    then show False using "1.prems"(1) by (simp add: add_workdays_loop.simps)
  qed
  show ?case
  proof (cases "is_workday cal (s + 1)")
    case None
    then have "workdays_between cal s (coverage_end cal) = {}"
      using "1.prems"(2) by (auto simp: workdays_between_def is_workday_def split: if_splits)
    then show ?thesis using n by simp
  next
    case (Some w)
    have "card (workdays_between cal (s + 1) (coverage_end cal)) < (if w then n - 1 else n)"
      using "1.IH" [OF n Some] "1.prems"(1) n Some by (simp add: add_workdays_loop.simps [of cal s n])
    moreover have "s < coverage_end cal" using Some by (simp add: is_workday_def split: if_splits)
    ultimately show ?thesis using card_workdays_step [of s "coverage_end cal" cal] Some by (auto split: if_splits)
  qed
qed

section \<open>The local trading calendar\<close>

text \<open>A file as \<open>_load\<close> sees it: its signature (None when \<open>stat\<close> fails) and its JSON (None when it
  cannot be read or parsed).\<close>

record calendar_file =
  file_signature :: "(int \<times> int) option"
  file_payload :: "json option"

record trading_calendar =
  signature :: "(int \<times> int) option"
  trading_days :: "date set option"
  legal_calendar :: "workday_calendar option"

definition new_trading_calendar :: trading_calendar where
  "new_trading_calendar = \<lparr>signature = None, trading_days = None, legal_calendar = None\<rparr>"

definition is_jstr :: "json \<Rightarrow> bool" where
  "is_jstr j = (case j of JStr _ \<Rightarrow> True | _ \<Rightarrow> False)"

text \<open>The days and the statutory calendar a file holds; an invalid file holds neither.\<close>

definition parse_calendar :: "json option \<Rightarrow> date set option \<times> workday_calendar option" where
  "parse_calendar payload =
     (case payload of None \<Rightarrow> (None, None)
      | Some p \<Rightarrow>
          (case (if is_jobj p then jget p ''trading_days'' else Some p) of
             Some (JArr values) \<Rightarrow>
               (case all_some (map date_of_json (filter is_jstr values)) of
                  None \<Rightarrow> (None, None)
                | Some ds \<Rightarrow> (if ds = [] then None else Some (set ds), None))
           | _ \<Rightarrow>
               if is_jobj p \<and> list_all (\<lambda>k. jget p k \<noteq> None)
                    [''coverage_start'', ''coverage_end'', ''holidays'', ''adjusted_workdays'']
               then (None, calendar_of_json p)
               else (None, None)))"

definition load_calendar ::
  "calendar_file option \<Rightarrow> calendar_file option \<Rightarrow> trading_calendar \<Rightarrow> date set option \<times> trading_calendar" where
  "load_calendar configured bundled st =
     (case (case configured of None \<Rightarrow> bundled | Some f \<Rightarrow> Some f) of
        None \<Rightarrow> (None, st)
      | Some f \<Rightarrow>
          (case file_signature f of None \<Rightarrow> (None, st)
           | Some sg \<Rightarrow>
               if signature st = Some sg then (trading_days st, st)
               else case parse_calendar (file_payload f) of (days, legal) \<Rightarrow>
                 (days, \<lparr>signature = Some sg, trading_days = days, legal_calendar = legal\<rparr>)))"

definition trading_day_from :: "(date \<Rightarrow> bool) \<Rightarrow> date set option \<Rightarrow> workday_calendar option \<Rightarrow> date \<Rightarrow> bool" where
  "trading_day_from fallback days legal d =
     (case Option.bind legal (\<lambda>c. is_workday c d) of
        Some b \<Rightarrow> b
      | None \<Rightarrow> (case days of Some ds \<Rightarrow> d \<in> ds | None \<Rightarrow> fallback d))"

definition is_trading_day ::
  "(date \<Rightarrow> bool) \<Rightarrow> calendar_file option \<Rightarrow> calendar_file option \<Rightarrow> trading_calendar \<Rightarrow> date
   \<Rightarrow> bool \<times> trading_calendar" where
  "is_trading_day fallback configured bundled st d =
     (case load_calendar configured bundled st of (days, st') \<Rightarrow>
        (trading_day_from fallback days (legal_calendar st') d, st'))"

definition weekday_trading_day :: "date \<Rightarrow> bool" where
  "weekday_trading_day d \<longleftrightarrow> weekday d < 5"

text \<open>What the cached calendar stands for: the file its signature names.\<close>

definition calendar_loaded :: "((int \<times> int) \<Rightarrow> json option) \<Rightarrow> trading_calendar \<Rightarrow> bool" where
  "calendar_loaded contents st \<longleftrightarrow>
     (case signature st of None \<Rightarrow> trading_days st = None \<and> legal_calendar st = None
      | Some sg \<Rightarrow> (trading_days st, legal_calendar st) = parse_calendar (contents sg))"

lemma calendar_loaded_new [simp]: "calendar_loaded contents new_trading_calendar"
  by (simp add: calendar_loaded_def new_trading_calendar_def)

lemma is_trading_day_loaded:
  assumes "calendar_loaded contents st" and "file_signature f = Some sg" and "file_payload f = contents sg"
    and "(case configured of None \<Rightarrow> bundled | Some f \<Rightarrow> Some f) = Some f"
  shows "calendar_loaded contents (snd (is_trading_day fallback configured bundled st d))"
    "fst (is_trading_day fallback configured bundled st d) =
       (case parse_calendar (contents sg) of (days, legal) \<Rightarrow> trading_day_from fallback days legal d)"
  using assms by (auto simp: is_trading_day_def load_calendar_def calendar_loaded_def split: prod.splits)

section \<open>Market phases\<close>

datatype market_phase = MP_CLOSED | PREOPEN_QUOTE | CALL_AUCTION | AUCTION_LOCKED | CONTINUOUS | BREAK

fun market_phase_value :: "market_phase \<Rightarrow> string" where
  "market_phase_value MP_CLOSED = ''CLOSED''"
| "market_phase_value PREOPEN_QUOTE = ''PREOPEN_QUOTE''"
| "market_phase_value CALL_AUCTION = ''CALL_AUCTION''"
| "market_phase_value AUCTION_LOCKED = ''AUCTION_LOCKED''"
| "market_phase_value CONTINUOUS = ''CONTINUOUS''"
| "market_phase_value BREAK = ''BREAK''"

definition market_phases :: "market_phase list" where
  "market_phases = [MP_CLOSED, PREOPEN_QUOTE, CALL_AUCTION, AUCTION_LOCKED, CONTINUOUS, BREAK]"

record phase_state =
  phase :: market_phase
  phase_source :: string
  local_time :: string
  server_time :: "string option"

definition upper_char :: "char \<Rightarrow> char" where
  "upper_char c = (let n = (of_char c :: nat) in if 97 \<le> n \<and> n \<le> 122 then char_of (n - 32) else c)"

text \<open>\<open>_coerce_app_phase\<close> of a text (ASCII letters); a \<open>MarketPhase\<close> is the text of its value.\<close>

definition coerce_app_phase :: "string option \<Rightarrow> market_phase option" where
  "coerce_app_phase value =
     Option.bind value (\<lambda>s. find (\<lambda>p. market_phase_value p = map upper_char (strip s)) market_phases)"

definition local_phase :: "int \<Rightarrow> market_phase" where
  "local_phase seconds =
     (if seconds < 9 * 3600 + 10 * 60 then MP_CLOSED
      else if seconds < 9 * 3600 + 15 * 60 then PREOPEN_QUOTE
      else if seconds < 9 * 3600 + 25 * 60 then CALL_AUCTION
      else if seconds < 9 * 3600 + 30 * 60 then AUCTION_LOCKED
      else if seconds \<le> 11 * 3600 + 30 * 60 then CONTINUOUS
      else if seconds < 13 * 3600 then BREAK
      else if seconds \<le> 15 * 3600 then CONTINUOUS
      else MP_CLOSED)"

definition resolve_phase ::
  "(date \<Rightarrow> bool) \<Rightarrow> time \<Rightarrow> string option \<Rightarrow> string option \<Rightarrow> phase_state" where
  "resolve_phase trading now app_phase app_server_time =
     (let lt = hms_text (shanghai_second_of_day now) in
      case coerce_app_phase app_phase of
        Some p \<Rightarrow> \<lparr>phase = p, phase_source = ''APP_STATUS'', local_time = lt, server_time = app_server_time\<rparr>
      | None \<Rightarrow>
          \<lparr>phase = (if trading (shanghai_date now) then local_phase (shanghai_second_of_day now) else MP_CLOSED),
           phase_source = ''LOCAL_CALENDAR'', local_time = lt, server_time = None\<rparr>)"

definition is_china_market_open :: "time \<Rightarrow> bool" where
  "is_china_market_open now \<longleftrightarrow>
     weekday (shanghai_date now) < 5 \<and>
     (let minute = shanghai_minute_of_day now in
      9 * 60 + 10 \<le> minute \<and> minute \<le> 11 * 60 + 30 \<or> 13 * 60 \<le> minute \<and> minute \<le> 15 * 60)"

definition is_china_preopen_window :: "time \<Rightarrow> bool" where
  "is_china_preopen_window now \<longleftrightarrow>
     weekday (shanghai_date now) < 5 \<and>
     (let minute = shanghai_minute_of_day now in 9 * 60 \<le> minute \<and> minute < 9 * 60 + 30)"

text \<open>\<open>fixed_market_error_code\<close> of the error code an exception carries, if any.\<close>

definition fixed_market_error_code :: "string option \<Rightarrow> string" where
  "fixed_market_error_code raw =
     (case raw of None \<Rightarrow> ''MARKET_SOURCE_FAILED''
      | Some c \<Rightarrow> sanitized_direct_error_code c ''MARKET_SOURCE_FAILED'')"

lemma coerce_market_phase [simp]: "coerce_app_phase (Some (market_phase_value p)) = Some p"
  by (cases p) (simp_all add: coerce_app_phase_def market_phases_def strip_def is_space_def upper_char_def Let_def)

text \<open>The refresh window is open exactly in the active phases, up to the last minute of a session.\<close>

lemma open_window_phases:
  assumes "weekday (shanghai_date now) < 5"
  shows "is_china_market_open now \<longleftrightarrow>
    local_phase (shanghai_second_of_day now) \<notin> {MP_CLOSED, BREAK}
      \<or> shanghai_minute_of_day now \<in> {11 * 60 + 30, 15 * 60}"
proof -
  let ?s = "shanghai_second_of_day now"
  have m: "?s div 60 = shanghai_minute_of_day now" by (simp add: shanghai_minute_of_day_def)
  have b: "60 * (?s div 60) \<le> ?s" "?s < 60 * (?s div 60) + 60" by presburger+
  show ?thesis unfolding is_china_market_open_def local_phase_def Let_def
    using assms b unfolding m by (auto split: if_splits)
qed

end
