(* ===== verification/Market_Models.thy ===== *)
theory Market_Models
  imports Calendar
begin

text \<open>
  The market data classes of \<open>level2_service/market_data.py\<close>: snapshots with their parts and
  pages of bars. A quote, a series or a fund flow is a dictionary of JSON values.
\<close>

record timeshare_point =
  tp_time :: string
  tp_price :: "string option"
  average_price :: "string option"
  tp_volume :: "string option"

record kline_bar =
  bar_time :: string
  bar_open :: "string option"
  bar_high :: "string option"
  bar_low :: "string option"
  bar_close :: "string option"
  bar_volume :: "string option"
  bar_amount :: "string option"

record order_book_level =
  level_side :: string
  book_level :: int
  level_price :: "string option"
  level_volume :: "string option"

record trade_tick =
  tick_time :: string
  tick_price :: "string option"
  tick_volume :: "string option"
  tick_side :: "string option"

record snapshot =
  snap_symbol :: string
  snap_name :: "string option"
  snap_market :: string
  snap_sequence :: nat
  source_time :: "string option"
  snap_collected_at :: time
  quote :: "(string, string option) dict"
  snap_source :: "string option"
  snap_phase :: market_phase
  snap_phase_source :: "string option"
  price_precision :: int
  timeshare :: "timeshare_point list"
  snap_series :: "(string, json) dict"
  order_book :: "order_book_level list"
  trades :: "trade_tick list"
  snap_fund_flow :: "(string, json) dict"
  capabilities :: "(string, json) dict"
  snap_errors :: "(string, string option) dict"
  snap_trade_dates :: "(string, string option) dict"

text \<open>The constructor with its defaults; \<open>__post_init__\<close> rejects a precision outside 1 to 6.\<close>

definition valid_snapshot :: "snapshot \<Rightarrow> bool" where
  "valid_snapshot s \<longleftrightarrow> 1 \<le> price_precision s \<and> price_precision s \<le> 6"

definition new_snapshot :: "string \<Rightarrow> string option \<Rightarrow> string \<Rightarrow> time \<Rightarrow> (string, string option) dict \<Rightarrow> snapshot" where
  "new_snapshot sy name market now q =
     \<lparr>snap_symbol = sy, snap_name = name, snap_market = market, snap_sequence = 0, source_time = None,
      snap_collected_at = now, quote = q, snap_source = None, snap_phase = MP_CLOSED,
      snap_phase_source = None, price_precision = 2, timeshare = [], snap_series = [], order_book = [],
      trades = [], snap_fund_flow = [], capabilities = [], snap_errors = [], snap_trade_dates = []\<rparr>"

text \<open>What \<open>as_public\<close> adds to the fields: the age in seconds, to the millisecond, and whether the
  snapshot is stale (older than five seconds).\<close>

definition snapshot_age :: "time \<Rightarrow> snapshot \<Rightarrow> rat" where
  "snapshot_age now s = max 0 (of_int (now - snap_collected_at s) / 1000000)"

definition rounded_age :: "rat \<Rightarrow> rat" where
  "rounded_age age =
     (let x = age * 1000; f = \<lfloor>x\<rfloor>; d = x - of_int f in
      of_int (if d < 1 / 2 \<or> d = 1 / 2 \<and> even f then f else f + 1) / 1000)"

record public_snapshot =
  public_fields :: snapshot
  public_stale :: bool
  age_seconds :: rat

definition snapshot_public :: "time \<Rightarrow> snapshot \<Rightarrow> public_snapshot" where
  "snapshot_public now s =
     \<lparr>public_fields = s, public_stale = (snapshot_age now s > 5), age_seconds = rounded_age (snapshot_age now s)\<rparr>"

record series_page =
  page_symbol :: string
  page_period :: string
  page_bars :: "kline_bar list"
  page_indicators :: "(string, string option list) dict"
  next_cursor :: "string option"
  page_source_error :: "string option"
  page_adjustment :: "string option"
  page_source :: "string option"
  page_cached :: bool
  page_stale :: bool
  page_errors :: "(string, string option) dict"

definition market_periods :: "string list" where
  "market_periods = [''timeshare'', ''five_day'', ''min5'', ''min15'', ''min30'', ''min60'', ''day'', ''week'', ''month'']"

end
