(* ===== verification/Broker.thy ===== *)
theory Broker
  imports Market_Models
begin

text \<open>
  \<open>MarketDataBroker\<close> of \<open>level2_service/market_data.py\<close>: subscriptions, the coalescing event
  queues of the subscribers, the snapshot cache with its sequence numbers, refreshes and polling.
  The \<open>asyncio\<close> event loop runs the code between two \<open>await\<close>s without interruption, so an
  operation is one state change, and a refresh is two: what it decides before it asks the source,
  and what it stores with the answer (\<open>refresh_store\<close>). A Python \<open>set\<close> of symbols is a set.
\<close>

section \<open>State\<close>

datatype market_event = SnapshotEvent public_snapshot | SourceStatus string string

type_synonym event_key = "string \<times> string"

fun event_type :: "market_event \<Rightarrow> string" where
  "event_type (SnapshotEvent _) = ''snapshot''"
| "event_type (SourceStatus _ _) = ''source_status''"

record broker_config =
  detail_interval :: seconds
  watchlist_interval :: seconds

record broker =
  subscriptions :: "(string, string set \<times> string set) dict"
  queues :: "(string, event_key list) dict"
  pending_events :: "(string, (event_key, market_event) dict) dict"
  snapshots :: "(string, snapshot) dict"
  sequences :: "(string, nat) dict"
  last_polled :: "(string, seconds) dict"
  cache_detail :: "(string, bool) dict"
  closed_refresh_requests :: "string set"
  failure_counts :: "(string, nat) dict"
  retry_after :: "(string, seconds) dict"

definition new_broker :: broker where
  "new_broker = \<lparr>subscriptions = [], queues = [], pending_events = [], snapshots = [], sequences = [],
     last_polled = [], cache_detail = [], closed_refresh_requests = {}, failure_counts = [], retry_after = []\<rparr>"

definition get_or :: "'v \<Rightarrow> ('k, 'v) dict \<Rightarrow> 'k \<Rightarrow> 'v" where
  "get_or v d k = (case dget d k of None \<Rightarrow> v | Some x \<Rightarrow> x)"

definition subscription :: "broker \<Rightarrow> string \<Rightarrow> string set \<times> string set" where
  "subscription b c = get_or ({}, {}) (subscriptions b) c"

definition wanted :: "broker \<Rightarrow> string \<Rightarrow> string \<Rightarrow> bool" where
  "wanted b c s \<longleftrightarrow> s \<in> fst (subscription b c) \<or> s \<in> snd (subscription b c)"

definition referenced :: "broker \<Rightarrow> string set" where
  "referenced b = (\<Union>(_, watchlist, detail) \<in> set (subscriptions b). watchlist \<union> detail)"

definition detail_symbols :: "broker \<Rightarrow> string set" where
  "detail_symbols b = (\<Union>(_, _, detail) \<in> set (subscriptions b). detail)"

section \<open>Subscriptions\<close>

definition dfilter :: "('k \<Rightarrow> bool) \<Rightarrow> ('k, 'v) dict \<Rightarrow> ('k, 'v) dict" where
  "dfilter P d = filter (\<lambda>(k, _). P k) d"

definition subscribe :: "bool \<Rightarrow> string \<Rightarrow> string set \<Rightarrow> string set \<Rightarrow> broker \<Rightarrow> string set \<times> broker" where
  "subscribe market_open c watchlist detail b =
     (let previous = dget (subscriptions b) c;
          prev_watch = (case previous of None \<Rightarrow> {} | Some (w, _) \<Rightarrow> w);
          prev_detail = (case previous of None \<Rightarrow> {} | Some (_, d) \<Rightarrow> d);
          pending = dfilter (\<lambda>key. fst key \<in> watchlist \<union> detail) (get_or [] (pending_events b) c);
          new_watchlist = watchlist - prev_watch
      in (detail - prev_detail,
          b\<lparr>subscriptions := dset c (watchlist, detail) (subscriptions b),
            queues := (if dget (queues b) c = None then dset c [] (queues b) else queues b),
            pending_events := dset c pending (pending_events b),
            closed_refresh_requests := closed_refresh_requests b \<union> (if market_open then {} else new_watchlist - detail)\<rparr>))"

definition unsubscribe :: "string \<Rightarrow> broker \<Rightarrow> broker" where
  "unsubscribe c b =
     (let b = b\<lparr>subscriptions := dpop c (subscriptions b), queues := dpop c (queues b),
                pending_events := dpop c (pending_events b)\<rparr>;
          keep = (\<lambda>s. s \<in> referenced b \<or> s \<notin> keys (snapshots b))
      in b\<lparr>snapshots := dfilter keep (snapshots b), cache_detail := dfilter keep (cache_detail b),
           sequences := dfilter keep (sequences b), last_polled := dfilter keep (last_polled b),
           failure_counts := dfilter keep (failure_counts b), retry_after := dfilter keep (retry_after b)\<rparr>)"

definition has_subscriber :: "string \<Rightarrow> broker \<Rightarrow> bool" where
  "has_subscriber c b \<longleftrightarrow> c \<in> keys (subscriptions b)"

definition cached_snapshot :: "string \<Rightarrow> broker \<Rightarrow> snapshot option" where
  "cached_snapshot s b = dget (snapshots b) s"

definition seed :: "snapshot \<Rightarrow> broker \<Rightarrow> broker" where
  "seed snap b =
     (let s = snap_symbol snap in
      b\<lparr>snapshots := dset s snap (snapshots b),
        sequences := dset s (max (snap_sequence snap) (get_or 0 (sequences b) s)) (sequences b),
        cache_detail := dset s (timeshare snap \<noteq> [] \<or> snap_series snap \<noteq> [] \<or> snap_fund_flow snap \<noteq> []) (cache_detail b)\<rparr>)"

section \<open>Events\<close>

definition publish_one :: "string \<Rightarrow> market_event \<Rightarrow> broker \<Rightarrow> string \<Rightarrow> broker" where
  "publish_one s event b c =
     (if \<not> wanted b c s then b
      else
        let pending = get_or [] (pending_events b) c; key = (s, event_type event) in
        b\<lparr>queues := (if dget pending key = None then dset c (get_or [] (queues b) c @ [key]) (queues b) else queues b),
          pending_events := dset c (dset key event pending) (pending_events b)\<rparr>)"

definition publish :: "string \<Rightarrow> market_event \<Rightarrow> broker \<Rightarrow> broker" where
  "publish s event b = foldl (publish_one s event) b (map fst (queues b))"

text \<open>\<open>next_pending\<close>: the keys taken off the queue, up to the first that still has an event. None
  means that the queue ran empty, where the code waits.\<close>

fun next_pending ::
  "'k list \<Rightarrow> ('k, 'e) dict \<Rightarrow> 'e option \<times> 'k list \<times> ('k, 'e) dict" where
  "next_pending [] pending = (None, [], pending)"
| "next_pending (key # queue) pending =
     (case dget pending key of None \<Rightarrow> next_pending queue pending
      | Some event \<Rightarrow> (Some event, queue, dpop key pending))"

text \<open>The outer None is the \<open>LookupError\<close> for an unknown subscriber.\<close>

definition next_event :: "string \<Rightarrow> broker \<Rightarrow> (market_event option \<times> broker) option" where
  "next_event c b =
     (case (dget (queues b) c, dget (pending_events b) c) of
        (Some queue, Some pending) \<Rightarrow>
          (case next_pending queue pending of (event, queue', pending') \<Rightarrow>
             Some (event, b\<lparr>queues := dset c queue' (queues b), pending_events := dset c pending' (pending_events b)\<rparr>))
      | _ \<Rightarrow> None)"

section \<open>Refreshes\<close>

text \<open>The snapshot a refresh returns without asking the source, if any.\<close>

definition refresh_cached :: "bool \<Rightarrow> seconds \<Rightarrow> string \<Rightarrow> bool \<Rightarrow> seconds \<Rightarrow> broker \<Rightarrow> snapshot option" where
  "refresh_cached market_open clock s detail max_age b =
     (let cached = dget (snapshots b) s; deep = (\<not> detail \<or> get_or False (cache_detail b) s) in
      if \<not> market_open \<and> cached \<noteq> None \<and> deep then cached
      else if max_age > 0 \<and> cached \<noteq> None \<and> deep
           \<and> (case dget (last_polled b) s of None \<Rightarrow> False | Some polled \<Rightarrow> clock - polled < max_age) then cached
      else None)"

text \<open>What a successful read stores and publishes; the batch poll does the same.\<close>

definition refresh_store :: "time \<Rightarrow> seconds \<Rightarrow> string \<Rightarrow> bool \<Rightarrow> snapshot \<Rightarrow> broker \<Rightarrow> snapshot \<times> broker" where
  "refresh_store now clock s detail snap b =
     (let sequence = get_or 0 (sequences b) s + 1;
          current = snap\<lparr>snap_sequence := sequence\<rparr>;
          b = b\<lparr>sequences := dset s sequence (sequences b), snapshots := dset s current (snapshots b),
                cache_detail := dset s detail (cache_detail b), last_polled := dset s clock (last_polled b),
                failure_counts := dpop s (failure_counts b), retry_after := dpop s (retry_after b)\<rparr>
      in (current, publish s (SnapshotEvent (snapshot_public now current)) b))"

definition backoff :: "broker_config \<Rightarrow> nat \<Rightarrow> seconds" where
  "backoff cfg failures =
     min 30 (max (detail_interval cfg) (watchlist_interval cfg) * 2 ^ min (failures - 1) 4)"

definition publish_failure :: "broker_config \<Rightarrow> seconds \<Rightarrow> string \<Rightarrow> string option \<Rightarrow> broker \<Rightarrow> broker" where
  "publish_failure cfg timestamp s error b =
     (let failures = get_or 0 (failure_counts b) s + 1;
          b = b\<lparr>last_polled := dset s timestamp (last_polled b),
                failure_counts := dset s failures (failure_counts b),
                retry_after := dset s (timestamp + backoff cfg failures) (retry_after b)\<rparr>
      in publish s (SourceStatus s (fixed_market_error_code error)) b)"

text \<open>\<open>refresh_one\<close>: the source answers with a snapshot, or with the error code of its exception.\<close>

type_synonym market_answer = "string option + snapshot"

definition refresh_one ::
  "broker_config \<Rightarrow> bool \<Rightarrow> time \<Rightarrow> seconds \<Rightarrow> string \<Rightarrow> bool \<Rightarrow> market_answer \<Rightarrow> broker \<Rightarrow> broker" where
  "refresh_one cfg market_open now clock s detail answer b =
     (case refresh_cached market_open clock s detail 0 b of Some _ \<Rightarrow> b
      | None \<Rightarrow> (case answer of Inl error \<Rightarrow> publish_failure cfg clock s error b
                | Inr snap \<Rightarrow> snd (refresh_store now clock s detail snap b)))"

section \<open>Polling\<close>

definition poll_order :: "string set \<Rightarrow> string set \<Rightarrow> string list" where
  "poll_order detail symbols = sorted_list_of_set (symbols \<inter> detail) @ sorted_list_of_set (symbols - detail)"

definition due :: "broker_config \<Rightarrow> seconds \<Rightarrow> broker \<Rightarrow> string \<Rightarrow> bool" where
  "due cfg now b s \<longleftrightarrow>
     (case dget (last_polled b) s of None \<Rightarrow> True
      | Some polled \<Rightarrow> now - polled \<ge> (if s \<in> detail_symbols b then detail_interval cfg else watchlist_interval cfg))
     \<and> get_or 0 (retry_after b) s \<le> now"

definition poll_symbols :: "broker_config \<Rightarrow> bool \<Rightarrow> seconds \<Rightarrow> broker \<Rightarrow> string list" where
  "poll_symbols cfg market_open now b =
     (if market_open then filter (due cfg now b) (poll_order (detail_symbols b) (referenced b))
      else poll_order (detail_symbols b) (closed_refresh_requests b \<inter> referenced b))"

text \<open>\<open>poll_due\<close> with a source that reads one symbol at a time; the reads complete in the order they
  are started, and the clock stands still during the poll.\<close>

definition poll_due ::
  "broker_config \<Rightarrow> bool \<Rightarrow> time \<Rightarrow> seconds \<Rightarrow> (string \<Rightarrow> market_answer) \<Rightarrow> broker \<Rightarrow> broker" where
  "poll_due cfg market_open now clock answers b =
     (let symbols = poll_symbols cfg market_open clock b; detail = detail_symbols b in
      foldl (\<lambda>b s. refresh_one cfg market_open now clock s (s \<in> detail) (answers s) b)
        (b\<lparr>closed_refresh_requests := {}\<rparr>) symbols)"

text \<open>\<open>poll_due\<close> of an open market with a source that reads a batch: None when the batch fails as a
  whole (with an error code), and otherwise a snapshot or nothing for each symbol. The symbols are
  visited in the order of the set, which is given.\<close>

definition poll_batch ::
  "broker_config \<Rightarrow> time \<Rightarrow> seconds \<Rightarrow> string list \<Rightarrow> string option + (string \<Rightarrow> snapshot option) \<Rightarrow> broker \<Rightarrow> broker" where
  "poll_batch cfg now clock order answer b =
     (let symbols = filter (due cfg clock b) order; detail = detail_symbols b in
      foldl (\<lambda>b s. case answer of
          Inl error \<Rightarrow> publish_failure cfg clock s error b
        | Inr reads \<Rightarrow>
            (case reads s of None \<Rightarrow> publish_failure cfg clock s None b
             | Some snap \<Rightarrow> snd (refresh_store now clock s (s \<in> detail) snap b)))
        (b\<lparr>closed_refresh_requests := {}\<rparr>) symbols)"

text \<open>\<open>series\<close>: the two checks before the source is asked; True means \<open>ValueError\<close>.\<close>

definition series_rejected :: "string \<Rightarrow> int \<Rightarrow> bool" where
  "series_rejected period limit \<longleftrightarrow> period \<notin> set market_periods \<or> limit < 1 \<or> 500 < limit"

end
