(* ===== verification/Broker_Facts.thy ===== *)
theory Broker_Facts
  imports Broker
begin

text \<open>
  The broker as a step relation, labelled by the events it delivers, and its invariants: a pending
  event is always announced in its subscriber's queue, nobody has an event for a symbol they did
  not ask for, and no event of a symbol is ahead of its sequence number.
\<close>

section \<open>Publishing\<close>

lemma get_or_dset [simp]: "get_or x (dset k v d) k' = (if k' = k then v else get_or x d k')"
  by (simp add: get_or_def)

lemma get_or_dpop [simp]: "get_or x (dpop k d) k' = (if k' = k then x else get_or x d k')"
  by (simp add: get_or_def)

lemma dget_dfilter [simp]: "dget (dfilter P d) k = (if P k then dget d k else None)"
  by (induction d) (auto simp: dfilter_def)

lemma get_or_dfilter [simp]: "get_or x (dfilter P d) k = (if P k then get_or x d k else x)"
  by (simp add: get_or_def)

lemma keys_dfilter [simp]: "keys (dfilter P d) = {k \<in> keys d. P k}"
  by (auto simp: dfilter_def)

lemma wf_dfilter [simp, wf_intros]: "wf_dict d \<Longrightarrow> wf_dict (dfilter P d)"
  unfolding dfilter_def by (rule distinct_map_filter)

lemma publish_one_fields [simp]:
  "subscriptions (publish_one s e b c) = subscriptions b"
  "snapshots (publish_one s e b c) = snapshots b"
  "sequences (publish_one s e b c) = sequences b"
  "last_polled (publish_one s e b c) = last_polled b"
  "cache_detail (publish_one s e b c) = cache_detail b"
  "closed_refresh_requests (publish_one s e b c) = closed_refresh_requests b"
  "failure_counts (publish_one s e b c) = failure_counts b"
  "retry_after (publish_one s e b c) = retry_after b"
  by (simp_all add: publish_one_def Let_def)

lemma publish_fold_fields:
  "subscriptions (foldl (publish_one s e) b cs) = subscriptions b \<and>
   snapshots (foldl (publish_one s e) b cs) = snapshots b \<and>
   sequences (foldl (publish_one s e) b cs) = sequences b \<and>
   last_polled (foldl (publish_one s e) b cs) = last_polled b \<and>
   cache_detail (foldl (publish_one s e) b cs) = cache_detail b \<and>
   closed_refresh_requests (foldl (publish_one s e) b cs) = closed_refresh_requests b \<and>
   failure_counts (foldl (publish_one s e) b cs) = failure_counts b \<and>
   retry_after (foldl (publish_one s e) b cs) = retry_after b"
  by (induction cs arbitrary: b) simp_all

lemma publish_fields [simp]:
  "subscriptions (publish s e b) = subscriptions b" "snapshots (publish s e b) = snapshots b"
  "sequences (publish s e b) = sequences b" "last_polled (publish s e b) = last_polled b"
  "cache_detail (publish s e b) = cache_detail b"
  "closed_refresh_requests (publish s e b) = closed_refresh_requests b"
  "failure_counts (publish s e b) = failure_counts b" "retry_after (publish s e b) = retry_after b"
  using publish_fold_fields by (simp_all add: publish_def)

lemma wanted_cong: "subscriptions b = subscriptions b' \<Longrightarrow> wanted b = wanted b'"
  by (simp add: wanted_def subscription_def fun_eq_iff)

lemma referenced_cong: "subscriptions b = subscriptions b' \<Longrightarrow> referenced b = referenced b'"
  by (simp add: referenced_def)

lemma publish_one_pending [simp]:
  "get_or [] (pending_events (publish_one s e b x)) c =
    (if c = x \<and> wanted b x s then dset (s, event_type e) e (get_or [] (pending_events b) x)
     else get_or [] (pending_events b) c)"
  by (simp add: publish_one_def Let_def)

lemma publish_one_queue [simp]:
  "get_or [] (queues (publish_one s e b x)) c =
    get_or [] (queues b) c @
      (if c = x \<and> wanted b x s \<and> dget (get_or [] (pending_events b) x) (s, event_type e) = None
       then [(s, event_type e)] else [])"
  by (simp add: publish_one_def Let_def)

lemma publish_one_wanted [simp]: "wanted (publish_one s e b x) = wanted b"
  by (rule wanted_cong) simp

lemma publish_fold_clients:
  assumes "distinct cs"
  shows "get_or [] (pending_events (foldl (publish_one s e) b cs)) c =
      (if c \<in> set cs \<and> wanted b c s
       then dset (s, event_type e) e (get_or [] (pending_events b) c) else get_or [] (pending_events b) c)"
    and "get_or [] (queues (foldl (publish_one s e) b cs)) c =
      get_or [] (queues b) c @
        (if c \<in> set cs \<and> wanted b c s \<and> dget (get_or [] (pending_events b) c) (s, event_type e) = None
         then [(s, event_type e)] else [])"
  using assms by (induction cs arbitrary: b) auto

lemma publish_fold_wf:
  assumes "set cs \<subseteq> keys (queues b)" and "wf_dict (queues b)" and "wf_dict (pending_events b)"
    and "keys (pending_events b) = keys (queues b)"
  shows "keys (queues (foldl (publish_one s e) b cs)) = keys (queues b)
    \<and> keys (pending_events (foldl (publish_one s e) b cs)) = keys (queues b)
    \<and> wf_dict (queues (foldl (publish_one s e) b cs)) \<and> wf_dict (pending_events (foldl (publish_one s e) b cs))"
  using assms
proof (induction cs arbitrary: b)
  case (Cons x cs)
  let ?b = "publish_one s e b x"
  have "keys (queues ?b) = keys (queues b)" "keys (pending_events ?b) = keys (queues b)"
    using Cons.prems by (auto simp: publish_one_def Let_def)
  moreover have "wf_dict (queues ?b)" "wf_dict (pending_events ?b)"
    using Cons.prems by (auto simp: publish_one_def Let_def)
  ultimately show ?case using Cons.IH [of ?b] Cons.prems(1) by simp
qed simp

section \<open>The step relation\<close>

text \<open>A delivery names the subscriber and the symbol the event was published for; a run keeps a
  condition on its states.\<close>

datatype broker_label = Internal | Deliver string string market_event

inductive broker_step :: "broker_config \<Rightarrow> broker \<Rightarrow> broker_label \<Rightarrow> broker \<Rightarrow> bool" for cfg where
  subscribes: "broker_step cfg b Internal (snd (subscribe market_open c watchlist detail b))"
| unsubscribes: "broker_step cfg b Internal (unsubscribe c b)"
| seeds: "broker_step cfg b Internal (seed snap b)"
| stores: "broker_step cfg b Internal (snd (refresh_store now clock s detail snap b))"
| fails: "broker_step cfg b Internal (publish_failure cfg clock s error b)"
| requests: "broker_step cfg b Internal (b\<lparr>closed_refresh_requests := {}\<rparr>)"
| waits: "next_event c b = Some (None, b') \<Longrightarrow> broker_step cfg b Internal b'"
| delivers: "next_event c b = Some (Some event, b') \<Longrightarrow>
    dget (get_or [] (pending_events b) c) (s, event_type event) = Some event \<Longrightarrow>
    dget (get_or [] (pending_events b') c) (s, event_type event) = None \<Longrightarrow>
    broker_step cfg b (Deliver c s event) b'"

inductive_cases deliver_step: "broker_step cfg b (Deliver c s event) b'"
inductive_cases internal_step: "broker_step cfg b Internal b'"

inductive broker_run :: "broker_config \<Rightarrow> (broker \<Rightarrow> bool) \<Rightarrow> broker \<Rightarrow> broker_label list \<Rightarrow> broker \<Rightarrow> bool"
  for cfg P where
  run_nil: "broker_run cfg P b [] b"
| run_step: "broker_step cfg b l b' \<Longrightarrow> P b' \<Longrightarrow> broker_run cfg P b' ls b'' \<Longrightarrow> broker_run cfg P b (l # ls) b''"

section \<open>The invariant\<close>

definition event_ok :: "broker \<Rightarrow> event_key \<Rightarrow> market_event \<Rightarrow> bool" where
  "event_ok b key e \<longleftrightarrow> snd key = event_type e
     \<and> (case e of SnapshotEvent p \<Rightarrow> snap_sequence (public_fields p) \<le> get_or 0 (sequences b) (fst key)
        | SourceStatus s _ \<Rightarrow> s = fst key)"

definition client_ok :: "broker \<Rightarrow> string \<Rightarrow> bool" where
  "client_ok b c \<longleftrightarrow> (\<forall>key e. dget (get_or [] (pending_events b) c) key = Some e
     \<longrightarrow> key \<in> set (get_or [] (queues b) c) \<and> wanted b c (fst key) \<and> event_ok b key e)"

lemma client_okD:
  assumes "client_ok b c" and "dget (get_or [] (pending_events b) c) key = Some e"
  shows "key \<in> set (get_or [] (queues b) c)" "wanted b c (fst key)" "event_ok b key e"
  using assms unfolding client_ok_def by blast+

definition broker_wf :: "broker \<Rightarrow> bool" where
  "broker_wf b \<longleftrightarrow> wf_dict (subscriptions b) \<and> wf_dict (queues b) \<and> wf_dict (pending_events b)
     \<and> keys (queues b) = keys (subscriptions b) \<and> keys (pending_events b) = keys (queues b)"

definition broker_inv :: "broker \<Rightarrow> bool" where
  "broker_inv b \<longleftrightarrow> broker_wf b \<and> (\<forall>c. client_ok b c)
     \<and> (\<forall>s snap. dget (snapshots b) s = Some snap \<longrightarrow> snap_sequence snap \<le> get_or 0 (sequences b) s)"

lemma broker_inv_new [simp]: "broker_inv new_broker"
  by (simp add: broker_inv_def broker_wf_def client_ok_def new_broker_def get_or_def)

lemma wanted_referenced: "wanted b c s \<Longrightarrow> s \<in> referenced b"
  by (force simp: wanted_def subscription_def get_or_def referenced_def split: option.splits dest: dget_SomeD)

lemma broker_wf_publish:
  assumes "broker_wf b"
  shows "broker_wf (publish s e b)"
  using assms publish_fold_wf [of "map fst (queues b)" b s e, folded publish_def] by (simp add: broker_wf_def)

lemma client_ok_publish:
  assumes "broker_wf b" and "client_ok b c" and "event_ok b (s, event_type e) e"
  shows "client_ok (publish s e b) c"
  unfolding client_ok_def
proof (intro allI impI)
  fix key e'
  let ?P = "get_or [] (pending_events b) c" and ?Q = "get_or [] (queues b) c"
  assume h: "dget (get_or [] (pending_events (publish s e b)) c) key = Some e'"
  have d: "distinct (map fst (queues b))" using assms(1) by (simp add: broker_wf_def)
  have w: "wanted (publish s e b) = wanted b" by (rule wanted_cong) simp
  have ok: "event_ok (publish s e b) = event_ok b"
    by (simp add: event_ok_def fun_eq_iff split: market_event.split)
  have q: "set ?Q \<subseteq> set (get_or [] (queues (publish s e b)) c)"
    using publish_fold_clients(2) [OF d] by (simp add: publish_def)
  show "key \<in> set (get_or [] (queues (publish s e b)) c) \<and> wanted (publish s e b) c (fst key)
      \<and> event_ok (publish s e b) key e'"
  proof (cases "c \<in> keys (queues b) \<and> wanted b c s")
    case False
    then have "get_or [] (pending_events (publish s e b)) c = ?P"
      using publish_fold_clients(1) [OF d, of s e b c] by (auto simp: publish_def)
    with h have "dget ?P key = Some e'" by simp
    from client_okD [OF assms(2) this] show ?thesis using q w ok by auto
  next
    case True
    then have p: "get_or [] (pending_events (publish s e b)) c = dset (s, event_type e) e ?P"
      using publish_fold_clients(1) [OF d, of s e b c] by (simp add: publish_def)
    show ?thesis
    proof (cases "key = (s, event_type e)")
      case False
      with h p have "dget ?P key = Some e'" by simp
      from client_okD [OF assms(2) this] show ?thesis using q w ok by auto
    next
      case k: True
      have "key \<in> set (get_or [] (queues (publish s e b)) c)"
      proof (cases "dget ?P key")
        case None
        then show ?thesis using publish_fold_clients(2) [OF d, of s e b c] True k by (simp add: publish_def)
      next
        case (Some x)
        from client_okD(1) [OF assms(2) this] show ?thesis using q by auto
      qed
      moreover have "e' = e" using h p k by simp
      ultimately show ?thesis using True k w ok assms(3) by simp
    qed
  qed
qed

lemma broker_inv_publish:
  assumes "broker_inv b" and "event_ok b (s, event_type e) e"
  shows "broker_inv (publish s e b)"
  using assms broker_wf_publish client_ok_publish by (simp add: broker_inv_def)

text \<open>Changing the caches and raising sequence numbers keeps the clients' parts.\<close>

lemma broker_inv_raise:
  assumes "broker_inv b" and "subscriptions b' = subscriptions b" "queues b' = queues b"
    "pending_events b' = pending_events b"
    and "\<And>s. get_or 0 (sequences b) s \<le> get_or 0 (sequences b') s \<or> s \<notin> referenced b"
    and "\<And>s snap. dget (snapshots b') s = Some snap \<Longrightarrow> snap_sequence snap \<le> get_or 0 (sequences b') s"
  shows "broker_inv b'"
proof -
  have w: "wanted b' = wanted b" by (rule wanted_cong [OF assms(2)])
  have "client_ok b' c" for c
    unfolding client_ok_def
  proof (intro allI impI)
    fix key e assume "dget (get_or [] (pending_events b') c) key = Some e"
    then have old: "key \<in> set (get_or [] (queues b) c)" "wanted b c (fst key)" "event_ok b key e"
      using assms(1) unfolding assms(4) broker_inv_def client_ok_def by blast+
    then have "get_or 0 (sequences b) (fst key) \<le> get_or 0 (sequences b') (fst key)"
      using assms(5) [of "fst key"] wanted_referenced by blast
    then have "event_ok b' key e" using old(3) by (auto simp: event_ok_def split: market_event.splits)
    then show "key \<in> set (get_or [] (queues b') c) \<and> wanted b' c (fst key) \<and> event_ok b' key e"
      using old w assms(3) by simp
  qed
  then show ?thesis using assms(1-4,6) by (simp add: broker_inv_def broker_wf_def)
qed

section \<open>Every operation keeps it\<close>

lemma broker_invD:
  assumes "broker_inv b"
  shows "broker_wf b" "client_ok b c" "dget (snapshots b) s = Some snap \<Longrightarrow> snap_sequence snap \<le> get_or 0 (sequences b) s"
  using assms by (auto simp: broker_inv_def)

lemma broker_inv_store [wf_intros]:
  assumes "broker_inv b"
  shows "broker_inv (snd (refresh_store now clock s detail snap b))"
  unfolding refresh_store_def Let_def snd_conv
proof (rule broker_inv_publish)
  show "broker_inv (b\<lparr>sequences := dset s (get_or 0 (sequences b) s + 1) (sequences b),
      snapshots := dset s (snap\<lparr>snap_sequence := get_or 0 (sequences b) s + 1\<rparr>) (snapshots b),
      cache_detail := dset s detail (cache_detail b), last_polled := dset s clock (last_polled b),
      failure_counts := dpop s (failure_counts b), retry_after := dpop s (retry_after b)\<rparr>)"
    using broker_invD(3) [OF assms] by (intro broker_inv_raise [OF assms]) (auto split: if_splits)
qed (simp add: event_ok_def snapshot_public_def)

lemma broker_inv_failure [wf_intros]:
  assumes "broker_inv b"
  shows "broker_inv (publish_failure cfg clock s error b)"
  unfolding publish_failure_def Let_def
  using broker_invD(3) [OF assms]
  by (intro broker_inv_publish broker_inv_raise [OF assms]) (auto simp: event_ok_def)

lemma broker_inv_seed [wf_intros]:
  assumes "broker_inv b"
  shows "broker_inv (seed snap b)"
  unfolding seed_def Let_def
  using broker_invD(3) [OF assms] by (intro broker_inv_raise [OF assms]) (auto split: if_splits)

lemma broker_inv_requests [wf_intros]:
  assumes "broker_inv b"
  shows "broker_inv (b\<lparr>closed_refresh_requests := X\<rparr>)"
  using broker_invD(3) [OF assms] by (intro broker_inv_raise [OF assms]) auto

lemma subscribe_fields:
  shows "get_or [] (pending_events (snd (subscribe mo c w d b))) c' =
      (if c' = c then dfilter (\<lambda>key. fst key \<in> w \<union> d) (get_or [] (pending_events b) c)
       else get_or [] (pending_events b) c')"
    and "get_or [] (queues (snd (subscribe mo c w d b))) c' = get_or [] (queues b) c'"
    and "wanted (snd (subscribe mo c w d b)) c' s = (if c' = c then s \<in> w \<union> d else wanted b c' s)"
    and "sequences (snd (subscribe mo c w d b)) = sequences b"
    and "snapshots (snd (subscribe mo c w d b)) = snapshots b"
  by (simp_all add: subscribe_def Let_def wanted_def subscription_def get_or_def [of "[]" "queues b"])

lemma event_ok_mono:
  "event_ok b key e \<Longrightarrow> get_or 0 (sequences b) (fst key) \<le> get_or 0 (sequences b') (fst key) \<Longrightarrow> event_ok b' key e"
  by (auto simp: event_ok_def split: market_event.splits)

lemma broker_inv_subscribe [wf_intros]:
  assumes "broker_inv b"
  shows "broker_inv (snd (subscribe mo c w d b))"
proof -
  let ?b = "snd (subscribe mo c w d b)"
  have "client_ok ?b c'" for c'
    unfolding client_ok_def
  proof (intro allI impI)
    fix key e assume h: "dget (get_or [] (pending_events ?b) c') key = Some e"
    then have "dget (get_or [] (pending_events b) c') key = Some e" "c' = c \<Longrightarrow> fst key \<in> w \<union> d"
      by (auto simp: subscribe_fields split: if_splits)
    note lim = this(2) and old = client_okD [OF broker_invD(2) [OF assms] this(1)]
    show "key \<in> set (get_or [] (queues ?b) c') \<and> wanted ?b c' (fst key) \<and> event_ok ?b key e"
      using old lim event_ok_mono [OF old(3)] by (auto simp: subscribe_fields)
  qed
  moreover have "broker_wf ?b"
    using broker_invD(1) [OF assms] by (auto simp: broker_wf_def subscribe_def Let_def dget_None_iff)
  ultimately show ?thesis using broker_invD(3) [OF assms] by (simp add: broker_inv_def subscribe_fields)
qed

lemma unsubscribe_subscriptions: "subscriptions (unsubscribe c b) = dpop c (subscriptions b)"
  by (simp add: unsubscribe_def Let_def)

lemma unsubscribe_fields:
  shows "get_or [] (pending_events (unsubscribe c b)) c' = (if c' = c then [] else get_or [] (pending_events b) c')"
    and "get_or [] (queues (unsubscribe c b)) c' = (if c' = c then [] else get_or [] (queues b) c')"
    and "wanted (unsubscribe c b) c' s \<longleftrightarrow> c' \<noteq> c \<and> wanted b c' s"
  by (simp_all add: unsubscribe_def Let_def wanted_def subscription_def)

lemma unsubscribe_caches:
  shows "s \<in> referenced (unsubscribe c b) \<Longrightarrow> get_or 0 (sequences (unsubscribe c b)) s = get_or 0 (sequences b) s"
    and "dget (snapshots (unsubscribe c b)) s = Some snap \<Longrightarrow>
      dget (snapshots b) s = Some snap \<and> get_or 0 (sequences (unsubscribe c b)) s = get_or 0 (sequences b) s"
proof -
  let ?b = "b\<lparr>subscriptions := dpop c (subscriptions b), queues := dpop c (queues b),
                pending_events := dpop c (pending_events b)\<rparr>"
  have r: "referenced (unsubscribe c b) = referenced ?b"
    by (rule referenced_cong) (simp add: unsubscribe_subscriptions)
  show "s \<in> referenced (unsubscribe c b) \<Longrightarrow> get_or 0 (sequences (unsubscribe c b)) s = get_or 0 (sequences b) s"
    unfolding r by (simp add: unsubscribe_def Let_def)
  show "dget (snapshots (unsubscribe c b)) s = Some snap \<Longrightarrow>
      dget (snapshots b) s = Some snap \<and> get_or 0 (sequences (unsubscribe c b)) s = get_or 0 (sequences b) s"
    by (auto simp: unsubscribe_def Let_def split: if_splits)
qed

lemma broker_inv_unsubscribe [wf_intros]:
  assumes "broker_inv b"
  shows "broker_inv (unsubscribe c b)"
proof -
  have "client_ok (unsubscribe c b) c'" for c'
    unfolding client_ok_def
  proof (intro allI impI)
    fix key e assume h: "dget (get_or [] (pending_events (unsubscribe c b)) c') key = Some e"
    then have c': "c' \<noteq> c" and p: "dget (get_or [] (pending_events b) c') key = Some e"
      by (auto simp: unsubscribe_fields split: if_splits)
    note old = client_okD [OF broker_invD(2) [OF assms] p]
    have w: "wanted (unsubscribe c b) c' (fst key)" using old(2) c' by (simp add: unsubscribe_fields)
    have "event_ok (unsubscribe c b) key e"
      using event_ok_mono [OF old(3)] unsubscribe_caches(1) [OF wanted_referenced [OF w]] by simp
    then show "key \<in> set (get_or [] (queues (unsubscribe c b)) c') \<and> wanted (unsubscribe c b) c' (fst key)
        \<and> event_ok (unsubscribe c b) key e"
      using w old(1) c' by (simp add: unsubscribe_fields)
  qed
  moreover have "broker_wf (unsubscribe c b)"
    using broker_invD(1) [OF assms] by (auto simp: broker_wf_def unsubscribe_def Let_def)
  moreover have "snap_sequence snap \<le> get_or 0 (sequences (unsubscribe c b)) s"
    if "dget (snapshots (unsubscribe c b)) s = Some snap" for s snap
    using unsubscribe_caches(2) [OF that] broker_invD(3) [OF assms] by metis
  ultimately show ?thesis by (simp add: broker_inv_def)
qed

section \<open>Delivery\<close>

lemma next_pending_kept:
  assumes "next_pending q p = (ev, q', p')" and "dget p' key = Some e"
  shows "dget p key = Some e" and "key \<in> set q \<Longrightarrow> key \<in> set q'"
  using assms by (induction q) (auto split: option.splits if_splits)

lemma next_pending_some:
  assumes "next_pending q p = (Some e, q', p')"
  shows "\<exists>key. dget p key = Some e \<and> dget p' key = None"
  using assms by (induction q) (auto split: option.splits)

lemma next_pending_none:
  assumes "next_pending q p = (None, q', p')"
  shows "p' = p \<and> q' = [] \<and> (\<forall>key \<in> set q. dget p key = None)"
  using assms by (induction q) (auto split: option.splits)

text \<open>One delivery changes its subscriber only.\<close>

lemma next_event_fields:
  assumes "next_event c b = Some (ev, b')"
  shows "subscriptions b' = subscriptions b" "sequences b' = sequences b" "snapshots b' = snapshots b"
    and "\<exists>q' p'. next_pending (get_or [] (queues b) c) (get_or [] (pending_events b) c) = (ev, q', p')
      \<and> (\<forall>c'. get_or [] (queues b') c' = (if c' = c then q' else get_or [] (queues b) c')
          \<and> get_or [] (pending_events b') c' = (if c' = c then p' else get_or [] (pending_events b) c'))"
    and "keys (queues b') = keys (queues b)" "keys (pending_events b') = keys (pending_events b)"
    and "wf_dict (queues b) \<Longrightarrow> wf_dict (queues b')" "wf_dict (pending_events b) \<Longrightarrow> wf_dict (pending_events b')"
proof -
  obtain q p where q: "dget (queues b) c = Some q" and p: "dget (pending_events b) c = Some p"
    using assms by (auto simp: next_event_def split: option.splits)
  obtain q' p' where n: "next_pending q p = (ev, q', p')"
    and b': "b' = b\<lparr>queues := dset c q' (queues b), pending_events := dset c p' (pending_events b)\<rparr>"
    using assms q p by (auto simp: next_event_def split: prod.splits)
  have g: "get_or [] (queues b) c = q" "get_or [] (pending_events b) c = p" using q p by (simp_all add: get_or_def)
  show "subscriptions b' = subscriptions b" "sequences b' = sequences b" "snapshots b' = snapshots b"
    "wf_dict (queues b) \<Longrightarrow> wf_dict (queues b')" "wf_dict (pending_events b) \<Longrightarrow> wf_dict (pending_events b')"
    by (simp_all add: b')
  show "keys (queues b') = keys (queues b)" "keys (pending_events b') = keys (pending_events b)"
    using dget_SomeD [OF q] dget_SomeD [OF p] by (force simp: b')+
  show "\<exists>q' p'. next_pending (get_or [] (queues b) c) (get_or [] (pending_events b) c) = (ev, q', p')
      \<and> (\<forall>c'. get_or [] (queues b') c' = (if c' = c then q' else get_or [] (queues b) c')
          \<and> get_or [] (pending_events b') c' = (if c' = c then p' else get_or [] (pending_events b) c'))"
    by (rule exI [of _ q'], rule exI [of _ p']) (simp add: g n b')
qed

lemma next_event_pending:
  assumes "next_event c b = Some (ev, b')" and "dget (get_or [] (pending_events b') c') key = Some e"
  shows "dget (get_or [] (pending_events b) c') key = Some e"
    and "key \<in> set (get_or [] (queues b) c') \<Longrightarrow> key \<in> set (get_or [] (queues b') c')"
proof -
  obtain q' p' where n: "next_pending (get_or [] (queues b) c) (get_or [] (pending_events b) c) = (ev, q', p')"
    and f: "get_or [] (queues b') c' = (if c' = c then q' else get_or [] (queues b) c')"
      "get_or [] (pending_events b') c' = (if c' = c then p' else get_or [] (pending_events b) c')"
    using next_event_fields(4) [OF assms(1)] by blast
  show "dget (get_or [] (pending_events b) c') key = Some e"
    using next_pending_kept(1) [OF n] assms(2) f by (auto split: if_splits)
  show "key \<in> set (get_or [] (queues b) c') \<Longrightarrow> key \<in> set (get_or [] (queues b') c')"
    using next_pending_kept(2) [OF n] assms(2) f by (auto split: if_splits)
qed

lemma broker_inv_next [wf_intros]:
  assumes "broker_inv b" and "next_event c b = Some (ev, b')"
  shows "broker_inv b'"
proof -
  note f = next_event_fields [OF assms(2)]
  have w: "wanted b' = wanted b" by (rule wanted_cong [OF f(1)])
  have "client_ok b' c'" for c'
    unfolding client_ok_def
  proof (intro allI impI)
    fix key e assume h: "dget (get_or [] (pending_events b') c') key = Some e"
    note old = client_okD [OF broker_invD(2) [OF assms(1)] next_event_pending(1) [OF assms(2) h]]
    show "key \<in> set (get_or [] (queues b') c') \<and> wanted b' c' (fst key) \<and> event_ok b' key e"
      using next_event_pending(2) [OF assms(2) h] old event_ok_mono [OF old(3)] w f(2) by simp
  qed
  then show ?thesis using broker_invD(1,3) [OF assms(1)] f by (simp add: broker_inv_def broker_wf_def)
qed

lemma broker_step_inv:
  assumes "broker_step cfg b l b'" and "broker_inv b"
  shows "broker_inv b'"
  using assms by cases (simp_all add: wf_intros broker_inv_next)

lemma broker_run_inv: "broker_run cfg P b ls b' \<Longrightarrow> broker_inv b \<Longrightarrow> broker_inv b'"
  by (induction rule: broker_run.induct) (auto intro: broker_step_inv)

text \<open>A subscriber with a pending event never waits.\<close>

lemma next_event_delivers:
  assumes "broker_inv b" and "dget (get_or [] (pending_events b) c) key = Some e"
  shows "\<exists>ev s b'. next_event c b = Some (Some ev, b') \<and> broker_step cfg b (Deliver c s ev) b'"
proof -
  have wf: "broker_wf b" by (rule broker_invD(1) [OF assms(1)])
  obtain p where p: "dget (pending_events b) c = Some p"
    using assms(2) by (cases "dget (pending_events b) c") (auto simp: get_or_def)
  then have "c \<in> keys (queues b)" using wf dget_SomeD [OF p] by (force simp: broker_wf_def)
  then obtain q where q: "dget (queues b) c = Some q" by (metis dget_None_iff not_Some_eq)
  obtain ev b' where n: "next_event c b = Some (ev, b')"
    using p q by (cases "next_pending q p") (auto simp: next_event_def)
  obtain q' p' where np: "next_pending (get_or [] (queues b) c) (get_or [] (pending_events b) c) = (ev, q', p')"
    and f: "get_or [] (pending_events b') c = p'"
    using next_event_fields(4) [OF n] by fastforce
  have "ev \<noteq> None"
  proof
    assume "ev = None"
    from next_pending_none [OF np [unfolded this]]
    have "dget (get_or [] (pending_events b) c) key = None"
      using client_okD(1) [OF broker_invD(2) [OF assms(1)] assms(2)] by blast
    then show False using assms(2) by simp
  qed
  then obtain e' where e': "ev = Some e'" by blast
  obtain k where k: "dget (get_or [] (pending_events b) c) k = Some e'" "dget p' k = None"
    using next_pending_some [OF np [unfolded e']] by blast
  have "k = (fst k, event_type e')"
    using client_okD(3) [OF broker_invD(2) [OF assms(1)] k(1)] by (simp add: event_ok_def prod_eq_iff)
  then have "dget (get_or [] (pending_events b) c) (fst k, event_type e') = Some e'"
    and "dget (get_or [] (pending_events b') c) (fst k, event_type e') = None"
    using k f by simp_all
  from delivers [OF n [unfolded e'] this] have "broker_step cfg b (Deliver c (fst k) e') b'" .
  then show ?thesis using n e' by blast
qed

section \<open>Sequence numbers as a subscriber sees them\<close>

definition ahead :: "string \<Rightarrow> string \<Rightarrow> nat \<Rightarrow> broker \<Rightarrow> bool" where
  "ahead c s n b \<longleftrightarrow> n \<le> get_or 0 (sequences b) s
     \<and> (\<forall>p. dget (get_or [] (pending_events b) c) (s, ''snapshot'') = Some (SnapshotEvent p)
          \<longrightarrow> n < snap_sequence (public_fields p))"

fun delivered :: "string \<Rightarrow> string \<Rightarrow> broker_label list \<Rightarrow> nat list" where
  "delivered c s [] = []"
| "delivered c s (Deliver c' s' (SnapshotEvent p) # ls) =
     (if c' = c \<and> s' = s then snap_sequence (public_fields p) # delivered c s ls else delivered c s ls)"
| "delivered c s (_ # ls) = delivered c s ls"

lemma publish_pending:
  assumes "broker_wf b"
  shows "get_or [] (pending_events (publish s e b)) c =
    (if c \<in> keys (queues b) \<and> wanted b c s then dset (s, event_type e) e (get_or [] (pending_events b) c)
     else get_or [] (pending_events b) c)"
  using assms publish_fold_clients(1) [of "map fst (queues b)" s e b c] by (simp add: publish_def broker_wf_def)

lemma ahead_store:
  assumes "broker_inv b" and "ahead c s n b"
  shows "ahead c s n (snd (refresh_store now clock s' detail snap b))"
proof -
  let ?m = "get_or 0 (sequences b) s' + 1"
  let ?b = "b\<lparr>sequences := dset s' ?m (sequences b), snapshots := dset s' (snap\<lparr>snap_sequence := ?m\<rparr>) (snapshots b),
      cache_detail := dset s' detail (cache_detail b), last_polled := dset s' clock (last_polled b),
      failure_counts := dpop s' (failure_counts b), retry_after := dpop s' (retry_after b)\<rparr>"
  have "broker_wf ?b" using broker_invD(1) [OF assms(1)] by (simp add: broker_wf_def)
  note p = publish_pending [OF this, of s' "SnapshotEvent (snapshot_public now (snap\<lparr>snap_sequence := ?m\<rparr>))" c]
  have "snd (refresh_store now clock s' detail snap b)
      = publish s' (SnapshotEvent (snapshot_public now (snap\<lparr>snap_sequence := ?m\<rparr>))) ?b"
    by (simp add: refresh_store_def Let_def)
  then show ?thesis using assms(2) p by (auto simp: ahead_def snapshot_public_def)
qed

lemma ahead_failure:
  assumes "broker_inv b" and "ahead c s n b"
  shows "ahead c s n (publish_failure cfg clock s' error b)"
proof -
  let ?f = "get_or 0 (failure_counts b) s' + 1"
  let ?b = "b\<lparr>last_polled := dset s' clock (last_polled b), failure_counts := dset s' ?f (failure_counts b),
      retry_after := dset s' (clock + backoff cfg ?f) (retry_after b)\<rparr>"
  have "broker_wf ?b" using broker_invD(1) [OF assms(1)] by (simp add: broker_wf_def)
  note p = publish_pending [OF this, of s' "SourceStatus s' (fixed_market_error_code error)" c]
  have "publish_failure cfg clock s' error b = publish s' (SourceStatus s' (fixed_market_error_code error)) ?b"
    by (simp add: publish_failure_def Let_def)
  then show ?thesis using assms(2) p by (auto simp: ahead_def)
qed

lemma ahead_internal:
  assumes "broker_step cfg b Internal b'" and "broker_inv b" and "ahead c s n b" and "s \<in> referenced b'"
  shows "ahead c s n b'"
  using assms(1)
proof cases
  case (subscribes mo x w d)
  then show ?thesis using assms(3) by (auto simp: ahead_def subscribe_fields)
next
  case (unsubscribes x)
  then show ?thesis using assms(3,4) unsubscribe_caches(1) [of s x b] by (auto simp: ahead_def unsubscribe_fields)
next
  case (seeds snap)
  then show ?thesis using assms(3) by (auto simp: ahead_def seed_def Let_def)
next
  case (stores now clock s' detail snap)
  then show ?thesis using ahead_store [OF assms(2,3)] by simp
next
  case (fails clock s' error)
  then show ?thesis using ahead_failure [OF assms(2,3)] by simp
next
  case requests
  then show ?thesis using assms(3) by (simp add: ahead_def)
next
  case (waits x)
  then show ?thesis using assms(3) next_event_pending(1) [OF waits] next_event_fields(2) [OF waits] by (auto simp: ahead_def)
qed

lemma ahead_deliver:
  assumes "broker_step cfg b (Deliver c' s' e) b'" and "ahead c s n b"
  shows "ahead c s n b'"
proof -
  have n: "next_event c' b = Some (Some e, b')" using assms(1) by (auto elim: deliver_step)
  show ?thesis using assms(2) next_event_pending(1) [OF n] next_event_fields(2) [OF n] by (auto simp: ahead_def)
qed

lemma deliver_ahead:
  assumes "broker_step cfg b (Deliver c s (SnapshotEvent p)) b'" and "broker_inv b"
  shows "ahead c s (snap_sequence (public_fields p)) b'"
    and "ahead c s n b \<Longrightarrow> n < snap_sequence (public_fields p)"
proof -
  have n: "next_event c b = Some (Some (SnapshotEvent p), b')"
    and k: "dget (get_or [] (pending_events b) c) (s, ''snapshot'') = Some (SnapshotEvent p)"
      "dget (get_or [] (pending_events b') c) (s, ''snapshot'') = None"
    using assms(1) by (auto elim: deliver_step)
  have "event_ok b (s, ''snapshot'') (SnapshotEvent p)"
    by (rule client_okD(3) [OF broker_invD(2) [OF assms(2)] k(1)])
  then show "ahead c s (snap_sequence (public_fields p)) b'"
    using k(2) next_event_fields(2) [OF n] by (simp add: ahead_def event_ok_def)
  show "ahead c s n b \<Longrightarrow> n < snap_sequence (public_fields p)" using k(1) by (simp add: ahead_def)
qed

lemma run_ahead:
  assumes "broker_run cfg (\<lambda>b. s \<in> referenced b) b ls b'" and "broker_inv b" and "ahead c s n b"
  shows "sorted_wrt (<) (n # delivered c s ls)"
  using assms
proof (induction arbitrary: n rule: broker_run.induct)
  case (run_step b l b' ls b'')
  have inv: "broker_inv b'" using broker_step_inv run_step by blast
  have keep: "ahead c s n b'" if "ahead c s n b" for n
    using run_step ahead_internal [of cfg b b'] ahead_deliver [of cfg b _ _ _ b'] that by (cases l) auto
  note IH = run_step.IH [OF inv]
  show ?case
  proof (cases "\<exists>p. l = Deliver c s (SnapshotEvent p)")
    case True
    then obtain p where l: "l = Deliver c s (SnapshotEvent p)" by blast
    have "n < snap_sequence (public_fields p)" "ahead c s (snap_sequence (public_fields p)) b'"
      using deliver_ahead run_step.hyps(1) run_step.prems l by blast+
    then show ?thesis using IH [of "snap_sequence (public_fields p)"] by (auto simp: l)
  next
    case False
    then have "delivered c s (l # ls) = delivered c s ls"
      by (cases "(c, s, l # ls)" rule: delivered.cases) auto
    then show ?thesis using IH [OF keep [OF run_step.prems(2)]] by simp
  qed
qed simp

lemma run_delivers_sorted:
  assumes "broker_run cfg (\<lambda>b. s \<in> referenced b) b ls b'" and "broker_inv b"
  shows "sorted_wrt (<) (delivered c s ls)"
  using assms
proof (induction rule: broker_run.induct)
  case (run_step b l b' ls b'')
  have inv: "broker_inv b'" using broker_step_inv run_step by blast
  show ?case
  proof (cases "\<exists>p. l = Deliver c s (SnapshotEvent p)")
    case True
    then obtain p where l: "l = Deliver c s (SnapshotEvent p)" by blast
    then show ?thesis using run_ahead [OF run_step.hyps(3) inv] deliver_ahead(1) run_step.hyps(1) run_step.prems by fastforce
  next
    case False
    then have "delivered c s (l # ls) = delivered c s ls"
      by (cases "(c, s, l # ls)" rule: delivered.cases) auto
    then show ?thesis using run_step.IH [OF inv] by simp
  qed
qed simp

end
