(* ===== verification/Admin_Sessions.thy ===== *)
theory Admin_Sessions
  imports Clock
begin

text \<open>
  \<open>AdminSessionManager\<close> of \<open>level2_service/security.py\<close>: administrator sessions in memory, the change
  of the password, and the limit on failed logins. Argon2 verification and hashing, the random
  tokens and the HMAC signature are outside: a verdict, a hash and tokens are arguments, and
  \<open>sign\<close> is the signature under the configured secret (None without one). \<open>_now()\<close> is an argument;
  within one operation it is read once.
\<close>

section \<open>State\<close>

record admin_session =
  session_id :: string
  csrf_token :: string
  session_expires :: time

record session_manager =
  password_hash :: "string option"
  sessions :: "(string, admin_session) dict"
  login_failures :: "(string, time list) dict"

definition session_ttl :: time where "session_ttl = hours 8"
definition max_sessions :: nat where "max_sessions = 2048"
definition login_failure_limit :: nat where "login_failure_limit = 5"
definition login_failure_window :: time where "login_failure_window = 60 * usec_per_sec"

definition new_manager :: "string option \<Rightarrow> session_manager" where
  "new_manager h = \<lparr>password_hash = h, sessions = [], login_failures = []\<rparr>"

type_synonym signature_of = "(string \<Rightarrow> string) option"

definition configured :: "session_manager \<Rightarrow> bool" where
  "configured m \<longleftrightarrow> password_hash m \<noteq> None"

section \<open>Session identifiers\<close>

definition new_session_id :: "signature_of \<Rightarrow> string \<Rightarrow> string" where
  "new_session_id sign nonce = (case sign of None \<Rightarrow> nonce | Some f \<Rightarrow> nonce @ ''.'' @ f nonce)"

text \<open>\<open>session_id.rsplit(".", 1)\<close>; None is the \<open>ValueError\<close> of an identifier without a dot.\<close>

definition rsplit_dot :: "string \<Rightarrow> (string \<times> string) option" where
  "rsplit_dot s =
     (case dropWhile (\<lambda>c. c \<noteq> CHR ''.'') (rev s) of [] \<Rightarrow> None
      | _ # rest \<Rightarrow> Some (rev rest, rev (takeWhile (\<lambda>c. c \<noteq> CHR ''.'') (rev s))))"

definition valid_session_id :: "signature_of \<Rightarrow> string \<Rightarrow> bool" where
  "valid_session_id sign sid =
     (case sign of None \<Rightarrow> True
      | Some f \<Rightarrow> (case rsplit_dot sid of None \<Rightarrow> False | Some (nonce, signature) \<Rightarrow> signature = f nonce))"

section \<open>Operations\<close>

text \<open>\<open>while failures and failures[0] <= cutoff: failures.popleft()\<close>\<close>

definition recent_failures :: "time \<Rightarrow> time list \<Rightarrow> time list" where
  "recent_failures now ts = dropWhile (\<lambda>t. t \<le> now - login_failure_window) ts"

definition prune :: "time \<Rightarrow> session_manager \<Rightarrow> session_manager" where
  "prune now m =
     m\<lparr>sessions := filter (\<lambda>(_, s). now < session_expires s) (sessions m),
       login_failures := filter (\<lambda>(_, ts). ts \<noteq> []) (map (\<lambda>(k, ts). (k, recent_failures now ts)) (login_failures m))\<rparr>"

text \<open>\<open>min(sessions, key=expires_at)\<close>: the first of the earliest.\<close>

fun oldest_session :: "(string, admin_session) dict \<Rightarrow> admin_session option" where
  "oldest_session [] = None"
| "oldest_session ((_, s) # rest) =
     (case oldest_session rest of None \<Rightarrow> Some s
      | Some o' \<Rightarrow> Some (if session_expires o' < session_expires s then o' else s))"

definition admin_authenticate :: "signature_of \<Rightarrow> bool \<Rightarrow> string \<Rightarrow> string \<Rightarrow> time \<Rightarrow> session_manager \<Rightarrow> admin_session option \<times> session_manager" where
  "admin_authenticate sign verified nonce csrf now m =
     (if password_hash m = None \<or> \<not> verified then (None, m)
      else
        let s = \<lparr>session_id = new_session_id sign nonce, csrf_token = csrf, session_expires = now + session_ttl\<rparr>;
            m1 = prune now m;
            ss = dset (session_id s) s (sessions m1);
            ss' = (if length ss > max_sessions
                   then (case oldest_session ss of None \<Rightarrow> ss | Some o' \<Rightarrow> dpop (session_id o') ss) else ss)
        in (Some s, m1\<lparr>sessions := ss'\<rparr>))"

definition change_password :: "bool \<Rightarrow> string \<Rightarrow> session_manager \<Rightarrow> bool \<times> session_manager" where
  "change_password verified replacement m =
     (if password_hash m = None \<or> \<not> verified then (False, m)
      else (True, m\<lparr>password_hash := Some replacement, sessions := [], login_failures := []\<rparr>))"

definition login_allowed :: "string \<Rightarrow> time \<Rightarrow> session_manager \<Rightarrow> bool \<times> session_manager" where
  "login_allowed who now m =
     (let m1 = prune now m in
      case dget (login_failures m1) who of
        None \<Rightarrow> (True, m1)
      | Some ts \<Rightarrow>
          let ts' = recent_failures now ts in
          if ts' = [] then (True, m1\<lparr>login_failures := dpop who (login_failures m1)\<rparr>)
          else (length ts' < login_failure_limit, m1\<lparr>login_failures := dset who ts' (login_failures m1)\<rparr>))"

definition record_login_failure :: "string \<Rightarrow> time \<Rightarrow> session_manager \<Rightarrow> session_manager" where
  "record_login_failure who now m =
     (let m1 = snd (login_allowed who now m) in
      m1\<lparr>login_failures := dset who ((case dget (login_failures m1) who of None \<Rightarrow> [] | Some ts \<Rightarrow> ts) @ [now])
                            (login_failures m1)\<rparr>)"

definition record_login_success :: "string \<Rightarrow> session_manager \<Rightarrow> session_manager" where
  "record_login_success who m = m\<lparr>login_failures := dpop who (login_failures m)\<rparr>"

definition valid_session :: "signature_of \<Rightarrow> string option \<Rightarrow> time \<Rightarrow> session_manager \<Rightarrow> admin_session option \<times> session_manager" where
  "valid_session sign sid now m =
     (case sid of None \<Rightarrow> (None, m)
      | Some i \<Rightarrow>
          if i = [] then (None, m)
          else
            let m1 = prune now m in
            case dget (sessions m1) i of
              None \<Rightarrow> (None, m1\<lparr>sessions := dpop i (sessions m1)\<rparr>)
            | Some s \<Rightarrow>
                if \<not> valid_session_id sign i \<or> session_expires s \<le> now
                then (None, m1\<lparr>sessions := dpop i (sessions m1)\<rparr>) else (Some s, m1))"

definition revoke :: "string option \<Rightarrow> session_manager \<Rightarrow> session_manager" where
  "revoke sid m =
     (case sid of None \<Rightarrow> m | Some i \<Rightarrow> if i = [] then m else m\<lparr>sessions := dpop i (sessions m)\<rparr>)"

section \<open>Histories of operations\<close>

datatype session_op =
    Login bool string string time
  | ChangePassword bool string
  | CheckLogin string time
  | FailLogin string time
  | SucceedLogin string
  | LookUp "string option" time
  | Revoke "string option"

fun session_step :: "signature_of \<Rightarrow> session_op \<Rightarrow> session_manager \<Rightarrow> session_manager" where
  "session_step sign (Login v nonce csrf now) m = snd (admin_authenticate sign v nonce csrf now m)"
| "session_step sign (ChangePassword v h) m = snd (change_password v h m)"
| "session_step sign (CheckLogin who now) m = snd (login_allowed who now m)"
| "session_step sign (FailLogin who now) m = record_login_failure who now m"
| "session_step sign (SucceedLogin who) m = record_login_success who m"
| "session_step sign (LookUp sid now) m = snd (valid_session sign sid now m)"
| "session_step sign (Revoke sid) m = revoke sid m"

fun session_run :: "signature_of \<Rightarrow> session_op list \<Rightarrow> session_manager \<Rightarrow> session_manager" where
  "session_run sign [] m = m"
| "session_run sign (op # ops) m = session_run sign ops (session_step sign op m)"

fun op_clock :: "session_op \<Rightarrow> time list" where
  "op_clock (Login _ _ _ now) = [now]"
| "op_clock (CheckLogin _ now) = [now]"
| "op_clock (FailLogin _ now) = [now]"
| "op_clock (LookUp _ now) = [now]"
| "op_clock _ = []"

text \<open>The specification of the login limit: the failures of a client since it last logged in or the
  password was changed.\<close>

fun failures_after :: "string \<Rightarrow> session_op list \<Rightarrow> time list \<Rightarrow> time list" where
  "failures_after who [] h = h"
| "failures_after who (FailLogin w now # ops) h = failures_after who ops (if w = who then h @ [now] else h)"
| "failures_after who (SucceedLogin w # ops) h = failures_after who ops (if w = who then [] else h)"
| "failures_after who (ChangePassword v _ # ops) h = failures_after who ops (if v then [] else h)"
| "failures_after who (_ # ops) h = failures_after who ops h"

text \<open>The specification of the sessions: the last grant of an identifier that was not revoked.\<close>

fun granted_after :: "signature_of \<Rightarrow> string \<Rightarrow> session_op list \<Rightarrow> admin_session option \<Rightarrow> admin_session option" where
  "granted_after sign sid [] g = g"
| "granted_after sign sid (Login v nonce csrf now # ops) g =
     granted_after sign sid ops
       (if v \<and> new_session_id sign nonce = sid
        then Some \<lparr>session_id = sid, csrf_token = csrf, session_expires = now + session_ttl\<rparr> else g)"
| "granted_after sign sid (ChangePassword v _ # ops) g = granted_after sign sid ops (if v then None else g)"
| "granted_after sign sid (Revoke i # ops) g = granted_after sign sid ops (if i = Some sid \<and> sid \<noteq> [] then None else g)"
| "granted_after sign sid (_ # ops) g = granted_after sign sid ops g"

section \<open>The login limit\<close>

definition failures_of :: "session_manager \<Rightarrow> string \<Rightarrow> time list" where
  "failures_of m who = (case dget (login_failures m) who of None \<Rightarrow> [] | Some ts \<Rightarrow> ts)"

lemma dget_filter_map:
  assumes "wf_dict d"
  shows "dget (filter (\<lambda>(_, v). v \<noteq> []) (map (\<lambda>(k, v). (k, f v)) d)) k =
    (case dget d k of None \<Rightarrow> None | Some v \<Rightarrow> if f v = [] then None else Some (f v))"
  using assms
proof (induction d)
  case (Cons x d)
  obtain k' v where x: "x = (k', v)" by (cases x)
  have "dget d k = None" if "k = k'" using Cons.prems that x by (simp add: dget_None_iff)
  then show ?case using Cons x by auto
qed simp

lemma recent_recent: "t \<le> now \<Longrightarrow> recent_failures now (recent_failures t xs) = recent_failures now xs"
  by (induction xs) (auto simp: recent_failures_def)

lemma recent_snoc:
  assumes "\<forall>x \<in> set xs. x \<le> t"
  shows "recent_failures now (xs @ [t]) = recent_failures now xs @ (if now - login_failure_window < t then [t] else [])"
  using assms by (induction xs) (auto simp: recent_failures_def)

lemma recent_subset: "set (recent_failures now xs) \<subseteq> set xs"
  by (auto simp: recent_failures_def dest: set_dropWhileD)

text \<open>The stored failures of a client agree with its history for every later reading of the clock.\<close>

definition limiter_ok :: "time \<Rightarrow> string \<Rightarrow> time list \<Rightarrow> session_manager \<Rightarrow> bool" where
  "limiter_ok t who h m \<longleftrightarrow> wf_dict (login_failures m) \<and> (\<forall>x \<in> set (failures_of m who). x \<le> t)
     \<and> (\<forall>now \<ge> t. recent_failures now (failures_of m who) = filter (\<lambda>x. now - login_failure_window < x) h)"

lemma wf_filter_map: "wf_dict d \<Longrightarrow> wf_dict (filter (\<lambda>(_, v). v \<noteq> []) (map (\<lambda>(k, v). (k, f v)) d))"
proof -
  assume wf: "wf_dict d"
  have "map fst (map (\<lambda>(k, v). (k, f v)) d) = map fst d" by (induction d) auto
  with wf show ?thesis by (metis distinct_map_filter)
qed

lemma failures_of_prune:
  assumes "wf_dict (login_failures m)"
  shows "failures_of (prune now m) who = recent_failures now (failures_of m who)"
  by (cases "dget (login_failures m) who")
    (simp_all add: failures_of_def prune_def dget_filter_map [OF assms] recent_failures_def [of now "[]"])

lemma limiter_recent:
  assumes "limiter_ok t who h m" and "t \<le> now" and "wf_dict (login_failures m')"
    and "failures_of m' who = recent_failures now (failures_of m who)"
  shows "limiter_ok now who h m'"
  unfolding limiter_ok_def
proof (intro conjI ballI allI impI)
  fix x assume "x \<in> set (failures_of m' who)"
  then have "x \<in> set (failures_of m who)" unfolding assms(4) by (rule subsetD [OF recent_subset])
  then show "x \<le> now" using assms(1,2) by (fastforce simp: limiter_ok_def)
next
  fix n assume n: "now \<le> n"
  then show "recent_failures n (failures_of m' who) = filter (\<lambda>x. n - login_failure_window < x) h"
    using assms(1,2) unfolding assms(4) recent_recent [OF n] limiter_ok_def by (meson order_trans)
qed (rule assms(3))

lemma limiter_prune:
  assumes "limiter_ok t who h m" and "t \<le> now"
  shows "limiter_ok now who h (prune now m)"
proof (rule limiter_recent [OF assms])
  have wf: "wf_dict (login_failures m)" using assms(1) by (simp add: limiter_ok_def)
  show "wf_dict (login_failures (prune now m))" using wf_filter_map [OF wf] by (simp add: prune_def)
  show "failures_of (prune now m) who = recent_failures now (failures_of m who)" by (rule failures_of_prune [OF wf])
qed

lemma limiter_cong:
  "limiter_ok t who h m \<Longrightarrow> login_failures m' = login_failures m \<Longrightarrow> limiter_ok t who h m'"
  by (simp add: limiter_ok_def failures_of_def)

lemma limiter_later: "limiter_ok t who h m \<Longrightarrow> t \<le> now \<Longrightarrow> limiter_ok now who h m"
  by (auto simp: limiter_ok_def)

lemma failures_of_login_allowed:
  assumes "wf_dict (login_failures m)"
  shows "failures_of (snd (login_allowed who now m)) w = recent_failures now (failures_of m w)"
    "wf_dict (login_failures (snd (login_allowed who now m)))"
    "fst (login_allowed who now m) \<longleftrightarrow> length (recent_failures now (failures_of m who)) < login_failure_limit"
proof -
  let ?m = "prune now m"
  have p: "failures_of ?m w = recent_failures now (failures_of m w)" for w by (rule failures_of_prune [OF assms])
  have wf: "wf_dict (login_failures ?m)" using wf_filter_map [OF assms] by (simp add: prune_def)
  have r: "recent_failures now (failures_of ?m who) = failures_of ?m who" by (simp add: p recent_recent)
  show "failures_of (snd (login_allowed who now m)) w = recent_failures now (failures_of m w)"
    using p [of w] r by (auto simp: login_allowed_def Let_def failures_of_def split: option.splits)
  show "wf_dict (login_failures (snd (login_allowed who now m)))"
    using wf by (auto simp: login_allowed_def Let_def split: option.splits)
  have l: "0 < login_failure_limit" by (simp add: login_failure_limit_def)
  show "fst (login_allowed who now m) \<longleftrightarrow> length (recent_failures now (failures_of m who)) < login_failure_limit"
    using p [of who] r l by (auto simp: login_allowed_def Let_def failures_of_def split: option.splits)
qed

lemma limiter_allowed:
  assumes "limiter_ok t who h m" and "t \<le> now"
  shows "limiter_ok now who h (snd (login_allowed w now m))"
proof -
  have wf: "wf_dict (login_failures m)" using assms(1) by (simp add: limiter_ok_def)
  show ?thesis by (rule limiter_recent [OF assms failures_of_login_allowed(2,1) [OF wf]])
qed

lemma limiter_failure:
  assumes "limiter_ok t who h m" and "t \<le> now"
  shows "limiter_ok now who (if w = who then h @ [now] else h) (record_login_failure w now m)"
proof -
  let ?m = "snd (login_allowed w now m)"
  have ok: "limiter_ok now who h ?m" by (rule limiter_allowed [OF assms])
  have f: "failures_of (record_login_failure w now m) x = failures_of ?m x @ (if x = w then [now] else [])" for x
    by (auto simp: record_login_failure_def Let_def failures_of_def split: option.splits)
  have wf: "wf_dict (login_failures (record_login_failure w now m))"
    using ok by (auto simp: record_login_failure_def Let_def limiter_ok_def)
  show ?thesis using ok wf recent_snoc [of "failures_of ?m who" now] by (auto simp: limiter_ok_def f)
qed

lemma limiter_step:
  assumes "limiter_ok t who h m" and "\<forall>now \<in> set (op_clock op). t \<le> now" and "password_hash m \<noteq> None"
  shows "limiter_ok (case op_clock op of [] \<Rightarrow> t | now # _ \<Rightarrow> now) who (failures_after who [op] h) (session_step sign op m)"
proof (cases op)
  case (Login v nonce csrf now)
  have "limiter_ok now who h (prune now m)" using limiter_prune assms(1,2) Login by simp
  then show ?thesis using limiter_later [OF assms(1)] assms(2) Login
    by (auto simp: admin_authenticate_def Let_def elim!: limiter_cong)
next
  case (ChangePassword v h')
  then show ?thesis using assms by (auto simp: change_password_def limiter_ok_def failures_of_def recent_failures_def)
next
  case (CheckLogin w now)
  then show ?thesis using limiter_allowed [OF assms(1)] assms(2) by simp
next
  case (FailLogin w now)
  then show ?thesis using limiter_failure [OF assms(1)] assms(2) by simp
next
  case (SucceedLogin w)
  then show ?thesis using assms(1)
    by (auto simp: record_login_success_def limiter_ok_def failures_of_def recent_failures_def)
next
  case (LookUp sid now)
  have "limiter_ok now who h (prune now m)" using limiter_prune assms(1,2) LookUp by simp
  then show ?thesis using limiter_later [OF assms(1)] assms(2) LookUp
    by (auto simp: valid_session_def Let_def elim!: limiter_cong split: option.splits)
next
  case (Revoke i)
  then show ?thesis using assms(1) by (auto simp: revoke_def elim!: limiter_cong split: option.splits)
qed

lemma step_configured: "password_hash m \<noteq> None \<Longrightarrow> password_hash (session_step sign op m) \<noteq> None"
  by (cases op)
    (auto simp: admin_authenticate_def change_password_def login_allowed_def record_login_failure_def record_login_success_def
      valid_session_def revoke_def prune_def Let_def split: option.splits)

lemma failures_after_Cons: "failures_after who (op # ops) h = failures_after who ops (failures_after who [op] h)"
  by (cases op) simp_all

lemma limiter_run:
  assumes "limiter_ok t who h m" and "sorted (t # concat (map op_clock ops))" and "password_hash m \<noteq> None"
  shows "\<exists>t'. limiter_ok t' who (failures_after who ops h) (session_run sign ops m)
    \<and> t' \<in> set (t # concat (map op_clock ops))"
  using assms
proof (induction ops arbitrary: t h m)
  case (Cons op ops)
  let ?t = "case op_clock op of [] \<Rightarrow> t | now # _ \<Rightarrow> now"
  have c: "op_clock op = [] \<or> (\<exists>now. op_clock op = [now])" by (cases op) simp_all
  have "limiter_ok ?t who (failures_after who [op] h) (session_step sign op m)"
    using Cons.prems by (intro limiter_step) auto
  moreover have "sorted (?t # concat (map op_clock ops))" using c Cons.prems(2) by auto
  ultimately obtain t' where t': "t' \<in> set (?t # concat (map op_clock ops))"
    and "limiter_ok t' who (failures_after who ops (failures_after who [op] h)) (session_run sign ops (session_step sign op m))"
    using Cons.IH [OF _ _ step_configured [OF Cons.prems(3)]] by blast
  then have "limiter_ok t' who (failures_after who (op # ops) h) (session_run sign (op # ops) m)"
    unfolding failures_after_Cons [of who op ops] by simp
  moreover have "t' \<in> set (t # concat (map op_clock (op # ops)))" using c t' by auto
  ultimately show ?case by blast
qed auto

lemma limiter_new: "limiter_ok t who [] (new_manager h)"
  by (simp add: limiter_ok_def new_manager_def failures_of_def recent_failures_def)

section \<open>Granted sessions\<close>

definition dot_free :: "signature_of \<Rightarrow> bool" where
  "dot_free sign \<longleftrightarrow> (\<forall>f n. sign = Some f \<longrightarrow> CHR ''.'' \<notin> set (f n))"

lemma new_session_id_valid: "dot_free sign \<Longrightarrow> valid_session_id sign (new_session_id sign nonce)"
proof (cases sign)
  case (Some f)
  assume "dot_free sign"
  then have nd: "CHR ''.'' \<notin> set (rev (f nonce))" using Some by (simp add: dot_free_def)
  then have "dropWhile (\<lambda>c. c \<noteq> CHR ''.'') (rev (f nonce) @ CHR ''.'' # rev nonce) = CHR ''.'' # rev nonce"
    "takeWhile (\<lambda>c. c \<noteq> CHR ''.'') (rev (f nonce) @ CHR ''.'' # rev nonce) = rev (f nonce)"
    by (auto simp: dropWhile_append takeWhile_append)
  then show ?thesis using Some by (simp add: valid_session_id_def new_session_id_def rsplit_dot_def)
qed (simp add: valid_session_id_def)

text \<open>The identifiers that were issued, in order, and how many since the last of one.\<close>

fun issued_ids :: "signature_of \<Rightarrow> session_op list \<Rightarrow> string list" where
  "issued_ids sign [] = []"
| "issued_ids sign (Login v nonce csrf now # ops) = (if v then [new_session_id sign nonce] else []) @ issued_ids sign ops"
| "issued_ids sign (_ # ops) = issued_ids sign ops"

definition logins_since :: "string \<Rightarrow> string list \<Rightarrow> nat \<Rightarrow> nat" where
  "logins_since sid ids k = foldl (\<lambda>k i. if i = sid then 0 else Suc k) k ids"

lemma dget_filter_snd:
  assumes "wf_dict d"
  shows "dget (filter (\<lambda>(_, v). P v) d) k = (case dget d k of None \<Rightarrow> None | Some v \<Rightarrow> if P v then Some v else None)"
  using assms
proof (induction d)
  case (Cons x d)
  obtain k' v where x: "x = (k', v)" by (cases x)
  have "dget d k = None" if "k = k'" using Cons.prems that x by (simp add: dget_None_iff)
  then show ?case using Cons x by auto
qed simp

text \<open>A session that has not expired.\<close>

definition live_session :: "time \<Rightarrow> admin_session option \<Rightarrow> admin_session option" where
  "live_session now g = (case g of None \<Rightarrow> None | Some s \<Rightarrow> if now < session_expires s then Some s else None)"

lemma live_session_None [simp]: "live_session now None = None"
  by (simp add: live_session_def)

lemma live_session_twice: "t \<le> now \<Longrightarrow> live_session now (live_session t g) = live_session now g"
  by (cases g) (auto simp: live_session_def)

text \<open>
  As no identifier is issued twice, the sessions stand in the order of their grants, which is the order in which they expire: the
  session that a login beyond the limit removes is the first. \<open>few_behind\<close> bounds what stands behind a session, by the logins since.
\<close>

type_synonym session_dict = "(string, admin_session) dict"

definition issued :: "time \<Rightarrow> string set \<Rightarrow> session_dict \<Rightarrow> bool" where
  "issued t K d \<longleftrightarrow> wf_dict d \<and> sorted (map (\<lambda>(_, s). session_expires s) d)
     \<and> list_all (\<lambda>(i, s). session_id s = i \<and> session_expires s \<le> t + session_ttl \<and> i \<in> K) d \<and> length d \<le> max_sessions"

definition few_behind :: "nat \<Rightarrow> string \<Rightarrow> session_dict \<Rightarrow> bool" where
  "few_behind k sid d \<longleftrightarrow> (\<forall>xs s ys. d = xs @ (sid, s) # ys \<longrightarrow> length ys \<le> k)"

lemma issued_filter: "issued t K d \<Longrightarrow> issued t K (filter P d)"
  using order_trans [OF length_filter_le [of P d]]
  by (auto simp: issued_def list_all_iff distinct_map_filter sorted_filter)

lemma issued_later: "issued t K d \<Longrightarrow> t \<le> now \<Longrightarrow> issued now K d"
  by (fastforce simp: issued_def list_all_iff)

lemma filter_split: "filter P d = xs @ e # ys \<Longrightarrow> \<exists>us vs. d = us @ e # vs \<and> filter P vs = ys"
proof (induction xs arbitrary: d)
  case Nil
  then show ?case by (auto simp: filter_eq_Cons_iff)
next
  case (Cons x xs)
  then obtain us vs where d: "d = us @ x # vs" and vs: "filter P vs = xs @ e # ys" by (auto simp: filter_eq_Cons_iff)
  obtain us' vs' where "vs = us' @ e # vs'" "filter P vs' = ys" using Cons.IH [OF vs] by blast
  then have "d = (us @ x # us') @ e # vs'" "filter P vs' = ys" using d by simp_all
  then show ?case by blast
qed

lemma few_behind_filter: "few_behind k sid d \<Longrightarrow> few_behind k sid (filter P d)"
  unfolding few_behind_def
proof (intro allI impI)
  fix xs s ys
  assume d: "\<forall>xs s ys. d = xs @ (sid, s) # ys \<longrightarrow> length ys \<le> k" and "filter P d = xs @ (sid, s) # ys"
  then obtain us vs where "d = us @ (sid, s) # vs" "filter P vs = ys"
    using filter_split by metis
  then show "length ys \<le> k" using d length_filter_le [of P vs] le_trans by blast
qed

lemma oldest_first: "sorted (map (\<lambda>(_, s). session_expires s) d) \<Longrightarrow> oldest_session d = (case d of [] \<Rightarrow> None | (_, s) # _ \<Rightarrow> Some s)"
proof (induction d)
  case (Cons e d)
  then show ?case by (cases e; cases d) auto
qed simp

lemma dset_new: "k \<notin> keys d \<Longrightarrow> dset k v d = d @ [(k, v)]"
  by (induction d) auto

text \<open>The sessions after a login: the new one is the last, and the first goes when there is one too many.\<close>

definition with_login :: "string \<Rightarrow> admin_session \<Rightarrow> session_dict \<Rightarrow> session_dict" where
  "with_login i s d = (if length d < max_sessions then d @ [(i, s)] else tl d @ [(i, s)])"

lemma login_sessions:
  assumes "issued now K (sessions (prune now m))" and "new_session_id sign nonce \<notin> K" and "password_hash m \<noteq> None"
  shows "sessions (snd (admin_authenticate sign True nonce csrf now m))
    = with_login (new_session_id sign nonce)
        \<lparr>session_id = new_session_id sign nonce, csrf_token = csrf, session_expires = now + session_ttl\<rparr> (sessions (prune now m))"
proof -
  let ?i = "new_session_id sign nonce"
  let ?s = "\<lparr>session_id = ?i, csrf_token = csrf, session_expires = now + session_ttl\<rparr>"
  define d where "d = sessions (prune now m)"
  have d: "wf_dict d" "sorted (map (\<lambda>(_, s). session_expires s) d)" "?i \<notin> keys d" "length d \<le> max_sessions"
    "list_all (\<lambda>(i, s). session_id s = i \<and> session_expires s \<le> now + session_ttl) d"
    using assms(1,2) unfolding issued_def d_def list_all_iff by auto
  have ss: "dset ?i ?s d = d @ [(?i, ?s)]" by (rule dset_new [OF d(3)])
  have "sorted (map (\<lambda>(_, s). session_expires s) (d @ [(?i, ?s)]))"
    using d(2,5) by (auto simp: sorted_append list_all_iff)
  note first = oldest_first [OF this]
  have "sessions (snd (admin_authenticate sign True nonce csrf now m)) =
      (if length (d @ [(?i, ?s)]) > max_sessions
       then (case oldest_session (d @ [(?i, ?s)]) of None \<Rightarrow> d @ [(?i, ?s)] | Some o' \<Rightarrow> dpop (session_id o') (d @ [(?i, ?s)]))
       else d @ [(?i, ?s)])"
    using assms(3) by (simp add: admin_authenticate_def Let_def ss [unfolded d_def] d_def del: not_None_eq split: option.split)
  also have "\<dots> = with_login ?i ?s d"
  proof (cases d)
    case (Cons e r)
    obtain i s where e: "e = (i, s)" by (cases e)
    have "i \<notin> keys r" "session_id s = i" "i \<noteq> ?i" using d(1,3,5) Cons e by auto
    moreover from this have "filter (\<lambda>(k, _). i \<noteq> k) r = r" by (force intro!: filter_True)
    ultimately have "dpop (session_id s) (d @ [(?i, ?s)]) = r @ [(?i, ?s)]"
      using Cons e by (simp add: AList.delete_eq)
    then show ?thesis unfolding first with_login_def using Cons e d(4) by simp
  qed (simp add: with_login_def max_sessions_def)
  finally show ?thesis unfolding d_def .
qed

lemma issued_login:
  assumes "issued now K d" and "session_id s = i" and "session_expires s = now + session_ttl" and "i \<notin> K"
  shows "issued now (insert i K) (with_login i s d)"
proof -
  have 1: "issued now (insert i K) (d' @ [(i, s)])" if "issued now K d'" "length d' < max_sessions" for d'
    using that assms(2-4) by (auto simp: issued_def list_all_iff sorted_append)
  have "issued now K (tl d)" using assms(1)
    by (cases d) (auto simp: issued_def)
  moreover have "length (tl d) < max_sessions" if "\<not> length d < max_sessions"
    using assms(1) that by (simp add: issued_def max_sessions_def)
  ultimately show ?thesis using 1 assms(1) by (simp add: with_login_def)
qed

lemma few_behind_login:
  assumes "few_behind k sid d" and "i \<notin> keys d"
  shows "few_behind (if i = sid then 0 else Suc k) sid (with_login i s d)"
proof -
  have "few_behind k sid (tl d)"
    unfolding few_behind_def
  proof (intro allI impI)
    fix xs s ys
    assume t: "tl d = xs @ (sid, s) # ys"
    then have "d = (hd d # xs) @ (sid, s) # ys" by (cases d) simp_all
    then show "length ys \<le> k" using assms(1) unfolding few_behind_def by blast
  qed
  moreover have "few_behind (if i = sid then 0 else Suc k) sid (d' @ [(i, s)])" if "few_behind k sid d'" "i \<notin> keys d'" for d'
    unfolding few_behind_def
  proof (intro allI impI)
    fix xs s' ys
    assume e: "d' @ [(i, s)] = xs @ (sid, s') # ys"
    show "length ys \<le> (if i = sid then 0 else Suc k)"
    proof (cases ys rule: rev_cases)
      case (snoc zs z)
      then have d': "d' = xs @ (sid, s') # zs" using e by simp
      then have "length zs \<le> k" using that(1) unfolding few_behind_def by blast
      moreover have "i \<noteq> sid" using that(2) d' by auto
      ultimately show ?thesis using snoc by simp
    qed simp
  qed
  moreover have "i \<notin> keys (tl d)" using assms(2) by (cases d) auto
  ultimately show ?thesis using assms by (simp add: with_login_def)
qed

lemma login_get:
  assumes "wf_dict d" and "i \<notin> keys d" and "length d \<le> max_sessions" and "few_behind k sid d"
  shows "dget (with_login i s d) i = Some s"
    and "i \<noteq> sid \<Longrightarrow> dget (with_login i s d) sid \<in> {None, dget d sid}"
    and "i \<noteq> sid \<Longrightarrow> Suc k < max_sessions \<Longrightarrow> dget (with_login i s d) sid = dget d sid"
proof -
  have tail: "dget (tl d) x \<in> {None, dget d x}" for x
  proof (cases d)
    case (Cons e r)
    obtain i s where "e = (i, s)" by (cases e)
    then show ?thesis using Cons assms(1) by (auto simp: dget_None_iff)
  qed simp
  have none: "dget d i = None" using assms(2) by (simp add: dget_None_iff)
  then have "dget (tl d) i = None" using tail [of i] by auto
  then show "dget (with_login i s d) i = Some s" using none by (simp add: with_login_def map_add_def)
  show "dget (with_login i s d) sid \<in> {None, dget d sid}" if "i \<noteq> sid"
    using tail [of sid] that by (auto simp: with_login_def map_add_def split: option.split)
  show "dget (with_login i s d) sid = dget d sid" if ne: "i \<noteq> sid" and k: "Suc k < max_sessions"
  proof (cases "length d < max_sessions")
    case False
    then obtain j s' r where d: "d = (j, s') # r" and r: "Suc (length r) = max_sessions"
      using assms(3) k by (cases d) auto
    have "j \<noteq> sid"
    proof
      assume "j = sid"
      then have "length r \<le> k" using assms(4) d unfolding few_behind_def by (metis append_Nil)
      then show False using r k by simp
    qed
    then show ?thesis using ne d by (auto simp: with_login_def map_add_def max_sessions_def split: option.split)
  qed (use ne in \<open>auto simp: with_login_def map_add_def split: option.split\<close>)
qed

definition session_ok :: "signature_of \<Rightarrow> time \<Rightarrow> string set \<Rightarrow> nat \<Rightarrow> string \<Rightarrow> admin_session option \<Rightarrow> session_manager \<Rightarrow> bool" where
  "session_ok sign t K k sid g m \<longleftrightarrow> issued t K (sessions m) \<and> few_behind k sid (sessions m)
     \<and> (g = None \<or> valid_session_id sign sid)
     \<and> live_session t (dget (sessions m) sid) \<in> {None, live_session t g}
     \<and> (k < max_sessions \<longrightarrow> live_session t (dget (sessions m) sid) = live_session t g)"

lemma session_okD:
  assumes "session_ok sign t K k sid g m"
  shows "issued t K (sessions m)" and "wf_dict (sessions m)" and "few_behind k sid (sessions m)"
    and "g = None \<or> valid_session_id sign sid"
    and "t \<le> now \<Longrightarrow> live_session now (dget (sessions m) sid) \<in> {None, live_session now g}"
    and "t \<le> now \<Longrightarrow> k < max_sessions \<Longrightarrow> live_session now (dget (sessions m) sid) = live_session now g"
proof -
  note ok = assms [unfolded session_ok_def]
  show "issued t K (sessions m)" "few_behind k sid (sessions m)" "g = None \<or> valid_session_id sign sid" using ok by blast+
  then show "wf_dict (sessions m)" by (simp add: issued_def)
  assume t: "t \<le> now"
  note twice = live_session_twice [OF t, of "dget (sessions m) sid"] live_session_twice [OF t, of g]
  show "live_session now (dget (sessions m) sid) \<in> {None, live_session now g}" using ok twice by auto
  show "k < max_sessions \<Longrightarrow> live_session now (dget (sessions m) sid) = live_session now g" using ok twice by auto
qed

lemma session_later: "session_ok sign t K k sid g m \<Longrightarrow> t \<le> now \<Longrightarrow> session_ok sign now K k sid g m"
  using session_okD [of sign t K k sid g m] issued_later unfolding session_ok_def [of sign now] by blast

lemma session_cong: "session_ok sign t K k sid g m \<Longrightarrow> sessions m' = sessions m \<Longrightarrow> session_ok sign t K k sid g m'"
  by (simp add: session_ok_def)

lemma sessions_prune_get:
  "wf_dict (sessions m) \<Longrightarrow> dget (sessions (prune now m)) sid = live_session now (dget (sessions m) sid)"
  by (simp add: prune_def dget_filter_snd live_session_def)

lemma session_prune:
  assumes "session_ok sign t K k sid g m" and "t \<le> now"
  shows "session_ok sign now K k sid g (prune now m)"
proof -
  note ok = session_okD [OF session_later [OF assms]]
  have "issued now K (sessions (prune now m))" "few_behind k sid (sessions (prune now m))"
    using issued_filter [OF ok(1)] few_behind_filter [OF ok(3)] by (simp_all add: prune_def)
  then show ?thesis
    using ok(4) ok(5,6) [of now] unfolding session_ok_def sessions_prune_get [OF session_okD(2) [OF assms(1)]]
    by (simp add: live_session_twice)
qed

lemma session_pop:
  assumes "session_ok sign t K k sid g m" and "i = sid \<Longrightarrow> live_session t g' = None \<and> (g' = None \<or> g' = g)" and "i \<noteq> sid \<Longrightarrow> g' = g"
  shows "session_ok sign t K k sid g' (m\<lparr>sessions := dpop i (sessions m)\<rparr>)"
proof -
  note ok = session_okD [OF assms(1)]
  have "issued t K (dpop i (sessions m))" "few_behind k sid (dpop i (sessions m))"
    using issued_filter [OF ok(1)] few_behind_filter [OF ok(3)] by (simp_all add: AList.delete_eq)
  then show ?thesis
    using ok(4) ok(5,6) [of t] assms(2,3) by (cases "i = sid") (auto simp: session_ok_def)
qed

lemma valid_session_result:
  assumes "session_ok sign t K k sid g m" and "t \<le> now" and "sid \<noteq> []"
  shows "fst (valid_session sign (Some sid) now m) = live_session now (dget (sessions m) sid)"
proof -
  note ok = session_okD [OF assms(1)]
  have eq: "dget (sessions (prune now m)) sid = live_session now (dget (sessions m) sid)"
    by (rule sessions_prune_get [OF ok(2)])
  show ?thesis
  proof (cases "live_session now (dget (sessions m) sid)")
    case None
    then show ?thesis using eq assms(3) by (simp add: valid_session_def Let_def)
  next
    case (Some s)
    then have "live_session now g = Some s" using ok(5) [OF assms(2)] by simp
    then have "g \<noteq> None" by (cases g) simp_all
    then have "valid_session_id sign sid" using ok(4) by blast
    moreover have "now < session_expires s" using Some by (auto simp: live_session_def split: option.splits if_splits)
    ultimately show ?thesis using eq assms(3) Some by (simp add: valid_session_def Let_def)
  qed
qed

lemma valid_session_keeps:
  assumes "session_ok sign t K k sid g m" and "t \<le> now"
  shows "session_ok sign now K k sid g (snd (valid_session sign i now m))"
proof (cases "i = None \<or> i = Some []")
  case True
  then have "snd (valid_session sign i now m) = m" by (auto simp: valid_session_def)
  then show ?thesis using session_later [OF assms] by simp
next
  case False
  then obtain j where j: "i = Some j" "j \<noteq> []" by auto
  let ?m = "prune now m"
  have ok: "session_ok sign now K k sid g ?m" by (rule session_prune [OF assms])
  show ?thesis
  proof (cases "fst (valid_session sign i now m)")
    case None
    have step: "snd (valid_session sign i now m) = ?m\<lparr>sessions := dpop j (sessions ?m)\<rparr>"
      using None j by (auto simp: valid_session_def Let_def split: option.splits if_splits)
    show ?thesis
    proof (cases "j = sid")
      case True
      have "live_session now (dget (sessions m) sid) = None"
        using None valid_session_result [OF assms] j True by simp
      then have gone: "dget (sessions ?m) sid = None"
        using sessions_prune_get [OF session_okD(2) [OF assms(1)]] by simp
      then have "dpop j (sessions ?m) = sessions ?m" using True by (simp add: dget_None_iff delete_id)
      then show ?thesis unfolding step using ok by simp
    qed (use step session_pop [OF ok, of j g] in simp)
  next
    case (Some s)
    then have "snd (valid_session sign i now m) = ?m" using j by (auto simp: valid_session_def Let_def split: option.splits if_splits)
    then show ?thesis using ok by simp
  qed
qed

lemma login_allowed_sessions: "sessions (snd (login_allowed who now m)) = sessions (prune now m)"
  by (simp add: login_allowed_def Let_def split: option.splits)

lemma session_login:
  assumes "session_ok sign t K k sid g m" and "t \<le> now" and "dot_free sign" and "password_hash m \<noteq> None"
    and "new_session_id sign nonce \<notin> K"
  defines "i \<equiv> new_session_id sign nonce"
  shows "session_ok sign now (insert i K) (if i = sid then 0 else Suc k) sid
    (if i = sid then Some \<lparr>session_id = sid, csrf_token = csrf, session_expires = now + session_ttl\<rparr> else g)
    (snd (admin_authenticate sign True nonce csrf now m))"
proof -
  let ?s = "\<lparr>session_id = i, csrf_token = csrf, session_expires = now + session_ttl\<rparr>"
  let ?d = "sessions (prune now m)"
  note ok = session_okD [OF session_prune [OF assms(1,2)]]
  have new: "i \<notin> keys ?d" and len: "length ?d \<le> max_sessions"
    using ok(1) assms(5) by (auto simp: issued_def list_all_iff i_def)
  have ss: "sessions (snd (admin_authenticate sign True nonce csrf now m)) = with_login i ?s ?d"
    unfolding i_def by (rule login_sessions [OF ok(1) assms(5,4)])
  note get = login_get [OF ok(2) new len ok(3), of ?s]
  show ?thesis
    unfolding session_ok_def ss
  proof (intro conjI)
    show "issued now (insert i K) (with_login i ?s ?d)" using assms(5) by (intro issued_login [OF ok(1)]) (simp_all add: i_def)
    show "few_behind (if i = sid then 0 else Suc k) sid (with_login i ?s ?d)" by (rule few_behind_login [OF ok(3) new])
  qed (use get ok(4) ok(5,6) [of now] new_session_id_valid [OF assms(3), of nonce] in \<open>auto simp: i_def\<close>)
qed

lemma logins_since_simps [simp]:
  "logins_since sid [] k = k" "logins_since sid (i # ids) k = logins_since sid ids (if i = sid then 0 else Suc k)"
  by (simp_all add: logins_since_def)

lemma session_step_ok:
  assumes "session_ok sign t K k sid g m" and "\<forall>now \<in> set (op_clock op). t \<le> now"
    and "set (issued_ids sign [op]) \<inter> K = {}" and "dot_free sign" and "password_hash m \<noteq> None"
  shows "session_ok sign (case op_clock op of [] \<Rightarrow> t | now # _ \<Rightarrow> now) (set (issued_ids sign [op]) \<union> K)
    (logins_since sid (issued_ids sign [op]) k) sid (granted_after sign sid [op] g) (session_step sign op m)"
proof (cases op)
  case (Login v nonce csrf now)
  then have t: "t \<le> now" using assms(2) by simp
  show ?thesis
  proof (cases v)
    case False
    then show ?thesis using Login session_later [OF assms(1) t] by (simp add: admin_authenticate_def)
  next
    case True
    then show ?thesis using Login session_login [OF assms(1) t assms(4,5)] assms(3) by simp
  qed
next
  case (ChangePassword v h)
  have "session_ok sign t K k sid None (m\<lparr>password_hash := Some h, sessions := [], login_failures := []\<rparr>)"
    by (simp add: session_ok_def issued_def few_behind_def)
  then show ?thesis using assms(1,5) ChangePassword by (simp add: change_password_def del: not_None_eq)
next
  case (CheckLogin who now)
  then have "session_ok sign now K k sid g (prune now m)" using session_prune [OF assms(1)] assms(2) by simp
  then show ?thesis using CheckLogin by (simp add: session_cong login_allowed_sessions)
next
  case (FailLogin who now)
  then have "session_ok sign now K k sid g (prune now m)" using session_prune [OF assms(1)] assms(2) by simp
  then show ?thesis using FailLogin by (simp add: session_cong record_login_failure_def Let_def login_allowed_sessions)
next
  case (SucceedLogin who)
  then show ?thesis using session_cong [OF assms(1)] by (simp add: record_login_success_def)
next
  case (LookUp i now)
  then show ?thesis using valid_session_keeps [OF assms(1)] assms(2) by simp
next
  case (Revoke i)
  show ?thesis
  proof (cases "i = None \<or> i = Some []")
    case True
    then have "revoke i m = m" "i \<noteq> Some sid \<or> sid = []" by (auto simp: revoke_def)
    then show ?thesis using assms(1) Revoke by auto
  next
    case False
    then obtain j where "i = Some j" "j \<noteq> []" by auto
    then show ?thesis using Revoke session_pop [OF assms(1), of j "if j = sid then None else g"]
      by (auto simp: revoke_def)
  qed
qed

lemma granted_after_Cons:
  "granted_after sign sid (op # ops) g = granted_after sign sid ops (granted_after sign sid [op] g)"
  by (cases op) simp_all

lemma issued_ids_Cons: "issued_ids sign (op # ops) = issued_ids sign [op] @ issued_ids sign ops"
  by (cases op) simp_all

lemma session_run_ok:
  assumes "session_ok sign t K k sid g m" and "sorted (t # concat (map op_clock ops))"
    and "distinct (issued_ids sign ops)" and "set (issued_ids sign ops) \<inter> K = {}" and "dot_free sign" and "password_hash m \<noteq> None"
  shows "\<exists>t' K'. t' \<in> set (t # concat (map op_clock ops))
    \<and> session_ok sign t' K' (logins_since sid (issued_ids sign ops) k) sid (granted_after sign sid ops g) (session_run sign ops m)"
  using assms
proof (induction ops arbitrary: t K k g m)
  case (Cons op ops)
  let ?t = "case op_clock op of [] \<Rightarrow> t | now # _ \<Rightarrow> now"
  let ?K = "set (issued_ids sign [op]) \<union> K"
  let ?k = "logins_since sid (issued_ids sign [op]) k"
  have c: "op_clock op = [] \<or> (\<exists>now. op_clock op = [now])" by (cases op) simp_all
  note split = issued_ids_Cons [of sign op ops]
  have step: "session_ok sign ?t ?K ?k sid (granted_after sign sid [op] g) (session_step sign op m)"
    using Cons.prems by (intro session_step_ok) (auto simp: split)
  have sorted: "sorted (?t # concat (map op_clock ops))" using c Cons.prems(2) by auto
  have ids: "distinct (issued_ids sign ops)" "set (issued_ids sign ops) \<inter> ?K = {}"
    using Cons.prems(3,4) unfolding split by auto
  obtain t' K' where t': "t' \<in> set (?t # concat (map op_clock ops))"
    and "session_ok sign t' K' (logins_since sid (issued_ids sign ops) ?k) sid
      (granted_after sign sid ops (granted_after sign sid [op] g)) (session_run sign ops (session_step sign op m))"
    using Cons.IH [OF step sorted ids Cons.prems(5) step_configured [OF Cons.prems(6)]] by blast
  then have "session_ok sign t' K' (logins_since sid (issued_ids sign (op # ops)) k) sid (granted_after sign sid (op # ops) g)
      (session_run sign (op # ops) m)"
    unfolding granted_after_Cons [of sign sid op ops] split by (simp add: logins_since_def)
  moreover have "t' \<in> set (t # concat (map op_clock (op # ops)))" using c t' by auto
  ultimately show ?case by blast
qed auto

lemma session_new: "session_ok sign t {} 0 sid None (new_manager h)"
  by (simp add: session_ok_def issued_def few_behind_def new_manager_def)

end
