(* ===== verification/Market_Properties.thy ===== *)
theory Market_Properties
  imports Broker_Facts Admin_Sessions
begin

text \<open>
  What the market side guarantees: the order and the delivery of the broker's events, the waits
  after failures, the statutory workdays and the trading calendar, and the administrator's logins
  and sessions.
\<close>

section \<open>The broker\<close>

text \<open>
  C12: A subscriber sees the snapshots of a symbol with strictly increasing sequence numbers. This holds
  from every reachable state of the broker and for every interleaving of subscriptions, reads, failures,
  seeds and deliveries, as long as somebody stays subscribed to the symbol (after the last one left the
  broker forgets the symbol and numbers it from one again).
\<close>

theorem subscribers_see_increasing_sequences:
  assumes "broker_run cfg (\<lambda>_. True) new_broker history b" and "broker_run cfg (\<lambda>b. s \<in> referenced b) b ls b'"
  shows "sorted_wrt (<) (delivered c s ls)"
  using run_delivers_sorted [OF assms(2)] broker_run_inv [OF assms(1)] by simp

definition demo_config :: broker_config where
  "demo_config = \<lparr>detail_interval = 2, watchlist_interval = 2\<rparr>"

definition demo_snapshot :: snapshot where
  "demo_snapshot = new_snapshot ''600519'' None ''17'' 0 []"

definition demo_subscribed :: broker where
  "demo_subscribed = snd (subscribe True ''a'' {} {''600519''} new_broker)"

definition demo_stored :: "broker \<Rightarrow> broker" where
  "demo_stored b = snd (refresh_store 0 1 ''600519'' True demo_snapshot b)"

definition demo_public :: "nat \<Rightarrow> public_snapshot" where
  "demo_public n = snapshot_public 0 (demo_snapshot\<lparr>snap_sequence := n\<rparr>)"

definition demo_delivered :: "broker \<Rightarrow> broker" where
  "demo_delivered b = snd (the (next_event ''a'' b))"

lemmas demo_broker = demo_config_def demo_snapshot_def demo_subscribed_def demo_stored_def demo_public_def demo_delivered_def
  subscribe_def new_broker_def refresh_store_def publish_def publish_one_def wanted_def subscription_def get_or_def
  next_event_def snapshot_public_def Let_def referenced_def dfilter_def

lemma demo_deliver:
  assumes "queues b = [(''a'', [(''600519'', ''snapshot'')])]"
    and "pending_events b = [(''a'', [((''600519'', ''snapshot''), SnapshotEvent p)])]"
  shows "broker_step cfg b (Deliver ''a'' ''600519'' (SnapshotEvent p)) (demo_delivered b)"
  by (rule delivers) (simp_all add: assms next_event_def demo_delivered_def get_or_def)

lemma demo_state:
  "subscriptions demo_subscribed = [(''a'', {}, {''600519''})]"
  "queues (demo_stored demo_subscribed) = [(''a'', [(''600519'', ''snapshot'')])]"
  "pending_events (demo_stored demo_subscribed) = [(''a'', [((''600519'', ''snapshot''), SnapshotEvent (demo_public 1))])]"
  "queues (demo_stored (demo_delivered (demo_stored demo_subscribed))) = [(''a'', [(''600519'', ''snapshot'')])]"
  "pending_events (demo_stored (demo_delivered (demo_stored demo_subscribed)))
     = [(''a'', [((''600519'', ''snapshot''), SnapshotEvent (demo_public 2))])]"
  by (simp_all add: demo_broker numeral_2_eq_2)

lemma demo_referenced:
  "''600519'' \<in> referenced demo_subscribed"
  "''600519'' \<in> referenced (demo_stored demo_subscribed)"
  "''600519'' \<in> referenced (demo_delivered (demo_stored demo_subscribed))"
  "''600519'' \<in> referenced (demo_stored (demo_delivered (demo_stored demo_subscribed)))"
  "''600519'' \<in> referenced (demo_delivered (demo_stored (demo_delivered (demo_stored demo_subscribed))))"
  by (simp_all add: demo_broker)

lemma demo_subscribe: "broker_step cfg new_broker Internal demo_subscribed"
  unfolding demo_subscribed_def by (rule subscribes)

lemma demo_history: "broker_run cfg (\<lambda>_. True) new_broker [Internal] demo_subscribed"
  by (rule run_step [OF demo_subscribe TrueI run_nil])

lemma demo_store: "broker_step cfg b Internal (demo_stored b)"
  unfolding demo_stored_def by (rule stores)

definition demo_labels :: "broker_label list" where
  "demo_labels = [Internal, Deliver ''a'' ''600519'' (SnapshotEvent (demo_public 1)),
     Internal, Deliver ''a'' ''600519'' (SnapshotEvent (demo_public 2))]"

lemma demo_run: "broker_run cfg (\<lambda>b. ''600519'' \<in> referenced b) demo_subscribed demo_labels
    (demo_delivered (demo_stored (demo_delivered (demo_stored demo_subscribed))))"
  unfolding demo_labels_def
  by (rule run_step, rule demo_store, rule demo_referenced(2),
      rule run_step, rule demo_deliver [OF demo_state(2,3)], rule demo_referenced(3),
      rule run_step, rule demo_store, rule demo_referenced(4),
      rule run_step, rule demo_deliver [OF demo_state(4,5)], rule demo_referenced(5), rule run_nil)

lemma subscribers_see_increasing_sequences_witness:
  "delivered ''a'' ''600519'' demo_labels = [1, 2] \<and> sorted_wrt (<) (delivered ''a'' ''600519'' demo_labels)"
  using subscribers_see_increasing_sequences [OF demo_history demo_run]
  by (simp add: demo_labels_def demo_public_def snapshot_public_def)

text \<open>The events a subscriber receives when it asks a number of times and nothing else happens.\<close>

fun drain :: "nat \<Rightarrow> string \<Rightarrow> broker \<Rightarrow> market_event list" where
  "drain 0 c b = []"
| "drain (Suc n) c b = (case next_event c b of Some (Some e, b') \<Rightarrow> e # drain n c b' | _ \<Rightarrow> [])"

lemma next_pending_taken:
  assumes "next_pending q p = (Some e, q', p')"
  shows "\<exists>k. dget p k = Some e \<and> p' = dpop k p \<and> length q' < length q"
  using assms by (induction q) (auto split: option.splits intro: less_SucI)

lemma drain_delivers:
  assumes "broker_inv b" and "dget (get_or [] (pending_events b) c) key = Some e"
    and "length (get_or [] (queues b) c) \<le> n"
  shows "e \<in> set (drain n c b)"
  using assms
proof (induction n arbitrary: b)
  case 0
  then show ?case using client_okD(1) [OF broker_invD(2) [OF "0.prems"(1)] "0.prems"(2)] by simp
next
  case (Suc n)
  obtain ev b' where n: "next_event c b = Some (Some ev, b')"
    using next_event_delivers [OF Suc.prems(1,2)] by blast
  obtain q' p' where np: "next_pending (get_or [] (queues b) c) (get_or [] (pending_events b) c) = (Some ev, q', p')"
    and f: "get_or [] (queues b') c = q'" "get_or [] (pending_events b') c = p'"
    using next_event_fields(4) [OF n] by fastforce
  obtain k where k: "dget (get_or [] (pending_events b) c) k = Some ev"
    "p' = dpop k (get_or [] (pending_events b) c)" "length q' < length (get_or [] (queues b) c)"
    using next_pending_taken [OF np] by blast
  show ?case
  proof (cases "k = key")
    case True
    then show ?thesis using k(1) Suc.prems(2) n by simp
  next
    case False
    then have "dget (get_or [] (pending_events b') c) key = Some e" using k(2) f(2) Suc.prems(2) by simp
    then have "e \<in> set (drain n c b')"
      using Suc.IH [OF broker_inv_next [OF Suc.prems(1) n]] k(3) f(1) Suc.prems(3) by simp
    then show ?thesis using n by simp
  qed
qed

text \<open>
  No published event is lost: in every reachable state of the broker, an event pending for a
  subscriber is among those it receives when it asks as often as its queue is long.
\<close>

theorem pending_events_are_delivered:
  assumes "broker_run cfg (\<lambda>_. True) new_broker history b"
    and "dget (get_or [] (pending_events b) c) key = Some e"
  shows "e \<in> set (drain (length (get_or [] (queues b) c)) c b)"
  using drain_delivers [OF broker_run_inv [OF assms(1)] assms(2)] by simp

lemma demo_stored_run: "broker_run cfg (\<lambda>_. True) new_broker [Internal, Internal] (demo_stored demo_subscribed)"
  by (rule run_step [OF demo_subscribe TrueI run_step [OF demo_store TrueI run_nil]])

lemma pending_events_are_delivered_witness:
  "SnapshotEvent (demo_public 1) \<in> set (drain 1 ''a'' (demo_stored demo_subscribed))"
  using pending_events_are_delivered [OF demo_stored_run, of "''a''" "(''600519'', ''snapshot'')" "SnapshotEvent (demo_public 1)"]
  by (simp add: demo_state get_or_def)

section \<open>Waits after failures\<close>

definition fail_all :: "broker_config \<Rightarrow> string \<Rightarrow> string option \<Rightarrow> seconds list \<Rightarrow> broker \<Rightarrow> broker" where
  "fail_all cfg s error ts b = foldl (\<lambda>b t. publish_failure cfg t s error b) b ts"

lemma publish_failure_fields:
  "failure_counts (publish_failure cfg t s error b) = dset s (get_or 0 (failure_counts b) s + 1) (failure_counts b)"
  "retry_after (publish_failure cfg t s error b)
     = dset s (t + backoff cfg (get_or 0 (failure_counts b) s + 1)) (retry_after b)"
  "last_polled (publish_failure cfg t s error b) = dset s t (last_polled b)"
  "subscriptions (publish_failure cfg t s error b) = subscriptions b"
  by (simp_all add: publish_failure_def Let_def)

lemma fail_all_counts:
  "get_or 0 (failure_counts (fail_all cfg s error ts b)) s = get_or 0 (failure_counts b) s + length ts"
  unfolding fail_all_def by (induction ts arbitrary: b) (simp_all add: publish_failure_fields)

lemma due_publish_failure: "s' \<noteq> s \<Longrightarrow> due cfg now (publish_failure cfg t s error b) s' = due cfg now b s'"
  by (simp only: due_def publish_failure_fields detail_symbols_def) simp

lemma fail_all_due: "s' \<noteq> s \<Longrightarrow> due cfg now (fail_all cfg s error ts b) s' = due cfg now b s'"
  unfolding fail_all_def by (induction ts arbitrary: b) (simp_all add: due_publish_failure)

text \<open>
  After a number of failures in a row a symbol is not polled again before the wait is over: the wait
  doubles from the longer interval up to sixteen times it, is never longer than thirty seconds, and the
  other symbols are polled as before.
\<close>

theorem failures_back_off:
  assumes "get_or 0 (failure_counts b) s = 0" and "ts \<noteq> []"
  shows "(s \<in> set (poll_symbols cfg True now (fail_all cfg s error ts b)) \<longrightarrow>
      last ts + min 30 (max (detail_interval cfg) (watchlist_interval cfg) * 2 ^ min (length ts - 1) 4) \<le> now)
    \<and> (\<forall>s'. s' \<noteq> s \<longrightarrow> due cfg now (fail_all cfg s error ts b) s' = due cfg now b s')"
proof (intro conjI allI)
  obtain us t where ts: "ts = us @ [t]" using assms(2) by (metis rev_exhaust)
  have "get_or 0 (failure_counts (fail_all cfg s error us b)) s = length us" using fail_all_counts assms(1) by simp
  then have "get_or 0 (retry_after (fail_all cfg s error ts b)) s = t + backoff cfg (length us + 1)"
    by (simp add: ts fail_all_def publish_failure_fields)
  then show "s \<in> set (poll_symbols cfg True now (fail_all cfg s error ts b)) \<longrightarrow>
      last ts + min 30 (max (detail_interval cfg) (watchlist_interval cfg) * 2 ^ min (length ts - 1) 4) \<le> now"
    by (simp add: poll_symbols_def due_def backoff_def ts)
qed (simp add: fail_all_due)

lemma failures_back_off_witness:
  "''600519'' \<notin> set (poll_symbols demo_config True 7 (fail_all demo_config ''600519'' None [0, 2, 4] demo_subscribed))"
  using failures_back_off [of demo_subscribed "''600519''" "[0, 2, 4]" demo_config 7 None]
  by (simp add: demo_broker numeral_2_eq_2)

section \<open>Calendars\<close>

text \<open>
  C40: Adding workdays counts them: a date that is returned has exactly that many workdays between the
  start, excluded, and itself, and is a workday when the count is positive; no date is returned only when
  the start is outside the covered years or too few workdays are left in them, and the loop always ends.
\<close>

theorem add_workdays_counts:
  "case add_workdays cal start count of
     None \<Rightarrow> count < 0
   | Some None \<Rightarrow> 0 \<le> count \<and> (is_workday cal start = None
       \<or> int (card (workdays_between cal start (coverage_end cal))) < count)
   | Some (Some d) \<Rightarrow> start \<le> d \<and> int (card (workdays_between cal start d)) = count
       \<and> (0 < count \<longrightarrow> is_workday cal d = Some True)"
proof (cases "count < 0 \<or> is_workday cal start = None")
  case True
  then show ?thesis by (cases "count < 0") (auto simp: add_workdays_def)
next
  case False
  then have c: "0 \<le> count" "is_workday cal start \<noteq> None" by auto
  show ?thesis
  proof (cases "add_workdays_loop cal start (nat count)")
    case None
    have "int (card (workdays_between cal start (coverage_end cal))) < count"
      using add_workdays_loop_none [OF None c(2)] c(1) by simp
    then show ?thesis using None c by (simp add: add_workdays_def)
  next
    case (Some d)
    then show ?thesis using add_workdays_loop_counts [OF Some c(2)] c by (simp add: add_workdays_def)
  qed
qed

text \<open>Day 1 is a Friday; with a holiday on the Monday after it and work on the Saturday of the next week,
  the fifth workday is that Saturday.\<close>

definition demo_calendar :: workday_calendar where
  "demo_calendar = \<lparr>coverage_start = 0, coverage_end = 40, holidays = {4}, adjusted_workdays = {9}\<rparr>"

lemma demo_add_workdays: "add_workdays demo_calendar 1 5 = Some (Some 9)"
  by (simp add: add_workdays_def add_workdays_loop.simps is_workday_def demo_calendar_def weekday_def)

lemma add_workdays_counts_witness:
  "int (card (workdays_between demo_calendar 1 9)) = 5 \<and> is_workday demo_calendar 9 = Some True"
  using add_workdays_counts [where cal = demo_calendar and start = 1 and count = 5] by (simp add: demo_add_workdays)

text \<open>A sequence of questions to one calendar object, each with the file it finds.\<close>

fun ask_all :: "(date \<Rightarrow> bool) \<Rightarrow> (calendar_file \<times> date) list \<Rightarrow> trading_calendar \<Rightarrow> bool list" where
  "ask_all fallback [] st = []"
| "ask_all fallback ((f, d) # qs) st =
     (case is_trading_day fallback (Some f) None st d of (answer, st') \<Rightarrow> answer # ask_all fallback qs st')"

lemma ask_all_loaded:
  assumes "\<forall>q \<in> set qs. \<exists>sg. file_signature (fst q) = Some sg \<and> file_payload (fst q) = contents sg"
    and "calendar_loaded contents st"
  shows "ask_all fallback qs st = map (\<lambda>(f, d). case parse_calendar (file_payload f) of
      (days, legal) \<Rightarrow> trading_day_from fallback days legal d) qs"
  using assms
proof (induction qs arbitrary: st)
  case (Cons q qs)
  obtain f d where q: "q = (f, d)" by (cases q)
  then obtain sg where sg: "file_signature f = Some sg" "file_payload f = contents sg" using Cons.prems(1) by auto
  note l = is_trading_day_loaded [where configured = "Some f" and bundled = None and fallback = fallback and d = d, OF Cons.prems(2) sg]
  obtain answer st' where a: "is_trading_day fallback (Some f) None st d = (answer, st')"
    by (cases "is_trading_day fallback (Some f) None st d")
  have "ask_all fallback qs st' = map (\<lambda>(f, d). case parse_calendar (file_payload f) of
      (days, legal) \<Rightarrow> trading_day_from fallback days legal d) qs"
    using Cons.IH [of st'] Cons.prems(1) l(1) a by simp
  then show ?case using l(2) a sg(2) by (simp add: q)
qed simp

text \<open>
  Keeping the parsed calendar between questions is invisible: as long as a file with the same time and
  size has the same contents, every answer is the one that parsing the file anew gives, also when the
  file changes between the questions.
\<close>

theorem calendar_cache_transparent:
  assumes "\<forall>q \<in> set qs. \<exists>sg. file_signature (fst q) = Some sg \<and> file_payload (fst q) = contents sg"
  shows "ask_all fallback qs new_trading_calendar = map (\<lambda>(f, d). case parse_calendar (file_payload f) of
      (days, legal) \<Rightarrow> trading_day_from fallback days legal d) qs"
  using assms by (rule ask_all_loaded) simp

definition demo_file :: "int \<Rightarrow> json option \<Rightarrow> calendar_file" where
  "demo_file time payload = \<lparr>file_signature = Some (time, 10), file_payload = payload\<rparr>"

definition demo_days :: json where
  "demo_days = JArr [JStr ''19700104'']"

lemma demo_days_parsed: "parse_calendar (Some demo_days) = (Some {3}, None)"
  by code_simp

lemma demo_none_parsed: "parse_calendar None = (None, None)"
  by (simp add: parse_calendar_def)

lemma calendar_cache_transparent_witness:
  "ask_all weekday_trading_day [(demo_file 1 (Some demo_days), 3), (demo_file 1 (Some demo_days), 4), (demo_file 2 None, 4)]
     new_trading_calendar = [True, False, True]"
proof -
  let ?qs = "[(demo_file 1 (Some demo_days), 3), (demo_file 1 (Some demo_days), 4), (demo_file 2 None, 4)]"
  have "\<forall>q \<in> set ?qs. \<exists>sg. file_signature (fst q) = Some sg
      \<and> file_payload (fst q) = (if fst sg = 1 then Some demo_days else None)"
    by (simp add: demo_file_def)
  from calendar_cache_transparent [OF this, of weekday_trading_day] show ?thesis
    by (simp add: demo_file_def demo_days_parsed demo_none_parsed trading_day_from_def weekday_trading_day_def weekday_def)
qed

section \<open>Administrator logins\<close>

lemma clock_start: "sorted (ts @ [now]) \<Longrightarrow> \<exists>t. sorted (t # ts) \<and> (\<forall>x \<in> set (t # ts). x \<le> now)" for now :: time
  by (rule exI [of _ "hd (ts @ [now])"]) (cases ts; simp add: sorted_append)

text \<open>
  Whatever was done before, in clock order, and for any number of clients, a client may log in exactly
  when fewer than five of its failures since its last success or change of the password are less than a
  minute old.
\<close>

theorem login_limit_counts_failures:
  assumes "sorted (concat (map op_clock ops) @ [now])"
  shows "fst (login_allowed who now (session_run sign ops (new_manager (Some h)))) \<longleftrightarrow>
    length (filter (\<lambda>t. now - login_failure_window < t) (failures_after who ops [])) < login_failure_limit"
proof -
  let ?ts = "concat (map op_clock ops)"
  obtain t where s: "sorted (t # ?ts)" and n: "\<forall>x \<in> set (t # ?ts). x \<le> now"
    using clock_start [OF assms] by blast
  have "password_hash (new_manager (Some h)) \<noteq> None" by (simp add: new_manager_def)
  from limiter_run [OF limiter_new s this] obtain t'
    where ok: "limiter_ok t' who (failures_after who ops []) (session_run sign ops (new_manager (Some h)))"
      and t': "t' \<in> set (t # ?ts)" by blast
  then have "t' \<le> now" using n by blast
  then show ?thesis using ok failures_of_login_allowed(3) by (simp add: limiter_ok_def)
qed

lemma login_limit_counts_failures_witness:
  "\<not> fst (login_allowed ''ip'' 9 (session_run None (map (FailLogin ''ip'') [1, 2, 3, 4, 5]) (new_manager (Some []))))"
  using login_limit_counts_failures [of "map (FailLogin ''ip'') [1, 2, 3, 4, 5]" 9 "''ip''" None "[]"]
  by (simp add: login_failure_window_def login_failure_limit_def usec_per_sec_def)

text \<open>
  C26: After any operations in clock order in which no identifier is issued twice, any number of logins included: a session that
  is found under an identifier is the one of its last grant, which was not revoked by a logout or a change of the password and
  has not expired; such a session is found as long as fewer logins than the manager holds followed its grant; and the manager
  never holds more. (Signatures have no dot.)
\<close>

theorem only_granted_sessions_found:
  assumes "sorted (concat (map op_clock ops) @ [now])" and "distinct (issued_ids sign ops)" and "dot_free sign" and "sid \<noteq> []"
  shows "fst (valid_session sign (Some sid) now (session_run sign ops (new_manager (Some h))))
      \<in> {None, live_session now (granted_after sign sid ops None)}
    \<and> (logins_since sid (issued_ids sign ops) 0 < max_sessions \<longrightarrow>
        fst (valid_session sign (Some sid) now (session_run sign ops (new_manager (Some h))))
          = live_session now (granted_after sign sid ops None))
    \<and> length (sessions (session_run sign ops (new_manager (Some h)))) \<le> max_sessions"
proof -
  let ?ts = "concat (map op_clock ops)"
  obtain t where s: "sorted (t # ?ts)" and n: "\<forall>x \<in> set (t # ?ts). x \<le> now"
    using clock_start [OF assms(1)] by blast
  have "password_hash (new_manager (Some h)) \<noteq> None" by (simp add: new_manager_def)
  from session_run_ok [OF session_new s assms(2) _ assms(3) this] obtain t' K
    where ok: "session_ok sign t' K (logins_since sid (issued_ids sign ops) 0) sid (granted_after sign sid ops None)
        (session_run sign ops (new_manager (Some h)))"
      and t': "t' \<in> set (t # ?ts)" by (metis Int_empty_right)
  have "t' \<le> now" using n t' by blast
  then show ?thesis
    using valid_session_result [OF ok _ assms(4)] session_okD [OF ok] by (simp add: issued_def)
qed

lemma only_granted_sessions_found_witness:
  "fst (valid_session None (Some ''x'') 9 (session_run None
       [Login True ''x'' ''c'' 1, Login True ''z'' ''d'' 2, Revoke (Some ''y'')] (new_manager (Some []))))
     = Some \<lparr>session_id = ''x'', csrf_token = ''c'', session_expires = 1 + session_ttl\<rparr>"
  using only_granted_sessions_found [of "[Login True ''x'' ''c'' 1, Login True ''z'' ''d'' 2, Revoke (Some ''y'')]" 9 None "''x''" "[]"]
  by (simp add: dot_free_def max_sessions_def live_session_def new_session_id_def session_ttl_def hours_def usec_per_sec_def)

end
