(* ===== verification/Decimals.thy ===== *)
theory Decimals
  imports Curve Models
begin

text \<open>
  The arithmetic of Python's \<open>decimal\<close> module in its default context, which the program uses for
  every market number: each operation is exact and then rounded to 28 significant digits, half to
  even. A finite \<open>Decimal\<close> is a \<open>rat\<close>; numbers whose exponent leaves the range of the context
  (beyond 10 to the power 999999) are not modelled. \<open>_decimal\<close> and \<open>_formatted\<close> are those of
  \<open>level2_service/direct_market.py\<close>.
\<close>

section \<open>Rounding to 28 digits\<close>

fun num_digits :: "nat \<Rightarrow> nat" where
  "num_digits n = (if n < 10 then 1 else Suc (num_digits (n div 10)))"

declare num_digits.simps [simp del]

definition half_even :: "rat \<Rightarrow> int" where
  "half_even x =
     (let f = \<lfloor>x\<rfloor>; d = x - of_int f in
      if d < 1 / 2 then f else if d > 1 / 2 then f + 1 else if even f then f else f + 1)"

text \<open>The number of digits before the point of a positive number (negative below 0.1).\<close>

definition decimal_exponent :: "rat \<Rightarrow> int" where
  "decimal_exponent x =
     (case quotient_of x of (a, b) \<Rightarrow>
        let e = int (num_digits (nat a)) - int (num_digits (nat b)) in
        if 10 powi e \<le> x then e + 1 else e)"

definition dec28 :: "rat \<Rightarrow> rat" where
  "dec28 v =
     (if v = 0 then 0
      else let s = 28 - decimal_exponent \<bar>v\<bar> in sgn v * of_int (half_even (\<bar>v\<bar> * 10 powi s)) / 10 powi s)"

definition dadd :: "rat \<Rightarrow> rat \<Rightarrow> rat" where "dadd x y = dec28 (x + y)"
definition dsub :: "rat \<Rightarrow> rat \<Rightarrow> rat" where "dsub x y = dec28 (x - y)"
definition dmul :: "rat \<Rightarrow> rat \<Rightarrow> rat" where "dmul x y = dec28 (x * y)"
definition ddiv :: "rat \<Rightarrow> rat \<Rightarrow> rat" where "ddiv x y = dec28 (x / y)"

named_theorems decimal_simps \<open>the rounded operations\<close>
declare dadd_def [decimal_simps] dsub_def [decimal_simps] dmul_def [decimal_simps] ddiv_def [decimal_simps]

lemma num_digits_bounds: "(n = 0 \<or> 10 ^ (num_digits n - 1) \<le> n) \<and> n < 10 ^ num_digits n \<and> 0 < num_digits n"
proof (induction n rule: num_digits.induct)
  case (1 n)
  show ?case
  proof (cases "n < 10")
    case True then show ?thesis by (auto simp: num_digits.simps [of n])
  next
    case False
    let ?m = "n div 10"
    have ih: "10 ^ (num_digits ?m - 1) \<le> ?m" "?m < 10 ^ num_digits ?m" "0 < num_digits ?m"
      using 1 [OF False] False by auto
    have "10 * 10 ^ (num_digits ?m - 1) \<le> n" using ih(1) by simp
    moreover have "n < 10 * 10 ^ num_digits ?m" using ih(2) by linarith
    moreover have "10 * 10 ^ (num_digits ?m - 1) = (10 :: nat) ^ num_digits ?m"
      using ih(3) by (metis Suc_diff_1 power_Suc)
    ultimately show ?thesis using False by (simp add: num_digits.simps [of n])
  qed
qed

lemma half_even_bound: "\<bar>of_int (half_even x) - x\<bar> \<le> 1 / 2"
  unfolding half_even_def Let_def
  using of_int_floor_le [of x] floor_correct [of x] by (auto simp: abs_le_iff; linarith)

lemma half_even_int [simp]: "half_even (of_int n) = n"
  by (simp add: half_even_def Let_def)

lemma decimal_exponent_bounds:
  assumes "0 < x"
  shows "10 powi (decimal_exponent x - 1) \<le> x" "x < 10 powi decimal_exponent x"
proof -
  obtain a b where q: "quotient_of x = (a, b)" by (cases "quotient_of x")
  have b: "0 < b" and x: "x = of_int a / of_int b"
    using quotient_of_denom_pos [OF q] quotient_of_div [OF q] by auto
  then have a: "0 < a" using assms by (simp add: zero_less_divide_iff)
  let ?da = "num_digits (nat a)" and ?db = "num_digits (nat b)"
  let ?e = "int ?da - int ?db"
  have na: "10 ^ (?da - 1) \<le> nat a" "nat a < 10 ^ ?da" "0 < ?da"
    and nb: "10 ^ (?db - 1) \<le> nat b" "nat b < 10 ^ ?db" "0 < ?db"
    using num_digits_bounds [of "nat a"] num_digits_bounds [of "nat b"] a b by auto
  have ra: "(10 :: rat) ^ (?da - 1) \<le> of_int a" "(of_int a :: rat) < 10 ^ ?da"
    using na a by (metis of_nat_le_iff of_nat_less_iff of_nat_nat of_nat_numeral of_nat_power less_imp_le)+
  have rb: "(10 :: rat) ^ (?db - 1) \<le> of_int b" "(of_int b :: rat) < 10 ^ ?db"
    using nb b by (metis of_nat_le_iff of_nat_less_iff of_nat_nat of_nat_numeral of_nat_power less_imp_le)+
  have p: "(10 :: rat) ^ ?da = 10 * 10 ^ (?da - 1)" "(10 :: rat) ^ ?db = 10 * 10 ^ (?db - 1)"
    using na(3) nb(3) by (metis Suc_diff_1 power_Suc)+
  have bpos: "(0 :: rat) < of_int b" using b by simp
  have pe: "(10 :: rat) powi ?e = 10 ^ ?da / 10 ^ ?db"
    by (simp add: power_int_diff)
  have pe1: "(10 :: rat) powi (?e - 1) = 10 ^ (?da - 1) / 10 ^ ?db"
    using pe p by (simp add: power_int_diff)
  have pe2: "(10 :: rat) powi (?e + 1) = 10 ^ ?da / 10 ^ (?db - 1)"
    using pe p by (simp add: power_int_add)
  have lo: "10 powi (?e - 1) \<le> x" unfolding pe1 x using ra(1) rb(2) bpos a by (intro frac_le) auto
  have hi: "x < 10 powi (?e + 1)" unfolding pe2 x using ra(2) rb(1) bpos a by (intro frac_less) auto
  show "10 powi (decimal_exponent x - 1) \<le> x" "x < 10 powi decimal_exponent x"
    using lo hi by (auto simp: decimal_exponent_def q Let_def)
qed

lemma dec28_0 [simp]: "dec28 0 = 0"
  by (simp add: dec28_def)

text \<open>A number of at most 28 digits is not rounded.\<close>

lemma dec28_exact:
  assumes "v * 10 ^ k = of_int n" and "\<bar>n\<bar> < 10 ^ 28"
  shows "dec28 v = v"
proof (cases "v = 0")
  case False
  let ?e = "decimal_exponent \<bar>v\<bar>"
  have pos: "0 < \<bar>v\<bar>" using False by simp
  have "\<bar>v\<bar> * 10 ^ k = of_int \<bar>n\<bar>"
    using arg_cong [OF assms(1), of abs] by (simp add: abs_mult)
  also have "\<dots> < (of_int (10 ^ 28) :: rat)" using assms(2) by (simp only: of_int_less_iff)
  finally have "\<bar>v\<bar> * 10 ^ k < (10 :: rat) powi 28" by simp
  moreover have "10 powi (?e - 1) * 10 ^ k \<le> \<bar>v\<bar> * 10 ^ k"
    using decimal_exponent_bounds(1) [OF pos] by (intro mult_right_mono) auto
  moreover have "(10 :: rat) powi (?e - 1 + int k) = 10 powi (?e - 1) * 10 ^ k"
    by (subst power_int_add) auto
  ultimately have "(10 :: rat) powi (?e - 1 + int k) < 10 powi 28" by linarith
  then have "?e - 1 + int k < 28" by (metis linorder_not_le one_le_numeral power_int_increasing)
  then have "28 - ?e = int (nat (28 - ?e - int k)) + int k" by simp
  then obtain j where s: "28 - ?e = int j + int k" by blast
  have "\<bar>v\<bar> * 10 powi (28 - ?e) = of_int (\<bar>n\<bar> * 10 ^ j)"
    using \<open>\<bar>v\<bar> * 10 ^ k = of_int \<bar>n\<bar>\<close> by (simp add: s power_int_add mult.commute mult.left_commute)
  then have h: "of_int (half_even (\<bar>v\<bar> * 10 powi (28 - ?e))) = \<bar>v\<bar> * 10 powi (28 - ?e)"
    using half_even_int by metis
  have "dec28 v = sgn v * (\<bar>v\<bar> * 10 powi (28 - ?e)) / 10 powi (28 - ?e)"
    using False by (simp only: dec28_def Let_def h if_False)
  also have "\<dots> = sgn v * \<bar>v\<bar>" by (simp add: power_int_eq_0_iff)
  finally show ?thesis by (simp add: sgn_mult_abs)
qed simp

text \<open>The rounding is off by at most half a unit of the 28th digit.\<close>

lemma abs_div_diff: "0 < p \<Longrightarrow> \<bar>h / p - v\<bar> = \<bar>h - v * p\<bar> / (p :: rat)"
  by (metis abs_divide abs_of_pos diff_divide_distrib less_irrefl nonzero_mult_div_cancel_right)

lemma dec28_error: "\<bar>dec28 v - v\<bar> \<le> \<bar>v\<bar> * (5 / 10 ^ 28)"
proof (cases "v = 0")
  case False
  let ?e = "decimal_exponent \<bar>v\<bar>"
  let ?p = "(10 :: rat) powi (28 - ?e)"
  have pos: "0 < \<bar>v\<bar>" using False by simp
  have p: "0 < ?p" by simp
  have d: "dec28 v = sgn v * (of_int (half_even (\<bar>v\<bar> * ?p)) / ?p)" using False by (simp add: dec28_def Let_def)
  have v: "v = sgn v * \<bar>v\<bar>" by (simp add: sgn_mult_abs)
  have "\<bar>dec28 v - v\<bar> = \<bar>sgn v * (of_int (half_even (\<bar>v\<bar> * ?p)) / ?p - \<bar>v\<bar>)\<bar>"
    using d v by (simp add: right_diff_distrib)
  also have "\<dots> = \<bar>of_int (half_even (\<bar>v\<bar> * ?p)) / ?p - \<bar>v\<bar>\<bar>" using False by (simp add: abs_mult)
  also have "\<dots> = \<bar>of_int (half_even (\<bar>v\<bar> * ?p)) - \<bar>v\<bar> * ?p\<bar> / ?p"
    using p abs_div_diff by blast
  also have "\<dots> \<le> 1 / 2 / ?p" using half_even_bound p by (intro divide_right_mono) auto
  also have "\<dots> = 10 powi (?e - 1) * (5 / 10 ^ 28)"
    by (simp add: power_int_diff field_simps)
  also have "\<dots> \<le> \<bar>v\<bar> * (5 / 10 ^ 28)"
    using decimal_exponent_bounds(1) [OF pos] by (intro mult_right_mono) auto
  finally show ?thesis .
qed simp

lemma dec28_eq_0 [simp]: "dec28 v = 0 \<longleftrightarrow> v = 0"
proof
  assume "dec28 v = 0"
  then have "\<bar>v\<bar> \<le> \<bar>v\<bar> * (5 / 10 ^ 28)" using dec28_error [of v] by simp
  then have "\<bar>v\<bar> * (1 - 5 / 10 ^ 28) \<le> 0" by (simp add: right_diff_distrib)
  then show "v = 0" by (simp add: mult_le_0_iff)
qed simp

section \<open>Decimal text\<close>

text \<open>\<open>Decimal(text)\<close>: an optional sign, digits with an optional point, an optional exponent; the
  surrounding white space and every underscore are ignored. None stands for text that is no
  number and for the infinities and NaNs, all of which \<open>_decimal\<close> maps to None.\<close>

definition split_at :: "(char \<Rightarrow> bool) \<Rightarrow> string \<Rightarrow> string \<times> string option" where
  "split_at P s =
     (case dropWhile (\<lambda>c. \<not> P c) s of [] \<Rightarrow> (s, None) | _ # rest \<Rightarrow> (takeWhile (\<lambda>c. \<not> P c) s, Some rest))"

definition split_sign :: "string \<Rightarrow> bool \<times> string" where
  "split_sign s =
     (case s of [] \<Rightarrow> (False, [])
      | c # rest \<Rightarrow> if c = CHR ''-'' then (True, rest) else if c = CHR ''+'' then (False, rest) else (False, s))"

definition exponent_text :: "string option \<Rightarrow> int option" where
  "exponent_text e =
     (case e of None \<Rightarrow> Some 0
      | Some s \<Rightarrow> (case split_sign s of (neg, ds) \<Rightarrow>
          if all_digits ds then Some (if neg then - int (dec_val ds) else int (dec_val ds)) else None))"

definition decimal_of_text :: "string \<Rightarrow> rat option" where
  "decimal_of_text text =
     (case split_sign (filter (\<lambda>c. c \<noteq> CHR ''_'') (strip text)) of (neg, body) \<Rightarrow>
      case split_at (\<lambda>c. c = CHR ''e'' \<or> c = CHR ''E'') body of (mantissa, e) \<Rightarrow>
      case split_at (\<lambda>c. c = CHR ''.'') mantissa of (whole, fraction) \<Rightarrow>
        let frac = (case fraction of None \<Rightarrow> [] | Some f \<Rightarrow> f) in
        case exponent_text e of None \<Rightarrow> None
        | Some x \<Rightarrow>
            if all_digits (whole @ frac)
            then Some ((if neg then - 1 else 1) * of_nat (dec_val (whole @ frac)) * 10 powi (x - int (length frac)))
            else None)"

text \<open>\<open>_decimal\<close> of a JSON value; \<open>str\<close> of a list, a dictionary, a boolean or None is no number.\<close>

definition decimal_of_json :: "json \<Rightarrow> rat option" where
  "decimal_of_json j = (case j of JNum r \<Rightarrow> Some r | JFloat r \<Rightarrow> Some r | JStr s \<Rightarrow> decimal_of_text s | _ \<Rightarrow> None)"

text \<open>\<open>_formatted\<close>: rounded to the context, without an exponent, with the fewest places.\<close>

function places_of :: "nat \<Rightarrow> nat" where
  "places_of d =
     (if d = 0 then 0
      else if d mod 10 = 0 then Suc (places_of (d div 10))
      else if d mod 5 = 0 then Suc (places_of (d div 5))
      else if d mod 2 = 0 then Suc (places_of (d div 2))
      else 0)"
  by auto
termination by (relation "measure id") auto

declare places_of.simps [simp del]

definition plain_text :: "rat \<Rightarrow> string" where
  "plain_text v =
     (let places = places_of (nat (snd (quotient_of v)));
          n = nat \<lfloor>\<bar>v\<bar> * 10 ^ places\<rfloor>
      in (if v < 0 then ''-'' else []) @ fixed_text places n)"

definition formatted :: "rat option \<Rightarrow> string option" where
  "formatted value = map_option (\<lambda>v. plain_text (dec28 v)) value"

section \<open>Reading formatted numbers back\<close>

lemma dec_val_append: "dec_val (s @ t) = dec_val s * 10 ^ length t + dec_val t"
proof (induction t rule: rev_induct)
  case (snoc c t)
  then show ?case by (simp add: append_assoc [symmetric] algebra_simps del: append_assoc)
qed simp

lemma dec_val_zeros [simp]: "dec_val (replicate k CHR ''0'') = 0"
proof (induction k)
  case (Suc k)
  have "dec_val [CHR ''0''] = 0" by (simp add: dec_val_def digit_val_def)
  with Suc show ?case using dec_val_append [of "[CHR ''0'']" "replicate k CHR ''0''"] by simp
qed simp

lemma dec_val_zero_pad [simp]: "dec_val (zero_pad w s) = dec_val s"
  by (simp add: zero_pad_def dec_val_append)

lemma dec_digits_length: "n < 10 ^ k \<Longrightarrow> 0 < k \<Longrightarrow> length (dec_digits n) \<le> k"
proof (induction n arbitrary: k rule: dec_digits.induct)
  case (1 n)
  show ?case
  proof (cases "n < 10")
    case False
    then obtain j where k: "k = Suc j" "0 < j" using 1(2) 1(3) by (cases k; cases "k - 1") auto
    then have "n div 10 < 10 ^ j" using 1(2) by auto
    then show ?thesis using 1(1) [OF False] k False by (simp add: dec_digits.simps [of n])
  qed (use 1(3) in \<open>simp add: dec_digits.simps [of n]\<close>)
qed

lemma length_zero_pad: "length s \<le> w \<Longrightarrow> length (zero_pad w s) = w"
  by (simp add: zero_pad_def)

lemma dec_digits_nonempty [simp]: "dec_digits n \<noteq> []"
  by (cases "n < 10") (simp_all add: dec_digits.simps [of n])

lemma is_digit_zero [simp]: "is_digit CHR ''0''"
  by (simp add: is_digit_def)

lemma dec_digits_are_digits [simp]: "list_all is_digit (dec_digits n)"
  by (simp add: list_all_iff dec_digits_digits)

lemma zero_pad_all [simp]: "list_all is_digit (zero_pad w (dec_digits n))"
  by (auto simp: zero_pad_def list_all_iff intro: dec_digits_digits)

lemma strip_no_space:
  assumes "list_all (\<lambda>c. \<not> is_space c) s"
  shows "strip s = s"
proof -
  have id: "dropWhile is_space xs = xs" if "set xs = set s" for xs
    using that assms by (cases xs) (auto simp: list_all_iff)
  show ?thesis using id [of s] id [of "rev s"] by (simp add: strip_def)
qed

lemma digit_plain: "is_digit c \<Longrightarrow> \<not> is_space c \<and> c \<notin> {CHR ''_'', CHR ''e'', CHR ''E'', CHR ''.'', CHR ''-'', CHR ''+''}"
  by (auto simp: is_digit_def is_space_def Let_def)

lemma split_at_none: "list_all (\<lambda>c. \<not> P c) s \<Longrightarrow> split_at P s = (s, None)"
proof -
  assume "list_all (\<lambda>c. \<not> P c) s"
  then have "dropWhile (\<lambda>c. \<not> P c) s = []" by (simp add: list_all_iff)
  then show ?thesis by (simp only: split_at_def list.case)
qed

lemma split_at_some: "list_all (\<lambda>c. \<not> P c) s \<Longrightarrow> P c \<Longrightarrow> split_at P (s @ c # t) = (s, Some t)"
  by (simp add: split_at_def list_all_iff dropWhile_append takeWhile_append2)

definition fraction_digits :: "nat \<Rightarrow> nat \<Rightarrow> string" where
  "fraction_digits places n = (if places = 0 then [] else zero_pad places (dec_digits (n mod 10 ^ places)))"

lemma fraction_digits_val:
  shows "list_all is_digit (fraction_digits places n)" "length (fraction_digits places n) = places"
    "dec_val (dec_digits (n div 10 ^ places) @ fraction_digits places n) = n"
proof -
  show len: "length (fraction_digits places n) = places"
    using dec_digits_length [of "n mod 10 ^ places" places] by (simp add: fraction_digits_def length_zero_pad)
  show "list_all is_digit (fraction_digits places n)" by (simp add: fraction_digits_def)
  show "dec_val (dec_digits (n div 10 ^ places) @ fraction_digits places n) = n"
    unfolding dec_val_append len dec_val_dec_digits
    by (cases "places = 0") (simp_all add: fraction_digits_def div_mult_mod_eq)
qed

lemma decimal_of_fixed:
  "decimal_of_text ((if neg then ''-'' else []) @ fixed_text places n)
     = Some ((if neg then - 1 else 1) * of_nat n / 10 ^ places)"
proof -
  let ?w = "dec_digits (n div 10 ^ places)" and ?f = "fraction_digits places n"
  let ?body = "?w @ (if places = 0 then [] else CHR ''.'' # ?f)"
  have body: "fixed_text places n = ?body" by (simp add: fixed_text_def fraction_digits_def)
  have digits: "list_all is_digit ?w" "list_all is_digit ?f" using fraction_digits_val by simp_all
  have chars: "c \<in> set ?body \<Longrightarrow> is_digit c \<or> c = CHR ''.''" for c
    using digits by (auto simp: list_all_iff split: if_splits)
  have plain: "\<not> is_space c \<and> c \<notin> {CHR ''_'', CHR ''e'', CHR ''E''}" if "c \<in> set ?body" for c
    using chars [OF that] digit_plain [of c] by (auto simp: is_space_def Let_def)
  let ?s = "(if neg then ''-'' else []) @ ?body"
  have "strip ?s = ?s" using plain by (intro strip_no_space) (auto simp: list_all_iff is_space_def Let_def)
  moreover have "filter (\<lambda>c. c \<noteq> CHR ''_'') ?s = ?s"
  proof -
    have "CHR ''_'' \<notin> set ?body" using plain by blast
    then show ?thesis by (intro filter_True) auto
  qed
  moreover have "split_sign ?s = (neg, ?body)"
  proof -
    obtain c cs where w: "?w = c # cs" by (cases ?w) auto
    then have "is_digit c" using digits(1) by simp
    then show ?thesis using digit_plain [of c] w by (auto simp: split_sign_def)
  qed
  moreover have "split_at (\<lambda>c. c = CHR ''e'' \<or> c = CHR ''E'') ?body = (?body, None)"
    using plain by (intro split_at_none) (auto simp: list_all_iff)
  moreover have "split_at (\<lambda>c. c = CHR ''.'') ?body = (?w, if places = 0 then None else Some ?f)"
  proof -
    have "list_all (\<lambda>c. c \<noteq> CHR ''.'') ?w" using digits(1) digit_plain by (auto simp: list_all_iff)
    then show ?thesis
      by (cases "places = 0")
        (simp_all only: if_True if_False append_Nil2 split_at_none split_at_some simp_thms)
  qed
  moreover have "(case (if places = 0 then None else Some ?f) of None \<Rightarrow> [] | Some f \<Rightarrow> f) = ?f"
    by (simp add: fraction_digits_def)
  moreover have "all_digits (?w @ ?f)" using digits by (simp add: all_digits_def)
  moreover have "(10 :: rat) powi (0 - int (length ?f)) = 1 / 10 ^ places"
    by (simp add: fraction_digits_val(2) power_int_minus inverse_eq_divide)
  ultimately show ?thesis
    unfolding decimal_of_text_def body by (simp add: exponent_text_def fraction_digits_val(3) Let_def)
qed

text \<open>Every decimal is written with enough places.\<close>

lemma coprime5:
  assumes "d mod 5 \<noteq> (0 :: nat)"
  shows "coprime 5 d"
proof (rule coprimeI)
  fix c :: nat assume c: "c dvd 5" "c dvd d"
  then have "c \<le> 5" by (simp add: dvd_imp_le)
  then have "c \<in> {0, 1, 2, 3, 4, 5}" by auto
  then show "is_unit c" using c assms by (auto simp: dvd_eq_mod_eq_0)
qed

lemma places_of_dvd: "0 < d \<Longrightarrow> d dvd 10 ^ k \<Longrightarrow> d dvd 10 ^ places_of d"
proof (induction d rule: places_of.induct)
  case (1 d)
  have step: "d dvd 10 ^ Suc (places_of (d div m))"
    if m: "m dvd d" "m dvd 10" "1 < m" and ih: "d div m dvd 10 ^ places_of (d div m)" for m :: nat
  proof -
    have "d = m * (d div m)" using m(1) by simp
    also have "\<dots> dvd 10 * 10 ^ places_of (d div m)" using m(2) ih by (rule mult_dvd_mono)
    finally show ?thesis by simp
  qed
  have sub: "0 < d div m \<and> d div m dvd 10 ^ k" if "m dvd d" "0 < m" for m
  proof -
    have "d div m dvd d" using that(1) by (metis dvd_def dvd_mult_div_cancel mult.commute)
    then have "d div m dvd 10 ^ k" using 1(5) by (rule dvd_trans)
    moreover have "m \<le> d" using that(1) 1(4) by (rule dvd_imp_le)
    ultimately show ?thesis using that(2) by (simp add: div_greater_zero_iff)
  qed
  note simps = places_of.simps [of d] and pos = less_imp_neq [OF "1.prems"(1), symmetric]
  have step': "d dvd 10 ^ places_of d"
    if "m dvd d" "m dvd 10" "1 < m" "d div m dvd 10 ^ places_of (d div m)" "places_of d = Suc (places_of (d div m))"
    for m :: nat
    using step [OF that(1-4)] that(5) by simp
  consider (ten) "d mod 10 = 0" | (five) "d mod 10 \<noteq> 0" "d mod 5 = 0" | (two) "d mod 10 \<noteq> 0" "d mod 5 \<noteq> 0" "d mod 2 = 0"
    | (none) "d mod 5 \<noteq> 0" "d mod 2 \<noteq> 0" by blast
  then show ?case
  proof cases
    case ten
    have "places_of d = Suc (places_of (d div 10))" using simps pos ten by (simp only: if_True if_False simp_thms)
    then show ?thesis using "1.IH"(1) [OF pos ten] sub [of 10] ten step' [of 10] by auto
  next
    case five
    have "places_of d = Suc (places_of (d div 5))" using simps pos five by (simp only: if_True if_False simp_thms)
    then show ?thesis using "1.IH"(2) [OF pos five] sub [of 5] five step' [of 5] by auto
  next
    case two
    have "places_of d = Suc (places_of (d div 2))" using simps pos two by (simp only: if_True if_False simp_thms)
    then show ?thesis using "1.IH"(3) [OF pos two] sub [of 2] two step' [of 2] by auto
  next
    case none
    have "coprime d 10"
    proof -
      have "coprime 2 d" "coprime 5 d" using none by (simp_all add: coprime_left_2_iff_odd mod_2_eq_odd coprime5)
      then have "coprime (2 * 5) d" by (simp only: coprime_mult_left_iff)
      then show ?thesis by (simp add: coprime_commute)
    qed
    then have "coprime d (10 ^ k)" unfolding coprime_power_right_iff by blast
    then have "d = 1" using "1.prems"(2) coprime_absorb_left [OF "1.prems"(2)] by (simp only: nat_dvd_1_iff_1)
    then show ?thesis by simp
  qed
qed

lemma plain_text_round:
  assumes "v * 10 ^ k = of_int m"
  shows "decimal_of_text (plain_text v) = Some v"
proof -
  obtain a b where q: "quotient_of v = (a, b)" by (cases "quotient_of v")
  have b: "0 < b" and v: "v = of_int a / of_int b" and co: "coprime a b"
    using quotient_of_denom_pos [OF q] quotient_of_div [OF q] quotient_of_coprime [OF q] by auto
  have "of_int (a * 10 ^ k) = (of_int (m * b) :: rat)" using assms v b by (simp add: field_simps)
  then have "a * 10 ^ k = m * b" by (simp only: of_int_eq_iff)
  then have "b dvd a * 10 ^ k" by simp
  then have "b dvd 10 ^ k" using co by (simp add: coprime_dvd_mult_right_iff coprime_commute)
  then have "nat b dvd 10 ^ k" using b by (metis int_nat_eq less_imp_le of_nat_dvd_iff of_nat_numeral of_nat_power)
  then have "nat b dvd 10 ^ places_of (nat b)" using b by (intro places_of_dvd) auto
  then obtain j where j: "10 ^ places_of (nat b) = nat b * j" by (rule dvdE)
  let ?p = "places_of (nat b)"
  have "(10 :: rat) ^ ?p = of_int b * of_nat j"
    using arg_cong [OF j, of "of_nat :: nat \<Rightarrow> rat"] b by simp
  moreover have "\<bar>v\<bar> * of_int b = of_int \<bar>a\<bar>" using v b by (simp add: abs_divide)
  ultimately have i: "\<bar>v\<bar> * 10 ^ ?p = of_int (\<bar>a\<bar> * int j)" by (simp add: mult.assoc [symmetric])
  then have n: "of_nat (nat \<lfloor>\<bar>v\<bar> * 10 ^ ?p\<rfloor>) = \<bar>v\<bar> * 10 ^ ?p" by simp
  have "plain_text v = (if v < 0 then ''-'' else []) @ fixed_text ?p (nat \<lfloor>\<bar>v\<bar> * 10 ^ ?p\<rfloor>)"
    by (simp add: plain_text_def q Let_def)
  then have "decimal_of_text (plain_text v) = Some ((if v < 0 then - 1 else 1) * (\<bar>v\<bar> * 10 ^ ?p) / 10 ^ ?p)"
    by (simp only: decimal_of_fixed n)
  then show ?thesis by simp
qed

text \<open>What \<open>dec28\<close> gives is a decimal, so a formatted number reads back as the rounded number.\<close>

lemma dec28_decimal: "\<exists>k m. dec28 v * 10 ^ k = of_int m"
proof (cases "v = 0")
  case False
  let ?s = "28 - decimal_exponent \<bar>v\<bar>"
  obtain n where n: "dec28 v = of_int n / 10 powi ?s"
  proof
    show "dec28 v = of_int (sgn (fst (quotient_of v)) * half_even (\<bar>v\<bar> * 10 powi ?s)) / 10 powi ?s"
    proof -
      have "sgn v = of_int (sgn (fst (quotient_of v)))"
      proof -
        obtain a b where q: "quotient_of v = (a, b)" by (cases "quotient_of v")
        then show ?thesis using quotient_of_denom_pos [OF q] quotient_of_div [OF q]
          by (auto simp: sgn_if zero_less_divide_iff)
      qed
      then show ?thesis using False by (simp add: dec28_def Let_def)
    qed
  qed
  show ?thesis
  proof (cases "0 \<le> ?s")
    case True
    then have "10 powi ?s = (10 :: rat) ^ nat ?s" by (simp only: power_int_def if_True)
    then have "dec28 v * 10 ^ nat ?s = of_int n" by (simp only: n) simp
    then show ?thesis by blast
  next
    case False
    then have "(10 :: rat) powi ?s = inverse (10 ^ nat (- ?s))" by (simp only: power_int_def if_False power_inverse)
    then have "dec28 v = of_int n * 10 ^ nat (- ?s)" using n by (simp only: divide_inverse inverse_inverse_eq)
    then have "dec28 v * 10 ^ 0 = of_int (n * 10 ^ nat (- ?s))" by simp
    then show ?thesis by blast
  qed
qed (auto intro: exI [of _ 0])

lemma formatted_round: "formatted (Some v) = Some t \<Longrightarrow> decimal_of_text t = Some (dec28 v)"
  using dec28_decimal [of v] plain_text_round by (auto simp: formatted_def)

end
