(* ===== verification/Direct_Values.thy ===== *)
theory Direct_Values
  imports Decimals
begin

text \<open>
  \<open>Core9528CurveDecoder\<close> of \<open>level2_service/direct_market.py\<close>: from the decoded curves of a
  response to the values and intraday series of a task (\<open>__call__\<close>, \<open>_calculate_retail\<close>,
  \<open>_calculate_macdfs\<close>), and the \<open>DirectReadOutcome\<close> of \<open>level2_service/parsed_values.py\<close> they
  are returned in.
\<close>

section \<open>Outcomes\<close>

record direct_outcome =
  out_values :: "metric_kind \<Rightarrow> string option"
  out_errors :: source_errors
  out_series :: "metric_kind \<Rightarrow> json option"
  stored_trade_dates :: "(string, string option) dict"

definition empty_metric_values :: "metric_kind \<Rightarrow> string option" where
  "empty_metric_values = (\<lambda>_. None)"

definition required_metric :: "metric_kind \<Rightarrow> bool" where
  "required_metric k \<longleftrightarrow> k \<in> set required_metrics"

type_synonym point = "string \<times> string option"

text \<open>The units of amounts: ten thousand and a hundred million yuan, in UTF-8.\<close>

definition wan_yuan :: string where
  "wan_yuan = wan_unit @ map char_of [229 :: nat, 133, 131]"

definition yi_yuan :: string where
  "yi_yuan = map char_of [228 :: nat, 186, 191, 229, 133, 131]"

definition point_json :: "point \<Rightarrow> json" where
  "point_json p = JObj [(''time'', JStr (fst p)), (''value'', jstr_opt (snd p))]"

definition series_json :: "string option \<Rightarrow> point list \<Rightarrow> json" where
  "series_json unit points = JObj [(''unit'', jstr_opt unit), (''points'', JArr (map point_json points))]"

text \<open>A text of code points.\<close>

definition utf8 :: "nat list \<Rightarrow> string" where
  "utf8 cs = concat (map utf8_char cs)"

section \<open>Columns\<close>

definition column :: "core_curve \<Rightarrow> nat \<Rightarrow> cell list" where
  "column c data_id = (case dget (curve_data c) data_id of None \<Rightarrow> [] | Some vs \<Rightarrow> vs)"

definition ext_decimal :: "ext_value option \<Rightarrow> rat option" where
  "ext_decimal v =
     (case v of None \<Rightarrow> None
      | Some (ExtDecimal d) \<Rightarrow> d
      | Some (ExtInt i) \<Rightarrow> Some (of_int i)
      | Some (ExtText t) \<Rightarrow> decimal_of_text (utf8 t)
      | Some (ExtArray _) \<Rightarrow> None
      | Some ExtNone \<Rightarrow> None)"

definition has_fields :: "core_curve \<Rightarrow> nat list \<Rightarrow> bool" where
  "has_fields c ids \<longleftrightarrow> list_all (\<lambda>i. dget (curve_data c) i \<noteq> None) ids"

text \<open>The loops that pair the time column with computed values; None is the \<open>ValueError\<close> of
  \<open>zip(strict=True)\<close>.\<close>

definition timed_points :: "cell list \<Rightarrow> 'a list \<Rightarrow> ('a \<Rightarrow> string option) \<Rightarrow> point list option" where
  "timed_points ts values fmt =
     (if length ts \<noteq> length values then None
      else Some (concat (map (\<lambda>(raw_time, v).
        case core_time (cell_text raw_time) of None \<Rightarrow> [] | Some t \<Rightarrow> [(t, fmt v)]) (zip ts values))))"

section \<open>The retail count\<close>

definition retail_data_ids :: "nat list" where
  "retail_data_ids = [13, 18, 216, 218, 220, 222, 215, 217, 219, 221]"

text \<open>One row of the ten columns.\<close>

definition retail_value :: "rat \<Rightarrow> cell list \<Rightarrow> cell" where
  "retail_value divisor data =
     (if list_ex (\<lambda>v. v = None) data then None
      else
        let ds = map the data; volume = ds ! 0; amount = ds ! 1 in
        if volume = 0 \<or> amount = 0 then None
        else
          let positive = foldl dadd 0 (byte_slice 2 6 ds);
              negative = foldl dadd 0 (byte_slice 6 10 ds)
          in Some (ddiv (dmul (dsub positive negative) 1000000) (ddiv divisor (ddiv volume amount))))"

definition calculate_retail :: "core_curve \<Rightarrow> cell list option" where
  "calculate_retail c =
     (let columns = map (column c) retail_data_ids; n = length (hd columns) in
      if list_ex (\<lambda>col. col = []) columns then None
      else if list_ex (\<lambda>col. length col \<noteq> n) columns then None
      else case ext_decimal (dget (curve_ext c) 407) of
        None \<Rightarrow> None
      | Some divisor \<Rightarrow>
          if divisor = 0 then None
          else Some (map (\<lambda>i. retail_value divisor (map (\<lambda>col. col ! i) columns)) [0..<n]))"

section \<open>The MACD of the price\<close>

definition ema :: "rat \<Rightarrow> nat \<Rightarrow> rat \<Rightarrow> rat" where
  "ema v period previous =
     ddiv (dadd (dmul v 2) (dmul (of_int (int period - 1)) previous)) (of_nat (period + 1))"

record macd_state =
  previous_price :: rat
  ema_short :: rat
  ema_long :: rat
  dea :: rat

definition macd_step :: "nat \<times> nat \<times> nat \<Rightarrow> bool \<Rightarrow> cell \<Rightarrow> macd_state \<Rightarrow> rat \<times> macd_state" where
  "macd_step params first raw_price s =
     (case params of (short, long, signal) \<Rightarrow>
        let price = (case raw_price of None \<Rightarrow> previous_price s | Some p \<Rightarrow> p);
            es = ema price short (if first then price else ema_short s);
            el = ema price long (if first then price else ema_long s);
            diff = dsub es el;
            d = ema diff signal (if first then diff else dea s)
        in (dmul (dsub diff d) 2,
            \<lparr>previous_price = price, ema_short = es, ema_long = el, dea = d\<rparr>))"

fun macd_loop :: "nat \<times> nat \<times> nat \<Rightarrow> bool \<Rightarrow> cell list \<Rightarrow> macd_state \<Rightarrow> rat list" where
  "macd_loop params first [] s = []"
| "macd_loop params first (p # ps) s =
     (case macd_step params first p s of (v, s') \<Rightarrow> v # macd_loop params False ps s')"

definition calculate_macdfs :: "core_curve \<Rightarrow> nat \<times> nat \<times> nat \<Rightarrow> rat list option" where
  "calculate_macdfs c params =
     (let prices = column c 10;
          fallback = (case ext_decimal (dget (curve_ext c) 6) of None \<Rightarrow> 0 | Some d \<Rightarrow> d)
      in if prices = [] then None
         else Some (macd_loop params True prices
                \<lparr>previous_price = fallback, ema_short = fallback, ema_long = fallback, dea = 0\<rparr>))"

section \<open>The outcome of a response\<close>

type_synonym metrics = "(metric_kind \<Rightarrow> string option) \<times> (metric_kind \<Rightarrow> json option)"

definition quote_metrics :: "nat \<times> nat \<times> nat \<Rightarrow> core_curve \<Rightarrow> metrics option" where
  "quote_metrics params quote =
     (let price = (case ext_decimal (dget (curve_ext quote) 10) of
            Some p \<Rightarrow> Some p | None \<Rightarrow> last_decimal (column quote 10));
          previous_close = ext_decimal (dget (curve_ext quote) 6);
          change = (case ext_decimal (dget (curve_ext quote) 34315) of
            Some c \<Rightarrow> Some c
          | None \<Rightarrow> (case (price, previous_close) of
                (Some p, Some pc) \<Rightarrow> if pc = 0 then None else Some (dmul (dsub (ddiv p pc) 1) 100)
              | _ \<Rightarrow> None));
          macdfs = calculate_macdfs quote params;
          vs = empty_metric_values
            (STOCK_NAME := (if curve_name quote = [] then None else Some (utf8 (curve_name quote))),
             CURRENT_PRICE := core_format_number price 2 [] False,
             CHANGE_PERCENT := core_format_number change 2 ''%'' False,
             TURNOVER_RATE := core_format_number (ext_decimal (dget (curve_ext quote) 34312)) 2 ''%'' False,
             MACDFS := core_format_number (Option.bind macdfs (\<lambda>ms. Some (last ms))) 3 [] True)
      in case macdfs of
           None \<Rightarrow> Some (vs, Map.empty)
         | Some ms \<Rightarrow>
             map_option (\<lambda>points. (vs, if points = [] then Map.empty
                                       else Map.empty (MACDFS \<mapsto> series_json None points)))
               (timed_points (column quote 1) ms (\<lambda>v. core_format_number (Some v) 3 [] True)))"

definition put_series :: "metric_kind \<Rightarrow> string option \<Rightarrow> (string option \<times> point list) \<Rightarrow> metrics \<Rightarrow> metrics" where
  "put_series k unit s m = ((fst m)(k := fst s), (snd m)(k \<mapsto> series_json unit (snd s)))"

definition order_net :: "core_curve \<Rightarrow> metrics \<Rightarrow> metrics option" where
  "order_net c m =
     (if has_fields c [33007] then
        map_option (\<lambda>s. put_series LARGE_ORDER_NET None s m) (core_series c 33007 2 1 [])
      else Some m)"

definition order_amount :: "core_curve \<Rightarrow> metrics \<Rightarrow> metrics option" where
  "order_amount c m =
     (if has_fields c [33015] then
        map_option (\<lambda>s. put_series LARGE_ORDER_AMOUNT (Some wan_yuan) s m)
          (core_series c 33015 2 10000 wan_yuan)
      else Some m)"

definition order_retail :: "core_curve \<Rightarrow> metrics \<Rightarrow> metrics option" where
  "order_retail c m =
     (if \<not> has_fields c retail_data_ids then Some m
      else case calculate_retail c of None \<Rightarrow> Some m
      | Some rs \<Rightarrow>
          map_option (\<lambda>points. if points = [] then m else put_series RETAIL_COUNT None (snd (last points), points) m)
            (timed_points (column c 1) rs (\<lambda>v. core_format_number v 2 [] False)))"

definition order_metrics :: "core_curve \<Rightarrow> metrics \<Rightarrow> metrics option" where
  "order_metrics c m = Option.bind (order_net c m) (\<lambda>m. Option.bind (order_amount c m) (order_retail c))"

fun order_loop :: "core_curve list \<Rightarrow> metrics \<Rightarrow> metrics option" where
  "order_loop [] m = Some m"
| "order_loop (c # cs) m = Option.bind (order_metrics c m) (order_loop cs)"

fun decode_frames :: "bytes list \<Rightarrow> string \<Rightarrow> string \<Rightarrow> wire_error + core_curve list" where
  "decode_frames [] sy market = Inr []"
| "decode_frames (f # fs) sy market =
     (case decode_frame f sy market of Inl e \<Rightarrow> Inl e
      | Inr c \<Rightarrow> (case decode_frames fs sy market of Inl e \<Rightarrow> Inl e
          | Inr cs \<Rightarrow> Inr (case c of None \<Rightarrow> cs | Some c \<Rightarrow> c # cs)))"

definition quote_fields :: "nat list" where
  "quote_fields = [1, 10, 13, 19, 34312]"

definition curves_metrics :: "nat \<times> nat \<times> nat \<Rightarrow> core_curve list \<Rightarrow> string \<Rightarrow> metrics option" where
  "curves_metrics params curves market =
     Option.bind
       (case find (\<lambda>c. has_fields c quote_fields) curves of
          None \<Rightarrow> Some (empty_metric_values, Map.empty) | Some quote \<Rightarrow> quote_metrics params quote)
       (\<lambda>m. if market \<noteq> ''151'' then order_loop curves m else Some m)"

definition core_decode ::
  "nat \<times> nat \<times> nat \<Rightarrow> bytes list \<Rightarrow> string \<Rightarrow> string \<Rightarrow> wire_error + direct_outcome" where
  "core_decode params frames sy market =
     (case decode_frames frames sy market of Inl e \<Rightarrow> Inl e
      | Inr curves \<Rightarrow>
          if curves = [] then Inl (DirectRequestError ''DIRECT_PROTOCOL_RESPONSE_INVALID'')
          else case curves_metrics params curves market of
            None \<Rightarrow> Inl WireValueError
          | Some (vs, series) \<Rightarrow>
              Inr \<lparr>out_values = vs, out_errors = no_source_errors, out_series = series, stored_trade_dates = []\<rparr>)"

text \<open>The constructor's check of the three periods.\<close>

definition valid_macdfs_params :: "int list \<Rightarrow> bool" where
  "valid_macdfs_params params \<longleftrightarrow> length params = 3 \<and> list_all (\<lambda>v. 0 < v \<and> v \<le> 1000) params"

section \<open>Facts\<close>

lemma dec28_of_int: "\<bar>n\<bar> < 10 ^ 28 \<Longrightarrow> dec28 (of_int n) = of_int n"
  using dec28_exact [of "of_int n" 0 n] by simp

text \<open>A price of few enough digits is a fixed point of its own average.\<close>

definition short_decimal :: "rat \<Rightarrow> bool" where
  "short_decimal p \<longleftrightarrow> (\<exists>n k. p * 10 ^ k = of_int n \<and> \<bar>n\<bar> < 10 ^ 24)"

lemma dec28_multiple:
  assumes "short_decimal p" and "\<bar>m\<bar> \<le> 1001"
  shows "dec28 (of_int m * p) = of_int m * p"
proof -
  obtain n k where p: "p * 10 ^ k = of_int n" and n: "\<bar>n\<bar> < 10 ^ 24" using assms(1) by (auto simp: short_decimal_def)
  have "\<bar>m * n\<bar> \<le> 1001 * \<bar>n\<bar>" unfolding abs_mult using assms(2) by (intro mult_right_mono) auto
  also have "\<dots> < 10 ^ 28" using n by simp
  finally show ?thesis using p by (intro dec28_exact [where k = k and n = "m * n"]) (simp_all add: mult.assoc)
qed

lemma ema_fixpoint:
  assumes "short_decimal p" and "1 \<le> n" and "n \<le> 1000"
  shows "ema p n p = p"
proof -
  have a: "dmul p 2 = of_int 2 * p" using dec28_multiple [OF assms(1), of 2] by (simp add: decimal_simps mult.commute)
  have b: "dmul (of_int (int n - 1)) p = of_int (int n - 1) * p"
    unfolding decimal_simps using assms(2,3) by (intro dec28_multiple [OF assms(1)]) simp
  have s: "of_int 2 * p + of_int (int n - 1) * p = of_int (int n + 1) * p" by (simp add: algebra_simps)
  have c: "dadd (dmul p 2) (dmul (of_int (int n - 1)) p) = of_int (int n + 1) * p"
    unfolding a b dadd_def s using assms(2,3) by (intro dec28_multiple [OF assms(1)]) simp
  have "of_int (int n + 1) * p / of_nat (n + 1) = p" by (simp add: field_simps)
  then have "ema p n p = dec28 p" by (simp only: ema_def c ddiv_def)
  also have "\<dots> = p" using dec28_multiple [OF assms(1), of 1] by simp
  finally show ?thesis .
qed

lemma ema_0 [simp]: "ema 0 n 0 = 0"
  by (simp add: ema_def decimal_simps)

text \<open>The cells of the price column a step can see: the price itself, or a gap.\<close>

lemma macd_loop_flat:
  assumes p: "short_decimal p" and ps: "\<forall>c \<in> set ps. c = Some p \<or> c = None"
    and bounds: "list_all (\<lambda>n. 1 \<le> n \<and> n \<le> 1000) [short, long, signal]"
    and s: "previous_price s = p" "\<not> first \<longrightarrow> ema_short s = p \<and> ema_long s = p \<and> dea s = 0"
  shows "macd_loop (short, long, signal) first ps s = replicate (length ps) 0"
  using ps s
proof (induction ps arbitrary: first s)
  case (Cons c ps)
  have price: "(case c of None \<Rightarrow> previous_price s | Some q \<Rightarrow> q) = p" using Cons.prems by auto
  have "macd_step (short, long, signal) first c s
      = (0, \<lparr>previous_price = p, ema_short = p, ema_long = p, dea = 0\<rparr>)"
    using bounds Cons.prems(3) ema_fixpoint [OF p]
    by (cases first) (simp_all add: macd_step_def price Let_def dsub_def dmul_def)
  then show ?case using Cons.IH [of "\<lparr>previous_price = p, ema_short = p, ema_long = p, dea = 0\<rparr>" False] Cons.prems(1)
    by simp
qed simp

lemma macd_loop_length [simp]: "length (macd_loop params first ps s) = length ps"
  by (induction params first ps s rule: macd_loop.induct) (simp_all split: prod.split)

lemma macd_loop_Nil [simp]: "(macd_loop params first ps s = []) = (ps = [])"
  by (metis length_0_conv macd_loop_length)

lemma calculate_macdfs_length: "calculate_macdfs c params = Some ms \<Longrightarrow> length ms = length (column c 10) \<and> ms \<noteq> []"
  unfolding calculate_macdfs_def Let_def by (auto split: if_splits)

lemma calculate_retail_length:
  assumes "calculate_retail c = Some rs"
  shows "length rs = length (column c 13)"
proof -
  have "hd (map (column c) retail_data_ids) = column c 13" by (simp add: retail_data_ids_def)
  then show ?thesis using assms unfolding calculate_retail_def Let_def by (auto split: if_splits option.splits)
qed

lemma timed_points_total: "length ts = length values \<Longrightarrow> \<exists>ps. timed_points ts values fmt = Some ps"
  by (simp add: timed_points_def)

text \<open>Only the metrics the core account owns are ever filled in.\<close>

definition core_only :: "metrics \<Rightarrow> bool" where
  "core_only m \<longleftrightarrow> (\<forall>k. fst m k \<noteq> None \<longrightarrow> required_metric k)
     \<and> (\<forall>k. snd m k \<noteq> None \<longrightarrow> k \<in> {MACDFS, LARGE_ORDER_NET, LARGE_ORDER_AMOUNT, RETAIL_COUNT})"

named_theorems core_only_intros

lemma core_only_put [core_only_intros]:
  "core_only m \<Longrightarrow> k \<in> {LARGE_ORDER_NET, LARGE_ORDER_AMOUNT, RETAIL_COUNT} \<Longrightarrow> core_only (put_series k u s m)"
  by (auto simp: core_only_def put_series_def required_metric_def required_metrics_def)

lemma core_only_quote: "quote_metrics params q = Some m \<Longrightarrow> core_only m"
  unfolding quote_metrics_def Let_def
  by (auto simp: core_only_def required_metric_def required_metrics_def empty_metric_values_def
      split: option.splits if_splits)

lemma core_only_order:
  assumes "order_metrics c m = Some m'" and "core_only m"
  shows "core_only m'"
proof -
  obtain m1 m2 where 1: "order_net c m = Some m1" and 2: "order_amount c m1 = Some m2" and 3: "order_retail c m2 = Some m'"
    using assms(1) by (auto simp: order_metrics_def bind_eq_Some_conv)
  have "core_only m1" using 1 assms(2) by (auto simp: order_net_def split: if_splits simp del: split_paired_Ex intro!: core_only_put)
  then have "core_only m2" using 2 by (auto simp: order_amount_def split: if_splits intro!: core_only_put)
  then show ?thesis using 3 by (auto simp: order_retail_def split: if_splits option.splits intro!: core_only_put)
qed

lemma core_only_loop: "order_loop cs m = Some m' \<Longrightarrow> core_only m \<Longrightarrow> core_only m'"
  by (induction cs arbitrary: m) (auto simp: bind_eq_Some_conv intro: core_only_order)

lemma core_only_curves:
  assumes "curves_metrics params curves market = Some m"
  shows "core_only m"
proof -
  obtain m0 where m0: "core_only m0" and m: "(if market \<noteq> ''151'' then order_loop curves m0 else Some m0) = Some m"
  proof (cases "find (\<lambda>c. has_fields c quote_fields) curves")
    case None
    then show ?thesis using that [of "(empty_metric_values, Map.empty)"] assms
      by (simp add: curves_metrics_def) (simp add: core_only_def empty_metric_values_def)
  next
    case (Some q)
    then obtain m0 where "quote_metrics params q = Some m0"
      and "(if market \<noteq> ''151'' then order_loop curves m0 else Some m0) = Some m"
      using assms by (auto simp: curves_metrics_def bind_eq_Some_conv)
    then show ?thesis using that core_only_quote by blast
  qed
  then show ?thesis using core_only_loop by (auto split: if_splits)
qed

text \<open>On rectangular curves with a time column no loop raises.\<close>

definition timed_curve :: "core_curve \<Rightarrow> bool" where
  "timed_curve c \<longleftrightarrow> (\<exists>n. (\<forall>k col. dget (curve_data c) k = Some col \<longrightarrow> length col = n)) \<and> has_fields c [1]"

lemma timed_length:
  assumes "timed_curve c" and "has_fields c [k]"
  shows "length (column c 1) = length (column c k)"
  using assms by (auto simp: timed_curve_def has_fields_def column_def split: option.splits)

lemma timed_order: "timed_curve c \<Longrightarrow> \<exists>m'. order_metrics c m = Some m'"
proof -
  assume c: "timed_curve c"
  have s: "\<exists>s. core_series c k places d u = Some s" if "has_fields c [k]" for k places d u
    using timed_length [OF c that] by (simp add: core_series_def column_def split: option.splits)
  have "\<exists>m'. order_retail c m = Some m'" for m
  proof (cases "calculate_retail c")
    case (Some rs)
    then have "length rs = length (column c 13)" by (rule calculate_retail_length)
    moreover have "has_fields c [13]" if "has_fields c retail_data_ids"
      using that by (simp add: has_fields_def retail_data_ids_def)
    ultimately show ?thesis
      using timed_length [OF c, of 13] by (auto simp: order_retail_def Some timed_points_def)
  qed (simp add: order_retail_def)
  moreover have "\<exists>m'. order_amount c m = Some m'" for m
    by (cases "has_fields c [33015]") (use s [of 33015 2 10000 wan_yuan] in \<open>auto simp: order_amount_def\<close>)
  moreover have "\<exists>m'. order_net c m = Some m'" for m
    by (cases "has_fields c [33007]") (use s [of 33007 2 1 "[]"] in \<open>auto simp: order_net_def\<close>)
  ultimately show ?thesis unfolding order_metrics_def by (metis bind.bind_lunit)
qed

lemma timed_loop: "list_all timed_curve cs \<Longrightarrow> \<exists>m'. order_loop cs m = Some m'"
proof (induction cs arbitrary: m)
  case (Cons c cs)
  then obtain m' where "order_metrics c m = Some m'" using timed_order by fastforce
  then show ?case using Cons by simp
qed simp

lemma timed_quote:
  assumes "timed_curve q" and "has_fields q quote_fields"
  shows "\<exists>m. quote_metrics params q = Some m"
proof (cases "calculate_macdfs q params")
  case None
  then show ?thesis by (simp add: quote_metrics_def Let_def)
next
  case (Some ms)
  have "has_fields q [10]" using assms(2) by (simp add: has_fields_def quote_fields_def)
  then have "length (column q 1) = length ms"
    using timed_length [OF assms(1)] calculate_macdfs_length [OF Some] by simp
  then show ?thesis by (simp add: quote_metrics_def Let_def Some timed_points_def)
qed

lemma timed_curves:
  assumes "list_all timed_curve curves"
  shows "\<exists>m. curves_metrics params curves market = Some m"
proof -
  obtain m0 where m0: "(case find (\<lambda>c. has_fields c quote_fields) curves of
      None \<Rightarrow> Some (empty_metric_values, Map.empty) | Some quote \<Rightarrow> quote_metrics params quote) = Some m0"
  proof (cases "find (\<lambda>c. has_fields c quote_fields) curves")
    case (Some q)
    then have "q \<in> set curves" "has_fields q quote_fields" by (auto simp: find_Some_iff)
    then show ?thesis using timed_quote [of q params] that assms Some by (auto simp: list_all_iff)
  qed (use that in auto)
  show ?thesis using timed_loop [OF assms] by (simp add: curves_metrics_def m0)
qed

lemma decode_frames_curves:
  assumes "decode_frames frames sy market = Inr curves" and "c \<in> set curves"
  shows "\<exists>f \<in> set frames. decode_frame f sy market = Inr (Some c)"
  using assms by (induction frames arbitrary: curves) (fastforce split: sum.splits option.splits)+

lemma decode_frames_error: "decode_frames frames sy market = Inl e \<Longrightarrow> e = DirectRequestError ''DIRECT_PROTOCOL_RESPONSE_INVALID''"
  by (induction frames) (auto simp: decode_frame_def split: sum.splits option.splits prod.splits if_splits)

end
