(* ===== verification/Read_Cache.thy ===== *)
theory Read_Cache
  imports Prelude
begin

text \<open>
  Reading through a bounded cache: the dictionary of values with the time they were read at that
  \<open>FundFlowHttpClient\<close> (\<open>level2_service/direct_market.py\<close>) and \<open>DualAccountParsedValueSource\<close>
  (\<open>level2_service/parsed_values.py\<close>) keep per symbol, and the interface \<open>reading_cache\<close> their
  guarantees rest on: a value is never older than the interval, and a source is not asked twice
  for a symbol within it.
\<close>

section \<open>The cache\<close>

type_synonym 'v cache = "(string, 'v \<times> seconds) dict"

definition cache_hit :: "seconds \<Rightarrow> seconds \<Rightarrow> string \<Rightarrow> 'v cache \<Rightarrow> 'v option" where
  "cache_hit interval now k c =
     (case dget c k of None \<Rightarrow> None
      | Some (v, t) \<Rightarrow> if now - t < interval then Some v else None)"

text \<open>\<open>while len(cache) > cap: cache.pop(next(iter(cache)))\<close>\<close>

fun evict :: "nat \<Rightarrow> 'v cache \<Rightarrow> 'v cache" where
  "evict cap [] = []"
| "evict cap (x # xs) = (if length (x # xs) > cap then evict cap xs else x # xs)"

definition cache_store :: "nat \<Rightarrow> seconds \<Rightarrow> string \<Rightarrow> 'v \<Rightarrow> 'v cache \<Rightarrow> 'v cache" where
  "cache_store cap now k v c = evict cap (dset k (v, now) c)"

text \<open>A read that asks the source only on a miss, and keeps only what the source answered. The
  flag says whether the source was asked; \<open>fetched\<close> is what it answers if it is.\<close>

definition read_through ::
  "(seconds \<Rightarrow> 'k \<Rightarrow> 's \<Rightarrow> 'v option) \<Rightarrow> (seconds \<Rightarrow> 'k \<Rightarrow> 'v \<Rightarrow> 's \<Rightarrow> 's) \<Rightarrow>
   'k \<times> seconds \<times> ('e + 'v) \<Rightarrow> 's \<Rightarrow> (bool \<times> ('e + 'v)) \<times> 's" where
  "read_through hit store r s =
     (case r of (k, now, fetched) \<Rightarrow>
        case hit now k s of Some v \<Rightarrow> ((False, Inr v), s)
        | None \<Rightarrow> (case fetched of Inl e \<Rightarrow> ((True, Inl e), s)
                  | Inr v \<Rightarrow> ((True, Inr v), store now k v s)))"

fun read_all ::
  "(seconds \<Rightarrow> 'k \<Rightarrow> 's \<Rightarrow> 'v option) \<Rightarrow> (seconds \<Rightarrow> 'k \<Rightarrow> 'v \<Rightarrow> 's \<Rightarrow> 's) \<Rightarrow>
   ('k \<times> seconds \<times> ('e + 'v)) list \<Rightarrow> 's \<Rightarrow> (bool \<times> ('e + 'v)) list" where
  "read_all hit store [] s = []"
| "read_all hit store (r # rs) s =
     (case read_through hit store r s of (out, s') \<Rightarrow> out # read_all hit store rs s')"

lemma read_all_length [simp]: "length (read_all hit store rs s) = length rs"
  by (induction rs arbitrary: s) (simp_all split: prod.split)

section \<open>The interface\<close>

text \<open>\<open>after s k\<close> are the keys that came to the state after \<open>k\<close>: the eviction takes the key that came first.\<close>

locale reading_cache =
  fixes interval :: seconds and cap :: nat
    and hit :: "seconds \<Rightarrow> 'k \<Rightarrow> 's \<Rightarrow> 'v option"
    and store :: "seconds \<Rightarrow> 'k \<Rightarrow> 'v \<Rightarrow> 's \<Rightarrow> 's"
    and known :: "'s \<Rightarrow> 'k set"
    and after :: "'s \<Rightarrow> 'k \<Rightarrow> 'k set"
    and valid :: "'s \<Rightarrow> bool"
  assumes finite_known: "finite (known s)"
    and store_valid: "valid s \<Longrightarrow> valid (store now k v s)"
    and hit_known: "hit now k s = Some v \<Longrightarrow> k \<in> known s"
    and store_known: "known (store now k v s) \<subseteq> insert k (known s)"
    and store_card: "valid s \<Longrightarrow> card (known (store now k v s)) \<le> cap"
    and hit_fresh: "valid s \<Longrightarrow> hit now' k (store now k v s) = Some w \<Longrightarrow> w = v \<and> now' - now < interval"
    and hit_other: "valid s \<Longrightarrow> k' \<noteq> k \<Longrightarrow> hit now' k' (store now k v s) = Some w \<Longrightarrow> hit now' k' s = Some w"
    and hit_stored: "valid s \<Longrightarrow> 0 < cap \<Longrightarrow> now' - now < interval \<Longrightarrow> hit now' k (store now k v s) = Some v"
    and finite_after: "finite (after s k)"
    and after_new: "valid s \<Longrightarrow> k \<notin> known s \<Longrightarrow> after (store now k v s) k = {}"
    and after_store: "valid s \<Longrightarrow> k' \<in> known s \<Longrightarrow> after (store now k v s) k' \<subseteq> insert k (after s k') - {k'}"
    and hit_kept: "valid s \<Longrightarrow> k' \<noteq> k \<Longrightarrow> card (insert k (after s k')) < cap \<Longrightarrow> hit now' k' s = Some w
        \<Longrightarrow> hit now' k' (store now k v s) = Some w"
begin

text \<open>What a state can answer was fetched in time, according to a history of fetches.\<close>

definition explained :: "('k \<times> seconds \<times> 'v) set \<Rightarrow> 's \<Rightarrow> bool" where
  "explained H s \<longleftrightarrow> (\<forall>now k v. hit now k s = Some v \<longrightarrow> (\<exists>t. (k, t, v) \<in> H \<and> now - t < interval))"

lemma explained_store:
  assumes "valid s" and "explained H s"
  shows "explained (insert (k, now, v) H) (store now k v s)"
  unfolding explained_def
proof (intro allI impI)
  fix now' k' w assume h: "hit now' k' (store now k v s) = Some w"
  show "\<exists>t. (k', t, w) \<in> insert (k, now, v) H \<and> now' - t < interval"
  proof (cases "k' = k")
    case True
    then show ?thesis using hit_fresh [OF assms(1)] h by blast
  next
    case False
    then show ?thesis using hit_other [OF assms(1)] h assms(2) by (auto simp: explained_def)
  qed
qed

lemma explained_mono: "explained H s \<Longrightarrow> H \<subseteq> H' \<Longrightarrow> explained H' s"
  unfolding explained_def by blast

text \<open>Every value a run of reads returns was answered by the source for that key, at that read or
  at an earlier one less than the interval before it.\<close>

lemma reads_fresh_from:
  assumes "valid s" and "explained H s" and "i < length rs"
    and "snd (read_all hit store rs s ! i) = Inr v" and "rs ! i = (k, now, fetched)"
  shows "(k, now, Inr v) = rs ! i \<or> (\<exists>t. ((k, t, v) \<in> H \<or> (\<exists>j < i. rs ! j = (k, t, Inr v))) \<and> now - t < interval)"
  using assms
proof (induction rs arbitrary: s i H)
  case (Cons r rs)
  obtain k0 t0 f0 where r: "r = (k0, t0, f0)" by (cases r)
  obtain out s' where step: "read_through hit store r s = (out, s')" by (cases "read_through hit store r s")
  have tail: "(k, now, Inr v) = rs ! i' \<or>
      (\<exists>t. ((k, t, v) \<in> H' \<or> (\<exists>j < i'. rs ! j = (k, t, Inr v))) \<and> now - t < interval)"
    if "i = Suc i'" "valid s'" "explained H' s'" for i' H'
    using Cons.IH [OF that(2,3), of i'] Cons.prems(3-5) that(1) step by simp
  show ?case
  proof (cases i)
    case 0
    show ?thesis
    proof (cases "hit now k s")
      case None
      then show ?thesis using Cons.prems(4,5) 0 step r by (auto simp: read_through_def split: sum.splits)
    next
      case (Some w)
      then have "w = v" using Cons.prems(4,5) 0 step r by (auto simp: read_through_def)
      then show ?thesis using Some Cons.prems(2) by (auto simp: explained_def)
    qed
  next
    case (Suc i')
    show ?thesis
    proof (cases "s' = s")
      case True
      then show ?thesis using tail [OF Suc, of H] Cons.prems(1,2) Suc
        by simp (metis Suc_less_eq nth_Cons_Suc)
    next
      case False
      then obtain w where w: "f0 = Inr w" "s' = store t0 k0 w s"
        using step r by (auto simp: read_through_def split: option.splits sum.splits)
      have "explained (insert (k0, t0, w) H) s'" using explained_store [OF Cons.prems(1,2)] w by simp
      from tail [OF Suc _ this] have "(k, now, Inr v) = rs ! i' \<or>
        (\<exists>t. ((k, t, v) = (k0, t0, w) \<or> (k, t, v) \<in> H \<or> (\<exists>j < i'. rs ! j = (k, t, Inr v))) \<and> now - t < interval)"
        using store_valid [OF Cons.prems(1)] w by simp
      moreover have "(r # rs) ! 0 = (k0, t0, Inr w)" using r w by simp
      ultimately show ?thesis unfolding Suc by (metis Suc_less_eq nth_Cons_Suc old.prod.inject zero_less_Suc)
    qed
  qed
qed simp

lemma reads_fresh:
  assumes "valid s" and "\<And>now k. hit now k s = None" and "i < length rs"
    and "snd (read_all hit store rs s ! i) = Inr v" and "rs ! i = (k, now, fetched)"
  shows "fetched = Inr v \<or> (\<exists>j t. j < i \<and> rs ! j = (k, t, Inr v) \<and> now - t < interval)"
proof -
  have "explained {} s" using assms(2) by (simp add: explained_def)
  from reads_fresh_from [OF assms(1) this assms(3-5)] assms(5) show ?thesis by auto
qed

text \<open>A key whose source has answered is served from the cache until the interval is over, while fewer other keys than the
  capacity have come since it came itself.\<close>

lemma step_effect:
  assumes "read_through hit store (k0, t0, f0) s = (out, s')"
  shows "s' = s \<or> (\<exists>w. hit t0 k0 s = None \<and> f0 = Inr w \<and> s' = store t0 k0 w s)"
  using assms by (auto simp: read_through_def split: option.splits sum.splits)

lemma known_step:
  assumes "read_through hit store r s = (out, s')"
  shows "known s' \<subseteq> insert (fst r) (known s)"
  using assms by (cases r) (auto dest!: step_effect dest: subsetD [OF store_known])

lemma valid_step: "read_through hit store r s = (out, s') \<Longrightarrow> valid s \<Longrightarrow> valid s'"
  by (cases r) (auto dest!: step_effect intro: store_valid)

text \<open>What has come after \<open>k\<close>, if it is known at all, is among \<open>A\<close>.\<close>

definition followed :: "'k \<Rightarrow> 'k set \<Rightarrow> 's \<Rightarrow> bool" where
  "followed k A s \<longleftrightarrow> (k \<in> known s \<longrightarrow> after s k \<subseteq> A)"

lemma followed_store:
  assumes "valid s" "followed k A s"
  shows "followed k (A \<union> ({k0} - {k})) (store t0 k0 w s)"
proof (cases "k \<in> known s")
  case True
  then show ?thesis using after_store [OF assms(1) True, of t0 k0 w] assms(2) by (auto simp: followed_def)
next
  case False
  then show ?thesis using after_new [OF assms(1) False] store_known [of t0 k0 w s] by (auto simp: followed_def)
qed

lemma followed_step:
  assumes "read_through hit store r s = (out, s')" "valid s" "followed k A s"
  shows "followed k (A \<union> ({fst r} - {k})) s'"
proof -
  obtain k0 t0 f0 where r: "r = (k0, t0, f0)" by (cases r)
  have "followed k (A \<union> ({k0} - {k})) s" using assms(3) by (auto simp: followed_def)
  then show ?thesis using step_effect [OF assms(1) [unfolded r]] followed_store [OF assms(2,3)] r by auto
qed

lemma reads_served:
  assumes "valid s" and "\<And>n. n - t < interval \<Longrightarrow> hit n k s = Some v"
    and "followed k A s" and "finite A" and "card (A \<union> (fst ` set (take j rs) - {k})) < cap" and "sorted (map (\<lambda>r. fst (snd r)) rs)"
    and "j < length rs" and "rs ! j = (k, now, f)" and "now - t < interval"
  shows "read_all hit store rs s ! j = (False, Inr v)"
  using assms
proof (induction rs arbitrary: s j A)
  case (Cons r rs)
  obtain k0 t0 f0 where r: "r = (k0, t0, f0)" by (cases r)
  obtain out s' where step: "read_through hit store r s = (out, s')" by (cases "read_through hit store r s")
  show ?case
  proof (cases j)
    case 0
    then show ?thesis using Cons.prems(2,8,9) r by (simp add: read_through_def)
  next
    case (Suc j')
    let ?A = "A \<union> ({k0} - {k})"
    have same: "?A \<union> (fst ` set (take j' rs) - {k}) = A \<union> (fst ` set (take j (r # rs)) - {k})" using Suc r by auto
    have "k \<in> known s" using hit_known Cons.prems(2) [OF Cons.prems(9)] by blast
    then have A: "after s k \<subseteq> A" using Cons.prems(3) by (simp add: followed_def)
    have kept: "hit n k s' = Some v" if n: "n - t < interval" for n
    proof (cases "s' = s")
      case False
      with step r obtain w where w: "hit t0 k0 s = None" "s' = store t0 k0 w s" by (auto dest: step_effect)
      have "rs ! j' \<in> set rs" using Cons.prems(7) Suc by simp
      then have "t0 \<le> now" using Cons.prems(6,8) Suc r by fastforce
      then have ne: "k \<noteq> k0" using w(1) Cons.prems(2) [of t0] Cons.prems(9) by auto
      have "card (insert k0 (after s k)) \<le> card (A \<union> (fst ` set (take j (r # rs)) - {k}))"
        using A ne Cons.prems(4) Suc r by (intro card_mono) auto
      then have "card (insert k0 (after s k)) < cap" using Cons.prems(5) by simp
      then show ?thesis using hit_kept [OF Cons.prems(1) ne] Cons.prems(2) [OF n] w(2) by simp
    qed (use Cons.prems(2) n in simp)
    have "followed k ?A s'" using followed_step [OF step Cons.prems(1,3)] r by simp
    then have "read_all hit store rs s' ! j' = (False, Inr v)"
      using Cons.IH [OF valid_step [OF step Cons.prems(1)] kept, of ?A j'] Cons.prems(4-9) Suc unfolding same by simp
    then show ?thesis using step Suc by simp
  qed
qed simp

lemma reads_repeated_from:
  assumes "valid s" and "followed k A s" and "finite A" and "card (A \<union> (fst ` set (take j rs) - {k})) < cap"
    and "sorted (map (\<lambda>r. fst (snd r)) rs)" and "i < j" and "j < length rs" and "rs ! i = (k, t, f)" and "rs ! j = (k, now, f')"
    and "read_all hit store rs s ! i = (True, Inr v)" and "now - t < interval"
  shows "read_all hit store rs s ! j = (False, Inr v)"
  using assms
proof (induction rs arbitrary: s i j A)
  case (Cons r rs)
  obtain out s' where step: "read_through hit store r s = (out, s')" by (cases "read_through hit store r s")
  obtain j' where j: "j = Suc j'" using Cons.prems(6) by (cases j) auto
  let ?A = "A \<union> ({fst r} - {k})"
  have same: "?A \<union> (fst ` set (take j' rs) - {k}) = A \<union> (fst ` set (take j (r # rs)) - {k})" using j by auto
  have card': "card (?A \<union> (fst ` set (take j' rs) - {k})) < cap" unfolding same by (rule Cons.prems(4))
  note valid' = valid_step [OF step Cons.prems(1)] and followed' = followed_step [OF step Cons.prems(1,2)]
  have sorted': "sorted (map (\<lambda>r. fst (snd r)) rs)" and fin': "finite ?A" using Cons.prems(3,5) by simp_all
  have "read_all hit store rs s' ! j' = (False, Inr v)"
  proof (cases i)
    case 0
    then have r: "r = (k, t, f)" and out: "out = (True, Inr v)" using Cons.prems(8,10) step by auto
    then have s': "s' = store t k v s" using step by (auto simp: read_through_def split: option.splits sum.splits)
    have "0 < cap" using Cons.prems(4) by simp
    then have hit: "\<And>n. n - t < interval \<Longrightarrow> hit n k s' = Some v"
      using hit_stored [OF Cons.prems(1)] s' by simp
    show ?thesis using reads_served [OF valid' hit followed' fin' card' sorted'] Cons.prems(7,9,11) j by simp
  next
    case (Suc i')
    then show ?thesis using Cons.IH [OF valid' followed' fin' card' sorted', of i'] Cons.prems(6-11) step j by simp
  qed
  then show ?case using step j by simp
qed simp

lemma reads_not_repeated:
  assumes "valid s" and "k \<notin> known s" and "k \<notin> fst ` set (take p rs)" and "card (fst ` set (drop p (take j rs))) \<le> cap"
    and "sorted (map (\<lambda>r. fst (snd r)) rs)" and "p \<le> i" and "i < j" and "j < length rs" and "rs ! i = (k, t, f)" and "rs ! j = (k, now, f')"
    and "read_all hit store rs s ! i = (True, Inr v)" and "now - t < interval"
  shows "read_all hit store rs s ! j = (False, Inr v)"
  using assms
proof (induction p arbitrary: rs s i j)
  case 0
  have "rs ! i \<in> set (take j rs)" using 0(7,8) by (metis length_take min.absorb4 nth_mem nth_take)
  then have "k \<in> fst ` set (take j rs)" using 0(9) by force
  then have "card (fst ` set (take j rs) - {k}) < cap" using 0(4) card_Diff1_less [of "fst ` set (take j rs)" k] by simp
  moreover have "followed k {} s" using 0(2) by (simp add: followed_def)
  ultimately show ?case using reads_repeated_from [OF 0(1), of k "{}" j rs i] 0(5,7-12) by simp
next
  case (Suc p)
  obtain r rs' where rs: "rs = r # rs'" using Suc.prems(8) by (cases rs) auto
  obtain i' j' where ij: "i = Suc i'" "j = Suc j'" using Suc.prems(6,7) by (cases i; cases j) auto
  obtain out s' where step: "read_through hit store r s = (out, s')" by (cases "read_through hit store r s")
  have "k \<notin> known s'" using known_step [OF step] Suc.prems(2,3) rs by auto
  then have "read_all hit store rs' s' ! j' = (False, Inr v)"
    using Suc.IH [OF valid_step [OF step Suc.prems(1)], of rs' j' i'] Suc.prems(3-12) rs ij step by simp
  then show ?case using rs ij step by simp
qed

end

section \<open>The dictionary provides it\<close>

lemma evict_drop: "evict cap c = drop (length c - cap) c"
proof (induction c)
  case (Cons x xs)
  then show ?case by (cases "length (x # xs) > cap") (auto simp: Suc_diff_le)
qed simp

lemma wf_drop: "wf_dict c \<Longrightarrow> wf_dict (drop n c)"
  by (simp add: drop_map [symmetric])

lemma dget_drop:
  assumes "wf_dict c" and "dget (drop n c) k = Some v"
  shows "dget c k = Some v"
proof -
  have "(k, v) \<in> set (drop n c)" using assms(2) by (rule dget_SomeD)
  then have "(k, v) \<in> set c" by (rule in_set_dropD)
  then show ?thesis using assms(1) by (simp del: map_of_eq_Some_iff add: dget_in_set)
qed

lemma length_dset: "wf_dict c \<Longrightarrow> length (dset k v c) = card (insert k (keys c))"
proof -
  assume "wf_dict c"
  then have "wf_dict (dset k v c)" by (rule wf_dset)
  then have "length (dset k v c) = card (keys (dset k v c))"
    by (metis distinct_card length_map list.set_map)
  then show ?thesis by simp
qed

lemma dset_length_same: "dget c k \<noteq> None \<Longrightarrow> length (dset k v c) = length c"
  by (induction c) auto

text \<open>The entry just stored survives the eviction: it is the last one, or nothing is evicted.\<close>

lemma dget_cache_store:
  assumes "wf_dict c" and "length c \<le> cap" and "0 < cap"
  shows "dget (cache_store cap now k v c) k = Some (v, now)"
proof (cases "dget c k")
  case None
  then have "cache_store cap now k v c = drop (Suc (length c) - cap) c @ [(k, v, now)]"
    using assms(3) by (simp add: cache_store_def dset_last evict_drop)
  moreover have "dget (drop (Suc (length c) - cap) c) k = None"
    using None by (auto simp: dget_None_iff dest: in_set_dropD)
  ultimately show ?thesis by (simp add: map_add_def)
next
  case (Some x)
  then have "length (dset k (v, now) c) \<le> cap" using assms(2) dset_length_same [of c k] by simp
  then show ?thesis by (simp add: cache_store_def evict_drop)
qed

text \<open>The keys behind one, which is where the later ones go.\<close>

definition behind :: "'v cache \<Rightarrow> string \<Rightarrow> string set" where
  "behind c k = keys (tl (dropWhile (\<lambda>(k', _). k' \<noteq> k) c))"

lemma behind_split: "k \<notin> keys xs \<Longrightarrow> behind (xs @ (k, x) # ys) k = keys ys"
  by (induction xs) (auto simp: behind_def)

lemma behind_absent: "k \<notin> keys c \<Longrightarrow> behind c k = {}"
  unfolding behind_def by (induction c) auto

lemma split_at: "k \<in> keys c \<Longrightarrow> wf_dict c \<Longrightarrow> \<exists>xs x ys. c = xs @ (k, x) # ys \<and> k \<notin> keys xs \<and> k \<notin> keys ys"
  by (fastforce dest: split_list)

lemma dset_split:
  assumes "k \<notin> keys xs"
  shows "\<exists>xs' x' ys'. dset k0 v (xs @ (k, x) # ys) = xs' @ (k, x') # ys' \<and> keys xs' = keys xs
    \<and> keys ys' \<subseteq> keys ys \<union> ({k0} - {k}) \<and> (k0 = k \<or> x' = x)"
proof (cases "k0 \<in> keys xs")
  case True
  have "dset k0 v (xs @ (k, x) # ys) = dset k0 v xs @ (k, x) # ys" using True by (induction xs) auto
  then show ?thesis using True by (metis Un_upper1 insert_absorb keys_dset)
next
  case False
  have app: "dset k0 v (xs @ zs) = xs @ dset k0 v zs" for zs using False by (induction xs) auto
  show ?thesis
  proof (cases "k0 = k")
    case True
    then show ?thesis unfolding app by auto
  next
    case ne: False
    have "keys (dset k0 v ys) = insert k0 (keys ys)" by simp
    then show ?thesis unfolding app using ne by (intro exI [of _ xs] exI [of _ x] exI [of _ "dset k0 v ys"]) auto
  qed
qed

definition valid_cache :: "nat \<Rightarrow> 'v cache \<Rightarrow> bool" where
  "valid_cache cap c \<longleftrightarrow> wf_dict c \<and> length c \<le> cap"

interpretation symbol_cache: reading_cache interval cap "cache_hit interval" "cache_store cap" keys behind "valid_cache cap"
  for interval :: seconds and cap :: nat
proof
  fix s :: "'a cache" and now now' :: seconds and k k' :: string and v w :: 'a
  show "finite (keys s)" by simp
  show "finite (behind s k)" by (simp add: behind_def)
  show "cache_hit interval now k s = Some v \<Longrightarrow> k \<in> keys s"
    by (force simp: cache_hit_def split: option.splits prod.splits if_splits dest: dget_SomeD)
  show "keys (cache_store cap now k v s) \<subseteq> insert k (keys s)"
  proof -
    have "keys (cache_store cap now k v s) \<subseteq> keys (dset k (v, now) s)"
      by (auto simp: cache_store_def evict_drop dest: in_set_dropD simp del: keys_dset)
    then show ?thesis by simp
  qed
  assume valid: "valid_cache cap s"
  then have wf: "wf_dict s" and len: "length s \<le> cap" by (auto simp: valid_cache_def)
  show valid': "valid_cache cap (cache_store cap now k v s)"
    using wf_drop [OF wf_dset [OF wf]] by (auto simp: valid_cache_def cache_store_def evict_drop)
  show "card (keys (cache_store cap now k v s)) \<le> cap"
    using valid' card_length [of "map fst (cache_store cap now k v s)"] by (simp add: valid_cache_def)
  have hit_old: "cache_hit interval n k'' (cache_store cap now k v s) = Some x \<Longrightarrow>
      cache_hit interval n k'' (dset k (v, now) s) = Some x" for n k'' x
  proof -
    assume h: "cache_hit interval n k'' (cache_store cap now k v s) = Some x"
    then obtain t where "dget (cache_store cap now k v s) k'' = Some (x, t)" and t: "n - t < interval"
      by (auto simp: cache_hit_def split: option.splits if_splits)
    then have "dget (dset k (v, now) s) k'' = Some (x, t)"
      unfolding cache_store_def evict_drop using dget_drop [OF wf_dset [OF wf]] by blast
    then show ?thesis using t by (simp only: cache_hit_def) simp
  qed
  show "cache_hit interval now' k (cache_store cap now k v s) = Some w \<Longrightarrow> w = v \<and> now' - now < interval"
    by (drule hit_old) (auto simp: cache_hit_def split: if_splits)
  show "k' \<noteq> k \<Longrightarrow> cache_hit interval now' k' (cache_store cap now k v s) = Some w \<Longrightarrow> cache_hit interval now' k' s = Some w"
    by (drule hit_old) (auto simp: cache_hit_def)
  show "0 < cap \<Longrightarrow> now' - now < interval \<Longrightarrow> cache_hit interval now' k (cache_store cap now k v s) = Some v"
    using dget_cache_store [OF wf len] by (simp add: cache_hit_def)
  have length_dset: "length (dset k (v, now) s) \<le> Suc cap"
    using len by (cases "dget s k") (simp_all add: dset_last dset_length_same)
  show "behind (cache_store cap now k v s) k = {}" if "k \<notin> keys s"
  proof -
    have "cache_store cap now k v s = drop (Suc (length s) - cap) s @ drop (Suc (length s) - cap - length s) [(k, v, now)]"
      using that by (simp add: cache_store_def evict_drop dset_last dget_None_iff)
    moreover have "k \<notin> keys (drop (Suc (length s) - cap) s)" using that by (auto dest: in_set_dropD)
    ultimately show ?thesis
      using behind_split [of k "drop (Suc (length s) - cap) s" "(v, now)" "[]"]
      by (cases "Suc (length s) - cap - length s") (auto simp: behind_absent)
  qed
  have split: "\<exists>xs x ys. dset k (v, now) s = xs @ (k', x) # ys \<and> k' \<notin> keys xs \<and> k' \<notin> keys ys \<and> keys ys \<subseteq> insert k (behind s k') - {k'}
      \<and> (k' = k \<or> dget s k' = Some x)"
    if present: "k' \<in> keys s"
  proof -
    obtain xs x ys where s: "s = xs @ (k', x) # ys" "k' \<notin> keys xs" "k' \<notin> keys ys" using split_at [OF present wf] by blast
    obtain xs' x' ys' where d: "dset k (v, now) s = xs' @ (k', x') # ys'" "keys xs' = keys xs" "keys ys' \<subseteq> keys ys \<union> ({k} - {k'})" "k = k' \<or> x' = x"
      using dset_split [OF s(2), of k "(v, now)" x ys] s(1) by blast
    have none: "dget xs k' = None" using s(2) by (simp add: dget_None_iff)
    have "dget s k' = Some x" unfolding s(1) by (simp add: map_add_def none)
    then show ?thesis using d s behind_split [OF s(2), of x ys] by (intro exI [of _ xs'] exI [of _ x'] exI [of _ ys']) auto
  qed
  show "behind (cache_store cap now k v s) k' \<subseteq> insert k (behind s k') - {k'}" if known: "k' \<in> keys s"
  proof -
    obtain xs x ys where d: "dset k (v, now) s = xs @ (k', x) # ys" "k' \<notin> keys xs" "k' \<notin> keys ys"
      and ys: "keys ys \<subseteq> insert k (behind s k') - {k'}" using split [OF known] by blast
    let ?n = "length (xs @ (k', x) # ys) - cap"
    have store: "cache_store cap now k v s = drop ?n (xs @ (k', x) # ys)" by (simp only: cache_store_def evict_drop d)
    show ?thesis
    proof (cases "?n \<le> length xs")
      case True
      then have "cache_store cap now k v s = drop ?n xs @ (k', x) # ys" unfolding store by simp
      moreover have "k' \<notin> keys (drop ?n xs)" using d(2) by (auto dest: in_set_dropD)
      ultimately show ?thesis using behind_split [of k' "drop ?n xs" x ys] ys by simp
    next
      case False
      then obtain m where m: "?n - length xs = Suc m" by (metis Suc_diff_Suc linorder_not_le)
      then have "cache_store cap now k v s = drop m ys" unfolding store using False by (simp add: m)
      moreover have "k' \<notin> keys (drop m ys)" using d(3) by (auto dest: in_set_dropD)
      ultimately show ?thesis by (simp add: behind_absent)
    qed
  qed
  show "cache_hit interval now' k' (cache_store cap now k v s) = Some w"
    if ne: "k' \<noteq> k" and few: "card (insert k (behind s k')) < cap" and h: "cache_hit interval now' k' s = Some w"
  proof -
    have known: "k' \<in> keys s" using h by (force simp: cache_hit_def split: option.splits prod.splits if_splits dest: dget_SomeD)
    obtain xs x ys where d: "dset k (v, now) s = xs @ (k', x) # ys" "k' \<notin> keys xs" "k' \<notin> keys ys"
      and ys: "keys ys \<subseteq> insert k (behind s k') - {k'}" "dget s k' = Some x" using split [OF known] ne by blast
    let ?n = "length (xs @ (k', x) # ys) - cap"
    have "wf_dict (xs @ (k', x) # ys)" using wf_dset [OF wf, of k "(v, now)"] unfolding d .
    then have "length ys = card (keys ys)" by (metis distinct_append distinct.simps(2) distinct_card length_map list.set_map list.simps(9) map_append)
    also have "\<dots> \<le> card (insert k (behind s k'))" using ys(1) by (intro card_mono) (auto simp: behind_def)
    finally have "?n \<le> length xs" using few by simp
    then have "cache_store cap now k v s = drop ?n xs @ (k', x) # ys" by (simp only: cache_store_def evict_drop d) simp
    moreover have "dget (drop ?n xs) k' = None" using d(2) by (auto simp: dget_None_iff dest: in_set_dropD)
    moreover have "dget ys k' = None" using d(3) by (simp add: dget_None_iff)
    ultimately have "dget (cache_store cap now k v s) k' = Some x" by (simp add: map_add_def)
    then show ?thesis using h ys(2) by (simp add: cache_hit_def)
  qed
qed

end
