(* ===== verification/Fund_Flow.thy ===== *)
theory Fund_Flow
  imports Direct_Values Read_Cache
begin

text \<open>
  \<open>FundFlowHttpClient\<close> of \<open>level2_service/direct_market.py\<close>: what one response says
  (\<open>_response_values\<close>), the three periods of a read (\<open>_read_uncached\<close>), and reads through the
  bounded cache (\<open>read_direct\<close>). The HTTP service is outside: a requester gives, for each window
  of days, the error code of a failed request or a response, whose body is given as the JSON
  value \<open>json.loads\<close> makes of it (None where it raises).
\<close>

section \<open>A response\<close>

record http_response =
  status_code :: int
  response_body :: "json option"

definition fund_flow_indexes :: "string list" where
  "fund_flow_indexes = [''charge_main_capital'', ''charge_main_listed_capital'', ''charge_main_grey_capital'']"

definition truncate :: "rat \<Rightarrow> int" where
  "truncate r = (if r < 0 then - \<lfloor>- r\<rfloor> else \<lfloor>r\<rfloor>)"

text \<open>\<open>int(value)\<close>; None is a \<open>TypeError\<close> or \<open>ValueError\<close>. (A text with underscores between its
  digits, which Python accepts as well, is not modelled, nor is the \<open>OverflowError\<close> of an infinity.)\<close>

definition int_of_text :: "string \<Rightarrow> int option" where
  "int_of_text s =
     (case split_sign (strip s) of (neg, ds) \<Rightarrow>
        if all_digits ds then Some (if neg then - int (dec_val ds) else int (dec_val ds)) else None)"

definition py_int :: "json \<Rightarrow> int option" where
  "py_int j =
     (case j of JNum r \<Rightarrow> Some (truncate r) | JFloat r \<Rightarrow> Some (truncate r) | JStr s \<Rightarrow> int_of_text s
      | JBool b \<Rightarrow> Some (if b then 1 else 0) | _ \<Rightarrow> None)"

definition as_list :: "json option \<Rightarrow> json list option" where
  "as_list j = (case j of Some (JArr xs) \<Rightarrow> Some xs | _ \<Rightarrow> None)"

definition index_name :: "json list \<Rightarrow> int \<Rightarrow> string option" where
  "index_name indexes position =
     (if position < 0 \<or> int (length indexes) \<le> position then None
      else case jget (indexes ! nat position) ''index_id'' of
        Some (JStr name) \<Rightarrow> if name \<in> set fund_flow_indexes then Some name else None
      | _ \<Rightarrow> None)"

definition put_value :: "json list \<Rightarrow> (string \<Rightarrow> rat option) \<Rightarrow> json \<Rightarrow> (string \<Rightarrow> rat option)" where
  "put_value indexes result item =
     (case py_int (jget_or item ''idx'' JNull) of
        None \<Rightarrow> result
      | Some position \<Rightarrow>
          (case index_name indexes position of None \<Rightarrow> result
           | Some name \<Rightarrow> result(name := decimal_of_json (jget_or item ''value'' JNull))))"

text \<open>None is \<open>DIRECT_FUND_FLOW_RESPONSE_INVALID\<close>.\<close>

definition response_values :: "http_response \<Rightarrow> string \<Rightarrow> string \<Rightarrow> (string \<Rightarrow> rat option) option" where
  "response_values response sy market = do {
     payload \<leftarrow> response_body response;
     code \<leftarrow> Option.bind (jget payload ''status_code'') py_int;
     if code \<noteq> 0 then None
     else do {
       data \<leftarrow> jget payload ''data'';
       indexes \<leftarrow> as_list (jget data ''indexes'');
       rows \<leftarrow> as_list (jget data ''data'');
       (case filter (\<lambda>row. jget row ''code'' = Some (JStr (market @ '':'' @ sy))) rows of
          [row] \<Rightarrow>
            map_option (\<lambda>raw_values. foldl (put_value indexes) (\<lambda>_. None) (filter is_jobj raw_values))
              (as_list (jget row ''values''))
        | _ \<Rightarrow> None)
     }
   }"

section \<open>A read of the three periods\<close>

type_synonym requester = "nat \<Rightarrow> string + http_response"

definition large_divisor :: "(string \<Rightarrow> rat option) \<Rightarrow> rat" where
  "large_divisor raw =
     (if list_ex (\<lambda>name. case raw name of None \<Rightarrow> False | Some v \<Rightarrow> \<bar>v\<bar> \<ge> 100000000) fund_flow_indexes
      then 100000000 else 10000)"

definition scaled :: "rat \<Rightarrow> rat option \<Rightarrow> string option" where
  "scaled divisor v = formatted (map_option (\<lambda>x. ddiv x divisor) v)"

definition period_values ::
  "string \<Rightarrow> metric_kind \<Rightarrow> (string \<Rightarrow> rat option) \<Rightarrow> (metric_kind \<Rightarrow> string option) \<Rightarrow> (metric_kind \<Rightarrow> string option)" where
  "period_values period unit_kind raw vs =
     (let divisor = large_divisor raw;
          main = raw ''charge_main_capital'';
          metric = (\<lambda>f. the (dget (fund_flow_metrics period) f))
      in vs(unit_kind := Some (if divisor = 100000000 then yi_yuan else wan_yuan),
            metric ''main_net_inflow'' := scaled divisor main,
            metric ''main_visible_inflow'' := scaled divisor (raw ''charge_main_listed_capital''),
            metric ''main_hidden_inflow'' := scaled divisor (raw ''charge_main_grey_capital''),
            metric ''retail_inflow'' := scaled divisor (map_option (\<lambda>x. dec28 (- x)) main)))"

definition fund_flow_windows :: "(string \<times> metric_kind \<times> nat) list" where
  "fund_flow_windows = [(''today'', MAIN_FLOW_TODAY_UNIT, 1), (''three_day'', MAIN_FLOW_THREE_DAY_UNIT, 3),
     (''five_day'', MAIN_FLOW_FIVE_DAY_UNIT, 5)]"

text \<open>The status of a response, before its body is read; the flag is \<open>mark_error\<close>, the notice that
  the session has expired.\<close>

definition response_error :: "http_response \<Rightarrow> (string \<times> bool) option" where
  "response_error r =
     (let s = status_code r in
      if s = 401 \<or> s = 403 then Some (''DIRECT_SESSION_EXPIRED'', True)
      else if 400 \<le> s \<and> s < 500 then Some (''DIRECT_HTTP_FORBIDDEN'', False)
      else if s < 200 \<or> 300 \<le> s then Some (''DIRECT_FUND_FLOW_REQUEST_FAILED'', False)
      else None)"

fun read_periods ::
  "requester \<Rightarrow> string \<Rightarrow> string \<Rightarrow> (string \<times> metric_kind \<times> nat) list \<Rightarrow> (metric_kind \<Rightarrow> string option) \<Rightarrow>
   (wire_error + (metric_kind \<Rightarrow> string option)) \<times> bool" where
  "read_periods req sy market [] vs = (Inr vs, False)"
| "read_periods req sy market ((period, unit_kind, window) # ps) vs =
     (case req window of Inl e \<Rightarrow> (Inl (DirectRequestError e), False)
      | Inr response \<Rightarrow>
          (case response_error response of Some (e, expired) \<Rightarrow> (Inl (DirectRequestError e), expired)
           | None \<Rightarrow>
               (case response_values response sy market of
                  None \<Rightarrow> (Inl (DirectRequestError ''DIRECT_FUND_FLOW_RESPONSE_INVALID''), False)
                | Some raw \<Rightarrow> read_periods req sy market ps (period_values period unit_kind raw vs))))"

definition fund_outcome :: "(metric_kind \<Rightarrow> string option) \<Rightarrow> direct_outcome" where
  "fund_outcome vs = \<lparr>out_values = vs, out_errors = no_source_errors, out_series = Map.empty, stored_trade_dates = []\<rparr>"

definition read_uncached :: "bool \<Rightarrow> requester \<Rightarrow> string \<Rightarrow> string \<Rightarrow> (wire_error + direct_outcome) \<times> bool" where
  "read_uncached session_available req sy market =
     (if \<not> session_available then (Inl (DirectRequestError ''DIRECT_SESSION_UNAVAILABLE''), False)
      else case read_periods req sy market fund_flow_windows empty_metric_values of
        (Inl e, expired) \<Rightarrow> (Inl e, expired) | (Inr vs, expired) \<Rightarrow> (Inr (fund_outcome vs), expired))"

section \<open>Reads through the cache\<close>

text \<open>\<open>read_direct\<close>, under its lock. The first component says whether the service was asked; an
  unsupported symbol raises before that.\<close>

definition fund_read_direct ::
  "seconds \<Rightarrow> nat \<Rightarrow> bool \<Rightarrow> requester \<Rightarrow> seconds \<Rightarrow> string \<Rightarrow> direct_outcome cache \<Rightarrow>
   (bool \<times> (wire_error + direct_outcome)) \<times> direct_outcome cache" where
  "fund_read_direct interval cap session_available req now sy c =
     (case market_code_for_symbol sy of None \<Rightarrow> ((False, Inl WireValueError), c)
      | Some market \<Rightarrow>
          read_through (cache_hit interval) (cache_store cap)
            (sy, now, fst (read_uncached session_available req sy market)) c)"

text \<open>The fund-flow part of a market snapshot.\<close>

definition fund_market_values :: "(metric_kind \<Rightarrow> string option) \<Rightarrow> (string \<times> json) list" where
  "fund_market_values vs =
     map (\<lambda>(period, unit_kind). (period, JObj ((''unit'', jstr_opt (vs unit_kind))
        # map (\<lambda>(name, kind). (name, jstr_opt (vs kind))) (fund_flow_metrics period)))) fund_flow_periods"

end
