(* ===== verification/Transport.thy ===== *)
theory Transport
  imports Fund_Flow
begin

text \<open>
  The transport of the 9528 protocol, \<open>Core9528TemplateProtocol\<close> of
  \<open>level2_service/direct_market.py\<close>: what a session's material says (\<open>prepare\<close>), exact reads and
  frames with their deadlines, and the exchange over an authenticated connection. The socket is
  outside: a connection is the list of what arrives on it, each piece after a delay, and a reading
  of the clock goes with it. \<open>json.loads\<close> on a text and the fingerprint of a session (SHA-256) are
  arguments; sending never fails.
\<close>

section \<open>The material of a session\<close>

record core_request =
  request_host :: string
  request_port :: int
  auth_packet :: bytes
  request_packets :: "bytes list"
  macdfs_params :: "(nat \<times> nat \<times> nat) option"
  request_timeout :: seconds
  session_fingerprint :: bytes

type_synonym core_material = "(string, string) dict"

text \<open>\<open>bytes.fromhex\<close>: white space between the bytes is skipped.\<close>

fun bytes_fromhex :: "string \<Rightarrow> bytes option" where
  "bytes_fromhex [] = Some []"
| "bytes_fromhex (a # rest) =
     (if is_space a \<and> of_char a \<noteq> (28 :: nat) \<and> of_char a \<noteq> (29 :: nat) \<and> of_char a \<noteq> (30 :: nat) \<and> of_char a \<noteq> (31 :: nat)
      then bytes_fromhex rest
      else case rest of [] \<Rightarrow> None
        | b # rest' \<Rightarrow>
            (case (hex_digit (of_char a), hex_digit (of_char b)) of
               (Some h, Some l) \<Rightarrow> map_option ((#) (of_nat (16 * h + l))) (bytes_fromhex rest')
             | _ \<Rightarrow> None))"

definition validate_core_auth_packet :: "bytes \<Rightarrow> bool" where
  "validate_core_auth_packet packet \<longleftrightarrow> valid_outer_packet packet \<and> length packet \<noteq> 13"

text \<open>\<open>str(packet)\<close> of a member of the list; only a text can be hexadecimal digits in pairs, but for
  numbers, whose decimal digits are.\<close>

definition json_text :: "json \<Rightarrow> string option" where
  "json_text j =
     (case j of JStr s \<Rightarrow> Some s
      | JNum r \<Rightarrow> if of_int \<lfloor>r\<rfloor> = r then Some (str_of_int \<lfloor>r\<rfloor>) else None
      | _ \<Rightarrow> None)"

definition patched_packet :: "bytes \<Rightarrow> string \<Rightarrow> string \<Rightarrow> json \<Rightarrow> bytes option" where
  "patched_packet alphabet template_symbol sy j = do {
     t \<leftarrow> json_text j;
     packet \<leftarrow> bytes_fromhex t;
     (case patch_core_packet_symbol alphabet packet template_symbol sy of Inl _ \<Rightarrow> None | Inr p \<Rightarrow> Some p)
   }"

fun patched_packets :: "bytes \<Rightarrow> string \<Rightarrow> string \<Rightarrow> json list \<Rightarrow> bytes list option" where
  "patched_packets alphabet template_symbol sy [] = Some []"
| "patched_packets alphabet template_symbol sy (j # js) = do {
     p \<leftarrow> patched_packet alphabet template_symbol sy j;
     ps \<leftarrow> patched_packets alphabet template_symbol sy js;
     Some (p # ps) }"

text \<open>\<open>_material_packets\<close>; None is \<open>DIRECT_PROTOCOL_HANDSHAKE_FAILED\<close>.\<close>

definition material_packets ::
  "(string \<Rightarrow> json option) \<Rightarrow> core_material \<Rightarrow> string \<Rightarrow> (string \<times> int \<times> bytes \<times> bytes list) option" where
  "material_packets loads m sy = do {
     host \<leftarrow> dget m ''server_ip'';
     port \<leftarrow> Option.bind (dget m ''server_port'') int_of_text;
     auth \<leftarrow> Option.bind (dget m ''auth_packet_hex'') bytes_fromhex;
     template_symbol \<leftarrow> dget m ''template_symbol'';
     raw_packets \<leftarrow> Option.bind (dget m ''request_packets_hex'') loads;
     alphabet \<leftarrow> map_option ascii_bytes (dget m ''base64_alphabet'');
     packets \<leftarrow> as_list (Some raw_packets);
     if \<not> valid_alphabet alphabet \<or> \<not> validate_core_auth_packet auth \<or> packets = [] then None
     else do {
       ps \<leftarrow> patched_packets alphabet template_symbol sy packets;
       Some (host, port, auth, ps)
     }
   }"

text \<open>\<open>_material_macdfs_params\<close>; the outer None is the same error, the inner one the absence of the
  periods.\<close>

definition period_of_json :: "json \<Rightarrow> nat option" where
  "period_of_json j =
     (case j of JNum r \<Rightarrow> if of_int \<lfloor>r\<rfloor> = r \<and> 0 < r \<and> r \<le> 1000 then Some (nat \<lfloor>r\<rfloor>) else None | _ \<Rightarrow> None)"

definition material_macdfs_params ::
  "(string \<Rightarrow> json option) \<Rightarrow> core_material \<Rightarrow> (nat \<times> nat \<times> nat) option option" where
  "material_macdfs_params loads m =
     (let raw = strip (case dget m ''macdfs_params'' of None \<Rightarrow> [] | Some s \<Rightarrow> s) in
      if raw = [] then Some None
      else case loads raw of
        Some (JArr [a, b, c]) \<Rightarrow>
          (case (period_of_json a, period_of_json b, period_of_json c) of
             (Some x, Some y, Some z) \<Rightarrow> Some (Some (x, y, z)) | _ \<Rightarrow> None)
      | _ \<Rightarrow> None)"

text \<open>\<open>prepare\<close> with \<open>Core9528CurveDecoder\<close>, whose periods must be given.\<close>

definition prepare ::
  "(string \<Rightarrow> json option) \<Rightarrow> (core_material \<Rightarrow> bytes) \<Rightarrow> core_material \<Rightarrow> seconds \<Rightarrow> string \<Rightarrow> wire_error + core_request" where
  "prepare loads fingerprint m timeout sy =
     (let failed = Inl (DirectRequestError ''DIRECT_PROTOCOL_HANDSHAKE_FAILED'') in
      case material_packets loads m sy of None \<Rightarrow> failed
      | Some (host, port, auth, packets) \<Rightarrow>
          (case material_macdfs_params loads m of
             Some (Some params) \<Rightarrow>
               if timeout \<le> 0 then failed
               else Inr \<lparr>request_host = host, request_port = port, auth_packet = auth, request_packets = packets,
                        macdfs_params = Some params, request_timeout = timeout,
                        session_fingerprint = fingerprint m\<rparr>
           | _ \<Rightarrow> failed))"

section \<open>Exact reads\<close>

datatype arrival = Data bytes | Eof | Reset

record connection =
  conn_clock :: seconds
  arrivals :: "(seconds \<times> arrival) list"

text \<open>\<open>recv(n)\<close> with a socket timeout: some bytes, none at the end of the stream, or None for a
  \<open>TimeoutError\<close> or \<open>OSError\<close>.\<close>

definition recv :: "nat \<Rightarrow> seconds \<Rightarrow> connection \<Rightarrow> bytes option \<times> connection" where
  "recv n timeout c =
     (case arrivals c of
        [] \<Rightarrow> (None, c\<lparr>conn_clock := conn_clock c + timeout\<rparr>)
      | (delay, a) # rest \<Rightarrow>
          if delay > timeout then
            (None, \<lparr>conn_clock = conn_clock c + timeout, arrivals = (delay - timeout, a) # rest\<rparr>)
          else (case a of
            Data bs \<Rightarrow> (Some (take n bs), \<lparr>conn_clock = conn_clock c + delay,
                                         arrivals = (if length bs \<le> n then rest else (0, Data (drop n bs)) # rest)\<rparr>)
          | Eof \<Rightarrow> (Some [], \<lparr>conn_clock = conn_clock c + delay, arrivals = [(0, Eof)]\<rparr>)
          | Reset \<Rightarrow> (None, \<lparr>conn_clock = conn_clock c + delay, arrivals = [(0, Reset)]\<rparr>)))"

abbreviation response_timeout :: wire_error where
  "response_timeout \<equiv> DirectRequestError ''DIRECT_PROTOCOL_RESPONSE_TIMEOUT''"

abbreviation response_invalid :: wire_error where
  "response_invalid \<equiv> DirectRequestError ''DIRECT_PROTOCOL_RESPONSE_INVALID''"

text \<open>The loop of \<open>_read_exact\<close>: \<open>received\<close> is what the chunks hold so far.\<close>

function read_exact_loop ::
  "nat \<Rightarrow> seconds \<Rightarrow> seconds option \<Rightarrow> bytes \<Rightarrow> connection \<Rightarrow> (wire_error + bytes) \<times> connection" where
  "read_exact_loop len deadline max_wait received c =
     (if len \<le> length received then (Inr received, c)
      else
        let remaining = deadline - conn_clock c in
        if remaining \<le> 0 then (Inl response_timeout, c)
        else
          let timeout = (case max_wait of None \<Rightarrow> remaining | Some w \<Rightarrow> min remaining w) in
          (case recv (len - length received) timeout c of
             (None, c') \<Rightarrow> (Inl (if received \<noteq> [] then response_invalid else response_timeout), c')
           | (Some chunk, c') \<Rightarrow>
               if chunk = [] then (Inl response_invalid, c')
               else read_exact_loop len deadline max_wait (received @ chunk) c'))"
  by auto
termination
  by (relation "measure (\<lambda>(len, _, _, received, _). len - length received)")
    (auto simp: diff_less_mono2 length_greater_0_conv)

declare read_exact_loop.simps [simp del]

definition read_exact ::
  "nat \<Rightarrow> seconds \<Rightarrow> seconds option \<Rightarrow> connection \<Rightarrow> (wire_error + bytes) \<times> connection" where
  "read_exact len deadline max_wait c = read_exact_loop len deadline max_wait [] c"

section \<open>Frames\<close>

definition is_curve_frame :: "bytes \<Rightarrow> bool" where
  "is_curve_frame frame =
     (let payload = drop 13 frame;
          head_length = le_nat (take 2 payload);
          head_type = le_nat (byte_slice 6 10 payload);
          curve = (\<lambda>body. curve_magic body \<or> curve_magic (drop 4 body))
      in if length payload < 10 \<or> head_length < 24 \<or> head_length > length payload then False
         else if head_type AND 0xF0000000 \<noteq> 0 then False
         else if head_type AND 0xF000 = 0x1000 then
           (case decode_core_snappy (drop head_length payload) of Inl _ \<Rightarrow> False | Inr body \<Rightarrow> curve body)
         else if head_type AND 0xF000 = 0x3000 then False
         else curve (drop head_length payload))"

text \<open>The length a frame header announces; None for a header that is not valid.\<close>

definition header_length :: "bytes \<Rightarrow> nat option" where
  "header_length header =
     (if take 4 header \<noteq> replicate 4 0xFD \<or> header ! 12 \<noteq> 0 then None
      else case hex_value 0 (byte_slice 4 12 header) of
        None \<Rightarrow> None
      | Some n \<Rightarrow> if n > 16 * 1024 * 1024 then None else Some n)"

text \<open>The loop of \<open>_read_frames\<close>: the rounds left, the curves still wanted, the frames so far.\<close>

fun read_frames_loop ::
  "nat \<Rightarrow> seconds \<Rightarrow> nat option \<Rightarrow> seconds option \<Rightarrow> bytes list \<Rightarrow> connection \<Rightarrow> (wire_error + bytes list) \<times> connection" where
  "read_frames_loop 0 deadline stop idle frames c = (Inr frames, c)"
| "read_frames_loop (Suc n) deadline stop idle frames c =
     (case read_exact 13 deadline (if frames \<noteq> [] then idle else None) c of
        (Inl e, c1) \<Rightarrow> if frames \<noteq> [] \<and> e = response_timeout then (Inr frames, c1) else (Inl e, c1)
      | (Inr header, c1) \<Rightarrow>
          (case header_length header of
             None \<Rightarrow> (Inl response_invalid, c1)
           | Some len \<Rightarrow>
               (case read_exact len deadline None c1 of
                  (Inl e, c2) \<Rightarrow> (Inl (if e = response_timeout then response_invalid else e), c2)
                | (Inr body, c2) \<Rightarrow>
                    let frame = header @ body in
                    if stop \<noteq> None \<and> is_curve_frame frame then
                      (if the stop \<le> 1 then (Inr (frames @ [frame]), c2)
                       else read_frames_loop n deadline (Some (the stop - 1)) idle (frames @ [frame]) c2)
                    else read_frames_loop n deadline stop idle (frames @ [frame]) c2)))"

definition max_response_frames :: nat where
  "max_response_frames = 64"

definition read_frames ::
  "seconds \<Rightarrow> nat option \<Rightarrow> seconds option \<Rightarrow> connection \<Rightarrow> (wire_error + bytes list) \<times> connection" where
  "read_frames deadline stop idle c = read_frames_loop max_response_frames deadline stop idle [] c"

section \<open>The exchange\<close>

text \<open>\<open>authenticate\<close>: the frames that answer the authentication packet, or its error; an error closes
  the connection.\<close>

definition authenticate :: "core_request \<Rightarrow> seconds \<Rightarrow> connection \<Rightarrow> wire_error + connection" where
  "authenticate prepared idle c =
     (case read_frames (conn_clock c + request_timeout prepared) None (Some idle) c of
        (Inl (DirectRequestError e), _) \<Rightarrow>
          Inl (DirectRequestError (sanitized_direct_error_code e ''DIRECT_PROTOCOL_HANDSHAKE_FAILED''))
      | (Inl WireValueError, _) \<Rightarrow> Inl (DirectRequestError ''DIRECT_PROTOCOL_HANDSHAKE_FAILED'')
      | (Inr [], _) \<Rightarrow> Inl response_timeout
      | (Inr (_ # _), c') \<Rightarrow> Inr c')"

fun pairs_of :: "'a list \<Rightarrow> 'a list list" where
  "pairs_of (a # b # rest) = [a, b] # pairs_of rest"
| "pairs_of [a] = [[a]]"
| "pairs_of [] = []"

text \<open>The batches in turn, each pair of packets once; the first curve ends a batch, and a silent
  batch after a curve ends the exchange.\<close>

fun read_batches ::
  "seconds \<Rightarrow> bytes list list \<Rightarrow> bytes list set \<Rightarrow> bytes list \<Rightarrow> connection \<Rightarrow> (wire_error + bytes list) \<times> connection" where
  "read_batches deadline [] seen frames c = (Inr frames, c)"
| "read_batches deadline (batch # batches) seen frames c =
     (if batch \<in> seen then read_batches deadline batches seen frames c
      else case read_frames deadline (Some 1) None c of
        (Inr new, c1) \<Rightarrow> read_batches deadline batches (insert batch seen) (frames @ new) c1
      | (Inl e, c1) \<Rightarrow>
          if e = response_timeout \<and> list_ex is_curve_frame frames then (Inr frames, c1) else (Inl e, c1))"

definition read_authenticated ::
  "core_request \<Rightarrow> bytes \<Rightarrow> string \<Rightarrow> string \<Rightarrow> connection \<Rightarrow> wire_error + direct_outcome" where
  "read_authenticated prepared warm_fingerprint sy market c =
     (if warm_fingerprint \<noteq> session_fingerprint prepared
      then Inl (DirectRequestError ''DIRECT_PROTOCOL_HANDSHAKE_FAILED'')
      else
        case fst (read_batches (conn_clock c + request_timeout prepared) (pairs_of (request_packets prepared)) {} [] c) of
          Inl (DirectRequestError e) \<Rightarrow>
            Inl (DirectRequestError (sanitized_direct_error_code e ''DIRECT_PROTOCOL_HANDSHAKE_FAILED''))
        | Inl WireValueError \<Rightarrow> Inl (DirectRequestError ''DIRECT_PROTOCOL_HANDSHAKE_FAILED'')
        | Inr frames \<Rightarrow>
            (case core_decode (case macdfs_params prepared of None \<Rightarrow> (12, 26, 9) | Some p \<Rightarrow> p) frames sy market of
               Inr d \<Rightarrow> Inr d
             | Inl (DirectRequestError e) \<Rightarrow>
                 Inl (DirectRequestError (sanitized_direct_error_code e ''DIRECT_PROTOCOL_RESPONSE_INVALID''))
             | Inl WireValueError \<Rightarrow> Inl (DirectRequestError ''DIRECT_PROTOCOL_RESPONSE_INVALID'')))"

text \<open>\<open>read_direct\<close> over a fresh connection.\<close>

definition protocol_read_direct ::
  "(string \<Rightarrow> json option) \<Rightarrow> (core_material \<Rightarrow> bytes) \<Rightarrow> core_material \<Rightarrow> seconds \<Rightarrow> seconds \<Rightarrow> string \<Rightarrow> string
   \<Rightarrow> connection \<Rightarrow> wire_error + direct_outcome" where
  "protocol_read_direct loads fingerprint m timeout idle sy market c =
     (case prepare loads fingerprint m timeout sy of Inl e \<Rightarrow> Inl e
      | Inr prepared \<Rightarrow>
          (case authenticate prepared idle c of Inl e \<Rightarrow> Inl e
           | Inr c' \<Rightarrow> read_authenticated prepared (session_fingerprint prepared) sy market c'))"

section \<open>Deadlines\<close>

lemma recv_clock: "0 \<le> timeout \<Longrightarrow> conn_clock (snd (recv n timeout c)) \<le> conn_clock c + timeout"
  by (auto simp: recv_def split: list.splits arrival.splits)

lemma read_exact_loop_clock:
  "conn_clock (snd (read_exact_loop len deadline w received c)) \<le> max (conn_clock c) deadline"
  if "\<forall>x. w = Some x \<longrightarrow> 0 \<le> x"
  using that
proof (induction len deadline w received c rule: read_exact_loop.induct)
  case (1 len deadline w received c)
  let ?rem = "deadline - conn_clock c"
  let ?t = "case w of None \<Rightarrow> ?rem | Some x \<Rightarrow> min ?rem x"
  obtain r c' where r: "recv (len - length received) ?t c = (r, c')" by (cases "recv (len - length received) ?t c")
  show ?case
  proof (cases "len \<le> length received \<or> ?rem \<le> 0")
    case True
    then show ?thesis by (auto simp: read_exact_loop.simps [of len])
  next
    case False
    then have t: "0 \<le> ?t" "?t \<le> ?rem" using "1.prems" by (auto split: option.splits)
    then have c': "conn_clock c' \<le> max (conn_clock c) deadline"
      using recv_clock [OF t(1), of "len - length received" c] r by simp
    show ?thesis
    proof (cases "r = None \<or> r = Some []")
      case True
      then show ?thesis using False r c' by (auto simp: read_exact_loop.simps [of len] Let_def)
    next
      case more: False
      then obtain chunk where chunk: "r = Some chunk" "chunk \<noteq> []" by auto
      have "conn_clock (snd (read_exact_loop len deadline w (received @ chunk) c')) \<le> max (conn_clock c') deadline"
        using "1.IH" [OF _ refl _ refl r [symmetric] _ _ "1.prems"] False chunk r by fastforce
      then show ?thesis using False r c' chunk by (simp add: read_exact_loop.simps [of len] Let_def)
    qed
  qed
qed

end
