(* ===== verification/Transport_Facts.thy ===== *)
theory Transport_Facts
  imports Transport
begin

text \<open>
  What the transport guarantees: no read waits past its deadline, frames are cut exactly however the
  stream is chopped, in pieces that come in time, and a frame that decodes as a curve is recognised as one.
\<close>

section \<open>Deadlines of frames and exchanges\<close>

lemma read_exact_clock:
  "(\<And>x. w = Some x \<Longrightarrow> 0 \<le> x) \<Longrightarrow> conn_clock (snd (read_exact len deadline w c)) \<le> max (conn_clock c) deadline"
  unfolding read_exact_def by (rule read_exact_loop_clock) blast

lemma read_frames_loop_clock:
  assumes "\<And>x. idle = Some x \<Longrightarrow> 0 \<le> x"
  shows "conn_clock (snd (read_frames_loop n deadline stop idle frames c)) \<le> max (conn_clock c) deadline"
proof (induction n arbitrary: stop frames c)
  case (Suc n)
  obtain r1 c1 where r1: "read_exact 13 deadline (if frames \<noteq> [] then idle else None) c = (r1, c1)"
    by (cases "read_exact 13 deadline (if frames \<noteq> [] then idle else None) c")
  have b1: "conn_clock c1 \<le> max (conn_clock c) deadline"
    using read_exact_clock [of "if frames \<noteq> [] then idle else None" 13 deadline c] assms r1 by (auto split: if_splits)
  show ?case
  proof (cases r1)
    case (Inl e)
    then show ?thesis using r1 b1 by simp
  next
    case (Inr header)
    show ?thesis
    proof (cases "header_length header")
      case None
      then show ?thesis using r1 b1 Inr by simp
    next
      case (Some len)
      obtain r2 c2 where r2: "read_exact len deadline None c1 = (r2, c2)" by (cases "read_exact len deadline None c1")
      have b2: "conn_clock c2 \<le> max (conn_clock c) deadline"
        using read_exact_clock [of None len deadline c1] r2 b1 by simp
      have rec: "conn_clock (snd (read_frames_loop n deadline s idle fs c2)) \<le> max (conn_clock c) deadline" for s fs
        using Suc.IH [of s fs c2] b2 by linarith
      show ?thesis using r1 Inr Some r2 b2 rec by (cases r2) (simp_all add: Let_def)
    qed
  qed
qed simp

lemma read_frames_clock:
  "(\<And>x. idle = Some x \<Longrightarrow> 0 \<le> x) \<Longrightarrow> conn_clock (snd (read_frames deadline stop idle c)) \<le> max (conn_clock c) deadline"
  unfolding read_frames_def by (rule read_frames_loop_clock)

lemma read_batches_clock:
  "conn_clock (snd (read_batches deadline batches seen frames c)) \<le> max (conn_clock c) deadline"
proof (induction batches arbitrary: seen frames c)
  case (Cons batch batches)
  obtain r c1 where r: "read_frames deadline (Some 1) None c = (r, c1)" by (cases "read_frames deadline (Some 1) None c")
  have "conn_clock c1 \<le> max (conn_clock c) deadline"
    using read_frames_clock [of None deadline "Some 1" c] r by simp
  then have "conn_clock (snd (read_batches deadline batches s fs c1)) \<le> max (conn_clock c) deadline" for s fs
    using Cons.IH [of s fs c1] by linarith
  then show ?case using Cons.IH [of seen frames c] r \<open>conn_clock c1 \<le> _\<close> by (cases r) simp_all
qed simp

section \<open>A stream in pieces\<close>

text \<open>The bytes arrive in pieces, none later than \<open>w\<close> after the one before and the last at \<open>e\<close>; then comes \<open>rest\<close>.\<close>

definition stream :: "seconds \<Rightarrow> seconds \<Rightarrow> (seconds \<times> arrival) list \<Rightarrow> connection \<Rightarrow> bytes \<Rightarrow> bool" where
  "stream w e rest c bs \<longleftrightarrow> (\<exists>chunks. arrivals c = map (\<lambda>(d, x). (d, Data x)) chunks @ rest
     \<and> (\<forall>(d, x) \<in> set chunks. 0 \<le> d \<and> d \<le> w \<and> x \<noteq> []) \<and> concat (map snd chunks) = bs
     \<and> conn_clock c + sum_list (map fst chunks) = e)"

lemma stream_clock: "stream w e rest c bs \<Longrightarrow> conn_clock c \<le> e"
proof -
  assume "stream w e rest c bs"
  then obtain chunks where "\<forall>(d, x) \<in> set chunks. 0 \<le> d \<and> d \<le> w \<and> x \<noteq> ([] :: bytes)" "conn_clock c + sum_list (map fst chunks) = e"
    unfolding stream_def by blast
  moreover have "0 \<le> sum_list (map fst chunks)" using calculation(1) by (intro sum_list_nonneg) auto
  ultimately show ?thesis by linarith
qed

lemma stream_end: "stream w e rest c [] \<Longrightarrow> arrivals c = rest \<and> conn_clock c = e"
proof -
  assume "stream w e rest c []"
  then obtain chunks where ch: "arrivals c = map (\<lambda>(d, x). (d, Data x)) chunks @ rest"
    "\<forall>(d, x) \<in> set chunks. 0 \<le> d \<and> d \<le> w \<and> x \<noteq> []" "concat (map snd chunks) = []" "conn_clock c + sum_list (map fst chunks) = e"
    unfolding stream_def by blast
  then have "chunks = []" by (cases chunks) auto
  then show ?thesis using ch by simp
qed

lemma recv_stream:
  assumes "stream w e rest c bs" and "bs \<noteq> []" and "0 < n" and "min w (e - conn_clock c) \<le> timeout"
  shows "\<exists>k c'. recv n timeout c = (Some (take k bs), c') \<and> 0 < k \<and> k \<le> n \<and> k \<le> length bs \<and> stream w e rest c' (drop k bs)"
proof -
  obtain chunks where ch: "arrivals c = map (\<lambda>(d, x). (d, Data x)) chunks @ rest"
    "\<forall>(d, x) \<in> set chunks. 0 \<le> d \<and> d \<le> w \<and> x \<noteq> []" "concat (map snd chunks) = bs" "conn_clock c + sum_list (map fst chunks) = e"
    using assms(1) unfolding stream_def by blast
  then obtain d x xs where chunks: "chunks = (d, x) # xs" using assms(2) by (cases chunks) auto
  have x: "x \<noteq> []" "0 \<le> d" "d \<le> w" and bs: "bs = x @ concat (map snd xs)" using ch(2,3) by (auto simp: chunks)
  have "0 \<le> sum_list (map fst xs)" using ch(2) by (intro sum_list_nonneg) (auto simp: chunks)
  then have "d \<le> e - conn_clock c" using ch(4) by (simp add: chunks)
  then have d: "d \<le> timeout" using x(3) assms(4) by simp
  let ?k = "min n (length x)"
  let ?ys = "if length x \<le> n then xs else (0, drop n x) # xs"
  have r: "recv n timeout c = (Some (take ?k bs), \<lparr>conn_clock = conn_clock c + d, arrivals = map (\<lambda>(d, x). (d, Data x)) ?ys @ rest\<rparr>)"
    using d by (auto simp: recv_def ch(1) chunks bs min_def)
  have "stream w e rest \<lparr>conn_clock = conn_clock c + d, arrivals = map (\<lambda>(d, x). (d, Data x)) ?ys @ rest\<rparr> (drop ?k bs)"
    unfolding stream_def using ch(2,4) x by (intro exI [of _ ?ys]) (auto simp: chunks bs min_def)
  then show ?thesis using r x(1) assms(3) bs by (intro exI [of _ ?k]) auto
qed

lemma read_exact_loop_stream:
  assumes "stream w e rest c bs" and "length received \<le> len" and "len - length received \<le> length bs"
    and "e < deadline" and "\<And>x. wait = Some x \<Longrightarrow> w \<le> x"
  shows "\<exists>c'. read_exact_loop len deadline wait received c = (Inr (received @ take (len - length received) bs), c')
    \<and> stream w e rest c' (drop (len - length received) bs)"
  using assms
proof (induction "len - length received" arbitrary: received bs c rule: less_induct)
  case less
  show ?case
  proof (cases "len \<le> length received")
    case True
    then have "len - length received = 0" by simp
    moreover have "read_exact_loop len deadline wait received c = (Inr received, c)"
      using True by (simp add: read_exact_loop.simps [of len deadline wait received])
    ultimately show ?thesis using less.prems(1) by simp
  next
    case False
    let ?n = "len - length received"
    let ?t = "case wait of None \<Rightarrow> deadline - conn_clock c | Some x \<Rightarrow> min (deadline - conn_clock c) x"
    have clock: "conn_clock c < deadline" using stream_clock [OF less.prems(1)] less.prems(4) by linarith
    have "bs \<noteq> []" "0 < ?n" using False less.prems(3) by auto
    moreover have "min w (e - conn_clock c) \<le> ?t" using less.prems(4,5) by (cases wait) (auto simp: min_def)
    ultimately obtain k c1
      where r: "recv ?n ?t c = (Some (take k bs), c1)" and k: "0 < k" "k \<le> ?n" "k \<le> length bs"
        and s: "stream w e rest c1 (drop k bs)" using recv_stream [OF less.prems(1)] by blast
    have step: "read_exact_loop len deadline wait received c = read_exact_loop len deadline wait (received @ take k bs) c1"
      using False clock r k \<open>bs \<noteq> []\<close> by (simp add: read_exact_loop.simps [of len deadline wait received] Let_def)
    have lk: "length (received @ take k bs) = length received + k" using k(3) by simp
    have h: "len - length (received @ take k bs) < ?n" "length (received @ take k bs) \<le> len"
      "len - length (received @ take k bs) \<le> length (drop k bs)" "len - length (received @ take k bs) = ?n - k"
      unfolding lk length_drop using k less.prems(3) False by arith+
    obtain c' where "read_exact_loop len deadline wait (received @ take k bs) c1
        = (Inr ((received @ take k bs) @ take (?n - k) (drop k bs)), c')"
      and "stream w e rest c' (drop (?n - k) (drop k bs))"
      using less.hyps [OF h(1) s h(2,3) less.prems(4,5)] unfolding h(4) by auto
    moreover have "take k bs @ take (?n - k) (drop k bs) = take ?n bs"
      using k(2) by (metis le_add_diff_inverse take_add)
    moreover have "drop (?n - k) (drop k bs) = drop ?n bs" unfolding drop_drop using k(2) by (metis le_add_diff_inverse2)
    ultimately show ?thesis unfolding step by auto
  qed
qed

lemma read_exact_stream:
  assumes "stream w e rest c (pre @ suf)" and "e < deadline" and "\<And>x. wait = Some x \<Longrightarrow> w \<le> x"
  shows "\<exists>c'. read_exact (length pre) deadline wait c = (Inr pre, c') \<and> stream w e rest c' suf"
  using read_exact_loop_stream [OF assms(1) _ _ assms(2,3), of "[]" "length pre"] by (simp add: read_exact_def)

text \<open>What a read finds after the last piece: silence for too long, or the end of the stream.\<close>

definition silent :: "seconds \<Rightarrow> (seconds \<times> arrival) list \<Rightarrow> bool" where
  "silent idle rest \<longleftrightarrow> rest = [] \<or> idle < fst (hd rest)"

lemma read_exact_silence:
  assumes "silent idle (arrivals c)" and "0 < len" and "conn_clock c < deadline"
  shows "fst (read_exact len deadline (Some idle) c) = Inl response_timeout"
  using assms
  by (cases "arrivals c") (auto simp: silent_def read_exact_def read_exact_loop.simps [of len] recv_def Let_def min_def split: prod.splits)

lemma read_exact_eof:
  assumes "arrivals c = (d, Eof) # further" and "d \<le> idle" and "conn_clock c + d \<le> deadline" and "conn_clock c < deadline" and "0 < len"
  shows "fst (read_exact len deadline (Some idle) c) = Inl response_invalid"
  using assms by (simp add: read_exact_def read_exact_loop.simps [of len] recv_def Let_def)

section \<open>Framing\<close>

lemma packet_header:
  assumes "valid_outer_packet p"
  shows "header_length (take 13 p) = Some (length p - 13)" "length (take 13 p) = 13"
proof -
  have b: "byte_slice 4 12 (take 13 p) = byte_slice 4 12 p" by (simp add: byte_slice_def drop_take min_def)
  show "header_length (take 13 p) = Some (length p - 13)" "length (take 13 p) = 13"
    using assms unfolding header_length_def b by (auto simp: valid_outer_packet_def min_def split: option.splits)
qed

lemma read_frames_loop_stream:
  assumes "stream w e rest c (concat packets)" and "\<forall>p \<in> set packets. valid_outer_packet p"
    and "length packets \<le> n" and "frames @ packets \<noteq> []" and "e < deadline" and "w \<le> idle"
    and ending: "\<And>c. arrivals c = rest \<Longrightarrow> conn_clock c = e \<Longrightarrow> fst (read_exact 13 deadline (Some idle) c) = Inl err"
  shows "fst (read_frames_loop n deadline None (Some idle) frames c) =
    (if err = response_timeout \<or> length packets = n then Inr (frames @ packets) else Inl err)"
  using assms(1-4)
proof (induction n arbitrary: packets frames c)
  case (Suc n)
  show ?case
  proof (cases packets)
    case Nil
    then have "fst (read_exact 13 deadline (Some idle) c) = Inl err" using Suc.prems(1) stream_end ending by auto
    then show ?thesis using Nil Suc.prems(4) by (auto split: prod.splits)
  next
    case (Cons p ps)
    note h = packet_header [of p]
    let ?wait = "if frames \<noteq> [] then Some idle else None"
    have wait: "\<And>x. ?wait = Some x \<Longrightarrow> w \<le> x" using assms(6) by (auto split: if_splits)
    have p: "valid_outer_packet p" using Suc.prems(2) Cons by simp
    have "concat packets = take 13 p @ (drop 13 p @ concat ps)" using Cons by simp
    then obtain c1 where c1: "read_exact 13 deadline ?wait c = (Inr (take 13 p), c1)" "stream w e rest c1 (drop 13 p @ concat ps)"
      using read_exact_stream [of w e rest c "take 13 p" "drop 13 p @ concat ps" deadline ?wait, OF _ assms(5) wait]
        Suc.prems(1) h(2) [OF p] by auto
    obtain c2 where c2: "read_exact (length p - 13) deadline None c1 = (Inr (drop 13 p), c2)" "stream w e rest c2 (concat ps)"
      using read_exact_stream [OF c1(2) assms(5), of None] by auto
    have "fst (read_frames_loop n deadline None (Some idle) (frames @ [p]) c2) =
        (if err = response_timeout \<or> length ps = n then Inr ((frames @ [p]) @ ps) else Inl err)"
      using Suc.prems Cons c2 by (intro Suc.IH) auto
    then show ?thesis using c1(1) c2(1) h(1) [OF p] Cons by (simp add: Let_def)
  qed
qed simp

lemma read_frames_stream:
  assumes "stream idle e rest c (concat packets)" and "\<forall>p \<in> set packets. valid_outer_packet p"
    and "packets \<noteq> []" and "length packets \<le> max_response_frames" and "e < deadline"
  shows "silent idle rest \<Longrightarrow> fst (read_frames deadline None (Some idle) c) = Inr packets"
    and "rest = (d, Eof) # further \<Longrightarrow> d \<le> idle \<Longrightarrow> e + d \<le> deadline \<Longrightarrow> length packets < max_response_frames \<Longrightarrow>
      fst (read_frames deadline None (Some idle) c) = Inl response_invalid"
proof -
  note loop = read_frames_loop_stream [OF assms(1,2,4) _ assms(5) order_refl, of "[]", folded read_frames_def]
  show "fst (read_frames deadline None (Some idle) c) = Inr packets" if "silent idle rest"
    using loop [of response_timeout] that assms(3,5) read_exact_silence [of idle _ 13 deadline] by simp
  show "fst (read_frames deadline None (Some idle) c) = Inl response_invalid"
    if "rest = (d, Eof) # further" "d \<le> idle" "e + d \<le> deadline" "length packets < max_response_frames"
    using loop [of response_invalid] that assms(3,5) read_exact_eof [of _ d further idle deadline 13] by simp
qed

section \<open>Curves\<close>

lemma decoded_is_curve:
  assumes "decode_frame frame sy market = Inr (Some c)"
  shows "is_curve_frame frame"
proof -
  obtain body hl body' where f: "frame_body frame = Some (body, hl)" and b: "curve_body body = Some body'"
    using assms by (auto simp: decode_frame_def split: option.splits prod.splits if_splits)
  have curve: "curve_magic body \<or> curve_magic (drop 4 body)" using b by (auto simp: curve_body_def split: if_splits)
  have len: "41 \<le> length frame" using f by (auto simp: frame_body_def Let_def split: if_splits)
  have s: "take 2 (drop 13 frame) = byte_slice 13 15 frame" "byte_slice 6 10 (drop 13 frame) = byte_slice 19 23 frame"
    by (simp_all add: byte_slice_def drop_take)
  show ?thesis
    using f curve len unfolding is_curve_frame_def Let_def s frame_body_def
    by (auto simp: add.commute split: if_splits sum.splits)
qed

end
