(* ===== verification/Warm_Pool.thy ===== *)
theory Warm_Pool
  imports Wire_Codec "HOL-Library.Multiset"
begin

text \<open>
  \<open>Core9528WarmPool\<close> and \<open>Core9528Client\<close> of \<open>level2_service/direct_market.py\<close>: one authenticated
  connection kept ready, which is consumed once. The critical sections under the pool's lock are
  functions on its state; \<open>pool_step\<close> interleaves those of the client's threads and of the
  background refills, and follows every connection from its authentication to its close.
\<close>

section \<open>The pool\<close>

record warm_connection =
  conn_id :: nat
  warm_fingerprint :: bytes
  authenticated_at :: seconds

record warm_pool =
  ready :: "warm_connection option"
  pool_fingerprint :: "bytes option"
  refilling :: bool
  closed :: bool
  generation :: nat

definition new_pool :: warm_pool where
  "new_pool = \<lparr>ready = None, pool_fingerprint = None, refilling = False, closed = False, generation = 0\<rparr>"

definition ready_count :: "warm_pool \<Rightarrow> nat" where
  "ready_count p = (if ready p = None then 0 else 1)"

text \<open>A request of another session drops the ready connection and starts a new generation; the first
  component is the stale connection.\<close>

definition switch_session :: "bytes \<Rightarrow> warm_pool \<Rightarrow> warm_connection option \<times> warm_pool" where
  "switch_session fp p =
     (if pool_fingerprint p \<noteq> Some fp
      then (ready p, p\<lparr>ready := None, pool_fingerprint := Some fp, generation := generation p + 1, refilling := False\<rparr>)
      else (None, p))"

text \<open>\<open>_schedule_refill\<close>: what it returns, the stale connection it closes, the generation of the refill
  it starts (if it starts one), and the state.\<close>

definition schedule_refill ::
  "bytes \<Rightarrow> nat option \<Rightarrow> warm_pool \<Rightarrow> (bool \<times> warm_connection option \<times> nat option) \<times> warm_pool" where
  "schedule_refill fp expected p =
     (if closed p then ((False, None, None), p)
      else if expected \<noteq> None \<and> (expected \<noteq> Some (generation p) \<or> pool_fingerprint p \<noteq> Some fp) then ((False, None, None), p)
      else case switch_session fp p of (stale, p1) \<Rightarrow>
        if ready p1 \<noteq> None \<or> refilling p1 then ((True, stale, None), p1)
        else ((True, stale, Some (generation p1)), p1\<lparr>refilling := True\<rparr>))"

text \<open>When the background task cannot be started the flag is cleared again.\<close>

definition start_failed :: "warm_pool \<Rightarrow> warm_pool" where
  "start_failed p = p\<lparr>refilling := False\<rparr>"

text \<open>The critical section of \<open>_refill\<close>, and the connections closed after it.\<close>

definition refill_finish :: "nat \<Rightarrow> warm_connection option \<Rightarrow> warm_pool \<Rightarrow> warm_connection list \<times> warm_pool" where
  "refill_finish gen warm p =
     (let unused = (case warm of None \<Rightarrow> [] | Some w \<Rightarrow> [w]) in
      if gen \<noteq> generation p then (unused, p)
      else
        let p1 = p\<lparr>refilling := False\<rparr> in
        if warm \<noteq> None \<and> \<not> closed p1 \<and> pool_fingerprint p1 = Some (warm_fingerprint (the warm)) \<and> ready p1 = None
        then ([], p1\<lparr>ready := warm\<rparr>)
        else if ready p1 \<noteq> None \<and> closed p1 then (unused @ [the (ready p1)], p1\<lparr>ready := None\<rparr>)
        else (unused, p1))"

text \<open>The first critical section of \<open>acquire\<close>: None is its error; otherwise the generation, the ready
  connection if it is fresh, and the stale connections.\<close>

definition acquire_begin ::
  "seconds \<Rightarrow> seconds \<Rightarrow> bytes \<Rightarrow> warm_pool \<Rightarrow> (nat \<times> warm_connection option \<times> warm_connection list) option \<times> warm_pool" where
  "acquire_begin max_idle now fp p =
     (if closed p then (None, p)
      else case switch_session fp p of (stale, p1) \<Rightarrow>
        let old = (case stale of None \<Rightarrow> [] | Some w \<Rightarrow> [w]) in
        case ready p1 of
          None \<Rightarrow> (Some (generation p1, None, old), p1)
        | Some w \<Rightarrow>
            if now - authenticated_at w > max_idle then (Some (generation p1, None, w # old), p1\<lparr>ready := None\<rparr>)
            else (Some (generation p1, Some w, old), p1\<lparr>ready := None\<rparr>))"

text \<open>The second one: whether the connection may still be used.\<close>

definition acquire_valid :: "nat \<Rightarrow> bytes \<Rightarrow> warm_pool \<Rightarrow> bool" where
  "acquire_valid gen fp p \<longleftrightarrow> \<not> closed p \<and> gen = generation p \<and> pool_fingerprint p = Some fp"

definition invalidate :: "warm_pool \<Rightarrow> warm_connection option \<times> warm_pool" where
  "invalidate p = (ready p, p\<lparr>ready := None, pool_fingerprint := None, generation := generation p + 1, refilling := False\<rparr>)"

definition close_pool :: "warm_pool \<Rightarrow> warm_connection option \<times> warm_pool" where
  "close_pool p = (case invalidate p of (stale, p1) \<Rightarrow> (stale, p1\<lparr>closed := True\<rparr>))"

section \<open>The threads around it\<close>

text \<open>A refill or an acquisition under way: its generation, the fingerprint of its request, and the
  connection it holds, if any. \<open>in_use\<close> are the connections handed to clients, with the request's
  fingerprint.\<close>

type_synonym task_state = "nat \<times> bytes \<times> warm_connection option"

record pool_system =
  pool :: warm_pool
  refills :: "task_state list"
  acquisitions :: "task_state list"
  in_use :: "(bytes \<times> warm_connection) list"
  closed_ids :: "nat list"
  next_id :: nat

definition initial_system :: pool_system where
  "initial_system = \<lparr>pool = new_pool, refills = [], acquisitions = [], in_use = [], closed_ids = [], next_id = 0\<rparr>"

definition close_all :: "warm_connection list \<Rightarrow> pool_system \<Rightarrow> pool_system" where
  "close_all ws s = s\<lparr>closed_ids := closed_ids s @ map conn_id ws\<rparr>"

definition opt_list :: "'a option \<Rightarrow> 'a list" where
  "opt_list x = (case x of None \<Rightarrow> [] | Some v \<Rightarrow> [v])"

text \<open>A protocol authenticates a fresh connection for the session of the request.\<close>

definition fresh_connection :: "bytes \<Rightarrow> seconds \<Rightarrow> pool_system \<Rightarrow> warm_connection" where
  "fresh_connection fp now s = \<lparr>conn_id = next_id s, warm_fingerprint = fp, authenticated_at = now\<rparr>"

inductive pool_step :: "seconds \<Rightarrow> pool_system \<Rightarrow> pool_system \<Rightarrow> bool" for max_idle where
  schedules: "schedule_refill fp expected (pool s) = ((r, stale, started), p') \<Longrightarrow>
    pool_step max_idle s (close_all (opt_list stale)
      (s\<lparr>pool := p', refills := refills s @ map (\<lambda>g. (g, fp, None)) (opt_list started)\<rparr>))"
| start_fails: "refills s = xs @ (g, fp, None) # ys \<Longrightarrow>
    pool_step max_idle s (s\<lparr>pool := start_failed (pool s), refills := xs @ ys\<rparr>)"
| refill_opens: "refills s = xs @ (g, fp, None) # ys \<Longrightarrow>
    pool_step max_idle s (s\<lparr>refills := xs @ (g, fp, Some (fresh_connection fp now s)) # ys, next_id := next_id s + 1\<rparr>)"
| refill_ends: "refills s = xs @ (g, fp, w) # ys \<Longrightarrow> refill_finish g w (pool s) = (ws, p') \<Longrightarrow>
    pool_step max_idle s (close_all ws (s\<lparr>pool := p', refills := xs @ ys\<rparr>))"
| acquires: "acquire_begin max_idle now fp (pool s) = (Some (g, w, stale), p') \<Longrightarrow>
    pool_step max_idle s (close_all stale (s\<lparr>pool := p', acquisitions := acquisitions s @ [(g, fp, w)]\<rparr>))"
| acquire_opens: "acquisitions s = xs @ (g, fp, None) # ys \<Longrightarrow>
    pool_step max_idle s (s\<lparr>acquisitions := xs @ (g, fp, Some (fresh_connection fp now s)) # ys, next_id := next_id s + 1\<rparr>)"
| acquire_fails: "acquisitions s = xs @ (g, fp, None) # ys \<Longrightarrow>
    pool_step max_idle s (s\<lparr>acquisitions := xs @ ys\<rparr>)"
| acquire_ends: "acquisitions s = xs @ (g, fp, Some w) # ys \<Longrightarrow> acquire_valid g fp (pool s) \<Longrightarrow>
    pool_step max_idle s (s\<lparr>acquisitions := xs @ ys, in_use := in_use s @ [(fp, w)]\<rparr>)"
| acquire_rejected: "acquisitions s = xs @ (g, fp, Some w) # ys \<Longrightarrow> \<not> acquire_valid g fp (pool s) \<Longrightarrow>
    pool_step max_idle s (close_all [w] (s\<lparr>acquisitions := xs @ ys\<rparr>))"
| use_ends: "in_use s = xs @ (fp, w) # ys \<Longrightarrow> pool_step max_idle s (close_all [w] (s\<lparr>in_use := xs @ ys\<rparr>))"
| invalidates: "invalidate (pool s) = (stale, p') \<Longrightarrow>
    pool_step max_idle s (close_all (opt_list stale) (s\<lparr>pool := p'\<rparr>))"
| closes: "close_pool (pool s) = (stale, p') \<Longrightarrow>
    pool_step max_idle s (close_all (opt_list stale) (s\<lparr>pool := p'\<rparr>))"

inductive pool_reachable :: "seconds \<Rightarrow> pool_system \<Rightarrow> bool" for max_idle where
  pool_init: "pool_reachable max_idle initial_system"
| pool_next: "pool_reachable max_idle s \<Longrightarrow> pool_step max_idle s s' \<Longrightarrow> pool_reachable max_idle s'"

section \<open>Every connection has one owner\<close>

definition task_conns :: "task_state list \<Rightarrow> warm_connection list" where
  "task_conns ts = concat (map (\<lambda>(_, _, w). opt_list w) ts)"

definition live :: "pool_system \<Rightarrow> warm_connection list" where
  "live s = opt_list (ready (pool s)) @ task_conns (refills s) @ task_conns (acquisitions s) @ map snd (in_use s)"

definition pool_owned :: "pool_system \<Rightarrow> bool" where
  "pool_owned s \<longleftrightarrow> mset (map conn_id (live s)) + mset (closed_ids s) = mset [0..<next_id s]"

definition task_ok :: "task_state \<Rightarrow> bool" where
  "task_ok t \<longleftrightarrow> (\<forall>w. snd (snd t) = Some w \<longrightarrow> warm_fingerprint w = fst (snd t))"

definition pool_ok :: "pool_system \<Rightarrow> bool" where
  "pool_ok s \<longleftrightarrow>
     (\<forall>w. ready (pool s) = Some w \<longrightarrow> pool_fingerprint (pool s) = Some (warm_fingerprint w) \<and> \<not> closed (pool s))
     \<and> list_all task_ok (refills s) \<and> list_all task_ok (acquisitions s)
     \<and> list_all (\<lambda>(fp, w). warm_fingerprint w = fp) (in_use s)"

lemma opt_list_simps [simp]: "opt_list None = []" "opt_list (Some x) = [x]"
  by (simp_all add: opt_list_def)

lemma task_conns_simps [simp]:
  "task_conns [] = []" "task_conns ((g, fp, w) # ts) = opt_list w @ task_conns ts"
  "task_conns (ts @ us) = task_conns ts @ task_conns us"
  by (simp_all add: task_conns_def)

lemma task_conns_started [simp]: "task_conns (map (\<lambda>g. (g, fp, None)) gs) = []"
  by (induction gs) simp_all

lemma close_all_fields [simp]:
  "pool (close_all ws s) = pool s" "refills (close_all ws s) = refills s" "acquisitions (close_all ws s) = acquisitions s"
  "in_use (close_all ws s) = in_use s" "next_id (close_all ws s) = next_id s"
  "closed_ids (close_all ws s) = closed_ids s @ map conn_id ws" "live (close_all ws s) = live s"
  by (simp_all add: close_all_def live_def)

text \<open>What each critical section does with connections: those it takes out of the pool are handed
  over or closed.\<close>

lemma switch_conns:
  "switch_session fp p = (stale, p') \<Longrightarrow> opt_list (ready p) = opt_list stale @ opt_list (ready p')"
  by (auto simp: switch_session_def split: if_splits)

lemma schedule_conns:
  "schedule_refill fp e p = ((r, stale, started), p') \<Longrightarrow> opt_list (ready p) = opt_list stale @ opt_list (ready p')"
  by (auto simp: schedule_refill_def dest!: switch_conns split: if_splits prod.splits)

lemma refill_conns:
  "refill_finish g w p = (ws, p') \<Longrightarrow> mset (opt_list (ready p)) + mset (opt_list w) = mset ws + mset (opt_list (ready p'))"
  by (auto simp: refill_finish_def Let_def split: if_splits option.splits)

lemma acquire_conns:
  "acquire_begin mi now fp p = (Some (g, w, stale), p') \<Longrightarrow>
    mset (opt_list (ready p)) = mset stale + mset (opt_list w) + mset (opt_list (ready p'))"
  by (auto simp: acquire_begin_def Let_def dest!: switch_conns split: if_splits prod.splits option.splits)

lemma upt_mset_Suc: "mset [0..<Suc n] = add_mset n (mset [0..<n])"
  by simp

named_theorems pool_simps \<open>the parts of a system after a step\<close>
declare live_def [pool_simps] pool_owned_def [pool_simps] fresh_connection_def [pool_simps] start_failed_def [pool_simps]

lemma owned_exchange:
  fixes c :: "'a multiset"
  assumes "w + r = ws + r'" and "c + (w + (x + (y + (a + (i + r))))) = n"
  shows "c + (ws + (x + (y + (r' + (a + i))))) = n"
proof -
  have "c + (ws + (x + (y + (r' + (a + i))))) = (ws + r') + (c + x + y + a + i)" by (simp add: ac_simps)
  also have "\<dots> = (w + r) + (c + x + y + a + i)" by (simp only: assms(1))
  also have "\<dots> = n" using assms(2) by (simp add: ac_simps)
  finally show ?thesis .
qed

lemma pool_owned_step:
  assumes "pool_step mi s s'" and "pool_owned s"
  shows "pool_owned s'"
  using assms(1)
proof cases
  case (schedules fp e r stale started p')
  have "mset (map conn_id (opt_list (ready (pool s)))) = mset (map conn_id (opt_list stale @ opt_list (ready p')))"
    using schedule_conns [OF schedules(2)] by simp
  then show ?thesis using assms(2) by (simp add: schedules(1) pool_simps ac_simps)
next
  case (start_fails xs g fp ys)
  then show ?thesis using assms(2) by (simp add: pool_simps)
next
  case (refill_opens xs g fp ys now)
  then show ?thesis using assms(2) by (simp add: pool_simps ac_simps)
next
  case (refill_ends xs g fp w ys ws p')
  have "image_mset conn_id (mset (opt_list (ready (pool s))) + mset (opt_list w)) = image_mset conn_id (mset ws + mset (opt_list (ready p')))"
    by (simp only: refill_conns [OF refill_ends(3)])
  then show ?thesis using assms(2) by (simp add: refill_ends(1,2) pool_simps ac_simps) (rule owned_exchange)
next
  case (acquires now fp g w stale p')
  have "image_mset conn_id (mset (opt_list (ready (pool s)))) =
      image_mset conn_id (mset stale + mset (opt_list w) + mset (opt_list (ready p')))"
    by (simp only: acquire_conns [OF acquires(2)])
  then show ?thesis using assms(2) by (simp add: acquires(1) pool_simps ac_simps)
next
  case (invalidates stale p')
  then show ?thesis using assms(2) by (auto simp: invalidate_def pool_simps ac_simps)
next
  case (closes stale p')
  then show ?thesis using assms(2) by (auto simp: close_pool_def invalidate_def pool_simps ac_simps)
qed (use assms(2) in \<open>simp_all add: pool_simps ac_simps\<close>)

lemma pool_ok_step:
  assumes "pool_step mi s s'" and "pool_ok s"
  shows "pool_ok s'"
  using assms(1)
proof cases
  case (schedules fp e r stale started p')
  have "list_all task_ok (map (\<lambda>g. (g, fp, None)) (opt_list started))" by (cases started) (simp_all add: task_ok_def)
  then show ?thesis using assms(2) schedules
    by (auto simp: pool_ok_def schedule_refill_def switch_session_def split: if_splits)
next
  case (refill_ends xs g fp w ys ws p')
  have "ready p' = Some v \<Longrightarrow> pool_fingerprint p' = Some (warm_fingerprint v) \<and> \<not> closed p'" for v
    using refill_ends(3) assms(2) by (auto simp: pool_ok_def refill_finish_def Let_def split: if_splits)
  then show ?thesis using assms(2) refill_ends(1,2) by (auto simp: pool_ok_def)
next
  case (acquires now fp g w stale p')
  have "ready p' = None" "w = Some v \<Longrightarrow> warm_fingerprint v = fp" for v
    using acquires(2) assms(2)
    by (auto simp: pool_ok_def acquire_begin_def switch_session_def Let_def split: if_splits option.splits)
  then show ?thesis using assms(2) acquires(1) by (auto simp: pool_ok_def task_ok_def)
qed (use assms(2) in \<open>auto simp: pool_ok_def task_ok_def fresh_connection_def invalidate_def close_pool_def start_failed_def\<close>)

lemma pool_reachable_inv:
  assumes "pool_reachable mi s"
  shows "pool_owned s \<and> pool_ok s"
  using assms
proof induction
  case pool_init
  show ?case by (simp add: pool_owned_def live_def pool_ok_def initial_system_def new_pool_def)
next
  case (pool_next s s')
  then show ?case using pool_owned_step pool_ok_step by blast
qed

text \<open>A closed pool stays closed, holds nothing, and hands nothing out.\<close>

lemma pool_step_closed:
  assumes "pool_step mi s s'" and "closed (pool s)" and "pool_ok s"
  shows "closed (pool s') \<and> ready (pool s') = None \<and> set (in_use s') \<subseteq> set (in_use s)"
  using assms(1)
proof cases
  case (schedules fp e r stale started p')
  then show ?thesis using assms(2,3) by (auto simp: pool_ok_def schedule_refill_def)
next
  case (refill_ends xs g fp w ys ws p')
  then show ?thesis using assms(2,3) by (auto simp: pool_ok_def refill_finish_def Let_def split: if_splits)
next
  case (acquires now fp g w stale p')
  then show ?thesis using assms(2) by (simp add: acquire_begin_def)
next
  case (acquire_ends xs g fp w ys)
  then show ?thesis using assms(2) by (simp add: acquire_valid_def)
qed (use assms(2,3) in \<open>auto simp: pool_ok_def invalidate_def close_pool_def start_failed_def\<close>)

end
