(* ===== verification/Core_Client.thy ===== *)
theory Core_Client
  imports Warm_Pool Transport
begin

text \<open>
  \<open>Core9528Client\<close> of \<open>level2_service/direct_market.py\<close> with \<open>Core9528TemplateProtocol\<close> and a
  \<open>Core9528WarmPool\<close>: reads over the pool, prewarming, and the background refills. The client's lock
  makes a read one operation; only the refills run beside it. A session is given by its material and
  timeout (None when the provider has none), a new connection by what its peer will send (\<open>dialled\<close>),
  and \<open>sockets\<close> are the authenticated connections by their number.
\<close>

section \<open>State\<close>

record client =
  client_system :: pool_system
  sockets :: "nat \<Rightarrow> connection"

abbreviation handshake_failed :: wire_error where
  "handshake_failed \<equiv> DirectRequestError ''DIRECT_PROTOCOL_HANDSHAKE_FAILED''"

text \<open>\<open>_template_symbol\<close>\<close>

definition template_symbol_of :: "core_material \<Rightarrow> string" where
  "template_symbol_of m =
     (let v = strip (case dget m ''template_symbol'' of None \<Rightarrow> [] | Some s \<Rightarrow> s) in
      if length v = 6 \<and> all_digits v then v else ''600000'')"

section \<open>Connections from the pool\<close>

text \<open>The end of \<open>acquire\<close>: a connection that has become invalid is closed.\<close>

definition hand_over :: "nat \<Rightarrow> warm_connection \<Rightarrow> core_request \<Rightarrow> client \<Rightarrow> (wire_error + warm_connection) \<times> client" where
  "hand_over g w prepared c =
     (let s = client_system c; fp = session_fingerprint prepared in
      if acquire_valid g fp (pool s) then (Inr w, c\<lparr>client_system := s\<lparr>in_use := in_use s @ [(fp, w)]\<rparr>\<rparr>)
      else (Inl handshake_failed, c\<lparr>client_system := close_all [w] s\<rparr>))"

text \<open>\<open>acquire\<close> of a prepared request.\<close>

definition client_acquire ::
  "seconds \<Rightarrow> seconds \<Rightarrow> seconds \<Rightarrow> connection \<Rightarrow> core_request \<Rightarrow> client \<Rightarrow> (wire_error + warm_connection) \<times> client" where
  "client_acquire max_idle idle now dialled prepared c =
     (let s = client_system c; fp = session_fingerprint prepared in
      case acquire_begin max_idle now fp (pool s) of
        (None, _) \<Rightarrow> (Inl handshake_failed, c)
      | (Some (g, ready_one, stale), p) \<Rightarrow>
          let s1 = close_all stale (s\<lparr>pool := p\<rparr>) in
          (case ready_one of
             Some w \<Rightarrow> hand_over g w prepared (c\<lparr>client_system := s1\<rparr>)
           | None \<Rightarrow>
               (case authenticate prepared idle dialled of
                  Inl e \<Rightarrow> (Inl e, c\<lparr>client_system := s1\<rparr>)
                | Inr conn \<Rightarrow>
                    hand_over g (fresh_connection fp now s1) prepared
                      \<lparr>client_system = s1\<lparr>next_id := next_id s1 + 1\<rparr>, sockets = (sockets c)(next_id s1 := conn)\<rparr>)))"

text \<open>\<open>replenish\<close>; \<open>started\<close> says whether the background thread could be started.\<close>

definition client_replenish :: "bool \<Rightarrow> bytes \<Rightarrow> client \<Rightarrow> client" where
  "client_replenish started fp c =
     (let s = client_system c in
      case schedule_refill fp None (pool s) of
        ((_, stale, refill), p) \<Rightarrow>
          let s1 = close_all (opt_list stale) (s\<lparr>pool := p\<rparr>) in
          case refill of
            None \<Rightarrow> c\<lparr>client_system := s1\<rparr>
          | Some g \<Rightarrow>
              if started then c\<lparr>client_system := s1\<lparr>refills := refills s1 @ [(g, fp, None)]\<rparr>\<rparr>
              else c\<lparr>client_system := s1\<lparr>pool := start_failed p\<rparr>\<rparr>)"

text \<open>The end of \<open>read_authenticated\<close> closes the connection it was given.\<close>

definition client_hang_up :: "bytes \<Rightarrow> warm_connection \<Rightarrow> client \<Rightarrow> client" where
  "client_hang_up fp w c =
     (let s = client_system c in c\<lparr>client_system := close_all [w] (s\<lparr>in_use := remove1 (fp, w) (in_use s)\<rparr>)\<rparr>)"

section \<open>Operations\<close>

definition client_read_direct ::
  "(string \<Rightarrow> json option) \<Rightarrow> (core_material \<Rightarrow> bytes) \<Rightarrow> seconds \<Rightarrow> seconds \<Rightarrow> (core_material \<times> seconds) option \<Rightarrow> bool
   \<Rightarrow> seconds \<Rightarrow> connection \<Rightarrow> string \<Rightarrow> client \<Rightarrow> (wire_error + direct_outcome) \<times> client" where
  "client_read_direct loads fingerprint max_idle idle session started now dialled sy c =
     (case market_code_for_symbol sy of None \<Rightarrow> (Inl WireValueError, c)
      | Some market \<Rightarrow>
          (case session of None \<Rightarrow> (Inl (DirectRequestError ''DIRECT_SESSION_UNAVAILABLE''), c)
           | Some (m, timeout) \<Rightarrow>
               (case prepare loads fingerprint m timeout sy of Inl e \<Rightarrow> (Inl e, c)
                | Inr prepared \<Rightarrow>
                    (case client_acquire max_idle idle now dialled prepared c of
                       (Inl e, c1) \<Rightarrow> (Inl e, c1)
                     | (Inr w, c1) \<Rightarrow>
                         (read_authenticated prepared (warm_fingerprint w) sy market (sockets c1 (conn_id w)),
                          client_replenish started (session_fingerprint prepared)
                            (client_hang_up (session_fingerprint prepared) w c1))))))"

definition client_market_snapshot :: "string \<Rightarrow> wire_error" where
  "client_market_snapshot sy =
     (case market_code_for_symbol sy of None \<Rightarrow> WireValueError
      | Some _ \<Rightarrow> DirectRequestError ''DIRECT_PROTOCOL_RESPONSE_UNSUPPORTED'')"

text \<open>\<open>prewarm\<close> of the client: nothing while a read holds the lock (\<open>busy\<close>).\<close>

definition client_prewarm ::
  "(string \<Rightarrow> json option) \<Rightarrow> (core_material \<Rightarrow> bytes) \<Rightarrow> (core_material \<times> seconds) option \<Rightarrow> bool \<Rightarrow> bool \<Rightarrow> string option
   \<Rightarrow> client \<Rightarrow> wire_error option \<times> client" where
  "client_prewarm loads fingerprint session started busy sy c =
     (if busy then (None, c)
      else case session of None \<Rightarrow> (Some (DirectRequestError ''DIRECT_SESSION_UNAVAILABLE''), c)
      | Some (m, timeout) \<Rightarrow>
          (case prepare loads fingerprint m timeout
                  (case sy of Some (x # xs) \<Rightarrow> x # xs | _ \<Rightarrow> template_symbol_of m) of
             Inl e \<Rightarrow> (Some e, c)
           | Inr prepared \<Rightarrow> (None, client_replenish started (session_fingerprint prepared) c)))"

text \<open>The refill at the head of the list runs to its end with its prepared request.\<close>

definition client_refill :: "seconds \<Rightarrow> seconds \<Rightarrow> connection \<Rightarrow> core_request \<Rightarrow> client \<Rightarrow> client" where
  "client_refill idle now dialled prepared c =
     (let s = client_system c in
      case refills s of
        (g, fp, None) # rest \<Rightarrow>
          (case authenticate prepared idle dialled of
             Inl _ \<Rightarrow>
               (case refill_finish g None (pool s) of
                  (ws, p) \<Rightarrow> c\<lparr>client_system := close_all ws (s\<lparr>pool := p, refills := rest\<rparr>)\<rparr>)
           | Inr conn \<Rightarrow>
               let w = fresh_connection fp now s in
               (case refill_finish g (Some w) (pool s) of
                  (ws, p) \<Rightarrow>
                    \<lparr>client_system = close_all ws (s\<lparr>pool := p, refills := rest, next_id := next_id s + 1\<rparr>),
                     sockets = (sockets c)(next_id s := conn)\<rparr>))
      | _ \<Rightarrow> c)"

definition client_invalidate :: "client \<Rightarrow> client" where
  "client_invalidate c =
     (case invalidate (pool (client_system c)) of
        (stale, p) \<Rightarrow> c\<lparr>client_system := close_all (opt_list stale) ((client_system c)\<lparr>pool := p\<rparr>)\<rparr>)"

definition client_close :: "client \<Rightarrow> client" where
  "client_close c =
     (case close_pool (pool (client_system c)) of
        (stale, p) \<Rightarrow> c\<lparr>client_system := close_all (opt_list stale) ((client_system c)\<lparr>pool := p\<rparr>)\<rparr>)"

section \<open>The operations are steps of the pool's threads\<close>

abbreviation pool_steps :: "seconds \<Rightarrow> pool_system \<Rightarrow> pool_system \<Rightarrow> bool" where
  "pool_steps mi \<equiv> (pool_step mi)\<^sup>*\<^sup>*"

lemma close_all_same [simp]:
  "close_all ws (s\<lparr>pool := p\<rparr>)\<lparr>acquisitions := acquisitions s\<rparr> = close_all ws (s\<lparr>pool := p\<rparr>)"
  "close_all ws (s\<lparr>pool := p\<rparr>)\<lparr>refills := refills s\<rparr> = close_all ws (s\<lparr>pool := p\<rparr>)"
  by (simp_all add: close_all_def)

lemma hand_over_steps:
  assumes "t = client_system c" and "fp = session_fingerprint prepared"
  shows "pool_steps mi (t\<lparr>acquisitions := acquisitions t @ [(g, fp, Some w)]\<rparr>) (client_system (snd (hand_over g w prepared c)))"
proof -
  let ?s = "t\<lparr>acquisitions := acquisitions t @ [(g, fp, Some w)]\<rparr>"
  have "pool_step mi ?s (client_system (snd (hand_over g w prepared c)))"
  proof (cases "acquire_valid g fp (pool t)")
    case True
    then show ?thesis using pool_step.acquire_ends [of ?s "acquisitions t" g fp w "[]" mi] assms
      by (simp add: hand_over_def Let_def)
  next
    case False
    then show ?thesis using pool_step.acquire_rejected [of ?s "acquisitions t" g fp w "[]" mi] assms
      by (simp add: hand_over_def Let_def)
  qed
  then show ?thesis by (rule r_into_rtranclp)
qed

lemma client_acquire_steps:
  "pool_steps mi (client_system c) (client_system (snd (client_acquire mi idle now dialled prepared c)))"
proof -
  let ?s = "client_system c" and ?fp = "session_fingerprint prepared"
  obtain r p where b: "acquire_begin mi now ?fp (pool ?s) = (r, p)" by (cases "acquire_begin mi now ?fp (pool ?s)")
  show ?thesis
  proof (cases r)
    case None
    then show ?thesis using b by (simp add: client_acquire_def Let_def)
  next
    case (Some a)
    obtain g w stale where a: "a = (g, w, stale)" by (cases a)
    let ?s1 = "close_all stale (?s\<lparr>pool := p\<rparr>)"
    let ?s2 = "?s1\<lparr>acquisitions := acquisitions ?s1 @ [(g, ?fp, w)]\<rparr>"
    have "pool_step mi ?s (close_all stale (?s\<lparr>pool := p, acquisitions := acquisitions ?s @ [(g, ?fp, w)]\<rparr>))"
      by (rule acquires) (use b Some a in simp)
    moreover have "close_all stale (?s\<lparr>pool := p, acquisitions := acquisitions ?s @ [(g, ?fp, w)]\<rparr>) = ?s2"
      by (simp add: close_all_def)
    ultimately have first: "pool_steps mi ?s ?s2" by (simp only: r_into_rtranclp)
    show ?thesis
    proof (cases w)
      case w: (Some v)
      have "client_system (snd (client_acquire mi idle now dialled prepared c))
          = client_system (snd (hand_over g v prepared (c\<lparr>client_system := ?s1\<rparr>)))"
        using b Some a w by (simp add: client_acquire_def Let_def)
      then show ?thesis using first hand_over_steps [of ?s1 "c\<lparr>client_system := ?s1\<rparr>" ?fp prepared mi g v] w
        by (simp add: rtranclp_trans)
    next
      case w: None
      show ?thesis
      proof (cases "authenticate prepared idle dialled")
        case (Inl e)
        have "pool_step mi ?s2 (?s2\<lparr>acquisitions := acquisitions ?s1 @ []\<rparr>)"
          by (rule acquire_fails) (use w in simp)
        then have "pool_steps mi ?s ?s1" using first by simp
        then show ?thesis using b Some a w Inl by (simp add: client_acquire_def Let_def)
      next
        case (Inr conn)
        let ?v = "fresh_connection ?fp now ?s1" and ?s3 = "?s1\<lparr>next_id := next_id ?s1 + 1\<rparr>"
        let ?c = "\<lparr>client_system = ?s3, sockets = (sockets c)(next_id ?s1 := conn)\<rparr>"
        have "pool_step mi ?s2 (?s2\<lparr>acquisitions := acquisitions ?s1 @ (g, ?fp, Some (fresh_connection ?fp now ?s2)) # [],
            next_id := next_id ?s2 + 1\<rparr>)"
          by (rule acquire_opens) (use w in simp)
        with first have "pool_steps mi ?s (?s2\<lparr>acquisitions := acquisitions ?s1 @ (g, ?fp, Some (fresh_connection ?fp now ?s2)) # [],
            next_id := next_id ?s2 + 1\<rparr>)"
          by (rule rtranclp.rtrancl_into_rtrancl)
        moreover have "?s2\<lparr>acquisitions := acquisitions ?s1 @ (g, ?fp, Some (fresh_connection ?fp now ?s2)) # [],
            next_id := next_id ?s2 + 1\<rparr> = ?s3\<lparr>acquisitions := acquisitions ?s3 @ [(g, ?fp, Some ?v)]\<rparr>"
          by (simp add: close_all_def fresh_connection_def)
        ultimately have "pool_steps mi ?s (?s3\<lparr>acquisitions := acquisitions ?s3 @ [(g, ?fp, Some ?v)]\<rparr>)"
          by (simp only:)
        moreover have "client_system (snd (client_acquire mi idle now dialled prepared c))
            = client_system (snd (hand_over g ?v prepared ?c))"
          using b Some a w Inr by (simp add: client_acquire_def Let_def)
        ultimately show ?thesis using hand_over_steps [of ?s3 ?c ?fp prepared mi g ?v] by (simp add: rtranclp_trans)
      qed
    qed
  qed
qed

lemma client_replenish_steps: "pool_steps mi (client_system c) (client_system (client_replenish started fp c))"
proof -
  let ?s = "client_system c"
  obtain r stale refill p where b: "schedule_refill fp None (pool ?s) = ((r, stale, refill), p)"
    by (cases "schedule_refill fp None (pool ?s)") auto
  let ?s1 = "close_all (opt_list stale) (?s\<lparr>pool := p\<rparr>)"
  let ?s2 = "?s1\<lparr>refills := refills ?s1 @ map (\<lambda>g. (g, fp, None)) (opt_list refill)\<rparr>"
  have "close_all (opt_list stale) (?s\<lparr>pool := p, refills := refills ?s @ map (\<lambda>g. (g, fp, None)) (opt_list refill)\<rparr>) = ?s2"
    by (simp add: close_all_def)
  with pool_step.schedules [OF b, of mi] have first: "pool_steps mi ?s ?s2" by (simp only: r_into_rtranclp)
  show ?thesis
  proof (cases refill)
    case None
    then show ?thesis using first b by (simp add: client_replenish_def Let_def)
  next
    case (Some g)
    have "pool_step mi ?s2 (?s2\<lparr>pool := start_failed (pool ?s2), refills := refills ?s1 @ []\<rparr>)"
      by (rule start_fails) (use Some in simp)
    with first have "pool_steps mi ?s (?s2\<lparr>pool := start_failed (pool ?s2), refills := refills ?s1 @ []\<rparr>)"
      by (rule rtranclp.rtrancl_into_rtrancl)
    moreover have "?s2\<lparr>pool := start_failed (pool ?s2), refills := refills ?s1 @ []\<rparr> = ?s1\<lparr>pool := start_failed p\<rparr>"
      by (simp add: close_all_def)
    ultimately have "pool_steps mi ?s (?s1\<lparr>pool := start_failed p\<rparr>)" by (simp only:)
    then show ?thesis using first b Some by (simp add: client_replenish_def Let_def)
  qed
qed

lemma client_hang_up_steps:
  assumes "(fp, w) \<in> set (in_use (client_system c))"
  shows "pool_steps mi (client_system c) (client_system (client_hang_up fp w c))"
proof -
  obtain xs ys where "in_use (client_system c) = xs @ (fp, w) # ys" "(fp, w) \<notin> set xs"
    using split_list_first [OF assms] by blast
  then have "pool_step mi (client_system c) (client_system (client_hang_up fp w c))"
    using pool_step.use_ends [of "client_system c" xs fp w ys mi] by (simp add: client_hang_up_def Let_def remove1_append)
  then show ?thesis by (rule r_into_rtranclp)
qed

lemma client_acquire_in_use:
  assumes "client_acquire mi idle now dialled prepared c = (Inr w, c')"
  shows "(session_fingerprint prepared, w) \<in> set (in_use (client_system c'))"
  using assms unfolding client_acquire_def hand_over_def Let_def
  by (auto split: option.splits prod.splits sum.splits if_splits)

lemma client_read_steps:
  "pool_steps mi (client_system c)
    (client_system (snd (client_read_direct loads fingerprint mi idle session started now dialled sy c)))"
proof -
  have read: "pool_steps mi (client_system c)
      (client_system (client_replenish started (session_fingerprint prepared) (client_hang_up (session_fingerprint prepared) w c1)))"
    if "client_acquire mi idle now dialled prepared c = (Inr w, c1)" for prepared w c1
    using client_acquire_steps [of mi c idle now dialled prepared] client_hang_up_steps [OF client_acquire_in_use [OF that]]
      client_replenish_steps that by (metis rtranclp_trans snd_conv)
  have acquire: "pool_steps mi (client_system c) (client_system c1)"
    if "client_acquire mi idle now dialled prepared c = (Inl e, c1)" for prepared e c1
    using client_acquire_steps [of mi c idle now dialled prepared] that by simp
  show ?thesis unfolding client_read_direct_def
    using read acquire by (auto split: option.split sum.split prod.split)
qed

lemma client_refill_steps:
  assumes "refills (client_system c) \<noteq> [] \<longrightarrow> fst (snd (hd (refills (client_system c)))) = session_fingerprint prepared"
  shows "pool_steps mi (client_system c) (client_system (client_refill idle now dialled prepared c))"
proof -
  let ?s = "client_system c"
  show ?thesis
  proof (cases "\<exists>g fp rest. refills ?s = (g, fp, None) # rest")
    case False
    then have "client_refill idle now dialled prepared c = c"
      by (auto simp: client_refill_def Let_def split: list.split option.split)
    then show ?thesis by simp
  next
    case True
    then obtain g fp rest where r: "refills ?s = (g, fp, None) # rest" by blast
    show ?thesis
    proof (cases "authenticate prepared idle dialled")
      case (Inl e)
      obtain ws p where f: "refill_finish g None (pool ?s) = (ws, p)" by (cases "refill_finish g None (pool ?s)")
      show ?thesis using pool_step.refill_ends [of ?s "[]" g fp None rest ws p mi] r f Inl
        by (simp add: client_refill_def Let_def r_into_rtranclp)
    next
      case (Inr conn)
      let ?w = "fresh_connection fp now ?s"
      let ?s1 = "?s\<lparr>refills := [] @ (g, fp, Some ?w) # rest, next_id := next_id ?s + 1\<rparr>"
      obtain ws p where f: "refill_finish g (Some ?w) (pool ?s) = (ws, p)" by (cases "refill_finish g (Some ?w) (pool ?s)")
      have "pool_step mi ?s ?s1" by (rule refill_opens) (use r in simp)
      moreover have "pool_step mi ?s1 (close_all ws (?s1\<lparr>pool := p, refills := [] @ rest\<rparr>))"
        by (rule refill_ends) (use f in simp_all)
      ultimately have "pool_steps mi ?s (close_all ws (?s1\<lparr>pool := p, refills := [] @ rest\<rparr>))"
        by (rule converse_rtranclp_into_rtranclp [OF _ r_into_rtranclp])
      moreover have "close_all ws (?s1\<lparr>pool := p, refills := [] @ rest\<rparr>)
          = close_all ws (?s\<lparr>pool := p, refills := rest, next_id := next_id ?s + 1\<rparr>)"
        by (simp add: close_all_def)
      ultimately have "pool_steps mi ?s (close_all ws (?s\<lparr>pool := p, refills := rest, next_id := next_id ?s + 1\<rparr>))"
        by (simp only:)
      then show ?thesis using r f Inr by (simp add: client_refill_def Let_def)
    qed
  qed
qed

end
