(* ===== verification/Demo_Session.thy ===== *)
theory Demo_Session
  imports Wire_Properties Transport_Facts Core_Client
begin

text \<open>
  A complete session of the core account on small inputs: material that \<open>prepare\<close> accepts, a connection
  whose peer answers the authentication and then stays silent, and the client's first read over it.
  The concrete instances of the theorems on the client rest on it.
\<close>

definition small_packet :: bytes where
  "small_packet = [253, 253, 253, 253, 48, 48, 48, 48, 48, 48, 48, 50, 0, 7, 8]"

lemma small_packet_valid: "valid_outer_packet small_packet"
proof -
  have "replicate 4 (253 :: 8 word) = [253, 253, 253, 253]" by (simp add: numeral_eq_Suc)
  then show ?thesis by (simp add: valid_outer_packet_def small_packet_def byte_slice_def hex_digit_def)
qed

definition demo_material :: core_material where
  "demo_material = [(''server_ip'', ''h''), (''server_port'', ''9528''),
     (''auth_packet_hex'', ''fdfdfdfd3030303030303032000708''), (''template_symbol'', ''600000''),
     (''request_packets_hex'', ''packets''),
     (''base64_alphabet'', ''aCcMeTKhxnwzmoPbsG4EvU8gyd02B3q6fIVWXYZjApRrDtuHkiLlN1O9F5S7JQ+/''), (''macdfs_params'', ''periods'')]"

definition demo_loads :: "string \<Rightarrow> json option" where
  "demo_loads s =
     (if s = ''packets'' then Some (JArr [JStr ''fdfdfdfd30303030303030410002006f57616b6d4d616b''])
      else if s = ''periods'' then Some (JArr [JNum 12, JNum 26, JNum 9]) else None)"

lemma demo_hex:
  "bytes_fromhex ''fdfdfdfd3030303030303032000708'' = Some small_packet"
  "bytes_fromhex ''fdfdfdfd30303030303030410002006f57616b6d4d616b'' = Some demo_packet"
  by (simp_all add: small_packet_def demo_packet_eq is_space_def hex_digit_def)

lemma demo_fields:
  "dget demo_material ''server_ip'' = Some ''h''" "dget demo_material ''server_port'' = Some ''9528''"
  "dget demo_material ''auth_packet_hex'' = Some ''fdfdfdfd3030303030303032000708''"
  "dget demo_material ''template_symbol'' = Some ''600000''" "dget demo_material ''request_packets_hex'' = Some ''packets''"
  "dget demo_material ''base64_alphabet'' = Some ''aCcMeTKhxnwzmoPbsG4EvU8gyd02B3q6fIVWXYZjApRrDtuHkiLlN1O9F5S7JQ+/''"
  by (simp_all add: demo_material_def)

lemma demo_loads_packets:
  "demo_loads ''packets'' = Some (JArr [JStr ''fdfdfdfd30303030303030410002006f57616b6d4d616b''])"
  by (simp add: demo_loads_def)

lemma demo_port: "int_of_text ''9528'' = Some 9528"
  by code_simp

lemma demo_periods: "material_macdfs_params demo_loads demo_material = Some (Some (12, 26, 9))"
  by (simp add: material_macdfs_params_def demo_material_def demo_loads_def strip_def is_space_def period_of_json_def)

lemma demo_prepare: "\<exists>prepared. prepare demo_loads (\<lambda>_. [1]) demo_material 10 ''601872'' = Inr prepared"
proof -
  obtain p where p: "patch_core_packet_symbol core_base64_alphabet demo_packet ''600000'' ''601872'' = Inr p"
    using patch_succeeds [OF demo_packet_facts(1) _ _ core_alphabet, of "ascii_bytes ''600000''" "''600000''" "''601872''"]
    by (auto simp: demo_packet_facts demo_body demo_replacement ascii_text_def)
  have auth: "validate_core_auth_packet small_packet"
    using small_packet_valid by (simp add: validate_core_auth_packet_def) (simp add: small_packet_def)
  have "patched_packets core_base64_alphabet ''600000'' ''601872'' [JStr ''fdfdfdfd30303030303030410002006f57616b6d4d616b''] = Some [p]"
    by (simp only: patched_packets.simps patched_packet_def json_text_def json.case demo_hex bind.bind_lunit p sum.case)
  then have "material_packets demo_loads demo_material ''601872'' = Some (''h'', 9528, small_packet, [p])"
    using core_alphabet auth unfolding material_packets_def demo_fields core_base64_alphabet_def [symmetric]
    by (simp add: demo_port demo_hex demo_loads_packets as_list_def core_base64_alphabet_def [symmetric]
        del: bytes_fromhex.simps patched_packets.simps)
  then show ?thesis by (simp add: prepare_def demo_periods Let_def)
qed

definition demo_dialled :: connection where
  "demo_dialled = \<lparr>conn_clock = 0, arrivals = [(0, Data small_packet)]\<rparr>"

lemma demo_authenticate:
  assumes "0 < request_timeout prepared"
  shows "\<exists>conn. authenticate prepared (1 / 2) demo_dialled = Inr conn"
proof -
  have "stream (1 / 2) 0 [] demo_dialled (concat [small_packet])"
    unfolding stream_def by (rule exI [of _ "[(0, small_packet)]"]) (simp add: demo_dialled_def small_packet_def)
  then have "fst (read_frames (request_timeout prepared) None (Some (1 / 2)) demo_dialled) = Inr [small_packet]"
    using read_frames_stream(1) [of "1 / 2" 0 "[]" demo_dialled "[small_packet]"] small_packet_valid assms
    by (simp add: max_response_frames_def silent_def)
  then show ?thesis
    by (cases "read_frames (request_timeout prepared) None (Some (1 / 2)) demo_dialled")
      (simp add: authenticate_def demo_dialled_def)
qed

definition demo_client :: client where
  "demo_client = \<lparr>client_system = initial_system, sockets = \<lambda>_. demo_dialled\<rparr>"

definition demo_client_read :: client where
  "demo_client_read = snd (client_read_direct demo_loads (\<lambda>_. [1]) 25 (1 / 2) (Some (demo_material, 10)) True 0
     demo_dialled ''601872'' demo_client)"

lemma demo_symbol_market: "market_code_for_symbol ''601872'' = Some ''17''"
  by code_simp

lemma demo_first_read:
  "client_system demo_client_read = \<lparr>pool = \<lparr>ready = None, pool_fingerprint = Some [1], refilling = True, closed = False,
     generation = 1\<rparr>, refills = [(1, [1], None)], acquisitions = [], in_use = [], closed_ids = [0], next_id = 1\<rparr>"
proof -
  obtain prepared where p: "prepare demo_loads (\<lambda>_. [1]) demo_material 10 ''601872'' = Inr prepared"
    using demo_prepare by blast
  then have fp: "session_fingerprint prepared = [1]" "request_timeout prepared = 10"
    by (auto simp: prepare_def Let_def split: option.splits if_splits)
  then obtain conn where "authenticate prepared (1 / 2) demo_dialled = Inr conn" using demo_authenticate [of prepared] by auto
  then show ?thesis
    by (simp add: demo_client_read_def client_read_direct_def demo_symbol_market p client_acquire_def fp
        acquire_begin_def demo_client_def initial_system_def new_pool_def switch_session_def hand_over_def acquire_valid_def
        fresh_connection_def client_replenish_def client_hang_up_def schedule_refill_def close_all_def Let_def)
qed

end
