(* ===== verification/Dual_Source.thy ===== *)
theory Dual_Source
  imports Fund_Flow Market_Models
begin

text \<open>
  \<open>DualAccountParsedValueSource\<close> of \<open>level2_service/parsed_values.py\<close>, which asks two accounts at
  once and merges the fields each owns, and the two outcome classes the accounts answer with;
  \<open>FundFlowHttpClient.read_market_snapshot\<close> and \<open>ShadowParsedValueSource\<close> of
  \<open>level2_service/direct_market.py\<close>. The two reads share nothing, so the futures of the executor
  are two given answers.
\<close>

section \<open>Answers of an account\<close>

text \<open>An exception is a \<open>DirectRequestError\<close> with its code, or any other; a value is an outcome or,
  from an old source, a plain dictionary of values.\<close>

datatype source_failure = DirectFailure string | OtherFailure

datatype direct_result = Outcome direct_outcome | PlainValues "metric_kind \<Rightarrow> string option"

type_synonym account_answer = "source_failure + direct_result"

fun failure_code :: "string \<Rightarrow> source_failure \<Rightarrow> string" where
  "failure_code fallback (DirectFailure code) = sanitized_direct_error_code code fallback"
| "failure_code fallback OtherFailure = fallback"

fun answer_values :: "direct_result \<Rightarrow> metric_kind \<Rightarrow> string option" where
  "answer_values (Outcome d) = out_values d"
| "answer_values (PlainValues vs) = vs"

fun result_series :: "direct_result \<Rightarrow> metric_kind \<Rightarrow> json option" where
  "result_series (Outcome d) = out_series d"
| "result_series (PlainValues _) = Map.empty"

fun result_errors :: "direct_result \<Rightarrow> source_errors" where
  "result_errors (Outcome d) = out_errors d"
| "result_errors (PlainValues _) = no_source_errors"

definition merged_values ::
  "(metric_kind \<Rightarrow> string option) \<Rightarrow> (metric_kind \<Rightarrow> string option) \<Rightarrow> metric_kind \<Rightarrow> string option" where
  "merged_values core fund k = (if required_metric k then core k else fund k)"

section \<open>Reads of a task's values\<close>

definition dual_read_direct :: "account_answer \<Rightarrow> account_answer \<Rightarrow> string + direct_outcome" where
  "dual_read_direct core fund =
     (case core of
        Inl f \<Rightarrow> Inl (failure_code ''DIRECT_REQUEST_FAILED'' f)
      | Inr c \<Rightarrow>
          (let fund_error = (case fund of Inl f \<Rightarrow> Some (failure_code ''DIRECT_FUND_FLOW_REQUEST_FAILED'' f) | Inr _ \<Rightarrow> None);
               fund_result = (case fund of Inl _ \<Rightarrow> PlainValues (\<lambda>_. None) | Inr r \<Rightarrow> r)
           in Inr \<lparr>out_values = merged_values (answer_values c) (answer_values fund_result),
                   out_errors = \<lparr>core_metrics = None, main_fund_flow = fund_error\<rparr>,
                   out_series = result_series c, stored_trade_dates = []\<rparr>))"

text \<open>\<open>a or b\<close> of two optional texts, as Python reads it.\<close>

definition or_text :: "string option \<Rightarrow> string option \<Rightarrow> string option" where
  "or_text a b = (case a of None \<Rightarrow> b | Some s \<Rightarrow> if s = [] then b else a)"

definition dual_best_effort :: "account_answer \<Rightarrow> account_answer \<Rightarrow> direct_outcome" where
  "dual_best_effort core fund =
     (let core_error = (case core of Inl f \<Rightarrow> Some (failure_code ''DIRECT_REQUEST_FAILED'' f) | Inr _ \<Rightarrow> None);
          core_result = (case core of Inl _ \<Rightarrow> PlainValues (\<lambda>_. None) | Inr r \<Rightarrow> r);
          fund_error = (case fund of Inl f \<Rightarrow> Some (failure_code ''DIRECT_FUND_FLOW_REQUEST_FAILED'' f) | Inr _ \<Rightarrow> None);
          fund_result = (case fund of Inl _ \<Rightarrow> PlainValues (\<lambda>_. None) | Inr r \<Rightarrow> r)
      in \<lparr>out_values = merged_values (answer_values core_result) (answer_values fund_result),
          out_errors = \<lparr>core_metrics = or_text core_error (core_metrics (result_errors core_result)),
                        main_fund_flow = or_text fund_error (main_fund_flow (result_errors fund_result))\<rparr>,
          out_series = result_series core_result, stored_trade_dates = []\<rparr>)"

section \<open>Market snapshots\<close>

type_synonym fund_market = "(string, json) dict \<times> string option"

text \<open>The fund flow of the periods that have a value, from the values of a read.\<close>

definition fund_market_of_values :: "(metric_kind \<Rightarrow> string option) \<Rightarrow> (string, json) dict" where
  "fund_market_of_values vs =
     concat (map (\<lambda>(period, unit_kind).
       let values = map (\<lambda>(name, kind). (name, jstr_opt (vs kind))) (fund_flow_metrics period) in
       if vs unit_kind \<noteq> None \<or> list_ex (\<lambda>(_, v). v \<noteq> JNull) values
       then [(period, JObj ((''unit'', jstr_opt (vs unit_kind)) # values))] else []) fund_flow_periods)"

text \<open>What the fund account answers a market read with: a snapshot, where it reads snapshots, or the
  result of a direct read.\<close>

datatype fund_answer = FundSnapshot snapshot | FundDirect direct_result | FundFailure source_failure

fun fund_market_result :: "fund_answer \<Rightarrow> fund_market" where
  "fund_market_result (FundSnapshot s) = (snap_fund_flow s, Option.bind (dget (snap_errors s) ''main_fund_flow'') id)"
| "fund_market_result (FundDirect r) =
     (fund_market_of_values (answer_values r), main_fund_flow (result_errors r))"
| "fund_market_result (FundFailure f) = ([], Some (failure_code ''DIRECT_FUND_FLOW_REQUEST_FAILED'' f))"

text \<open>\<open>_read_cached_fund_market\<close>: a failure is cached like an answer.\<close>

definition read_cached_fund_market ::
  "seconds \<Rightarrow> nat \<Rightarrow> fund_answer \<Rightarrow> seconds \<Rightarrow> string \<Rightarrow> fund_market cache \<Rightarrow> (bool \<times> fund_market) \<times> fund_market cache" where
  "read_cached_fund_market interval cap answer now sy c =
     (case cache_hit interval now sy c of
        Some r \<Rightarrow> ((False, r), c)
      | None \<Rightarrow> (let r = fund_market_result answer in ((True, r), cache_store cap now sy r c)))"

lemma read_cached_fund_market_through:
  "read_cached_fund_market interval cap answer now sy c =
    (case read_through (cache_hit interval) (cache_store cap) (sy, now, Inr (fund_market_result answer) :: unit + fund_market) c of
       ((asked, r), c') \<Rightarrow> ((asked, projr r), c'))"
  by (simp add: read_cached_fund_market_def read_through_def Let_def split: option.split)

definition core_error_of :: "snapshot \<Rightarrow> string option" where
  "core_error_of s = Option.bind (dget (snap_errors s) ''core_metrics'') id"

definition with_fund_market :: "snapshot \<Rightarrow> fund_market \<Rightarrow> snapshot" where
  "with_fund_market core fm =
     core\<lparr>snap_fund_flow := fst fm, snap_errors := [(''core_metrics'', core_error_of core), (''main_fund_flow'', snd fm)]\<rparr>"

text \<open>\<open>read_market_snapshot\<close>; without detail an exception of the core account passes through. When the
  core read fails the fund read, which has started, still fills the cache.\<close>

definition dual_market_snapshot ::
  "seconds \<Rightarrow> nat \<Rightarrow> bool \<Rightarrow> source_failure + snapshot \<Rightarrow> fund_answer \<Rightarrow> seconds \<Rightarrow> string \<Rightarrow> fund_market cache
   \<Rightarrow> (source_failure + snapshot) \<times> fund_market cache" where
  "dual_market_snapshot interval cap detail core fund now sy c =
     (if \<not> detail then
        (case core of Inl f \<Rightarrow> (Inl f, c) | Inr s \<Rightarrow> (Inr (with_fund_market s ([], None)), c))
      else
        case read_cached_fund_market interval cap fund now sy c of ((_, fm), c') \<Rightarrow>
          (case core of
             Inl f \<Rightarrow> (Inl (DirectFailure (failure_code ''DIRECT_REQUEST_FAILED'' f)), c')
           | Inr s \<Rightarrow> (Inr (with_fund_market s fm), c')))"

text \<open>\<open>FundFlowHttpClient.read_market_snapshot\<close> of a successful read.\<close>

definition fund_snapshot :: "time \<Rightarrow> string \<Rightarrow> string \<Rightarrow> direct_outcome \<Rightarrow> snapshot" where
  "fund_snapshot now sy market d =
     (new_snapshot sy None market now [])\<lparr>snap_fund_flow := fund_market_values (out_values d),
        snap_errors := [(''core_metrics'', None), (''main_fund_flow'', None)]\<rparr>"

section \<open>The shadow source\<close>

text \<open>\<open>ShadowParsedValueSource\<close> answers with the primary source; the candidate's answer is only compared
  and logged. A series is compared by its unit, its times and its last value.\<close>

datatype series_signature = NoMapping "json option" | PointsOf json "json list" json

text \<open>None is the \<open>TypeError\<close> of points that cannot be iterated.\<close>

definition intraday_signature :: "json option \<Rightarrow> series_signature option" where
  "intraday_signature series =
     (case series of
        Some (JObj d) \<Rightarrow>
          map_option (\<lambda>raw. let points = filter is_jobj raw in
              PointsOf (jget_or (JObj d) ''unit'' JNull) (map (\<lambda>p. jget_or p ''time'' JNull) points)
                (if points = [] then JNull else jget_or (last points) ''value'' JNull))
            (jiter (jget_or (JObj d) ''points'' (JArr [])))
      | s \<Rightarrow> Some (NoMapping s))"

datatype shadow_field = ValueField metric_kind | SeriesField metric_kind

text \<open>\<open>_values\<close>: \<open>getattr(result, "values", result)\<close> of a plain dictionary is its bound method, which is no
  mapping, so plain values are compared as an empty dictionary.\<close>

fun shadow_values :: "direct_result \<Rightarrow> metric_kind \<Rightarrow> string option" where
  "shadow_values (Outcome d) = out_values d"
| "shadow_values (PlainValues _) = (\<lambda>_. None)"

definition value_mismatches :: "direct_result \<Rightarrow> direct_result \<Rightarrow> shadow_field list" where
  "value_mismatches p c = map ValueField (filter (\<lambda>k. shadow_values p k \<noteq> shadow_values c k) metric_kinds)"

definition series_mismatches :: "direct_result \<Rightarrow> direct_result \<Rightarrow> shadow_field list option" where
  "series_mismatches p c =
     (if list_ex (\<lambda>k. intraday_signature (result_series p k) = None \<or> intraday_signature (result_series c k) = None) metric_kinds
      then None
      else Some (map SeriesField (filter (\<lambda>k. intraday_signature (result_series p k) \<noteq> intraday_signature (result_series c k))
             metric_kinds)))"

definition shadow_compare :: "direct_result \<Rightarrow> direct_result \<Rightarrow> shadow_field list option" where
  "shadow_compare p c = map_option (\<lambda>ms. value_mismatches p c @ ms) (series_mismatches p c)"

datatype shadow_log = ShadowFailed string | ShadowMismatch "shadow_field list" | FundMismatch

text \<open>The comparison is outside the \<open>try\<close>, so an exception of it reaches the caller.\<close>

definition shadow_read_direct :: "account_answer \<Rightarrow> account_answer \<Rightarrow> account_answer \<times> shadow_log list" where
  "shadow_read_direct primary candidate =
     (case primary of Inl f \<Rightarrow> (Inl f, [])
      | Inr p \<Rightarrow>
          (case candidate of
             Inl f \<Rightarrow> (Inr p, [ShadowFailed (failure_code ''DIRECT_REQUEST_FAILED'' f)])
           | Inr c \<Rightarrow>
               (case shadow_compare p c of
                  None \<Rightarrow> (Inl OtherFailure, [])
                | Some ms \<Rightarrow> (Inr p, if ms = [] then [] else [ShadowMismatch ms]))))"

definition shadow_market_snapshot ::
  "source_failure + snapshot \<Rightarrow> source_failure + snapshot \<Rightarrow> (source_failure + snapshot) \<times> shadow_log list" where
  "shadow_market_snapshot primary candidate =
     (case primary of Inl f \<Rightarrow> (Inl f, [])
      | Inr p \<Rightarrow>
          (case candidate of
             Inl f \<Rightarrow> (Inr p, [ShadowFailed (failure_code ''DIRECT_REQUEST_FAILED'' f)])
           | Inr c \<Rightarrow> (Inr p, if snap_fund_flow p \<noteq> snap_fund_flow c then [FundMismatch] else [])))"

lemma shadow_compare_total:
  assumes "\<And>k. intraday_signature (result_series p k) \<noteq> None" and "\<And>k. intraday_signature (result_series c k) \<noteq> None"
  shows "shadow_compare p c \<noteq> None"
  using assms by (simp add: shadow_compare_def series_mismatches_def list_ex_iff)

text \<open>Two plain answers never show a difference.\<close>

lemma shadow_ignores_plain_values: "shadow_read_direct (Inr (PlainValues p)) (Inr (PlainValues c)) = (Inr (PlainValues p), [])"
  by (simp add: shadow_read_direct_def shadow_compare_def value_mismatches_def series_mismatches_def list_ex_iff
      intraday_signature_def)

text \<open>A candidate whose series has null points makes the read of a good primary fail.\<close>

lemma shadow_comparison_escapes:
  "shadow_read_direct (Inr (PlainValues (\<lambda>_. None)))
     (Inr (Outcome \<lparr>out_values = \<lambda>_. None, out_errors = no_source_errors,
        out_series = Map.empty(MACDFS \<mapsto> JObj [(''points'', JNull)]), stored_trade_dates = []\<rparr>))
   = (Inl OtherFailure, [])"
  by (simp add: shadow_read_direct_def shadow_compare_def series_mismatches_def list_ex_iff
      intraday_signature_def jget_or_def exI [of _ MACDFS])

lemma failure_code_fixed:
  assumes "fixed_error_code fallback"
  shows "fixed_error_code (failure_code fallback f)"
  using assms sanitized_fixed by (cases f) auto

lemma fallback_codes [simp]:
  "fixed_error_code ''DIRECT_REQUEST_FAILED''" "fixed_error_code ''DIRECT_FUND_FLOW_REQUEST_FAILED''"
  by (simp_all add: fixed_error_code_def code_upper_def is_digit_def Let_def)

end
