(* ===== verification/Direct_Properties.thy ===== *)
theory Direct_Properties
  imports Demo_Session Dual_Source
begin

text \<open>
  What the direct sources guarantee: the values decoded from a response, the fund-flow client and its
  cache, the two accounts together, the framing of the transport, and the warm connections.
\<close>

section \<open>Decoded values\<close>

text \<open>
  While the price stands still at the previous close the MACD of the price is exactly zero at every
  point, gaps in the prices included, for every price of at most 24 digits and every three periods
  the decoder accepts: the rounding of the decimal arithmetic never shows.
\<close>

theorem flat_price_macdfs_zero:
  assumes "short_decimal p" and "column c 10 \<noteq> []" and "\<forall>cell \<in> set (column c 10). cell = Some p \<or> cell = None"
    and "ext_decimal (dget (curve_ext c) 6) = Some p" and "valid_macdfs_params (map int [short, long, signal])"
  shows "calculate_macdfs c (short, long, signal) = Some (replicate (length (column c 10)) 0)"
proof -
  have "list_all (\<lambda>n. 1 \<le> n \<and> n \<le> 1000) [short, long, signal]"
    using assms(5) by (simp add: valid_macdfs_params_def)
  from macd_loop_flat [OF assms(1,3) this] assms(2,4) show ?thesis by (simp add: calculate_macdfs_def Let_def)
qed

definition demo_flat :: core_curve where
  "demo_flat = \<lparr>curve_symbol = ''600000'', curve_name = [65], curve_ext = [(6, ExtDecimal (Some (21 / 2)))],
     curve_data = [(10, [Some (21 / 2), None, Some (21 / 2)])]\<rparr>"

lemma flat_price_macdfs_zero_witness: "calculate_macdfs demo_flat (12, 26, 9) = Some [0, 0, 0]"
proof -
  have "short_decimal (21 / 2)"
    unfolding short_decimal_def by (rule exI [of _ 105], rule exI [of _ 1]) simp
  then show ?thesis
    using flat_price_macdfs_zero [of "21 / 2" demo_flat 12 26 9]
    by (simp add: demo_flat_def column_def ext_decimal_def valid_macdfs_params_def numeral_3_eq_3)
qed

lemma decode_frames_bad: "decode_frames frames sy market = Inl e \<Longrightarrow> \<exists>f \<in> set frames. \<exists>e. decode_frame f sy market = Inl e"
  by (induction frames) (auto split: sum.splits)

lemma decode_frames_empty: "decode_frames frames sy market = Inr [] \<Longrightarrow> f \<in> set frames \<Longrightarrow> decode_frame f sy market = Inr None"
  by (induction frames) (auto split: sum.splits option.splits)

lemma decoded_timed:
  assumes "decode_frame f sy market = Inr (Some c)" and "has_fields c [1]"
  shows "timed_curve c"
proof -
  obtain body where "decode_curve body sy market = Some c"
    using assms(1) by (auto simp: decode_frame_def split: option.splits if_splits)
  from decode_curve_shape [OF this] assms(2) show ?thesis unfolding timed_curve_def by blast
qed

text \<open>
  When every curve of a response has its time column, decoding it never raises anything but the one
  fixed error code, and that exactly when a frame is rejected or no frame carries a curve. Otherwise the
  outcome has no error and holds values of the core account only.
\<close>

theorem core_decode_total:
  assumes "\<forall>f \<in> set frames. \<forall>c. decode_frame f sy market = Inr (Some c) \<longrightarrow> has_fields c [1]"
  shows "case core_decode params frames sy market of
      Inl e \<Rightarrow> e = DirectRequestError ''DIRECT_PROTOCOL_RESPONSE_INVALID''
        \<and> ((\<exists>f \<in> set frames. \<exists>x. decode_frame f sy market = Inl x)
           \<or> (\<forall>f \<in> set frames. decode_frame f sy market = Inr None))
    | Inr d \<Rightarrow> out_errors d = no_source_errors \<and> (\<forall>k. out_values d k \<noteq> None \<longrightarrow> required_metric k)
        \<and> (\<exists>f \<in> set frames. \<exists>c. decode_frame f sy market = Inr (Some c))"
proof (cases "decode_frames frames sy market")
  case (Inl e)
  then show ?thesis using decode_frames_error [OF Inl] decode_frames_bad [OF Inl] by (simp add: core_decode_def)
next
  case (Inr curves)
  show ?thesis
  proof (cases "curves = []")
    case True
    then show ?thesis using decode_frames_empty Inr by (simp add: core_decode_def)
  next
    case False
    have from_frame: "\<exists>f \<in> set frames. decode_frame f sy market = Inr (Some c)" if "c \<in> set curves" for c
      using decode_frames_curves [OF Inr that] .
    then have "list_all timed_curve curves"
      unfolding list_all_iff using assms decoded_timed by blast
    then obtain m where m: "curves_metrics params curves market = Some m" using timed_curves by blast
    have "core_only m" by (rule core_only_curves [OF m])
    moreover have "\<exists>f \<in> set frames. \<exists>c. decode_frame f sy market = Inr (Some c)"
      using from_frame [of "hd curves"] False by auto
    ultimately show ?thesis using Inr False m by (simp add: core_decode_def core_only_def split: prod.split)
  qed
qed

lemma core_decode_total_witness:
  "\<exists>d. core_decode (12, 26, 9) [demo_frame] ''600000'' ''17'' = Inr d \<and> out_errors d = no_source_errors"
proof -
  have "decode_frame demo_frame ''600000'' ''17'' = Inr (Some \<lparr>curve_symbol = ''600000'', curve_name = [65],
     curve_ext = [(4, ExtText [54, 48, 48, 48, 48, 48]), (55, ExtText [65])], curve_data = [(1, [Some (-7)])]\<rparr>)"
    using demo_frame_body demo_curve_decoded
    by (simp add: decode_frame_def curve_body_def curve_magic_def lower_byte_def demo_curve_body_def ascii_bytes_def)
  then show ?thesis
    using core_decode_total [of "[demo_frame]" "''600000''" "''17''" "(12, 26, 9)"]
    by (cases "core_decode (12, 26, 9) [demo_frame] ''600000'' ''17''") (auto simp: has_fields_def)
qed

section \<open>The fund flow\<close>

text \<open>A text that stands for a value, up to the rounding of a few operations on 28 digits.\<close>

definition close_to :: "rat \<Rightarrow> rat \<Rightarrow> rat \<Rightarrow> bool" where
  "close_to e x q \<longleftrightarrow> \<bar>x - q\<bar> \<le> \<bar>q\<bar> * e"

definition reads_as :: "string option \<Rightarrow> rat option \<Rightarrow> bool" where
  "reads_as txt v \<longleftrightarrow>
     (case v of None \<Rightarrow> txt = None
      | Some q \<Rightarrow> (\<exists>t x. txt = Some t \<and> decimal_of_text t = Some x \<and> close_to (2 / 10 ^ 27) x q))"

lemma dec28_close:
  assumes "close_to a x q" and "0 \<le> a" and "a \<le> 1 / 10 ^ 20"
  shows "close_to (a + 6 / 10 ^ 28) (dec28 x) q"
proof -
  have d: "\<bar>x - q\<bar> \<le> \<bar>q\<bar> * a" using assms(1) by (simp add: close_to_def)
  have "\<bar>x\<bar> \<le> \<bar>q\<bar> + \<bar>q\<bar> * a" using d by linarith
  also have "\<dots> \<le> \<bar>q\<bar> * (6 / 5)"
    using mult_left_mono [OF assms(3), of "\<bar>q\<bar>"] abs_ge_zero [of q] by (simp add: field_simps)
  finally have "\<bar>x\<bar> * (5 / 10 ^ 28) \<le> \<bar>q\<bar> * (6 / 10 ^ 28)" by (simp add: field_simps)
  then have "\<bar>dec28 x - x\<bar> \<le> \<bar>q\<bar> * (6 / 10 ^ 28)" using dec28_error [of x] by linarith
  then have "\<bar>dec28 x - q\<bar> \<le> \<bar>q\<bar> * a + \<bar>q\<bar> * (6 / 10 ^ 28)" using d by linarith
  then show ?thesis by (simp add: close_to_def distrib_left)
qed

lemma close_exact [simp]: "close_to 0 q q"
  by (simp add: close_to_def)

lemma close_div: "close_to a x q \<Longrightarrow> close_to a (x / d) (q / d)"
  by (cases "d = 0") (simp_all add: close_to_def diff_divide_distrib [symmetric] abs_divide field_simps mult_right_mono)

lemma close_mono: "close_to a x q \<Longrightarrow> a \<le> b \<Longrightarrow> close_to b x q"
  unfolding close_to_def by (meson abs_ge_zero mult_left_mono order_trans)

lemma formatted_reads_as:
  assumes "close_to (14 / 10 ^ 28) x q"
  shows "reads_as (formatted (Some x)) (Some q)"
proof -
  obtain t where t: "formatted (Some x) = Some t" by (simp add: formatted_def)
  have "close_to (14 / 10 ^ 28 + 6 / 10 ^ 28) (dec28 x) q" by (rule dec28_close [OF assms]) simp_all
  then show ?thesis using formatted_round [OF t] t by (simp add: reads_as_def)
qed

lemma scaled_reads_as: "reads_as (scaled d v) (map_option (\<lambda>x. x / d) v)"
proof (cases v)
  case None
  then show ?thesis by (simp add: reads_as_def scaled_def formatted_def)
next
  case (Some x)
  have "close_to (0 + 6 / 10 ^ 28) (dec28 (x / d)) (x / d)" by (rule dec28_close) simp_all
  then have "close_to (14 / 10 ^ 28) (ddiv x d) (x / d)" unfolding ddiv_def by (rule close_mono) simp
  from formatted_reads_as [OF this] show ?thesis by (simp add: scaled_def Some)
qed

lemma scaled_negated: "reads_as (scaled d (map_option (\<lambda>x. dec28 (- x)) v)) (map_option (\<lambda>x. - x / d) v)"
proof (cases v)
  case None
  then show ?thesis by (simp add: reads_as_def scaled_def formatted_def)
next
  case (Some x)
  have "close_to (0 + 6 / 10 ^ 28) (dec28 (- x)) (- x)" by (rule dec28_close) simp_all
  then have "close_to (6 / 10 ^ 28) (dec28 (- x) / d) (- x / d)" by (intro close_div) simp
  then have "close_to (6 / 10 ^ 28 + 6 / 10 ^ 28) (dec28 (dec28 (- x) / d)) (- x / d)" by (rule dec28_close) simp_all
  then have "close_to (14 / 10 ^ 28) (ddiv (dec28 (- x)) d) (- x / d)" unfolding ddiv_def by (rule close_mono) simp
  from formatted_reads_as [OF this] show ?thesis by (simp add: scaled_def Some)
qed

text \<open>What the values of a period say of the amounts of a response.\<close>

definition period_reads :: "string \<Rightarrow> metric_kind \<Rightarrow> (string \<Rightarrow> rat option) \<Rightarrow> (metric_kind \<Rightarrow> string option) \<Rightarrow> bool" where
  "period_reads period unit_kind raw vs \<longleftrightarrow>
     (\<exists>d \<in> {10000, 100000000}. vs unit_kind = Some (if d = 100000000 then yi_yuan else wan_yuan)
        \<and> reads_as (vs (the (dget (fund_flow_metrics period) ''main_net_inflow''))) (map_option (\<lambda>x. x / d) (raw ''charge_main_capital''))
        \<and> reads_as (vs (the (dget (fund_flow_metrics period) ''main_visible_inflow''))) (map_option (\<lambda>x. x / d) (raw ''charge_main_listed_capital''))
        \<and> reads_as (vs (the (dget (fund_flow_metrics period) ''main_hidden_inflow''))) (map_option (\<lambda>x. x / d) (raw ''charge_main_grey_capital''))
        \<and> reads_as (vs (the (dget (fund_flow_metrics period) ''retail_inflow''))) (map_option (\<lambda>x. - x / d) (raw ''charge_main_capital'')))"

definition period_kinds :: "string \<Rightarrow> metric_kind \<Rightarrow> metric_kind list" where
  "period_kinds period unit_kind = unit_kind # map (\<lambda>f. the (dget (fund_flow_metrics period) f))
     [''main_net_inflow'', ''main_visible_inflow'', ''main_hidden_inflow'', ''retail_inflow'']"

lemma period_reads_cong:
  "period_reads period u raw vs \<Longrightarrow> (\<And>k. k \<in> set (period_kinds period u) \<Longrightarrow> vs' k = vs k) \<Longrightarrow> period_reads period u raw vs'"
  by (simp add: period_reads_def period_kinds_def)

lemma period_values_reads:
  assumes "distinct (period_kinds period u)"
  shows "period_reads period u raw (period_values period u raw vs)"
proof -
  let ?d = "large_divisor raw"
  have "?d \<in> {10000, 100000000}" by (simp add: large_divisor_def)
  then show ?thesis
    unfolding period_reads_def period_values_def Let_def
    by (rule bexI [rotated])
      (use assms scaled_reads_as scaled_negated in \<open>simp add: period_kinds_def\<close>)
qed

lemma period_values_other: "k \<notin> set (period_kinds period u) \<Longrightarrow> period_values period u raw vs k = vs k"
  by (simp add: period_values_def period_kinds_def Let_def)

definition period_answered ::
  "requester \<Rightarrow> string \<Rightarrow> string \<Rightarrow> (metric_kind \<Rightarrow> string option) \<Rightarrow> string \<times> metric_kind \<times> nat \<Rightarrow> bool" where
  "period_answered req sy market vs q \<longleftrightarrow>
     (case q of (period, u, w) \<Rightarrow> \<exists>response raw. req w = Inr response \<and> response_error response = None
        \<and> response_values response sy market = Some raw \<and> period_reads period u raw vs)"

abbreviation all_kinds :: "(string \<times> metric_kind \<times> nat) list \<Rightarrow> metric_kind list" where
  "all_kinds ps \<equiv> concat (map (\<lambda>(p, u, w). period_kinds p u) ps)"

lemma read_periods_reads:
  assumes "read_periods req sy market ps vs0 = (Inr vs, b)" and "distinct (all_kinds ps)"
  shows "list_all (period_answered req sy market vs) ps \<and> (\<forall>k. k \<notin> set (all_kinds ps) \<longrightarrow> vs k = vs0 k)"
  using assms
proof (induction ps arbitrary: vs0)
  case (Cons q ps)
  obtain p u w where q: "q = (p, u, w)" by (cases q)
  obtain response raw where r: "req w = Inr response" "response_error response = None"
      "response_values response sy market = Some raw"
    and rest: "read_periods req sy market ps (period_values p u raw vs0) = (Inr vs, b)"
    using Cons.prems(1) by (auto simp: q split: sum.splits option.splits)
  have d: "distinct (period_kinds p u)" "distinct (all_kinds ps)" "set (period_kinds p u) \<inter> set (all_kinds ps) = {}"
    using Cons.prems(2) by (simp_all add: q)
  have ih: "list_all (period_answered req sy market vs) ps"
      "\<And>k. k \<notin> set (all_kinds ps) \<Longrightarrow> vs k = period_values p u raw vs0 k"
    using Cons.IH [OF rest d(2)] by blast+
  have "period_reads p u raw vs"
    using period_reads_cong [OF period_values_reads [OF d(1)]] ih(2) d(3) by (metis disjoint_iff)
  then have "period_answered req sy market vs q" using r by (auto simp: period_answered_def q)
  moreover have "vs k = vs0 k" if "k \<notin> set (all_kinds (q # ps))" for k
    using ih(2) [of k] period_values_other [of k p u raw vs0] that by (simp add: q)
  ultimately show ?case using ih(1) by simp
qed simp

text \<open>
  C32: A successful fund-flow read says what the service answered: for each of the three periods, with the
  window of one, three and five days, the texts of the four amounts, read back as numbers, are the
  amounts of that window's response divided by the unit the text names, retail being the main amount
  with the other sign, with a relative error below two units in the 27th digit; an amount the response
  does not give has no text.
\<close>

theorem fund_values_read_back:
  assumes "read_uncached session req sy market = (Inr d, expired)"
  shows "period_answered req sy market (out_values d) (''today'', MAIN_FLOW_TODAY_UNIT, 1)
    \<and> period_answered req sy market (out_values d) (''three_day'', MAIN_FLOW_THREE_DAY_UNIT, 3)
    \<and> period_answered req sy market (out_values d) (''five_day'', MAIN_FLOW_FIVE_DAY_UNIT, 5)"
proof -
  obtain vs where "read_periods req sy market fund_flow_windows empty_metric_values = (Inr vs, expired)"
    and d: "out_values d = vs"
    using assms by (auto simp: read_uncached_def fund_outcome_def split: if_splits prod.splits sum.splits)
  moreover have "distinct (all_kinds fund_flow_windows)"
    by (simp add: fund_flow_windows_def period_kinds_def fund_flow_metrics_def)
  ultimately have "list_all (period_answered req sy market vs) fund_flow_windows"
    using read_periods_reads by blast
  then show ?thesis by (simp add: d fund_flow_windows_def)
qed

definition demo_response :: http_response where
  "demo_response = \<lparr>status_code = 200, response_body = Some (JObj [(''status_code'', JNum 0),
     (''data'', JObj [(''indexes'', JArr [JObj [(''index_id'', JStr ''charge_main_capital'')]]),
       (''data'', JArr [JObj [(''code'', JStr ''17:600000''),
         (''values'', JArr [JObj [(''idx'', JNum 0), (''value'', JNum 12345)]])]])])])\<rparr>"

lemma demo_read_uncached:
  "\<exists>d. read_uncached True (\<lambda>_. Inr demo_response) ''600000'' ''17'' = (Inr d, False)"
proof -
  have "response_values demo_response ''600000'' ''17'' \<noteq> None"
    by (simp add: response_values_def demo_response_def as_list_def py_int_def Fund_Flow.truncate_def)
  then show ?thesis
    by (auto simp: read_uncached_def fund_flow_windows_def response_error_def demo_response_def Let_def)
qed

lemma fund_values_read_back_witness:
  "\<exists>d. read_uncached True (\<lambda>_. Inr demo_response) ''600000'' ''17'' = (Inr d, False)
     \<and> period_answered (\<lambda>_. Inr demo_response) ''600000'' ''17'' (out_values d) (''today'', MAIN_FLOW_TODAY_UNIT, 1)"
  using demo_read_uncached fund_values_read_back by blast

text \<open>A sequence of reads of the fund-flow client for symbols with a market, each with the time and the
  service it meets.\<close>

type_synonym fund_request = "string \<times> string \<times> seconds \<times> requester"

fun fund_reads ::
  "seconds \<Rightarrow> nat \<Rightarrow> fund_request list \<Rightarrow> direct_outcome cache \<Rightarrow> (bool \<times> (wire_error + direct_outcome)) list" where
  "fund_reads interval cap [] c = []"
| "fund_reads interval cap ((sy, _, now, req) # rs) c =
     (case fund_read_direct interval cap True req now sy c of (out, c') \<Rightarrow> out # fund_reads interval cap rs c')"

definition as_read :: "fund_request \<Rightarrow> string \<times> seconds \<times> (wire_error + direct_outcome)" where
  "as_read r = (case r of (sy, market, now, req) \<Rightarrow> (sy, now, fst (read_uncached True req sy market)))"

lemma fund_reads_all:
  assumes "\<forall>(sy, market, _) \<in> set rs. market_code_for_symbol sy = Some market"
  shows "fund_reads interval cap rs c = read_all (cache_hit interval) (cache_store cap) (map as_read rs) c"
  using assms
  by (induction rs arbitrary: c) (auto simp: fund_read_direct_def as_read_def split: prod.splits)

text \<open>
  C39: The fund-flow service is neither asked too often nor quoted too late: what a read returns was
  answered by the service for that symbol, at that read or less than the interval before; and a read
  within the interval after an answered one asks nothing and returns the same, as long as the clock does
  not run backwards and no more symbols than the cache holds have been read since that symbol was first
  read. (The cache evicts the symbol that came first, and a symbol read again keeps its place.)
\<close>

theorem fund_reads_limited:
  assumes "\<forall>(sy, market, _) \<in> set rs. market_code_for_symbol sy = Some market"
    and "j < length rs" and "rs ! j = (sy, m, now, req)"
  shows "(\<forall>v. snd (fund_reads interval cap rs [] ! j) = Inr v \<longrightarrow> fst (read_uncached True req sy m) = Inr v
      \<or> (\<exists>i t r. i < j \<and> rs ! i = (sy, m, t, r) \<and> fst (read_uncached True r sy m) = Inr v \<and> now - t < interval))
    \<and> (\<forall>p. sorted (map (\<lambda>(_, _, t, _). t) rs) \<and> sy \<notin> fst ` set (take p rs) \<and> card (fst ` set (drop p (take j rs))) \<le> cap \<longrightarrow>
      (\<forall>i t r v. p \<le> i \<and> i < j \<and> rs ! i = (sy, m, t, r) \<and> now - t < interval \<and> fund_reads interval cap rs [] ! i = (True, Inr v)
        \<longrightarrow> fund_reads interval cap rs [] ! j = (False, Inr v)))"
proof (intro conjI impI allI)
  let ?rs = "map as_read rs"
  note eq = fund_reads_all [OF assms(1)]
  have valid: "valid_cache cap []" by (simp add: valid_cache_def)
  have j: "j < length ?rs" "?rs ! j = (sy, now, fst (read_uncached True req sy m))"
    using assms(2,3) by (simp_all add: as_read_def)
  {
    fix v assume "snd (fund_reads interval cap rs [] ! j) = Inr v"
    then have "snd (read_all (cache_hit interval) (cache_store cap) ?rs [] ! j) = Inr v" unfolding eq .
    from symbol_cache.reads_fresh [OF valid _ j(1) this j(2)]
    consider "fst (read_uncached True req sy m) = Inr v"
      | i t where "i < j" "?rs ! i = (sy, t, Inr v)" "now - t < interval"
      by (auto simp: cache_hit_def)
    then show "fst (read_uncached True req sy m) = Inr v
      \<or> (\<exists>i t r. i < j \<and> rs ! i = (sy, m, t, r) \<and> fst (read_uncached True r sy m) = Inr v \<and> now - t < interval)"
    proof cases
      case 2
      obtain sy' m' t' r' where r: "rs ! i = (sy', m', t', r')" by (cases "rs ! i")
      have i: "rs ! i \<in> set rs" "rs ! j \<in> set rs" using 2(1) assms(2) by auto
      have "sy' = sy" "t' = t" "fst (read_uncached True r' sy m') = Inr v"
        using 2 assms(2) r by (auto simp: as_read_def)
      moreover have "m' = m" using bspec [OF assms(1) i(1)] bspec [OF assms(1) i(2)] r assms(3) \<open>sy' = sy\<close> by simp
      ultimately show ?thesis using 2 r by blast
    qed blast
  }
  fix p i t r v
  assume s: "sorted (map (\<lambda>(_, _, t, _). t) rs) \<and> sy \<notin> fst ` set (take p rs) \<and> card (fst ` set (drop p (take j rs))) \<le> cap"
    and h: "p \<le> i \<and> i < j \<and> rs ! i = (sy, m, t, r) \<and> now - t < interval \<and> fund_reads interval cap rs [] ! i = (True, Inr v)"
  have same: "map (\<lambda>r. fst (snd r)) ?rs = map (\<lambda>(_, _, t, _). t) rs" "fst (as_read r) = fst r" for r
    by (auto simp: as_read_def split: prod.splits)
  have syms: "fst ` set (take p ?rs) = fst ` set (take p rs)" "fst ` set (drop p (take j ?rs)) = fst ` set (drop p (take j rs))"
    by (simp_all add: take_map drop_map image_image same)
  have c: "sy \<notin> fst ` set (take p ?rs)" "card (fst ` set (drop p (take j ?rs))) \<le> cap" "sorted (map (\<lambda>r. fst (snd r)) ?rs)"
    unfolding syms same using s by blast+
  have i: "?rs ! i = (sy, t, fst (read_uncached True r sy m))" using h assms(2) by (simp add: as_read_def)
  have a: "p \<le> i" "i < j" "now - t < interval" "read_all (cache_hit interval) (cache_store cap) ?rs [] ! i = (True, Inr v)"
    using h unfolding eq by blast+
  show "fund_reads interval cap rs [] ! j = (False, Inr v)"
    unfolding eq by (rule symbol_cache.reads_not_repeated [OF valid _ c(1,2,3) a(1,2) j(1) i j(2) a(4,3)]) simp
qed

definition demo_requests :: "fund_request list" where
  "demo_requests = [(''600000'', ''17'', 0, \<lambda>_. Inr demo_response), (''600000'', ''17'', 5, \<lambda>_. Inl ''OFFLINE'')]"

lemma demo_market: "market_code_for_symbol ''600000'' = Some ''17''"
  by code_simp

lemma fund_reads_limited_witness:
  "\<exists>d. fund_reads 15 1 demo_requests [] = [(True, Inr d), (False, Inr d)]"
proof -
  obtain d where d: "read_uncached True (\<lambda>_. Inr demo_response) ''600000'' ''17'' = (Inr d, False)"
    using demo_read_uncached by blast
  have h: "\<forall>(sy, market, _) \<in> set demo_requests. market_code_for_symbol sy = Some market"
    by (simp add: demo_requests_def demo_market)
  have first: "fund_reads 15 1 demo_requests [] ! 0 = (True, Inr d)"
    by (simp add: demo_requests_def fund_read_direct_def demo_market read_through_def cache_hit_def d split: prod.split)
  have "sorted (map (\<lambda>(_, _, t, _). t) demo_requests)" "card (fst ` set (drop 0 (take 1 demo_requests))) \<le> 1"
    by (simp_all add: demo_requests_def)
  then have "fund_reads 15 1 demo_requests [] ! 1 = (False, Inr d)"
    using fund_reads_limited [OF h, of 1 "''600000''" "''17''" 5 "\<lambda>_. Inl ''OFFLINE''" 15 1] first
    by (fastforce simp: demo_requests_def)
  moreover have "length (fund_reads 15 1 demo_requests []) = 2"
    by (simp add: demo_requests_def split: prod.split)
  ultimately show ?thesis using first by (cases "fund_reads 15 1 demo_requests []") (auto simp: length_Suc_conv numeral_2_eq_2)
qed

section \<open>Two accounts\<close>

lemma fixed_code_not_empty: "fixed_error_code e \<Longrightarrow> e \<noteq> []"
  by (auto simp: fixed_error_code_def)

lemma failure_codes:
  "fixed_error_code (failure_code ''DIRECT_REQUEST_FAILED'' f)"
  "fixed_error_code (failure_code ''DIRECT_FUND_FLOW_REQUEST_FAILED'' f)"
  by (rule failure_code_fixed, simp)+

text \<open>
  The two ways of reading both accounts agree. When the strict read succeeds, the best-effort read has
  the same values and series, and the same error of the fund account if there is one; when the strict
  read fails, the best-effort read reports its error as that of the core account, has no value of that
  account, and the values of the fund account if that one answered. Every reported error is a fixed code.
\<close>

theorem dual_reads_agree:
  "case dual_read_direct core fund of
     Inr d \<Rightarrow> out_values (dual_best_effort core fund) = out_values d \<and> out_series (dual_best_effort core fund) = out_series d
       \<and> (\<forall>e. main_fund_flow (out_errors d) = Some e \<longrightarrow>
            fixed_error_code e \<and> main_fund_flow (out_errors (dual_best_effort core fund)) = Some e)
   | Inl e \<Rightarrow> fixed_error_code e \<and> core_metrics (out_errors (dual_best_effort core fund)) = Some e
       \<and> (\<forall>k. out_values (dual_best_effort core fund) k =
            (if required_metric k then None else case fund of Inl _ \<Rightarrow> None | Inr r \<Rightarrow> answer_values r k))"
proof (cases core)
  case (Inl f)
  then show ?thesis
    using failure_codes fixed_code_not_empty [OF failure_codes(1), of f]
    by (auto simp: dual_read_direct_def dual_best_effort_def Let_def or_text_def merged_values_def split: sum.split)
next
  case (Inr c)
  then show ?thesis
    using failure_codes fixed_code_not_empty [OF failure_codes(2)]
    by (auto simp: dual_read_direct_def dual_best_effort_def Let_def or_text_def split: sum.split)
qed

lemma dual_reads_agree_witness:
  "dual_read_direct (Inl (DirectFailure ''gone'')) (Inr (PlainValues (\<lambda>_. Some ''1''))) = Inl ''DIRECT_REQUEST_FAILED''
    \<and> out_values (dual_best_effort (Inl (DirectFailure ''gone'')) (Inr (PlainValues (\<lambda>_. Some ''1'')))) MAIN_FLOW_TODAY_NET = Some ''1''"
proof -
  have "sanitized_direct_error_code ''gone'' ''DIRECT_REQUEST_FAILED'' = ''DIRECT_REQUEST_FAILED''"
    by code_simp
  then show ?thesis
    using dual_reads_agree [of "Inl (DirectFailure ''gone'')" "Inr (PlainValues (\<lambda>_. Some ''1''))"]
    by (simp add: dual_read_direct_def required_metric_def required_metrics_def)
qed

section \<open>The transport\<close>




section \<open>The client over the pool\<close>

text \<open>One operation of the client, or one background refill of a pooled request, at a time; a refill belongs
  to the session its request was prepared for.\<close>

inductive client_step ::
  "(string \<Rightarrow> json option) \<Rightarrow> (core_material \<Rightarrow> bytes) \<Rightarrow> seconds \<Rightarrow> seconds \<Rightarrow> client \<Rightarrow> client \<Rightarrow> bool"
  for loads fingerprint max_idle idle where
  client_reads: "client_step loads fingerprint max_idle idle c
    (snd (client_read_direct loads fingerprint max_idle idle session started now dialled sy c))"
| client_prewarms: "client_step loads fingerprint max_idle idle c
    (snd (client_prewarm loads fingerprint session started busy sy c))"
| client_refills: "refills (client_system c) \<noteq> [] \<longrightarrow> fst (snd (hd (refills (client_system c)))) = session_fingerprint prepared \<Longrightarrow>
    client_step loads fingerprint max_idle idle c (client_refill idle now dialled prepared c)"
| client_invalidates: "client_step loads fingerprint max_idle idle c (client_invalidate c)"
| client_closes: "client_step loads fingerprint max_idle idle c (client_close c)"

inductive client_reachable ::
  "(string \<Rightarrow> json option) \<Rightarrow> (core_material \<Rightarrow> bytes) \<Rightarrow> seconds \<Rightarrow> seconds \<Rightarrow> client \<Rightarrow> bool"
  for loads fingerprint max_idle idle where
  client_init: "client_reachable loads fingerprint max_idle idle \<lparr>client_system = initial_system, sockets = socks\<rparr>"
| client_next: "client_reachable loads fingerprint max_idle idle c \<Longrightarrow> client_step loads fingerprint max_idle idle c c' \<Longrightarrow>
    client_reachable loads fingerprint max_idle idle c'"

lemma client_step_steps:
  assumes "client_step loads fingerprint mi idle c c'"
  shows "pool_steps mi (client_system c) (client_system c')"
  using assms
proof cases
  case (client_prewarms session started busy sy)
  then show ?thesis using client_replenish_steps
    by (auto simp: client_prewarm_def split: option.split sum.split prod.split)
next
  case client_invalidates
  show ?thesis using invalidates [of "client_system c" _ _ mi]
    by (cases "invalidate (pool (client_system c))") (simp add: client_invalidates client_invalidate_def r_into_rtranclp)
next
  case client_closes
  show ?thesis using closes [of "client_system c" _ _ mi]
    by (cases "close_pool (pool (client_system c))") (simp add: client_closes client_close_def r_into_rtranclp)
qed (simp_all add: client_read_steps client_refill_steps)

lemma pool_reachable_steps: "pool_steps mi s s' \<Longrightarrow> pool_reachable mi s \<Longrightarrow> pool_reachable mi s'"
  by (induction rule: rtranclp_induct) (auto intro: pool_next)

lemma client_reachable_pool: "client_reachable loads fingerprint mi idle c \<Longrightarrow> pool_reachable mi (client_system c)"
proof (induction rule: client_reachable.induct)
  case (client_init socks)
  then show ?case by (simp add: pool_init)
next
  case (client_next c c')
  then show ?case using client_step_steps pool_reachable_steps by blast
qed

text \<open>
  C3: Every authenticated connection has exactly one owner: after any operations of the client and any
  background refills, each connection that was ever opened is either closed, and that once, or in exactly
  one place (ready in the pool, held by a refill or an acquisition, or in use); the ready connection
  belongs to the pool's session, and a closed pool holds none. Every operation of the client is a
  sequence of steps of the pool's threads, so this holds for their interleavings as well.
\<close>

theorem warm_connections_owned_once:
  assumes "client_reachable loads fingerprint max_idle idle c"
  shows "mset (map conn_id (live (client_system c)) @ closed_ids (client_system c)) = mset [0..<next_id (client_system c)]
    \<and> distinct (map conn_id (live (client_system c)) @ closed_ids (client_system c))
    \<and> (\<forall>w. ready (pool (client_system c)) = Some w \<longrightarrow>
        pool_fingerprint (pool (client_system c)) = Some (warm_fingerprint w) \<and> \<not> closed (pool (client_system c)))
    \<and> pool_reachable max_idle (client_system c)"
proof -
  have r: "pool_reachable max_idle (client_system c)" by (rule client_reachable_pool [OF assms])
  have m: "mset (map conn_id (live (client_system c)) @ closed_ids (client_system c)) = mset [0..<next_id (client_system c)]"
    using pool_reachable_inv [OF r] by (simp add: pool_owned_def)
  then have "distinct (map conn_id (live (client_system c)) @ closed_ids (client_system c))"
    by (metis distinct_upt mset_eq_imp_distinct_iff)
  then show ?thesis using m r pool_reachable_inv [OF r] by (simp add: pool_ok_def)
qed

lemma demo_client_reachable: "client_reachable demo_loads (\<lambda>_. [1]) 25 (1 / 2) demo_client_read"
proof -
  have "client_reachable demo_loads (\<lambda>_. [1]) 25 (1 / 2) demo_client" unfolding demo_client_def by (rule client_init)
  then show ?thesis unfolding demo_client_read_def by (rule client_next [OF _ client_reads])
qed

lemma warm_connections_owned_once_witness:
  "live (client_system demo_client_read) = [] \<and> mset (closed_ids (client_system demo_client_read)) = mset [0..<1]"
  using warm_connections_owned_once [OF demo_client_reachable]
  by (simp add: demo_first_read live_def)

lemma prepare_fingerprint:
  "prepare loads fingerprint m timeout sy = Inr prepared \<Longrightarrow> session_fingerprint prepared = fingerprint m"
  by (auto simp: prepare_def Let_def split: option.splits if_splits)

lemma acquire_begin_fresh:
  assumes "\<not> closed p" and "\<forall>w. ready p = Some w \<longrightarrow> pool_fingerprint p = Some (warm_fingerprint w)"
  shows "\<exists>g stale p'. acquire_begin mi now fp p = (Some (g, (case ready p of Some w \<Rightarrow>
      if warm_fingerprint w = fp \<and> now - authenticated_at w \<le> mi then Some w else None | None \<Rightarrow> None), stale), p')
    \<and> acquire_valid g fp p'"
  using assms by (cases "ready p") (auto simp: acquire_begin_def switch_session_def acquire_valid_def Let_def)

text \<open>
  C34: The warm pool is invisible in the answers: in every reachable state of an open client, a read with no
  usable ready connection gives exactly what the protocol's own read gives over a new connection, and a
  read with one gives what the protocol reads over it, without dialling.
\<close>

theorem pooled_reads_agree:
  assumes "client_reachable loads fingerprint max_idle idle c" and "\<not> closed (pool (client_system c))"
    and "market_code_for_symbol sy = Some market" and "prepare loads fingerprint m timeout sy = Inr prepared"
  shows "fst (client_read_direct loads fingerprint max_idle idle (Some (m, timeout)) started now dialled sy c) =
    (case ready (pool (client_system c)) of
       Some w \<Rightarrow>
         if warm_fingerprint w = fingerprint m \<and> now - authenticated_at w \<le> max_idle
         then read_authenticated prepared (fingerprint m) sy market (sockets c (conn_id w))
         else protocol_read_direct loads fingerprint m timeout idle sy market dialled
     | None \<Rightarrow> protocol_read_direct loads fingerprint m timeout idle sy market dialled)"
proof -
  let ?p = "pool (client_system c)" and ?fp = "fingerprint m"
  note fp = prepare_fingerprint [OF assms(4)]
  have ok: "pool_ok (client_system c)" using pool_reachable_inv [OF client_reachable_pool [OF assms(1)]] by blast
  then have "\<forall>w. ready ?p = Some w \<longrightarrow> pool_fingerprint ?p = Some (warm_fingerprint w)" by (simp add: pool_ok_def)
  from acquire_begin_fresh [OF assms(2) this, of max_idle now ?fp] obtain g stale p'
    where b: "acquire_begin max_idle now ?fp ?p = (Some (g, (case ready ?p of Some w \<Rightarrow>
      if warm_fingerprint w = ?fp \<and> now - authenticated_at w \<le> max_idle then Some w else None | None \<Rightarrow> None), stale), p')"
      and v: "acquire_valid g ?fp p'" by blast
  show ?thesis
  proof (cases "\<exists>w. ready ?p = Some w \<and> warm_fingerprint w = ?fp \<and> now - authenticated_at w \<le> max_idle")
    case True
    then obtain w where w: "ready ?p = Some w" "warm_fingerprint w = ?fp" "now - authenticated_at w \<le> max_idle" by blast
    then show ?thesis using b v assms(3,4) fp
      by (simp add: client_read_direct_def client_acquire_def hand_over_def Let_def)
  next
    case False
    then have n: "(case ready ?p of Some w \<Rightarrow>
        if warm_fingerprint w = ?fp \<and> now - authenticated_at w \<le> max_idle then Some w else None | None \<Rightarrow> None) = None"
      by (auto split: option.split)
    have "fst (client_read_direct loads fingerprint max_idle idle (Some (m, timeout)) started now dialled sy c)
        = protocol_read_direct loads fingerprint m timeout idle sy market dialled"
    proof (cases "authenticate prepared idle dialled")
      case (Inl e)
      then show ?thesis using b n assms(3,4) fp
        by (simp add: client_read_direct_def client_acquire_def protocol_read_direct_def Let_def)
    next
      case (Inr conn)
      then show ?thesis using b n v assms(3,4) fp
        by (simp add: client_read_direct_def client_acquire_def hand_over_def protocol_read_direct_def fresh_connection_def Let_def)
    qed
    then show ?thesis using False by (auto split: option.split)
  qed
qed

lemma pooled_reads_agree_witness:
  "fst (client_read_direct demo_loads (\<lambda>_. [1]) 25 (1 / 2) (Some (demo_material, 10)) True 3 demo_dialled ''601872'' demo_client_read)
    = protocol_read_direct demo_loads (\<lambda>_. [1]) demo_material 10 (1 / 2) ''601872'' ''17'' demo_dialled"
proof -
  obtain prepared where p: "prepare demo_loads (\<lambda>_. [1]) demo_material 10 ''601872'' = Inr prepared"
    using demo_prepare by blast
  show ?thesis
    using pooled_reads_agree [OF demo_client_reachable _ demo_symbol_market p, of True 3 demo_dialled]
    by (simp add: demo_first_read)
qed

end
