(* ===== verification/Json_Text.thy ===== *)
theory Json_Text
  imports Models Symbols "HOL-Library.Monad_Syntax"
begin

text \<open>
  The texts of JSON documents as the program reads and writes them: \<open>json.loads\<close> by the grammar of
  Python's scanner, and \<open>json.dumps\<close> in two forms: with \<open>ensure_ascii=False\<close> and \<open>separators=(",", ":")\<close>, and with
  the defaults, which escape every character beyond ASCII and put a space behind a comma and a colon. Texts are UTF-8. At the end, what \<open>str\<close> makes of a value. Python's limits on the nesting and on the digits of an integer are not modelled.
\<close>

section \<open>Characters\<close>

abbreviation quote_char :: char where "quote_char \<equiv> CHR 0x22"
abbreviation backslash :: char where "backslash \<equiv> CHR 0x5C"

definition json_space :: "char \<Rightarrow> bool" where
  "json_space c \<longleftrightarrow> c \<in> {CHR '' '', CHR 0x09, CHR 0x0A, CHR 0x0D}"

abbreviation skip_ws :: "string \<Rightarrow> string" where
  "skip_ws s \<equiv> dropWhile json_space s"

definition hex_char_value :: "char \<Rightarrow> nat option" where
  "hex_char_value c = (let n = (of_char c :: nat) in
     if 48 \<le> n \<and> n \<le> 57 then Some (n - 48)
     else if 65 \<le> n \<and> n \<le> 70 then Some (n - 55)
     else if 97 \<le> n \<and> n \<le> 102 then Some (n - 87)
     else None)"

definition hex4 :: "char \<Rightarrow> char \<Rightarrow> char \<Rightarrow> char \<Rightarrow> nat option" where
  "hex4 a b c d = do {
     x \<leftarrow> hex_char_value a;
     y \<leftarrow> hex_char_value b;
     z \<leftarrow> hex_char_value c;
     w \<leftarrow> hex_char_value d;
     Some (4096 * x + 256 * y + 16 * z + w) }"

definition escape_char :: "char \<Rightarrow> char option" where
  "escape_char c =
     (if c = quote_char \<or> c = backslash \<or> c = CHR ''/'' then Some c
      else if c = CHR ''b'' then Some (CHR 0x08) else if c = CHR ''f'' then Some (CHR 0x0C)
      else if c = CHR ''n'' then Some (CHR 0x0A) else if c = CHR ''r'' then Some (CHR 0x0D)
      else if c = CHR ''t'' then Some (CHR 0x09) else None)"

section \<open>Reading\<close>

text \<open>What follows an opening quote: the text and what comes after the closing one. A high surrogate
  joins a low one that follows.\<close>

definition is_high :: "nat \<Rightarrow> bool" where "is_high n \<longleftrightarrow> 0xD800 \<le> n \<and> n \<le> 0xDBFF"
definition is_low :: "nat \<Rightarrow> bool" where "is_low n \<longleftrightarrow> 0xDC00 \<le> n \<and> n \<le> 0xDFFF"

definition low_after :: "string \<Rightarrow> (nat \<times> string) option" where
  "low_after s =
     (case s of b # u # e # f # g # h # rest \<Rightarrow>
        if b = backslash \<and> u = CHR ''u'' then
          (case hex4 e f g h of Some n \<Rightarrow> if is_low n then Some (n, rest) else None | None \<Rightarrow> None)
        else None
      | _ \<Rightarrow> None)"

lemma low_after_length: "low_after s = Some (n, rest) \<Longrightarrow> length rest < length s"
  by (auto simp: low_after_def split: list.splits if_splits option.splits)

text \<open>One character of a text, \<open>c\<close> being the first: what it stands for and the rest.\<close>

definition unicode_piece :: "string \<Rightarrow> (string \<times> string) option" where
  "unicode_piece r =
     (case r of a # b # x # d # r1 \<Rightarrow>
        (case hex4 a b x d of None \<Rightarrow> None
         | Some n \<Rightarrow>
             (case (if is_high n then low_after r1 else None) of
                Some (low, r2) \<Rightarrow> Some (utf8_char (0x10000 + (n - 0xD800) * 1024 + (low - 0xDC00)), r2)
              | None \<Rightarrow> Some (utf8_char n, r1)))
      | _ \<Rightarrow> None)"

definition string_piece :: "char \<Rightarrow> string \<Rightarrow> (string \<times> string) option" where
  "string_piece c r =
     (if c = backslash then
        (case r of [] \<Rightarrow> None
         | e # r1 \<Rightarrow> if e = CHR ''u'' then unicode_piece r1 else map_option (\<lambda>x. ([x], r1)) (escape_char e))
      else if of_char c < (32 :: nat) then None
      else Some ([c], r))"

lemma string_piece_length: "string_piece c r = Some (p, r') \<Longrightarrow> length r' \<le> length r"
  by (auto simp: string_piece_def unicode_piece_def split: if_splits list.splits option.splits dest: low_after_length)

function parse_string :: "string \<Rightarrow> (string \<times> string) option" where
  "parse_string [] = None"
| "parse_string (c # r) =
     (if c = quote_char then Some ([], r)
      else case string_piece c r of None \<Rightarrow> None
        | Some (p, r') \<Rightarrow> map_option (apfst ((@) p)) (parse_string r'))"
  by pat_completeness auto
termination
  by (relation "measure length") (auto dest!: string_piece_length)

lemma parse_string_length: "parse_string s = Some (t, r) \<Longrightarrow> length r < length s"
proof (induction s arbitrary: t r rule: parse_string.induct)
  case (2 c s)
  then show ?case by (fastforce split: if_splits option.splits prod.splits dest!: string_piece_length)
qed simp

section \<open>Numbers\<close>

definition digits_first :: "string \<Rightarrow> string \<times> string" where
  "digits_first s = (takeWhile is_digit s, dropWhile is_digit s)"

text \<open>The fraction and the exponent of a number, when they are complete.\<close>

definition fraction_part :: "string \<Rightarrow> string \<times> string" where
  "fraction_part s =
     (case s of c # r \<Rightarrow> if c = CHR ''.'' \<and> takeWhile is_digit r \<noteq> [] then digits_first r else ([], s)
      | [] \<Rightarrow> ([], s))"

definition exponent_part :: "string \<Rightarrow> int option \<times> string" where
  "exponent_part s =
     (case s of c # r \<Rightarrow>
        if c = CHR ''e'' \<or> c = CHR ''E'' then
          (let signed = (case r of x # r' \<Rightarrow> if x = CHR ''-'' then (- 1, r') else if x = CHR ''+'' then (1, r') else (1, r)
                         | [] \<Rightarrow> (1 :: int, r));
               ds = takeWhile is_digit (snd signed) in
           if ds = [] then (None, s) else (Some (fst signed * int (dec_val ds)), dropWhile is_digit (snd signed)))
        else (None, s)
      | [] \<Rightarrow> (None, s))"

text \<open>The sign is split off; the digits of the whole part are one zero, or do not begin with one.\<close>

definition number_body :: "string \<Rightarrow> string" where
  "number_body s = (case s of c # r \<Rightarrow> if c = CHR ''-'' then r else s | [] \<Rightarrow> [])"

definition whole_digits :: "string \<Rightarrow> string" where
  "whole_digits s = (case s of c # _ \<Rightarrow> if c = CHR ''0'' then [c] else takeWhile is_digit s | [] \<Rightarrow> [])"

definition number_value :: "rat \<Rightarrow> string \<Rightarrow> string \<Rightarrow> int option \<Rightarrow> json" where
  "number_value sg whole fr ex =
     (if fr = [] \<and> ex = None then JNum (sg * of_nat (dec_val whole))
      else JFloat (sg * of_nat (dec_val (whole @ fr)) * 10 powi ((case ex of None \<Rightarrow> 0 | Some x \<Rightarrow> x) - int (length fr))))"

definition parse_number :: "string \<Rightarrow> (json \<times> string) option" where
  "parse_number s =
     (let body = number_body s; whole = whole_digits body in
      if whole = [] then None
      else case fraction_part (drop (length whole) body) of (fr, r1) \<Rightarrow>
        (case exponent_part r1 of (ex, r2) \<Rightarrow> Some (number_value (if body = s then 1 else - 1) whole fr ex, r2)))"

section \<open>Values\<close>

definition json_constants :: "(string \<times> json) list" where
  "json_constants = [(''null'', JNull), (''true'', JBool True), (''false'', JBool False), (''NaN'', JNonFinite ''NaN''),
     (''Infinity'', JNonFinite ''Infinity''), (''-Infinity'', JNonFinite ''-Infinity'')]"

definition parse_constant :: "string \<Rightarrow> (json \<times> string) option" where
  "parse_constant s =
     map_option (\<lambda>(t, v). (v, drop (length t) s)) (find (\<lambda>(t, v). take (length t) s = t) json_constants)"

text \<open>A key that is given again takes the later value at its first place.\<close>

definition dict_of :: "(string \<times> json) list \<Rightarrow> (string \<times> json) list" where
  "dict_of members = foldl (\<lambda>d (k, v). dset k v d) [] members"

lemma skip_ws_length: "length (skip_ws s) \<le> length s"
  by (rule length_dropWhile_le)

lemma skip_ws_Cons: "skip_ws s = c # r \<Longrightarrow> length r < length s"
  using skip_ws_length [of s] by simp

text \<open>The test of the lengths is true of every value read; with it the recursion is seen to end.\<close>

function (sequential)
  parse_value :: "string \<Rightarrow> (json \<times> string) option" and
  parse_items :: "string \<Rightarrow> (json list \<times> string) option" and
  parse_members :: "string \<Rightarrow> ((string \<times> json) list \<times> string) option" where
  "parse_value s =
     (case s of [] \<Rightarrow> None
      | c # r \<Rightarrow>
          if c = quote_char then map_option (apfst JStr) (parse_string r)
          else if c = CHR ''['' then
            (case skip_ws r of [] \<Rightarrow> None
             | d # r1 \<Rightarrow> if d = CHR '']'' then Some (JArr [], r1) else map_option (apfst JArr) (parse_items (skip_ws r)))
          else if c = CHR ''{'' then
            (case skip_ws r of [] \<Rightarrow> None
             | d # r1 \<Rightarrow> if d = CHR ''}'' then Some (JObj [], r1)
                         else map_option (apfst (JObj \<circ> dict_of)) (parse_members (skip_ws r)))
          else (case parse_constant s of Some v \<Rightarrow> Some v | None \<Rightarrow> parse_number s))"
| "parse_items s =
     (case parse_value s of None \<Rightarrow> None
      | Some (v, r) \<Rightarrow>
          if length s \<le> length r then None
          else case skip_ws r of [] \<Rightarrow> None
            | d # r1 \<Rightarrow>
                if d = CHR '']'' then Some ([v], r1)
                else if d = CHR '','' then map_option (apfst ((#) v)) (parse_items (skip_ws r1))
                else None)"
| "parse_members s =
     (case s of [] \<Rightarrow> None
      | c # r \<Rightarrow>
          if c \<noteq> quote_char then None
          else case parse_string r of None \<Rightarrow> None
            | Some (k, r1) \<Rightarrow>
                (case skip_ws r1 of [] \<Rightarrow> None
                 | d # r2 \<Rightarrow>
                     if d \<noteq> CHR '':'' then None
                     else case parse_value (skip_ws r2) of None \<Rightarrow> None
                       | Some (v, r3) \<Rightarrow>
                           if length s \<le> length r3 then None
                           else case skip_ws r3 of [] \<Rightarrow> None
                             | e # r4 \<Rightarrow>
                                 if e = CHR ''}'' then Some ([(k, v)], r4)
                                 else if e = CHR '','' then map_option (apfst ((#) (k, v))) (parse_members (skip_ws r4))
                                 else None))"
  by pat_completeness auto

termination
  by (relation "measures [\<lambda>x. case x of Inl s \<Rightarrow> length s | Inr y \<Rightarrow> (case y of Inl s \<Rightarrow> length s | Inr s \<Rightarrow> length s),
    \<lambda>x. case x of Inl s \<Rightarrow> 0 | Inr _ \<Rightarrow> 1]")
    (auto dest!: skip_ws_Cons parse_string_length intro: le_less_trans [OF skip_ws_length])

declare parse_value.simps [simp del] parse_items.simps [simp del] parse_members.simps [simp del]

text \<open>\<open>json.loads\<close>; None is a \<open>JSONDecodeError\<close>.\<close>

definition json_loads :: "string \<Rightarrow> json option" where
  "json_loads s =
     (case parse_value (skip_ws s) of
        Some (v, r) \<Rightarrow> if skip_ws r = [] then Some v else None
      | None \<Rightarrow> None)"

lemma fraction_part_length: "length (snd (fraction_part s)) \<le> length s"
  by (auto simp: fraction_part_def digits_first_def length_dropWhile_le le_SucI split: list.splits)

lemma exponent_part_length: "length (snd (exponent_part s)) \<le> length s"
  by (auto simp: exponent_part_def Let_def length_dropWhile_le le_SucI split: list.splits)

lemma parse_number_length: "parse_number s = Some (v, r) \<Longrightarrow> length r < length s"
proof -
  assume a: "parse_number s = Some (v, r)"
  let ?body = "number_body s"
  have w: "whole_digits ?body \<noteq> []"
    and r: "r = snd (exponent_part (snd (fraction_part (drop (length (whole_digits ?body)) ?body))))"
    using a by (auto simp: parse_number_def Let_def split: if_splits prod.splits)
  have "length r \<le> length (drop (length (whole_digits ?body)) ?body)"
    unfolding r using exponent_part_length fraction_part_length order_trans by blast
  moreover have "length ?body \<le> length s" by (auto simp: number_body_def split: list.splits)
  moreover have "?body \<noteq> []" using w by (auto simp: whole_digits_def)
  ultimately show "length r < length s" using w by (cases "whole_digits ?body"; cases ?body) auto
qed

lemma parse_constant_length: "parse_constant s = Some (v, r) \<Longrightarrow> length r < length s"
proof -
  assume "parse_constant s = Some (v, r)"
  then obtain t where t: "(t, v) \<in> set json_constants" "take (length t) s = t" "r = drop (length t) s"
    by (auto simp: parse_constant_def find_Some_iff dest: nth_mem)
  then have "t \<noteq> []" by (auto simp: json_constants_def)
  moreover have "length t \<le> length s" using t(2) by (metis length_take min.cobounded1)
  ultimately show "length r < length s" using t(3) by (cases t) auto
qed

text \<open>Every value read is shorter than its text, so the tests in the parser never fail.\<close>

lemma parse_length:
  "(parse_value s = Some (v, r) \<longrightarrow> length r < length s) \<and> (parse_items s = Some (xs, r) \<longrightarrow> length r < length s)
    \<and> (parse_members s = Some (ms, r) \<longrightarrow> length r < length s)"
proof (induction "length s" arbitrary: s v xs ms r rule: less_induct)
  case less
  note items = less [THEN conjunct2, THEN conjunct1, rule_format] and members = less [THEN conjunct2, THEN conjunct2, rule_format]
  have v: "length r < length s" if p: "parse_value s = Some (v, r)" for v r
  proof (cases s)
    case (Cons c t)
    define w where "w = skip_ws t"
    have ws: "length w \<le> length t" "\<And>d r. w = d # r \<Longrightarrow> length r < length t"
      using skip_ws_length [of t] skip_ws_Cons [of t] by (auto simp: w_def)
    show ?thesis
    proof (cases "c \<in> {quote_char, CHR ''['', CHR ''{''}")
      case True
      have "length r < Suc (length t)" if "parse_items w = Some (xs, r)" for xs
        using items [OF _ that] Cons ws by simp
      moreover have "length r < Suc (length t)" if "parse_members w = Some (ms, r)" for ms
        using members [OF _ that] Cons ws by simp
      moreover have "length r < Suc (length t)" if "parse_string t = Some (x, r)" for x
        using parse_string_length [OF that] by simp
      moreover have "length r < Suc (length t)" if "w = d # r" for d
        using ws(2) [OF that] by simp
      ultimately show ?thesis
        using p True by (auto simp: parse_value.simps [of "c # t" for c] Cons simp flip: w_def split: list.splits if_splits)
    next
      case False
      then show ?thesis using p Cons parse_constant_length [of s v r] parse_number_length [of s v r]
        by (auto simp: parse_value.simps [of "c # t"] split: option.splits)
    qed
  qed (use p in \<open>simp add: parse_value.simps\<close>)
  have i: "length r < length s" if q: "parse_items s = Some (xs, r)" for xs r
  proof -
    obtain x r0 d r1 where x: "parse_value s = Some (x, r0)" "skip_ws r0 = d # r1"
      and "r = r1 \<or> (\<exists>ys. parse_items (skip_ws r1) = Some (ys, r))"
      using q by (auto simp: parse_items.simps [of s] split: option.splits prod.splits if_splits list.splits)
    moreover have "length r1 < length s" "length (skip_ws r1) < length s"
      using v [OF x(1)] skip_ws_Cons [OF x(2)] skip_ws_length [of r1] by linarith+
    ultimately show ?thesis using items by fastforce
  qed
  have m: "length r < length s" if q: "parse_members s = Some (ms, r)" for ms r
  proof -
    obtain c t k r1 d r2 x r3 e r4 where s: "s = c # t" "parse_string t = Some (k, r1)" "skip_ws r1 = d # r2"
      and x: "parse_value (skip_ws r2) = Some (x, r3)" "skip_ws r3 = e # r4" "\<not> length s \<le> length r3"
      and "r = r4 \<or> (\<exists>ys. parse_members (skip_ws r4) = Some (ys, r))"
      using q by (auto simp: parse_members.simps [of s] split: option.splits prod.splits if_splits list.splits)
    moreover have "length r4 < length s" "length (skip_ws r4) < length s"
      using x(3) skip_ws_Cons [OF x(2)] skip_ws_length [of r4] by linarith+
    ultimately show ?thesis using members by fastforce
  qed
  show ?case using v i m by blast
qed

section \<open>Writing\<close>

definition hex_char :: "nat \<Rightarrow> char" where
  "hex_char n = (if n < 10 then char_of (48 + n) else char_of (87 + n))"

definition dumps_char :: "char \<Rightarrow> string" where
  "dumps_char c =
     (if c = quote_char \<or> c = backslash then [backslash, c]
      else if c = CHR 0x0A then [backslash, CHR ''n''] else if c = CHR 0x0D then [backslash, CHR ''r'']
      else if c = CHR 0x09 then [backslash, CHR ''t''] else if c = CHR 0x0C then [backslash, CHR ''f'']
      else if c = CHR 0x08 then [backslash, CHR ''b'']
      else if of_char c < (32 :: nat)
        then [backslash, CHR ''u'', CHR ''0'', CHR ''0'', hex_char (of_char c div 16), hex_char (of_char c mod 16)]
      else [c])"

definition dumps_text :: "string \<Rightarrow> string" where
  "dumps_text s = quote_char # concat (map dumps_char s) @ [quote_char]"

text \<open>With \<open>ensure_ascii=True\<close>: the code points of a text, and the escapes of those beyond the printable ones of ASCII.\<close>

definition low_bits :: "char \<Rightarrow> nat" where
  "low_bits c = of_char c mod 64"

fun code_points :: "string \<Rightarrow> nat list" where
  "code_points [] = []"
| "code_points (a # s) =
     (let n = of_char a :: nat in
      if n < 0x80 then n # code_points s
      else if n < 0xE0 then (case s of b # r \<Rightarrow> (n mod 32 * 64 + low_bits b) # code_points r | _ \<Rightarrow> [n])
      else if n < 0xF0 then (case s of b # c # r \<Rightarrow> (n mod 16 * 4096 + low_bits b * 64 + low_bits c) # code_points r | _ \<Rightarrow> [n])
      else (case s of b # c # d # r \<Rightarrow> (n mod 8 * 262144 + low_bits b * 4096 + low_bits c * 64 + low_bits d) # code_points r | _ \<Rightarrow> [n]))"

definition unicode_escape :: "nat \<Rightarrow> string" where
  "unicode_escape n = [backslash, CHR ''u'', hex_char (n div 4096), hex_char (n div 256 mod 16), hex_char (n div 16 mod 16), hex_char (n mod 16)]"

definition ascii_point :: "nat \<Rightarrow> string" where
  "ascii_point n =
     (if n < 0x7F then dumps_char (char_of n)
      else if n < 0x10000 then unicode_escape n
      else unicode_escape (0xD800 + (n - 0x10000) div 1024) @ unicode_escape (0xDC00 + (n - 0x10000) mod 1024))"

definition ascii_quoted :: "string \<Rightarrow> string" where
  "ascii_quoted s = quote_char # concat (map ascii_point (code_points s)) @ [quote_char]"

fun joined :: "string \<Rightarrow> string list \<Rightarrow> string" where
  "joined sep [] = []"
| "joined sep [t] = t"
| "joined sep (t # u # us) = t @ sep @ joined sep (u # us)"

text \<open>The program writes no fractions, so the text of a \<open>float\<close> is left open.\<close>

fun json_write :: "(string \<Rightarrow> string) \<Rightarrow> string \<Rightarrow> string \<Rightarrow> json \<Rightarrow> string" where
  "json_write quoted comma colon JNull = ''null''"
| "json_write quoted comma colon (JBool b) = (if b then ''true'' else ''false'')"
| "json_write quoted comma colon (JNum r) = str_of_int \<lfloor>r\<rfloor>"
| "json_write quoted comma colon (JNonFinite c) = c"
| "json_write quoted comma colon (JStr s) = quoted s"
| "json_write quoted comma colon (JArr xs) = CHR ''['' # joined comma (map (json_write quoted comma colon) xs) @ '']''"
| "json_write quoted comma colon (JObj d) =
     CHR ''{'' # joined comma (map (\<lambda>(k, v). quoted k @ colon @ json_write quoted comma colon v) d) @ ''}''"

definition json_dumps :: "json \<Rightarrow> string" where
  "json_dumps = json_write dumps_text '','' '':''"

definition json_dumps_default :: "json \<Rightarrow> string" where
  "json_dumps_default = json_write ascii_quoted '', '' '': ''"

lemma json_dumps_simps [simp]:
  "json_dumps JNull = ''null''"
  "json_dumps (JBool b) = (if b then ''true'' else ''false'')"
  "json_dumps (JNum r) = str_of_int \<lfloor>r\<rfloor>"
  "json_dumps (JNonFinite c) = c"
  "json_dumps (JStr s) = dumps_text s"
  "json_dumps (JArr xs) = CHR ''['' # joined '','' (map json_dumps xs) @ '']''"
  "json_dumps (JObj d) = CHR ''{'' # joined '','' (map (\<lambda>(k, v). dumps_text k @ CHR '':'' # json_dumps v) d) @ ''}''"
  by (simp_all add: json_dumps_def)

text \<open>The documents without fractions, whose dictionaries have distinct keys.\<close>

fun writable :: "json \<Rightarrow> bool" where
  "writable (JNum r) = (of_int \<lfloor>r\<rfloor> = r)"
| "writable (JFloat r) = False"
| "writable (JNonFinite c) = False"
| "writable (JArr xs) = list_all writable xs"
| "writable (JObj d) = (wf_dict d \<and> list_all (\<lambda>(k, v). writable v) d)"
| "writable _ = True"

text \<open>The texts of a document, and those that are UTF-8 of code points other than surrogates.\<close>

fun texts_in :: "json \<Rightarrow> string set" where
  "texts_in (JStr s) = {s}"
| "texts_in (JArr xs) = \<Union> (set (map texts_in xs))"
| "texts_in (JObj d) = (\<Union>(k, v) \<in> set d. insert k (texts_in v))"
| "texts_in _ = {}"

definition utf8_text :: "string \<Rightarrow> bool" where
  "utf8_text s \<longleftrightarrow> concat (map utf8_char (code_points s)) = s
     \<and> list_all (\<lambda>n. n < 0x110000 \<and> \<not> is_high n \<and> \<not> is_low n) (code_points s)"

section \<open>What is written is read back\<close>

lemma hex_char_value_hex_char: "n < 16 \<Longrightarrow> hex_char_value (hex_char n) = Some n"
  by (simp add: hex_char_value_def hex_char_def)

lemma append_one: "(@) [c] = (#) c"
  by (rule ext) simp

lemma dumps_char_parse: "parse_string (dumps_char c @ s) = map_option (apfst ((#) c)) (parse_string s)"
proof (cases "of_char c < (32 :: nat) \<and> c \<notin> {CHR 0x0A, CHR 0x0D, CHR 0x09, CHR 0x0C, CHR 0x08}")
  case True
  have "of_char c < (32 :: nat)" using True by (rule conjunct1)
  then have "(of_char c :: nat) div 16 < 16" "(of_char c :: nat) mod 16 < 16" "(of_char c :: nat) < 0x80" by linarith+
  moreover have "c \<noteq> quote_char" "c \<noteq> backslash" using \<open>of_char c < (32 :: nat)\<close> by (intro notI; simp)+
  moreover have "hex_char_value (CHR ''0'') = Some 0" by (simp add: hex_char_value_def)
  ultimately show ?thesis using True
    by (simp add: dumps_char_def string_piece_def unicode_piece_def hex4_def hex_char_value_hex_char utf8_char_def is_high_def append_one)
next
  case False
  show ?thesis
  proof (cases "c \<in> {quote_char, backslash, CHR 0x0A, CHR 0x0D, CHR 0x09, CHR 0x0C, CHR 0x08}")
    case True
    then show ?thesis
      by (elim insertE) (simp_all add: dumps_char_def string_piece_def escape_char_def append_one)
  next
    case plain: False
    then have "\<not> of_char c < (32 :: nat)" "c \<noteq> quote_char" "c \<noteq> backslash" using False by auto
    moreover have "dumps_char c = [c]" using plain calculation(1) by (simp add: dumps_char_def)
    ultimately show ?thesis by (simp add: string_piece_def append_one)
  qed
qed

lemma dumps_text_parse: "parse_string (concat (map dumps_char s) @ quote_char # rest) = Some (s, rest)"
proof (induction s)
  case (Cons c s)
  then show ?case by (simp add: dumps_char_parse del: parse_string.simps)
qed simp

text \<open>What may follow a value inside a document.\<close>

definition after_value :: "string \<Rightarrow> bool" where
  "after_value s \<longleftrightarrow> (case s of [] \<Rightarrow> True | c # _ \<Rightarrow> c \<in> {CHR '','', CHR '']'', CHR ''}''})"

lemma after_value_simps [simp]:
  "after_value []" "after_value (CHR '','' # s)" "after_value (CHR '']'' # s)" "after_value (CHR ''}'' # s)"
  by (simp_all add: after_value_def)

lemma after_value_parts:
  assumes "after_value s"
  shows "takeWhile is_digit s = []" "fraction_part s = ([], s)" "exponent_part s = (None, s)"
  using assms by (auto simp: after_value_def fraction_part_def exponent_part_def is_digit_def split: list.splits)

lemma dec_digits_leading: "0 < n \<Longrightarrow> hd (dec_digits n) \<noteq> CHR ''0''"
proof (induction n rule: dec_digits.induct)
  case (1 n)
  show ?case
  proof (cases "n < 10")
    case True
    then have "of_char (digit_char n) \<noteq> (48 :: nat)" using "1.prems" by (simp add: of_char_digit_char)
    then show ?thesis using True by (auto simp: dec_digits.simps [of n])
  next
    case False
    moreover have "dec_digits (n div 10) \<noteq> []" by (simp add: dec_digits.simps [of "n div 10"])
    ultimately show ?thesis using 1 by (simp add: dec_digits.simps [of n])
  qed
qed

lemma dec_digits_Cons: "\<exists>c r. dec_digits n = c # r \<and> is_digit c \<and> (n = 0 \<longrightarrow> r = []) \<and> (c = CHR ''0'') = (n = 0)"
proof -
  have ne: "dec_digits n \<noteq> []" by (simp add: dec_digits.simps [of n])
  then obtain c r where d: "dec_digits n = c # r" by (cases "dec_digits n") auto
  moreover have "is_digit c" using dec_digits_digits [of c n] d by simp
  moreover have "dec_digits 0 = ''0''" by code_simp
  ultimately show ?thesis using dec_digits_leading [of n] by (cases "n = 0") auto
qed

lemma number_parse:
  assumes "after_value rest"
  shows "parse_value (str_of_int i @ rest) = Some (JNum (of_int i), rest)"
proof -
  let ?n = "nat \<bar>i\<bar>"
  obtain c r where d: "dec_digits ?n = c # r" and c: "is_digit c" "?n = 0 \<longrightarrow> r = []" "(c = CHR ''0'') = (?n = 0)"
    using dec_digits_Cons by blast
  have digits: "takeWhile is_digit (c # r @ rest) = c # r"
  proof -
    have "list_all is_digit (c # r)" using dec_digits_digits [of _ ?n] d by (auto simp: list_all_iff)
    then have "takeWhile is_digit ((c # r) @ rest) = (c # r) @ takeWhile is_digit rest"
      by (intro takeWhile_append2) (auto simp: list_all_iff)
    then show ?thesis using after_value_parts(1) [OF assms] by simp
  qed
  have val: "dec_val (c # r) = ?n" using dec_val_dec_digits [of ?n] d by simp
  have whole: "whole_digits (c # r @ rest) = c # r"
    using c digits by (auto simp: whole_digits_def)
  have shape: "str_of_int i = (if i < 0 then CHR ''-'' # c # r else c # r)"
    using d by (auto simp: str_of_int_def)
  have nc: "c \<notin> {quote_char, CHR ''['', CHR ''{'', CHR ''n'', CHR ''t'', CHR ''f'', CHR ''N'', CHR ''I'', CHR ''-''}"
    using c(1) by (auto simp: is_digit_def)
  have const: "parse_constant (str_of_int i @ rest) = None"
    using nc by (auto simp: shape parse_constant_def json_constants_def)
  have body: "number_body (str_of_int i @ rest) = c # r @ rest" using nc by (simp add: number_body_def shape)
  have num: "parse_number (str_of_int i @ rest) = Some (JNum (of_int i), rest)"
    using nc c after_value_parts [OF assms] val unfolding parse_number_def body Let_def whole
    by (auto simp: number_value_def shape)
  have "str_of_int i @ rest = (if i < 0 then CHR ''-'' else c) # (if i < 0 then c # r @ rest else r @ rest)"
    by (simp add: shape)
  then show ?thesis using const num nc by (cases "i < 0") (simp_all add: parse_value.simps)
qed

lemma hex4_hex_chars:
  assumes "n < 0x10000"
  shows "hex4 (hex_char (n div 4096)) (hex_char (n div 256 mod 16)) (hex_char (n div 16 mod 16)) (hex_char (n mod 16)) = Some n"
proof -
  have "4096 * (n div 4096) + 256 * (n div 256 mod 16) + 16 * (n div 16 mod 16) + n mod 16 = n"
  proof -
    have "n div 256 = n div 16 div 16" "n div 4096 = n div 256 div 16" by (simp_all add: div_mult2_eq [symmetric])
    then have "n = 16 * (n div 16) + n mod 16" "n div 16 = 16 * (n div 256) + n div 16 mod 16"
      "n div 256 = 16 * (n div 4096) + n div 256 mod 16" by (simp_all only: mult_div_mod_eq)
    then show ?thesis by linarith
  qed
  moreover have "n div 4096 < 16" using assms by simp
  ultimately show ?thesis by (simp add: hex4_def hex_char_value_hex_char)
qed

lemma unicode_escape_parse:
  assumes "n < 0x10000" "\<not> is_high n"
  shows "parse_string (unicode_escape n @ r) = map_option (apfst ((@) (utf8_char n))) (parse_string r)"
  using assms by (simp add: unicode_escape_def string_piece_def unicode_piece_def hex4_hex_chars)

lemma surrogates_parse:
  assumes "0x10000 \<le> n" "n < 0x110000"
  shows "parse_string (unicode_escape (0xD800 + (n - 0x10000) div 1024) @ unicode_escape (0xDC00 + (n - 0x10000) mod 1024) @ r)
    = map_option (apfst ((@) (utf8_char n))) (parse_string r)"
proof -
  define h where "h = 0xD800 + (n - 0x10000) div 1024"
  define l where "l = 0xDC00 + (n - 0x10000) mod 1024"
  have h: "h < 0x10000" "is_high h" using assms by (auto simp: h_def is_high_def)
  have l: "l < 0x10000" "is_low l" using mod_less_divisor [of 1024 "n - 0x10000"] by (auto simp: l_def is_low_def simp del: mod_less_divisor)
  have n: "0x10000 + (h - 0xD800) * 1024 + (l - 0xDC00) = n" using assms by (simp add: h_def l_def)
  have "low_after (unicode_escape l @ r) = Some (l, r)" using l by (simp add: low_after_def unicode_escape_def hex4_hex_chars)
  then have "unicode_piece (drop 2 (unicode_escape h) @ unicode_escape l @ r) = Some (utf8_char n, r)"
    using h n by (simp add: unicode_piece_def unicode_escape_def hex4_hex_chars)
  then show ?thesis unfolding h_def [symmetric] l_def [symmetric]
    by (simp add: unicode_escape_def [of h] string_piece_def)
qed

lemma ascii_point_parse:
  assumes "n < 0x110000" "\<not> is_high n" "\<not> is_low n"
  shows "parse_string (ascii_point n @ r) = map_option (apfst ((@) (utf8_char n))) (parse_string r)"
proof -
  consider "n < 0x7F" | "0x7F \<le> n" "n < 0x10000" | "0x10000 \<le> n" by linarith
  then show ?thesis
  proof cases
    case 1
    then show ?thesis by (simp add: ascii_point_def dumps_char_parse utf8_char_def append_one)
  next
    case 2
    then show ?thesis using assms unicode_escape_parse by (simp add: ascii_point_def)
  next
    case 3
    then show ?thesis using assms surrogates_parse by (simp add: ascii_point_def)
  qed
qed

lemma ascii_points_parse:
  assumes "list_all (\<lambda>n. n < 0x110000 \<and> \<not> is_high n \<and> \<not> is_low n) ns"
  shows "parse_string (concat (map ascii_point ns) @ quote_char # rest) = Some (concat (map utf8_char ns), rest)"
  using assms by (induction ns) (simp_all add: ascii_point_parse del: parse_string.simps, simp add: parse_string.simps)

lemma dict_of_fold: "distinct (map fst d @ map fst m) \<Longrightarrow> foldl (\<lambda>d (k, v). dset k v d) d m = d @ m"
proof (induction m arbitrary: d)
  case (Cons kv m)
  then show ?case by (cases kv) (simp add: dset_last dget_None_iff)
qed simp

lemma dict_of_same [simp]: "wf_dict d \<Longrightarrow> dict_of d = d"
  using dict_of_fold [of "[]" d] by (simp add: dict_of_def)

text \<open>A way of writing documents: how a text is quoted, and what stands between items and behind keys.\<close>

locale json_writer =
  fixes quoted :: "string \<Rightarrow> string" and comma :: string and colon :: string and readable :: "string \<Rightarrow> bool"
  assumes quoted_read: "readable s \<Longrightarrow> \<exists>t. quoted s = quote_char # t \<and> (\<forall>rest. parse_string (t @ rest) = Some (s, rest))"
    and comma_read: "\<exists>ws. comma = CHR '','' # ws \<and> skip_ws ws = []"
    and colon_read: "\<exists>ws. colon = CHR '':'' # ws \<and> skip_ws ws = []"
begin

abbreviation written :: "json \<Rightarrow> string" where
  "written \<equiv> json_write quoted comma colon"

abbreviation member_text :: "string \<times> json \<Rightarrow> string" where
  "member_text kv \<equiv> (case kv of (k, v) \<Rightarrow> quoted k @ colon @ written v)"

lemma skip_ws_append: "skip_ws ws = [] \<Longrightarrow> skip_ws (ws @ s) = skip_ws s"
  by (simp add: dropWhile_append)

lemma separators:
  "\<exists>ws. comma @ s = CHR '','' # ws \<and> skip_ws ws = skip_ws s"
  "\<exists>ws. colon @ s = CHR '':'' # ws \<and> skip_ws ws = skip_ws s"
  using comma_read colon_read skip_ws_append by auto

lemma quoted_value: "readable s \<Longrightarrow> parse_value (quoted s @ rest) = Some (JStr s, rest)"
  using quoted_read [of s] by (auto simp: parse_value.simps)

lemma write_start:
  assumes "writable j" "\<forall>s \<in> texts_in j. readable s"
  shows "\<exists>c r. written j = c # r \<and> \<not> json_space c \<and> c \<notin> {CHR '']'', CHR ''}''}"
proof (cases j)
  case (JNum x)
  obtain c r where "dec_digits (nat \<bar>\<lfloor>x\<rfloor>\<bar>) = c # r" "is_digit c" using dec_digits_Cons by blast
  moreover have "c \<notin> {CHR '']'', CHR ''}'', CHR '' '', CHR 0x09, CHR 0x0A, CHR 0x0D}"
    using calculation(2) by (auto simp: is_digit_def)
  ultimately show ?thesis using JNum by (auto simp: str_of_int_def json_space_def)
next
  case (JStr s)
  then show ?thesis using assms(2) quoted_read [of s] by (auto simp: json_space_def)
qed (use assms in \<open>auto simp: json_space_def\<close>)

lemma write_ws: "writable j \<Longrightarrow> \<forall>s \<in> texts_in j. readable s \<Longrightarrow> skip_ws (written j @ s) = written j @ s"
  using write_start [of j] by auto

lemma parse_items_last:
  "parse_value s = Some (v, r) \<Longrightarrow> length r < length s \<Longrightarrow> skip_ws r = CHR '']'' # r1 \<Longrightarrow> parse_items s = Some ([v], r1)"
  by (simp add: parse_items.simps [of s])

lemma parse_items_more:
  "parse_value s = Some (v, r) \<Longrightarrow> length r < length s \<Longrightarrow> skip_ws r = CHR '','' # r1 \<Longrightarrow>
     parse_items s = map_option (apfst ((#) v)) (parse_items (skip_ws r1))"
  by (simp add: parse_items.simps [of s])

lemma parse_members_one:
  assumes "readable k" and "parse_value (written v @ r) = Some (v, r)" and "skip_ws (written v @ r) = written v @ r"
  shows "parse_members (quoted k @ colon @ written v @ r) =
    (case skip_ws r of [] \<Rightarrow> None
     | e # r4 \<Rightarrow> if e = CHR ''}'' then Some ([(k, v)], r4)
         else if e = CHR '','' then map_option (apfst ((#) (k, v))) (parse_members (skip_ws r4)) else None)"
proof -
  obtain t where t: "quoted k = quote_char # t" "\<And>rest. parse_string (t @ rest) = Some (k, rest)"
    using quoted_read [OF assms(1)] by blast
  obtain ws where ws: "colon @ written v @ r = CHR '':'' # ws" "skip_ws ws = written v @ r" using separators(2) assms(3) by metis
  have "parse_string (t @ CHR '':'' # ws) = Some (k, CHR '':'' # ws)" by (rule t(2))
  moreover have "length ws \<ge> length r"
  proof -
    have "length (written v @ r) \<le> length ws" using skip_ws_length [of ws] ws(2) by simp
    then show ?thesis by simp
  qed
  ultimately show ?thesis
    using assms(2) ws by (simp add: parse_members.simps [of "quote_char # t @ CHR '':'' # ws"] t(1) json_space_def)
qed

lemma items_parse:
  assumes "\<And>x rest. x \<in> set xs \<Longrightarrow> after_value rest \<Longrightarrow> parse_value (written x @ rest) = Some (x, rest)"
    and "\<forall>x \<in> set xs. writable x \<and> (\<forall>s \<in> texts_in x. readable s)" and "xs \<noteq> []"
  shows "parse_items (joined comma (map written xs) @ CHR '']'' # rest) = Some (xs, rest)"
  using assms
proof (induction xs)
  case (Cons v vs)
  obtain c r where c: "written v = c # r" using write_start [of v] Cons.prems(2) by auto
  show ?case
  proof (cases vs)
    case Nil
    have "parse_value (written v @ CHR '']'' # rest) = Some (v, CHR '']'' # rest)" using Cons.prems(1) [of v] by simp
    then show ?thesis
      using parse_items_last [of "written v @ CHR '']'' # rest" v "CHR '']'' # rest" rest] c Nil by (simp add: json_space_def)
  next
    case (Cons u us)
    let ?rest = "joined comma (map written vs) @ CHR '']'' # rest"
    have rec: "parse_items ?rest = Some (vs, rest)" using Cons.IH Cons.prems Cons by simp
    have "\<exists>s. ?rest = written u @ s" using Cons by (cases us) auto
    then have ws: "skip_ws ?rest = ?rest" using write_ws [of u] Cons.prems(2) Cons by auto
    obtain w where w: "comma @ ?rest = CHR '','' # w" "skip_ws w = ?rest" using separators(1) [of ?rest] ws by metis
    have "parse_value (written v @ CHR '','' # w) = Some (v, CHR '','' # w)" using Cons.prems(1) [of v] by simp
    then have "parse_items (written v @ CHR '','' # w) = map_option (apfst ((#) v)) (parse_items ?rest)"
      using parse_items_more [of "written v @ CHR '','' # w" v "CHR '','' # w" w] c w(2) by (simp add: json_space_def)
    moreover have "joined comma (map written (v # vs)) @ CHR '']'' # rest = written v @ CHR '','' # w"
      unfolding w(1) [symmetric] using Cons by simp
    ultimately show ?thesis using rec by simp
  qed
qed simp

lemma members_parse:
  assumes "\<And>k v rest. (k, v) \<in> set d \<Longrightarrow> after_value rest \<Longrightarrow> parse_value (written v @ rest) = Some (v, rest)"
    and "\<forall>(k, v) \<in> set d. readable k \<and> writable v \<and> (\<forall>s \<in> texts_in v. readable s)" and "d \<noteq> []"
  shows "parse_members (joined comma (map member_text d) @ CHR ''}'' # rest) = Some (d, rest)"
  using assms
proof (induction d)
  case (Cons kv d)
  obtain k v where kv: "kv = (k, v)" by (cases kv)
  have k: "readable k" using Cons.prems(2) kv by simp
  have v: "parse_value (written v @ r) = Some (v, r)" if "after_value r" for r
    using Cons.prems(1) [of k v r] kv that by simp
  have w: "skip_ws (written v @ r) = written v @ r" for r using Cons.prems(2) kv write_ws by simp
  show ?case
  proof (cases d)
    case Nil
    then show ?thesis
      using parse_members_one [OF k v w, of "CHR ''}'' # rest"] kv by (simp add: json_space_def)
  next
    case (Cons m ms)
    let ?rest = "joined comma (map member_text d) @ CHR ''}'' # rest"
    have rec: "parse_members ?rest = Some (d, rest)"
    proof (rule Cons.IH)
      show "parse_value (written v @ rest) = Some (v, rest)" if "(k, v) \<in> set d" "after_value rest" for k v rest
        using Cons.prems(1) [of k v rest] that by simp
      show "\<forall>(k, v) \<in> set d. readable k \<and> writable v \<and> (\<forall>s \<in> texts_in v. readable s)" using Cons.prems(2) by simp
      show "d \<noteq> []" using Cons by simp
    qed
    obtain k' v' where m: "m = (k', v')" by (cases m)
    have "readable k'" using Cons.prems(2) Cons m by simp
    then obtain t where "quoted k' = quote_char # t" using quoted_read by blast
    then have "\<exists>r. ?rest = quote_char # r" using Cons m by (cases ms) auto
    then have ws: "skip_ws ?rest = ?rest" by (auto simp: json_space_def)
    obtain u where u: "comma @ ?rest = CHR '','' # u" "skip_ws u = ?rest" using separators(1) [of ?rest] ws by metis
    have "joined comma (map member_text (kv # d)) @ CHR ''}'' # rest = quoted k @ colon @ written v @ CHR '','' # u"
      unfolding u(1) [symmetric] by (simp add: kv Cons)
    moreover have "parse_members (quoted k @ colon @ written v @ CHR '','' # u) = map_option (apfst ((#) (k, v))) (parse_members ?rest)"
      using parse_members_one [OF k v w, of "CHR '','' # u"] u(2) by (simp add: json_space_def)
    ultimately show ?thesis using rec by (simp add: kv)
  qed
qed simp

lemma written_value:
  assumes "writable j" and "\<forall>s \<in> texts_in j. readable s" and "after_value rest"
  shows "parse_value (written j @ rest) = Some (j, rest)"
  using assms
proof (induction j arbitrary: rest)
  case (JNum r)
  then show ?case using number_parse [of rest "\<lfloor>r\<rfloor>"] by simp
next
  case (JStr s)
  then show ?case by (simp add: quoted_value)
next
  case (JArr xs)
  have xs: "parse_items (joined comma (map written xs) @ CHR '']'' # rest) = Some (xs, rest)" if "xs \<noteq> []"
    using JArr that by (intro items_parse) (auto simp: list_all_iff)
  show ?case
  proof (cases xs)
    case (Cons x ys)
    then have "writable x" "\<forall>s \<in> texts_in x. readable s" using JArr.prems(1,2) by simp_all
    then obtain c r where "written x = c # r" "\<not> json_space c" "c \<noteq> CHR '']''" using write_start by blast
    then have "\<exists>r'. joined comma (map written xs) @ CHR '']'' # rest = c # r'" "\<not> json_space c" "c \<noteq> CHR '']''"
      using Cons by (cases ys; simp)+
    then show ?thesis using xs Cons by (auto simp: parse_value.simps simp del: joined.simps)
  qed (simp add: parse_value.simps json_space_def)
next
  case (JObj d)
  have d: "parse_members (joined comma (map member_text d) @ CHR ''}'' # rest) = Some (d, rest)" if "d \<noteq> []"
    using JObj that by (intro members_parse) (auto simp: list_all_iff)
  show ?case
  proof (cases d)
    case (Cons m ms)
    obtain k v where m: "m = (k, v)" by (cases m)
    have "readable k" using JObj.prems(2) Cons m by auto
    then obtain t where "quoted k = quote_char # t" using quoted_read by blast
    then have "\<exists>r'. joined comma (map member_text d) @ CHR ''}'' # rest = quote_char # r'" using Cons m by (cases ms) auto
    then show ?thesis using d Cons JObj.prems(1) by (auto simp: parse_value.simps json_space_def simp del: joined.simps)
  qed (simp add: parse_value.simps json_space_def)
qed (simp_all add: parse_value.simps parse_constant_def json_constants_def)

lemma written_reads_back: "writable j \<Longrightarrow> \<forall>s \<in> texts_in j. readable s \<Longrightarrow> json_loads (written j) = Some j"
  using written_value [of j "[]"] write_ws [of j "[]"] by (simp add: json_loads_def)

end

interpretation compact: json_writer dumps_text "'',''" "'':''" "\<lambda>_. True"
proof
  show "\<exists>t. dumps_text s = quote_char # t \<and> (\<forall>rest. parse_string (t @ rest) = Some (s, rest))" for s
    by (rule exI [of _ "concat (map dumps_char s) @ [quote_char]"]) (simp add: dumps_text_def dumps_text_parse)
qed simp_all

interpretation spaced: json_writer ascii_quoted "'', ''" "'': ''" utf8_text
proof
  show "\<exists>t. ascii_quoted s = quote_char # t \<and> (\<forall>rest. parse_string (t @ rest) = Some (s, rest))" if "utf8_text s" for s
    using that by (intro exI [of _ "concat (map ascii_point (code_points s)) @ [quote_char]"])
      (simp add: ascii_quoted_def utf8_text_def ascii_points_parse)
qed (simp_all add: json_space_def)

lemma value_parse: "writable j \<Longrightarrow> after_value rest \<Longrightarrow> parse_value (json_dumps j @ rest) = Some (j, rest)"
  unfolding json_dumps_def by (rule compact.written_value) simp_all

lemma dumps_ws [simp]: "writable j \<Longrightarrow> skip_ws (json_dumps j @ s) = json_dumps j @ s"
  unfolding json_dumps_def by (rule compact.write_ws) simp_all

theorem json_round_trip: "writable j \<Longrightarrow> json_loads (json_dumps j) = Some j"
  unfolding json_dumps_def by (rule compact.written_reads_back) simp_all

theorem default_round_trip: "writable j \<Longrightarrow> \<forall>s \<in> texts_in j. utf8_text s \<Longrightarrow> json_loads (json_dumps_default j) = Some j"
  unfolding json_dumps_default_def by (rule spaced.written_reads_back)

section \<open>The text of a value\<close>

text \<open>\<open>str(value)\<close>; \<open>repr_text\<close> gives the texts of fractions, lists and dictionaries.\<close>

definition py_str :: "(json \<Rightarrow> string) \<Rightarrow> json \<Rightarrow> string" where
  "py_str repr_text j =
     (case j of JStr s \<Rightarrow> s | JNull \<Rightarrow> ''None'' | JBool b \<Rightarrow> if b then ''True'' else ''False''
      | JNum r \<Rightarrow> str_of_int \<lfloor>r\<rfloor>
      | JNonFinite c \<Rightarrow> if c = ''NaN'' then ''nan'' else if c = ''Infinity'' then ''inf'' else ''-inf''
      | _ \<Rightarrow> repr_text j)"

end
