(* ===== verification/Session_Material.thy ===== *)
theory Session_Material
  imports Transport Json_Text Calendar
begin

text \<open>
  What the accounts' sessions are made of, \<open>level2_service/app_sessions.py\<close>: the validation of captured
  9528 material, the session bundle with its checks, and its document in storage.
\<close>

section \<open>Roles\<close>

definition account_roles :: "string list" where
  "account_roles = [''core_metrics'', ''main_fund_flow'']"

text \<open>\<open>_validated_role\<close>; None is a \<open>ValueError\<close>.\<close>

definition validated_role :: "string \<Rightarrow> string option" where
  "validated_role role = (let normalized = strip role in if normalized \<in> set account_roles then Some normalized else None)"

section \<open>Captured material\<close>

text \<open>What a capture hands over: for each key the text \<open>str\<close> makes of the value, or None for None.\<close>

type_synonym captured = "(string, string option) dict"

definition core_session_material_keys :: "string list" where
  "core_session_material_keys = [''server_ip'', ''server_port'', ''auth_packet_hex'', ''base64_alphabet'']"

definition core_template_material_keys :: "string list" where
  "core_template_material_keys = [''template_symbol'', ''request_packets_hex'', ''macdfs_params'']"

definition normalized_material :: "captured \<Rightarrow> core_material" where
  "normalized_material captured =
     map (\<lambda>key. (key, case dget captured key of Some (Some s) \<Rightarrow> strip s | _ \<Rightarrow> []))
       (core_session_material_keys @ core_template_material_keys)"

definition material_field :: "core_material \<Rightarrow> string \<Rightarrow> string" where
  "material_field m key = (case dget m key of None \<Rightarrow> [] | Some s \<Rightarrow> s)"

text \<open>The MACD periods of a text, as they were read; None is \<open>DIRECT_PROTOCOL_HANDSHAKE_FAILED\<close>.\<close>

definition checked_periods :: "string \<Rightarrow> json list option" where
  "checked_periods raw =
     (case json_loads raw of
        Some (JArr values) \<Rightarrow> if length values = 3 \<and> list_all (\<lambda>v. period_of_json v \<noteq> None) values then Some values else None
      | _ \<Rightarrow> None)"

definition checked_packet :: "bytes \<Rightarrow> string \<Rightarrow> json \<Rightarrow> string option" where
  "checked_packet alphabet template_symbol raw_packet =
     (case raw_packet of
        JStr s \<Rightarrow>
          (let packet = strip s in
           case bytes_fromhex packet of None \<Rightarrow> None
           | Some packet_bytes \<Rightarrow>
               if packet = [] \<or> packet_bytes = [] then None
               else (case patch_core_packet_symbol alphabet packet_bytes template_symbol template_symbol of
                       Inl _ \<Rightarrow> None | Inr _ \<Rightarrow> Some packet))
      | _ \<Rightarrow> None)"

definition checked_packets :: "bytes \<Rightarrow> string \<Rightarrow> bytes \<Rightarrow> string \<Rightarrow> string list option" where
  "checked_packets alphabet template_symbol auth raw =
     (if \<not> validate_core_auth_packet auth then None
      else if length template_symbol \<noteq> 6 \<or> \<not> all_digits template_symbol then None
      else if market_code_for_symbol template_symbol = None then None
      else case json_loads raw of
        Some (JArr raw_packets) \<Rightarrow>
          if raw_packets = [] then None else all_some (map (checked_packet alphabet template_symbol) raw_packets)
      | _ \<Rightarrow> None)"

abbreviation session_unavailable :: string where
  "session_unavailable \<equiv> ''DIRECT_SESSION_UNAVAILABLE''"

abbreviation handshake_code :: string where
  "handshake_code \<equiv> ''DIRECT_PROTOCOL_HANDSHAKE_FAILED''"

text \<open>\<open>_validated_core_material\<close>: the code of its \<open>DirectRequestError\<close>, or the normalised material.\<close>

definition validated_core_material :: "captured \<Rightarrow> string + core_material" where
  "validated_core_material captured =
     (let n = normalized_material captured; f = material_field n in
      if list_ex (\<lambda>key. key \<noteq> ''base64_alphabet'' \<and> f key = []) core_session_material_keys then Inl session_unavailable
      else if f ''base64_alphabet'' = [] then Inl handshake_code
      else if list_ex (\<lambda>key. f key = []) core_template_material_keys then Inl handshake_code
      else case (int_of_text (f ''server_port''), bytes_fromhex (f ''auth_packet_hex'')) of
        (Some port, Some auth) \<Rightarrow>
          if \<not> (1 \<le> port \<and> port \<le> 65535) \<or> auth = [] then Inl session_unavailable
          else if length (f ''base64_alphabet'') \<noteq> 64 \<or> \<not> distinct (f ''base64_alphabet'') then Inl handshake_code
          else (case checked_periods (f ''macdfs_params'') of None \<Rightarrow> Inl handshake_code
            | Some parsed_params \<Rightarrow>
                (case checked_packets (ascii_bytes (f ''base64_alphabet'')) (f ''template_symbol'') auth
                        (f ''request_packets_hex'') of
                   None \<Rightarrow> Inl handshake_code
                 | Some packets \<Rightarrow>
                     Inr (dset ''request_packets_hex'' (json_dumps (JArr (map JStr packets)))
                       (dset ''macdfs_params'' (json_dumps (JArr parsed_params)) n))))
      | _ \<Rightarrow> Inl session_unavailable)"

section \<open>Aware times as texts\<close>

text \<open>A \<open>datetime\<close> by its parts; the offset is in minutes, None for a naive time.\<close>

record datetime =
  dt_year :: nat
  dt_month :: nat
  dt_day :: nat
  dt_hour :: nat
  dt_minute :: nat
  dt_second :: nat
  dt_micro :: nat
  dt_offset :: "int option"

definition valid_datetime :: "datetime \<Rightarrow> bool" where
  "valid_datetime d \<longleftrightarrow> 1 \<le> dt_year d \<and> dt_year d \<le> 9999 \<and> 1 \<le> dt_month d \<and> dt_month d \<le> 12 \<and> 1 \<le> dt_day d
     \<and> int (dt_day d) \<le> month_days (int (dt_year d)) (int (dt_month d)) \<and> dt_hour d < 24 \<and> dt_minute d < 60 \<and> dt_second d < 60
     \<and> dt_micro d < 1000000 \<and> (case dt_offset d of None \<Rightarrow> True | Some m \<Rightarrow> - 1440 < m \<and> m < 1440)"

definition padded :: "nat \<Rightarrow> nat \<Rightarrow> string" where
  "padded w n = zero_pad w (dec_digits n)"

definition offset_text :: "int option \<Rightarrow> string" where
  "offset_text offset =
     (case offset of None \<Rightarrow> []
      | Some m \<Rightarrow> (if m < 0 then CHR ''-'' else CHR ''+'') # padded 2 (nat \<bar>m\<bar> div 60) @ CHR '':'' # padded 2 (nat \<bar>m\<bar> mod 60))"

text \<open>\<open>isoformat\<close>, and \<open>fromisoformat\<close> on the texts \<open>isoformat\<close> writes and on a final \<open>Z\<close>; the other
  forms of ISO 8601 are not modelled.\<close>

definition datetime_text :: "datetime \<Rightarrow> string" where
  "datetime_text d =
     padded 4 (dt_year d) @ ''-'' @ padded 2 (dt_month d) @ ''-'' @ padded 2 (dt_day d) @ ''T''
     @ padded 2 (dt_hour d) @ '':'' @ padded 2 (dt_minute d) @ '':'' @ padded 2 (dt_second d)
     @ (if dt_micro d = 0 then [] else ''.'' @ padded 6 (dt_micro d)) @ offset_text (dt_offset d)"

text \<open>A fixed number of digits, and a fixed character, at the front of a text.\<close>

definition take_digits :: "nat \<Rightarrow> string \<Rightarrow> (nat \<times> string) option" where
  "take_digits n s =
     (if length (take n s) = n \<and> list_all is_digit (take n s) then Some (dec_val (take n s), drop n s) else None)"

definition take_char :: "char \<Rightarrow> string \<Rightarrow> string option" where
  "take_char c s = (case s of x # r \<Rightarrow> if x = c then Some r else None | [] \<Rightarrow> None)"

definition offset_of_text :: "string \<Rightarrow> int option option" where
  "offset_of_text s =
     (case s of [] \<Rightarrow> Some None
      | c # r \<Rightarrow>
          if c = CHR ''Z'' \<and> r = [] then Some (Some 0)
          else if c = CHR ''+'' \<or> c = CHR ''-'' then do {
            (h, r1) \<leftarrow> take_digits 2 r;
            r2 \<leftarrow> take_char CHR '':'' r1;
            (m, r3) \<leftarrow> take_digits 2 r2;
            if r3 = [] \<and> m < 60 then Some (Some ((if c = CHR ''-'' then - 1 else 1) * int (60 * h + m))) else None
          }
          else None)"

definition datetime_of_text :: "string \<Rightarrow> datetime option" where
  "datetime_of_text s = do {
     (y, s1) \<leftarrow> take_digits 4 s;
     s2 \<leftarrow> take_char CHR ''-'' s1;
     (mo, s3) \<leftarrow> take_digits 2 s2;
     s4 \<leftarrow> take_char CHR ''-'' s3;
     (d, s5) \<leftarrow> take_digits 2 s4;
     s6 \<leftarrow> take_char CHR ''T'' s5;
     (h, s7) \<leftarrow> take_digits 2 s6;
     s8 \<leftarrow> take_char CHR '':'' s7;
     (mi, s9) \<leftarrow> take_digits 2 s8;
     s10 \<leftarrow> take_char CHR '':'' s9;
     (sec, s11) \<leftarrow> take_digits 2 s10;
     (us, s12) \<leftarrow> (case take_char CHR ''.'' s11 of None \<Rightarrow> Some (0, s11) | Some r \<Rightarrow> take_digits 6 r);
     offset \<leftarrow> offset_of_text s12;
     let t = \<lparr>dt_year = y, dt_month = mo, dt_day = d, dt_hour = h, dt_minute = mi, dt_second = sec, dt_micro = us,
              dt_offset = offset\<rparr> in
     if valid_datetime t then Some t else None
   }"

section \<open>The session bundle\<close>

record account_session =
  session_role :: string
  session_cookie :: string
  session_user_agent :: string
  session_platform :: string
  session_updated_at :: datetime
  session_device_profile :: "(string, string) dict"
  session_core_material :: core_material

text \<open>\<open>__post_init__\<close>; None is its \<open>ValueError\<close>.\<close>

definition checked_session :: "account_session \<Rightarrow> account_session option" where
  "checked_session b =
     (if validated_role (session_role b) = None then None
      else if session_role b = ''main_fund_flow'' \<and> strip (session_cookie b) = [] then None
      else if session_role b = ''main_fund_flow'' \<and> strip (session_user_agent b) = [] then None
      else if dt_offset (session_updated_at b) = None then None
      else Some b)"

abbreviation texts_json :: "(string, string) dict \<Rightarrow> json" where
  "texts_json d \<equiv> JObj (map (\<lambda>(k, v). (k, JStr v)) d)"

definition as_storage :: "account_session \<Rightarrow> json" where
  "as_storage b = JObj [(''role'', JStr (session_role b)), (''cookie'', JStr (session_cookie b)),
     (''user_agent'', JStr (session_user_agent b)), (''platform'', JStr (session_platform b)),
     (''updated_at'', JStr (datetime_text (session_updated_at b))),
     (''device_profile'', texts_json (session_device_profile b)),
     (''core_material'', texts_json (session_core_material b))]"

text \<open>The items of \<open>dict(value)\<close>: those of a dictionary, or pairs with a key that can be hashed.\<close>

definition pair_of_json :: "json \<Rightarrow> (json \<times> json) option" where
  "pair_of_json j =
     (case jiter j of
        Some [k, v] \<Rightarrow> (case k of JArr _ \<Rightarrow> None | JObj _ \<Rightarrow> None | _ \<Rightarrow> Some (k, v))
      | _ \<Rightarrow> None)"

definition dict_items :: "json \<Rightarrow> (json \<times> json) list option" where
  "dict_items j =
     (case j of
        JObj d \<Rightarrow> Some (map (apfst JStr) d)
      | _ \<Rightarrow> map_option (foldl (\<lambda>d (k, v). dset k v d) []) (Option.bind (jiter j) (\<lambda>xs. all_some (map pair_of_json xs))))"

definition text_dict :: "(json \<Rightarrow> string) \<Rightarrow> json \<Rightarrow> (string, string) dict option" where
  "text_dict repr_text j =
     map_option (foldl (\<lambda>d (k, v). dset (py_str repr_text k) (py_str repr_text v) d) []) (dict_items j)"

text \<open>\<open>_from_storage\<close>; None is a \<open>KeyError\<close>, \<open>TypeError\<close> or \<open>ValueError\<close>.\<close>

definition from_storage :: "(json \<Rightarrow> string) \<Rightarrow> json \<Rightarrow> account_session option" where
  "from_storage repr_text payload = do {
     role \<leftarrow> jget payload ''role'';
     cookie \<leftarrow> jget payload ''cookie'';
     user_agent \<leftarrow> jget payload ''user_agent'';
     platform \<leftarrow> jget payload ''platform'';
     updated \<leftarrow> jget payload ''updated_at'';
     updated_at \<leftarrow> datetime_of_text (py_str repr_text updated);
     device_profile \<leftarrow> text_dict repr_text (jget_or payload ''device_profile'' (JObj []));
     core \<leftarrow> text_dict repr_text (jget_or payload ''core_material'' (JObj []));
     checked_session \<lparr>session_role = py_str repr_text role, session_cookie = py_str repr_text cookie,
       session_user_agent = py_str repr_text user_agent, session_platform = py_str repr_text platform,
       session_updated_at = updated_at, session_device_profile = device_profile, session_core_material = core\<rparr>
   }"

section \<open>Texts read back\<close>

lemma strip_strip [simp]: "strip (strip s) = strip s"
proof -
  have d: "dropWhile is_space (dropWhile is_space xs) = dropWhile is_space xs" for xs by (induction xs) auto
  have keep: "dropWhile is_space (rev (dropWhile is_space (rev ys))) = rev (dropWhile is_space (rev ys))"
    if "dropWhile is_space ys = ys" for ys
  proof (cases ys)
    case (Cons c cs)
    then have c: "\<not> is_space c" using that by (metis dropWhile_eq_self_iff list.discI list.sel(1))
    have "rev (dropWhile is_space (rev ys)) = c # rev (dropWhile is_space (rev cs))"
      using c by (simp add: Cons dropWhile_append)
    then show ?thesis using c by simp
  qed simp
  show ?thesis by (simp add: strip_def keep [OF d] d)
qed

lemma take_digits_padded:
  assumes "n < 10 ^ w" and "0 < w"
  shows "take_digits w (padded w n @ s) = Some (n, s)"
proof -
  have "length (padded w n) = w" using assms dec_digits_length [of n w] by (simp add: padded_def length_zero_pad)
  moreover have "list_all is_digit (padded w n)" by (simp add: padded_def)
  moreover have "dec_val (padded w n) = n" by (simp add: padded_def)
  ultimately show ?thesis by (simp add: take_digits_def)
qed

lemma take_char_Cons [simp]: "take_char c (c # s) = Some s"
  by (simp add: take_char_def)

lemma offset_round:
  assumes "case offset of None \<Rightarrow> True | Some m \<Rightarrow> - 1440 < m \<and> m < 1440"
  shows "offset_of_text (offset_text offset) = Some offset" "take_char CHR ''.'' (offset_text offset) = None"
proof -
  show "offset_of_text (offset_text offset) = Some offset"
  proof (cases offset)
    case (Some m)
    let ?n = "nat \<bar>m\<bar>"
    have "?n div 60 < 10 ^ 2" "?n mod 60 < 10 ^ 2" using Some assms by auto
    then have "take_digits 2 (padded 2 (?n div 60) @ s) = Some (?n div 60, s)"
      "take_digits 2 (padded 2 (?n mod 60) @ s) = Some (?n mod 60, s)" for s
      by (simp_all only: take_digits_padded zero_less_numeral)
    from this(1) this(2) this(2) [of "[]"] show ?thesis
      by (auto simp: Some offset_text_def offset_of_text_def simp flip: of_nat_mult)
  qed (simp add: offset_text_def offset_of_text_def)
  show "take_char CHR ''.'' (offset_text offset) = None"
    by (auto simp: offset_text_def take_char_def split: option.splits)
qed

lemma datetime_round:
  assumes "valid_datetime d"
  shows "datetime_of_text (datetime_text d) = Some d"
proof -
  have "int (dt_day d) \<le> 31" using assms by (auto simp: valid_datetime_def month_days_def split: if_splits)
  then have b: "dt_year d < 10 ^ 4" "dt_month d < 10 ^ 2" "dt_day d < 10 ^ 2" "dt_hour d < 10 ^ 2" "dt_minute d < 10 ^ 2"
    "dt_second d < 10 ^ 2" "dt_micro d < 10 ^ 6"
    using assms by (auto simp: valid_datetime_def)
  note td = b [THEN take_digits_padded, OF zero_less_numeral]
  have o: "offset_of_text (offset_text (dt_offset d)) = Some (dt_offset d)" "take_char CHR ''.'' (offset_text (dt_offset d)) = None"
    using assms by (auto intro!: offset_round simp: valid_datetime_def)
  show ?thesis
    unfolding datetime_text_def datetime_of_text_def
    by (simp only: td append_assoc append_Cons append_Nil take_char_Cons Option.bind.bind_lunit prod.case,
        cases "dt_micro d = 0") (use assms o td(7) in \<open>cases d; simp\<close>)+
qed

lemma foldl_texts:
  "distinct (map fst d @ map fst m) \<Longrightarrow>
     foldl (\<lambda>d (k, v). dset (py_str repr_text k) (py_str repr_text v) d) d (map (apfst JStr) (map (\<lambda>(k, v). (k, JStr v)) m)) = d @ m"
proof (induction m arbitrary: d)
  case (Cons kv m)
  then show ?case by (cases kv) (simp add: dset_last dget_None_iff py_str_def)
qed simp

lemma text_dict_round: "wf_dict d \<Longrightarrow> text_dict repr_text (texts_json d) = Some d"
  using foldl_texts [of "[]" d repr_text] by (simp add: text_dict_def dict_items_def)

lemma as_storage_writable:
  "wf_dict (session_device_profile b) \<Longrightarrow> wf_dict (session_core_material b) \<Longrightarrow> writable (as_storage b)"
  by (simp add: as_storage_def list_all_iff comp_def case_prod_beta')

lemma storage_round:
  assumes "checked_session b = Some b" and "valid_datetime (session_updated_at b)"
    and "wf_dict (session_device_profile b)" and "wf_dict (session_core_material b)"
  shows "from_storage repr_text (as_storage b) = Some b"
  using assms datetime_round text_dict_round
  by (cases b) (simp add: from_storage_def as_storage_def jget_or_def py_str_def [of repr_text "JStr _"])

end
