(* ===== verification/Session_Store.thy ===== *)
theory Session_Store
  imports Session_Material
begin

text \<open>
  \<open>level2_service/app_sessions.py\<close>: the encrypted store of account sessions
  (\<open>EncryptedFileSessionProvider\<close>), the refreshers that turn a capture into a session, and what the two
  captures make of the messages of the phone's process. A file of the store is its ciphertext;
  Fernet is given by \<open>encrypt\<close>, from a text to a token, and \<open>decrypt\<close>, which is None for an invalid token
  or bytes that are not UTF-8. A file system that fails is not modelled.
\<close>

section \<open>The store\<close>

record session_store =
  session_files :: "(string, bytes) dict"
  session_errors :: "(string, string) dict"

definition with_material :: "account_session \<Rightarrow> core_material \<Rightarrow> account_session" where
  "with_material b m = b\<lparr>session_core_material := m\<rparr>"

abbreviation bundle_capture :: "account_session \<Rightarrow> captured" where
  "bundle_capture b \<equiv> map (\<lambda>(k, v). (k, Some v)) (session_core_material b)"

abbreviation set_session_error :: "string \<Rightarrow> string \<Rightarrow> session_store \<Rightarrow> session_store" where
  "set_session_error role code s \<equiv> s\<lparr>session_errors := dset role code (session_errors s)\<rparr>"

text \<open>\<open>get\<close>; the outer None is the \<open>ValueError\<close> of an unknown role.\<close>

definition get_session ::
  "(bytes \<Rightarrow> string option) \<Rightarrow> (json \<Rightarrow> string) \<Rightarrow> string \<Rightarrow> session_store \<Rightarrow> account_session option option \<times> session_store" where
  "get_session decrypt repr_text role s =
     (case validated_role role of None \<Rightarrow> (None, s)
      | Some r \<Rightarrow>
          (case dget (session_files s) r of None \<Rightarrow> (Some None, s)
           | Some ciphertext \<Rightarrow>
               (case Option.bind (Option.bind (decrypt ciphertext) json_loads) (from_storage repr_text) of
                  None \<Rightarrow> (Some None, set_session_error role session_unavailable s)
                | Some b \<Rightarrow>
                    if session_role b \<noteq> role then (Some None, set_session_error role session_unavailable s)
                    else if role = ''core_metrics'' then
                      (case validated_core_material (bundle_capture b) of
                         Inl e \<Rightarrow> (Some None, set_session_error role (sanitized_direct_error_code e session_unavailable) s)
                       | Inr m \<Rightarrow> (Some (Some (with_material b m)), s))
                    else (Some (Some b), s))))"

text \<open>\<open>put\<close>: Inl is the error that leaves the store as it was.\<close>

definition put_session :: "(string \<Rightarrow> bytes) \<Rightarrow> account_session \<Rightarrow> session_store \<Rightarrow> (wire_error + unit) \<times> session_store" where
  "put_session encrypt b s =
     (case (if session_role b = ''core_metrics'' then map_sum id (with_material b) (validated_core_material (bundle_capture b))
            else Inr b) of
        Inl e \<Rightarrow> (Inl (DirectRequestError e), s)
      | Inr b' \<Rightarrow>
          (case validated_role (session_role b') of None \<Rightarrow> (Inl WireValueError, s)
           | Some r \<Rightarrow>
               (Inr (), \<lparr>session_files = dset r (encrypt (json_dumps (as_storage b'))) (session_files s),
                        session_errors = dpop (session_role b') (session_errors s)\<rparr>)))"

datatype session_state = SESSION_ERROR | SESSION_MISSING | SESSION_READY

record session_status =
  status_role :: string
  status_state :: session_state
  status_updated_at :: "datetime option"
  status_error :: "string option"

definition session_status_of ::
  "(bytes \<Rightarrow> string option) \<Rightarrow> (json \<Rightarrow> string) \<Rightarrow> string \<Rightarrow> session_store \<Rightarrow> session_status option \<times> session_store" where
  "session_status_of decrypt repr_text role s =
     (case validated_role role of None \<Rightarrow> (None, s)
      | Some r \<Rightarrow>
          (case get_session decrypt repr_text r s of
             (bundle, s') \<Rightarrow>
               let b = Option.bind bundle id; e = dget (session_errors s') r in
               (Some \<lparr>status_role = r,
                      status_state = (if e \<noteq> None then SESSION_ERROR else if b = None then SESSION_MISSING else SESSION_READY),
                      status_updated_at = map_option session_updated_at b, status_error = e\<rparr>, s')))"

definition mark_session_error :: "string \<Rightarrow> string \<Rightarrow> session_store \<Rightarrow> bool \<times> session_store" where
  "mark_session_error role code s =
     (case validated_role role of None \<Rightarrow> (False, s) | Some r \<Rightarrow> (True, set_session_error r code s))"

fun session_state_value :: "session_state \<Rightarrow> string" where
  "session_state_value SESSION_ERROR = ''ERROR''"
| "session_state_value SESSION_MISSING = ''MISSING''"
| "session_state_value SESSION_READY = ''READY''"

definition status_public :: "session_status \<Rightarrow> json" where
  "status_public st = JObj [(''role'', JStr (status_role st)), (''state'', JStr (session_state_value (status_state st))),
     (''updated_at'', jstr_opt (map_option datetime_text (status_updated_at st))),
     (''error_code'', jstr_opt (status_error st))]"

section \<open>Refreshers\<close>

text \<open>\<open>str(captured.get(key, default)).strip()\<close>: a value None becomes the text \<open>None\<close>.\<close>

definition captured_text :: "captured \<Rightarrow> string \<Rightarrow> string \<Rightarrow> string" where
  "captured_text captured key default_text =
     strip (case dget captured key of None \<Rightarrow> default_text | Some None \<Rightarrow> ''None'' | Some (Some v) \<Rightarrow> v)"

definition captured_platform :: "captured \<Rightarrow> string" where
  "captured_platform captured =
     (let p = captured_text captured ''platform'' ''android'' in if p = [] then ''android'' else p)"

text \<open>How calling a capture ends: \<open>Inl WireValueError\<close> is any exception that is no
  \<open>DirectRequestError\<close>.\<close>

definition capture_failure :: "wire_error \<Rightarrow> string \<Rightarrow> wire_error" where
  "capture_failure e fallback =
     DirectRequestError (case e of DirectRequestError code \<Rightarrow> sanitized_direct_error_code code fallback | WireValueError \<Rightarrow> fallback)"

definition make_session :: "account_session \<Rightarrow> wire_error + account_session" where
  "make_session b = (case checked_session b of None \<Rightarrow> Inl WireValueError | Some b' \<Rightarrow> Inr b')"

definition refresh_fund_session :: "wire_error + captured \<Rightarrow> datetime \<Rightarrow> string \<Rightarrow> wire_error + account_session" where
  "refresh_fund_session capture now role =
     (if role \<noteq> ''main_fund_flow'' then Inl WireValueError
      else case capture of
        Inl e \<Rightarrow> Inl (capture_failure e session_unavailable)
      | Inr captured \<Rightarrow>
          (let cookie = captured_text captured ''cookie'' []; user_agent = captured_text captured ''user_agent'' [] in
           if cookie = [] \<or> user_agent = [] then Inl (DirectRequestError session_unavailable)
           else make_session \<lparr>session_role = role, session_cookie = cookie, session_user_agent = user_agent,
             session_platform = captured_platform captured, session_updated_at = now, session_device_profile = [],
             session_core_material = []\<rparr>))"

definition refresh_core_session :: "wire_error + captured \<Rightarrow> datetime \<Rightarrow> string \<Rightarrow> wire_error + account_session" where
  "refresh_core_session capture now role =
     (if role \<noteq> ''core_metrics'' then Inl WireValueError
      else case capture of
        Inl e \<Rightarrow> Inl (capture_failure e session_unavailable)
      | Inr captured \<Rightarrow>
          (case validated_core_material captured of
             Inl e \<Rightarrow> Inl (DirectRequestError e)
           | Inr m \<Rightarrow>
               make_session \<lparr>session_role = role, session_cookie = captured_text captured ''cookie'' [],
                 session_user_agent = captured_text captured ''user_agent'' [],
                 session_platform = captured_platform captured, session_updated_at = now, session_device_profile = [],
                 session_core_material = m\<rparr>))"

section \<open>Captures\<close>

text \<open>A message of the script: its type and, when the payload is a mapping, the payload.\<close>

type_synonym script_message = "string \<times> captured option"

definition on_message :: "captured \<Rightarrow> script_message \<Rightarrow> captured" where
  "on_message captured message =
     (if fst message \<noteq> ''send'' \<or> captured \<noteq> [] then captured
      else case snd message of None \<Rightarrow> captured
        | Some payload \<Rightarrow>
            (let cookie = captured_text payload ''cookie'' []; user_agent = captured_text payload ''user_agent'' [] in
             if cookie = [] \<or> user_agent = [] then captured
             else [(''cookie'', Some cookie), (''user_agent'', Some user_agent),
                   (''platform'', Some (captured_platform payload))]))"

text \<open>\<open>capture_fund_http_session\<close>: whether the process runs, how the triggering read ended, and the
  messages that came before the time ran out.\<close>

definition capture_fund_http_session :: "bool \<Rightarrow> wire_error option \<Rightarrow> script_message list \<Rightarrow> wire_error + captured" where
  "capture_fund_http_session running trigger_error messages =
     (if \<not> running then Inl (DirectRequestError session_unavailable)
      else
        let captured = foldl on_message [] messages in
        if captured = [] then
          Inl (case trigger_error of None \<Rightarrow> DirectRequestError session_unavailable
               | Some e \<Rightarrow> capture_failure e session_unavailable)
        else Inr captured)"

text \<open>\<open>capture_core_session_material\<close>: the results of the calls into the script in their order. A call
  ends in a value or in an exception; the result of \<open>capture\<close> may be no mapping.\<close>

record core_capture =
  capture_result :: "wire_error + captured option"
  arm_result :: "wire_error + bool"
  runtime_result :: "wire_error + unit"
  packets_result :: "wire_error + json"
  periods_result :: "wire_error + string option"

definition core_capture_items :: "core_capture \<Rightarrow> string \<Rightarrow> wire_error + captured" where
  "core_capture_items c template_symbol =
     (case arm_result c of Inl e \<Rightarrow> Inl e
      | Inr armed \<Rightarrow>
          if \<not> armed then Inl (DirectRequestError handshake_code)
          else if market_code_for_symbol template_symbol = None then Inl WireValueError
          else case runtime_result c of Inl e \<Rightarrow> Inl e
            | Inr _ \<Rightarrow>
                (case packets_result c of Inl e \<Rightarrow> Inl e
                 | Inr packets \<Rightarrow>
                     (case periods_result c of
                        Inr (Some (p # ps)) \<Rightarrow>
                          Inr [(''template_symbol'', Some template_symbol),
                               (''request_packets_hex'', Some (json_dumps packets)), (''macdfs_params'', Some (p # ps))]
                      | _ \<Rightarrow> Inl (DirectRequestError handshake_code))))"

definition capture_core_session_material :: "bool \<Rightarrow> core_capture \<Rightarrow> string \<Rightarrow> wire_error + core_material" where
  "capture_core_session_material running c template_symbol =
     (if \<not> running then Inl (DirectRequestError session_unavailable)
      else case capture_result c of
        Inl e \<Rightarrow> Inl (capture_failure e session_unavailable)
      | Inr None \<Rightarrow> Inl (DirectRequestError session_unavailable)
      | Inr (Some captured) \<Rightarrow>
          (case core_capture_items c template_symbol of
             Inl e \<Rightarrow> Inl (capture_failure e handshake_code)
           | Inr items \<Rightarrow>
               map_sum DirectRequestError id (validated_core_material (foldl (\<lambda>d (k, v). dset k v d) captured items))))"

end
