(* ===== verification/Session_Facts.thy ===== *)
theory Session_Facts
  imports Session_Store Demo_Session
begin

text \<open>
  What the validation of captured material gives: the texts it keeps are read back as they were
  checked, validating again changes nothing, and the client can prepare every request from them.
\<close>

section \<open>Patching with another symbol\<close>

lemma is_prefix_take: "is_prefix xs ys \<Longrightarrow> take (length xs) ys = xs"
  by (induction xs ys rule: is_prefix.induct) simp_all

lemma replace_nonempty_same: "replace_nonempty old old xs = xs"
proof (induction "length xs" arbitrary: xs rule: less_induct)
  case less
  show ?case
  proof (cases xs)
    case (Cons x ys)
    show ?thesis
    proof (cases "old \<noteq> [] \<and> is_prefix old (x # ys)")
      case True
      then have "length (drop (length old) (x # ys)) < length xs" using Cons by (cases old) auto
      then have "replace_nonempty old old (x # ys) = old @ drop (length old) (x # ys)" using True less by simp
      then show ?thesis using is_prefix_take [of old "x # ys"] True Cons by (metis append_take_drop_id)
    next
      case False
      then show ?thesis using less [of ys] Cons by auto
    qed
  qed simp
qed

lemma bytes_replace_same: "bytes_replace old old xs = xs"
  by (auto simp: bytes_replace_def replace_nonempty_same intro: concat_map_singleton)

lemma replace_each_same:
  assumes "\<forall>(old, new) \<in> set rs. old = new"
  shows "replace_each rs c xs = (c \<or> list_ex (\<lambda>(old, _). contains old xs) rs, xs)"
  using assms by (induction rs c xs rule: replace_each.induct) (auto simp: bytes_replace_same)

lemma replace_each_changed: "fst (replace_each rs True xs)"
  by (induction rs "True" xs rule: replace_each.induct) auto

lemma replace_each_found: "list_ex (\<lambda>(old, _). contains old xs) rs \<Longrightarrow> fst (replace_each rs c xs)"
  by (induction rs c xs rule: replace_each.induct) (auto simp: replace_each_changed)

lemma patch_other_symbol:
  assumes "patch_core_packet_symbol A packet old old = Inr p" and "ascii_text old" "ascii_text new" and "length old = length new"
  shows "\<exists>p'. patch_core_packet_symbol A packet old new = Inr p'"
proof -
  obtain decoded patched where d: "decode_core_base64 A (drop (body_start packet) packet) = Inr decoded"
    and r: "replace_each (symbol_replacements old old) False decoded = (True, patched)"
    and v: "valid_outer_packet packet" "15 \<le> body_start packet" "body_start packet < length packet"
    using patch_result [OF assms(1)] by blast
  have A: "valid_alphabet A" using d by (auto simp: decode_core_base64_def split: if_splits)
  have "list_ex (\<lambda>(o', _). contains o' decoded) (symbol_replacements old old)"
    using r by (subst (asm) replace_each_same) (auto simp: symbol_replacements_def Let_def)
  then have "list_ex (\<lambda>(o', _). contains o' decoded) (symbol_replacements old new)"
    by (simp add: symbol_replacements_def Let_def)
  from replace_each_found [OF this] show ?thesis
    using patch_succeeds [OF v A d assms(2-4)] by blast
qed

lemma digits_ascii: "list_all is_digit s \<Longrightarrow> ascii_text s"
  by (auto simp: ascii_text_def is_digit_def list_all_iff)

section \<open>Validated material\<close>

definition material_keys :: "string list" where
  "material_keys = core_session_material_keys @ core_template_material_keys"

lemma all_some_length: "all_some xs = Some vs \<Longrightarrow> length vs = length xs"
  by (induction xs arbitrary: vs) (auto split: option.splits)

lemma strip_brackets: "strip (CHR ''['' # s @ '']'') = CHR ''['' # s @ '']''"
  by (simp add: strip_def is_space_def)

lemma strip_dumps_array: "strip (json_dumps (JArr xs)) = json_dumps (JArr xs)"
  by (simp add: strip_brackets)

lemma period_integral: "period_of_json v \<noteq> None \<Longrightarrow> writable v"
  by (cases v) (auto simp: period_of_json_def split: if_splits)

lemma checked_packet_text:
  "checked_packet A t j = Some p \<Longrightarrow> checked_packet A t (JStr p) = Some p"
  by (auto simp: checked_packet_def Let_def split: json.splits option.splits if_splits sum.splits)

lemma checked_packet_same: "checked_packet A t j = Some p \<Longrightarrow> checked_packet A t (JStr p) = Some p"
  by (auto simp: checked_packet_def Let_def split: json.splits option.splits if_splits sum.splits)

text \<open>The material the validation hands on, with what it has read in it.\<close>

definition sound_material :: "core_material \<Rightarrow> int \<Rightarrow> bytes \<Rightarrow> json list \<Rightarrow> string list \<Rightarrow> bool" where
  "sound_material m port auth params packets \<longleftrightarrow>
     (let f = material_field m in
      m = map (\<lambda>k. (k, f k)) material_keys \<and> (\<forall>k \<in> set material_keys. f k \<noteq> [] \<and> strip (f k) = f k)
      \<and> int_of_text (f ''server_port'') = Some port \<and> 1 \<le> port \<and> port \<le> 65535
      \<and> bytes_fromhex (f ''auth_packet_hex'') = Some auth \<and> auth \<noteq> [] \<and> validate_core_auth_packet auth
      \<and> length (f ''base64_alphabet'') = 64 \<and> distinct (f ''base64_alphabet'')
      \<and> f ''macdfs_params'' = json_dumps (JArr params) \<and> length params = 3 \<and> list_all (\<lambda>v. period_of_json v \<noteq> None) params
      \<and> f ''request_packets_hex'' = json_dumps (JArr (map JStr packets)) \<and> packets \<noteq> []
      \<and> length (f ''template_symbol'') = 6 \<and> all_digits (f ''template_symbol'')
      \<and> market_code_for_symbol (f ''template_symbol'') \<noteq> None
      \<and> list_all (\<lambda>p. checked_packet (ascii_bytes (f ''base64_alphabet'')) (f ''template_symbol'') (JStr p) = Some p) packets)"

lemma all_some_checked:
  "all_some (map (checked_packet A t) raws) = Some packets \<Longrightarrow> list_all (\<lambda>p. checked_packet A t (JStr p) = Some p) packets"
  using all_some_set [of "map (checked_packet A t) raws" packets] by (auto simp: list_all_iff intro: checked_packet_same)

lemma dset_map_keys:
  "k \<in> set ks \<Longrightarrow> distinct ks \<Longrightarrow> dset k v (map (\<lambda>k. (k, g k)) ks) = map (\<lambda>x. (x, if x = k then v else g x)) ks"
  by (induction ks) auto

lemma strip_Nil: "strip [] = []"
  by (simp add: strip_def)

lemma material_keys_distinct: "distinct material_keys"
  by (simp add: material_keys_def core_session_material_keys_def core_template_material_keys_def)

lemma material_key_members:
  "''server_ip'' \<in> set material_keys" "''server_port'' \<in> set material_keys" "''auth_packet_hex'' \<in> set material_keys"
  "''base64_alphabet'' \<in> set material_keys" "''template_symbol'' \<in> set material_keys"
  "''request_packets_hex'' \<in> set material_keys" "''macdfs_params'' \<in> set material_keys"
  by (simp_all add: material_keys_def core_session_material_keys_def core_template_material_keys_def)

lemma material_field_map: "k \<in> set ks \<Longrightarrow> material_field (map (\<lambda>k. (k, g k)) ks) k = g k"
  by (induction ks) (auto simp: material_field_def)

lemma normalized_fields:
  "normalized_material captured = map (\<lambda>k. (k, material_field (normalized_material captured) k)) material_keys"
  "k \<in> set material_keys \<Longrightarrow> strip (material_field (normalized_material captured) k) = material_field (normalized_material captured) k"
proof -
  let ?g = "\<lambda>k. case dget captured k of Some (Some s) \<Rightarrow> strip s | _ \<Rightarrow> []"
  have n: "normalized_material captured = map (\<lambda>k. (k, ?g k)) material_keys"
    by (simp add: normalized_material_def material_keys_def)
  have f: "material_field (normalized_material captured) k = ?g k" if "k \<in> set material_keys" for k
    unfolding n using that by (rule material_field_map)
  show "normalized_material captured = map (\<lambda>k. (k, material_field (normalized_material captured) k)) material_keys"
    using f n by (metis (mono_tags, lifting) map_eq_conv)
  show "strip (material_field (normalized_material captured) k) = material_field (normalized_material captured) k"
    if "k \<in> set material_keys"
    using f [OF that] strip_Nil by (auto split: option.splits)
qed

lemma validated_sound:
  assumes "validated_core_material captured = Inr m"
  shows "\<exists>port auth params packets. sound_material m port auth params packets"
proof -
  let ?n = "normalized_material captured" and ?f = "material_field (normalized_material captured)"
  obtain port auth params packets where
    filled: "\<forall>k \<in> set material_keys. ?f k \<noteq> []"
    and basic: "int_of_text (?f ''server_port'') = Some port" "1 \<le> port" "port \<le> 65535"
      "bytes_fromhex (?f ''auth_packet_hex'') = Some auth" "auth \<noteq> []"
      "length (?f ''base64_alphabet'') = 64" "distinct (?f ''base64_alphabet'')"
    and params: "checked_periods (?f ''macdfs_params'') = Some params"
    and packets: "checked_packets (ascii_bytes (?f ''base64_alphabet'')) (?f ''template_symbol'') auth (?f ''request_packets_hex'') = Some packets"
    and m: "m = dset ''request_packets_hex'' (json_dumps (JArr (map JStr packets)))
       (dset ''macdfs_params'' (json_dumps (JArr params)) ?n)"
    using assms unfolding validated_core_material_def Let_def
    by (auto simp: material_keys_def core_session_material_keys_def core_template_material_keys_def
        split: if_splits option.splits)
  let ?g = "\<lambda>x. if x = ''request_packets_hex'' then json_dumps (JArr (map JStr packets))
      else if x = ''macdfs_params'' then json_dumps (JArr params) else ?f x"
  have "dset ''macdfs_params'' (json_dumps (JArr params)) ?n
      = map (\<lambda>x. (x, if x = ''macdfs_params'' then json_dumps (JArr params) else ?f x)) material_keys"
    by (subst normalized_fields(1)) (rule dset_map_keys [OF material_key_members(7) material_keys_distinct])
  then have m': "m = map (\<lambda>x. (x, ?g x)) material_keys"
    unfolding m by (simp only: dset_map_keys [OF material_key_members(6) material_keys_distinct])
  have g: "material_field m k = ?g k" if "k \<in> set material_keys" for k
    unfolding m' using that by (rule material_field_map)
  have same: "m = map (\<lambda>k. (k, material_field m k)) material_keys"
  proof -
    have "map (\<lambda>x. (x, ?g x)) material_keys = map (\<lambda>k. (k, material_field m k)) material_keys"
      by (intro map_cong refl) (simp only: g)
    then show ?thesis using m' by (rule trans [rotated])
  qed
  have keep: "material_field m k \<noteq> [] \<and> strip (material_field m k) = material_field m k" if "k \<in> set material_keys" for k
    unfolding g [OF that] using filled that normalized_fields(2) [OF that, of captured] strip_brackets by simp
  have fields: "material_field m ''server_port'' = ?f ''server_port''" "material_field m ''auth_packet_hex'' = ?f ''auth_packet_hex''"
    "material_field m ''base64_alphabet'' = ?f ''base64_alphabet''" "material_field m ''template_symbol'' = ?f ''template_symbol''"
    "material_field m ''macdfs_params'' = json_dumps (JArr params)"
    "material_field m ''request_packets_hex'' = json_dumps (JArr (map JStr packets))"
    by (simp_all add: g material_key_members del: json_dumps_simps)
  have p: "length params = 3" "list_all (\<lambda>v. period_of_json v \<noteq> None) params"
    using params by (auto simp: checked_periods_def split: option.splits json.splits if_splits)
  obtain raws where "raws \<noteq> []" "all_some (map (checked_packet (ascii_bytes (?f ''base64_alphabet'')) (?f ''template_symbol'')) raws)
      = Some packets" and q: "validate_core_auth_packet auth" "length (?f ''template_symbol'') = 6"
      "all_digits (?f ''template_symbol'')" "market_code_for_symbol (?f ''template_symbol'') \<noteq> None"
    using packets by (auto simp: checked_packets_def split: option.splits json.splits if_splits)
  then have r: "packets \<noteq> []" "list_all (\<lambda>p. checked_packet (ascii_bytes (?f ''base64_alphabet'')) (?f ''template_symbol'') (JStr p)
      = Some p) packets"
    using all_some_checked by (auto dest: all_some_length)
  have "\<forall>k \<in> set material_keys. material_field m k \<noteq> [] \<and> strip (material_field m k) = material_field m k"
    using keep by blast
  with same basic p q r have "sound_material m port auth params packets"
    unfolding sound_material_def Let_def fields by argo
  then show ?thesis by blast
qed

lemma periods_written: "list_all (\<lambda>v. period_of_json v \<noteq> None) params \<Longrightarrow> json_loads (json_dumps (JArr params)) = Some (JArr params)"
  by (rule json_round_trip) (auto simp: list_all_iff intro: period_integral)

lemma packets_written: "json_loads (json_dumps (JArr (map JStr packets))) = Some (JArr (map JStr packets))"
  by (rule json_round_trip) (auto simp: list_all_iff)

lemma all_some_map: "list_all (\<lambda>x. f (g x) = Some x) xs \<Longrightarrow> all_some (map f (map g xs)) = Some xs"
  by (induction xs) auto

text \<open>Validating what was validated gives it back.\<close>

lemma sound_validated:
  assumes "sound_material m port auth params packets"
  shows "validated_core_material (map (\<lambda>(k, v). (k, Some v)) m) = Inr m"
proof -
  let ?c = "map (\<lambda>(k, v). (k, Some v)) m" and ?f = "material_field m"
  have m: "m = map (\<lambda>k. (k, ?f k)) material_keys" and keep: "\<And>k. k \<in> set material_keys \<Longrightarrow> ?f k \<noteq> [] \<and> strip (?f k) = ?f k"
    and p: "?f ''macdfs_params'' = json_dumps (JArr params)" "?f ''request_packets_hex'' = json_dumps (JArr (map JStr packets))"
    using assms by (auto simp: sound_material_def Let_def)
  have c: "dget ?c k = map_option Some (dget m k)" for k by (simp add: map_of_map)
  have lookup: "dget m k = Some (?f k)" if "k \<in> set material_keys" for k
  proof -
    have "dget (map (\<lambda>k. (k, g k)) ks) k = Some (g k)" if "k \<in> set ks" for g and ks :: "string list"
      using that by (induction ks) auto
    from this [OF that, of ?f] show ?thesis using m by simp
  qed
  have n: "normalized_material ?c = m"
  proof -
    have "normalized_material ?c = map (\<lambda>k. (k, ?f k)) material_keys"
      unfolding normalized_material_def material_keys_def [symmetric]
      by (intro map_cong refl) (simp add: c lookup keep)
    then show ?thesis using m by simp
  qed
  have periods: "checked_periods (?f ''macdfs_params'') = Some params"
    using assms periods_written [of params] by (simp add: sound_material_def Let_def checked_periods_def p(1) del: json_dumps_simps)
  have packets: "checked_packets (ascii_bytes (?f ''base64_alphabet'')) (?f ''template_symbol'') auth (?f ''request_packets_hex'')
      = Some packets"
    using assms all_some_map [of "checked_packet (ascii_bytes (?f ''base64_alphabet'')) (?f ''template_symbol'')" JStr packets]
    by (simp add: sound_material_def Let_def checked_packets_def p(2) packets_written del: json_dumps_simps map_map)
  have same: "dset ''request_packets_hex'' (?f ''request_packets_hex'') (dset ''macdfs_params'' (?f ''macdfs_params'') m) = m"
    by (simp add: update_triv lookup material_key_members)
  show ?thesis
    using assms periods packets same keep unfolding validated_core_material_def n Let_def p [symmetric]
    by (auto simp: sound_material_def Let_def material_keys_def core_session_material_keys_def core_template_material_keys_def
        p simp del: json_dumps_simps)
qed

section \<open>Validated material prepares requests\<close>

lemma patch_alphabet: "patch_core_packet_symbol A packet old new = Inr p \<Longrightarrow> valid_alphabet A"
  using patch_result [of A packet old new p] by (auto simp: decode_core_base64_def split: if_splits)

lemma checked_packet_patched:
  assumes "checked_packet A t (JStr p) = Some p" and "ascii_text t" "ascii_text sy" "length t = length sy"
  shows "\<exists>q. patched_packet A t sy (JStr p) = Some q" "valid_alphabet A"
proof -
  obtain bs r where b: "bytes_fromhex (strip p) = Some bs" "patch_core_packet_symbol A bs t t = Inr r" "strip p = p"
    using assms(1) by (auto simp: checked_packet_def Let_def split: option.splits if_splits sum.splits)
  show "valid_alphabet A" using b(2) by (rule patch_alphabet)
  obtain q where "patch_core_packet_symbol A bs t sy = Inr q" using patch_other_symbol [OF b(2) assms(2-4)] by blast
  then show "\<exists>q. patched_packet A t sy (JStr p) = Some q" using b by (simp add: patched_packet_def json_text_def)
qed

lemma patched_all:
  assumes "\<And>j. j \<in> set js \<Longrightarrow> \<exists>q. patched_packet A t sy j = Some q"
  shows "\<exists>qs. patched_packets A t sy js = Some qs \<and> length qs = length js"
  using assms by (induction js) (fastforce simp: bind_eq_Some_conv)+

lemma sound_prepares:
  assumes "sound_material m port auth params packets" and "length sy = 6" and "all_digits sy" and "0 < timeout"
  shows "\<exists>req. prepare json_loads fingerprint m timeout sy = Inr req \<and> request_port req = port \<and> auth_packet req = auth
    \<and> length (request_packets req) = length packets"
proof -
  let ?f = "material_field m" and ?A = "ascii_bytes (material_field m ''base64_alphabet'')"
  have keep: "\<And>k. k \<in> set material_keys \<Longrightarrow> strip (?f k) = ?f k \<and> ?f k \<noteq> []"
    and b: "int_of_text (?f ''server_port'') = Some port" "bytes_fromhex (?f ''auth_packet_hex'') = Some auth"
      "validate_core_auth_packet auth" "packets \<noteq> []" "length (?f ''template_symbol'') = 6" "all_digits (?f ''template_symbol'')"
    and p: "?f ''macdfs_params'' = json_dumps (JArr params)" "?f ''request_packets_hex'' = json_dumps (JArr (map JStr packets))"
    and periods: "length params = 3" "list_all (\<lambda>v. period_of_json v \<noteq> None) params"
    and checked: "list_all (\<lambda>p. checked_packet ?A (?f ''template_symbol'') (JStr p) = Some p) packets"
    using assms(1) by (auto simp: sound_material_def Let_def)
  have lookup: "dget m k = Some (?f k)" if "k \<in> set material_keys" for k
    using keep [OF that] by (cases "dget m k") (auto simp: material_field_def)
  have ascii: "ascii_text (?f ''template_symbol'')" "ascii_text sy"
    using b(6) assms(3) by (auto simp: all_digits_def intro: digits_ascii)
  have one: "\<exists>q. patched_packet ?A (?f ''template_symbol'') sy j = Some q" if "j \<in> set (map JStr packets)" for j
    using that checked checked_packet_patched(1) [OF _ ascii] b(5) assms(2) by (auto simp: list_all_iff)
  obtain qs where qs: "patched_packets ?A (?f ''template_symbol'') sy (map JStr packets) = Some qs" "length qs = length packets"
    using patched_all [of "map JStr packets", OF one] by auto
  have A: "valid_alphabet ?A"
    using checked b(4,5) assms(2) checked_packet_patched(2) [OF _ ascii] by (cases packets) (auto simp: list_all_iff)
  have packets': "material_packets json_loads m sy = Some (?f ''server_ip'', port, auth, qs)"
    using A b qs(1)
    by (simp add: material_packets_def lookup material_key_members p(2) packets_written as_list_def
        del: json_dumps_simps patched_packets.simps bytes_fromhex.simps)
  obtain x y z where xyz: "params = [x, y, z]" using periods(1) by (auto simp: numeral_3_eq_3 length_Suc_conv)
  have "json_dumps (JArr params) \<noteq> []" by simp
  then have "\<exists>ps. material_macdfs_params json_loads m = Some (Some ps)"
    using periods(2) periods_written [OF periods(2)]
    by (auto simp: material_macdfs_params_def lookup material_key_members p(1) xyz strip_dumps_array
        simp del: json_dumps_simps)
  then show ?thesis using packets' qs(2) assms(4) by (auto simp: prepare_def)
qed

section \<open>The store\<close>

lemma account_role_valid: "r \<in> set account_roles \<Longrightarrow> validated_role r = Some r"
proof -
  have "strip ''core_metrics'' = ''core_metrics''" "strip ''main_fund_flow'' = ''main_fund_flow''" by code_simp+
  then show "r \<in> set account_roles \<Longrightarrow> validated_role r = Some r"
    by (auto simp: validated_role_def account_roles_def Let_def)
qed

lemma get_core_session:
  assumes "get_session decrypt repr_text ''core_metrics'' s = (Some (Some b), s')"
  shows "\<exists>c. validated_core_material c = Inr (session_core_material b)"
  using assms by (auto simp: get_session_def with_material_def split: option.splits if_splits sum.splits)

lemma get_other_file:
  assumes "dget (session_files s') r = dget (session_files s) r" and "r \<in> set account_roles"
  shows "fst (get_session decrypt repr_text r s') = fst (get_session decrypt repr_text r s)"
  using assms account_role_valid [OF assms(2)]
  by (simp add: get_session_def split: option.splits sum.splits)

lemma put_session_cases:
  assumes "put_session encrypt b s = (Inr (), s')"
  obtains b' r where "validated_role (session_role b) = Some r" "session_role b' = session_role b"
    "s' = \<lparr>session_files = dset r (encrypt (json_dumps (as_storage b'))) (session_files s),
           session_errors = dpop (session_role b) (session_errors s)\<rparr>"
    "session_role b = ''core_metrics'' \<Longrightarrow> \<exists>m. b' = with_material b m \<and> validated_core_material (bundle_capture b) = Inr m"
    "session_role b \<noteq> ''core_metrics'' \<Longrightarrow> b' = b"
proof (cases "session_role b = ''core_metrics''")
  case True
  then obtain m r where m: "validated_core_material (bundle_capture b) = Inr m" "validated_role (session_role b) = Some r"
    and s': "s' = \<lparr>session_files = dset r (encrypt (json_dumps (as_storage (with_material b m)))) (session_files s),
           session_errors = dpop (session_role b) (session_errors s)\<rparr>"
    using assms by (cases "validated_core_material (bundle_capture b)")
      (auto simp: put_session_def with_material_def split: option.splits)
  show thesis by (rule that [OF m(2) _ s']) (use True m in \<open>auto simp: with_material_def\<close>)
next
  case False
  then obtain r where r: "validated_role (session_role b) = Some r"
    and s': "s' = \<lparr>session_files = dset r (encrypt (json_dumps (as_storage b))) (session_files s),
           session_errors = dpop (session_role b) (session_errors s)\<rparr>"
    using assms by (auto simp: put_session_def split: option.splits)
  show thesis by (rule that [OF r _ s']) (use False in auto)
qed

lemma validated_wf: "validated_core_material c = Inr m \<Longrightarrow> wf_dict m"
proof -
  assume "validated_core_material c = Inr m"
  then obtain port auth params packets where "sound_material m port auth params packets" using validated_sound by blast
  then have "m = map (\<lambda>k. (k, material_field m k)) material_keys" by (simp add: sound_material_def Let_def)
  then have "map fst m = material_keys" by (metis (no_types, lifting) fst_conv list.map_comp list.map_ident map_eq_conv o_apply)
  then show "wf_dict m" using material_keys_distinct by simp
qed

lemma validated_again:
  "validated_core_material c = Inr m \<Longrightarrow> validated_core_material (map (\<lambda>(k, v). (k, Some v)) m) = Inr m"
  using validated_sound [of c m] sound_validated [of m] by blast

lemma stored_session_read:
  assumes "decrypt (encrypt (json_dumps (as_storage b))) = Some (json_dumps (as_storage b))"
    and "dget (session_files s) (session_role b) = Some (encrypt (json_dumps (as_storage b)))"
    and "session_role b \<in> set account_roles" and "checked_session b = Some b" and "valid_datetime (session_updated_at b)"
    and "wf_dict (session_device_profile b)" and "wf_dict (session_core_material b)"
    and "session_role b = ''core_metrics'' \<Longrightarrow> validated_core_material (bundle_capture b) = Inr (session_core_material b)"
  shows "get_session decrypt repr_text (session_role b) s = (Some (Some b), s)"
proof -
  have "json_loads (json_dumps (as_storage b)) = Some (as_storage b)"
    using assms(6,7) by (intro json_round_trip as_storage_writable)
  then have "Option.bind (Option.bind (decrypt (encrypt (json_dumps (as_storage b)))) json_loads) (from_storage repr_text) = Some b"
    using assms(1) storage_round [OF assms(4-7)] by simp
  moreover have "with_material b (session_core_material b) = b" by (simp add: with_material_def)
  ultimately show ?thesis
    using assms(2,8) account_role_valid [OF assms(3)] by (simp add: get_session_def)
qed

end
