(* ===== verification/Session_Properties.thy ===== *)
theory Session_Properties
  imports Session_Facts
begin

text \<open>
  Properties of the account sessions: what is stored is read back, what is handed out can be used by the
  9528 client, and failures leave with fixed codes only.
\<close>

section \<open>A stored session\<close>

definition demo_packet_hex :: string where
  "demo_packet_hex = ''fdfdfdfd30303030303030410002006f57616b6d4d616b''"

definition demo_core_material :: core_material where
  "demo_core_material = [(''server_ip'', ''h''), (''server_port'', ''9528''),
     (''auth_packet_hex'', ''fdfdfdfd3030303030303032000708''),
     (''base64_alphabet'', ''aCcMeTKhxnwzmoPbsG4EvU8gyd02B3q6fIVWXYZjApRrDtuHkiLlN1O9F5S7JQ+/''),
     (''template_symbol'', ''600000''), (''request_packets_hex'', json_dumps (JArr (map JStr [demo_packet_hex]))),
     (''macdfs_params'', json_dumps (JArr [JNum 12, JNum 26, JNum 9]))]"

lemma demo_material_fields:
  "material_field demo_core_material ''server_ip'' = ''h''" "material_field demo_core_material ''server_port'' = ''9528''"
  "material_field demo_core_material ''auth_packet_hex'' = ''fdfdfdfd3030303030303032000708''"
  "material_field demo_core_material ''base64_alphabet'' = ''aCcMeTKhxnwzmoPbsG4EvU8gyd02B3q6fIVWXYZjApRrDtuHkiLlN1O9F5S7JQ+/''"
  "material_field demo_core_material ''template_symbol'' = ''600000''"
  "material_field demo_core_material ''request_packets_hex'' = json_dumps (JArr (map JStr [demo_packet_hex]))"
  "material_field demo_core_material ''macdfs_params'' = json_dumps (JArr [JNum 12, JNum 26, JNum 9])"
  by (simp_all add: material_field_def demo_core_material_def del: json_dumps_simps list.map)

lemma demo_checked_packet: "checked_packet core_base64_alphabet ''600000'' (JStr demo_packet_hex) = Some demo_packet_hex"
proof -
  have "fst (replace_each (symbol_replacements ''600000'' ''600000'') False (ascii_bytes ''600000''))" by code_simp
  then obtain p where "patch_core_packet_symbol core_base64_alphabet demo_packet ''600000'' ''600000'' = Inr p"
    using patch_succeeds [OF demo_packet_facts(1) _ _ core_alphabet, of "ascii_bytes ''600000''" "''600000''" "''600000''"]
    by (auto simp: demo_packet_facts demo_body ascii_text_def)
  moreover have "strip demo_packet_hex = demo_packet_hex" by code_simp
  moreover have "bytes_fromhex demo_packet_hex = Some demo_packet" unfolding demo_packet_hex_def by (rule demo_hex)
  moreover have "demo_packet \<noteq> []" by (simp add: demo_packet_eq)
  moreover have "demo_packet_hex \<noteq> []" by (simp add: demo_packet_hex_def)
  ultimately show ?thesis by (simp add: checked_packet_def Let_def)
qed

lemma demo_sound: "sound_material demo_core_material 9528 small_packet [JNum 12, JNum 26, JNum 9] [demo_packet_hex]"
proof -
  have alphabet: "length core_base64_alphabet = 64" "distinct core_base64_alphabet"
    using core_alphabet by (auto simp: valid_alphabet_def)
  have auth: "validate_core_auth_packet small_packet" "small_packet \<noteq> []"
    using small_packet_valid by (simp add: validate_core_auth_packet_def) (simp_all add: small_packet_def)
  have market: "market_code_for_symbol ''600000'' = Some ''17''" by code_simp
  have strips: "strip ''h'' = ''h''" "strip ''9528'' = ''9528''"
    "strip ''fdfdfdfd3030303030303032000708'' = ''fdfdfdfd3030303030303032000708''"
    "strip ''aCcMeTKhxnwzmoPbsG4EvU8gyd02B3q6fIVWXYZjApRrDtuHkiLlN1O9F5S7JQ+/''
      = ''aCcMeTKhxnwzmoPbsG4EvU8gyd02B3q6fIVWXYZjApRrDtuHkiLlN1O9F5S7JQ+/''" "strip ''600000'' = ''600000''"
    by code_simp+
  show ?thesis
    unfolding sound_material_def Let_def demo_material_fields core_base64_alphabet_def [symmetric]
  proof (intro conjI)
    show "demo_core_material = map (\<lambda>k. (k, material_field demo_core_material k)) material_keys"
      by (simp add: material_keys_def core_session_material_keys_def core_template_material_keys_def demo_material_fields
          del: json_dumps_simps) (simp add: demo_core_material_def)
    show "\<forall>k\<in>set material_keys. material_field demo_core_material k \<noteq> []
        \<and> strip (material_field demo_core_material k) = material_field demo_core_material k"
      by (simp add: material_keys_def core_session_material_keys_def core_template_material_keys_def demo_material_fields
          strips strip_dumps_array del: json_dumps_simps list.map) simp
    show "length ''aCcMeTKhxnwzmoPbsG4EvU8gyd02B3q6fIVWXYZjApRrDtuHkiLlN1O9F5S7JQ+/'' = 64" by simp
    show "distinct ''aCcMeTKhxnwzmoPbsG4EvU8gyd02B3q6fIVWXYZjApRrDtuHkiLlN1O9F5S7JQ+/''" by simp
    show "all_digits ''600000''" by code_simp
  qed (use auth demo_port demo_hex(1) demo_checked_packet market in
      \<open>simp_all add: period_of_json_def core_base64_alphabet_def del: json_dumps_simps bytes_fromhex.simps\<close>)
qed

section \<open>What is stored is read back\<close>

text \<open>
  C6: A session that \<open>put\<close> has stored is what \<open>get\<close> gives back, for every codec that decrypts what it
  encrypted: unchanged for the fund account, and with its validated material for the core account. Its
  error is cleared, so its status is READY with its time, and the session of the other account is what it
  was.
\<close>

theorem stored_sessions_read_back:
  assumes decrypts: "\<And>x. decrypt (encrypt x) = Some x"
    and put: "put_session encrypt b s = (Inr (), s')"
    and b: "session_role b \<in> set account_roles" "checked_session b = Some b" "valid_datetime (session_updated_at b)"
      "wf_dict (session_device_profile b)" "wf_dict (session_core_material b)"
  shows "\<exists>m. get_session decrypt repr_text (session_role b) s' = (Some (Some (with_material b m)), s')
      \<and> (if session_role b = ''core_metrics'' then validated_core_material (bundle_capture b) = Inr m
         else m = session_core_material b)
      \<and> session_status_of decrypt repr_text (session_role b) s' =
          (Some \<lparr>status_role = session_role b, status_state = SESSION_READY,
                 status_updated_at = Some (session_updated_at b), status_error = None\<rparr>, s')
      \<and> (\<forall>r \<in> set account_roles - {session_role b}.
           fst (get_session decrypt repr_text r s') = fst (get_session decrypt repr_text r s)
           \<and> dget (session_errors s') r = dget (session_errors s) r)"
proof -
  obtain b' r where r: "validated_role (session_role b) = Some r" "session_role b' = session_role b"
    and s': "s' = \<lparr>session_files = dset r (encrypt (json_dumps (as_storage b'))) (session_files s),
           session_errors = dpop (session_role b) (session_errors s)\<rparr>"
    and core: "session_role b = ''core_metrics'' \<Longrightarrow> \<exists>m. b' = with_material b m \<and> validated_core_material (bundle_capture b) = Inr m"
    and fund: "session_role b \<noteq> ''core_metrics'' \<Longrightarrow> b' = b"
    by (rule put_session_cases [OF put]) blast
  have role: "r = session_role b" using r(1) account_role_valid [OF b(1)] by simp
  have b': "b' = with_material b (session_core_material b')"
    using core fund by (cases "session_role b = ''core_metrics''") (auto simp: with_material_def)
  have valid: "session_role b = ''core_metrics'' \<Longrightarrow> validated_core_material (bundle_capture b) = Inr (session_core_material b')"
    using core by (auto simp: with_material_def)
  have wf: "wf_dict (session_core_material b')"
    using b(5) validated_wf [OF valid] fund by (cases "session_role b = ''core_metrics''") auto
  have parts: "session_updated_at b' = session_updated_at b" "session_device_profile b' = session_device_profile b"
    by (subst b', simp add: with_material_def)+
  have checked: "checked_session b' = Some b'"
    using b(2) by (subst b', subst (2) b') (auto simp: checked_session_def with_material_def split: if_splits)
  have get: "get_session decrypt repr_text (session_role b) s' = (Some (Some b'), s')"
    using stored_session_read [of decrypt encrypt b' s' repr_text] decrypts r(2) role b(1,3,4) wf parts checked
      validated_again [OF valid] by (simp add: s')
  have status: "session_status_of decrypt repr_text (session_role b) s' = (Some \<lparr>status_role = session_role b,
      status_state = SESSION_READY, status_updated_at = Some (session_updated_at b), status_error = None\<rparr>, s')"
    using get account_role_valid [OF b(1)] parts by (simp add: session_status_of_def s')
  have other: "fst (get_session decrypt repr_text r' s') = fst (get_session decrypt repr_text r' s)
      \<and> dget (session_errors s') r' = dget (session_errors s) r'" if "r' \<in> set account_roles - {session_role b}" for r'
    using that role by (auto simp: s' intro!: get_other_file)
  show ?thesis
    using get status other valid fund b' by (intro exI [of _ "session_core_material b'"]) auto
qed

lemma byte_of_char: "char_of (unat (of_char c :: 8 word)) = c"
proof -
  have "unat (of_char c :: 8 word) = unat (of_nat (of_char c) :: 8 word)" by (simp only: of_nat_of_char)
  also have "\<dots> = of_char c mod 256" by (simp add: unat_of_nat)
  also have "\<dots> = of_char c" by (rule of_char_mod_256)
  finally show ?thesis by simp
qed

text \<open>A codec for the examples: every byte is complemented.\<close>

definition demo_encrypt :: "string \<Rightarrow> bytes" where
  "demo_encrypt s = map (\<lambda>c. - of_char c) s"

definition demo_decrypt :: "bytes \<Rightarrow> string option" where
  "demo_decrypt bs = Some (map (\<lambda>b. char_of (unat (- b))) bs)"

lemma demo_decrypts: "demo_decrypt (demo_encrypt s) = Some s"
  by (simp add: demo_encrypt_def demo_decrypt_def comp_def byte_of_char)

definition demo_moment :: datetime where
  "demo_moment = \<lparr>dt_year = 2025, dt_month = 6, dt_day = 2, dt_hour = 9, dt_minute = 30, dt_second = 0, dt_micro = 0,
     dt_offset = Some 480\<rparr>"

definition demo_session :: account_session where
  "demo_session = \<lparr>session_role = ''core_metrics'', session_cookie = [], session_user_agent = [], session_platform = ''android'',
     session_updated_at = demo_moment, session_device_profile = [(''model'', ''x'')], session_core_material = demo_core_material\<rparr>"

definition no_sessions :: session_store where
  "no_sessions = \<lparr>session_files = [], session_errors = [(''core_metrics'', ''DIRECT_SESSION_EXPIRED'')]\<rparr>"

lemma demo_core_validated: "validated_core_material (map (\<lambda>(k, v). (k, Some v)) demo_core_material) = Inr demo_core_material"
  by (rule sound_validated [OF demo_sound])

lemma demo_put: "\<exists>s'. put_session demo_encrypt demo_session no_sessions = (Inr (), s')"
  using demo_core_validated account_role_valid [of "''core_metrics''"]
  by (simp add: put_session_def demo_session_def with_material_def account_roles_def)

lemma demo_session_facts:
  "session_role demo_session \<in> set account_roles" "checked_session demo_session = Some demo_session"
  "valid_datetime (session_updated_at demo_session)" "wf_dict (session_device_profile demo_session)"
  "wf_dict (session_core_material demo_session)"
  using account_role_valid [of "''core_metrics''"]
  by (simp_all add: demo_session_def account_roles_def checked_session_def demo_moment_def valid_datetime_def month_days_def
      validated_wf [OF demo_core_validated])

theorem stored_sessions_read_back_witness:
  "\<exists>s' m. put_session demo_encrypt demo_session no_sessions = (Inr (), s')
    \<and> get_session demo_decrypt (\<lambda>_. []) ''core_metrics'' s' = (Some (Some (with_material demo_session m)), s')"
proof -
  obtain s' where put: "put_session demo_encrypt demo_session no_sessions = (Inr (), s')" using demo_put by blast
  moreover have "session_role demo_session = ''core_metrics''" by (simp add: demo_session_def)
  ultimately show ?thesis
    using stored_sessions_read_back [OF demo_decrypts put demo_session_facts, of "\<lambda>_. []"] by auto
qed

section \<open>What is handed out can be used\<close>

text \<open>
  C13: Whatever the file holds, core material that \<open>get\<close> hands out is never refused by the 9528 client:
  for every six-digit symbol \<open>prepare\<close> succeeds, with a port in range and at least one request packet.
\<close>

theorem handed_out_material_prepares:
  assumes "get_session decrypt repr_text ''core_metrics'' s = (Some (Some b), s')"
    and "length sy = 6" and "all_digits sy" and "0 < timeout"
  shows "\<exists>req. prepare json_loads fingerprint (session_core_material b) timeout sy = Inr req
    \<and> 1 \<le> request_port req \<and> request_port req \<le> 65535 \<and> request_packets req \<noteq> []"
proof -
  obtain c where "validated_core_material c = Inr (session_core_material b)" using get_core_session [OF assms(1)] by blast
  then obtain port auth params packets where sound: "sound_material (session_core_material b) port auth params packets"
    using validated_sound by blast
  then have "1 \<le> port" "port \<le> 65535" "packets \<noteq> []" by (auto simp: sound_material_def Let_def)
  then show ?thesis using sound_prepares [OF sound assms(2-4), of fingerprint] by fastforce
qed

lemma demo_get: "\<exists>s. get_session demo_decrypt (\<lambda>_. []) ''core_metrics'' s = (Some (Some demo_session), s)"
proof -
  let ?s = "\<lparr>session_files = [(''core_metrics'', demo_encrypt (json_dumps (as_storage demo_session)))], session_errors = []\<rparr>"
  have r: "session_role demo_session = ''core_metrics''" "session_core_material demo_session = demo_core_material"
    by (simp_all add: demo_session_def)
  have "get_session demo_decrypt (\<lambda>_. []) (session_role demo_session) ?s = (Some (Some demo_session), ?s)"
    using demo_core_validated r demo_decrypts by (intro stored_session_read demo_session_facts) simp_all
  then show ?thesis unfolding r by blast
qed

theorem handed_out_material_prepares_witness:
  "\<exists>s req. get_session demo_decrypt (\<lambda>_. []) ''core_metrics'' s = (Some (Some demo_session), s)
    \<and> prepare json_loads (\<lambda>_. [1]) demo_core_material 10 ''601872'' = Inr req \<and> request_packets req \<noteq> []"
proof -
  obtain s where s: "get_session demo_decrypt (\<lambda>_. []) ''core_metrics'' s = (Some (Some demo_session), s)" using demo_get by blast
  have "length ''601872'' = 6" "all_digits ''601872''" "(0::rat) < 10" by (simp_all add: all_digits_def is_digit_def)
  moreover have "session_core_material demo_session = demo_core_material" by (simp add: demo_session_def)
  ultimately show ?thesis using s handed_out_material_prepares [OF s, of "''601872''" 10 "\<lambda>_. [1]"] by auto
qed

section \<open>Failures\<close>

lemma capture_failure_code: "capture_failure e fallback = DirectRequestError code \<Longrightarrow> fixed_error_code fallback \<Longrightarrow> fixed_error_code code"
  by (cases e) (auto simp: capture_failure_def intro: sanitized_fixed)

lemma fixed_codes: "fixed_error_code session_unavailable" "fixed_error_code handshake_code"
  by code_simp+

lemma validated_errors: "validated_core_material c = Inl e \<Longrightarrow> e \<in> {session_unavailable, handshake_code}"
  by (auto simp: validated_core_material_def Let_def split: if_splits option.splits)

lemma capture_failure_fixed: "fixed_error_code fallback \<Longrightarrow> \<exists>code. capture_failure e fallback = DirectRequestError code \<and> fixed_error_code code"
  by (cases e) (auto simp: capture_failure_def intro: sanitized_fixed)

text \<open>
  However a capture ends, an error that leaves the refreshers, the captures or \<open>put\<close> carries one of the
  fixed codes (or is a \<open>ValueError\<close>), a failed \<open>put\<close> leaves the store as it was, and \<open>get\<close> records fixed
  codes only.
\<close>

theorem session_failures_use_fixed_codes:
  "(\<forall>e. refresh_fund_session capture now role = Inl (DirectRequestError e) \<longrightarrow> fixed_error_code e)
   \<and> (\<forall>e. refresh_core_session capture now role = Inl (DirectRequestError e) \<longrightarrow> fixed_error_code e)
   \<and> (\<forall>e. capture_fund_http_session running trigger_error messages = Inl e \<longrightarrow>
        (\<exists>code. e = DirectRequestError code \<and> fixed_error_code code))
   \<and> (\<forall>e. capture_core_session_material running calls template_symbol = Inl e \<longrightarrow>
        (\<exists>code. e = DirectRequestError code \<and> fixed_error_code code))
   \<and> (\<forall>e s'. put_session encrypt b s = (Inl e, s') \<longrightarrow> s' = s \<and> (\<forall>code. e = DirectRequestError code \<longrightarrow> fixed_error_code code))
   \<and> (list_all (\<lambda>(r, code). fixed_error_code code) (session_errors s) \<longrightarrow>
        list_all (\<lambda>(r, code). fixed_error_code code) (session_errors (snd (get_session decrypt repr_text role s))))"
proof (intro conjI allI impI)
  have valid: "fixed_error_code e" if "validated_core_material c = Inl e" for c e
    using validated_errors [OF that] fixed_codes by auto
  have made: "make_session x \<noteq> Inl (DirectRequestError e)" for x e by (simp add: make_session_def split: option.splits)
  show "fixed_error_code e" if "refresh_fund_session capture now role = Inl (DirectRequestError e)" for e
    using that made capture_failure_code [OF _ fixed_codes(1)] fixed_codes(1)
    by (cases capture) (auto simp: refresh_fund_session_def Let_def split: if_splits)
  show "fixed_error_code e" if "refresh_core_session capture now role = Inl (DirectRequestError e)" for e
    using that made capture_failure_code [OF _ fixed_codes(1)] valid
    by (cases capture) (auto simp: refresh_core_session_def split: if_splits sum.splits)
  show "\<exists>code. e = DirectRequestError code \<and> fixed_error_code code"
    if "capture_fund_http_session running trigger_error messages = Inl e" for e
    using that capture_failure_fixed [OF fixed_codes(1)] fixed_codes(1)
    by (auto simp: capture_fund_http_session_def Let_def split: if_splits option.splits)
  show "\<exists>code. e = DirectRequestError code \<and> fixed_error_code code"
    if "capture_core_session_material running calls template_symbol = Inl e" for e
  proof -
    have "\<exists>code. d = DirectRequestError code \<and> fixed_error_code code"
      if "map_sum DirectRequestError id (validated_core_material c) = Inl d" for c d
      using that valid by (cases "validated_core_material c") auto
    then show ?thesis
      using that capture_failure_fixed [OF fixed_codes(1)] capture_failure_fixed [OF fixed_codes(2)] fixed_codes(1)
      by (auto simp: capture_core_session_material_def split: if_splits sum.splits option.splits)
  qed
  show "s' = s" if "put_session encrypt b s = (Inl e, s')" for e s'
    using that by (auto simp: put_session_def split: sum.splits option.splits)
  show "fixed_error_code code" if "put_session encrypt b s = (Inl e, s')" "e = DirectRequestError code" for e s' code
    using that valid by (cases "validated_core_material (bundle_capture b)")
      (auto simp: put_session_def split: if_splits option.splits)
  have add: "list_all (\<lambda>(r, code). fixed_error_code code) (dset role code d)"
    if "list_all (\<lambda>(r, code). fixed_error_code code) d" "fixed_error_code code" for code and d :: "(string, string) dict"
    using that by (induction d) auto
  show "list_all (\<lambda>(r, code). fixed_error_code code) (session_errors (snd (get_session decrypt repr_text role s)))"
    if "list_all (\<lambda>(r, code). fixed_error_code code) (session_errors s)"
    using that add [OF that] fixed_codes(1) sanitized_fixed [OF fixed_codes(1)]
    by (auto simp: get_session_def split: option.splits sum.splits)
qed

theorem session_failures_use_fixed_codes_witness:
  "refresh_core_session (Inl (DirectRequestError ''secret token'')) demo_moment ''core_metrics'' = Inl (DirectRequestError session_unavailable)
    \<and> fixed_error_code session_unavailable"
proof
  show r: "refresh_core_session (Inl (DirectRequestError ''secret token'')) demo_moment ''core_metrics''
      = Inl (DirectRequestError session_unavailable)"
    by (simp add: refresh_core_session_def capture_failure_def) code_simp
  show "fixed_error_code session_unavailable"
    using session_failures_use_fixed_codes [of "Inl (DirectRequestError ''secret token'')" demo_moment "''core_metrics''"] r by blast
qed

end
