(* ===== verification/Frida_Values.thy ===== *)
theory Frida_Values
  imports Dual_Source Json_Text
begin

text \<open>
  \<open>FridaParsedValueSource\<close> of \<open>level2_service/parsed_values.py\<close>: what it makes of the payload that the
  script in the phone's application returns. A payload is the dictionary of its fields; the readers that
  fetch it are arguments, as is \<open>repr_text\<close>, the text of fractions, lists and dictionaries. An outer None is an
  exception of the parsing (a field that is no dictionary, a number beyond 28 digits, an infinite
  number). The case of letters is that of ASCII, and \<open>-0\<close> is \<open>0\<close>.
\<close>

section \<open>Values of a payload\<close>

type_synonym payload = "(string, json) dict"

abbreviation pget :: "payload \<Rightarrow> string \<Rightarrow> json" where
  "pget d k \<equiv> (case dget d k of None \<Rightarrow> JNull | Some v \<Rightarrow> v)"

text \<open>\<open>payload.get(key, ())\<close> as a loop reads it.\<close>

definition pitems :: "payload \<Rightarrow> string \<Rightarrow> json list option" where
  "pitems d k = (case dget d k of None \<Rightarrow> Some [] | Some v \<Rightarrow> jiter v)"

fun list_value :: "json \<Rightarrow> json list option" where
  "list_value (JArr xs) = Some xs"
| "list_value _ = None"

definition to_lower :: "string \<Rightarrow> string" where
  "to_lower s = map (\<lambda>c. if code_upper c then char_of (of_char c + 32 :: nat) else c) s"

definition to_upper :: "string \<Rightarrow> string" where
  "to_upper s = map (\<lambda>c. let n = of_char c :: nat in if 97 \<le> n \<and> n \<le> 122 then char_of (n - 32) else c) s"

text \<open>\<open>_text\<close>\<close>

definition text_of :: "(json \<Rightarrow> string) \<Rightarrow> json \<Rightarrow> string option" where
  "text_of repr_text j =
     (if j = JNull then None
      else let normalized = strip (py_str repr_text j) in
        if normalized = [] \<or> to_lower normalized \<in> {''null'', ''none'', ''undefined''} then None else Some normalized)"

definition text_matches :: "string \<Rightarrow> string \<Rightarrow> bool" where
  "text_matches candidate requested =
     (let c = to_upper candidate; r = to_upper requested in
      c = r \<or> length (filter is_digit c) = 6 \<and> filter is_digit c = filter is_digit r)"

text \<open>\<open>_symbols_match\<close>\<close>

definition symbols_match :: "(json \<Rightarrow> string) \<Rightarrow> json \<Rightarrow> string \<Rightarrow> bool" where
  "symbols_match repr_text candidate requested =
     (case (text_of repr_text candidate, text_of repr_text (JStr requested)) of
        (Some c, Some r) \<Rightarrow> text_matches c r | _ \<Rightarrow> False)"

section \<open>Numbers\<close>

text \<open>\<open>_interface_decimal\<close>: the values the application shows without permission are left out.\<close>

definition permission_sentinels :: "rat set" where
  "permission_sentinels = {- 2147483648, - 9223372036854775808}"

definition without_sentinels :: "rat option \<Rightarrow> rat option" where
  "without_sentinels number = (case number of None \<Rightarrow> None | Some v \<Rightarrow> if v \<in> permission_sentinels then None else Some v)"

definition interface_decimal :: "json \<Rightarrow> rat option" where
  "interface_decimal j = without_sentinels (decimal_of_json j)"

text \<open>\<open>_market_number\<close> of a number: \<open>quantize\<close> raises beyond 28 digits.\<close>

definition market_number :: "rat option \<Rightarrow> string option option" where
  "market_number value =
     (case without_sentinels value of None \<Rightarrow> Some None
      | Some v \<Rightarrow> if \<bar>dec28 v\<bar> \<ge> 10 ^ 28 then None else Some (Some (plain_text (dec28 v))))"

text \<open>\<open>_format_number\<close>; its \<open>quantize\<close> raises as well.\<close>

definition format_number :: "rat option \<Rightarrow> nat \<Rightarrow> string \<Rightarrow> bool \<Rightarrow> string option option" where
  "format_number value places suf show_plus =
     (if value = None then Some None
      else map_option Some (core_format_number value places suf show_plus))"

text \<open>\<open>int(value)\<close> in a \<open>try\<close> that goes on after a \<open>TypeError\<close> or \<open>ValueError\<close>; an infinity raises.\<close>

definition int_or_skip :: "json \<Rightarrow> int option option" where
  "int_or_skip j = (case j of JNonFinite c \<Rightarrow> if c = ''NaN'' then Some None else None | _ \<Rightarrow> Some (py_int j))"

section \<open>Times\<close>

text \<open>\<open>_format_intraday_time\<close>\<close>

definition intraday_time :: "(json \<Rightarrow> string) \<Rightarrow> json \<Rightarrow> string option" where
  "intraday_time repr_text value =
     (case text_of repr_text value of None \<Rightarrow> None
      | Some t \<Rightarrow>
          (let compact = filter (\<lambda>c. c \<noteq> CHR '':'') t;
               padded = zero_pad 4 compact;
               hour = dec_val (take 2 padded);
               minute = dec_val (drop 2 padded);
               packed = (case int_of_text t of None \<Rightarrow> 0 | Some i \<Rightarrow> i)
           in if all_digits compact \<and> 3 \<le> length compact \<and> length compact \<le> 4 \<and> hour \<le> 23 \<and> minute \<le> 59
              then Some (clock_text hour minute)
              else case (if packed > 0xFFFF then packed_time (nat packed) else None) of
                Some c \<Rightarrow> Some c | None \<Rightarrow> Some t))"

text \<open>\<open>_format_intraday_points\<close>: the values belong to the last times.\<close>

definition trailing :: "nat \<Rightarrow> 'a list \<Rightarrow> 'a list" where
  "trailing n values = (if length values > n then drop (length values - n) values else values)"

fun intraday_points_loop ::
  "(json \<Rightarrow> string) \<Rightarrow> nat \<Rightarrow> rat \<Rightarrow> bool \<Rightarrow> json list \<Rightarrow> nat \<Rightarrow> nat \<Rightarrow> json list \<Rightarrow> point list option" where
  "intraday_points_loop repr_text places divisor show_plus tail_values gaps index [] = Some []"
| "intraday_points_loop repr_text places divisor show_plus tail_values gaps index (raw_time # ts) =
     (case intraday_time repr_text raw_time of
        None \<Rightarrow> intraday_points_loop repr_text places divisor show_plus tail_values gaps (Suc index) ts
      | Some time \<Rightarrow>
          (let number = (if gaps \<le> index then interface_decimal (tail_values ! (index - gaps)) else None) in do {
             value \<leftarrow> format_number (map_option (\<lambda>v. ddiv v divisor) number) places [] show_plus;
             points \<leftarrow> intraday_points_loop repr_text places divisor show_plus tail_values gaps (Suc index) ts;
             Some ((time, value) # points)
           }))"

definition format_intraday_points ::
  "(json \<Rightarrow> string) \<Rightarrow> json list \<Rightarrow> json list \<Rightarrow> nat \<Rightarrow> rat \<Rightarrow> bool \<Rightarrow> point list option" where
  "format_intraday_points repr_text ts values places divisor show_plus =
     (let tail_values = trailing (length ts) values in
      intraday_points_loop repr_text places divisor show_plus tail_values (length ts - length tail_values) 0 ts)"

section \<open>Quotes\<close>

definition quote_score :: "(json \<Rightarrow> string) \<Rightarrow> payload \<Rightarrow> nat" where
  "quote_score repr_text q =
     length (filter (\<lambda>f. text_of repr_text (pget q f) \<noteq> None)
       [''name'', ''price'', ''change_percent'', ''turnover_rate'', ''previous_close''])"

text \<open>\<open>max(candidates, key=..., default=None)\<close>: the first of the best.\<close>

fun best_by :: "('a \<Rightarrow> nat) \<Rightarrow> 'a list \<Rightarrow> 'a option" where
  "best_by key [] = None"
| "best_by key (x # xs) =
     (case best_by key xs of None \<Rightarrow> Some x | Some y \<Rightarrow> if key x < key y then Some y else Some x)"

text \<open>The dictionaries of a list that match; with \<open>strict\<close> another value is an exception, else it is
  passed over.\<close>

fun matching :: "(json \<Rightarrow> string) \<Rightarrow> bool \<Rightarrow> string \<Rightarrow> json list \<Rightarrow> payload list option" where
  "matching repr_text strict sy [] = Some []"
| "matching repr_text strict sy (j # js) =
     (case j of
        JObj d \<Rightarrow>
          map_option (\<lambda>ds. if symbols_match repr_text (pget d ''symbol'') sy then d # ds else ds)
            (matching repr_text strict sy js)
      | _ \<Rightarrow> if strict then None else matching repr_text strict sy js)"

definition quote_values :: "(json \<Rightarrow> string) \<Rightarrow> payload \<Rightarrow> (metric_kind \<Rightarrow> string option) \<Rightarrow> (metric_kind \<Rightarrow> string option) option" where
  "quote_values repr_text q vs =
     (let price = decimal_of_json (pget q ''price'');
          previous_close = decimal_of_json (pget q ''previous_close'');
          change = (case decimal_of_json (pget q ''change_percent'') of
            Some c \<Rightarrow> Some c
          | None \<Rightarrow> (case (price, previous_close) of
                (Some p, Some pc) \<Rightarrow> if pc = 0 then None else Some (dmul (dsub (ddiv p pc) 1) 100)
              | _ \<Rightarrow> None))
      in do {
        p \<leftarrow> format_number price 2 [] False;
        c \<leftarrow> format_number change 2 ''%'' False;
        t \<leftarrow> format_number (decimal_of_json (pget q ''turnover_rate'')) 2 ''%'' False;
        Some (vs(STOCK_NAME := text_of repr_text (pget q ''name''), CURRENT_PRICE := p, CHANGE_PERCENT := c, TURNOVER_RATE := t))
      })"

section \<open>Indicators\<close>

fun latest_loop :: "payload list \<Rightarrow> (int, rat) dict \<Rightarrow> (int, rat) dict option" where
  "latest_loop [] acc = Some acc"
| "latest_loop (d # ds) acc =
     (case int_or_skip (pget d ''techid'') of None \<Rightarrow> None
      | Some None \<Rightarrow> latest_loop ds acc
      | Some (Some techid) \<Rightarrow>
          (case list_value (pget d ''values'') of
             Some (v # vs) \<Rightarrow>
               latest_loop ds (case interface_decimal (last (v # vs)) of None \<Rightarrow> acc | Some x \<Rightarrow> dset techid x acc)
           | _ \<Rightarrow> latest_loop ds acc))"

definition indicator_values :: "(int, rat) dict \<Rightarrow> (metric_kind \<Rightarrow> string option) \<Rightarrow> (metric_kind \<Rightarrow> string option) option" where
  "indicator_values latest vs = do {
     net \<leftarrow> format_number (dget latest 7031) 2 [] False;
     amount \<leftarrow> format_number (map_option (\<lambda>v. ddiv v 10000) (dget latest 7032)) 2 wan_yuan False;
     retail \<leftarrow> format_number (dget latest 7034) 2 [] False;
     macdfs \<leftarrow> format_number (dget latest 7051) 3 [] True;
     Some (vs(LARGE_ORDER_NET := net, LARGE_ORDER_AMOUNT := amount, RETAIL_COUNT := retail, MACDFS := macdfs))
   }"

section \<open>Fund flows\<close>

text \<open>\<open>_fund_flow_period\<close>: \<open>float\<close> is taken as exact and unbounded; an infinity raises.\<close>

definition infinite_text :: "string \<Rightarrow> bool" where
  "infinite_text t \<longleftrightarrow> to_lower (snd (split_sign t)) \<in> {''inf'', ''infinity''}"

definition fund_flow_period :: "(json \<Rightarrow> string) \<Rightarrow> json \<Rightarrow> string option option" where
  "fund_flow_period repr_text value =
     (case text_of repr_text value of None \<Rightarrow> Some None
      | Some t \<Rightarrow>
          if t \<in> {''today'', ''three_day'', ''five_day''} then Some (Some t)
          else if infinite_text t then None
          else Some (case map_option Fund_Flow.truncate (decimal_of_json value) of
              Some w \<Rightarrow> (if w = 1 then Some ''today'' else if w = 3 then Some ''three_day'' else if w = 5 then Some ''five_day'' else None)
            | None \<Rightarrow> None))"

definition fund_flow_unit :: "json \<Rightarrow> string option" where
  "fund_flow_unit value =
     (case decimal_of_json value of None \<Rightarrow> None
      | Some n \<Rightarrow> if n = 10000 then Some wan_yuan else if n = 100000000 then Some yi_yuan else None)"

text \<open>\<open>_flow_value\<close>: the first of the keys that is there.\<close>

fun flow_value :: "payload \<Rightarrow> string list \<Rightarrow> json" where
  "flow_value flow [] = JNull"
| "flow_value flow (k # ks) = (case dget flow k of Some v \<Rightarrow> v | None \<Rightarrow> flow_value flow ks)"

definition unit_kind_of :: "string \<Rightarrow> metric_kind" where
  "unit_kind_of period = the (dget fund_flow_periods period)"

definition flow_values :: "string \<Rightarrow> payload \<Rightarrow> (metric_kind \<Rightarrow> string option) \<Rightarrow> (metric_kind \<Rightarrow> string option) option" where
  "flow_values period flow vs =
     (let metric = (\<lambda>f. the (dget (fund_flow_metrics period) f));
          main_in = interface_decimal (flow_value flow [''main_in'', ''mainIn'', ''main_capital'']);
          visible = interface_decimal (flow_value flow [''main_listed'', ''mainListed'', ''main_visible_inflow'']);
          hidden = interface_decimal (flow_value flow [''main_grey'', ''mainGrey'', ''main_hidden_inflow'']);
          retail = (case interface_decimal (flow_value flow [''main_retail_investor'', ''mainRetailInvestor'', ''retail_inflow'']) of
              Some r \<Rightarrow> Some r | None \<Rightarrow> map_option (\<lambda>x. dec28 (- x)) main_in)
      in do {
        m \<leftarrow> market_number main_in;
        v \<leftarrow> market_number visible;
        h \<leftarrow> market_number hidden;
        r \<leftarrow> market_number retail;
        Some (vs(unit_kind_of period := fund_flow_unit (flow_value flow [''current_unit'', ''currentUnit'']),
                 metric ''main_net_inflow'' := m, metric ''main_visible_inflow'' := v,
                 metric ''main_hidden_inflow'' := h, metric ''retail_inflow'' := r))
      })"

fun flows_loop :: "(json \<Rightarrow> string) \<Rightarrow> json list \<Rightarrow> (metric_kind \<Rightarrow> string option) \<Rightarrow> (metric_kind \<Rightarrow> string option) option" where
  "flows_loop repr_text [] vs = Some vs"
| "flows_loop repr_text (j # js) vs =
     (case j of
        JObj flow \<Rightarrow>
          (case fund_flow_period repr_text (flow_value flow [''period'', ''win_size'']) of
             None \<Rightarrow> None
           | Some None \<Rightarrow> flows_loop repr_text js vs
           | Some (Some period) \<Rightarrow> Option.bind (flow_values period flow vs) (flows_loop repr_text js))
      | _ \<Rightarrow> flows_loop repr_text js vs)"

text \<open>\<open>_parse_payload\<close>\<close>

definition parse_payload :: "(json \<Rightarrow> string) \<Rightarrow> payload \<Rightarrow> string \<Rightarrow> (metric_kind \<Rightarrow> string option) option" where
  "parse_payload repr_text d sy = do {
     quotes \<leftarrow> pitems d ''quotes'';
     candidates \<leftarrow> matching repr_text True sy quotes;
     vs \<leftarrow> (case best_by (quote_score repr_text) candidates of
               None \<Rightarrow> Some empty_metric_values | Some q \<Rightarrow> quote_values repr_text q empty_metric_values);
     indicators \<leftarrow> pitems d ''indicators'';
     matched \<leftarrow> matching repr_text True sy indicators;
     latest \<leftarrow> latest_loop matched [];
     vs1 \<leftarrow> indicator_values latest vs;
     flows \<leftarrow> pitems d ''fund_flows'';
     flows_loop repr_text flows vs1
   }"

end
