(* ===== verification/Frida_Source.thy ===== *)
theory Frida_Source
  imports Frida_Values
begin

text \<open>
  \<open>FridaParsedValueSource\<close> of \<open>level2_service/parsed_values.py\<close>, continued: the intraday series and the
  market snapshot of a payload, and the operations of the source over readers that answer with a payload
  or an exception: \<open>read\<close>, \<open>read_direct\<close>, \<open>read_market_snapshot\<close>, \<open>read_market_series\<close>, \<open>lookup_symbol\<close> and
  \<open>search_symbols\<close>.
\<close>

section \<open>Intraday series\<close>

text \<open>For an indicator: the metric, the places, the divisor, the unit, and whether a plus is shown.\<close>

definition series_specs :: "(int \<times> metric_kind \<times> nat \<times> rat \<times> string option \<times> bool) list" where
  "series_specs = [(7031, LARGE_ORDER_NET, 2, 1, None, False), (7032, LARGE_ORDER_AMOUNT, 2, 10000, Some wan_yuan, False),
     (7034, RETAIL_COUNT, 2, 1, None, False), (7051, MACDFS, 3, 1, None, True)]"

fun series_loop ::
  "(json \<Rightarrow> string) \<Rightarrow> payload list \<Rightarrow> (metric_kind, json) dict \<Rightarrow> (metric_kind, json) dict option" where
  "series_loop repr_text [] acc = Some acc"
| "series_loop repr_text (d # ds) acc =
     (case int_or_skip (pget d ''techid'') of None \<Rightarrow> None
      | Some techid \<Rightarrow>
          (case Option.bind techid (dget series_specs) of None \<Rightarrow> series_loop repr_text ds acc
           | Some (kind, places, divisor, unit, show_plus) \<Rightarrow>
               (case list_value (pget d ''times'') of
                  Some (t # ts) \<Rightarrow> do {
                    points \<leftarrow> format_intraday_points repr_text (t # ts)
                      (case list_value (pget d ''values'') of None \<Rightarrow> [] | Some vs \<Rightarrow> vs) places divisor show_plus;
                    series_loop repr_text ds (dset kind (series_json unit points) acc)
                  }
                | _ \<Rightarrow> series_loop repr_text ds acc)))"

definition parse_intraday_series :: "(json \<Rightarrow> string) \<Rightarrow> payload \<Rightarrow> string \<Rightarrow> (metric_kind, json) dict option" where
  "parse_intraday_series repr_text d sy = do {
     indicators \<leftarrow> pitems d ''indicators'';
     matched \<leftarrow> matching repr_text False sy indicators;
     series_loop repr_text matched []
   }"

text \<open>\<open>kind.value.lower()\<close> of the metrics of \<open>series_specs\<close>; no other occurs.\<close>

fun lower_kind :: "metric_kind \<Rightarrow> string" where
  "lower_kind LARGE_ORDER_NET = ''large_order_net''"
| "lower_kind LARGE_ORDER_AMOUNT = ''large_order_amount''"
| "lower_kind RETAIL_COUNT = ''retail_count''"
| "lower_kind MACDFS = ''macdfs''"
| "lower_kind k = []"

definition macd_specs :: "(string \<times> string) list" where
  "macd_specs = [(''macd_dif'', ''36881''), (''macd_dea'', ''36882'')]"

fun macd_fields ::
  "(json \<Rightarrow> string) \<Rightarrow> json list \<Rightarrow> payload \<Rightarrow> (string \<times> string) list \<Rightarrow> (string, json) dict \<Rightarrow> (string, json) dict option" where
  "macd_fields repr_text ts data [] acc = Some acc"
| "macd_fields repr_text ts data ((field, data_id) # specs) acc =
     (case list_value (pget data data_id) of None \<Rightarrow> macd_fields repr_text ts data specs acc
      | Some vs \<Rightarrow> do {
          points \<leftarrow> format_intraday_points repr_text ts vs 3 1 True;
          macd_fields repr_text ts data specs (dset field (series_json None points) acc)
        })"

fun macd_series_loop :: "(json \<Rightarrow> string) \<Rightarrow> payload list \<Rightarrow> (string, json) dict \<Rightarrow> (string, json) dict option" where
  "macd_series_loop repr_text [] acc = Some acc"
| "macd_series_loop repr_text (d # ds) acc =
     (case int_or_skip (pget d ''techid'') of None \<Rightarrow> None
      | Some techid \<Rightarrow>
          if techid \<noteq> Some 7051 then macd_series_loop repr_text ds acc
          else (case (list_value (pget d ''times''), pget d ''data_series'') of
              (Some (t # ts), JObj data) \<Rightarrow>
                Option.bind (macd_fields repr_text (t # ts) data macd_specs acc) (macd_series_loop repr_text ds)
            | _ \<Rightarrow> macd_series_loop repr_text ds acc))"

definition parse_market_intraday_series :: "(json \<Rightarrow> string) \<Rightarrow> payload \<Rightarrow> string \<Rightarrow> (string, json) dict option" where
  "parse_market_intraday_series repr_text d sy = do {
     series \<leftarrow> parse_intraday_series repr_text d sy;
     indicators \<leftarrow> pitems d ''indicators'';
     matched \<leftarrow> matching repr_text False sy indicators;
     macd_series_loop repr_text matched (map (apfst lower_kind) series)
   }"

section \<open>The market snapshot\<close>

definition list_or_empty :: "json \<Rightarrow> json list" where
  "list_or_empty j = (case list_value j of None \<Rightarrow> [] | Some xs \<Rightarrow> xs)"

definition decimal_at :: "json list \<Rightarrow> nat \<Rightarrow> rat option" where
  "decimal_at xs i = (if i < length xs then interface_decimal (xs ! i) else None)"

text \<open>The points with their prices, and the prices alone.\<close>

fun timeshare_loop ::
  "(json \<Rightarrow> string) \<Rightarrow> json list \<Rightarrow> json list \<Rightarrow> nat \<Rightarrow> json list \<Rightarrow> (timeshare_point list \<times> rat list) option" where
  "timeshare_loop repr_text prices volumes index [] = Some ([], [])"
| "timeshare_loop repr_text prices volumes index (raw_time # ts) =
     (case intraday_time repr_text raw_time of
        None \<Rightarrow> timeshare_loop repr_text prices volumes (Suc index) ts
      | Some time \<Rightarrow> do {
          price \<leftarrow> format_number (decimal_at prices index) 2 [] False;
          volume \<leftarrow> market_number (decimal_at volumes index);
          (points, valid) \<leftarrow> timeshare_loop repr_text prices volumes (Suc index) ts;
          Some (\<lparr>tp_time = time, tp_price = price, average_price = None, tp_volume = volume\<rparr> # points,
                (case decimal_at prices index of None \<Rightarrow> valid | Some p \<Rightarrow> p # valid))
        })"

definition total_of :: "json list \<Rightarrow> rat" where
  "total_of xs = foldl dadd 0 (map the (filter (\<lambda>v. v \<noteq> None) (map interface_decimal xs)))"

definition total_text :: "json list \<Rightarrow> string option option" where
  "total_text xs = (if xs = [] then Some None else market_number (Some (total_of xs)))"

definition extreme_text :: "(rat list \<Rightarrow> rat) \<Rightarrow> rat list \<Rightarrow> string option option" where
  "extreme_text f prices = (if prices = [] then Some None else format_number (Some (f prices)) 2 [] False)"

definition unavailable :: "string \<Rightarrow> json" where
  "unavailable reason = JObj [(''available'', JBool False), (''reason'', JStr reason)]"

definition snapshot_capabilities :: "bool \<Rightarrow> (string, json) dict" where
  "snapshot_capabilities has_timeshare =
     [(''timeshare'', if has_timeshare then JObj [(''available'', JBool True), (''reason'', JNull)]
                      else unavailable ''NO_APP_INTERFACE_DATA''),
      (''kline'', unavailable ''DIRECT_KLINE_UNAVAILABLE''),
      (''order_book'', unavailable ''APP_INTERFACE_NOT_CONFIRMED''),
      (''trades'', unavailable ''APP_INTERFACE_NOT_CONFIRMED'')]"

definition parse_market_snapshot :: "(json \<Rightarrow> string) \<Rightarrow> time \<Rightarrow> payload \<Rightarrow> string \<Rightarrow> string \<Rightarrow> snapshot option" where
  "parse_market_snapshot repr_text now d sy market = do {
     vs \<leftarrow> parse_payload repr_text d sy;
     quotes \<leftarrow> pitems d ''quotes'';
     candidates \<leftarrow> matching repr_text False sy quotes;
     let raw = (case best_by (quote_score repr_text) candidates of None \<Rightarrow> [] | Some q \<Rightarrow> q) in
     let volumes = list_or_empty (pget raw ''volumes''); amounts = list_or_empty (pget raw ''amounts'') in do {
       (points, prices) \<leftarrow> timeshare_loop repr_text (list_or_empty (pget raw ''prices'')) volumes 0 (list_or_empty (pget raw ''times''));
       previous_close \<leftarrow> format_number (decimal_of_json (pget raw ''previous_close'')) 2 [] False;
       opening \<leftarrow> extreme_text hd prices;
       high \<leftarrow> extreme_text (\<lambda>ps. Max (set ps)) prices;
       low \<leftarrow> extreme_text (\<lambda>ps. Min (set ps)) prices;
       volume \<leftarrow> total_text volumes;
       amount \<leftarrow> total_text amounts;
       series \<leftarrow> parse_market_intraday_series repr_text d sy;
       Some ((new_snapshot sy (vs STOCK_NAME) market now
           [(''price'', vs CURRENT_PRICE), (''previous_close'', previous_close), (''change_percent'', vs CHANGE_PERCENT),
            (''turnover_rate'', vs TURNOVER_RATE), (''open'', opening), (''high'', high), (''low'', low), (''volume'', volume),
            (''amount'', amount), (''large_order_net'', vs LARGE_ORDER_NET), (''large_order_amount'', vs LARGE_ORDER_AMOUNT),
            (''retail_count'', vs RETAIL_COUNT), (''macdfs'', vs MACDFS)])
         \<lparr>source_time := (if points = [] then None else Some (tp_time (last points))), timeshare := points,
          snap_series := series, snap_fund_flow := fund_market_of_values vs,
          capabilities := snapshot_capabilities (points \<noteq> []),
          snap_errors := [(''core_metrics'', None), (''main_fund_flow'', None)]\<rparr>)
     }
   }"

section \<open>Reads\<close>

datatype request_scope = SCOPE_ALL | SCOPE_CORE | SCOPE_FUND

text \<open>The exceptions of a reader: an unsupported market, a \<open>DirectRequestError\<close>, one of the three names
  of a bridge that is offline, or any other; and of the source.\<close>

datatype reader_failure = ReaderUnsupported | ReaderDirect string | ReaderOffline | ReaderOther

datatype source_exception = UnsupportedMarket | DirectError string | ParseError | InvalidArgument
  | SymbolNotFound | SymbolAmbiguous

definition request_failed :: "request_scope \<Rightarrow> string" where
  "request_failed scope = (if scope = SCOPE_FUND then ''DIRECT_FUND_FLOW_REQUEST_FAILED'' else ''DIRECT_REQUEST_FAILED'')"

definition app_offline :: "request_scope \<Rightarrow> string" where
  "app_offline scope = (if scope = SCOPE_FUND then ''DIRECT_FUND_FLOW_APP_OFFLINE'' else ''DIRECT_APP_OFFLINE'')"

fun reader_exception :: "request_scope \<Rightarrow> reader_failure \<Rightarrow> source_exception" where
  "reader_exception scope ReaderUnsupported = UnsupportedMarket"
| "reader_exception scope (ReaderDirect code) = DirectError (sanitized_direct_error_code code (request_failed scope))"
| "reader_exception scope ReaderOffline = DirectError (app_offline scope)"
| "reader_exception scope ReaderOther = DirectError (request_failed scope)"

text \<open>The payload of a reader, or what its failure or its \<open>error_code\<close> becomes.\<close>

definition checked_payload :: "(json \<Rightarrow> string) \<Rightarrow> request_scope \<Rightarrow> reader_failure + payload \<Rightarrow> source_exception + payload" where
  "checked_payload repr_text scope answer =
     (case answer of Inl f \<Rightarrow> Inl (reader_exception scope f)
      | Inr d \<Rightarrow>
          (case text_of repr_text (pget d ''error_code'') of
             Some code \<Rightarrow> Inl (DirectError (sanitized_direct_error_code code (request_failed scope)))
           | None \<Rightarrow> Inr d))"

definition frida_read :: "(json \<Rightarrow> string) \<Rightarrow> reader_failure + payload \<Rightarrow> string \<Rightarrow> metric_kind \<Rightarrow> string option" where
  "frida_read repr_text answer sy =
     (case answer of Inl _ \<Rightarrow> empty_metric_values
      | Inr d \<Rightarrow> (case parse_payload repr_text d sy of None \<Rightarrow> empty_metric_values | Some vs \<Rightarrow> vs))"

definition frida_read_direct ::
  "(json \<Rightarrow> string) \<Rightarrow> request_scope \<Rightarrow> (string \<Rightarrow> string \<Rightarrow> reader_failure + payload) \<Rightarrow> string \<Rightarrow> source_exception + direct_outcome" where
  "frida_read_direct repr_text scope reader sy =
     (case market_code_for_symbol sy of None \<Rightarrow> Inl UnsupportedMarket
      | Some market \<Rightarrow>
          (case checked_payload repr_text scope (reader sy market) of Inl e \<Rightarrow> Inl e
           | Inr d \<Rightarrow>
               (case (parse_payload repr_text d sy, parse_intraday_series repr_text d sy) of
                  (Some vs, Some series) \<Rightarrow>
                    Inr \<lparr>out_values = vs, out_errors = no_source_errors, out_series = map_of series, stored_trade_dates = []\<rparr>
                | _ \<Rightarrow> Inl ParseError)))"

definition frida_market_snapshot ::
  "(json \<Rightarrow> string) \<Rightarrow> (string \<Rightarrow> string \<Rightarrow> reader_failure + payload) \<Rightarrow> time \<Rightarrow> string \<Rightarrow> source_exception + snapshot" where
  "frida_market_snapshot repr_text reader now sy =
     (case market_code_for_symbol sy of None \<Rightarrow> Inl UnsupportedMarket
      | Some market \<Rightarrow>
          (case checked_payload repr_text SCOPE_ALL (reader sy market) of Inl e \<Rightarrow> Inl e
           | Inr d \<Rightarrow>
               (case parse_market_snapshot repr_text now d sy market of None \<Rightarrow> Inl ParseError | Some s \<Rightarrow> Inr s)))"

section \<open>Pages of bars\<close>

fun series_bars :: "(json \<Rightarrow> string) \<Rightarrow> json list \<Rightarrow> kline_bar list option" where
  "series_bars repr_text [] = Some []"
| "series_bars repr_text (j # js) =
     (case j of
        JObj d \<Rightarrow>
          (case text_of repr_text (pget d ''time'') of None \<Rightarrow> series_bars repr_text js
           | Some time \<Rightarrow> do {
               o1 \<leftarrow> market_number (decimal_of_json (pget d ''open''));
               h \<leftarrow> market_number (decimal_of_json (pget d ''high''));
               l \<leftarrow> market_number (decimal_of_json (pget d ''low''));
               c \<leftarrow> market_number (decimal_of_json (pget d ''close''));
               v \<leftarrow> market_number (decimal_of_json (pget d ''volume''));
               a \<leftarrow> market_number (decimal_of_json (pget d ''amount''));
               bars \<leftarrow> series_bars repr_text js;
               Some (\<lparr>bar_time = time, bar_open = o1, bar_high = h, bar_low = l, bar_close = c, bar_volume = v,
                      bar_amount = a\<rparr> # bars)
             })
      | _ \<Rightarrow> series_bars repr_text js)"

fun series_indicators :: "(string, json) dict \<Rightarrow> (string, string option list) dict option" where
  "series_indicators [] = Some []"
| "series_indicators ((name, v) # rest) =
     (case list_value v of None \<Rightarrow> series_indicators rest
      | Some vs \<Rightarrow> do {
          numbers \<leftarrow> all_some (map (\<lambda>x. market_number (decimal_of_json x)) vs);
          others \<leftarrow> series_indicators rest;
          Some ((name, numbers) # others) })"

definition empty_page :: "string \<Rightarrow> string \<Rightarrow> series_page" where
  "empty_page sy period = \<lparr>page_symbol = sy, page_period = period, page_bars = [], page_indicators = [], next_cursor = None,
     page_source_error = None, page_adjustment = None, page_source = None, page_cached = False, page_stale = False,
     page_errors = []\<rparr>"

text \<open>\<open>read_market_series\<close>; without a reader there are no bars. Here a code of the application leaves as
  it is.\<close>

definition frida_market_series ::
  "(json \<Rightarrow> string) \<Rightarrow> (string \<Rightarrow> string \<Rightarrow> string \<Rightarrow> string option \<Rightarrow> nat \<Rightarrow> reader_failure + payload) option \<Rightarrow>
   string \<Rightarrow> string \<Rightarrow> string option \<Rightarrow> nat \<Rightarrow> source_exception + series_page" where
  "frida_market_series repr_text reader sy period cursor limit =
     (case market_code_for_symbol sy of None \<Rightarrow> Inl UnsupportedMarket
      | Some market \<Rightarrow>
          (case reader of None \<Rightarrow> Inr (empty_page sy period\<lparr>page_source_error := Some ''DIRECT_KLINE_UNAVAILABLE''\<rparr>)
           | Some read \<Rightarrow>
               (case read sy market period cursor limit of
                  Inl ReaderUnsupported \<Rightarrow> Inl UnsupportedMarket
                | Inl (ReaderDirect code) \<Rightarrow> Inl (DirectError code)
                | Inl _ \<Rightarrow> Inl (DirectError ''DIRECT_KLINE_REQUEST_FAILED'')
                | Inr d \<Rightarrow>
                    (case text_of repr_text (pget d ''error_code'') of
                       Some code \<Rightarrow> Inl (DirectError code)
                     | None \<Rightarrow>
                         (case (Option.bind (pitems d ''bars'') (series_bars repr_text),
                                (case pget d ''indicators'' of JObj i \<Rightarrow> series_indicators i | _ \<Rightarrow> Some [])) of
                            (Some bars, Some indicators) \<Rightarrow>
                              Inr (empty_page sy period\<lparr>page_bars := bars, page_indicators := indicators,
                                 next_cursor := text_of repr_text (pget d ''next_cursor'')\<rparr>)
                          | _ \<Rightarrow> Inl ParseError)))))"

section \<open>Symbols\<close>

record symbol_lookup =
  lookup_symbol :: string
  lookup_name :: string
  lookup_market :: string
  lookup_label :: "string option"
  lookup_securities_code :: "string option"

text \<open>\<open>_read_symbol_candidates\<close>; a reader that raises a lookup error itself is not modelled.\<close>

definition symbol_candidates :: "(json \<Rightarrow> string) \<Rightarrow> reader_failure + payload \<Rightarrow> source_exception + json list" where
  "symbol_candidates repr_text answer =
     (case answer of
        Inl ReaderUnsupported \<Rightarrow> Inl UnsupportedMarket
      | Inl (ReaderDirect code) \<Rightarrow> Inl (DirectError code)
      | Inl _ \<Rightarrow> Inl (DirectError ''SYMBOL_LOOKUP_FAILED'')
      | Inr d \<Rightarrow>
          (case text_of repr_text (pget d ''error_code'') of Some code \<Rightarrow> Inl (DirectError code)
           | None \<Rightarrow>
               (case dget d ''results'' of None \<Rightarrow> Inr []
                | Some v \<Rightarrow> (case list_value v of None \<Rightarrow> Inl (DirectError ''SYMBOL_LOOKUP_INVALID'') | Some xs \<Rightarrow> Inr xs))))"

text \<open>The stock code, the market and the name of a candidate, when it is a dictionary that has them.\<close>

definition candidate_lookup :: "(json \<Rightarrow> string) \<Rightarrow> json \<Rightarrow> symbol_lookup option" where
  "candidate_lookup repr_text j =
     (case j of
        JObj d \<Rightarrow> do {
          code \<leftarrow> text_of repr_text (pget d ''stock_code'');
          market \<leftarrow> text_of repr_text (pget d ''market_id'');
          name \<leftarrow> text_of repr_text (pget d ''stock_name'');
          Some \<lparr>lookup_symbol = code, lookup_name = name, lookup_market = market,
                lookup_label = text_of repr_text (pget d ''market_label''),
                lookup_securities_code = text_of repr_text (pget d ''securities_code'')\<rparr>
        }
      | _ \<Rightarrow> None)"

definition lookup_matches :: "(json \<Rightarrow> string) \<Rightarrow> string \<Rightarrow> string \<Rightarrow> json list \<Rightarrow> symbol_lookup list" where
  "lookup_matches repr_text sy market results =
     filter (\<lambda>l. lookup_symbol l = sy \<and> lookup_market l = market) (List.map_filter (candidate_lookup repr_text) results)"

definition frida_lookup_symbol ::
  "(json \<Rightarrow> string) \<Rightarrow> (string \<Rightarrow> reader_failure + payload) \<Rightarrow> string \<Rightarrow> source_exception + symbol_lookup" where
  "frida_lookup_symbol repr_text reader sy =
     (let normalized = strip sy in
      case market_code_for_symbol normalized of None \<Rightarrow> Inl UnsupportedMarket
      | Some expected_market \<Rightarrow>
          (case symbol_candidates repr_text (reader normalized) of Inl e \<Rightarrow> Inl e
           | Inr results \<Rightarrow>
               (case lookup_matches repr_text normalized expected_market results of
                  [] \<Rightarrow> Inl SymbolNotFound
                | [l] \<Rightarrow> Inr l
                | _ \<Rightarrow> Inl SymbolAmbiguous)))"

text \<open>A candidate whose market is that of its code.\<close>

definition consistent_lookup :: "symbol_lookup \<Rightarrow> bool" where
  "consistent_lookup l \<longleftrightarrow> length (lookup_symbol l) = 6 \<and> all_digits (lookup_symbol l)
     \<and> market_code_for_symbol (lookup_symbol l) = Some (lookup_market l)"

abbreviation lookup_identity :: "symbol_lookup \<Rightarrow> string \<times> string" where
  "lookup_identity l \<equiv> (lookup_symbol l, lookup_market l)"

fun search_loop ::
  "(json \<Rightarrow> string) \<Rightarrow> nat \<Rightarrow> json list \<Rightarrow> (string \<times> string) set \<Rightarrow> symbol_lookup list \<Rightarrow> symbol_lookup list" where
  "search_loop repr_text limit [] seen matches = matches"
| "search_loop repr_text limit (j # js) seen matches =
     (case candidate_lookup repr_text j of None \<Rightarrow> search_loop repr_text limit js seen matches
      | Some l \<Rightarrow>
          if \<not> consistent_lookup l \<or> lookup_identity l \<in> seen then search_loop repr_text limit js seen matches
          else if limit \<le> length (matches @ [l]) then matches @ [l]
          else search_loop repr_text limit js (insert (lookup_identity l) seen) (matches @ [l]))"

text \<open>The characters of a text: the bytes that do not continue one.\<close>

definition text_length :: "string \<Rightarrow> nat" where
  "text_length s = length (filter (\<lambda>c. let n = of_char c :: nat in \<not> (128 \<le> n \<and> n < 192)) s)"

definition frida_search_symbols ::
  "(json \<Rightarrow> string) \<Rightarrow> (string \<Rightarrow> reader_failure + payload) \<Rightarrow> string \<Rightarrow> int \<Rightarrow> source_exception + symbol_lookup list" where
  "frida_search_symbols repr_text reader query limit =
     (let normalized = strip query in
      if \<not> (2 \<le> text_length normalized \<and> text_length normalized \<le> 32) then Inl InvalidArgument
      else if \<not> (1 \<le> limit \<and> limit \<le> 8) then Inl InvalidArgument
      else (case symbol_candidates repr_text (reader normalized) of Inl e \<Rightarrow> Inl e
        | Inr results \<Rightarrow> Inr (search_loop repr_text (nat limit) results {} [])))"

end
