(* ===== verification/Frida_Properties.thy ===== *)
theory Frida_Properties
  imports Frida_Source
begin

text \<open>
  What the value source makes of a payload: the candidates a search returns, the one a lookup returns, and
  the fund flows of a period, with their witnesses.
\<close>

section \<open>Searches\<close>

lemma search_loop_eq:
  assumes "length matches < limit"
  shows "search_loop repr_text limit js seen matches = matches @ take (limit - length matches)
     (keep_first lookup_identity seen (filter consistent_lookup (List.map_filter (candidate_lookup repr_text) js)))"
  using assms
proof (induction js arbitrary: seen matches)
  case (Cons j js)
  show ?case
  proof (cases "candidate_lookup repr_text j")
    case (Some l)
    then show ?thesis
      using Cons.IH [of "matches @ [l]" "insert (lookup_identity l) seen"] Cons.IH [of matches seen] Cons.prems
      by (cases "limit \<le> Suc (length matches)")
        (auto simp: map_filter_simps Suc_diff_le take_Cons' diff_Suc split: nat.splits)
  qed (use Cons in \<open>simp add: map_filter_simps\<close>)
qed (simp add: map_filter_simps)

text \<open>
  C31: A search returns the first \<open>limit\<close> of the candidates the application showed, in its order, that
  have a code, a market and a name and whose market is that of the code, each security once.
\<close>

theorem search_returns_first_candidates:
  assumes "frida_search_symbols repr_text reader query limit = Inr found"
  shows "\<exists>results. symbol_candidates repr_text (reader (strip query)) = Inr results
    \<and> found = take (nat limit) (keep_first lookup_identity {}
        (filter consistent_lookup (List.map_filter (candidate_lookup repr_text) results)))
    \<and> length found \<le> 8 \<and> distinct (map lookup_identity found) \<and> list_all consistent_lookup found"
proof -
  obtain results where r: "symbol_candidates repr_text (reader (strip query)) = Inr results"
    and found: "found = search_loop repr_text (nat limit) results {} []" and l: "1 \<le> limit" "limit \<le> 8"
    using assms by (auto simp: frida_search_symbols_def Let_def split: if_splits sum.splits)
  let ?all = "keep_first lookup_identity {} (filter consistent_lookup (List.map_filter (candidate_lookup repr_text) results))"
  have eq: "found = take (nat limit) ?all"
    using search_loop_eq [of "[]" "nat limit"] found l by simp
  moreover have "length found \<le> 8" using l by (simp add: eq)
  moreover have "distinct (map lookup_identity found)"
    using keep_first_distinct [of lookup_identity "{}"] by (simp add: eq flip: take_map)
  moreover have "list_all consistent_lookup found"
    by (auto simp: eq list_all_iff dest!: in_set_takeD keep_first_sub)
  ultimately show ?thesis using r by blast
qed

definition demo_candidate :: "string \<Rightarrow> string \<Rightarrow> json" where
  "demo_candidate code market = JObj [(''stock_code'', JStr code), (''market_id'', JStr market), (''stock_name'', JStr ''Bank'')]"

definition demo_results :: payload where
  "demo_results = [(''results'', JArr [demo_candidate ''600000'' ''17'', JNull, demo_candidate ''600000'' ''33'',
     demo_candidate ''600000'' ''17'', demo_candidate ''000001'' ''33''])]"

theorem search_returns_first_candidates_witness:
  "\<exists>found. frida_search_symbols (\<lambda>_. []) (\<lambda>_. Inr demo_results) ''bank'' 8 = Inr found
    \<and> map lookup_identity found = [(''600000'', ''17''), (''000001'', ''33'')] \<and> length found \<le> 8"
proof -
  have "map_sum (\<lambda>_. ()) (map lookup_identity) (frida_search_symbols (\<lambda>_. []) (\<lambda>_. Inr demo_results) ''bank'' 8)
    = Inr [(''600000'', ''17''), (''000001'', ''33'')]" by code_simp
  then obtain found where f: "frida_search_symbols (\<lambda>_. []) (\<lambda>_. Inr demo_results) ''bank'' 8 = Inr found"
    and ids: "map lookup_identity found = [(''600000'', ''17''), (''000001'', ''33'')]"
    by (cases "frida_search_symbols (\<lambda>_. []) (\<lambda>_. Inr demo_results) ''bank'' 8") simp_all
  moreover from search_returns_first_candidates [OF f] have "length found \<le> 8" by (elim exE conjE)
  ultimately show ?thesis by (intro exI conjI)
qed

section \<open>Fund flows\<close>

text \<open>The last entry of a period, and the amount it gives under one of the four names.\<close>

definition flow_of_period :: "(json \<Rightarrow> string) \<Rightarrow> json list \<Rightarrow> string \<Rightarrow> payload option" where
  "flow_of_period repr_text js period =
     (let flows = filter (\<lambda>f. fund_flow_period repr_text (flow_value f [''period'', ''win_size'']) = Some (Some period))
        (List.map_filter (\<lambda>j. case j of JObj d \<Rightarrow> Some d | _ \<Rightarrow> None) js)
      in if flows = [] then None else Some (last flows))"

definition given_amount :: "payload \<Rightarrow> string \<Rightarrow> rat option" where
  "given_amount flow name = interface_decimal (flow_value flow
     (if name = ''main_net_inflow'' then [''main_in'', ''mainIn'', ''main_capital'']
      else if name = ''main_visible_inflow'' then [''main_listed'', ''mainListed'', ''main_visible_inflow'']
      else if name = ''main_hidden_inflow'' then [''main_grey'', ''mainGrey'', ''main_hidden_inflow'']
      else [''main_retail_investor'', ''mainRetailInvestor'', ''retail_inflow'']))"

definition flow_amount :: "payload \<Rightarrow> string \<Rightarrow> rat option" where
  "flow_amount flow name =
     (if name = ''retail_inflow'' \<and> given_amount flow name = None
      then map_option (\<lambda>x. dec28 (- x)) (given_amount flow ''main_net_inflow'') else given_amount flow name)"

text \<open>A text is there exactly when the amount is and is not one of the two sentinels; it reads back as the
  amount rounded to 28 digits.\<close>

definition amount_shown :: "rat option \<Rightarrow> string option \<Rightarrow> bool" where
  "amount_shown amount shown =
     (case without_sentinels amount of None \<Rightarrow> shown = None
      | Some v \<Rightarrow> (\<exists>t. shown = Some t \<and> decimal_of_text t = Some (dec28 v) \<and> \<bar>dec28 v\<bar> < 10 ^ 28))"

definition flow_shown :: "(metric_kind \<Rightarrow> string option) \<Rightarrow> string \<Rightarrow> payload \<Rightarrow> bool" where
  "flow_shown vs period flow \<longleftrightarrow>
     vs (unit_kind_of period) = fund_flow_unit (flow_value flow [''current_unit'', ''currentUnit''])
     \<and> list_all (\<lambda>(name, kind). amount_shown (flow_amount flow name) (vs kind)) (fund_flow_metrics period)"

definition flow_kinds :: "string \<Rightarrow> metric_kind list" where
  "flow_kinds period = unit_kind_of period # map snd (fund_flow_metrics period)"

lemma market_number_shows: "market_number amount = Some shown \<Longrightarrow> amount_shown amount shown"
  using dec28_decimal plain_text_round
  by (force simp: market_number_def amount_shown_def split: option.splits if_splits)

lemma flow_period_known:
  "fund_flow_period repr_text j = Some (Some p) \<Longrightarrow> p \<in> {''today'', ''three_day'', ''five_day''}"
  by (auto simp: fund_flow_period_def split: option.splits if_splits)

lemmas flow_kind_simps = flow_kinds_def unit_kind_of_def fund_flow_periods_def fund_flow_metrics_def

lemma flow_values_shows:
  assumes "flow_values period flow vs = Some vs1" "period \<in> {''today'', ''three_day'', ''five_day''}"
  shows "flow_shown vs1 period flow"
proof -
  let ?given = "given_amount flow"
  obtain m v h r where n: "market_number (?given ''main_net_inflow'') = Some m" "market_number (?given ''main_visible_inflow'') = Some v"
      "market_number (?given ''main_hidden_inflow'') = Some h" "market_number (flow_amount flow ''retail_inflow'') = Some r"
    and vs1: "vs1 = vs(unit_kind_of period := fund_flow_unit (flow_value flow [''current_unit'', ''currentUnit'']),
      the (dget (fund_flow_metrics period) ''main_net_inflow'') := m, the (dget (fund_flow_metrics period) ''main_visible_inflow'') := v,
      the (dget (fund_flow_metrics period) ''main_hidden_inflow'') := h, the (dget (fund_flow_metrics period) ''retail_inflow'') := r)"
    using assms(1) by (cases "?given ''retail_inflow''")
      (auto simp: flow_values_def Let_def flow_amount_def given_amount_def split: bind_splits)
  have "amount_shown (flow_amount flow ''main_net_inflow'') m" "amount_shown (flow_amount flow ''main_visible_inflow'') v"
    "amount_shown (flow_amount flow ''main_hidden_inflow'') h" "amount_shown (flow_amount flow ''retail_inflow'') r"
    using n by (simp_all add: market_number_shows flow_amount_def)
  then show ?thesis using assms(2) by (auto simp: flow_shown_def vs1 flow_kind_simps)
qed

lemma flow_values_other:
  assumes "flow_values period flow vs = Some vs1" "k \<notin> set (flow_kinds period)" "period \<in> {''today'', ''three_day'', ''five_day''}"
  shows "vs1 k = vs k"
proof -
  obtain u a b c d where vs1: "vs1 = vs(unit_kind_of period := u, the (dget (fund_flow_metrics period) ''main_net_inflow'') := a,
      the (dget (fund_flow_metrics period) ''main_visible_inflow'') := b, the (dget (fund_flow_metrics period) ''main_hidden_inflow'') := c,
      the (dget (fund_flow_metrics period) ''retail_inflow'') := d)"
    using assms(1) by (auto simp: flow_values_def Let_def split: bind_splits)
  show ?thesis using assms(3,2) unfolding vs1 by (elim insertE emptyE) (simp_all add: flow_kind_simps)
qed

lemma flow_kinds_disjoint:
  "p \<in> {''today'', ''three_day'', ''five_day''} \<Longrightarrow> q \<in> {''today'', ''three_day'', ''five_day''} \<Longrightarrow> p \<noteq> q \<Longrightarrow>
   set (flow_kinds p) \<inter> set (flow_kinds q) = {}"
  by (elim insertE emptyE) (simp_all add: flow_kind_simps)

lemma flow_shown_cong:
  "(\<And>k. k \<in> set (flow_kinds p) \<Longrightarrow> vs k = vs1 k) \<Longrightarrow> flow_shown vs p flow = flow_shown vs1 p flow"
proof -
  assume same: "\<And>k. k \<in> set (flow_kinds p) \<Longrightarrow> vs k = vs1 k"
  have "vs k = vs1 k" if "(n, k) \<in> set (fund_flow_metrics p)" for n k
    using image_eqI [OF _ that, of k snd] by (intro same) (simp add: flow_kinds_def)
  moreover have "vs (unit_kind_of p) = vs1 (unit_kind_of p)" by (rule same) (simp add: flow_kinds_def)
  ultimately show ?thesis by (auto simp: flow_shown_def list_all_iff simp del: flow_value.simps)
qed

lemma flow_of_period_Cons:
  "flow_of_period repr_text (j # js) p =
     (case flow_of_period repr_text js p of Some f \<Rightarrow> Some f
      | None \<Rightarrow> (case j of JObj d \<Rightarrow>
            if fund_flow_period repr_text (flow_value d [''period'', ''win_size'']) = Some (Some p) then Some d else None
          | _ \<Rightarrow> None))"
  by (auto simp: flow_of_period_def Let_def map_filter_simps split: json.splits)

lemma flows_loop_shows:
  assumes "flows_loop repr_text js vs = Some vs1" "p \<in> {''today'', ''three_day'', ''five_day''}"
  shows "case flow_of_period repr_text js p of None \<Rightarrow> (\<forall>k\<in>set (flow_kinds p). vs1 k = vs k) | Some f \<Rightarrow> flow_shown vs1 p f"
  using assms(1)
proof (induction js arbitrary: vs)
  case (Cons j js)
  show ?case
  proof (cases "\<exists>d q. j = JObj d \<and> fund_flow_period repr_text (flow_value d [''period'', ''win_size'']) = Some (Some q)")
    case True
    then obtain d q where j: "j = JObj d"
      and q: "fund_flow_period repr_text (flow_value d [''period'', ''win_size'']) = Some (Some q)" by blast
    with Cons.prems obtain vs2 where v: "flow_values q d vs = Some vs2" and l: "flows_loop repr_text js vs2 = Some vs1"
      by (auto split: bind_splits)
    note ih = Cons.IH [OF l] and known = flow_period_known [OF q]
    show ?thesis
    proof (cases "flow_of_period repr_text js p")
      case None
      then have same: "\<forall>k\<in>set (flow_kinds p). vs1 k = vs2 k" using ih by simp
      show ?thesis
      proof (cases "q = p")
        case eq: True
        have "flow_shown vs1 p d"
          using flow_values_shows [OF v known] flow_shown_cong [of p vs1 vs2] same eq by simp
        then show ?thesis by (simp add: flow_of_period_Cons None j q eq del: flow_value.simps)
      next
        case False
        then have "\<forall>k\<in>set (flow_kinds p). vs1 k = vs k"
          using same flow_values_other [OF v _ known] flow_kinds_disjoint [OF assms(2) known] by (metis disjoint_iff)
        then show ?thesis using False by (simp add: flow_of_period_Cons None j q del: flow_value.simps)
      qed
    qed (use ih in \<open>simp add: flow_of_period_Cons\<close>)
  next
    case False
    then have "flows_loop repr_text js vs = Some vs1"
      and "flow_of_period repr_text (j # js) p = flow_of_period repr_text js p"
      using Cons.prems by (auto simp: flow_of_period_Cons split: json.splits option.splits)
    then show ?thesis using Cons.IH by simp
  qed
qed (simp add: flow_of_period_def map_filter_simps)

lemma indicator_values_other:
  "indicator_values latest vs = Some vs1 \<Longrightarrow> p \<in> {''today'', ''three_day'', ''five_day''} \<Longrightarrow> k \<in> set (flow_kinds p) \<Longrightarrow> vs1 k = vs k"
  by (auto simp: indicator_values_def flow_kind_simps split: bind_splits)

lemma quote_values_other:
  "quote_values repr_text q vs = Some vs1 \<Longrightarrow> p \<in> {''today'', ''three_day'', ''five_day''} \<Longrightarrow> k \<in> set (flow_kinds p) \<Longrightarrow> vs1 k = vs k"
  by (auto simp: quote_values_def Let_def flow_kind_simps split: bind_splits)

text \<open>
  C15: The fund-flow values of a period are those of the last entry of the payload for it: the unit it names,
  and for each of the four names a text exactly when the entry gives an amount that is not one of the two
  values the application shows without permission, retail being by default the main amount with the
  other sign. The text reads back as the amount in 28 digits. A period without an entry has no values.
\<close>

theorem payload_flows_shown:
  assumes "parse_payload repr_text d sy = Some vs" "p \<in> {''today'', ''three_day'', ''five_day''}"
    "pitems d ''fund_flows'' = Some js"
  shows "case flow_of_period repr_text js p of None \<Rightarrow> (\<forall>k\<in>set (flow_kinds p). vs k = None) | Some flow \<Rightarrow> flow_shown vs p flow"
proof -
  from assms(1,3) obtain q vs0 latest vs1 where
    q: "(case q of None \<Rightarrow> Some empty_metric_values | Some q \<Rightarrow> quote_values repr_text q empty_metric_values) = Some vs0"
    and i: "indicator_values latest vs0 = Some vs1" and f: "flows_loop repr_text js vs1 = Some vs"
    by (auto simp: parse_payload_def split: bind_splits)
  have "vs1 k = None" if "k \<in> set (flow_kinds p)" for k
    using indicator_values_other [OF i assms(2) that] quote_values_other [OF _ assms(2) that] q
    by (cases q) (auto simp: empty_metric_values_def)
  then show ?thesis using flows_loop_shows [OF f assms(2)] by (auto split: option.splits)
qed

definition demo_flow :: payload where
  "demo_flow = [(''period'', JStr ''today''), (''main_in'', JNum 12345), (''main_listed'', JNum (- 2147483648))]"

definition demo_flows :: payload where
  "demo_flows = [(''fund_flows'', JArr [JNull, JObj demo_flow])]"

lemma demo_numbers:
  "market_number (Some 12345) = Some (Some (plain_text 12345))" "market_number (Some (- 12345)) = Some (Some (plain_text (- 12345)))"
  "dec28 (- 12345) = - 12345" "market_number None = Some None" "format_number None n x y = Some None"
  "interface_decimal (JNum 12345) = Some 12345" "interface_decimal (JNum (- 2147483648)) = None" "interface_decimal JNull = None"
  using dec28_exact [of 12345 0 12345] dec28_exact [of "- 12345" 0 "- 12345"]
  by (simp_all add: market_number_def without_sentinels_def permission_sentinels_def format_number_def interface_decimal_def
    decimal_of_json_def)

lemma demo_period: "fund_flow_period (\<lambda>_. []) (flow_value demo_flow [''period'', ''win_size'']) = Some (Some ''today'')"
  by code_simp

lemma demo_flow_values: "\<exists>vs1. flow_values ''today'' demo_flow vs = Some vs1"
  by (simp add: flow_values_def demo_flow_def demo_numbers)

lemma demo_payload: "\<exists>vs. parse_payload (\<lambda>_. []) demo_flows ''600000'' = Some vs"
proof -
  obtain vs1 where "indicator_values [] empty_metric_values = Some vs1" by (simp add: indicator_values_def demo_numbers)
  moreover obtain vs2 where "flow_values ''today'' demo_flow vs1 = Some vs2" using demo_flow_values by blast
  moreover have "pitems demo_flows ''fund_flows'' = Some [JNull, JObj demo_flow]" "pitems demo_flows ''quotes'' = Some []"
    "pitems demo_flows ''indicators'' = Some []" by (simp_all add: pitems_def demo_flows_def)
  ultimately show ?thesis using demo_period by (simp add: parse_payload_def del: flow_value.simps)
qed

theorem payload_flows_shown_witness:
  "\<exists>vs. parse_payload (\<lambda>_. []) demo_flows ''600000'' = Some vs \<and> vs MAIN_FLOW_TODAY_VISIBLE = None
    \<and> (\<exists>t. vs MAIN_FLOW_TODAY_RETAIL = Some t \<and> decimal_of_text t = Some (- 12345))"
proof -
  obtain vs where vs: "parse_payload (\<lambda>_. []) demo_flows ''600000'' = Some vs" using demo_payload by blast
  have "pitems demo_flows ''fund_flows'' = Some [JNull, JObj demo_flow]" by (simp add: pitems_def demo_flows_def)
  moreover have "flow_of_period (\<lambda>_. []) [JNull, JObj demo_flow] ''today'' = Some demo_flow"
    using demo_period by (simp add: flow_of_period_def map_filter_simps del: flow_value.simps)
  ultimately have "flow_shown vs ''today'' demo_flow" using payload_flows_shown [OF vs, of "''today''"] by simp
  then have "amount_shown (flow_amount demo_flow ''main_visible_inflow'') (vs MAIN_FLOW_TODAY_VISIBLE)"
    "amount_shown (flow_amount demo_flow ''retail_inflow'') (vs MAIN_FLOW_TODAY_RETAIL)"
    by (simp_all add: flow_shown_def fund_flow_metrics_def)
  moreover have "flow_amount demo_flow ''main_visible_inflow'' = None" "flow_amount demo_flow ''retail_inflow'' = Some (- 12345)"
    by (simp_all add: flow_amount_def given_amount_def demo_flow_def demo_numbers)
  ultimately show ?thesis
    using vs demo_numbers(3) by (auto simp: amount_shown_def without_sentinels_def permission_sentinels_def)
qed

section \<open>Points of a series\<close>

text \<open>The last values, one for each of the last times, and none for the times before them.\<close>

definition aligned :: "nat \<Rightarrow> 'a list \<Rightarrow> 'a option list" where
  "aligned n xs = rev (take n (map Some (rev xs) @ replicate n None))"

lemma aligned_trailing: "aligned n xs = replicate (n - length (trailing n xs)) None @ map Some (trailing n xs)"
  by (cases "n < length xs") (simp_all add: aligned_def trailing_def rev_take rev_map min_def drop_map)

definition point_of :: "(json \<Rightarrow> string) \<Rightarrow> nat \<Rightarrow> rat \<Rightarrow> bool \<Rightarrow> string \<times> json option \<Rightarrow> point option" where
  "point_of repr_text places divisor show_plus = (\<lambda>(time, value).
     map_option (Pair time)
       (format_number (map_option (\<lambda>x. ddiv x divisor) (Option.bind value interface_decimal)) places [] show_plus))"

definition timed :: "(json \<Rightarrow> string) \<Rightarrow> json \<times> 'a \<Rightarrow> (string \<times> 'a) option" where
  "timed repr_text = (\<lambda>(raw, v). map_option (\<lambda>time. (time, v)) (intraday_time repr_text raw))"

lemma points_loop_aligned:
  assumes "index + length ts = gaps + length tail_values"
  shows "intraday_points_loop repr_text places divisor show_plus tail_values gaps index ts =
    all_some (map (point_of repr_text places divisor show_plus)
      (List.map_filter (timed repr_text) (zip ts (drop index (replicate gaps None @ map Some tail_values)))))"
  using assms
proof (induction ts arbitrary: index)
  case (Cons raw ts)
  let ?slots = "replicate gaps None @ map Some tail_values"
  have "index < length ?slots" using Cons.prems by simp
  then have "drop index ?slots = ?slots ! index # drop (Suc index) ?slots" by (rule Cons_nth_drop_Suc [symmetric])
  moreover have "Option.bind (?slots ! index) interface_decimal
      = (if gaps \<le> index then interface_decimal (tail_values ! (index - gaps)) else None)"
    using Cons.prems by (simp add: nth_append)
  ultimately show ?case using Cons.IH [of "Suc index"] Cons.prems
    by (auto simp: map_filter_simps timed_def point_of_def simp del: drop_append split: option.splits bind_splits)
qed (simp add: map_filter_simps)

text \<open>
  The points of an intraday series pair its times with its values from the end: with fewer values
  than times the first times have none, with more the first values are left out, and a time that
  cannot be read takes its value with it.
\<close>

theorem intraday_points_aligned:
  "format_intraday_points repr_text ts values places divisor show_plus =
     all_some (map (point_of repr_text places divisor show_plus)
       (List.map_filter (timed repr_text) (zip ts (aligned (length ts) values))))"
  using points_loop_aligned [of 0 ts "length ts - length (trailing (length ts) values)" "trailing (length ts) values"]
  by (simp add: format_intraday_points_def aligned_trailing trailing_def)

end
