(* ===== verification/Instants.thy ===== *)
theory Instants
  imports Session_Material
begin

text \<open>
  Instants and their texts: \<open>datetime.fromisoformat\<close> gives back the instant whose \<open>isoformat\<close> it reads, by the
  inversion of the calendar computation of \<open>Clock\<close>.
\<close>

section \<open>The calendar\<close>

text \<open>A day of an era of 400 years by its century, its olympiad, its year and its day, from March on.\<close>

lemma shape: "0 \<le> doe \<Longrightarrow> doe < 146097 \<Longrightarrow> \<exists>h k j r. doe = 36524 * h + 1461 * k + 365 * j + r \<and> 0 \<le> h \<and> h \<le> 3 \<and> 0 \<le> k \<and> k \<le> 24
   \<and> 0 \<le> j \<and> j \<le> 3 \<and> 0 \<le> r \<and> r \<le> 365 \<and> (r = 365 \<longrightarrow> j = 3 \<and> (k < 24 \<or> h = 3))" for doe :: int
proof -
  assume a: "0 \<le> doe" "doe < 146097"
  define h where "h = min (doe div 36524) 3"
  define u where "u = doe - 36524 * h"
  have h: "0 \<le> h" "h \<le> 3" "0 \<le> u" "u \<le> 36524" "u = 36524 \<longrightarrow> h = 3" using a by (auto simp: h_def u_def min_def)
  define k where "k = min (u div 1461) 24"
  define v where "v = u - 1461 * k"
  have k: "0 \<le> k" "k \<le> 24" "0 \<le> v" "v \<le> 1460" "v = 1460 \<longrightarrow> k < 24 \<or> h = 3" using h by (auto simp: k_def v_def min_def)
  define j where "j = min (v div 365) 3"
  define r where "r = v - 365 * j"
  have j: "0 \<le> j" "j \<le> 3" "0 \<le> r" "r \<le> 365" "r = 365 \<longrightarrow> j = 3 \<and> v = 1460" using k by (auto simp: j_def r_def min_def)
  have "doe = 36524 * h + 1461 * k + 365 * j + r" by (simp add: u_def v_def r_def)
  then show ?thesis using h k j by blast
qed

lemma div_is: "q * n \<le> x \<Longrightarrow> x < q * n + n \<Longrightarrow> x div n = (q :: int)"
  using int_div_pos_eq [of x n q "x - q * n"] by (simp add: mult.commute)

lemma year_of_era:
  assumes "doe = 36524 * h + 1461 * k + 365 * j + r" "0 \<le> h" "h \<le> 3" "0 \<le> k" "k \<le> 24"
    "0 \<le> j" "j \<le> 3" "0 \<le> r" "r \<le> 365" "r = 365 \<longrightarrow> j = 3 \<and> (k < 24 \<or> h = 3)"
  shows "(doe - doe div 1460 + doe div 36524 - doe div 146096) div 365 = 100 * h + 4 * k + (j :: int)"
proof -
  define \<epsilon> where "\<epsilon> = (if j = 3 \<and> 365 \<le> 24 * h + k + r then 1 else (0 :: int))"
  define \<delta> where "\<delta> = (if h = 3 \<and> k = 24 \<and> r = 365 then 1 else (0 :: int))"
  have a: "doe div 1460 = 25 * h + k + \<epsilon>" using assms by (intro div_is) (auto simp: \<epsilon>_def)
  have b: "doe div 36524 = h + \<delta>" "doe div 146096 = \<delta>"
    using assms by (auto intro!: div_is simp: \<delta>_def)
  have "(doe - doe div 1460 + doe div 36524 - doe div 146096) = 365 * (100 * h + 4 * k + j) + (r - \<epsilon>)"
    unfolding a b unfolding assms(1) by (simp add: algebra_simps)
  moreover have "0 \<le> r - \<epsilon>" "r - \<epsilon> < 365" using assms by (auto simp: \<epsilon>_def)
  ultimately show ?thesis by (intro div_is) auto
qed

lemma civil_round:
  assumes "civil_from_days d = (y, m, dd)"
  shows "days_from_civil y m dd = d" "1 \<le> m" "m \<le> 12" "1 \<le> dd" "dd \<le> month_days y m"
proof -
  define era where "era = (d + 719468) div 146097"
  define doe where "doe = (d + 719468) mod 146097"
  have doe: "0 \<le> doe" "doe < 146097" "d = era * 146097 + doe - 719468" by (simp_all add: doe_def era_def)
  obtain h k j r where s: "doe = 36524 * h + 1461 * k + 365 * j + r" "0 \<le> h" "h \<le> 3" "0 \<le> k" "k \<le> 24"
    "0 \<le> j" "j \<le> 3" "0 \<le> r" "r \<le> 365" "r = 365 \<longrightarrow> j = 3 \<and> (k < 24 \<or> h = 3)"
    using shape [OF doe(1,2)] by blast
  define yoe where "yoe = 100 * h + 4 * k + j"
  have q: "yoe div 4 = 25 * h + k" "yoe div 100 = h" "0 \<le> yoe" "yoe < 400" using s by (auto simp: yoe_def intro!: div_is)
  then have doy: "doe - (365 * yoe + yoe div 4 - yoe div 100) = r" using s(1) by (simp add: yoe_def)
  define mp where "mp = (5 * r + 2) div 153"
  have mp: "0 \<le> mp" "mp \<le> 11" using s(8,9) by (simp_all add: mp_def)
  have c: "y = yoe + era * 400 + (if m \<le> 2 then 1 else 0)" "m = (if mp < 10 then mp + 3 else mp - 9)"
    "dd = r - (153 * mp + 2) div 5 + 1"
    using assms unfolding civil_from_days_def Let_def era_def [symmetric] doe_def [symmetric] year_of_era [OF s, folded yoe_def] doy
      mp_def [symmetric] by auto
  show "1 \<le> m" "m \<le> 12" using mp by (auto simp: c(2))
  have y': "(if m \<le> 2 then y - 1 else y) = yoe + era * 400" by (simp add: c(1))
  have "(if m > 2 then m - 3 else m + 9) = mp" using mp by (auto simp: c(2))
  then have "days_from_civil y m dd = era * 146097 + (yoe * 365 + yoe div 4 - yoe div 100 + r) - 719468"
    unfolding days_from_civil_def Let_def y' using q by (simp add: c(3))
  then show "days_from_civil y m dd = d" using doy doe(3) by simp
  have months: "mp = 0 \<or> mp = 1 \<or> mp = 2 \<or> mp = 3 \<or> mp = 4 \<or> mp = 5 \<or> mp = 6 \<or> mp = 7 \<or> mp = 8 \<or> mp = 9 \<or> mp = 10 \<or> mp = 11"
    using mp by presburger
  have in_month: "153 * mp \<le> 5 * r + 2" "5 * r + 2 < 153 * mp + 153" unfolding mp_def by simp_all
  show "1 \<le> dd" using months in_month s(8) unfolding c(3) by auto
  have leap: "leap_year_of y" if "r = 365" "mp = 11"
  proof -
    have y: "y = 400 * era + 100 * h + 4 * (k + 1)" using that s(10) by (simp add: c yoe_def)
    then have "y = 4 * (100 * era + 25 * h + k + 1)" by simp
    then have "y mod 4 = 0" by (simp only: mod_mult_self1_is_0)
    moreover have "y mod 100 \<noteq> 0 \<or> y mod 400 = 0"
    proof (cases "k < 24")
      case True
      have "y = 4 * (k + 1) + 100 * (4 * era + h)" by (simp add: y)
      then have "y mod 100 = 4 * (k + 1) mod 100" by (simp only: mod_mult_self2)
      then have "y mod 100 = 4 * (k + 1)" using True s(4) by simp
      then show ?thesis using s(4) by simp
    next
      case False
      then show ?thesis using that s(5,10) unfolding y by simp
    qed
    ultimately show ?thesis by (simp add: leap_year_of_def)
  qed
  have "r \<le> 364" if "\<not> leap_year_of y" "mp = 11" proof -
    have "r \<noteq> 365" using leap that by blast
    then show ?thesis using s(9) by linarith
  qed
  then show "dd \<le> month_days y m"
    using months in_month s(9) unfolding c(3) month_days_def by (auto simp: c(2))
qed
section \<open>Instants as texts\<close>

text \<open>The instant of a \<open>datetime\<close>; one without an offset is taken in UTC.\<close>

definition instant_of :: "datetime \<Rightarrow> time" where
  "instant_of d =
     (days_from_civil (int (dt_year d)) (int (dt_month d)) (int (dt_day d)) * 86400 + int (dt_hour d) * 3600
       + int (dt_minute d) * 60 + int (dt_second d) - (case dt_offset d of None \<Rightarrow> 0 | Some m \<Rightarrow> m * 60)) * usec_per_sec
     + int (dt_micro d)"

definition time_of_text :: "string \<Rightarrow> time option" where
  "time_of_text s = map_option instant_of (datetime_of_text s)"

definition utc_datetime :: "time \<Rightarrow> datetime" where
  "utc_datetime t =
     (let s = t div usec_per_sec; second = s mod 86400 in
      case civil_from_days (s div 86400) of (y, m, d) \<Rightarrow>
        \<lparr>dt_year = nat y, dt_month = nat m, dt_day = nat d, dt_hour = nat (second div 3600),
         dt_minute = nat (second div 60 mod 60), dt_second = nat (second mod 60), dt_micro = nat (t mod usec_per_sec),
         dt_offset = Some 0\<rparr>)"

text \<open>The instants of the years a \<open>datetime\<close> can have.\<close>

definition valid_time :: "time \<Rightarrow> bool" where
  "valid_time t \<longleftrightarrow> (case civil_from_days (t div usec_per_sec div 86400) of (y, m, d) \<Rightarrow> 1 \<le> y \<and> y \<le> 9999)"

lemma pad_int_padded: "0 \<le> i \<Longrightarrow> pad_int w i = padded w (nat i)"
  by (simp add: pad_int_def padded_def str_of_int_def)

lemma second_parts: "(s :: int) div 3600 * 3600 + s div 60 mod 60 * 60 + s mod 60 = s"
proof -
  have sum: "q * 3600 + v * 60 + w = s" if "u * 60 + w = s" "q * 60 + v = u" for q u v w :: int
    using that by simp
  have "s div 60 div 60 = s div 3600" using zdiv_zmult2_eq [of 60 s 60] by simp
  then show ?thesis using sum [OF div_mult_mod_eq div_mult_mod_eq] by metis
qed

lemma utc_datetime_facts:
  assumes "valid_time t"
  shows "valid_datetime (utc_datetime t)" "instant_of (utc_datetime t) = t" "isoformat t = datetime_text (utc_datetime t)"
proof -
  define s where "s = t div usec_per_sec"
  define x where "x = s mod 86400"
  define us where "us = t mod usec_per_sec"
  obtain y m d where c: "civil_from_days (s div 86400) = (y, m, d)" by (cases "civil_from_days (s div 86400)")
  note cal = civil_round [OF c]
  have y: "1 \<le> y" "y \<le> 9999" using assms c by (auto simp: valid_time_def s_def)
  have us: "0 \<le> us" "us < 1000000" by (simp_all add: us_def usec_per_sec_def)
  define h mi sec where "h = x div 3600" "mi = x div 60 mod 60" "sec = x mod 60"
  have "0 \<le> x" "x < 86400" by (simp_all add: x_def)
  then have part: "0 \<le> h" "h < 24" "0 \<le> mi" "mi < 60" "0 \<le> sec" "sec < 60" by (auto simp: h_mi_sec_def pos_imp_zdiv_neg_iff)
  have u: "utc_datetime t = \<lparr>dt_year = nat y, dt_month = nat m, dt_day = nat d, dt_hour = nat h,
         dt_minute = nat mi, dt_second = nat sec, dt_micro = nat us, dt_offset = Some 0\<rparr>"
    by (simp only: utc_datetime_def Let_def c prod.case h_mi_sec_def x_def us_def flip: s_def)
  show "valid_datetime (utc_datetime t)"
    unfolding u valid_datetime_def using cal y us part by (simp add: nat_less_iff nat_le_iff Suc_le_eq)
  have "h * 3600 + mi * 60 + sec = x" unfolding h_mi_sec_def by (rule second_parts)
  moreover have "(s div 86400 * 86400 + x) * usec_per_sec + us = t" unfolding x_def us_def s_def by (simp only: div_mult_mod_eq)
  ultimately show "instant_of (utc_datetime t) = t"
    unfolding u instant_of_def using cal y us part by (simp add: add.assoc)
  have z: "offset_text (Some 0) = ''+00:00''" by code_simp
  have "isoformat t = pad_int 4 y @ ''-'' @ pad_int 2 m @ ''-'' @ pad_int 2 d @ ''T''
      @ (pad_int 2 h @ '':'' @ pad_int 2 mi @ '':'' @ pad_int 2 sec) @ (if us = 0 then [] else ''.'' @ pad_int 6 us) @ ''+00:00''"
    by (simp only: isoformat_def Let_def c prod.case hms_text_def h_mi_sec_def x_def us_def flip: s_def)
  then show "isoformat t = datetime_text (utc_datetime t)"
    unfolding u datetime_text_def using cal y us part by (simp add: pad_int_padded z)
qed

lemma instant_round: "valid_time t \<Longrightarrow> time_of_text (isoformat t) = Some t"
  by (simp add: time_of_text_def utc_datetime_facts datetime_round)

end
