(* ===== verification/Task_Document.thy ===== *)
theory Task_Document
  imports Instants Task_Queue
begin

text \<open>
  The stored document of a task, \<open>_serialize\<close> and \<open>_deserialize\<close> of \<open>RedisStreamsStore\<close> in
  \<open>level2_service/queue.py\<close>, as the JSON documents that \<open>json.dumps\<close> writes and \<open>json.loads\<close> reads, with the proof
  that a task is read back from its document. None is a \<open>KeyError\<close>, \<open>TypeError\<close>, \<open>ValueError\<close> or
  \<open>AttributeError\<close>. A field of another type than the record's, which Python would keep as it is, is None here.
\<close>

section \<open>Enumerations by value\<close>

fun metric_kind_value :: "metric_kind \<Rightarrow> string" where
  "metric_kind_value STOCK_NAME = ''STOCK_NAME''"
| "metric_kind_value CURRENT_PRICE = ''CURRENT_PRICE''"
| "metric_kind_value CHANGE_PERCENT = ''CHANGE_PERCENT''"
| "metric_kind_value TURNOVER_RATE = ''TURNOVER_RATE''"
| "metric_kind_value RETAIL_COUNT = ''RETAIL_COUNT''"
| "metric_kind_value LARGE_ORDER_NET = ''LARGE_ORDER_NET''"
| "metric_kind_value LARGE_ORDER_AMOUNT = ''LARGE_ORDER_AMOUNT''"
| "metric_kind_value MACDFS = ''MACDFS''"
| "metric_kind_value MAIN_FLOW_TODAY_NET = ''MAIN_FLOW_TODAY_NET''"
| "metric_kind_value MAIN_FLOW_TODAY_VISIBLE = ''MAIN_FLOW_TODAY_VISIBLE''"
| "metric_kind_value MAIN_FLOW_TODAY_HIDDEN = ''MAIN_FLOW_TODAY_HIDDEN''"
| "metric_kind_value MAIN_FLOW_TODAY_RETAIL = ''MAIN_FLOW_TODAY_RETAIL''"
| "metric_kind_value MAIN_FLOW_THREE_DAY_NET = ''MAIN_FLOW_THREE_DAY_NET''"
| "metric_kind_value MAIN_FLOW_THREE_DAY_VISIBLE = ''MAIN_FLOW_THREE_DAY_VISIBLE''"
| "metric_kind_value MAIN_FLOW_THREE_DAY_HIDDEN = ''MAIN_FLOW_THREE_DAY_HIDDEN''"
| "metric_kind_value MAIN_FLOW_THREE_DAY_RETAIL = ''MAIN_FLOW_THREE_DAY_RETAIL''"
| "metric_kind_value MAIN_FLOW_FIVE_DAY_NET = ''MAIN_FLOW_FIVE_DAY_NET''"
| "metric_kind_value MAIN_FLOW_FIVE_DAY_VISIBLE = ''MAIN_FLOW_FIVE_DAY_VISIBLE''"
| "metric_kind_value MAIN_FLOW_FIVE_DAY_HIDDEN = ''MAIN_FLOW_FIVE_DAY_HIDDEN''"
| "metric_kind_value MAIN_FLOW_FIVE_DAY_RETAIL = ''MAIN_FLOW_FIVE_DAY_RETAIL''"
| "metric_kind_value MAIN_FLOW_TODAY_UNIT = ''MAIN_FLOW_TODAY_UNIT''"
| "metric_kind_value MAIN_FLOW_THREE_DAY_UNIT = ''MAIN_FLOW_THREE_DAY_UNIT''"
| "metric_kind_value MAIN_FLOW_FIVE_DAY_UNIT = ''MAIN_FLOW_FIVE_DAY_UNIT''"

text \<open>\<open>Enum(value)\<close>: the member with the value; None is the \<open>ValueError\<close>.\<close>

definition member_of :: "('e \<Rightarrow> string) \<Rightarrow> 'e list \<Rightarrow> json \<Rightarrow> 'e option" where
  "member_of value members j = (case j of JStr s \<Rightarrow> find (\<lambda>e. value e = s) members | _ \<Rightarrow> None)"

definition task_statuses :: "task_status list" where
  "task_statuses = [QUEUED, RUNNING, WAITING_ADMIN, COMPLETED, MARKET_SNAPSHOT, PARTIAL, FAILED, EXPIRED]"

definition capture_statuses :: "capture_status list" where
  "capture_statuses = [PENDING, READY, SKIPPED, CS_EXPIRED]"

definition all_value_sources :: "value_source list" where
  "all_value_sources = [INTERFACE, OCR]"

section \<open>Writing\<close>

definition time_json :: "time option \<Rightarrow> json" where
  "time_json t = jstr_opt (map_option isoformat t)"

definition capture_document :: "capture \<Rightarrow> json" where
  "capture_document c = JObj [(''status'', JStr (capture_status_value (cap_status c))), (''path'', jstr_opt (cap_path c)),
     (''captured_at'', time_json (captured_at c))]"

definition maintenance_document :: "task \<Rightarrow> json" where
  "maintenance_document t =
     (if has_maintenance_metadata t
      then JObj [(''namespace'', jstr_opt (maintenance_namespace t)), (''owner_digest'', jstr_opt (maintenance_owner_digest t))]
      else JNull)"

definition series_document :: "task \<Rightarrow> json" where
  "series_document t = JObj (List.map_filter
     (\<lambda>(_, k, _). map_option (Pair (metric_kind_value k)) (intraday_series t k)) intraday_metrics)"

definition task_document :: "task \<Rightarrow> json" where
  "task_document t = JObj [
     (''task_id'', JStr (task_id t)),
     (''symbol'', JStr (symbol t)),
     (''include_long_capture'', JBool (include_long_capture t)),
     (''maintenance'', maintenance_document t),
     (''status'', JStr (task_status_value (status t))),
     (''created_at'', JStr (isoformat (created_at t))),
     (''updated_at'', JStr (isoformat (updated_at t))),
     (''completed_at'', time_json (completed_at t)),
     (''collected_at'', time_json (collected_at t)),
     (''error_code'', jstr_opt (error_code t)),
     (''source_errors'', JObj [(''core_metrics'', jstr_opt (core_metrics (source_errors t))),
                             (''main_fund_flow'', jstr_opt (main_fund_flow (source_errors t)))]),
     (''captures'', JObj (map (\<lambda>k. (capture_kind_value k, capture_document (captures t k))) capture_kinds)),
     (''values'', JObj (map (\<lambda>k. (metric_kind_value k, jstr_opt (vals t k))) metric_kinds)),
     (''value_sources'', JObj (map (\<lambda>k. (metric_kind_value k, public_value_source t k)) metric_kinds)),
     (''intraday_series'', series_document t),
     (''market_snapshot'', (case market_snapshot t of None \<Rightarrow> JNull | Some j \<Rightarrow> j)),
     (''long_capture'', capture_document (long_capture t))]"

section \<open>Reading\<close>

fun text_field :: "json \<Rightarrow> string option" where
  "text_field (JStr s) = Some s"
| "text_field _ = None"

fun bool_field :: "json \<Rightarrow> bool option" where
  "bool_field (JBool b) = Some b"
| "bool_field _ = None"

text \<open>A text or None.\<close>

definition opt_text_field :: "json \<Rightarrow> string option option" where
  "opt_text_field j = (if j = JNull then Some None else map_option Some (text_field j))"

text \<open>A text is parsed, None and the empty text are None.\<close>

definition opt_time_field :: "json \<Rightarrow> time option option" where
  "opt_time_field j =
     (if j = JNull \<or> j = JStr [] then Some None else map_option Some (Option.bind (text_field j) time_of_text))"

definition opt_path_field :: "json \<Rightarrow> path option option" where
  "opt_path_field j = (if j = JNull \<or> j = JStr [] then Some None else map_option Some (text_field j))"

definition capture_of_document :: "json \<Rightarrow> capture option" where
  "capture_of_document j = do {
     st \<leftarrow> Option.bind (jget j ''status'') (member_of capture_status_value capture_statuses);
     p \<leftarrow> Option.bind (jget j ''path'') opt_path_field;
     taken \<leftarrow> Option.bind (jget j ''captured_at'') opt_time_field;
     Some \<lparr>cap_status = st, cap_path = p, captured_at = taken\<rparr>
   }"

text \<open>\<open>raw.get(field, {}).get(key, default)\<close>; None when the field is no dictionary.\<close>

definition entry_of :: "json \<Rightarrow> string \<Rightarrow> string \<Rightarrow> json \<Rightarrow> json option" where
  "entry_of raw f k dflt = (case jget_or raw f (JObj []) of JObj d \<Rightarrow> Some (case dget d k of None \<Rightarrow> dflt | Some v \<Rightarrow> v) | _ \<Rightarrow> None)"

text \<open>A dictionary comprehension over the kinds: all of them are read, or the first exception is raised.\<close>

definition for_kinds :: "'k list \<Rightarrow> ('k \<Rightarrow> 'v option) \<Rightarrow> ('k \<Rightarrow> 'v) option" where
  "for_kinds kinds f = (if list_all (\<lambda>k. f k \<noteq> None) kinds then Some (\<lambda>k. the (f k)) else None)"

definition maintenance_of_document :: "json \<Rightarrow> (string option \<times> string option) option" where
  "maintenance_of_document raw =
     (case jget_or raw ''maintenance'' JNull of
        JNull \<Rightarrow> Some (None, None)
      | JObj d \<Rightarrow>
          (case (jget (JObj d) ''namespace'', jget (JObj d) ''owner_digest'') of
             (Some (JStr n), Some (JStr o1)) \<Rightarrow> Some (Some n, Some o1)
           | _ \<Rightarrow> None)
      | _ \<Rightarrow> None)"

definition errors_of_document :: "json \<Rightarrow> source_errors option" where
  "errors_of_document raw =
     (let provided = jget_or raw ''source_errors'' JNull in
      if falsy provided then Some no_source_errors
      else (case provided of
          JObj d \<Rightarrow> do {
            c \<leftarrow> opt_text_field (jget_or (JObj d) ''core_metrics'' JNull);
            m \<leftarrow> opt_text_field (jget_or (JObj d) ''main_fund_flow'' JNull);
            Some \<lparr>core_metrics = c, main_fund_flow = m\<rparr>
          }
        | _ \<Rightarrow> None))"

definition value_source_of_document :: "json \<Rightarrow> string option \<Rightarrow> metric_kind \<Rightarrow> value_source option option" where
  "value_source_of_document raw value k = do {
     source \<leftarrow> entry_of raw ''value_sources'' (metric_kind_value k) JNull;
     if source = JNull then Some (if value = None then None else Some INTERFACE)
     else map_option Some (member_of value_source_value all_value_sources source)
   }"

definition series_of_document :: "json \<Rightarrow> (metric_kind \<Rightarrow> json option) option" where
  "series_of_document raw =
     (case jget_or raw ''intraday_series'' (JObj []) of
        JObj d \<Rightarrow> normalized_intraday_series (Some (\<lambda>k.
          Some (case dget d (metric_kind_value k) of None \<Rightarrow> JObj [] | Some v \<Rightarrow> v)))
      | _ \<Rightarrow> None)"

definition long_capture_of_document :: "json \<Rightarrow> bool \<Rightarrow> capture option" where
  "long_capture_of_document raw incl =
     (let j = jget_or raw ''long_capture'' JNull in
      if falsy j then Some (new_capture (if incl then PENDING else SKIPPED)) else capture_of_document j)"

definition task_of_document :: "json \<Rightarrow> task option" where
  "task_of_document raw = do {
     (namespace, digest) \<leftarrow> maintenance_of_document raw;
     tid \<leftarrow> Option.bind (jget raw ''task_id'') text_field;
     sy \<leftarrow> Option.bind (jget raw ''symbol'') text_field;
     incl \<leftarrow> bool_field (jget_or raw ''include_long_capture'' (JBool True));
     st \<leftarrow> Option.bind (jget raw ''status'') (member_of task_status_value task_statuses);
     created \<leftarrow> Option.bind (Option.bind (jget raw ''created_at'') text_field) time_of_text;
     updated \<leftarrow> Option.bind (Option.bind (jget raw ''updated_at'') text_field) time_of_text;
     completed \<leftarrow> Option.bind (jget raw ''completed_at'') opt_time_field;
     collected \<leftarrow> opt_time_field (jget_or raw ''collected_at'' JNull);
     code \<leftarrow> Option.bind (jget raw ''error_code'') opt_text_field;
     errors \<leftarrow> errors_of_document raw;
     caps \<leftarrow> for_kinds capture_kinds (\<lambda>k.
       Option.bind (entry_of raw ''captures'' (capture_kind_value k)
         (JObj [(''status'', JStr ''PENDING''), (''path'', JNull), (''captured_at'', JNull)])) capture_of_document);
     vs \<leftarrow> for_kinds metric_kinds (\<lambda>k.
       Option.bind (entry_of raw ''values'' (metric_kind_value k) JNull) opt_text_field);
     sources \<leftarrow> for_kinds metric_kinds (\<lambda>k. value_source_of_document raw (vs k) k);
     series \<leftarrow> series_of_document raw;
     long \<leftarrow> long_capture_of_document raw incl;
     Some \<lparr>task_id = tid, symbol = sy, include_long_capture = incl, status = st, created_at = created,
       updated_at = updated, completed_at = completed, collected_at = collected, error_code = code,
       source_errors = errors, captures = caps, vals = vs, value_sources = sources, intraday_series = series,
       market_snapshot = (let j = jget_or raw ''market_snapshot'' JNull in if j = JNull then None else Some j),
       long_capture = long, maintenance_namespace = namespace, maintenance_owner_digest = digest\<rparr>
   }"

section \<open>A task is read back\<close>

text \<open>What holds of every task the program stores: its times are dates of a \<open>datetime\<close>, a value has a source,
  a path is not empty, the series are normalised, and the maintenance fields come together.\<close>

definition capture_storable :: "capture \<Rightarrow> bool" where
  "capture_storable c \<longleftrightarrow> pred_option valid_time (captured_at c) \<and> cap_path c \<noteq> Some []"

definition series_storable :: "(metric_kind \<Rightarrow> json option) \<Rightarrow> bool" where
  "series_storable f \<longleftrightarrow> normalized_intraday_series (Some f) = Some f"

definition task_storable :: "task \<Rightarrow> bool" where
  "task_storable t \<longleftrightarrow> valid_time (created_at t) \<and> valid_time (updated_at t)
     \<and> pred_option valid_time (completed_at t) \<and> pred_option valid_time (collected_at t)
     \<and> (\<forall>k. capture_storable (captures t k)) \<and> capture_storable (long_capture t)
     \<and> (\<forall>k. vals t k \<noteq> None \<longrightarrow> value_sources t k \<noteq> None)
     \<and> series_storable (intraday_series t) \<and> market_snapshot t \<noteq> Some JNull
     \<and> (maintenance_namespace t = None \<longleftrightarrow> maintenance_owner_digest t = None)"

lemma storable_source: "task_storable t \<Longrightarrow> value_sources t k = None \<Longrightarrow> vals t k = None"
  unfolding task_storable_def by blast

lemma member_of_value [simp]:
  "member_of task_status_value task_statuses (JStr (task_status_value st)) = Some st"
  "member_of capture_status_value capture_statuses (JStr (capture_status_value cs)) = Some cs"
  "member_of value_source_value all_value_sources (JStr (value_source_value v)) = Some v"
proof -
  show "member_of task_status_value task_statuses (JStr (task_status_value st)) = Some st"
    by (cases st) (simp_all add: member_of_def task_statuses_def)
  show "member_of capture_status_value capture_statuses (JStr (capture_status_value cs)) = Some cs"
    by (cases cs) (simp_all add: member_of_def capture_statuses_def)
  show "member_of value_source_value all_value_sources (JStr (value_source_value v)) = Some v"
    by (cases v) (simp_all add: member_of_def all_value_sources_def)
qed

lemma metric_kind_value_inj [simp]: "metric_kind_value a = metric_kind_value b \<longleftrightarrow> a = b"
proof -
  have "distinct (map metric_kind_value metric_kinds)" by code_simp
  then show ?thesis by (auto simp: distinct_map dest: inj_onD)
qed

lemma capture_kind_value_inj [simp]: "capture_kind_value a = capture_kind_value b \<longleftrightarrow> a = b"
  by (cases a; cases b; simp)

lemma dget_by_kind:
  assumes "k \<in> set kinds" "\<And>a b. value a = value b \<longleftrightarrow> a = b"
  shows "dget (map (\<lambda>k. (value k, f k)) kinds) (value k) = Some (f k)"
  using assms(1) by (induction kinds) (auto simp: assms(2))

lemma dget_metric [simp]: "dget (map (\<lambda>k. (metric_kind_value k, f k)) metric_kinds) (metric_kind_value k) = Some (f k)"
  by (rule dget_by_kind) simp_all

lemma dget_capture [simp]: "dget (map (\<lambda>k. (capture_kind_value k, f k)) capture_kinds) (capture_kind_value k) = Some (f k)"
  by (rule dget_by_kind) simp_all

lemma opt_text_round [simp]: "opt_text_field (jstr_opt x) = Some x"
  by (cases x) (simp_all add: opt_text_field_def jstr_opt_def)

lemma isoformat_nonempty [simp]: "isoformat t \<noteq> []"
  by (simp add: isoformat_def Let_def split: prod.split)

lemma opt_time_round [simp]: "pred_option valid_time t \<Longrightarrow> opt_time_field (time_json t) = Some t"
  by (cases t) (simp_all add: opt_time_field_def time_json_def jstr_opt_def instant_round)

lemma capture_round: "capture_storable c \<Longrightarrow> capture_of_document (capture_document c) = Some c"
  by (cases c; cases "cap_path c")
    (auto simp: capture_of_document_def capture_document_def capture_storable_def opt_path_field_def jstr_opt_def)

lemma for_kinds_all: "(\<And>k. k \<in> set kinds) \<Longrightarrow> (\<And>k. f k = Some (g k)) \<Longrightarrow> for_kinds kinds f = Some g"
  by (simp add: for_kinds_def list_all_iff)

lemma normalized_kinds:
  assumes "normalized_intraday_series x = Some f"
  shows "f LARGE_ORDER_NET \<noteq> None" "f LARGE_ORDER_AMOUNT \<noteq> None" "f RETAIL_COUNT \<noteq> None"
  using assms by (auto simp: normalized_intraday_series_def intraday_metrics_def split: option.splits)

lemma series_round:
  assumes "series_storable (intraday_series t)"
  shows "series_of_document (JObj ((''intraday_series'', series_document t) # d)) = Some (intraday_series t)"
proof -
  let ?f = "intraday_series t"
  have three: "?f LARGE_ORDER_NET \<noteq> None" "?f LARGE_ORDER_AMOUNT \<noteq> None" "?f RETAIL_COUNT \<noteq> None"
    using assms normalized_kinds by (simp_all add: series_storable_def)
  then have d: "series_document t = JObj [(''LARGE_ORDER_NET'', the (?f LARGE_ORDER_NET)),
      (''LARGE_ORDER_AMOUNT'', the (?f LARGE_ORDER_AMOUNT)), (''RETAIL_COUNT'', the (?f RETAIL_COUNT))]"
    by (auto simp: series_document_def intraday_metrics_def map_filter_simps)
  define g where "g = (\<lambda>k. Some (case dget [(''LARGE_ORDER_NET'', the (?f LARGE_ORDER_NET)),
      (''LARGE_ORDER_AMOUNT'', the (?f LARGE_ORDER_AMOUNT)), (''RETAIL_COUNT'', the (?f RETAIL_COUNT))] (metric_kind_value k) of
      None \<Rightarrow> JObj [] | Some v \<Rightarrow> v))"
  have g: "g LARGE_ORDER_NET = ?f LARGE_ORDER_NET" "g LARGE_ORDER_AMOUNT = ?f LARGE_ORDER_AMOUNT" "g RETAIL_COUNT = ?f RETAIL_COUNT"
    using three by (auto simp: g_def)
  have same: "normalized_intraday_series (Some g) = normalized_intraday_series (Some ?f)"
    if "g LARGE_ORDER_NET = ?f LARGE_ORDER_NET" "g LARGE_ORDER_AMOUNT = ?f LARGE_ORDER_AMOUNT" "g RETAIL_COUNT = ?f RETAIL_COUNT"
    for g :: "metric_kind \<Rightarrow> json option" using that by (simp add: normalized_intraday_series_def intraday_metrics_def split: option.split)
  show ?thesis
    using same [OF g] assms by (simp add: series_of_document_def jget_or_def d series_storable_def g_def)
qed

lemma normalized_storable: "normalized_intraday_series x = Some f \<Longrightarrow> series_storable f"
proof -
  assume f: "normalized_intraday_series x = Some f"
  let ?g = "case x of None \<Rightarrow> Map.empty | Some m \<Rightarrow> m"
  obtain a b c where n: "normalized_series (?g LARGE_ORDER_NET) None = Some a"
      "normalized_series (?g LARGE_ORDER_AMOUNT) (Some wan_unit) = Some b" "normalized_series (?g RETAIL_COUNT) None = Some c"
    and abc: "f = [LARGE_ORDER_NET \<mapsto> a, LARGE_ORDER_AMOUNT \<mapsto> b, RETAIL_COUNT \<mapsto> c]"
    using f by (auto simp: normalized_intraday_series_def intraday_metrics_def split: option.splits)
  show ?thesis
    using n [THEN normalized_series_idem] by (simp add: series_storable_def normalized_intraday_series_def intraday_metrics_def abc)
qed

lemma maintenance_round:
  assumes "maintenance_namespace t = None \<longleftrightarrow> maintenance_owner_digest t = None"
  shows "maintenance_of_document (JObj ((''maintenance'', maintenance_document t) # d))
    = Some (maintenance_namespace t, maintenance_owner_digest t)"
  using assms
  by (cases "maintenance_namespace t"; cases "maintenance_owner_digest t")
    (simp_all add: maintenance_of_document_def maintenance_document_def has_maintenance_metadata_def jget_or_def jstr_opt_def)

lemma task_round:
  assumes "task_storable t"
  shows "task_of_document (task_document t) = Some t"
proof -
  let ?raw = "task_document t"
  note ok = assms [unfolded task_storable_def]
  have g: "jget ?raw ''maintenance'' = Some (maintenance_document t)" "jget ?raw ''intraday_series'' = Some (series_document t)"
    "jget ?raw ''captures'' = Some (JObj (map (\<lambda>k. (capture_kind_value k, capture_document (captures t k))) capture_kinds))"
    "jget ?raw ''values'' = Some (JObj (map (\<lambda>k. (metric_kind_value k, jstr_opt (vals t k))) metric_kinds))"
    "jget ?raw ''value_sources'' = Some (JObj (map (\<lambda>k. (metric_kind_value k, public_value_source t k)) metric_kinds))"
    "jget ?raw ''long_capture'' = Some (capture_document (long_capture t))"
    "jget ?raw ''market_snapshot'' = Some (case market_snapshot t of None \<Rightarrow> JNull | Some j \<Rightarrow> j)"
    "jget ?raw ''completed_at'' = Some (time_json (completed_at t))" "jget ?raw ''collected_at'' = Some (time_json (collected_at t))"
    "jget ?raw ''task_id'' = Some (JStr (task_id t))" "jget ?raw ''symbol'' = Some (JStr (symbol t))"
    "jget ?raw ''include_long_capture'' = Some (JBool (include_long_capture t))"
    "jget ?raw ''status'' = Some (JStr (task_status_value (status t)))"
    "jget ?raw ''created_at'' = Some (JStr (isoformat (created_at t)))"
    "jget ?raw ''updated_at'' = Some (JStr (isoformat (updated_at t)))" "jget ?raw ''error_code'' = Some (jstr_opt (error_code t))"
    "jget ?raw ''source_errors'' = Some (JObj [(''core_metrics'', jstr_opt (core_metrics (source_errors t))),
       (''main_fund_flow'', jstr_opt (main_fund_flow (source_errors t)))])"
    by (simp_all add: task_document_def)
  have m: "maintenance_of_document ?raw = Some (maintenance_namespace t, maintenance_owner_digest t)"
    using maintenance_round [of t "[]"] ok g(1) by (simp add: maintenance_of_document_def jget_or_def)
  have s: "series_of_document ?raw = Some (intraday_series t)"
    using series_round [of t "[]"] ok g(2) by (simp add: series_of_document_def jget_or_def)
  have e: "errors_of_document ?raw = Some (source_errors t)"
    by (simp add: errors_of_document_def jget_or_def g)
  have c: "for_kinds capture_kinds (\<lambda>k. Option.bind (entry_of ?raw ''captures'' (capture_kind_value k)
         (JObj [(''status'', JStr ''PENDING''), (''path'', JNull), (''captured_at'', JNull)])) capture_of_document) = Some (captures t)"
    using ok by (intro for_kinds_all) (simp_all add: entry_of_def jget_or_def g capture_round)
  have v: "for_kinds metric_kinds (\<lambda>k. Option.bind (entry_of ?raw ''values'' (metric_kind_value k) JNull) opt_text_field) = Some (vals t)"
    by (intro for_kinds_all) (simp_all add: entry_of_def jget_or_def g)
  have "value_source_of_document ?raw (vals t k) k = Some (value_sources t k)" for k
    using storable_source [OF assms, of k] by (cases "value_sources t k"; cases "vals t k") (simp_all add: value_source_of_document_def entry_of_def jget_or_def g
      public_value_source_def jstr_opt_def)
  then have vs: "for_kinds metric_kinds (\<lambda>k. value_source_of_document ?raw (vals t k) k) = Some (value_sources t)"
    by (intro for_kinds_all) simp_all
  have l: "long_capture_of_document ?raw (include_long_capture t) = Some (long_capture t)"
    using ok capture_round by (simp add: long_capture_of_document_def jget_or_def g) (simp add: capture_document_def)
  have times: "time_of_text (isoformat (created_at t)) = Some (created_at t)" "time_of_text (isoformat (updated_at t)) = Some (updated_at t)"
    using ok instant_round by simp_all
  have snap: "(let j = jget_or ?raw ''market_snapshot'' JNull in if j = JNull then None else Some j) = market_snapshot t"
    using ok by (cases "market_snapshot t") (simp_all add: jget_or_def g)
  show ?thesis
    unfolding task_of_document_def m e c s snap
    by (simp add: g jget_or_def ok v vs l times)
qed

text \<open>A document of texts and of series and a snapshot without fractions is written and read as text.\<close>

lemma writable_texts [simp]: "writable (jstr_opt x)" "writable (time_json t)" "writable (capture_document c)"
  "writable (maintenance_document t')" "writable (public_value_source t' k)"
  by (simp_all add: jstr_opt_def time_json_def capture_document_def maintenance_document_def public_value_source_def split: option.split)

lemma distinct_kind_values:
  "distinct (map metric_kind_value metric_kinds)" "distinct (map capture_kind_value capture_kinds)"
  by code_simp+

lemma series_document_writable:
  assumes "\<And>k j. intraday_series t k = Some j \<Longrightarrow> writable j"
  shows "writable (series_document t)"
  using assms
  by (cases "intraday_series t LARGE_ORDER_NET"; cases "intraday_series t LARGE_ORDER_AMOUNT"; cases "intraday_series t RETAIL_COUNT")
    (simp_all add: series_document_def intraday_metrics_def map_filter_simps)

lemma task_document_writable:
  assumes "\<And>k j. intraday_series t k = Some j \<Longrightarrow> writable j" "pred_option writable (market_snapshot t)"
  shows "writable (task_document t)"
proof -
  have "writable (case market_snapshot t of None \<Rightarrow> JNull | Some j \<Rightarrow> j)" using assms(2) by (cases "market_snapshot t") simp_all
  then show ?thesis
    using series_document_writable [OF assms(1)] distinct_kind_values by (simp add: task_document_def comp_def list_all_iff)
qed

end
