(* ===== verification/Document_Properties.thy ===== *)
theory Document_Properties
  imports Task_Document
begin

text \<open>
  Properties of the stored documents of tasks: a task is read back from its text, and what the store does to
  a task keeps it one that is.
\<close>

definition plain_task :: "task \<Rightarrow> bool" where
  "plain_task t \<longleftrightarrow> (\<forall>k. pred_option writable (intraday_series t k)) \<and> pred_option writable (market_snapshot t)"

text \<open>All texts of a document are UTF-8.\<close>

definition utf8_document :: "json \<Rightarrow> bool" where
  "utf8_document j \<longleftrightarrow> (\<forall>s \<in> texts_in j. utf8_text s)"

text \<open>
  C5: A task that \<open>_serialize\<close> wrote with the default \<open>json.dumps\<close> (ASCII alone, a space behind commas and colons) is read
  back from its text as it was: with its status, its times, its captures, its values with their sources, its series and
  its snapshot, and with its maintenance fields. It is one the store keeps: its times are dates of a \<open>datetime\<close>, a value has
  a source, a path is not empty, the series are normalised, the maintenance fields come together; its series and its
  snapshot hold no fractions, whose text the model leaves open, and its texts have no lone surrogates.
\<close>

theorem stored_task_reads_back:
  assumes "task_storable t" and "plain_task t" and "utf8_document (task_document t)"
  shows "Option.bind (json_loads (json_dumps_default (task_document t))) task_of_document = Some t"
proof -
  have "writable (task_document t)"
    using assms(2) by (intro task_document_writable) (auto simp: plain_task_def option.pred_set)
  then show ?thesis using task_round [OF assms(1)] assms(3)
    by (simp only: default_round_trip utf8_document_def Option.bind.bind_lunit)
qed

definition demo_stored :: task where
  "demo_stored = (new_task ''t1'' ''600000'' True 86400000001)\<lparr>status := PARTIAL, error_code := Some ''VALUE_RECOGNITION_FAILED'',
     vals := (\<lambda>_. None)(CURRENT_PRICE := Some ''9.50''), value_sources := (\<lambda>_. None)(CURRENT_PRICE := Some OCR),
     completed_at := Some 86400000002\<rparr>"

lemma new_series_storable: "series_storable empty_intraday_series" "pred_option writable (empty_intraday_series k)"
proof -
  obtain f where f: "normalized_intraday_series None = Some f"
    by (simp add: normalized_intraday_series_def intraday_metrics_def normalized_series_def jget_or_def)
  show "series_storable empty_intraday_series" using normalized_storable [OF f] f by (simp add: empty_intraday_series_def)
  show "pred_option writable (empty_intraday_series k)"
    by (simp add: empty_intraday_series_def normalized_intraday_series_def intraday_metrics_def normalized_series_def jget_or_def
        jstr_opt_def)
qed

lemma new_capture_storable [simp]: "capture_storable (new_capture st)"
  by (simp add: new_capture_def capture_storable_def)

lemma demo_stored_storable: "task_storable demo_stored" "plain_task demo_stored"
proof -
  have "valid_time 86400000001" "valid_time 86400000002" by code_simp+
  then show "task_storable demo_stored"
    by (simp add: task_storable_def demo_stored_def new_task_def new_series_storable)
  show "plain_task demo_stored" by (simp add: plain_task_def demo_stored_def new_task_def new_series_storable)
qed

abbreviation plain_ascii :: "string \<Rightarrow> bool" where
  "plain_ascii s \<equiv> list_all (\<lambda>c. (of_char c :: nat) < 128) s"

lemma code_points_ascii: "plain_ascii s \<Longrightarrow> code_points s = map of_char s"
  by (induction s) simp_all

lemma ascii_utf8: "plain_ascii s \<Longrightarrow> utf8_text s"
proof -
  assume a: "plain_ascii s"
  then have "concat (map utf8_char (map of_char s)) = s" by (induction s) (simp_all add: utf8_char_def)
  then show ?thesis
    using a code_points_ascii [OF a] by (auto simp: utf8_text_def list_all_iff is_high_def is_low_def)
qed

lemma pad_int_ascii: "plain_ascii (pad_int w i)"
proof -
  have "plain_ascii (dec_digits n)" for n
    using dec_digits_are_digits [of n] by (auto simp: list_all_iff is_digit_def)
  then show ?thesis by (simp add: pad_int_def zero_pad_def str_of_int_def) (simp add: list_all_iff)
qed

lemma isoformat_utf8: "utf8_text (isoformat t)"
  by (rule ascii_utf8) (simp add: isoformat_def hms_text_def Let_def pad_int_ascii split: prod.split)

lemma utf8_document_simps:
  "utf8_document (JStr s) \<longleftrightarrow> utf8_text s" "utf8_document (JBool b)" "utf8_document JNull"
  "utf8_document (JArr xs) \<longleftrightarrow> list_all utf8_document xs"
  "utf8_document (JObj d) \<longleftrightarrow> list_all (\<lambda>(k, v). utf8_text k \<and> utf8_document v) d"
  by (auto simp: utf8_document_def list_all_iff)

lemma utf8_nothing: "utf8_document (JObj [])"
  and utf8_member: "utf8_text k \<Longrightarrow> utf8_document v \<Longrightarrow> utf8_document (JObj d) \<Longrightarrow> utf8_document (JObj ((k, v) # d))"
  by (simp_all add: utf8_document_simps)

lemma utf8_kinds [simp]: "utf8_text (metric_kind_value k)" "utf8_text (capture_kind_value c)"
  by (cases k; simp add: ascii_utf8) (cases c; simp add: ascii_utf8)

lemma utf8_options [simp]:
  "utf8_document (jstr_opt x) \<longleftrightarrow> pred_option utf8_text x" "utf8_document (time_json t)"
  by (cases x; simp add: jstr_opt_def utf8_document_simps)
    (cases t; simp add: time_json_def jstr_opt_def utf8_document_simps isoformat_utf8)

lemma utf8_capture: "utf8_document (capture_document c) \<longleftrightarrow> pred_option utf8_text (cap_path c)"
proof -
  have "utf8_text (capture_status_value (cap_status c))" by (cases "cap_status c") (simp_all add: ascii_utf8)
  moreover have "utf8_text ''status''" "utf8_text ''path''" "utf8_text ''captured_at''" by (simp_all add: ascii_utf8)
  ultimately show ?thesis by (simp add: capture_document_def utf8_document_simps)
qed

lemma utf8_task:
  assumes "utf8_text (task_id t)" "utf8_text (symbol t)" "pred_option utf8_text (error_code t)"
    and "pred_option utf8_text (core_metrics (source_errors t))" "pred_option utf8_text (main_fund_flow (source_errors t))"
    and "\<And>k. pred_option utf8_text (cap_path (captures t k))" "pred_option utf8_text (cap_path (long_capture t))"
    and "\<And>k. pred_option utf8_text (vals t k)" "utf8_document (series_document t)" "pred_option utf8_document (market_snapshot t)"
    and "utf8_document (maintenance_document t)"
  shows "utf8_document (task_document t)"
proof -
  have status: "utf8_text (task_status_value (status t))" by (cases "status t") (simp_all add: ascii_utf8)
  have source: "utf8_document (public_value_source t k)" for k
  proof -
    have "utf8_text (value_source_value v)" for v by (cases v) (simp_all add: ascii_utf8)
    then show ?thesis by (simp add: public_value_source_def option.pred_map comp_def option.pred_True)
  qed
  have captures: "utf8_document (JObj (map (\<lambda>k. (capture_kind_value k, capture_document (captures t k))) capture_kinds))"
    by (simp add: utf8_document_simps list_all_iff utf8_capture assms(6))
  have vals: "utf8_document (JObj (map (\<lambda>k. (metric_kind_value k, jstr_opt (vals t k))) metric_kinds))"
    by (simp add: utf8_document_simps list_all_iff assms(8))
  have sources: "utf8_document (JObj (map (\<lambda>k. (metric_kind_value k, public_value_source t k)) metric_kinds))"
    by (simp add: utf8_document_simps list_all_iff source)
  have snapshot: "utf8_document (case market_snapshot t of None \<Rightarrow> JNull | Some j \<Rightarrow> j)"
    using assms(10) by (cases "market_snapshot t") (simp_all add: utf8_document_simps)
  show ?thesis
    unfolding task_document_def
    by (intro utf8_member utf8_nothing captures vals sources snapshot assms(9,11))
      (simp_all only: utf8_document_simps utf8_options utf8_capture isoformat_utf8 assms(1-5,7) status, simp_all add: ascii_utf8)
qed

lemma demo_stored_texts: "utf8_document (task_document demo_stored)"
proof (rule utf8_task)
  have "utf8_text wan_unit"
    by (simp add: utf8_text_def wan_unit_def low_bits_def utf8_char_def is_high_def is_low_def)
  then show "utf8_document (series_document demo_stored)"
    by (simp add: series_document_def intraday_metrics_def demo_stored_def new_task_def empty_intraday_series_def
        normalized_intraday_series_def normalized_series_def jget_or_def jstr_opt_def map_filter_simps utf8_document_simps ascii_utf8)
qed (simp_all add: demo_stored_def new_task_def new_capture_def maintenance_document_def has_maintenance_metadata_def
    no_source_errors_def utf8_document_simps ascii_utf8)

theorem stored_task_reads_back_witness:
  "Option.bind (json_loads (json_dumps_default (task_document demo_stored))) task_of_document = Some demo_stored"
  using stored_task_reads_back [OF demo_stored_storable demo_stored_texts] .

section \<open>Changes of a task\<close>

lemma ready_capture_storable [simp]:
  "capture_storable \<lparr>cap_status = st, cap_path = Some q, captured_at = Some now\<rparr> = (valid_time now \<and> q \<noteq> [])"
  by (auto simp: capture_storable_def)

definition storable_store :: "store \<Rightarrow> bool" where
  "storable_store s \<longleftrightarrow> list_all (\<lambda>(_, t). task_storable t) (tasks s)"

lemma storable_put [simp]: "storable_store s \<Longrightarrow> task_storable t \<Longrightarrow> storable_store (put_task t s)"
proof -
  have "list_all (\<lambda>(_, t). task_storable t) (dset k t d)" if "list_all (\<lambda>(_, t). task_storable t) d" "task_storable t"
    for k t and d :: "(string, task) dict"
    using that by (induction d) auto
  then show "storable_store s \<Longrightarrow> task_storable t \<Longrightarrow> storable_store (put_task t s)"
    by (simp add: storable_store_def put_task_def)
qed

lemma storable_emit [simp]: "storable_store (emit t s) = storable_store s"
  by (simp add: storable_store_def emit_def)

lemma storable_get: "storable_store s \<Longrightarrow> dget (tasks s) tid = Some t \<Longrightarrow> task_storable t"
  by (auto simp: storable_store_def list_all_iff dest: dget_SomeD)

text \<open>
  Whatever a task goes through when its run ends, by a transition, a capture, a result or a market
  snapshot, whether the operation succeeds or raises, the store then holds tasks that can be written and
  read back.
\<close>

theorem completions_keep_tasks_storable:
  assumes "storable_store s" and "valid_time now" and "p \<noteq> []" and "rp \<noteq> Some []" and "snapshot \<noteq> JNull"
  shows "storable_store (snd (transition now tid st err serrs s))
    \<and> storable_store (snd (complete_capture now tid kind p s))
    \<and> storable_store (snd (complete_result now tid vs rp ocr serrs series ig s))
    \<and> storable_store (snd (complete_market_snapshot now tid snapshot s))"
proof (intro conjI)
  note get = storable_get [OF assms(1)]
  show "storable_store (snd (transition now tid st err serrs s))"
    using assms get by (auto simp: transition_def Let_def task_storable_def split: option.split)
  show "storable_store (snd (complete_capture now tid kind p s))"
    using assms get by (auto simp: complete_capture_def Let_def task_storable_def split: option.split)
  show "storable_store (snd (complete_market_snapshot now tid snapshot s))"
    using assms get by (auto simp: complete_market_snapshot_def Let_def task_storable_def split: option.split)
  have vs_ok: "task_storable (result_values vs ocr t)" if "task_storable t" for t
    using that by (simp add: result_values_def task_storable_def)
  have series: "task_storable (t\<lparr>intraday_series := ser, source_errors := e\<rparr>)"
    if "task_storable t" "normalized_intraday_series series = Some ser" for t ser e
    using that normalized_storable by (simp add: task_storable_def)
  have capture: "task_storable t'" if "task_storable t" "result_capture now rp t = Some t'" for t t'
    using that assms by (auto simp: result_capture_def task_storable_def split: if_splits option.splits)
  have status: "task_storable (result_status now ig t)" if "task_storable t" for t
    using that assms by (simp add: result_status_def task_storable_def Let_def)
  have captured: "task_storable (result_status now ig t3)"
    if "dget (tasks s) tid = Some t" "normalized_intraday_series series = Some ser"
      "result_capture now rp ((result_values vs ocr t)\<lparr>intraday_series := ser, source_errors := e\<rparr>) = Some t3" for t ser e t3
    using get [OF that(1), THEN vs_ok, THEN series, OF that(2), THEN capture, OF that(3)] by (rule status)
  show "storable_store (snd (complete_result now tid vs rp ocr serrs series ig s))"
    using assms(1) get vs_ok series captured
    by (auto simp: complete_result_def Let_def split: option.split)
qed

definition demo_holding :: store where
  "demo_holding = put_task demo_stored (init_store 9 None)"

theorem completions_keep_tasks_storable_witness:
  "\<exists>t. dget (tasks (snd (complete_result 86400000003 ''t1'' (\<lambda>_. None) (Some ''a.png'') (\<lambda>_. False) None None False demo_holding))) ''t1'' = Some t
    \<and> status t = PARTIAL \<and> task_storable t"
proof -
  let ?s = "snd (complete_result 86400000003 ''t1'' (\<lambda>_. None) (Some ''a.png'') (\<lambda>_. False) None None False demo_holding)"
  have "storable_store (init_store 9 None)" by (simp add: storable_store_def init_store_def)
  then have "storable_store demo_holding" using demo_stored_storable(1) by (simp add: demo_holding_def)
  moreover have "valid_time 86400000003" by code_simp
  ultimately have "storable_store ?s" using completions_keep_tasks_storable [of demo_holding 86400000003 "''a.png''" "Some ''a.png''" "JObj []"] by simp
  moreover have "case dget (tasks ?s) ''t1'' of None \<Rightarrow> False | Some t \<Rightarrow> status t = PARTIAL" by code_simp
  ultimately show ?thesis using storable_get by (fastforce split: option.splits)
qed

end
