(* ===== verification/Text_Ops.thy ===== *)
theory Text_Ops
  imports Json_Text
begin

text \<open>
  Methods of Python's texts that the readers of public data use: \<open>split\<close>, \<open>rsplit\<close>, \<open>removeprefix\<close> and \<open>join\<close>,
  over ASCII separators and white space.
\<close>

text \<open>\<open>s.split(c)\<close>\<close>

fun split_on :: "char \<Rightarrow> string \<Rightarrow> string list" where
  "split_on c [] = [[]]"
| "split_on c (x # xs) =
     (if x = c then [] # split_on c xs
      else case split_on c xs of [] \<Rightarrow> [[x]] | p # ps \<Rightarrow> (x # p) # ps)"

text \<open>\<open>c.join(parts)\<close>\<close>

fun join_with :: "char \<Rightarrow> string list \<Rightarrow> string" where
  "join_with c [] = []"
| "join_with c [p] = p"
| "join_with c (p # q # ps) = p @ c # join_with c (q # ps)"

text \<open>\<open>s.split()\<close>: the longest runs without white space.\<close>

function split_words :: "string \<Rightarrow> string list" where
  "split_words s =
     (case dropWhile is_space s of [] \<Rightarrow> []
      | c # r \<Rightarrow> takeWhile (\<lambda>x. \<not> is_space x) (c # r) # split_words (dropWhile (\<lambda>x. \<not> is_space x) (c # r)))"
  by auto
termination
proof (relation "measure length")
  fix s c r assume "dropWhile is_space s = c # r"
  then have c: "\<not> is_space c" and l: "length (c # r) \<le> length s"
    using hd_dropWhile [of is_space s] length_dropWhile_le [of is_space s] by auto
  have "length (dropWhile (\<lambda>x. \<not> is_space x) (c # r)) \<le> length r" using c length_dropWhile_le by simp
  then show "(dropWhile (\<lambda>x. \<not> is_space x) (c # r), s) \<in> measure length" using l by simp
qed simp

declare split_words.simps [simp del]

text \<open>\<open>s.rsplit(c, 1)[0]\<close>: what is before the last \<open>c\<close>, or all of it.\<close>

definition before_last :: "char \<Rightarrow> string \<Rightarrow> string" where
  "before_last c s =
     (case dropWhile (\<lambda>x. x \<noteq> c) (rev s) of [] \<Rightarrow> s | _ # r \<Rightarrow> rev r)"

text \<open>What follows a prefix.\<close>

definition after_prefix :: "string \<Rightarrow> string \<Rightarrow> string option" where
  "after_prefix p s = (if prefix p s then Some (drop (length p) s) else None)"

lemma split_on_nonempty [simp]: "split_on c s \<noteq> []"
  by (induction s) (auto split: list.split)

text \<open>Joining what was split gives the text back, and no part holds the separator.\<close>

lemma join_with_Cons: "ps \<noteq> [] \<Longrightarrow> join_with c (p # ps) = p @ c # join_with c ps"
  by (cases ps) simp_all

lemma join_split: "join_with c (split_on c s) = s"
proof (induction s)
  case (Cons x xs)
  obtain p ps where p: "split_on c xs = p # ps" by (cases "split_on c xs") auto
  have "join_with c ((x # p) # ps) = x # join_with c (p # ps)" by (cases ps) simp_all
  then show ?case using Cons p by (simp add: join_with_Cons)
qed simp

lemma split_on_parts: "p \<in> set (split_on c s) \<Longrightarrow> c \<notin> set p"
proof (induction s arbitrary: p)
  case (Cons x xs)
  then show ?case by (cases "split_on c xs") (auto split: if_splits)
qed simp

end
