(* ===== verification/Public_Values.thy ===== *)
theory Public_Values
  imports Frida_Source Text_Ops
begin

text \<open>
  \<open>level2_service/public_market.py\<close>, the values: provider ids, numbers, percentages, times, and the snapshot
  of the fields of a quote. A \<open>Decimal\<close> is a rational number, so \<open>-0\<close> is \<open>0\<close> and a number written with an
  exponent is shown without one.
\<close>

text \<open>A \<open>PublicMarketError\<close> with its code, or any other exception.\<close>

datatype public_failure = PublicMarketError string | OtherError

abbreviation response_invalid :: "public_failure" where
  "response_invalid \<equiv> PublicMarketError ''PUBLIC_MARKET_RESPONSE_INVALID''"

definition or_raise :: "'e \<Rightarrow> 'a option \<Rightarrow> 'e + 'a" where
  "or_raise e x = (case x of None \<Rightarrow> Inl e | Some v \<Rightarrow> Inr v)"

text \<open>When a chain of steps that may raise gives a value.\<close>

named_theorems inr_simps \<open>a step of a chain that gives a value\<close>

lemma case_sum_Inr [inr_simps]: "(case x of Inl e \<Rightarrow> Inl e | Inr v \<Rightarrow> f v) = Inr y \<longleftrightarrow> (\<exists>v. x = Inr v \<and> f v = Inr y)"
  by (cases x) simp_all

lemma case_option_Inr [inr_simps]: "(case x of None \<Rightarrow> Inl e | Some v \<Rightarrow> f v) = Inr y \<longleftrightarrow> (\<exists>v. x = Some v \<and> f v = Inr y)"
  by (cases x) simp_all

lemma if_Inr [inr_simps]: "(if c then Inl e else x) = Inr y \<longleftrightarrow> \<not> c \<and> x = Inr y"
  by simp

lemma or_raise_Inr [inr_simps]: "or_raise e x = Inr y \<longleftrightarrow> x = Some y"
  by (cases x) (simp_all add: or_raise_def)

lemma map_sum_Inr [inr_simps]: "map_sum id f x = Inr y \<longleftrightarrow> (\<exists>v. x = Inr v \<and> y = f v)"
  by (cases x) auto

section \<open>Values\<close>

text \<open>What a text says as a number, if there is one.\<close>

definition reads :: "string option \<Rightarrow> rat option" where
  "reads t = Option.bind t decimal_of_text"

definition provider_id :: "symbol_lookup \<Rightarrow> public_failure + string" where
  "provider_id i =
     (if lookup_market i \<in> {''17'', ''20''} then Inr (''sh'' @ lookup_symbol i)
      else if lookup_market i \<in> {''33'', ''36''} then Inr (''sz'' @ lookup_symbol i)
      else if lookup_market i = ''151'' then Inr (''bj'' @ lookup_symbol i)
      else Inl (PublicMarketError ''PUBLIC_MARKET_SYMBOL_INVALID''))"

definition precision_of :: "symbol_lookup \<Rightarrow> nat" where
  "precision_of i = (if lookup_market i \<in> {''20'', ''36''} then 3 else 2)"

text \<open>\<open>_number\<close> with and without places; the outer None is the exception of a number beyond 28 digits.\<close>

definition fixed_number :: "nat \<Rightarrow> rat option \<Rightarrow> string option option" where
  "fixed_number places value =
     (case value of None \<Rightarrow> Some None
      | Some v \<Rightarrow>
          (let n = rounded_digits places v in
           if n \<ge> 10 ^ 28 then None else Some (Some ((if v < 0 then ''-'' else []) @ fixed_text places n))))"

definition public_number :: "rat option \<Rightarrow> string option" where
  "public_number value = map_option (\<lambda>v. plain_text (if of_int \<lfloor>v\<rfloor> = v then v else dec28 v)) value"

text \<open>\<open>_percent\<close>\<close>

definition percent_text :: "json \<Rightarrow> string option option" where
  "percent_text j = map_option (map_option (\<lambda>t. t @ ''%'')) (fixed_number 2 (decimal_of_json j))"

text \<open>\<open>_source_time\<close>\<close>

definition source_time_of :: "(json \<Rightarrow> string) \<Rightarrow> json \<Rightarrow> string option" where
  "source_time_of repr_text j =
     (let digits = filter is_digit (if falsy j then [] else py_str repr_text j);
          hhmm = (if length digits \<ge> 6 then take 4 (drop (length digits - 6) digits) else drop (length digits - 4) digits);
          hour = dec_val (take 2 hhmm);
          minute = dec_val (drop 2 hhmm)
      in if length digits < 4 then None
         else if hour \<le> 23 \<and> minute \<le> 59 then Some (clock_text hour minute) else None)"

text \<open>\<open>_session_time\<close>; texts are compared as Python compares them.\<close>

definition session_time :: "string \<Rightarrow> string option" where
  "session_time value =
     (let compact = strip (filter (\<lambda>c. c \<noteq> CHR '':'') value) in
      if \<not> (length compact = 4 \<and> list_all is_digit compact) then None
      else if \<not> (''0930'' \<le> compact \<and> compact \<le> ''1130'' \<or> ''1300'' \<le> compact \<and> compact \<le> ''1500'') then None
      else Some (take 2 compact @ CHR '':'' # drop 2 compact))"

section \<open>Snapshots\<close>

text \<open>The fields of a quote may be any values of a JSON list; \<open>strip\<close> of one that is no text raises.\<close>

definition stripped :: "json \<Rightarrow> public_failure + string" where
  "stripped j = (case j of JStr s \<Rightarrow> Inr (strip s) | _ \<Rightarrow> Inl OtherError)"

definition public_capabilities :: "bool \<Rightarrow> (string, json) dict" where
  "public_capabilities has_timeshare =
     [(''timeshare'', JObj [(''available'', JBool has_timeshare),
         (''reason'', if has_timeshare then JNull else JStr ''PUBLIC_TIMESHARE_UNAVAILABLE'')]),
      (''kline'', JObj [(''available'', JBool True), (''adjustment'', JStr ''qfq'')]),
      (''order_book'', unavailable ''PUBLIC_LEVEL2_UNAVAILABLE''),
      (''trades'', unavailable ''PUBLIC_LEVEL2_UNAVAILABLE''),
      (''l2'', unavailable ''DIRECT_ENRICHMENT_UNAVAILABLE'')]"

definition public_source_errors :: "(string, string option) dict" where
  "public_source_errors = [(''tencent_public'', None), (''sina_public'', None), (''core_metrics'', None),
     (''main_fund_flow'', None), (''market_phase'', None), (''auction_quote'', None)]"

definition impossible_prices :: "rat option \<Rightarrow> rat option \<Rightarrow> rat option \<Rightarrow> rat option \<Rightarrow> bool" where
  "impossible_prices price open_price high low =
     (let comparable = List.map_filter id [price, open_price, high, low] in
      (case high of None \<Rightarrow> False | Some h \<Rightarrow> list_ex (\<lambda>x. h < x) comparable)
      \<or> (case low of None \<Rightarrow> False | Some l \<Rightarrow> list_ex (\<lambda>x. x < l) comparable))"

definition public_quote_fields ::
  "symbol_lookup \<Rightarrow> json list \<Rightarrow> (string, string option) dict option" where
  "public_quote_fields i fs =
     (let p = precision_of i; d = (\<lambda>k. decimal_of_json (fs ! k)) in do {
        price \<leftarrow> fixed_number p (d 3);
        previous_close \<leftarrow> fixed_number p (d 4);
        change \<leftarrow> percent_text (fs ! 32);
        turnover \<leftarrow> percent_text (fs ! 38);
        opening \<leftarrow> fixed_number p (d 5);
        high \<leftarrow> fixed_number p (d 33);
        low \<leftarrow> fixed_number p (d 34);
        Some [(''price'', price), (''previous_close'', previous_close), (''change_percent'', change), (''turnover_rate'', turnover),
          (''open'', opening), (''high'', high), (''low'', low),
          (''volume'', public_number (map_option (\<lambda>v. dmul v 100) (d 6))),
          (''amount'', public_number (map_option (\<lambda>v. dmul v 10000) (d 37))),
          (''large_order_net'', None), (''large_order_amount'', None), (''retail_count'', None), (''macdfs'', None)]
      })"

definition quote_snapshot ::
  "(json \<Rightarrow> string) \<Rightarrow> time \<Rightarrow> symbol_lookup \<Rightarrow> json list \<Rightarrow> string \<Rightarrow> timeshare_point list \<Rightarrow> (string, string option) dict option
   \<Rightarrow> public_failure + snapshot" where
  "quote_snapshot repr_text now i fs source ts errors =
     (if length fs < 39 then Inl response_invalid
      else case stripped (fs ! 2) of Inl e \<Rightarrow> Inl e
      | Inr code \<Rightarrow>
          if code \<noteq> lookup_symbol i then Inl response_invalid
          else case (if strip (lookup_name i) \<noteq> [] then Inr (strip (lookup_name i)) else stripped (fs ! 1)) of Inl e \<Rightarrow> Inl e
          | Inr name \<Rightarrow>
              (let d = (\<lambda>k. decimal_of_json (fs ! k)) in
               if list_ex (\<lambda>v. case v of None \<Rightarrow> False | Some x \<Rightarrow> x < 0) [d 3, d 4, d 5, d 33, d 34, d 6, d 37]
                 \<or> impossible_prices (d 3) (d 5) (d 33) (d 34)
               then Inl response_invalid
               else case public_quote_fields i fs of None \<Rightarrow> Inl OtherError
               | Some q \<Rightarrow>
                   Inr ((new_snapshot (lookup_symbol i) (Some name) (lookup_market i) now q)
                     \<lparr>source_time := (if ts \<noteq> [] then Some (tp_time (last ts)) else source_time_of repr_text (fs ! 30)),
                      snap_source := Some source, price_precision := int (precision_of i), timeshare := ts,
                      capabilities := public_capabilities (ts \<noteq> []),
                      snap_errors := (case errors of None \<Rightarrow> public_source_errors | Some e \<Rightarrow> e)\<rparr>)))"

end
