(* ===== verification/Public_Market.thy ===== *)
theory Public_Market
  imports Public_Values
begin

text \<open>
  \<open>level2_service/public_market.py\<close>, the sources: \<open>TencentPublicMarketProvider\<close>, \<open>SinaPublicQuoteProvider\<close>,
  \<open>PublicMarketDataSource\<close> and \<open>DirectEnrichedMarketDataSource\<close>. A fetcher answers a URL with the bytes of the
  response or an exception; the decoding of GB18030 (\<open>gb18030\<close>, None its exception) is an argument.
\<close>

type_synonym fetcher = "string \<Rightarrow> public_failure + string"

section \<open>Tencent\<close>

definition tencent_request :: "fetcher \<Rightarrow> string \<Rightarrow> public_failure + string" where
  "tencent_request fetch url =
     (case fetch url of Inr body \<Rightarrow> Inr body
      | Inl (PublicMarketError code) \<Rightarrow> Inl (PublicMarketError code)
      | Inl OtherError \<Rightarrow> Inl (PublicMarketError ''MARKET_QUOTE_UNAVAILABLE''))"

definition tencent_quote_url :: "string \<Rightarrow> string" where
  "tencent_quote_url pid = ''https://qt.gtimg.cn/q='' @ pid"

definition tencent_minute_url :: "string \<Rightarrow> string" where
  "tencent_minute_url pid = ''https://web.ifzq.gtimg.cn/appstock/app/minute/query?code='' @ pid"

definition tencent_kline_url :: "string \<Rightarrow> string \<Rightarrow> nat \<Rightarrow> string" where
  "tencent_kline_url pid period limit =
     ''https://web.ifzq.gtimg.cn/appstock/app/fqkline/get?param='' @ pid @ '','' @ period @ '',,,'' @ str_of_int (int limit) @ '',qfq''"

text \<open>\<open>_quote_fields\<close>\<close>

definition tencent_quote_fields :: "(string \<Rightarrow> string option) \<Rightarrow> string \<Rightarrow> string \<Rightarrow> public_failure + json list" where
  "tencent_quote_fields gb18030 payload pid =
     or_raise response_invalid
       (map_option (\<lambda>body. map JStr (split_on CHR ''~'' (before_last quote_char body)))
         (Option.bind (gb18030 payload) (after_prefix (''v_'' @ pid @ ''='' @ [quote_char]))))"

text \<open>The node of the symbol, its fields and its rows; None is a \<open>KeyError\<close>, \<open>TypeError\<close> or \<open>ValueError\<close>.\<close>

definition minute_node :: "string \<Rightarrow> string \<Rightarrow> (json list \<times> json list) option" where
  "minute_node body pid = do {
     payload \<leftarrow> json_loads body;
     node \<leftarrow> Option.bind (jget payload ''data'') (\<lambda>d. jget d pid);
     fs \<leftarrow> Option.bind (Option.bind (jget node ''qt'') (\<lambda>q. jget q pid)) jiter;
     rows \<leftarrow> Option.bind (Option.bind (jget node ''data'') (\<lambda>d. jget d ''data'')) jiter;
     Some (fs, rows)
   }"

text \<open>The loop over the minutes, whose volumes are cumulative; the last two arguments are the previous
  volume and the previous time.\<close>

definition minute_price_invalid :: "rat option \<Rightarrow> rat option \<Rightarrow> rat option \<Rightarrow> rat \<Rightarrow> bool" where
  "minute_price_invalid price lots amount previous =
     (case (price, lots) of
        (Some p, Some l) \<Rightarrow> l < previous \<or> min p l < 0 \<or> (case amount of None \<Rightarrow> False | Some a \<Rightarrow> a < 0)
      | _ \<Rightarrow> True)"

definition minute_point :: "nat \<Rightarrow> string \<Rightarrow> rat \<Rightarrow> rat \<Rightarrow> rat option \<Rightarrow> rat \<Rightarrow> timeshare_point option" where
  "minute_point places time price lots amount previous =
     (let shares = dmul lots 100;
          average = (case amount of None \<Rightarrow> None | Some a \<Rightarrow> if shares > 0 then Some (ddiv a shares) else None)
      in do {
        p \<leftarrow> fixed_number places (Some price);
        avg \<leftarrow> fixed_number 3 average;
        Some \<lparr>tp_time = time, tp_price = p, average_price = avg,
          tp_volume = public_number (Some (dmul (dsub lots previous) 100))\<rparr>
      })"

fun minute_loop ::
  "nat \<Rightarrow> string list \<Rightarrow> rat \<Rightarrow> string option \<Rightarrow> public_failure + timeshare_point list" where
  "minute_loop places [] previous previous_time = Inr []"
| "minute_loop places (row # rows) previous previous_time =
     (let parts = split_words row in
      case (if length parts < 3 then None else session_time (parts ! 0)) of
        None \<Rightarrow> minute_loop places rows previous previous_time
      | Some time \<Rightarrow>
          (let price = decimal_of_text (parts ! 1);
               lots = decimal_of_text (parts ! 2);
               amount = (if length parts \<ge> 4 then decimal_of_text (parts ! 3) else None) in
           if (case previous_time of None \<Rightarrow> False | Some t \<Rightarrow> time \<le> t) then Inl response_invalid
           else if minute_price_invalid price lots amount previous then Inl response_invalid
           else case minute_point places time (the price) (the lots) amount previous of None \<Rightarrow> Inl OtherError
           | Some p \<Rightarrow> map_sum id ((#) p) (minute_loop places rows (the lots) (Some time))))"

definition tencent_snapshot ::
  "(json \<Rightarrow> string) \<Rightarrow> (string \<Rightarrow> string option) \<Rightarrow> fetcher \<Rightarrow> time \<Rightarrow> symbol_lookup \<Rightarrow> bool \<Rightarrow> public_failure + snapshot" where
  "tencent_snapshot repr_text gb18030 fetch now i detail =
     (case provider_id i of Inl e \<Rightarrow> Inl e
      | Inr pid \<Rightarrow>
          if \<not> detail then
            (case tencent_request fetch (tencent_quote_url pid) of Inl e \<Rightarrow> Inl e
             | Inr body \<Rightarrow>
                 (case tencent_quote_fields gb18030 body pid of Inl e \<Rightarrow> Inl e
                  | Inr fs \<Rightarrow> quote_snapshot repr_text now i fs ''TENCENT_PUBLIC'' [] None))
          else
            (case tencent_request fetch (tencent_minute_url pid) of Inl e \<Rightarrow> Inl e
             | Inr body \<Rightarrow>
                 (case minute_node body pid of None \<Rightarrow> Inl response_invalid
                  | Some (fs, rows) \<Rightarrow>
                      (case minute_loop (precision_of i) (map (py_str repr_text) rows) 0 None of Inl e \<Rightarrow> Inl e
                       | Inr points \<Rightarrow>
                           if points = [] then Inl response_invalid
                           else quote_snapshot repr_text now i fs ''TENCENT_PUBLIC'' points None))))"

section \<open>Bars\<close>

text \<open>A row of the series: the date, and the open, close, high, low and volume. An outer None is \<open>OtherError\<close>.\<close>

definition bar_of_row :: "(json \<Rightarrow> string) \<Rightarrow> nat \<Rightarrow> json \<Rightarrow> string option \<Rightarrow> public_failure + kline_bar" where
  "bar_of_row repr_text places row previous_date =
     (case list_value row of None \<Rightarrow> Inl response_invalid
      | Some vs \<Rightarrow>
          if length vs < 6 then Inl response_invalid
          else
            (let raw_date = py_str repr_text (vs ! 0) in
             if iso_date raw_date = None then Inl response_invalid
             else if (case previous_date of None \<Rightarrow> False | Some d \<Rightarrow> raw_date \<le> d) then Inl response_invalid
             else case (decimal_of_json (vs ! 1), decimal_of_json (vs ! 2), decimal_of_json (vs ! 3), decimal_of_json (vs ! 4),
                        decimal_of_json (vs ! 5)) of
               (Some opening, Some close, Some high, Some low, Some lots) \<Rightarrow>
                 if Min {opening, close, high, low, lots} < 0 \<or> high < Max {opening, close, low} \<or> low > Min {opening, close, high}
                 then Inl response_invalid
                 else or_raise OtherError (do {
                   o1 \<leftarrow> fixed_number places (Some opening);
                   h \<leftarrow> fixed_number places (Some high);
                   l \<leftarrow> fixed_number places (Some low);
                   c \<leftarrow> fixed_number places (Some close);
                   Some \<lparr>bar_time = raw_date, bar_open = o1, bar_high = h, bar_low = l, bar_close = c,
                     bar_volume = public_number (Some (dmul lots 100)), bar_amount = None\<rparr>
                 })
             | _ \<Rightarrow> Inl response_invalid))"

text \<open>The dates grow, so the code's set of the dates seen never refuses one more.\<close>

fun bars_loop :: "(json \<Rightarrow> string) \<Rightarrow> nat \<Rightarrow> json list \<Rightarrow> string option \<Rightarrow> public_failure + kline_bar list" where
  "bars_loop repr_text places [] previous_date = Inr []"
| "bars_loop repr_text places (row # rows) previous_date =
     (case bar_of_row repr_text places row previous_date of Inl e \<Rightarrow> Inl e
      | Inr b \<Rightarrow> map_sum id ((#) b) (bars_loop repr_text places rows (Some (bar_time b))))"

text \<open>The rows of the response: a node that is no dictionary has no \<open>get\<close>.\<close>

definition series_rows :: "string \<Rightarrow> string \<Rightarrow> string \<Rightarrow> public_failure + json list" where
  "series_rows body pid period =
     (case Option.bind (json_loads body) (\<lambda>payload. Option.bind (jget payload ''data'') (\<lambda>d. jget d pid)) of
        None \<Rightarrow> Inl response_invalid
      | Some (JObj node) \<Rightarrow>
          or_raise response_invalid (list_value (case dget node (''qfq'' @ period) of Some v \<Rightarrow> v
            | None \<Rightarrow> (case dget node period of Some v \<Rightarrow> v | None \<Rightarrow> JNull)))
      | Some _ \<Rightarrow> Inl OtherError)"

text \<open>\<open>xs[-n:]\<close>\<close>

definition last_items :: "nat \<Rightarrow> 'a list \<Rightarrow> 'a list" where
  "last_items n xs = (if n = 0 then xs else drop (length xs - n) xs)"

definition tencent_series ::
  "(json \<Rightarrow> string) \<Rightarrow> fetcher \<Rightarrow> symbol_lookup \<Rightarrow> string \<Rightarrow> nat \<Rightarrow> public_failure + series_page" where
  "tencent_series repr_text fetch i period limit =
     (if period \<notin> {''five_day'', ''day'', ''week'', ''month''} then Inl (PublicMarketError ''PUBLIC_MARKET_PERIOD_UNSUPPORTED'')
      else
        (let provider_period = (if period = ''five_day'' then ''day'' else period);
             request_limit = (if period = ''five_day'' then max 6 limit else limit) in
         case provider_id i of Inl e \<Rightarrow> Inl e
         | Inr pid \<Rightarrow>
             (case tencent_request fetch (tencent_kline_url pid provider_period request_limit) of Inl e \<Rightarrow> Inl e
              | Inr body \<Rightarrow>
                  (case series_rows body pid provider_period of Inl e \<Rightarrow> Inl e
                   | Inr rows \<Rightarrow>
                       (case bars_loop repr_text (precision_of i) rows None of Inl e \<Rightarrow> Inl e
                        | Inr bars \<Rightarrow>
                            if bars = [] then Inl response_invalid
                            else Inr (empty_page (lookup_symbol i) period\<lparr>
                              page_bars := last_items (if period = ''five_day'' then 5 else limit) bars,
                              page_adjustment := Some ''qfq'', page_source := Some ''TENCENT_PUBLIC'',
                              page_errors := [(''tencent_public'', None)]\<rparr>))))))"

section \<open>Sina\<close>

definition sina_quote_url :: "string \<Rightarrow> string" where
  "sina_quote_url pid = ''https://hq.sinajs.cn/list='' @ pid"

text \<open>The part after the first \<open>="\<close> of a text that has one.\<close>

fun after_equals_quote :: "string \<Rightarrow> string" where
  "after_equals_quote (a # b # r) = (if a = CHR ''='' \<and> b = quote_char then r else after_equals_quote (b # r))"
| "after_equals_quote _ = []"

definition sina_values :: "(string \<Rightarrow> string option) \<Rightarrow> fetcher \<Rightarrow> string \<Rightarrow> string list option" where
  "sina_values gb18030 fetch pid =
     (case fetch (sina_quote_url pid) of Inl _ \<Rightarrow> None
      | Inr body \<Rightarrow>
          (case gb18030 body of None \<Rightarrow> None
           | Some payload \<Rightarrow>
               if \<not> prefix (''var hq_str_'' @ pid @ ''='' @ [quote_char]) payload then None
               else
                 (let vs = split_on CHR '','' (before_last quote_char (after_equals_quote payload)) in
                  if length vs < 32 \<or> strip (hd vs) = [] then None else Some vs)))"

text \<open>The fields a Tencent quote would have.\<close>

definition sina_fields :: "symbol_lookup \<Rightarrow> string list \<Rightarrow> string list" where
  "sina_fields i vs =
     (let number = (\<lambda>x. case public_number x of None \<Rightarrow> [] | Some t \<Rightarrow> t);
          change = (case (decimal_of_text (vs ! 3), decimal_of_text (vs ! 2)) of
            (Some current, Some previous) \<Rightarrow>
              if previous = 0 then None else Some (dmul (dsub (ddiv current previous) 1) 100)
          | _ \<Rightarrow> None)
      in (replicate 39 [])
           [1 := vs ! 0, 2 := lookup_symbol i, 3 := vs ! 3, 4 := vs ! 2, 5 := vs ! 1,
            6 := number (map_option (\<lambda>v. ddiv v 100) (decimal_of_text (vs ! 8))),
            30 := vs ! 30 @ '' '' @ vs ! 31, 32 := number change, 33 := vs ! 4, 34 := vs ! 5,
            37 := number (map_option (\<lambda>v. ddiv v 10000) (decimal_of_text (vs ! 9)))])"

definition sina_snapshot ::
  "(json \<Rightarrow> string) \<Rightarrow> (string \<Rightarrow> string option) \<Rightarrow> fetcher \<Rightarrow> time \<Rightarrow> symbol_lookup \<Rightarrow> public_failure + snapshot" where
  "sina_snapshot repr_text gb18030 fetch now i =
     (case provider_id i of Inl e \<Rightarrow> Inl e
      | Inr pid \<Rightarrow>
          (case sina_values gb18030 fetch pid of None \<Rightarrow> Inl (PublicMarketError ''MARKET_QUOTE_UNAVAILABLE'')
           | Some vs \<Rightarrow>
               quote_snapshot repr_text now i (map JStr (sina_fields i vs)) ''SINA_PUBLIC'' []
                 (Some [(''tencent_public'', Some ''MARKET_QUOTE_UNAVAILABLE''), (''sina_public'', None), (''core_metrics'', None),
                    (''main_fund_flow'', None)])))"

section \<open>The public source\<close>

text \<open>What the three reads of a snapshot answer, and the stored snapshot of the database: None when there is
  no fallback for the symbol, or it raises or has no snapshot.\<close>

record public_reads =
  tencent_read :: "bool \<Rightarrow> public_failure + snapshot"
  sina_read :: "public_failure + snapshot"
  stored_read :: "snapshot option"

definition public_snapshot_read :: "public_reads \<Rightarrow> bool \<Rightarrow> public_failure + snapshot" where
  "public_snapshot_read R detail =
     (let rest = (\<lambda>tencent_error intraday_error.
            case sina_read R of
              Inr s \<Rightarrow>
                (let errors = dset ''tencent_public'' (Some tencent_error) (snap_errors s) in
                 Inr (s\<lparr>snap_errors := (case intraday_error of None \<Rightarrow> errors
                    | Some e \<Rightarrow> dset ''tencent_intraday'' (Some e) errors)\<rparr>))
            | Inl OtherError \<Rightarrow> Inl OtherError
            | Inl (PublicMarketError _) \<Rightarrow>
                (case stored_read R of Some s \<Rightarrow> Inr s | None \<Rightarrow> Inl (PublicMarketError ''MARKET_QUOTE_UNAVAILABLE'')))
      in case tencent_read R detail of
           Inr s \<Rightarrow> Inr s
         | Inl OtherError \<Rightarrow> Inl OtherError
         | Inl (PublicMarketError code) \<Rightarrow>
             if detail then
               (case tencent_read R False of
                  Inr s \<Rightarrow> Inr (s\<lparr>snap_errors := dset ''tencent_intraday'' (Some code) (snap_errors s)\<rparr>)
                | Inl OtherError \<Rightarrow> Inl OtherError
                | Inl (PublicMarketError code') \<Rightarrow> rest code' (Some code))
             else rest code None)"

definition public_market_snapshot ::
  "(json \<Rightarrow> string) \<Rightarrow> (string \<Rightarrow> string option) \<Rightarrow> fetcher \<Rightarrow> fetcher \<Rightarrow> (string \<Rightarrow> public_failure + symbol_lookup) \<Rightarrow>
   snapshot option \<Rightarrow> time \<Rightarrow> string \<Rightarrow> bool \<Rightarrow> public_failure + snapshot" where
  "public_market_snapshot repr_text gb18030 tencent sina identity stored now sy detail =
     (case identity sy of Inl e \<Rightarrow> Inl e
      | Inr i \<Rightarrow>
          public_snapshot_read \<lparr>tencent_read = tencent_snapshot repr_text gb18030 tencent now i,
            sina_read = sina_snapshot repr_text gb18030 sina now i, stored_read = stored\<rparr> detail)"

definition public_market_series ::
  "(json \<Rightarrow> string) \<Rightarrow> fetcher \<Rightarrow> (string \<Rightarrow> public_failure + symbol_lookup) \<Rightarrow> string \<Rightarrow> string \<Rightarrow> nat \<Rightarrow> public_failure + series_page" where
  "public_market_series repr_text tencent identity sy period limit =
     (case identity sy of Inl e \<Rightarrow> Inl e | Inr i \<Rightarrow> tencent_series repr_text tencent i period limit)"

section \<open>Enrichment\<close>

type_synonym enrichment = "string + direct_outcome"

text \<open>What the direct source answers; None stands for a source that is missing. Any answer is kept.\<close>

definition enrichment_of :: "account_answer option \<Rightarrow> enrichment" where
  "enrichment_of answer =
     (case answer of
        None \<Rightarrow> Inl ''DIRECT_SESSION_UNAVAILABLE''
      | Some (Inl f) \<Rightarrow> Inl (failure_code ''DIRECT_REQUEST_FAILED'' f)
      | Some (Inr (Outcome d)) \<Rightarrow> Inr d
      | Some (Inr (PlainValues _)) \<Rightarrow> Inl ''DIRECT_REQUEST_FAILED'')"

text \<open>\<open>_read_enrichment\<close>; \<open>busy\<close> says that another thread holds the lock of the direct reads.\<close>

definition read_enrichment ::
  "seconds \<Rightarrow> nat \<Rightarrow> bool \<Rightarrow> account_answer option \<Rightarrow> seconds \<Rightarrow> string \<Rightarrow> enrichment cache \<Rightarrow> enrichment \<times> enrichment cache" where
  "read_enrichment ttl cap busy answer now sy c =
     (case cache_hit ttl now sy c of
        Some e \<Rightarrow> (e, c)
      | None \<Rightarrow>
          if busy then (Inl ''DIRECT_ENRICHMENT_BUSY'', c)
          else (let e = enrichment_of answer in (e, cache_store cap now sy e c)))"

definition without_enrichment :: "snapshot \<Rightarrow> string \<Rightarrow> snapshot" where
  "without_enrichment s code =
     s\<lparr>capabilities := dset ''l2'' (unavailable code) (capabilities s),
       snap_errors := dset ''core_metrics'' (Some code) (snap_errors s)\<rparr>"

definition l2_fields :: "(string \<times> metric_kind) list" where
  "l2_fields = [(''large_order_net'', LARGE_ORDER_NET), (''large_order_amount'', LARGE_ORDER_AMOUNT),
     (''retail_count'', RETAIL_COUNT), (''macdfs'', MACDFS)]"

definition has_points :: "json option \<Rightarrow> bool" where
  "has_points series = (case series of None \<Rightarrow> False | Some j \<Rightarrow> \<not> falsy (jget_or j ''points'' JNull))"

text \<open>\<open>_merge\<close>; the series of other metrics have no name here, but count as values.\<close>

definition merge_enrichment :: "snapshot \<Rightarrow> direct_outcome \<Rightarrow> snapshot" where
  "merge_enrichment s d =
     (let q = fold (\<lambda>(name, kind). dset name (out_values d kind)) l2_fields (quote s);
          series = fold (\<lambda>(name, kind) acc. case out_series d kind of
              Some j \<Rightarrow> if has_points (Some j) then dset name j acc else acc | None \<Rightarrow> acc) l2_fields (snap_series s);
          fund = fund_market_of_values (out_values d);
          has_l2 = list_ex (\<lambda>(name, _). Option.bind (dget q name) id \<noteq> None) l2_fields
            \<or> list_ex (\<lambda>kind. has_points (out_series d kind)) metric_kinds \<or> fund \<noteq> []
      in if \<not> has_l2 then without_enrichment s ''DIRECT_ENRICHMENT_EMPTY''
         else s\<lparr>quote := q, snap_series := series, snap_fund_flow := fund,
                capabilities := dset ''l2'' (JObj [(''available'', JBool True), (''reason'', JNull)]) (capabilities s),
                snap_errors := dset ''main_fund_flow'' (main_fund_flow (out_errors d))
                  (dset ''core_metrics'' (core_metrics (out_errors d)) (snap_errors s)),
                snap_trade_dates := stored_trade_dates d\<rparr>)"

text \<open>\<open>read_market_snapshot\<close>; \<open>stored_l2\<close> is the stored enrichment of a watchlist symbol, None when there is none.\<close>

definition enriched_snapshot ::
  "seconds \<Rightarrow> nat \<Rightarrow> (bool \<Rightarrow> public_failure + snapshot) \<Rightarrow> bool \<Rightarrow> direct_outcome option \<Rightarrow> bool \<Rightarrow> account_answer option \<Rightarrow>
   seconds \<Rightarrow> string \<Rightarrow> bool \<Rightarrow> enrichment cache \<Rightarrow> (public_failure + snapshot) \<times> enrichment cache" where
  "enriched_snapshot ttl cap base market_open stored_l2 busy answer now sy detail c =
     (case base detail of Inl e \<Rightarrow> (Inl e, c)
      | Inr s \<Rightarrow>
          if \<not> detail then (Inr s, c)
          else if \<not> market_open then
            (Inr (case stored_l2 of Some d \<Rightarrow> merge_enrichment s d
              | None \<Rightarrow> s\<lparr>capabilities := dset ''l2'' (unavailable ''MARKET_CLOSED_DATA_UNAVAILABLE'') (capabilities s),
                          snap_errors := dset ''main_fund_flow'' None (dset ''core_metrics'' None (snap_errors s))\<rparr>), c)
          else
            (case read_enrichment ttl cap busy answer now sy c of
               (Inl code, c') \<Rightarrow> (Inr (without_enrichment s (if code = [] then ''DIRECT_REQUEST_FAILED'' else code)), c')
             | (Inr d, c') \<Rightarrow> (Inr (merge_enrichment s d), c')))"

end
