(* ===== verification/Public_Properties.thy ===== *)
theory Public_Properties
  imports Public_Market
begin

text \<open>
  Properties of the public market data, with their witnesses: the bars of a series are consistent, the
  volumes of the minutes add up, and the enrichment leaves the public quote alone.
\<close>

section \<open>Texts of numbers\<close>

lemma dec28_nonneg: "0 \<le> v \<Longrightarrow> 0 \<le> dec28 v"
proof -
  assume v: "0 \<le> v"
  have "\<bar>dec28 v - v\<bar> \<le> v * (5 / 10 ^ 28)" using dec28_error [of v] v by simp
  moreover have "v * (5 / 10 ^ 28) \<le> v * 1" using v by (intro mult_left_mono) simp_all
  ultimately show ?thesis by linarith
qed

lemma fixed_number_reads:
  assumes "fixed_number places (Some v) = Some t" "0 \<le> v"
  shows "reads t = Some (of_nat (rounded_digits places v) / 10 ^ places)"
  using assms decimal_of_fixed [of False] by (auto simp: fixed_number_def reads_def Let_def split: if_splits)

lemma public_number_reads: "\<exists>w. reads (public_number (Some v)) = Some w \<and> (w = v \<and> of_int \<lfloor>v\<rfloor> = v \<or> w = dec28 v)"
proof (cases "of_int \<lfloor>v\<rfloor> = v")
  case True
  have "v * 10 ^ 0 = of_int \<lfloor>v\<rfloor>" by (simp only: True) simp
  then have "decimal_of_text (plain_text v) = Some v" by (rule plain_text_round)
  then show ?thesis using True by (simp add: public_number_def reads_def)
next
  case False
  then show ?thesis using dec28_decimal [of v] plain_text_round by (auto simp: public_number_def reads_def)
qed

lemma rounded_digits_mono: "0 \<le> a \<Longrightarrow> a \<le> b \<Longrightarrow> rounded_digits places a \<le> rounded_digits places b"
  unfolding rounded_digits_def by (intro nat_mono floor_mono add_right_mono mult_right_mono) simp_all

section \<open>Bars\<close>

text \<open>The texts of a bar are numbers, the low is not above the others, the high not below, and none is negative.\<close>

definition bar_consistent :: "kline_bar \<Rightarrow> bool" where
  "bar_consistent b \<longleftrightarrow> (\<exists>o1 h l c v. reads (bar_open b) = Some o1 \<and> reads (bar_high b) = Some h \<and> reads (bar_low b) = Some l
     \<and> reads (bar_close b) = Some c \<and> reads (bar_volume b) = Some v
     \<and> 0 \<le> l \<and> l \<le> o1 \<and> l \<le> c \<and> o1 \<le> h \<and> c \<le> h \<and> 0 \<le> v)"

lemma bar_of_row_consistent:
  assumes "bar_of_row repr_text places row previous = Inr b"
  shows "bar_consistent b" "\<And>d. previous = Some d \<Longrightarrow> d < bar_time b"
proof -
  obtain vs op1 close high low lots to th tl tc
    where q: "\<not> (Min {op1, close, high, low, lots} < 0 \<or> high < Max {op1, close, low} \<or> Min {op1, close, high} < low)"
    and t': "fixed_number places (Some op1) = Some to" "fixed_number places (Some high) = Some th"
      "fixed_number places (Some low) = Some tl" "fixed_number places (Some close) = Some tc"
    and b: "b = \<lparr>bar_time = py_str repr_text (vs ! 0), bar_open = to, bar_high = th, bar_low = tl, bar_close = tc,
      bar_volume = public_number (Some (dmul lots 100)), bar_amount = None\<rparr>"
    and d': "\<not> (case previous of None \<Rightarrow> False | Some d \<Rightarrow> py_str repr_text (vs ! 0) \<le> d)"
    using assms unfolding bar_of_row_def Let_def prod.case inr_simps bind_eq_Some_conv option.inject by metis
  have t: "fixed_number places (Some op1) = Some (bar_open b)" "fixed_number places (Some high) = Some (bar_high b)"
      "fixed_number places (Some low) = Some (bar_low b)" "fixed_number places (Some close) = Some (bar_close b)"
    and v: "bar_volume b = public_number (Some (dmul lots 100))"
    and d: "\<not> (case previous of None \<Rightarrow> False | Some d \<Rightarrow> bar_time b \<le> d)"
    using t' d' unfolding b by (cases previous; simp)+
  have o: "0 \<le> low" "low \<le> op1" "low \<le> close" "op1 \<le> high" "close \<le> high" "0 \<le> lots" using q by auto
  obtain w where w: "reads (bar_volume b) = Some w" "w = dmul lots 100 \<or> w = dec28 (dmul lots 100)"
    using public_number_reads [of "dmul lots 100"] by (auto simp: v)
  have "0 \<le> w" using w(2) o(6) by (auto simp: dmul_def intro!: dec28_nonneg)
  moreover note r = t(1) [THEN fixed_number_reads] t(2) [THEN fixed_number_reads] t(3) [THEN fixed_number_reads] t(4) [THEN fixed_number_reads]
  have "0 \<le> op1" "0 \<le> high" "0 \<le> low" "0 \<le> close" using o by linarith+
  ultimately show "bar_consistent b"
    unfolding bar_consistent_def using w(1) o
    by (simp add: r) (intro conjI divide_right_mono of_nat_mono rounded_digits_mono; simp)
  show "d < bar_time b" if "previous = Some d" for d
    using d that by (cases previous) (simp_all add: not_le)
qed

lemma bars_loop_consistent:
  assumes "bars_loop repr_text places rows previous = Inr bars"
  shows "list_all bar_consistent bars \<and> sorted_wrt (<) (map bar_time bars)
    \<and> (\<forall>d b. previous = Some d \<longrightarrow> b \<in> set bars \<longrightarrow> d < bar_time b)"
  using assms
proof (induction rows arbitrary: previous bars)
  case (Cons row rows)
  obtain b bs where b: "bar_of_row repr_text places row previous = Inr b" and bs: "bars = b # bs"
    and l: "bars_loop repr_text places rows (Some (bar_time b)) = Inr bs"
    using Cons.prems
    by (cases "bar_of_row repr_text places row previous"; cases "bars_loop repr_text places rows (Some (bar_time (projr (bar_of_row repr_text places row previous))))")
      auto
  note ih = Cons.IH [OF l] and first = bar_of_row_consistent [OF b]
  then show ?case unfolding bs by (auto intro: order.strict_trans)
qed simp

text \<open>
  C33: A page of a public series holds bars of growing dates whose texts are consistent numbers, also after
  they were rounded to the places of the security; it has at most five bars of the last days, or as many as
  were asked for.
\<close>

theorem public_bars_consistent:
  assumes "tencent_series repr_text fetch i period limit = Inr page" and "0 < limit"
  shows "list_all bar_consistent (page_bars page) \<and> sorted_wrt (<) (map bar_time (page_bars page)) \<and> page_bars page \<noteq> []
    \<and> length (page_bars page) \<le> (if period = ''five_day'' then 5 else limit)"
proof -
  let ?n = "if period = ''five_day'' then 5 else limit"
  obtain rows bars where "bars_loop repr_text (precision_of i) rows None = Inr bars" and ne: "bars \<noteq> []"
    and page: "page_bars page = last_items ?n bars"
    using assms(1) unfolding tencent_series_def Let_def inr_simps by (elim exE conjE) (auto simp: empty_page_def)
  then have "list_all bar_consistent bars" "sorted_wrt (<) (map bar_time bars)" using bars_loop_consistent by blast+
  moreover have "0 < ?n" using assms(2) by simp
  then have "page_bars page = drop (length bars - ?n) bars" "length bars - ?n < length bars"
    using ne by (auto simp: page last_items_def)
  ultimately show ?thesis
    by (auto simp: list_all_iff sorted_wrt_drop dest: in_set_dropD simp flip: drop_map)
qed

definition demo_identity :: symbol_lookup where
  "demo_identity = \<lparr>lookup_symbol = ''600000'', lookup_name = ''Bank'', lookup_market = ''17'', lookup_label = None,
     lookup_securities_code = None\<rparr>"

definition demo_row :: "string \<Rightarrow> rat \<Rightarrow> rat \<Rightarrow> json" where
  "demo_row day low high = JArr [JStr day, JNum low, JNum low, JNum high, JNum low, JNum 5]"

definition demo_node :: "json list \<Rightarrow> json" where
  "demo_node rows = JObj [(''data'', JObj [(''sh600000'', JObj [(''qfqday'', JArr rows)])])]"

lemma demo_fixed:
  "fixed_number 2 (Some 9) = Some (Some (fixed_text 2 900))" "fixed_number 2 (Some 12) = Some (Some (fixed_text 2 1200))"
proof -
  have "\<lfloor>1801 / 2 :: rat\<rfloor> = 900" "\<lfloor>2401 / 2 :: rat\<rfloor> = 1200" by (simp_all add: floor_eq_iff)
  then have "rounded_digits 2 9 = 900" "rounded_digits 2 12 = 1200" by (simp_all add: rounded_digits_def)
  then show "fixed_number 2 (Some 9) = Some (Some (fixed_text 2 900))" "fixed_number 2 (Some 12) = Some (Some (fixed_text 2 1200))"
    by (simp_all add: fixed_number_def)
qed

lemma demo_bar:
  assumes "iso_date day \<noteq> None" "case previous of None \<Rightarrow> True | Some d \<Rightarrow> d < day"
  shows "\<exists>b. bar_of_row (\<lambda>_. []) 2 (demo_row day 9 12) previous = Inr b \<and> bar_time b = day"
proof -
  have "\<not> (case previous of None \<Rightarrow> False | Some d \<Rightarrow> day \<le> d)" using assms(2) by (cases previous) (simp_all add: not_le)
  then show ?thesis
    using assms(1) by (simp add: bar_of_row_def demo_row_def py_str_def decimal_of_json_def demo_fixed or_raise_def Let_def)
qed

theorem public_bars_consistent_witness:
  "\<exists>page. tencent_series (\<lambda>_. []) (\<lambda>_. Inr (json_dumps (demo_node [demo_row ''2024-01-02'' 9 12, demo_row ''2024-01-03'' 9 12])))
      demo_identity ''day'' 1 = Inr page \<and> list_all bar_consistent (page_bars page) \<and> page_bars page \<noteq> []"
proof -
  let ?rows = "[demo_row ''2024-01-02'' 9 12, demo_row ''2024-01-03'' 9 12]"
  let ?fetch = "\<lambda>_ :: string. Inr (json_dumps (demo_node ?rows)) :: public_failure + string"
  have dates: "iso_date ''2024-01-02'' \<noteq> None" "iso_date ''2024-01-03'' \<noteq> None" "''2024-01-02'' < ''2024-01-03''" by code_simp+
  obtain b1 where b1: "bar_of_row (\<lambda>_. []) 2 (demo_row ''2024-01-02'' 9 12) None = Inr b1" "bar_time b1 = ''2024-01-02''"
    using demo_bar [OF dates(1), of None] by auto
  obtain b2 where b2: "bar_of_row (\<lambda>_. []) 2 (demo_row ''2024-01-03'' 9 12) (Some ''2024-01-02'') = Inr b2"
    using demo_bar [OF dates(2), of "Some ''2024-01-02''"] dates(3) by auto
  have "bars_loop (\<lambda>_. []) 2 ?rows None = Inr [b1, b2]" using b1 b2 by simp
  moreover have "writable (demo_node ?rows)" by (simp add: demo_node_def demo_row_def)
  then have "series_rows (json_dumps (demo_node ?rows)) ''sh600000'' ''day'' = Inr ?rows"
    by (simp only: series_rows_def json_round_trip) (simp add: demo_node_def or_raise_def)
  moreover have "provider_id demo_identity = Inr ''sh600000''" "precision_of demo_identity = 2"
    by (simp_all add: provider_id_def precision_of_def demo_identity_def)
  moreover have "tencent_request ?fetch u = Inr (json_dumps (demo_node ?rows))" for u by (simp add: tencent_request_def)
  ultimately have page: "\<exists>page. tencent_series (\<lambda>_. []) ?fetch demo_identity ''day'' 1 = Inr page"
    by (simp add: tencent_series_def Let_def del: bars_loop.simps json_dumps_simps)
  then obtain page where page: "tencent_series (\<lambda>_. []) ?fetch demo_identity ''day'' 1 = Inr page" by (elim exE)
  note facts = public_bars_consistent [OF this zero_less_one]
  show ?thesis by (intro exI conjI, rule page, rule facts [THEN conjunct1], rule facts [THEN conjunct2, THEN conjunct2, THEN conjunct1])
qed

section \<open>Minutes\<close>

text \<open>The cumulative volumes of the rows that count.\<close>

definition row_lots :: "string \<Rightarrow> rat option" where
  "row_lots row =
     (let parts = split_words row in
      if length parts < 3 \<or> session_time (parts ! 0) = None then None else decimal_of_text (parts ! 2))"

definition whole_lots :: "rat \<Rightarrow> bool" where
  "whole_lots x \<longleftrightarrow> (\<exists>n. x = of_nat n \<and> n < 10 ^ 26)"

definition volume_of :: "timeshare_point \<Rightarrow> rat" where
  "volume_of p = (case reads (tp_volume p) of None \<Rightarrow> 0 | Some v \<Rightarrow> v)"

lemma whole_volume:
  assumes "whole_lots l" "whole_lots m" "m \<le> l"
  shows "reads (public_number (Some (dmul (dsub l m) 100))) = Some (100 * (l - m))"
proof -
  obtain a b where ab: "l = of_nat a" "a < 10 ^ 26" "m = of_nat b" "b < 10 ^ 26" using assms(1,2) by (auto simp: whole_lots_def)
  then have le: "b \<le> a" using assms(3) by simp
  have "dsub l m = l - m"
    unfolding dsub_def using ab le by (intro dec28_exact [of _ 0 "int a - int b"]) auto
  moreover have "dec28 ((l - m) * 100) = (l - m) * 100"
    using ab le by (intro dec28_exact [of _ 0 "(int a - int b) * 100"]) auto
  ultimately have "dmul (dsub l m) 100 = 100 * (l - m)" by (simp add: dmul_def)
  moreover have "of_int \<lfloor>100 * (l - m)\<rfloor> = 100 * (l - m)"
  proof -
    have "100 * (l - m) = of_int (100 * (int a - int b))" by (simp add: ab)
    then show ?thesis by (simp only: floor_of_int)
  qed
  ultimately show ?thesis using public_number_reads [of "100 * (l - m)"] dec28_exact [of "100 * (l - m)" 0 "100 * (int a - int b)"] ab le
    by auto
qed

lemma minute_loop_step:
  assumes "minute_loop places (row # rows) previous previous_time = Inr points"
  obtains (skip) "row_lots row = None" "minute_loop places rows previous previous_time = Inr points"
  | (point) l t p ps where "row_lots row = Some l" "points = p # ps" "tp_time p = t" "previous \<le> l"
      "tp_volume p = public_number (Some (dmul (dsub l previous) 100))"
      "\<And>s. previous_time = Some s \<Longrightarrow> s < t" "minute_loop places rows l (Some t) = Inr ps"
proof (cases "length (split_words row) < 3 \<or> session_time (split_words row ! 0) = None")
  case True
  have "row_lots row = None" using True by (simp add: row_lots_def Let_def)
  moreover have "minute_loop places rows previous previous_time = Inr points"
    using assms True by (cases "length (split_words row) < 3") (simp_all add: Let_def)
  ultimately show ?thesis by (rule skip)
next
  case False
  then obtain t where t: "session_time (split_words row ! 0) = Some t" by auto
  let ?parts = "split_words row"
  from False assms obtain p ps price l amount where q: "\<not> (case previous_time of None \<Rightarrow> False | Some s \<Rightarrow> t \<le> s)"
    and price: "decimal_of_text (?parts ! 1) = price"
    and ok: "\<not> minute_price_invalid price (decimal_of_text (?parts ! 2)) amount previous"
    and p: "minute_point places t (the price) (the (decimal_of_text (?parts ! 2))) amount previous = Some p"
    and l: "minute_loop places rows (the (decimal_of_text (?parts ! 2))) (Some t) = Inr ps" and ps: "points = p # ps"
    unfolding minute_loop.simps Let_def using t by (simp add: inr_simps) metis
  from ok obtain l where lots: "decimal_of_text (?parts ! 2) = Some l" and le: "previous \<le> l"
    by (auto simp: minute_price_invalid_def split: option.splits)
  show ?thesis
  proof (rule point)
    show "row_lots row = Some l" using False lots by (simp add: row_lots_def Let_def)
    show "tp_time p = t" "tp_volume p = public_number (Some (dmul (dsub l previous) 100))"
      using p by (auto simp: minute_point_def lots Let_def split: bind_splits)
    show "s < t" if "previous_time = Some s" for s using q that by simp
  qed (use ps le l lots in simp_all)
qed

lemma minute_loop_sum:
  assumes "minute_loop places rows previous previous_time = Inr points" "whole_lots previous"
    and "\<forall>l\<in>set (List.map_filter row_lots rows). whole_lots l"
  shows "sum_list (map volume_of points) = 100 * (last (previous # List.map_filter row_lots rows) - previous)
    \<and> sorted_wrt (<) (map tp_time points) \<and> (\<forall>s p. previous_time = Some s \<longrightarrow> p \<in> set points \<longrightarrow> s < tp_time p)
    \<and> sorted (previous # List.map_filter row_lots rows)"
  using assms
proof (induction rows arbitrary: previous previous_time points)
  case (Cons row rows)
  from Cons.prems(1) show ?case
  proof (cases rule: minute_loop_step)
    case skip
    then show ?thesis using Cons by (simp add: map_filter_simps)
  next
    case (point l t p ps)
    have lots: "List.map_filter row_lots (row # rows) = l # List.map_filter row_lots rows" using point(1) by (simp add: map_filter_simps)
    have l: "whole_lots l" using Cons.prems(3) lots by simp
    have "volume_of p = 100 * (l - previous)"
      using whole_volume [OF l Cons.prems(2) point(4)] by (simp add: volume_of_def point(5))
    moreover have "\<forall>x\<in>set (List.map_filter row_lots rows). whole_lots x" using Cons.prems(3) lots by simp
    note ih = Cons.IH [OF point(7) l this]
    ultimately show ?thesis
      using ih point(4) point(6) unfolding point(2) lots by (auto simp: point(3) algebra_simps intro: order.strict_trans)
  qed
qed (simp add: map_filter_simps)

text \<open>
  C29: The volumes of the minutes of a day add up to the last cumulative volume, in shares; the minutes are
  in order, each once, and a volume that falls back is refused.
\<close>

theorem minute_volumes_add_up:
  assumes "minute_loop places rows 0 None = Inr points"
    and "\<forall>l\<in>set (List.map_filter row_lots rows). whole_lots l"
  shows "sum_list (map volume_of points) = 100 * last (0 # List.map_filter row_lots rows)
    \<and> sorted_wrt (<) (map tp_time points) \<and> sorted (0 # List.map_filter row_lots rows)"
  using minute_loop_sum [OF assms(1) _ assms(2)] by (simp add: whole_lots_def)

definition demo_minutes :: "string list" where
  "demo_minutes = [''0930 10 5'', ''1200 10 6'', ''0931 10 7'']"

lemma demo_parts:
  "split_words ''0930 10 5'' = [''0930'', ''10'', ''5'']" "split_words ''1200 10 6'' = [''1200'', ''10'', ''6'']"
  "split_words ''0931 10 7'' = [''0931'', ''10'', ''7'']"
  "session_time ''0930'' = Some ''09:30''" "session_time ''1200'' = None" "session_time ''0931'' = Some ''09:31''"
  "''09:30'' < ''09:31''"
  by code_simp+

lemma demo_amounts: "decimal_of_text ''10'' = Some 10" "decimal_of_text ''5'' = Some 5" "decimal_of_text ''7'' = Some 7"
proof -
  have "fixed_text 0 10 = ''10''" "fixed_text 0 5 = ''5''" "fixed_text 0 7 = ''7''" by code_simp+
  then show "decimal_of_text ''10'' = Some 10" "decimal_of_text ''5'' = Some 5" "decimal_of_text ''7'' = Some 7"
    using decimal_of_fixed [of False 0 10] decimal_of_fixed [of False 0 5] decimal_of_fixed [of False 0 7] by simp_all
qed

lemma demo_minute_point: "\<exists>p. minute_point 2 time 10 lots None previous = Some p"
proof -
  have "\<lfloor>2001 / 2 :: rat\<rfloor> = 1000" by (simp add: floor_eq_iff)
  then have "rounded_digits 2 10 = 1000" by (simp add: rounded_digits_def)
  then show ?thesis by (simp add: minute_point_def fixed_number_def Let_def)
qed

lemma demo_lots: "List.map_filter row_lots demo_minutes = [5, 7]"
  by (simp add: demo_minutes_def map_filter_simps row_lots_def demo_parts demo_amounts)

theorem minute_volumes_add_up_witness:
  "\<exists>points. minute_loop 2 demo_minutes 0 None = Inr points \<and> sum_list (map volume_of points) = 700
     \<and> sorted_wrt (<) (map tp_time points)"
proof -
  obtain p1 p2 where "minute_point 2 ''09:30'' 10 5 None 0 = Some p1" "minute_point 2 ''09:31'' 10 7 None 5 = Some p2"
    using demo_minute_point by blast
  then have "\<exists>points. minute_loop 2 demo_minutes 0 None = Inr points"
    using demo_parts(7) by (simp add: demo_minutes_def demo_parts(1-6) demo_amounts minute_price_invalid_def not_le)
  then obtain points where points: "minute_loop 2 demo_minutes 0 None = Inr points" by (elim exE)
  have "whole_lots 5" "whole_lots 7" unfolding whole_lots_def by (rule exI [of _ 5], simp) (rule exI [of _ 7], simp)
  then have "\<forall>l\<in>set (List.map_filter row_lots demo_minutes). whole_lots l" by (simp add: demo_lots)
  note facts = minute_volumes_add_up [OF points this]
  then show ?thesis using points by (simp add: demo_lots)
qed

section \<open>Enrichment\<close>

text \<open>What a direct read may not change in a public snapshot.\<close>

definition same_outside :: "'k list \<Rightarrow> ('k, 'v) dict \<Rightarrow> ('k, 'v) dict \<Rightarrow> bool" where
  "same_outside ks d d' \<longleftrightarrow> (\<forall>k. k \<notin> set ks \<longrightarrow> dget d' k = dget d k)"

definition public_part_kept :: "snapshot \<Rightarrow> snapshot \<Rightarrow> bool" where
  "public_part_kept s s' \<longleftrightarrow>
     same_outside (map fst l2_fields) (quote s) (quote s')
     \<and> same_outside [''l2''] (capabilities s) (capabilities s')
     \<and> same_outside [''core_metrics'', ''main_fund_flow''] (snap_errors s) (snap_errors s')
     \<and> s' = s\<lparr>quote := quote s', capabilities := capabilities s', snap_errors := snap_errors s', snap_series := snap_series s',
         snap_fund_flow := snap_fund_flow s', snap_trade_dates := snap_trade_dates s'\<rparr>"

lemma same_outside_refl [simp]: "same_outside ks d d"
  by (simp add: same_outside_def)

lemma same_outside_dset: "k \<in> set ks \<Longrightarrow> same_outside ks d d' \<Longrightarrow> same_outside ks d (dset k v d')"
  by (auto simp: same_outside_def)

lemma same_outside_fold:
  "set (map fst kvs) \<subseteq> set ks \<Longrightarrow> same_outside ks d d' \<Longrightarrow> same_outside ks d (fold (\<lambda>(k, x). dset k (f x)) kvs d')"
proof (induction kvs arbitrary: d')
  case (Cons kv kvs)
  then show ?case by (cases kv) (simp add: same_outside_dset)
qed simp

lemma without_enrichment_kept: "public_part_kept s (without_enrichment s code)"
  by (simp add: public_part_kept_def without_enrichment_def same_outside_dset)

lemma merge_enrichment_kept: "public_part_kept s (merge_enrichment s d)"
proof -
  have "same_outside (map fst l2_fields) (quote s) (fold (\<lambda>(name, kind). dset name (out_values d kind)) l2_fields (quote s))"
    by (rule same_outside_fold) simp_all
  moreover have "same_outside [''l2''] (capabilities s) (dset ''l2'' x (capabilities s))" for x
    by (simp add: same_outside_dset)
  moreover have "same_outside [''core_metrics'', ''main_fund_flow''] (snap_errors s)
      (dset ''main_fund_flow'' x (dset ''core_metrics'' y (snap_errors s)))" for x y
    by (simp add: same_outside_dset)
  ultimately have "public_part_kept s (s\<lparr>quote := fold (\<lambda>(name, kind). dset name (out_values d kind)) l2_fields (quote s),
      snap_series := series, snap_fund_flow := fund, capabilities := dset ''l2'' c (capabilities s),
      snap_errors := dset ''main_fund_flow'' x (dset ''core_metrics'' y (snap_errors s)), snap_trade_dates := dates\<rparr>)"
    for series fund c x y dates by (simp add: public_part_kept_def)
  then show ?thesis unfolding merge_enrichment_def Let_def by (simp only: if_split without_enrichment_kept simp_thms)
qed

text \<open>
  C17: Whatever the direct source answers, a public snapshot that was read is shown: its own fields, its errors
  and its capabilities are kept, and only the fields of the enrichment are set; without one the error is shown.
\<close>

theorem enrichment_keeps_quote:
  "case base detail of
     Inl e \<Rightarrow> fst (enriched_snapshot ttl cap base market_open stored_l2 busy answer now sy detail c) = Inl e
   | Inr s \<Rightarrow> \<exists>s'. fst (enriched_snapshot ttl cap base market_open stored_l2 busy answer now sy detail c) = Inr s'
       \<and> public_part_kept s s'"
proof (cases "base detail")
  case (Inr s)
  have "public_part_kept s s" by (simp add: public_part_kept_def)
  moreover have "public_part_kept s (s\<lparr>capabilities := dset ''l2'' (unavailable code) (capabilities s),
      snap_errors := dset ''main_fund_flow'' None (dset ''core_metrics'' None (snap_errors s))\<rparr>)" for code
    by (simp add: public_part_kept_def same_outside_dset)
  ultimately show ?thesis
    using Inr by (simp add: enriched_snapshot_def without_enrichment_kept merge_enrichment_kept split: option.split sum.split prod.split)
qed (simp add: enriched_snapshot_def)

end
