(* ===== verification/Doubles.thy ===== *)
theory Doubles
  imports Public_Values "HOL-Library.Log_Nat"
begin

text \<open>
  Python's \<open>float\<close> in the range of the normal numbers: the rational numbers of 53 binary digits. An operation is
  exact and then rounded to the nearest of them, half to even; the infinities of an overflow and the numbers below
  \<open>2 powi -1022\<close> are not modelled, and \<open>-0.0\<close> is \<open>0\<close>.
\<close>

section \<open>Rounding to 53 binary digits\<close>

text \<open>The number of binary digits before the point of a positive number.\<close>

definition binary_exponent :: "rat \<Rightarrow> int" where
  "binary_exponent x =
     (case quotient_of x of (a, b) \<Rightarrow>
        let e = bitlen a - bitlen b in if 2 powi e \<le> x then e + 1 else e)"

definition double :: "rat \<Rightarrow> rat" where
  "double v =
     (if v = 0 then 0
      else let s = 53 - binary_exponent \<bar>v\<bar> in sgn v * of_int (half_even (\<bar>v\<bar> * 2 powi s)) / 2 powi s)"

definition fadd :: "rat \<Rightarrow> rat \<Rightarrow> rat" where "fadd x y = double (x + y)"
definition fsub :: "rat \<Rightarrow> rat \<Rightarrow> rat" where "fsub x y = double (x - y)"
definition fmul :: "rat \<Rightarrow> rat \<Rightarrow> rat" where "fmul x y = double (x * y)"
definition fdiv :: "rat \<Rightarrow> rat \<Rightarrow> rat" where "fdiv x y = double (x / y)"

text \<open>\<open>math.sqrt\<close>, correctly rounded: the root of the number scaled to 53 digits before the point.\<close>

function int_root :: "nat \<Rightarrow> nat" where
  "int_root n = (if n = 0 then 0 else let r = 2 * int_root (n div 4) in if (r + 1)\<^sup>2 \<le> n then r + 1 else r)"
  by auto
termination by (relation "measure id") auto

declare int_root.simps [simp del]

definition fsqrt :: "rat \<Rightarrow> rat" where
  "fsqrt v =
     (if v = 0 then 0
      else
        (let s = 53 - (binary_exponent v + 1) div 2;
             w = v * 4 powi s;
             r = int_root (nat \<lfloor>w\<rfloor>);
             middle = (of_nat r + 1 / 2)\<^sup>2
         in of_nat (if w < middle \<or> w = middle \<and> even r then r else r + 1) / 2 powi s))"

text \<open>\<open>sum\<close> of floats, which carries the lost digits along since Python 3.12.\<close>

fun sum_loop :: "rat \<Rightarrow> rat \<Rightarrow> rat list \<Rightarrow> rat" where
  "sum_loop f c [] = (if c = 0 then f else fadd f c)"
| "sum_loop f c (x # xs) =
     (let t = fadd f x in
      sum_loop t (fadd c (if \<bar>x\<bar> \<le> \<bar>f\<bar> then fadd (fsub f t) x else fadd (fsub x t) f)) xs)"

definition float_sum :: "rat list \<Rightarrow> rat" where
  "float_sum xs = (case xs of [] \<Rightarrow> 0 | x # r \<Rightarrow> sum_loop x 0 r)"

section \<open>Whole numbers\<close>

named_theorems double_simps \<open>the rounded operations\<close>
declare fadd_def [double_simps] fsub_def [double_simps] fmul_def [double_simps] fdiv_def [double_simps]

lemma binary_exponent_bound:
  assumes "0 < x"
  shows "2 powi (binary_exponent x - 1) \<le> x"
proof -
  obtain a b where q: "quotient_of x = (a, b)" by (cases "quotient_of x")
  have b: "0 < b" and x: "x = of_int a / of_int b"
    using quotient_of_denom_pos [OF q] quotient_of_div [OF q] by auto
  then have a: "0 < a" using assms by (simp add: zero_less_divide_iff)
  define i where "i = nat (bitlen a - 1)"
  define j where "j = nat (bitlen b)"
  have la: "0 < bitlen a" using a bitlen_eq_zero_iff [of a] bitlen_nonneg [of a] by linarith
  have "(2 :: int) ^ i \<le> a" "b < 2 ^ j" using bitlen_bounds [of a] bitlen_bounds [of b] a b by (simp_all add: i_def j_def)
  then have "(2 :: rat) ^ i \<le> of_int a" "(of_int b :: rat) \<le> 2 ^ j"
    by (metis of_int_le_iff of_int_numeral of_int_power less_imp_le)+
  moreover have "bitlen a - bitlen b - 1 = int i - int j" using la bitlen_nonneg [of b] by (simp add: i_def j_def)
  then have "2 powi (bitlen a - bitlen b - 1) = (2 :: rat) ^ i / 2 ^ j" by (simp add: power_int_diff)
  ultimately have "2 powi (bitlen a - bitlen b - 1) \<le> x" unfolding x using a b by (simp add: frac_le)
  then show ?thesis by (simp add: binary_exponent_def q Let_def)
qed

text \<open>A number of at most 53 binary digits is not rounded.\<close>

lemma double_exact:
  assumes "v * 2 ^ k = of_int n" and "\<bar>n\<bar> < 2 ^ 53"
  shows "double v = v"
proof (cases "v = 0")
  case False
  let ?e = "binary_exponent \<bar>v\<bar>"
  have pos: "0 < \<bar>v\<bar>" using False by simp
  have "\<bar>v\<bar> * 2 ^ k = of_int \<bar>n\<bar>"
    using arg_cong [OF assms(1), of abs] by (simp add: abs_mult)
  also have "\<dots> < (of_int (2 ^ 53) :: rat)" using assms(2) by (simp only: of_int_less_iff)
  finally have "\<bar>v\<bar> * 2 ^ k < (2 :: rat) powi 53" by simp
  moreover have "2 powi (?e - 1) * 2 ^ k \<le> \<bar>v\<bar> * 2 ^ k"
    using binary_exponent_bound [OF pos] by (intro mult_right_mono) auto
  moreover have "(2 :: rat) powi (?e - 1 + int k) = 2 powi (?e - 1) * 2 ^ k"
    by (subst power_int_add) auto
  ultimately have "(2 :: rat) powi (?e - 1 + int k) < 2 powi 53" by linarith
  then have "?e - 1 + int k < 53" by (metis linorder_not_le one_le_numeral power_int_increasing)
  then have "53 - ?e = int (nat (53 - ?e - int k)) + int k" by simp
  then obtain j where s: "53 - ?e = int j + int k" by blast
  have "\<bar>v\<bar> * 2 powi (53 - ?e) = of_int (\<bar>n\<bar> * 2 ^ j)"
    using \<open>\<bar>v\<bar> * 2 ^ k = of_int \<bar>n\<bar>\<close> by (simp add: s power_int_add mult.commute mult.left_commute)
  then have h: "of_int (half_even (\<bar>v\<bar> * 2 powi (53 - ?e))) = \<bar>v\<bar> * 2 powi (53 - ?e)"
    using half_even_int by metis
  have "double v = sgn v * (\<bar>v\<bar> * 2 powi (53 - ?e)) / 2 powi (53 - ?e)"
    using False by (simp only: double_def Let_def h if_False)
  also have "\<dots> = sgn v * \<bar>v\<bar>" by (simp add: power_int_eq_0_iff)
  finally show ?thesis by (simp add: sgn_mult_abs)
qed (simp add: double_def)

text \<open>Rounding at most doubles a number.\<close>

lemma double_bound: "\<bar>double v\<bar> \<le> 2 * \<bar>v\<bar>"
proof (cases "v = 0")
  case False
  define e where "e = binary_exponent \<bar>v\<bar>"
  define s :: rat where "s = 2 powi (53 - e)"
  have s: "0 < s" by (simp add: s_def)
  have "2 powi (e - 1) \<le> \<bar>v\<bar>" using binary_exponent_bound [of "\<bar>v\<bar>"] False by (simp add: e_def)
  then have "2 powi (e - 1) * s \<le> \<bar>v\<bar> * s" using s by (intro mult_right_mono) simp_all
  moreover have "(2 :: rat) powi (e - 1) * s = 2 powi (e - 1 + (53 - e))" unfolding s_def by (subst power_int_add) simp_all
  ultimately have "1 \<le> \<bar>v\<bar> * s" by simp
  moreover have "\<bar>of_int (half_even (\<bar>v\<bar> * s))\<bar> \<le> \<bar>v\<bar> * s + 1 / 2"
    using half_even_bound [of "\<bar>v\<bar> * s"] calculation by linarith
  ultimately have "\<bar>of_int (half_even (\<bar>v\<bar> * s))\<bar> \<le> 2 * \<bar>v\<bar> * s" by linarith
  then have "\<bar>of_int (half_even (\<bar>v\<bar> * s))\<bar> / s \<le> 2 * \<bar>v\<bar>" using s by (simp add: divide_le_eq)
  moreover have "\<bar>double v\<bar> = \<bar>of_int (half_even (\<bar>v\<bar> * s))\<bar> / s"
    using False s by (simp add: double_def Let_def e_def s_def abs_mult)
  ultimately show ?thesis by simp
qed (simp add: double_def)

lemma double_0 [simp]: "double 0 = 0"
  by (simp add: double_def)

lemma double_whole: "n < 2 ^ 53 \<Longrightarrow> double (of_nat n) = of_nat n"
  by (rule double_exact [of _ 0 "int n"]) auto

lemma int_root_bounds: "(int_root n)\<^sup>2 \<le> n \<and> n < (int_root n + 1)\<^sup>2"
proof (induction n rule: int_root.induct)
  case (1 n)
  show ?case
  proof (cases "n = 0")
    case False
    let ?q = "int_root (n div 4)"
    have ih: "?q\<^sup>2 \<le> n div 4" "n div 4 < (?q + 1)\<^sup>2" using 1 [OF False] by simp_all
    have "(2 * ?q)\<^sup>2 \<le> n" using ih(1) by (simp add: power_mult_distrib)
    moreover have "n < (2 * ?q + 2)\<^sup>2" using ih(2) by (simp add: power2_eq_square algebra_simps)
    ultimately show ?thesis using False int_root.simps [of n] by (simp add: Let_def add.commute)
  qed (simp add: int_root.simps)
qed

text \<open>A repeated whole number has the exact sum, and loses no digits on the way.\<close>

lemma sum_loop_replicate:
  assumes "(m + k) * c < 2 ^ 53" "0 < m"
  shows "sum_loop (of_nat (m * c)) 0 (replicate k (of_nat c)) = of_nat ((m + k) * c)"
  using assms
proof (induction k arbitrary: m)
  case (Suc k)
  have small: "(m + 1) * c < 2 ^ 53" "c < 2 ^ 53"
    using Suc.prems by (auto elim!: le_less_trans [rotated] simp: algebra_simps)
  have t: "fadd (of_nat (m * c)) (of_nat c) = of_nat (Suc m * c)"
    using double_whole [OF small(1)] by (simp add: fadd_def algebra_simps)
  have "fsub (of_nat (m * c)) (of_nat (Suc m * c)) = - of_nat c"
    unfolding fsub_def by (subst double_exact [of _ 0 "- int c"]) (use small(2) in \<open>auto simp: algebra_simps\<close>)
  then have z: "fadd (fsub (of_nat (m * c)) (of_nat (Suc m * c))) (of_nat c) = 0" by (simp add: fadd_def)
  have le: "\<bar>of_nat c :: rat\<bar> \<le> \<bar>of_nat (m * c)\<bar>" using Suc.prems(2) by (simp flip: of_nat_mult)
  have "sum_loop (of_nat (m * c)) 0 (replicate (Suc k) (of_nat c)) = sum_loop (of_nat (Suc m * c)) 0 (replicate k (of_nat c))"
    unfolding replicate_Suc sum_loop.simps Let_def t using le z by (simp add: fadd_def del: of_nat_mult)
  also have "\<dots> = of_nat ((Suc m + k) * c)" using Suc.prems(1) by (intro Suc.IH) simp_all
  finally show ?case by simp
qed simp

lemma float_sum_replicate:
  assumes "k * c < 2 ^ 53"
  shows "float_sum (replicate k (of_nat c)) = of_nat (k * c)"
  using sum_loop_replicate [of 1 "k - 1" c] assms by (cases k) (simp_all add: float_sum_def del: of_nat_mult)

end
