(* ===== verification/Daily_Kline.thy ===== *)
theory Daily_Kline
  imports Doubles Public_Market
begin

text \<open>
  \<open>level2_service/daily_kline.py\<close>: the daily bars of a public web service, the indicators computed from them, and
  the source that keeps them for a while and falls back on the series of the public market. A
  \<open>DailyKlineSourceError\<close> is an exception with a code, \<open>PublicMarketError\<close>. The locks, one for each symbol, order the reads of a
  symbol: a read is one step here.
\<close>

section \<open>Indicators\<close>

text \<open>\<open>_indicator_value\<close>: six places, rounded half to even, without trailing zeros.\<close>

definition drop_trailing :: "char \<Rightarrow> string \<Rightarrow> string" where
  "drop_trailing c s = rev (dropWhile (\<lambda>x. x = c) (rev s))"

definition indicator_value :: "rat \<Rightarrow> string" where
  "indicator_value v =
     (let digits = (if v < 0 then ''-'' else []) @ fixed_text 6 (nat (half_even (\<bar>v\<bar> * 10 ^ 6)));
          rounded = drop_trailing CHR ''.'' (drop_trailing CHR ''0'' digits)
      in if rounded \<in> {''-0'', []} then ''0'' else rounded)"

definition ma_windows :: "nat list" where
  "ma_windows = [5, 13, 21, 60, 120, 250]"

fun prefix_sums :: "rat \<Rightarrow> rat list \<Rightarrow> rat list" where
  "prefix_sums s [] = [s]"
| "prefix_sums s (x # xs) = s # prefix_sums (fadd s x) xs"

text \<open>A series whose first value is at the end of the first window.\<close>

definition windowed :: "nat \<Rightarrow> (nat \<Rightarrow> string) \<Rightarrow> nat \<Rightarrow> string option list" where
  "windowed window value n = map (\<lambda>i. if i < window - 1 then None else Some (value i)) [0..<n]"

definition moving_average :: "nat \<Rightarrow> rat list \<Rightarrow> string option list" where
  "moving_average window closes =
     (let totals = prefix_sums 0 closes in
      windowed window (\<lambda>i. indicator_value (fdiv (fsub (totals ! (i + 1)) (totals ! (i + 1 - window))) (of_nat window)))
        (length closes))"

text \<open>\<open>x ** 2\<close>: \<open>square\<close> is the power of the C library, and a result beyond the range of a \<open>float\<close> is an \<open>OverflowError\<close>.\<close>

definition power_two :: "(rat \<Rightarrow> rat) \<Rightarrow> rat \<Rightarrow> rat option" where
  "power_two square x = (if square x < 2 ^ 1024 then Some (square x) else None)"

text \<open>The mean and the deviation of the twenty closes up to one, and of each of them from the twentieth on.\<close>

definition boll_band :: "(rat \<Rightarrow> rat) \<Rightarrow> rat list \<Rightarrow> nat \<Rightarrow> (rat \<times> rat) option" where
  "boll_band square closes i =
     (let w = take 20 (drop (i - 19) closes);
          mean = fdiv (float_sum w) 20
      in do {
        squares \<leftarrow> all_some (map (\<lambda>v. power_two square (fsub v mean)) w);
        Some (mean, fsqrt (fdiv (float_sum squares) 20))
      })"

definition boll_bands :: "(rat \<Rightarrow> rat) \<Rightarrow> rat list \<Rightarrow> (rat \<times> rat) list option" where
  "boll_bands square closes = all_some (map (boll_band square closes) [19..<length closes])"

definition boll_series :: "(rat \<times> rat) list \<Rightarrow> nat \<Rightarrow> (rat \<Rightarrow> rat \<Rightarrow> rat) \<Rightarrow> string option list" where
  "boll_series bands n f =
     replicate (min 19 n) None @ map (\<lambda>(mean, deviation). Some (indicator_value (f mean deviation))) bands"

text \<open>The three values of each close after the first.\<close>

fun daily_macd_loop :: "rat \<Rightarrow> rat \<Rightarrow> rat \<Rightarrow> rat list \<Rightarrow> (rat \<times> rat \<times> rat) list" where
  "daily_macd_loop ema12 ema26 signal [] = []"
| "daily_macd_loop ema12 ema26 signal (close # rest) =
     (let e12 = fadd ema12 (fmul (fsub close ema12) (fdiv 2 13));
          e26 = fadd ema26 (fmul (fsub close ema26) (fdiv 2 27));
          dif = fsub e12 e26;
          d = fadd signal (fmul (fsub dif signal) (fdiv 2 10))
      in (dif, d, fmul 2 (fsub dif d)) # daily_macd_loop e12 e26 d rest)"

definition macd_values :: "rat list \<Rightarrow> (rat \<times> rat \<times> rat) list" where
  "macd_values closes =
     (case closes of [] \<Rightarrow> []
      | close # rest \<Rightarrow> (let dif = fsub close close in (dif, 0, fmul 2 (fsub dif 0)) # daily_macd_loop close close 0 rest))"

definition ma_name :: "nat \<Rightarrow> string" where
  "ma_name window = ''ma'' @ str_of_int (int window)"

text \<open>\<open>calculate_daily_indicators\<close>; None is the exception of a close that is no number, or of a square out of range.\<close>

definition daily_closes :: "kline_bar list \<Rightarrow> rat list option" where
  "daily_closes bars = all_some (map (\<lambda>b. map_option double (reads (bar_close b))) bars)"

definition calculate_daily_indicators ::
  "(rat \<Rightarrow> rat) \<Rightarrow> kline_bar list \<Rightarrow> (string, string option list) dict option" where
  "calculate_daily_indicators square bars = do {
     closes \<leftarrow> daily_closes bars;
     bands \<leftarrow> boll_bands square closes;
     Some (map (\<lambda>window. (ma_name window, moving_average window closes)) ma_windows
       @ [(''boll_mid'', boll_series bands (length closes) (\<lambda>mean _. mean)),
          (''boll_upper'', boll_series bands (length closes) (\<lambda>mean deviation. fadd mean (fmul 2 deviation))),
          (''boll_lower'', boll_series bands (length closes) (\<lambda>mean deviation. fsub mean (fmul 2 deviation))),
          (''macd_dif'', map (\<lambda>(dif, _, _). Some (indicator_value dif)) (macd_values closes)),
          (''macd_dea'', map (\<lambda>(_, signal, _). Some (indicator_value signal)) (macd_values closes)),
          (''macd_hist'', map (\<lambda>(_, _, hist). Some (indicator_value hist)) (macd_values closes))])
   }"

section \<open>Bars\<close>

abbreviation kline_invalid :: "public_failure" where
  "kline_invalid \<equiv> PublicMarketError ''PUBLIC_KLINE_RESPONSE_INVALID''"

definition prices_possible :: "rat \<Rightarrow> rat \<Rightarrow> rat \<Rightarrow> rat \<Rightarrow> rat \<Rightarrow> rat \<Rightarrow> bool" where
  "prices_possible opening high low close volume amount \<longleftrightarrow>
     \<not> (Min {opening, high, low, close} \<le> 0 \<or> high < max opening close \<or> low > min opening close \<or> volume < 0 \<or> amount < 0)"

text \<open>\<open>_validate_bars\<close>; the second argument holds the dates seen.\<close>

definition bar_possible :: "kline_bar \<Rightarrow> bool" where
  "bar_possible b =
     (case (reads (bar_open b), reads (bar_high b), reads (bar_low b), reads (bar_close b), reads (bar_volume b),
            reads (bar_amount b)) of
        (Some opening, Some high, Some low, Some close, Some volume, Some amount) \<Rightarrow>
          prices_possible opening high low close volume amount
      | _ \<Rightarrow> False)"

fun all_bars_valid :: "kline_bar list \<Rightarrow> string set \<Rightarrow> bool" where
  "all_bars_valid [] seen = True"
| "all_bars_valid (b # bs) seen =
     (iso_date (bar_time b) \<noteq> None \<and> bar_time b \<notin> seen \<and> bar_possible b \<and> all_bars_valid bs (insert (bar_time b) seen))"

definition validate_bars :: "kline_bar list \<Rightarrow> public_failure + kline_bar list" where
  "validate_bars bars = (if all_bars_valid bars {} then Inr (sort_key bar_time bars) else Inl kline_invalid)"

section \<open>The web service\<close>

text \<open>\<open>_payload\<close>: the argument of the callback, to the last parenthesis.\<close>

definition callback_argument :: "string \<Rightarrow> string \<Rightarrow> string \<Rightarrow> string option" where
  "callback_argument body sy name =
     (case after_prefix (''quotebridge_v6_line_hs_'' @ sy @ ''_01_'' @ name @ ''('') (strip body) of
        None \<Rightarrow> None
      | Some rest \<Rightarrow>
          (let r = rev rest in
           case dropWhile is_space (if r \<noteq> [] \<and> hd r = CHR '';'' then tl r else r) of
             [] \<Rightarrow> None
           | c # argument \<Rightarrow> if c = CHR '')'' then Some (rev argument) else None))"

definition kline_payload :: "string \<Rightarrow> string \<Rightarrow> string \<Rightarrow> public_failure + (string, json) dict" where
  "kline_payload body sy name =
     (case callback_argument body sy name of None \<Rightarrow> Inl (PublicMarketError ''PUBLIC_KLINE_SYMBOL_MISMATCH'')
      | Some argument \<Rightarrow> (case json_loads argument of Some (JObj d) \<Rightarrow> Inr d | _ \<Rightarrow> Inl kline_invalid))"

text \<open>One row of \<open>parse_10jqka_year\<close>; a number keeps its text.\<close>

definition year_bar :: "int \<Rightarrow> string \<Rightarrow> kline_bar option" where
  "year_bar year row =
     (let fs = split_on CHR '','' row;
          raw = fs ! 0;
          day = take 4 raw @ ''-'' @ take 2 (drop 4 raw) @ ''-'' @ take 2 (drop 6 raw)
      in if length fs < 7 then None
         else if iso_date day = None then None
         else if int (dec_val (take 4 day)) \<noteq> year \<or> length raw \<noteq> 8 then None
         else do {
           opening \<leftarrow> decimal_of_text (fs ! 1);
           high \<leftarrow> decimal_of_text (fs ! 2);
           low \<leftarrow> decimal_of_text (fs ! 3);
           close \<leftarrow> decimal_of_text (fs ! 4);
           volume \<leftarrow> decimal_of_text (fs ! 5);
           amount \<leftarrow> decimal_of_text (fs ! 6);
           (if Min {opening, high, low, close} \<le> 0 \<or> high < Max {opening, close, low} \<or> low > Min {opening, close, high}
              \<or> volume < 0 \<or> amount < 0
            then None
            else Some \<lparr>bar_time = day, bar_open = Some (fs ! 1), bar_high = Some (fs ! 2), bar_low = Some (fs ! 3),
              bar_close = Some (fs ! 4), bar_volume = Some (fs ! 5), bar_amount = Some (fs ! 6)\<rparr>)
         })"

definition parse_10jqka_year :: "string \<Rightarrow> string \<Rightarrow> int \<Rightarrow> public_failure + kline_bar list" where
  "parse_10jqka_year body sy year =
     (case kline_payload body sy (str_of_int year) of Inl e \<Rightarrow> Inl e
      | Inr payload \<Rightarrow>
          (case dget payload ''data'' of
             Some (JStr data) \<Rightarrow>
               (case all_some (map (year_bar year) (filter (\<lambda>r. r \<noteq> []) (split_on CHR '';'' data))) of
                  None \<Rightarrow> Inl kline_invalid | Some bars \<Rightarrow> Inr (sort_key bar_time bars))
           | _ \<Rightarrow> Inl kline_invalid))"

text \<open>\<open>parse_10jqka_metadata\<close>: the years that have bars, the last first.\<close>

definition counted_year :: "string \<times> json \<Rightarrow> int option option" where
  "counted_year kv = do {
     year \<leftarrow> int_of_text (fst kv);
     count \<leftarrow> py_int (snd kv);
     (if \<not> (1990 \<le> year \<and> year \<le> 2100) \<or> count < 0 then None else Some (if count = 0 then None else Some year))
   }"

definition parse_10jqka_metadata :: "string \<Rightarrow> string \<Rightarrow> public_failure + int list" where
  "parse_10jqka_metadata body sy =
     (case kline_payload body sy ''last'' of Inl e \<Rightarrow> Inl e
      | Inr payload \<Rightarrow>
          (case dget payload ''year'' of
             Some (JObj years) \<Rightarrow>
               (case all_some (map counted_year years) of None \<Rightarrow> Inl kline_invalid
                | Some ys \<Rightarrow>
                    (let found = List.map_filter id ys in
                     if found = [] then Inl kline_invalid else Inr (rev (sorted_list_of_set (set found)))))
           | _ \<Rightarrow> Inl kline_invalid))"

text \<open>\<open>_request\<close>: \<open>fetch url k\<close> is the answer to the attempt \<open>k\<close> to get a URL, None an exception.\<close>

definition kline_service_url :: "string \<Rightarrow> string \<Rightarrow> string" where
  "kline_service_url sy name = ''https://d.10jqka.com.cn/v6/line/hs_'' @ sy @ ''/01/'' @ name @ ''.js''"

definition kline_request :: "(string \<Rightarrow> nat \<Rightarrow> string option) \<Rightarrow> nat \<Rightarrow> string \<Rightarrow> string \<Rightarrow> public_failure + string" where
  "kline_request fetch attempts sy name =
     (case List.map_filter (fetch (kline_service_url sy name)) [0..<attempts] of
        [] \<Rightarrow> Inl (PublicMarketError ''PUBLIC_KLINE_HTTP_ERROR'')
      | body # _ \<Rightarrow> Inr body)"

text \<open>The years of \<open>read\<close>, until there are bars enough.\<close>

fun read_years ::
  "(int \<Rightarrow> public_failure + kline_bar list) \<Rightarrow> nat \<Rightarrow> int list \<Rightarrow> (string, kline_bar) dict \<Rightarrow>
   public_failure + (string, kline_bar) dict" where
  "read_years year_bars minimum_bars [] by_date = Inr by_date"
| "read_years year_bars minimum_bars (year # years) by_date =
     (case year_bars year of Inl e \<Rightarrow> Inl e
      | Inr bars \<Rightarrow>
          (let by_date' = fold (\<lambda>b. dset (bar_time b) b) bars by_date in
           if length by_date' \<ge> minimum_bars then Inr by_date' else read_years year_bars minimum_bars years by_date'))"

definition provider_read ::
  "(string \<Rightarrow> nat \<Rightarrow> string option) \<Rightarrow> nat \<Rightarrow> string \<Rightarrow> nat \<Rightarrow> public_failure + kline_bar list" where
  "provider_read fetch attempts sy minimum_bars =
     (let year_bars = (\<lambda>year. case kline_request fetch attempts sy (str_of_int year) of Inl e \<Rightarrow> Inl e
            | Inr body \<Rightarrow> parse_10jqka_year body sy year) in
      if \<not> (length sy = 6 \<and> list_all is_digit sy) then Inl (PublicMarketError ''PUBLIC_KLINE_SYMBOL_INVALID'')
      else case kline_request fetch attempts sy ''last'' of Inl e \<Rightarrow> Inl e
      | Inr body \<Rightarrow>
          (case parse_10jqka_metadata body sy of Inl e \<Rightarrow> Inl e
           | Inr years \<Rightarrow>
               (case read_years year_bars minimum_bars years [] of Inl e \<Rightarrow> Inl e
                | Inr by_date \<Rightarrow>
                    if by_date = [] then Inl kline_invalid
                    else Inr (map (\<lambda>k. the (dget by_date k)) (sort (map fst by_date))))))"

section \<open>The source\<close>

text \<open>An entry of the cache holds the bars and their source; the key is the symbol, as the period is always a day.\<close>

type_synonym daily_entry = "kline_bar list \<times> string"

record daily_config =
  open_cache_seconds :: seconds
  closed_cache_seconds :: seconds
  max_daily_entries :: nat

record daily_state =
  daily_cache :: "daily_entry cache"
  public_successes :: nat
  fallback_successes :: nat
  stale_cache_hits :: nat
  daily_failures :: nat

definition daily_error_code :: "public_failure \<Rightarrow> string" where
  "daily_error_code e =
     (case e of PublicMarketError code \<Rightarrow> sanitized_direct_error_code code ''PUBLIC_KLINE_FAILED''
      | OtherError \<Rightarrow> ''PUBLIC_KLINE_FAILED'')"

definition daily_ttl :: "daily_config \<Rightarrow> bool \<Rightarrow> seconds" where
  "daily_ttl cfg market_open = (if market_open then open_cache_seconds cfg else closed_cache_seconds cfg)"

text \<open>\<open>_page\<close>: the last bars, and the same part of each indicator of all of them.\<close>

definition daily_page ::
  "(rat \<Rightarrow> rat) \<Rightarrow> string \<Rightarrow> daily_entry \<Rightarrow> nat \<Rightarrow> bool \<Rightarrow> bool \<Rightarrow> string option \<Rightarrow> (string, string option) dict \<Rightarrow> series_page option" where
  "daily_page square sy entry limit cached stale source_error errors =
     map_option (\<lambda>indicators.
       (let start = length (fst entry) - limit in
        empty_page sy ''day''\<lparr>page_bars := drop start (fst entry),
          page_indicators := map (\<lambda>(name, vs). (name, drop start vs)) indicators, page_adjustment := Some ''qfq'',
          page_source := Some (snd entry), page_cached := cached, page_stale := stale, page_source_error := source_error,
          page_errors := errors\<rparr>))
       (calculate_daily_indicators square (fst entry))"

definition daily_errors :: "string option \<Rightarrow> string option \<Rightarrow> (string, string option) dict" where
  "daily_errors public_error fallback_error =
     [(''ths_public_kline'', public_error), (''tencent_public_kline'', fallback_error)]"

definition public_entry :: "nat \<Rightarrow> (nat \<Rightarrow> public_failure + kline_bar list) \<Rightarrow> string + daily_entry" where
  "public_entry required provider =
     (case (case provider required of Inl e \<Rightarrow> Inl e | Inr bars \<Rightarrow> validate_bars bars) of
        Inl e \<Rightarrow> Inl (daily_error_code e)
      | Inr bars \<Rightarrow> Inr (last_items required bars, ''THS_PUBLIC''))"

definition fallback_entry :: "nat \<Rightarrow> (nat \<Rightarrow> public_failure + series_page) \<Rightarrow> string + daily_entry" where
  "fallback_entry required base =
     (case (case base required of Inl e \<Rightarrow> Inl e
            | Inr page \<Rightarrow>
                if page_bars page = [] then
                  Inl (PublicMarketError (case page_source_error page of None \<Rightarrow> ''PUBLIC_KLINE_UNAVAILABLE''
                    | Some e \<Rightarrow> if e = [] then ''PUBLIC_KLINE_UNAVAILABLE'' else e))
                else map_sum id (\<lambda>bars. (last_items required bars,
                  case page_source page of None \<Rightarrow> ''TENCENT_PUBLIC'' | Some s \<Rightarrow> if s = [] then ''TENCENT_PUBLIC'' else s))
                  (validate_bars (page_bars page))) of
        Inl e \<Rightarrow> Inl (daily_error_code e)
      | Inr entry \<Rightarrow> Inr entry)"

text \<open>\<open>read_market_series\<close> of a day: a fresh entry, else the web service, else the base source, else a stale entry.
  \<open>base\<close> is the series of the base source for the cursor that was given. The first result is None when the indicators raise.\<close>

definition read_daily ::
  "daily_config \<Rightarrow> (rat \<Rightarrow> rat) \<Rightarrow> bool \<Rightarrow> (nat \<Rightarrow> public_failure + kline_bar list) \<Rightarrow> (nat \<Rightarrow> public_failure + series_page) \<Rightarrow>
   seconds \<Rightarrow> string \<Rightarrow> nat \<Rightarrow> daily_state \<Rightarrow> series_page option \<times> daily_state" where
  "read_daily cfg square market_open provider base now sy limit s =
     (case cache_hit (daily_ttl cfg market_open) now sy (daily_cache s) of
        Some entry \<Rightarrow> (daily_page square sy entry limit True False None (daily_errors None None), s)
      | None \<Rightarrow>
          (let required = max 489 (limit + 249);
               keep = (\<lambda>entry s. s\<lparr>daily_cache := cache_store (max_daily_entries cfg) now sy entry (daily_cache s)\<rparr>)
           in case public_entry required provider of
                Inr entry \<Rightarrow>
                  (daily_page square sy entry limit False False None (daily_errors None None),
                   keep entry (s\<lparr>public_successes := public_successes s + 1\<rparr>))
              | Inl e1 \<Rightarrow>
                  (case fallback_entry required base of
                     Inr entry \<Rightarrow>
                       (daily_page square sy entry limit False False None (daily_errors (Some e1) None),
                        keep entry (s\<lparr>fallback_successes := fallback_successes s + 1\<rparr>))
                   | Inl e2 \<Rightarrow>
                       (case dget (daily_cache s) sy of
                          Some (entry, _) \<Rightarrow>
                            (daily_page square sy entry limit True True (Some ''KLINE_SOURCES_UNAVAILABLE'')
                               (daily_errors (Some e1) (Some e2)),
                             s\<lparr>stale_cache_hits := stale_cache_hits s + 1\<rparr>)
                        | None \<Rightarrow>
                            (Some (empty_page sy ''day''\<lparr>page_adjustment := Some ''qfq'',
                               page_source_error := Some ''KLINE_SOURCES_UNAVAILABLE'',
                               page_errors := daily_errors (Some e1) (Some e2)\<rparr>),
                             s\<lparr>daily_failures := daily_failures s + 1\<rparr>)))))"

text \<open>\<open>read_market_series\<close> and \<open>read_market_snapshot\<close> of the daily source, over a base source.\<close>

definition daily_series ::
  "daily_config \<Rightarrow> (rat \<Rightarrow> rat) \<Rightarrow> bool \<Rightarrow> (nat \<Rightarrow> public_failure + kline_bar list) \<Rightarrow>
   (string \<Rightarrow> nat \<Rightarrow> public_failure + series_page) \<Rightarrow> seconds \<Rightarrow> string \<Rightarrow> string \<Rightarrow> nat \<Rightarrow> daily_state \<Rightarrow>
   (public_failure + series_page) \<times> daily_state" where
  "daily_series cfg square market_open provider base now sy period limit s =
     (if period \<noteq> ''day'' then (base period limit, s)
      else case read_daily cfg square market_open provider (base period) now sy limit s of
        (page, s') \<Rightarrow> (or_raise OtherError page, s'))"

definition daily_snapshot :: "public_failure + snapshot \<Rightarrow> public_failure + snapshot" where
  "daily_snapshot base =
     map_sum id (\<lambda>s. s\<lparr>capabilities := dset ''daily_kline''
       (JObj [(''available'', JBool True), (''adjustment'', JStr ''qfq'')]) (capabilities s)\<rparr>) base"

definition daily_kline_stats :: "daily_state \<Rightarrow> (string, nat) dict" where
  "daily_kline_stats s =
     [(''cache_entries'', length (daily_cache s)), (''public_successes'', public_successes s),
      (''fallback_successes'', fallback_successes s), (''stale_cache_hits'', stale_cache_hits s), (''failures'', daily_failures s)]"

end
