(* ===== verification/Daily_Properties.thy ===== *)
theory Daily_Properties
  imports Daily_Kline
begin

text \<open>
  Properties of the daily bars, with their witnesses: every page of a run of reads is consistent, the bars of the
  public series never serve as a fallback, and the indicators of a flat price.
\<close>

section \<open>Indicators\<close>

lemma windowed_length [simp]: "length (windowed window value n) = n"
  by (simp add: windowed_def)

lemma daily_macd_loop_length [simp]: "length (daily_macd_loop ema12 ema26 signal closes) = length closes"
  by (induction closes arbitrary: ema12 ema26 signal) (simp_all add: Let_def)

lemma macd_values_length [simp]: "length (macd_values closes) = length closes"
  by (simp add: macd_values_def Let_def split: list.split)

lemma length_all_some: "all_some xs = Some vs \<Longrightarrow> length vs = length xs"
  by (induction xs arbitrary: vs) (auto split: option.splits)

lemma boll_series_length: "boll_bands square closes = Some bands \<Longrightarrow> length (boll_series bands (length closes) f) = length closes"
  by (auto simp: boll_series_def boll_bands_def dest: length_all_some)

lemma indicators_length:
  assumes "calculate_daily_indicators square bars = Some indicators"
  shows "list_all (\<lambda>(name, vs). length vs = length bars) indicators"
proof -
  obtain closes bands where "daily_closes bars = Some closes" and bands: "boll_bands square closes = Some bands"
    and i: "indicators = map (\<lambda>window. (ma_name window, moving_average window closes)) ma_windows
       @ [(''boll_mid'', boll_series bands (length closes) (\<lambda>mean _. mean)),
          (''boll_upper'', boll_series bands (length closes) (\<lambda>mean deviation. fadd mean (fmul 2 deviation))),
          (''boll_lower'', boll_series bands (length closes) (\<lambda>mean deviation. fsub mean (fmul 2 deviation))),
          (''macd_dif'', map (\<lambda>(dif, _, _). Some (indicator_value dif)) (macd_values closes)),
          (''macd_dea'', map (\<lambda>(_, signal, _). Some (indicator_value signal)) (macd_values closes)),
          (''macd_hist'', map (\<lambda>(_, _, hist). Some (indicator_value hist)) (macd_values closes))]"
    using assms unfolding calculate_daily_indicators_def by (auto simp: bind_eq_Some_conv)
  then have "length closes = length bars" by (auto simp: daily_closes_def dest: length_all_some)
  then show ?thesis
    unfolding i using boll_series_length [OF bands] by (simp add: list_all_iff moving_average_def Let_def)
qed

section \<open>Prices in the range of a float\<close>

text \<open>Closes up to \<open>10 ^ 100\<close>: the squares of their deviations stay below \<open>2 ^ 1024\<close>, whatever the sums lose.\<close>

lemma double_sum_bound:
  assumes "\<bar>x\<bar> \<le> A" "\<bar>y\<bar> \<le> B"
  shows "\<bar>double (x + y)\<bar> \<le> 2 * (A + B)" "\<bar>double (x - y)\<bar> \<le> 2 * (A + B)"
proof -
  have "\<bar>x + y\<bar> \<le> A + B" "\<bar>x - y\<bar> \<le> A + B" using assms by linarith+
  then show "\<bar>double (x + y)\<bar> \<le> 2 * (A + B)" "\<bar>double (x - y)\<bar> \<le> 2 * (A + B)"
    by (auto intro: order_trans [OF double_bound])
qed

lemma sum_loop_bound:
  assumes "\<bar>f\<bar> \<le> M" "\<bar>c\<bar> \<le> M" "list_all (\<lambda>x. \<bar>x\<bar> \<le> M) xs"
  shows "\<bar>sum_loop f c xs\<bar> \<le> 4 * M * 64 ^ length xs"
  using assms
proof (induction xs arbitrary: f c M)
  case Nil
  then have "\<bar>double (f + c)\<bar> \<le> 4 * M" using double_sum_bound(1) [of f M c M] by simp
  moreover have "\<bar>f\<bar> \<le> 4 * M" using Nil(1) by linarith
  ultimately show ?case by (simp add: fadd_def)
next
  case (Cons x xs)
  let ?t = "fadd f x"
  let ?d = "if \<bar>x\<bar> \<le> \<bar>f\<bar> then fadd (fsub f ?t) x else fadd (fsub x ?t) f"
  have x: "\<bar>x\<bar> \<le> M" using Cons.prems by simp
  then have M: "0 \<le> M" by linarith
  note sums = double_sum_bound [folded fadd_def fsub_def]
  have t: "\<bar>?t\<bar> \<le> 4 * M" using sums(1) [of f M x M] x Cons.prems(1) by simp
  have "\<bar>fsub f ?t\<bar> \<le> 10 * M" "\<bar>fsub x ?t\<bar> \<le> 10 * M"
    using sums(2) [of f M ?t "4 * M"] sums(2) [of x M ?t "4 * M"] t x Cons.prems(1) by simp_all
  then have "\<bar>?d\<bar> \<le> 22 * M"
    using sums(1) [of "fsub f ?t" "10 * M" x M] sums(1) [of "fsub x ?t" "10 * M" f M] x Cons.prems(1) by simp
  then have "\<bar>fadd c ?d\<bar> \<le> 64 * M" using sums(1) [of c M ?d "22 * M"] Cons.prems(2) M by simp
  moreover have "\<bar>?t\<bar> \<le> 64 * M" using t M by linarith
  moreover have "list_all (\<lambda>x. \<bar>x\<bar> \<le> 64 * M) xs" using Cons.prems(3) M by (auto simp: list_all_iff)
  ultimately have "\<bar>sum_loop ?t (fadd c ?d) xs\<bar> \<le> 4 * (64 * M) * 64 ^ length xs" by (intro Cons.IH)
  then show ?case by (simp add: Let_def)
qed

lemma float_sum_bound:
  assumes "list_all (\<lambda>x. \<bar>x\<bar> \<le> M) xs" "length xs \<le> k" "0 \<le> M"
  shows "\<bar>float_sum xs\<bar> \<le> M * 64 ^ k"
proof (cases xs)
  case (Cons x r)
  have "\<bar>sum_loop x 0 r\<bar> \<le> 4 * M * 64 ^ length r" using assms(1,3) Cons by (intro sum_loop_bound) simp_all
  also have "\<dots> \<le> M * 64 ^ Suc (length r)" using assms(3) by (simp add: mult_right_mono)
  also have "\<dots> \<le> M * 64 ^ k" using assms(2,3) Cons by (intro mult_left_mono power_increasing) simp_all
  finally show ?thesis by (simp add: float_sum_def Cons)
qed (use assms(3) in \<open>simp add: float_sum_def\<close>)

lemma all_some_defined: "list_all (\<lambda>x. x \<noteq> None) xs \<Longrightarrow> \<exists>vs. all_some xs = Some vs"
  by (induction xs) auto

lemma boll_band_defined:
  assumes "\<forall>x. \<bar>square x\<bar> \<le> 2 * x\<^sup>2" and "list_all (\<lambda>x. \<bar>x\<bar> \<le> 2 * 10 ^ 100) closes"
  shows "boll_band square closes i \<noteq> None"
proof -
  let ?M = "2 * 10 ^ 100 :: rat"
  let ?w = "take 20 (drop (i - 19) closes)"
  let ?mean = "fdiv (float_sum ?w) 20"
  have w: "list_all (\<lambda>x. \<bar>x\<bar> \<le> ?M) ?w" using assms(2) by (auto simp: list_all_iff dest!: in_set_takeD in_set_dropD)
  have "\<bar>float_sum ?w\<bar> \<le> ?M * 64 ^ 20" by (rule float_sum_bound [OF w]) simp_all
  then have mean: "\<bar>?mean\<bar> \<le> ?M * 64 ^ 20" using double_bound [of "float_sum ?w / 20"] unfolding fdiv_def by simp
  have "power_two square (fsub v ?mean) \<noteq> None" if "v \<in> set ?w" for v
  proof -
    have v: "\<bar>v\<bar> \<le> ?M" using w that by (simp add: list_all_iff)
    have "\<bar>fsub v ?mean\<bar> \<le> 2 * (?M + ?M * 64 ^ 20)"
      unfolding fsub_def by (rule double_sum_bound(2) [OF v mean])
    then have "(fsub v ?mean)\<^sup>2 \<le> (2 * (?M + ?M * 64 ^ 20))\<^sup>2" by (metis abs_ge_zero power2_abs power_mono)
    moreover have "square (fsub v ?mean) \<le> 2 * (fsub v ?mean)\<^sup>2" using assms(1) abs_le_D1 by blast
    moreover have "2 * (2 * (?M + ?M * 64 ^ 20))\<^sup>2 < 2 ^ 1024" by simp
    ultimately have "square (fsub v ?mean) < 2 ^ 1024" by linarith
    then show ?thesis by (simp add: power_two_def)
  qed
  then have "list_all (\<lambda>x. x \<noteq> None) (map (\<lambda>v. power_two square (fsub v ?mean)) ?w)" by (simp add: list_all_iff)
  from all_some_defined [OF this] show ?thesis by (auto simp: boll_band_def Let_def)
qed

definition moderate_closes :: "kline_bar list \<Rightarrow> bool" where
  "moderate_closes bars = list_all (\<lambda>b. pred_option (\<lambda>x. x \<le> 10 ^ 100) (reads (bar_close b))) bars"

section \<open>Bars\<close>

text \<open>Bars that were validated: in order, each date once, with possible prices.\<close>

definition bars_wf :: "kline_bar list \<Rightarrow> bool" where
  "bars_wf bars \<longleftrightarrow> list_all bar_possible bars \<and> sorted_wrt (<) (map bar_time bars)"

definition bars_sound :: "kline_bar list \<Rightarrow> bool" where
  "bars_sound bars \<longleftrightarrow> bars_wf bars \<and> moderate_closes bars"

lemma all_bars_validD:
  "all_bars_valid bars seen \<Longrightarrow> list_all bar_possible bars \<and> distinct (map bar_time bars) \<and> set (map bar_time bars) \<inter> seen = {}"
  by (induction bars arbitrary: seen) auto

lemma validate_bars_wf:
  assumes "validate_bars bars = Inr bars'"
  shows "bars_wf bars'"
proof -
  have v: "all_bars_valid bars {}" and b: "bars' = sort_key bar_time bars" using assms by (auto simp: validate_bars_def split: if_splits)
  note d = all_bars_validD [OF v]
  have "distinct (map bar_time (sort_key bar_time bars))"
    using d by (simp add: distinct_map)
  then have "sorted_wrt (<) (map bar_time (sort_key bar_time bars))" by (simp add: strict_sorted_iff)
  then show ?thesis using d unfolding b bars_wf_def by (simp add: list_all_iff)
qed

lemma bars_wf_drop: "bars_wf bars \<Longrightarrow> bars_wf (drop n bars)"
  by (auto simp: bars_wf_def list_all_iff sorted_wrt_drop dest: in_set_dropD simp flip: drop_map)

lemma bars_wf_last: "bars_wf bars \<Longrightarrow> bars_wf (last_items n bars)"
  by (simp add: last_items_def bars_wf_drop)

lemma bar_possible_reads:
  "bar_possible b \<longleftrightarrow> (\<exists>o1 h l c v a. reads (bar_open b) = Some o1 \<and> reads (bar_high b) = Some h \<and> reads (bar_low b) = Some l
     \<and> reads (bar_close b) = Some c \<and> reads (bar_volume b) = Some v \<and> reads (bar_amount b) = Some a \<and> prices_possible o1 h l c v a)"
  by (simp add: bar_possible_def split: option.split)

lemma bars_sound_last: "bars_sound bars \<Longrightarrow> bars_sound (last_items n bars)"
  using bars_wf_last [of bars n]
  by (auto simp: bars_sound_def moderate_closes_def last_items_def list_all_iff dest: in_set_dropD)

lemma validate_bars_sound: "validate_bars bars = Inr bars' \<Longrightarrow> moderate_closes bars \<Longrightarrow> bars_sound bars'"
  using validate_bars_wf [of bars bars'] by (auto simp: bars_sound_def validate_bars_def moderate_closes_def list_all_iff split: if_splits)

lemma possible_close: "bar_possible b \<Longrightarrow> \<exists>x. reads (bar_close b) = Some x \<and> 0 < x"
  by (auto simp: bar_possible_reads prices_possible_def not_le min_less_iff_conj)

text \<open>The indicators of possible bars with closes in range are computed.\<close>

lemma indicators_defined:
  assumes "\<forall>x. \<bar>square x\<bar> \<le> 2 * x\<^sup>2" and "bars_sound bars"
  shows "\<exists>indicators. calculate_daily_indicators square bars = Some indicators"
proof -
  have close: "\<exists>x. reads (bar_close b) = Some x \<and> \<bar>double x\<bar> \<le> 2 * 10 ^ 100" if b: "b \<in> set bars" for b
  proof -
    obtain x where x: "reads (bar_close b) = Some x" "0 < x"
      using possible_close [of b] assms(2) b unfolding bars_sound_def bars_wf_def list_all_iff by blast
    then have "x \<le> 10 ^ 100" using assms(2) b by (auto simp: bars_sound_def moderate_closes_def list_all_iff)
    then show ?thesis using x double_bound [of x] by auto
  qed
  have "\<exists>closes. all_some (map (\<lambda>b. map_option double (reads (bar_close b))) bs) = Some closes
      \<and> list_all (\<lambda>x. \<bar>x\<bar> \<le> 2 * 10 ^ 100) closes" if "set bs \<subseteq> set bars" for bs
    using that
  proof (induction bs)
    case (Cons b bs)
    then show ?case using close [of b] by auto
  qed simp
  then obtain closes where closes: "daily_closes bars = Some closes" "list_all (\<lambda>x. \<bar>x\<bar> \<le> 2 * 10 ^ 100) closes"
    by (auto simp: daily_closes_def)
  have "list_all (\<lambda>x. x \<noteq> None) (map (boll_band square closes) [19..<length closes])"
    unfolding list_all_iff using boll_band_defined [OF assms(1) closes(2)] by auto
  then show ?thesis using all_some_defined closes(1) by (fastforce simp: calculate_daily_indicators_def boll_bands_def)
qed

section \<open>Runs of reads\<close>

definition entry_wf :: "daily_entry \<times> seconds \<Rightarrow> bool" where
  "entry_wf e \<longleftrightarrow> bars_sound (fst (fst e))"

definition daily_wf :: "daily_state \<Rightarrow> bool" where
  "daily_wf s \<longleftrightarrow> list_all (\<lambda>(k, e). entry_wf e) (daily_cache s)"

definition page_consistent :: "nat \<Rightarrow> series_page \<Rightarrow> bool" where
  "page_consistent limit p \<longleftrightarrow>
     bars_wf (page_bars p) \<and> length (page_bars p) \<le> limit
     \<and> list_all (\<lambda>(name, vs). length vs = length (page_bars p)) (page_indicators p)
     \<and> (page_stale p \<longrightarrow> page_cached p \<and> page_source_error p \<noteq> None)
     \<and> (page_bars p = [] \<or> limit = 0 \<or> page_source p \<noteq> None)"

lemma daily_page_consistent:
  assumes "\<forall>x. \<bar>square x\<bar> \<le> 2 * x\<^sup>2" and "bars_sound (fst entry)" and "stale \<longrightarrow> cached \<and> error \<noteq> None"
  shows "\<exists>p. daily_page square sy entry limit cached stale error errors = Some p \<and> page_consistent limit p"
proof -
  obtain indicators where i: "calculate_daily_indicators square (fst entry) = Some indicators"
    using indicators_defined [OF assms(1,2)] by blast
  have "list_all (\<lambda>(name, vs). length vs = length (fst entry)) indicators" using indicators_length [OF i] .
  then have "list_all (\<lambda>(name, vs). length vs = length (drop (length (fst entry) - limit) (fst entry)))
      (map (\<lambda>(name, vs). (name, drop (length (fst entry) - limit) vs)) indicators)"
    by (auto simp: list_all_iff)
  then show ?thesis
    using assms i by (simp add: bars_sound_def daily_page_def page_consistent_def empty_page_def bars_wf_drop Let_def)
qed

lemma set_evict: "set (evict cap c) \<subseteq> set c"
  by (induction c) auto

lemma set_dset: "set (dset k v d) \<subseteq> insert (k, v) (set d)"
  by (induction d) auto

lemma cache_store_wf: "daily_wf s \<Longrightarrow> bars_sound (fst entry) \<Longrightarrow> list_all (\<lambda>(k, e). entry_wf e) (cache_store cap now sy entry (daily_cache s))"
  using set_evict [of cap "dset sy (entry, now) (daily_cache s)"] set_dset [of sy "(entry, now)" "daily_cache s"]
  by (fastforce simp: daily_wf_def list_all_iff cache_store_def entry_wf_def)

text \<open>What the two sources answer a request has closes in range.\<close>

definition moderate_answers :: "(nat \<Rightarrow> public_failure + kline_bar list) \<Rightarrow> (nat \<Rightarrow> public_failure + series_page) \<Rightarrow> bool" where
  "moderate_answers provider base \<longleftrightarrow>
     (\<forall>n bars. provider n = Inr bars \<longrightarrow> moderate_closes bars) \<and> (\<forall>n page. base n = Inr page \<longrightarrow> moderate_closes (page_bars page))"

lemma public_entry_wf:
  "moderate_answers provider base \<Longrightarrow> public_entry required provider = Inr entry \<Longrightarrow> bars_sound (fst entry)"
  by (auto simp: public_entry_def moderate_answers_def intro!: bars_sound_last split: sum.splits dest: validate_bars_sound)

lemma fallback_entry_wf: "moderate_answers provider base \<Longrightarrow> fallback_entry required base = Inr entry \<Longrightarrow> bars_sound (fst entry)"
  unfolding fallback_entry_def inr_simps
  by (auto simp: inr_simps moderate_answers_def intro!: bars_sound_last dest: validate_bars_sound split: sum.splits if_splits)

lemma daily_wf_get: "daily_wf s \<Longrightarrow> dget (daily_cache s) sy = Some (entry, t) \<Longrightarrow> bars_sound (fst entry)"
  by (drule dget_SomeD) (force simp: daily_wf_def list_all_iff entry_wf_def)

lemma read_daily_consistent:
  assumes "daily_wf s" and square: "\<forall>x. \<bar>square x\<bar> \<le> 2 * x\<^sup>2" and answers: "moderate_answers provider base"
  shows "\<exists>p. fst (read_daily cfg square market_open provider base now sy limit s) = Some p \<and> page_consistent limit p"
    and "daily_wf (snd (read_daily cfg square market_open provider base now sy limit s))"
proof -
  let ?required = "max 489 (limit + 249)"
  have hit: "cache_hit ttl now sy (daily_cache s) = Some entry \<Longrightarrow> bars_sound (fst entry)" for ttl entry
    using assms(1) by (auto simp: cache_hit_def daily_wf_get split: option.splits if_splits)
  have kept: "daily_wf (s'\<lparr>daily_cache := cache_store cap now sy entry (daily_cache s')\<rparr>)"
    if "bars_sound (fst entry)" "daily_wf s'" for entry s' cap
    using cache_store_wf [OF that(2,1)] by (simp add: daily_wf_def)
  have "page_consistent limit (empty_page sy ''day''\<lparr>page_adjustment := a, page_source_error := e, page_errors := es\<rparr>)" for a e es
    by (simp add: page_consistent_def empty_page_def bars_wf_def)
  then show "\<exists>p. fst (read_daily cfg square market_open provider base now sy limit s) = Some p \<and> page_consistent limit p"
    by (auto simp: read_daily_def Let_def daily_page_consistent [OF square] hit public_entry_wf [OF answers]
        fallback_entry_wf [OF answers] daily_wf_get [OF assms(1)]
        split: option.split sum.split)
  show "daily_wf (snd (read_daily cfg square market_open provider base now sy limit s))"
    using assms(1) kept
    by (auto simp: read_daily_def Let_def public_entry_wf [OF answers] fallback_entry_wf [OF answers] daily_wf_def split: option.split sum.split)
qed

text \<open>A request: the market is open or not, the answers of the two sources, the time, the symbol and the limit.\<close>

type_synonym daily_request =
  "bool \<times> (nat \<Rightarrow> public_failure + kline_bar list) \<times> (nat \<Rightarrow> public_failure + series_page) \<times> seconds \<times> string \<times> nat"

fun daily_run :: "daily_config \<Rightarrow> (rat \<Rightarrow> rat) \<Rightarrow> daily_request list \<Rightarrow> daily_state \<Rightarrow> (nat \<times> series_page option) list" where
  "daily_run cfg square [] s = []"
| "daily_run cfg square ((market_open, provider, base, now, sy, limit) # rs) s =
     (case read_daily cfg square market_open provider base now sy limit s of
        (page, s') \<Rightarrow> (limit, page) # daily_run cfg square rs s')"

definition initial_daily :: daily_state where
  "initial_daily = \<lparr>daily_cache = [], public_successes = 0, fallback_successes = 0, stale_cache_hits = 0, daily_failures = 0\<rparr>"

fun moderate_request :: "daily_request \<Rightarrow> bool" where
  "moderate_request (market_open, provider, base, _) = moderate_answers provider base"

lemma daily_run_consistent:
  assumes "\<forall>x. \<bar>square x\<bar> \<le> 2 * x\<^sup>2"
  shows "list_all moderate_request rs \<Longrightarrow> daily_wf s \<Longrightarrow> list_all (\<lambda>(limit, page). \<exists>p. page = Some p \<and> page_consistent limit p) (daily_run cfg square rs s)"
proof (induction rs arbitrary: s)
  case (Cons r rs)
  obtain market_open provider base now sy limit where r: "r = (market_open, provider, base, now, sy, limit)" by (cases r)
  obtain page s' where step: "read_daily cfg square market_open provider base now sy limit s = (page, s')" by fastforce
  have "moderate_answers provider base" using Cons.prems(1) by (simp add: r)
  then show ?case
    using read_daily_consistent [OF Cons.prems(2) assms, of provider base cfg market_open now sy limit] Cons.IH [of s'] Cons.prems(1) step
    by (simp add: r)
qed simp

text \<open>
  C8: Whatever the two sources answer, and in whatever order, as long as no close they give is above \<open>10 ^ 100\<close> and the power of
  the C library is within a factor of two: every read of a run gives a page: at most as many bars as asked for, of growing dates
  and possible prices, and each indicator has a value or a gap for each bar; a stale page says so, and says why. (A close of
  \<open>1e200\<close>, which \<open>_validate_bars\<close> accepts, can end the read with an \<open>OverflowError\<close>.)
\<close>

theorem daily_pages_consistent:
  assumes "\<forall>x. \<bar>square x\<bar> \<le> 2 * x\<^sup>2" and "list_all moderate_request rs"
  shows "list_all (\<lambda>(limit, page). \<exists>p. page = Some p \<and> page_consistent limit p) (daily_run cfg square rs initial_daily)"
  by (rule daily_run_consistent [OF assms]) (simp add: daily_wf_def initial_daily_def)

definition demo_daily_bar :: "string \<Rightarrow> kline_bar" where
  "demo_daily_bar day = \<lparr>bar_time = day, bar_open = Some ''8'', bar_high = Some ''9'', bar_low = Some ''7'', bar_close = Some ''8'',
     bar_volume = Some ''100'', bar_amount = Some ''800''\<rparr>"

lemma demo_daily_close: "reads (bar_close (demo_daily_bar day)) = Some 8"
proof -
  have "fixed_text 0 8 = ''8''" by code_simp
  then have "decimal_of_text ''8'' = Some 8" using decimal_of_fixed [of False 0 8] by simp
  then show ?thesis by (simp add: demo_daily_bar_def reads_def)
qed

definition demo_daily_requests :: "daily_request list" where
  "demo_daily_requests =
     [(True, \<lambda>_. Inr [demo_daily_bar ''2024-01-03'', demo_daily_bar ''2024-01-02''], \<lambda>_. Inl OtherError, 0, ''600000'', 5),
      (False, \<lambda>_. Inl OtherError, \<lambda>_. Inl OtherError, 90000, ''600000'', 1)]"

theorem daily_pages_consistent_witness:
  "list_all (\<lambda>(limit, page). \<exists>p. page = Some p \<and> page_consistent limit p)
     (daily_run \<lparr>open_cache_seconds = 30, closed_cache_seconds = 600, max_daily_entries = 8\<rparr> (\<lambda>x. x * x) demo_daily_requests
        initial_daily)"
  by (rule daily_pages_consistent)
    (simp_all add: power2_eq_square abs_mult demo_daily_requests_def moderate_answers_def moderate_closes_def demo_daily_close)

section \<open>The fallback\<close>

lemma bar_of_row_amount: "bar_of_row repr_text places row previous = Inr b \<Longrightarrow> bar_amount b = None"
  unfolding bar_of_row_def Let_def prod.case inr_simps bind_eq_Some_conv option.inject by auto

lemma bars_loop_amount: "bars_loop repr_text places rows previous = Inr bars \<Longrightarrow> list_all (\<lambda>b. bar_amount b = None) bars"
  by (induction rows arbitrary: previous bars) (auto simp: inr_simps dest: bar_of_row_amount)

lemma last_items_nonempty: "xs \<noteq> [] \<Longrightarrow> 0 < n \<Longrightarrow> last_items n xs \<noteq> []"
  by (cases xs) (auto simp: last_items_def)

lemma tencent_amount:
  assumes "tencent_series repr_text fetch i period limit = Inr page" "0 < limit"
  shows "list_all (\<lambda>b. bar_amount b = None) (page_bars page)" "page_bars page \<noteq> []"
proof -
  let ?n = "if period = ''five_day'' then 5 else limit"
  obtain rows bars where "bars_loop repr_text (precision_of i) rows None = Inr bars" and ne: "bars \<noteq> []"
    and page: "page_bars page = last_items ?n bars"
    using assms(1) unfolding tencent_series_def Let_def inr_simps by (elim exE conjE) (auto simp: empty_page_def)
  then have "list_all (\<lambda>b. bar_amount b = None) bars" using bars_loop_amount by blast
  then show "list_all (\<lambda>b. bar_amount b = None) (page_bars page)"
    unfolding page by (auto simp: last_items_def list_all_iff dest: in_set_dropD)
  show "page_bars page \<noteq> []" unfolding page using ne assms(2) by (intro last_items_nonempty) simp_all
qed

lemma no_amount_invalid:
  assumes "list_all (\<lambda>b. bar_amount b = None) bars" "bars \<noteq> []"
  shows "validate_bars bars = Inl kline_invalid"
proof -
  have "\<not> all_bars_valid bars seen" for seen
    using assms by (cases bars) (auto simp: bar_possible_reads reads_def)
  then show ?thesis by (simp add: validate_bars_def)
qed

lemma fallback_refused:
  assumes "0 < required"
  shows "\<exists>code. fallback_entry required (public_market_series repr_text fetch identity sy ''day'') = Inl code"
proof (cases "public_market_series repr_text fetch identity sy ''day'' required")
  case (Inr page)
  then obtain i where "tencent_series repr_text fetch i ''day'' required = Inr page"
    by (auto simp: public_market_series_def split: sum.splits)
  note t = tencent_amount [OF this assms]
  show ?thesis using Inr t no_amount_invalid [OF t] by (simp add: fallback_entry_def)
qed (simp add: fallback_entry_def)

text \<open>
  C21: A read of the daily series over the public market never takes its fallback: the bars of Tencent carry no amount,
  so all of them are refused; without the web service only a stale page or an empty one is served.
\<close>

theorem tencent_fallback_never_taken:
  "fallback_successes (snd (daily_series cfg square market_open provider (public_market_series repr_text fetch identity sy)
     now sy' period limit s)) = fallback_successes s"
proof -
  obtain code where "fallback_entry (max 489 (limit + 249)) (public_market_series repr_text fetch identity sy ''day'') = Inl code"
    using fallback_refused [of "max 489 (limit + 249)" repr_text fetch identity sy] by (auto simp: less_max_iff_disj)
  then show ?thesis
    by (auto simp: daily_series_def read_daily_def Let_def split: option.split sum.split prod.split)
qed

section \<open>A flat price\<close>

lemma prefix_sums_flat:
  assumes "(m + n) * c < 2 ^ 53" "k \<le> n"
  shows "prefix_sums (of_nat (m * c)) (replicate n (of_nat c)) ! k = of_nat ((m + k) * c)"
  using assms
proof (induction n arbitrary: m k)
  case (Suc n)
  have "(m + 1) * c < 2 ^ 53" using Suc.prems(1) by (auto elim!: le_less_trans [rotated] simp: algebra_simps)
  from double_whole [OF this] have t: "fadd (of_nat (m * c)) (of_nat c) = of_nat (Suc m * c)" by (simp add: fadd_def algebra_simps)
  show ?case
  proof (cases k)
    case (Suc k')
    then show ?thesis using Suc.IH [of "Suc m" k'] Suc.prems unfolding replicate_Suc prefix_sums.simps t by simp
  qed simp
qed simp

lemma flat_quotient: "c < 2 ^ 53 \<Longrightarrow> 0 < w \<Longrightarrow> fdiv (of_nat (w * c)) (of_nat w) = of_nat c"
  using double_whole [of c] by (simp add: fdiv_def)

lemma moving_average_flat:
  assumes "n * c < 2 ^ 53" "0 < window"
  shows "moving_average window (replicate n (of_nat c)) = windowed window (\<lambda>_. indicator_value (of_nat c)) n"
proof -
  let ?t = "prefix_sums 0 (replicate n (of_nat c))"
  have "fdiv (fsub (?t ! (i + 1)) (?t ! (i + 1 - window))) (of_nat window) = of_nat c"
    if "i < n" "\<not> i < window - 1" for i
  proof -
    have "window * c \<le> n * c" "c \<le> window * c" using that assms(2) by (auto intro!: mult_right_mono)
    then have w: "window * c < 2 ^ 53" and c: "c < 2 ^ 53" using assms(1) by linarith+
    have "?t ! (i + 1) = of_nat ((i + 1) * c)" "?t ! (i + 1 - window) = of_nat ((i + 1 - window) * c)"
      using prefix_sums_flat [of 0 n c "i + 1"] prefix_sums_flat [of 0 n c "i + 1 - window"] assms(1) that by simp_all
    moreover have "(i + 1) * c = (i + 1 - window) * c + window * c" using that by (simp flip: add_mult_distrib)
    then have "of_nat ((i + 1) * c) - of_nat ((i + 1 - window) * c) = (of_nat (window * c) :: rat)"
      by (simp only: of_nat_add add_diff_cancel_left')
    ultimately show ?thesis
      using double_whole [OF w] flat_quotient [OF c assms(2)] by (simp add: fsub_def del: of_nat_mult of_nat_add)
  qed
  then show ?thesis by (auto simp: moving_average_def windowed_def Let_def)
qed

lemma boll_band_flat:
  assumes "n * c < 2 ^ 53" "square 0 = 0" "i < n" "\<not> i < 19"
  shows "boll_band square (replicate n (of_nat c)) i = Some (of_nat c, 0)"
proof -
  have "20 * c \<le> n * c" using assms(3,4) by (intro mult_right_mono) simp_all
  then have small: "20 * c < 2 ^ 53" "c < 2 ^ 53" using assms(1) by linarith+
  have w: "take 20 (drop (i - 19) (replicate n (of_nat c :: rat))) = replicate 20 (of_nat c)" using assms(3,4) by simp
  have mean: "fdiv (float_sum (replicate 20 (of_nat c))) 20 = of_nat c"
    using flat_quotient [OF small(2), of 20] float_sum_replicate [OF small(1)] by simp
  have "all_some (replicate k (Some x)) = Some (replicate k x)" for k and x :: rat by (induction k) simp_all
  then have squares: "all_some (map (\<lambda>v. power_two square (fsub v (of_nat c))) (replicate 20 (of_nat c))) = Some (replicate 20 0)"
    by (simp add: fsub_def power_two_def assms(2))
  have "float_sum (replicate 20 0) = 0" using float_sum_replicate [of 20 0] by simp
  then show ?thesis unfolding boll_band_def Let_def w mean squares by (simp add: fdiv_def fsqrt_def)
qed

lemma boll_bands_flat:
  assumes "n * c < 2 ^ 53" "square 0 = 0"
  shows "boll_bands square (replicate n (of_nat c)) = Some (replicate (n - 19) (of_nat c, 0))"
proof -
  have "map (boll_band square (replicate n (of_nat c))) [19..<n] = map (\<lambda>_. Some (of_nat c, 0)) [19..<n]"
    using boll_band_flat [of n c square, OF assms] by (intro map_cong) auto
  moreover have "all_some (map (\<lambda>_. Some x) xs) = Some (replicate (length xs) x)" for xs :: "nat list" and x :: "rat \<times> rat"
    by (induction xs) simp_all
  ultimately show ?thesis by (simp only: boll_bands_def length_replicate length_upt)
qed

lemma boll_series_flat:
  assumes "n \<noteq> 0 \<Longrightarrow> f (of_nat c) 0 = of_nat c"
  shows "boll_series (replicate (n - 19) (of_nat c, 0)) n f = windowed 20 (\<lambda>_. indicator_value (of_nat c)) n"
  by (rule nth_equalityI) (auto simp: boll_series_def windowed_def nth_append assms)

lemma macd_values_flat:
  assumes "n * c < 2 ^ 53"
  shows "macd_values (replicate n (of_nat c)) = replicate n (0, 0, 0)"
proof (cases n)
  case (Suc k)
  then have c: "double (of_nat c) = of_nat c" using assms by (intro double_whole) simp
  have "daily_macd_loop (of_nat c) (of_nat c) 0 (replicate k (of_nat c)) = replicate k (0, 0, 0)"
    by (induction k) (simp_all add: double_simps c)
  then show ?thesis by (simp add: Suc macd_values_def double_simps)
qed (simp add: macd_values_def)

lemma dec_digits_zero: "dec_digits 0 = ''0''"
  by code_simp

lemma indicator_value_whole: "indicator_value (of_nat c) = dec_digits c"
proof -
  have n: "half_even (of_nat c * 10 ^ 6) = int (c * 10 ^ 6)"
    using half_even_int [of "int (c * 10 ^ 6)"] by simp
  have "fraction_digits 6 0 = ''000000''"
    unfolding fraction_digits_def zero_pad_def mod_0 dec_digits_zero by (simp add: numeral_eq_Suc)
  then have t: "fixed_text 6 (c * 10 ^ 6) = dec_digits c @ ''.000000''"
    by (simp add: fixed_text_def fraction_digits_def)
  obtain ds d where d: "dec_digits c = ds @ [d]" using dec_digits_nonempty by (metis rev_exhaust)
  have digits: "list_all is_digit (dec_digits c)" by (simp add: list_all_iff dec_digits_digits)
  then have "is_digit d" by (simp add: d)
  then have "d \<noteq> CHR ''.''" by (auto simp: is_digit_def)
  then have "drop_trailing CHR ''.'' (drop_trailing CHR ''0'' (dec_digits c @ ''.000000'')) = dec_digits c"
    by (simp add: drop_trailing_def d)
  moreover have "dec_digits c \<noteq> ''-0''"
  proof
    assume "dec_digits c = ''-0''"
    then have "list_all is_digit ''-0''" using digits by simp
    then show False by (simp add: is_digit_def)
  qed
  moreover have m: "nat (half_even (\<bar>of_nat c\<bar> * 10 ^ 6)) = c * 10 ^ 6" by (simp only: abs_of_nat n nat_int)
  ultimately show ?thesis unfolding indicator_value_def Let_def m t by simp
qed

text \<open>
  The indicators of a flat whole price: each average and each band is the price from the end of its first window on, and
  nothing before it, and the MACD is zero throughout; the sums of the floats lose nothing.
\<close>

theorem flat_price_indicators:
  assumes "list_all (\<lambda>b. reads (bar_close b) = Some (of_nat c)) bars" and "length bars * c < 2 ^ 53" and "square 0 = 0"
  shows "calculate_daily_indicators square bars =
    Some (map (\<lambda>window. (ma_name window, windowed window (\<lambda>_. dec_digits c) (length bars))) ma_windows
      @ map (\<lambda>name. (name, windowed 20 (\<lambda>_. dec_digits c) (length bars))) [''boll_mid'', ''boll_upper'', ''boll_lower'']
      @ map (\<lambda>name. (name, replicate (length bars) (Some ''0''))) [''macd_dif'', ''macd_dea'', ''macd_hist''])"
proof -
  let ?n = "length bars"
  have c: "bars \<noteq> [] \<Longrightarrow> double (of_nat c) = of_nat c" using assms(2) by (intro double_whole) (cases bars; simp)
  have "all_some (map (\<lambda>b. map_option double (reads (bar_close b))) bars) = Some (replicate ?n (double (of_nat c)))"
    using assms(1) by (induction bars) simp_all
  then have closes: "daily_closes bars = Some (replicate ?n (of_nat c))"
    using c by (cases bars) (simp_all add: daily_closes_def)
  have whole: "fadd (of_nat c) (fmul 2 0) = of_nat c" "fsub (of_nat c) (fmul 2 0) = of_nat c" if "bars \<noteq> []"
    using c [OF that] by (simp_all add: double_simps)
  have bands: "boll_bands square (replicate ?n (of_nat c)) = Some (replicate (?n - 19) (of_nat c, 0))"
    by (rule boll_bands_flat [of _ c square, OF assms(2,3)])
  let ?b = "replicate (?n - 19) (of_nat c, 0)"
  have series: "boll_series ?b ?n (\<lambda>mean _. mean) = windowed 20 (\<lambda>_. dec_digits c) ?n"
    "boll_series ?b ?n (\<lambda>mean deviation. fadd mean (fmul 2 deviation)) = windowed 20 (\<lambda>_. dec_digits c) ?n"
    "boll_series ?b ?n (\<lambda>mean deviation. fsub mean (fmul 2 deviation)) = windowed 20 (\<lambda>_. dec_digits c) ?n"
    unfolding indicator_value_whole [symmetric] using whole by (auto intro!: boll_series_flat)
  have zero: "indicator_value 0 = ''0''" using indicator_value_whole [of 0] by (simp add: dec_digits_zero)
  show ?thesis
    using moving_average_flat [OF assms(2)] bands series macd_values_flat [OF assms(2)]
    by (simp add: calculate_daily_indicators_def closes indicator_value_whole zero ma_windows_def)
qed

theorem flat_price_indicators_witness:
  "map_option (\<lambda>indicators. dget indicators ''ma5'')
     (calculate_daily_indicators (\<lambda>x. x * x) (map demo_daily_bar [''2024-01-0'' @ [d]. d \<leftarrow> ''23456'']))
   = Some (Some [None, None, None, None, Some ''8''])"
proof -
  let ?bars = "map demo_daily_bar [''2024-01-0'' @ [d]. d \<leftarrow> ''23456'']"
  have "dec_digits 8 = ''8''" by code_simp
  have flat: "list_all (\<lambda>b. reads (bar_close b) = Some (of_nat 8)) ?bars" by (simp add: demo_daily_close)
  have len: "length ?bars = 5" by simp
  have "ma_name 5 = ''ma5''" by code_simp
  then show ?thesis
    using flat_price_indicators [OF flat, of "\<lambda>x. x * x"] unfolding len
    by (simp add: ma_windows_def windowed_def upt_rec \<open>dec_digits 8 = ''8''\<close>)
qed

end
