(* ===== verification/Fund_History.thy ===== *)
theory Fund_History
  imports Dual_Source Instants Public_Values
begin

text \<open>
  The stored fund flows: the tables \<open>fund_flow_history_points\<close> and \<open>fund_flow_history_status\<close> of
  \<open>level2_service/research_store.py\<close>, \<open>FundFlowHistoryMonitor\<close> of \<open>fund_flow_history.py\<close>, and
  \<open>DatabaseFirstFundFlowSource\<close> of \<open>database_first_fund_flow.py\<close>. A table is a dictionary from its primary key
  to the other columns; a statement is an operation on it, and a transaction one step.
\<close>

section \<open>Samples\<close>

type_synonym fields = "(string, string option) dict"
type_synonym sample = "(string, fields) dict"

definition flow_fields :: "string list" where
  "flow_fields = [''unit'', ''main_net_inflow'', ''main_visible_inflow'', ''main_hidden_inflow'', ''retail_inflow'']"

definition flow_period_names :: "string list" where
  "flow_period_names = [''today'', ''three_day'', ''five_day'']"

definition field_of :: "fields \<Rightarrow> string \<Rightarrow> string option" where
  "field_of row f = Option.bind (dget row f) id"

text \<open>\<open>_periods\<close> and \<open>_periods_from_outcome\<close>: the periods that have a value.\<close>

definition period_fields :: "(metric_kind \<Rightarrow> string option) \<Rightarrow> string \<Rightarrow> metric_kind \<Rightarrow> fields" where
  "period_fields vs period unit_kind =
     (''unit'', vs unit_kind) # map (\<lambda>(name, kind). (name, vs kind)) (fund_flow_metrics period)"

definition sample_of_values :: "(metric_kind \<Rightarrow> string option) \<Rightarrow> sample" where
  "sample_of_values vs =
     concat (map (\<lambda>(period, unit_kind).
       let row = period_fields vs period unit_kind in
       if list_ex (\<lambda>(_, v). v \<noteq> None) row then [(period, row)] else []) fund_flow_periods)"

text \<open>\<open>_quality\<close>\<close>

datatype sample_quality = EMPTY | PARTIAL_SAMPLE | VALID

definition sample_quality_of :: "sample \<Rightarrow> sample_quality" where
  "sample_quality_of periods =
     (let metric_values = concat (map (\<lambda>(_, row). map (field_of row) (tl flow_fields)) periods) in
      if \<not> list_ex (\<lambda>v. v \<noteq> None) metric_values then EMPTY
      else if list_all (\<lambda>v. v \<noteq> None) metric_values then VALID else PARTIAL_SAMPLE)"

section \<open>The tables\<close>

text \<open>The key of a point is its symbol, trade date, minute and period.\<close>

type_synonym flow_key = "string \<times> string \<times> string \<times> string"

record flow_row =
  row_fields :: fields
  row_captured :: string

record flow_status =
  latest_trade_date :: "string option"
  latest_time :: "string option"
  last_sync_at :: "string option"
  last_error :: "string option"

record flow_store =
  flow_points :: "(flow_key, flow_row) dict"
  flow_states :: "(string, flow_status) dict"

text \<open>\<open>record_fund_flow\<close>: a value that is missing keeps the stored one. The two flags say whether a point
  changed and whether one was recorded.\<close>

definition merged_fields :: "fields \<Rightarrow> flow_row option \<Rightarrow> fields" where
  "merged_fields raw existing =
     map (\<lambda>f. (f, case field_of raw f of Some v \<Rightarrow> Some v
       | None \<Rightarrow> Option.bind existing (\<lambda>r. field_of (row_fields r) f))) flow_fields"

fun record_periods ::
  "string \<Rightarrow> string \<Rightarrow> string \<Rightarrow> string \<Rightarrow> sample \<Rightarrow> (flow_key, flow_row) dict \<Rightarrow> bool \<times> bool \<times> (flow_key, flow_row) dict" where
  "record_periods sy day minute captured [] points = (False, False, points)"
| "record_periods sy day minute captured ((period, raw) # rest) points =
     (if period \<notin> set flow_period_names \<or> \<not> list_ex (\<lambda>f. field_of raw f \<noteq> None) flow_fields
      then record_periods sy day minute captured rest points
      else
        (let key = (sy, day, minute, period);
             existing = dget points key;
             merged = merged_fields raw existing;
             changed = (case existing of None \<Rightarrow> True | Some r \<Rightarrow> list_ex (\<lambda>f. field_of (row_fields r) f \<noteq> field_of merged f) flow_fields)
         in case record_periods sy day minute captured rest
                   (dset key \<lparr>row_fields = merged, row_captured = captured\<rparr> points) of
              (changed', _, points') \<Rightarrow> (changed \<or> changed', True, points')))"

definition record_fund_flow ::
  "string \<Rightarrow> string \<Rightarrow> string \<Rightarrow> sample \<Rightarrow> string \<Rightarrow> flow_store \<Rightarrow> bool \<times> flow_store" where
  "record_fund_flow sy day minute periods captured s =
     (case record_periods sy day minute captured periods (flow_points s) of
        (changed, recorded, points) \<Rightarrow>
          (changed, s\<lparr>flow_points := points,
             flow_states := (if recorded then dset sy \<lparr>latest_trade_date = Some day, latest_time = Some minute,
                 last_sync_at = Some captured, last_error = None\<rparr> (flow_states s) else flow_states s)\<rparr>))"

definition record_fund_flow_error :: "string \<Rightarrow> string \<Rightarrow> string \<Rightarrow> flow_store \<Rightarrow> flow_store" where
  "record_fund_flow_error sy code stamp s =
     (let st = (case dget (flow_states s) sy of Some st \<Rightarrow> st
        | None \<Rightarrow> \<lparr>latest_trade_date = None, latest_time = None, last_sync_at = None, last_error = None\<rparr>) in
      s\<lparr>flow_states := dset sy (st\<lparr>last_sync_at := Some stamp, last_error := Some code\<rparr>) (flow_states s)\<rparr>)"

definition cleanup_fund_flow_history :: "string \<Rightarrow> flow_store \<Rightarrow> nat \<times> flow_store" where
  "cleanup_fund_flow_history before s =
     (let kept = filter (\<lambda>((_, day, _, _), _). \<not> day < before) (flow_points s);
          symbols = (\<lambda>((sy, _), _). sy) ` set kept
      in (length (flow_points s) - length kept,
          \<lparr>flow_points = kept, flow_states = filter (\<lambda>(sy, _). sy \<in> symbols) (flow_states s)\<rparr>))"

definition available_fund_flow_dates :: "flow_store \<Rightarrow> string \<Rightarrow> string list" where
  "available_fund_flow_dates s sy =
     rev (sorted_list_of_set (set (map (\<lambda>((_, day, _), _). day) (filter (\<lambda>((sy', _), _). sy' = sy) (flow_points s)))))"

section \<open>The newest sample\<close>

definition without_colons :: "string \<Rightarrow> string" where
  "without_colons = filter (\<lambda>c. c \<noteq> CHR '':'')"

text \<open>The rows of one minute of a day, by period; \<open>strftime\<close> of a time of Shanghai.\<close>

definition minute_rows :: "flow_store \<Rightarrow> string \<Rightarrow> string \<Rightarrow> string \<Rightarrow> (string, flow_row) dict" where
  "minute_rows s sy day minute =
     map (\<lambda>((_, _, _, period), row). (period, row)) (filter (\<lambda>((sy', day', minute', _), _). sy' = sy \<and> day' = day \<and> minute' = minute)
       (flow_points s))"

definition shanghai_day :: "time \<Rightarrow> string" where
  "shanghai_day t = date_text (shanghai_date t)"

definition shanghai_minute :: "time \<Rightarrow> string" where
  "shanghai_minute t = hm_text (shanghai_second_of_day t)"

definition grouped_minutes :: "flow_store \<Rightarrow> string \<Rightarrow> string \<Rightarrow> time option \<Rightarrow> string set" where
  "grouped_minutes s sy day now =
     {minute \<in> set (map (\<lambda>((_, _, minute, _), _). minute) (filter (\<lambda>((sy', day', _), _). sy' = sy \<and> day' = day) (flow_points s))).
       case now of None \<Rightarrow> True | Some t \<Rightarrow> \<not> (day = shanghai_day t \<and> without_colons minute > without_colons (shanghai_minute t))}"

record flow_snapshot =
  sample_date :: string
  sample_minute :: string
  sample_captured :: string
  sample_periods :: sample

text \<open>The age of a sample, when its time can be read; a time without an offset cannot be subtracted.\<close>

definition sample_age :: "time \<Rightarrow> string \<Rightarrow> seconds option" where
  "sample_age now captured =
     (case datetime_of_text captured of None \<Rightarrow> None
      | Some d \<Rightarrow> if dt_offset d = None then None else Some (max 0 (of_int (now - instant_of d) / 1000000)))"

definition rows_complete :: "(string, flow_row) dict \<Rightarrow> bool" where
  "rows_complete by_period \<longleftrightarrow>
     set (map fst by_period) = set flow_period_names
     \<and> list_all (\<lambda>p. list_all (\<lambda>f. field_of (row_fields (the (dget by_period p))) f \<noteq> None) flow_fields) (map fst by_period)"

fun newest_complete ::
  "(string \<Rightarrow> (string, flow_row) dict) \<Rightarrow> string \<Rightarrow> (time \<times> seconds) option \<Rightarrow> string list \<Rightarrow> flow_snapshot option" where
  "newest_complete rows day freshness [] = None"
| "newest_complete rows day freshness (minute # rest) =
     (let by_period = rows minute;
          captured = Max (set (map (\<lambda>p. row_captured (the (dget by_period p))) (map fst by_period)));
          result = Some \<lparr>sample_date = day, sample_minute = minute, sample_captured = captured,
            sample_periods = map (\<lambda>p. (p, map (\<lambda>f. (f, field_of (row_fields (the (dget by_period p))) f)) flow_fields)) flow_period_names\<rparr>
      in if \<not> rows_complete by_period then newest_complete rows day freshness rest
         else case freshness of None \<Rightarrow> result
         | Some (now, max_age) \<Rightarrow>
             (case sample_age now captured of None \<Rightarrow> newest_complete rows day freshness rest
              | Some age \<Rightarrow> if age > max_age then None else result))"

text \<open>The code has a time and an age to bound it by together, or neither.\<close>

definition latest_fund_flow_snapshot ::
  "flow_store \<Rightarrow> string \<Rightarrow> (time \<times> seconds) option \<Rightarrow> string option \<Rightarrow> flow_snapshot option" where
  "latest_fund_flow_snapshot s sy freshness trade_date =
     (case (case trade_date of Some d \<Rightarrow> if d \<noteq> [] then Some d else None | None \<Rightarrow> None) of
        Some day \<Rightarrow> newest_complete (minute_rows s sy day) day freshness
          (rev (sorted_list_of_set (grouped_minutes s sy day (map_option fst freshness))))
      | None \<Rightarrow>
          (case available_fund_flow_dates s sy of [] \<Rightarrow> None
           | day # _ \<Rightarrow> newest_complete (minute_rows s sy day) day freshness
               (rev (sorted_list_of_set (grouped_minutes s sy day (map_option fst freshness))))))"

section \<open>Reading the history\<close>

definition point_fields :: "fields \<Rightarrow> (string \<times> json) list" where
  "point_fields row = map (\<lambda>f. (f, jstr_opt (field_of row f))) flow_fields"

text \<open>\<open>ORDER BY period, REPLACE(minute, ':', '')\<close>: the points of a period, in the order of the minutes.\<close>

definition period_points :: "flow_store \<Rightarrow> string \<Rightarrow> string \<Rightarrow> string \<Rightarrow> (string \<times> flow_row) list" where
  "period_points s sy day period =
     sort_key (\<lambda>(minute, _). without_colons minute)
       (map (\<lambda>((_, _, minute, _), row). (minute, row))
         (filter (\<lambda>((sy', day', _, period'), _). sy' = sy \<and> day' = day \<and> period' = period) (flow_points s)))"

definition history_document ::
  "string \<Rightarrow> string option \<Rightarrow> string list \<Rightarrow> flow_status option \<Rightarrow> string option \<Rightarrow> (string \<Rightarrow> (string \<times> flow_row) list) \<Rightarrow> json" where
  "history_document sy day dates st sync points =
     JObj [(''symbol'', JStr sy), (''trade_date'', jstr_opt day), (''available_dates'', JArr (map JStr dates)),
       (''latest_sync_at'', jstr_opt sync), (''last_error'', jstr_opt (Option.bind st last_error)),
       (''periods'', JObj (map (\<lambda>p. (p, JObj [(''points'', JArr (map (\<lambda>(minute, row).
          JObj ((''time'', JStr minute) # point_fields (row_fields row))) (points p)))])) flow_period_names))]"

text \<open>\<open>read_fund_flow_history\<close>; None is its \<open>LookupError\<close>.\<close>

definition read_fund_flow_history :: "flow_store \<Rightarrow> string \<Rightarrow> string option \<Rightarrow> json option" where
  "read_fund_flow_history s sy trade_date =
     (let dates = available_fund_flow_dates s sy;
          st = dget (flow_states s) sy;
          selected = (case trade_date of Some d \<Rightarrow> if d \<noteq> [] then Some d else None | None \<Rightarrow> None)
      in case (case selected of Some d \<Rightarrow> Some d | None \<Rightarrow> (case dates of [] \<Rightarrow> None | d # _ \<Rightarrow> Some d)) of
           None \<Rightarrow> Some (history_document sy None [] st None (\<lambda>_. []))
         | Some day \<Rightarrow>
             if \<not> list_ex (\<lambda>((sy', day', _), _). sy' = sy \<and> day' = day) (flow_points s) then None
             else Some (history_document sy (Some day) dates st (Option.bind st last_sync_at) (period_points s sy day)))"

text \<open>\<open>read_fund_flow_daily\<close>: the last point of each of the last days that have one of today's period; None is its
  \<open>ValueError\<close>. \<open>previous\<close> is the trading day before one, if there is a calendar.\<close>

definition last_row :: "flow_store \<Rightarrow> string \<Rightarrow> string \<Rightarrow> string \<Rightarrow> (string \<times> flow_row) option" where
  "last_row s sy day period = (case period_points s sy day period of [] \<Rightarrow> None | ps \<Rightarrow> Some (last ps))"

definition daily_point :: "flow_store \<Rightarrow> string \<Rightarrow> string \<Rightarrow> string \<times> flow_row \<Rightarrow> json" where
  "daily_point s sy day point =
     JObj ([(''trade_date'', JStr day), (''time'', JStr (fst point))] @ point_fields (row_fields (snd point))
       @ [(''periods'', JObj (map (\<lambda>p. (p, case last_row s sy day p of None \<Rightarrow> JNull
            | Some (_, row) \<Rightarrow> JObj (point_fields (row_fields row)))) flow_period_names))])"

definition baseline_point :: "string \<Rightarrow> string option \<Rightarrow> json" where
  "baseline_point day unit =
     JObj ([(''trade_date'', JStr day), (''time'', JStr ''00:00''), (''unit'', jstr_opt unit)]
       @ map (\<lambda>f. (f, JStr ''0'')) (tl flow_fields) @ [(''periods'', JNull)])"

definition daily_dates :: "flow_store \<Rightarrow> string \<Rightarrow> nat \<Rightarrow> string list" where
  "daily_dates s sy limit =
     take limit (rev (sorted_list_of_set
       {day \<in> (\<lambda>((_, day, _), _). day) ` set (flow_points s). last_row s sy day ''today'' \<noteq> None}))"

definition read_fund_flow_daily :: "flow_store \<Rightarrow> string \<Rightarrow> nat \<Rightarrow> (string \<Rightarrow> string) option \<Rightarrow> json option" where
  "read_fund_flow_daily s sy limit previous =
     (if \<not> (1 \<le> limit \<and> limit \<le> 60) then None
      else
        (let days = rev (daily_dates s sy limit);
             document = (\<lambda>baseline points. JObj [(''symbol'', JStr sy), (''limit'', JNum (of_nat limit)),
               (''baseline_trade_date'', jstr_opt baseline), (''points'', JArr points)])
         in case days of [] \<Rightarrow> Some (document None [])
            | first # _ \<Rightarrow>
                (let baseline = (case previous of None \<Rightarrow> first | Some f \<Rightarrow> f first);
                     point = (\<lambda>day. the (last_row s sy day ''today''))
                 in Some (document (Some baseline)
                      (baseline_point baseline (field_of (row_fields (snd (point first))) ''unit'')
                        # map (\<lambda>day. daily_point s sy day (point day)) days)))))"

section \<open>The database first\<close>

text \<open>\<open>_outcome_from_history\<close>\<close>

definition row_values :: "fields \<Rightarrow> string \<Rightarrow> metric_kind \<Rightarrow> (metric_kind \<Rightarrow> string option) \<Rightarrow> metric_kind \<Rightarrow> string option" where
  "row_values row period unit_kind vs =
     fold (\<lambda>(name, kind) vs. vs(kind := field_of row name)) (fund_flow_metrics period) (vs(unit_kind := field_of row ''unit''))"

definition history_outcome :: "flow_snapshot \<Rightarrow> direct_outcome" where
  "history_outcome h =
     \<lparr>out_values = fold (\<lambda>(period, unit_kind). row_values (the (dget (sample_periods h) period)) period unit_kind)
        fund_flow_periods empty_metric_values,
      out_errors = no_source_errors, out_series = (\<lambda>_. None), stored_trade_dates = []\<rparr>"

definition outcome_of_result :: "direct_result \<Rightarrow> direct_outcome" where
  "outcome_of_result r =
     (case r of Outcome d \<Rightarrow> d
      | PlainValues vs \<Rightarrow> \<lparr>out_values = vs, out_errors = no_source_errors, out_series = (\<lambda>_. None), stored_trade_dates = []\<rparr>)"

text \<open>\<open>isoformat\<close> of a time of Shanghai.\<close>

definition shanghai_isoformat :: "time \<Rightarrow> string" where
  "shanghai_isoformat t = datetime_text (utc_datetime (t + hours 8)\<lparr>dt_offset := Some 480\<rparr>)"

record fund_first =
  fund_store :: flow_store
  closed_fallbacks :: "(string \<times> string, direct_outcome) dict"

text \<open>\<open>read_direct\<close>; the market and the watchlist do not change during a read, and \<open>answer\<close> is what the live source answers if
  it is asked.\<close>

definition first_read_direct ::
  "seconds \<Rightarrow> bool \<Rightarrow> bool \<Rightarrow> time \<Rightarrow> string \<Rightarrow> account_answer \<Rightarrow> fund_first \<Rightarrow> (source_failure + direct_outcome) \<times> fund_first" where
  "first_read_direct freshness market_open watched now sy answer S =
     (let history = (if \<not> watched then None
            else if market_open then latest_fund_flow_snapshot (fund_store S) sy (Some (now, freshness)) (Some (shanghai_day now))
            else latest_fund_flow_snapshot (fund_store S) sy None None);
          key = (sy, shanghai_day now)
      in case history of Some h \<Rightarrow> (Inr (history_outcome h), S)
         | None \<Rightarrow>
             (case (if market_open then None else dget (closed_fallbacks S) key) of
                Some cached \<Rightarrow> (Inr cached, S)
              | None \<Rightarrow>
                  (case answer of Inl f \<Rightarrow> (Inl f, S)
                   | Inr r \<Rightarrow>
                       (let d = outcome_of_result r in
                        (Inr d, S\<lparr>
                           fund_store := (if market_open \<and> watched
                             then snd (record_fund_flow sy (shanghai_day now) (shanghai_minute now) (sample_of_values (out_values d))
                                    (shanghai_isoformat now) (fund_store S))
                             else fund_store S),
                           closed_fallbacks := (if market_open then closed_fallbacks S
                             else dset key d (closed_fallbacks S))\<rparr>)))))"

section \<open>The monitor\<close>

text \<open>One \<open>collect\<close> of \<open>poll_once\<close>; \<open>stamp\<close> is the local time an error is stored with. Those of a poll run
  concurrently, each on the rows of its own symbol.\<close>

definition collect_flow ::
  "time \<Rightarrow> string \<Rightarrow> string \<Rightarrow> account_answer \<Rightarrow> flow_store \<Rightarrow> bool \<times> flow_store" where
  "collect_flow now stamp sy answer s =
     (case answer of
        Inl f \<Rightarrow> (False, record_fund_flow_error sy (failure_code ''DIRECT_FUND_FLOW_REQUEST_FAILED'' f) stamp s)
      | Inr r \<Rightarrow>
          (let periods = sample_of_values (answer_values r) in
           case sample_quality_of periods of
             EMPTY \<Rightarrow> (False, record_fund_flow_error sy ''DIRECT_FUND_FLOW_EMPTY'' stamp s)
           | q \<Rightarrow>
               (case record_fund_flow sy (shanghai_day now) (shanghai_minute now) periods (shanghai_isoformat now) s of
                  (changed, s') \<Rightarrow>
                    if q = VALID then (changed, s')
                    else (False, record_fund_flow_error sy ''DIRECT_FUND_FLOW_PARTIAL'' stamp s'))))"

record flow_monitor =
  monitor_store :: flow_store
  last_cleanup_date :: "string option"

definition cleanup_if_due :: "nat \<Rightarrow> time \<Rightarrow> flow_monitor \<Rightarrow> flow_monitor" where
  "cleanup_if_due retention_days now m =
     (if last_cleanup_date m = Some (shanghai_day now) then m
      else m\<lparr>monitor_store := snd (cleanup_fund_flow_history (shanghai_day (now - hours (24 * int retention_days))) (monitor_store m)),
             last_cleanup_date := Some (shanghai_day now)\<rparr>)"

fun collect_flows ::
  "time \<Rightarrow> string \<Rightarrow> (string \<Rightarrow> account_answer) \<Rightarrow> string list \<Rightarrow> flow_store \<Rightarrow> (string, bool) dict \<times> flow_store" where
  "collect_flows now stamp answers [] s = ([], s)"
| "collect_flows now stamp answers (sy # rest) s =
     (case collect_flow now stamp sy (answers sy) s of
        (changed, s') \<Rightarrow> (case collect_flows now stamp answers rest s' of (rows, s'') \<Rightarrow> ((sy, changed) # rows, s'')))"

definition poll_once ::
  "nat \<Rightarrow> bool \<Rightarrow> string list \<Rightarrow> time \<Rightarrow> string \<Rightarrow> (string \<Rightarrow> account_answer) \<Rightarrow> flow_monitor \<Rightarrow> (string, bool) dict \<times> flow_monitor" where
  "poll_once retention_days market_open watchlist now stamp answers m =
     (let symbols = sorted_list_of_set (set watchlist) in
      if \<not> market_open \<or> symbols = [] then ([], m)
      else
        (let m' = cleanup_if_due retention_days now m in
         case collect_flows now stamp answers symbols (monitor_store m') of
           (rows, s) \<Rightarrow> (rows, m'\<lparr>monitor_store := s\<rparr>)))"

end
