(* ===== verification/Flow_Properties.thy ===== *)
theory Flow_Properties
  imports Fund_History
begin

text \<open>
  Properties of the stored fund flows, with their witnesses: what a record leaves in the table, and that a sample the interface
  gave is served from the database while it is fresh.
\<close>

section \<open>Recording\<close>

definition recordable :: "string \<Rightarrow> fields \<Rightarrow> bool" where
  "recordable period raw \<longleftrightarrow> period \<in> set flow_period_names \<and> list_ex (\<lambda>f. field_of raw f \<noteq> None) flow_fields"

definition given :: "sample \<Rightarrow> string \<Rightarrow> fields option" where
  "given periods p = Option.bind (dget periods p) (\<lambda>raw. if recordable p raw then Some raw else None)"

lemma given_Nil [simp]: "given [] p = None"
  by (simp add: given_def)

lemma given_Cons: "given ((p0, raw) # rest) p = (if p = p0 then if recordable p0 raw then Some raw else None else given rest p)"
  by (simp add: given_def)

lemma record_periods_get:
  assumes "record_periods sy day minute captured periods points = (c, r, points')" "distinct (map fst periods)"
  shows "dget points' (sy', day', minute', p) =
    (case (if (sy', day', minute') = (sy, day, minute) then given periods p else None) of
       Some raw \<Rightarrow> Some \<lparr>row_fields = merged_fields raw (dget points (sy', day', minute', p)), row_captured = captured\<rparr>
     | None \<Rightarrow> dget points (sy', day', minute', p))"
  using assms
proof (induction periods arbitrary: points c r points')
  case (Cons q rest)
  obtain p0 raw where q: "q = (p0, raw)" by (cases q)
  have d: "distinct (map fst rest)" and "dget rest p0 = None" using Cons.prems(2) by (auto simp: q dget_None_iff)
  then have none: "given rest p0 = None" by (simp add: given_def)
  show ?case
  proof (cases "recordable p0 raw")
    case True
    then obtain c' r' where rest: "record_periods sy day minute captured rest
        (dset (sy, day, minute, p0) \<lparr>row_fields = merged_fields raw (dget points (sy, day, minute, p0)), row_captured = captured\<rparr> points)
        = (c', r', points')"
      using Cons.prems(1) by (auto simp: q Let_def recordable_def split: prod.splits)
    show ?thesis using True none unfolding Cons.IH [OF rest d] q given_Cons
      by (cases "p = p0"; cases "given rest p") simp_all
  next
    case False
    then have rest: "record_periods sy day minute captured rest points = (c, r, points')"
      using Cons.prems(1) by (simp add: q recordable_def)
    show ?thesis using False none unfolding Cons.IH [OF rest d] q given_Cons by (cases "p = p0") simp_all
  qed
qed simp

definition stored_field :: "flow_store \<Rightarrow> flow_key \<Rightarrow> string \<Rightarrow> string option" where
  "stored_field s key f = Option.bind (dget (flow_points s) key) (\<lambda>r. field_of (row_fields r) f)"

lemma field_of_map: "f \<in> set fs \<Longrightarrow> field_of (map (\<lambda>f. (f, g f)) fs) f = g f"
  by (induction fs) (auto simp: field_of_def)

text \<open>
  C35: Recording a sample sets the values it has, and keeps the stored value of a field it lacks; no other row of the table
  is touched.
\<close>

theorem recorded_fields_merge:
  assumes "distinct (map fst periods)" and "f \<in> set flow_fields"
  shows "stored_field (snd (record_fund_flow sy day minute periods captured s)) (sy', day', minute', period) f =
    (if (sy', day', minute') = (sy, day, minute) \<and> period \<in> set flow_period_names
     then (case Option.bind (dget periods period) (\<lambda>raw. field_of raw f) of
             Some v \<Rightarrow> Some v | None \<Rightarrow> stored_field s (sy', day', minute', period) f)
     else stored_field s (sy', day', minute', period) f)"
proof -
  obtain c r points' where rec: "record_periods sy day minute captured periods (flow_points s) = (c, r, points')"
    by (cases "record_periods sy day minute captured periods (flow_points s)")
  have merged: "field_of (merged_fields raw e) f =
      (case field_of raw f of Some v \<Rightarrow> Some v | None \<Rightarrow> Option.bind e (\<lambda>r. field_of (row_fields r) f))" for raw e
    using assms(2) by (simp add: merged_fields_def field_of_map)
  have given: "given periods period = None \<Longrightarrow> period \<in> set flow_period_names \<Longrightarrow> Option.bind (dget periods period) (\<lambda>raw. field_of raw f) = None"
    using assms(2) by (cases "dget periods period") (auto simp: given_def recordable_def list_ex_iff split: if_splits)
  have some: "given periods period = Some raw \<Longrightarrow> dget periods period = Some raw \<and> period \<in> set flow_period_names" for raw
    by (auto simp: given_def recordable_def bind_eq_Some_conv split: if_splits)
  have "stored_field (snd (record_fund_flow sy day minute periods captured s)) (sy', day', minute', period) f =
      Option.bind (dget points' (sy', day', minute', period)) (\<lambda>r. field_of (row_fields r) f)"
    by (simp add: record_fund_flow_def rec stored_field_def)
  then have field: "stored_field (snd (record_fund_flow sy day minute periods captured s)) (sy', day', minute', period) f =
      Option.bind (case (if (sy', day', minute') = (sy, day, minute) then given periods period else None) of
        Some raw \<Rightarrow> Some \<lparr>row_fields = merged_fields raw (dget (flow_points s) (sy', day', minute', period)), row_captured = captured\<rparr>
      | None \<Rightarrow> dget (flow_points s) (sy', day', minute', period)) (\<lambda>r. field_of (row_fields r) f)"
    by (simp only: record_periods_get [OF rec assms(1)])
  show ?thesis
  proof (cases "(sy', day', minute') = (sy, day, minute)")
    case True
    then have eqs: "sy' = sy" "day' = day" "minute' = minute" by simp_all
    show ?thesis
      unfolding field unfolding stored_field_def eqs by (cases "given periods period") (simp_all add: merged given some)
  next
    case False
    then have neg: "((sy', day', minute') = (sy, day, minute)) = False" by simp
    show ?thesis unfolding field unfolding stored_field_def neg by simp
  qed
qed

definition demo_point :: flow_row where
  "demo_point = \<lparr>row_fields = [(''unit'', Some ''w''), (''main_net_inflow'', Some ''1''), (''main_visible_inflow'', None),
     (''main_hidden_inflow'', None), (''retail_inflow'', None)], row_captured = ''t''\<rparr>"

definition demo_flow_store :: flow_store where
  "demo_flow_store = \<lparr>flow_points = [((''600000'', ''20240102'', ''09:31'', ''today''), demo_point)], flow_states = []\<rparr>"

theorem recorded_fields_merge_witness:
  "stored_field (snd (record_fund_flow ''600000'' ''20240102'' ''09:31'' [(''today'', [(''retail_inflow'', Some ''2'')])] ''u'' demo_flow_store))
     (''600000'', ''20240102'', ''09:31'', ''today'') ''main_net_inflow'' = Some ''1''"
  by (subst recorded_fields_merge)
    (simp_all add: flow_fields_def flow_period_names_def stored_field_def demo_flow_store_def demo_point_def field_of_def)

section \<open>The newest minute\<close>

lemma minute_rows_get: "dget (minute_rows s sy day minute) p = dget (flow_points s) (sy, day, minute, p)"
proof -
  have "dget (map (\<lambda>((_, _, _, period), row). (period, row)) (filter (\<lambda>((sy', day', minute', _), _). sy' = sy \<and> day' = day \<and> minute' = minute) ps)) p
      = dget ps (sy, day, minute, p)" for ps :: "(flow_key, flow_row) dict"
    by (induction ps) auto
  then show ?thesis by (simp add: minute_rows_def)
qed

lemma minute_rows_keys: "set (map fst (minute_rows s sy day minute)) = {p. dget (flow_points s) (sy, day, minute, p) \<noteq> None}"
  using minute_rows_get [of s sy day minute] dget_None_iff [of "minute_rows s sy day minute"] by auto

lemma grouped_minutes_get:
  "grouped_minutes s sy day now = {minute. (\<exists>p. dget (flow_points s) (sy, day, minute, p) \<noteq> None)
     \<and> (case now of None \<Rightarrow> True | Some t \<Rightarrow> \<not> (day = shanghai_day t \<and> without_colons minute > without_colons (shanghai_minute t)))}"
proof -
  have "set (map (\<lambda>((_, _, minute, _), _). minute) (filter (\<lambda>((sy', day', _), _). sy' = sy \<and> day' = day) (flow_points s)))
      = {minute. \<exists>p. (sy, day, minute, p) \<in> keys (flow_points s)}" by force
  then show ?thesis by (auto simp: grouped_minutes_def dget_None_iff)
qed

lemma finite_grouped: "finite (grouped_minutes s sy day now)"
  by (simp add: grouped_minutes_def)

lemma newest_first:
  assumes "finite M" "m \<in> M" "\<And>x. x \<in> M \<Longrightarrow> x \<le> m"
  shows "\<exists>rest. rev (sorted_list_of_set M) = m # rest"
proof -
  let ?l = "sorted_list_of_set M"
  have l: "set ?l = M" "sorted ?l" using assms(1) by simp_all
  then have ne: "?l \<noteq> []" using assms(2) by auto
  have "last ?l \<in> M" using last_in_set [OF ne] l(1) by simp
  moreover have "m \<le> last ?l"
    using l assms(2) ne by (metis append_butlast_last_id in_set_conv_decomp last_in_set order_refl sorted_append butlast_snoc
      Un_iff empty_iff list.set(1) list.set(2) set_append insert_iff)
  ultimately have "last ?l = m" using assms(3) by (simp add: antisym)
  then have "rev ?l = m # rev (butlast ?l)" using ne by (metis append_butlast_last_id rev_eq_Cons_iff rev_rev_ident)
  then show ?thesis by blast
qed

section \<open>Times as texts\<close>

lemma digit_char_zero: "digit_char 0 = CHR ''0''"
  by code_simp

lemma pad_two:
  assumes "0 \<le> n" "n < 100"
  shows "pad_int 2 n = [digit_char (nat n div 10), digit_char (nat n mod 10)]"
proof -
  define k where "k = nat n"
  have k: "k < 100" "str_of_int n = dec_digits k" using assms by (simp_all add: k_def str_of_int_def)
  show ?thesis
  proof (cases "k < 10")
    case True
    then have "dec_digits k = [digit_char k]" by (simp add: dec_digits.simps [of k])
    then show ?thesis using True by (simp add: pad_int_def k zero_pad_def digit_char_zero flip: k_def)
  next
    case False
    then have "dec_digits k = dec_digits (k div 10) @ [digit_char (k mod 10)]" by (simp add: dec_digits.simps [of k])
    also have "dec_digits (k div 10) = [digit_char (k div 10)]" using k(1) by (simp add: dec_digits.simps [of "k div 10"])
    finally show ?thesis by (simp add: pad_int_def k zero_pad_def flip: k_def)
  qed
qed

lemma digit_char_less: "a < 10 \<Longrightarrow> b < 10 \<Longrightarrow> digit_char a < digit_char b \<longleftrightarrow> a < b"
  by (simp only: less_char_def of_char_digit_char) simp

lemma pad_two_less:
  assumes "0 \<le> a" "a < b" "b < 100"
  shows "pad_int 2 a @ x < pad_int 2 b @ y"
proof -
  define m n where "m = nat a" "n = nat b"
  have "m < n" "n < 100" using assms by (simp_all add: m_n_def)
  have "m div 10 \<le> n div 10" "10 * (m div 10) + m mod 10 = m" "10 * (n div 10) + n mod 10 = n" using \<open>m < n\<close>
    by (simp_all add: div_le_mono)
  then have "m div 10 < n div 10 \<or> m div 10 = n div 10 \<and> m mod 10 < n mod 10" using \<open>m < n\<close> by linarith
  then show ?thesis using assms \<open>n < 100\<close> \<open>m < n\<close> by (auto simp: pad_two digit_char_less simp flip: m_n_def)
qed
lemma digit_char_colon: "n < 10 \<Longrightarrow> digit_char n \<noteq> CHR '':''"
proof -
  assume n: "n < 10"
  have "\<not> is_digit CHR '':''" by code_simp
  then show ?thesis using is_digit_digit_char [OF n] by metis
qed

lemma without_colons_pad: "0 \<le> n \<Longrightarrow> n < 100 \<Longrightarrow> without_colons (pad_int 2 n) = pad_int 2 n"
proof -
  assume n: "0 \<le> n" "n < 100"
  define k where "k = nat n"
  have "k div 10 < 10" "k mod 10 < 10" using n by (simp_all add: k_def)
  then have "digit_char (k div 10) \<noteq> CHR '':''" "digit_char (k mod 10) \<noteq> CHR '':''" by (simp_all only: digit_char_colon not_False_eq_True)
  then show ?thesis using n by (simp add: pad_two without_colons_def flip: k_def)
qed

lemma hm_text_plain:
  assumes "0 \<le> x" "x < 86400"
  shows "without_colons (hm_text x) = pad_int 2 (x div 3600) @ pad_int 2 (x div 60 mod 60)"
proof -
  have "without_colons (a @ '':'' @ b) = without_colons a @ without_colons b" for a b by (simp add: without_colons_def)
  moreover have "x div 3600 < 100" "x div 60 mod 60 < 100" "0 \<le> x div 3600" "0 \<le> x div 60 mod 60" using assms by simp_all
  ultimately show ?thesis by (simp only: hm_text_def without_colons_pad)
qed

lemma append_le: "p @ x \<le> p @ y \<longleftrightarrow> x \<le> (y :: string)"
  by (induction p) auto

lemma hm_text_mono:
  assumes "0 \<le> s" "s \<le> t" "t < 86400"
  shows "without_colons (hm_text s) \<le> without_colons (hm_text t)"
proof -
  have plain: "without_colons (hm_text s) = pad_int 2 (s div 3600) @ pad_int 2 (s div 60 mod 60)"
    "without_colons (hm_text t) = pad_int 2 (t div 3600) @ pad_int 2 (t div 60 mod 60)"
    using assms by (simp_all add: hm_text_plain)
  have le: "s div 3600 \<le> t div 3600" "s div 60 \<le> t div 60" using assms(2) by (simp_all add: zdiv_mono1)
  have minutes: "x div 60 mod 60 = x div 60 - 60 * (x div 3600)" for x :: int
    using zdiv_zmult2_eq [of 60 x 60] by (simp add: minus_mult_div_eq_mod)
  show ?thesis
  proof (cases "s div 3600 < t div 3600")
    case True
    then show ?thesis using assms unfolding plain by (intro order.strict_implies_order [OF pad_two_less]) simp_all
  next
    case False
    then have h: "s div 3600 = t div 3600" using le by simp
    then have "s div 60 mod 60 \<le> t div 60 mod 60" using le(2) by (simp only: minutes)
    then consider "s div 60 mod 60 < t div 60 mod 60" | "s div 60 mod 60 = t div 60 mod 60" by linarith
    then show ?thesis
    proof cases
      case 1
      have "pad_int 2 (s div 60 mod 60) @ [] < pad_int 2 (t div 60 mod 60) @ []" using 1 by (intro pad_two_less) simp_all
      then show ?thesis unfolding plain h by (simp add: append_le)
    qed (simp add: plain h)
  qed
qed

lemma instant_of_offset: "dt_offset d = Some 0 \<Longrightarrow> instant_of (d\<lparr>dt_offset := Some 480\<rparr>) = instant_of d - hours 8"
  by (simp add: instant_of_def hours_def algebra_simps)

lemma shanghai_isoformat_round:
  assumes "valid_time (t + hours 8)"
  shows "\<exists>d. datetime_of_text (shanghai_isoformat t) = Some d \<and> dt_offset d = Some 480 \<and> instant_of d = t"
proof -
  let ?d = "utc_datetime (t + hours 8)"
  note u = utc_datetime_facts [OF assms]
  have o: "dt_offset ?d = Some 0" by (simp add: utc_datetime_def Let_def split: prod.split)
  have "valid_datetime (?d\<lparr>dt_offset := Some 480\<rparr>)" using u(1) by (simp add: valid_datetime_def)
  then show ?thesis using u(2) instant_of_offset [OF o] by (intro exI [of _ "?d\<lparr>dt_offset := Some 480\<rparr>"]) (simp add: shanghai_isoformat_def datetime_round)
qed

section \<open>Samples\<close>

definition complete_values :: "(metric_kind \<Rightarrow> string option) \<Rightarrow> bool" where
  "complete_values vs \<longleftrightarrow> list_all (\<lambda>(period, unit_kind). list_all (\<lambda>(_, v). v \<noteq> None) (period_fields vs period unit_kind)) fund_flow_periods"

lemmas sample_simps = fund_flow_periods_def fund_flow_metrics_def period_fields_def flow_fields_def flow_period_names_def

lemma complete_row:
  assumes "complete_values vs" "(period, unit_kind) \<in> set fund_flow_periods"
  shows "\<exists>a b c d e. period_fields vs period unit_kind = [(''unit'', Some a), (''main_net_inflow'', Some b),
    (''main_visible_inflow'', Some c), (''main_hidden_inflow'', Some d), (''retail_inflow'', Some e)]"
proof -
  have "list_all (\<lambda>(_, v). v \<noteq> None) (period_fields vs period unit_kind)"
    using assms by (auto simp: complete_values_def list_all_iff)
  moreover have "\<exists>a b c d e. period_fields vs period unit_kind = [(''unit'', a), (''main_net_inflow'', b),
    (''main_visible_inflow'', c), (''main_hidden_inflow'', d), (''retail_inflow'', e)]"
    using assms(2) by (auto simp: sample_simps)
  ultimately show ?thesis by auto
qed

lemma complete_sample:
  assumes "complete_values vs"
  shows "sample_of_values vs = map (\<lambda>(period, unit_kind). (period, period_fields vs period unit_kind)) fund_flow_periods"
proof -
  have "list_ex (\<lambda>(_, v). v \<noteq> None) (period_fields vs period unit_kind)" if "(period, unit_kind) \<in> set fund_flow_periods" for period unit_kind
    using complete_row [OF assms that] by auto
  then show ?thesis by (auto simp: sample_of_values_def fund_flow_periods_def Let_def)
qed

lemma complete_fields:
  assumes "complete_values vs" "(period, unit_kind) \<in> set fund_flow_periods"
  shows "map (\<lambda>f. (f, field_of (period_fields vs period unit_kind) f)) flow_fields = period_fields vs period unit_kind"
    "merged_fields (period_fields vs period unit_kind) e = period_fields vs period unit_kind"
    "list_all (\<lambda>f. field_of (period_fields vs period unit_kind) f \<noteq> None) flow_fields"
    "recordable period (period_fields vs period unit_kind)"
proof -
  have "period \<in> set flow_period_names" using assms(2) by (auto simp: sample_simps)
  then show "map (\<lambda>f. (f, field_of (period_fields vs period unit_kind) f)) flow_fields = period_fields vs period unit_kind"
    "merged_fields (period_fields vs period unit_kind) e = period_fields vs period unit_kind"
    "list_all (\<lambda>f. field_of (period_fields vs period unit_kind) f \<noteq> None) flow_fields"
    "recordable period (period_fields vs period unit_kind)"
    using complete_row [OF assms] by (elim exE; simp add: merged_fields_def flow_fields_def field_of_def recordable_def)+
qed

section \<open>The database first\<close>

definition flow_value_kinds :: "metric_kind list" where
  "flow_value_kinds = concat (map (\<lambda>(period, unit_kind). unit_kind # map snd (fund_flow_metrics period)) fund_flow_periods)"

text \<open>The rows have known periods, and none of this day is later than now.\<close>

definition recorded_until :: "time \<Rightarrow> flow_store \<Rightarrow> bool" where
  "recorded_until now s \<longleftrightarrow> list_all (\<lambda>((_, day, minute, period), _).
     period \<in> set flow_period_names \<and> (day = shanghai_day now \<longrightarrow> minute \<le> shanghai_minute now)) (flow_points s)"

lemma period_unit: "p \<in> set flow_period_names \<longleftrightarrow> (\<exists>u. (p, u) \<in> set fund_flow_periods)"
  by (auto simp: sample_simps)

lemma distinct_sample: "complete_values vs \<Longrightarrow> distinct (map fst (sample_of_values vs))"
  by (simp add: complete_sample) (simp add: fund_flow_periods_def)

lemma given_complete:
  assumes "complete_values vs"
  shows "given (sample_of_values vs) p = map_option (period_fields vs p) (dget fund_flow_periods p)"
proof -
  have "dget (map (\<lambda>(period, unit_kind). (period, period_fields vs period unit_kind)) ps) p
      = map_option (period_fields vs p) (dget ps p)" for ps
    by (induction ps) auto
  then have "dget (sample_of_values vs) p = map_option (period_fields vs p) (dget fund_flow_periods p)"
    by (simp add: complete_sample [OF assms])
  then show ?thesis using complete_fields(4) [OF assms dget_SomeD] by (cases "dget fund_flow_periods p") (simp_all add: given_def)
qed

text \<open>The table after a complete sample was recorded.\<close>

lemma complete_record_get:
  assumes "complete_values vs"
  shows "dget (flow_points (snd (record_fund_flow sy day minute (sample_of_values vs) captured s))) (sy', day', minute', p) =
    (case (if (sy', day', minute') = (sy, day, minute) then dget fund_flow_periods p else None) of
       Some u \<Rightarrow> Some \<lparr>row_fields = period_fields vs p u, row_captured = captured\<rparr>
     | None \<Rightarrow> dget (flow_points s) (sy', day', minute', p))"
proof -
  obtain c r points' where rec: "record_periods sy day minute captured (sample_of_values vs) (flow_points s) = (c, r, points')"
    by (cases "record_periods sy day minute captured (sample_of_values vs) (flow_points s)")
  have "dget fund_flow_periods p = Some u \<Longrightarrow> merged_fields (period_fields vs p u) e = period_fields vs p u" for u e
    using complete_fields(2) [OF assms dget_SomeD] .
  then show ?thesis
    using record_periods_get [OF rec distinct_sample [OF assms], of sy' day' minute' p]
    by (cases "dget fund_flow_periods p") (simp_all add: record_fund_flow_def rec given_complete [OF assms])
qed

text \<open>Values that go through a sample come back as they were.\<close>

lemma history_values:
  assumes "complete_values vs" "\<And>p u. (p, u) \<in> set fund_flow_periods \<Longrightarrow> dget (sample_periods h) p = Some (period_fields vs p u)"
  shows "list_all (\<lambda>k. out_values (history_outcome h) k = vs k) flow_value_kinds"
proof -
  have "dget (sample_periods h) ''today'' = Some (period_fields vs ''today'' MAIN_FLOW_TODAY_UNIT)"
    "dget (sample_periods h) ''three_day'' = Some (period_fields vs ''three_day'' MAIN_FLOW_THREE_DAY_UNIT)"
    "dget (sample_periods h) ''five_day'' = Some (period_fields vs ''five_day'' MAIN_FLOW_FIVE_DAY_UNIT)"
    using assms(2) by (simp_all add: fund_flow_periods_def)
  then show ?thesis
    by (simp add: history_outcome_def flow_value_kinds_def fund_flow_periods_def row_values_def fund_flow_metrics_def period_fields_def
      field_of_def)
qed

lemma recorded_until_get:
  assumes "recorded_until now s" "dget (flow_points s) (sy, day, minute, p) \<noteq> None"
  shows "p \<in> set flow_period_names" "day = shanghai_day now \<Longrightarrow> minute \<le> shanghai_minute now"
  using assms by (auto simp: recorded_until_def list_all_iff dest!: dget_SomeD)

lemma sample_age_shanghai:
  "valid_time (t + hours 8) \<Longrightarrow> t \<le> now \<Longrightarrow> sample_age now (shanghai_isoformat t) = Some (of_int (now - t) / 1000000)"
  using shanghai_isoformat_round [of t] by (auto simp: sample_age_def)

lemma seconds_mono: "t \<le> u \<Longrightarrow> shanghai_seconds t \<le> shanghai_seconds u"
  by (simp add: shanghai_seconds_def usec_per_sec_def zdiv_mono1)

lemma set_map_const: "(\<And>x. x \<in> set xs \<Longrightarrow> g x = c) \<Longrightarrow> xs \<noteq> [] \<Longrightarrow> set (map g xs) = {c}"
  by (auto simp: neq_Nil_conv image_iff)

text \<open>The newest sample of a table in which a complete one was recorded now.\<close>

lemma newest_recorded:
  fixes sy :: string
  assumes "complete_values vs" "recorded_until now s" "valid_time (now + hours 8)"
    and later: "now \<le> now2" "shanghai_date now2 = shanghai_date now" "of_int (now2 - now) / 1000000 \<le> freshness"
  defines "s' \<equiv> snd (record_fund_flow sy (shanghai_day now) (shanghai_minute now) (sample_of_values vs) (shanghai_isoformat now) s)"
  shows "\<exists>h. latest_fund_flow_snapshot s' sy (Some (now2, freshness)) (Some (shanghai_day now2)) = Some h
    \<and> (\<forall>p u. (p, u) \<in> set fund_flow_periods \<longrightarrow> dget (sample_periods h) p = Some (period_fields vs p u))"
proof -
  let ?day = "shanghai_day now" and ?minute = "shanghai_minute now"
  have day: "shanghai_day now2 = ?day" using later(2) by (simp add: shanghai_day_def)
  note get = complete_record_get [OF assms(1), of sy ?day ?minute "shanghai_isoformat now" s, folded s'_def]
  have row: "dget (flow_points s') (sy, ?day, ?minute, p) = Some \<lparr>row_fields = period_fields vs p u, row_captured = shanghai_isoformat now\<rparr>"
    if "(p, u) \<in> set fund_flow_periods" for p u
    using that by (auto simp: get fund_flow_periods_def)
  have until: "p \<in> set flow_period_names \<and> minute \<le> ?minute" if "dget (flow_points s') (sy, ?day, minute, p) \<noteq> None" for minute p
  proof (cases "dget (flow_points s) (sy, ?day, minute, p)")
    case None
    then have "minute = ?minute \<and> (\<exists>u. (p, u) \<in> set fund_flow_periods)"
      using that by (auto simp: get split: if_splits option.splits dest: dget_SomeD)
    then show ?thesis by (auto simp: period_unit)
  qed (use recorded_until_get [OF assms(2), of sy ?day minute p] in simp)
  have "?minute \<in> grouped_minutes s' sy ?day (Some now2)"
  proof -
    have "without_colons ?minute \<le> without_colons (shanghai_minute now2)"
    proof -
      have "shanghai_second_of_day now \<le> shanghai_second_of_day now2"
        using later(2) div_mult_mod_eq [of "shanghai_seconds now" 86400] div_mult_mod_eq [of "shanghai_seconds now2" 86400]
          seconds_mono [OF later(1)] unfolding shanghai_date_def shanghai_second_of_day_def by linarith
      then show ?thesis
        using shanghai_second_of_day_range [of now] shanghai_second_of_day_range [of now2] by (simp add: shanghai_minute_def hm_text_mono)
    qed
    moreover have "dget (flow_points s') (sy, ?day, ?minute, ''today'') \<noteq> None" using row by (simp add: fund_flow_periods_def)
    ultimately show ?thesis by (auto simp: grouped_minutes_get not_less)
  qed
  moreover have "minute \<le> ?minute" if "minute \<in> grouped_minutes s' sy ?day (Some now2)" for minute
    using that until by (auto simp: grouped_minutes_get)
  ultimately obtain rest where minutes: "rev (sorted_list_of_set (grouped_minutes s' sy ?day (Some now2))) = ?minute # rest"
    using newest_first [OF finite_grouped] by blast
  let ?rows = "minute_rows s' sy ?day ?minute"
  have names: "set (map fst ?rows) = set flow_period_names"
    unfolding minute_rows_keys
  proof (intro equalityI subsetI)
    show "p \<in> set flow_period_names" if "p \<in> {p. dget (flow_points s') (sy, ?day, ?minute, p) \<noteq> None}" for p
      using that until [of ?minute p] by simp
    show "p \<in> {p. dget (flow_points s') (sy, ?day, ?minute, p) \<noteq> None}" if "p \<in> set flow_period_names" for p
      using that row by (auto simp: period_unit)
  qed
  have rows: "dget ?rows p = Some \<lparr>row_fields = period_fields vs p u, row_captured = shanghai_isoformat now\<rparr>"
    if "(p, u) \<in> set fund_flow_periods" for p u using row [OF that] by (simp add: minute_rows_get)
  have complete: "rows_complete ?rows"
    unfolding rows_complete_def
    using names rows complete_fields(3) [OF assms(1)] by (auto simp: list_all_iff period_unit)
  have "row_captured (the (dget ?rows p)) = shanghai_isoformat now" if "p \<in> set (map fst ?rows)" for p
    using that rows unfolding names by (auto simp: period_unit)
  moreover have "map fst ?rows \<noteq> []" using names by (metis list.set(1) flow_period_names_def list.discI set_empty)
  ultimately have "set (map (\<lambda>p. row_captured (the (dget ?rows p))) (map fst ?rows)) = {shanghai_isoformat now}"
    by (rule set_map_const)
  then have captured: "Max (set (map (\<lambda>p. row_captured (the (dget ?rows p))) (map fst ?rows))) = shanghai_isoformat now" by simp
  have age: "sample_age now2 (shanghai_isoformat now) = Some (of_int (now2 - now) / 1000000)"
    using assms(3) later(1) by (rule sample_age_shanghai)
  have periods: "dget (map (\<lambda>p. (p, map (\<lambda>f. (f, field_of (row_fields (the (dget ?rows p))) f)) flow_fields)) flow_period_names) p
      = Some (period_fields vs p u)" if "(p, u) \<in> set fund_flow_periods" for p u
  proof -
    have "dget (map (\<lambda>p. (p, g p)) ps) p = (if p \<in> set ps then Some (g p) else None)" for g :: "string \<Rightarrow> fields" and ps
      by (induction ps) auto
    then show ?thesis using that rows [OF that] complete_fields(1) [OF assms(1) that] period_unit by auto
  qed
  have "shanghai_day now2 \<noteq> []" unfolding day shanghai_day_def date_text_def
    by (auto simp: pad_int_def zero_pad_def str_of_int_def split: prod.splits)
  then show ?thesis
    using complete captured age later(3) periods
    by (simp add: latest_fund_flow_snapshot_def day minutes Let_def)
qed

text \<open>
  C9: When the interface has given all the fund flows of a watched symbol during the session, a read within the freshness that
  follows on the same day is answered from the database with the same values, whatever the interface would say, and
  changes nothing.
\<close>

theorem recorded_flow_served:
  fixes sy :: string
  assumes "recorded_until now (fund_store S)"
    and "latest_fund_flow_snapshot (fund_store S) sy (Some (now, freshness)) (Some (shanghai_day now)) = None"
    and "complete_values (out_values (outcome_of_result r))" and "valid_time (now + hours 8)"
    and "now \<le> now2" and "shanghai_date now2 = shanghai_date now" and "of_int (now2 - now) / 1000000 \<le> freshness"
  defines "S' \<equiv> snd (first_read_direct freshness True True now sy (Inr r) S)"
  shows "\<exists>d. first_read_direct freshness True True now2 sy answer S' = (Inr d, S')
    \<and> list_all (\<lambda>k. out_values d k = out_values (outcome_of_result r) k) flow_value_kinds"
proof -
  let ?s = "snd (record_fund_flow sy (shanghai_day now) (shanghai_minute now) (sample_of_values (out_values (outcome_of_result r)))
      (shanghai_isoformat now) (fund_store S))"
  have S': "fund_store S' = ?s" using assms(2) by (simp add: S'_def first_read_direct_def Let_def)
  obtain h where h: "latest_fund_flow_snapshot ?s sy (Some (now2, freshness)) (Some (shanghai_day now2)) = Some h"
    "\<forall>p u. (p, u) \<in> set fund_flow_periods \<longrightarrow> dget (sample_periods h) p = Some (period_fields (out_values (outcome_of_result r)) p u)"
    using newest_recorded [OF assms(3,1,4-7)] by blast
  then have "list_all (\<lambda>k. out_values (history_outcome h) k = out_values (outcome_of_result r) k) flow_value_kinds"
    by (intro history_values [OF assms(3)]) simp
  moreover have "first_read_direct freshness True True now2 sy answer S' = (Inr (history_outcome h), S')"
    using h(1) by (simp add: first_read_direct_def S' Let_def)
  ultimately show ?thesis by blast
qed

text \<open>At half past nine on the second of January 2024, and a minute later.\<close>

theorem recorded_flow_served_witness:
  "\<exists>d. fst (first_read_direct 120 True True (1704159060 * usec_per_sec) ''600000'' (Inl OtherFailure)
      (snd (first_read_direct 120 True True (1704159000 * usec_per_sec) ''600000'' (Inr (PlainValues (\<lambda>_. Some ''1'')))
        \<lparr>fund_store = \<lparr>flow_points = [], flow_states = []\<rparr>, closed_fallbacks = []\<rparr>))) = Inr d
     \<and> out_values d MAIN_FLOW_TODAY_NET = Some ''1''"
proof -
  let ?S = "\<lparr>fund_store = \<lparr>flow_points = [], flow_states = []\<rparr>, closed_fallbacks = []\<rparr>" and ?r = "PlainValues (\<lambda>_. Some ''1'')"
  let ?t = "1704159000 * usec_per_sec"
  have "recorded_until ?t (fund_store ?S)" by (simp add: recorded_until_def)
  moreover have "latest_fund_flow_snapshot (fund_store ?S) ''600000'' (Some (?t, 120)) (Some (shanghai_day ?t)) = None"
    by (simp add: latest_fund_flow_snapshot_def grouped_minutes_def available_fund_flow_dates_def)
  moreover have "complete_values (out_values (outcome_of_result ?r))"
    by (simp add: complete_values_def outcome_of_result_def sample_simps)
  moreover have "valid_time (?t + hours 8)" by code_simp
  moreover have "?t \<le> 1704159060 * usec_per_sec" "shanghai_date (1704159060 * usec_per_sec) = shanghai_date ?t"
    "of_int (1704159060 * usec_per_sec - ?t) / 1000000 \<le> (120 :: rat)"
    by (simp_all add: usec_per_sec_def shanghai_date_def shanghai_seconds_def)
  ultimately obtain d where "first_read_direct 120 True True (1704159060 * usec_per_sec) ''600000'' (Inl OtherFailure)
      (snd (first_read_direct 120 True True ?t ''600000'' (Inr ?r) ?S))
      = (Inr d, snd (first_read_direct 120 True True ?t ''600000'' (Inr ?r) ?S))"
    "list_all (\<lambda>k. out_values d k = out_values (outcome_of_result ?r) k) flow_value_kinds"
    using recorded_flow_served [of ?t ?S "''600000''" 120 ?r "1704159060 * usec_per_sec" "Inl OtherFailure"] by blast
  then show ?thesis
    by (intro exI [of _ d]) (simp add: flow_value_kinds_def fund_flow_periods_def fund_flow_metrics_def outcome_of_result_def)
qed

end
