(* ===== verification/Symbol_Cache.thy ===== *)
theory Symbol_Cache
  imports Frida_Source Text_Ops
begin

text \<open>
  \<open>level2_service/symbol_cache.py\<close>: the two caches of verified securities behind one interface. The client of Redis is a
  parameter, the functions of its two commands.
\<close>

section \<open>The interface\<close>

text \<open>\<open>SymbolLookupCache\<close>: what was set is found under its symbol, if it can be kept, and nothing else changes.\<close>

locale symbol_cache =
  fixes lookup_get :: "'s \<Rightarrow> string \<Rightarrow> symbol_lookup option"
    and lookup_set :: "symbol_lookup \<Rightarrow> 's \<Rightarrow> 's"
    and keepable :: "symbol_lookup \<Rightarrow> bool"
    and cache_ok :: "'s \<Rightarrow> bool"
  assumes get_set: "cache_ok s \<Longrightarrow> keepable l \<Longrightarrow> lookup_get (lookup_set l s) (lookup_symbol l) = Some l"
    and get_other: "cache_ok s \<Longrightarrow> sy \<noteq> lookup_symbol l \<Longrightarrow> lookup_get (lookup_set l s) sy = lookup_get s sy"
    and get_symbol: "cache_ok s \<Longrightarrow> lookup_get s sy = Some l \<Longrightarrow> lookup_symbol l = sy"
    and set_ok: "cache_ok s \<Longrightarrow> cache_ok (lookup_set l s)"
begin

text \<open>After any writes of lookups that can be kept, a symbol has the last one written for it, or what it had before.\<close>

lemma get_writes:
  assumes "cache_ok s" "list_all keepable ls"
  shows "lookup_get (fold lookup_set ls s) sy =
    (case find (\<lambda>l. lookup_symbol l = sy) (rev ls) of Some l \<Rightarrow> Some l | None \<Rightarrow> lookup_get s sy)"
  using assms
proof (induction ls arbitrary: s)
  case (Cons l ls)
  have "find P (xs @ [x]) = (case find P xs of Some y \<Rightarrow> Some y | None \<Rightarrow> if P x then Some x else None)" for P xs and x :: symbol_lookup
    by (induction xs) auto
  then show ?case
    using Cons.IH [of "lookup_set l s"] Cons.prems get_set [of s l] get_other [of s sy l] set_ok [of s l]
    by (auto split: option.split)
qed simp

lemma writes_ok: "cache_ok s \<Longrightarrow> cache_ok (fold lookup_set ls s)"
  by (induction ls arbitrary: s) (auto simp: set_ok)

end

section \<open>In memory\<close>

definition memory_get :: "(string, symbol_lookup) dict \<Rightarrow> string \<Rightarrow> symbol_lookup option" where
  "memory_get s sy = dget s sy"

definition memory_set :: "symbol_lookup \<Rightarrow> (string, symbol_lookup) dict \<Rightarrow> (string, symbol_lookup) dict" where
  "memory_set l s = dset (lookup_symbol l) l s"

definition memory_ok :: "(string, symbol_lookup) dict \<Rightarrow> bool" where
  "memory_ok s \<longleftrightarrow> list_all (\<lambda>(sy, l). lookup_symbol l = sy) s"

lemma memory_ok_dset: "memory_ok s \<Longrightarrow> memory_ok (dset (lookup_symbol l) l s)"
  by (induction s) (auto simp: memory_ok_def)

interpretation memory: symbol_cache memory_get memory_set "\<lambda>_. True" memory_ok
proof unfold_locales
  show "lookup_symbol l = sy" if "memory_ok s" "memory_get s sy = Some l" for s sy l
    using that by (auto simp: memory_ok_def memory_get_def list_all_iff dest!: dget_SomeD)
qed (simp_all add: memory_get_def memory_set_def memory_ok_dset)

section \<open>In Redis\<close>

text \<open>\<open>_optional_text\<close>\<close>

definition optional_text :: "(json \<Rightarrow> string) \<Rightarrow> json \<Rightarrow> string option" where
  "optional_text repr_text j =
     (if j = JNull then None else let t = strip (py_str repr_text j) in if t = [] then None else Some t)"

definition symbol_key :: "string \<Rightarrow> string" where
  "symbol_key sy = ''ths:symbols:'' @ sy"

definition symbol_document :: "symbol_lookup \<Rightarrow> json" where
  "symbol_document l =
     JObj [(''symbol'', JStr (lookup_symbol l)), (''name'', JStr (lookup_name l)), (''market'', JStr (lookup_market l)),
       (''market_label'', jstr_opt (lookup_label l)), (''securities_code'', jstr_opt (lookup_securities_code l))]"

definition lookup_of_document :: "(json \<Rightarrow> string) \<Rightarrow> json \<Rightarrow> symbol_lookup option" where
  "lookup_of_document repr_text j =
     (case j of JObj d \<Rightarrow> do {
        sy \<leftarrow> dget d ''symbol'';
        name \<leftarrow> dget d ''name'';
        market \<leftarrow> dget d ''market'';
        Some \<lparr>lookup_symbol = py_str repr_text sy, lookup_name = py_str repr_text name, lookup_market = py_str repr_text market,
          lookup_label = optional_text repr_text (jget_or j ''market_label'' JNull),
          lookup_securities_code = optional_text repr_text (jget_or j ''securities_code'' JNull)\<rparr>
      }
      | _ \<Rightarrow> None)"

text \<open>\<open>get\<close>: \<open>raw\<close> is the answer of the client, whose bytes are the text; a document that is not the symbol's is none.\<close>

definition decoded_lookup :: "(json \<Rightarrow> string) \<Rightarrow> string \<Rightarrow> string \<Rightarrow> symbol_lookup option" where
  "decoded_lookup repr_text sy raw = do {
     payload \<leftarrow> json_loads raw;
     l \<leftarrow> lookup_of_document repr_text payload;
     (if lookup_symbol l \<noteq> sy \<or> strip (lookup_name l) = [] then None
      else if market_code_for_symbol (lookup_symbol l) \<noteq> Some (lookup_market l) then None
      else Some l)
   }"

definition redis_get :: "(json \<Rightarrow> string) \<Rightarrow> ('c \<Rightarrow> string \<Rightarrow> string option) \<Rightarrow> 'c \<Rightarrow> string \<Rightarrow> symbol_lookup option" where
  "redis_get repr_text client_get c sy = Option.bind (client_get c (symbol_key sy)) (decoded_lookup repr_text sy)"

definition redis_set :: "(string \<Rightarrow> string \<Rightarrow> 'c \<Rightarrow> 'c) \<Rightarrow> symbol_lookup \<Rightarrow> 'c \<Rightarrow> 'c" where
  "redis_set client_set l c = client_set (symbol_key (lookup_symbol l)) (json_dumps (symbol_document l)) c"

text \<open>The lookups of the application: a security of a known market with a name, and texts that are stripped.\<close>

definition plain_option :: "string option \<Rightarrow> bool" where
  "plain_option t \<longleftrightarrow> (case t of None \<Rightarrow> True | Some s \<Rightarrow> strip s = s \<and> s \<noteq> [])"

definition verified_lookup :: "symbol_lookup \<Rightarrow> bool" where
  "verified_lookup l \<longleftrightarrow>
     market_code_for_symbol (lookup_symbol l) = Some (lookup_market l) \<and> strip (lookup_name l) \<noteq> []
     \<and> plain_option (lookup_label l) \<and> plain_option (lookup_securities_code l)"

lemma optional_text_plain: "plain_option t \<Longrightarrow> optional_text repr_text (jstr_opt t) = t"
  by (cases t) (simp_all add: plain_option_def optional_text_def jstr_opt_def py_str_def Let_def)

lemma symbol_document_round: "verified_lookup l \<Longrightarrow> decoded_lookup repr_text (lookup_symbol l) (json_dumps (symbol_document l)) = Some l"
proof -
  assume l: "verified_lookup l"
  have "writable (symbol_document l)" by (simp add: symbol_document_def jstr_opt_def split: option.split)
  then have j: "json_loads (json_dumps (symbol_document l)) = Some (symbol_document l)" by (rule json_round_trip)
  have "lookup_of_document repr_text (symbol_document l) = Some l"
    using l by (simp add: lookup_of_document_def symbol_document_def verified_lookup_def optional_text_plain py_str_def jget_or_def)
  then show ?thesis using l by (simp only: decoded_lookup_def j bind.bind_lunit) (simp add: verified_lookup_def)
qed

text \<open>What the client promises: a key has the text that was set last.\<close>

locale redis_strings =
  fixes client_get :: "'c \<Rightarrow> string \<Rightarrow> string option"
    and client_set :: "string \<Rightarrow> string \<Rightarrow> 'c \<Rightarrow> 'c"
  assumes client_get_set: "client_get (client_set k v c) k' = (if k' = k then Some v else client_get c k')"

sublocale redis_strings \<subseteq> redis: symbol_cache "redis_get repr_text client_get" "redis_set client_set" verified_lookup "\<lambda>_. True"
  for repr_text
proof unfold_locales
  show "redis_get repr_text client_get (redis_set client_set l s) (lookup_symbol l) = Some l" if "verified_lookup l" for s l
    using symbol_document_round [OF that] by (simp add: redis_get_def redis_set_def client_get_set del: json_dumps_simps)
  show "redis_get repr_text client_get (redis_set client_set l s) sy = redis_get repr_text client_get s sy"
    if "sy \<noteq> lookup_symbol l" for s sy l
    using that by (simp add: redis_get_def redis_set_def client_get_set symbol_key_def)
  show "lookup_symbol l = sy" if "redis_get repr_text client_get s sy = Some l" for s sy l
    using that by (auto simp: redis_get_def decoded_lookup_def bind_eq_Some_conv split: if_splits)
qed simp

context redis_strings
begin

lemma redis_writes:
  assumes "list_all verified_lookup ls"
  shows "redis_get repr_text client_get (fold (redis_set client_set) ls c) sy =
    (case find (\<lambda>l. lookup_symbol l = sy) (rev ls) of Some l \<Rightarrow> Some l | None \<Rightarrow> redis_get repr_text client_get c sy)"
  using redis.get_writes [OF TrueI assms] .

end

interpretation dict_client: redis_strings dget dset
  by unfold_locales simp

section \<open>Properties\<close>

definition demo_lookup :: symbol_lookup where
  "demo_lookup = \<lparr>lookup_symbol = ''600000'', lookup_name = ''Bank'', lookup_market = ''17'', lookup_label = None,
     lookup_securities_code = None\<rparr>"

text \<open>
  C38: The cache in Redis gives back, for each symbol, the last verified lookup that was set, over any client whose keys have the
  text set last; nothing else is ever found under a symbol.
\<close>

theorem redis_cache_agrees:
  assumes "\<And>k v c k'. client_get (client_set k v c) k' = (if k' = k then Some v else client_get c k')"
    and "list_all verified_lookup ls" and "\<And>k. client_get c k = None"
  shows "redis_get repr_text client_get (fold (redis_set client_set) ls c) sy = memory_get (fold memory_set ls []) sy"
proof -
  have "redis_strings client_get client_set" by (rule redis_strings.intro) (rule assms(1))
  from redis_strings.redis_writes [OF this assms(2)]
  have "redis_get repr_text client_get (fold (redis_set client_set) ls c) sy = find (\<lambda>l. lookup_symbol l = sy) (rev ls)"
    by (simp add: redis_get_def assms(3) split: option.split)
  moreover have "memory_get (fold memory_set ls []) sy = find (\<lambda>l. lookup_symbol l = sy) (rev ls)"
    using memory.get_writes [of "[]" ls sy] by (simp add: memory_ok_def memory_get_def list_all_iff split: option.split)
  ultimately show ?thesis by simp
qed

theorem redis_cache_agrees_witness:
  "redis_get (\<lambda>_. []) dget (fold (redis_set dset) [demo_lookup] []) ''600000'' = Some demo_lookup"
proof -
  have "market_code_for_symbol ''600000'' = Some ''17''" "strip ''Bank'' \<noteq> []" by code_simp+
  then have "list_all verified_lookup [demo_lookup]" by (simp add: verified_lookup_def demo_lookup_def plain_option_def)
  then show ?thesis
    by (subst redis_cache_agrees) (simp_all add: memory_get_def memory_set_def demo_lookup_def)
qed

end
