(* ===== verification/Research_Replay.thy ===== *)
theory Research_Replay
  imports Doubles Calendar "HOL-Library.Product_Lexorder"
begin

text \<open>
  \<open>level2_service/research_replay.py\<close>: the MACD with settings, the markers of rules over the points of a day, and the
  replay of markers. A point and a rule are dictionaries of JSON values; None is the exception of a value of the wrong
  kind. The texts of infinities and of NaN, which \<open>float\<close> reads, are not modelled.
\<close>

section \<open>MACD\<close>

text \<open>\<open>_ema\<close>\<close>

fun replay_ema_loop :: "rat \<Rightarrow> rat \<Rightarrow> rat list \<Rightarrow> rat list" where
  "replay_ema_loop alpha prev [] = []"
| "replay_ema_loop alpha prev (v # vs) =
     (let e = fadd (fmul alpha v) (fmul (fsub 1 alpha) prev) in e # replay_ema_loop alpha e vs)"

definition replay_ema :: "rat list \<Rightarrow> nat \<Rightarrow> rat list" where
  "replay_ema vs period =
     (case vs of [] \<Rightarrow> [] | v # rest \<Rightarrow> v # replay_ema_loop (fdiv 2 (of_nat (period + 1))) v rest)"

text \<open>\<open>round(x, 6)\<close>\<close>

definition round6 :: "rat \<Rightarrow> rat" where
  "round6 x = double (of_int (half_even (x * 10 ^ 6)) / 10 ^ 6)"

record macd_settings =
  macd_short :: int
  macd_long :: int
  macd_signal_span :: int
  marker_threshold :: rat

record macd_row =
  row_diff :: rat
  row_dea :: rat
  row_macd :: rat

text \<open>\<open>calculate_macd\<close>; None is its \<open>ValueError\<close>.\<close>

definition calculate_macd :: "rat list \<Rightarrow> macd_settings \<Rightarrow> macd_row list option" where
  "calculate_macd prices settings =
     (if prices = [] then Some []
      else if macd_short settings < 1 \<or> macd_long settings \<le> macd_short settings \<or> macd_signal_span settings < 1 then None
      else
        (let diff = map2 fsub (replay_ema prices (nat (macd_short settings))) (replay_ema prices (nat (macd_long settings)));
             signal = replay_ema diff (nat (macd_signal_span settings))
         in Some (map2 (\<lambda>d s. \<lparr>row_diff = round6 d, row_dea = round6 s, row_macd = round6 (fmul 2 (fsub d s))\<rparr>) diff signal)))"

section \<open>Conditions\<close>

type_synonym json_dict = "(string, json) dict"

definition value_of :: "json_dict \<Rightarrow> string \<Rightarrow> json" where
  "value_of d k = (case dget d k of Some v \<Rightarrow> v | None \<Rightarrow> JNull)"

text \<open>\<open>_number\<close>\<close>

definition float_value :: "json \<Rightarrow> rat option" where
  "float_value j =
     (case j of JStr s \<Rightarrow> map_option double (decimal_of_text (filter (\<lambda>c. c \<noteq> CHR '','') s))
      | JNum r \<Rightarrow> Some (double r) | JFloat r \<Rightarrow> Some r | _ \<Rightarrow> None)"

text \<open>\<open>str(value or "")\<close>; \<open>repr_text\<close> is \<open>str\<close> of a value that is no text.\<close>

definition text_or_empty :: "(json \<Rightarrow> string) \<Rightarrow> json \<Rightarrow> string" where
  "text_or_empty repr_text j = (if falsy j then [] else py_str repr_text j)"

text \<open>\<open>_minute\<close>\<close>

definition minute_of :: "(json \<Rightarrow> string) \<Rightarrow> json \<Rightarrow> nat option" where
  "minute_of repr_text j =
     (let digits = filter is_digit (text_or_empty repr_text j) in
      if length digits < 4 then None else Some (dec_val (take 2 digits) * 60 + dec_val (take 2 (drop 2 digits))))"

text \<open>\<open>_macd_signal\<close>\<close>

definition float_or_zero :: "json_dict \<Rightarrow> string \<Rightarrow> rat" where
  "float_or_zero p k = (case float_value (value_of p k) of Some v \<Rightarrow> v | None \<Rightarrow> 0)"

definition macd_delta :: "json_dict \<Rightarrow> rat" where
  "macd_delta p = fsub (float_or_zero p ''diff'') (float_or_zero p ''dea'')"

definition macd_signal :: "json_dict list \<Rightarrow> nat \<Rightarrow> rat \<Rightarrow> string option" where
  "macd_signal points i threshold =
     (if i = 0 then None
      else
        (let previous = macd_delta (points ! (i - 1)); current = macd_delta (points ! i) in
         if \<bar>float_or_zero (points ! i) ''macd''\<bar> < threshold then None
         else if previous \<le> 0 \<and> 0 < current then Some ''red''
         else if previous \<ge> 0 \<and> 0 > current then Some ''green''
         else None))"

text \<open>\<open>_flow_change\<close>: the last point of before the minutes, or else the first that has a time.\<close>

fun prior_point :: "(json \<Rightarrow> string) \<Rightarrow> int \<Rightarrow> json_dict list \<Rightarrow> json_dict option \<Rightarrow> json_dict option" where
  "prior_point repr_text target [] prior = prior"
| "prior_point repr_text target (c # cs) prior =
     (case minute_of repr_text (value_of c ''time'') of
        None \<Rightarrow> prior_point repr_text target cs prior
      | Some m \<Rightarrow> if int m \<le> target then Some c else prior_point repr_text target cs (Some c))"

definition flow_change :: "(json \<Rightarrow> string) \<Rightarrow> json_dict list \<Rightarrow> nat \<Rightarrow> int \<Rightarrow> string \<Rightarrow> rat option" where
  "flow_change repr_text points i minutes field = do {
     current \<leftarrow> float_value (value_of (points ! i) field);
     minute \<leftarrow> minute_of repr_text (value_of (points ! i) ''time'');
     prior \<leftarrow> prior_point repr_text (int minute - minutes) (rev (take i points)) None;
     value \<leftarrow> float_value (value_of prior field);
     (if value = 0 then None else Some (fmul (fdiv (fsub current value) \<bar>value\<bar>) 100))
   }"

text \<open>\<open>_condition_matches\<close>; a comparison with a value that is missing fails.\<close>

definition compare_value :: "json_dict \<Rightarrow> rat option \<Rightarrow> (rat \<Rightarrow> rat \<Rightarrow> bool) \<Rightarrow> bool" where
  "compare_value condition v compare =
     (case (v, float_value (value_of condition ''value'')) of (Some x, Some target) \<Rightarrow> compare x target | _ \<Rightarrow> False)"

definition threshold_compare :: "json_dict \<Rightarrow> rat \<Rightarrow> rat \<Rightarrow> bool" where
  "threshold_compare condition x target =
     (if value_of condition ''direction'' = JStr ''lte'' then x \<le> target else x \<ge> target)"

definition condition_minutes :: "json_dict \<Rightarrow> int option" where
  "condition_minutes condition =
     (let j = value_of condition ''minutes'' in map_option (max 1) (py_int (if falsy j then JNum 1 else j)))"

definition condition_matches ::
  "(json \<Rightarrow> string) \<Rightarrow> string \<Rightarrow> json_dict list \<Rightarrow> rat \<Rightarrow> nat \<Rightarrow> json_dict \<Rightarrow> bool option" where
  "condition_matches repr_text sy points threshold i condition =
     (let kind = text_or_empty repr_text (value_of condition ''type''); current = points ! i in
      if kind = ''code_filter'' then
        map_option (\<lambda>codes. sy \<in> set (map (py_str repr_text) codes))
          (jiter (case dget condition ''codes'' of None \<Rightarrow> JArr [] | Some v \<Rightarrow> v))
      else if kind = ''price_threshold'' then
        Some (compare_value condition (float_value (value_of current ''price'')) (threshold_compare condition))
      else if kind = ''change_pct'' then
        Some (compare_value condition (float_value (value_of current ''change_pct'')) (threshold_compare condition))
      else if kind = ''macd_signal'' then
        Some (let wanted = (let j = value_of condition ''signal'' in if falsy j then ''both'' else py_str repr_text j) in
          case macd_signal points i threshold of None \<Rightarrow> False | Some s \<Rightarrow> wanted \<in> {''both'', s})
      else if kind = ''flow_change_pct'' then
        map_option (\<lambda>minutes.
          compare_value condition
            (flow_change repr_text points i minutes (if value_of condition ''flow'' = JStr ''mid'' then ''mid_order_net'' else ''large_order_net''))
            (\<lambda>change target. if value_of condition ''direction'' = JStr ''decrease'' then change \<le> - target else change \<ge> target))
          (condition_minutes condition)
      else Some False)"

section \<open>Markers\<close>

record replay_marker =
  marker_index :: nat
  marker_time :: string
  marker_price :: rat
  marker_side :: string
  marker_rule :: string
  marker_title :: string

text \<open>The conditions of a rule that are dictionaries; None when they cannot be iterated.\<close>

definition rule_conditions :: "json_dict \<Rightarrow> json_dict list option" where
  "rule_conditions rule =
     map_option (List.map_filter (\<lambda>c. case c of JObj d \<Rightarrow> Some d | _ \<Rightarrow> None))
       (jiter (case dget rule ''conditions'' of None \<Rightarrow> JArr [] | Some v \<Rightarrow> v))"

definition rule_side :: "json_dict \<Rightarrow> string" where
  "rule_side rule = (if value_of rule ''side'' = JStr ''sell'' then ''sell'' else ''buy'')"

text \<open>Whether the rule matches at a point.\<close>

definition rule_matches ::
  "(json \<Rightarrow> string) \<Rightarrow> string \<Rightarrow> json_dict list \<Rightarrow> rat \<Rightarrow> json_dict \<Rightarrow> json_dict list \<Rightarrow> nat \<Rightarrow> bool option" where
  "rule_matches repr_text sy points threshold rule conditions i =
     map_option (\<lambda>ms. if value_of rule ''joiner'' = JStr ''or'' then list_ex id ms else ms \<noteq> [] \<and> list_all id ms)
       (all_some (map (condition_matches repr_text sy points threshold i) conditions))"

text \<open>The title of a rule without one, in UTF-8.\<close>

definition default_rule_title :: string where
  "default_rule_title = map char_of [230 :: nat, 143, 144, 233, 134, 146]"

definition marker_at :: "(json \<Rightarrow> string) \<Rightarrow> json_dict list \<Rightarrow> json_dict \<Rightarrow> nat \<Rightarrow> rat \<Rightarrow> replay_marker" where
  "marker_at repr_text points rule i price =
     \<lparr>marker_index = i, marker_time = text_or_empty repr_text (value_of (points ! i) ''time''), marker_price = price,
      marker_side = rule_side rule, marker_rule = text_or_empty repr_text (value_of rule ''id''),
      marker_title = (let j = value_of rule ''title'' in if falsy j then default_rule_title else py_str repr_text j)\<rparr>"

type_synonym marker_key = "nat \<times> string \<times> string"

definition marker_key_of :: "replay_marker \<Rightarrow> marker_key" where
  "marker_key_of m = (marker_index m, marker_side m, marker_rule m)"

text \<open>The loop over the points of a rule; the accumulators are the keys seen and the markers.\<close>

fun rule_loop ::
  "(json \<Rightarrow> string) \<Rightarrow> string \<Rightarrow> json_dict list \<Rightarrow> rat \<Rightarrow> json_dict \<Rightarrow> json_dict list \<Rightarrow> nat list \<Rightarrow> replay_marker list \<Rightarrow>
   replay_marker list option" where
  "rule_loop repr_text sy points threshold rule conditions [] markers = Some markers"
| "rule_loop repr_text sy points threshold rule conditions (i # js) markers =
     (case rule_matches repr_text sy points threshold rule conditions i of
        None \<Rightarrow> None
      | Some False \<Rightarrow> rule_loop repr_text sy points threshold rule conditions js markers
      | Some True \<Rightarrow>
          (case float_value (value_of (points ! i) ''price'') of
             Some price \<Rightarrow>
               (let m = marker_at repr_text points rule i price in
                rule_loop repr_text sy points threshold rule conditions js
                  (if price \<le> 0 \<or> marker_key_of m \<in> marker_key_of ` set markers then markers else markers @ [m]))
           | None \<Rightarrow> rule_loop repr_text sy points threshold rule conditions js markers))"

fun rules_loop ::
  "(json \<Rightarrow> string) \<Rightarrow> string \<Rightarrow> json_dict list \<Rightarrow> rat \<Rightarrow> json_dict list \<Rightarrow> replay_marker list \<Rightarrow> replay_marker list option" where
  "rules_loop repr_text sy points threshold [] markers = Some markers"
| "rules_loop repr_text sy points threshold (rule # rules) markers =
     (if falsy (value_of rule ''enabled'') then rules_loop repr_text sy points threshold rules markers
      else case rule_conditions rule of None \<Rightarrow> None
      | Some conditions \<Rightarrow>
          (case rule_loop repr_text sy points threshold rule conditions [0..<length points] markers of None \<Rightarrow> None
           | Some markers' \<Rightarrow> rules_loop repr_text sy points threshold rules markers'))"

definition side_rank :: "string \<Rightarrow> nat" where
  "side_rank side = (if side = ''buy'' then 0 else 1)"

definition build_replay_markers ::
  "(json \<Rightarrow> string) \<Rightarrow> string \<Rightarrow> json_dict list \<Rightarrow> json_dict list \<Rightarrow> rat \<Rightarrow> replay_marker list option" where
  "build_replay_markers repr_text sy points rules threshold =
     map_option (sort_key (\<lambda>m. (marker_index m, side_rank (marker_side m)))) (rules_loop repr_text sy points threshold rules [])"

section \<open>Replay\<close>

record replay_state =
  held :: nat
  buy_cost :: rat
  sell_proceeds :: rat
  buy_count :: nat
  sell_count :: nat

definition initial_replay :: replay_state where
  "initial_replay = \<lparr>held = 0, buy_cost = 0, sell_proceeds = 0, buy_count = 0, sell_count = 0\<rparr>"

text \<open>One marker: a buy of a hundred shares, or a sale of all that is held.\<close>

definition sell_all :: "rat \<Rightarrow> replay_state \<Rightarrow> replay_state" where
  "sell_all price r =
     r\<lparr>sell_proceeds := fadd (sell_proceeds r) (fmul (of_nat (held r)) price), sell_count := sell_count r + 1, held := 0\<rparr>"

definition replay_marker_step :: "replay_marker \<Rightarrow> replay_state \<Rightarrow> replay_state" where
  "replay_marker_step m r =
     (if marker_price m \<le> 0 then r
      else if marker_side m = ''sell'' then (if held r = 0 then r else sell_all (marker_price m) r)
      else r\<lparr>held := held r + 100, buy_cost := fadd (buy_cost r) (fmul 100 (marker_price m)), buy_count := buy_count r + 1\<rparr>)"

text \<open>\<open>float(final.get("price", 0) or 0)\<close>, or 0 where it raises.\<close>

definition close_price :: "json_dict \<Rightarrow> rat" where
  "close_price p =
     (case value_of p ''price'' of JStr s \<Rightarrow> (case decimal_of_text s of Some v \<Rightarrow> double v | None \<Rightarrow> 0)
      | JNum r \<Rightarrow> double r | JFloat r \<Rightarrow> r | JBool True \<Rightarrow> 1 | _ \<Rightarrow> 0)"

record replay_performance =
  result_state :: replay_state
  profit :: rat
  formula_return_pct :: "rat option"
  forced_exit :: "(string \<times> rat) option"

definition calculate_replay_performance :: "(json \<Rightarrow> string) \<Rightarrow> replay_marker list \<Rightarrow> json_dict list \<Rightarrow> replay_performance" where
  "calculate_replay_performance repr_text markers points =
     (let ordered = sort_key (\<lambda>m. (marker_index m, side_rank (marker_side m), marker_time m)) markers;
          r = fold replay_marker_step ordered initial_replay;
          exit_price = (if held r = 0 \<or> points = [] then 0 else close_price (last points));
          r' = (if 0 < exit_price then sell_all exit_price r else r);
          time = (let j = value_of (last points) ''time'' in if falsy j then ''15:00'' else py_str repr_text j)
      in \<lparr>result_state = r', profit = fsub (sell_proceeds r') (buy_cost r'),
          formula_return_pct = (if buy_cost r' = 0 then None
            else Some (fmul (fsub (fdiv (sell_proceeds r') (buy_cost r')) 1) 100)),
          forced_exit = (if 0 < exit_price then Some (time, exit_price) else None)\<rparr>)"

end
