(* ===== verification/Research_Store.thy ===== *)
theory Research_Store
  imports Fund_History Research_Replay
begin

text \<open>
  \<open>SQLiteResearchStore\<close> of \<open>level2_service/research_store.py\<close>: the days and minutes of the monitored symbols, their status,
  the settings, and the events of pushes; the fund flows are \<open>Fund_History\<close>. A table is a dictionary from its primary key; a
  document that is stored as JSON is kept as the value it is read back as.
\<close>

section \<open>Tables\<close>

record research_day =
  day_name :: "string option"
  day_market :: string
  day_source :: "string option"
  day_values :: fields
  day_collected :: string

record research_row =
  point_values :: fields
  point_captured :: string

record research_store =
  research_days :: "(string \<times> string, research_day) dict"
  research_points :: "(string \<times> string \<times> string, research_row) dict"
  research_states :: "(string, flow_status) dict"
  research_macd :: "macd_settings option"
  research_push :: "json_dict option"
  push_events :: "string list"
  research_premium :: "json option"
  research_flows :: flow_store

definition point_columns :: "string list" where
  "point_columns = [''price'', ''average_price'', ''volume'', ''large_order_net'', ''large_order_amount'', ''retail_count'', ''macdfs'']"

definition day_columns :: "(string \<times> string) list" where
  "day_columns = [(''quote_price'', ''price''), (''quote_change_percent'', ''change_percent''), (''quote_open'', ''open''),
     (''quote_high'', ''high''), (''quote_low'', ''low''), (''quote_turnover_rate'', ''turnover_rate''),
     (''quote_volume'', ''volume''), (''quote_amount'', ''amount'')]"

section \<open>Snapshots\<close>

text \<open>\<open>_trade_date\<close>\<close>

definition snapshot_trade_date :: "snapshot \<Rightarrow> string" where
  "snapshot_trade_date s =
     (let digits = filter is_digit (case source_time s of None \<Rightarrow> [] | Some t \<Rightarrow> t) in
      if length digits \<ge> 8 then take 8 digits else shanghai_day (snap_collected_at s))"

text \<open>\<open>_series_lookup\<close>; the series of a snapshot are dictionaries with a list of points.\<close>

definition series_points :: "json option \<Rightarrow> json list" where
  "series_points series = (case Option.bind series (\<lambda>j. jget j ''points'') of Some (JArr ps) \<Rightarrow> ps | _ \<Rightarrow> [])"

definition series_lookup :: "(json \<Rightarrow> string) \<Rightarrow> snapshot \<Rightarrow> string \<Rightarrow> fields" where
  "series_lookup repr_text s key =
     fold (\<lambda>p found. case p of
         JObj d \<Rightarrow>
           if falsy (value_of d ''time'') then found
           else dset (py_str repr_text (value_of d ''time''))
             (if value_of d ''value'' = JNull then None else Some (py_str repr_text (value_of d ''value''))) found
       | _ \<Rightarrow> found)
       (series_points (dget (snap_series s) key)) []"

text \<open>The row of a day: a value that is missing keeps the stored one, and the source of a stored snapshot does not replace another.\<close>

definition coalesce :: "fields \<Rightarrow> fields \<Rightarrow> fields" where
  "coalesce stored given = map (\<lambda>(c, v). (c, if v \<noteq> None then v else field_of stored c)) given"

definition day_of_snapshot :: "snapshot \<Rightarrow> research_day" where
  "day_of_snapshot s =
     (let previous = field_of (quote s) ''previous_close'' in
      \<lparr>day_name = snap_name s, day_market = snap_market s, day_source = snap_source s,
       day_values = (''pre_close'', if previous = None \<or> previous = Some [] then field_of (quote s) ''pre_close'' else previous)
         # map (\<lambda>(col, name). (col, field_of (quote s) name)) day_columns,
       day_collected = isoformat (snap_collected_at s)\<rparr>)"

definition merge_day :: "research_day option \<Rightarrow> research_day \<Rightarrow> research_day" where
  "merge_day stored given =
     (case stored of None \<Rightarrow> given
      | Some d \<Rightarrow> given\<lparr>
          day_source := (if day_source given = Some ''MARKET_DATABASE'' \<and> day_source d \<noteq> None then day_source d else day_source given),
          day_values := coalesce (day_values d) (day_values given)\<rparr>)"

definition incoming_point :: "(json \<Rightarrow> string) \<Rightarrow> snapshot \<Rightarrow> timeshare_point \<Rightarrow> fields" where
  "incoming_point repr_text s p =
     [(''price'', tp_price p), (''average_price'', average_price p), (''volume'', tp_volume p)]
     @ map (\<lambda>key. (key, Option.bind (dget (series_lookup repr_text s key) (tp_time p)) id)) (drop 3 point_columns)"

definition merge_point :: "fields \<Rightarrow> research_row option \<Rightarrow> fields" where
  "merge_point given stored = coalesce (case stored of None \<Rightarrow> [] | Some r \<Rightarrow> point_values r) given"

definition point_changed :: "research_row option \<Rightarrow> fields \<Rightarrow> bool" where
  "point_changed stored merged =
     (case stored of None \<Rightarrow> True | Some r \<Rightarrow> list_ex (\<lambda>c. field_of (point_values r) c \<noteq> field_of merged c) point_columns)"

fun record_points ::
  "(json \<Rightarrow> string) \<Rightarrow> snapshot \<Rightarrow> string \<Rightarrow> timeshare_point list \<Rightarrow> (string \<times> string \<times> string, research_row) dict \<Rightarrow>
   string list \<times> (string \<times> string \<times> string, research_row) dict" where
  "record_points repr_text s day [] rows = ([], rows)"
| "record_points repr_text s day (p # ps) rows =
     (let key = (snap_symbol s, day, tp_time p);
          merged = merge_point (incoming_point repr_text s p) (dget rows key)
      in case record_points repr_text s day ps
                (dset key \<lparr>point_values = merged, point_captured = isoformat (snap_collected_at s)\<rparr> rows) of
           (changed, rows') \<Rightarrow> ((if point_changed (dget rows key) merged then [tp_time p] else []) @ changed, rows'))"

text \<open>\<open>record_snapshot\<close> gives the minutes that changed, each once and in order.\<close>

definition record_snapshot :: "(json \<Rightarrow> string) \<Rightarrow> snapshot \<Rightarrow> research_store \<Rightarrow> string list \<times> research_store" where
  "record_snapshot repr_text s r =
     (let day = snapshot_trade_date s; key = (snap_symbol s, day) in
      case record_points repr_text s day (timeshare s) (research_points r) of
        (changed, rows) \<Rightarrow>
          (sorted_list_of_set (set changed),
           r\<lparr>research_days := dset key (merge_day (dget (research_days r) key) (day_of_snapshot s)) (research_days r),
             research_points := rows,
             research_states := dset (snap_symbol s) \<lparr>latest_trade_date = Some day,
               latest_time = (if timeshare s = [] then None else Some (tp_time (last (timeshare s)))),
               last_sync_at = Some (isoformat (snap_collected_at s)), last_error = None\<rparr> (research_states r)\<rparr>))"

definition no_status :: flow_status where
  "no_status = \<lparr>latest_trade_date = None, latest_time = None, last_sync_at = None, last_error = None\<rparr>"

definition record_error :: "string \<Rightarrow> string \<Rightarrow> string \<Rightarrow> research_store \<Rightarrow> research_store" where
  "record_error sy code stamp r =
     (let st = (case dget (research_states r) sy of Some st \<Rightarrow> st | None \<Rightarrow> no_status) in
      r\<lparr>research_states := dset sy (st\<lparr>last_sync_at := Some stamp, last_error := Some code\<rparr>) (research_states r)\<rparr>)"

definition monitoring_status :: "research_store \<Rightarrow> string list \<Rightarrow> (string \<times> flow_status) list" where
  "monitoring_status r symbols =
     map (\<lambda>sy. (sy, case dget (research_states r) sy of Some st \<Rightarrow> st | None \<Rightarrow> no_status)) (sorted_list_of_set (set symbols))"

section \<open>Reading back\<close>

definition available_dates :: "research_store \<Rightarrow> string \<Rightarrow> string list" where
  "available_dates r sy = rev (sorted_list_of_set {day. (sy, day) \<in> set (map fst (research_days r))})"

text \<open>The minutes of a day in their order.\<close>

definition day_points :: "research_store \<Rightarrow> string \<Rightarrow> string \<Rightarrow> (string \<times> fields) list" where
  "day_points r sy day =
     sort_key (\<lambda>(minute, _). without_colons minute)
       (map (\<lambda>((_, _, minute), row). (minute, point_values row)) (filter (\<lambda>((sy', day', _), _). sy' = sy \<and> day' = day) (research_points r)))"

text \<open>\<open>ORDER BY trade_date DESC, minute DESC LIMIT 1\<close>\<close>

definition last_point :: "research_store \<Rightarrow> string \<Rightarrow> (string \<times> string \<times> fields) option" where
  "last_point r sy =
     (case rev (sorted_list_of_set {day. \<exists>minute. (sy, day, minute) \<in> set (map fst (research_points r))}) of
        [] \<Rightarrow> None
      | day # _ \<Rightarrow> (case day_points r sy day of [] \<Rightarrow> None | ps \<Rightarrow> Some (day, last ps)))"

text \<open>\<open>latest_market_enrichment\<close>\<close>

definition enrichment_columns :: "(metric_kind \<times> string \<times> string option) list" where
  "enrichment_columns = [(LARGE_ORDER_NET, ''large_order_net'', None), (LARGE_ORDER_AMOUNT, ''large_order_amount'', Some wan_unit),
     (RETAIL_COUNT, ''retail_count'', None), (MACDFS, ''macdfs'', None)]"

definition enrichment_series :: "(string \<times> fields) list \<Rightarrow> string \<Rightarrow> string option \<Rightarrow> json" where
  "enrichment_series points col unit =
     JObj [(''unit'', jstr_opt unit),
       (''points'', JArr (map (\<lambda>(minute, row). JObj [(''time'', JStr minute), (''value'', jstr_opt (field_of row col))])
          (filter (\<lambda>(_, row). field_of row col \<noteq> None) points)))]"

definition latest_market_enrichment :: "research_store \<Rightarrow> string \<Rightarrow> direct_outcome option" where
  "latest_market_enrichment r sy =
     (let fund = latest_fund_flow_snapshot (research_flows r) sy None None; point = last_point r sy;
          values = (case point of None \<Rightarrow> empty_metric_values
            | Some (_, _, row) \<Rightarrow> fold (\<lambda>(kind, col, _) vs. vs(kind := field_of row col)) enrichment_columns empty_metric_values);
          values' = (case fund of None \<Rightarrow> values
            | Some h \<Rightarrow> fold (\<lambda>(period, unit_kind). row_values (the (dget (sample_periods h) period)) period unit_kind)
                fund_flow_periods values)
      in case (case point of Some (day, _) \<Rightarrow> Some day | None \<Rightarrow> map_option sample_date fund) of
           None \<Rightarrow> None
         | Some day \<Rightarrow>
             Some \<lparr>out_values = values', out_errors = no_source_errors,
               out_series = map_of (map (\<lambda>(kind, col, unit). (kind, enrichment_series (day_points r sy day) col unit)) enrichment_columns),
               stored_trade_dates = [(''core_metrics'', map_option fst point), (''main_fund_flow'', map_option sample_date fund)]\<rparr>)"

text \<open>\<open>latest_market_snapshot\<close>; None also stands for the exception of an instant that cannot be read.\<close>

definition or_value :: "string option \<Rightarrow> string option \<Rightarrow> string option" where
  "or_value a b = (if a = None \<or> a = Some [] then b else a)"

definition stored_quote :: "fields \<Rightarrow> fields \<Rightarrow> (string, string option) dict" where
  "stored_quote d p =
     [(''price'', or_value (field_of d ''quote_price'') (field_of p ''price'')), (''change_percent'', field_of d ''quote_change_percent''),
      (''previous_close'', field_of d ''pre_close''), (''open'', field_of d ''quote_open''), (''high'', field_of d ''quote_high''),
      (''low'', field_of d ''quote_low''), (''turnover_rate'', field_of d ''quote_turnover_rate''),
      (''volume'', or_value (field_of d ''quote_volume'') (field_of p ''volume'')), (''amount'', field_of d ''quote_amount'')]"

definition latest_market_snapshot :: "research_store \<Rightarrow> string \<Rightarrow> snapshot option" where
  "latest_market_snapshot r sy =
     (case available_dates r sy of [] \<Rightarrow> None
      | day # _ \<Rightarrow>
          (case day_points r sy day of [] \<Rightarrow> None
           | ps \<Rightarrow>
               (let d = the (dget (research_days r) (sy, day)); point = last ps in
                map_option (\<lambda>t.
                  (new_snapshot sy (day_name d) (day_market d) t (stored_quote (day_values d) (snd point)))
                    \<lparr>source_time := Some (day @ '' '' @ fst point @ '':00''), snap_source := Some ''MARKET_DATABASE'',
                     snap_trade_dates := [(''core_metrics'', Some day)]\<rparr>)
                  (time_of_text (day_collected d)))))"

section \<open>Settings and series\<close>

definition valid_macd_settings :: "macd_settings \<Rightarrow> bool" where
  "valid_macd_settings m \<longleftrightarrow>
     1 \<le> macd_short m \<and> macd_short m < macd_long m \<and> macd_long m \<le> 200
     \<and> 1 \<le> macd_signal_span m \<and> macd_signal_span m \<le> 100 \<and> 0 \<le> marker_threshold m \<and> marker_threshold m \<le> 1"

definition save_macd_settings :: "macd_settings \<Rightarrow> research_store \<Rightarrow> research_store option" where
  "save_macd_settings m r = (if valid_macd_settings m then Some (r\<lparr>research_macd := Some m\<rparr>) else None)"

definition default_macd_settings :: macd_settings where
  "default_macd_settings = \<lparr>macd_short = 10, macd_long = 20, macd_signal_span = 5, marker_threshold = double (1 / 100000)\<rparr>"

definition stored_macd_settings :: "research_store \<Rightarrow> macd_settings" where
  "stored_macd_settings r = (case research_macd r of None \<Rightarrow> default_macd_settings | Some m \<Rightarrow> m)"

text \<open>\<open>read_series\<close>; None is its \<open>LookupError\<close>, or the exception of a price that is no number.\<close>

record research_series =
  series_day :: research_day
  series_date :: string
  series_dates :: "string list"
  series_settings :: macd_settings
  series_rows :: "json_dict list"

definition row_price :: "fields \<Rightarrow> rat option" where
  "row_price row = (case field_of row ''price'' of None \<Rightarrow> Some 0 | Some t \<Rightarrow> map_option double (decimal_of_text t))"

definition series_row :: "string \<Rightarrow> fields \<Rightarrow> macd_row \<Rightarrow> json_dict" where
  "series_row minute row m =
     (''time'', JStr minute) # map (\<lambda>c. (c, jstr_opt (field_of row c))) point_columns
     @ [(''diff'', JFloat (row_diff m)), (''dea'', JFloat (row_dea m)), (''macd'', JFloat (row_macd m))]"

definition read_series :: "research_store \<Rightarrow> string \<Rightarrow> string option \<Rightarrow> research_series option" where
  "read_series r sy trade_date =
     (case (case trade_date of Some d \<Rightarrow> [d] | None \<Rightarrow> available_dates r sy) of [] \<Rightarrow> None
      | day # _ \<Rightarrow> do {
          d \<leftarrow> dget (research_days r) (sy, day);
          (let ps = day_points r sy day; settings = stored_macd_settings r in
           if ps = [] then None
           else do {
             prices \<leftarrow> all_some (map (\<lambda>(_, row). row_price row) ps);
             macd \<leftarrow> calculate_macd prices settings;
             Some \<lparr>series_day = d, series_date = day, series_dates = available_dates r sy, series_settings = settings,
               series_rows = map2 (\<lambda>(minute, row). series_row minute row) ps macd\<rparr>
           })
        })"

section \<open>Events\<close>

definition claim_push_event :: "string \<Rightarrow> research_store \<Rightarrow> bool \<times> research_store" where
  "claim_push_event key r =
     (if key \<in> set (push_events r) then (False, r) else (True, r\<lparr>push_events := push_events r @ [key]\<rparr>))"

end
