(* ===== verification/Research_Push.thy ===== *)
theory Research_Push
  imports Research_Store Text_Ops
begin

text \<open>
  The pushes of the monitored rules: the push configuration of \<open>SQLiteResearchStore\<close> (\<open>level2_service/research_store.py\<close>),
  \<open>PushDispatcher\<close> (\<open>research_push.py\<close>), \<open>ResearchMonitor\<close> (\<open>research_monitor.py\<close>), and \<open>PremiumMonitor\<close>
  (\<open>premium_monitor.py\<close>, with the schedule of \<open>research_premium.py\<close>).
\<close>

section \<open>The configuration\<close>

text \<open>What \<open>save_push_config\<close> stores always has this shape.\<close>

record bark_group =
  group_id :: string
  group_name :: string
  group_url :: string
  device_key :: string

record sc3_config =
  sc3_enabled :: bool
  sc3_url :: string
  sc3_token :: string
  sc3_chat :: string
  sc3_mode :: string
  sc3_silent :: bool

record wecom_config =
  wecom_enabled :: bool
  wecom_url :: string
  wecom_news_url :: string
  corp_id :: string
  corp_secret :: string
  agent_id :: int
  to_user :: string
  to_party :: string
  to_tag :: string

record push_config =
  push_enabled :: bool
  premium_enabled :: bool
  bark_groups :: "bark_group list"
  sc3 :: sc3_config
  wecom :: wecom_config
  push_rules :: json

definition bark_default_url :: string where "bark_default_url = ''https://api.day.app''"
definition sc3_default_url :: string where "sc3_default_url = ''https://bot-go.apijia.cn''"
definition wecom_default_url :: string where "wecom_default_url = ''https://qyapi.weixin.qq.com''"

definition default_push_config :: push_config where
  "default_push_config = \<lparr>push_enabled = False, premium_enabled = True, bark_groups = [],
     sc3 = \<lparr>sc3_enabled = False, sc3_url = sc3_default_url, sc3_token = [], sc3_chat = [], sc3_mode = ''markdown'', sc3_silent = False\<rparr>,
     wecom = \<lparr>wecom_enabled = False, wecom_url = wecom_default_url, wecom_news_url = [], corp_id = [], corp_secret = [], agent_id = 0,
       to_user = ''@all'', to_party = [], to_tag = []\<rparr>,
     push_rules = JArr []\<rparr>"

text \<open>The document of the public view: a secret is replaced by whether there is one.\<close>

definition public_group :: "bark_group \<Rightarrow> json" where
  "public_group g =
     JObj [(''id'', JStr (group_id g)), (''name'', JStr (group_name g)), (''base_url'', JStr (group_url g)),
       (''device_key'', JStr []), (''device_key_configured'', JBool (device_key g \<noteq> []))]"

definition public_sc3 :: "sc3_config \<Rightarrow> json" where
  "public_sc3 c =
     JObj [(''enabled'', JBool (sc3_enabled c)), (''base_url'', JStr (sc3_url c)), (''token'', JStr []), (''chat_id'', JStr (sc3_chat c)),
       (''parse_mode'', JStr (sc3_mode c)), (''silent'', JBool (sc3_silent c)), (''token_configured'', JBool (sc3_token c \<noteq> []))]"

definition public_wecom :: "wecom_config \<Rightarrow> json" where
  "public_wecom c =
     JObj [(''enabled'', JBool (wecom_enabled c)), (''api_base_url'', JStr (wecom_url c)), (''news_base_url'', JStr (wecom_news_url c)),
       (''corp_id'', JStr (corp_id c)), (''corp_secret'', JStr []), (''agent_id'', JNum (of_int (agent_id c))), (''to_user'', JStr (to_user c)),
       (''to_party'', JStr (to_party c)), (''to_tag'', JStr (to_tag c)), (''corp_secret_configured'', JBool (corp_secret c \<noteq> []))]"

definition public_push_config :: "push_config \<Rightarrow> json_dict" where
  "public_push_config c =
     [(''enabled'', JBool (push_enabled c)), (''premium_push_enabled'', JBool (premium_enabled c)),
      (''bark_groups'', JArr (map public_group (bark_groups c))), (''sc3_bot'', public_sc3 (sc3 c)), (''wecom'', public_wecom (wecom c)),
      (''rules'', push_rules c)]"

text \<open>\<open>save_push_config\<close>: what comes in is any document; a value that is missing or empty has its default, and a secret that
  is missing or empty keeps the stored one. None is the exception of a value of the wrong kind.\<close>

definition value_or :: "json_dict \<Rightarrow> string \<Rightarrow> json \<Rightarrow> json" where
  "value_or d k dflt = (case dget d k of Some v \<Rightarrow> v | None \<Rightarrow> dflt)"

definition text_or :: "(json \<Rightarrow> string) \<Rightarrow> json \<Rightarrow> string \<Rightarrow> string" where
  "text_or repr_text j dflt = (if falsy j then dflt else py_str repr_text j)"

definition rstrip_slash :: "string \<Rightarrow> string" where
  "rstrip_slash s = rev (dropWhile (\<lambda>c. c = CHR ''/'') (rev s))"

definition stored_key :: "push_config \<Rightarrow> string \<Rightarrow> string" where
  "stored_key current gid =
     (case find (\<lambda>g. group_id g = gid \<and> group_id g \<noteq> []) (rev (bark_groups current)) of None \<Rightarrow> [] | Some g \<Rightarrow> device_key g)"

definition saved_group :: "(json \<Rightarrow> string) \<Rightarrow> push_config \<Rightarrow> nat \<Rightarrow> json_dict \<Rightarrow> bark_group" where
  "saved_group repr_text current i d =
     (let gid = text_or repr_text (value_of d ''id'') (''bark-'' @ str_of_int (int i + 1)) in
      \<lparr>group_id = gid, group_name = text_or repr_text (value_of d ''name'') gid,
       group_url = rstrip_slash (text_or repr_text (value_of d ''base_url'') bark_default_url),
       device_key = text_or repr_text (value_of d ''device_key'') (stored_key current gid)\<rparr>)"

definition saved_groups :: "(json \<Rightarrow> string) \<Rightarrow> push_config \<Rightarrow> json_dict \<Rightarrow> bark_group list option" where
  "saved_groups repr_text current incoming =
     (case dget incoming ''bark_groups'' of
        None \<Rightarrow> Some (map (\<lambda>(i, g). saved_group repr_text current i
          [(''id'', JStr (group_id g)), (''name'', JStr (group_name g)), (''base_url'', JStr (group_url g)), (''device_key'', JStr (device_key g))])
            (enumerate 0 (bark_groups current)))
      | Some j \<Rightarrow> do {
          items \<leftarrow> jiter j;
          groups \<leftarrow> all_some (map (\<lambda>item. case item of JObj d \<Rightarrow> Some d | _ \<Rightarrow> None) items);
          Some (map (\<lambda>(i, d). saved_group repr_text current i d) (enumerate 0 groups))
        })"

definition section_of :: "json_dict \<Rightarrow> string \<Rightarrow> json_dict option" where
  "section_of incoming k = (case value_or incoming k (JObj []) of JObj d \<Rightarrow> Some d | _ \<Rightarrow> None)"

definition saved_sc3 :: "(json \<Rightarrow> string) \<Rightarrow> sc3_config \<Rightarrow> json_dict \<Rightarrow> sc3_config" where
  "saved_sc3 repr_text c d =
     \<lparr>sc3_enabled = \<not> falsy (value_or d ''enabled'' (JBool (sc3_enabled c))),
      sc3_url = rstrip_slash (text_or repr_text (value_or d ''base_url'' (JStr (sc3_url c))) sc3_default_url),
      sc3_token = text_or repr_text (value_or d ''token'' (JStr (sc3_token c))) (sc3_token c),
      sc3_chat = text_or repr_text (value_or d ''chat_id'' (JStr (sc3_chat c))) [],
      sc3_mode = text_or repr_text (value_or d ''parse_mode'' (JStr (sc3_mode c))) ''markdown'',
      sc3_silent = \<not> falsy (value_or d ''silent'' (JBool (sc3_silent c)))\<rparr>"

definition saved_wecom :: "(json \<Rightarrow> string) \<Rightarrow> wecom_config \<Rightarrow> json_dict \<Rightarrow> wecom_config option" where
  "saved_wecom repr_text c d =
     (let agent = value_or d ''agent_id'' (JNum (of_int (agent_id c))) in
      map_option (\<lambda>agent.
        \<lparr>wecom_enabled = \<not> falsy (value_or d ''enabled'' (JBool (wecom_enabled c))),
         wecom_url = rstrip_slash (text_or repr_text (value_or d ''api_base_url'' (JStr (wecom_url c))) wecom_default_url),
         wecom_news_url = rstrip_slash (text_or repr_text (value_or d ''news_base_url'' (JStr (wecom_news_url c))) []),
         corp_id = text_or repr_text (value_or d ''corp_id'' (JStr (corp_id c))) [],
         corp_secret = text_or repr_text (value_or d ''corp_secret'' (JStr (corp_secret c))) (corp_secret c),
         agent_id = agent,
         to_user = text_or repr_text (value_or d ''to_user'' (JStr (to_user c))) ''@all'',
         to_party = text_or repr_text (value_or d ''to_party'' (JStr (to_party c))) [],
         to_tag = text_or repr_text (value_or d ''to_tag'' (JStr (to_tag c))) []\<rparr>)
        (if falsy agent then Some 0 else py_int agent))"

definition save_push_config :: "(json \<Rightarrow> string) \<Rightarrow> json_dict \<Rightarrow> push_config \<Rightarrow> push_config option" where
  "save_push_config repr_text incoming current = do {
     groups \<leftarrow> saved_groups repr_text current incoming;
     s \<leftarrow> section_of incoming ''sc3_bot'';
     w \<leftarrow> section_of incoming ''wecom'';
     wc \<leftarrow> saved_wecom repr_text (wecom current) w;
     Some \<lparr>push_enabled = \<not> falsy (value_or incoming ''enabled'' (JBool (push_enabled current))),
       premium_enabled = \<not> falsy (value_or incoming ''premium_push_enabled'' (JBool (premium_enabled current))),
       bark_groups = groups, sc3 = saved_sc3 repr_text (sc3 current) s, wecom = wc,
       push_rules = value_or incoming ''rules'' (push_rules current)\<rparr>
   }"

section \<open>The dispatcher\<close>

text \<open>What a channel needs to be sent to; \<open>posted\<close> says whether its requests succeed.\<close>

datatype push_channel = Bark bark_group | Sc3 | Wecom

definition strip_slashes :: "string \<Rightarrow> string" where
  "strip_slashes s = rstrip_slash (dropWhile (\<lambda>c. c = CHR ''/'') s)"

definition channel_ready :: "push_config \<Rightarrow> push_channel \<Rightarrow> bool" where
  "channel_ready c ch =
     (case ch of
        Bark g \<Rightarrow> strip_slashes (strip (device_key g)) \<noteq> []
      | Sc3 \<Rightarrow> strip (sc3_token (sc3 c)) \<noteq> [] \<and> strip (sc3_chat (sc3 c)) \<noteq> []
      | Wecom \<Rightarrow> strip (corp_id (wecom c)) \<noteq> [] \<and> strip (corp_secret (wecom c)) \<noteq> [])"

record push_report =
  bark_sent :: "(nat \<times> nat) option"
  sc3_sent :: bool
  wecom_sent :: bool
  push_errors :: "(string, string) dict"

text \<open>\<open>send\<close>; None is its \<open>ValueError\<close>, when there is nothing to send to.\<close>

definition push_send :: "push_config \<Rightarrow> (push_channel \<Rightarrow> bool) \<Rightarrow> push_report option" where
  "push_send c posted =
     (let delivered = (\<lambda>ch. channel_ready c ch \<and> posted ch);
          groups = (if push_enabled c then bark_groups c else []);
          name = (\<lambda>g. ''bark:'' @ (if group_id g = [] then ''bark'' else group_id g));
          errors = fold (\<lambda>g. if delivered (Bark g) then id else dset (name g) ''BARK_SEND_FAILED'') groups [];
          errors = (if sc3_enabled (sc3 c) \<and> \<not> delivered Sc3 then dset ''sc3_bot'' ''SC3_SEND_FAILED'' errors else errors);
          errors = (if wecom_enabled (wecom c) \<and> \<not> delivered Wecom then dset ''wecom'' ''WECOM_SEND_FAILED'' errors else errors);
          report = \<lparr>bark_sent = (if groups = [] then None else Some (length (filter (\<lambda>g. delivered (Bark g)) groups), length groups)),
            sc3_sent = (sc3_enabled (sc3 c) \<and> delivered Sc3), wecom_sent = (wecom_enabled (wecom c) \<and> delivered Wecom),
            push_errors = errors\<rparr>
      in if bark_sent report = None \<and> \<not> sc3_sent report \<and> \<not> wecom_sent report \<and> errors = [] then None else Some report)"

section \<open>The monitor\<close>

text \<open>An event that was sent: its key, the title and the text.\<close>

type_synonym sent_event = "string \<times> string \<times> string"

definition two_places :: "rat \<Rightarrow> string" where
  "two_places price = (if price < 0 then ''-'' else []) @ fixed_text 2 (nat (half_even (\<bar>price\<bar> * 100)))"

definition price_word :: string where
  "price_word = map char_of [228 :: nat, 187, 183, 230, 160, 188]"

definition event_key :: "string \<Rightarrow> string \<Rightarrow> replay_marker \<Rightarrow> string" where
  "event_key sy day m = sy @ '':'' @ day @ '':'' @ marker_time m @ '':'' @ marker_rule m"

definition event_text :: "string \<Rightarrow> replay_marker \<Rightarrow> string" where
  "event_text sy m = sy @ '' '' @ marker_time m @ '' '' @ price_word @ '' '' @ two_places (marker_price m)"

text \<open>The loop of \<open>_push_changed\<close>: each event is claimed before it is sent, and a send that raises ends the loop.\<close>

fun push_loop ::
  "push_config \<Rightarrow> (push_channel \<Rightarrow> bool) \<Rightarrow> string \<Rightarrow> string \<Rightarrow> string list \<Rightarrow> replay_marker list \<Rightarrow> research_store \<Rightarrow>
   sent_event list \<times> research_store" where
  "push_loop c posted sy day changed [] r = ([], r)"
| "push_loop c posted sy day changed (m # ms) r =
     (if marker_time m \<notin> set changed then push_loop c posted sy day changed ms r
      else
        (case claim_push_event (event_key sy day m) r of
           (False, r') \<Rightarrow> push_loop c posted sy day changed ms r'
         | (True, r') \<Rightarrow>
             if push_send c posted = None then ([], r')
             else (case push_loop c posted sy day changed ms r' of
               (sent, r'') \<Rightarrow> ((event_key sy day m, marker_title m, event_text sy m) # sent, r''))))"

definition rules_of :: "json \<Rightarrow> json_dict list option" where
  "rules_of j = Option.bind (jiter j) (\<lambda>items. all_some (map (\<lambda>item. case item of JObj d \<Rightarrow> Some d | _ \<Rightarrow> None) items))"

definition push_changed ::
  "(json \<Rightarrow> string) \<Rightarrow> push_config \<Rightarrow> (push_channel \<Rightarrow> bool) \<Rightarrow> string \<Rightarrow> string list \<Rightarrow> research_store \<Rightarrow>
   sent_event list \<times> research_store" where
  "push_changed repr_text c posted sy changed r =
     (case (do {
        series \<leftarrow> read_series r sy None;
        rules \<leftarrow> rules_of (push_rules c);
        markers \<leftarrow> build_replay_markers repr_text sy (series_rows series) rules (marker_threshold (series_settings series));
        Some (series_date series, markers)
      }) of
        None \<Rightarrow> ([], r)
      | Some (day, markers) \<Rightarrow> push_loop c posted sy day changed markers r)"

text \<open>One \<open>collect\<close> of \<open>poll_once\<close> with a dispatcher: the minutes that changed, what was sent, and the store.\<close>

definition monitor_collect ::
  "(json \<Rightarrow> string) \<Rightarrow> push_config \<Rightarrow> (push_channel \<Rightarrow> bool) \<Rightarrow> string \<Rightarrow> string \<Rightarrow> source_failure + snapshot \<Rightarrow> research_store \<Rightarrow>
   string list \<times> sent_event list \<times> research_store" where
  "monitor_collect repr_text c posted stamp sy refreshed r =
     (case refreshed of
        Inl f \<Rightarrow> ([], [], record_error sy (failure_code ''MARKET_QUOTE_UNAVAILABLE'' f) stamp r)
      | Inr s \<Rightarrow>
          (case record_snapshot repr_text s r of
             (changed, r') \<Rightarrow>
               if changed = [] then ([], [], r')
               else (case push_changed repr_text c posted sy changed r' of (sent, r'') \<Rightarrow> (changed, sent, r''))))"

section \<open>The premium of the funds\<close>

text \<open>\<open>premium_push_slot\<close>\<close>

definition premium_push_slot :: "time \<Rightarrow> string option" where
  "premium_push_slot now =
     (let minute = shanghai_minute_of_day now in
      if weekday (shanghai_date now) \<ge> 5 then None
      else if 9 * 60 + 10 \<le> minute \<and> minute \<le> 9 * 60 + 30 \<and> (minute - (9 * 60 + 10)) mod 5 = 0
        \<or> 9 * 60 + 31 \<le> minute \<and> minute \<le> 9 * 60 + 50
        \<or> 9 * 60 + 51 \<le> minute \<and> minute \<le> 11 * 60 + 30 \<and> (minute - (9 * 60 + 51)) mod 10 = 0
        \<or> 13 * 60 \<le> minute \<and> minute \<le> 15 * 60 \<and> (minute - 13 * 60) mod 10 = 0
      then Some (shanghai_minute now) else None)"

definition iso_day :: "date \<Rightarrow> string" where
  "iso_day d = (case civil_from_days d of (y, m, dd) \<Rightarrow> pad_int 4 y @ ''-'' @ pad_int 2 m @ ''-'' @ pad_int 2 dd)"

definition premium_key :: "time \<Rightarrow> string \<Rightarrow> string" where
  "premium_key now slot = ''premium:'' @ iso_day (shanghai_date now) @ '':'' @ slot"

text \<open>\<open>poll_once\<close> with the snapshot that was fetched; the result tells whether a push was attempted.\<close>

definition premium_poll :: "push_config \<Rightarrow> json \<Rightarrow> time \<Rightarrow> research_store \<Rightarrow> string option \<times> research_store" where
  "premium_poll c fetched now r =
     (let r = r\<lparr>research_premium := Some fetched\<rparr> in
      case premium_push_slot now of None \<Rightarrow> (None, r)
      | Some slot \<Rightarrow>
          if \<not> premium_enabled c then (None, r)
          else (case claim_push_event (premium_key now slot) r of
            (claimed, r') \<Rightarrow> (if claimed then Some (premium_key now slot) else None, r')))"

end
