(* ===== verification/Research_Properties.thy ===== *)
theory Research_Properties
  imports Research_Push
begin

text \<open>
  The properties of the research parts: the markers of rules over the minutes of a day, the conditions that stored minutes can
  meet, the push configuration, and the events that are pushed.
\<close>

section \<open>Markers\<close>

text \<open>A rule fires at a point when it is enabled, matches there, and the point has a positive price.\<close>

definition rule_key :: "(json \<Rightarrow> string) \<Rightarrow> json_dict \<Rightarrow> nat \<Rightarrow> marker_key" where
  "rule_key repr_text rule i = (i, rule_side rule, text_or_empty repr_text (value_of rule ''id''))"

definition has_price :: "json_dict \<Rightarrow> rat \<Rightarrow> bool" where
  "has_price p x \<longleftrightarrow> float_value (value_of p ''price'') = Some x \<and> 0 < x"

definition rule_fires ::
  "(json \<Rightarrow> string) \<Rightarrow> string \<Rightarrow> json_dict list \<Rightarrow> rat \<Rightarrow> json_dict \<Rightarrow> nat \<Rightarrow> bool" where
  "rule_fires repr_text sy points threshold rule i \<longleftrightarrow>
     \<not> falsy (value_of rule ''enabled'') \<and> i < length points \<and>
     (\<exists>cs x. rule_conditions rule = Some cs \<and> rule_matches repr_text sy points threshold rule cs i = Some True
       \<and> has_price (points ! i) x)"

definition marker_true :: "(json \<Rightarrow> string) \<Rightarrow> json_dict list \<Rightarrow> replay_marker \<Rightarrow> bool" where
  "marker_true repr_text points m \<longleftrightarrow>
     has_price (points ! marker_index m) (marker_price m)
     \<and> marker_time m = text_or_empty repr_text (value_of (points ! marker_index m) ''time'')"

lemma marker_at_key [simp]: "marker_key_of (marker_at repr_text points rule i x) = rule_key repr_text rule i"
  by (simp add: marker_key_of_def marker_at_def rule_key_def)

lemma marker_at_true: "has_price (points ! i) x \<Longrightarrow> marker_true repr_text points (marker_at repr_text points rule i x)"
  by (simp add: marker_true_def marker_at_def has_price_def)

lemma rule_loop_correct:
  assumes "rule_loop repr_text sy points threshold rule cs is ms = Some ms'"
    and "distinct (map marker_key_of ms)" "\<forall>m\<in>set ms. marker_true repr_text points m"
  shows "marker_key_of ` set ms' = marker_key_of ` set ms \<union> {rule_key repr_text rule i | i x. i \<in> set is
      \<and> rule_matches repr_text sy points threshold rule cs i = Some True \<and> has_price (points ! i) x}
    \<and> distinct (map marker_key_of ms') \<and> (\<forall>m\<in>set ms'. marker_true repr_text points m)"
  using assms
proof (induction "is" arbitrary: ms)
  case Nil
  then show ?case by simp
next
  case (Cons i js)
  show ?case
  proof (cases "rule_matches repr_text sy points threshold rule cs i = Some True \<and> (\<exists>x. has_price (points ! i) x)")
    case False
    then have "rule_loop repr_text sy points threshold rule cs js ms = Some ms'"
      using Cons.prems(1) by (auto simp: has_price_def split: option.splits bool.splits if_splits)
    from Cons.IH [OF this Cons.prems(2,3)] show ?thesis using False by auto
  next
    case True
    then obtain x where x: "rule_matches repr_text sy points threshold rule cs i = Some True" "has_price (points ! i) x" by blast
    define new where "new = (if rule_key repr_text rule i \<in> marker_key_of ` set ms then ms
      else ms @ [marker_at repr_text points rule i x])"
    have "rule_loop repr_text sy points threshold rule cs js new = Some ms'"
      using Cons.prems(1) x by (simp add: has_price_def new_def)
    moreover have "distinct (map marker_key_of new)" "\<forall>m\<in>set new. marker_true repr_text points m"
      using Cons.prems(2,3) marker_at_true [OF x(2)] by (auto simp: new_def)
    ultimately have *: "marker_key_of ` set ms' = marker_key_of ` set new \<union> {rule_key repr_text rule i | i x. i \<in> set js
        \<and> rule_matches repr_text sy points threshold rule cs i = Some True \<and> has_price (points ! i) x}
      \<and> distinct (map marker_key_of ms') \<and> (\<forall>m\<in>set ms'. marker_true repr_text points m)"
      by (rule Cons.IH)
    moreover have "marker_key_of ` set new = insert (rule_key repr_text rule i) (marker_key_of ` set ms)"
      by (auto simp: new_def)
    ultimately show ?thesis using x by auto
  qed
qed

lemma rules_loop_correct:
  assumes "rules_loop repr_text sy points threshold rules ms = Some ms'"
    and "distinct (map marker_key_of ms)" "\<forall>m\<in>set ms. marker_true repr_text points m"
  shows "marker_key_of ` set ms' = marker_key_of ` set ms \<union>
      {rule_key repr_text rule i | rule i. rule \<in> set rules \<and> rule_fires repr_text sy points threshold rule i}
    \<and> distinct (map marker_key_of ms') \<and> (\<forall>m\<in>set ms'. marker_true repr_text points m)"
  using assms
proof (induction rules arbitrary: ms)
  case Nil
  then show ?case by simp
next
  case (Cons rule rules)
  show ?case
  proof (cases "falsy (value_of rule ''enabled'')")
    case True
    then have "rules_loop repr_text sy points threshold rules ms = Some ms'" using Cons.prems(1) by simp
    from Cons.IH [OF this Cons.prems(2,3)] show ?thesis using True by (auto simp: rule_fires_def)
  next
    case False
    then obtain cs mid where mid: "rule_conditions rule = Some cs"
        "rule_loop repr_text sy points threshold rule cs [0..<length points] ms = Some mid"
        "rules_loop repr_text sy points threshold rules mid = Some ms'"
      using Cons.prems(1) by (auto split: option.splits)
    note first = rule_loop_correct [OF mid(2) Cons.prems(2,3)]
    note rest = Cons.IH [OF mid(3)] 
    have fires: "rule_fires repr_text sy points threshold rule i \<longleftrightarrow> i \<in> set [0..<length points] \<and>
        (\<exists>x. rule_matches repr_text sy points threshold rule cs i = Some True \<and> has_price (points ! i) x)" for i
      using False mid(1) by (auto simp: rule_fires_def)
    have "{rule_key repr_text r i | r i. r \<in> set (rule # rules) \<and> rule_fires repr_text sy points threshold r i}
      = {rule_key repr_text rule i | i. rule_fires repr_text sy points threshold rule i} \<union>
        {rule_key repr_text r i | r i. r \<in> set rules \<and> rule_fires repr_text sy points threshold r i}" by auto
    moreover have "{rule_key repr_text rule i | i. rule_fires repr_text sy points threshold rule i}
      = {rule_key repr_text rule i | i x. i \<in> set [0..<length points]
        \<and> rule_matches repr_text sy points threshold rule cs i = Some True \<and> has_price (points ! i) x}"
      unfolding fires by auto
    ultimately show ?thesis using first rest by auto
  qed
qed

text \<open>
  C19: The markers are exactly those of the rules that fire, one for each point, side and rule, with the price and the time of
  the point, in the order of the points with the buys first.
\<close>

theorem markers_follow_rules:
  assumes "build_replay_markers repr_text sy points rules threshold = Some ms"
  shows "marker_key_of ` set ms =
      {rule_key repr_text rule i | rule i. rule \<in> set rules \<and> rule_fires repr_text sy points threshold rule i}
    \<and> distinct (map marker_key_of ms)
    \<and> (\<forall>m\<in>set ms. marker_true repr_text points m)
    \<and> sorted (map (\<lambda>m. (marker_index m, side_rank (marker_side m))) ms)"
proof -
  obtain ms' where ms': "rules_loop repr_text sy points threshold rules [] = Some ms'"
      "ms = sort_key (\<lambda>m. (marker_index m, side_rank (marker_side m))) ms'"
    using assms by (auto simp: build_replay_markers_def)
  have "distinct (map marker_key_of ms)"
    using rules_loop_correct [OF ms'(1)] by (simp add: ms'(2) distinct_map)
  then show ?thesis using rules_loop_correct [OF ms'(1)] by (simp add: ms'(2))
qed

definition price_rule :: json_dict where
  "price_rule = [(''enabled'', JBool True), (''id'', JStr ''r1''), (''side'', JStr ''sell''),
     (''conditions'', JArr [JObj [(''type'', JStr ''price_threshold''), (''value'', JFloat 10)]])]"

definition two_points :: "json_dict list" where
  "two_points = [[(''time'', JStr ''09:31''), (''price'', JFloat 9)], [(''time'', JStr ''09:32''), (''price'', JFloat 12)]]"

lemma two_points_marker:
  "build_replay_markers (\<lambda>_. []) ''600000'' two_points [price_rule] 0
    = Some [\<lparr>marker_index = 1, marker_time = ''09:32'', marker_price = 12, marker_side = ''sell'', marker_rule = ''r1'',
        marker_title = default_rule_title\<rparr>]"
proof -
  define cs where "cs = [[(''type'', JStr ''price_threshold''), (''value'', JFloat 10)]]"
  have conditions: "rule_conditions price_rule = Some cs"
    by (simp add: rule_conditions_def price_rule_def cs_def List.map_filter_def)
  have first: "rule_matches (\<lambda>_. []) ''600000'' two_points 0 price_rule cs 0 = Some False"
   and "rule_matches (\<lambda>_. []) ''600000'' two_points 0 price_rule cs 1 = Some True"
    by (simp_all add: rule_matches_def cs_def two_points_def condition_matches_def text_or_empty_def py_str_def value_of_def
        compare_value_def float_value_def threshold_compare_def price_rule_def)
  moreover have "float_value (value_of (two_points ! 1) ''price'') = Some 12" "length two_points = 2" "[0..<2] = [0, 1 :: nat]"
    by (simp_all add: two_points_def value_of_def float_value_def upt_rec)
  moreover have "marker_at (\<lambda>_. []) two_points price_rule 1 12 = \<lparr>marker_index = 1, marker_time = ''09:32'', marker_price = 12,
      marker_side = ''sell'', marker_rule = ''r1'', marker_title = default_rule_title\<rparr>"
    by (simp add: marker_at_def two_points_def price_rule_def value_of_def text_or_empty_def py_str_def rule_side_def)
  moreover have "falsy (value_of price_rule ''enabled'') = False"
    by (simp add: price_rule_def value_of_def)
  ultimately show ?thesis using conditions by (simp add: build_replay_markers_def)
qed

theorem markers_follow_rules_witness:
  "rule_fires (\<lambda>_. []) ''600000'' two_points 0 price_rule 1 \<and> \<not> rule_fires (\<lambda>_. []) ''600000'' two_points 0 price_rule 0"
proof -
  note m = markers_follow_rules [OF two_points_marker]
  have keys: "{rule_key (\<lambda>_. []) rule i | rule i. rule \<in> set [price_rule] \<and> rule_fires (\<lambda>_. []) ''600000'' two_points 0 rule i}
      = {(1, ''sell'', ''r1'')}"
    using m by (simp add: marker_key_of_def)
  have "rule_key (\<lambda>_. []) price_rule i = (i, ''sell'', ''r1'')" for i
    by (simp add: rule_key_def rule_side_def price_rule_def value_of_def text_or_empty_def py_str_def)
  with keys show ?thesis by auto
qed

section \<open>Conditions on stored minutes\<close>

lemma series_row_lacks:
  "value_of (series_row minute row m) ''change_pct'' = JNull" "value_of (series_row minute row m) ''mid_order_net'' = JNull"
  by (simp_all add: value_of_def series_row_def point_columns_def)

lemma series_rows_lack:
  assumes "read_series r sy day = Some series" "p \<in> set (series_rows series)"
  shows "value_of p ''change_pct'' = JNull" "value_of p ''mid_order_net'' = JNull"
proof -
  have "\<exists>minute row m. p = series_row minute row m"
    using assms unfolding read_series_def
    by (auto split: option.splits list.splits if_splits simp: bind_eq_Some_conv Let_def in_set_zip) blast+
  then show "value_of p ''change_pct'' = JNull" "value_of p ''mid_order_net'' = JNull"
    using series_row_lacks by auto
qed

text \<open>
  C22: No condition on the change of the price, and none on the flow of the middle orders, holds at any minute that the store
  gives to the monitor: its rows lack the fields these conditions read.
\<close>

theorem stored_minutes_meet_no_change_condition:
  assumes "read_series r sy day = Some series" and "i < length (series_rows series)"
    and "value_of condition ''type'' = JStr ''change_pct''
      \<or> value_of condition ''type'' = JStr ''flow_change_pct'' \<and> value_of condition ''flow'' = JStr ''mid''"
  shows "condition_matches repr_text sy (series_rows series) threshold i condition \<noteq> Some True"
proof -
  have lacks: "value_of (series_rows series ! i) ''change_pct'' = JNull" "value_of (series_rows series ! i) ''mid_order_net'' = JNull"
    using series_rows_lack [OF assms(1)] nth_mem [OF assms(2)] by blast+
  then have "flow_change repr_text (series_rows series) i minutes ''mid_order_net'' = None" for minutes
    by (simp add: flow_change_def float_value_def)
  with lacks assms(3) show ?thesis
    unfolding condition_matches_def Let_def
    by (elim disjE) (auto simp: text_or_empty_def py_str_def compare_value_def float_value_def)
qed

lemma replay_ema_length [simp]: "length (replay_ema vs n) = length vs"
proof -
  have "length (replay_ema_loop a p xs) = length xs" for a p and xs :: "rat list"
    by (induction xs arbitrary: p) (simp_all add: Let_def)
  then show ?thesis by (simp add: replay_ema_def split: list.splits)
qed

lemma calculate_macd_length: "calculate_macd prices settings = Some rows \<Longrightarrow> length rows = length prices"
  by (auto simp: calculate_macd_def Let_def split: if_splits)

definition demo_research_store :: research_store where
  "demo_research_store =
     \<lparr>research_days = [((''600000'', ''20240102''), \<lparr>day_name = None, day_market = ''SH'', day_source = None, day_values = [],
        day_collected = ''2024-01-02T01:31:00+00:00''\<rparr>)],
      research_points = [((''600000'', ''20240102'', ''09:31''), \<lparr>point_values = [(''price'', Some ''10'')], point_captured = []\<rparr>)],
      research_states = [], research_macd = None, research_push = None, push_events = [], research_premium = None,
      research_flows = \<lparr>flow_points = [], flow_states = []\<rparr>\<rparr>"

lemma demo_series:
  "\<exists>series. read_series demo_research_store ''600000'' (Some ''20240102'') = Some series \<and> length (series_rows series) = 1"
proof -
  have points: "day_points demo_research_store ''600000'' ''20240102'' = [(''09:31'', [(''price'', Some ''10'')])]"
    by (simp add: day_points_def demo_research_store_def)
  have "row_price [(''price'', Some ''10'')] \<noteq> None"
  proof -
    have "fixed_text 0 10 = ''10''" by code_simp
    then show ?thesis using decimal_of_fixed [of False 0 10] by (simp add: row_price_def field_of_def)
  qed
  then obtain x where x: "row_price [(''price'', Some ''10'')] = Some x" by blast
  have "calculate_macd [x] default_macd_settings \<noteq> None"
    by (simp add: calculate_macd_def default_macd_settings_def Let_def)
  moreover have "stored_macd_settings demo_research_store = default_macd_settings"
    by (simp add: stored_macd_settings_def demo_research_store_def)
  ultimately obtain rows where rows: "calculate_macd [x] (stored_macd_settings demo_research_store) = Some rows" by force
  have "\<exists>d. dget (research_days demo_research_store) (''600000'', ''20240102'') = Some d"
    by (simp add: demo_research_store_def)
  then show ?thesis using points x rows calculate_macd_length [OF rows] by (auto simp: read_series_def Let_def)
qed

theorem stored_minutes_meet_no_change_condition_witness:
  "\<exists>series. read_series demo_research_store ''600000'' (Some ''20240102'') = Some series
     \<and> condition_matches (\<lambda>_. []) ''600000'' (series_rows series) 0 0
         [(''type'', JStr ''change_pct''), (''value'', JFloat (- 100))] \<noteq> Some True"
proof -
  obtain series where s: "read_series demo_research_store ''600000'' (Some ''20240102'') = Some series" "length (series_rows series) = 1"
    using demo_series by blast
  have "value_of [(''type'', JStr ''change_pct''), (''value'', JFloat (- 100))] ''type'' = JStr ''change_pct''"
    by (simp add: value_of_def)
  with s show ?thesis using stored_minutes_meet_no_change_condition [OF s(1)] by auto
qed

section \<open>The push configuration\<close>

text \<open>A configuration with the values that saving leaves as they are: names and addresses that are there, without the slash at
  the end, and a group for each id.\<close>

definition plain_url :: "string \<Rightarrow> bool" where
  "plain_url u \<longleftrightarrow> u \<noteq> [] \<and> rstrip_slash u = u"

definition plain_group :: "bark_group \<Rightarrow> bool" where
  "plain_group g \<longleftrightarrow> group_id g \<noteq> [] \<and> group_name g \<noteq> [] \<and> plain_url (group_url g)"

definition plain_config :: "push_config \<Rightarrow> bool" where
  "plain_config c \<longleftrightarrow> distinct (map group_id (bark_groups c)) \<and> list_all plain_group (bark_groups c)
     \<and> plain_url (sc3_url (sc3 c)) \<and> sc3_mode (sc3 c) \<noteq> []
     \<and> plain_url (wecom_url (wecom c)) \<and> rstrip_slash (wecom_news_url (wecom c)) = wecom_news_url (wecom c)
     \<and> to_user (wecom c) \<noteq> []"

lemma text_or_str [simp]: "text_or repr_text (JStr s) dflt = (if s = [] then dflt else s)"
  by (simp add: text_or_def py_str_def)

lemma find_by_id:
  assumes "distinct (map group_id gs)" "g \<in> set gs" "group_id g \<noteq> []"
  shows "find (\<lambda>h. group_id h = group_id g \<and> group_id h \<noteq> []) (rev gs) = Some g"
proof -
  have "find (\<lambda>h. group_id h = group_id g \<and> group_id h \<noteq> []) (rev gs) \<noteq> None"
    using assms(2,3) by (auto simp: find_None_iff)
  then obtain h where h: "find (\<lambda>h. group_id h = group_id g \<and> group_id h \<noteq> []) (rev gs) = Some h" by blast
  then have "h \<in> set gs" "group_id h = group_id g" by (auto simp: find_Some_iff in_set_conv_nth [of h "rev gs", simplified])
  then have "h = g" using assms(1,2) by (auto simp: distinct_map dest: inj_onD)
  then show ?thesis using h by simp
qed

lemma stored_key_of_group:
  assumes "plain_config c" "g \<in> set (bark_groups c)"
  shows "stored_key c (group_id g) = device_key g"
proof -
  have "group_id g \<noteq> []" using assms by (auto simp: plain_config_def list_all_iff plain_group_def)
  then show ?thesis using find_by_id [of "bark_groups c" g] assms by (simp add: stored_key_def plain_config_def)
qed

definition public_group_dict :: "bark_group \<Rightarrow> json_dict" where
  "public_group_dict g = (case public_group g of JObj d \<Rightarrow> d | _ \<Rightarrow> [])"

lemma saved_public_group:
  assumes "plain_config c" "g \<in> set (bark_groups c)"
  shows "saved_group repr_text c i (public_group_dict g) = g"
  using assms stored_key_of_group [OF assms]
  by (auto simp: saved_group_def public_group_dict_def public_group_def value_of_def plain_config_def list_all_iff plain_group_def
      plain_url_def)

lemma map_enumerate_id: "(\<And>i x. x \<in> set xs \<Longrightarrow> f i x = x) \<Longrightarrow> map (\<lambda>(i, x). f i x) (enumerate n xs) = xs"
  by (induction xs arbitrary: n) auto

lemma enumerate_map: "enumerate n (map f xs) = map (\<lambda>(i, x). (i, f x)) (enumerate n xs)"
  by (induction xs arbitrary: n) auto

lemma all_some_public_groups:
  "all_some (map (\<lambda>item. case item of JObj d \<Rightarrow> Some d | _ \<Rightarrow> None) (map public_group gs)) = Some (map public_group_dict gs)"
  by (induction gs) (simp_all add: public_group_dict_def public_group_def)

lemma saved_public_groups:
  assumes "plain_config c"
  shows "saved_groups repr_text c (public_push_config c) = Some (bark_groups c)"
proof -
  have "map (\<lambda>(i, d). saved_group repr_text c i d) (enumerate 0 (map public_group_dict (bark_groups c))) = bark_groups c"
    using map_enumerate_id [of "bark_groups c" "\<lambda>i g. saved_group repr_text c i (public_group_dict g)" 0]
      saved_public_group [OF assms]
    by (simp add: enumerate_map comp_def case_prod_unfold)
  then show ?thesis
    using all_some_public_groups [of "bark_groups c"] by (simp add: saved_groups_def public_push_config_def)
qed

lemma saved_public_sc3:
  assumes "plain_config c" "public_sc3 (sc3 c) = JObj d"
  shows "saved_sc3 repr_text (sc3 c) d = sc3 c"
  using assms by (auto simp: saved_sc3_def public_sc3_def value_or_def plain_config_def plain_url_def)

lemma saved_public_wecom:
  assumes "plain_config c" "public_wecom (wecom c) = JObj d"
  shows "saved_wecom repr_text (wecom c) d = Some (wecom c)"
proof -
  have "Fund_Flow.truncate (of_int z) = z" for z by (simp add: Fund_Flow.truncate_def floor_minus)
  moreover have "rstrip_slash [] = []" by (simp add: rstrip_slash_def)
  ultimately show ?thesis using assms
  by (auto simp: saved_wecom_def public_wecom_def value_or_def plain_config_def plain_url_def py_int_def)
qed

text \<open>
  Saving the public view of a configuration, which shows none of its secrets, keeps the configuration with its secrets.
\<close>

theorem public_view_saves_back:
  assumes "plain_config c"
  shows "save_push_config repr_text (public_push_config c) c = Some c"
proof -
  obtain s w where sw: "public_sc3 (sc3 c) = JObj s" "public_wecom (wecom c) = JObj w"
    by (simp add: public_sc3_def public_wecom_def)
  then have "section_of (public_push_config c) ''sc3_bot'' = Some s" "section_of (public_push_config c) ''wecom'' = Some w"
    by (simp_all add: section_of_def value_or_def public_push_config_def)
  then show ?thesis
    using saved_public_groups [OF assms] saved_public_sc3 [OF assms sw(1)] saved_public_wecom [OF assms sw(2)]
    by (simp add: save_push_config_def) (simp add: value_or_def public_push_config_def)
qed

definition sample_config :: push_config where
  "sample_config = default_push_config\<lparr>bark_groups := [\<lparr>group_id = ''a'', group_name = ''phone'', group_url = bark_default_url,
     device_key = ''secret''\<rparr>]\<rparr>"

theorem public_view_saves_back_witness:
  "save_push_config (\<lambda>_. []) (public_push_config sample_config) sample_config = Some sample_config"
  by (rule public_view_saves_back)
    (simp add: plain_config_def plain_group_def plain_url_def rstrip_slash_def sample_config_def default_push_config_def
      bark_default_url_def sc3_default_url_def wecom_default_url_def)

text \<open>Configurations that differ in their secrets only, but have the same ones, have the same view.\<close>

definition without_secrets :: "push_config \<Rightarrow> push_config" where
  "without_secrets c =
     c\<lparr>bark_groups := map (\<lambda>g. g\<lparr>device_key := (if device_key g = [] then [] else ''x'')\<rparr>) (bark_groups c),
       sc3 := (sc3 c)\<lparr>sc3_token := (if sc3_token (sc3 c) = [] then [] else ''x'')\<rparr>,
       wecom := (wecom c)\<lparr>corp_secret := (if corp_secret (wecom c) = [] then [] else ''x'')\<rparr>\<rparr>"

lemma public_view_hides_secrets: "public_push_config (without_secrets c) = public_push_config c"
  by (simp add: public_push_config_def without_secrets_def public_group_def public_sc3_def public_wecom_def)

section \<open>Events\<close>

text \<open>The polls of both monitors in the order in which they reach the store: the keys of what they send.\<close>

datatype monitor_step =
    Collect push_config "push_channel \<Rightarrow> bool" string string "source_failure + snapshot"
  | Premium push_config json time

definition monitor_step :: "(json \<Rightarrow> string) \<Rightarrow> monitor_step \<Rightarrow> research_store \<Rightarrow> string list \<times> research_store" where
  "monitor_step repr_text st r =
     (case st of
        Collect c posted stamp sy refreshed \<Rightarrow>
          (case monitor_collect repr_text c posted stamp sy refreshed r of (_, sent, r') \<Rightarrow> (map fst sent, r'))
      | Premium c fetched now \<Rightarrow>
          (case premium_poll c fetched now r of (sent, r') \<Rightarrow> (case sent of None \<Rightarrow> [] | Some k \<Rightarrow> [k], r')))"

fun monitor_run :: "(json \<Rightarrow> string) \<Rightarrow> monitor_step list \<Rightarrow> research_store \<Rightarrow> string list \<times> research_store" where
  "monitor_run repr_text [] r = ([], r)"
| "monitor_run repr_text (st # sts) r =
     (case monitor_step repr_text st r of (evs, r') \<Rightarrow>
        (case monitor_run repr_text sts r' of (evs', r'') \<Rightarrow> (evs @ evs', r'')))"

text \<open>The keys are new in the first store, each is there once, and the second store has them.\<close>

definition claimed_between :: "string list \<Rightarrow> research_store \<Rightarrow> research_store \<Rightarrow> bool" where
  "claimed_between evs r r' \<longleftrightarrow>
     distinct evs \<and> set evs \<inter> set (push_events r) = {} \<and> set (push_events r) \<union> set evs \<subseteq> set (push_events r')"

lemma claimed_none: "set (push_events r) \<subseteq> set (push_events r') \<Longrightarrow> claimed_between [] r r'"
  by (simp add: claimed_between_def)

lemma claimed_append:
  "claimed_between evs r r' \<Longrightarrow> claimed_between evs' r' r'' \<Longrightarrow> claimed_between (evs @ evs') r r''"
  by (auto simp: claimed_between_def)

lemma claim_claims:
  "claim_push_event key r = (b, r') \<Longrightarrow> claimed_between (if b then [key] else []) r r'"
  by (auto simp: claim_push_event_def claimed_between_def split: if_splits)

lemma claimed_events: "push_events r1 = push_events r \<Longrightarrow> claimed_between evs r1 r' = claimed_between evs r r'"
  by (simp add: claimed_between_def)

lemma push_loop_claims:
  "push_loop c posted sy day changed ms r = (sent, r') \<Longrightarrow> claimed_between (map fst sent) r r'"
proof (induction ms arbitrary: r sent r')
  case Nil
  then show ?case by (simp add: claimed_none)
next
  case (Cons m ms)
  show ?case
  proof (cases "marker_time m \<in> set changed")
    case False
    then show ?thesis using Cons by simp
  next
    case True
    obtain b r1 where claim: "claim_push_event (event_key sy day m) r = (b, r1)" by (metis surj_pair)
    obtain sent' r2 where rest: "push_loop c posted sy day changed ms r1 = (sent', r2)" by (metis surj_pair)
    note first = claim_claims [OF claim] and second = Cons.IH [OF rest]
    consider "\<not> b" | "b" "push_send c posted = None" | "b" "push_send c posted \<noteq> None" by blast
    then show ?thesis
    proof cases
      case 1
      then show ?thesis using True claim rest Cons.prems claimed_append [OF first second] by simp
    next
      case 2
      then show ?thesis using True claim Cons.prems first by (simp add: claimed_between_def)
    next
      case 3
      then show ?thesis using True claim rest Cons.prems claimed_append [OF first second] by auto
    qed
  qed
qed

lemma push_changed_claims:
  "push_changed repr_text c posted sy changed r = (sent, r') \<Longrightarrow> claimed_between (map fst sent) r r'"
  unfolding push_changed_def by (auto split: option.splits dest: push_loop_claims simp: claimed_none)

lemma recording_keeps_events:
  "push_events (snd (record_snapshot repr_text s r)) = push_events r" "push_events (record_error sy code stamp r) = push_events r"
  by (simp_all add: record_snapshot_def record_error_def Let_def split: prod.split)

lemma monitor_collect_claims:
  assumes "monitor_collect repr_text c posted stamp sy refreshed r = (changed, sent, r')"
  shows "claimed_between (map fst sent) r r'"
proof (cases refreshed)
  case (Inl f)
  then show ?thesis using assms by (auto simp: monitor_collect_def claimed_none recording_keeps_events)
next
  case (Inr s)
  obtain ch r1 where rec: "record_snapshot repr_text s r = (ch, r1)" by (metis surj_pair)
  then have events: "push_events r1 = push_events r" using recording_keeps_events(1) [of repr_text s r] by simp
  show ?thesis
  proof (cases "ch = []")
    case True
    then show ?thesis using assms Inr rec events by (auto simp: monitor_collect_def claimed_none)
  next
    case False
    then have "push_changed repr_text c posted sy ch r1 = (sent, r')"
      using assms Inr rec by (auto simp: monitor_collect_def split: prod.splits)
    then show ?thesis using push_changed_claims claimed_events [OF events] by blast
  qed
qed

lemma premium_poll_claims:
  assumes "premium_poll c fetched now r = (sent, r')"
  shows "claimed_between (case sent of None \<Rightarrow> [] | Some k \<Rightarrow> [k]) r r'"
proof (cases "premium_push_slot now = None \<or> \<not> premium_enabled c")
  case True
  then show ?thesis using assms by (auto simp: premium_poll_def Let_def claimed_none split: option.splits)
next
  case False
  then obtain slot b where slot: "premium_push_slot now = Some slot" "premium_enabled c"
      "claim_push_event (premium_key now slot) (r\<lparr>research_premium := Some fetched\<rparr>) = (b, r')"
      "sent = (if b then Some (premium_key now slot) else None)"
    using assms by (auto simp: premium_poll_def Let_def split: prod.splits)
  show ?thesis using claim_claims [OF slot(3)] slot(4) by (simp add: claimed_between_def split: if_splits)
qed

lemma monitor_step_claims:
  "monitor_step repr_text st r = (evs, r') \<Longrightarrow> claimed_between evs r r'"
  unfolding monitor_step_def
  by (cases st) (auto split: prod.splits dest: monitor_collect_claims premium_poll_claims)

text \<open>
  C11: Whatever polls run, with any configurations, answers of the channels and snapshots, no event is sent twice, and none that
  was claimed before.
\<close>

theorem events_sent_once:
  assumes "monitor_run repr_text steps r = (evs, r')"
  shows "claimed_between evs r r'"
  using assms
proof (induction steps arbitrary: r evs r')
  case Nil
  then show ?case by (simp add: claimed_none)
next
  case (Cons st sts)
  obtain ks r1 where st: "monitor_step repr_text st r = (ks, r1)" by (metis surj_pair)
  obtain ks' r2 where sts: "monitor_run repr_text sts r1 = (ks', r2)" by (metis surj_pair)
  from claimed_append [OF monitor_step_claims [OF st] Cons.IH [OF sts]] show ?case
    using Cons.prems st sts by simp
qed

text \<open>Two polls of the premium in the same minute, 09:10 of Tuesday the second of January 2024, of which the first pushes.\<close>

definition demo_now :: time where
  "demo_now = 1704157800 * 1000000"

lemma demo_slot: "premium_push_slot demo_now = Some (shanghai_minute demo_now)"
  by (simp add: premium_push_slot_def demo_now_def shanghai_minute_of_day_def shanghai_second_of_day_def shanghai_seconds_def
      shanghai_date_def weekday_def usec_per_sec_def Let_def)

theorem events_sent_once_witness:
  "\<exists>r. monitor_run (\<lambda>_. []) [Premium default_push_config JNull demo_now, Premium default_push_config JNull demo_now] demo_research_store
       = ([premium_key demo_now (shanghai_minute demo_now)], r)
     \<and> claimed_between [premium_key demo_now (shanghai_minute demo_now)] demo_research_store r"
proof -
  have "\<exists>r. monitor_run (\<lambda>_. []) [Premium default_push_config JNull demo_now, Premium default_push_config JNull demo_now] demo_research_store
      = ([premium_key demo_now (shanghai_minute demo_now)], r)"
    by (simp add: monitor_step_def premium_poll_def demo_slot default_push_config_def claim_push_event_def demo_research_store_def)
  then show ?thesis using events_sent_once by blast
qed

end
