(* ===== verification/Tables.thy ===== *)
theory Tables
  imports Prelude "HOL-Library.Multiset"
begin

text \<open>
  The statements of SQL that the relational stores use: a table is a dictionary from its primary key to its rows, an
  \<open>UPDATE\<close> or \<open>DELETE\<close> with a condition goes over all rows. A column that holds the place of a row in a list is kept
  dense, so that the rows ordered by it are numbered from 0; renumbering them in their order does that.
\<close>

section \<open>Statements\<close>

text \<open>\<open>UPDATE table SET f WHERE P\<close> and \<open>DELETE FROM table WHERE P\<close>\<close>

definition update_rows :: "('k \<Rightarrow> 'r \<Rightarrow> bool) \<Rightarrow> ('r \<Rightarrow> 'r) \<Rightarrow> ('k, 'r) dict \<Rightarrow> ('k, 'r) dict" where
  "update_rows P f d = map (\<lambda>(k, r). (k, if P k r then f r else r)) d"

definition delete_rows :: "('k \<Rightarrow> 'r \<Rightarrow> bool) \<Rightarrow> ('k, 'r) dict \<Rightarrow> ('k, 'r) dict" where
  "delete_rows P d = filter (\<lambda>(k, r). \<not> P k r) d"

definition count_rows :: "('k \<Rightarrow> 'r \<Rightarrow> bool) \<Rightarrow> ('k, 'r) dict \<Rightarrow> nat" where
  "count_rows P d = length (filter (\<lambda>(k, r). P k r) d)"

text \<open>\<open>COALESCE((SELECT MAX(column)+1 ...),0)\<close>\<close>

definition next_value :: "nat list \<Rightarrow> nat" where
  "next_value xs = (if xs = [] then 0 else Max (set xs) + 1)"

text \<open>The loop that gives the rows of a list their place in it.\<close>

fun number_rows :: "(nat \<Rightarrow> 'r \<Rightarrow> 'r) \<Rightarrow> nat \<Rightarrow> 'k list \<Rightarrow> ('k, 'r) dict \<Rightarrow> ('k, 'r) dict" where
  "number_rows place i [] d = d"
| "number_rows place i (k # ks) d = number_rows place (Suc i) ks (update_rows (\<lambda>k' _. k' = k) (place i) d)"

lemma map_fst_update_rows [simp]: "map fst (update_rows P f d) = map fst d"
  by (simp add: update_rows_def comp_def case_prod_unfold)

lemma keys_update_rows [simp]: "keys (update_rows P f d) = keys d"
  by (metis list.set_map map_fst_update_rows)

lemma dget_update_rows [simp]: "dget (update_rows P f d) k = map_option (\<lambda>r. if P k r then f r else r) (dget d k)"
  by (induction d) (auto simp: update_rows_def)

lemma wf_delete_rows [simp]: "wf_dict d \<Longrightarrow> wf_dict (delete_rows P d)"
  by (induction d) (auto simp: delete_rows_def)

lemma set_delete_rows: "set (delete_rows P d) = {(k, r) \<in> set d. \<not> P k r}"
  by (auto simp: delete_rows_def)

lemma dget_delete_rows [simp]:
  "wf_dict d \<Longrightarrow> dget (delete_rows P d) k = (case dget d k of None \<Rightarrow> None | Some r \<Rightarrow> if P k r then None else Some r)"
proof (induction d)
  case (Cons x d)
  obtain k' r where x: "x = (k', r)" by force
  have "dget d k' = None" using Cons.prems x by (simp add: dget_None_iff)
  then show ?case using Cons x by (auto simp: delete_rows_def split: option.splits)
qed (simp add: delete_rows_def)

lemma keys_dget: "k \<in> keys d \<longleftrightarrow> dget d k \<noteq> None"
  by (simp add: dget_None_iff)

lemma keys_delete_rows: "wf_dict d \<Longrightarrow> keys (delete_rows P d) = {k \<in> keys d. \<not> P k (the (dget d k))}"
  unfolding keys_dget set_eq_iff mem_Collect_eq by (auto simp: keys_dget split: option.splits)

lemma map_fst_number_rows [simp]: "map fst (number_rows place i ks d) = map fst d"
  by (induction ks arbitrary: i d) simp_all

lemma keys_number_rows [simp]: "keys (number_rows place i ks d) = keys d"
  by (metis list.set_map map_fst_number_rows)

lemma dget_number_rows_other: "k \<notin> set ks \<Longrightarrow> dget (number_rows place i ks d) k = dget d k"
  by (induction ks arbitrary: i d) (auto simp: option.map_ident)

lemma dget_number_rows_nth:
  "distinct ks \<Longrightarrow> j < length ks \<Longrightarrow> dget (number_rows place i ks d) (ks ! j) = map_option (place (i + j)) (dget d (ks ! j))"
proof (induction ks arbitrary: i j d)
  case (Cons k ks)
  show ?case
  proof (cases j)
    case 0
    then show ?thesis using Cons.prems by (simp add: dget_number_rows_other)
  next
    case (Suc j')
    then have "ks ! j' \<noteq> k" using Cons.prems by auto
    then show ?thesis using Suc Cons.IH [of j'] Cons.prems by (simp add: option.map_ident)
  qed
qed simp

lemma number_rows_keeps:
  assumes "\<And>i r. f (place i r) = f r"
  shows "map_option f (dget (number_rows place i ks d) k) = map_option f (dget d k)"
  using assms by (induction ks arbitrary: i d) (simp_all add: option.map_comp comp_def if_distrib cong: if_cong)

section \<open>Places\<close>

text \<open>The keys in the order of their column, ties by the key: \<open>ORDER BY sort_order, key\<close>.\<close>

definition ordered_by :: "('k::linorder \<Rightarrow> nat) \<Rightarrow> 'k list \<Rightarrow> 'k list" where
  "ordered_by place ks = sort_key (\<lambda>k. (place k, k)) ks"

definition dense :: "('k::linorder \<Rightarrow> nat) \<Rightarrow> 'k list \<Rightarrow> bool" where
  "dense place ks \<longleftrightarrow> map place (ordered_by place ks) = [0..<length ks]"

lemma ordered_by_simps [simp]:
  "set (ordered_by place ks) = set ks" "length (ordered_by place ks) = length ks" "distinct (ordered_by place ks) = distinct ks"
  by (simp_all add: ordered_by_def)

lemma ordered_by_Nil [simp]: "ordered_by place [] = []"
  by (simp add: ordered_by_def)

lemma filter_eq_distinct: "distinct xs \<Longrightarrow> filter (\<lambda>x. y = x) xs = (if y \<in> set xs then [y] else [])"
  by (induction xs) auto

text \<open>A list that numbers the keys by their place is the ordered list.\<close>

lemma ordered_by_eqI:
  assumes "distinct ks" "distinct xs" "set xs = set ks" "map place xs = [0..<length xs]"
  shows "ordered_by place ks = xs"
  unfolding ordered_by_def
proof (rule properties_for_sort_key)
  show "mset xs = mset ks" using assms(1-3) by (simp add: set_eq_iff_mset_eq_distinct)
  show "filter (\<lambda>x. (place k, k) = (place x, x)) xs = filter (\<lambda>x. (place k, k) = (place x, x)) ks" if "k \<in> set xs" for k
  proof -
    have "(\<lambda>x. (place k, k) = (place x, x)) = (\<lambda>x. k = x)" by auto
    then show ?thesis using assms(1-3) that by (simp add: filter_eq_distinct)
  qed
  have "sorted_wrt (<) (map place xs)" using assms(4) by simp
  then show "sorted (map (\<lambda>k. (place k, k)) xs)"
    by (simp add: sorted_map sorted_wrt_map less_le_not_le) (auto elim!: sorted_wrt_mono_rel [rotated])
qed

lemma denseI:
  assumes "distinct ks" "distinct xs" "set xs = set ks" "map place xs = [0..<length xs]"
  shows "dense place ks"
proof -
  have "length ks = length xs" using assms(1-3) by (metis distinct_card)
  then show ?thesis using ordered_by_eqI [OF assms] assms(4) by (simp add: dense_def)
qed

lemma dense_place: "dense place ks \<Longrightarrow> i < length ks \<Longrightarrow> place (ordered_by place ks ! i) = i"
  unfolding dense_def by (metis add_0 length_map length_upt minus_nat.diff_0 nth_map nth_upt ordered_by_simps(2))

lemma dense_places: "dense place ks \<Longrightarrow> place ` set ks = {0..<length ks}"
proof -
  assume "dense place ks"
  then have "set (map place (ordered_by place ks)) = set [0..<length ks]" by (simp only: dense_def)
  then show ?thesis by (simp only: set_map ordered_by_simps set_upt)
qed

lemma dense_next:
  assumes "dense place ks"
  shows "next_value (map place ks) = length ks"
proof (cases "length ks")
  case (Suc n)
  have "Max {0..<Suc n} = n" by (rule Max_eqI) simp_all
  moreover have "Max (place ` set ks) = Max {0..<Suc n}" using dense_places [OF assms] Suc by simp
  ultimately show ?thesis using Suc by (auto simp: next_value_def)
qed (simp add: next_value_def)

end
