(* ===== verification/Market_Accounts.thy ===== *)
theory Market_Accounts
  imports Tables Frida_Source Clock
begin

text \<open>
  \<open>SQLiteMarketAccountStore\<close> of \<open>level2_service/market_accounts.py\<close>: the users of the market pages, their groups of
  symbols and what is monitored for them. An operation gives an error, after which the transaction leaves the tables as they were,
  or its result with the new tables. An instant is kept as it is read back from its text. The hash of a password is an argument, since
  it has a random salt, and so is its verification, False where that raises. Letters outside ASCII have no lower case here. The migration of
  the rows, which runs at every start, is the last section.
\<close>

section \<open>Tables\<close>

datatype account_error = Invalid_Value string | Not_Found string | Not_Permitted string | Duplicate_Name string

record account_row =
  a_name :: string
  a_hash :: string
  a_enabled :: bool
  a_must_change :: bool
  a_created :: time

record group_row =
  g_owner :: nat
  g_title :: string
  g_place :: nat
  g_primary :: bool

record item_row =
  i_name :: string
  i_market :: string
  i_place :: nat
  i_monitored :: bool
  i_since :: "time option"

record account_store =
  accounts :: "(nat, account_row) dict"
  watch_groups :: "(nat, group_row) dict"
  watch_items :: "(nat \<times> string, item_row) dict"
  next_account :: nat
  next_group :: nat

definition empty_accounts :: account_store where
  "empty_accounts = \<lparr>accounts = [], watch_groups = [], watch_items = [], next_account = 1, next_group = 1\<rparr>"

record market_user =
  user_id :: nat
  username :: string
  user_enabled :: bool
  must_change_password :: bool
  user_created :: time

record watch_item =
  item_symbol :: string
  item_name :: string
  item_market :: string

record watch_group =
  watch_id :: nat
  watch_title :: string
  watch_place :: nat
  watch_primary :: bool
  watch_list :: "watch_item list"

section \<open>Checks of the input\<close>

definition username_char :: "char \<Rightarrow> bool" where
  "username_char c \<longleftrightarrow> is_digit c \<or> 97 \<le> (of_char c :: nat) \<and> (of_char c :: nat) \<le> 122 \<or> c \<in> set ''._-''"

definition checked_username :: "string \<Rightarrow> account_error + string" where
  "checked_username v =
     (let n = to_lower (strip v) in
      if 3 \<le> length n \<and> length n \<le> 32 \<and> list_all username_char n then Inr n
      else Inl (Invalid_Value ''username must be 3-32 letters, digits, dots, underscores, or hyphens''))"

text \<open>\<open>len\<close> of a text counts its code points, so the bytes that continue one are left out (\<open>text_length\<close>).
  Of the letters outside ASCII the Kelvin sign has an ASCII lower case, which names do not use here.\<close>

definition checked_password :: "string \<Rightarrow> account_error + string" where
  "checked_password v = (if v = [] \<or> text_length v > 256 then Inl (Invalid_Value ''password must contain 1-256 characters'') else Inr v)"

definition checked_title :: "string \<Rightarrow> account_error + string" where
  "checked_title v =
     (let n = strip v in
      if n = [] \<or> text_length n > 24 then Inl (Invalid_Value ''watchlist group name must contain 1-24 characters'') else Inr n)"

section \<open>Users\<close>

definition no_user :: account_error where "no_user = Not_Found ''market user not found''"

definition user_of :: "nat \<Rightarrow> account_row \<Rightarrow> market_user" where
  "user_of u r = \<lparr>user_id = u, username = a_name r, user_enabled = a_enabled r, must_change_password = a_must_change r,
     user_created = a_created r\<rparr>"

definition get_user :: "nat \<Rightarrow> account_store \<Rightarrow> account_error + market_user" where
  "get_user u s = (case dget (accounts s) u of None \<Rightarrow> Inl no_user | Some r \<Rightarrow> Inr (user_of u r))"

definition list_users :: "account_store \<Rightarrow> market_user list" where
  "list_users s = map (\<lambda>u. user_of u (the (dget (accounts s) u))) (sort (map fst (accounts s)))"

text \<open>The title of the first group, in UTF-8.\<close>

definition primary_title :: string where
  "primary_title = map char_of [232 :: nat, 135, 170, 233, 128, 137]"

definition create_user ::
  "(string \<Rightarrow> string) \<Rightarrow> time \<Rightarrow> string \<Rightarrow> string \<Rightarrow> account_store \<Rightarrow> account_error + market_user \<times> account_store" where
  "create_user hash now name password s =
     (case checked_username name of Inl e \<Rightarrow> Inl e | Inr n \<Rightarrow>
      (case checked_password password of Inl e \<Rightarrow> Inl e | Inr p \<Rightarrow>
       if list_ex (\<lambda>(_, r). a_name r = n) (accounts s) then Inl (Duplicate_Name n)
       else
         (let u = next_account s;
              r = \<lparr>a_name = n, a_hash = hash p, a_enabled = True, a_must_change = True, a_created = now\<rparr>;
              g = \<lparr>g_owner = u, g_title = primary_title, g_place = 0, g_primary = True\<rparr>
          in Inr (user_of u r,
               s\<lparr>accounts := dset u r (accounts s), next_account := u + 1,
                 watch_groups := dset (next_group s) g (watch_groups s), next_group := next_group s + 1\<rparr>))))"

definition authenticate_user :: "(string \<Rightarrow> string \<Rightarrow> bool) \<Rightarrow> string \<Rightarrow> string \<Rightarrow> account_store \<Rightarrow> market_user option" where
  "authenticate_user verify name password s =
     (case checked_username name of Inl _ \<Rightarrow> None | Inr n \<Rightarrow>
      (case find (\<lambda>(_, r). a_name r = n) (accounts s) of None \<Rightarrow> None
       | Some (u, r) \<Rightarrow> if a_enabled r \<and> verify (a_hash r) password then Some (user_of u r) else None))"

definition set_password :: "nat \<Rightarrow> string \<Rightarrow> bool \<Rightarrow> account_store \<Rightarrow> account_store" where
  "set_password u digest must s =
     s\<lparr>accounts := update_rows (\<lambda>k _. k = u) (\<lambda>r. r\<lparr>a_hash := digest, a_must_change := must\<rparr>) (accounts s)\<rparr>"

definition with_user :: "nat \<Rightarrow> account_store \<Rightarrow> account_error + market_user \<times> account_store" where
  "with_user u s = (case get_user u s of Inl e \<Rightarrow> Inl e | Inr v \<Rightarrow> Inr (v, s))"

definition change_user_password ::
  "(string \<Rightarrow> string) \<Rightarrow> (string \<Rightarrow> string \<Rightarrow> bool) \<Rightarrow> nat \<Rightarrow> string \<Rightarrow> string \<Rightarrow> account_store \<Rightarrow>
   account_error + market_user \<times> account_store" where
  "change_user_password hash verify u current new s =
     (case checked_password new of Inl e \<Rightarrow> Inl e | Inr p \<Rightarrow>
      (case dget (accounts s) u of None \<Rightarrow> Inl no_user
       | Some r \<Rightarrow>
           if \<not> a_enabled r then Inl no_user
           else if \<not> verify (a_hash r) current then Inl (Not_Permitted ''invalid current password'')
           else with_user u (set_password u (hash p) False s)))"

definition reset_password :: "(string \<Rightarrow> string) \<Rightarrow> nat \<Rightarrow> string \<Rightarrow> account_store \<Rightarrow> account_error + market_user \<times> account_store" where
  "reset_password hash u new s =
     (case checked_password new of Inl e \<Rightarrow> Inl e | Inr p \<Rightarrow>
      if dget (accounts s) u = None then Inl no_user else with_user u (set_password u (hash p) True s))"

definition set_user_enabled :: "nat \<Rightarrow> bool \<Rightarrow> account_store \<Rightarrow> account_error + market_user \<times> account_store" where
  "set_user_enabled u enabled s =
     (if dget (accounts s) u = None then Inl no_user
      else with_user u (s\<lparr>accounts := update_rows (\<lambda>k _. k = u) (\<lambda>r. r\<lparr>a_enabled := enabled\<rparr>) (accounts s)\<rparr>))"

section \<open>Groups\<close>

definition place_of_group :: "account_store \<Rightarrow> nat \<Rightarrow> nat" where
  "place_of_group s g = g_place (the (dget (watch_groups s) g))"

definition group_keys :: "account_store \<Rightarrow> nat \<Rightarrow> nat list" where
  "group_keys s u = map fst (filter (\<lambda>(_, r). g_owner r = u) (watch_groups s))"

definition ids_of_groups :: "account_store \<Rightarrow> nat \<Rightarrow> nat list" where
  "ids_of_groups s u = ordered_by (place_of_group s) (group_keys s u)"

definition place_of_item :: "account_store \<Rightarrow> nat \<Rightarrow> string \<Rightarrow> nat" where
  "place_of_item s g sy = i_place (the (dget (watch_items s) (g, sy)))"

definition item_keys :: "account_store \<Rightarrow> nat \<Rightarrow> string list" where
  "item_keys s g = map (snd \<circ> fst) (filter (\<lambda>((g', _), _). g' = g) (watch_items s))"

definition group_symbols :: "account_store \<Rightarrow> nat \<Rightarrow> string list" where
  "group_symbols s g = ordered_by (place_of_item s g) (item_keys s g)"

definition watch_item_of :: "account_store \<Rightarrow> nat \<Rightarrow> string \<Rightarrow> watch_item" where
  "watch_item_of s g sy =
     (let r = the (dget (watch_items s) (g, sy)) in \<lparr>item_symbol = sy, item_name = i_name r, item_market = i_market r\<rparr>)"

definition watch_group_of :: "account_store \<Rightarrow> nat \<Rightarrow> watch_group" where
  "watch_group_of s g =
     (let r = the (dget (watch_groups s) g) in
      \<lparr>watch_id = g, watch_title = g_title r, watch_place = g_place r, watch_primary = g_primary r,
       watch_list = map (watch_item_of s g) (group_symbols s g)\<rparr>)"

definition list_watchlists :: "nat \<Rightarrow> account_store \<Rightarrow> account_error + watch_group list" where
  "list_watchlists u s = (case get_user u s of Inl e \<Rightarrow> Inl e | Inr _ \<Rightarrow> Inr (map (watch_group_of s) (ids_of_groups s u)))"

definition owned_group :: "nat \<Rightarrow> nat \<Rightarrow> account_store \<Rightarrow> account_error + group_row" where
  "owned_group u g s =
     (case dget (watch_groups s) g of
        Some r \<Rightarrow> if g_owner r = u then Inr r else Inl (Not_Found ''watchlist group not found'')
      | None \<Rightarrow> Inl (Not_Found ''watchlist group not found''))"

definition title_taken :: "nat \<Rightarrow> string \<Rightarrow> nat option \<Rightarrow> account_store \<Rightarrow> bool" where
  "title_taken u n g s = list_ex (\<lambda>(g', r). Some g' \<noteq> g \<and> g_owner r = u \<and> g_title r = n) (watch_groups s)"

definition create_group :: "nat \<Rightarrow> string \<Rightarrow> account_store \<Rightarrow> account_error + watch_group \<times> account_store" where
  "create_group u name s =
     (case checked_title name of Inl e \<Rightarrow> Inl e | Inr n \<Rightarrow>
      (case get_user u s of Inl e \<Rightarrow> Inl e | Inr _ \<Rightarrow>
       if title_taken u n None s then Inl (Invalid_Value ''watchlist group already exists'')
       else
         (let g = next_group s;
              r = \<lparr>g_owner = u, g_title = n, g_place = next_value (map (place_of_group s) (group_keys s u)), g_primary = False\<rparr>;
              s' = s\<lparr>watch_groups := dset g r (watch_groups s), next_group := g + 1\<rparr>
          in Inr (watch_group_of s' g, s'))))"

definition rename_group :: "nat \<Rightarrow> nat \<Rightarrow> string \<Rightarrow> account_store \<Rightarrow> account_error + watch_group \<times> account_store" where
  "rename_group u g name s =
     (case checked_title name of Inl e \<Rightarrow> Inl e | Inr n \<Rightarrow>
      (case owned_group u g s of Inl e \<Rightarrow> Inl e | Inr _ \<Rightarrow>
       if title_taken u n (Some g) s then Inl (Invalid_Value ''watchlist group already exists'')
       else
         (let s' = s\<lparr>watch_groups := update_rows (\<lambda>k _. k = g) (\<lambda>r. r\<lparr>g_title := n\<rparr>) (watch_groups s)\<rparr> in
          case get_user u s' of Inl e \<Rightarrow> Inl e | Inr _ \<Rightarrow> Inr (watch_group_of s' g, s'))))"

definition put_group_place :: "nat \<Rightarrow> group_row \<Rightarrow> group_row" where
  "put_group_place i r = r\<lparr>g_place := i\<rparr>"

definition normalize_group_order :: "nat \<Rightarrow> account_store \<Rightarrow> account_store" where
  "normalize_group_order u s = s\<lparr>watch_groups := number_rows put_group_place 0 (ids_of_groups s u) (watch_groups s)\<rparr>"

definition delete_group :: "nat \<Rightarrow> nat \<Rightarrow> account_store \<Rightarrow> account_error + account_store" where
  "delete_group u g s =
     (case owned_group u g s of Inl e \<Rightarrow> Inl e | Inr r \<Rightarrow>
      if g_primary r then Inl (Invalid_Value ''primary watchlist group cannot be deleted'')
      else if count_rows (\<lambda>_ r. g_owner r = u) (watch_groups s) \<le> 1 then Inl (Invalid_Value ''at least one watchlist group is required'')
      else Inr (normalize_group_order u
        (s\<lparr>watch_groups := delete_rows (\<lambda>k _. k = g) (watch_groups s),
           watch_items := delete_rows (\<lambda>(g', _) _. g' = g) (watch_items s)\<rparr>)))"

definition same_members :: "'a list \<Rightarrow> 'a list \<Rightarrow> bool" where
  "same_members given current \<longleftrightarrow> distinct given \<and> set given = set current"

definition reorder_groups :: "nat \<Rightarrow> nat list \<Rightarrow> account_store \<Rightarrow> account_error + account_store" where
  "reorder_groups u gs s =
     (case get_user u s of Inl e \<Rightarrow> Inl e | Inr _ \<Rightarrow>
      if same_members gs (ids_of_groups s u)
      then Inr (s\<lparr>watch_groups := number_rows put_group_place 0 gs (watch_groups s)\<rparr>)
      else Inl (Invalid_Value ''group order must contain every group exactly once''))"

section \<open>Symbols\<close>

definition user_symbols :: "account_store \<Rightarrow> nat \<Rightarrow> string list" where
  "user_symbols s u = remdups (concat (map (item_keys s) (group_keys s u)))"

definition no_symbol :: account_error where "no_symbol = Not_Found ''watchlist symbol not found''"

definition new_item :: "time \<Rightarrow> nat \<Rightarrow> symbol_lookup \<Rightarrow> account_store \<Rightarrow> item_row" where
  "new_item now g l s =
     \<lparr>i_name = lookup_name l, i_market = lookup_market l, i_place = next_value (map (place_of_item s g) (item_keys s g)),
      i_monitored = True, i_since = Some now\<rparr>"

definition put_item :: "nat \<Rightarrow> string \<Rightarrow> item_row \<Rightarrow> account_store \<Rightarrow> account_store" where
  "put_item g sy r s = s\<lparr>watch_items := dset (g, sy) r (watch_items s)\<rparr>"

text \<open>The insertion into the primary group, or the update of the symbol that is there already.\<close>

definition put_primary_item :: "time \<Rightarrow> nat \<Rightarrow> symbol_lookup \<Rightarrow> account_store \<Rightarrow> account_store" where
  "put_primary_item now p l s =
     (case dget (watch_items s) (p, lookup_symbol l) of
        None \<Rightarrow> put_item p (lookup_symbol l) (new_item now p l s) s
      | Some r \<Rightarrow> put_item p (lookup_symbol l) (r\<lparr>i_name := lookup_name l, i_market := lookup_market l, i_since := Some now\<rparr>) s)"

definition primary_group :: "account_store \<Rightarrow> nat \<Rightarrow> nat option" where
  "primary_group s u = map_option fst (find (\<lambda>(_, r). g_owner r = u \<and> g_primary r) (watch_groups s))"

definition add_symbol ::
  "nat \<Rightarrow> time \<Rightarrow> nat \<Rightarrow> nat \<Rightarrow> symbol_lookup \<Rightarrow> account_store \<Rightarrow> account_error + watch_item \<times> account_store" where
  "add_symbol max_symbols now u g l s =
     (case owned_group u g s of Inl e \<Rightarrow> Inl e | Inr _ \<Rightarrow>
      (case primary_group s u of None \<Rightarrow> Inl (Not_Found ''watchlist group not found'') | Some p \<Rightarrow>
       if length (user_symbols s u) \<ge> max_symbols \<and> lookup_symbol l \<notin> set (user_symbols s u)
       then Inl (Invalid_Value ''watchlist symbol limit reached'')
       else if dget (watch_items s) (g, lookup_symbol l) \<noteq> None then Inl (Invalid_Value ''symbol already exists in this group'')
       else
         (let s1 = put_item g (lookup_symbol l) (new_item now g l s) s;
              s2 = (if g = p then s1 else put_primary_item now p l s1)
          in Inr (\<lparr>item_symbol = lookup_symbol l, item_name = lookup_name l, item_market = lookup_market l\<rparr>, s2))))"

definition put_item_place :: "nat \<Rightarrow> item_row \<Rightarrow> item_row" where
  "put_item_place i r = r\<lparr>i_place := i\<rparr>"

definition number_items :: "nat \<Rightarrow> string list \<Rightarrow> account_store \<Rightarrow> account_store" where
  "number_items g sys s = s\<lparr>watch_items := number_rows put_item_place 0 (map (Pair g) sys) (watch_items s)\<rparr>"

definition normalize_item_order :: "nat \<Rightarrow> account_store \<Rightarrow> account_store" where
  "normalize_item_order g s = number_items g (group_symbols s g) s"

definition delete_item :: "nat \<Rightarrow> string \<Rightarrow> account_store \<Rightarrow> account_store" where
  "delete_item g sy s = s\<lparr>watch_items := delete_rows (\<lambda>k _. k = (g, sy)) (watch_items s)\<rparr>"

definition remove_symbol :: "nat \<Rightarrow> nat \<Rightarrow> string \<Rightarrow> account_store \<Rightarrow> account_error + account_store" where
  "remove_symbol u g sy s =
     (case owned_group u g s of Inl e \<Rightarrow> Inl e | Inr _ \<Rightarrow>
      if dget (watch_items s) (g, sy) = None then Inl no_symbol else Inr (normalize_item_order g (delete_item g sy s)))"

definition remove_symbol_everywhere :: "nat \<Rightarrow> string \<Rightarrow> account_store \<Rightarrow> account_error + account_store" where
  "remove_symbol_everywhere u sy s =
     (let gs = filter (\<lambda>g. dget (watch_items s) (g, sy) \<noteq> None) (group_keys s u) in
      if gs = [] then Inl no_symbol
      else Inr (fold normalize_item_order gs
        (s\<lparr>watch_items := delete_rows (\<lambda>(g, sy') _. sy' = sy \<and> g \<in> set (group_keys s u)) (watch_items s)\<rparr>)))"

definition set_monitoring_enabled :: "time \<Rightarrow> nat \<Rightarrow> string \<Rightarrow> bool \<Rightarrow> account_store \<Rightarrow> account_error + bool \<times> account_store" where
  "set_monitoring_enabled now u sy enabled s =
     (let mine = (\<lambda>(g, sy') (_ :: item_row). sy' = sy \<and> g \<in> set (group_keys s u)) in
      if count_rows mine (watch_items s) < 1 then Inl no_symbol
      else Inr (enabled, s\<lparr>watch_items := update_rows mine
        (\<lambda>r. if enabled then r\<lparr>i_monitored := True, i_since := Some now\<rparr> else r\<lparr>i_monitored := False\<rparr>) (watch_items s)\<rparr>))"

definition reorder_symbols :: "nat \<Rightarrow> nat \<Rightarrow> string list \<Rightarrow> account_store \<Rightarrow> account_error + account_store" where
  "reorder_symbols u g sys s =
     (case owned_group u g s of Inl e \<Rightarrow> Inl e | Inr _ \<Rightarrow>
      if same_members sys (group_symbols s g) then Inr (number_items g sys s)
      else Inl (Invalid_Value ''symbol order must contain every group symbol exactly once''))"

definition insert_at :: "int \<Rightarrow> 'a \<Rightarrow> 'a list \<Rightarrow> 'a list" where
  "insert_at index x xs = (let i = nat (max 0 (min index (int (length xs)))) in take i xs @ x # drop i xs)"

definition move_symbol :: "nat \<Rightarrow> nat \<Rightarrow> nat \<Rightarrow> string \<Rightarrow> int \<Rightarrow> account_store \<Rightarrow> account_error + account_store" where
  "move_symbol u source target sy index s =
     (case owned_group u source s of Inl e \<Rightarrow> Inl e | Inr _ \<Rightarrow>
      (case owned_group u target s of Inl e \<Rightarrow> Inl e | Inr _ \<Rightarrow>
       (case dget (watch_items s) (source, sy) of None \<Rightarrow> Inl no_symbol | Some r \<Rightarrow>
        if source = target then
          (case get_user u s of Inl e \<Rightarrow> Inl e
           | Inr _ \<Rightarrow> reorder_symbols u source (insert_at index sy (filter (\<lambda>x. x \<noteq> sy) (group_symbols s source))) s)
        else if dget (watch_items s) (target, sy) \<noteq> None then Inl (Invalid_Value ''symbol already exists in target group'')
        else
          (let s1 = normalize_item_order source (delete_item source sy s);
               i = nat (max 0 (min index (int (length (group_symbols s1 target)))));
               s2 = s1\<lparr>watch_items := update_rows (\<lambda>(g, _) r'. g = target \<and> i_place r' \<ge> i)
                 (\<lambda>r'. r'\<lparr>i_place := i_place r' + 1\<rparr>) (watch_items s1)\<rparr>
           in Inr (put_item target sy (r\<lparr>i_place := i\<rparr>) s2)))))"

section \<open>Monitoring\<close>

text \<open>The items with their owners: the rows of the joined tables.\<close>

definition joined_items :: "account_store \<Rightarrow> (nat \<times> account_row \<times> string \<times> item_row) list" where
  "joined_items s = List.map_filter (\<lambda>((g, sy), r).
     case dget (watch_groups s) g of None \<Rightarrow> None
     | Some gr \<Rightarrow> map_option (\<lambda>a. (g_owner gr, a, sy, r)) (dget (accounts s) (g_owner gr))) (watch_items s)"

definition monitoring_state :: "nat \<Rightarrow> account_store \<Rightarrow> (string \<times> bool) list" where
  "monitoring_state u s =
     (let mine = filter (\<lambda>(u', _). u' = u) (joined_items s) in
      map (\<lambda>sy. (sy, list_ex (\<lambda>(_, _, sy', r). sy' = sy \<and> i_monitored r) mine)) (sorted_list_of_set (set (map (\<lambda>(_, _, sy, _). sy) mine))))"

definition list_monitored_symbols :: "account_store \<Rightarrow> string list" where
  "list_monitored_symbols s =
     sorted_list_of_set (set (map (\<lambda>(_, _, sy, _). sy) (filter (\<lambda>(_, a, _, r). a_enabled a \<and> i_monitored r) (joined_items s))))"

definition list_watchlist_symbols :: "account_store \<Rightarrow> string list" where
  "list_watchlist_symbols s = sorted_list_of_set (set (map (\<lambda>(_, _, sy, _). sy) (filter (\<lambda>(_, a, _, _). a_enabled a) (joined_items s))))"

record monitored_symbol =
  monitored_name :: string
  monitored_from :: "date option"
  monitored_by :: "string list"

text \<open>A NULL sorts before every text.\<close>

definition since_key :: "time option \<Rightarrow> bool \<times> time" where
  "since_key t = (case t of None \<Rightarrow> (False, 0) | Some t \<Rightarrow> (True, t))"

definition monitored_entry :: "nat \<times> account_row \<times> string \<times> item_row \<Rightarrow> (string, monitored_symbol) dict \<Rightarrow> (string, monitored_symbol) dict" where
  "monitored_entry row found =
     (case row of (_, a, sy, r) \<Rightarrow>
        (let e = (case dget found sy of Some e \<Rightarrow> e | None \<Rightarrow> \<lparr>monitored_name = i_name r, monitored_from = None, monitored_by = []\<rparr>);
             day = map_option shanghai_date (i_since r);
             from = (case (day, monitored_from e) of
               (Some d, None) \<Rightarrow> Some d | (Some d, Some c) \<Rightarrow> Some (min d c) | (None, c) \<Rightarrow> c);
             users = (if a_name a \<in> set (monitored_by e) then monitored_by e else monitored_by e @ [a_name a])
         in dset sy (e\<lparr>monitored_from := from, monitored_by := users\<rparr>) found))"

definition list_admin_monitored_symbols :: "account_store \<Rightarrow> (string, monitored_symbol) dict" where
  "list_admin_monitored_symbols s =
     fold monitored_entry
       (sort_key (\<lambda>(u, _, sy, r). (sy, since_key (i_since r), u))
         (filter (\<lambda>(_, a, _, r). a_enabled a \<and> i_monitored r) (joined_items s))) []"

section \<open>The migration at the start\<close>

text \<open>
  \<open>_migrate\<close> after the tables and their columns exist; a column that it adds has its default in every row, \<open>False\<close> for
  \<open>g_primary\<close>, \<open>True\<close> for \<open>i_monitored\<close> and \<open>None\<close> for \<open>i_since\<close>. First the missing times of the monitored items.
\<close>

definition owner_created :: "account_store \<Rightarrow> nat \<Rightarrow> time option" where
  "owner_created s g = Option.bind (dget (watch_groups s) g) (\<lambda>r. map_option a_created (dget (accounts s) (g_owner r)))"

definition fill_since :: "account_store \<Rightarrow> account_store" where
  "fill_since s = s\<lparr>watch_items := map (\<lambda>((g, sy), r). ((g, sy),
     if i_monitored r \<and> i_since r = None then r\<lparr>i_since := owner_created s g\<rparr> else r)) (watch_items s)\<rparr>"

text \<open>The primary group, or the one to become it: that with the first title, else the first in their order.\<close>

definition main_group :: "account_store \<Rightarrow> nat \<Rightarrow> nat option" where
  "main_group s u =
     (case primary_group s u of Some p \<Rightarrow> Some p
      | None \<Rightarrow>
          (case sort_key (\<lambda>g. (g_title (the (dget (watch_groups s) g)) \<noteq> primary_title, place_of_group s g, g)) (group_keys s u) of
             [] \<Rightarrow> None | g # _ \<Rightarrow> Some g))"

definition mark_primary :: "nat \<Rightarrow> account_store \<Rightarrow> account_store" where
  "mark_primary p s = s\<lparr>watch_groups := update_rows (\<lambda>k _. k = p) (\<lambda>r. r\<lparr>g_primary := True\<rparr>) (watch_groups s)\<rparr>"

text \<open>The items of the other groups, each put into the primary one unless its symbol is there.\<close>

definition other_items :: "account_store \<Rightarrow> nat \<Rightarrow> nat \<Rightarrow> watch_item list" where
  "other_items s u p = concat (map (\<lambda>g. map (watch_item_of s g) (group_symbols s g)) (filter (\<lambda>g. g \<noteq> p) (ids_of_groups s u)))"

definition copy_item :: "nat \<Rightarrow> watch_item \<Rightarrow> account_store \<Rightarrow> account_store" where
  "copy_item p w s =
     (if dget (watch_items s) (p, item_symbol w) \<noteq> None then s
      else put_item p (item_symbol w)
        \<lparr>i_name = item_name w, i_market = item_market w, i_place = next_value (map (place_of_item s p) (item_keys s p)),
         i_monitored = True, i_since = None\<rparr> s)"

definition migrate_user :: "nat \<Rightarrow> account_store \<Rightarrow> account_store" where
  "migrate_user u s =
     (case main_group s u of None \<Rightarrow> s
      | Some p \<Rightarrow> (let s' = mark_primary p s in fold (copy_item p) (other_items s' u p) s'))"

definition migrate :: "account_store \<Rightarrow> account_store" where
  "migrate s = (let s' = fill_since s in fold migrate_user (remdups (map (g_owner \<circ> snd) (watch_groups s'))) s')"

end
