(* ===== verification/Account_Facts.thy ===== *)
theory Account_Facts
  imports Market_Accounts
begin

text \<open>
  What holds of the tables of \<open>Market_Accounts\<close> between the operations, and the two statements all their proofs go through:
  which keys a table has after an operation, and that a list which numbers its keys is the list that is read back.
\<close>

declare map_of_eq_Some_iff [simp del]

section \<open>Well-formed tables\<close>

definition wf_tables :: "account_store \<Rightarrow> bool" where
  "wf_tables s \<longleftrightarrow> wf_dict (accounts s) \<and> wf_dict (watch_groups s) \<and> wf_dict (watch_items s)
     \<and> (\<forall>u\<in>keys (accounts s). u < next_account s) \<and> (\<forall>g\<in>keys (watch_groups s). g < next_group s)
     \<and> (\<forall>g r. dget (watch_groups s) g = Some r \<longrightarrow> g_owner r \<in> keys (accounts s))
     \<and> (\<forall>g sy. (g, sy) \<in> keys (watch_items s) \<longrightarrow> g \<in> keys (watch_groups s))"

definition wf_names :: "account_store \<Rightarrow> bool" where
  "wf_names s \<longleftrightarrow>
     (\<forall>u r u' r'. dget (accounts s) u = Some r \<longrightarrow> dget (accounts s) u' = Some r' \<longrightarrow> a_name r = a_name r' \<longrightarrow> u = u')
     \<and> (\<forall>g r g' r'. dget (watch_groups s) g = Some r \<longrightarrow> dget (watch_groups s) g' = Some r' \<longrightarrow>
          g_owner r = g_owner r' \<longrightarrow> g_title r = g_title r' \<longrightarrow> g = g')"

text \<open>Each user has one primary group.\<close>

definition is_primary :: "account_store \<Rightarrow> nat \<Rightarrow> nat \<Rightarrow> bool" where
  "is_primary s u g \<longleftrightarrow> (\<exists>r. dget (watch_groups s) g = Some r \<and> g_owner r = u \<and> g_primary r)"

definition wf_primary :: "account_store \<Rightarrow> bool" where
  "wf_primary s \<longleftrightarrow> (\<forall>u\<in>keys (accounts s). \<exists>!g. is_primary s u g)"

text \<open>The places of the groups of a user, and of the symbols of a group, count from 0 without a gap.\<close>

definition wf_places :: "account_store \<Rightarrow> bool" where
  "wf_places s \<longleftrightarrow> (\<forall>u. dense (place_of_group s) (group_keys s u)) \<and> (\<forall>g. dense (place_of_item s g) (item_keys s g))"

definition wf_accounts :: "nat \<Rightarrow> account_store \<Rightarrow> bool" where
  "wf_accounts limit s \<longleftrightarrow> wf_tables s \<and> wf_names s \<and> wf_primary s \<and> wf_places s \<and> (\<forall>u. length (user_symbols s u) \<le> limit)"

section \<open>Keys and lists\<close>

lemma empty_listI: "(\<And>x. x \<notin> set xs) \<Longrightarrow> xs = []"
  by (cases xs) auto

lemma set_group_keys: "wf_dict (watch_groups s) \<Longrightarrow> g \<in> set (group_keys s u) \<longleftrightarrow> (\<exists>r. dget (watch_groups s) g = Some r \<and> g_owner r = u)"
  by (force simp: group_keys_def dget_in_set)

lemma distinct_group_keys: "wf_dict (watch_groups s) \<Longrightarrow> distinct (group_keys s u)"
  by (simp add: group_keys_def distinct_map_filter)

lemma set_item_keys: "sy \<in> set (item_keys s g) \<longleftrightarrow> (g, sy) \<in> keys (watch_items s)"
  by (force simp: item_keys_def)

lemma distinct_item_keys:
  assumes "wf_dict (watch_items s)"
  shows "distinct (item_keys s g)"
proof -
  have "inj_on (snd \<circ> fst) (set (filter (\<lambda>((g', _), _). g' = g) (watch_items s)))"
  proof (rule inj_onI)
    fix x y assume "x \<in> set (filter (\<lambda>((g', _), _). g' = g) (watch_items s))" "y \<in> set (filter (\<lambda>((g', _), _). g' = g) (watch_items s))"
      "(snd \<circ> fst) x = (snd \<circ> fst) y"
    then have "fst x = fst y" "x \<in> set (watch_items s)" "y \<in> set (watch_items s)" by (auto simp: prod_eq_iff split: prod.splits)
    then show "x = y" using assms by (auto simp: distinct_map dest: inj_onD)
  qed
  moreover have "distinct (watch_items s)" using assms by (simp add: distinct_map)
  ultimately show ?thesis by (simp add: item_keys_def distinct_map)
qed

lemma set_group_symbols [simp]: "set (group_symbols s g) = set (item_keys s g)"
  and set_group_ids [simp]: "set (ids_of_groups s u) = set (group_keys s u)"
  by (simp_all add: group_symbols_def ids_of_groups_def)

text \<open>How to show what is read back from the tables.\<close>

lemma group_symbolsI:
  assumes "wf_dict (watch_items s)" "distinct sys" "\<And>sy. sy \<in> set sys \<longleftrightarrow> (g, sy) \<in> keys (watch_items s)"
    and "\<And>i. i < length sys \<Longrightarrow> place_of_item s g (sys ! i) = i"
  shows "group_symbols s g = sys" "dense (place_of_item s g) (item_keys s g)"
proof -
  have *: "distinct (item_keys s g)" "set sys = set (item_keys s g)" "map (place_of_item s g) sys = [0..<length sys]"
    using distinct_item_keys [OF assms(1)] assms(3) by (auto simp: set_item_keys assms(4) intro: nth_equalityI)
  show "group_symbols s g = sys" unfolding group_symbols_def by (rule ordered_by_eqI [OF *(1) assms(2) *(2,3)])
  show "dense (place_of_item s g) (item_keys s g)" by (rule denseI [OF *(1) assms(2) *(2,3)])
qed

lemma group_idsI:
  assumes "wf_dict (watch_groups s)" "distinct gs" "\<And>g. g \<in> set gs \<longleftrightarrow> (\<exists>r. dget (watch_groups s) g = Some r \<and> g_owner r = u)"
    and "\<And>i. i < length gs \<Longrightarrow> place_of_group s (gs ! i) = i"
  shows "ids_of_groups s u = gs" "dense (place_of_group s) (group_keys s u)"
proof -
  have *: "distinct (group_keys s u)" "set gs = set (group_keys s u)" "map (place_of_group s) gs = [0..<length gs]"
    using distinct_group_keys [OF assms(1)] assms(3) by (auto simp: set_group_keys [OF assms(1)] assms(4) intro: nth_equalityI)
  show "ids_of_groups s u = gs" unfolding ids_of_groups_def by (rule ordered_by_eqI [OF *(1) assms(2) *(2,3)])
  show "dense (place_of_group s) (group_keys s u)" by (rule denseI [OF *(1) assms(2) *(2,3)])
qed

lemma place_nth_symbol: "wf_places s \<Longrightarrow> i < length (group_symbols s g) \<Longrightarrow> place_of_item s g (group_symbols s g ! i) = i"
  by (simp add: wf_places_def group_symbols_def dense_place)

lemma place_nth_group: "wf_places s \<Longrightarrow> i < length (ids_of_groups s u) \<Longrightarrow> place_of_group s (ids_of_groups s u ! i) = i"
  by (simp add: wf_places_def ids_of_groups_def dense_place)

lemma distinct_group_symbols: "wf_dict (watch_items s) \<Longrightarrow> distinct (group_symbols s g)"
  by (simp add: group_symbols_def distinct_item_keys)

lemma distinct_group_ids: "wf_dict (watch_groups s) \<Longrightarrow> distinct (ids_of_groups s u)"
  by (simp add: ids_of_groups_def distinct_group_keys)

text \<open>What is read back depends only on the rows read.\<close>

lemma group_symbols_cong:
  assumes "wf_dict (watch_items s)" "wf_dict (watch_items s')" "wf_places s"
    and "\<And>sy. map_option i_place (dget (watch_items s') (g, sy)) = map_option i_place (dget (watch_items s) (g, sy))"
  shows "group_symbols s' g = group_symbols s g" "dense (place_of_item s' g) (item_keys s' g)"
proof -
  have keys: "sy \<in> set (group_symbols s g) \<longleftrightarrow> (g, sy) \<in> keys (watch_items s')" for sy
    using assms(4) [of sy] by (simp add: set_item_keys keys_dget) (metis map_option_is_None option.exhaust_sel)
  have place: "place_of_item s' g sy = place_of_item s g sy" if "sy \<in> set (group_symbols s g)" for sy
    using assms(4) [of sy] that keys [of sy] by (auto simp: place_of_item_def keys_dget map_option_case split: option.splits)
  have "place_of_item s' g (group_symbols s g ! i) = i" if "i < length (group_symbols s g)" for i
    using place [OF nth_mem [OF that]] place_nth_symbol [OF assms(3) that] by simp
  from group_symbolsI [OF assms(2) distinct_group_symbols [OF assms(1)] keys this]
  show "group_symbols s' g = group_symbols s g" "dense (place_of_item s' g) (item_keys s' g)" by blast+
qed

lemma group_ids_cong:
  assumes "wf_dict (watch_groups s)" "wf_dict (watch_groups s')" "wf_places s"
    and "\<And>g. map_option (\<lambda>r. (g_owner r, g_place r)) (dget (watch_groups s') g) = map_option (\<lambda>r. (g_owner r, g_place r)) (dget (watch_groups s) g)"
  shows "ids_of_groups s' u = ids_of_groups s u" "dense (place_of_group s') (group_keys s' u)"
proof -
  have keys: "g \<in> set (ids_of_groups s u) \<longleftrightarrow> (\<exists>r. dget (watch_groups s') g = Some r \<and> g_owner r = u)" for g
    using assms(4) [of g] by (auto simp: set_group_keys [OF assms(1)] map_option_case split: option.splits)
  have place: "place_of_group s' g = place_of_group s g" if "g \<in> set (ids_of_groups s u)" for g
    using assms(4) [of g] that keys [of g] by (auto simp: place_of_group_def map_option_case split: option.splits)
  have "place_of_group s' (ids_of_groups s u ! i) = i" if "i < length (ids_of_groups s u)" for i
    using place [OF nth_mem [OF that]] place_nth_group [OF assms(3) that] by simp
  from group_idsI [OF assms(2) distinct_group_ids [OF assms(1)] keys this]
  show "ids_of_groups s' u = ids_of_groups s u" "dense (place_of_group s') (group_keys s' u)" by blast+
qed

lemma item_group: "wf_accounts limit s \<Longrightarrow> (g, sy) \<in> keys (watch_items s) \<Longrightarrow> g \<in> keys (watch_groups s)"
  unfolding wf_accounts_def wf_tables_def by blast

section \<open>The symbols of a user\<close>

lemma set_user_symbols: "set (user_symbols s u) = (\<Union>g\<in>set (group_keys s u). set (item_keys s g))"
  by (simp add: user_symbols_def)

lemma length_user_symbols: "length (user_symbols s u) = card (\<Union>g\<in>set (group_keys s u). set (item_keys s g))"
  by (simp add: user_symbols_def length_remdups_card_conv)

lemma find_in_set: "find P xs = Some x \<Longrightarrow> x \<in> set xs \<and> P x"
  by (metis find_Some_iff nth_mem)

lemma primary_group_iff:
  assumes "wf_tables s" "wf_primary s"
  shows "primary_group s u = Some p \<longleftrightarrow> is_primary s u p"
proof -
  have wf: "wf_dict (watch_groups s)" using assms(1) by (simp add: wf_tables_def)
  have one: "p = p'" if "is_primary s u p" "is_primary s u p'" for p p'
    using that assms unfolding wf_primary_def wf_tables_def is_primary_def by metis
  have found: "is_primary s u p" if p: "primary_group s u = Some p" for p
  proof -
    obtain r where "find (\<lambda>(_, r). g_owner r = u \<and> g_primary r) (watch_groups s) = Some (p, r)"
      using p by (auto simp: primary_group_def)
    from find_in_set [OF this] have r: "(p, r) \<in> set (watch_groups s)" "g_owner r = u" "g_primary r" by simp_all
    then show ?thesis using dget_in_set [OF wf] by (auto simp: is_primary_def)
  qed
  have "primary_group s u \<noteq> None" if p: "is_primary s u p" for p
  proof -
    obtain r where "(p, r) \<in> set (watch_groups s)" "g_owner r = u \<and> g_primary r"
      using p dget_SomeD unfolding is_primary_def by fast
    then have "find (\<lambda>(_, r). g_owner r = u \<and> g_primary r) (watch_groups s) \<noteq> None" by (auto simp: find_None_iff)
    then show ?thesis by (simp add: primary_group_def)
  qed
  then show ?thesis using one found by blast
qed

section \<open>Changes of the tables\<close>

text \<open>The items change: what has to be shown is the list of each group.\<close>

lemma items_changed:
  assumes wf: "wf_accounts limit s" and X: "wf_dict X" "\<And>g sy. (g, sy) \<in> keys X \<Longrightarrow> g \<in> keys (watch_groups s)"
    and sys: "\<And>g. distinct (sys g)" "\<And>g sy. sy \<in> set (sys g) \<longleftrightarrow> (g, sy) \<in> keys X"
      "\<And>g i. i < length (sys g) \<Longrightarrow> i_place (the (dget X (g, sys g ! i))) = i"
    and cap: "\<And>u. card (\<Union>g\<in>set (group_keys s u). set (sys g)) \<le> limit"
  shows "wf_accounts limit (s\<lparr>watch_items := X\<rparr>)" "group_symbols (s\<lparr>watch_items := X\<rparr>) = sys"
    "ids_of_groups (s\<lparr>watch_items := X\<rparr>) = ids_of_groups s"
proof -
  let ?s = "s\<lparr>watch_items := X\<rparr>"
  have same: "group_keys ?s = group_keys s" "place_of_group ?s = place_of_group s"
    by (simp_all add: fun_eq_iff group_keys_def place_of_group_def)
  have read: "group_symbols ?s g = sys g" "dense (place_of_item ?s g) (item_keys ?s g)" for g
    using group_symbolsI [of ?s "sys g" g] X(1) sys by (simp_all add: place_of_item_def)
  have items: "set (item_keys ?s g) = set (sys g)" for g using sys(2) by (auto simp: set_item_keys)
  show "group_symbols ?s = sys" using read(1) by blast
  show "ids_of_groups ?s = ids_of_groups s" by (simp add: fun_eq_iff ids_of_groups_def same)
  have "is_primary ?s = is_primary s" by (simp add: fun_eq_iff is_primary_def)
  then show "wf_accounts limit ?s" using wf X read(2) cap same items
    by (simp add: wf_accounts_def wf_tables_def wf_names_def wf_primary_def wf_places_def length_user_symbols del: set_map)
qed

text \<open>The users change, but not their names.\<close>

lemma accounts_changed:
  assumes "wf_accounts limit s" "\<And>r. a_name (f r) = a_name r"
  shows "wf_accounts limit (s\<lparr>accounts := update_rows P f (accounts s)\<rparr>)"
proof -
  let ?s = "s\<lparr>accounts := update_rows P f (accounts s)\<rparr>"
  have same: "group_keys ?s = group_keys s" "place_of_group ?s = place_of_group s" "item_keys ?s = item_keys s"
      "place_of_item ?s = place_of_item s" "is_primary ?s = is_primary s"
    by (simp_all add: fun_eq_iff group_keys_def place_of_group_def item_keys_def place_of_item_def is_primary_def)
  moreover have "user_symbols ?s = user_symbols s" by (simp add: fun_eq_iff user_symbols_def same)
  moreover have "wf_names ?s"
    using assms by (auto simp: wf_accounts_def wf_names_def split: if_splits)
  ultimately show ?thesis using assms(1)
    by (auto simp: wf_accounts_def wf_tables_def wf_primary_def wf_places_def keys_update_rows simp del: set_map)
qed

text \<open>The rows of the groups change, but not their keys, owners and primary marks.\<close>

lemma groups_changed:
  assumes wf: "wf_accounts limit s" and keys: "map fst G = map fst (watch_groups s)"
    and rows: "\<And>g. map_option (\<lambda>r. (g_owner r, g_primary r)) (dget G g) = map_option (\<lambda>r. (g_owner r, g_primary r)) (dget (watch_groups s) g)"
    and names: "wf_names (s\<lparr>watch_groups := G\<rparr>)"
    and gs: "\<And>u. distinct (gs u)" "\<And>u. set (gs u) = set (group_keys s u)"
      "\<And>u i. i < length (gs u) \<Longrightarrow> g_place (the (dget G (gs u ! i))) = i"
  shows "wf_accounts limit (s\<lparr>watch_groups := G\<rparr>)" "ids_of_groups (s\<lparr>watch_groups := G\<rparr>) = gs"
    "group_symbols (s\<lparr>watch_groups := G\<rparr>) = group_symbols s" "is_primary (s\<lparr>watch_groups := G\<rparr>) = is_primary s"
proof -
  let ?s = "s\<lparr>watch_groups := G\<rparr>"
  have dict: "wf_dict (watch_groups s)" "wf_dict G" using wf keys by (simp_all add: wf_accounts_def wf_tables_def)
  have owner: "(\<exists>r. dget G g = Some r \<and> g_owner r = u) \<longleftrightarrow> (\<exists>r. dget (watch_groups s) g = Some r \<and> g_owner r = u)" for g u
    using rows [of g] by (auto simp: map_option_case split: option.splits)
  have read: "ids_of_groups ?s u = gs u" "dense (place_of_group ?s) (group_keys ?s u)" for u
    using group_idsI [of ?s "gs u" u] dict gs by (simp_all add: place_of_group_def owner set_group_keys)
  show "ids_of_groups ?s = gs" using read(1) by blast
  have same: "item_keys ?s = item_keys s" "place_of_item ?s = place_of_item s"
    by (simp_all add: fun_eq_iff item_keys_def place_of_item_def)
  show "group_symbols ?s = group_symbols s" by (simp add: fun_eq_iff group_symbols_def same)
  show primary: "is_primary ?s = is_primary s"
  proof (intro ext)
    show "is_primary ?s u g = is_primary s u g" for u g
      using rows [of g] by (auto simp: is_primary_def map_option_case split: option.splits)
  qed
  have keys': "keys G = keys (watch_groups s)" using keys by (metis list.set_map)
  have "g_owner r \<in> keys (accounts s)" if "dget G g = Some r" for g r
    using rows [of g] that wf by (auto simp: wf_accounts_def wf_tables_def map_option_case split: option.splits)
  moreover have "set (group_keys ?s u) = set (group_keys s u)" for u
    using owner by (auto simp: set_group_keys dict)
  ultimately show "wf_accounts limit ?s" using wf names dict read(2) same keys' primary
    by (auto simp: wf_accounts_def wf_tables_def wf_primary_def wf_places_def length_user_symbols)
qed

section \<open>Changes of the items\<close>

lemma items_wf:
  assumes wf: "wf_accounts limit s" and X: "wf_dict X" "\<And>g sy. (g, sy) \<in> keys X \<Longrightarrow> g \<in> keys (watch_groups s)"
    and dense: "\<And>g. dense (place_of_item (s\<lparr>watch_items := X\<rparr>) g) (item_keys (s\<lparr>watch_items := X\<rparr>) g)"
    and cap: "\<And>u. card (\<Union>g\<in>set (group_keys s u). {sy. (g, sy) \<in> keys X}) \<le> limit"
  shows "wf_accounts limit (s\<lparr>watch_items := X\<rparr>)"
proof -
  let ?s = "s\<lparr>watch_items := X\<rparr>"
  define sys where "sys = group_symbols ?s"
  have sys: "distinct (sys g)" "sy \<in> set (sys g) \<longleftrightarrow> (g, sy) \<in> keys X" for g sy
    using X(1) by (simp_all add: sys_def distinct_group_symbols set_item_keys)
  have place: "i_place (the (dget X (g, sys g ! i))) = i" if "i < length (sys g)" for g i
    using dense_place [OF dense, of i g] that by (simp add: sys_def group_symbols_def place_of_item_def)
  have "set (sys g) = {sy. (g, sy) \<in> keys X}" for g using sys(2) by blast
  with items_changed(1) [OF wf X sys place] cap show ?thesis by simp
qed

lemma cap_subset:
  assumes "wf_accounts limit s" "keys X \<subseteq> keys (watch_items s)"
  shows "card (\<Union>g\<in>set (group_keys s u). {sy. (g, sy) \<in> keys X}) \<le> limit"
proof -
  have "(\<Union>g\<in>set (group_keys s u). {sy. (g, sy) \<in> keys X}) \<subseteq> set (user_symbols s u)"
  proof -
    have "{sy. (g, sy) \<in> keys X} \<subseteq> set (item_keys s g)" for g
      using assms(2) unfolding subset_iff mem_Collect_eq set_item_keys by blast
    then show ?thesis unfolding set_user_symbols by blast
  qed
  then have "card (\<Union>g\<in>set (group_keys s u). {sy. (g, sy) \<in> keys X}) \<le> card (set (user_symbols s u))"
    by (intro card_mono) simp_all
  also have "\<dots> \<le> limit" using assms(1) by (simp add: wf_accounts_def user_symbols_def length_remdups_card_conv)
  finally show ?thesis .
qed

lemma items_kept:
  assumes wf: "wf_accounts limit s" and X: "wf_dict X"
    and rows: "\<And>k. map_option i_place (dget X k) = map_option i_place (dget (watch_items s) k)"
  shows "wf_accounts limit (s\<lparr>watch_items := X\<rparr>)" "group_symbols (s\<lparr>watch_items := X\<rparr>) = group_symbols s"
proof -
  let ?s = "s\<lparr>watch_items := X\<rparr>"
  have dict: "wf_dict (watch_items s)" "wf_places s" using wf by (simp_all add: wf_accounts_def wf_tables_def)
  have read: "group_symbols ?s g = group_symbols s g" "dense (place_of_item ?s g) (item_keys ?s g)" for g
    using group_symbols_cong [of s ?s g] dict X rows by simp_all
  then show "group_symbols ?s = group_symbols s" by blast
  have keys: "keys X = keys (watch_items s)"
  proof -
    have "dget X k = None \<longleftrightarrow> dget (watch_items s) k = None" for k using rows [of k] by (metis map_option_is_None)
    then show ?thesis unfolding set_eq_iff keys_dget by simp
  qed
  show "wf_accounts limit ?s"
  proof (rule items_wf [OF wf X])
    show "g \<in> keys (watch_groups s)" if "(g, sy) \<in> keys X" for g sy
      using that keys item_group [OF wf] by blast
    show "dense (place_of_item ?s g) (item_keys ?s g)" for g by (rule read(2))
    show "card (\<Union>g\<in>set (group_keys s u). {sy. (g, sy) \<in> keys X}) \<le> limit" for u
      using cap_subset [OF wf, of X u] keys by simp
  qed
qed

lemma item_inserted:
  assumes wf: "wf_accounts limit s" and t: "t \<in> keys (watch_groups s)" "dget (watch_items s) (t, sy) = None"
    and X: "wf_dict X"
    and rows: "\<And>k. dget X k = (if k = (t, sy) then Some r else map_option
      (\<lambda>r'. if fst k = t \<and> i_place r' \<ge> i then r'\<lparr>i_place := i_place r' + 1\<rparr> else r') (dget (watch_items s) k))"
    and place: "i_place r = i" "i \<le> length (group_symbols s t)"
    and cap: "\<And>u. t \<in> set (group_keys s u) \<Longrightarrow> card (insert sy (set (user_symbols s u))) \<le> limit"
  shows "wf_accounts limit (s\<lparr>watch_items := X\<rparr>)"
    "group_symbols (s\<lparr>watch_items := X\<rparr>) = (group_symbols s)(t := take i (group_symbols s t) @ sy # drop i (group_symbols s t))"
    "ids_of_groups (s\<lparr>watch_items := X\<rparr>) = ids_of_groups s"
proof -
  define xs where "xs = group_symbols s t"
  define sys where "sys = (group_symbols s)(t := take i xs @ sy # drop i xs)"
  have dict: "wf_dict (watch_items s)" "wf_places s" using wf by (simp_all add: wf_accounts_def wf_tables_def)
  have old: "sy' \<in> set (group_symbols s g) \<longleftrightarrow> dget (watch_items s) (g, sy') \<noteq> None" for g sy'
    by (simp add: set_item_keys keys_dget)
  have keys: "(g, sy') \<in> keys X \<longleftrightarrow> (g, sy') = (t, sy) \<or> (g, sy') \<in> keys (watch_items s)" for g sy'
    by (auto simp: keys_dget rows)
  have "sy \<notin> set xs" using old t(2) by (simp add: xs_def)
  moreover have xs: "distinct xs" by (simp add: xs_def distinct_group_symbols dict)
  ultimately have dist: "distinct (sys g)" for g
    using set_take_disj_set_drop_if_distinct [of xs i i]
    by (auto simp: sys_def distinct_group_symbols dict dest: in_set_takeD in_set_dropD)
  have mem: "sy' \<in> set (sys g) \<longleftrightarrow> (g, sy') \<in> keys X" for g sy'
  proof -
    have "set (take i xs @ sy # drop i xs) = insert sy (set xs)" by (metis append_take_drop_id list.set(2) set_append Un_insert_right)
    then show ?thesis using old keys [of g sy'] by (auto simp: sys_def xs_def keys_dget set_item_keys)
  qed
  have at: "dget (watch_items s) (t, xs ! j) = Some r' \<Longrightarrow> i_place r' = j" if "j < length xs" for j r'
    using place_nth_symbol [OF dict(2), of j t] that by (simp add: xs_def place_of_item_def)
  have here: "i_place (the (dget X (t, (take i xs @ sy # drop i xs) ! j))) = j" if j: "j < Suc (length xs)" for j
  proof -
    have old': "\<exists>r'. dget (watch_items s) (t, xs ! m) = Some r' \<and> i_place r' = m \<and> xs ! m \<noteq> sy" if "m < length xs" for m
      using old [of "xs ! m" t] at [OF that] that \<open>sy \<notin> set xs\<close> nth_mem [OF that] by (auto simp: xs_def)
    consider "j < i" | "j = i" | m where "j = Suc m" "i \<le> m" "m < length xs" using j by (cases j) (force simp: not_less_eq)+
    then show ?thesis
    proof cases
      case 1
      then show ?thesis using old' [of j] place(2) by (auto simp: rows nth_append xs_def)
    next
      case 2
      then show ?thesis using place by (simp add: rows nth_append xs_def min_def)
    next
      case 3
      then have "(take i xs @ sy # drop i xs) ! j = xs ! m" using place(2) by (simp add: nth_append xs_def Suc_diff_le)
      then show ?thesis using old' [of m] 3 by (auto simp: rows)
    qed
  qed
  have elsewhere: "i_place (the (dget X (g, group_symbols s g ! j))) = j" if g: "g \<noteq> t" "j < length (group_symbols s g)" for g j
  proof -
    obtain r' where "dget (watch_items s) (g, group_symbols s g ! j) = Some r'"
      using old [of "group_symbols s g ! j" g] nth_mem [OF g(2)] by auto
    then show ?thesis using place_nth_symbol [OF dict(2) g(2)] g(1) by (simp add: rows place_of_item_def)
  qed
  have places: "i_place (the (dget X (g, sys g ! j))) = j" if "j < length (sys g)" for g j
  proof (cases "g = t")
    case True
    have "length (take i xs @ sy # drop i xs) = Suc (length xs)" using place(2) by (simp add: xs_def)
    then show ?thesis using True that here [of j] by (simp add: sys_def)
  qed (use that elsewhere in \<open>simp add: sys_def\<close>)
  have refs: "g \<in> keys (watch_groups s)" if "(g, sy') \<in> keys X" for g sy'
    using that keys [of g sy'] t(1) item_group [OF wf] by blast
  have capped: "card (\<Union>g\<in>set (group_keys s u). set (sys g)) \<le> limit" for u
  proof (cases "t \<in> set (group_keys s u)")
    case True
    then have "(\<Union>g\<in>set (group_keys s u). set (sys g)) \<subseteq> insert sy (set (user_symbols s u))"
      using mem keys by (fastforce simp: set_user_symbols set_item_keys simp del: set_map)
    then show ?thesis using cap [OF True] card_mono [of "insert sy (set (user_symbols s u))"] by (meson List.finite_set finite_insert le_trans)
  next
    case False
    then have "(\<Union>g\<in>set (group_keys s u). set (sys g)) = (\<Union>g\<in>set (group_keys s u). set (item_keys s g))"
      by (intro SUP_cong) (auto simp: sys_def)
    then show ?thesis using wf by (simp add: wf_accounts_def length_user_symbols)
  qed
  note final = items_changed [OF wf X _ dist mem places capped]
  show "wf_accounts limit (s\<lparr>watch_items := X\<rparr>)" using final(1) refs by blast
  show "ids_of_groups (s\<lparr>watch_items := X\<rparr>) = ids_of_groups s" using final(3) refs by blast
  show "group_symbols (s\<lparr>watch_items := X\<rparr>) = (group_symbols s)(t := take i (group_symbols s t) @ sy # drop i (group_symbols s t))"
    using final(2) refs unfolding sys_def xs_def by blast
qed

text \<open>Rows that are deleted leave the order of the others.\<close>

lemma item_keys_conv: "item_keys s g = map snd (filter (\<lambda>(g', _). g' = g) (map fst (watch_items s)))"
  by (simp add: item_keys_def filter_map comp_def case_prod_unfold)

lemma sort_key_cong': "(\<And>x. x \<in> set xs \<Longrightarrow> f x = f' x) \<Longrightarrow> sort_key f xs = sort_key f' xs"
proof (induction xs)
  case (Cons x xs)
  have "f x = f' x \<Longrightarrow> (\<And>y. y \<in> set ys \<Longrightarrow> f y = f' y) \<Longrightarrow> insort_key f x ys = insort_key f' x ys" for ys
    by (induction ys) auto
  from this [of "sort_key f' xs"] show ?case using Cons by auto
qed simp

lemma group_symbols_delete:
  assumes "wf_dict (watch_items s)"
  shows "group_symbols (s\<lparr>watch_items := delete_rows (\<lambda>(g, sy) _. P g sy) (watch_items s)\<rparr>) g
    = filter (\<lambda>sy. \<not> P g sy) (group_symbols s g)" (is "group_symbols ?s g = _")
proof -
  have "map fst (delete_rows (\<lambda>(g, sy) _. P g sy) d) = filter (\<lambda>(g, sy). \<not> P g sy) (map fst d)" for d :: "((nat \<times> string) \<times> item_row) list"
    by (induction d) (auto simp: delete_rows_def)
  then have "map fst (watch_items ?s) = filter (\<lambda>(g, sy). \<not> P g sy) (map fst (watch_items s))" by simp
  moreover have "map snd (filter (\<lambda>(g', _). g' = g) (filter (\<lambda>(g, sy). \<not> P g sy) ks))
      = filter (\<lambda>sy. \<not> P g sy) (map snd (filter (\<lambda>(g', _). g' = g) ks))" for ks
    by (induction ks) auto
  ultimately have items: "item_keys ?s g = filter (\<lambda>sy. \<not> P g sy) (item_keys s g)"
    by (simp only: item_keys_conv)
  have "place_of_item ?s g sy = place_of_item s g sy" if "sy \<in> set (item_keys ?s g)" for sy
    using that assms by (auto simp: items place_of_item_def split: option.splits)
  then show ?thesis
    unfolding group_symbols_def ordered_by_def items filter_sort by (intro sort_key_cong') (simp_all add: items)
qed

text \<open>Numbering the symbols of a group, in an order that has each of them once.\<close>

lemma number_items_reads:
  assumes "wf_dict (watch_items s)" "distinct sys" "set sys = set (item_keys s g)"
  shows "wf_dict (watch_items (number_items g sys s))" "keys (watch_items (number_items g sys s)) = keys (watch_items s)"
    "group_symbols (number_items g sys s) g = sys" "dense (place_of_item (number_items g sys s) g) (item_keys (number_items g sys s) g)"
    and "g' \<noteq> g \<Longrightarrow> group_symbols (number_items g sys s) g' = group_symbols s g'"
    and "g' \<noteq> g \<Longrightarrow> dense (place_of_item (number_items g sys s) g') (item_keys (number_items g sys s) g')
      \<longleftrightarrow> dense (place_of_item s g') (item_keys s g')"
proof -
  let ?s = "number_items g sys s"
  show wf: "wf_dict (watch_items ?s)" using assms(1) by (simp add: number_items_def)
  show keys: "keys (watch_items ?s) = keys (watch_items s)" by (simp add: number_items_def del: set_map)
  have items: "item_keys ?s h = item_keys s h" for h by (simp add: item_keys_conv number_items_def)
  have place: "place_of_item ?s g (sys ! i) = i" if "i < length sys" for i
  proof -
    have "dget (watch_items s) (g, sys ! i) \<noteq> None"
      using nth_mem [OF that] assms(3) by (simp add: set_item_keys keys_dget)
    moreover have "dget (watch_items ?s) (map (Pair g) sys ! i) = map_option (put_item_place (0 + i)) (dget (watch_items s) (map (Pair g) sys ! i))"
      unfolding number_items_def account_store.select_convs
      using that assms(2) by (simp add: dget_number_rows_nth [of "map (Pair g) sys" i, simplified] distinct_map inj_on_def)
    ultimately show ?thesis using that by (auto simp: place_of_item_def put_item_place_def)
  qed
  show "group_symbols ?s g = sys" "dense (place_of_item ?s g) (item_keys ?s g)"
    using group_symbolsI [OF wf assms(2) _ place] assms(3) by (simp_all add: set_item_keys keys)
  assume "g' \<noteq> g"
  then have "dget (watch_items ?s) (g', sy) = dget (watch_items s) (g', sy)" for sy
    by (auto simp: number_items_def intro!: dget_number_rows_other)
  then have "place_of_item ?s g' = place_of_item s g'" by (simp add: fun_eq_iff place_of_item_def)
  then show "group_symbols ?s g' = group_symbols s g'" "dense (place_of_item ?s g') (item_keys ?s g') \<longleftrightarrow> dense (place_of_item s g') (item_keys s g')"
    by (simp_all add: group_symbols_def items)
qed

lemma normalize_reads:
  assumes "wf_dict (watch_items s)"
  shows "wf_dict (watch_items (fold normalize_item_order gs s)) \<and> keys (watch_items (fold normalize_item_order gs s)) = keys (watch_items s)
    \<and> group_symbols (fold normalize_item_order gs s) = group_symbols s
    \<and> (\<forall>g. g \<in> set gs \<or> dense (place_of_item s g) (item_keys s g) \<longrightarrow>
          dense (place_of_item (fold normalize_item_order gs s) g) (item_keys (fold normalize_item_order gs s) g))
    \<and> fold normalize_item_order gs s = s\<lparr>watch_items := watch_items (fold normalize_item_order gs s)\<rparr>"
  using assms
proof (induction gs arbitrary: s)
  case (Cons h gs)
  let ?s = "normalize_item_order h s"
  have reads: "wf_dict (watch_items ?s)" "keys (watch_items ?s) = keys (watch_items s)" "group_symbols ?s = group_symbols s"
      "dense (place_of_item ?s h) (item_keys ?s h)"
      "\<And>g. dense (place_of_item s g) (item_keys s g) \<Longrightarrow> dense (place_of_item ?s g) (item_keys ?s g)"
    using number_items_reads [OF Cons.prems, of "group_symbols s h" h] Cons.prems
    by (auto simp: normalize_item_order_def fun_eq_iff distinct_group_symbols simp del: set_map)
      (metis distinct_group_symbols number_items_reads(5) set_group_symbols, metis distinct_group_symbols number_items_reads(6) set_group_symbols)
  have same: "?s\<lparr>watch_items := w\<rparr> = s\<lparr>watch_items := w\<rparr>" for w by (simp add: normalize_item_order_def number_items_def)
  from Cons.IH [OF reads(1)] show ?case
    unfolding fold_simps comp_def same reads(2,3) using reads(4,5) by (metis set_ConsD)
qed simp

end
