(* ===== verification/Account_Ops.thy ===== *)
theory Account_Ops
  imports Account_Facts
begin

text \<open>
  The operations of \<open>Market_Accounts\<close> as one type, the lists a user sees as an abstract state with the same operations, and
  for each operation the proof that it keeps the tables well-formed and does to the lists what it does on the abstract state.
\<close>

declare map_of_eq_Some_iff [simp del]

section \<open>Operations\<close>

datatype account_op =
    New_User "string \<Rightarrow> string" time string string
  | Change_Password "string \<Rightarrow> string" "string \<Rightarrow> string \<Rightarrow> bool" nat string string
  | Reset_Password "string \<Rightarrow> string" nat string
  | Enable_User nat bool
  | New_Group nat string
  | Rename_Group nat nat string
  | Delete_Group nat nat
  | Order_Groups nat "nat list"
  | Add_Symbol time nat nat symbol_lookup
  | Remove_Symbol nat nat string
  | Remove_Everywhere nat string
  | Monitor_Symbol time nat string bool
  | Order_Symbols nat nat "string list"
  | Move_Symbol nat nat nat string int
  | Restart

definition new_state :: "account_error + 'a \<times> account_store \<Rightarrow> account_error + account_store" where
  "new_state r = map_sum id snd r"

definition run_op :: "nat \<Rightarrow> account_op \<Rightarrow> account_store \<Rightarrow> account_error + account_store" where
  "run_op limit op s =
     (case op of
        New_User hash now name p \<Rightarrow> new_state (create_user hash now name p s)
      | Change_Password hash verify u p q \<Rightarrow> new_state (change_user_password hash verify u p q s)
      | Reset_Password hash u p \<Rightarrow> new_state (reset_password hash u p s)
      | Enable_User u b \<Rightarrow> new_state (set_user_enabled u b s)
      | New_Group u n \<Rightarrow> new_state (create_group u n s)
      | Rename_Group u g n \<Rightarrow> new_state (rename_group u g n s)
      | Delete_Group u g \<Rightarrow> delete_group u g s
      | Order_Groups u gs \<Rightarrow> reorder_groups u gs s
      | Add_Symbol now u g l \<Rightarrow> new_state (add_symbol limit now u g l s)
      | Remove_Symbol u g sy \<Rightarrow> remove_symbol u g sy s
      | Remove_Everywhere u sy \<Rightarrow> remove_symbol_everywhere u sy s
      | Monitor_Symbol now u sy b \<Rightarrow> new_state (set_monitoring_enabled now u sy b s)
      | Order_Symbols u g sys \<Rightarrow> reorder_symbols u g sys s
      | Move_Symbol u a b sy i \<Rightarrow> move_symbol u a b sy i s
      | Restart \<Rightarrow> Inr (migrate s))"

text \<open>A run of operations; one that fails leaves the tables as they are.\<close>

definition apply_op :: "nat \<Rightarrow> account_op \<Rightarrow> account_store \<Rightarrow> account_store" where
  "apply_op limit op s = (case run_op limit op s of Inl _ \<Rightarrow> s | Inr s' \<Rightarrow> s')"

definition run_ops :: "nat \<Rightarrow> account_op list \<Rightarrow> account_store \<Rightarrow> account_store" where
  "run_ops limit ops s = fold (apply_op limit) ops s"

section \<open>The lists\<close>

record watch_view =
  view_groups :: "nat \<Rightarrow> nat list"
  view_symbols :: "nat \<Rightarrow> string list"
  view_primary :: "nat \<Rightarrow> nat option"
  view_user :: nat
  view_group :: nat

definition view_of :: "account_store \<Rightarrow> watch_view" where
  "view_of s = \<lparr>view_groups = ids_of_groups s, view_symbols = group_symbols s, view_primary = primary_group s,
     view_user = next_account s, view_group = next_group s\<rparr>"

definition without :: "'a \<Rightarrow> 'a list \<Rightarrow> 'a list" where
  "without x xs = filter (\<lambda>y. y \<noteq> x) xs"

text \<open>After a start the primary group of a user has the symbols of the other groups as well, the missing ones at its end.\<close>

definition with_missing :: "'a list \<Rightarrow> 'a list \<Rightarrow> 'a list" where
  "with_missing = fold (\<lambda>x xs. if x \<in> set xs then xs else xs @ [x])"

definition completed :: "watch_view \<Rightarrow> nat \<Rightarrow> nat \<Rightarrow> string list" where
  "completed v u p = with_missing (concat (map (view_symbols v) (without p (view_groups v u)))) (view_symbols v p)"

definition view_restart :: "watch_view \<Rightarrow> watch_view" where
  "view_restart v = v\<lparr>view_symbols := (\<lambda>g.
     case find (\<lambda>u. view_primary v u = Some g) [0..<view_user v] of None \<Rightarrow> view_symbols v g | Some u \<Rightarrow> completed v u g)\<rparr>"

definition view_op :: "account_op \<Rightarrow> watch_view \<Rightarrow> watch_view" where
  "view_op op v =
     (case op of
        New_User _ _ _ _ \<Rightarrow>
          v\<lparr>view_groups := (view_groups v)(view_user v := [view_group v]),
            view_primary := (view_primary v)(view_user v := Some (view_group v)),
            view_user := view_user v + 1, view_group := view_group v + 1\<rparr>
      | New_Group u _ \<Rightarrow>
          v\<lparr>view_groups := (view_groups v)(u := view_groups v u @ [view_group v]), view_group := view_group v + 1\<rparr>
      | Delete_Group u g \<Rightarrow>
          v\<lparr>view_groups := (view_groups v)(u := without g (view_groups v u)), view_symbols := (view_symbols v)(g := [])\<rparr>
      | Order_Groups u gs \<Rightarrow> v\<lparr>view_groups := (view_groups v)(u := gs)\<rparr>
      | Add_Symbol _ u g l \<Rightarrow>
          (let sy = lookup_symbol l; p = the (view_primary v u); f = (view_symbols v)(g := view_symbols v g @ [sy]) in
           v\<lparr>view_symbols := (if sy \<in> set (f p) then f else f(p := f p @ [sy]))\<rparr>)
      | Remove_Symbol _ g sy \<Rightarrow> v\<lparr>view_symbols := (view_symbols v)(g := without sy (view_symbols v g))\<rparr>
      | Remove_Everywhere u sy \<Rightarrow>
          v\<lparr>view_symbols := (\<lambda>g. if g \<in> set (view_groups v u) then without sy (view_symbols v g) else view_symbols v g)\<rparr>
      | Order_Symbols _ g sys \<Rightarrow> v\<lparr>view_symbols := (view_symbols v)(g := sys)\<rparr>
      | Move_Symbol _ a b sy i \<Rightarrow>
          (let f = (view_symbols v)(a := without sy (view_symbols v a)) in v\<lparr>view_symbols := f(b := insert_at i sy (f b))\<rparr>)
      | Restart \<Rightarrow> view_restart v
      | _ \<Rightarrow> v)"

lemma insert_at_set: "set (insert_at i x xs) = insert x (set xs)"
  by (metis append_take_drop_id insert_at_def list.set(2) set_append Un_insert_right)

lemma new_state_Inr: "new_state r = Inr s' \<longleftrightarrow> (\<exists>v. r = Inr (v, s'))"
  by (cases r) (auto simp: new_state_def)

section \<open>Users\<close>

lemma wf_accountsD:
  assumes "wf_accounts limit s"
  shows "wf_dict (accounts s)" "wf_dict (watch_groups s)" "wf_dict (watch_items s)" "wf_tables s" "wf_names s" "wf_primary s" "wf_places s"
    "length (user_symbols s u) \<le> limit"
  using assms by (simp_all add: wf_accounts_def wf_tables_def)

lemma option_eqI: "(\<And>x. a = Some x \<longleftrightarrow> b = Some x) \<Longrightarrow> a = b"
  by (cases a; cases b) auto

lemma primary_group_eqI:
  assumes "wf_accounts limit s" "wf_accounts limit s'" "is_primary s' = is_primary s"
  shows "primary_group s' = primary_group s"
proof
  show "primary_group s' u = primary_group s u" for u
    using primary_group_iff [of s u] primary_group_iff [of s' u] assms by (intro option_eqI) (simp add: wf_accounts_def)
qed

text \<open>Only the rows of the users changed, and no name.\<close>

definition accounts_only :: "account_store \<Rightarrow> account_store \<Rightarrow> bool" where
  "accounts_only s s' \<longleftrightarrow> (\<exists>P f. (\<forall>r. a_name (f r) = a_name r) \<and> s' = s\<lparr>accounts := update_rows P f (accounts s)\<rparr>)"

lemma accounts_onlyI: "(\<And>r. a_name (f r) = a_name r) \<Longrightarrow> accounts_only s (s\<lparr>accounts := update_rows P f (accounts s)\<rparr>)"
  unfolding accounts_only_def by blast

lemma accounts_view:
  assumes "wf_accounts limit s" "accounts_only s s'"
  shows "wf_accounts limit s' \<and> view_of s' = view_of s"
proof -
  obtain P f where f: "\<And>r. a_name (f r) = a_name r" "s' = s\<lparr>accounts := update_rows P f (accounts s)\<rparr>"
    using assms(2) unfolding accounts_only_def by blast
  show ?thesis using accounts_changed [OF assms(1) f(1)] f(2)
    by (simp add: view_of_def fun_eq_iff ids_of_groups_def group_keys_def place_of_group_def [abs_def] group_symbols_def item_keys_def
        place_of_item_def [abs_def] primary_group_def)
qed

lemma with_user_Inr: "with_user u s = Inr (v, s') \<Longrightarrow> s' = s"
  by (auto simp: with_user_def split: sum.splits)

lemma password_ops:
  "change_user_password hash verify u p q s = Inr (v, s') \<Longrightarrow> accounts_only s s'"
  "reset_password hash u p s = Inr (v, s') \<Longrightarrow> accounts_only s s'"
  "set_user_enabled u b s = Inr (v, s') \<Longrightarrow> accounts_only s s'"
  unfolding change_user_password_def reset_password_def set_user_enabled_def
  by (auto split: sum.splits option.splits if_splits dest!: with_user_Inr intro!: accounts_onlyI simp: set_password_def)

section \<open>Groups\<close>

text \<open>A new group of a user, at the end.\<close>

lemma group_added:
  assumes wf: "wf_tables s" "wf_names s" "wf_places s" "\<And>v. length (user_symbols s v) \<le> limit"
    and r: "g_owner r = u" "u \<in> keys (accounts s)" "g_place r = length (ids_of_groups s u)"
    and title: "\<And>g' r'. dget (watch_groups s) g' = Some r' \<Longrightarrow> g_owner r' = u \<Longrightarrow> g_title r' \<noteq> g_title r"
    and s': "s' = s\<lparr>watch_groups := dset (next_group s) r (watch_groups s), next_group := next_group s + 1\<rparr>"
  shows "wf_tables s'" "wf_names s'" "wf_places s'" "length (user_symbols s' v) \<le> limit"
    "ids_of_groups s' = (ids_of_groups s)(u := ids_of_groups s u @ [next_group s])" "group_symbols s' = group_symbols s"
    "is_primary s' v h \<longleftrightarrow> is_primary s v h \<or> v = u \<and> h = next_group s \<and> g_primary r"
proof -
  define g where "g = next_group s"
  have dict: "wf_dict (watch_groups s)" "wf_dict (watch_groups s')" using wf(1) by (simp_all add: wf_tables_def s')
  have fresh: "dget (watch_groups s) g = None"
    using wf(1) unfolding wf_tables_def g_def by (metis dget_None_iff less_irrefl)
  have row: "dget (watch_groups s') h = (if h = g then Some r else dget (watch_groups s) h)" for h by (simp add: s' g_def)
  have items: "item_keys s' = item_keys s" "place_of_item s' = place_of_item s" "watch_items s' = watch_items s"
    by (simp_all add: s' fun_eq_iff item_keys_def place_of_item_def)
  show "group_symbols s' = group_symbols s" by (simp add: fun_eq_iff group_symbols_def items)
  have keys: "h \<in> set (group_keys s' w) \<longleftrightarrow> h \<in> set (group_keys s w) \<or> w = u \<and> h = g" for h w
    using fresh r(1) by (auto simp: set_group_keys dict row split: if_splits)
  have "g \<notin> set (ids_of_groups s w)" for w using fresh by (simp add: set_group_keys dict)
  then have place: "place_of_group s' (ids_of_groups s w ! i) = i" if "i < length (ids_of_groups s w)" for w i
    using place_nth_group [OF wf(3) that] nth_mem [OF that] by (auto simp: place_of_group_def row)
  have read: "ids_of_groups s' w = ((ids_of_groups s)(u := ids_of_groups s u @ [g])) w" "dense (place_of_group s') (group_keys s' w)" for w
  proof -
    define gs where "gs = ((ids_of_groups s)(u := ids_of_groups s u @ [g])) w"
    have "distinct gs" using \<open>g \<notin> set (ids_of_groups s u)\<close> dict by (simp add: gs_def distinct_group_ids)
    moreover have "h \<in> set gs \<longleftrightarrow> (\<exists>r. dget (watch_groups s') h = Some r \<and> g_owner r = w)" for h
      using keys [of h w] by (auto simp: gs_def set_group_keys dict)
    moreover have "place_of_group s' (gs ! i) = i" if "i < length gs" for i
    proof -
      have "place_of_group s' g = length (ids_of_groups s u)" by (simp add: place_of_group_def row r(3))
      then show ?thesis using that place by (cases "w = u") (auto simp: gs_def nth_append less_Suc_eq)
    qed
    ultimately show "ids_of_groups s' w = ((ids_of_groups s)(u := ids_of_groups s u @ [g])) w" "dense (place_of_group s') (group_keys s' w)"
      using group_idsI [OF dict(2), of gs w] by (simp_all add: gs_def)
  qed
  then show "ids_of_groups s' = (ids_of_groups s)(u := ids_of_groups s u @ [next_group s])" unfolding g_def by blast
  show "wf_tables s'" using wf(1) r(1,2) unfolding wf_tables_def by (auto simp: s' less_Suc_eq simp del: set_map split: if_splits)
  have "False" if "dget (watch_groups s) g' = Some r'" "g_owner r = g_owner r'" "g_title r = g_title r'" for g' r'
    using title [OF that(1)] that(2,3) r(1) by simp
  note clash = this this [OF _ sym sym]
  show "wf_names s'" using wf(2) clash unfolding wf_names_def row by (auto simp: s' split: if_splits)
  show "wf_places s'" using wf(3) read(2) by (simp add: wf_places_def items)
  have empty: "item_keys s g = []"
  proof -
    have "sy \<notin> set (item_keys s g)" for sy
      unfolding set_item_keys using wf(1) fresh unfolding wf_tables_def dget_None_iff by blast
    then show ?thesis by (rule empty_listI)
  qed
  have "(\<Union>g\<in>set (group_keys s' v). set (item_keys s g)) = (\<Union>g\<in>set (group_keys s v). set (item_keys s g))"
    using keys empty by (auto simp: set_eq_iff) 
  then show "length (user_symbols s' v) \<le> limit" using wf(4) [of v] by (simp add: length_user_symbols items)
  show "is_primary s' v h \<longleftrightarrow> is_primary s v h \<or> v = u \<and> h = next_group s \<and> g_primary r"
    using fresh r(1) unfolding is_primary_def row by (auto simp: g_def)
qed

lemma title_taken_iff:
  "wf_dict (watch_groups s) \<Longrightarrow>
     title_taken u n g s \<longleftrightarrow> (\<exists>g' r. dget (watch_groups s) g' = Some r \<and> Some g' \<noteq> g \<and> g_owner r = u \<and> g_title r = n)"
  by (auto simp: title_taken_def list_ex_iff dget_in_set)

lemma create_group_op:
  assumes wf: "wf_accounts limit s" and run: "create_group u n s = Inr (v, s')"
  shows "wf_accounts limit s' \<and> view_of s' = view_op (New_Group u n) (view_of s)"
proof -
  obtain t where t: "get_user u s = Inr t" "\<not> title_taken u (strip n) None s"
    using run by (auto simp: create_group_def checked_title_def Let_def split: sum.splits if_splits)
  define r where "r = \<lparr>g_owner = u, g_title = strip n, g_place = next_value (map (place_of_group s) (group_keys s u)), g_primary = False\<rparr>"
  have s': "s' = s\<lparr>watch_groups := dset (next_group s) r (watch_groups s), next_group := next_group s + 1\<rparr>"
    using run by (auto simp: create_group_def checked_title_def Let_def r_def split: sum.splits if_splits)
  have "u \<in> keys (accounts s)" using t(1) by (auto simp: get_user_def keys_dget split: option.splits)
  moreover have "g_place r = length (ids_of_groups s u)"
    using wf by (simp add: r_def wf_accounts_def wf_places_def dense_next ids_of_groups_def)
  moreover have "g_title r' \<noteq> g_title r" if "dget (watch_groups s) g' = Some r'" "g_owner r' = u" for g' r'
    using t(2) that wf by (auto simp: title_taken_iff wf_accounts_def wf_tables_def r_def)
  moreover have "g_owner r = u" by (simp add: r_def)
  ultimately have added: "wf_tables s'" "wf_names s'" "wf_places s'" "length (user_symbols s' w) \<le> limit"
      "ids_of_groups s' = (ids_of_groups s)(u := ids_of_groups s u @ [next_group s])" "group_symbols s' = group_symbols s"
      "is_primary s' w h \<longleftrightarrow> is_primary s w h \<or> w = u \<and> h = next_group s \<and> g_primary r" for w h
    using group_added [OF wf_accountsD(4,5,7) [OF wf] wf_accountsD(8) [OF wf], of r u s'] s' by blast+
  then have "is_primary s' = is_primary s" by (simp add: fun_eq_iff r_def)
  moreover from this have "wf_accounts limit s'" using added(1-4) wf by (simp add: wf_accounts_def wf_primary_def s')
  ultimately show ?thesis
    using added(5,6) primary_group_eqI [OF wf] by (simp add: view_of_def view_op_def s')
qed

lemma create_user_op:
  assumes wf: "wf_accounts limit s" and run: "create_user hash now n p s = Inr (v, s')"
  shows "wf_accounts limit s' \<and> view_of s' = view_op (New_User hash now n p) (view_of s)"
proof -
  define u where "u = next_account s"
  obtain n' p' where taken: "\<not> list_ex (\<lambda>(_, r). a_name r = n') (accounts s)"
    and s': "s' = s\<lparr>accounts := dset u \<lparr>a_name = n', a_hash = hash p', a_enabled = True, a_must_change = True, a_created = now\<rparr> (accounts s),
      next_account := u + 1,
      watch_groups := dset (next_group s) \<lparr>g_owner = u, g_title = primary_title, g_place = 0, g_primary = True\<rparr> (watch_groups s),
      next_group := next_group s + 1\<rparr>"
    using run by (auto simp: create_user_def u_def Let_def split: sum.splits if_splits)
  define a where "a = \<lparr>a_name = n', a_hash = hash p', a_enabled = True, a_must_change = True, a_created = now\<rparr>"
  define r where "r = \<lparr>g_owner = u, g_title = primary_title, g_place = 0, g_primary = True\<rparr>"
  have new: "g_owner r = u" "g_place r = 0" "g_primary r" "\<forall>(_, x)\<in>set (accounts s). a_name x \<noteq> a_name a"
    "s' = (s\<lparr>accounts := dset u a (accounts s), next_account := u + 1\<rparr>)
      \<lparr>watch_groups := dset (next_group s) r (watch_groups s), next_group := next_group s + 1\<rparr>"
    using taken s' by (auto simp: r_def a_def list_ex_iff)
  define m where "m = s\<lparr>accounts := dset u a (accounts s), next_account := u + 1\<rparr>"
  have fresh: "dget (accounts s) u = None"
    using wf_accountsD(4) [OF wf] unfolding wf_tables_def u_def by (metis dget_None_iff less_irrefl)
  have same: "group_keys m = group_keys s" "place_of_group m = place_of_group s" "item_keys m = item_keys s" "place_of_item m = place_of_item s"
      "is_primary m = is_primary s"
    by (simp_all add: m_def fun_eq_iff group_keys_def place_of_group_def item_keys_def place_of_item_def is_primary_def)
  have none: "dget (watch_groups s) g = Some x \<Longrightarrow> g_owner x \<noteq> u" for g x
    using wf_accountsD(4) [OF wf] fresh unfolding wf_tables_def keys_dget by blast
  then have "h \<notin> set (group_keys s u)" for h unfolding set_group_keys [OF wf_accountsD(2) [OF wf]] by blast
  then have "group_keys s u = []" by (rule empty_listI)
  then have ids: "ids_of_groups m u = []" by (simp add: ids_of_groups_def same)
  have "wf_tables m" using wf_accountsD(4) [OF wf] unfolding wf_tables_def by (auto simp: m_def u_def less_Suc_eq simp del: set_map)
  moreover have "wf_names m"
  proof -
    have "a_name x \<noteq> a_name a" if "dget (accounts s) w = Some x" for w x
      using new(4) dget_SomeD [OF that] by fast
    note clash = this this [THEN not_sym]
    show ?thesis using wf_accountsD(5) [OF wf] clash unfolding wf_names_def by (auto simp: m_def split: if_splits)
  qed
  moreover have "wf_places m" using wf_accountsD(7) [OF wf] by (simp add: wf_places_def same)
  moreover have "length (user_symbols m w) \<le> limit" for w using wf by (simp add: wf_accounts_def length_user_symbols same)
  moreover have "s' = m\<lparr>watch_groups := dset (next_group m) r (watch_groups m), next_group := next_group m + 1\<rparr>"
    by (simp add: new(5) m_def)
  moreover have "g_title x \<noteq> g_title r" if "dget (watch_groups m) g = Some x" "g_owner x = u" for g x
    using none that by (simp add: m_def)
  moreover have "u \<in> keys (accounts m)" by (simp add: m_def del: set_map)
  moreover have "g_place r = length (ids_of_groups m u)" by (simp add: ids new(2))
  ultimately have added: "wf_tables s'" "wf_names s'" "wf_places s'" "length (user_symbols s' w) \<le> limit"
      "ids_of_groups s' = (ids_of_groups m)(u := ids_of_groups m u @ [next_group m])" "group_symbols s' = group_symbols m"
      "is_primary s' w h \<longleftrightarrow> is_primary m w h \<or> w = u \<and> h = next_group m \<and> g_primary r" for w h
    using group_added [of m limit r u s'] new(1) by blast+
  have lists: "ids_of_groups m = ids_of_groups s" "group_symbols m = group_symbols s" "next_group m = next_group s"
    by (simp_all add: fun_eq_iff ids_of_groups_def group_symbols_def same) (simp add: m_def)
  have prim: "is_primary s' w h \<longleftrightarrow> (if w = u then h = next_group s else is_primary s w h)" for w h
    using added(7) none new(3) by (auto simp: same lists is_primary_def)
  have "wf_primary s'"
    unfolding wf_primary_def
  proof
    fix w assume "w \<in> keys (accounts s')"
    then have "w = u \<or> w \<in> keys (accounts s)" by (simp add: new(5) del: set_map)
    then show "\<exists>!h. is_primary s' w h" using wf_accountsD(6) [OF wf] unfolding wf_primary_def prim by (cases "w = u") auto
  qed
  then have wf': "wf_accounts limit s'" using added(1-4) by (simp add: wf_accounts_def)
  have "primary_group s' w = ((primary_group s)(u := Some (next_group s))) w" for w
    using primary_group_iff [of s' w] primary_group_iff [of s w] wf_accountsD(4,6) [OF wf] wf_accountsD(4,6) [OF wf'] prim
    by (intro option_eqI) auto
  then show ?thesis using wf' added(5,6) ids lists by (simp add: view_of_def view_op_def new(5) u_def fun_eq_iff)
qed

lemma rename_group_op:
  assumes wf: "wf_accounts limit s" and run: "rename_group u g n s = Inr (v, s')"
  shows "wf_accounts limit s' \<and> view_of s' = view_of s"
proof -
  obtain r where r: "dget (watch_groups s) g = Some r" "g_owner r = u" "\<not> title_taken u (strip n) (Some g) s"
    and s': "s' = s\<lparr>watch_groups := update_rows (\<lambda>k _. k = g) (\<lambda>r. r\<lparr>g_title := strip n\<rparr>) (watch_groups s)\<rparr>"
    using run by (auto simp: rename_group_def owned_group_def checked_title_def Let_def split: sum.splits option.splits if_splits)
  define G where "G = update_rows (\<lambda>k _. k = g) (\<lambda>r. r\<lparr>g_title := strip n\<rparr>) (watch_groups s)"
  have row: "dget G h = (if h = g then Some (r\<lparr>g_title := strip n\<rparr>) else dget (watch_groups s) h)" for h
    using r(1) by (auto simp: G_def option.map_ident)
  have names: "wf_names (s\<lparr>watch_groups := G\<rparr>)"
  proof -
    have "False" if "dget (watch_groups s) h = Some x" "h \<noteq> g" "g_owner x = u" "g_title x = strip n" for h x
      using r(3) that title_taken_iff [OF wf_accountsD(2) [OF wf]] by blast
    note clash = this this [OF _ _ sym sym]
    show ?thesis using wf_accountsD(5) [OF wf] r(1,2) clash unfolding wf_names_def by (auto simp: row split: if_splits)
  qed
  have "g_place (the (dget G (ids_of_groups s w ! i))) = i" if "i < length (ids_of_groups s w)" for w i
    using place_nth_group [OF wf_accountsD(7) [OF wf] that] r(1)
    by (cases "ids_of_groups s w ! i = g") (auto simp: row place_of_group_def)
  moreover have "map fst G = map fst (watch_groups s)" by (simp add: G_def)
  moreover have "map_option (\<lambda>r. (g_owner r, g_primary r)) (dget G h) = map_option (\<lambda>r. (g_owner r, g_primary r)) (dget (watch_groups s) h)" for h
    using r(1) by (simp add: row)
  ultimately have "wf_accounts limit s' \<and> ids_of_groups s' = ids_of_groups s \<and> group_symbols s' = group_symbols s \<and> is_primary s' = is_primary s"
    using groups_changed [OF wf _ _ names, of "ids_of_groups s"] wf_accountsD(2) [OF wf]
    by (simp add: s' distinct_group_ids flip: G_def)
  then show ?thesis using primary_group_eqI [OF wf] by (simp add: view_of_def s')
qed

text \<open>Titles stay distinct when every group keeps its owner and its title.\<close>

lemma names_kept:
  assumes "wf_names s" "accounts s' = accounts s"
    and row: "\<And>h x. dget (watch_groups s') h = Some x \<Longrightarrow>
      \<exists>y. dget (watch_groups s) h = Some y \<and> g_owner y = g_owner x \<and> g_title y = g_title x"
  shows "wf_names s'"
proof -
  have names: "h = h'" if "dget (watch_groups s) h = Some x" "dget (watch_groups s) h' = Some x'" "g_owner x = g_owner x'"
    "g_title x = g_title x'" for h x h' x'
    using assms(1) that unfolding wf_names_def by blast
  have "h = h'" if G: "dget (watch_groups s') h = Some x" "dget (watch_groups s') h' = Some x'" "g_owner x = g_owner x'"
    "g_title x = g_title x'" for h x h' x'
  proof -
    obtain y y' where "dget (watch_groups s) h = Some y" "g_owner y = g_owner x" "g_title y = g_title x"
      "dget (watch_groups s) h' = Some y'" "g_owner y' = g_owner x'" "g_title y' = g_title x'"
      using row [OF G(1)] row [OF G(2)] by blast
    then show ?thesis using names G(3,4) by simp
  qed
  then show ?thesis using assms(1,2) unfolding wf_names_def by simp
qed

text \<open>What numbering the groups does to a row.\<close>

lemma numbered_rows:
  "dget (number_rows put_group_place 0 gs G) h = None \<longleftrightarrow> dget G h = None"
  "map_option (\<lambda>r. (g_owner r, g_title r, g_primary r)) (dget (number_rows put_group_place 0 gs G) h)
     = map_option (\<lambda>r. (g_owner r, g_title r, g_primary r)) (dget G h)"
  "distinct gs \<Longrightarrow> i < length gs \<Longrightarrow> dget G (gs ! i) \<noteq> None \<Longrightarrow> g_place (the (dget (number_rows put_group_place 0 gs G) (gs ! i))) = i"
proof -
  show rows: "map_option (\<lambda>r. (g_owner r, g_title r, g_primary r)) (dget (number_rows put_group_place 0 gs G) h)
      = map_option (\<lambda>r. (g_owner r, g_title r, g_primary r)) (dget G h)"
    by (rule number_rows_keeps) (simp add: put_group_place_def)
  then show "dget (number_rows put_group_place 0 gs G) h = None \<longleftrightarrow> dget G h = None"
    by (cases "dget (number_rows put_group_place 0 gs G) h"; cases "dget G h") auto
  show "g_place (the (dget (number_rows put_group_place 0 gs G) (gs ! i))) = i" if "distinct gs" "i < length gs" "dget G (gs ! i) \<noteq> None"
    using dget_number_rows_nth [OF that(1,2), of put_group_place 0 G] that(3) by (auto simp: put_group_place_def)
qed

lemma reorder_groups_op:
  assumes wf: "wf_accounts limit s" and run: "reorder_groups u gs s = Inr s'"
  shows "wf_accounts limit s' \<and> view_of s' = view_op (Order_Groups u gs) (view_of s)"
proof -
  define G where "G = number_rows put_group_place 0 gs (watch_groups s)"
  have gs: "distinct gs" "set gs = set (group_keys s u)" and s': "s' = s\<lparr>watch_groups := G\<rparr>"
    using run by (auto simp: reorder_groups_def same_members_def G_def split: sum.splits if_splits)
  note dict = wf_accountsD(2) [OF wf]
  have rows: "map_option (\<lambda>r. (g_owner r, g_title r, g_primary r)) (dget G h)
      = map_option (\<lambda>r. (g_owner r, g_title r, g_primary r)) (dget (watch_groups s) h)" for h
    unfolding G_def by (rule numbered_rows(2))
  have owned: "dget (watch_groups s) h \<noteq> None" if "h \<in> set (group_keys s w)" for h w
    using that set_group_keys [OF dict] by auto
  define ids where "ids = (ids_of_groups s)(u := gs)"
  have ids: "distinct (ids w)" "set (ids w) = set (group_keys s w)" for w
    using gs dict by (simp_all add: ids_def distinct_group_ids)
  have place: "g_place (the (dget G (ids w ! i))) = i" if i: "i < length (ids w)" for w i
  proof (cases "w = u")
    case True
    then show ?thesis using numbered_rows(3) [OF gs(1), of i] i owned gs(2) nth_mem [of i gs] by (simp add: ids_def G_def)
  next
    case False
    then have "ids w ! i \<notin> set gs"
      using nth_mem [OF i] ids(2) [of w] gs(2) set_group_keys [OF dict] by auto
    then show ?thesis
      using False i place_nth_group [OF wf_accountsD(7) [OF wf], of i w] by (simp add: G_def dget_number_rows_other ids_def place_of_group_def)
  qed
  have names: "wf_names (s\<lparr>watch_groups := G\<rparr>)"
  proof -
    have "\<exists>x'. dget (watch_groups s) h = Some x' \<and> g_owner x' = g_owner x \<and> g_title x' = g_title x" if "dget G h = Some x" for h x
      using rows [of h] that by (cases "dget (watch_groups s) h") auto
    then show ?thesis using names_kept [OF wf_accountsD(5) [OF wf], of "s\<lparr>watch_groups := G\<rparr>"] by simp
  qed
  have "map_option (\<lambda>r. (g_owner r, g_primary r)) (dget G h) = map_option (\<lambda>r. (g_owner r, g_primary r)) (dget (watch_groups s) h)" for h
    using rows [of h] by (cases "dget G h"; cases "dget (watch_groups s) h") auto
  then have "wf_accounts limit s' \<and> ids_of_groups s' = ids \<and> group_symbols s' = group_symbols s \<and> is_primary s' = is_primary s"
    using groups_changed [OF wf _ _ names ids place] by (simp add: s' G_def)
  then show ?thesis using primary_group_eqI [OF wf] by (simp add: view_of_def view_op_def s' ids_def)
qed

lemma group_ids_delete:
  assumes "wf_dict (watch_groups s)" "watch_groups s' = delete_rows (\<lambda>k _. k = g) (watch_groups s)"
  shows "ids_of_groups s' u = without g (ids_of_groups s u)"
proof -
  have "map fst (filter (\<lambda>(_, r). g_owner r = u) (delete_rows (\<lambda>k _. k = g) d))
      = without g (map fst (filter (\<lambda>(_, r). g_owner r = u) d))" for d :: "(nat, group_row) dict"
    by (induction d) (auto simp: delete_rows_def without_def)
  then have groups: "group_keys s' u = without g (group_keys s u)" by (simp add: group_keys_def assms(2))
  have "place_of_group s' h = place_of_group s h" if "h \<in> set (group_keys s' u)" for h
    using that assms by (auto simp: groups without_def place_of_group_def split: option.splits)
  then show ?thesis
    unfolding ids_of_groups_def ordered_by_def groups without_def filter_sort by (intro sort_key_cong') (simp_all add: groups without_def)
qed

lemma delete_group_op:
  assumes wf: "wf_accounts limit s" and run: "delete_group u g s = Inr s'"
  shows "wf_accounts limit s' \<and> view_of s' = view_op (Delete_Group u g) (view_of s)"
proof -
  note dict = wf_accountsD(1-3) [OF wf]
  obtain r where r: "dget (watch_groups s) g = Some r" "g_owner r = u" "\<not> g_primary r"
    using run by (auto simp: delete_group_def owned_group_def split: sum.splits option.splits if_splits)
  define D where "D = delete_rows (\<lambda>k _. k = g) (watch_groups s)"
  define s1 where "s1 = s\<lparr>watch_groups := D, watch_items := delete_rows (\<lambda>(g', _) _. g' = g) (watch_items s)\<rparr>"
  define ids where "ids = (ids_of_groups s)(u := without g (ids_of_groups s u))"
  define G where "G = number_rows put_group_place 0 (ids u) D"
  have ids1: "ids_of_groups s1 u = ids u" using group_ids_delete [OF dict(2)] by (simp add: s1_def D_def ids_def)
  have s': "s' = s1\<lparr>watch_groups := G\<rparr>"
    using run by (auto simp: delete_group_def owned_group_def normalize_group_order_def s1_def D_def G_def ids1 [unfolded s1_def D_def, symmetric]
        split: sum.splits option.splits if_splits)
  have D: "wf_dict D" "dget D h = (if h = g then None else dget (watch_groups s) h)" for h
    using dict(2) by (auto simp: D_def split: option.splits)
  have rows: "map_option (\<lambda>r. (g_owner r, g_title r, g_primary r)) (dget G h)
      = (if h = g then None else map_option (\<lambda>r. (g_owner r, g_title r, g_primary r)) (dget (watch_groups s) h))" for h
    unfolding G_def numbered_rows(2) by (simp add: D(2))
  have wfG: "wf_dict G" using D(1) by (simp add: G_def)
  have row: "\<exists>x'. h \<noteq> g \<and> dget (watch_groups s) h = Some x' \<and> g_owner x' = g_owner x \<and> g_title x' = g_title x \<and> g_primary x' = g_primary x"
    if "dget G h = Some x" for h x
    using rows [of h] that by (cases "dget (watch_groups s) h") (auto split: if_splits)
  have row': "\<exists>x. dget G h = Some x \<and> g_owner x = g_owner x' \<and> g_primary x = g_primary x'"
    if "dget (watch_groups s) h = Some x'" "h \<noteq> g" for h x'
    using rows [of h] that by (cases "dget G h") auto
  have distinct: "distinct (ids w)" for w by (simp add: ids_def without_def distinct_group_ids [OF dict(2)])
  have mem: "h \<in> set (ids w) \<longleftrightarrow> (\<exists>x. dget G h = Some x \<and> g_owner x = w)" for h w
  proof -
    have "h \<in> set (ids w) \<longleftrightarrow> h \<noteq> g \<and> (\<exists>x. dget (watch_groups s) h = Some x \<and> g_owner x = w)"
      using r(1,2) by (auto simp: ids_def without_def set_group_keys [OF dict(2)])
    then show ?thesis using row [of h] row' [of h] by metis
  qed
  have place: "place_of_group s' (ids w ! i) = i" if i: "i < length (ids w)" for w i
  proof (cases "w = u")
    case True
    have "dget G (ids u ! i) \<noteq> None" using nth_mem [OF i] mem [of "ids w ! i" w] True by auto
    then have "dget D (ids u ! i) \<noteq> None" using numbered_rows(1) [of "ids u" D "ids u ! i"] by (simp add: G_def)
    then show ?thesis using numbered_rows(3) [OF distinct, of i u] i True by (simp add: place_of_group_def s' G_def)
  next
    case False
    have "ids w ! i \<notin> set (ids u)" "ids w ! i \<noteq> g"
      using nth_mem [OF i] mem [of "ids w ! i" w] mem [of "ids w ! i" u] False row [of g] by auto
    then show ?thesis using False i place_nth_group [OF wf_accountsD(7) [OF wf], of i w]
      by (simp add: ids_def place_of_group_def s' G_def dget_number_rows_other D(2))
  qed
  have read: "ids_of_groups s' w = ids w" "dense (place_of_group s') (group_keys s' w)" for w
    using group_idsI [of s' "ids w" w] wfG distinct mem place by (simp_all add: s')
  have items: "watch_items s' = delete_rows (\<lambda>(g', _) _. g' = g) (watch_items s)" by (simp add: s' s1_def)
  have table: "wf_dict (watch_items s')" using dict(3) by (simp add: items)
  have item: "dget (watch_items s') (h, sy) = (if h = g then None else dget (watch_items s) (h, sy))" for h sy
    using dict(3) by (auto simp: items split: option.splits)
  have none: "item_keys s' g = []" by (rule empty_listI) (simp add: set_item_keys keys_dget item)
  have kept: "group_symbols s' h = group_symbols s h" "dense (place_of_item s' h) (item_keys s' h)" if "h \<noteq> g" for h
    using group_symbols_cong [OF dict(3) table wf_accountsD(7) [OF wf], of h] that by (simp_all add: item)
  have lists: "group_symbols s' = (group_symbols s)(g := [])"
    using kept(1) none by (auto simp: fun_eq_iff group_symbols_def)
  have primary: "is_primary s' = is_primary s"
  proof (intro ext iffI)
    show "is_primary s w h" if "is_primary s' w h" for w h
      using that row [of h] by (auto simp: is_primary_def s')
    show "is_primary s' w h" if "is_primary s w h" for w h
      using that row' [of h] r by (cases "h = g") (auto simp: is_primary_def s')
  qed
  have "wf_tables s'"
    unfolding wf_tables_def
  proof (intro conjI allI impI ballI)
    fix h assume "h \<in> keys (watch_groups s')"
    then obtain x where "dget G h = Some x" by (auto simp: keys_dget s' simp del: set_map)
    then have "h \<in> keys (watch_groups s)" using row [of h x] by (auto simp: keys_dget simp del: set_map)
    then have "h < next_group s" using wf_accountsD(4) [OF wf] unfolding wf_tables_def by blast
    then show "h < next_group s'" by (simp add: s' s1_def)
  next
    fix h x assume "dget (watch_groups s') h = Some x"
    then obtain x' where "dget (watch_groups s) h = Some x'" "g_owner x' = g_owner x" using row [of h x] by (auto simp: s')
    then have "g_owner x \<in> keys (accounts s)" using wf_accountsD(4) [OF wf] unfolding wf_tables_def by metis
    then show "g_owner x \<in> keys (accounts s')" by (simp add: s' s1_def)
  next
    fix h sy assume "(h, sy) \<in> keys (watch_items s')"
    then have h: "h \<noteq> g" "(h, sy) \<in> keys (watch_items s)" unfolding keys_dget item by (auto split: if_splits)
    then obtain x where "dget (watch_groups s) h = Some x" using item_group [OF wf h(2)] unfolding keys_dget by blast
    then show "h \<in> keys (watch_groups s')" using row' [of h x] h(1) unfolding keys_dget by (auto simp: s')
  qed (use wf_accountsD(4) [OF wf] wfG table in \<open>auto simp: wf_tables_def s' s1_def\<close>)
  moreover have "wf_names s'"
  proof (rule names_kept [OF wf_accountsD(5) [OF wf]])
    show "\<exists>y. dget (watch_groups s) h = Some y \<and> g_owner y = g_owner x \<and> g_title y = g_title x" if "dget (watch_groups s') h = Some x" for h x
      using that row [of h x] by (auto simp: s')
  qed (simp add: s' s1_def)
  moreover have "wf_primary s'" using wf_accountsD(6) [OF wf] by (simp add: wf_primary_def primary) (simp add: s' s1_def)
  moreover have "wf_places s'"
  proof -
    have "dense (place_of_item s' h) (item_keys s' h)" for h
      using kept(2) [of h] none by (cases "h = g") (simp_all add: dense_def [of _ "[]"])
    then show ?thesis using read(2) by (simp add: wf_places_def)
  qed
  ultimately have parts: "wf_tables s'" "wf_names s'" "wf_primary s'" "wf_places s'" by blast+
  have cap: "length (user_symbols s' w) \<le> limit" for w
  proof -
    have "set (user_symbols s' w) \<subseteq> set (user_symbols s w)"
    proof
      fix sy assume "sy \<in> set (user_symbols s' w)"
      then obtain h where h: "h \<in> set (ids_of_groups s' w)" "sy \<in> set (group_symbols s' h)" by (auto simp: set_user_symbols)
      then have "h \<in> set (ids_of_groups s w)" "sy \<in> set (group_symbols s h)"
        using read(1) lists by (auto simp: ids_def without_def split: if_splits)
      then show "sy \<in> set (user_symbols s w)" by (auto simp: set_user_symbols)
    qed
    then show ?thesis using wf_accountsD(8) [OF wf, of w] card_mono [of "set (user_symbols s w)" "set (user_symbols s' w)"]
      by (simp add: user_symbols_def length_remdups_card_conv)
  qed
  with parts cap have wf': "wf_accounts limit s'" by (simp add: wf_accounts_def)
  have "ids_of_groups s' = ids" using read(1) by blast
  then show ?thesis using wf' lists primary_group_eqI [OF wf wf' primary]
    by (simp add: view_of_def view_op_def ids_def s' s1_def)
qed

section \<open>Symbols\<close>

lemma view_items:
  assumes "wf_accounts limit s" "wf_accounts limit s'" "s' = s\<lparr>watch_items := X\<rparr>"
  shows "view_of s' = (view_of s)\<lparr>view_symbols := group_symbols s'\<rparr>"
proof -
  have "is_primary s' = is_primary s" by (simp add: assms(3) fun_eq_iff is_primary_def)
  then have "primary_group s' = primary_group s" using primary_group_eqI [OF assms(1,2)] by simp
  moreover have keys: "group_keys s' = group_keys s" "place_of_group s' = place_of_group s"
    by (simp_all add: assms(3) fun_eq_iff group_keys_def place_of_group_def)
  moreover have "ids_of_groups s' = ids_of_groups s" by (rule ext) (simp add: ids_of_groups_def keys)
  ultimately show ?thesis by (simp add: view_of_def assms(3))
qed

lemma owned_group_Inr: "owned_group u g s = Inr r \<longleftrightarrow> dget (watch_groups s) g = Some r \<and> g_owner r = u"
  by (auto simp: owned_group_def split: option.splits)

lemma owned_in_keys:
  assumes "wf_accounts limit s" "owned_group u g s = Inr r"
  shows "g \<in> keys (watch_groups s)" "g \<in> set (group_keys s w) \<longleftrightarrow> w = u"
  using assms set_group_keys [OF wf_accountsD(2) [OF assms(1)], of g w] by (auto simp: owned_group_Inr keys_dget simp del: set_map)

text \<open>A new item at the end of a group.\<close>

lemma item_appended:
  assumes wf: "wf_accounts limit s" and t: "t \<in> keys (watch_groups s)" "dget (watch_items s) (t, sy) = None"
    and place: "i_place r = next_value (map (place_of_item s t) (item_keys s t))"
    and cap: "\<And>u. t \<in> set (group_keys s u) \<Longrightarrow> card (insert sy (set (user_symbols s u))) \<le> limit"
  shows "wf_accounts limit (put_item t sy r s) \<and> group_symbols (put_item t sy r s) = (group_symbols s)(t := group_symbols s t @ [sy])"
proof -
  note dict = wf_accountsD(3) [OF wf] and places = wf_accountsD(7) [OF wf]
  have len: "i_place r = length (group_symbols s t)"
    using place places by (simp add: wf_places_def dense_next group_symbols_def)
  have small: "i_place r' < length (group_symbols s t)" if r': "dget (watch_items s) (t, sy') = Some r'" for sy' r'
  proof -
    have "place_of_item s t sy' \<in> place_of_item s t ` set (item_keys s t)" using r' by (simp add: set_item_keys keys_dget)
    then show ?thesis using dense_places [of "place_of_item s t" "item_keys s t"] places r'
      by (simp add: wf_places_def place_of_item_def group_symbols_def)
  qed
  have rows: "dget (dset (t, sy) r (watch_items s)) k = (if k = (t, sy) then Some r else map_option
      (\<lambda>r'. if fst k = t \<and> i_place r' \<ge> i_place r then r'\<lparr>i_place := i_place r' + 1\<rparr> else r') (dget (watch_items s) k))" for k
    using small [of "snd k"] len by (cases k) (auto simp: map_option_case split: option.splits)
  show ?thesis
    using item_inserted [OF wf t wf_dset [OF dict] rows refl _ cap] len by (simp add: put_item_def)
qed

lemma set_user_symbols_lists: "set (user_symbols s u) = (\<Union>g\<in>set (ids_of_groups s u). set (group_symbols s g))"
  by (simp add: set_user_symbols)

lemma card_user_symbols: "wf_accounts limit s \<Longrightarrow> card (set (user_symbols s u)) \<le> limit"
  using wf_accountsD(8) [of limit s u] by (simp add: user_symbols_def length_remdups_card_conv)

lemma add_symbol_op:
  assumes wf: "wf_accounts limit s" and run: "add_symbol limit now u g l s = Inr (v, s')"
  shows "wf_accounts limit s' \<and> view_of s' = view_op (Add_Symbol now u g l) (view_of s)"
proof -
  define sy where "sy = lookup_symbol l"
  define s1 where "s1 = put_item g sy (new_item now g l s) s"
  obtain r p where r: "owned_group u g s = Inr r" "primary_group s u = Some p" "dget (watch_items s) (g, sy) = None"
    and cap: "length (user_symbols s u) < limit \<or> sy \<in> set (user_symbols s u)"
    and s': "s' = (if g = p then s1 else put_primary_item now p l s1)"
    using run by (auto simp: add_symbol_def Let_def s1_def sy_def not_le split: sum.splits option.splits if_splits)
  note owned = owned_in_keys [OF wf r(1)]
  have bound: "card (insert sy (set (user_symbols s u))) \<le> limit"
  proof -
    have "length (user_symbols s u) = card (set (user_symbols s u))" by (simp add: user_symbols_def length_remdups_card_conv)
    then show ?thesis using cap card_user_symbols [OF wf, of u] by (auto simp: card_insert_if insert_absorb)
  qed
  have first: "wf_accounts limit s1" "group_symbols s1 = (group_symbols s)(g := group_symbols s g @ [sy])"
    using item_appended [OF wf owned(1) r(3), of "new_item now g l s"] owned(2) bound by (auto simp: s1_def new_item_def)
  obtain X1 where X1: "s1 = s\<lparr>watch_items := X1\<rparr>" by (simp add: s1_def put_item_def)
  have known: "sy \<in> set (user_symbols s1 u)"
  proof -
    have "group_keys s1 = group_keys s" by (simp add: X1 fun_eq_iff group_keys_def)
    then have "g \<in> set (ids_of_groups s1 u)" "sy \<in> set (group_symbols s1 g)" using owned(2) [of u] first(2) by simp_all
    then show ?thesis unfolding set_user_symbols_lists by blast
  qed
  have prim: "is_primary s u p" using r(2) primary_group_iff [OF wf_accountsD(4,6) [OF wf]] by simp
  then have p: "p \<in> keys (watch_groups s1)" "p \<in> set (group_keys s1 w) \<longleftrightarrow> w = u" for w
    using set_group_keys [OF wf_accountsD(2) [OF first(1)]] by (auto simp: is_primary_def X1 keys_dget simp del: set_map)
  define f where "f = group_symbols s1"
  have final: "wf_accounts limit s' \<and> group_symbols s' = (if sy \<in> set (f p) then f else f(p := f p @ [sy])) \<and> s' = s\<lparr>watch_items := watch_items s'\<rparr>"
  proof (cases "g = p")
    case True
    then show ?thesis using s' first by (auto simp: f_def X1)
  next
    case other: False
    show ?thesis
    proof (cases "dget (watch_items s1) (p, sy)")
      case None
      then have "sy \<notin> set (f p)" by (simp add: f_def set_item_keys keys_dget)
      moreover have "s' = put_item p sy (new_item now p l s1) s1" using s' other None by (simp add: put_primary_item_def sy_def)
      ultimately show ?thesis
        using item_appended [OF first(1) p(1) None, of "new_item now p l s1"] p(2) known card_user_symbols [OF first(1)]
        by (auto simp: f_def new_item_def insert_absorb put_item_def X1)
    next
      case (Some r')
      then have "sy \<in> set (f p)" by (simp add: f_def set_item_keys keys_dget)
      define r'' where "r'' = r'\<lparr>i_name := lookup_name l, i_market := lookup_market l, i_since := Some now\<rparr>"
      have "s' = s1\<lparr>watch_items := dset (p, sy) r'' (watch_items s1)\<rparr>"
        using s' other Some by (simp add: put_primary_item_def sy_def put_item_def r''_def)
      moreover have "map_option i_place (dget (dset (p, sy) r'' (watch_items s1)) k) = map_option i_place (dget (watch_items s1) k)" for k
        using Some by (simp add: r''_def)
      note items_kept [OF first(1) wf_dset [OF wf_accountsD(3) [OF first(1)]] this]
      ultimately show ?thesis using \<open>sy \<in> set (f p)\<close> by (simp add: f_def X1)
    qed
  qed
  then have "view_of s' = (view_of s)\<lparr>view_symbols := group_symbols s'\<rparr>" using view_items [OF wf] by blast
  then show ?thesis using final r(2) first(2) by (simp add: view_op_def view_of_def f_def sy_def Let_def)
qed

lemma without_id: "x \<notin> set xs \<Longrightarrow> without x xs = xs"
  by (auto simp: without_def intro: filter_True)

text \<open>Deleting items of a user's groups and closing the gaps.\<close>

lemma items_removed:
  assumes wf: "wf_accounts limit s" and others: "\<And>g sy. P g sy \<Longrightarrow> g \<notin> set gs \<Longrightarrow> sy \<notin> set (item_keys s g)"
    and s': "s' = fold normalize_item_order gs (s\<lparr>watch_items := delete_rows (\<lambda>(g, sy) _. P g sy) (watch_items s)\<rparr>)"
  shows "wf_accounts limit s' \<and> group_symbols s' = (\<lambda>g. filter (\<lambda>sy. \<not> P g sy) (group_symbols s g)) \<and> s' = s\<lparr>watch_items := watch_items s'\<rparr>"
proof -
  define X where "X = delete_rows (\<lambda>(g, sy) _. P g sy) (watch_items s)"
  define s1 where "s1 = s\<lparr>watch_items := X\<rparr>"
  note dict = wf_accountsD(3) [OF wf]
  have lists: "group_symbols s1 g = filter (\<lambda>sy. \<not> P g sy) (group_symbols s g)" for g
    unfolding s1_def X_def by (rule group_symbols_delete [OF dict])
  have table: "wf_dict (watch_items s1)" using dict by (simp add: s1_def X_def)
  have row: "dget X (g, sy) = (if P g sy then None else dget (watch_items s) (g, sy))" for g sy
    using dict by (auto simp: X_def split: option.splits)
  have dense: "dense (place_of_item s1 g) (item_keys s1 g)" if "g \<notin> set gs" for g
  proof -
    have "dget X (g, sy) = dget (watch_items s) (g, sy)" for sy
      using others [of g sy] that by (auto simp: row set_item_keys keys_dget)
    then show ?thesis using group_symbols_cong(2) [OF dict table wf_accountsD(7) [OF wf], of g] by (simp add: s1_def)
  qed
  note fold = normalize_reads [OF table, of gs, folded s'[folded X_def s1_def]]
  have s'': "s' = s\<lparr>watch_items := watch_items s'\<rparr>"
  proof -
    have "s' = s1\<lparr>watch_items := watch_items s'\<rparr>" using fold by blast
    then show ?thesis by (simp add: s1_def)
  qed
  have keys: "keys (watch_items s') = keys X" using fold by (simp add: s1_def)
  have sub: "keys X \<subseteq> keys (watch_items s)"
  proof
    fix k assume "k \<in> keys X"
    then show "k \<in> keys (watch_items s)" using row [of "fst k" "snd k"] unfolding keys_dget by (auto split: if_splits)
  qed
  have "wf_accounts limit (s\<lparr>watch_items := watch_items s'\<rparr>)"
  proof (rule items_wf [OF wf])
    show "wf_dict (watch_items s')" using fold by blast
    show "g \<in> keys (watch_groups s)" if "(g, sy) \<in> keys (watch_items s')" for g sy
      using that item_group [OF wf, of g sy] keys sub by blast
    show "dense (place_of_item (s\<lparr>watch_items := watch_items s'\<rparr>) g) (item_keys (s\<lparr>watch_items := watch_items s'\<rparr>) g)" for g
      using fold dense [of g] s'' by metis
    show "card (\<Union>g\<in>set (group_keys s u). {sy. (g, sy) \<in> keys (watch_items s')}) \<le> limit" for u
      using cap_subset [OF wf sub, of u] keys by simp
  qed
  then show ?thesis using s'' fold lists by auto
qed

lemma remove_symbol_op:
  assumes wf: "wf_accounts limit s" and run: "remove_symbol u g sy s = Inr s'"
  shows "wf_accounts limit s' \<and> view_of s' = view_op (Remove_Symbol u g sy) (view_of s)"
proof -
  have split: "(\<lambda>k (_ :: item_row). k = (g, sy)) = (\<lambda>(g', sy') _. g' = g \<and> sy' = sy)" by auto
  have "s' = fold normalize_item_order [g] (s\<lparr>watch_items := delete_rows (\<lambda>(g', sy') _. g' = g \<and> sy' = sy) (watch_items s)\<rparr>)"
    using run by (auto simp: remove_symbol_def delete_item_def split split: sum.splits if_splits)
  from items_removed [OF wf _ this]
  have removed: "wf_accounts limit s'" "s' = s\<lparr>watch_items := watch_items s'\<rparr>"
      "group_symbols s' = (\<lambda>g'. filter (\<lambda>sy'. \<not> (g' = g \<and> sy' = sy)) (group_symbols s g'))"
    by simp_all
  then have "group_symbols s' = (group_symbols s)(g := without sy (group_symbols s g))" by (auto simp: without_def)
  then show ?thesis using removed(1) view_items [OF wf removed(1,2)] by (simp add: view_op_def view_of_def)
qed

lemma remove_everywhere_op:
  assumes wf: "wf_accounts limit s" and run: "remove_symbol_everywhere u sy s = Inr s'"
  shows "wf_accounts limit s' \<and> view_of s' = view_op (Remove_Everywhere u sy) (view_of s)"
proof -
  define gs where "gs = filter (\<lambda>g. dget (watch_items s) (g, sy) \<noteq> None) (group_keys s u)"
  have "s' = fold normalize_item_order gs (s\<lparr>watch_items := delete_rows (\<lambda>(g', sy') _. sy' = sy \<and> g' \<in> set (group_keys s u)) (watch_items s)\<rparr>)"
    using run by (auto simp: remove_symbol_everywhere_def Let_def gs_def split: if_splits)
  from items_removed [OF wf _ this]
  have removed: "wf_accounts limit s'" "s' = s\<lparr>watch_items := watch_items s'\<rparr>"
      "group_symbols s' = (\<lambda>g. filter (\<lambda>sy'. \<not> (sy' = sy \<and> g \<in> set (group_keys s u))) (group_symbols s g))"
    by (auto simp: gs_def set_item_keys keys_dget)
  then have "group_symbols s' = (\<lambda>g. if g \<in> set (ids_of_groups s u) then without sy (group_symbols s g) else group_symbols s g)"
    by (auto simp: without_def)
  then show ?thesis using removed(1) view_items [OF wf removed(1,2)] by (simp add: view_op_def view_of_def cong: if_cong)
qed

lemma monitoring_op:
  assumes wf: "wf_accounts limit s" and run: "set_monitoring_enabled now u sy b s = Inr (v, s')"
  shows "wf_accounts limit s' \<and> view_of s' = view_of s"
proof -
  define X where "X = update_rows (\<lambda>(g, sy') _. sy' = sy \<and> g \<in> set (group_keys s u))
    (\<lambda>r. if b then r\<lparr>i_monitored := True, i_since := Some now\<rparr> else r\<lparr>i_monitored := False\<rparr>) (watch_items s)"
  have s': "s' = s\<lparr>watch_items := X\<rparr>"
    using run unfolding set_monitoring_enabled_def Let_def X_def by (auto split: if_splits)
  have "map_option i_place (dget X k) = map_option i_place (dget (watch_items s) k)" for k
    by (auto simp: X_def map_option_case split: option.splits)
  then have "wf_accounts limit s'" "group_symbols s' = group_symbols s"
    using items_kept [OF wf, of X] wf_accountsD(3) [OF wf] by (simp_all add: s') (simp_all add: X_def)
  then show ?thesis using view_items [OF wf _ s'] by (simp add: view_of_def)
qed

lemma reorder_symbols_op:
  assumes wf: "wf_accounts limit s" and run: "reorder_symbols u g sys s = Inr s'"
  shows "wf_accounts limit s' \<and> view_of s' = view_op (Order_Symbols u g sys) (view_of s)"
proof -
  have sys: "distinct sys" "set sys = set (item_keys s g)" and s': "s' = number_items g sys s"
    using run by (auto simp: reorder_symbols_def same_members_def split: sum.splits if_splits)
  note reads = number_items_reads [OF wf_accountsD(3) [OF wf] sys, folded s']
  have s'': "s' = s\<lparr>watch_items := watch_items s'\<rparr>" by (simp add: s' number_items_def)
  have "wf_accounts limit (s\<lparr>watch_items := watch_items s'\<rparr>)"
  proof (rule items_wf [OF wf reads(1)])
    show "h \<in> keys (watch_groups s)" if "(h, sy) \<in> keys (watch_items s')" for h sy
      using that item_group [OF wf, of h sy] reads(2) by blast
    have "dense (place_of_item s' h) (item_keys s' h)" for h
      using reads(4) reads(6) [of h] wf_accountsD(7) [OF wf] by (cases "h = g") (simp_all add: wf_places_def)
    then show "dense (place_of_item (s\<lparr>watch_items := watch_items s'\<rparr>) h) (item_keys (s\<lparr>watch_items := watch_items s'\<rparr>) h)" for h
      using s'' by metis
    show "card (\<Union>g\<in>set (group_keys s w). {sy. (g, sy) \<in> keys (watch_items s')}) \<le> limit" for w
      using cap_subset [OF wf, of "watch_items s'" w] reads(2) by simp
  qed
  then have wf': "wf_accounts limit s'" using s'' by simp
  have "group_symbols s' = (group_symbols s)(g := sys)" using reads(3,5) by (auto simp: fun_eq_iff)
  then show ?thesis using wf' view_items [OF wf wf' s''] by (simp add: view_op_def view_of_def)
qed

lemma move_symbol_op:
  assumes wf: "wf_accounts limit s" and run: "move_symbol u a b sy index s = Inr s'"
  shows "wf_accounts limit s' \<and> view_of s' = view_op (Move_Symbol u a b sy index) (view_of s)"
proof -
  obtain ra rb r where own: "owned_group u a s = Inr ra" "owned_group u b s = Inr rb" "dget (watch_items s) (a, sy) = Some r"
    using run by (auto simp: move_symbol_def split: sum.splits option.splits)
  show ?thesis
  proof (cases "a = b")
    case True
    define sys where "sys = insert_at index sy (without sy (group_symbols s a))"
    have "reorder_symbols u a sys s = Inr s'"
      using run own True by (auto simp: move_symbol_def sys_def without_def split: sum.splits)
    from reorder_symbols_op [OF wf this] show ?thesis
      using True by (simp add: view_op_def view_of_def sys_def Let_def)
  next
    case False
    define s1 where "s1 = normalize_item_order a (delete_item a sy s)"
    define i where "i = nat (max 0 (min index (int (length (group_symbols s1 b)))))"
    define X where "X = dset (b, sy) (r\<lparr>i_place := i\<rparr>) (update_rows (\<lambda>(g, _) r'. g = b \<and> i_place r' \<ge> i)
      (\<lambda>r'. r'\<lparr>i_place := i_place r' + 1\<rparr>) (watch_items s1))"
    have absent: "dget (watch_items s) (b, sy) = None" and s': "s' = s1\<lparr>watch_items := X\<rparr>"
      using run own False by (auto simp: move_symbol_def Let_def s1_def i_def X_def put_item_def split: sum.splits if_splits)
    have "remove_symbol u a sy s = Inr s1" using own by (simp add: remove_symbol_def s1_def)
    from remove_symbol_op [OF wf this]
    have s1: "wf_accounts limit s1" "view_of s1 = (view_of s)\<lparr>view_symbols := (group_symbols s)(a := without sy (group_symbols s a))\<rparr>"
      by (simp_all add: view_op_def view_of_def)
    then have lists: "group_symbols s1 = (group_symbols s)(a := without sy (group_symbols s a))" "ids_of_groups s1 = ids_of_groups s"
      by (simp_all add: view_of_def)
    have groups: "watch_groups s1 = watch_groups s" by (simp add: s1_def normalize_item_order_def number_items_def delete_item_def)
    have "sy \<notin> set (group_symbols s1 b)" using absent False by (simp add: lists set_item_keys keys_dget)
    then have none: "dget (watch_items s1) (b, sy) = None" by (simp add: set_item_keys keys_dget)
    have b: "b \<in> keys (watch_groups s1)" using owned_in_keys(1) [OF wf own(2)] groups by simp
    have cap: "card (insert sy (set (user_symbols s1 w))) \<le> limit" if "b \<in> set (group_keys s1 w)" for w
    proof -
      have "w = u" using that owned_in_keys(2) [OF wf own(2)] groups by (simp add: group_keys_def)
      then have "a \<in> set (ids_of_groups s w)" "sy \<in> set (group_symbols s a)"
        using owned_in_keys(2) [OF wf own(1)] own(3) by (simp_all add: set_item_keys keys_dget)
      then have "insert sy (set (user_symbols s1 w)) \<subseteq> set (user_symbols s w)"
        unfolding set_user_symbols_lists lists by (auto simp: without_def split: if_splits)
      then have "card (insert sy (set (user_symbols s1 w))) \<le> card (set (user_symbols s w))" by (intro card_mono) simp_all
      then show ?thesis using card_user_symbols [OF wf, of w] by simp
    qed
    have rows: "dget X k = (if k = (b, sy) then Some (r\<lparr>i_place := i\<rparr>) else map_option
        (\<lambda>r'. if fst k = b \<and> i_place r' \<ge> i then r'\<lparr>i_place := i_place r' + 1\<rparr> else r') (dget (watch_items s1) k))" for k
      by (cases k) (simp add: X_def cong: if_cong)
    have table: "wf_dict X" unfolding X_def by (intro wf_dset) (simp add: wf_accountsD(3) [OF s1(1)])
    have i: "i_place (r\<lparr>i_place := i\<rparr>) = i" "i \<le> length (group_symbols s1 b)" by (simp_all add: i_def)
    note inserted = item_inserted [OF s1(1) b none table rows i cap]
    have "take i (group_symbols s1 b) @ sy # drop i (group_symbols s1 b) = insert_at index sy (group_symbols s b)"
      using False by (simp add: insert_at_def i_def lists Let_def)
    then have "group_symbols s' = (group_symbols s1)(b := insert_at index sy (group_symbols s b))" using inserted(2) by (simp add: s')
    moreover have "wf_accounts limit s'" using inserted(1) by (simp add: s')
    moreover have "view_of s' = (view_of s1)\<lparr>view_symbols := group_symbols s'\<rparr>" using view_items [OF s1(1) calculation(2) s'] .
    ultimately show ?thesis using s1(2) False by (simp add: view_op_def view_of_def lists Let_def fun_upd_twist)
  qed
qed

section \<open>Restart\<close>

lemma with_missing_set: "set (with_missing xs ys) = set xs \<union> set ys"
  by (induction xs arbitrary: ys) (auto simp: with_missing_def)

lemma items_unchanged_groups:
  "group_keys (s\<lparr>watch_items := X\<rparr>) = group_keys s" "is_primary (s\<lparr>watch_items := X\<rparr>) = is_primary s"
  by (simp_all add: fun_eq_iff group_keys_def is_primary_def)

text \<open>The items that are copied into the primary group of their owner.\<close>

lemma copy_item_row:
  "dget (watch_items (copy_item p w s)) k = (if k = (p, item_symbol w) \<and> dget (watch_items s) k = None
     then Some \<lparr>i_name = item_name w, i_market = item_market w, i_place = next_value (map (place_of_item s p) (item_keys s p)),
       i_monitored = True, i_since = None\<rparr> else dget (watch_items s) k)"
  by (auto simp: copy_item_def put_item_def)

lemma copied_old: "dget (watch_items s) k = Some r \<Longrightarrow> dget (watch_items (fold (copy_item p) ws s)) k = Some r"
  by (induction ws arbitrary: s) (simp_all add: copy_item_row)

lemma copied_new:
  "dget (watch_items s) k = None \<Longrightarrow> dget (watch_items (fold (copy_item p) ws s)) k = Some r \<Longrightarrow> fst k = p \<and> i_monitored r \<and> i_since r = None"
proof (induction ws arbitrary: s)
  case (Cons w ws)
  show ?case
  proof (cases "dget (watch_items (copy_item p w s)) k")
    case None
    then show ?thesis using Cons.IH [OF None] Cons.prems(2) by simp
  next
    case (Some r')
    then have "r = r'" using Cons.prems(2) copied_old [OF Some, of p ws] by simp
    then show ?thesis using Some Cons.prems(1) by (auto simp: copy_item_row split: if_splits)
  qed
qed simp

lemma copied_only_items: "\<exists>X. fold (copy_item p) ws s = s\<lparr>watch_items := X\<rparr>"
proof (induction ws arbitrary: s)
  case (Cons w ws)
  obtain X where "copy_item p w s = s\<lparr>watch_items := X\<rparr>"
  proof
    show "copy_item p w s = s\<lparr>watch_items := watch_items (copy_item p w s)\<rparr>" by (simp add: copy_item_def put_item_def)
  qed
  then show ?case using Cons.IH [of "copy_item p w s"] by simp
qed (metis account_store.surjective account_store.update_convs(3) fold_simps(1))

lemma items_copied:
  assumes "wf_accounts limit s" "is_primary s u p" "\<And>w. w \<in> set ws \<Longrightarrow> item_symbol w \<in> set (user_symbols s u)"
  shows "wf_accounts limit (fold (copy_item p) ws s)
    \<and> group_symbols (fold (copy_item p) ws s) = (group_symbols s)(p := with_missing (map item_symbol ws) (group_symbols s p))"
  using assms
proof (induction ws arbitrary: s)
  case Nil
  then show ?case by (simp add: with_missing_def)
next
  case (Cons w ws)
  define sy where "sy = item_symbol w"
  define s1 where "s1 = copy_item p w s"
  show ?case
  proof (cases "dget (watch_items s) (p, sy)")
    case (Some r)
    then have "s1 = s" "sy \<in> set (group_symbols s p)" by (simp_all add: s1_def copy_item_def sy_def set_item_keys keys_dget)
    then show ?thesis using Cons.IH [OF Cons.prems(1,2)] Cons.prems(3) by (simp add: with_missing_def s1_def sy_def)
  next
    case None
    define r where "r = \<lparr>i_name = item_name w, i_market = item_market w, i_place = next_value (map (place_of_item s p) (item_keys s p)),
         i_monitored = True, i_since = None\<rparr>"
    have s1: "s1 = put_item p sy r s" using None by (simp add: s1_def copy_item_def sy_def r_def)
    have p: "p \<in> keys (watch_groups s)" "p \<in> set (group_keys s v) \<longleftrightarrow> v = u" for v
      using Cons.prems(2) set_group_keys [OF wf_accountsD(2) [OF Cons.prems(1)]] by (auto simp: is_primary_def keys_dget simp del: set_map)
    have known: "sy \<in> set (user_symbols s u)" using Cons.prems(3) by (simp add: sy_def)
    have new: "wf_accounts limit s1" "group_symbols s1 = (group_symbols s)(p := group_symbols s p @ [sy])"
      using item_appended [OF Cons.prems(1) p(1) None, of r] p(2) known card_user_symbols [OF Cons.prems(1)]
      by (auto simp: s1 r_def insert_absorb)
    have prim: "is_primary s1 u p" using Cons.prems(2) by (simp add: s1 put_item_def is_primary_def)
    have ids: "ids_of_groups s1 = ids_of_groups s" by (simp add: s1 put_item_def fun_eq_iff ids_of_groups_def group_keys_def place_of_group_def [abs_def])
    have "set (user_symbols s u) \<subseteq> set (user_symbols s1 u)"
      unfolding set_user_symbols_lists ids new(2) by auto
    then have "item_symbol w' \<in> set (user_symbols s1 u)" if "w' \<in> set ws" for w' using Cons.prems(3) that by auto
    note rest = Cons.IH [OF new(1) prim this]
    have "sy \<notin> set (group_symbols s p)" using None by (simp add: set_item_keys keys_dget)
    then have "with_missing (map item_symbol (w # ws)) (group_symbols s p) = with_missing (map item_symbol ws) (group_symbols s1 p)"
      by (simp add: with_missing_def new(2) sy_def)
    then show ?thesis using rest by (auto simp: s1_def [symmetric] new(2) fun_eq_iff)
  qed
qed

lemma fill_since_op:
  assumes wf: "wf_accounts limit s"
  shows "wf_accounts limit (fill_since s)" "view_of (fill_since s) = view_of s" "watch_groups (fill_since s) = watch_groups s"
    "accounts (fill_since s) = accounts s"
    and "\<And>k. dget (watch_items (fill_since s)) k = map_option (\<lambda>r. if i_monitored r \<and> i_since r = None then r\<lparr>i_since := owner_created s (fst k)\<rparr> else r)
      (dget (watch_items s) k)"
proof -
  have rows: "dget (map (\<lambda>((g, sy), r). ((g, sy), F g r)) d) k = map_option (F (fst k)) (dget d k)" for F and d :: "(nat \<times> string, item_row) dict" and k
    by (induction d) auto
  have "map fst (watch_items (fill_since s)) = map fst (watch_items s)" by (simp add: fill_since_def comp_def case_prod_unfold)
  then have dict: "wf_dict (watch_items (fill_since s))" using wf_accountsD(3) [OF wf] by metis
  show items: "\<And>k. dget (watch_items (fill_since s)) k = map_option (\<lambda>r. if i_monitored r \<and> i_since r = None then r\<lparr>i_since := owner_created s (fst k)\<rparr> else r)
      (dget (watch_items s) k)" by (simp add: fill_since_def rows)
  have fill: "fill_since s = s\<lparr>watch_items := watch_items (fill_since s)\<rparr>" by (simp add: fill_since_def)
  have places: "map_option i_place (dget (watch_items (fill_since s)) k) = map_option i_place (dget (watch_items s) k)" for k
    by (cases "dget (watch_items s) k") (simp_all add: items)
  show wf': "wf_accounts limit (fill_since s)" using items_kept(1) [OF wf dict places] fill by simp
  show "view_of (fill_since s) = view_of s" using view_items [OF wf wf' fill] items_kept(2) [OF wf dict places] fill by (simp add: view_of_def)
  show "watch_groups (fill_since s) = watch_groups s" "accounts (fill_since s) = accounts s" by (simp_all add: fill_since_def)
qed

lemma mark_primary_id:
  assumes "wf_accounts limit s" "is_primary s u p"
  shows "mark_primary p s = s"
proof -
  have "update_rows (\<lambda>k _. k = p) (\<lambda>r. r\<lparr>g_primary := True\<rparr>) (watch_groups s) = watch_groups s"
    unfolding update_rows_def
  proof (intro map_idI)
    fix x assume x: "x \<in> set (watch_groups s)"
    obtain r where r: "dget (watch_groups s) p = Some r" "g_primary r" using assms(2) by (auto simp: is_primary_def)
    have "snd x = r" if "fst x = p"
      using dget_in_set [OF wf_accountsD(2) [OF assms(1)], of p "snd x"] x that r(1) by (cases x) simp
    then show "(case x of (k, r) \<Rightarrow> (k, if k = p then r\<lparr>g_primary := True\<rparr> else r)) = x"
      using r(2) by (cases x) auto
  qed
  then show ?thesis by (simp add: mark_primary_def)
qed

lemma migrate_user_op:
  assumes wf: "wf_accounts limit s" and p: "primary_group s u = Some p"
  shows "migrate_user u s = fold (copy_item p) (other_items s u p) s" "wf_accounts limit (migrate_user u s)"
    "view_of (migrate_user u s) = (view_of s)\<lparr>view_symbols := (group_symbols s)(p := completed (view_of s) u p)\<rparr>"
proof -
  have prim: "is_primary s u p" using p primary_group_iff [OF wf_accountsD(4,6) [OF wf]] by simp
  show fold: "migrate_user u s = fold (copy_item p) (other_items s u p) s"
    by (simp add: migrate_user_def main_group_def p mark_primary_id [OF wf prim])
  have names: "map item_symbol (other_items s u p) = concat (map (group_symbols s) (without p (ids_of_groups s u)))"
    by (simp add: other_items_def map_concat comp_def without_def watch_item_of_def Let_def)
  have "item_symbol w \<in> set (user_symbols s u)" if "w \<in> set (other_items s u p)" for w
  proof -
    have "item_symbol w \<in> set (map item_symbol (other_items s u p))" using that by simp
    then show ?thesis unfolding names set_user_symbols_lists without_def by auto
  qed
  note copied = items_copied [OF wf prim this]
  show wf': "wf_accounts limit (migrate_user u s)" using copied fold by simp
  have lists: "group_symbols (migrate_user u s) = (group_symbols s)(p := completed (view_of s) u p)"
    using copied fold by (simp add: names completed_def view_of_def)
  obtain X where "migrate_user u s = s\<lparr>watch_items := X\<rparr>" using copied_only_items fold by metis
  from view_items [OF wf wf' this] lists show "view_of (migrate_user u s) = (view_of s)\<lparr>view_symbols := (group_symbols s)(p := completed (view_of s) u p)\<rparr>"
    by simp
qed

lemma owner_unique:
  assumes "wf_accounts limit s" "primary_group s u = Some p"
  shows "p \<in> set (ids_of_groups s v) \<longleftrightarrow> v = u" "primary_group s v = Some p \<longleftrightarrow> v = u"
proof -
  have prim: "is_primary s w q" if "primary_group s w = Some q" for w q
    using that primary_group_iff [OF wf_accountsD(4,6) [OF assms(1)]] by simp
  show "p \<in> set (ids_of_groups s v) \<longleftrightarrow> v = u"
    using prim [OF assms(2)] set_group_keys [OF wf_accountsD(2) [OF assms(1)]] by (auto simp: is_primary_def)
  show "primary_group s v = Some p \<longleftrightarrow> v = u" using assms(2) prim [OF assms(2)] prim [of v p] by (auto simp: is_primary_def)
qed

lemma migrated_users:
  assumes "wf_accounts limit s" "distinct us" "\<And>u. u \<in> set us \<Longrightarrow> primary_group s u \<noteq> None"
  shows "wf_accounts limit (fold migrate_user us s) \<and> view_of (fold migrate_user us s) = (view_of s)\<lparr>view_symbols := (\<lambda>g.
     case find (\<lambda>u. primary_group s u = Some g) us of None \<Rightarrow> group_symbols s g | Some u \<Rightarrow> completed (view_of s) u g)\<rparr>"
  using assms
proof (induction us arbitrary: s)
  case Nil
  then show ?case by (simp add: view_of_def)
next
  case (Cons u us)
  obtain p where p: "primary_group s u = Some p" using Cons.prems(3) [of u] by auto
  define s1 where "s1 = migrate_user u s"
  note op = migrate_user_op [OF Cons.prems(1) p, folded s1_def]
  have same: "primary_group s1 = primary_group s" "ids_of_groups s1 = ids_of_groups s"
    "group_symbols s1 = (group_symbols s)(p := completed (view_of s) u p)"
    using op(3) by (simp_all add: view_of_def)
  have rest: "wf_accounts limit (fold migrate_user us s1) \<and> view_of (fold migrate_user us s1) = (view_of s1)\<lparr>view_symbols := (\<lambda>g.
     case find (\<lambda>u. primary_group s u = Some g) us of None \<Rightarrow> group_symbols s1 g | Some u \<Rightarrow> completed (view_of s1) u g)\<rparr>"
    using Cons.IH [OF op(2)] Cons.prems(2,3) same(1) by simp
  have lists: "(case find (\<lambda>u. primary_group s u = Some g) us of None \<Rightarrow> group_symbols s1 g | Some v \<Rightarrow> completed (view_of s1) v g) =
    (case find (\<lambda>u. primary_group s u = Some g) (u # us) of None \<Rightarrow> group_symbols s g | Some v \<Rightarrow> completed (view_of s) v g)" for g
  proof (cases "find (\<lambda>u. primary_group s u = Some g) us")
    case None
    then show ?thesis using p by (auto simp: same(3))
  next
    case (Some v)
    then have v: "v \<in> set us" "primary_group s v = Some g" using find_in_set by force+
    then have "v \<noteq> u" using Cons.prems(2) by auto
    then have "g \<noteq> p" "\<And>h. h \<in> set (without g (ids_of_groups s v)) \<Longrightarrow> h \<noteq> p"
      using owner_unique [OF Cons.prems(1) p] v(2) by (auto simp: without_def)
    then have "completed (view_of s1) v g = completed (view_of s) v g"
      by (simp add: completed_def view_of_def same cong: map_cong)
    then show ?thesis using Some p \<open>g \<noteq> p\<close> by simp
  qed
  show ?case using rest op(3) unfolding lists by (simp add: s1_def)
qed

lemma find_unique:
  assumes "\<And>x y. P x \<Longrightarrow> P y \<Longrightarrow> x = y" "\<And>x. P x \<Longrightarrow> x \<in> set xs \<and> x \<in> set ys"
  shows "find P xs = find P ys"
proof (cases "find P xs")
  case None
  then show ?thesis using assms(2) by (metis find_None_iff)
next
  case (Some x)
  from find_in_set [OF this] have x: "P x" by simp
  then have "find P ys \<noteq> None" using assms(2) [of x] by (auto simp: find_None_iff)
  then obtain y where y: "find P ys = Some y" by blast
  from find_in_set [OF this] have "P y" by simp
  from assms(1) [OF x this] show ?thesis using Some y by simp
qed

lemma migrate_op:
  assumes wf: "wf_accounts limit s"
  shows "wf_accounts limit (migrate s) \<and> view_of (migrate s) = view_op Restart (view_of s)"
proof -
  define s1 where "s1 = fill_since s"
  note fill = fill_since_op [OF wf, folded s1_def]
  define us where "us = remdups (map (g_owner \<circ> snd) (watch_groups s1))"
  note dict = wf_accountsD(2) [OF fill(1)]
  have prim: "primary_group s1 u = Some p \<longleftrightarrow> is_primary s1 u p" for u p
    by (rule primary_group_iff [OF wf_accountsD(4,6) [OF fill(1)]])
  have user: "u \<in> set us \<and> u < next_account s1" if "is_primary s1 u p" for u p
  proof -
    obtain r where r: "dget (watch_groups s1) p = Some r" "g_owner r = u" using \<open>is_primary s1 u p\<close> by (auto simp: is_primary_def)
    then have "u \<in> keys (accounts s1)" using wf_accountsD(4) [OF fill(1)] unfolding wf_tables_def by blast
    then have "u < next_account s1" using wf_accountsD(4) [OF fill(1)] unfolding wf_tables_def by blast
    moreover have "g_owner r \<in> (g_owner \<circ> snd) ` set (watch_groups s1)"
      using dget_SomeD [OF r(1)] by (metis comp_apply imageI snd_conv)
    ultimately show ?thesis using r(2) by (simp add: us_def)
  qed
  have "primary_group s1 u \<noteq> None" if u: "u \<in> set us" for u
  proof -
    obtain x where x: "x \<in> set (watch_groups s1)" "g_owner (snd x) = u" using u by (auto simp: us_def)
    then have "dget (watch_groups s1) (fst x) = Some (snd x)" using dget_in_set [OF dict, of "fst x" "snd x"] by simp
    with x(2) have "u \<in> keys (accounts s1)" using wf_accountsD(4) [OF fill(1)] unfolding wf_tables_def by blast
    then obtain g where "is_primary s1 u g" using wf_accountsD(6) [OF fill(1)] unfolding wf_primary_def by blast
    then show ?thesis using prim by auto
  qed
  note run = migrated_users [OF fill(1) _ this, of us]
  have "find (\<lambda>u. primary_group s1 u = Some g) us = find (\<lambda>u. primary_group s1 u = Some g) [0..<next_account s1]" for g
  proof (rule find_unique)
    show "x = y" if "primary_group s1 x = Some g" "primary_group s1 y = Some g" for x y
      using that owner_unique(2) [OF fill(1)] by blast
    show "x \<in> set us \<and> x \<in> set [0..<next_account s1]" if "primary_group s1 x = Some g" for x
      using that user prim by simp
  qed
  moreover have "view_primary (view_of s1) = primary_group s1" "view_symbols (view_of s1) = group_symbols s1" "view_user (view_of s1) = next_account s1"
    by (simp_all add: view_of_def)
  moreover have "migrate s = fold migrate_user us s1" "distinct us" by (simp_all add: migrate_def Let_def s1_def us_def)
  ultimately show ?thesis using run by (simp add: fill(2) [symmetric] view_op_def view_restart_def cong: option.case_cong)
qed

section \<open>All operations\<close>

theorem run_op_correct:
  assumes "wf_accounts limit s" "run_op limit op s = Inr s'"
  shows "wf_accounts limit s' \<and> view_of s' = view_op op (view_of s)"
  using assms
  by (cases op) (auto simp: run_op_def new_state_Inr view_op_def [of "Change_Password h v u p q" for h v u p q]
      view_op_def [of "Reset_Password h u p" for h u p] view_op_def [of "Enable_User u b" for u b]
      view_op_def [of "Rename_Group u g n" for u g n] view_op_def [of "Monitor_Symbol t u sy b" for t u sy b]
      dest: create_user_op accounts_view [OF _ password_ops(1)] accounts_view [OF _ password_ops(2)] accounts_view [OF _ password_ops(3)]
        create_group_op rename_group_op delete_group_op reorder_groups_op add_symbol_op remove_symbol_op remove_everywhere_op
        monitoring_op reorder_symbols_op move_symbol_op migrate_op)

end
