(* ===== verification/Account_Properties.thy ===== *)
theory Account_Properties
  imports Account_Ops
begin

text \<open>
  The properties of the users and their watchlists: the tables stay consistent, what a user sees are lists on which the operations
  do what their names say, and only the password set last is accepted.
\<close>

declare map_of_eq_Some_iff [simp del]

section \<open>Consistency\<close>

lemma wf_empty_accounts: "wf_accounts limit empty_accounts"
  by (simp add: wf_accounts_def empty_accounts_def wf_tables_def wf_names_def wf_primary_def wf_places_def dense_def group_keys_def item_keys_def
      user_symbols_def)

lemma run_ops_wf: "wf_accounts limit (run_ops limit ops empty_accounts)"
proof -
  have "wf_accounts limit (fold (apply_op limit) ops s)" if "wf_accounts limit s" for s
    using that
  proof (induction ops arbitrary: s)
    case (Cons op ops)
    have "wf_accounts limit (apply_op limit op s)"
      using Cons.prems run_op_correct by (auto simp: apply_op_def split: sum.splits)
    then show ?case using Cons.IH by simp
  qed simp
  then show ?thesis using wf_empty_accounts by (simp add: run_ops_def)
qed

text \<open>
  C4: Whatever operations run, failing or not, names and titles are distinct, every row belongs to one that exists, each user has
  one primary group, places count from 0 without a gap, and no user has more symbols than the limit.
\<close>

theorem accounts_stay_consistent: "wf_accounts limit (run_ops limit ops empty_accounts)"
  by (rule run_ops_wf)

section \<open>Lists\<close>

text \<open>
  C7: An operation that succeeds does to the lists of groups and symbols what it does to lists: a group or symbol is appended,
  removed, put in order or inserted at an index, and no other list changes.
\<close>

theorem watchlists_refine_lists:
  assumes "run_op limit op (run_ops limit ops empty_accounts) = Inr s'"
  shows "view_of s' = view_op op (view_of (run_ops limit ops empty_accounts))"
  using run_op_correct [OF _ assms] run_ops_wf by blast

text \<open>A user with two groups who moves a symbol.\<close>

definition watched_lookup :: "string \<Rightarrow> symbol_lookup" where
  "watched_lookup sy = \<lparr>lookup_symbol = sy, lookup_name = ''N'', lookup_market = ''17'', lookup_label = None, lookup_securities_code = None\<rparr>"

definition demo_ops :: "account_op list" where
  "demo_ops = [New_User id 0 ''ann'' ''pw'', New_Group 1 ''b'', Add_Symbol 0 1 2 (watched_lookup ''600000''), Add_Symbol 0 1 1 (watched_lookup ''600001'')]"

lemma demo_accounts:
  "run_ops 50 demo_ops empty_accounts =
     \<lparr>accounts = [(1, \<lparr>a_name = ''ann'', a_hash = ''pw'', a_enabled = True, a_must_change = True, a_created = 0\<rparr>)],
      watch_groups = [(1, \<lparr>g_owner = 1, g_title = primary_title, g_place = 0, g_primary = True\<rparr>),
        (2, \<lparr>g_owner = 1, g_title = ''b'', g_place = 1, g_primary = False\<rparr>)],
      watch_items = [((2, ''600000''), \<lparr>i_name = ''N'', i_market = ''17'', i_place = 0, i_monitored = True, i_since = Some 0\<rparr>),
        ((1, ''600000''), \<lparr>i_name = ''N'', i_market = ''17'', i_place = 0, i_monitored = True, i_since = Some 0\<rparr>),
        ((1, ''600001''), \<lparr>i_name = ''N'', i_market = ''17'', i_place = 1, i_monitored = True, i_since = Some 0\<rparr>)],
      next_account = 2, next_group = 3\<rparr>"
  by code_simp

theorem watchlists_refine_lists_witness:
  "\<exists>s'. run_op 50 (Move_Symbol 1 1 2 ''600001'' 0) (run_ops 50 demo_ops empty_accounts) = Inr s'
     \<and> view_symbols (view_of s') 2 = [''600001'', ''600000''] \<and> view_symbols (view_of s') 1 = [''600000'']"
proof -
  have "\<exists>s'. run_op 50 (Move_Symbol 1 1 2 ''600001'' 0) (run_ops 50 demo_ops empty_accounts) = Inr s'"
    unfolding demo_accounts run_op_def account_op.case by (simp add: move_symbol_def owned_group_def primary_title_def Let_def)
  then obtain s' where s': "run_op 50 (Move_Symbol 1 1 2 ''600001'' 0) (run_ops 50 demo_ops empty_accounts) = Inr s'" by blast
  have "group_symbols (run_ops 50 demo_ops empty_accounts) 1 = [''600000'', ''600001'']"
    "group_symbols (run_ops 50 demo_ops empty_accounts) 2 = [''600000'']" unfolding demo_accounts by code_simp+
  with watchlists_refine_lists [OF s'] s' show ?thesis
    by (simp add: view_of_def view_op_def without_def insert_at_def Let_def)
qed

section \<open>Passwords\<close>

text \<open>What a verification has to do with the hashes: it accepts the password that was hashed and no other.\<close>

definition sound_hash :: "(string \<Rightarrow> string \<Rightarrow> bool) \<Rightarrow> (string \<Rightarrow> string) \<Rightarrow> bool" where
  "sound_hash verify hash \<longleftrightarrow> (\<forall>p q. verify (hash p) q \<longleftrightarrow> q = p)"

definition op_hash_sound :: "(string \<Rightarrow> string \<Rightarrow> bool) \<Rightarrow> account_op \<Rightarrow> bool" where
  "op_hash_sound verify op =
     (case op of New_User hash _ _ _ \<Rightarrow> sound_hash verify hash | Change_Password hash _ _ _ _ \<Rightarrow> sound_hash verify hash
      | Reset_Password hash _ _ \<Rightarrow> sound_hash verify hash | _ \<Rightarrow> True)"

text \<open>The passwords of the users as the operations that succeed set them.\<close>

definition set_secret :: "nat \<Rightarrow> account_op \<Rightarrow> account_store \<Rightarrow> (nat \<Rightarrow> string) \<Rightarrow> nat \<Rightarrow> string" where
  "set_secret limit op s secret =
     (case run_op limit op s of Inl _ \<Rightarrow> secret
      | Inr _ \<Rightarrow> case op of New_User _ _ _ p \<Rightarrow> secret(next_account s := p) | Change_Password _ _ u _ q \<Rightarrow> secret(u := q)
        | Reset_Password _ u q \<Rightarrow> secret(u := q) | _ \<Rightarrow> secret)"

fun secrets :: "nat \<Rightarrow> account_op list \<Rightarrow> account_store \<Rightarrow> (nat \<Rightarrow> string) \<Rightarrow> nat \<Rightarrow> string" where
  "secrets limit [] s secret = secret"
| "secrets limit (op # ops) s secret = secrets limit ops (apply_op limit op s) (set_secret limit op s secret)"

definition hashes_match :: "(string \<Rightarrow> string \<Rightarrow> bool) \<Rightarrow> (nat \<Rightarrow> string) \<Rightarrow> account_store \<Rightarrow> bool" where
  "hashes_match verify secret s \<longleftrightarrow> (\<forall>u r. dget (accounts s) u = Some r \<longrightarrow> (\<forall>q. verify (a_hash r) q \<longleftrightarrow> q = secret u))"

lemma normalize_keeps_accounts [simp]: "accounts (normalize_item_order g s) = accounts s" "accounts (fold normalize_item_order gs s) = accounts s"
proof -
  show one: "accounts (normalize_item_order g s) = accounts s" for g s by (simp add: normalize_item_order_def number_items_def)
  show "accounts (fold normalize_item_order gs s) = accounts s" by (induction gs arbitrary: s) (simp_all add: one)
qed

lemma migrate_keeps_accounts: "accounts (migrate s) = accounts s"
proof -
  have "accounts (fold (copy_item p) ws s) = accounts s" for p ws s
    by (induction ws arbitrary: s) (simp_all add: copy_item_def put_item_def)
  then have one: "accounts (migrate_user u s) = accounts s" for u s
    by (simp add: migrate_user_def mark_primary_def Let_def split: option.splits)
  have "accounts (fold migrate_user us s) = accounts s" for us s by (induction us arbitrary: s) (simp_all add: one)
  then show ?thesis by (simp add: migrate_def Let_def fill_since_def)
qed

text \<open>The operations on groups and symbols leave the users alone.\<close>

lemma list_ops_keep_accounts:
  "create_group u n s = Inr (w, s') \<Longrightarrow> accounts s' = accounts s"
  "rename_group u g n s = Inr (w, s') \<Longrightarrow> accounts s' = accounts s"
  "delete_group u g s = Inr s' \<Longrightarrow> accounts s' = accounts s"
  "reorder_groups u gs s = Inr s' \<Longrightarrow> accounts s' = accounts s"
  unfolding create_group_def rename_group_def delete_group_def reorder_groups_def normalize_group_order_def Let_def
  by (auto split: sum.splits if_splits)

lemma symbol_ops_keep_accounts:
  "add_symbol limit now u g l s = Inr (i, s') \<Longrightarrow> accounts s' = accounts s"
  "remove_symbol u g sy s = Inr s' \<Longrightarrow> accounts s' = accounts s"
  "remove_symbol_everywhere u sy s = Inr s' \<Longrightarrow> accounts s' = accounts s"
  "set_monitoring_enabled now u sy b s = Inr (c, s') \<Longrightarrow> accounts s' = accounts s"
  "reorder_symbols u g sys s = Inr s' \<Longrightarrow> accounts s' = accounts s"
  "move_symbol u g h sy k s = Inr s' \<Longrightarrow> accounts s' = accounts s"
  unfolding add_symbol_def remove_symbol_def remove_symbol_everywhere_def set_monitoring_enabled_def reorder_symbols_def move_symbol_def
    Let_def put_item_def put_primary_item_def delete_item_def number_items_def
  by (auto split: sum.splits option.splits if_splits)

lemma hashes_match_new_user:
  assumes wf: "wf_accounts limit s" and match: "hashes_match verify secret s" and hash: "sound_hash verify hash"
    and run: "create_user hash now name p s = Inr (v, s')"
  shows "hashes_match verify (secret(next_account s := p)) s'"
proof -
  obtain a where a: "accounts s' = dset (next_account s) a (accounts s)" "a_hash a = hash p"
    using run by (auto simp: create_user_def checked_password_def Let_def split: sum.splits if_splits)
  have "dget (accounts s) (next_account s) = None"
    using wf_accountsD(4) [OF wf] unfolding wf_tables_def by (metis dget_None_iff less_irrefl)
  then show ?thesis using match hash a by (auto simp: hashes_match_def sound_hash_def)
qed

lemma hashes_match_set_password:
  assumes "hashes_match verify secret s" "sound_hash verify hash"
  shows "hashes_match verify (secret(u := p)) (set_password u (hash p) must s)"
  using assms by (auto simp: hashes_match_def sound_hash_def set_password_def)

lemma password_ops_set:
  "change_user_password hash verify' u cur p s = Inr (v, s') \<Longrightarrow> \<exists>must. s' = set_password u (hash p) must s"
  "reset_password hash u p s = Inr (v, s') \<Longrightarrow> \<exists>must. s' = set_password u (hash p) must s"
  unfolding change_user_password_def reset_password_def checked_password_def
  by (auto split: sum.splits option.splits if_splits dest!: with_user_Inr)

lemma hashes_kept:
  assumes "hashes_match verify secret s"
    and "\<And>u r. dget (accounts s') u = Some r \<Longrightarrow> \<exists>y. dget (accounts s) u = Some y \<and> a_hash y = a_hash r"
  shows "hashes_match verify secret s'"
  using assms unfolding hashes_match_def by metis

lemma hashes_match_step:
  assumes wf: "wf_accounts limit s" and match: "hashes_match verify secret s" and op: "op_hash_sound verify op"
  shows "hashes_match verify (set_secret limit op s secret) (apply_op limit op s)"
proof (cases "run_op limit op s")
  case (Inl e)
  then show ?thesis using match by (simp add: set_secret_def apply_op_def)
next
  case (Inr s')
  then have ran: "apply_op limit op s = s'"
    and secret: "set_secret limit op s secret = (case op of New_User _ _ _ p \<Rightarrow> secret(next_account s := p)
      | Change_Password _ _ u _ q \<Rightarrow> secret(u := q) | Reset_Password _ u q \<Rightarrow> secret(u := q) | _ \<Rightarrow> secret)"
    by (simp_all add: apply_op_def set_secret_def)
  have same: "hashes_match verify secret s'" if "accounts s' = accounts s"
    using match that by (simp add: hashes_match_def)
  show ?thesis
  proof (cases op)
    case (New_User hash now name p)
    then show ?thesis using hashes_match_new_user [OF wf match] op Inr ran secret
      by (auto simp: op_hash_sound_def run_op_def new_state_Inr)
  next
    case (Change_Password hash verify' u cur p)
    then show ?thesis using hashes_match_set_password [OF match] op Inr ran secret password_ops_set(1)
      by (fastforce simp: op_hash_sound_def run_op_def new_state_Inr)
  next
    case (Reset_Password hash u p)
    then show ?thesis using hashes_match_set_password [OF match] op Inr ran secret password_ops_set(2)
      by (fastforce simp: op_hash_sound_def run_op_def new_state_Inr)
  next
    case (Enable_User u b)
    then have "s' = s\<lparr>accounts := update_rows (\<lambda>k _. k = u) (\<lambda>r. r\<lparr>a_enabled := b\<rparr>) (accounts s)\<rparr>"
      using Inr by (auto simp: run_op_def new_state_Inr set_user_enabled_def dest!: with_user_Inr split: if_splits)
    then have "hashes_match verify secret s'"
      by (intro hashes_kept [OF match]) (auto split: if_splits)
    then show ?thesis using ran secret Enable_User by simp
  qed (use Inr ran secret same list_ops_keep_accounts symbol_ops_keep_accounts migrate_keeps_accounts in
      \<open>auto simp: run_op_def new_state_Inr\<close>)
qed

lemma hashes_match_run:
  "wf_accounts limit s \<Longrightarrow> hashes_match verify secret s \<Longrightarrow> \<forall>op\<in>set ops. op_hash_sound verify op \<Longrightarrow>
     hashes_match verify (secrets limit ops s secret) (run_ops limit ops s)"
proof (induction ops arbitrary: s secret)
  case (Cons op ops)
  have "wf_accounts limit (apply_op limit op s)"
    using Cons.prems(1) run_op_correct by (auto simp: apply_op_def split: sum.splits)
  then show ?case using Cons.IH hashes_match_step [OF Cons.prems(1,2)] Cons.prems(3) by (simp add: run_ops_def)
qed (simp add: run_ops_def)

text \<open>
  C10: After any operations a login gives a user exactly when the name is that of an enabled user and the password is the one
  that was set last for this user, by its creation, a reset, or a change that had the former password.
\<close>

theorem last_password_authenticates:
  assumes "\<forall>op\<in>set ops. op_hash_sound verify op"
  shows "authenticate_user verify name q (run_ops limit ops empty_accounts) = Some v \<longleftrightarrow>
    (\<exists>u r. dget (accounts (run_ops limit ops empty_accounts)) u = Some r \<and> checked_username name = Inr (a_name r) \<and> a_enabled r
       \<and> q = secrets limit ops empty_accounts (\<lambda>_. []) u \<and> v = user_of u r)"
proof -
  define s where "s = run_ops limit ops empty_accounts"
  define secret where "secret = secrets limit ops empty_accounts (\<lambda>_. [])"
  have "hashes_match verify (\<lambda>_. []) empty_accounts" by (simp add: hashes_match_def empty_accounts_def)
  from hashes_match_run [OF wf_empty_accounts this assms] have match: "hashes_match verify secret s" by (simp add: s_def secret_def)
  have wf: "wf_accounts limit s" unfolding s_def by (rule run_ops_wf)
  note dict = wf_accountsD(1) [OF wf]
  have found: "find (\<lambda>(_, r). a_name r = n) (accounts s) = Some (u, r) \<longleftrightarrow> dget (accounts s) u = Some r \<and> a_name r = n" for n u r
  proof
    assume "find (\<lambda>(_, r). a_name r = n) (accounts s) = Some (u, r)"
    from find_in_set [OF this] show "dget (accounts s) u = Some r \<and> a_name r = n" by (simp add: dget_in_set [OF dict])
  next
    assume r: "dget (accounts s) u = Some r \<and> a_name r = n"
    then have "find (\<lambda>(_, r). a_name r = n) (accounts s) \<noteq> None" by (auto simp: find_None_iff dest: dget_SomeD)
    then obtain u' r' where f: "find (\<lambda>(_, r). a_name r = n) (accounts s) = Some (u', r')" by force
    from find_in_set [OF this] have "dget (accounts s) u' = Some r'" "a_name r' = n" by (simp_all add: dget_in_set [OF dict])
    moreover from this have "u' = u" using r wf_accountsD(5) [OF wf] unfolding wf_names_def by blast
    ultimately show "find (\<lambda>(_, r). a_name r = n) (accounts s) = Some (u, r)" using f r by simp
  qed
  have "authenticate_user verify name q s = Some v \<longleftrightarrow>
    (\<exists>u r. dget (accounts s) u = Some r \<and> checked_username name = Inr (a_name r) \<and> a_enabled r \<and> verify (a_hash r) q \<and> v = user_of u r)"
    (is "_ \<longleftrightarrow> ?rhs")
  proof (cases "checked_username name")
    case (Inl e)
    then show ?thesis by (simp add: authenticate_user_def)
  next
    case (Inr n)
    have "authenticate_user verify name q s = Some v \<longleftrightarrow> (\<exists>u r. find (\<lambda>(_, r). a_name r = n) (accounts s) = Some (u, r)
        \<and> a_enabled r \<and> verify (a_hash r) q \<and> v = user_of u r)"
      by (auto simp: authenticate_user_def Inr split: option.splits)
    also have "\<dots> \<longleftrightarrow> ?rhs" unfolding found Inr by blast
    finally show ?thesis .
  qed
  also have "\<dots> \<longleftrightarrow> (\<exists>u r. dget (accounts s) u = Some r \<and> checked_username name = Inr (a_name r) \<and> a_enabled r \<and> q = secret u \<and> v = user_of u r)"
    using match unfolding hashes_match_def by metis
  finally show ?thesis by (simp only: s_def secret_def)
qed

theorem last_password_authenticates_witness:
  "authenticate_user (\<lambda>h p. p = h) ''Ann'' ''pw'' (run_ops 50 demo_ops empty_accounts) \<noteq> None"
proof -
  have "\<forall>op\<in>set demo_ops. op_hash_sound (\<lambda>h p. p = h) op" by (simp add: demo_ops_def op_hash_sound_def sound_hash_def)
  note login = last_password_authenticates [OF this, of "''Ann''" "''pw''" 50]
  define r where "r = \<lparr>a_name = ''ann'', a_hash = ''pw'', a_enabled = True, a_must_change = True, a_created = 0\<rparr>"
  have "secrets 50 demo_ops empty_accounts (\<lambda>_. []) 1 = ''pw''" "checked_username ''Ann'' = Inr ''ann''" by code_simp+
  moreover have "dget (accounts (run_ops 50 demo_ops empty_accounts)) 1 = Some r" by (simp add: demo_accounts r_def)
  moreover have "a_name r = ''ann''" "a_enabled r" by (simp_all add: r_def)
  ultimately have "authenticate_user (\<lambda>h p. p = h) ''Ann'' ''pw'' (run_ops 50 demo_ops empty_accounts) = Some (user_of 1 r)"
    unfolding login by (intro exI [of _ 1] exI [of _ r] conjI) simp_all
  then show ?thesis by simp
qed

section \<open>Starts\<close>

lemma migrated_old: "dget (watch_items s) k = Some r \<Longrightarrow> dget (watch_items (fold migrate_user us s)) k = Some r"
proof (induction us arbitrary: s)
  case (Cons u us)
  have "dget (watch_items (migrate_user u s)) k = Some r"
    using Cons.prems by (auto simp: migrate_user_def mark_primary_def Let_def split: option.splits intro!: copied_old)
  then show ?case using Cons.IH by simp
qed simp

lemma migrated_new:
  "dget (watch_items s) k = None \<Longrightarrow> dget (watch_items (fold migrate_user us s)) k = Some r \<Longrightarrow> i_monitored r \<and> i_since r = None"
proof (induction us arbitrary: s)
  case (Cons u us)
  show ?case
  proof (cases "dget (watch_items (migrate_user u s)) k")
    case None
    then show ?thesis using Cons.IH [OF None] Cons.prems(2) by simp
  next
    case (Some r')
    then have "r = r'" using Cons.prems(2) migrated_old [OF Some, of us] by simp
    moreover obtain p where p: "migrate_user u s = fold (copy_item p) (other_items (mark_primary p s) u p) (mark_primary p s)"
      using Some Cons.prems(1) by (auto simp: migrate_user_def Let_def split: option.splits)
    have "dget (watch_items (mark_primary p s)) k = None" using Cons.prems(1) by (simp add: mark_primary_def)
    from copied_new [OF this Some [unfolded p]] have "i_monitored r' \<and> i_since r' = None" by simp
    ultimately show ?thesis by simp
  qed
qed simp

lemma find_eq: "x \<in> set xs \<Longrightarrow> find (\<lambda>y. y = x) xs = Some x"
  by (induction xs) auto

lemma monitored_shown:
  assumes wf: "wf_accounts limit s" and g: "dget (watch_groups s) g = Some gr" and r: "dget (watch_items s) (g, sy) = Some r" "i_monitored r"
  shows "(sy, True) \<in> set (monitoring_state (g_owner gr) s)"
proof -
  have "g_owner gr \<in> keys (accounts s)" using g wf_accountsD(4) [OF wf] unfolding wf_tables_def by blast
  then obtain a where a: "dget (accounts s) (g_owner gr) = Some a" unfolding keys_dget by blast
  have "((g, sy), r) \<in> set (watch_items s)" by (rule dget_SomeD [OF r(1)])
  then have "(g_owner gr, a, sy, r) \<in> set (joined_items s)"
    unfolding joined_items_def List.map_filter_def set_map set_filter using g a by (force simp: image_iff)
  then have "(g_owner gr, a, sy, r) \<in> set (filter (\<lambda>(u', _). u' = g_owner gr) (joined_items s))" by simp
  then show ?thesis unfolding monitoring_state_def Let_def set_map using r(2) by (force simp: list_ex_iff image_iff)
qed

text \<open>
  C20: A symbol that a user took out of the primary group and kept in another is put back at the next start, and is monitored
  again, even when the user had stopped its monitoring.
\<close>

theorem restart_resumes_monitoring:
  assumes "primary_group (run_ops limit ops empty_accounts) u = Some p" "sy \<in> set (user_symbols (run_ops limit ops empty_accounts) u)"
    "sy \<notin> set (group_symbols (run_ops limit ops empty_accounts) p)"
  shows "sy \<in> set (group_symbols (migrate (run_ops limit ops empty_accounts)) p)
    \<and> (sy, True) \<in> set (monitoring_state u (migrate (run_ops limit ops empty_accounts)))"
proof -
  define s where "s = run_ops limit ops empty_accounts"
  have wf: "wf_accounts limit s" unfolding s_def by (rule run_ops_wf)
  note after = migrate_op [OF wf]
  have primary: "primary_group (migrate s) u = Some p" using assms(1) after by (simp add: s_def view_of_def view_op_def view_restart_def)
  have prim: "is_primary (migrate s) u p" using primary primary_group_iff [OF wf_accountsD(4,6)] after by blast
  have "is_primary s u p" using assms(1) primary_group_iff [OF wf_accountsD(4,6) [OF wf]] by (simp add: s_def)
  then obtain gr0 where "dget (watch_groups s) p = Some gr0" "g_owner gr0 = u" by (auto simp: is_primary_def)
  then have "u < next_account s" using wf_accountsD(4) [OF wf] unfolding wf_tables_def by blast
  moreover have "(primary_group s v = Some p) = (v = u)" for v using owner_unique(2) [OF wf] assms(1) by (simp add: s_def)
  ultimately have "find (\<lambda>v. primary_group s v = Some p) [0..<next_account s] = Some u" by (simp add: find_eq)
  then have "group_symbols (migrate s) p = completed (view_of s) u p"
    using after by (simp add: view_of_def view_op_def view_restart_def)
  moreover have "sy \<in> set (completed (view_of s) u p)"
    using assms(2,3) unfolding completed_def with_missing_set s_def [symmetric] set_user_symbols_lists
    by (auto simp: view_of_def without_def)
  ultimately have sy: "sy \<in> set (group_symbols (migrate s) p)" by simp
  then obtain r where r: "dget (watch_items (migrate s)) (p, sy) = Some r" by (auto simp: set_item_keys keys_dget)
  have "dget (watch_items (fill_since s)) (p, sy) = None"
    using assms(3) by (simp add: fill_since_op(5) [OF wf] s_def [symmetric] set_item_keys keys_dget)
  from migrated_new [OF this] r have "i_monitored r" by (simp add: migrate_def Let_def)
  moreover obtain gr where "dget (watch_groups (migrate s)) p = Some gr" "g_owner gr = u" using prim by (auto simp: is_primary_def)
  ultimately show ?thesis using sy monitored_shown [of limit "migrate s" p gr sy r] after r by (simp add: s_def)
qed

text \<open>The user of before moves a symbol out of the primary group and stops its monitoring.\<close>

definition demo_stop_ops :: "account_op list" where
  "demo_stop_ops = demo_ops @ [Move_Symbol 1 1 2 ''600001'' 0, Monitor_Symbol 1 1 ''600001'' False]"

lemma demo_stopped:
  "primary_group (run_ops 50 demo_stop_ops empty_accounts) 1 = Some 1"
  "user_symbols (run_ops 50 demo_stop_ops empty_accounts) 1 = [''600000'', ''600001'']"
  "group_symbols (run_ops 50 demo_stop_ops empty_accounts) 1 = [''600000'']"
  "monitoring_state 1 (run_ops 50 demo_stop_ops empty_accounts) = [(''600000'', True), (''600001'', False)]"
  by code_simp+

theorem restart_resumes_monitoring_witness:
  "(''600001'', False) \<in> set (monitoring_state 1 (run_ops 50 demo_stop_ops empty_accounts))
   \<and> (''600001'', True) \<in> set (monitoring_state 1 (migrate (run_ops 50 demo_stop_ops empty_accounts)))"
  using restart_resumes_monitoring [of 50 demo_stop_ops 1 1 "''600001''"] demo_stopped by (simp del: set_group_symbols)

end
