(* ===== verification/Market_Sessions.thy ===== *)
theory Market_Sessions
  imports Json_Text Instants Fund_Flow
begin

text \<open>
  The sessions of the market pages of \<open>level2_service/market_accounts.py\<close>: \<open>InMemoryMarketSessionStore\<close> and
  \<open>RedisMarketSessionStore\<close>, and what both promise: a session that is found was granted, has not been revoked since, by its id or
  with all those of its user, and has not expired. The Redis client is a parameter, a record of its commands, whose documented
  effects are the hypothesis \<open>client_laws\<close>; a key that expires is a step of its own.
\<close>

record market_session =
  ms_id :: string
  ms_user :: int
  ms_csrf :: string
  ms_expires :: time

declare map_of_eq_Some_iff [simp del]

section \<open>In memory\<close>

type_synonym session_memory = "(string, market_session) dict"

definition new_session :: "time \<Rightarrow> time \<Rightarrow> string \<Rightarrow> string \<Rightarrow> int \<Rightarrow> market_session" where
  "new_session ttl now sid csrf u = \<lparr>ms_id = sid, ms_user = u, ms_csrf = csrf, ms_expires = now + ttl\<rparr>"

definition memory_create :: "market_session \<Rightarrow> session_memory \<Rightarrow> session_memory" where
  "memory_create m d = dset (ms_id m) m d"

definition memory_look :: "time \<Rightarrow> string \<Rightarrow> session_memory \<Rightarrow> market_session option \<times> session_memory" where
  "memory_look now sid d =
     (if sid = [] then (None, d)
      else case dget d sid of
        None \<Rightarrow> (None, dpop sid d)
      | Some m \<Rightarrow> if ms_expires m \<le> now then (None, dpop sid d) else (Some m, d))"

definition memory_revoke :: "string \<Rightarrow> session_memory \<Rightarrow> session_memory" where
  "memory_revoke sid d = (if sid = [] then d else dpop sid d)"

definition memory_revoke_user :: "int \<Rightarrow> session_memory \<Rightarrow> session_memory" where
  "memory_revoke_user u d = fold dpop (map fst (filter (\<lambda>(_, m). ms_user m = u) d)) d"

section \<open>The interface\<close>

datatype market_op = Open market_session | Look time string | Close string | Close_User int | Drop string

text \<open>What has been granted and not revoked since.\<close>

fun granted :: "market_op list \<Rightarrow> market_session set \<Rightarrow> market_session set" where
  "granted [] g = g"
| "granted (op # ops) g =
     granted ops (case op of
        Open m \<Rightarrow> insert m {x \<in> g. ms_id x \<noteq> ms_id m}
      | Close sid \<Rightarrow> {x \<in> g. ms_id x \<noteq> sid}
      | Close_User u \<Rightarrow> {x \<in> g. ms_user x \<noteq> u}
      | _ \<Rightarrow> g)"

text \<open>A store of sessions: \<open>live\<close> are those that it can still find.\<close>

locale grant_store =
  fixes create :: "market_session \<Rightarrow> 's \<Rightarrow> 's"
    and look :: "time \<Rightarrow> string \<Rightarrow> 's \<Rightarrow> market_session option \<times> 's"
    and revoke :: "string \<Rightarrow> 's \<Rightarrow> 's"
    and revoke_user :: "int \<Rightarrow> 's \<Rightarrow> 's"
    and drop_key :: "string \<Rightarrow> 's \<Rightarrow> 's"
    and proper :: "market_session \<Rightarrow> bool"
    and live :: "'s \<Rightarrow> market_session set"
    and invar :: "'s \<Rightarrow> bool"
  assumes live_create: "invar s \<Longrightarrow> proper m \<Longrightarrow> invar (create m s) \<and> live (create m s) = insert m {x \<in> live s. ms_id x \<noteq> ms_id m}"
    and live_look: "invar s \<Longrightarrow> invar (snd (look now sid s)) \<and> live (snd (look now sid s)) \<subseteq> live s"
    and look_live: "invar s \<Longrightarrow> fst (look now sid s) = Some m \<longleftrightarrow> m \<in> live s \<and> ms_id m = sid \<and> now < ms_expires m"
    and live_revoke: "invar s \<Longrightarrow> invar (revoke sid s) \<and> live (revoke sid s) = {x \<in> live s. ms_id x \<noteq> sid}"
    and live_revoke_user: "invar s \<Longrightarrow> invar (revoke_user u s) \<and> live (revoke_user u s) \<subseteq> {x \<in> live s. ms_user x \<noteq> u}"
    and live_drop: "invar s \<Longrightarrow> invar (drop_key sid s) \<and> live (drop_key sid s) \<subseteq> live s"
begin

definition grant_step :: "market_op \<Rightarrow> 's \<Rightarrow> 's" where
  "grant_step op s =
     (case op of Open m \<Rightarrow> create m s | Look now sid \<Rightarrow> snd (look now sid s) | Close sid \<Rightarrow> revoke sid s
      | Close_User u \<Rightarrow> revoke_user u s | Drop sid \<Rightarrow> drop_key sid s)"

lemma live_granted:
  assumes "invar s" "live s \<subseteq> g" "\<And>m. Open m \<in> set ops \<Longrightarrow> proper m"
  shows "invar (fold grant_step ops s) \<and> live (fold grant_step ops s) \<subseteq> granted ops g"
  using assms
proof (induction ops arbitrary: s g)
  case (Cons op ops)
  have step: "invar (grant_step op s) \<and> live (grant_step op s) \<subseteq> (case op of
        Open m \<Rightarrow> insert m {x \<in> g. ms_id x \<noteq> ms_id m} | Close sid \<Rightarrow> {x \<in> g. ms_id x \<noteq> sid}
      | Close_User u \<Rightarrow> {x \<in> g. ms_user x \<noteq> u} | _ \<Rightarrow> g)"
  proof (cases op)
    case (Open m)
    then show ?thesis using Cons.prems(2,3) live_create [OF Cons.prems(1), of m] by (auto simp: grant_step_def)
  next
    case (Look now sid)
    then show ?thesis using Cons.prems(2) live_look [OF Cons.prems(1), of now sid] by (auto simp: grant_step_def)
  next
    case (Close sid)
    then show ?thesis using Cons.prems(2) live_revoke [OF Cons.prems(1), of sid] by (auto simp: grant_step_def)
  next
    case (Close_User u)
    then show ?thesis using Cons.prems(2) live_revoke_user [OF Cons.prems(1), of u] by (auto simp: grant_step_def)
  next
    case (Drop sid)
    then show ?thesis using Cons.prems(2) live_drop [OF Cons.prems(1), of sid] by (auto simp: grant_step_def)
  qed
  have "\<And>m. Open m \<in> set ops \<Longrightarrow> proper m" using Cons.prems(3) by simp
  from Cons.IH [OF conjunct1 [OF step] conjunct2 [OF step] this] show ?case by simp
qed simp

text \<open>What is found was granted, and what was granted last is found.\<close>

lemma found_granted:
  assumes "invar s" "live s = {}" "\<And>m. Open m \<in> set ops \<Longrightarrow> proper m"
    and "fst (look now sid (fold grant_step ops s)) = Some m"
  shows "m \<in> granted ops {} \<and> ms_id m = sid \<and> now < ms_expires m"
  using live_granted [OF assms(1) _ assms(3), of "{}"] assms(2,4) look_live by blast

lemma opened_found:
  assumes "invar s" "live s = {}" "\<And>m. Open m \<in> set ops \<Longrightarrow> proper m" "proper m" "now < ms_expires m"
  shows "fst (look now (ms_id m) (create m (fold grant_step ops s))) = Some m"
proof -
  have "invar (fold grant_step ops s)" using live_granted [OF assms(1) _ assms(3), of "{}"] assms(2) by blast
  then show ?thesis using live_create [of "fold grant_step ops s" m] look_live assms(4,5) by blast
qed

end

section \<open>The memory store as an instance\<close>

definition memory_live :: "session_memory \<Rightarrow> market_session set" where
  "memory_live d = {m. dget d (ms_id m) = Some m \<and> ms_id m \<noteq> []}"

definition memory_invar :: "session_memory \<Rightarrow> bool" where
  "memory_invar d \<longleftrightarrow> wf_dict d \<and> (\<forall>k m. dget d k = Some m \<longrightarrow> ms_id m = k)"

lemma fold_dpop: "dget (fold dpop ks d) k = (if k \<in> set ks then None else dget d k)"
  by (induction ks arbitrary: d) auto

lemma wf_fold_dpop: "wf_dict d \<Longrightarrow> wf_dict (fold dpop ks d)"
  by (induction ks arbitrary: d) auto

lemma memory_invarD: "memory_invar d \<Longrightarrow> dget d k = Some m \<Longrightarrow> ms_id m = k"
  by (simp add: memory_invar_def)

lemma memory_invar_dpop: "memory_invar d \<Longrightarrow> memory_invar (dpop k d) \<and> memory_live (dpop k d) = {m \<in> memory_live d. ms_id m \<noteq> k}"
  by (auto simp: memory_invar_def memory_live_def split: if_splits)

lemma memory_revoked_user:
  assumes d: "memory_invar d"
  shows "memory_invar (memory_revoke_user u d) \<and> memory_live (memory_revoke_user u d) = {m \<in> memory_live d. ms_user m \<noteq> u}"
proof -
  have wf: "wf_dict d" using d by (simp add: memory_invar_def)
  have keys: "k \<in> set (map fst (filter (\<lambda>(_, m). ms_user m = u) d)) \<longleftrightarrow> (\<exists>m. dget d k = Some m \<and> ms_user m = u)" for k
    by (force simp: dget_in_set [OF wf])
  have row: "dget (memory_revoke_user u d) k = (case dget d k of None \<Rightarrow> None | Some m \<Rightarrow> if ms_user m = u then None else Some m)" for k
    using fold_dpop [of "map fst (filter (\<lambda>(_, m). ms_user m = u) d)" d] keys [of k]
    by (auto simp: memory_revoke_user_def split: option.splits)
  have "wf_dict (memory_revoke_user u d)" using wf_fold_dpop [OF wf] by (simp add: memory_revoke_user_def)
  moreover have "ms_id m = k" if "dget (memory_revoke_user u d) k = Some m" for k m
    using that memory_invarD [OF d, of k m] by (auto simp: row split: option.splits if_splits)
  ultimately have "memory_invar (memory_revoke_user u d)" by (simp add: memory_invar_def)
  moreover have "memory_live (memory_revoke_user u d) = {m \<in> memory_live d. ms_user m \<noteq> u}"
    by (auto simp: memory_live_def row split: option.splits if_splits)
  ultimately show ?thesis by blast
qed

interpretation memory_sessions: grant_store memory_create memory_look memory_revoke memory_revoke_user "\<lambda>_ d. d"
  "\<lambda>m. ms_id m \<noteq> []" memory_live memory_invar
proof unfold_locales
  fix d :: session_memory and now sid m u
  assume d: "memory_invar d"
  show "memory_invar (memory_create m d) \<and> memory_live (memory_create m d) = insert m {x \<in> memory_live d. ms_id x \<noteq> ms_id m}"
    if "ms_id m \<noteq> []"
    using d that by (auto simp: memory_create_def memory_invar_def memory_live_def split: if_splits)
  show "memory_invar (snd (memory_look now sid d)) \<and> memory_live (snd (memory_look now sid d)) \<subseteq> memory_live d"
    using d memory_invar_dpop [OF d, of sid] by (auto simp: memory_look_def split: option.splits)
  show "fst (memory_look now sid d) = Some m \<longleftrightarrow> m \<in> memory_live d \<and> ms_id m = sid \<and> now < ms_expires m"
  proof (cases "dget d sid")
    case (Some x)
    then have "ms_id x = sid" by (rule memory_invarD [OF d])
    then show ?thesis using Some by (cases "m = x") (auto simp: memory_look_def memory_live_def)
  qed (auto simp: memory_look_def memory_live_def)
  show "memory_invar (memory_revoke sid d) \<and> memory_live (memory_revoke sid d) = {x \<in> memory_live d. ms_id x \<noteq> sid}"
    using d memory_invar_dpop [OF d, of sid] by (auto simp: memory_revoke_def memory_live_def)
  show "memory_invar (memory_revoke_user u d) \<and> memory_live (memory_revoke_user u d) \<subseteq> {x \<in> memory_live d. ms_user x \<noteq> u}"
    using memory_revoked_user [OF d] by blast
qed simp_all

section \<open>In Redis\<close>

text \<open>The commands of the client; \<open>rc_expire\<close> is what the server does when the time of a key is over.\<close>

record 'c session_client =
  rc_get :: "'c \<Rightarrow> string \<Rightarrow> string option"
  rc_setex :: "string \<Rightarrow> int \<Rightarrow> string \<Rightarrow> 'c \<Rightarrow> 'c"
  rc_delete :: "string \<Rightarrow> 'c \<Rightarrow> 'c"
  rc_sadd :: "string \<Rightarrow> string \<Rightarrow> 'c \<Rightarrow> 'c"
  rc_srem :: "string \<Rightarrow> string \<Rightarrow> 'c \<Rightarrow> 'c"
  rc_smembers :: "'c \<Rightarrow> string \<Rightarrow> string list"

definition client_laws :: "'c session_client \<Rightarrow> bool" where
  "client_laws K \<longleftrightarrow>
     (\<forall>c k n v k'. rc_get K (rc_setex K k n v c) k' = (if k' = k then Some v else rc_get K c k'))
     \<and> (\<forall>c k k'. rc_get K (rc_delete K k c) k' = (if k' = k then None else rc_get K c k'))
     \<and> (\<forall>c k x k'. rc_get K (rc_sadd K k x c) k' = rc_get K c k') \<and> (\<forall>c k x k'. rc_get K (rc_srem K k x c) k' = rc_get K c k')
     \<and> (\<forall>c k n v k'. k' \<noteq> k \<longrightarrow> set (rc_smembers K (rc_setex K k n v c) k') = set (rc_smembers K c k'))
     \<and> (\<forall>c k k'. set (rc_smembers K (rc_delete K k c) k') = (if k' = k then {} else set (rc_smembers K c k')))
     \<and> (\<forall>c k x k'. rc_get K c k = None \<longrightarrow>
          set (rc_smembers K (rc_sadd K k x c) k') = (if k' = k then insert x (set (rc_smembers K c k')) else set (rc_smembers K c k')))
     \<and> (\<forall>c k x k'. set (rc_smembers K (rc_srem K k x c) k') = (if k' = k then set (rc_smembers K c k') - {x} else set (rc_smembers K c k')))"

definition session_key :: "string \<Rightarrow> string" where
  "session_key sid = ''ths:market:sessions:'' @ sid"

definition user_key :: "int \<Rightarrow> string" where
  "user_key u = ''ths:market:user-sessions:'' @ str_of_int u"

text \<open>The text that \<open>json.dumps\<close> writes, with its spaces.\<close>

definition session_payload :: "market_session \<Rightarrow> string" where
  "session_payload m =
     ''{'' @ dumps_text ''user_id'' @ '': '' @ str_of_int (ms_user m) @ '', '' @ dumps_text ''csrf_token'' @ '': '' @ dumps_text (ms_csrf m)
     @ '', '' @ dumps_text ''expires_at'' @ '': '' @ dumps_text (isoformat (ms_expires m)) @ ''}''"

definition payload_user :: "string \<Rightarrow> int option" where
  "payload_user raw =
     Option.bind (json_loads raw) (\<lambda>j. case j of JObj d \<Rightarrow> Option.bind (dget d ''user_id'') py_int | _ \<Rightarrow> None)"

definition payload_session :: "(json \<Rightarrow> string) \<Rightarrow> string \<Rightarrow> string \<Rightarrow> market_session option" where
  "payload_session repr_text sid raw =
     Option.bind (json_loads raw) (\<lambda>j. case j of
       JObj d \<Rightarrow> do {
         u \<leftarrow> Option.bind (dget d ''user_id'') py_int;
         csrf \<leftarrow> dget d ''csrf_token'';
         e \<leftarrow> Option.bind (dget d ''expires_at'') (\<lambda>v. time_of_text (py_str repr_text v));
         Some \<lparr>ms_id = sid, ms_user = u, ms_csrf = py_str repr_text csrf, ms_expires = e\<rparr>
       }
     | _ \<Rightarrow> None)"

text \<open>\<open>create\<close>: \<open>seconds\<close> is \<open>max(1, round(ttl))\<close>.\<close>

definition redis_create :: "'c session_client \<Rightarrow> int \<Rightarrow> market_session \<Rightarrow> 'c \<Rightarrow> 'c" where
  "redis_create K seconds m c =
     rc_sadd K (user_key (ms_user m)) (ms_id m) (rc_setex K (session_key (ms_id m)) seconds (session_payload m) c)"

definition session_seconds :: "time \<Rightarrow> int" where
  "session_seconds ttl = max 1 (half_even (of_int ttl / 1000000))"

definition delete_session :: "'c session_client \<Rightarrow> string \<Rightarrow> int option \<Rightarrow> 'c \<Rightarrow> 'c" where
  "delete_session K sid u c =
     (let c' = rc_delete K (session_key sid) c in case u of None \<Rightarrow> c' | Some u \<Rightarrow> rc_srem K (user_key u) sid c')"

definition redis_look :: "'c session_client \<Rightarrow> (json \<Rightarrow> string) \<Rightarrow> time \<Rightarrow> string \<Rightarrow> 'c \<Rightarrow> market_session option \<times> 'c" where
  "redis_look K repr_text now sid c =
     (if sid = [] then (None, c)
      else case rc_get K c (session_key sid) of None \<Rightarrow> (None, c)
      | Some raw \<Rightarrow>
          (case payload_session repr_text sid raw of None \<Rightarrow> (None, rc_delete K (session_key sid) c)
           | Some m \<Rightarrow> if ms_expires m \<le> now then (None, delete_session K (ms_id m) (Some (ms_user m)) c) else (Some m, c)))"

definition redis_revoke :: "'c session_client \<Rightarrow> string \<Rightarrow> 'c \<Rightarrow> 'c" where
  "redis_revoke K sid c =
     (if sid = [] then c else delete_session K sid (Option.bind (rc_get K c (session_key sid)) payload_user) c)"

text \<open>The script: the sessions of the index, then the index.\<close>

definition redis_revoke_user :: "'c session_client \<Rightarrow> int \<Rightarrow> 'c \<Rightarrow> 'c" where
  "redis_revoke_user K u c =
     rc_delete K (user_key u) (fold (\<lambda>sid. rc_delete K (session_key sid)) (rc_smembers K c (user_key u)) c)"

section \<open>The payload is read back\<close>

lemma str_of_int_loads: "json_loads (str_of_int u) = Some (JNum (of_int u))"
  using json_round_trip [of "JNum (of_int u)"] by simp

lemma user_key_eq: "user_key u = user_key v \<longleftrightarrow> u = v"
proof
  assume "user_key u = user_key v"
  then have "str_of_int u = str_of_int v" by (simp only: user_key_def append.simps list.inject same_append_eq)
  then have "Some (JNum (of_int u)) = Some (JNum (of_int v))" using str_of_int_loads [of u] str_of_int_loads [of v] by (simp only:)
  then show "u = v" by (simp only: option.inject json.inject of_int_eq_iff)
qed simp

lemma key_kinds: "session_key sid \<noteq> user_key u" "user_key u \<noteq> session_key sid" "session_key sid = session_key sid' \<longleftrightarrow> sid = sid'"
  by (simp_all add: session_key_def user_key_def)

lemma parse_members_spaced:
  assumes "parse_value (json_dumps v @ r) = Some (v, r)" and "skip_ws (json_dumps v @ r) = json_dumps v @ r"
  shows "parse_members (dumps_text k @ '': '' @ json_dumps v @ r) =
    (case skip_ws r of [] \<Rightarrow> None
     | e # r4 \<Rightarrow> if e = CHR ''}'' then Some ([(k, v)], r4)
         else if e = CHR '','' then map_option (apfst ((#) (k, v))) (parse_members (skip_ws r4)) else None)"
  using assms by (simp add: parse_members.simps dumps_text_def dumps_text_parse json_space_def)

lemma spaced_more:
  assumes "writable v" "r = CHR '' '' # quote_char # r'"
  shows "parse_members (dumps_text k @ '': '' @ json_dumps v @ CHR '','' # r) = map_option (apfst ((#) (k, v))) (parse_members (quote_char # r'))"
  using parse_members_spaced [OF value_parse [OF assms(1)] dumps_ws [OF assms(1)], of "CHR '','' # r" k] assms(2)
  by (simp add: json_space_def)

lemma spaced_last:
  assumes "writable v"
  shows "parse_members (dumps_text k @ '': '' @ json_dumps v @ ''}'') = Some ([(k, v)], [])"
  using parse_members_spaced [OF value_parse [OF assms] dumps_ws [OF assms], of "''}''" k] by (simp add: json_space_def)

definition session_members :: "market_session \<Rightarrow> (string \<times> json) list" where
  "session_members m = [(''user_id'', JNum (of_int (ms_user m))), (''csrf_token'', JStr (ms_csrf m)), (''expires_at'', JStr (isoformat (ms_expires m)))]"

lemma payload_loads: "json_loads (session_payload m) = Some (JObj (session_members m))"
proof -
  define r2 where "r2 = dumps_text ''expires_at'' @ '': '' @ json_dumps (JStr (isoformat (ms_expires m))) @ ''}''"
  define r1 where "r1 = dumps_text ''csrf_token'' @ '': '' @ json_dumps (JStr (ms_csrf m)) @ CHR '','' # CHR '' '' # r2"
  define r0 where "r0 = dumps_text ''user_id'' @ '': '' @ json_dumps (JNum (of_int (ms_user m))) @ CHR '','' # CHR '' '' # r1"
  have payload: "session_payload m = CHR ''{'' # r0" by (simp add: session_payload_def r0_def r1_def r2_def)
  have q2: "r2 = quote_char # tl r2" and q1: "r1 = quote_char # tl r1" and q0: "r0 = quote_char # tl r0"
    by (simp_all add: r0_def r1_def r2_def dumps_text_def)
  have "parse_members r2 = Some ([(''expires_at'', JStr (isoformat (ms_expires m)))], [])"
    unfolding r2_def by (rule spaced_last) simp
  moreover have "parse_members r1 = map_option (apfst ((#) (''csrf_token'', JStr (ms_csrf m)))) (parse_members r2)"
    using spaced_more [of "JStr (ms_csrf m)" "CHR '' '' # r2" "tl r2" "''csrf_token''"] q2 by (simp add: r1_def)
  moreover have "parse_members r0 = map_option (apfst ((#) (''user_id'', JNum (of_int (ms_user m))))) (parse_members r1)"
    using spaced_more [of "JNum (of_int (ms_user m))" "CHR '' '' # r1" "tl r1" "''user_id''"] q1 by (simp add: r0_def)
  ultimately have members: "parse_members r0 = Some (session_members m, [])" by (simp add: session_members_def)
  have ws: "skip_ws r0 = r0" by (subst q0, subst (2) q0) (simp add: json_space_def)
  have "parse_value (CHR ''{'' # r0) = Some (JObj (session_members m), [])"
    using members ws q0 by (subst parse_value.simps) (cases r0, simp_all add: session_members_def json_space_def)
  then show ?thesis by (simp add: json_loads_def payload json_space_def)
qed

lemma payload_user_read: "payload_user (session_payload m) = Some (ms_user m)"
proof -
  have "Fund_Flow.truncate (of_int z) = z" for z by (simp add: Fund_Flow.truncate_def floor_minus)
  then show ?thesis by (simp add: payload_user_def payload_loads session_members_def py_int_def)
qed

lemma payload_session_read: "valid_time (ms_expires m) \<Longrightarrow> payload_session repr_text (ms_id m) (session_payload m) = Some m"
proof -
  have "Fund_Flow.truncate (of_int z) = z" for z by (simp add: Fund_Flow.truncate_def floor_minus)
  then show "valid_time (ms_expires m) \<Longrightarrow> ?thesis"
    by (simp add: payload_session_def payload_loads session_members_def py_int_def py_str_def instant_round)
qed

section \<open>The Redis store as an instance\<close>

locale session_redis =
  fixes K :: "'c session_client" and repr_text :: "json \<Rightarrow> string" and seconds :: int
  assumes laws: "client_laws K"
begin

lemma client_simps [simp]:
  "rc_get K (rc_setex K k n v c) k' = (if k' = k then Some v else rc_get K c k')"
  "rc_get K (rc_delete K k c) k' = (if k' = k then None else rc_get K c k')"
  "rc_get K (rc_sadd K k x c) k' = rc_get K c k'" "rc_get K (rc_srem K k x c) k' = rc_get K c k'"
  "k' \<noteq> k \<Longrightarrow> set (rc_smembers K (rc_setex K k n v c) k') = set (rc_smembers K c k')"
  "set (rc_smembers K (rc_delete K k c) k') = (if k' = k then {} else set (rc_smembers K c k'))"
  "rc_get K c k = None \<Longrightarrow>
     set (rc_smembers K (rc_sadd K k x c) k') = (if k' = k then insert x (set (rc_smembers K c k')) else set (rc_smembers K c k'))"
  "set (rc_smembers K (rc_srem K k x c) k') = (if k' = k then set (rc_smembers K c k') - {x} else set (rc_smembers K c k'))"
  using laws by (simp_all add: client_laws_def)

text \<open>The session under an id.\<close>

definition stored :: "'c \<Rightarrow> string \<Rightarrow> market_session option" where
  "stored c sid = Option.bind (rc_get K c (session_key sid)) (payload_session repr_text sid)"

definition redis_live :: "'c \<Rightarrow> market_session set" where
  "redis_live c = {m. ms_id m \<noteq> [] \<and> stored c (ms_id m) = Some m}"

definition redis_invar :: "'c \<Rightarrow> bool" where
  "redis_invar c \<longleftrightarrow> (\<forall>u. rc_get K c (user_key u) = None)
     \<and> (\<forall>m\<in>redis_live c. ms_id m \<in> set (rc_smembers K c (user_key (ms_user m))))"

lemma stored_id: "stored c sid = Some m \<Longrightarrow> ms_id m = sid"
  unfolding stored_def payload_session_def Option.bind_eq_Some_conv by (force split: json.splits simp: Option.bind_eq_Some_conv)

lemma delete_session_simps:
  "rc_get K (delete_session K sid u c) k = (if k = session_key sid then None else rc_get K c k)"
  "x \<noteq> sid \<Longrightarrow> x \<in> set (rc_smembers K (delete_session K sid u c) (user_key v)) \<longleftrightarrow> x \<in> set (rc_smembers K c (user_key v))"
  by (auto simp: delete_session_def Let_def key_kinds split: option.splits)

lemma live_deleted:
  assumes "redis_invar c" "\<And>k. rc_get K c' k = (if k = session_key sid then None else rc_get K c k)"
    and "\<And>x v. x \<noteq> sid \<Longrightarrow> x \<in> set (rc_smembers K c' (user_key v)) \<longleftrightarrow> x \<in> set (rc_smembers K c (user_key v))"
  shows "redis_invar c' \<and> redis_live c' = {x \<in> redis_live c. ms_id x \<noteq> sid}"
proof -
  have "stored c' i = (if i = sid then None else stored c i)" for i by (simp add: stored_def assms(2) key_kinds)
  then have "redis_live c' = {x \<in> redis_live c. ms_id x \<noteq> sid}" by (auto simp: redis_live_def)
  then show ?thesis using assms(1,3) by (auto simp: redis_invar_def assms(2))
qed

lemma fold_delete:
  "rc_get K (fold (\<lambda>sid. rc_delete K (session_key sid)) sids c) k = (if k \<in> session_key ` set sids then None else rc_get K c k)"
  "set (rc_smembers K (fold (\<lambda>sid. rc_delete K (session_key sid)) sids c) (user_key v)) = set (rc_smembers K c (user_key v))"
  by (induction sids arbitrary: c) (auto simp: key_kinds)

lemma live_revoked_user:
  assumes "redis_invar c"
  shows "redis_invar (redis_revoke_user K u c) \<and> redis_live (redis_revoke_user K u c) \<subseteq> {x \<in> redis_live c. ms_user x \<noteq> u}"
proof -
  let ?c = "redis_revoke_user K u c"
  have "stored ?c i = (if i \<in> set (rc_smembers K c (user_key u)) then None else stored c i)" for i
    by (auto simp: stored_def redis_revoke_user_def fold_delete key_kinds)
  then have live: "redis_live ?c = {x \<in> redis_live c. ms_id x \<notin> set (rc_smembers K c (user_key u))}" by (auto simp: redis_live_def)
  then have "redis_live ?c \<subseteq> {x \<in> redis_live c. ms_user x \<noteq> u}" using assms by (auto simp: redis_invar_def)
  moreover from this have "redis_invar ?c"
    using assms by (auto simp: redis_invar_def redis_revoke_user_def fold_delete user_key_eq)
  ultimately show ?thesis by blast
qed

end

text \<open>A session that the application creates.\<close>

definition proper_session :: "market_session \<Rightarrow> bool" where
  "proper_session m \<longleftrightarrow> ms_id m \<noteq> [] \<and> valid_time (ms_expires m)"

sublocale session_redis \<subseteq> redis: grant_store "redis_create K seconds" "redis_look K repr_text" "redis_revoke K" "redis_revoke_user K"
  "\<lambda>sid. rc_delete K (session_key sid)" proper_session redis_live redis_invar
proof unfold_locales
  fix c now sid m u
  assume c: "redis_invar c"
  show "redis_invar (redis_create K seconds m c) \<and> redis_live (redis_create K seconds m c) = insert m {x \<in> redis_live c. ms_id x \<noteq> ms_id m}"
    if m: "proper_session m"
  proof -
    have "stored (redis_create K seconds m c) i = (if i = ms_id m then Some m else stored c i)" for i
      using m by (simp add: stored_def redis_create_def key_kinds payload_session_read proper_session_def)
    then have "redis_live (redis_create K seconds m c) = insert m {x \<in> redis_live c. ms_id x \<noteq> ms_id m}"
      using m by (auto simp: redis_live_def proper_session_def)
    then show ?thesis using c by (auto simp: redis_invar_def redis_create_def key_kinds)
  qed
  show "redis_invar (rc_delete K (session_key sid) c) \<and> redis_live (rc_delete K (session_key sid) c) \<subseteq> redis_live c"
    using live_deleted [OF c, of "rc_delete K (session_key sid) c" sid] by (auto simp: key_kinds)
  show "redis_invar (snd (redis_look K repr_text now sid c)) \<and> redis_live (snd (redis_look K repr_text now sid c)) \<subseteq> redis_live c"
    using c live_deleted [OF c, of "rc_delete K (session_key sid) c" sid] live_deleted [OF c delete_session_simps]
    by (auto simp: redis_look_def key_kinds split: option.splits)
  show "fst (redis_look K repr_text now sid c) = Some m \<longleftrightarrow> m \<in> redis_live c \<and> ms_id m = sid \<and> now < ms_expires m"
    using stored_id [of c sid] by (auto simp: redis_look_def redis_live_def stored_def split: option.splits)
  show "redis_invar (redis_revoke K sid c) \<and> redis_live (redis_revoke K sid c) = {x \<in> redis_live c. ms_id x \<noteq> sid}"
  proof (cases "sid = []")
    case True
    then show ?thesis using c by (auto simp: redis_revoke_def redis_live_def)
  next
    case False
    then show ?thesis using live_deleted [OF c delete_session_simps] by (simp add: redis_revoke_def)
  qed
  show "redis_invar (redis_revoke_user K u c) \<and> redis_live (redis_revoke_user K u c) \<subseteq> {x \<in> redis_live c. ms_user x \<noteq> u}"
    by (rule live_revoked_user [OF c])
qed

section \<open>Both stores give the same answers\<close>

text \<open>The index names only sessions of its user, and only ids that were given out.\<close>

context session_redis
begin

definition index_exact :: "'c \<Rightarrow> string set \<Rightarrow> bool" where
  "index_exact c used \<longleftrightarrow>
     (\<forall>u. set (rc_smembers K c (user_key u)) \<subseteq> used)
     \<and> (\<forall>m\<in>redis_live c. \<forall>u. ms_id m \<in> set (rc_smembers K c (user_key u)) \<longrightarrow> ms_user m = u)"

definition same_sessions :: "'c \<Rightarrow> session_memory \<Rightarrow> string set \<Rightarrow> bool" where
  "same_sessions c d used \<longleftrightarrow> redis_invar c \<and> memory_invar d \<and> redis_live c = memory_live d \<and> index_exact c used"

lemma index_exact_mono:
  assumes "index_exact c used" "redis_live c' \<subseteq> redis_live c"
    and "\<And>u. set (rc_smembers K c' (user_key u)) \<subseteq> set (rc_smembers K c (user_key u))"
  shows "index_exact c' used"
  using assms unfolding index_exact_def by blast

lemma deleted_members: "set (rc_smembers K (delete_session K sid u c) (user_key v)) \<subseteq> set (rc_smembers K c (user_key v))"
  by (auto simp: delete_session_def Let_def key_kinds split: option.splits)

lemma same_answer:
  assumes "same_sessions c d used"
  shows "fst (redis_look K repr_text now sid c) = fst (memory_look now sid d)"
proof -
  have "fst (redis_look K repr_text now sid c) = Some m \<longleftrightarrow> fst (memory_look now sid d) = Some m" for m
    using assms redis.look_live [of c] memory_sessions.look_live [of d] by (simp add: same_sessions_def)
  then show ?thesis by (metis option.exhaust)
qed

lemma same_created:
  assumes "same_sessions c d used" "proper_session m" "ms_id m \<notin> used"
  shows "same_sessions (redis_create K seconds m c) (memory_create m d) (insert (ms_id m) used)"
proof -
  have s: "redis_invar c" "memory_invar d" "redis_live c = memory_live d" "index_exact c used" using assms(1) by (simp_all add: same_sessions_def)
  have p: "ms_id m \<noteq> []" using assms(2) by (simp add: proper_session_def)
  have none: "rc_get K c (user_key u) = None" for u using s(1) by (simp add: redis_invar_def)
  have members: "set (rc_smembers K (redis_create K seconds m c) (user_key u)) =
      (if u = ms_user m then insert (ms_id m) (set (rc_smembers K c (user_key u))) else set (rc_smembers K c (user_key u)))" for u
    by (simp add: redis_create_def key_kinds user_key_eq none)
  have live: "redis_live (redis_create K seconds m c) = insert m {x \<in> redis_live c. ms_id x \<noteq> ms_id m}"
    using redis.live_create [OF s(1) assms(2)] by blast
  have "ms_id m \<notin> set (rc_smembers K c (user_key u))" for u using s(4) assms(3) by (auto simp: index_exact_def)
  then have "index_exact (redis_create K seconds m c) (insert (ms_id m) used)"
    using s(4) by (auto simp: index_exact_def members live)
  then show ?thesis
    using redis.live_create [OF s(1) assms(2)] memory_sessions.live_create [OF s(2) p] s(3) by (simp add: same_sessions_def)
qed

lemma looked_live:
  assumes "redis_invar c"
  shows "redis_live (snd (redis_look K repr_text now sid c)) = {m \<in> redis_live c. ms_id m = sid \<longrightarrow> now < ms_expires m}"
    and "set (rc_smembers K (snd (redis_look K repr_text now sid c)) (user_key u)) \<subseteq> set (rc_smembers K c (user_key u))"
proof -
  have drop: "redis_live (rc_delete K (session_key sid) c) = {x \<in> redis_live c. ms_id x \<noteq> sid}"
    using live_deleted [OF assms, of "rc_delete K (session_key sid) c" sid] by (auto simp: key_kinds)
  have del: "redis_live (delete_session K sid v c) = {x \<in> redis_live c. ms_id x \<noteq> sid}" for v
    using live_deleted [OF assms delete_session_simps] by blast
  show "redis_live (snd (redis_look K repr_text now sid c)) = {m \<in> redis_live c. ms_id m = sid \<longrightarrow> now < ms_expires m}"
    using stored_id [of c sid]
    by (auto simp: key_kinds redis_look_def redis_live_def stored_def drop [unfolded redis_live_def stored_def]
        del [unfolded redis_live_def stored_def] split: option.splits)
  show "set (rc_smembers K (snd (redis_look K repr_text now sid c)) (user_key u)) \<subseteq> set (rc_smembers K c (user_key u))"
    using deleted_members by (auto simp: redis_look_def key_kinds split: option.splits)
qed

lemma revoked_live:
  assumes "redis_invar c" "index_exact c used"
  shows "redis_live (redis_revoke_user K u c) = {x \<in> redis_live c. ms_user x \<noteq> u}" and "index_exact (redis_revoke_user K u c) used"
proof -
  let ?c = "redis_revoke_user K u c"
  have "stored ?c i = (if i \<in> set (rc_smembers K c (user_key u)) then None else stored c i)" for i
    by (auto simp: stored_def redis_revoke_user_def fold_delete key_kinds)
  then have "redis_live ?c = {x \<in> redis_live c. ms_id x \<notin> set (rc_smembers K c (user_key u))}" by (auto simp: redis_live_def)
  then show live: "redis_live ?c = {x \<in> redis_live c. ms_user x \<noteq> u}"
    using assms by (auto simp: redis_invar_def index_exact_def)
  show "index_exact ?c used"
    by (rule index_exact_mono [OF assms(2)]) (auto simp: live, auto simp: redis_revoke_user_def fold_delete split: if_splits)
qed

end

lemma memory_looked_live:
  assumes "memory_invar d"
  shows "memory_live (snd (memory_look now sid d)) = {m \<in> memory_live d. ms_id m = sid \<longrightarrow> now < ms_expires m}"
  using memory_invar_dpop [OF assms, of sid] memory_invarD [OF assms, of sid]
  by (auto simp: memory_look_def split: option.splits) (auto simp: memory_live_def)

text \<open>One request on each of the stores, and a run of them.\<close>

definition redis_request :: "'c session_client \<Rightarrow> (json \<Rightarrow> string) \<Rightarrow> int \<Rightarrow> market_op \<Rightarrow> 'c \<Rightarrow> 'c" where
  "redis_request K repr_text seconds op c =
     (case op of Open m \<Rightarrow> redis_create K seconds m c | Look now sid \<Rightarrow> snd (redis_look K repr_text now sid c)
      | Close sid \<Rightarrow> redis_revoke K sid c | Close_User u \<Rightarrow> redis_revoke_user K u c | Drop sid \<Rightarrow> rc_delete K (session_key sid) c)"

definition memory_request :: "market_op \<Rightarrow> session_memory \<Rightarrow> session_memory" where
  "memory_request op d =
     (case op of Open m \<Rightarrow> memory_create m d | Look now sid \<Rightarrow> snd (memory_look now sid d)
      | Close sid \<Rightarrow> memory_revoke sid d | Close_User u \<Rightarrow> memory_revoke_user u d | Drop sid \<Rightarrow> d)"

text \<open>Each id is given out once, and no key is dropped by the server.\<close>

fun fresh_ids :: "market_op list \<Rightarrow> string set \<Rightarrow> bool" where
  "fresh_ids [] used = True"
| "fresh_ids (op # ops) used =
     (case op of Open m \<Rightarrow> proper_session m \<and> ms_id m \<notin> used \<and> fresh_ids ops (insert (ms_id m) used)
      | Drop _ \<Rightarrow> False | _ \<Rightarrow> fresh_ids ops used)"

context session_redis
begin

lemma same_request:
  assumes "same_sessions c d used" "fresh_ids (op # ops) used"
  shows "\<exists>used'. same_sessions (redis_request K repr_text seconds op c) (memory_request op d) used' \<and> fresh_ids ops used'"
proof -
  have s: "redis_invar c" "memory_invar d" "redis_live c = memory_live d" "index_exact c used" using assms(1) by (simp_all add: same_sessions_def)
  show ?thesis
  proof (cases op)
    case (Open m)
    then show ?thesis using same_created [OF assms(1), of m] assms(2) by (auto simp: redis_request_def memory_request_def)
  next
    case (Look now sid)
    have "index_exact (snd (redis_look K repr_text now sid c)) used"
      by (rule index_exact_mono [OF s(4)]) (use looked_live [OF s(1)] in \<open>auto\<close>)
    then have "same_sessions (snd (redis_look K repr_text now sid c)) (snd (memory_look now sid d)) used"
      using looked_live(1) [OF s(1), of now sid] memory_looked_live [OF s(2), of now sid] redis.live_look [OF s(1), of now sid]
        memory_sessions.live_look [OF s(2), of now sid] s(3) by (simp add: same_sessions_def)
    then show ?thesis using assms(2) Look by (auto simp: redis_request_def memory_request_def)
  next
    case (Close sid)
    have "index_exact (redis_revoke K sid c) used"
      by (rule index_exact_mono [OF s(4)]) (use redis.live_revoke [OF s(1), of sid] deleted_members in \<open>auto simp: redis_revoke_def\<close>)
    then have "same_sessions (redis_revoke K sid c) (memory_revoke sid d) used"
      using redis.live_revoke [OF s(1), of sid] memory_sessions.live_revoke [OF s(2), of sid] s(3) by (simp add: same_sessions_def)
    then show ?thesis using assms(2) Close by (auto simp: redis_request_def memory_request_def)
  next
    case (Close_User u)
    have "same_sessions (redis_revoke_user K u c) (memory_revoke_user u d) used"
      using revoked_live [OF s(1,4), of u] live_revoked_user [OF s(1), of u] memory_revoked_user [OF s(2), of u] s(3)
      by (simp add: same_sessions_def)
    then show ?thesis using assms(2) Close_User by (auto simp: redis_request_def memory_request_def)
  qed (use assms(2) in simp)
qed

lemma same_run:
  assumes "same_sessions c d used" "fresh_ids ops used"
  shows "\<exists>used'. same_sessions (fold (redis_request K repr_text seconds) ops c) (fold memory_request ops d) used'"
  using assms
proof (induction ops arbitrary: c d used)
  case (Cons op ops)
  from same_request [OF Cons.prems] obtain used' where
    "same_sessions (redis_request K repr_text seconds op c) (memory_request op d) used'" "fresh_ids ops used'" by blast
  from Cons.IH [OF this] show ?case by simp
qed auto

lemma same_empty:
  assumes "\<And>k. rc_get K c k = None" "\<And>k. rc_smembers K c k = []"
  shows "same_sessions c [] {}"
  using assms by (simp add: same_sessions_def redis_invar_def redis_live_def memory_live_def memory_invar_def index_exact_def stored_def)

lemma granted_run:
  assumes "\<And>k. rc_get K c k = None" "\<And>m. Open m \<in> set ops \<Longrightarrow> proper_session m"
    and "fst (redis_look K repr_text now sid (fold (redis_request K repr_text seconds) ops c)) = Some m"
  shows "m \<in> granted ops {} \<and> ms_id m = sid \<and> now < ms_expires m"
proof -
  have step: "redis_request K repr_text seconds = redis.grant_step"
    by (simp add: fun_eq_iff redis_request_def redis.grant_step_def split: market_op.split)
  have start: "redis_live c = {}" "redis_invar c" using assms(1) by (auto simp: redis_live_def stored_def redis_invar_def)
  show ?thesis by (rule redis.found_granted [OF start(2,1) assms(2,3) [unfolded step]])
qed

end

section \<open>A client over a dictionary of texts and one of sets\<close>

record session_tables =
  st_texts :: "(string, string) dict"
  st_sets :: "(string, string list) dict"

definition table_members :: "session_tables \<Rightarrow> string \<Rightarrow> string list" where
  "table_members t k = (case dget (st_sets t) k of None \<Rightarrow> [] | Some xs \<Rightarrow> xs)"

definition table_client :: "session_tables session_client" where
  "table_client =
     \<lparr>rc_get = (\<lambda>t. dget (st_texts t)),
      rc_setex = (\<lambda>k _ v t. t\<lparr>st_texts := dset k v (st_texts t), st_sets := dpop k (st_sets t)\<rparr>),
      rc_delete = (\<lambda>k t. t\<lparr>st_texts := dpop k (st_texts t), st_sets := dpop k (st_sets t)\<rparr>),
      rc_sadd = (\<lambda>k x t. if dget (st_texts t) k = None then t\<lparr>st_sets := dset k (List.insert x (table_members t k)) (st_sets t)\<rparr> else t),
      rc_srem = (\<lambda>k x t. t\<lparr>st_sets := dset k (removeAll x (table_members t k)) (st_sets t)\<rparr>),
      rc_smembers = table_members\<rparr>"

lemma table_client_laws: "client_laws table_client"
  by (auto simp: client_laws_def table_client_def table_members_def)

interpretation table_sessions: session_redis table_client repr_text seconds for repr_text seconds
  by unfold_locales (rule table_client_laws)

definition demo_market_session :: market_session where
  "demo_market_session = \<lparr>ms_id = ''s1'', ms_user = 3, ms_csrf = ''c'', ms_expires = 1767225600000000\<rparr>"

definition no_session_tables :: session_tables where
  "no_session_tables = \<lparr>st_texts = [], st_sets = []\<rparr>"

lemma no_session_tables_empty: "rc_get table_client no_session_tables k = None" "rc_smembers table_client no_session_tables k = []"
  by (simp_all add: table_client_def no_session_tables_def table_members_def)

lemma demo_session_proper: "proper_session demo_market_session"
  by code_simp

lemma demo_session_found:
  "fst (redis_look table_client repr_text 0 ''s1'' (redis_create table_client 60 demo_market_session no_session_tables)) = Some demo_market_session"
  using payload_session_read [of demo_market_session repr_text] demo_session_proper
  by (simp add: redis_look_def redis_create_def table_client_def no_session_tables_def demo_market_session_def proper_session_def)

text \<open>C27: A session of the Redis store that the market pages find, by any run of logins, lookups, logouts, revocations of a user's
  sessions and keys that the server lets expire, is one that was granted under that very id, that has been revoked neither alone nor
  with the sessions of its user since, and whose time is not over; nothing forges or revives one.\<close>

theorem found_session_was_granted:
  assumes "client_laws K" and "\<forall>k. rc_get K c k = None" and "\<forall>m. Open m \<in> set ops \<longrightarrow> proper_session m"
    and "fst (redis_look K repr_text now sid (fold (redis_request K repr_text seconds) ops c)) = Some m"
  shows "m \<in> granted ops {} \<and> ms_id m = sid \<and> now < ms_expires m"
  using session_redis.granted_run [of K c ops repr_text now sid seconds m] assms by (simp add: session_redis_def)

theorem found_session_was_granted_witness:
  "demo_market_session \<in> granted [Open demo_market_session] {} \<and> ms_id demo_market_session = ''s1'' \<and> 0 < ms_expires demo_market_session"
  using found_session_was_granted [of table_client no_session_tables "[Open demo_market_session]" "\<lambda>_. []" 0 "''s1''" 60 demo_market_session]
  using table_client_laws no_session_tables_empty demo_session_proper demo_session_found
  by (simp add: redis_request_def)

text \<open>C25: The Redis store and the memory store of the market sessions are interchangeable: over an empty database, and for any run of
  logins with fresh ids, lookups, logouts and revocations of a user's sessions, a lookup after it answers the same in both.\<close>

theorem session_stores_agree:
  assumes "client_laws K" and "\<forall>k. rc_get K c k = None \<and> rc_smembers K c k = []" and "fresh_ids ops {}"
  shows "fst (redis_look K repr_text now sid (fold (redis_request K repr_text seconds) ops c)) =
    fst (memory_look now sid (fold memory_request ops []))"
proof -
  have K: "session_redis K" using assms(1) by (simp add: session_redis_def)
  have "session_redis.same_sessions K repr_text c [] {}" using session_redis.same_empty [OF K, of c] assms(2) by simp
  from session_redis.same_run [OF K this assms(3), of seconds] show ?thesis using session_redis.same_answer [OF K] by blast
qed

theorem session_stores_agree_witness:
  "fst (redis_look table_client (\<lambda>_. []) 0 ''s1'' (fold (redis_request table_client (\<lambda>_. []) 60) [Open demo_market_session, Close_User 3] no_session_tables)) =
   fst (memory_look 0 ''s1'' (fold memory_request [Open demo_market_session, Close_User 3] []))"
  using demo_session_proper
  by (intro session_stores_agree table_client_laws) (simp_all add: no_session_tables_empty)

end
