(* ===== verification/Preopen_Protocol.thy ===== *)
theory Preopen_Protocol
  imports Public_Values Dual_Source
begin

text \<open>
  \<open>level2_service/preopen_protocol.py\<close>: the request for the call auction of a symbol, and the decoders of the answers before
  the opening, the market phase, the auction quote and the quote of a watchlist. A payload is a dictionary of JSON values;
  \<open>str\<close> of a list, a dictionary, a boolean or None is no number, and \<open>repr_text\<close> is \<open>repr\<close> of such a value.
\<close>

abbreviation auction_invalid :: source_failure where
  "auction_invalid \<equiv> DirectFailure ''AUCTION_RESPONSE_INVALID''"

section \<open>The request\<close>

definition code_char :: "char \<Rightarrow> bool" where
  "code_char c \<longleftrightarrow> is_digit c \<or> code_upper c"

definition crlf :: string where "crlf = [CHR 0x0D, CHR 0x0A]"

definition build_auction_request :: "string \<Rightarrow> bool \<Rightarrow> source_failure + string" where
  "build_auction_request sy subscribe =
     (if \<not> (length sy = 6 \<and> list_all code_char sy) then Inl (DirectFailure ''AUCTION_REQUEST_INVALID'')
      else Inr (''key=dpjjyd_cas_'' @ sy @ crlf @ ''action='' @ (if subscribe then ''subscribe'' else ''unsubscribe'') @ crlf
        @ ''data_id_list=5'' @ crlf @ ''stock_list=all'' @ crlf @ ''max_msg_num=61''))"

section \<open>Values\<close>

text \<open>\<open>_node\<close>: the part of the payload that has the fields.\<close>

definition auction_node :: "(string, json) dict \<Rightarrow> (string, json) dict" where
  "auction_node payload =
     (case dget payload ''data'' of
        None \<Rightarrow> payload
      | Some (JObj d) \<Rightarrow> (case dget d ''data'' of Some (JObj nested) \<Rightarrow> nested | _ \<Rightarrow> d)
      | Some (JArr (JObj d # _)) \<Rightarrow> d
      | Some _ \<Rightarrow> payload)"

definition remove_suffix :: "string \<Rightarrow> string \<Rightarrow> string" where
  "remove_suffix suf s =
     (if suf \<noteq> [] \<and> length suf \<le> length s \<and> drop (length s - length suf) s = suf then take (length s - length suf) s else s)"

definition auction_decimal :: "json \<Rightarrow> rat option" where
  "auction_decimal j =
     (case j of JNum r \<Rightarrow> Some r | JFloat r \<Rightarrow> Some r | JStr s \<Rightarrow> decimal_of_text (remove_suffix ''%'' (strip s)) | _ \<Rightarrow> None)"

text \<open>\<open>_fixed\<close>: the \<open>quantize\<close> of a number beyond 28 digits raises an exception that nothing maps.\<close>

definition auction_fixed :: "nat \<Rightarrow> json \<Rightarrow> source_failure + string" where
  "auction_fixed places j =
     (case auction_decimal j of None \<Rightarrow> Inl auction_invalid
      | Some v \<Rightarrow> (case fixed_number places (Some v) of Some (Some t) \<Rightarrow> Inr t | _ \<Rightarrow> Inl OtherFailure))"

definition sixty :: "char \<Rightarrow> char \<Rightarrow> bool" where
  "sixty a b \<longleftrightarrow> a \<in> set ''012345'' \<and> is_digit b"

definition clock_like :: "string \<Rightarrow> bool" where
  "clock_like s \<longleftrightarrow>
     (case s of
        a # b # c # d # e # rest \<Rightarrow>
          (a \<in> set ''01'' \<and> is_digit b \<or> a = CHR ''2'' \<and> b \<in> set ''0123'') \<and> c = CHR '':'' \<and> sixty d e
          \<and> (case rest of [] \<Rightarrow> True | [f, g, h] \<Rightarrow> f = CHR '':'' \<and> sixty g h | _ \<Rightarrow> False)
      | _ \<Rightarrow> False)"

definition checked_time :: "string \<Rightarrow> source_failure + string" where
  "checked_time s = (let t = strip s in if clock_like t then Inr (take 8 t) else Inl auction_invalid)"

definition auction_time :: "(json \<Rightarrow> string) \<Rightarrow> json \<Rightarrow> source_failure + string" where
  "auction_time repr_text j = checked_time (if falsy j then [] else py_str repr_text j)"

section \<open>The market phase\<close>

definition phase_value :: "(json \<Rightarrow> string) \<Rightarrow> (string, market_phase) dict \<Rightarrow> json \<Rightarrow> source_failure + market_phase" where
  "phase_value repr_text phase_map j =
     (let key = map upper_char (strip (py_str repr_text j)) in
      case find (\<lambda>p. market_phase_value p = key) market_phases of
        Some p \<Rightarrow> Inr p
      | None \<Rightarrow> or_raise auction_invalid (dget phase_map key))"

definition phase_rows :: "(string, json) dict \<Rightarrow> json list option" where
  "phase_rows payload =
     (case jget_or (JObj payload) ''data'' (JObj payload) of
        JArr rows \<Rightarrow> Some rows
      | JObj d \<Rightarrow> (case jget_or (JObj d) ''rows'' (jget_or (JObj d) ''items'' (JArr [])) of JArr rows \<Rightarrow> Some rows | _ \<Rightarrow> None)
      | _ \<Rightarrow> None)"

text \<open>The values by their data id; rows without one are skipped.\<close>

definition phase_row :: "json \<Rightarrow> (int, json) dict \<Rightarrow> (int, json) dict" where
  "phase_row row values =
     (case row of
        JObj d \<Rightarrow> (case py_int (jget_or row ''dataId'' (jget_or row ''data_id'' JNull)) of
                     None \<Rightarrow> values | Some k \<Rightarrow> dset k (jget_or row ''value'' JNull) values)
      | _ \<Rightarrow> values)"

definition decode_market_phase ::
  "(json \<Rightarrow> string) \<Rightarrow> (string, market_phase) dict \<Rightarrow> (string, json) dict \<Rightarrow> source_failure + phase_state" where
  "decode_market_phase repr_text phase_map payload =
     (case phase_rows payload of None \<Rightarrow> Inl auction_invalid
      | Some rows \<Rightarrow>
          (let values = fold phase_row rows [] in
           case dget values 34834 of None \<Rightarrow> Inl auction_invalid
           | Some v \<Rightarrow>
               (let t = (case dget values 1 of None \<Rightarrow> [] | Some j \<Rightarrow> strip (if falsy j then [] else py_str repr_text j)) in
                case (if t = [] then Inr [] else checked_time t) of Inl e \<Rightarrow> Inl e
                | Inr _ \<Rightarrow>
                    (case phase_value repr_text phase_map v of Inl e \<Rightarrow> Inl e
                     | Inr p \<Rightarrow> Inr \<lparr>phase = p, phase_source = ''APP_STATUS'', local_time = (if t = [] then ''00:00:00'' else t),
                         server_time = (if t = [] then None else Some t)\<rparr>))))"

section \<open>Quotes\<close>

definition market_places :: "string \<Rightarrow> nat" where
  "market_places market = (if market \<in> {''20'', ''36''} then 3 else 2)"

definition auction_quote_fields :: "string \<Rightarrow> string \<Rightarrow> (string, string option) dict" where
  "auction_quote_fields price change =
     [(''price'', Some price), (''change_percent'', Some change), (''previous_close'', None), (''open'', None), (''high'', None),
      (''low'', None), (''turnover_rate'', None), (''volume'', None), (''amount'', None)]"

definition auction_errors :: "(string, string option) dict" where
  "auction_errors = [(''market_phase'', None), (''auction_quote'', None), (''core_metrics'', None), (''main_fund_flow'', None)]"

definition auction_snapshot ::
  "time \<Rightarrow> string \<Rightarrow> string \<Rightarrow> string option \<Rightarrow> string \<Rightarrow> string \<Rightarrow> string \<Rightarrow> string option \<Rightarrow> market_phase \<Rightarrow> snapshot" where
  "auction_snapshot now sy market name price change source moment p =
     (new_snapshot sy name market now (auction_quote_fields price change))
       \<lparr>source_time := moment, snap_source := Some source, snap_phase := p, snap_phase_source := Some ''APP_STATUS'',
        price_precision := int (market_places market),
        capabilities := [(''auction'', JObj [(''available'', JBool True), (''reason'', JNull)]), (''timeshare'', unavailable ''AUCTION_PRICE_ONLY'')],
        snap_errors := auction_errors\<rparr>"

text \<open>The code of a field that may have two names, and the text of it.\<close>

definition field_or :: "(string, json) dict \<Rightarrow> string \<Rightarrow> string \<Rightarrow> json \<Rightarrow> json" where
  "field_or d k k' dflt = jget_or (JObj d) k (jget_or (JObj d) k' dflt)"

definition percent_of :: "json \<Rightarrow> source_failure + string" where
  "percent_of j = map_sum id (\<lambda>t. t @ ''%'') (auction_fixed 2 j)"

definition decode_auction_quote ::
  "(json \<Rightarrow> string) \<Rightarrow> time \<Rightarrow> (string, json) dict \<Rightarrow> string \<Rightarrow> string \<Rightarrow> source_failure + snapshot" where
  "decode_auction_quote repr_text now payload sy market =
     (if market_code_for_symbol sy \<noteq> Some market then Inl auction_invalid
      else
        (let d = auction_node payload in
         if strip (py_str repr_text (field_or d ''stockcode'' ''symbol'' (JStr []))) \<noteq> sy then Inl auction_invalid
         else
           (let name = strip (case field_or d ''stock_name'' ''name'' JNull of JNull \<Rightarrow> [] | j \<Rightarrow> py_str repr_text j) in
            case auction_fixed (market_places market) (jget_or (JObj d) ''bidding_direction'' JNull) of Inl e \<Rightarrow> Inl e
            | Inr price \<Rightarrow>
                (case percent_of (jget_or (JObj d) ''rise_percent'' JNull) of Inl e \<Rightarrow> Inl e
                 | Inr change \<Rightarrow>
                     (case (case jget_or (JObj d) ''time'' JNull of JNull \<Rightarrow> Inr None
                            | j \<Rightarrow> map_sum id Some (auction_time repr_text j)) of Inl e \<Rightarrow> Inl e
                      | Inr moment \<Rightarrow>
                          Inr (auction_snapshot now sy market (if name = [] then None else Some name) price change ''THS_AUCTION'' moment
                            CALL_AUCTION))))))"

definition decode_watchlist_quote ::
  "(json \<Rightarrow> string) \<Rightarrow> time \<Rightarrow> (string, json) dict \<Rightarrow> string \<Rightarrow> string \<Rightarrow> market_phase \<Rightarrow> source_failure + snapshot" where
  "decode_watchlist_quote repr_text now payload sy market p =
     (if market_code_for_symbol sy \<noteq> Some market then Inl auction_invalid
      else
        (let d = auction_node payload in
         if strip (py_str repr_text (field_or d ''symbol'' ''4'' (JStr []))) \<noteq> sy then Inl auction_invalid
         else
           (let name = strip (py_str repr_text (field_or d ''name'' ''55'' (JStr []))) in
            if name = [] then Inl auction_invalid
            else
              (case auction_fixed (market_places market) (field_or d ''price'' ''10'' JNull) of Inl e \<Rightarrow> Inl e
               | Inr price \<Rightarrow>
                   (case percent_of (field_or d ''change_percent'' ''34818'' JNull) of Inl e \<Rightarrow> Inl e
                    | Inr change \<Rightarrow>
                        (let t = strip (py_str repr_text (jget_or (JObj d) ''time'' (JStr []))) in
                         case (if t = [] then Inr [] else checked_time t) of Inl e \<Rightarrow> Inl e
                         | Inr _ \<Rightarrow>
                             Inr (auction_snapshot now sy market (Some name) price change ''THS_DIRECT_QUOTE''
                               (if t = [] then None else Some t) p)))))))"

end
