(* ===== verification/Preopen_Market.thy ===== *)
theory Preopen_Market
  imports Preopen_Protocol Public_Market Instants Json_Text Research_Push
begin

text \<open>
  \<open>level2_service/preopen_market.py\<close>: the clients of the quotes before the opening, their cache in Redis, and
  \<open>PreopenMarketDataSource\<close>, which reads the public source or a client by the phase of the market. What one read meets, its
  clocks, the answers of the sources, and whether Redis answers, is a \<open>preopen_world\<close>; the texts in Redis and the memory of
  the process are the state. A capability that is no dictionary raises; lists of pairs, which \<open>dict\<close> would take, are not
  considered.
\<close>

section \<open>Clients\<close>

text \<open>\<open>Preopen9528Client\<close>; \<open>session\<close> tells whether the provider has a session, \<open>None\<close> in the answer that it is no snapshot.\<close>

definition protocol_phase :: "bool \<Rightarrow> source_failure + phase_state option \<Rightarrow> source_failure + phase_state option" where
  "protocol_phase session answer =
     (if \<not> session then Inl (DirectFailure ''DIRECT_SESSION_UNAVAILABLE'')
      else case answer of Inl OtherFailure \<Rightarrow> Inl (DirectFailure ''AUCTION_PHASE_UNAVAILABLE'') | r \<Rightarrow> r)"

definition protocol_quote :: "bool \<Rightarrow> (string \<Rightarrow> source_failure + snapshot option) \<Rightarrow> string \<Rightarrow> source_failure + snapshot" where
  "protocol_quote session answer sy =
     (case market_code_for_symbol sy of None \<Rightarrow> Inl OtherFailure
      | Some market \<Rightarrow>
          if \<not> session then Inl (DirectFailure ''DIRECT_SESSION_UNAVAILABLE'')
          else case answer market of
            Inl OtherFailure \<Rightarrow> Inl (DirectFailure ''AUCTION_QUOTE_UNAVAILABLE'')
          | Inl f \<Rightarrow> Inl f
          | Inr None \<Rightarrow> Inl (DirectFailure ''AUCTION_RESPONSE_INVALID'')
          | Inr (Some s) \<Rightarrow> Inr s)"

text \<open>\<open>CoreDirectPreopenQuoteClient.read_quote\<close>; a plain dictionary has no values to get. The clock is
  read twice.\<close>

definition core_preopen_quote :: "time \<Rightarrow> time \<Rightarrow> account_answer \<Rightarrow> string \<Rightarrow> market_phase \<Rightarrow> source_failure + snapshot" where
  "core_preopen_quote now collected answer sy p =
     (case answer of
        Inl OtherFailure \<Rightarrow> Inl (DirectFailure ''DIRECT_REQUEST_FAILED'')
      | Inl f \<Rightarrow> Inl f
      | Inr (PlainValues _) \<Rightarrow> Inl OtherFailure
      | Inr (Outcome d) \<Rightarrow>
          (case (out_values d CURRENT_PRICE, out_values d CHANGE_PERCENT) of
             (Some price, Some change) \<Rightarrow>
               if price = [] \<or> change = [] then Inl (DirectFailure ''DIRECT_PROTOCOL_RESPONSE_INVALID'')
               else
                 (case market_code_for_symbol sy of None \<Rightarrow> Inl OtherFailure
                  | Some market \<Rightarrow>
                      Inr ((new_snapshot sy (if out_values d STOCK_NAME = Some [] then None else out_values d STOCK_NAME) market collected
                            (auction_quote_fields price change))
                        \<lparr>source_time := Some (hms_text (shanghai_second_of_day now)), snap_source := Some ''THS_DIRECT_QUOTE'',
                         snap_phase := p, snap_phase_source := Some ''LOCAL_CALENDAR'', price_precision := int (market_places market),
                         capabilities := [(''auction'', JObj [(''available'', JBool True), (''reason'', JStr ''VERIFIED_43_7001_FALLBACK'')])],
                         snap_errors := auction_errors\<rparr>))
           | _ \<Rightarrow> Inl (DirectFailure ''DIRECT_PROTOCOL_RESPONSE_INVALID'')))"

section \<open>The cache in Redis\<close>

definition cache_key :: "string \<Rightarrow> string \<Rightarrow> date \<Rightarrow> string" where
  "cache_key pre sy day = pre @ '':'' @ iso_day day @ '':'' @ sy"

definition option_texts :: "(string, string option) dict \<Rightarrow> json" where
  "option_texts d = JObj (map (\<lambda>(k, v). (k, jstr_opt v)) d)"

definition cache_payload :: "snapshot \<Rightarrow> (string, json) dict" where
  "cache_payload s =
     [(''symbol'', JStr (snap_symbol s)), (''name'', jstr_opt (snap_name s)), (''market'', JStr (snap_market s)),
       (''source_time'', jstr_opt (source_time s)), (''collected_at'', JStr (isoformat (snap_collected_at s))),
       (''quote'', option_texts (quote s)), (''source'', jstr_opt (snap_source s)),
       (''market_phase'', JStr (market_phase_value (snap_phase s))), (''market_phase_source'', jstr_opt (snap_phase_source s)),
       (''price_precision'', JNum (of_int (price_precision s))), (''capabilities'', JObj (capabilities s)),
       (''source_errors'', option_texts (snap_errors s))]"

definition cache_set :: "string \<Rightarrow> snapshot \<Rightarrow> date \<Rightarrow> (string, string) dict \<Rightarrow> (string, string) dict" where
  "cache_set pre s day texts = dset (cache_key pre (snap_symbol s) day) (json_dumps (JObj (cache_payload s))) texts"

text \<open>The values that \<open>set\<close> writes: a text or null. Others, which the snapshot would take over, are not considered.\<close>

definition text_option :: "json \<Rightarrow> string option option" where
  "text_option j = (case j of JNull \<Rightarrow> Some None | JStr s \<Rightarrow> Some (Some s) | _ \<Rightarrow> None)"

fun json_texts :: "(string \<times> json) list \<Rightarrow> (string, string option) dict option" where
  "json_texts [] = Some []"
| "json_texts ((k, j) # d) = (case (text_option j, json_texts d) of (Some v, Some r) \<Rightarrow> Some ((k, v) # r) | _ \<Rightarrow> None)"

definition json_members :: "json \<Rightarrow> (string \<times> json) list option" where
  "json_members j = (case j of JObj d \<Rightarrow> Some d | _ \<Rightarrow> None)"

definition restored_snapshot :: "(json \<Rightarrow> string) \<Rightarrow> (string, json) dict \<Rightarrow> snapshot option" where
  "restored_snapshot repr_text d = do {
     collected \<leftarrow> Option.bind (dget d ''collected_at'') (\<lambda>j. time_of_text (py_str repr_text j));
     p \<leftarrow> find (\<lambda>p. market_phase_value p = py_str repr_text (jget_or (JObj d) ''market_phase'' (JStr ''CLOSED''))) market_phases;
     sy \<leftarrow> dget d ''symbol'';
     name \<leftarrow> text_option (jget_or (JObj d) ''name'' JNull);
     market \<leftarrow> dget d ''market'';
     moment \<leftarrow> text_option (jget_or (JObj d) ''source_time'' JNull);
     q \<leftarrow> Option.bind (json_members (jget_or (JObj d) ''quote'' (JObj []))) json_texts;
     source \<leftarrow> text_option (jget_or (JObj d) ''source'' JNull);
     phase_source \<leftarrow> text_option (jget_or (JObj d) ''market_phase_source'' JNull);
     precision \<leftarrow> py_int (jget_or (JObj d) ''price_precision'' (JNum 2));
     caps \<leftarrow> json_members (jget_or (JObj d) ''capabilities'' (JObj []));
     errors \<leftarrow> Option.bind (json_members (jget_or (JObj d) ''source_errors'' (JObj []))) json_texts;
     let s = (new_snapshot (py_str repr_text sy) name (py_str repr_text market) collected q)
       \<lparr>source_time := moment, snap_source := source, snap_phase := p, snap_phase_source := phase_source, price_precision := precision,
        capabilities := caps, snap_errors := errors\<rparr>;
     if valid_snapshot s then Some s else None
   }"

definition cache_get :: "(json \<Rightarrow> string) \<Rightarrow> string \<Rightarrow> string \<Rightarrow> date \<Rightarrow> (string, string) dict \<Rightarrow> snapshot option" where
  "cache_get repr_text pre sy day texts =
     (case dget texts (cache_key pre sy day) of None \<Rightarrow> None
      | Some raw \<Rightarrow> (case json_loads raw of Some (JObj d) \<Rightarrow> restored_snapshot repr_text d | _ \<Rightarrow> None))"

section \<open>The source\<close>

record preopen_config =
  pf_prefix :: string
  pf_cache :: bool
  enforce_preopen :: bool

text \<open>A client; \<open>pc_batch\<close> is None without \<open>read_watchlist_quotes\<close>, a batch None when it is no dictionary, and so an entry of it.\<close>

record preopen_client =
  pc_phase :: "source_failure + phase_state option"
  pc_quote :: "string \<Rightarrow> bool \<Rightarrow> market_phase \<Rightarrow> source_failure + snapshot"
  pc_batch :: "(string list \<Rightarrow> market_phase \<Rightarrow> source_failure + (string \<times> snapshot option) list option) option"

record preopen_world =
  pw_base :: "(string \<Rightarrow> bool \<Rightarrow> source_failure + snapshot) option"
  pw_client :: "preopen_client option"
  pw_trading :: "date \<Rightarrow> bool"
  pw_now :: time
  pw_today :: date
  pw_redis :: bool

record preopen_state =
  pm_memory :: "(string, date \<times> snapshot) dict"
  pm_texts :: "(string, string) dict"

definition preopen_phases :: "market_phase list" where
  "preopen_phases = [PREOPEN_QUOTE, CALL_AUCTION, AUCTION_LOCKED]"

text \<open>\<open>_phase\<close>\<close>

definition current_phase :: "preopen_world \<Rightarrow> phase_state \<times> string option" where
  "current_phase w =
     (let resolved = resolve_phase (pw_trading w) (pw_now w) None None in
      case pw_client w of None \<Rightarrow> (resolved, None)
      | Some c \<Rightarrow>
          (case pc_phase c of
             Inl f \<Rightarrow> (resolved, Some (failure_code ''AUCTION_PHASE_UNAVAILABLE'' f))
           | Inr None \<Rightarrow> (resolved, None)
           | Inr (Some st) \<Rightarrow> (st, None)))"

text \<open>\<open>_cached\<close> and \<open>_remember\<close>\<close>

definition cached_quote ::
  "(json \<Rightarrow> string) \<Rightarrow> preopen_config \<Rightarrow> preopen_world \<Rightarrow> string \<Rightarrow> preopen_state \<Rightarrow> snapshot option \<times> preopen_state" where
  "cached_quote repr_text cfg w sy st =
     (let restore =
        (if \<not> pf_cache cfg then (None, st)
         else case (if pw_redis w then cache_get repr_text (pf_prefix cfg) sy (pw_today w) (pm_texts st) else None) of
           None \<Rightarrow> (None, st)
         | Some s \<Rightarrow> (Some s, st\<lparr>pm_memory := dset sy (pw_today w, s) (pm_memory st)\<rparr>))
      in case dget (pm_memory st) sy of
           Some (d, s) \<Rightarrow> if d = pw_today w then (Some s, st) else restore
         | None \<Rightarrow> restore)"

definition auction_sources :: "string list" where
  "auction_sources = [''THS_AUCTION'', ''THS_DIRECT_QUOTE'']"

definition auction_source :: "snapshot \<Rightarrow> bool" where
  "auction_source s \<longleftrightarrow> (case snap_source s of None \<Rightarrow> False | Some t \<Rightarrow> t \<in> set auction_sources)"

definition remember_quote :: "preopen_config \<Rightarrow> preopen_world \<Rightarrow> snapshot \<Rightarrow> preopen_state \<Rightarrow> preopen_state" where
  "remember_quote cfg w s st =
     (if \<not> auction_source s then st
      else
        (let st' = st\<lparr>pm_memory := dset (snap_symbol s) (pw_today w, s) (pm_memory st)\<rparr> in
         if pf_cache cfg \<and> pw_redis w then st'\<lparr>pm_texts := cache_set (pf_prefix cfg) s (pw_today w) (pm_texts st')\<rparr> else st'))"

text \<open>\<open>dict\<close> of a value that may be missing\<close>

definition dict_value :: "json option \<Rightarrow> (string, json) dict option" where
  "dict_value j = (case j of None \<Rightarrow> Some [] | Some (JObj d) \<Rightarrow> Some d | Some (JArr []) \<Rightarrow> Some [] | Some (JStr []) \<Rightarrow> Some [] | _ \<Rightarrow> None)"

text \<open>\<open>_with_phase\<close>; None is the exception of a capability that is no dictionary.\<close>

definition with_phase :: "snapshot \<Rightarrow> phase_state \<Rightarrow> string option \<Rightarrow> string option \<Rightarrow> snapshot option" where
  "with_phase s st phase_error auction_error =
     (case dict_value (dget (capabilities s) ''auction'') of None \<Rightarrow> None
      | Some auction \<Rightarrow>
          (let errors = dset ''auction_quote'' auction_error (dset ''market_phase'' phase_error (snap_errors s));
               known = phase st \<in> set preopen_phases;
               auction' = dset ''reason'' (if known then jstr_opt auction_error else JStr ''MARKET_PHASE_NOT_AUCTION'')
                 (dset ''available'' (JBool (known \<and> auction_error = None)) auction)
           in Some (s\<lparr>snap_phase := phase st, snap_phase_source := Some (phase_source st),
                capabilities := dset ''auction'' (JObj auction') (capabilities s), snap_errors := errors\<rparr>)))"

text \<open>\<open>_read_base\<close>\<close>

definition read_base ::
  "preopen_config \<Rightarrow> preopen_world \<Rightarrow> phase_state \<times> string option \<Rightarrow> string \<Rightarrow> bool \<Rightarrow> preopen_state \<Rightarrow>
   (source_failure + snapshot) \<times> preopen_state" where
  "read_base cfg w state sy detail st =
     (case pw_base w of None \<Rightarrow> (Inl (DirectFailure ''MARKET_QUOTE_UNAVAILABLE''), st)
      | Some base \<Rightarrow>
          (case base sy detail of Inl f \<Rightarrow> (Inl f, st)
           | Inr s \<Rightarrow>
               (case with_phase s (fst state) (snd state) None of None \<Rightarrow> (Inl OtherFailure, st)
                | Some current \<Rightarrow> (Inr current, remember_quote cfg w current st))))"

text \<open>The value of the day that is left when no quote can be read, with the error.\<close>

definition recovered ::
  "(json \<Rightarrow> string) \<Rightarrow> preopen_config \<Rightarrow> preopen_world \<Rightarrow> phase_state \<times> string option \<Rightarrow> string \<Rightarrow> string \<Rightarrow> preopen_state \<Rightarrow>
   (source_failure + snapshot) \<times> preopen_state" where
  "recovered repr_text cfg w state code sy st =
     (case cached_quote repr_text cfg w sy st of
        (None, st') \<Rightarrow> (Inl (DirectFailure code), st')
      | (Some s, st') \<Rightarrow> (or_raise OtherFailure (with_phase s (fst state) (snd state) (Some code)), st'))"

text \<open>\<open>read_market_snapshot\<close>\<close>

definition read_preopen_snapshot ::
  "(json \<Rightarrow> string) \<Rightarrow> preopen_config \<Rightarrow> preopen_world \<Rightarrow> string \<Rightarrow> bool \<Rightarrow> preopen_state \<Rightarrow>
   (source_failure + snapshot) \<times> preopen_state" where
  "read_preopen_snapshot repr_text cfg w sy detail st =
     (let state = current_phase w in
      if phase (fst state) \<notin> set preopen_phases then read_base cfg w state sy detail st
      else case pw_client w of
        None \<Rightarrow> if enforce_preopen cfg then recovered repr_text cfg w state ''DIRECT_SESSION_UNAVAILABLE'' sy st
                else read_base cfg w state sy detail st
      | Some c \<Rightarrow>
          (case pc_quote c sy detail (phase (fst state)) of
             Inl f \<Rightarrow> recovered repr_text cfg w state (failure_code ''AUCTION_QUOTE_UNAVAILABLE'' f) sy st
           | Inr s \<Rightarrow>
               (case with_phase s (fst state) (snd state) None of
                  None \<Rightarrow> recovered repr_text cfg w state ''AUCTION_QUOTE_UNAVAILABLE'' sy st
                | Some current \<Rightarrow> (Inr current, remember_quote cfg w current st))))"

text \<open>
  \<open>read_market_snapshots\<close>. The two sets are given in the orders in which they are gone through; every single read meets a
  world of its own. First the entries of a batch, then the reads of single symbols.
\<close>

fun batch_entries ::
  "preopen_config \<Rightarrow> preopen_world \<Rightarrow> phase_state \<times> string option \<Rightarrow> string list \<Rightarrow> (string \<times> snapshot option) list \<Rightarrow>
   (string, snapshot) dict \<Rightarrow> preopen_state \<Rightarrow> (source_failure + (string, snapshot) dict) \<times> preopen_state" where
  "batch_entries cfg w state symbols [] found st = (Inr found, st)"
| "batch_entries cfg w state symbols ((sy, None) # raw) found st = batch_entries cfg w state symbols raw found st"
| "batch_entries cfg w state symbols ((sy, Some s) # raw) found st =
     (if sy \<notin> set symbols then batch_entries cfg w state symbols raw found st
      else case with_phase s (fst state) (snd state) None of None \<Rightarrow> (Inl OtherFailure, st)
        | Some current \<Rightarrow> batch_entries cfg w state symbols raw (dset sy current found) (remember_quote cfg w current st))"

fun single_reads ::
  "(json \<Rightarrow> string) \<Rightarrow> preopen_config \<Rightarrow> (nat \<Rightarrow> preopen_world) \<Rightarrow> (string \<Rightarrow> bool) \<Rightarrow> nat \<Rightarrow> string list \<Rightarrow> (string, snapshot) dict \<Rightarrow>
   preopen_state \<Rightarrow> (source_failure + (string, snapshot) dict) \<times> preopen_state" where
  "single_reads repr_text cfg ws detail i [] found st = (Inr found, st)"
| "single_reads repr_text cfg ws detail i (sy # rest) found st =
     (case read_preopen_snapshot repr_text cfg (ws i) sy (detail sy) st of
        (Inl f, st') \<Rightarrow> (Inl f, st')
      | (Inr s, st') \<Rightarrow> single_reads repr_text cfg ws detail (Suc i) rest (dset sy s found) st')"

fun batch_failure :: "source_failure \<Rightarrow> source_failure" where
  "batch_failure (DirectFailure code) = DirectFailure code"
| "batch_failure OtherFailure = DirectFailure ''AUCTION_QUOTE_UNAVAILABLE''"

definition read_preopen_snapshots ::
  "(json \<Rightarrow> string) \<Rightarrow> preopen_config \<Rightarrow> (nat \<Rightarrow> preopen_world) \<Rightarrow> string list \<Rightarrow> string list \<Rightarrow> preopen_state \<Rightarrow>
   (source_failure + (string, snapshot) dict) \<times> preopen_state" where
  "read_preopen_snapshots repr_text cfg ws symbols details st =
     (if symbols = [] then (Inr [], st)
      else
        (let w = ws 0; state = current_phase w; single = single_reads repr_text cfg ws (\<lambda>sy. sy \<in> set details) 1 symbols [] st in
         case Option.bind (pw_client w) pc_batch of None \<Rightarrow> single
         | Some batch \<Rightarrow>
             if phase (fst state) \<notin> set preopen_phases then single
             else case batch symbols (phase (fst state)) of
               Inl f \<Rightarrow> (Inl (batch_failure f), st)
             | Inr None \<Rightarrow> (Inl (DirectFailure ''AUCTION_RESPONSE_INVALID''), st)
             | Inr (Some raw) \<Rightarrow>
                 (case batch_entries cfg w state symbols raw [] st of
                    (Inl f, st') \<Rightarrow> (Inl (batch_failure f), st')
                  | (Inr found, st') \<Rightarrow>
                      apfst (map_sum batch_failure id)
                        (single_reads repr_text cfg ws (\<lambda>_. True) 1 (filter (\<lambda>sy. sy \<in> keys found) details) found st'))))"

text \<open>\<open>read_market_series\<close>\<close>

definition read_preopen_series ::
  "(string \<Rightarrow> string \<Rightarrow> string option \<Rightarrow> nat \<Rightarrow> source_failure + series_page) option \<Rightarrow> string \<Rightarrow> string \<Rightarrow> string option \<Rightarrow> nat \<Rightarrow>
   source_failure + series_page" where
  "read_preopen_series base sy period cursor limit =
     (case base of None \<Rightarrow> Inl (DirectFailure ''MARKET_SERIES_UNAVAILABLE'') | Some read \<Rightarrow> read sy period cursor limit)"

end
