(* ===== verification/Preopen_Properties.thy ===== *)
theory Preopen_Properties
  imports Preopen_Market
begin

text \<open>
  The properties of the source of quotes before the opening: the cache gives back what it was given, the public source has no
  part in an auction quote, and what stands in for a quote that cannot be read is a quote of the same day from the auction.
\<close>

declare map_of_eq_Some_iff [simp del]

section \<open>The cache\<close>

definition valid_day :: "date \<Rightarrow> bool" where
  "valid_day d \<longleftrightarrow> (case civil_from_days d of (y, m, dd) \<Rightarrow> 1 \<le> y \<and> y \<le> 9999)"

lemma month_days_le: "month_days y m \<le> 31"
  by (simp add: month_days_def)

lemma iso_day_take:
  assumes "valid_day d"
  shows "\<exists>y m dd. civil_from_days d = (y, m, dd) \<and> take_digits 4 (iso_day d @ s) = Some (nat y, ''-'' @ pad_int 2 m @ ''-'' @ pad_int 2 dd @ s)
    \<and> take_digits 2 (pad_int 2 m @ ''-'' @ pad_int 2 dd @ s) = Some (nat m, ''-'' @ pad_int 2 dd @ s)
    \<and> take_digits 2 (pad_int 2 dd @ s) = Some (nat dd, s) \<and> 0 \<le> y \<and> 0 \<le> m \<and> 0 \<le> dd"
proof -
  obtain y m dd where c: "civil_from_days d = (y, m, dd)" by (cases "civil_from_days d")
  note cal = civil_round [OF c] and y = assms [unfolded valid_day_def c prod.case]
  have "dd \<le> 31" using cal month_days_le [of y m] by linarith
  then have "nat y < 10 ^ 4" "nat m < 10 ^ 2" "nat dd < 10 ^ 2" using y cal by (simp_all add: nat_less_iff)
  then show ?thesis using c y cal by (simp add: iso_day_def pad_int_padded take_digits_padded)
qed

lemma iso_day_append_inj:
  assumes "valid_day d" "valid_day d'" "iso_day d @ s = iso_day d' @ s'"
  shows "d = d' \<and> s = s'"
proof -
  obtain y m dd where a: "civil_from_days d = (y, m, dd)" "take_digits 4 (iso_day d @ s) = Some (nat y, ''-'' @ pad_int 2 m @ ''-'' @ pad_int 2 dd @ s)"
    "take_digits 2 (pad_int 2 m @ ''-'' @ pad_int 2 dd @ s) = Some (nat m, ''-'' @ pad_int 2 dd @ s)"
    "take_digits 2 (pad_int 2 dd @ s) = Some (nat dd, s)" "0 \<le> y" "0 \<le> m" "0 \<le> dd"
    using iso_day_take [OF assms(1), of s] by blast
  obtain y' m' dd' where b: "civil_from_days d' = (y', m', dd')" "take_digits 4 (iso_day d' @ s') = Some (nat y', ''-'' @ pad_int 2 m' @ ''-'' @ pad_int 2 dd' @ s')"
    "take_digits 2 (pad_int 2 m' @ ''-'' @ pad_int 2 dd' @ s') = Some (nat m', ''-'' @ pad_int 2 dd' @ s')"
    "take_digits 2 (pad_int 2 dd' @ s') = Some (nat dd', s')" "0 \<le> y'" "0 \<le> m'" "0 \<le> dd'"
    using iso_day_take [OF assms(2), of s'] by blast
  have 1: "y = y'" "pad_int 2 m @ ''-'' @ pad_int 2 dd @ s = pad_int 2 m' @ ''-'' @ pad_int 2 dd' @ s'"
    using a(2,5) b(2,5) assms(3) by auto
  then have 2: "m = m'" "pad_int 2 dd @ s = pad_int 2 dd' @ s'" using a(3,6) b(3,6) by auto
  then have 3: "dd = dd'" "s = s'" using a(4,7) b(4,7) by auto
  have "d = d'" using civil_round(1) [OF a(1)] civil_round(1) [OF b(1)] 1 2 3 by simp
  then show ?thesis using 3 by simp
qed

lemma cache_key_inj: "valid_day d \<Longrightarrow> valid_day d' \<Longrightarrow> cache_key pre sy d = cache_key pre sy' d' \<longleftrightarrow> d = d' \<and> sy = sy'"
  using iso_day_append_inj [of d d' "'':'' @ sy" "'':'' @ sy'"] by (auto simp: cache_key_def)

text \<open>The snapshots that can be written, and what is written of them.\<close>

definition storable_snapshot :: "snapshot \<Rightarrow> bool" where
  "storable_snapshot s \<longleftrightarrow> valid_snapshot s \<and> valid_time (snap_collected_at s) \<and> wf_dict (quote s) \<and> wf_dict (snap_errors s)
     \<and> writable (JObj (capabilities s))"

definition persisted :: "snapshot \<Rightarrow> snapshot" where
  "persisted s = s\<lparr>snap_sequence := 0, timeshare := [], snap_series := [], order_book := [], trades := [], snap_fund_flow := [],
     snap_trade_dates := []\<rparr>"

lemma text_option_jstr [simp]: "text_option (jstr_opt x) = Some x"
  by (cases x) (simp_all add: text_option_def jstr_opt_def)

lemma json_texts_texts: "json_texts (map (\<lambda>(k, v). (k, jstr_opt v)) d) = Some d"
  by (induction d) auto

lemma writable_option_texts: "wf_dict d \<Longrightarrow> writable (option_texts d)"
  by (auto simp: option_texts_def list_all_iff jstr_opt_def comp_def case_prod_unfold split: option.splits)

lemma writable_payload: "storable_snapshot s \<Longrightarrow> writable (JObj (cache_payload s))"
  using writable_option_texts [of "quote s"] writable_option_texts [of "snap_errors s"]
  by (simp add: storable_snapshot_def cache_payload_def jstr_opt_def split: option.splits)

lemma phase_found: "find (\<lambda>q. market_phase_value q = market_phase_value p) market_phases = Some p"
  by (cases p) (simp_all add: market_phases_def)

lemma payload_fields:
  "dget (cache_payload s) ''collected_at'' = Some (JStr (isoformat (snap_collected_at s)))"
  "jget_or (JObj (cache_payload s)) ''market_phase'' j = JStr (market_phase_value (snap_phase s))"
  "dget (cache_payload s) ''symbol'' = Some (JStr (snap_symbol s))" "jget_or (JObj (cache_payload s)) ''name'' j = jstr_opt (snap_name s)"
  "dget (cache_payload s) ''market'' = Some (JStr (snap_market s))" "jget_or (JObj (cache_payload s)) ''source_time'' j = jstr_opt (source_time s)"
  "jget_or (JObj (cache_payload s)) ''quote'' j = option_texts (quote s)" "jget_or (JObj (cache_payload s)) ''source'' j = jstr_opt (snap_source s)"
  "jget_or (JObj (cache_payload s)) ''market_phase_source'' j = jstr_opt (snap_phase_source s)"
  "jget_or (JObj (cache_payload s)) ''price_precision'' j = JNum (of_int (price_precision s))"
  "jget_or (JObj (cache_payload s)) ''capabilities'' j = JObj (capabilities s)"
  "jget_or (JObj (cache_payload s)) ''source_errors'' j = option_texts (snap_errors s)"
  by (simp_all add: cache_payload_def jget_or_def)

lemma payload_restored:
  assumes "storable_snapshot s"
  shows "restored_snapshot repr_text (cache_payload s) = Some (persisted s)"
proof -
  have int: "py_int (JNum (of_int z)) = Some z" for z by (simp add: py_int_def Fund_Flow.truncate_def floor_minus)
  have members: "json_members (option_texts d) = Some (map (\<lambda>(k, v). (k, jstr_opt v)) d)" "json_members (JObj c) = Some c" for d c
    by (simp_all add: json_members_def option_texts_def)
  show ?thesis
    using assms by (simp add: restored_snapshot_def payload_fields py_str_def instant_round phase_found int members json_texts_texts
      storable_snapshot_def valid_snapshot_def new_snapshot_def persisted_def Let_def)
qed

text \<open>
  A quote that the cache can write is read back on the same day and for the same symbol with all its fields, only the parts
  that are never written, its sequence number, curves, order book and trades, being empty.
\<close>

theorem preopen_cache_round_trip:
  assumes "storable_snapshot s"
  shows "cache_get repr_text pre (snap_symbol s) day (cache_set pre s day texts) = Some (persisted s)"
  by (simp add: cache_get_def cache_set_def json_round_trip [OF writable_payload [OF assms]] payload_restored [OF assms]
    del: json_dumps_simps)

section \<open>The auction and the public source\<close>

lemma phase_without_base [simp]: "current_phase (w\<lparr>pw_base := b\<rparr>) = current_phase w"
  by (simp add: current_phase_def cong: option.case_cong)

lemma cached_without_base [simp]: "cached_quote repr_text cfg (w\<lparr>pw_base := b\<rparr>) sy st = cached_quote repr_text cfg w sy st"
  by (simp add: cached_quote_def Let_def split: option.splits)

lemma remember_without_base [simp]: "remember_quote cfg (w\<lparr>pw_base := b\<rparr>) s st = remember_quote cfg w s st"
  by (simp add: remember_quote_def Let_def)

lemma recovered_without_base [simp]:
  "recovered repr_text cfg (w\<lparr>pw_base := b\<rparr>) state code sy st = recovered repr_text cfg w state code sy st"
  by (simp add: recovered_def)

definition auction_world :: "preopen_config \<Rightarrow> preopen_world \<Rightarrow> bool" where
  "auction_world cfg w \<longleftrightarrow> phase (fst (current_phase w)) \<in> set preopen_phases \<and> (pw_client w \<noteq> None \<or> enforce_preopen cfg)"

lemma single_without_base:
  "auction_world cfg w \<Longrightarrow> read_preopen_snapshot repr_text cfg (w\<lparr>pw_base := b\<rparr>) sy detail st = read_preopen_snapshot repr_text cfg w sy detail st"
  by (cases "pw_client w") (simp_all add: read_preopen_snapshot_def auction_world_def Let_def cong: sum.case_cong option.case_cong)

lemma batch_without_base: "batch_entries cfg (w\<lparr>pw_base := b\<rparr>) state symbols raw found st = batch_entries cfg w state symbols raw found st"
  by (induction cfg w state symbols raw found st rule: batch_entries.induct) (simp_all split: option.splits)

lemma reads_without_base:
  "(\<And>i. auction_world cfg (ws i)) \<Longrightarrow> single_reads repr_text cfg (\<lambda>i. (ws i)\<lparr>pw_base := b i\<rparr>) detail i sys found st =
    single_reads repr_text cfg ws detail i sys found st"
  by (induction sys arbitrary: i found st) (simp_all add: single_without_base split: sum.splits prod.splits)

text \<open>
  C18: Before the opening, with a client or where the direct quotes are enforced, the public source has no part in the answers: the
  quotes of any symbols, and what is remembered of them, are the same whatever the public source answers or whether there is one.
\<close>

theorem auction_reads_no_public:
  assumes "\<forall>i. auction_world cfg (ws i)"
  shows "read_preopen_snapshots repr_text cfg (\<lambda>i. (ws i)\<lparr>pw_base := b i\<rparr>) symbols details st = read_preopen_snapshots repr_text cfg ws symbols details st"
  using assms by (simp add: read_preopen_snapshots_def reads_without_base batch_without_base Let_def split: option.splits sum.splits prod.splits)

section \<open>Quotes of the day\<close>

text \<open>What happens to a source: it reads, it is seeded, its process starts anew, a key of Redis ends.\<close>

datatype preopen_op = Quote_Read preopen_world string bool | Quote_Seed preopen_world snapshot | New_Process | Key_Ended string

definition preopen_step :: "(json \<Rightarrow> string) \<Rightarrow> preopen_config \<Rightarrow> preopen_op \<Rightarrow> preopen_state \<Rightarrow> preopen_state" where
  "preopen_step repr_text cfg op st =
     (case op of Quote_Read w sy detail \<Rightarrow> snd (read_preopen_snapshot repr_text cfg w sy detail st)
      | Quote_Seed w s \<Rightarrow> remember_quote cfg w s st
      | New_Process \<Rightarrow> st\<lparr>pm_memory := []\<rparr>
      | Key_Ended k \<Rightarrow> st\<lparr>pm_texts := dpop k (pm_texts st)\<rparr>)"

text \<open>The auction quotes that came without an error, by their day.\<close>

definition auction_quote_error :: "snapshot \<Rightarrow> string option" where
  "auction_quote_error s = Option.bind (dget (snap_errors s) ''auction_quote'') id"

definition fresh_quotes :: "(json \<Rightarrow> string) \<Rightarrow> preopen_config \<Rightarrow> preopen_op \<Rightarrow> preopen_state \<Rightarrow> (date \<times> snapshot) set" where
  "fresh_quotes repr_text cfg op st =
     (case op of
        Quote_Read w sy detail \<Rightarrow>
          (case fst (read_preopen_snapshot repr_text cfg w sy detail st) of
             Inr s \<Rightarrow> if auction_source s \<and> auction_quote_error s = None then {(pw_today w, s)} else {} | Inl _ \<Rightarrow> {})
      | Quote_Seed w s \<Rightarrow> if auction_source s then {(pw_today w, s)} else {}
      | _ \<Rightarrow> {})"

fun quotes_seen :: "(json \<Rightarrow> string) \<Rightarrow> preopen_config \<Rightarrow> preopen_op list \<Rightarrow> preopen_state \<Rightarrow> (date \<times> snapshot) set" where
  "quotes_seen repr_text cfg [] st = {}"
| "quotes_seen repr_text cfg (op # ops) st = fresh_quotes repr_text cfg op st \<union> quotes_seen repr_text cfg ops (preopen_step repr_text cfg op st)"

definition preopen_run :: "(json \<Rightarrow> string) \<Rightarrow> preopen_config \<Rightarrow> preopen_op list \<Rightarrow> preopen_state \<Rightarrow> preopen_state" where
  "preopen_run repr_text cfg ops st = fold (preopen_step repr_text cfg) ops st"

definition no_preopen_state :: preopen_state where
  "no_preopen_state = \<lparr>pm_memory = [], pm_texts = []\<rparr>"

text \<open>The sources answer with snapshots that can be written, and the days are those of a calendar.\<close>

definition proper_world :: "preopen_world \<Rightarrow> bool" where
  "proper_world w \<longleftrightarrow> valid_day (pw_today w)
     \<and> (case pw_base w of None \<Rightarrow> True | Some base \<Rightarrow> \<forall>sy detail s. base sy detail = Inr s \<longrightarrow> storable_snapshot s)
     \<and> (case pw_client w of None \<Rightarrow> True | Some c \<Rightarrow> \<forall>sy detail p s. pc_quote c sy detail p = Inr s \<longrightarrow> storable_snapshot s)"

definition proper_op :: "preopen_op \<Rightarrow> bool" where
  "proper_op op \<longleftrightarrow> (case op of Quote_Read w _ _ \<Rightarrow> proper_world w | Quote_Seed w s \<Rightarrow> valid_day (pw_today w) \<and> storable_snapshot s | _ \<Rightarrow> True)"

lemma list_all_dset: "list_all P d \<Longrightarrow> P (k, v) \<Longrightarrow> list_all P (dset k v d)"
  by (induction d) (auto split: if_splits)

lemma with_phase_facts:
  assumes "with_phase s state pe ae = Some s'"
  shows "snap_symbol s' = snap_symbol s" "quote s' = quote s" "snap_source s' = snap_source s" "snap_collected_at s' = snap_collected_at s"
    "auction_quote_error s' = ae" "auction_source s' = auction_source s" "storable_snapshot s \<Longrightarrow> storable_snapshot s'"
proof -
  obtain auction where a: "dict_value (dget (capabilities s) ''auction'') = Some auction" and s': "s' = s\<lparr>snap_phase := phase state,
      snap_phase_source := Some (phase_source state), capabilities := dset ''auction'' (JObj (dset ''reason''
        (if phase state \<in> set preopen_phases then jstr_opt ae else JStr ''MARKET_PHASE_NOT_AUCTION'')
        (dset ''available'' (JBool (phase state \<in> set preopen_phases \<and> ae = None)) auction))) (capabilities s),
      snap_errors := dset ''auction_quote'' ae (dset ''market_phase'' pe (snap_errors s))\<rparr>"
    using assms by (auto simp: with_phase_def Let_def split: option.splits)
  show "snap_symbol s' = snap_symbol s" "quote s' = quote s" "snap_source s' = snap_source s" "snap_collected_at s' = snap_collected_at s"
    "auction_source s' = auction_source s" by (simp_all add: s' auction_source_def)
  show "auction_quote_error s' = ae" by (simp add: s' auction_quote_error_def)
  assume st: "storable_snapshot s"
  have "writable (JObj auction)"
  proof (cases "dget (capabilities s) ''auction''")
    case (Some j)
    then have "writable j" using st dget_SomeD [OF Some] by (auto simp: storable_snapshot_def list_all_iff)
    then show ?thesis using a Some by (auto simp: dict_value_def split: json.splits list.splits)
  qed (use a in \<open>simp add: dict_value_def\<close>)
  then show "storable_snapshot s'"
    using st by (auto simp: s' storable_snapshot_def valid_snapshot_def jstr_opt_def intro!: list_all_dset split: option.splits)
qed

lemma persisted_simps [simp]:
  "snap_symbol (persisted s) = snap_symbol s" "quote (persisted s) = quote s" "snap_source (persisted s) = snap_source s"
  "snap_collected_at (persisted s) = snap_collected_at s"
  by (simp_all add: persisted_def)

text \<open>All that a source keeps was seen, under its symbol and on its day.\<close>

definition kept_seen :: "string \<Rightarrow> (date \<times> snapshot) set \<Rightarrow> preopen_state \<Rightarrow> bool" where
  "kept_seen pre seen st \<longleftrightarrow>
     (\<forall>sy d s. dget (pm_memory st) sy = Some (d, s) \<longrightarrow> (\<exists>x. (d, x) \<in> seen \<and> snap_symbol x = sy \<and> (s = x \<or> s = persisted x)))
     \<and> (\<forall>k t. dget (pm_texts st) k = Some t \<longrightarrow>
          (\<exists>d x. (d, x) \<in> seen \<and> k = cache_key pre (snap_symbol x) d \<and> t = json_dumps (JObj (cache_payload x))))
     \<and> (\<forall>d x. (d, x) \<in> seen \<longrightarrow> storable_snapshot x \<and> valid_day d \<and> auction_source x)"

lemma kept_remembered:
  assumes kept: "kept_seen (pf_prefix cfg) seen st" and s: "storable_snapshot s" "valid_day (pw_today w)"
  shows "kept_seen (pf_prefix cfg) (seen \<union> (if auction_source s then {(pw_today w, s)} else {})) (remember_quote cfg w s st)"
proof (cases "auction_source s")
  case True
  let ?st = "remember_quote cfg w s st" and ?seen = "insert (pw_today w, s) seen"
  have memory: "dget (pm_memory ?st) sy = (if sy = snap_symbol s then Some (pw_today w, s) else dget (pm_memory st) sy)" for sy
    using True by (simp add: remember_quote_def Let_def)
  have texts: "k = cache_key (pf_prefix cfg) (snap_symbol s) (pw_today w) \<and> t = json_dumps (JObj (cache_payload s)) \<or> dget (pm_texts st) k = Some t"
    if "dget (pm_texts ?st) k = Some t" for k t
    using that True by (auto simp: remember_quote_def Let_def cache_set_def simp del: json_dumps_simps split: if_splits)
  have "\<exists>x. (d, x) \<in> ?seen \<and> snap_symbol x = sy \<and> (y = x \<or> y = persisted x)" if y: "dget (pm_memory ?st) sy = Some (d, y)" for sy d y
  proof (cases "sy = snap_symbol s")
    case False
    then have "dget (pm_memory st) sy = Some (d, y)" using y memory [of sy] by simp
    then show ?thesis using kept unfolding kept_seen_def by blast
  qed (use y memory [of sy] in auto)
  moreover have "\<exists>d x. (d, x) \<in> ?seen \<and> k = cache_key (pf_prefix cfg) (snap_symbol x) d \<and> t = json_dumps (JObj (cache_payload x))"
    if "dget (pm_texts ?st) k = Some t" for k t
    using texts [OF that] kept unfolding kept_seen_def by blast
  moreover have "storable_snapshot x \<and> valid_day d \<and> auction_source x" if "(d, x) \<in> ?seen" for d x
    using that kept s True unfolding kept_seen_def by blast
  ultimately show ?thesis using True by (simp add: kept_seen_def)
qed (use kept in \<open>simp add: remember_quote_def\<close>)

lemma cached_quote_cases:
  obtains (old) s where "dget (pm_memory st) sy = Some (pw_today w, s)" "cached_quote repr_text cfg w sy st = (Some s, st)"
    | (none) "cached_quote repr_text cfg w sy st = (None, st)"
    | (restored) s where "cache_get repr_text (pf_prefix cfg) sy (pw_today w) (pm_texts st) = Some s"
        "cached_quote repr_text cfg w sy st = (Some s, st\<lparr>pm_memory := dset sy (pw_today w, s) (pm_memory st)\<rparr>)"
proof (cases "\<exists>s. dget (pm_memory st) sy = Some (pw_today w, s)")
  case True
  then obtain s where "dget (pm_memory st) sy = Some (pw_today w, s)" by blast
  then show thesis by (intro old [of s]) (simp_all add: cached_quote_def)
next
  case False
  then have restore: "cached_quote repr_text cfg w sy st =
      (if \<not> pf_cache cfg then (None, st)
       else case (if pw_redis w then cache_get repr_text (pf_prefix cfg) sy (pw_today w) (pm_texts st) else None) of
         None \<Rightarrow> (None, st)
       | Some s \<Rightarrow> (Some s, st\<lparr>pm_memory := dset sy (pw_today w, s) (pm_memory st)\<rparr>))"
    by (cases "dget (pm_memory st) sy") (auto simp: cached_quote_def Let_def)
  show thesis
  proof (cases "pf_cache cfg \<and> pw_redis w")
    case True
    then show thesis using restore none restored by (cases "cache_get repr_text (pf_prefix cfg) sy (pw_today w) (pm_texts st)") simp_all
  next
    case False
    then show thesis using restore none by (cases "pf_cache cfg") simp_all
  qed
qed

lemma kept_restored:
  assumes kept: "kept_seen pre seen st" and day: "valid_day day" and get: "cache_get repr_text pre sy day (pm_texts st) = Some s"
  shows "\<exists>x. (day, x) \<in> seen \<and> snap_symbol x = sy \<and> s = persisted x"
proof -
  obtain raw where raw: "dget (pm_texts st) (cache_key pre sy day) = Some raw"
    using get by (auto simp: cache_get_def split: option.splits)
  then obtain d x where x: "(d, x) \<in> seen" "cache_key pre sy day = cache_key pre (snap_symbol x) d"
    "raw = json_dumps (JObj (cache_payload x))" using kept unfolding kept_seen_def by blast
  have v: "storable_snapshot x" "valid_day d" using kept x(1) unfolding kept_seen_def by blast+
  have "d = day" "snap_symbol x = sy" using cache_key_inj [OF day v(2)] x(2) by auto
  moreover have "s = persisted x" using get raw x(3) json_round_trip [OF writable_payload [OF v(1)]] payload_restored [OF v(1)]
    by (simp add: cache_get_def del: json_dumps_simps)
  ultimately show ?thesis using x(1) by blast
qed

lemma kept_cached:
  assumes kept: "kept_seen (pf_prefix cfg) seen st" and day: "valid_day (pw_today w)"
  shows "kept_seen (pf_prefix cfg) seen (snd (cached_quote repr_text cfg w sy st))
    \<and> (\<forall>s. fst (cached_quote repr_text cfg w sy st) = Some s \<longrightarrow>
          (\<exists>x. (pw_today w, x) \<in> seen \<and> snap_symbol x = sy \<and> (s = x \<or> s = persisted x)))"
proof (cases rule: cached_quote_cases [of st sy w repr_text cfg])
  case (old s)
  then show ?thesis using kept unfolding kept_seen_def by simp
next
  case none
  then show ?thesis using kept by simp
next
  case (restored s)
  from kept_restored [OF kept day restored(1)] obtain x where x: "(pw_today w, x) \<in> seen" "snap_symbol x = sy" "s = persisted x" by blast
  then have "kept_seen (pf_prefix cfg) seen (st\<lparr>pm_memory := dset sy (pw_today w, s) (pm_memory st)\<rparr>)"
    using kept unfolding kept_seen_def by auto
  then show ?thesis using restored(2) x by auto
qed

lemma kept_read:
  assumes kept: "kept_seen (pf_prefix cfg) seen st" and proper: "proper_world w"
  shows "kept_seen (pf_prefix cfg) (seen \<union> fresh_quotes repr_text cfg (Quote_Read w sy detail) st) (snd (read_preopen_snapshot repr_text cfg w sy detail st))
    \<and> (\<forall>s. fst (read_preopen_snapshot repr_text cfg w sy detail st) = Inr s \<longrightarrow> auction_quote_error s \<noteq> None \<longrightarrow>
          (\<exists>x. (pw_today w, x) \<in> seen \<and> snap_symbol x = sy \<and> quote x = quote s \<and> snap_source x = snap_source s
             \<and> snap_collected_at x = snap_collected_at s))"
    (is "?kept \<and> ?day")
proof -
  define state where "state = current_phase w"
  have today: "valid_day (pw_today w)" using proper by (simp add: proper_world_def)
  have fresh: ?thesis if ph: "with_phase s (fst state) (snd state) None = Some c" and s: "storable_snapshot s"
    and read: "read_preopen_snapshot repr_text cfg w sy detail st = (Inr c, remember_quote cfg w c st)" for s c
    using kept_remembered [OF kept with_phase_facts(7) [OF ph s] today] with_phase_facts(5) [OF ph]
    by (simp add: read fresh_quotes_def)
  have failed: ?thesis if "read_preopen_snapshot repr_text cfg w sy detail st = (Inl f, st)" for f
    using kept by (simp add: that fresh_quotes_def)
  have stand_in: ?thesis if read: "read_preopen_snapshot repr_text cfg w sy detail st = recovered repr_text cfg w state code sy st" for code
  proof -
    obtain r st' where c: "cached_quote repr_text cfg w sy st = (r, st')" by fastforce
    note cached = kept_cached [OF kept today, of repr_text sy, unfolded c fst_conv snd_conv]
    show ?thesis
    proof (cases r)
      case None
      then show ?thesis using cached by (simp add: read recovered_def c fresh_quotes_def)
    next
      case (Some s)
      then obtain x where x: "(pw_today w, x) \<in> seen" "snap_symbol x = sy" "s = x \<or> s = persisted x" using cached by blast
      show ?thesis
      proof (cases "with_phase s (fst state) (snd state) (Some code)")
        case None
        then show ?thesis using cached Some by (simp add: read recovered_def c fresh_quotes_def or_raise_def)
      next
        case ph: (Some s')
        note facts = with_phase_facts [OF ph]
        have "quote x = quote s'" "snap_source x = snap_source s'" "snap_collected_at x = snap_collected_at s'" using x(3) facts by auto
        then show ?thesis using cached Some ph facts(5) x(1,2) by (auto simp: read recovered_def c fresh_quotes_def or_raise_def)
      qed
    qed
  qed
  have base: ?thesis if read: "read_preopen_snapshot repr_text cfg w sy detail st = read_base cfg w state sy detail st"
  proof (cases "pw_base w")
    case None
    then show ?thesis using read by (intro failed) (simp add: read_base_def)
  next
    case (Some b)
    show ?thesis
    proof (cases "b sy detail")
      case (Inl f)
      then show ?thesis using read Some by (intro failed) (simp add: read_base_def)
    next
      case (Inr s)
      then have "storable_snapshot s" using proper Some by (auto simp: proper_world_def)
      then show ?thesis using read Some Inr fresh failed
        by (cases "with_phase s (fst state) (snd state) None") (simp_all add: read_base_def)
    qed
  qed
  show ?thesis
  proof (cases "phase (fst state) \<in> set preopen_phases")
    case False
    then show ?thesis by (intro base) (simp add: read_preopen_snapshot_def state_def Let_def)
  next
    case True
    show ?thesis
    proof (cases "pw_client w")
      case None
      then show ?thesis using True base stand_in by (cases "enforce_preopen cfg") (simp_all add: read_preopen_snapshot_def state_def Let_def)
    next
      case (Some c)
      show ?thesis
      proof (cases "pc_quote c sy detail (phase (fst state))")
        case (Inl f)
        then show ?thesis using True Some by (intro stand_in) (simp add: read_preopen_snapshot_def state_def Let_def)
      next
        case (Inr s)
        then have "storable_snapshot s" using proper Some by (auto simp: proper_world_def)
        then show ?thesis using True Some Inr fresh stand_in
          by (cases "with_phase s (fst state) (snd state) None") (simp_all add: read_preopen_snapshot_def state_def Let_def)
      qed
    qed
  qed
qed

lemma kept_less:
  "kept_seen pre seen st \<Longrightarrow> kept_seen pre seen (st\<lparr>pm_memory := []\<rparr>)"
  "kept_seen pre seen st \<Longrightarrow> kept_seen pre seen (st\<lparr>pm_texts := dpop k (pm_texts st)\<rparr>)"
  by (auto simp: kept_seen_def split: if_splits)

lemma kept_step:
  assumes "kept_seen (pf_prefix cfg) seen st" "proper_op op"
  shows "kept_seen (pf_prefix cfg) (seen \<union> fresh_quotes repr_text cfg op st) (preopen_step repr_text cfg op st)"
proof (cases op)
  case (Quote_Read w sy detail)
  then show ?thesis using kept_read [OF assms(1), of w repr_text sy detail] assms(2) by (simp add: proper_op_def preopen_step_def)
next
  case (Quote_Seed w s)
  then show ?thesis using kept_remembered [OF assms(1), of s w] assms(2) by (simp add: proper_op_def preopen_step_def fresh_quotes_def)
qed (use kept_less assms(1) in \<open>simp_all add: preopen_step_def fresh_quotes_def\<close>)

lemma kept_run:
  "kept_seen (pf_prefix cfg) seen st \<Longrightarrow> \<forall>op\<in>set ops. proper_op op \<Longrightarrow>
     kept_seen (pf_prefix cfg) (seen \<union> quotes_seen repr_text cfg ops st) (preopen_run repr_text cfg ops st)"
proof (induction ops arbitrary: seen st)
  case (Cons op ops)
  from Cons.IH [OF kept_step [OF Cons.prems(1)]] Cons.prems(2) show ?case by (simp add: preopen_run_def Un_assoc)
qed (simp add: preopen_run_def)

text \<open>
  C16: A snapshot that is shown although its quote could not be read, in any run of reads, seeds, new processes and ended keys of
  Redis, has the quote, the source and the time of a snapshot of the same symbol that came from the auction without an error on
  the same day; a public quote or one of another day never stands in.
\<close>

theorem recovered_quote_is_todays:
  assumes "\<forall>op\<in>set ops. proper_op op" "proper_world w"
    and "fst (read_preopen_snapshot repr_text cfg w sy detail (preopen_run repr_text cfg ops no_preopen_state)) = Inr s"
    and "auction_quote_error s \<noteq> None"
  shows "\<exists>x. (pw_today w, x) \<in> quotes_seen repr_text cfg ops no_preopen_state \<and> snap_symbol x = sy \<and> auction_source x
    \<and> quote x = quote s \<and> snap_source x = snap_source s \<and> snap_collected_at x = snap_collected_at s"
proof -
  have "kept_seen (pf_prefix cfg) {} no_preopen_state" by (simp add: kept_seen_def no_preopen_state_def)
  from kept_run [OF this assms(1), of repr_text] have kept:
    "kept_seen (pf_prefix cfg) (quotes_seen repr_text cfg ops no_preopen_state) (preopen_run repr_text cfg ops no_preopen_state)" by simp
  then show ?thesis using kept_read [OF kept assms(2), of repr_text sy detail] assms(3,4) unfolding kept_seen_def by metis
qed

definition demo_auction_quote :: snapshot where
  "demo_auction_quote = auction_snapshot 1767225600000000 ''600000'' ''17'' (Some ''N'') ''10.00'' ''1.00%'' ''THS_AUCTION'' None CALL_AUCTION"

definition demo_phase :: phase_state where
  "demo_phase = \<lparr>phase = CALL_AUCTION, phase_source = ''APP_STATUS'', local_time = ''09:20:00'', server_time = None\<rparr>"

definition demo_auction_world :: "source_failure + snapshot \<Rightarrow> preopen_world" where
  "demo_auction_world answer = \<lparr>pw_base = None,
     pw_client = Some \<lparr>pc_phase = Inr (Some demo_phase), pc_quote = (\<lambda>_ _ _. answer), pc_batch = None\<rparr>,
     pw_trading = (\<lambda>_. True), pw_now = 1767225600000000, pw_today = 20454, pw_redis = True\<rparr>"

definition demo_preopen :: preopen_config where
  "demo_preopen = \<lparr>pf_prefix = ''ths:market:auction'', pf_cache = False, enforce_preopen = True\<rparr>"

lemma demo_quote_storable: "storable_snapshot demo_auction_quote"
  by code_simp

lemma demo_worlds_proper: "proper_world (demo_auction_world (Inr demo_auction_quote))" "proper_world (demo_auction_world (Inl OtherFailure))"
proof -
  have "valid_day 20454" by code_simp
  then show "proper_world (demo_auction_world (Inr demo_auction_quote))" "proper_world (demo_auction_world (Inl OtherFailure))"
    using demo_quote_storable by (simp_all add: proper_world_def demo_auction_world_def)
qed

lemma demo_recovered:
  "case fst (read_preopen_snapshot (\<lambda>_. []) demo_preopen (demo_auction_world (Inl OtherFailure)) ''600000'' True
     (preopen_run (\<lambda>_. []) demo_preopen [Quote_Read (demo_auction_world (Inr demo_auction_quote)) ''600000'' True] no_preopen_state)) of
     Inl _ \<Rightarrow> False | Inr s \<Rightarrow> auction_quote_error s \<noteq> None \<and> quote s = quote demo_auction_quote"
  by code_simp

theorem preopen_cache_round_trip_witness:
  "cache_get (\<lambda>_. []) ''p'' ''600000'' 20454 (cache_set ''p'' demo_auction_quote 20454 []) = Some demo_auction_quote"
  using preopen_cache_round_trip [OF demo_quote_storable, of "\<lambda>_. []" "''p''" 20454 "[]"]
  by (simp add: demo_auction_quote_def auction_snapshot_def new_snapshot_def persisted_def)

theorem auction_reads_no_public_witness:
  "read_preopen_snapshots (\<lambda>_. []) demo_preopen (\<lambda>i. (demo_auction_world (Inr demo_auction_quote))\<lparr>pw_base := Some (\<lambda>_ _. Inl OtherFailure)\<rparr>)
     [''600000''] [] no_preopen_state =
   read_preopen_snapshots (\<lambda>_. []) demo_preopen (\<lambda>i. demo_auction_world (Inr demo_auction_quote)) [''600000''] [] no_preopen_state"
proof -
  have "auction_world demo_preopen (demo_auction_world (Inr demo_auction_quote))"
    by (simp add: auction_world_def demo_preopen_def demo_auction_world_def current_phase_def demo_phase_def preopen_phases_def)
  then show ?thesis by (intro auction_reads_no_public [of demo_preopen "\<lambda>i. demo_auction_world (Inr demo_auction_quote)"]) simp
qed

theorem recovered_quote_is_todays_witness:
  "\<exists>x. (20454, x) \<in> quotes_seen (\<lambda>_. []) demo_preopen [Quote_Read (demo_auction_world (Inr demo_auction_quote)) ''600000'' True] no_preopen_state
     \<and> quote x = quote demo_auction_quote"
proof -
  obtain s where "fst (read_preopen_snapshot (\<lambda>_. []) demo_preopen (demo_auction_world (Inl OtherFailure)) ''600000'' True
     (preopen_run (\<lambda>_. []) demo_preopen [Quote_Read (demo_auction_world (Inr demo_auction_quote)) ''600000'' True] no_preopen_state)) = Inr s"
    "auction_quote_error s \<noteq> None" "quote s = quote demo_auction_quote"
    using demo_recovered by (auto split: sum.splits)
  from recovered_quote_is_todays [OF _ demo_worlds_proper(2) this(1,2)] this(3) demo_worlds_proper(1) show ?thesis
    by (auto simp: proper_op_def demo_auction_world_def)
qed

section \<open>Decoded quotes\<close>

text \<open>\<open>ROUND_HALF_UP\<close>: to the nearest number of so many places, the half away from zero.\<close>

definition half_up :: "nat \<Rightarrow> rat \<Rightarrow> rat" where
  "half_up places v = sgn v * of_int \<lfloor>\<bar>v\<bar> * 10 ^ places + 1 / 2\<rfloor> / 10 ^ places"

lemma rounded_text:
  assumes "fixed_number places (Some v) = Some (Some t)"
  shows "decimal_of_text t = Some (half_up places v)"
proof -
  define n where "n = rounded_digits places v"
  have t: "t = (if v < 0 then ''-'' else []) @ fixed_text places n"
    using assms by (auto simp: fixed_number_def Let_def n_def split: if_splits)
  have n: "of_nat n = (of_int \<lfloor>\<bar>v\<bar> * 10 ^ places + 1 / 2\<rfloor> :: rat)" by (simp add: n_def rounded_digits_def)
  have "v = 0 \<Longrightarrow> n = 0" by (simp add: n_def rounded_digits_def)
  then show ?thesis using decimal_of_fixed [of "v < 0" places n] t n
    by (cases v "0 :: rat" rule: linorder_cases) (auto simp: half_up_def sgn_if)
qed

text \<open>
  C37: A decoded auction quote is one of the symbol that was asked for, of its market and from the auction, and its price and its
  change in percent are those of the payload, rounded to the places of the market and to two places, the half
  away from zero.
\<close>

theorem decoded_quote_rounds:
  assumes "decode_auction_quote repr_text now payload sy market = Inr s"
  shows "snap_symbol s = sy \<and> market_code_for_symbol sy = Some (snap_market s) \<and> auction_source s \<and>
    (\<exists>v p. auction_decimal (jget_or (JObj (auction_node payload)) ''bidding_direction'' JNull) = Some v \<and> dget (quote s) ''price'' = Some (Some p)
       \<and> decimal_of_text p = Some (half_up (market_places market) v)) \<and>
    (\<exists>v p. auction_decimal (jget_or (JObj (auction_node payload)) ''rise_percent'' JNull) = Some v \<and> dget (quote s) ''change_percent'' = Some (Some (p @ ''%''))
       \<and> decimal_of_text p = Some (half_up 2 v))"
proof -
  have fixed: "\<exists>v. auction_decimal j = Some v \<and> decimal_of_text t = Some (half_up places v)"
    if "auction_fixed places j = Inr t" for places j t
    using that rounded_text by (auto simp: auction_fixed_def split: option.splits)
  have market: "market_code_for_symbol sy = Some market"
    by (rule ccontr) (use assms in \<open>simp add: decode_auction_quote_def\<close>)
  have sy: "strip (py_str repr_text (field_or (auction_node payload) ''stockcode'' ''symbol'' (JStr []))) = sy"
    by (rule ccontr) (use assms market in \<open>simp add: decode_auction_quote_def Let_def\<close>)
  obtain price change name moment where
    price: "auction_fixed (market_places market) (jget_or (JObj (auction_node payload)) ''bidding_direction'' JNull) = Inr price" and
    change: "auction_fixed 2 (jget_or (JObj (auction_node payload)) ''rise_percent'' JNull) = Inr change" and
    s: "s = auction_snapshot now sy market name price (change @ ''%'') ''THS_AUCTION'' moment CALL_AUCTION"
    using assms unfolding decode_auction_quote_def Let_def percent_of_def market sy simp_thms if_False inr_simps by blast
  have "dget (quote s) ''price'' = Some (Some price)" "dget (quote s) ''change_percent'' = Some (Some (change @ ''%''))"
    "snap_symbol s = sy" "snap_market s = market" "auction_source s"
    by (simp_all add: s auction_snapshot_def new_snapshot_def auction_quote_fields_def auction_source_def auction_sources_def)
  then show ?thesis using fixed [OF price] fixed [OF change] market by fastforce
qed

definition demo_auction_payload :: "(string, json) dict" where
  "demo_auction_payload = [(''stockcode'', JStr ''600000''), (''bidding_direction'', JFloat (2001 / 200)), (''rise_percent'', JFloat (1 / 4))]"

lemma demo_decoded: "\<exists>s. decode_auction_quote (\<lambda>_. []) 0 demo_auction_payload ''600000'' ''17'' = Inr s"
proof -
  have market: "market_code_for_symbol ''600000'' = Some ''17''" by code_simp
  have node: "auction_node demo_auction_payload = demo_auction_payload" by (simp add: auction_node_def demo_auction_payload_def)
  have symbol: "strip (py_str (\<lambda>_. []) (field_or demo_auction_payload ''stockcode'' ''symbol'' (JStr []))) = ''600000''"
    by code_simp
  have name: "field_or demo_auction_payload ''stock_name'' ''name'' JNull = JNull" "jget_or (JObj demo_auction_payload) ''time'' JNull = JNull"
    by (simp_all add: field_or_def jget_or_def demo_auction_payload_def)
  have "\<lfloor>51 / 2 :: rat\<rfloor> = 25" by (rule floor_unique) simp_all
  then have "\<exists>p. auction_fixed 2 (jget_or (JObj demo_auction_payload) ''bidding_direction'' JNull) = Inr p"
    "\<exists>p. auction_fixed 2 (jget_or (JObj demo_auction_payload) ''rise_percent'' JNull) = Inr p"
    by (simp_all add: demo_auction_payload_def jget_or_def auction_fixed_def auction_decimal_def fixed_number_def rounded_digits_def Let_def)
  then show ?thesis by (auto simp: decode_auction_quote_def market node symbol name market_places_def percent_of_def Let_def)
qed

text \<open>The half goes up: 10.005 is read as 10.01.\<close>

theorem decoded_quote_rounds_witness:
  "\<exists>s p. decode_auction_quote (\<lambda>_. []) 0 demo_auction_payload ''600000'' ''17'' = Inr s \<and> dget (quote s) ''price'' = Some (Some p)
     \<and> decimal_of_text p = Some (1001 / 100)"
proof -
  obtain s where s: "decode_auction_quote (\<lambda>_. []) 0 demo_auction_payload ''600000'' ''17'' = Inr s" using demo_decoded by blast
  from decoded_quote_rounds [OF s] obtain v p where
    v: "auction_decimal (jget_or (JObj (auction_node demo_auction_payload)) ''bidding_direction'' JNull) = Some v"
    and p: "dget (quote s) ''price'' = Some (Some p)" "decimal_of_text p = Some (half_up (market_places ''17'') v)"
    by blast
  have "v = 2001 / 200" using v by (simp add: auction_node_def demo_auction_payload_def jget_or_def auction_decimal_def)
  then have "v = 2001 / 200" "v * 100 + 1 / 2 = 1001" by simp_all
  then have "\<lfloor>v * 100 + 1 / 2\<rfloor> = 1001" "0 < v" by (simp_all only:) simp_all
  then have "half_up (market_places ''17'') v = 1001 / 100" by (simp add: half_up_def market_places_def)
  then show ?thesis using s p by auto
qed

end
