(* ===== verification/Symbol_Source.thy ===== *)
theory Symbol_Source
  imports Frida_Source Json_Text Fund_Flow
begin

text \<open>
  \<open>SinaSymbolCatalogSource\<close> of \<open>level2_service/symbol_catalog.py\<close>: the pages of the three categories of securities, their
  counts, and the rows that become identities. The fetcher answers a URL with a text or an exception. A text is the list of its
  UTF-8 bytes; \<open>characters\<close> are the code points of one.
\<close>

section \<open>Texts\<close>

definition continuation :: "char \<Rightarrow> bool" where
  "continuation c \<longleftrightarrow> (let n = of_char c :: nat in 128 \<le> n \<and> n < 192)"

function characters :: "string \<Rightarrow> string list" where
  "characters [] = []"
| "characters (c # s) = (c # takeWhile continuation s) # characters (dropWhile continuation s)"
  by pat_completeness auto
termination by (relation "measure length") (auto simp: le_imp_less_Suc length_dropWhile_le)

text \<open>\<open>_text\<close>\<close>

definition catalog_text :: "(json \<Rightarrow> string) \<Rightarrow> json \<Rightarrow> string option" where
  "catalog_text repr_text j =
     (let t = strip (case j of JNull \<Rightarrow> [] | _ \<Rightarrow> py_str repr_text j) in if t = [] then None else Some t)"

section \<open>Categories\<close>

datatype catalog_failure = Catalog_Error string | Unsupported_Market | Lookup_Not_Found string | Bad_Value string

abbreviation source_invalid :: catalog_failure where
  "source_invalid \<equiv> Catalog_Error ''SYMBOL_CATALOG_SOURCE_INVALID''"

definition sina_nodes :: "string list" where
  "sina_nodes = [''hs_a'', ''etf_hq_fund'', ''lof_hq_fund'']"

definition node_kinds :: "string \<Rightarrow> string list" where
  "node_kinds node = (if node = ''hs_a'' then [''17'', ''33'', ''151''] else [''20'', ''36''])"

text \<open>The labels of the markets, in UTF-8.\<close>

definition catalog_label :: "string \<Rightarrow> string" where
  "catalog_label market =
     (let sh = map char_of [230 :: nat, 178, 170]; sz = map char_of [230 :: nat, 183, 177]; fund = map char_of [229 :: nat, 159, 186] in
      if market = ''17'' then sh @ ''A'' else if market = ''33'' then sz @ ''A''
      else if market = ''151'' then map char_of [229 :: nat, 140, 151, 228, 186, 164]
      else if market = ''20'' then sh @ fund else sz @ fund)"

text \<open>\<open>_exchange_for_market\<close>, for the markets there are.\<close>

definition exchange_for_market :: "string \<Rightarrow> string" where
  "exchange_for_market market =
     (if market \<in> {''17'', ''20''} then ''sh'' else if market \<in> {''33'', ''36''} then ''sz'' else ''bj'')"

text \<open>\<open>_parse_row\<close>; None is a row that is left out.\<close>

definition parse_row :: "(json \<Rightarrow> string) \<Rightarrow> string \<Rightarrow> json \<Rightarrow> catalog_failure + symbol_lookup option" where
  "parse_row repr_text node row =
     (if \<not> is_jobj row then Inr None
      else case (catalog_text repr_text (jget_or row ''code'' JNull), catalog_text repr_text (jget_or row ''symbol'' JNull),
                 catalog_text repr_text (jget_or row ''name'' JNull)) of
        (Some sy, Some source, Some name) \<Rightarrow>
          (case market_code_for_symbol sy of None \<Rightarrow> Inr None
           | Some market \<Rightarrow>
               if concat (drop 2 (characters source)) \<noteq> sy then Inl source_invalid
               else if to_lower (concat (take 2 (characters source))) \<noteq> exchange_for_market market \<or> market \<notin> set (node_kinds node)
               then Inr None
               else Inr (Some \<lparr>lookup_symbol = sy, lookup_name = name, lookup_market = market, lookup_label = Some (catalog_label market),
                 lookup_securities_code = None\<rparr>))
      | _ \<Rightarrow> Inr None)"

fun parse_rows :: "(json \<Rightarrow> string) \<Rightarrow> string \<Rightarrow> json list \<Rightarrow> catalog_failure + symbol_lookup list" where
  "parse_rows repr_text node [] = Inr []"
| "parse_rows repr_text node (row # rows) =
     (case parse_row repr_text node row of Inl e \<Rightarrow> Inl e
      | Inr x \<Rightarrow> (case parse_rows repr_text node rows of Inl e \<Rightarrow> Inl e
          | Inr xs \<Rightarrow> Inr ((case x of None \<Rightarrow> [] | Some l \<Rightarrow> [l]) @ xs)))"

section \<open>Pages\<close>

text \<open>An exception of the fetcher is a \<open>SymbolCatalogError\<close> with its code, or any other.\<close>

type_synonym catalog_fetcher = "string \<Rightarrow> string option + string"

definition fetched_json :: "catalog_fetcher \<Rightarrow> string \<Rightarrow> catalog_failure + json" where
  "fetched_json fetch url =
     (case fetch url of
        Inl (Some code) \<Rightarrow> Inl (Catalog_Error code)
      | Inl None \<Rightarrow> Inl (Catalog_Error ''SYMBOL_CATALOG_SOURCE_HTTP_ERROR'')
      | Inr raw \<Rightarrow> (case json_loads raw of None \<Rightarrow> Inl source_invalid | Some j \<Rightarrow> Inr j))"

definition catalog_base :: string where
  "catalog_base = ''https://money.finance.sina.com.cn/quotes_service/api/json_v2.php/Market_Center.getHQNode''"

definition page_url :: "string \<Rightarrow> nat \<Rightarrow> nat \<Rightarrow> string" where
  "page_url node page num =
     catalog_base @ ''Data?page='' @ dec_digits page @ ''&num='' @ dec_digits num @ ''&sort=symbol&asc=1&node='' @ node @ ''&symbol=&_s_r_a=page''"

definition count_url :: "string \<Rightarrow> string" where
  "count_url node = catalog_base @ ''StockCount?node='' @ node"

text \<open>\<open>_fetch_count\<close>\<close>

definition fetch_count :: "catalog_fetcher \<Rightarrow> string \<Rightarrow> catalog_failure + nat" where
  "fetch_count fetch node =
     (case fetched_json fetch (count_url node) of Inl e \<Rightarrow> Inl e
      | Inr payload \<Rightarrow>
          (case py_int (if is_jobj payload then jget_or payload ''count'' JNull else payload) of
             None \<Rightarrow> Inl source_invalid
           | Some n \<Rightarrow> if n < 0 then Inl source_invalid else Inr (nat n)))"

text \<open>The loop of \<open>_fetch_node\<close>: a page that has rows brings the end nearer.\<close>

definition page_size :: nat where "page_size = 100"

function fetch_pages ::
  "(json \<Rightarrow> string) \<Rightarrow> catalog_fetcher \<Rightarrow> string \<Rightarrow> nat \<Rightarrow> nat \<Rightarrow> nat \<Rightarrow> symbol_lookup list \<Rightarrow> catalog_failure + symbol_lookup list" where
  "fetch_pages repr_text fetch node expected page seen results =
     (if expected \<le> seen then Inr results
      else case fetched_json fetch (page_url node page page_size) of
        Inl e \<Rightarrow> Inl e
      | Inr (JArr payload) \<Rightarrow>
          if payload = [] then
            (if node = ''lof_hq_fund'' \<and> seen > 0 then Inr results else Inl (Catalog_Error ''SYMBOL_CATALOG_SOURCE_INCOMPLETE''))
          else
            (case parse_rows repr_text node payload of Inl e \<Rightarrow> Inl e
             | Inr xs \<Rightarrow>
                 (let seen' = seen + length payload in
                  if length payload < page_size then
                    (if expected > seen' + 1 \<and> node \<noteq> ''lof_hq_fund'' then Inl (Catalog_Error ''SYMBOL_CATALOG_SOURCE_INCOMPLETE'')
                     else Inr (results @ xs))
                  else fetch_pages repr_text fetch node expected (page + 1) seen' (results @ xs)))
      | Inr _ \<Rightarrow> Inl source_invalid)"
  by pat_completeness auto
termination by (relation "measure (\<lambda>(_, _, _, expected, _, seen, _). expected - seen)") (auto simp: page_size_def)

declare fetch_pages.simps [simp del]

definition fetch_node :: "(json \<Rightarrow> string) \<Rightarrow> catalog_fetcher \<Rightarrow> string \<Rightarrow> catalog_failure + symbol_lookup list" where
  "fetch_node repr_text fetch node =
     (case fetch_count fetch node of Inl e \<Rightarrow> Inl e | Inr expected \<Rightarrow> fetch_pages repr_text fetch node expected 1 0 [])"

text \<open>\<open>fetch_symbols\<close>: an identity is kept the first time; with another name it makes the source invalid.\<close>

fun merge_items ::
  "symbol_lookup list \<Rightarrow> (string \<times> string, string) dict \<Rightarrow> symbol_lookup list \<Rightarrow>
   catalog_failure + (string \<times> string, string) dict \<times> symbol_lookup list" where
  "merge_items [] seen results = Inr (seen, results)"
| "merge_items (l # ls) seen results =
     (case dget seen (lookup_symbol l, lookup_market l) of
        None \<Rightarrow> merge_items ls (dset (lookup_symbol l, lookup_market l) (lookup_name l) seen) (results @ [l])
      | Some name \<Rightarrow> if name \<noteq> lookup_name l then Inl source_invalid else merge_items ls seen results)"

fun fetch_nodes ::
  "(json \<Rightarrow> string) \<Rightarrow> catalog_fetcher \<Rightarrow> string list \<Rightarrow> (string \<times> string, string) dict \<Rightarrow> symbol_lookup list \<Rightarrow>
   catalog_failure + symbol_lookup list" where
  "fetch_nodes repr_text fetch [] seen results = Inr results"
| "fetch_nodes repr_text fetch (node # nodes) seen results =
     (case fetch_node repr_text fetch node of Inl e \<Rightarrow> Inl e
      | Inr ls \<Rightarrow>
          (case merge_items ls seen results of Inl e \<Rightarrow> Inl e
           | Inr (seen', results') \<Rightarrow> fetch_nodes repr_text fetch nodes seen' results'))"

definition fetch_symbols :: "(json \<Rightarrow> string) \<Rightarrow> catalog_fetcher \<Rightarrow> catalog_failure + symbol_lookup list" where
  "fetch_symbols repr_text fetch = fetch_nodes repr_text fetch sina_nodes [] []"

end
