(* ===== verification/Symbol_Catalog.thy ===== *)
theory Symbol_Catalog
  imports Symbol_Source Tables Doubles
begin

text \<open>
  \<open>SQLiteSymbolCatalog\<close> of \<open>level2_service/symbol_catalog.py\<close>: complete snapshots of the source as versions, of which one is
  active; the reads of the active version, and the search in it. A transaction that raises leaves the tables as they were.
  SHA-256, the conversion to pinyin (\<open>pypinyin\<close>) and what the Unicode tables say of characters beyond ASCII are parameters.
\<close>

section \<open>Texts of the search\<close>

record unicode_tables =
  wide_fold :: "string \<Rightarrow> string"
  wide_alnum :: "string \<Rightarrow> bool"
  wide_digit :: "string \<Rightarrow> bool"

definition narrow :: "string \<Rightarrow> bool" where
  "narrow ch \<longleftrightarrow> list_all (\<lambda>c. (of_char c :: nat) < 128) ch"

text \<open>\<open>str.casefold\<close>, \<open>str.isalnum\<close> of a character and \<open>str.isdigit\<close> of a text that is not empty\<close>

definition casefold :: "unicode_tables \<Rightarrow> string \<Rightarrow> string" where
  "casefold U s = concat (map (\<lambda>ch. if narrow ch then to_lower ch else wide_fold U ch) (characters s))"

definition alnum_character :: "unicode_tables \<Rightarrow> string \<Rightarrow> bool" where
  "alnum_character U ch =
     (if narrow ch then list_all (\<lambda>c. is_digit c \<or> code_upper (hd (to_upper [c]))) ch else wide_alnum U ch)"

definition digit_text :: "unicode_tables \<Rightarrow> string \<Rightarrow> bool" where
  "digit_text U s = list_all (\<lambda>ch. if narrow ch then list_all is_digit ch else wide_digit U ch) (characters s)"

definition canonical_symbol_name :: "string \<Rightarrow> string \<Rightarrow> string" where
  "canonical_symbol_name sy name =
     (if sy = ''688027'' then map char_of [229 :: nat, 155, 189, 231, 155, 190, 233, 135, 143, 229, 173, 144] else name)"

definition pinyin_search_aliases :: "unicode_tables \<Rightarrow> (string \<Rightarrow> string list) \<Rightarrow> string \<Rightarrow> string \<times> string" where
  "pinyin_search_aliases U lazy_pinyin name =
     (let tokens = map (\<lambda>part. concat (filter (alnum_character U) (characters (casefold U part)))) (lazy_pinyin name);
          tokens = filter (\<lambda>token. token \<noteq> []) tokens
      in (concat tokens, concat (map (\<lambda>token. hd (characters token)) tokens)))"

section \<open>Tables\<close>

record catalog_version =
  cv_source :: string
  cv_fetched :: time
  cv_count :: nat
  cv_checksum :: string

record security =
  sec_name :: string
  sec_label :: "string option"
  sec_normalized :: string
  sec_pinyin :: string
  sec_initials :: string

type_synonym security_key = "nat \<times> string \<times> string"

record catalog =
  versions :: "(nat, catalog_version) dict"
  securities :: "(security_key, security) dict"
  active_version :: "(nat \<times> time) option"
  next_version :: nat

definition empty_catalog :: catalog where
  "empty_catalog = \<lparr>versions = [], securities = [], active_version = None, next_version = 1\<rparr>"

record catalog_config =
  minimum_count :: nat
  shrink_ratio :: rat
  stale_after :: time
  source_type :: string

text \<open>\<open>__init__\<close> refuses other settings.\<close>

definition config_accepted :: "int \<Rightarrow> rat \<Rightarrow> time \<Rightarrow> bool" where
  "config_accepted minimum ratio age \<longleftrightarrow> 1 \<le> minimum \<and> 0 < ratio \<and> ratio \<le> 1 \<and> 0 < age"

definition key_lookup :: "security_key \<times> security \<Rightarrow> symbol_lookup" where
  "key_lookup row = (case row of ((v, sy, m), r) \<Rightarrow>
     \<lparr>lookup_symbol = sy, lookup_name = sec_name r, lookup_market = m,
      lookup_label = (case sec_label r of None \<Rightarrow> None | Some t \<Rightarrow> if strip t = [] then None else Some (strip t)),
      lookup_securities_code = None\<rparr>)"

text \<open>\<open>_migrate\<close> of tables that lack one of the columns of the aliases\<close>

definition migrate_catalog :: "unicode_tables \<Rightarrow> (string \<Rightarrow> string list) \<Rightarrow> bool \<Rightarrow> catalog \<Rightarrow> catalog" where
  "migrate_catalog U lazy_pinyin alias_columns c =
     (if alias_columns then c
      else c\<lparr>securities := update_rows (\<lambda>_ _. True)
        (\<lambda>r. case pinyin_search_aliases U lazy_pinyin (sec_name r) of (full, initials) \<Rightarrow> r\<lparr>sec_pinyin := full, sec_initials := initials\<rparr>)
        (securities c)\<rparr>)"

section \<open>Candidates\<close>

text \<open>The loop of \<open>_normalize\<close>; None is a value that is no \<open>SymbolLookup\<close>.\<close>

abbreviation identity :: "symbol_lookup \<Rightarrow> string \<times> string" where
  "identity l \<equiv> (lookup_symbol l, lookup_market l)"

fun normalize_values :: "symbol_lookup option list \<Rightarrow> (string \<times> string, string) dict \<Rightarrow> catalog_failure + symbol_lookup list" where
  "normalize_values [] seen = Inr []"
| "normalize_values (None # vs) seen = Inl source_invalid"
| "normalize_values (Some l # vs) seen =
     (case market_code_for_symbol (lookup_symbol l) of None \<Rightarrow> Inl source_invalid
      | Some expected \<Rightarrow>
          (let name = canonical_symbol_name (lookup_symbol l) (strip (lookup_name l)) in
           if name = [] \<or> lookup_market l \<noteq> expected then Inl source_invalid
           else case dget seen (identity l) of
             Some previous \<Rightarrow> if previous \<noteq> name then Inl source_invalid else normalize_values vs seen
           | None \<Rightarrow>
               (case normalize_values vs (dset (identity l) name seen) of Inl e \<Rightarrow> Inl e
                | Inr ls \<Rightarrow> Inr (l\<lparr>lookup_name := name\<rparr> # ls))))"

definition normalize_catalog :: "symbol_lookup option list option \<Rightarrow> catalog_failure + symbol_lookup list" where
  "normalize_catalog values =
     (case values of None \<Rightarrow> Inl source_invalid
      | Some vs \<Rightarrow> (case normalize_values vs [] of Inl e \<Rightarrow> Inl e | Inr ls \<Rightarrow> Inr (sort_key identity ls)))"

definition catalog_checksum :: "(string \<Rightarrow> string) \<Rightarrow> symbol_lookup list \<Rightarrow> string" where
  "catalog_checksum sha256 ls =
     sha256 (joined [char_of (10 :: nat)]
       (map (\<lambda>l. joined [char_of (9 :: nat)]
          [lookup_symbol l, lookup_market l, lookup_name l, case lookup_label l of None \<Rightarrow> [] | Some t \<Rightarrow> t]) ls))"

section \<open>Publishing a version\<close>

text \<open>\<open>_active_row\<close>: the active version with its time, its count and its checksum\<close>

definition active_row :: "catalog \<Rightarrow> (nat \<times> time \<times> catalog_version) option" where
  "active_row c =
     (case active_version c of None \<Rightarrow> None
      | Some (v, since) \<Rightarrow> (case dget (versions c) v of None \<Rightarrow> None | Some row \<Rightarrow> Some (v, since, row)))"

text \<open>\<open>int(active["security_count"] * self.shrink_ratio + 0.999999)\<close>\<close>

definition shrink_floor :: "rat \<Rightarrow> nat \<Rightarrow> int" where
  "shrink_floor ratio n = \<lfloor>fadd (fmul (of_nat n) ratio) (double (999999 / 1000000))\<rfloor>"

definition required_count :: "catalog_config \<Rightarrow> nat option \<Rightarrow> int" where
  "required_count cfg active_count =
     (case active_count of None \<Rightarrow> int (minimum_count cfg)
      | Some n \<Rightarrow> max (int (minimum_count cfg)) (shrink_floor (shrink_ratio cfg) n))"

definition new_security :: "unicode_tables \<Rightarrow> (string \<Rightarrow> string list) \<Rightarrow> symbol_lookup \<Rightarrow> security" where
  "new_security U lazy_pinyin l =
     \<lparr>sec_name = lookup_name l, sec_label = lookup_label l, sec_normalized = casefold U (lookup_name l),
      sec_pinyin = fst (pinyin_search_aliases U lazy_pinyin (lookup_name l)),
      sec_initials = snd (pinyin_search_aliases U lazy_pinyin (lookup_name l))\<rparr>"

text \<open>The three newest versions stay; the rows of the others go with them.\<close>

definition newest :: "(nat, catalog_version) dict \<Rightarrow> nat list" where
  "newest d = take 3 (rev (sort (map fst d)))"

definition prune_versions :: "catalog \<Rightarrow> catalog" where
  "prune_versions c =
     (let kept = newest (versions c) in
      c\<lparr>versions := delete_rows (\<lambda>v _. v \<notin> set kept) (versions c),
        securities := delete_rows (\<lambda>(v, _, _) _. v \<notin> set kept) (securities c)\<rparr>)"

definition publish_version ::
  "catalog_config \<Rightarrow> unicode_tables \<Rightarrow> (string \<Rightarrow> string list) \<Rightarrow> string \<Rightarrow> symbol_lookup list \<Rightarrow> time \<Rightarrow> catalog \<Rightarrow> catalog" where
  "publish_version cfg U lazy_pinyin checksum candidates now c =
     (let v = next_version c in
      prune_versions (c\<lparr>
        versions := dset v \<lparr>cv_source = source_type cfg, cv_fetched = now, cv_count = length candidates, cv_checksum = checksum\<rparr> (versions c),
        securities := securities c @ map (\<lambda>l. ((v, identity l), new_security U lazy_pinyin l)) candidates,
        active_version := Some (v, now), next_version := v + 1\<rparr>))"

text \<open>What \<open>source.fetch_symbols()\<close> does: a \<open>SymbolCatalogError\<close>, another exception, or what it returns.\<close>

type_synonym fetched_values = "string option + symbol_lookup option list option"

record catalog_refresh =
  refresh_version :: nat
  refresh_count :: nat
  refresh_checksum :: string

text \<open>What \<open>refresh\<close> does before it opens the database: the candidates or the error.\<close>

definition fetched_candidates :: "fetched_values \<Rightarrow> catalog_failure + symbol_lookup list" where
  "fetched_candidates fetched =
     (case fetched of
        Inl (Some code) \<Rightarrow> Inl (Catalog_Error code)
      | Inl None \<Rightarrow> Inl (Catalog_Error ''SYMBOL_CATALOG_SOURCE_HTTP_ERROR'')
      | Inr values \<Rightarrow> normalize_catalog values)"

definition refresh ::
  "catalog_config \<Rightarrow> unicode_tables \<Rightarrow> (string \<Rightarrow> string list) \<Rightarrow> (string \<Rightarrow> string) \<Rightarrow> fetched_values \<Rightarrow> time \<Rightarrow> catalog \<Rightarrow>
   (catalog_failure, catalog_refresh, catalog) outcome" where
  "refresh cfg U lazy_pinyin sha256 fetched now c =
     (case fetched_candidates fetched of Inl e \<Rightarrow> (Inl e, c)
      | Inr candidates \<Rightarrow>
          (let checksum = catalog_checksum sha256 candidates; active = active_row c in
           if int (length candidates) < required_count cfg (map_option (\<lambda>(_, _, row). cv_count row) active) then
             (Inl (Catalog_Error (if active = None then ''SYMBOL_CATALOG_TOO_SMALL'' else ''SYMBOL_CATALOG_SHRINK_REJECTED'')), c)
           else
             (Inr \<lparr>refresh_version = next_version c, refresh_count = length candidates, refresh_checksum = checksum\<rparr>,
              publish_version cfg U lazy_pinyin checksum candidates now c)))"

section \<open>Reading the active version\<close>

definition require_active :: "catalog_config \<Rightarrow> time \<Rightarrow> catalog \<Rightarrow> catalog_failure + nat" where
  "require_active cfg now c =
     (case active_row c of None \<Rightarrow> Inl (Catalog_Error ''SYMBOL_CATALOG_UNAVAILABLE'')
      | Some (v, since, _) \<Rightarrow> if now - since > stale_after cfg then Inl (Catalog_Error ''SYMBOL_CATALOG_STALE'') else Inr v)"

definition lookup_row :: "catalog \<Rightarrow> nat \<Rightarrow> string \<Rightarrow> string \<Rightarrow> catalog_failure + symbol_lookup" where
  "lookup_row c v sy market =
     (case dget (securities c) (v, sy, market) of None \<Rightarrow> Inl (Lookup_Not_Found sy)
      | Some r \<Rightarrow> Inr (key_lookup ((v, sy, market), r)))"

definition catalog_lookup :: "catalog_config \<Rightarrow> time \<Rightarrow> string \<Rightarrow> catalog \<Rightarrow> catalog_failure + symbol_lookup" where
  "catalog_lookup cfg now sy c =
     (case market_code_for_symbol sy of None \<Rightarrow> Inl Unsupported_Market
      | Some market \<Rightarrow> (case require_active cfg now c of Inl e \<Rightarrow> Inl e | Inr v \<Rightarrow> lookup_row c v sy market))"

definition lookup_existing :: "string \<Rightarrow> catalog \<Rightarrow> catalog_failure + symbol_lookup" where
  "lookup_existing sy c =
     (case market_code_for_symbol sy of None \<Rightarrow> Inl Unsupported_Market
      | Some market \<Rightarrow>
          (case active_row c of None \<Rightarrow> Inl (Catalog_Error ''SYMBOL_CATALOG_UNAVAILABLE'')
           | Some (v, _, _) \<Rightarrow> lookup_row c v sy market))"

record catalog_status =
  status_version :: "nat option"
  status_count :: nat
  status_activated :: "time option"
  status_stale :: bool
  status_checksum :: "string option"

definition catalog_status_of :: "catalog_config \<Rightarrow> time \<Rightarrow> catalog \<Rightarrow> catalog_status" where
  "catalog_status_of cfg now c =
     (case active_row c of
        None \<Rightarrow> \<lparr>status_version = None, status_count = 0, status_activated = None, status_stale = True, status_checksum = None\<rparr>
      | Some (v, since, row) \<Rightarrow>
          \<lparr>status_version = Some v, status_count = cv_count row, status_activated = Some since,
           status_stale = (now - since > stale_after cfg), status_checksum = Some (cv_checksum row)\<rparr>)"

definition startup_refresh_required :: "catalog_config \<Rightarrow> time \<Rightarrow> time \<Rightarrow> catalog \<Rightarrow> catalog_failure + bool" where
  "startup_refresh_required cfg max_age now c =
     (if max_age \<le> 0 then Inl (Bad_Value ''max_age must be positive'')
      else Inr (case status_activated (catalog_status_of cfg now c) of None \<Rightarrow> True | Some since \<Rightarrow> now - since > max_age))"

section \<open>Search\<close>

text \<open>\<open>_escape_like\<close>, on the characters of a text\<close>

definition replace_character :: "string \<Rightarrow> string list \<Rightarrow> string list \<Rightarrow> string list" where
  "replace_character ch by_chs s = concat (map (\<lambda>x. if x = ch then by_chs else [x]) s)"

abbreviation escape_character :: string where "escape_character \<equiv> [CHR 0x5C]"

definition escape_like :: "string list \<Rightarrow> string list" where
  "escape_like s =
     replace_character ''_'' [escape_character, ''_''] (replace_character ''%'' [escape_character, ''%''] (replace_character escape_character [escape_character, escape_character] s))"

text \<open>\<open>LIKE ... ESCAPE '\'\<close> of SQLite, which takes the letters of ASCII without regard to their case.\<close>

fun like_chars :: "string list \<Rightarrow> string list \<Rightarrow> bool" where
  "like_chars [] s = (s = [])"
| "like_chars (p # ps) s =
     (if p = ''%'' then like_chars ps s \<or> (case s of [] \<Rightarrow> False | _ # cs \<Rightarrow> like_chars (p # ps) cs)
      else if p = escape_character then
        (case (ps, s) of (q # qs, ch # cs) \<Rightarrow> to_lower q = to_lower ch \<and> like_chars qs cs | _ \<Rightarrow> False)
      else case s of [] \<Rightarrow> False | ch # cs \<Rightarrow> (p = ''_'' \<or> to_lower p = to_lower ch) \<and> like_chars ps cs)"

definition like_text :: "string list \<Rightarrow> string \<Rightarrow> bool" where
  "like_text pattern t = like_chars pattern (characters t)"

definition prefix_pattern :: "string \<Rightarrow> string list" where
  "prefix_pattern q = escape_like (characters q) @ [''%'']"

definition contains_pattern :: "string \<Rightarrow> string list" where
  "contains_pattern q = ''%'' # escape_like (characters q) @ [''%'']"

text \<open>The condition and the first column of the order, for a query of digits and for any other.\<close>

definition row_matches :: "unicode_tables \<Rightarrow> string \<Rightarrow> security_key \<times> security \<Rightarrow> bool" where
  "row_matches U q row =
     (case row of ((_, sy, _), r) \<Rightarrow>
        if digit_text U q then like_text (prefix_pattern q) sy
        else like_text (contains_pattern q) (sec_normalized r) \<or> like_text (prefix_pattern q) (sec_pinyin r)
          \<or> like_text (prefix_pattern q) (sec_initials r))"

definition row_rank :: "unicode_tables \<Rightarrow> string \<Rightarrow> security_key \<times> security \<Rightarrow> nat" where
  "row_rank U q row =
     (case row of ((_, sy, _), r) \<Rightarrow>
        if digit_text U q then (if sy = q then 0 else 1)
        else if sec_normalized r = q then 0
        else if like_text (prefix_pattern q) (sec_normalized r) then 1
        else if like_text (prefix_pattern q) (sec_initials r) then 2
        else if like_text (prefix_pattern q) (sec_pinyin r) then 3
        else 4)"

definition catalog_search :: "catalog_config \<Rightarrow> unicode_tables \<Rightarrow> time \<Rightarrow> string \<Rightarrow> int \<Rightarrow> catalog \<Rightarrow> catalog_failure + symbol_lookup list" where
  "catalog_search cfg U now query limit c =
     (let q = casefold U (strip query); n = length (characters q) in
      if n < 2 \<or> 32 < n then Inl (Bad_Value ''query must contain 2 to 32 characters'')
      else if limit < 1 \<or> 10 < limit then Inl (Bad_Value ''limit must be between 1 and 10'')
      else case require_active cfg now c of Inl e \<Rightarrow> Inl e
      | Inr v \<Rightarrow>
          Inr (map key_lookup (take (nat limit)
            (sort_key (\<lambda>row. (row_rank U q row, snd (fst row)))
              (filter (\<lambda>row. fst (fst row) = v \<and> row_matches U q row) (securities c))))))"

end
