(* ===== verification/Catalog_Properties.thy ===== *)
theory Catalog_Properties
  imports Symbol_Catalog Session_Material
begin

text \<open>
  What the catalogue promises: it shows the last snapshot that was accepted, accepts none that loses more than a tenth, takes
  whatever its own source returns, and a search finds exactly the rows that hold the text of the query as it stands.
\<close>

section \<open>Patterns\<close>

text \<open>The characters of a text without regard to the case of the letters of ASCII.\<close>

definition folded :: "string \<Rightarrow> string list" where
  "folded t = map to_lower (characters t)"

lemma escape_like_eq:
  "escape_like s = concat (map (\<lambda>x. if x \<in> {escape_character, ''%'', ''_''} then [escape_character, x] else [x]) s)"
  by (induction s) (auto simp: escape_like_def replace_character_def)

lemma escape_like_simps [simp]:
  "escape_like [] = []"
  "escape_like (x # s) = (if x \<in> {escape_character, ''%'', ''_''} then [escape_character, x] else [x]) @ escape_like s"
  by (simp_all add: escape_like_eq)

text \<open>An escaped text matches itself, and the sign that follows it the rest.\<close>

lemma like_chars_escaped:
  "like_chars (escape_like q @ ps) s \<longleftrightarrow> (\<exists>s1 s2. s = s1 @ s2 \<and> map to_lower s1 = map to_lower q \<and> like_chars ps s2)"
proof (induction q arbitrary: s)
  case (Cons x q)
  note ih = Cons.IH
  have step: "like_chars (escape_like (x # q) @ ps) s \<longleftrightarrow> (case s of [] \<Rightarrow> False | ch # cs \<Rightarrow> to_lower x = to_lower ch \<and> like_chars (escape_like q @ ps) cs)"
    by (cases s) auto
  show ?case
  proof (cases s)
    case (Cons ch cs)
    have "(\<exists>s1 s2. s = s1 @ s2 \<and> map to_lower s1 = map to_lower (x # q) \<and> like_chars ps s2)
      \<longleftrightarrow> to_lower ch = to_lower x \<and> (\<exists>s1 s2. cs = s1 @ s2 \<and> map to_lower s1 = map to_lower q \<and> like_chars ps s2)"
      unfolding Cons by (auto simp: Cons_eq_append_conv map_eq_Cons_conv)
    then show ?thesis using Cons step ih by auto
  qed (simp add: step)
qed simp

lemma like_chars_any: "like_chars (''%'' # ps) s \<longleftrightarrow> (\<exists>s1 s2. s = s1 @ s2 \<and> like_chars ps s2)"
proof (induction s)
  case (Cons ch cs)
  have "like_chars (''%'' # ps) (ch # cs) \<longleftrightarrow> like_chars ps (ch # cs) \<or> like_chars (''%'' # ps) cs" by simp
  then show ?case unfolding Cons.IH by (metis append_Cons append_Nil neq_Nil_conv list.inject)
qed auto

lemma like_chars_tail [simp]: "like_chars [''%''] s"
  using like_chars_any [of "[]" s] by (metis append_Nil2 like_chars.simps(1))

declare like_chars.simps(2) [simp del]

lemma map_split: "(\<exists>s1 s2. s = s1 @ s2 \<and> map f s1 = xs) \<longleftrightarrow> prefix xs (map f s)"
  by (auto simp: prefix_def map_eq_append_conv)

theorem like_prefix: "like_text (prefix_pattern q) t \<longleftrightarrow> prefix (folded q) (folded t)"
  unfolding like_text_def prefix_pattern_def folded_def like_chars_escaped using map_split [of "characters t" to_lower "map to_lower (characters q)"]
  by auto

theorem like_contains: "like_text (contains_pattern q) t \<longleftrightarrow> sublist (folded q) (folded t)"
proof -
  have "like_text (contains_pattern q) t \<longleftrightarrow> (\<exists>s1 s2. characters t = s1 @ s2 \<and> prefix (folded q) (map to_lower s2))"
    unfolding like_text_def contains_pattern_def like_chars_any like_chars_escaped folded_def
    using map_split [of _ to_lower "map to_lower (characters q)"] by auto
  also have "\<dots> \<longleftrightarrow> sublist (folded q) (folded t)"
    unfolding folded_def sublist_altdef' suffix_def by (auto simp: map_eq_append_conv)
  finally show ?thesis .
qed

section \<open>Search\<close>

definition literal_match :: "unicode_tables \<Rightarrow> string \<Rightarrow> security_key \<times> security \<Rightarrow> bool" where
  "literal_match U q row =
     (case row of ((_, sy, _), r) \<Rightarrow>
        if digit_text U q then prefix (folded q) (folded sy)
        else sublist (folded q) (folded (sec_normalized r)) \<or> prefix (folded q) (folded (sec_pinyin r)) \<or> prefix (folded q) (folded (sec_initials r)))"

lemma row_matches_literal: "row_matches U q row \<longleftrightarrow> literal_match U q row"
  by (cases row) (auto simp: row_matches_def literal_match_def like_prefix like_contains split: prod.splits)

lemma first_of_sorted:
  assumes "x \<in> set xs" "x \<notin> set (take n (sort_key f xs))" "y \<in> set (take n (sort_key f xs))"
  shows "n = length (take n (sort_key f xs)) \<and> f y \<le> f x"
proof -
  let ?s = "sort_key f xs"
  have "x \<in> set ?s" using assms(1) by simp
  then have "x \<in> set (drop n ?s)" using assms(2) by (metis Un_iff append_take_drop_id set_append)
  moreover have "sorted (map f (take n ?s @ drop n ?s))" by simp
  then have "\<forall>a\<in>set (take n ?s). \<forall>b\<in>set (drop n ?s). f a \<le> f b" unfolding map_append sorted_append by simp
  moreover have "n \<le> length ?s" using \<open>x \<in> set (drop n ?s)\<close> by (cases "n \<le> length ?s") auto
  ultimately show ?thesis using assms(3) by simp
qed

text \<open>
  A search finds the rows of the active version that hold the text of the query as it stands, whatever signs it has: a query of
  digits at the start of the symbol, any other in the name or at the start of its pinyin or initials. A row that matches
  and is not found has a full page of rows before it, none of which ranks after it.
\<close>

theorem search_finds_literally:
  assumes run: "catalog_search cfg U now query limit c = Inr found" and active: "active_row c = Some (v, since, version)"
    and q: "q = casefold U (strip query)"
    and hits: "hits = {row \<in> set (securities c). fst (fst row) = v \<and> literal_match U q row}"
  shows "\<exists>rows. found = map key_lookup rows \<and> set rows \<subseteq> hits \<and> sorted (map (row_rank U q) rows) \<and>
    (\<forall>row \<in> hits - set rows. int (length rows) = limit \<and> (\<forall>before \<in> set rows. row_rank U q before \<le> row_rank U q row))"
proof -
  let ?f = "\<lambda>row. (row_rank U q row, snd (fst row))"
  define ms where "ms = filter (\<lambda>row. fst (fst row) = v \<and> row_matches U q row) (securities c)"
  define rows where "rows = take (nat limit) (sort_key ?f ms)"
  have ms: "set ms = hits" by (auto simp: ms_def hits row_matches_literal)
  have found: "found = map key_lookup rows" and limit: "1 \<le> limit"
    using run by (auto simp: catalog_search_def Let_def require_active_def active rows_def ms_def q split: if_splits)
  have sub: "set rows \<subseteq> hits" unfolding ms [symmetric] rows_def by (auto dest: in_set_takeD)
  have "sorted (map ?f rows)" by (simp add: rows_def take_map [symmetric] sorted_wrt_take)
  then have ranks: "sorted (map (row_rank U q) rows)"
    unfolding sorted_map by (rule sorted_wrt_mono_rel [rotated]) (auto simp: less_eq_prod_def)
  have rest: "int (length rows) = limit \<and> (\<forall>before \<in> set rows. row_rank U q before \<le> row_rank U q row)"
    if row: "row \<in> hits" "row \<notin> set rows" for row
  proof -
    have in_ms: "row \<in> set ms" using row(1) ms by simp
    then have "0 < length (sort_key ?f ms)" by auto
    then have "0 < length rows" using limit by (simp add: rows_def)
    then obtain before where "before \<in> set rows" by (cases rows) auto
    have all: "nat limit = length rows \<and> ?f b \<le> ?f row" if "b \<in> set rows" for b
      using first_of_sorted [of row ms "nat limit" ?f b] in_ms row(2) that by (simp add: rows_def)
    have "int (length rows) = limit" using all [OF \<open>before \<in> set rows\<close>] limit by linarith
    moreover have "row_rank U q b \<le> row_rank U q row" if "b \<in> set rows" for b
      using conjunct2 [OF all [OF that]] by (auto simp: less_eq_prod_def)
    ultimately show ?thesis by blast
  qed
  show ?thesis using found sub ranks rest by blast
qed


definition demo_tables :: unicode_tables where
  "demo_tables = \<lparr>wide_fold = (\<lambda>ch. ch), wide_alnum = (\<lambda>_. True), wide_digit = (\<lambda>_. False)\<rparr>"

definition listing_config :: "rat \<Rightarrow> catalog_config" where
  "listing_config ratio = \<lparr>minimum_count = 1, shrink_ratio = ratio, stale_after = 1000, source_type = ''Sina''\<rparr>"

definition demo_item :: "string \<Rightarrow> string \<Rightarrow> symbol_lookup" where
  "demo_item sy name = \<lparr>lookup_symbol = sy, lookup_name = name, lookup_market = ''17'', lookup_label = None, lookup_securities_code = None\<rparr>"

definition demo_rows :: "symbol_lookup list \<Rightarrow> (security_key, security) dict" where
  "demo_rows ls = map (\<lambda>l. ((1, identity l), new_security demo_tables (\<lambda>name. [name]) l)) ls"

definition demo_catalog :: "symbol_lookup list \<Rightarrow> catalog" where
  "demo_catalog ls = \<lparr>versions = [(1, \<lparr>cv_source = ''Sina'', cv_fetched = 0, cv_count = length ls, cv_checksum = []\<rparr>)],
     securities = demo_rows ls, active_version = Some (1, 0), next_version = 2\<rparr>"

definition demo_items :: "symbol_lookup list" where
  "demo_items = [demo_item ''600000'' ''Big Cat'', demo_item ''600001'' ''A%B'', demo_item ''600003'' ''AxB'']"

lemma demo_search:
  "catalog_search (listing_config 1) demo_tables 5 '' a%'' 10 (demo_catalog demo_items) = Inr [demo_item ''600001'' ''A%B'']"
  by code_simp

lemma search_finds_literally_witness:
  "\<exists>rows. [demo_item ''600001'' ''A%B''] = map key_lookup rows \<and> sorted (map (row_rank demo_tables ''a%'') rows) \<and>
    set rows \<subseteq> {row \<in> set (demo_rows demo_items). fst (fst row) = 1 \<and> literal_match demo_tables ''a%'' row}"
proof -
  have active: "active_row (demo_catalog demo_items) = Some (1, 0, \<lparr>cv_source = ''Sina'', cv_fetched = 0, cv_count = length demo_items, cv_checksum = []\<rparr>)"
    by (simp add: active_row_def demo_catalog_def)
  have q: "casefold demo_tables (strip '' a%'') = ''a%''" by code_simp
  have rows: "securities (demo_catalog demo_items) = demo_rows demo_items" by (simp add: demo_catalog_def)
  show ?thesis using search_finds_literally [OF demo_search active refl refl] unfolding q rows
    by (elim exE conjE) (intro exI conjI; assumption)
qed

section \<open>Candidates\<close>

lemma normalize_values_distinct:
  "normalize_values vs seen = Inr ls \<Longrightarrow> distinct (map identity ls) \<and> (\<forall>l \<in> set ls. identity l \<notin> keys seen)"
proof (induction vs seen arbitrary: ls rule: normalize_values.induct)
  case (3 l vs seen)
  define name where "name = canonical_symbol_name (lookup_symbol l) (strip (lookup_name l))"
  obtain m where m: "market_code_for_symbol (lookup_symbol l) = Some m" using 3(3) by (cases "market_code_for_symbol (lookup_symbol l)") auto
  have ok: "\<not> (name = [] \<or> lookup_market l \<noteq> m)" using 3(3) m by (auto simp: Let_def name_def split: if_splits)
  show ?case
  proof (cases "dget seen (identity l)")
    case None
    obtain r where r: "normalize_values vs (dset (identity l) name seen) = Inr r" and ls: "ls = l\<lparr>lookup_name := name\<rparr> # r"
      using 3(3) m ok None unfolding normalize_values.simps Let_def name_def [symmetric] by (auto split: sum.splits)
    show ?thesis using 3(1) [OF m name_def ok None r] None by (auto simp: ls dget_None_iff)
  next
    case (Some p)
    then have "normalize_values vs seen = Inr ls" "p = name"
      using 3(3) m ok unfolding normalize_values.simps Let_def name_def [symmetric] by (auto split: if_splits)
    then show ?thesis using 3(2) [OF m name_def ok Some] by simp
  qed
qed simp_all

lemma identity_update [simp]: "identity (l\<lparr>lookup_name := n\<rparr>) = identity l"
  by simp

lemma candidates_distinct: "fetched_candidates fetched = Inr ls \<Longrightarrow> distinct (map identity ls)"
  using normalize_values_distinct
  by (fastforce simp: fetched_candidates_def normalize_catalog_def distinct_map inj_on_def split: sum.splits option.splits)

section \<open>The catalogue as the last accepted snapshot\<close>

type_synonym listing = "(symbol_lookup list \<times> time) option"

definition snapshot_step :: "catalog_config \<Rightarrow> fetched_values \<times> time \<Rightarrow> listing \<Rightarrow> listing" where
  "snapshot_step cfg = (\<lambda>(fetched, now) s.
     case fetched_candidates fetched of Inl _ \<Rightarrow> s
     | Inr ls \<Rightarrow> if int (length ls) < required_count cfg (map_option (\<lambda>(ls, _). length ls) s) then s else Some (ls, now))"

definition snapshot_lookup :: "string \<Rightarrow> listing \<Rightarrow> catalog_failure + symbol_lookup" where
  "snapshot_lookup sy s =
     (case market_code_for_symbol sy of None \<Rightarrow> Inl Unsupported_Market
      | Some market \<Rightarrow>
          (case s of None \<Rightarrow> Inl (Catalog_Error ''SYMBOL_CATALOG_UNAVAILABLE'')
           | Some (ls, _) \<Rightarrow>
               (case find (\<lambda>l. identity l = (sy, market)) ls of None \<Rightarrow> Inl (Lookup_Not_Found sy)
                | Some l \<Rightarrow> Inr \<lparr>lookup_symbol = sy, lookup_name = lookup_name l, lookup_market = market,
                    lookup_label = (case lookup_label l of None \<Rightarrow> None | Some t \<Rightarrow> if strip t = [] then None else Some (strip t)),
                    lookup_securities_code = None\<rparr>)))"

text \<open>What the tables keep.\<close>

definition wf_catalog :: "catalog \<Rightarrow> bool" where
  "wf_catalog c \<longleftrightarrow> wf_dict (versions c) \<and> wf_dict (securities c) \<and> length (versions c) \<le> 3 \<and>
     (\<forall>v \<in> keys (versions c). v < next_version c) \<and> (\<forall>i \<in> keys (securities c). fst i \<in> keys (versions c))"

definition shows_snapshot :: "unicode_tables \<Rightarrow> (string \<Rightarrow> string list) \<Rightarrow> catalog \<Rightarrow> listing \<Rightarrow> bool" where
  "shows_snapshot U lazy_pinyin c s \<longleftrightarrow> wf_catalog c \<and>
     (case s of None \<Rightarrow> active_row c = None
      | Some (ls, t) \<Rightarrow> (\<exists>v row. active_row c = Some (v, t, row) \<and> cv_count row = length ls \<and> distinct (map identity ls) \<and>
          (\<forall>i. dget (securities c) (v, i) = map_option (new_security U lazy_pinyin) (find (\<lambda>l. identity l = i) ls))))"

lemma newest_has_last:
  assumes "v \<in> keys d" "\<forall>k \<in> keys d. k \<le> v"
  shows "v \<in> set (newest d)"
proof -
  define s where "s = sort (map fst d)"
  have s: "set s = keys d" "sorted s" by (simp_all add: s_def)
  then have "s \<noteq> []" using assms(1) by auto
  then have split: "s = butlast s @ [last s]" by simp
  have "v \<le> last s" using assms(1) s split sorted_append [of "butlast s" "[last s]"]
    by (metis Un_iff empty_iff empty_set list.set_intros(1) order_refl set_ConsD set_append)
  moreover have "last s \<le> v" using assms(2) s \<open>s \<noteq> []\<close> by (metis last_in_set)
  ultimately have "v = last s" by simp
  then have first: "rev s = v # rev (butlast s)" using split by (metis rev.simps(2) rev_append rev_rev_ident append_Cons append_Nil)
  show ?thesis unfolding newest_def s_def [symmetric] first by simp
qed

lemma length_le_newest: "wf_dict d \<Longrightarrow> length (delete_rows (\<lambda>v _. v \<notin> set (newest d)) d) \<le> 3"
proof -
  assume wf: "wf_dict d"
  let ?d = "delete_rows (\<lambda>v _. v \<notin> set (newest d)) d"
  have "length ?d = card (keys ?d)" using wf_delete_rows [OF wf, of "\<lambda>v _. v \<notin> set (newest d)"] distinct_card [of "map fst ?d"] by simp
  also have "\<dots> \<le> card (set (newest d))" using keys_delete_rows [OF wf] by (intro card_mono) auto
  also have "\<dots> \<le> 3" using card_length [of "newest d"] by (simp add: newest_def)
  finally show ?thesis .
qed

lemma wf_prune_versions:
  assumes v: "wf_dict (versions c)" and r: "wf_dict (securities c)"
    and "\<forall>v \<in> keys (versions c). v < next_version c" "\<forall>i \<in> keys (securities c). fst i \<in> keys (versions c)"
  shows "wf_catalog (prune_versions c)"
proof -
  have k: "keys (versions (prune_versions c)) = keys (versions c) \<inter> set (newest (versions c))"
    "keys (securities (prune_versions c)) = {i \<in> keys (securities c). fst i \<in> set (newest (versions c))}"
    using v r by (auto simp: prune_versions_def Let_def keys_delete_rows)
  have "wf_dict (versions (prune_versions c))" "wf_dict (securities (prune_versions c))"
    "length (versions (prune_versions c)) \<le> 3" "next_version (prune_versions c) = next_version c"
    using v r length_le_newest [OF v] by (simp_all add: prune_versions_def Let_def)
  then show ?thesis unfolding wf_catalog_def k using assms(3,4) by (metis (no_types, lifting) IntD1 IntD2 IntI mem_Collect_eq)
qed

lemma map_of_candidates:
  "map_of (map (\<lambda>l. ((v, identity l), f l)) ls) (w, i) = (if w = v then map_option f (find (\<lambda>l. identity l = i) ls) else None)"
  by (induction ls) auto


lemma refresh_shows_snapshot:
  assumes "shows_snapshot U lazy_pinyin c s"
  shows "shows_snapshot U lazy_pinyin (snd (refresh cfg U lazy_pinyin sha256 fetched now c)) (snapshot_step cfg (fetched, now) s)"
proof (cases "fetched_candidates fetched")
  case (Inr ls)
  have size: "map_option (\<lambda>(_, _, row). cv_count row) (active_row c) = map_option (\<lambda>(ls, _). length ls) s"
    using assms by (auto simp: shows_snapshot_def split: option.splits)
  show ?thesis
  proof (cases "int (length ls) < required_count cfg (map_option (\<lambda>(ls, _). length ls) s)")
    case False
    define v where "v = next_version c"
    define c1 where "c1 = c\<lparr>
        versions := dset v \<lparr>cv_source = source_type cfg, cv_fetched = now, cv_count = length ls, cv_checksum = catalog_checksum sha256 ls\<rparr> (versions c),
        securities := securities c @ map (\<lambda>l. ((v, identity l), new_security U lazy_pinyin l)) ls,
        active_version := Some (v, now), next_version := v + 1\<rparr>"
    have result: "snd (refresh cfg U lazy_pinyin sha256 fetched now c) = prune_versions c1"
      using False by (simp add: refresh_def Inr Let_def size publish_version_def c1_def v_def)
    have wf: "wf_catalog c" using assms by (simp add: shows_snapshot_def)
    have fresh: "(v, i) \<notin> keys (securities c)" for i
      using wf by (cases i) (fastforce simp: wf_catalog_def v_def)
    have distinct: "distinct (map identity ls)" using candidates_distinct [OF Inr] .
    have keys1: "keys (versions c1) = insert v (keys (versions c))" and wf1: "wf_dict (versions c1)"
      using wf by (auto simp: c1_def wf_catalog_def)
    have top: "\<forall>k \<in> keys (versions c1). k \<le> v" using wf by (auto simp: keys1 wf_catalog_def v_def intro: less_imp_le)
    have v: "v \<in> set (newest (versions c1))" using newest_has_last [of v "versions c1"] keys1 top by simp
    have wf_rows: "wf_dict (securities c1)"
      using wf distinct fresh by (auto simp: c1_def wf_catalog_def distinct_map inj_on_def image_iff)
    have rows: "dget (securities c1) (v, i) = map_option (new_security U lazy_pinyin) (find (\<lambda>l. identity l = i) ls)" for i
    proof -
      have "dget (securities c) (v, i) = None" using fresh by (simp add: dget_None_iff)
      then show ?thesis by (simp add: c1_def map_add_def map_of_candidates split: option.splits)
    qed
    have "wf_catalog (prune_versions c1)"
    proof -
      have owner: "\<forall>i \<in> keys (securities c1). fst i \<in> keys (versions c1)"
      proof
        fix i assume "i \<in> keys (securities c1)"
        then have "i \<in> keys (securities c) \<or> fst i = v" by (auto simp: c1_def)
        then show "fst i \<in> keys (versions c1)" using wf unfolding keys1 wf_catalog_def by blast
      qed
      show ?thesis
        using wf1 wf_rows top owner by (intro wf_prune_versions) (auto simp: c1_def le_imp_less_Suc)
    qed
    moreover have "active_row (prune_versions c1) = Some (v, now,
        \<lparr>cv_source = source_type cfg, cv_fetched = now, cv_count = length ls, cv_checksum = catalog_checksum sha256 ls\<rparr>)"
      using v wf1 by (simp add: active_row_def prune_versions_def Let_def c1_def)
    moreover have "dget (securities (prune_versions c1)) (v, i) = map_option (new_security U lazy_pinyin) (find (\<lambda>l. identity l = i) ls)" for i
      using v wf_rows rows [of i] by (cases i) (auto simp: prune_versions_def Let_def split: option.splits)
    ultimately show ?thesis unfolding result using False distinct by (simp add: shows_snapshot_def snapshot_step_def Inr)
  qed (use assms size in \<open>simp add: refresh_def Inr Let_def snapshot_step_def\<close>)
qed (use assms in \<open>simp add: refresh_def snapshot_step_def\<close>)

definition run_refreshes ::
  "catalog_config \<Rightarrow> unicode_tables \<Rightarrow> (string \<Rightarrow> string list) \<Rightarrow> (string \<Rightarrow> string) \<Rightarrow> (fetched_values \<times> time) list \<Rightarrow> catalog" where
  "run_refreshes cfg U lazy_pinyin sha256 evs = fold (\<lambda>(fetched, now) c. snd (refresh cfg U lazy_pinyin sha256 fetched now c)) evs empty_catalog"

lemma run_shows_snapshot:
  "shows_snapshot U lazy_pinyin (run_refreshes cfg U lazy_pinyin sha256 evs) (fold (snapshot_step cfg) evs None)"
proof -
  have "shows_snapshot U lazy_pinyin c s \<Longrightarrow>
    shows_snapshot U lazy_pinyin (fold (\<lambda>(fetched, now) c. snd (refresh cfg U lazy_pinyin sha256 fetched now c)) evs c)
      (fold (snapshot_step cfg) evs s)" for c s
    by (induction evs arbitrary: c s) (auto intro: refresh_shows_snapshot)
  moreover have "shows_snapshot U lazy_pinyin empty_catalog None"
    by (simp add: shows_snapshot_def empty_catalog_def wf_catalog_def active_row_def)
  ultimately show ?thesis by (simp add: run_refreshes_def)
qed

lemma lookup_row_candidates:
  assumes "\<forall>i. dget (securities c) (v, i) = map_option (new_security U lazy_pinyin) (find (\<lambda>l. identity l = i) ls)"
    and "market_code_for_symbol sy = Some market"
  shows "lookup_row c v sy market = snapshot_lookup sy (Some (ls, t))"
proof (cases "find (\<lambda>l. identity l = (sy, market)) ls")
  case None
  then show ?thesis using assms by (simp add: lookup_row_def snapshot_lookup_def)
next
  case (Some l)
  then show ?thesis using assms by (simp add: lookup_row_def snapshot_lookup_def key_lookup_def new_security_def)
qed

lemma reads_as_snapshot:
  assumes sim: "shows_snapshot U lazy_pinyin c s"
  shows "lookup_existing sy c = snapshot_lookup sy s \<and>
    catalog_lookup cfg now sy c =
      (case (market_code_for_symbol sy, s) of
         (Some _, Some (_, t)) \<Rightarrow> if now - t > stale_after cfg then Inl (Catalog_Error ''SYMBOL_CATALOG_STALE'') else snapshot_lookup sy s
       | _ \<Rightarrow> snapshot_lookup sy s) \<and>
    status_count (catalog_status_of cfg now c) = (case s of None \<Rightarrow> 0 | Some (ls, _) \<Rightarrow> length ls) \<and>
    status_activated (catalog_status_of cfg now c) = map_option snd s \<and> length (versions c) \<le> 3"
proof -
  have few: "length (versions c) \<le> 3" using sim by (simp add: shows_snapshot_def wf_catalog_def)
  show ?thesis
  proof (cases s)
    case None
    then have empty: "active_row c = None" using sim by (simp add: shows_snapshot_def)
    show ?thesis
      by (cases "market_code_for_symbol sy")
        (simp_all add: empty None few lookup_existing_def catalog_lookup_def snapshot_lookup_def require_active_def catalog_status_of_def)
  next
    case (Some p)
    obtain ls t where p: "p = (ls, t)" by force
    obtain v row where active: "active_row c = Some (v, t, row)" and n: "cv_count row = length ls"
      and rows: "\<forall>i. dget (securities c) (v, i) = map_option (new_security U lazy_pinyin) (find (\<lambda>l. identity l = i) ls)"
      using sim Some p by (auto simp: shows_snapshot_def)
    show ?thesis
    proof (cases "market_code_for_symbol sy")
      case None
      then show ?thesis using Some p active n few
        by (simp add: lookup_existing_def catalog_lookup_def snapshot_lookup_def catalog_status_of_def)
    next
      case (Some m)
      then show ?thesis using \<open>s = Some p\<close> p active n few lookup_row_candidates [OF rows Some, of t]
        by (simp add: lookup_existing_def catalog_lookup_def require_active_def catalog_status_of_def)
    qed
  qed
qed

text \<open>
  C24: Whatever the source does in the refreshes, the catalogue reads as the last snapshot that was accepted: a lookup finds exactly
  its identities, unless it is too old and the age counts, and the status has its size and time. A rejected refresh changes nothing.
\<close>

theorem catalog_refines_snapshots:
  "let c = run_refreshes cfg U lazy_pinyin sha256 evs; s = fold (snapshot_step cfg) evs None in
    lookup_existing sy c = snapshot_lookup sy s \<and>
    catalog_lookup cfg now sy c =
      (case (market_code_for_symbol sy, s) of
         (Some _, Some (_, t)) \<Rightarrow> if now - t > stale_after cfg then Inl (Catalog_Error ''SYMBOL_CATALOG_STALE'') else snapshot_lookup sy s
       | _ \<Rightarrow> snapshot_lookup sy s) \<and>
    status_count (catalog_status_of cfg now c) = (case s of None \<Rightarrow> 0 | Some (ls, _) \<Rightarrow> length ls) \<and>
    status_activated (catalog_status_of cfg now c) = map_option snd s \<and> length (versions c) \<le> 3"
  unfolding Let_def by (rule reads_as_snapshot [OF run_shows_snapshot])


section \<open>No snapshot that loses a tenth\<close>

lemma double_error: "\<bar>double v - v\<bar> \<le> \<bar>v\<bar> / 2 ^ 53"
proof (cases "v = 0")
  case False
  let ?s = "53 - binary_exponent \<bar>v\<bar>"
  let ?p = "2 powi ?s :: rat"
  have p: "0 < ?p" by simp
  have "double v = sgn v * (of_int (half_even (\<bar>v\<bar> * ?p)) / ?p)" using False by (simp add: double_def Let_def)
  then have "\<bar>double v - v\<bar> = \<bar>sgn v * (of_int (half_even (\<bar>v\<bar> * ?p)) / ?p - \<bar>v\<bar>)\<bar>"
    by (simp add: right_diff_distrib sgn_mult_abs)
  also have "\<dots> = \<bar>of_int (half_even (\<bar>v\<bar> * ?p)) / ?p - \<bar>v\<bar>\<bar>" using False by (simp add: abs_mult)
  also have "\<dots> = \<bar>of_int (half_even (\<bar>v\<bar> * ?p)) - \<bar>v\<bar> * ?p\<bar> / ?p"
    using p abs_div_diff by blast
  also have "\<dots> \<le> 1 / 2 / ?p" using half_even_bound p by (intro divide_right_mono) auto
  also have "\<dots> = 2 powi (binary_exponent \<bar>v\<bar> - 1) / 2 ^ 53"
    by (simp add: power_int_diff field_simps)
  also have "\<dots> \<le> \<bar>v\<bar> / 2 ^ 53" using binary_exponent_bound [of "\<bar>v\<bar>"] False by (intro divide_right_mono) auto
  finally show ?thesis .
qed simp

lemma double_bounds: "0 \<le> v \<Longrightarrow> v - v * (1 / 2 ^ 53) \<le> double v \<and> double v \<le> v + v * (1 / 2 ^ 53)"
proof -
  assume "0 \<le> v"
  then have "\<bar>double v - v\<bar> \<le> v * (1 / 2 ^ 53)" using double_error [of v] by simp
  then show ?thesis by linarith
qed

lemma shrink_floor_bound:
  assumes "n \<le> 2 ^ 40"
  shows "9 * int n \<le> 10 * shrink_floor (double (9 / 10)) n"
proof -
  let ?e = "1 / 2 ^ 53 :: rat"
  define r where "r = double (9 / 10)"
  define m where "m = (of_nat n :: rat)"
  define q where "q = m * r"
  define y where "y = fmul m r"
  define d where "d = double (999999 / 1000000)"
  define z where "z = fadd y d"
  have "(of_nat n :: rat) \<le> of_nat (2 ^ 40)" using assms by (simp only: of_nat_le_iff)
  then have n: "0 \<le> m" "m \<le> 2 ^ 40" by (simp_all add: m_def)
  have r: "9 / 10 - 9 / 10 * ?e \<le> r" "r \<le> 1" using double_bounds [of "9 / 10"] by (simp_all add: r_def)
  have p: "m * (9 / 10 - 9 / 10 * ?e) \<le> q" "q \<le> m * 1" "0 \<le> q"
    using mult_left_mono [OF r(1) n(1)] mult_left_mono [OF r(2) n(1)] r(1) by (simp_all add: q_def)
  have "y = double q" by (simp add: y_def q_def fmul_def)
  then have y: "q - m * ?e \<le> y" "y \<le> m + m * ?e" using double_bounds [OF p(3)] p by simp_all
  have d: "999999 / 1000000 - ?e \<le> d" "d \<le> 1" using double_bounds [of "999999 / 1000000"] by (simp_all add: d_def)
  have y0: "0 \<le> y" using y(1) p(1) n by (simp add: algebra_simps)
  have z: "y + d - (y + d) * ?e \<le> z" using double_bounds [of "y + d"] y0 d by (simp add: z_def fadd_def)
  have "z - 1 < of_int \<lfloor>z\<rfloor>" by linarith
  then have "9 * m - 1 < 10 * of_int \<lfloor>z\<rfloor>" 
  proof -
    have small: "m * ?e \<le> 1 / 1000" "(y + d) * ?e \<le> 1 / 100" "?e \<le> 1 / 1000" using n y(2) d(2) by simp_all
    have "9 / 10 * m - 1 / 1000 \<le> q" using p(1) small(1) n(1) by (simp add: right_diff_distrib)
    moreover have "q - 1 / 1000 \<le> y" "99 / 100 \<le> d" using y(1) d(1) small by linarith+
    moreover have "y + d - 1 / 100 \<le> z" using z small(2) by linarith
    moreover assume "z - 1 < of_int \<lfloor>z\<rfloor>"
    ultimately show ?thesis by linarith
  qed
  then have "of_int (9 * int n - 1) < (of_int (10 * \<lfloor>z\<rfloor>) :: rat)" by (simp add: m_def)
  then have "9 * int n - 1 < 10 * \<lfloor>z\<rfloor>" by (simp only: of_int_less_iff)
  then show ?thesis by (simp add: shrink_floor_def z_def y_def d_def r_def m_def)
qed

text \<open>
  With the ratio of 0.9 that the program uses, a refresh is accepted only with the minimum of securities and nine tenths of those
  of the active version, although the bound is computed in binary fractions; the new version then has the size that it reports.
\<close>

theorem refresh_keeps_nine_tenths:
  assumes ratio: "shrink_ratio cfg = double (9 / 10)" and c: "c = run_refreshes cfg U lazy_pinyin sha256 evs"
    and run: "refresh cfg U lazy_pinyin sha256 fetched now c = (Inr r, c')"
    and n: "n = status_count (catalog_status_of cfg now c)" "n \<le> 2 ^ 40"
  shows "9 * n \<le> 10 * refresh_count r \<and> (n = 0 \<or> refresh_count r > 0) \<and> minimum_count cfg \<le> refresh_count r \<and>
    status_count (catalog_status_of cfg now c') = refresh_count r"
proof -
  define s where "s = fold (snapshot_step cfg) evs None"
  have sim: "shows_snapshot U lazy_pinyin c s" unfolding c s_def by (rule run_shows_snapshot)
  obtain ls where ls: "fetched_candidates fetched = Inr ls" using run by (auto simp: refresh_def split: sum.splits)
  have size: "map_option (\<lambda>(_, _, row). cv_count row) (active_row c) = map_option (\<lambda>(ls, _). length ls) s"
    using sim by (auto simp: shows_snapshot_def split: option.splits)
  have enough: "required_count cfg (map_option (\<lambda>(ls, _). length ls) s) \<le> int (length ls)" and r: "refresh_count r = length ls"
    using run by (auto simp: refresh_def ls Let_def size split: if_splits)
  have "shows_snapshot U lazy_pinyin c' (snapshot_step cfg (fetched, now) s)" using refresh_shows_snapshot [OF sim, of cfg sha256 fetched now] run by simp
  moreover have "snapshot_step cfg (fetched, now) s = Some (ls, now)" using enough by (simp add: snapshot_step_def ls)
  ultimately have new: "status_count (catalog_status_of cfg now c') = length ls" by (auto simp: shows_snapshot_def catalog_status_of_def)
  show ?thesis
  proof (cases s)
    case None
    then have "n = 0" using n(1) sim by (simp add: shows_snapshot_def catalog_status_of_def)
    then show ?thesis using enough new r None by (simp add: required_count_def)
  next
    case (Some p)
    then have "n = length (fst p)" using n(1) sim by (auto simp: shows_snapshot_def catalog_status_of_def split: prod.splits)
    then have "int (minimum_count cfg) \<le> int (length ls)" "shrink_floor (double (9 / 10)) n \<le> int (length ls)"
      using enough Some ratio by (auto simp: required_count_def split: prod.splits)
    then have "9 * int n \<le> 10 * int (length ls)" "minimum_count cfg \<le> length ls" using shrink_floor_bound [OF n(2)] by simp_all
    then show ?thesis using new r by auto
  qed
qed


lemma shrink_floor_one: "shrink_floor (double (9 / 10)) 1 \<le> 1"
proof -
  define r where "r = double (9 / 10)"
  define y where "y = fmul 1 r"
  define d where "d = double (999999 / 1000000)"
  have r: "0 \<le> r" "r \<le> 91 / 100" using double_bounds [of "9 / 10"] by (simp_all add: r_def)
  have y: "0 \<le> y" "y \<le> 92 / 100" using double_bounds [of r] r by (simp_all add: y_def fmul_def)
  have d: "0 \<le> d" "d \<le> 1" using double_bounds [of "999999 / 1000000"] by (simp_all add: d_def)
  have "(y + d) * (1 / 2 ^ 53) \<le> 1 / 100" using y(2) d(2) by simp
  then have "y + d + (y + d) * (1 / 2 ^ 53) < 2" using y(2) d(2) by linarith
  then have "fadd y d < 2" using conjunct2 [OF double_bounds [of "y + d"]] y(1) d(1) unfolding fadd_def by linarith
  then have "\<lfloor>fadd y d\<rfloor> < 2" by (simp add: floor_less_iff)
  then show ?thesis by (simp add: shrink_floor_def y_def d_def r_def)
qed

definition demo_fetched :: "string \<Rightarrow> fetched_values" where
  "demo_fetched name = Inr (Some [Some (demo_item ''600000'' name)])"

abbreviation listing_run :: "(fetched_values \<times> time) list \<Rightarrow> catalog" where
  "listing_run \<equiv> run_refreshes (listing_config (double (9 / 10))) demo_tables (\<lambda>name. [name]) (\<lambda>t. t)"

lemma demo_candidates: "fetched_candidates (demo_fetched ''A%B'') = Inr [demo_item ''600000'' ''A%B'']"
  "fetched_candidates (demo_fetched ''Cat'') = Inr [demo_item ''600000'' ''Cat'']"
  by code_simp+

lemma refresh_keeps_nine_tenths_witness:
  "\<exists>r c'. refresh (listing_config (double (9 / 10))) demo_tables (\<lambda>name. [name]) (\<lambda>t. t) (demo_fetched ''Cat'') 9 (listing_run [(demo_fetched ''A%B'', 5)]) = (Inr r, c') \<and>
    status_count (catalog_status_of (listing_config (double (9 / 10))) 9 (listing_run [(demo_fetched ''A%B'', 5)])) = 1 \<and> 9 \<le> 10 * refresh_count r \<and>
    status_count (catalog_status_of (listing_config (double (9 / 10))) 9 c') = refresh_count r"
proof -
  let ?c = "listing_run [(demo_fetched ''A%B'', 5)]"
  let ?s = "fold (snapshot_step (listing_config (double (9 / 10)))) [(demo_fetched ''A%B'', 5)] None"
  have s: "?s = Some ([demo_item ''600000'' ''A%B''], 5)"
    by (simp add: snapshot_step_def demo_candidates required_count_def listing_config_def)
  have sim: "shows_snapshot demo_tables (\<lambda>name. [name]) ?c ?s" by (rule run_shows_snapshot)
  obtain v row where row: "active_row ?c = Some (v, 5, row)" "cv_count row = 1" using sim unfolding s by (auto simp: shows_snapshot_def)
  then have n: "status_count (catalog_status_of (listing_config (double (9 / 10))) 9 ?c) = 1" by (simp add: catalog_status_of_def)
  have "\<not> int (length [demo_item ''600000'' ''Cat'']) < required_count (listing_config (double (9 / 10))) (Some 1)"
    using shrink_floor_one by (simp add: required_count_def listing_config_def)
  then have "\<exists>r c'. refresh (listing_config (double (9 / 10))) demo_tables (\<lambda>name. [name]) (\<lambda>t. t) (demo_fetched ''Cat'') 9 ?c = (Inr r, c')"
    by (simp add: refresh_def demo_candidates row Let_def)
  then obtain r c' where run: "refresh (listing_config (double (9 / 10))) demo_tables (\<lambda>name. [name]) (\<lambda>t. t) (demo_fetched ''Cat'') 9 ?c = (Inr r, c')" by blast
  have ratio: "shrink_ratio (listing_config (double (9 / 10))) = double (9 / 10)" by (simp add: listing_config_def)
  show ?thesis using refresh_keeps_nine_tenths [OF ratio refl run n [symmetric]] run n by auto
qed

section \<open>The catalogue takes what its source returns\<close>

definition source_item :: "symbol_lookup \<Rightarrow> bool" where
  "source_item l \<longleftrightarrow> market_code_for_symbol (lookup_symbol l) = Some (lookup_market l) \<and> strip (lookup_name l) \<noteq> []"

lemma parse_row_item: "parse_row repr_text node row = Inr (Some l) \<Longrightarrow> source_item l"
  by (auto simp: parse_row_def source_item_def catalog_text_def Let_def split: option.splits if_splits)

lemma parse_rows_items: "parse_rows repr_text node rows = Inr ls \<Longrightarrow> \<forall>l \<in> set ls. source_item l"
  by (induction rows arbitrary: ls) (auto dest: parse_row_item split: sum.splits option.splits)

lemma fetch_pages_items:
  "fetch_pages repr_text fetch node expected page seen results = Inr ls \<Longrightarrow> \<forall>l \<in> set results. source_item l \<Longrightarrow> \<forall>l \<in> set ls. source_item l"
proof (induction repr_text fetch node expected page seen results arbitrary: ls rule: fetch_pages.induct)
  case (1 repr_text fetch node expected page seen results)
  note run = "1.prems"(1) [unfolded fetch_pages.simps [of repr_text fetch node expected page seen results]]
  show ?case
  proof (cases "expected \<le> seen")
    case False
    obtain payload where j: "fetched_json fetch (page_url node page page_size) = Inr (JArr payload)"
      using run False by (auto split: sum.splits json.splits)
    show ?thesis
    proof (cases "payload = []")
      case True
      then show ?thesis using run False j "1.prems"(2) by (auto split: if_splits)
    next
      case nonempty: False
      obtain xs where xs: "parse_rows repr_text node payload = Inr xs" using run False j nonempty by (auto split: sum.splits)
      have items: "\<forall>l \<in> set (results @ xs). source_item l" using "1.prems"(2) parse_rows_items [OF xs] by auto
      show ?thesis
      proof (cases "length payload < page_size")
        case True
        then show ?thesis using run False j nonempty xs items by (auto simp: Let_def split: if_splits)
      next
        case full: False
        then have "fetch_pages repr_text fetch node expected (page + 1) (seen + length payload) (results @ xs) = Inr ls"
          using run False j nonempty xs by (simp add: Let_def)
        then show ?thesis using "1.IH" [OF False j refl nonempty xs refl full] items by blast
      qed
    qed
  qed (use run "1.prems"(2) in simp)
qed

lemma merge_items_items:
  assumes "merge_items ls seen results = Inr (seen', results')" "\<forall>l \<in> set ls. source_item l" "\<forall>l \<in> set results. source_item l"
    and "keys seen = identity ` set results" "distinct (map identity results)"
  shows "(\<forall>l \<in> set results'. source_item l) \<and> keys seen' = identity ` set results' \<and> distinct (map identity results')"
  using assms
proof (induction ls seen results rule: merge_items.induct)
  case (2 l ls seen results)
  show ?case
  proof (cases "dget seen (identity l)")
    case None
    then have "identity l \<notin> identity ` set results" using 2(6) by (metis dget_None_iff)
    then show ?thesis using 2(1) [OF None] 2(3-7) None by (auto simp: image_iff)
  next
    case (Some n)
    then show ?thesis using 2(2) [OF Some] 2(3-7) by (auto split: if_splits)
  qed
qed simp

lemma fetch_nodes_items:
  assumes "fetch_nodes repr_text fetch nodes seen results = Inr ls" "\<forall>l \<in> set results. source_item l"
    and "keys seen = identity ` set results" "distinct (map identity results)"
  shows "(\<forall>l \<in> set ls. source_item l) \<and> distinct (map identity ls)"
  using assms
proof (induction nodes arbitrary: seen results)
  case (Cons node nodes)
  obtain xs where xs: "fetch_node repr_text fetch node = Inr xs" using Cons.prems(1) by (auto split: sum.splits)
  obtain seen' results' where m: "merge_items xs seen results = Inr (seen', results')"
    using Cons.prems(1) xs by (auto split: sum.splits)
  have "\<forall>l \<in> set xs. source_item l"
    using xs fetch_pages_items by (fastforce simp: fetch_node_def split: sum.splits)
  then have next_state: "(\<forall>l \<in> set results'. source_item l) \<and> keys seen' = identity ` set results' \<and> distinct (map identity results')"
    using merge_items_items [OF m] Cons.prems(2-4) by blast
  have "fetch_nodes repr_text fetch nodes seen' results' = Inr ls" using Cons.prems(1) xs m by simp
  then show ?case using Cons.IH next_state by blast
qed simp

lemma normalize_items:
  assumes "\<forall>l \<in> set ls. source_item l" "distinct (map identity ls)" "identity ` set ls \<inter> keys seen = {}"
  shows "normalize_values (map Some ls) seen = Inr (map (\<lambda>l. l\<lparr>lookup_name := canonical_symbol_name (lookup_symbol l) (strip (lookup_name l))\<rparr>) ls)"
  using assms
proof (induction ls arbitrary: seen)
  case (Cons l ls)
  define name where "name = canonical_symbol_name (lookup_symbol l) (strip (lookup_name l))"
  have "name \<noteq> []" using Cons.prems(1) by (auto simp: name_def canonical_symbol_name_def source_item_def)
  moreover have "dget seen (identity l) = None" using Cons.prems(3) by (auto simp: dget_None_iff)
  moreover have "normalize_values (map Some ls) (dset (identity l) name seen)
      = Inr (map (\<lambda>l. l\<lparr>lookup_name := canonical_symbol_name (lookup_symbol l) (strip (lookup_name l))\<rparr>) ls)"
    using Cons.prems by (intro Cons.IH) (auto simp: image_iff)
  ultimately show ?case using Cons.prems(1) by (simp add: source_item_def Let_def name_def [symmetric])
qed simp

text \<open>
  What the Sina source returns, from whatever pages, the catalogue takes: no identity twice, each with the market of its symbol and
  a name. So a refresh from it can only fail with the error of the source or for its size.
\<close>

theorem source_result_is_accepted:
  assumes "fetch_symbols repr_text fetch = Inr ls"
  shows "\<exists>candidates. fetched_candidates (Inr (Some (map Some ls))) = Inr candidates \<and>
    mset (map identity candidates) = mset (map identity ls) \<and> distinct (map identity candidates) \<and>
    (\<forall>l \<in> set candidates. market_code_for_symbol (lookup_symbol l) = Some (lookup_market l))"
proof -
  have items: "(\<forall>l \<in> set ls. source_item l) \<and> distinct (map identity ls)"
    using assms fetch_nodes_items [of repr_text fetch sina_nodes "[]" "[]" ls] by (simp add: fetch_symbols_def)
  define cs where "cs = map (\<lambda>l. l\<lparr>lookup_name := canonical_symbol_name (lookup_symbol l) (strip (lookup_name l))\<rparr>) ls"
  have cs: "map identity cs = map identity ls" by (simp add: cs_def)
  have "fetched_candidates (Inr (Some (map Some ls))) = Inr (sort_key identity cs)"
    using normalize_items [of ls "[]"] items by (simp add: fetched_candidates_def normalize_catalog_def cs_def)
  moreover have same: "mset (map identity (sort_key identity cs)) = mset (map identity ls)" unfolding cs [symmetric] mset_map by simp
  moreover have "distinct (map identity (sort_key identity cs))"
    using mset_eq_imp_distinct_iff [OF same] items by blast
  moreover have "\<forall>l \<in> set (sort_key identity cs). market_code_for_symbol (lookup_symbol l) = Some (lookup_market l)"
    using items unfolding cs_def set_sort source_item_def by simp
  ultimately show ?thesis by blast
qed

definition demo_fetch :: catalog_fetcher where
  "demo_fetch url =
     (if take (length catalog_base + 5) url = catalog_base @ ''Stock'' then Inr ''\"1\"''
      else Inr ''[{\"symbol\": \"sh600000\", \"code\": \"600000\", \"name\": \"Bank\"}]'')"

lemma demo_fetched_symbols:
  "fetch_symbols (\<lambda>_. []) demo_fetch = Inr [demo_item ''600000'' ''Bank''\<lparr>lookup_label := Some (catalog_label ''17'')\<rparr>]"
  by code_simp

lemma source_result_is_accepted_witness:
  "\<exists>candidates. fetched_candidates (Inr (Some [Some (demo_item ''600000'' ''Bank''\<lparr>lookup_label := Some (catalog_label ''17'')\<rparr>)])) = Inr candidates \<and>
    length candidates = 1"
proof -
  obtain candidates where c: "fetched_candidates (Inr (Some (map Some [demo_item ''600000'' ''Bank''\<lparr>lookup_label := Some (catalog_label ''17'')\<rparr>]))) = Inr candidates"
    and same: "mset (map identity candidates) = mset (map identity [demo_item ''600000'' ''Bank''\<lparr>lookup_label := Some (catalog_label ''17'')\<rparr>])"
    using source_result_is_accepted [OF demo_fetched_symbols] by blast
  have "length candidates = 1" using arg_cong [OF same, of size] by simp
  then show ?thesis using c by auto
qed

end
