(* ===== verification/Spec2Isabelle.thy ===== *)
theory Spec2Isabelle
  imports Queue_Properties Wire_Properties Market_Properties Direct_Properties Session_Properties
    Frida_Properties Document_Properties Public_Properties
    Daily_Properties Flow_Properties Symbol_Cache Research_Properties
    Account_Properties Market_Sessions Preopen_Properties Catalog_Properties
begin

text \<open>
  A verification development for the quotation service of \<open>level2_service/\<close>. The service takes
  requests for the data of a stock symbol (\<open>api.py\<close>), keeps them as tasks in a store (\<open>queue.py\<close>),
  reads the values of a task from two accounts of a trading application (\<open>parsed_values.py\<close>,
  \<open>direct_market.py\<close>), and streams market snapshots to browsers (\<open>market_data.py\<close>). Deployments
  reserve the store by a lease, and administrators log in (\<open>security.py\<close>).

  Conventions (\<open>Prelude\<close>, \<open>Clock\<close>). A Python dict is an association list in the order of its insertions
  with distinct keys (\<open>wf_dict\<close>; \<open>dget\<close>, \<open>dset\<close>, \<open>dpop\<close>), a set is a set, a text is the list of its UTF-8
  bytes, bytes are 8-bit words, a \<open>Decimal\<close> or a number of JSON is a rational, an aware \<open>datetime\<close> is the
  count of its microseconds, and a \<open>time.monotonic()\<close> reading is a rational number of seconds. Exceptions
  are values of a sum or an option. Everything nondeterministic or outside (clocks, random tokens,
  signatures, JSON texts, sockets, services, the order of threads) is an argument of a definition or a
  choice of a step relation. An operation under a lock, and the code between two \<open>await\<close>s, is one step.

  Tasks. \<open>Models\<close> is \<open>models.py\<close>: the record of a task, its captures, the normalisation of series, and the
  public document. \<open>Task_Queue\<close> and \<open>Lease\<close> are \<open>InMemoryStreams\<close> of \<open>queue.py\<close>, one definition for each method
  under the method's name, \<open>next_runnable\<close>, \<open>submit_or_refresh\<close>, \<open>deduplicate_by_symbol\<close>, \<open>complete_result\<close>,
  \<open>cleanup\<close> and the five lease operations among them. \<open>Queue_System\<close> makes them the steps of one system;
  \<open>Queue_Invariants\<close> and \<open>Queue_Dedup\<close> prove that every step keeps the FIFO, the aliases and the tasks
  consistent. \<open>Interfaces\<close> states what a client of the queue relies on as a locale, interpreted on the store
  in \<open>Queue_Order\<close>. \<open>Queue_Audit\<close> is about the event log, \<open>Queue_Lifecycle\<close> about the statuses of a task, and
  \<open>Queue_Submission\<close> about submissions. \<open>Queue_Properties\<close> holds the properties.

  The wire protocol of \<open>direct_market.py\<close>. \<open>Wire_Codec\<close>: Base64 with the custom alphabet, the outer packet and
  symbol patching. \<open>Snappy\<close>: \<open>decode_core_snappy\<close>, against a specification by elements. \<open>Gov\<close>: the column
  decompressor \<open>decode_core_gov\<close> with its bit reader. \<open>Symbols\<close>: the market of a symbol and sanitised error
  codes of \<open>parsed_values.py\<close>. \<open>Curve\<close>: \<open>_decode_frame\<close> of \<open>Core9528CurveDecoder\<close> with extensions, columns,
  times and formatted numbers. \<open>Wire_Properties\<close> holds the properties.

  Reading values directly (\<open>direct_market.py\<close>, \<open>parsed_values.py\<close>). \<open>Decimals\<close>: the arithmetic of the default
  decimal context, 28 digits and half-even, and its texts. \<open>Direct_Values\<close>: the rest of the curve decoder,
  from curves to the values and series of a task (\<open>core_decode\<close> is \<open>__call__\<close>). \<open>Read_Cache\<close>: reading through
  a bounded cache, with its guarantees proved in the locale \<open>reading_cache\<close>, among whose laws is the order in which a full cache
  evicts, and interpreted on the dictionaries of the code. \<open>Fund_Flow\<close>: \<open>FundFlowHttpClient\<close>. \<open>Dual_Source\<close>: \<open>DualAccountParsedValueSource\<close>
  and \<open>ShadowParsedValueSource\<close>. \<open>Transport\<close>: \<open>Core9528TemplateProtocol\<close>; a connection is the list of what
  arrives on it and when. \<open>Transport_Facts\<close>: no read passes its deadline, and frames are cut exactly.
  \<open>Warm_Pool\<close>: \<open>Core9528WarmPool\<close>; its critical sections are functions, its threads the relation
  \<open>pool_step\<close>, which follows every connection from its authentication to its close. \<open>Core_Client\<close>:
  \<open>Core9528Client\<close> over the pool, whose operations are shown to be sequences of steps of the pool.
  \<open>Demo_Session\<close> is one complete session on small inputs. \<open>Direct_Properties\<close> holds the properties.

  The accounts' sessions (\<open>app_sessions.py\<close>). \<open>Json_Text\<close>: \<open>json.loads\<close> and \<open>json.dumps\<close> of the standard library,
  in the compact form with UTF-8 texts (\<open>json_dumps\<close>) and in the default one with ASCII escapes and spaces (\<open>json_dumps_default\<close>); the
  locale \<open>json_writer\<close> proves once that what is written is read back, and is interpreted on both. \<open>Session_Material\<close>: the validation of captured material,
  the session bundle and its document. \<open>Session_Store\<close>: \<open>EncryptedFileSessionProvider\<close>, the two refreshers, and
  what the captures make of the messages of the phone's process. \<open>Session_Facts\<close>: validation is idempotent, and
  the transport's \<open>prepare\<close> accepts what it let through. \<open>Session_Properties\<close> holds the properties.

  Values from the phone's application (\<open>FridaParsedValueSource\<close> of \<open>parsed_values.py\<close>). \<open>Frida_Values\<close>: the
  values of a payload. \<open>Frida_Source\<close>: its series and market snapshot, and the reads, lookups and searches over
  readers that answer with a payload or an exception. \<open>Frida_Properties\<close> states by specifications what a
  payload's fund flows, a series' points and a search's candidates become.

  Stored tasks (\<open>RedisStreamsStore._serialize\<close> and \<open>_deserialize\<close> of \<open>queue.py\<close>). \<open>Instants\<close>: the texts of an instant,
  read back through the civil calendar. \<open>Task_Document\<close>: the document of a task, as it is written and read.
  \<open>Document_Properties\<close>: a task that can be stored reads back as it was from the default \<open>json.dumps\<close>, and what ends a run leaves such tasks.

  The public market (\<open>public_market.py\<close>). \<open>Text_Ops\<close>: splitting and joining texts. \<open>Public_Values\<close>: numbers, times
  and the snapshot of the fields of a quote. \<open>Public_Market\<close>: the Tencent and Sina providers, the source that falls
  back from one to the other and to a stored snapshot, and the enrichment of its snapshots by the direct source; a
  fetcher answers a URL with a body or an exception. \<open>Public_Properties\<close> holds the properties.

  Daily bars (\<open>daily_kline.py\<close>). \<open>Doubles\<close>: floats as rationals rounded to 53 binary digits, with the compensated
  \<open>sum\<close> and the root; the range is left out except for \<open>x ** 2\<close>, whose \<open>OverflowError\<close> is \<open>power_two\<close>. \<open>Daily_Kline\<close>: the web service's years, the validation of bars, the indicators, and the source with
  its cache, its fallback and its stale pages. \<open>Daily_Properties\<close> holds the properties, among them that the fallback onto
  the public market never succeeds.

  Fund-flow history (\<open>fund_flow_history.py\<close>, \<open>database_first_fund_flow.py\<close> and the fund-flow tables of
  \<open>research_store.py\<close>). \<open>Fund_History\<close>: the rows of a minute, their merge, the reads by age and by day, the monitor,
  and the source that reads the database first. \<open>Flow_Properties\<close>: what is recorded is served with its values.
  \<open>Symbol_Cache\<close> (\<open>symbol_cache.py\<close>): both caches of lookups as interpretations of one locale, and their agreement.

  Research (\<open>research_store.py\<close>, \<open>research_replay.py\<close>, \<open>research_monitor.py\<close>, \<open>research_push.py\<close>, \<open>premium_monitor.py\<close>).
  \<open>Research_Replay\<close>: the MACD, the conditions and markers of rules, and the replay of markers. \<open>Research_Store\<close>: the
  tables of days and minutes, what is read back from them, and the events claimed. \<open>Research_Push\<close>: the push configuration,
  the dispatcher, whose requests succeed or fail as an argument says, and the two monitors. \<open>Research_Properties\<close> holds the
  properties, among them that two kinds of condition are never met at the minutes that are stored.

  Accounts of the market pages (\<open>market_accounts.py\<close>). \<open>Tables\<close>: the statements of SQL over dictionaries of rows, and columns
  that number rows. \<open>Market_Accounts\<close>: users, groups of watched symbols and their monitoring, one definition per method, and the
  migration that runs at every start.
  \<open>Account_Facts\<close>: the invariant and the lemmas of each operation; \<open>Account_Ops\<close>: runs of operations and the lists that they refine;
  \<open>Account_Properties\<close>: the invariant, the refinement, the passwords, and what a
  start undoes. The hasher is an argument. \<open>Market_Sessions\<close>: both
  session stores as interpretations of one locale, the Redis store over any client with the documented effects of its commands.

  Before the opening (\<open>preopen_protocol.py\<close>, \<open>preopen_market.py\<close>). \<open>Preopen_Protocol\<close>: the decoders of the auction. \<open>Preopen_Market\<close>:
  the clients, the cache in Redis, and the source that reads a client or the public market by the phase; what a read meets is a
  \<open>preopen_world\<close>. \<open>Preopen_Properties\<close>: in the auction the public market has no part, and what stands in for a quote is of the day.

  The symbols (\<open>symbol_catalog.py\<close>). \<open>Symbol_Source\<close>: the pages and counts of the Sina service, and the identities in them.
  \<open>Symbol_Catalog\<close>: the versioned tables, the refresh that publishes a version, the lookups, and the search with \<open>LIKE\<close>.
  \<open>Catalog_Properties\<close>: the tables refine the last snapshot accepted, a search finds what holds its text literally, a refresh never
  loses more than a tenth, and what the source returns is accepted.

  The market side (\<open>market_data.py\<close>, \<open>workday_calendar.py\<close>, \<open>security.py\<close>). \<open>Calendar\<close>: statutory workdays,
  the trading calendar with its reload, market phases and refresh windows. \<open>Market_Models\<close>: the data
  classes. \<open>Broker\<close>: \<open>MarketDataBroker\<close>; \<open>Broker_Facts\<close>: its steps, labelled by the events they deliver, and
  the invariant that every pending event is announced in its subscriber's queue. \<open>Admin_Sessions\<close>:
  \<open>AdminSessionManager\<close> with its specifications, a history of failures and of grants.
  \<open>Market_Properties\<close> holds the properties.

  Recursion and bounds. Loops of the code are structural recursion or have a proved measure
  (\<open>add_workdays_loop\<close> ends with the coverage, \<open>read_exact_loop\<close> with the bytes wanted, the Snappy and
  column loops with the output). \<open>max_response_frames\<close> is the 64 rounds the code's own loop makes; no other
  fuel is used. The properties of histories hold for runs of any length.

  Not modelled. The operations of \<open>RedisStreamsStore\<close>, the second half of \<open>queue.py\<close>, keep the contract of the
  in-memory store with Lua scripts and transactions of the Redis server, whose commands would all be parameters. \<open>runner.py\<close> drives a
  phone by what its screen shows. \<open>api.py\<close>, \<open>market_api.py\<close> and \<open>main.py\<close> wire the parts to HTTP.
  \<open>safe_http.py\<close> is a transport over \<open>urllib\<close>, whose work is done by the platform's sockets, \<open>device_lifecycle.py\<close> a client of a
  service on the host, and \<open>request_logs.py\<close> the statements of one table of SQLite. Of the research modules the premium provider, the bodies of
  pushes and SQLite itself are left out. The deployment scripts run processes and move files. Of the modelled classes,
  the JavaScript that runs in the phone, \<open>stats()\<close> of the broker, \<open>persist_password_hash\<close>, \<open>_urllib_request\<close> and the
  headers of \<open>_http_get\<close> are left out.
\<close>

end
